(* ===== verification/Prelude.thy ===== *)
theory Prelude
  imports Complex_Main "HOL-Library.Multiset" "HOL-Library.AList" "HOL-Library.Sublist"
begin

text \<open>
  The shared base of the development: collections of facts, results of fallible Go functions,
  Go's fixed-width integer conversions, Go maps kept as association lists (their iteration order
  is never relied on by the theorems), and Go's \<open>sort.Slice\<close> with the interface of the
  comparison functions that the code passes to it.
\<close>

named_theorems go_simps \<open>evaluation rules of the Go library model\<close>
named_theorems frame_simps \<open>what an operation leaves unchanged\<close>
named_theorems inv_intros \<open>preservation of invariants\<close>

section \<open>Results\<close>

text \<open>
  A Go function that returns \<open>(value, error)\<close> becomes a \<open>go_error + 'a\<close>. \<open>Panic\<close> is the run-time
  panic of a nil dereference or an index out of range; every other error is an \<open>error\<close> value,
  named by the place that creates it.
\<close>

datatype go_error = Err string | Panic

type_synonym 'a result = "go_error + 'a"

definition ok :: "'a result \<Rightarrow> bool" where
  "ok r \<longleftrightarrow> (case r of Inl _ \<Rightarrow> False | Inr _ \<Rightarrow> True)"

text \<open>A chain of early returns succeeds when each of its links does.\<close>

lemma bind_Inr_iff: "(case r of Inl e \<Rightarrow> Inl e | Inr x \<Rightarrow> f x) = Inr y \<longleftrightarrow> (\<exists>x. r = Inr x \<and> f x = Inr y)"
  by (cases r) auto

lemma ok_simps [simp]: "ok (Inr x)" "\<not> ok (Inl e)"
  by (simp_all add: ok_def)

section \<open>Fixed-width integers\<close>

text \<open>
  Go's conversions and arithmetic on \<open>int32\<close>, \<open>int64\<close>/\<open>int\<close> (64 bits on the supported machines) and
  \<open>uint64\<close> keep the low bits. They are written out where a value can leave the range.
\<close>

definition wrap_i32 :: "int \<Rightarrow> int" where
  "wrap_i32 x = (x + 2147483648) mod 4294967296 - 2147483648"

definition wrap_i64 :: "int \<Rightarrow> int" where
  "wrap_i64 x = (x + 9223372036854775808) mod 18446744073709551616 - 9223372036854775808"

definition to_u64 :: "int \<Rightarrow> int" where
  "to_u64 x = x mod 18446744073709551616"

definition in_i32 :: "int \<Rightarrow> bool" where
  "in_i32 x \<longleftrightarrow> -2147483648 \<le> x \<and> x \<le> 2147483647"

definition in_i64 :: "int \<Rightarrow> bool" where
  "in_i64 x \<longleftrightarrow> -9223372036854775808 \<le> x \<and> x \<le> 9223372036854775807"

lemma wrap_i32_in_range: "in_i32 (wrap_i32 x)"
  unfolding in_i32_def wrap_i32_def by simp

lemma wrap_i32_id [simp]: "in_i32 x \<Longrightarrow> wrap_i32 x = x"
  unfolding in_i32_def wrap_i32_def by simp

lemma wrap_i64_in_range: "in_i64 (wrap_i64 x)"
  unfolding in_i64_def wrap_i64_def by simp

lemma wrap_i64_id [simp]: "in_i64 x \<Longrightarrow> wrap_i64 x = x"
  unfolding in_i64_def wrap_i64_def by simp

lemma to_u64_id [simp]: "0 \<le> x \<Longrightarrow> x < 18446744073709551616 \<Longrightarrow> to_u64 x = x"
  unfolding to_u64_def by simp

lemma to_u64_nonneg [simp]: "0 \<le> to_u64 x"
  unfolding to_u64_def by simp

text \<open>Go's integer division and remainder truncate towards zero.\<close>

definition go_div :: "int \<Rightarrow> int \<Rightarrow> int" where
  "go_div a b = sgn a * sgn b * (\<bar>a\<bar> div \<bar>b\<bar>)"

lemma go_div_pos [simp]: "0 \<le> a \<Longrightarrow> 0 < b \<Longrightarrow> go_div a b = a div b"
  unfolding go_div_def by (cases "a = 0") (simp_all add: sgn_if)

section \<open>Go maps as association lists\<close>

text \<open>
  A Go map is an association list with distinct keys; \<open>m[k]\<close> is \<^const>\<open>map_of\<close>, \<open>m[k] = v\<close> is
  \<^const>\<open>AList.update\<close>, \<open>delete(m, k)\<close> is \<^const>\<open>AList.delete\<close>. \<open>for k, v := range m\<close> visits the
  pairs in an unspecified order: the model visits them in the order of the list, and the theorems
  that depend on a visit are stated for an arbitrary list.
\<close>

type_synonym ('k, 'v) gomap = "('k \<times> 'v) list"

definition wf_map :: "('k, 'v) gomap \<Rightarrow> bool" where
  "wf_map m \<longleftrightarrow> distinct (map fst m)"

definition map_len :: "('k, 'v) gomap \<Rightarrow> int" where
  "map_len m = int (length m)"

lemma wf_map_empty [simp, inv_intros]: "wf_map []"
  by (simp add: wf_map_def)

lemma wf_map_update [simp, inv_intros]: "wf_map m \<Longrightarrow> wf_map (AList.update k v m)"
  unfolding wf_map_def by (rule distinct_update)

lemma wf_map_delete [simp, inv_intros]: "wf_map m \<Longrightarrow> wf_map (AList.delete k m)"
  unfolding wf_map_def by (rule distinct_delete)

lemma update_fresh: "k \<notin> fst ` set m \<Longrightarrow> AList.update k v m = m @ [(k, v)]"
  by (induction m) auto

lemma map_of_update [simp]: "map_of (AList.update k v m) = (map_of m)(k \<mapsto> v)"
  by (rule update_conv')

lemma map_of_delete [simp]: "map_of (AList.delete k m) = (map_of m)(k := None)"
  by (rule delete_conv')

lemma wf_map_mset_update:
  assumes "wf_map m"
  shows "mset (AList.update k v m) =
    add_mset (k, v) (case map_of m k of None \<Rightarrow> mset m | Some w \<Rightarrow> mset m - {#(k, w)#})"
  using assms unfolding wf_map_def
proof (induction m)
  case Nil
  then show ?case by simp
next
  case (Cons p m)
  obtain k' w' where p: "p = (k', w')" by (cases p)
  show ?case
  proof (cases "k' = k")
    case True
    then show ?thesis by (simp add: p)
  next
    case False
    have mem: "map_of m k = Some w \<Longrightarrow> (k, w) \<in># mset m" for w
      by (simp add: map_of_SomeD)
    from False Cons show ?thesis
      by (auto simp: p split: option.splits dest: mem)
  qed
qed

lemma wf_map_mset_delete:
  assumes "wf_map m"
  shows "mset (AList.delete k m) =
    (case map_of m k of None \<Rightarrow> mset m | Some w \<Rightarrow> mset m - {#(k, w)#})"
  using assms unfolding wf_map_def
proof (induction m)
  case Nil
  then show ?case by simp
next
  case (Cons p m)
  obtain k' w' where p: "p = (k', w')" by (cases p)
  show ?case
  proof (cases "k' = k")
    case True
    with Cons.prems have "AList.delete k m = m"
      by (auto simp: p intro!: delete_idem)
    with True show ?thesis by (simp add: p)
  next
    case False
    have mem: "map_of m k = Some w \<Longrightarrow> (k, w) \<in># mset m" for w
      by (simp add: map_of_SomeD)
    from False Cons show ?thesis
      by (auto simp: p split: option.splits dest: mem)
  qed
qed

lemma set_map_filter_iff: "y \<in> set (List.map_filter f xs) \<longleftrightarrow> (\<exists>x\<in>set xs. f x = Some y)"
  by (induction xs) (auto simp: List.map_filter_simps split: option.splits)

section \<open>sort.Slice\<close>

text \<open>
  \<open>sort.Slice(xs, less)\<close> permutes \<open>xs\<close> so that no later element is \<open>less\<close> than an earlier one. The
  model is insertion sort; \<open>slice_order\<close> is what the callback promises, and under it every
  permutation that \<open>sort.Slice\<close> may return is the one of the model as soon as the callback separates
  the elements (\<open>slice_sort_unique\<close>).
\<close>

fun sort_ins :: "('a \<Rightarrow> 'a \<Rightarrow> bool) \<Rightarrow> 'a \<Rightarrow> 'a list \<Rightarrow> 'a list" where
  "sort_ins lt x [] = [x]"
| "sort_ins lt x (y # ys) = (if lt y x then y # sort_ins lt x ys else x # y # ys)"

definition go_sort :: "('a \<Rightarrow> 'a \<Rightarrow> bool) \<Rightarrow> 'a list \<Rightarrow> 'a list" where
  "go_sort lt xs = foldr (sort_ins lt) xs []"

definition slice_sorted :: "('a \<Rightarrow> 'a \<Rightarrow> bool) \<Rightarrow> 'a list \<Rightarrow> bool" where
  "slice_sorted lt xs \<longleftrightarrow> sorted_wrt (\<lambda>x y. \<not> lt y x) xs"

lemma mset_sort_ins [simp]: "mset (sort_ins lt x xs) = add_mset x (mset xs)"
  by (induction xs) auto

lemma mset_go_sort [simp]: "mset (go_sort lt xs) = mset xs"
  by (induction xs) (simp_all add: go_sort_def)

lemma set_sort_ins [simp]: "set (sort_ins lt x xs) = insert x (set xs)"
  by (metis mset_sort_ins set_mset_add_mset_insert set_mset_mset)

lemma set_go_sort [simp]: "set (go_sort lt xs) = set xs"
  by (metis mset_go_sort set_mset_mset)

lemma length_go_sort [simp]: "length (go_sort lt xs) = length xs"
  by (metis mset_go_sort size_mset)

lemma distinct_go_sort [simp]: "distinct (go_sort lt xs) = distinct xs"
  by (metis mset_go_sort mset_eq_imp_distinct_iff)

lemma go_sort_Nil [simp]: "go_sort lt [] = []"
  by (simp add: go_sort_def)

lemma go_sort_eq_Nil [simp]: "go_sort lt xs = [] \<longleftrightarrow> xs = []"
  by (metis length_0_conv length_go_sort)

lemma go_sort_Cons: "go_sort lt (x # xs) = sort_ins lt x (go_sort lt xs)"
  by (simp add: go_sort_def)

locale slice_order =
  fixes lt :: "'a \<Rightarrow> 'a \<Rightarrow> bool"
  assumes less_irrefl: "\<not> lt x x"
    and less_trans: "lt x y \<Longrightarrow> lt y z \<Longrightarrow> lt x z"
    and less_neg_trans: "\<not> lt x y \<Longrightarrow> \<not> lt y z \<Longrightarrow> \<not> lt x z"
begin

lemma slice_less_asym: "lt x y \<Longrightarrow> \<not> lt y x"
  using less_trans less_irrefl by blast

lemma sorted_sort_ins: "slice_sorted lt xs \<Longrightarrow> slice_sorted lt (sort_ins lt x xs)"
proof (induction xs)
  case Nil
  then show ?case by (simp add: slice_sorted_def)
next
  case (Cons y ys)
  show ?case
  proof (cases "lt y x")
    case True
    with Cons show ?thesis
      by (auto simp: slice_sorted_def dest: slice_less_asym)
  next
    case False
    with Cons.prems show ?thesis
      by (auto simp: slice_sorted_def dest: less_neg_trans)
  qed
qed

lemma slice_sort_sorted: "slice_sorted lt (go_sort lt xs)"
proof (induction xs)
  case Nil
  then show ?case by (simp add: slice_sorted_def)
next
  case (Cons x xs)
  then show ?case by (simp add: go_sort_Cons sorted_sort_ins)
qed

lemma slice_sorted_unique:
  assumes "slice_sorted lt xs" "slice_sorted lt ys" "mset xs = mset ys"
    and "\<And>x y. x \<in> set xs \<Longrightarrow> y \<in> set xs \<Longrightarrow> x \<noteq> y \<Longrightarrow> lt x y \<or> lt y x"
  shows "xs = ys"
  using assms
proof (induction xs arbitrary: ys)
  case Nil
  then show ?case by simp
next
  case (Cons x xs)
  then obtain y ys' where ys: "ys = y # ys'" by (cases ys) auto
  have sets: "set ys = set (x # xs)"
    using Cons.prems(3) by (metis set_mset_mset)
  have "x = y"
  proof (rule ccontr)
    assume ne: "x \<noteq> y"
    have "y \<in> set (x # xs)" unfolding sets[symmetric] by (simp add: ys)
    moreover have "x \<in> set ys" unfolding sets by simp
    ultimately have mem: "x \<in> set ys'" "y \<in> set xs" using ne ys by auto
    from Cons.prems(1,2) ys mem have "\<not> lt y x" "\<not> lt x y"
      by (auto simp: slice_sorted_def)
    with Cons.prems(4)[of x y] ne mem show False by auto
  qed
  moreover have "xs = ys'"
    using Cons.prems ys \<open>x = y\<close> by (intro Cons.IH) (auto simp: slice_sorted_def)
  ultimately show ?case by (simp add: ys)
qed

lemma slice_sort_unique:
  assumes "slice_sorted lt ys" "mset ys = mset xs"
    and "\<And>x y. x \<in> set xs \<Longrightarrow> y \<in> set xs \<Longrightarrow> x \<noteq> y \<Longrightarrow> lt x y \<or> lt y x"
  shows "ys = go_sort lt xs"
proof (rule slice_sorted_unique[OF assms(1) slice_sort_sorted])
  show "mset ys = mset (go_sort lt xs)" using assms(2) by simp
  show "lt x y \<or> lt y x" if "x \<in> set ys" "y \<in> set ys" "x \<noteq> y" for x y
    using that assms(2,3) by (metis set_mset_mset)
qed

lemma slice_sort_head:
  assumes "go_sort lt xs = y # ys" "x \<in> set xs"
  shows "\<not> lt x y"
proof -
  have "slice_sorted lt (y # ys)" using slice_sort_sorted[of xs] assms(1) by simp
  moreover have "x \<in> set (y # ys)" using assms by (metis set_go_sort)
  ultimately show ?thesis by (auto simp: slice_sorted_def less_irrefl)
qed

end

text \<open>\<open>sort.Ints\<close>.\<close>

interpretation int_slice: slice_order "(<) :: int \<Rightarrow> int \<Rightarrow> bool"
  by unfold_locales auto

definition sort_ints :: "int list \<Rightarrow> int list" where
  "sort_ints xs = go_sort (<) xs"

lemma set_sort_ints [simp]: "set (sort_ints xs) = set xs"
  and mset_sort_ints [simp]: "mset (sort_ints xs) = mset xs"
  and length_sort_ints [simp]: "length (sort_ints xs) = length xs"
  and distinct_sort_ints [simp]: "distinct (sort_ints xs) = distinct xs"
  by (simp_all add: sort_ints_def)

lemma sorted_sort_ints [simp]: "sorted (sort_ints xs)"
  using int_slice.slice_sort_sorted[of xs]
  by (simp add: sort_ints_def slice_sorted_def not_less)

lemma sort_ints_unique: "sorted ys \<Longrightarrow> mset ys = mset xs \<Longrightarrow> sort_ints xs = ys"
  by (metis mset_sort_ints properties_for_sort sorted_sort_ints)

end
