(* ===== verification/GoStrings.thy ===== *)
theory GoStrings
  imports Prelude
begin

text \<open>
  The part of Go's \<open>strings\<close> and \<open>strconv\<close> packages that the program uses. A Go string is a byte
  sequence and becomes a \<^typ>\<open>string\<close>; case mapping and white space are those of ASCII, the
  alphabet of the cgroup paths, cpusets, labels and sysfs files the program reads.
\<close>

section \<open>Searching and splitting\<close>

definition has_prefix :: "string \<Rightarrow> string \<Rightarrow> bool" where
  "has_prefix s p \<longleftrightarrow> take (length p) s = p"

definition has_suffix :: "string \<Rightarrow> string \<Rightarrow> bool" where
  "has_suffix s p \<longleftrightarrow> has_prefix (rev s) (rev p)"

definition trim_prefix :: "string \<Rightarrow> string \<Rightarrow> string" where
  "trim_prefix s p = (if has_prefix s p then drop (length p) s else s)"

text \<open>\<open>strings.Cut(s, sep)\<close>: the parts before and after the first \<open>sep\<close>, if there is one.\<close>

fun go_cut :: "string \<Rightarrow> string \<Rightarrow> (string \<times> string) option" where
  "go_cut sep [] = (if sep = [] then Some ([], []) else None)"
| "go_cut sep (c # cs) =
     (if has_prefix (c # cs) sep then Some ([], drop (length sep) (c # cs))
      else map_option (\<lambda>(a, b). (c # a, b)) (go_cut sep cs))"

definition contains :: "string \<Rightarrow> string \<Rightarrow> bool" where
  "contains s sub \<longleftrightarrow> go_cut sub s \<noteq> None"

lemma go_cut_Some:
  "go_cut sep s = Some (a, b) \<Longrightarrow> s = a @ sep @ b"
proof (induction s arbitrary: a b)
  case Nil
  then show ?case by (auto split: if_splits)
next
  case (Cons c cs)
  show ?case
  proof (cases "has_prefix (c # cs) sep")
    case True
    with Cons.prems have "a = []" "b = drop (length sep) (c # cs)" by simp_all
    moreover have "take (length sep) (c # cs) = sep"
      using True by (simp add: has_prefix_def)
    ultimately show ?thesis by (metis append_Nil append_take_drop_id)
  next
    case False
    with Cons show ?thesis by auto
  qed
qed

lemma go_cut_length: "go_cut sep s = Some (a, b) \<Longrightarrow> sep \<noteq> [] \<Longrightarrow> length b < length s"
  by (drule go_cut_Some) (cases sep, auto)

text \<open>\<open>strings.Split(s, sep)\<close> for the non-empty separators the program uses.\<close>

function go_split :: "string \<Rightarrow> string \<Rightarrow> string list" where
  "go_split sep s =
     (if sep = [] then [s]
      else (case go_cut sep s of None \<Rightarrow> [s] | Some (a, b) \<Rightarrow> a # go_split sep b))"
  by pat_completeness auto
termination
  by (relation "measure (length o snd)") (auto dest: go_cut_length)

declare go_split.simps [simp del]

text \<open>\<open>strings.SplitN(s, sep, 2)\<close>.\<close>

definition go_splitn2 :: "string \<Rightarrow> string \<Rightarrow> string list" where
  "go_splitn2 sep s = (case go_cut sep s of None \<Rightarrow> [s] | Some (a, b) \<Rightarrow> [a, b])"

fun go_join :: "string \<Rightarrow> string list \<Rightarrow> string" where
  "go_join sep [] = []"
| "go_join sep [x] = x"
| "go_join sep (x # y # xs) = x @ sep @ go_join sep (y # xs)"

lemma go_split_nonempty [simp]: "go_split sep s \<noteq> []"
  by (subst go_split.simps) (auto split: option.splits)

lemma go_join_Cons: "xs \<noteq> [] \<Longrightarrow> go_join sep (x # xs) = x @ sep @ go_join sep xs"
  by (cases xs) auto

lemma go_join_split: "sep \<noteq> [] \<Longrightarrow> go_join sep (go_split sep s) = s"
proof (induction sep s rule: go_split.induct)
  case (1 sep s)
  show ?case
  proof (cases "go_cut sep s")
    case None
    with 1 show ?thesis by (simp add: go_split.simps[of sep s])
  next
    case (Some ab)
    obtain a b where ab: "ab = (a, b)" by (cases ab)
    have "go_join sep (go_split sep b) = b" using 1 Some ab by simp
    with 1 Some ab show ?thesis
      by (simp add: go_split.simps[of sep s] go_join_Cons go_cut_Some[symmetric])
  qed
qed

text \<open>A single-character separator that does not occur leaves the text in one piece.\<close>

lemma go_cut_char_None: "c \<notin> set s \<Longrightarrow> go_cut [c] s = None"
  by (induction s) (auto simp: has_prefix_def)

lemma go_cut_char_app: "c \<notin> set a \<Longrightarrow> go_cut [c] (a @ c # b) = Some (a, b)"
  by (induction a) (auto simp: has_prefix_def)

lemma go_split_char_None: "c \<notin> set s \<Longrightarrow> go_split [c] s = [s]"
  by (simp add: go_split.simps[of "[c]" s] go_cut_char_None)

lemma go_split_char_app: "c \<notin> set a \<Longrightarrow> go_split [c] (a @ c # b) = a # go_split [c] b"
  by (simp add: go_split.simps[of "[c]" "a @ c # b"] go_cut_char_app)

lemma go_split_join_char:
  "xs \<noteq> [] \<Longrightarrow> \<forall>x\<in>set xs. c \<notin> set x \<Longrightarrow> go_split [c] (go_join [c] xs) = xs"
proof (induction "[c]" xs rule: go_join.induct)
  case 1
  then show ?case by simp
next
  case (2 x)
  then show ?case by (simp add: go_split_char_None)
next
  case (3 x y xs)
  then show ?case by (simp add: go_split_char_app)
qed

lemma go_split_app: "go_split [c] (a @ c # b) = go_split [c] a @ go_split [c] b"
proof (induction "length a" arbitrary: a rule: less_induct)
  case less
  show ?case
  proof (cases "c \<in> set a")
    case False
    then show ?thesis by (simp add: go_split_char_app go_split_char_None)
  next
    case True
    then obtain x y where a: "a = x @ c # y" "c \<notin> set x" by (metis split_list_first)
    have "go_split [c] (y @ c # b) = go_split [c] y @ go_split [c] b" using less[of y] a(1) by simp
    then show ?thesis using go_split_char_app[OF a(2), of "y @ c # b"] go_split_char_app[OF a(2), of y] a(1) by simp
  qed
qed

lemma contains_char: "contains s [c] \<longleftrightarrow> c \<in> set s"
proof (cases "c \<in> set s")
  case True
  then obtain a b where "s = a @ c # b" "c \<notin> set a"
    by (metis split_list_first)
  then show ?thesis by (simp add: contains_def go_cut_char_app)
next
  case False
  then show ?thesis by (simp add: contains_def go_cut_char_None)
qed

section \<open>White space and case\<close>

definition is_space :: "char \<Rightarrow> bool" where
  "is_space c \<longleftrightarrow> c \<in> {CHR '' '', CHR 0x09, CHR 0x0A, CHR 0x0B, CHR 0x0C, CHR 0x0D}"

definition trim_space :: "string \<Rightarrow> string" where
  "trim_space s = rev (dropWhile is_space (rev (dropWhile is_space s)))"

lemma trim_space_id: "s = [] \<or> (\<not> is_space (hd s) \<and> \<not> is_space (last s)) \<Longrightarrow> trim_space s = s"
proof (cases "s = []")
  case False
  moreover assume "s = [] \<or> (\<not> is_space (hd s) \<and> \<not> is_space (last s))"
  ultimately have "dropWhile is_space s = s" "dropWhile is_space (rev s) = rev s"
    by (simp_all add: dropWhile_eq_self_iff hd_rev)
  then show ?thesis by (simp add: trim_space_def)
qed (simp add: trim_space_def)

lemma trim_space_no_space: "\<forall>c\<in>set s. \<not> is_space c \<Longrightarrow> trim_space s = s"
  by (intro trim_space_id) (cases "s = []", auto)

lemma trim_space_ends:
  "trim_space s \<noteq> [] \<Longrightarrow> \<not> is_space (hd (trim_space s)) \<and> \<not> is_space (last (trim_space s))"
proof -
  assume ne: "trim_space s \<noteq> []"
  let ?t = "dropWhile is_space s"
  let ?u = "dropWhile is_space (rev ?t)"
  have u: "?u \<noteq> []" using ne by (simp add: trim_space_def)
  then have t: "?t \<noteq> []" by (metis dropWhile.simps(1) rev.simps(1))
  have "\<not> is_space (hd ?u)" using u by (rule hd_dropWhile)
  moreover have "hd (rev ?u) = hd ?t"
  proof -
    obtain pre where "rev ?t = pre @ ?u" by (metis takeWhile_dropWhile_id)
    then have "?t = rev ?u @ rev pre" by (metis rev_append rev_rev_ident)
    with u show ?thesis by (metis hd_append2 rev_is_Nil_conv)
  qed
  moreover have "\<not> is_space (hd ?t)" using t by (rule hd_dropWhile)
  ultimately show ?thesis using u by (simp add: trim_space_def last_rev)
qed

lemma trim_space_idem [simp]: "trim_space (trim_space s) = trim_space s"
  by (rule trim_space_id) (use trim_space_ends in blast)

definition to_lower_char :: "char \<Rightarrow> char" where
  "to_lower_char c =
     (let n = of_char c :: nat in if 65 \<le> n \<and> n \<le> 90 then char_of (n + 32) else c)"

definition to_lower :: "string \<Rightarrow> string" where
  "to_lower s = map to_lower_char s"

text \<open>\<open>strings.ReplaceAll(s, a, b)\<close> for one-character \<open>a\<close> and \<open>b\<close>.\<close>

definition replace_char :: "char \<Rightarrow> char \<Rightarrow> string \<Rightarrow> string" where
  "replace_char a b s = map (\<lambda>c. if c = a then b else c) s"

text \<open>The order of Go strings is the lexicographic order of their bytes.\<close>

fun str_less :: "string \<Rightarrow> string \<Rightarrow> bool" where
  "str_less s [] = False"
| "str_less [] (c # cs) = True"
| "str_less (a # as) (b # bs) =
     ((of_char a :: nat) < of_char b \<or> (a = b \<and> str_less as bs))"

lemma str_less_irrefl [simp]: "\<not> str_less s s"
  by (induction s) auto

lemma str_less_linear: "str_less s t \<or> s = t \<or> str_less t s"
proof (induction s t rule: str_less.induct)
  case (1 s)
  then show ?case by (cases s) auto
next
  case (3 a as b bs)
  then show ?case by (metis linorder_neqE_nat of_char_eq_iff str_less.simps(3))
qed auto

lemma str_less_trans: "str_less s t \<Longrightarrow> str_less t u \<Longrightarrow> str_less s u"
proof (induction s t arbitrary: u rule: str_less.induct)
  case (2 c cs)
  then show ?case by (cases u) auto
next
  case (3 a as b bs)
  then show ?case by (cases u) (auto dest: less_trans)
qed simp

lemma str_less_asym: "str_less s t \<Longrightarrow> \<not> str_less t s"
  using str_less_trans str_less_irrefl by blast

section \<open>Decimal numbers\<close>

text \<open>\<open>strconv.Itoa\<close>, \<open>fmt.Sprintf("%d")\<close> and \<open>strconv.FormatInt(_, 10)\<close>.\<close>

definition digit_char :: "int \<Rightarrow> char" where
  "digit_char d = ''0123456789'' ! nat d"

function digits_of :: "int \<Rightarrow> string" where
  "digits_of n = (if n < 10 then [digit_char (max 0 n)] else digits_of (n div 10) @ [digit_char (n mod 10)])"
  by pat_completeness auto
termination
  by (relation "measure nat") auto

declare digits_of.simps [simp del]

definition itoa :: "int \<Rightarrow> string" where
  "itoa n = (if n < 0 then CHR ''-'' # digits_of (- n) else digits_of n)"

definition digit_val :: "char \<Rightarrow> int option" where
  "digit_val c = (let n = int (of_char c) in if 48 \<le> n \<and> n \<le> 57 then Some (n - 48) else None)"

fun parse_digits :: "int \<Rightarrow> string \<Rightarrow> int option" where
  "parse_digits acc [] = Some acc"
| "parse_digits acc (c # cs) =
     (case digit_val c of None \<Rightarrow> None | Some d \<Rightarrow> parse_digits (10 * acc + d) cs)"

lemma parse_digits_nonneg: "parse_digits acc s = Some n \<Longrightarrow> 0 \<le> acc \<Longrightarrow> 0 \<le> n"
  by (induction s arbitrary: acc)
    (auto simp: digit_val_def Let_def split: option.splits if_splits)

definition parse_nat :: "string \<Rightarrow> int option" where
  "parse_nat s = (if s = [] then None else parse_digits 0 s)"

text \<open>\<open>strconv.Atoi\<close>: an optional sign and decimal digits, within 64 bits.\<close>

definition atoi :: "string \<Rightarrow> int option" where
  "atoi s =
     (case (case s of
              [] \<Rightarrow> None
            | c # cs \<Rightarrow> if c = CHR ''-'' then map_option uminus (parse_nat cs)
                      else if c = CHR ''+'' then parse_nat cs
                      else parse_nat s) of
        None \<Rightarrow> None
      | Some n \<Rightarrow> if in_i64 n then Some n else None)"

lemma digit_cases:
  "0 \<le> d \<Longrightarrow> d < 10 \<Longrightarrow> d \<in> {0, 1, 2, 3, 4, 5, 6, 7, 8, 9 :: int}"
  by (simp, presburger)

lemma digit_val_char [simp]: "0 \<le> d \<Longrightarrow> d < 10 \<Longrightarrow> digit_val (digit_char d) = Some d"
  by (drule (1) digit_cases) (auto simp: digit_val_def digit_char_def nth_Cons')

lemma parse_digits_append:
  "parse_digits acc (s @ t) = (case parse_digits acc s of None \<Rightarrow> None | Some a \<Rightarrow> parse_digits a t)"
  by (induction s arbitrary: acc) (auto split: option.splits)

lemma parse_digits_of: "0 \<le> n \<Longrightarrow> parse_digits 0 (digits_of n) = Some n"
proof (induction n rule: digits_of.induct)
  case (1 n)
  show ?case
  proof (cases "n < 10")
    case True
    with 1 show ?thesis by (simp add: digits_of.simps[of n])
  next
    case False
    with 1 have "parse_digits 0 (digits_of (n div 10)) = Some (n div 10)" by simp
    with False show ?thesis
      by (simp add: digits_of.simps[of n] parse_digits_append)
  qed
qed

lemma digits_of_nonempty [simp]: "digits_of n \<noteq> []"
  by (subst digits_of.simps) simp

definition is_digit :: "char \<Rightarrow> bool" where
  "is_digit c \<longleftrightarrow> c \<in> set ''0123456789''"

lemma digit_char_is_digit: "0 \<le> d \<Longrightarrow> d < 10 \<Longrightarrow> is_digit (digit_char d)"
  by (drule (1) digit_cases) (auto simp: is_digit_def digit_char_def nth_Cons')

lemma digits_of_digits: "c \<in> set (digits_of n) \<Longrightarrow> is_digit c"
proof (induction n rule: digits_of.induct)
  case (1 n)
  then show ?case
    by (subst (asm) (2) digits_of.simps) (auto split: if_splits intro!: digit_char_is_digit)
qed

lemma itoa_chars: "c \<in> set (itoa n) \<Longrightarrow> is_digit c \<or> c = CHR ''-''"
  by (auto simp: itoa_def split: if_splits dest: digits_of_digits)

lemma itoa_nonneg_chars: "0 \<le> n \<Longrightarrow> c \<in> set (itoa n) \<Longrightarrow> is_digit c"
  by (auto simp: itoa_def dest: digits_of_digits)

lemma itoa_nonempty [simp]: "itoa n \<noteq> []"
  by (simp add: itoa_def)

lemma atoi_itoa: "in_i64 n \<Longrightarrow> atoi (itoa n) = Some n"
proof -
  assume r: "in_i64 n"
  show ?thesis
  proof (cases "n < 0")
    case True
    then show ?thesis
      using r parse_digits_of[of "- n"] by (simp add: atoi_def itoa_def parse_nat_def)
  next
    case False
    obtain c cs where s: "digits_of n = c # cs"
      by (cases "digits_of n") auto
    then have "is_digit c" using digits_of_digits[of c n] by simp
    then have "c \<noteq> CHR ''-''" "c \<noteq> CHR ''+''" by (auto simp: is_digit_def)
    with s False r parse_digits_of[of n] show ?thesis
      by (simp add: atoi_def itoa_def parse_nat_def)
  qed
qed

lemma itoa_inj: "itoa m = itoa n \<Longrightarrow> in_i64 m \<Longrightarrow> in_i64 n \<Longrightarrow> m = n"
  by (metis atoi_itoa option.inject)

lemma is_digit_not_space: "is_digit c \<Longrightarrow> \<not> is_space c"
  by (auto simp: is_digit_def is_space_def)

lemma trim_itoa [simp]: "trim_space (itoa n) = itoa n"
proof (rule trim_space_no_space)
  have "\<not> is_space (CHR ''-'')" by (simp add: is_space_def)
  then show "\<forall>c\<in>set (itoa n). \<not> is_space c"
    using itoa_chars is_digit_not_space by blast
qed

lemma itoa_no_comma: "CHR '','' \<notin> set (itoa n)"
  by (auto dest: itoa_chars simp: is_digit_def)

lemma itoa_nonneg_no_dash: "0 \<le> n \<Longrightarrow> CHR ''-'' \<notin> set (itoa n)"
  by (auto dest: itoa_nonneg_chars simp: is_digit_def)

section \<open>Fields\<close>

text \<open>\<open>strings.Fields\<close>: the maximal runs of characters that are not white space.\<close>

fun fields_loop :: "string \<Rightarrow> string \<Rightarrow> string list" where
  "fields_loop acc [] = (if acc = [] then [] else [rev acc])"
| "fields_loop acc (c # cs) =
     (if is_space c then (if acc = [] then fields_loop [] cs else rev acc # fields_loop [] cs)
      else fields_loop (c # acc) cs)"

definition go_fields :: "string \<Rightarrow> string list" where
  "go_fields s = fields_loop [] s"

lemma fields_loop_word:
  "\<forall>c\<in>set w. \<not> is_space c \<Longrightarrow> fields_loop acc (w @ s) = fields_loop (rev w @ acc) s"
  by (induction w arbitrary: acc) auto

lemma go_fields_word:
  "w \<noteq> [] \<Longrightarrow> \<forall>c\<in>set w. \<not> is_space c \<Longrightarrow> is_space b \<Longrightarrow> go_fields (w @ b # s) = w # go_fields s"
  by (simp add: go_fields_def fields_loop_word)

lemma go_fields_last: "w \<noteq> [] \<Longrightarrow> \<forall>c\<in>set w. \<not> is_space c \<Longrightarrow> go_fields w = [w]"
  using fields_loop_word[of w "[]" "[]"] by (simp add: go_fields_def)

lemma go_fields_space: "is_space b \<Longrightarrow> go_fields (b # s) = go_fields s"
  by (simp add: go_fields_def)

text \<open>\<open>strconv.ParseUint(s, 10, 64)\<close>.\<close>

definition parse_u64 :: "string \<Rightarrow> int option" where
  "parse_u64 s =
     (case parse_nat s of None \<Rightarrow> None | Some n \<Rightarrow> if n < 18446744073709551616 then Some n else None)"

lemma parse_nat_itoa: "0 \<le> n \<Longrightarrow> parse_nat (itoa n) = Some n"
  by (simp add: parse_nat_def itoa_def parse_digits_of)

lemma parse_u64_itoa: "0 \<le> n \<Longrightarrow> n < 18446744073709551616 \<Longrightarrow> parse_u64 (itoa n) = Some n"
  by (simp add: parse_u64_def parse_nat_itoa)

end
