(* ===== verification/SysTopology.thy ===== *)
theory SysTopology
  imports GoStrings
begin

text \<open>
  The hardware topology (\<^verbatim>\<open>pkg/kunpeng-tap/sysfs/system\<close>): CPUs, NUMA nodes, packages, dies,
  clusters and GPUs as the sysfs readers find them, the aggregation of CPUs into packages, and the
  checks of \<open>ValidateTopology\<close>. A \<open>cpuset.CPUSet\<close> (a library type) is a finite set of CPU numbers;
  its \<open>List\<close> is sorted. What a sysfs file holds is a field of the snapshot that the discovery
  functions take: \<open>None\<close> where the file cannot be read or parsed.
\<close>

section \<open>Data\<close>

type_synonym cpu_set = "int set"

definition cpu_list :: "cpu_set \<Rightarrow> int list" where
  "cpu_list s = sorted_list_of_set s"

record mem_info =
  MemTotal :: int
  MemFree :: int
  MemUsed :: int
  MemSet :: cpu_set

definition zero_mem_info :: mem_info where
  "zero_mem_info = \<lparr>MemTotal = 0, MemFree = 0, MemUsed = 0, MemSet = {}\<rparr>"

record sys_cpu =
  c_id :: int
  c_pkg :: int
  c_die :: int
  c_node :: int
  c_core :: int
  c_threads :: cpu_set
  c_isolated :: bool
  c_online :: bool

datatype memory_type = MemoryTypeDRAM

record sys_node =
  n_id :: int
  n_pkg :: int
  n_die :: int
  n_cpus :: cpu_set
  n_distance :: "int list"
  n_hasMemory :: bool
  n_normalMem :: bool
  n_memoryType :: memory_type
  n_meminfo :: "string option"  \<comment> \<open>contents of the node's meminfo file\<close>

record cpu_package =
  pk_id :: int
  pk_cpus :: cpu_set
  pk_nodes :: cpu_set
  pk_dies :: cpu_set
  pk_dieCPUs :: "(int, cpu_set) gomap"
  pk_dieNodes :: "(int, cpu_set) gomap"

record sys_cluster =
  cl_id :: int
  cl_nodeID :: int
  cl_cpus :: cpu_set

record cluster_info =
  ci_Clusters :: "(int, sys_cluster) gomap"
  ci_NodeClusters :: "(int, int list) gomap"
  ci_CPUCluster :: "(int, int) gomap"

record sys_gpu =
  g_id :: int
  g_nodeID :: int
  g_pciAddress :: string
  g_vendorID :: string
  g_deviceID :: string
  g_deviceClass :: string

text \<open>The maps that are nil before their discovery are options.\<close>

record system =
  s_packages :: "(int, cpu_package) gomap"
  s_nodes :: "(int, sys_node) gomap"
  s_clusters :: "(int, sys_cluster) gomap option"
  s_cpus :: "(int, sys_cpu) gomap"
  s_offline :: cpu_set
  s_isolated :: cpu_set
  s_threadsPerCore :: int
  s_gpus :: "(int, sys_gpu) gomap"
  s_clusterInfo :: "cluster_info option"
  s_supportsCluster :: bool  \<comment> \<open>cached answer of \<open>SupportsClusterFeature\<close>\<close>

section \<open>Accessors\<close>

definition PackageIDs :: "system \<Rightarrow> int list" where
  "PackageIDs s = sort_ints (map fst (s_packages s))"

definition NodeIDs :: "system \<Rightarrow> int list" where
  "NodeIDs s = sort_ints (map fst (s_nodes s))"

definition GPUIDs :: "system \<Rightarrow> int list" where
  "GPUIDs s = sort_ints (map fst (s_gpus s))"

definition ClusterIDs :: "system \<Rightarrow> int list" where
  "ClusterIDs s = (case s_clusters s of None \<Rightarrow> [] | Some m \<Rightarrow> sort_ints (map fst m))"

definition Package :: "system \<Rightarrow> int \<Rightarrow> cpu_package option" where
  "Package s i = map_of (s_packages s) i"

definition Node :: "system \<Rightarrow> int \<Rightarrow> sys_node option" where
  "Node s i = map_of (s_nodes s) i"

definition GPU :: "system \<Rightarrow> int \<Rightarrow> sys_gpu option" where
  "GPU s i = map_of (s_gpus s) i"

definition Cluster :: "system \<Rightarrow> int \<Rightarrow> sys_cluster option" where
  "Cluster s i = (case s_clusters s of None \<Rightarrow> None | Some m \<Rightarrow> map_of m i)"

definition NodeGPUs :: "system \<Rightarrow> int \<Rightarrow> int list" where
  "NodeGPUs s nodeID = sort_ints (map fst (filter (\<lambda>(i, g). g_nodeID g = nodeID) (s_gpus s)))"

definition DistanceFrom :: "sys_node \<Rightarrow> int \<Rightarrow> int" where
  "DistanceFrom n i =
     (if i \<ge> 0 \<and> i < int (length (n_distance n)) then n_distance n ! nat i else -1)"

definition NodeDistance :: "system \<Rightarrow> int \<Rightarrow> int \<Rightarrow> int" where
  "NodeDistance s from to =
     (case map_of (s_nodes s) from of Some n \<Rightarrow> DistanceFrom n to | None \<Rightarrow> -1)"

definition AllowedSet :: "system \<Rightarrow> cpu_set" where
  "AllowedSet s =
     foldl (\<lambda>cpus (_, c). cpus \<union> {c_id c}) {} (s_cpus s) \<union> s_offline s \<union> s_isolated s"

definition DieIDs :: "cpu_package \<Rightarrow> int list" where
  "DieIDs p = cpu_list (pk_dies p)"

definition pkg_NodeIDs :: "cpu_package \<Rightarrow> int list" where
  "pkg_NodeIDs p = cpu_list (pk_nodes p)"

definition dieSet :: "(int, cpu_set) gomap \<Rightarrow> int \<Rightarrow> cpu_set" where
  "dieSet m d = (case map_of m d of None \<Rightarrow> {} | Some c \<Rightarrow> c)"

definition DieNodeIDs :: "cpu_package \<Rightarrow> int \<Rightarrow> int list" where
  "DieNodeIDs p d = cpu_list (dieSet (pk_dieNodes p) d)"

definition DieCPUSet :: "cpu_package \<Rightarrow> int \<Rightarrow> cpu_set" where
  "DieCPUSet p d = dieSet (pk_dieCPUs p) d"

definition GetSortedNodes :: "cpu_package \<Rightarrow> int list" where
  "GetSortedNodes p = sort_ints (cpu_list (pk_nodes p))"

section \<open>Memory\<close>

definition convertValueToKB :: "int \<Rightarrow> string \<Rightarrow> int" where
  "convertValueToKB value unit =
     (if unit = ''kB'' then value
      else if unit = ''MB'' then to_u64 (value * 1024)
      else if unit = ''GB'' then to_u64 (value * 1024 * 1024)
      else if unit = ''TB'' then to_u64 (value * 1024 * 1024 * 1024)
      else if unit = ''B'' then value div 1024
      else value)"

definition meminfo_line :: "mem_info \<Rightarrow> string \<Rightarrow> mem_info" where
  "meminfo_line buf line =
     (if trim_space line = [] then buf
      else (let fields = go_fields (trim_space line) in
        if length fields < 4 then buf
        else (case parse_u64 (fields ! 3) of
                None \<Rightarrow> buf
              | Some v \<Rightarrow>
                  (let key = fields ! 2;
                       value = (if length fields \<ge> 5 then convertValueToKB v (fields ! 4) else v)
                   in if key = ''MemTotal:'' then buf\<lparr>MemTotal := value\<rparr>
                      else if key = ''MemFree:'' then buf\<lparr>MemFree := value\<rparr>
                      else if key = ''MemUsed:'' then buf\<lparr>MemUsed := value\<rparr>
                      else buf))))"

definition node_MemoryInfo :: "sys_node \<Rightarrow> mem_info result" where
  "node_MemoryInfo n =
     (case n_meminfo n of
        None \<Rightarrow> Inl (Err ''failed to read meminfo file'')
      | Some data \<Rightarrow>
          (let buf = foldl meminfo_line (zero_mem_info\<lparr>MemSet := {n_id n}\<rparr>) (go_split [CHR 0x0A] data)
           in Inr (if MemUsed buf = 0 \<and> MemTotal buf > 0 \<and> MemFree buf > 0
                   then buf\<lparr>MemUsed := to_u64 (MemTotal buf - MemFree buf)\<rparr> else buf)))"

text \<open>One iteration of the loops of \<open>system.MemoryInfo\<close> and \<open>cpuPackage.MemoryInfo\<close>.\<close>

definition add_node_memory :: "system \<Rightarrow> mem_info \<Rightarrow> int \<Rightarrow> mem_info" where
  "add_node_memory s res nodeID =
     (case Node s nodeID of
        None \<Rightarrow> res
      | Some n \<Rightarrow>
          (case node_MemoryInfo n of
             Inl _ \<Rightarrow> res
           | Inr m \<Rightarrow> \<lparr>MemTotal = to_u64 (MemTotal res + MemTotal m),
                       MemFree = to_u64 (MemFree res + MemFree m),
                       MemUsed = to_u64 (MemUsed res + MemUsed m),
                       MemSet = MemSet res \<union> MemSet m\<rparr>))"

definition sys_MemoryInfo :: "system \<Rightarrow> mem_info result" where
  "sys_MemoryInfo s = Inr (foldl (add_node_memory s) zero_mem_info (NodeIDs s))"

text \<open>Every package is created with its back reference to the system set.\<close>

definition pkg_MemoryInfo :: "system \<Rightarrow> cpu_package \<Rightarrow> mem_info result" where
  "pkg_MemoryInfo s p = Inr (foldl (add_node_memory s) zero_mem_info (pkg_NodeIDs p))"

section \<open>Validation\<close>

definition validateSocketNodes :: "system \<Rightarrow> unit result" where
  "validateSocketNodes s =
     (let ids = PackageIDs s;
          socketNodes = (\<lambda>i. case Package s i of None \<Rightarrow> {} | Some p \<Rightarrow> set (pkg_NodeIDs p))
      in if list_ex (\<lambda>id1. list_ex (\<lambda>id2. id1 \<noteq> id2 \<and> socketNodes id1 \<inter> socketNodes id2 \<noteq> {}) ids) ids
         then Inl (Err ''sockets share NUMA nodes'') else Inr ())"

definition validateDieNodes :: "system \<Rightarrow> unit result" where
  "validateDieNodes s =
     (if list_ex (\<lambda>i. case Package s i of None \<Rightarrow> False | Some pkg \<Rightarrow>
           list_ex (\<lambda>id1. list_ex (\<lambda>id2. id1 \<noteq> id2 \<and>
              set (DieNodeIDs pkg id1) \<inter> set (DieNodeIDs pkg id2) \<noteq> {}) (DieIDs pkg)) (DieIDs pkg))
         (PackageIDs s)
      then Inl (Err ''dies share NUMA nodes'') else Inr ())"

definition validateNumaDistances :: "system \<Rightarrow> unit result" where
  "validateNumaDistances s =
     (if list_ex (\<lambda>from. list_ex (\<lambda>to. NodeDistance s from to \<noteq> NodeDistance s to from) (NodeIDs s)) (NodeIDs s)
      then Inl (Err ''asymmetric NUMA distances'') else Inr ())"

definition ValidateTopology :: "system \<Rightarrow> unit result" where
  "ValidateTopology s =
     (case validateSocketNodes s of
        Inl e \<Rightarrow> Inl e
      | Inr _ \<Rightarrow> (case validateDieNodes s of
                   Inl e \<Rightarrow> Inl e
                 | Inr _ \<Rightarrow> validateNumaDistances s))"

end
