(* ===== verification/GoFloat.thy ===== *)
theory GoFloat
  imports Prelude "HOL-Library.Log_Nat"
begin

text \<open>
  Go's \<open>float64\<close>: a value is the rational number it denotes, and each arithmetic operation rounds the
  exact result to 53 significant bits, to nearest and ties to even, as IEEE 754 prescribes. The
  quotients the program forms lie far inside the range of normal numbers, so overflow and
  subnormals are left out.
\<close>

definition round_half_even :: "rat \<Rightarrow> int" where
  "round_half_even x =
     (let f = \<lfloor>x\<rfloor>; d = x - of_int f
      in if d < 1 / 2 then f else if 1 / 2 < d then f + 1 else if even f then f else f + 1)"

text \<open>The exponent of the unit in the last place of \<open>x\<close>.\<close>

definition f64_exp :: "rat \<Rightarrow> int" where
  "f64_exp x =
     (let (p, q) = quotient_of \<bar>x\<bar>; k = bitlen p - bitlen q
      in if 2 powi k \<le> \<bar>x\<bar> then k - 52 else k - 53)"

definition f64_round :: "rat \<Rightarrow> rat" where
  "f64_round x = (if x = 0 then 0 else of_int (round_half_even (x / 2 powi f64_exp x)) * 2 powi f64_exp x)"

definition f64_of_int :: "int \<Rightarrow> rat" where
  "f64_of_int n = f64_round (of_int n)"

definition f64_add :: "rat \<Rightarrow> rat \<Rightarrow> rat" where
  "f64_add x y = f64_round (x + y)"

definition f64_div :: "rat \<Rightarrow> rat \<Rightarrow> rat" where
  "f64_div x y = f64_round (x / y)"

text \<open>\<open>int64(x)\<close> drops the fraction.\<close>

definition f64_to_int :: "rat \<Rightarrow> int" where
  "f64_to_int x = (if 0 \<le> x then \<lfloor>x\<rfloor> else \<lceil>x\<rceil>)"

section \<open>Exactly representable numbers\<close>

definition f64_repr :: "rat \<Rightarrow> bool" where
  "f64_repr x \<longleftrightarrow> (\<exists>m e. x = of_int m * 2 powi e \<and> \<bar>m\<bar> < 2 ^ 53)"

lemma round_half_even_int [simp]: "round_half_even (of_int n) = n"
  by (simp add: round_half_even_def)

lemma round_half_even_error: "\<bar>of_int (round_half_even x) - x\<bar> \<le> 1 / 2"
  unfolding round_half_even_def Let_def
  by (auto simp: abs_if) (linarith | use floor_correct[of x] in linarith)+

lemma powi2_less_imp: "(2 :: rat) powi a < 2 powi b \<Longrightarrow> a < b"
  by (meson linorder_not_le one_le_numeral power_int_increasing order_less_imp_not_less
      leD)

lemma bitlen_powi_bounds:
  assumes "0 < p"
  shows "2 powi (bitlen p - 1) \<le> (of_int p :: rat)" "(of_int p :: rat) < 2 powi bitlen p"
proof -
  have b: "1 \<le> bitlen p" using assms by (auto simp: bitlen_alt_def)
  have "(of_int (2 ^ nat (bitlen p - 1)) :: rat) \<le> of_int p"
    using bitlen_bounds[OF assms] by (simp only: of_int_le_iff)
  with b show "2 powi (bitlen p - 1) \<le> (of_int p :: rat)" by (simp add: power_int_def)
  have "(of_int p :: rat) < of_int (2 ^ nat (bitlen p))"
    using bitlen_bounds[OF assms] by (simp only: of_int_less_iff)
  with b show "(of_int p :: rat) < 2 powi bitlen p" by (simp add: power_int_def)
qed

lemma f64_exp_bounds:
  assumes "x \<noteq> 0"
  shows "2 powi (f64_exp x + 52) \<le> \<bar>x\<bar> \<and> \<bar>x\<bar> < 2 powi (f64_exp x + 53)"
proof -
  obtain p q where pq: "quotient_of \<bar>x\<bar> = (p, q)" by (cases "quotient_of \<bar>x\<bar>")
  then have q: "q > 0" by (rule quotient_of_denom_pos)
  have x: "\<bar>x\<bar> = of_int p / of_int q" using pq by (rule quotient_of_div)
  have "0 < (of_int p / of_int q :: rat)" using assms x by simp
  with q have p: "p > 0" by (simp add: zero_less_divide_iff)
  define k where "k = bitlen p - bitlen q"
  have lo: "2 powi (k - 1) \<le> \<bar>x\<bar>"
  proof -
    have "2 powi (k - 1) = (2 powi (bitlen p - 1) / 2 powi bitlen q :: rat)"
      by (simp add: k_def power_int_diff[symmetric] algebra_simps)
    also have "\<dots> \<le> of_int p / of_int q"
      using bitlen_powi_bounds[OF p] bitlen_powi_bounds[OF q] q p
      by (intro frac_le) auto
    finally show ?thesis using x by simp
  qed
  have hi: "\<bar>x\<bar> < 2 powi (k + 1)"
  proof -
    have "of_int p / of_int q < (2 powi bitlen p / 2 powi (bitlen q - 1) :: rat)"
      using bitlen_powi_bounds[OF p] bitlen_powi_bounds[OF q] q p
      by (intro frac_less) auto
    also have "\<dots> = 2 powi (k + 1)"
      by (simp add: k_def power_int_diff[symmetric] algebra_simps)
    finally show ?thesis using x by simp
  qed
  have e: "f64_exp x = (if 2 powi k \<le> \<bar>x\<bar> then k - 52 else k - 53)"
    by (simp add: f64_exp_def pq k_def)
  show ?thesis using lo hi by (auto simp: e not_le add.commute)
qed

lemma f64_round_repr [simp]:
  assumes "f64_repr x"
  shows "f64_round x = x"
proof (cases "x = 0")
  case False
  obtain m k where x: "x = of_int m * 2 powi k" and m: "\<bar>m\<bar> < 2 ^ 53"
    using assms by (auto simp: f64_repr_def)
  let ?e = "f64_exp x"
  have "\<bar>of_int m :: rat\<bar> < 2 ^ 53" using m
    by (metis of_int_abs of_int_less_iff of_int_numeral of_int_power)
  then have "\<bar>x\<bar> < 2 powi (53 + k)"
    by (simp add: x abs_mult power_int_add)
  with f64_exp_bounds[OF False] have "2 powi (?e + 52) < (2 powi (53 + k) :: rat)" by linarith
  then have "?e \<le> k" by (drule_tac powi2_less_imp) simp
  then have "(2 :: rat) powi (k - ?e) = of_int (2 ^ nat (k - ?e))"
    by (simp add: power_int_def)
  moreover have "x / 2 powi ?e = of_int m * 2 powi (k - ?e)"
    by (simp add: x power_int_diff)
  ultimately obtain N where N: "x / 2 powi ?e = of_int N"
    by (metis of_int_mult)
  have "f64_round x = x / 2 powi ?e * 2 powi ?e"
    by (simp only: f64_round_def False N round_half_even_int if_False)
  then show ?thesis by simp
qed (simp add: f64_round_def)

lemma f64_round_error: "\<bar>f64_round x - x\<bar> \<le> \<bar>x\<bar> / 2 ^ 53"
proof (cases "x = 0")
  case False
  let ?u = "2 powi f64_exp x :: rat"
  have u: "0 < ?u" by simp
  have "\<bar>f64_round x - x\<bar> = \<bar>of_int (round_half_even (x / ?u)) - x / ?u\<bar> * ?u"
  proof -
    have "f64_round x - x = (of_int (round_half_even (x / ?u)) - x / ?u) * ?u"
      using u by (simp add: f64_round_def False left_diff_distrib)
    then show ?thesis using u by (simp only: abs_mult abs_of_pos)
  qed
  also have "\<dots> \<le> 1 / 2 * ?u"
    using u round_half_even_error by (intro mult_right_mono) auto
  also have "\<dots> \<le> \<bar>x\<bar> / 2 ^ 53"
  proof -
    have "?u * 2 ^ 52 \<le> \<bar>x\<bar>" using f64_exp_bounds[OF False] by (simp add: power_int_add)
    then show ?thesis by (simp add: field_simps)
  qed
  finally show ?thesis .
qed (simp add: f64_round_def)

lemma f64_repr_int: "\<bar>n\<bar> < 2 ^ 53 \<Longrightarrow> f64_repr (of_int n)"
  unfolding f64_repr_def by (intro exI[of _ n] exI[of _ 0]) simp

lemma f64_repr_dyadic: "\<bar>n\<bar> < 2 ^ 53 \<Longrightarrow> f64_repr (of_int n / 2 ^ k)"
  unfolding f64_repr_def
  by (intro exI[of _ n] exI[of _ "- int k"]) (simp add: power_int_minus divide_inverse)

section \<open>Rounding a quotient to the nearest integer\<close>

text \<open>
  \<open>int64(float64(p) / float64(q) + 0.5)\<close> is the exact quotient rounded to the nearest integer, halves
  up: with \<open>p + q < 2\<^sup>5\<^sup>0\<close> the two roundings are smaller than the distance of \<open>p / q\<close> to the next
  half-integer.
\<close>

definition f64_quot_half_up :: "int \<Rightarrow> int \<Rightarrow> int" where
  "f64_quot_half_up p q = f64_to_int (f64_add (f64_div (f64_of_int p) (f64_of_int q)) (1 / 2))"

lemma f64_quot_half_up_exact:
  assumes p: "0 \<le> p" and q: "0 < q" and small: "p + q < 2 ^ 50"
  shows "f64_quot_half_up p q = (2 * p + q) div (2 * q)"
proof -
  define x where "x = (of_int p / of_int q :: rat)"
  define n where "n = (2 * p + q) div (2 * q)"
  define r where "r = (2 * p + q) mod (2 * q)"
  define y where "y = f64_round x"
  define z where "z = f64_round (y + 1 / 2)"
  have reprs: "f64_of_int p = of_int p" "f64_of_int q = of_int q"
    using p q small by (simp_all add: f64_of_int_def f64_repr_int)
  then have goal: "f64_quot_half_up p q = f64_to_int z"
    by (simp add: f64_quot_half_up_def f64_div_def f64_add_def x_def y_def z_def)
  have r: "0 \<le> r" "r < 2 * q" and eq: "2 * p + q = n * (2 * q) + r"
    using q by (simp_all only: r_def n_def div_mult_mod_eq pos_mod_bound pos_mod_sign mult_pos_pos
        zero_less_numeral)
  have eqr: "x + 1 / 2 = of_int n + of_int r / (2 * of_int q)"
  proof -
    have "(of_int (2 * p + q) :: rat) = of_int (n * (2 * q) + r)" by (simp only: eq)
    then show ?thesis using q by (simp add: x_def field_simps)
  qed
  have x0: "0 \<le> x" using p q by (simp add: x_def)
  have n0: "0 \<le> n" using p q by (simp add: n_def pos_imp_zdiv_nonneg_iff)
  have n_small: "n < 2 ^ 51"
  proof -
    have "n \<le> 2 * p + q" using p q zdiv_mono2[of "2 * p + q" 1 "2 * q"] by (simp add: n_def)
    with p q small show ?thesis by simp
  qed
  have err: "\<bar>z - (x + 1 / 2)\<bar> \<le> x / 2 ^ 53 + (y + 1 / 2) / 2 ^ 53" if "0 \<le> y"
  proof -
    have "\<bar>y - x\<bar> \<le> x / 2 ^ 53" using f64_round_error[of x] x0 by (simp add: y_def)
    moreover have "\<bar>z - (y + 1 / 2)\<bar> \<le> (y + 1 / 2) / 2 ^ 53"
      using f64_round_error[of "y + 1 / 2"] that by (simp add: z_def)
    ultimately show ?thesis by linarith
  qed
  have "of_int n \<le> z \<and> z < of_int n + 1"
  proof (cases "r = 0")
    case True
    then have x': "x = of_int (2 * n - 1) / 2 ^ 1" using eqr by simp
    have "y = x" unfolding y_def
      by (rule f64_round_repr) (subst x', rule f64_repr_dyadic, use n0 n_small in auto)
    then have "z = of_int n"
      using eqr True n0 n_small by (simp add: z_def f64_repr_int)
    then show ?thesis by simp
  next
    case False
    with r have r1: "1 \<le> r" "r \<le> 2 * q - 1" by auto
    define d where "d = (1 / (2 * of_int q) :: rat)"
    have d: "0 < d" using q by (simp add: d_def)
    have lo: "of_int n + d \<le> x + 1 / 2"
      using r1 q by (simp add: eqr d_def divide_right_mono)
    have hi: "x + 1 / 2 \<le> of_int n + 1 - d"
    proof -
      have "(of_int r :: rat) \<le> of_int (2 * q - 1)" using r1 by (simp only: of_int_le_iff)
      then have "(of_int r / (2 * of_int q) :: rat) \<le> of_int (2 * q - 1) / (2 * of_int q)"
        using q by (intro divide_right_mono) auto
      also have "\<dots> = 1 - d" using q by (simp add: d_def field_simps)
      finally show ?thesis by (simp add: eqr)
    qed
    have y_err: "\<bar>y - x\<bar> \<le> x / 2 ^ 53" using f64_round_error[of x] x0 by (simp add: y_def)
    have y0: "0 \<le> y" using y_err x0 by (simp add: abs_if field_simps split: if_splits)
    have y_le: "y \<le> 2 * x" using y_err x0 by (simp add: abs_if field_simps split: if_splits)
    have "x / 2 ^ 53 + (y + 1 / 2) / 2 ^ 53 \<le> (3 * x + 1 / 2) / 2 ^ 53"
      using y_le by (simp add: field_simps)
    also have "\<dots> < d"
    proof -
      have "(of_int (6 * p + q) :: rat) < of_int (2 ^ 53)"
        using p q small by (simp only: of_int_less_iff) simp
      then have "of_int (6 * p + q) / 2 ^ 53 < (1 :: rat)" by simp
      then have "of_int (6 * p + q) / 2 ^ 53 * d < 1 * d"
        using d by (rule mult_strict_right_mono)
      moreover have "(3 * x + 1 / 2) / 2 ^ 53 = of_int (6 * p + q) / 2 ^ 53 * d"
        using q by (simp add: x_def d_def field_simps)
      ultimately show ?thesis by simp
    qed
    finally have "\<bar>z - (x + 1 / 2)\<bar> < d" using err[OF y0] by linarith
    with lo hi show ?thesis by linarith
  qed
  then have "\<lfloor>z\<rfloor> = n" "0 \<le> z" using n0 by (auto simp: floor_eq_iff intro: order_trans[of _ "of_int n"])
  then show ?thesis by (simp add: goal f64_to_int_def n_def)
qed

end
