(* ===== verification/Resources.thy ===== *)
theory Resources
  imports GoStrings GoFloat
begin

text \<open>
  Container resources (\<^verbatim>\<open>pkg/kunpeng-tap/cache/utils.go\<close>, \<^verbatim>\<open>pkg/kunpeng-tap/policy/util.go\<close>,
  \<^verbatim>\<open>pkg/kunpeng-tap/policy/container_context.go\<close>): conversion of CFS shares and quotas to milli-CPUs,
  the QoS class read off a cgroup path, and the requests and limits estimated from a CRI request.
  A Kubernetes \<open>resource.Quantity\<close> is the number its accessor returns: \<open>MilliValue()\<close> for CPU,
  \<open>Value()\<close> (bytes) for memory; a \<open>ResourceList\<close> without an entry answers with the zero quantity.
\<close>

section \<open>Data\<close>

record linux_resources =
  CpuPeriod :: int
  CpuQuota :: int
  CpuShares :: int
  MemoryLimitInBytes :: int
  OomScoreAdj :: int
  CpusetCpus :: string
  CpusetMems :: string
  MemorySwapLimitInBytes :: int

definition zero_linux_resources :: linux_resources where
  "zero_linux_resources =
     \<lparr>CpuPeriod = 0, CpuQuota = 0, CpuShares = 0, MemoryLimitInBytes = 0, OomScoreAdj = 0,
      CpusetCpus = [], CpusetMems = [], MemorySwapLimitInBytes = 0\<rparr>"

record resource_list =
  rl_cpu :: "int option"
  rl_memory :: "int option"

definition Cpu :: "resource_list \<Rightarrow> int" where
  "Cpu l = (case rl_cpu l of None \<Rightarrow> 0 | Some q \<Rightarrow> q)"

definition Memory :: "resource_list \<Rightarrow> int" where
  "Memory l = (case rl_memory l of None \<Rightarrow> 0 | Some q \<Rightarrow> q)"

definition empty_list :: resource_list where
  "empty_list = \<lparr>rl_cpu = None, rl_memory = None\<rparr>"

text \<open>\<open>None\<close> is a nil map.\<close>

record resource_requirements =
  Requests :: "resource_list option"
  Limits :: "resource_list option"

datatype pod_qos = QosNone | Guaranteed | Burstable | BestEffort

section \<open>Milli-CPUs\<close>

definition sharesToMilliCPU :: "int \<Rightarrow> int" where
  "sharesToMilliCPU shares =
     (if shares = 2 then 0
      else f64_to_int (f64_add (f64_div (f64_of_int (wrap_i64 (shares * 1000))) (f64_of_int 1024)) (1 / 2)))"

definition quotaToMilliCPU :: "int \<Rightarrow> int \<Rightarrow> int" where
  "quotaToMilliCPU quota period =
     (if quota = 0 \<or> period = 0 then 0
      else f64_to_int (f64_add (f64_div (f64_of_int (wrap_i64 (quota * 1000))) (f64_of_int period)) (1 / 2)))"

section \<open>QoS classes\<close>

definition cgroupParentToQoS :: "string \<Rightarrow> pod_qos" where
  "cgroupParentToQoS dir =
     (let parts = go_split ''/'' (trim_prefix dir ''/'')
      in if length parts < 2 then QosNone
         else if contains (parts ! 1) ''burstable'' then Burstable
         else if contains (parts ! 1) ''besteffort'' then BestEffort
         else Guaranteed)"

definition ParseCgroupForQOSClass :: "string \<Rightarrow> pod_qos" where
  "ParseCgroupForQOSClass cgroupPath =
     (let qos = (if contains cgroupPath ''besteffort'' then BestEffort
                 else if contains cgroupPath ''burstable'' then Burstable
                 else Guaranteed)
      in if cgroupPath = [] then QosNone else qos)"

section \<open>Requests and limits\<close>

text \<open>
  \<open>EstimateRequirements\<close>. For a guaranteed pod the two map assignments copy an entry that may be
  missing; reading a missing entry of a Go map yields the zero quantity, which is stored.
\<close>

definition est_requests :: "linux_resources \<Rightarrow> resource_list" where
  "est_requests res =
     (let value = sharesToMilliCPU (CpuShares res)
      in if value > 0 then empty_list\<lparr>rl_cpu := Some value\<rparr> else empty_list)"

definition est_limits :: "linux_resources \<Rightarrow> resource_list" where
  "est_limits res =
     (let value = MemoryLimitInBytes res
      in if value > 0 then empty_list\<lparr>rl_memory := Some value\<rparr> else empty_list)"

definition quota_limit :: "linux_resources \<Rightarrow> resource_list \<Rightarrow> resource_list" where
  "quota_limit res lm =
     (let value = quotaToMilliCPU (CpuQuota res) (CpuPeriod res)
      in if value > 0 then lm\<lparr>rl_cpu := Some value\<rparr> else lm)"

definition EstimateRequirements :: "linux_resources option \<Rightarrow> string \<Rightarrow> resource_requirements" where
  "EstimateRequirements res cgroupParent =
     (case res of
        None \<Rightarrow> \<lparr>Requests = Some empty_list, Limits = Some empty_list\<rparr>
      | Some r \<Rightarrow>
          (let qos = (if cgroupParent \<noteq> [] then cgroupParentToQoS cgroupParent else QosNone);
               req = est_requests r; lm = est_limits r
           in if qos = Guaranteed
              then (let lm' = lm\<lparr>rl_cpu := Some (Cpu req)\<rparr>
                    in \<lparr>Requests = Some (req\<lparr>rl_memory := Some (Memory lm')\<rparr>), Limits = Some lm'\<rparr>)
              else \<lparr>Requests = Some req, Limits = Some (quota_limit r lm)\<rparr>))"

text \<open>\<open>estimateComputeResources\<close> fixes the class to best effort, so its guaranteed branch is never taken.\<close>

definition estimateComputeResources :: "linux_resources option \<Rightarrow> resource_requirements" where
  "estimateComputeResources lnx =
     (case lnx of
        None \<Rightarrow> \<lparr>Requests = Some empty_list, Limits = Some empty_list\<rparr>
      | Some r \<Rightarrow>
          (let qos = BestEffort; req = est_requests r; lm = est_limits r
           in if qos = Guaranteed
              then (let lm' = lm\<lparr>rl_cpu := Some (Cpu req)\<rparr>
                    in \<lparr>Requests = Some (req\<lparr>rl_memory := Some (Memory lm')\<rparr>), Limits = Some lm'\<rparr>)
              else \<lparr>Requests = Some req, Limits = Some (quota_limit r lm)\<rparr>))"

section \<open>The OCI runtime specification\<close>

text \<open>The fields of the runtime specification that are read; an option is a pointer that may be nil.\<close>

record oci_cpu =
  oc_period :: "int option"
  oc_shares :: "int option"
  oc_quota :: "int option"
  oc_cpus :: string
  oc_mems :: string

record oci_memory =
  om_limit :: "int option"
  om_swap :: "int option"

record oci_resources =
  or_cpu :: "oci_cpu option"
  or_memory :: "oci_memory option"

record oci_spec =
  os_linux_resources :: "oci_resources option option"
  os_oom_score_adj :: "int option option"

text \<open>\<open>os_linux_resources\<close>: \<open>None\<close> is a nil \<open>Linux\<close>, \<open>Some None\<close> a nil \<open>Linux.Resources\<close>; likewise for
  \<open>Process\<close> and \<open>Process.OOMScoreAdj\<close>. Period and shares are \<open>uint64\<close> in the specification.\<close>

definition processCPUResources :: "linux_resources \<Rightarrow> oci_cpu \<Rightarrow> linux_resources" where
  "processCPUResources r cpu =
     (let r1 = (case oc_period cpu of None \<Rightarrow> r | Some p \<Rightarrow> r\<lparr>CpuPeriod := wrap_i64 p\<rparr>);
          r2 = (case oc_shares cpu of None \<Rightarrow> r1 | Some s \<Rightarrow> r1\<lparr>CpuShares := wrap_i64 s\<rparr>);
          r3 = (case oc_quota cpu of None \<Rightarrow> r2 | Some q \<Rightarrow> r2\<lparr>CpuQuota := q\<rparr>)
      in r3\<lparr>CpusetCpus := oc_cpus cpu, CpusetMems := oc_mems cpu\<rparr>)"

definition processMemoryResources :: "linux_resources \<Rightarrow> oci_memory \<Rightarrow> linux_resources" where
  "processMemoryResources r memory =
     (let r1 = (case om_limit memory of None \<Rightarrow> r | Some l \<Rightarrow> r\<lparr>MemoryLimitInBytes := l\<rparr>)
      in case om_swap memory of None \<Rightarrow> r1 | Some s \<Rightarrow> r1\<lparr>MemorySwapLimitInBytes := s\<rparr>)"

definition RuntimeSpecToResource :: "oci_spec option \<Rightarrow> linux_resources option" where
  "RuntimeSpecToResource spec =
     (case spec of
        None \<Rightarrow> None
      | Some s \<Rightarrow>
          (case os_linux_resources s of
             None \<Rightarrow> None
           | Some None \<Rightarrow> None
           | Some (Some res) \<Rightarrow>
               (let r0 = zero_linux_resources;
                    r1 = (case or_cpu res of None \<Rightarrow> r0 | Some cpu \<Rightarrow> processCPUResources r0 cpu);
                    r2 = (case or_memory res of None \<Rightarrow> r1 | Some m \<Rightarrow> processMemoryResources r1 m)
                in Some (case os_oom_score_adj s of
                           Some (Some adj) \<Rightarrow> r2\<lparr>OomScoreAdj := adj\<rparr>
                         | _ \<Rightarrow> r2))))"

section \<open>The conversions compute the exact rational, rounded\<close>

lemma sharesToMilliCPU_exact:
  assumes "0 \<le> s" "s \<noteq> 2" "s \<le> 262144"
  shows "sharesToMilliCPU s = (2 * (s * 1000) + 1024) div (2 * 1024)"
proof -
  have "sharesToMilliCPU s = f64_quot_half_up (s * 1000) 1024"
    using assms by (simp add: sharesToMilliCPU_def f64_quot_half_up_def in_i64_def)
  then show ?thesis
    using f64_quot_half_up_exact[of "s * 1000" 1024] assms by simp
qed

lemma quotaToMilliCPU_exact:
  assumes "0 < quota" "0 < period" "quota * 1000 + period < 2 ^ 50"
  shows "quotaToMilliCPU quota period = (2 * (quota * 1000) + period) div (2 * period)"
proof -
  have "quotaToMilliCPU quota period = f64_quot_half_up (quota * 1000) period"
    using assms by (simp add: quotaToMilliCPU_def f64_quot_half_up_def in_i64_def)
  then show ?thesis
    using f64_quot_half_up_exact[of "quota * 1000" period] assms by simp
qed

lemma quotaToMilliCPU_unlimited [simp]: "quotaToMilliCPU 0 p = 0" "quotaToMilliCPU q 0 = 0"
  by (simp_all add: quotaToMilliCPU_def)

lemma sharesToMilliCPU_nonneg: "0 \<le> s \<Longrightarrow> s \<le> 262144 \<Longrightarrow> 0 \<le> sharesToMilliCPU s"
  by (cases "s = 2") (simp_all add: sharesToMilliCPU_exact sharesToMilliCPU_def[of 2])

section \<open>Shape of the estimates\<close>

definition nonneg_list :: "resource_list \<Rightarrow> bool" where
  "nonneg_list l \<longleftrightarrow> 0 \<le> Cpu l \<and> 0 \<le> Memory l"

lemmas estimate_defs =
  EstimateRequirements_def est_requests_def est_limits_def quota_limit_def empty_list_def
  Cpu_def Memory_def Let_def

lemma EstimateRequirements_total:
  "\<exists>req lm. EstimateRequirements res cg = \<lparr>Requests = Some req, Limits = Some lm\<rparr>
     \<and> nonneg_list req \<and> nonneg_list lm"
  by (cases res) (auto simp: estimate_defs nonneg_list_def split: if_splits)

lemma EstimateRequirements_guaranteed:
  assumes "EstimateRequirements (Some r) cg = \<lparr>Requests = Some req, Limits = Some lm\<rparr>"
    and "cgroupParentToQoS cg = Guaranteed" "cg \<noteq> []"
  shows "Cpu lm = Cpu req" "Memory req = Memory lm"
  using assms by (auto simp: estimate_defs split: if_splits)

end
