(* ===== verification/GoPath.thy ===== *)
theory GoPath
  imports GoStrings
begin

text \<open>
  The part of Go's \<open>path/filepath\<close> that the program uses, on Unix paths: \<open>Clean\<close>, \<open>Join\<close>, \<open>Base\<close>,
  \<open>Rel\<close>. A cleaned path is a sequence of components with a flag for the leading slash.
\<close>

fun clean_loop :: "bool \<Rightarrow> string list \<Rightarrow> string list \<Rightarrow> string list" where
  "clean_loop rooted acc [] = rev acc"
| "clean_loop rooted acc (c # cs) =
     (if c = [] \<or> c = ''.'' then clean_loop rooted acc cs
      else if c = ''..'' then
        (case acc of
           [] \<Rightarrow> if rooted then clean_loop rooted [] cs else clean_loop rooted [''..''] cs
         | a # as \<Rightarrow> if a = ''..'' then clean_loop rooted (''..'' # acc) cs else clean_loop rooted as cs)
      else clean_loop rooted (c # acc) cs)"

definition is_rooted :: "string \<Rightarrow> bool" where
  "is_rooted s = has_prefix s ''/''"

definition clean_comps :: "string \<Rightarrow> string list" where
  "clean_comps s = clean_loop (is_rooted s) [] (go_split ''/'' s)"

definition path_of :: "bool \<Rightarrow> string list \<Rightarrow> string" where
  "path_of rooted cs =
     (if rooted then CHR ''/'' # go_join ''/'' cs else if cs = [] then ''.'' else go_join ''/'' cs)"

definition path_clean :: "string \<Rightarrow> string" where
  "path_clean s = (if s = [] then ''.'' else path_of (is_rooted s) (clean_comps s))"

definition path_join :: "string list \<Rightarrow> string" where
  "path_join elems =
     (case dropWhile (\<lambda>e. e = []) elems of
        [] \<Rightarrow> []
      | es \<Rightarrow> path_clean (go_join ''/'' es))"

definition path_base :: "string \<Rightarrow> string" where
  "path_base s =
     (if s = [] then ''.''
      else (let t = rev (dropWhile (\<lambda>c. c = CHR ''/'') (rev s))
            in if t = [] then ''/'' else last (go_split ''/'' t)))"

fun strip_common :: "string list \<Rightarrow> string list \<Rightarrow> string list \<times> string list" where
  "strip_common (b # bs) (t # ts) = (if b = t then strip_common bs ts else (b # bs, t # ts))"
| "strip_common bs ts = (bs, ts)"

text \<open>\<open>filepath.Rel(base, targ)\<close>.\<close>

definition path_rel :: "string \<Rightarrow> string \<Rightarrow> string option" where
  "path_rel base targ =
     (let b = path_clean base; t = path_clean targ in
      if b = t then Some ''.''
      else if is_rooted b \<noteq> is_rooted t then None
      else (case strip_common (clean_comps b) (clean_comps t) of
              (bs, ts) \<Rightarrow>
                (case bs of
                   [] \<Rightarrow> Some (go_join ''/'' ts)
                 | x # xs \<Rightarrow> if x = ''..'' then None
                            else Some (go_join ''/'' (map (\<lambda>_. ''..'') bs @ ts)))))"

text \<open>Cleaned component lists.\<close>

definition plain_comp :: "string \<Rightarrow> bool" where
  "plain_comp c \<longleftrightarrow> c \<noteq> [] \<and> c \<noteq> ''.'' \<and> c \<noteq> ''..'' \<and> CHR ''/'' \<notin> set c"

lemma clean_loop_plain:
  "list_all plain_comp cs \<Longrightarrow> clean_loop r acc cs = rev acc @ cs"
  by (induction cs arbitrary: acc) (auto simp: plain_comp_def)

lemma go_split_no_slash: "list_all (\<lambda>c. CHR ''/'' \<notin> set c) (go_split ''/'' s)"
proof (induction "''/'' :: string" s rule: go_split.induct)
  case (1 s)
  show ?case
  proof (cases "go_cut ''/'' s")
    case None
    then have "CHR ''/'' \<notin> set s"
      using contains_char[of s "CHR ''/''"] by (simp add: contains_def)
    with None show ?thesis by (simp add: go_split.simps[of _ s])
  next
    case (Some p)
    obtain a b where p: "p = (a, b)" by (cases p)
    have "CHR ''/'' \<notin> set a"
      using Some p
    proof (induction s arbitrary: a p)
      case (Cons c cs)
      then show ?case
        by (auto simp: has_prefix_def split: if_splits)
    qed simp
    with Some p 1 show ?thesis by (simp add: go_split.simps[of _ s])
  qed
qed

lemma clean_loop_rooted:
  assumes "list_all (\<lambda>c. CHR ''/'' \<notin> set c) cs" "list_all plain_comp acc"
  shows "list_all plain_comp (clean_loop True acc cs)"
  using assms
proof (induction cs arbitrary: acc)
  case Nil
  then show ?case by (simp add: list_all_iff)
next
  case (Cons c cs)
  then show ?case
    by (auto simp: plain_comp_def split: list.splits)
qed

lemma clean_comps_rooted: "is_rooted s \<Longrightarrow> list_all plain_comp (clean_comps s)"
  unfolding clean_comps_def by (auto intro!: clean_loop_rooted go_split_no_slash)

lemma go_split_join_plain:
  assumes "list_all plain_comp cs" "cs \<noteq> []"
  shows "go_split ''/'' (go_join ''/'' cs) = cs"
  using assms by (intro go_split_join_char) (auto simp: list_all_iff plain_comp_def)

lemma clean_comps_path_of:
  assumes "list_all plain_comp cs"
  shows "clean_comps (path_of True cs) = cs"
proof (cases "cs = []")
  case True
  then show ?thesis
    using go_split_char_app[of "CHR ''/''" "[]" "[]"] go_split_char_None[of "CHR ''/''" "[]"]
    by (simp add: clean_comps_def path_of_def is_rooted_def has_prefix_def)
next
  case False
  then have "go_split ''/'' (CHR ''/'' # go_join ''/'' cs) = [] # cs"
    using go_split_char_app[of "CHR ''/''" "[]" "go_join ''/'' cs"] go_split_join_plain[OF assms] by simp
  then show ?thesis
    using clean_loop_plain[OF assms, of True "[]"]
    by (simp add: clean_comps_def path_of_def is_rooted_def has_prefix_def)
qed

lemma is_rooted_path_of [simp]: "is_rooted (path_of True cs)"
  by (simp add: is_rooted_def path_of_def has_prefix_def)

lemma path_of_nonempty [simp]: "path_of r cs \<noteq> []" if "r \<or> list_all plain_comp cs"
  using that by (cases cs rule: list.exhaust; cases "tl cs") (auto simp: path_of_def plain_comp_def)

lemma path_clean_path_of:
  assumes "list_all plain_comp cs"
  shows "path_clean (path_of True cs) = path_of True cs"
  using assms by (simp add: path_clean_def clean_comps_path_of)

lemma path_clean_rooted: "is_rooted s \<Longrightarrow> path_clean s = path_of True (clean_comps s)"
  by (auto simp: path_clean_def is_rooted_def has_prefix_def)

lemma path_clean_idem:
  "is_rooted s \<Longrightarrow> path_clean (path_clean s) = path_clean s"
  by (simp add: path_clean_rooted clean_comps_path_of clean_comps_rooted)

lemma strip_common_prefix: "strip_common bs (bs @ ts) = ([], ts)"
  by (induction bs) (cases ts, auto)

lemma strip_common_Nil: "strip_common bs ts = ([], us) \<Longrightarrow> ts = bs @ us"
  by (induction bs ts rule: strip_common.induct) (auto split: if_splits)

text \<open>Cleaning in two steps.\<close>

lemma clean_loop_append: "clean_loop r acc (xs @ ys) = clean_loop r (rev (clean_loop r acc xs)) ys"
  by (induction r acc xs rule: clean_loop.induct) (auto split: list.splits)

lemma clean_comps_join:
  assumes "is_rooted a"
  shows "clean_comps (a @ CHR ''/'' # b) = clean_loop True (rev (clean_comps a)) (go_split ''/'' b)"
proof -
  have "is_rooted (a @ CHR ''/'' # b)" using assms by (cases a) (simp_all add: is_rooted_def has_prefix_def)
  then show ?thesis using assms by (simp add: clean_comps_def go_split_app clean_loop_append)
qed

lemma is_rooted_clean [simp]: "is_rooted (path_clean s) \<longleftrightarrow> is_rooted s"
proof (cases "is_rooted s")
  case True
  then show ?thesis by (simp add: path_clean_rooted)
next
  case False
  have plain: "list_all (\<lambda>c. c \<noteq> [] \<and> CHR ''/'' \<notin> set c) (clean_loop False acc cs)"
    if "list_all (\<lambda>c. CHR ''/'' \<notin> set c) cs" "list_all (\<lambda>c. c \<noteq> [] \<and> CHR ''/'' \<notin> set c) acc" for acc cs
    using that
  proof (induction cs arbitrary: acc)
    case Nil
    then show ?case by (simp add: list_all_iff)
  next
    case (Cons c cs)
    then show ?case by (auto split: list.splits)
  qed
  have "list_all (\<lambda>c. c \<noteq> [] \<and> CHR ''/'' \<notin> set c) (clean_comps s)"
    unfolding clean_comps_def using False plain[OF go_split_no_slash, of "[]" s] by simp
  then have "\<not> is_rooted (path_of False (clean_comps s))"
    by (cases "clean_comps s" rule: list.exhaust; cases "tl (clean_comps s)"; cases "hd (clean_comps s)")
       (auto simp: path_of_def is_rooted_def has_prefix_def)
  with False show ?thesis by (auto simp: path_clean_def is_rooted_def has_prefix_def)
qed

lemma path_join_rooted: "is_rooted a \<Longrightarrow> path_join [a, b] = (if b = [] then path_clean a else path_clean (a @ CHR ''/'' # b))"
proof -
  assume "is_rooted a"
  then have "a \<noteq> []" by (auto simp: is_rooted_def has_prefix_def)
  have "clean_comps (a @ ''/'') = clean_comps a" if "is_rooted a"
    using clean_comps_join[OF that, of "[]"] by (simp add: go_split_char_None)
  moreover have "is_rooted (a @ ''/'')" using \<open>is_rooted a\<close> by (cases a) (simp_all add: is_rooted_def has_prefix_def)
  ultimately show ?thesis using \<open>a \<noteq> []\<close> \<open>is_rooted a\<close> by (simp add: path_join_def path_clean_rooted)
qed

lemma path_join_clean: "is_rooted a \<Longrightarrow> path_join [path_clean a, b] = path_join [a, b]"
proof -
  assume a: "is_rooted a"
  have c: "clean_comps (path_clean a) = clean_comps a"
    using a by (simp add: path_clean_rooted clean_comps_path_of clean_comps_rooted)
  have r: "is_rooted (x @ CHR ''/'' # b)" if "is_rooted x" for x
    using that by (cases x) (simp_all add: is_rooted_def has_prefix_def)
  show ?thesis
    using a path_clean_rooted[OF r[of a]] path_clean_rooted[OF r[of "path_clean a"]]
    by (simp add: path_join_rooted path_clean_idem clean_comps_join c)
qed

end
