(* ===== verification/ContainerContext.thy ===== *)
theory ContainerContext
  imports Resources GoPath
begin

text \<open>
  The request and response of a container hook (\<^verbatim>\<open>pkg/kunpeng-tap/policy/container_context.go\<close>):
  the request converted from the proxy's protobuf message, the cgroup path formatters, and the
  changes written back to the proxy. Decoding the extended-resource annotation is
  \<open>encoding/json\<close>: it is a parameter.
\<close>

section \<open>Data\<close>

record container_meta =
  cm_Name :: string
  cm_ID :: string

record pod_meta =
  pm_Namespace :: string
  pm_Name :: string
  pm_UID :: string

record ctr_resources =
  EstimatedRequirements :: "resource_requirements option"
  r_CpuPeriod :: "int option"
  r_CpuShares :: "int option"
  r_CpuQuota :: "int option"
  r_CpuSetCpus :: "string option"
  r_CpuSetMems :: "string option"
  r_MemoryLimitInBytes :: "int option"

definition empty_resources :: ctr_resources where
  "empty_resources = \<lparr>EstimatedRequirements = None, r_CpuPeriod = None, r_CpuShares = None,
     r_CpuQuota = None, r_CpuSetCpus = None, r_CpuSetMems = None, r_MemoryLimitInBytes = None\<rparr>"

record container_request =
  PodMeta :: pod_meta
  ContainerMeta :: container_meta
  PodLabels :: "(string, string) gomap"
  PodAnnotations :: "(string, string) gomap"
  CgroupParent :: string
  ContainerEnvs :: "(string, string) gomap option"
  cr_Resources :: "ctr_resources option"
  ExtendedResources :: "resource_requirements option"

record container_response =
  resp_Resources :: ctr_resources
  AddContainerEnvs :: "(string, string) gomap option"

record container_ctx =
  Request :: container_request
  Response :: container_response

text \<open>The proxy's messages; an option is a nil pointer or a nil map.\<close>

record hook_request =
  hr_PodMeta :: pod_meta
  hr_ContainerName :: string
  hr_ContainerId :: string
  hr_PodLabels :: "(string, string) gomap"
  hr_PodAnnotations :: "(string, string) gomap"
  hr_PodCgroupParent :: string
  hr_ContainerEnvs :: "(string, string) gomap option"
  hr_ContainerResources :: "linux_resources option"

record hook_response =
  hs_ContainerResources :: "linux_resources option"
  hs_ContainerEnvs :: "(string, string) gomap option"

section \<open>Cgroup paths\<close>

datatype cgroup_driver = Systemd | Cgroupfs | NoDriver

definition between :: "string \<Rightarrow> string \<Rightarrow> string \<Rightarrow> string" where
  "between p x s = p @ x @ s"

definition systemd_QOSDirFn :: "pod_qos \<Rightarrow> string" where
  "systemd_QOSDirFn qos =
     (case qos of Burstable \<Rightarrow> ''kubepods-burstable.slice/''
                | BestEffort \<Rightarrow> ''kubepods-besteffort.slice/''
                | _ \<Rightarrow> ''/'')"

definition systemd_PodDirFn :: "pod_qos \<Rightarrow> string \<Rightarrow> string" where
  "systemd_PodDirFn qos podUID =
     (let i = replace_char (CHR ''-'') (CHR ''_'') podUID in
      case qos of Burstable \<Rightarrow> between ''kubepods-burstable-pod'' i ''.slice/''
                | BestEffort \<Rightarrow> between ''kubepods-besteffort-pod'' i ''.slice/''
                | Guaranteed \<Rightarrow> between ''kubepods-pod'' i ''.slice/''
                | QosNone \<Rightarrow> ''/'')"

definition systemd_ContainerDirFn :: "string \<Rightarrow> (string \<times> string) result" where
  "systemd_ContainerDirFn i =
     (let hashID = go_split ''://'' i in
      if length hashID < 2 then Inl (Err ''parse container id failed'')
      else if hashID ! 0 = ''docker'' then Inr (''docker'', between ''docker-'' (hashID ! 1) ''.scope'')
      else if hashID ! 0 = ''containerd''
        then Inr (''containerd'', between ''cri-containerd-'' (hashID ! 1) ''.scope'')
      else if hashID ! 0 = ''pouch'' then Inr (''pouch'', between ''pouch-'' (hashID ! 1) ''.scope'')
      else if hashID ! 0 = ''cri-o'' then Inr (''cri-o'', between ''crio-'' (hashID ! 1) ''.scope'')
      else Inl (Err ''unknown container protocol''))"

definition match_affixes :: "string \<Rightarrow> string \<times> string \<Rightarrow> string option" where
  "match_affixes basename pat =
     (case pat of (pre, suf) \<Rightarrow>
        if has_prefix basename pre \<and> has_suffix basename suf
        then Some (take (length basename - length suf - length pre) (drop (length pre) basename))
        else None)"

fun first_match :: "string \<Rightarrow> (string \<times> string) list \<Rightarrow> string option" where
  "first_match basename [] = None"
| "first_match basename (p # ps) =
     (case match_affixes basename p of None \<Rightarrow> first_match basename ps | Some x \<Rightarrow> Some x)"

definition systemd_PodIDParser :: "string \<Rightarrow> string result" where
  "systemd_PodIDParser basename =
     (case first_match basename [(''kubepods-besteffort-pod'', ''.slice''),
             (''kubepods-burstable-pod'', ''.slice''), (''kubepods-pod'', ''.slice'')] of
        Some x \<Rightarrow> Inr x | None \<Rightarrow> Inl (Err ''fail to parse pod id''))"

definition systemd_ContainerIDParser :: "string \<Rightarrow> string result" where
  "systemd_ContainerIDParser basename =
     (case first_match basename [(''docker-'', ''.scope''), (''cri-containerd-'', ''.scope''),
             (''crio-'', ''.scope'')] of
        Some x \<Rightarrow> Inr x
      | None \<Rightarrow> if has_prefix basename ''crio-'' then Inr (drop 5 basename)
                else Inl (Err ''fail to parse container id''))"

definition cgroupfs_QOSDirFn :: "pod_qos \<Rightarrow> string" where
  "cgroupfs_QOSDirFn qos =
     (case qos of Burstable \<Rightarrow> ''burstable/'' | BestEffort \<Rightarrow> ''besteffort/'' | _ \<Rightarrow> ''/'')"

definition cgroupfs_PodDirFn :: "pod_qos \<Rightarrow> string \<Rightarrow> string" where
  "cgroupfs_PodDirFn qos podUID = between ''pod'' podUID ''/''"

definition cgroupfs_ContainerDirFn :: "string \<Rightarrow> (string \<times> string) result" where
  "cgroupfs_ContainerDirFn i =
     (let hashID = go_split ''://'' i in
      if length hashID < 2 then Inl (Err ''parse container id failed'')
      else if hashID ! 0 = ''docker'' \<or> hashID ! 0 = ''containerd'' \<or> hashID ! 0 = ''pouch''
              \<or> hashID ! 0 = ''cri-o''
        then Inr (hashID ! 0, hashID ! 1)
      else Inl (Err ''unknown container protocol''))"

definition cgroupfs_PodIDParser :: "string \<Rightarrow> string result" where
  "cgroupfs_PodIDParser basename =
     (if has_prefix basename ''pod'' then Inr (drop 3 basename) else Inl (Err ''fail to parse pod id''))"

text \<open>\<open>GetCgroupPathFormatter\<close> picks the systemd formatter for an unknown driver.\<close>

definition ContainerDirFn :: "cgroup_driver \<Rightarrow> string \<Rightarrow> (string \<times> string) result" where
  "ContainerDirFn d = (case d of Cgroupfs \<Rightarrow> cgroupfs_ContainerDirFn | _ \<Rightarrow> systemd_ContainerDirFn)"

definition GetContainerCgroupParentDirByID :: "cgroup_driver \<Rightarrow> string \<Rightarrow> string \<Rightarrow> string result" where
  "GetContainerCgroupParentDirByID d podParentDir containerID =
     (case ContainerDirFn d containerID of
        Inl e \<Rightarrow> Inl e
      | Inr (_, containerDir) \<Rightarrow> Inr (path_join [podParentDir, containerDir]))"

section \<open>From the proxy\<close>

definition getContainerID :: "string \<Rightarrow> (string, string) gomap \<Rightarrow> string \<Rightarrow> string" where
  "getContainerID defaultRuntime podAnnotations containerUID =
     (let runtimeType = (if map_of podAnnotations ''io.kubernetes.docker.type'' \<noteq> None
                         then ''docker'' else defaultRuntime)
      in runtimeType @ ''://'' @ containerUID)"

definition res_FromProxy :: "ctr_resources \<Rightarrow> hook_request \<Rightarrow> ctr_resources" where
  "res_FromProxy r req =
     (case hr_ContainerResources req of
        None \<Rightarrow> r
      | Some ctrRes \<Rightarrow>
          r\<lparr>EstimatedRequirements := Some (EstimateRequirements (Some ctrRes) (hr_PodCgroupParent req)),
            r_CpuPeriod := Some (CpuPeriod ctrRes), r_CpuQuota := Some (CpuQuota ctrRes),
            r_CpuShares := Some (CpuShares ctrRes), r_CpuSetCpus := Some (CpusetCpus ctrRes),
            r_CpuSetMems := Some (CpusetMems ctrRes),
            r_MemoryLimitInBytes := Some (MemoryLimitInBytes ctrRes)\<rparr>)"

text \<open>
  \<open>unmarshal\<close> decodes the annotation into the map from container names to their extended resources;
  its error and a nil map both leave the request as it is.
\<close>

definition GetExtendedResourceSpec ::
  "(string \<Rightarrow> (string, resource_requirements) gomap option) \<Rightarrow> (string, string) gomap
   \<Rightarrow> (string, resource_requirements) gomap result" where
  "GetExtendedResourceSpec unmarshal annotations =
     (case map_of annotations ''node.koordinator.sh/extended-resource-spec'' of
        None \<Rightarrow> Inr []
      | Some data \<Rightarrow> (case unmarshal data of None \<Rightarrow> Inl (Err ''json'') | Some m \<Rightarrow> Inr m))"

definition req_FromProxy ::
  "(string \<Rightarrow> (string, resource_requirements) gomap option) \<Rightarrow> cgroup_driver \<Rightarrow> string
   \<Rightarrow> container_request \<Rightarrow> hook_request \<Rightarrow> container_request" where
  "req_FromProxy unmarshal driver defaultRuntime c req =
     (let cid = getContainerID defaultRuntime (hr_PodAnnotations req) (hr_ContainerId req);
          parent = (case GetContainerCgroupParentDirByID driver (hr_PodCgroupParent req) cid of
                      Inl _ \<Rightarrow> hr_PodCgroupParent req | Inr d \<Rightarrow> d);
          res = res_FromProxy (case cr_Resources c of None \<Rightarrow> empty_resources | Some r \<Rightarrow> r) req;
          ext = (case GetExtendedResourceSpec unmarshal (hr_PodAnnotations req) of
                   Inl _ \<Rightarrow> ExtendedResources c
                 | Inr m \<Rightarrow> (case map_of m (hr_ContainerName req) of
                               None \<Rightarrow> ExtendedResources c | Some e \<Rightarrow> Some e))
      in \<lparr>PodMeta = hr_PodMeta req,
          ContainerMeta = \<lparr>cm_Name = hr_ContainerName req, cm_ID = cid\<rparr>,
          PodLabels = hr_PodLabels req, PodAnnotations = hr_PodAnnotations req,
          CgroupParent = parent, ContainerEnvs = hr_ContainerEnvs req,
          cr_Resources = Some res, ExtendedResources = ext\<rparr>)"

text \<open>
  \<open>GetRequests\<close> and \<open>GetLimits\<close> dereference \<open>Resources\<close>: on a nil pointer they panic. Their own result
  may be nil, which is the inner option.
\<close>

definition GetRequests :: "ctr_resources \<Rightarrow> resource_list option" where
  "GetRequests r = (case EstimatedRequirements r of None \<Rightarrow> None | Some e \<Rightarrow> Requests e)"

definition GetLimits :: "ctr_resources \<Rightarrow> resource_list option" where
  "GetLimits r = (case EstimatedRequirements r of None \<Rightarrow> None | Some e \<Rightarrow> Limits e)"

section \<open>Back to the proxy\<close>

definition IsOriginResSet :: "ctr_resources \<Rightarrow> bool" where
  "IsOriginResSet r \<longleftrightarrow>
     r_CpuPeriod r \<noteq> None \<or> r_CpuQuota r \<noteq> None \<or> r_CpuShares r \<noteq> None \<or>
     r_CpuSetCpus r \<noteq> None \<or> r_MemoryLimitInBytes r \<noteq> None \<or> r_CpuSetMems r \<noteq> None"

definition put_res :: "'v option \<Rightarrow> ('v \<Rightarrow> linux_resources \<Rightarrow> linux_resources)
    \<Rightarrow> linux_resources option \<Rightarrow> linux_resources option result" where
  "put_res v upd r =
     (case v of None \<Rightarrow> Inr r
      | Some x \<Rightarrow> (case r of None \<Rightarrow> Inl Panic | Some l \<Rightarrow> Inr (Some (upd x l))))"

definition ProxyDone :: "container_response \<Rightarrow> hook_response \<Rightarrow> hook_response result" where
  "ProxyDone c resp =
     (let r = resp_Resources c;
          r0 = (if IsOriginResSet r \<and> hs_ContainerResources resp = None
                then Some zero_linux_resources else hs_ContainerResources resp)
      in case put_res (r_CpuSetCpus r) (\<lambda>x l. l\<lparr>CpusetCpus := x\<rparr>) r0 of Inl e \<Rightarrow> Inl e | Inr r1 \<Rightarrow>
         (case put_res (r_CpuQuota r) (\<lambda>x l. l\<lparr>CpuQuota := x\<rparr>) r1 of Inl e \<Rightarrow> Inl e | Inr r2 \<Rightarrow>
          (case put_res (r_CpuShares r) (\<lambda>x l. l\<lparr>CpuShares := x\<rparr>) r2 of Inl e \<Rightarrow> Inl e | Inr r3 \<Rightarrow>
           (case put_res (r_MemoryLimitInBytes r) (\<lambda>x l. l\<lparr>MemoryLimitInBytes := x\<rparr>) r3 of
              Inl e \<Rightarrow> Inl e
            | Inr r4 \<Rightarrow>
                Inr \<lparr>hs_ContainerResources = r4,
                     hs_ContainerEnvs =
                       (case AddContainerEnvs c of
                          None \<Rightarrow> hs_ContainerEnvs resp
                        | Some es \<Rightarrow> Some (foldl (\<lambda>m (k, v). AList.update k v m)
                             (case hs_ContainerEnvs resp of None \<Rightarrow> [] | Some m \<Rightarrow> m) es))\<rparr>))))"

section \<open>Lemmas\<close>

lemma IsOriginResSet_some:
  "\<not> IsOriginResSet r \<Longrightarrow> r_CpuSetCpus r = None \<and> r_CpuQuota r = None \<and> r_CpuShares r = None
     \<and> r_MemoryLimitInBytes r = None"
  by (simp add: IsOriginResSet_def)

lemma put_res_None [simp]: "put_res None u r = Inr r"
  by (simp add: put_res_def)

lemma put_res_Some [simp]: "put_res v u (Some l) = Inr (Some (case v of None \<Rightarrow> l | Some x \<Rightarrow> u x l))"
  by (simp add: put_res_def split: option.splits)

lemma match_affixes_between:
  "match_affixes (between p x s) (p, s) = Some x"
proof -
  have "take (length s) (rev (p @ x @ s)) = rev s" by simp
  then show ?thesis
    by (simp add: match_affixes_def between_def has_prefix_def has_suffix_def)
qed

text \<open>A request that carries resources always has requests and limits, so \<open>newRequest\<close> accepts it.\<close>

lemma req_FromProxy_resources:
  assumes "hr_ContainerResources req = Some l"
  obtains r rq lm where "cr_Resources (req_FromProxy u d rt c req) = Some r"
    "GetRequests r = Some rq" "GetLimits r = Some lm"
proof -
  obtain rq lm where "EstimateRequirements (Some l) (hr_PodCgroupParent req)
      = \<lparr>Requests = Some rq, Limits = Some lm\<rparr>"
    using EstimateRequirements_total by blast
  with assms that show thesis
    by (auto simp: req_FromProxy_def Let_def res_FromProxy_def GetRequests_def GetLimits_def)
qed

end
