(* ===== verification/TopoTree.thy ===== *)
theory TopoTree
  imports SysTopology ContainerContext
begin

text \<open>
  The resource tree of the topology-aware policy (\<^verbatim>\<open>policy/topology-aware/node_types.go\<close>,
  \<^verbatim>\<open>node_base.go\<close>, \<^verbatim>\<open>node_impl.go\<close>): nodes live in a heap, a Go interface value of type \<open>Node\<close> is a
  pointer into it (or nil, or the distinguished \<open>nilNode\<close>), and every node carries its children, its
  parent, and the supply it allocates from. A recursion of the code over the tree takes fuel; on a
  well-formed heap the fuel given always suffices.
\<close>

section \<open>Data\<close>

datatype nptr = GoNil | NilNode | Ref nat

datatype node_kind = VirtualNode | SocketNode | NumaNode | ClusterNode | UnknownNode

record supply_t =
  sp_node :: nptr
  isolated :: cpu_set
  sharable :: cpu_set
  grantedShared :: int
  grantedCPUByRequest :: int
  grantedCPUByLimit :: int
  memoryTotal :: int
  grantedMemory :: int

record tnode =
  nd_name :: string
  nd_id :: int
  nd_kind :: node_kind
  nd_depth :: int
  nd_parent :: nptr
  nd_children :: "nat list"
  nodeResource :: supply_t
  freeResource :: supply_t
  nd_numaNodeID :: int
  nd_memInfo :: mem_info

type_synonym heap = "tnode list"

section \<open>Operations of a node\<close>

definition Name :: "heap \<Rightarrow> nptr \<Rightarrow> string" where
  "Name h p = (case p of Ref i \<Rightarrow> nd_name (h ! i) | _ \<Rightarrow> ''<nil node>'')"

definition NodeID :: "heap \<Rightarrow> nptr \<Rightarrow> int" where
  "NodeID h p = (case p of Ref i \<Rightarrow> nd_id (h ! i) | _ \<Rightarrow> -1)"

definition RootDistance :: "heap \<Rightarrow> nptr \<Rightarrow> int" where
  "RootDistance h p = (case p of Ref i \<Rightarrow> nd_depth (h ! i) | _ \<Rightarrow> -1)"

definition Parent :: "heap \<Rightarrow> nptr \<Rightarrow> nptr" where
  "Parent h p = (case p of Ref i \<Rightarrow> nd_parent (h ! i) | _ \<Rightarrow> GoNil)"

definition Children :: "heap \<Rightarrow> nptr \<Rightarrow> nat list" where
  "Children h p = (case p of Ref i \<Rightarrow> nd_children (h ! i) | _ \<Rightarrow> [])"

definition IsLeafNode :: "heap \<Rightarrow> nat \<Rightarrow> bool" where
  "IsLeafNode h i \<longleftrightarrow> nd_children (h ! i) = []"

text \<open>The supply of the nil node is a nil pointer.\<close>

definition FreeResource :: "heap \<Rightarrow> nptr \<Rightarrow> supply_t option" where
  "FreeResource h p = (case p of Ref i \<Rightarrow> Some (freeResource (h ! i)) | _ \<Rightarrow> None)"

definition TotalCPUs :: "supply_t \<Rightarrow> cpu_set" where
  "TotalCPUs s = isolated s \<union> sharable s"

definition SetNodeID :: "int \<Rightarrow> tnode \<Rightarrow> tnode" where
  "SetNodeID i n = n\<lparr>nd_id := i\<rparr>"

definition AddChildren :: "nat list \<Rightarrow> tnode \<Rightarrow> tnode" where
  "AddChildren cs n =
     foldl (\<lambda>m c. if c \<in> set (nd_children m) then m else m\<lparr>nd_children := nd_children m @ [c]\<rparr>) n cs"

definition LinkParent :: "heap \<Rightarrow> nptr \<Rightarrow> nat \<Rightarrow> heap" where
  "LinkParent h parent self =
     (let h1 = h[self := (h ! self)\<lparr>nd_parent := parent\<rparr>];
          h2 = (case parent of Ref j \<Rightarrow> h1[j := AddChildren [self] (h1 ! j)] | _ \<Rightarrow> h1)
      in h2[self := (h2 ! self)\<lparr>nd_depth := RootDistance h2 parent + 1\<rparr>])"

definition set_free :: "heap \<Rightarrow> nat \<Rightarrow> supply_t \<Rightarrow> heap" where
  "set_free h i s = h[i := (h ! i)\<lparr>freeResource := s\<rparr>]"

section \<open>Recursive queries\<close>

text \<open>Running out of fuel would be the unbounded recursion of a cyclic tree: a stack overflow.\<close>

fun concat_results :: "'a list result list \<Rightarrow> 'a list result" where
  "concat_results [] = Inr []"
| "concat_results (r # rs) =
     (case r of Inl e \<Rightarrow> Inl e
      | Inr x \<Rightarrow> (case concat_results rs of Inl e \<Rightarrow> Inl e | Inr y \<Rightarrow> Inr (x @ y)))"

fun numa_ids :: "nat \<Rightarrow> heap \<Rightarrow> nptr \<Rightarrow> int list result" where
  "numa_ids 0 h p = Inl Panic"
| "numa_ids (Suc f) h p =
     (case p of
        GoNil \<Rightarrow> Inl Panic
      | NilNode \<Rightarrow> Inr []
      | Ref i \<Rightarrow>
          (let n = h ! i in
           case nd_kind n of
             NumaNode \<Rightarrow> Inr [nd_numaNodeID n]
           | ClusterNode \<Rightarrow> (case nd_parent n of Ref j \<Rightarrow> numa_ids f h (Ref j) | _ \<Rightarrow> Inr [])
           | UnknownNode \<Rightarrow> Inr []
           | _ \<Rightarrow> concat_results (map (\<lambda>c. numa_ids f h (Ref c)) (nd_children n))))"

definition GetNUMAIDs :: "heap \<Rightarrow> nptr \<Rightarrow> int list" where
  "GetNUMAIDs h p = (case numa_ids (length h + 1) h p of Inr ids \<Rightarrow> ids | Inl _ \<Rightarrow> [])"

fun mem_info_of :: "nat \<Rightarrow> heap \<Rightarrow> nptr \<Rightarrow> mem_info result" where
  "mem_info_of 0 h p = Inl Panic"
| "mem_info_of (Suc f) h p =
     (case p of
        Ref i \<Rightarrow>
          (let n = h ! i in
           case nd_kind n of
             ClusterNode \<Rightarrow> (case nd_parent n of Ref j \<Rightarrow> mem_info_of f h (Ref j)
                            | _ \<Rightarrow> Inl (Err ''cluster node has no parent''))
           | UnknownNode \<Rightarrow> Inl (Err ''not implemented for base node'')
           | _ \<Rightarrow> Inr (nd_memInfo n))
      | NilNode \<Rightarrow> Inl (Err ''not implemented for base node'')
      | GoNil \<Rightarrow> Inl Panic)"

definition MemoryInfo :: "heap \<Rightarrow> nptr \<Rightarrow> mem_info result" where
  "MemoryInfo h p = mem_info_of (length h + 1) h p"

fun granted_cpu :: "nat \<Rightarrow> heap \<Rightarrow> nat \<Rightarrow> int result" where
  "granted_cpu 0 h i = Inl Panic"
| "granted_cpu (Suc f) h i =
     (if IsLeafNode h i then Inr (grantedShared (freeResource (h ! i)))
      else foldl (\<lambda>r c. case r of Inl e \<Rightarrow> Inl e
                   | Inr x \<Rightarrow> (case granted_cpu f h c of Inl e \<Rightarrow> Inl e | Inr y \<Rightarrow> Inr (x + y)))
             (Inr 0) (nd_children (h ! i)))"

definition GrantedCPU :: "heap \<Rightarrow> nat \<Rightarrow> int result" where
  "GrantedCPU h i = granted_cpu (length h + 1) h i"

fun total_cpu :: "nat \<Rightarrow> heap \<Rightarrow> nat \<Rightarrow> cpu_set result" where
  "total_cpu 0 h i = Inl Panic"
| "total_cpu (Suc f) h i =
     (if nd_kind (h ! i) = VirtualNode
      then foldl (\<lambda>r c. case r of Inl e \<Rightarrow> Inl e
                   | Inr x \<Rightarrow> (case total_cpu f h c of Inl e \<Rightarrow> Inl e | Inr y \<Rightarrow> Inr (x \<union> y)))
             (Inr {}) (nd_children (h ! i))
      else Inr (TotalCPUs (nodeResource (h ! i))))"

definition TotalCPU :: "heap \<Rightarrow> nat \<Rightarrow> cpu_set result" where
  "TotalCPU h i = total_cpu (length h + 1) h i"

section \<open>Well-formed trees\<close>

text \<open>
  The shape the builder gives the tree: node 0 is the root and has the nil node as its parent, every
  other node was created after its parent, the children of a node are the nodes linked to it, a
  cluster hangs under a NUMA node, every supply points back to its node, and the NUMA nodes, the
  clusters and the roots are as deep as their distance from the root.
\<close>

definition wf_node :: "heap \<Rightarrow> nat \<Rightarrow> bool" where
  "wf_node h i \<longleftrightarrow>
     (if i = 0 then nd_parent (h ! i) = NilNode \<and> nd_depth (h ! i) = 0 \<and> nd_kind (h ! i) \<noteq> ClusterNode
      else (case nd_parent (h ! i) of
              Ref j \<Rightarrow> j < i \<and> i \<in> set (nd_children (h ! j)) \<and> nd_depth (h ! i) = nd_depth (h ! j) + 1
                      \<and> (nd_kind (h ! i) = ClusterNode \<longrightarrow> nd_kind (h ! j) = NumaNode)
            | _ \<Rightarrow> False)) \<and>
     list_all (\<lambda>c. i < c \<and> c < length h \<and> nd_parent (h ! c) = Ref i) (nd_children (h ! i)) \<and>
     distinct (nd_children (h ! i)) \<and>
     nd_kind (h ! i) \<noteq> UnknownNode \<and>
     sp_node (freeResource (h ! i)) = Ref i"

definition wf_heap :: "heap \<Rightarrow> bool" where
  "wf_heap h \<longleftrightarrow> h \<noteq> [] \<and> list_all (wf_node h) [0..<length h] \<and> distinct (map nd_id h)"

definition valid_ptr :: "heap \<Rightarrow> nptr \<Rightarrow> bool" where
  "valid_ptr h p \<longleftrightarrow> (case p of Ref i \<Rightarrow> i < length h | _ \<Rightarrow> True)"

lemma wf_heapD: "wf_heap h \<Longrightarrow> i < length h \<Longrightarrow> wf_node h i"
  by (auto simp: wf_heap_def list_all_iff)

lemma wf_parent_root: "wf_heap h \<Longrightarrow> nd_parent (h ! 0) = NilNode"
  using wf_heapD[of h 0] by (auto simp: wf_heap_def wf_node_def)

lemma wf_parent:
  assumes "wf_heap h" "i < length h" "i \<noteq> 0"
  obtains j where "nd_parent (h ! i) = Ref j" "j < i" "j < length h"
    "nd_depth (h ! i) = nd_depth (h ! j) + 1" "nd_kind (h ! i) = ClusterNode \<longrightarrow> nd_kind (h ! j) = NumaNode"
    "i \<in> set (nd_children (h ! j))"
  using wf_heapD[OF assms(1,2)] assms(2,3) by (auto simp: wf_node_def split: nptr.splits)

lemma wf_parent_cases:
  assumes "wf_heap h" "i < length h"
  shows "(i = 0 \<and> nd_parent (h ! i) = NilNode) \<or> (\<exists>j<i. nd_parent (h ! i) = Ref j)"
proof (cases "i = 0")
  case True
  then show ?thesis using wf_parent_root[OF assms(1)] by simp
next
  case False
  from wf_parent[OF assms False] show ?thesis by metis
qed

lemma wf_child:
  assumes "wf_heap h" "i < length h" "c \<in> set (nd_children (h ! i))"
  shows "i < c" "c < length h" "nd_parent (h ! c) = Ref i"
  using wf_heapD[OF assms(1,2)] assms(3) by (auto simp: wf_node_def list_all_iff)

lemma wf_sp_node: "wf_heap h \<Longrightarrow> i < length h \<Longrightarrow> sp_node (freeResource (h ! i)) = Ref i"
  using wf_heapD by (auto simp: wf_node_def)

lemma wf_id_inj: "wf_heap h \<Longrightarrow> i < length h \<Longrightarrow> j < length h \<Longrightarrow> nd_id (h ! i) = nd_id (h ! j) \<Longrightarrow> i = j"
  unfolding wf_heap_def by (metis length_map nth_eq_iff_index_eq nth_map)

lemma wf_cluster:
  assumes "wf_heap h" "i < length h" "nd_kind (h ! i) = ClusterNode"
  obtains j where "nd_parent (h ! i) = Ref j" "nd_kind (h ! j) = NumaNode" "j < i"
proof -
  have "i \<noteq> 0"
    using wf_heapD[OF assms(1,2)] assms(3) unfolding wf_node_def by (cases "i = 0") simp_all
  from wf_parent[OF assms(1,2) this] obtain j where
    "nd_parent (h ! i) = Ref j" "nd_kind (h ! i) = ClusterNode \<longrightarrow> nd_kind (h ! j) = NumaNode" "j < i" .
  with assms(3) that show thesis by blast
qed

section \<open>Ancestors\<close>

text \<open>The nodes met from a node up to the root.\<close>

fun chain :: "nat \<Rightarrow> heap \<Rightarrow> nptr \<Rightarrow> nat list" where
  "chain 0 h p = []"
| "chain (Suc f) h p = (case p of Ref i \<Rightarrow> i # chain f h (nd_parent (h ! i)) | _ \<Rightarrow> [])"

definition anc :: "heap \<Rightarrow> nptr \<Rightarrow> nat list" where
  "anc h p = chain (length h + 1) h p"

lemma chain_fuel:
  assumes "wf_heap h"
  shows "i < length h \<Longrightarrow> i < f \<Longrightarrow> i < g \<Longrightarrow> chain f h (Ref i) = chain g h (Ref i)"
proof (induction i arbitrary: f g rule: less_induct)
  case (less i)
  obtain f' g' where fg: "f = Suc f'" "g = Suc g'" using less.prems by (cases f; cases g) auto
  from wf_parent_cases[OF assms less.prems(1)] show ?case
  proof
    assume "i = 0 \<and> nd_parent (h ! i) = NilNode"
    then show ?thesis by (cases f'; cases g') (auto simp: fg)
  next
    assume "\<exists>j<i. nd_parent (h ! i) = Ref j"
    then obtain j where j: "j < i" "nd_parent (h ! i) = Ref j" by blast
    with less.IH[OF j(1), of f' g'] less.prems fg show ?thesis by simp
  qed
qed

lemma anc_nil [simp]: "anc h GoNil = []" "anc h NilNode = []"
  by (simp_all add: anc_def)

lemma anc_Ref:
  assumes "wf_heap h" "i < length h"
  shows "anc h (Ref i) = i # anc h (nd_parent (h ! i))"
  using wf_parent_cases[OF assms]
proof
  assume "i = 0 \<and> nd_parent (h ! i) = NilNode"
  then show ?thesis using assms by (cases "length h") (auto simp: anc_def)
next
  assume "\<exists>j<i. nd_parent (h ! i) = Ref j"
  then obtain j where j: "j < i" "nd_parent (h ! i) = Ref j" by blast
  then have "chain (length h) h (Ref j) = chain (length h + 1) h (Ref j)"
    using assms by (intro chain_fuel) auto
  with j show ?thesis by (simp add: anc_def)
qed

lemma anc_induct [consumes 2, case_names root step]:
  assumes "wf_heap h" "i < length h"
    and "\<And>i. i < length h \<Longrightarrow> nd_parent (h ! i) = NilNode \<Longrightarrow> i = 0 \<Longrightarrow> P i"
    and "\<And>i j. i < length h \<Longrightarrow> nd_parent (h ! i) = Ref j \<Longrightarrow> j < i \<Longrightarrow> P j \<Longrightarrow> P i"
  shows "P i"
  using assms(2)
proof (induction i rule: less_induct)
  case (less i)
  from wf_parent_cases[OF assms(1) less.prems] show ?case
    using assms(3,4) less by (metis less_trans)
qed

lemma anc_bound:
  assumes "wf_heap h" "i < length h"
  shows "set (anc h (Ref i)) \<subseteq> {0..i} \<and> distinct (anc h (Ref i)) \<and> i \<in> set (anc h (Ref i)) \<and> last (anc h (Ref i)) = 0 \<and> 0 \<in> set (anc h (Ref i))"
  using assms
proof (induction i rule: anc_induct)
  case (root i)
  then show ?case using anc_Ref[OF assms(1) root(1)] by simp
next
  case (step i j)
  have "anc h (Ref j) \<noteq> []" using step by auto
  with step anc_Ref[OF assms(1) step(1)] show ?case by auto
qed

lemma anc_lt: "wf_heap h \<Longrightarrow> i < length h \<Longrightarrow> j \<in> set (anc h (Ref i)) \<Longrightarrow> j \<le> i"
  using anc_bound[of h i] by auto

lemma anc_depth:
  assumes "wf_heap h" "i < length h"
  shows "nd_depth (h ! i) = int (length (anc h (Ref i))) - 1"
  using assms
proof (induction i rule: anc_induct)
  case (root i)
  then show ?case using anc_Ref[OF assms(1) root(1)] wf_heapD[OF assms(1) root(1)] by (simp add: wf_node_def)
next
  case (step i j)
  then have "nd_depth (h ! i) = nd_depth (h ! j) + 1"
    using wf_heapD[OF assms(1) step(1)] by (auto simp: wf_node_def split: if_splits)
  then show ?case using step anc_Ref[OF assms(1) step(1)] by simp
qed

section \<open>Fuel\<close>

lemma concat_results_ok:
  "list_all ok rs \<Longrightarrow> concat_results rs = Inr (concat (map (\<lambda>r. case r of Inr x \<Rightarrow> x | Inl _ \<Rightarrow> []) rs))"
proof (induction rs)
  case (Cons r rs)
  then show ?case by (cases r) auto
qed simp

lemma numa_ids_total:
  assumes "wf_heap h"
  shows "i < length h \<Longrightarrow> length h - i < f \<Longrightarrow> ok (numa_ids f h (Ref i))"
proof (induction f arbitrary: i)
  case (Suc f)
  note wf = wf_heapD[OF assms Suc.prems(1)]
  consider "nd_kind (h ! i) = NumaNode" | "nd_kind (h ! i) = ClusterNode"
    | "nd_kind (h ! i) = SocketNode \<or> nd_kind (h ! i) = VirtualNode"
    using wf by (cases "nd_kind (h ! i)") (auto simp: wf_node_def)
  then show ?case
  proof cases
    case 1
    then show ?thesis by simp
  next
    case 2
    from wf_cluster[OF assms Suc.prems(1) 2] obtain j where
      "nd_parent (h ! i) = Ref j" "nd_kind (h ! j) = NumaNode" by blast
    moreover have "f \<noteq> 0" using Suc.prems by auto
    ultimately show ?thesis using 2 by (cases f) simp_all
  next
    case 3
    have "list_all ok (map (\<lambda>c. numa_ids f h (Ref c)) (nd_children (h ! i)))"
      unfolding list_all_iff
    proof (clarsimp)
      fix c assume "c \<in> set (nd_children (h ! i))"
      from wf_child[OF assms Suc.prems(1) this] Suc.prems show "ok (numa_ids f h (Ref c))"
        by (intro Suc.IH) auto
    qed
    from concat_results_ok[OF this] 3 show ?thesis by auto
  qed
qed simp

lemma mem_info_total:
  assumes "wf_heap h" "i < length h"
  shows "\<exists>m. MemoryInfo h (Ref i) = Inr m"
proof (cases "nd_kind (h ! i) = ClusterNode")
  case True
  from wf_cluster[OF assms True] obtain j where
    "nd_parent (h ! i) = Ref j" "nd_kind (h ! j) = NumaNode" by blast
  with True assms show ?thesis by (cases "length h") (auto simp: MemoryInfo_def)
next
  case False
  with wf_heapD[OF assms] show ?thesis
    by (cases "nd_kind (h ! i)") (auto simp: MemoryInfo_def wf_node_def)
qed

section \<open>Updating a supply\<close>

text \<open>Two heaps that differ only in the free supplies of their nodes.\<close>

definition strip :: "tnode \<Rightarrow> tnode" where
  "strip n = n\<lparr>freeResource := nodeResource n\<rparr>"

definition same_tree :: "heap \<Rightarrow> heap \<Rightarrow> bool" where
  "same_tree h h' \<longleftrightarrow> map strip h = map strip h'
     \<and> map (sp_node \<circ> freeResource) h = map (sp_node \<circ> freeResource) h'
     \<and> map (sharable \<circ> freeResource) h = map (sharable \<circ> freeResource) h'
     \<and> map (isolated \<circ> freeResource) h = map (isolated \<circ> freeResource) h'
     \<and> map (memoryTotal \<circ> freeResource) h = map (memoryTotal \<circ> freeResource) h'"

lemma same_tree_refl [simp]: "same_tree h h"
  by (simp add: same_tree_def)

lemma same_tree_trans: "same_tree h1 h2 \<Longrightarrow> same_tree h2 h3 \<Longrightarrow> same_tree h1 h3"
  by (simp add: same_tree_def)

lemma same_tree_sym: "same_tree h1 h2 \<Longrightarrow> same_tree h2 h1"
  by (simp add: same_tree_def)

lemma same_tree_length: "same_tree h h' \<Longrightarrow> length h' = length h"
  unfolding same_tree_def by (metis length_map)

lemma same_tree_nth:
  assumes "same_tree h h'" "i < length h"
  shows "strip (h' ! i) = strip (h ! i)"
    "sp_node (freeResource (h' ! i)) = sp_node (freeResource (h ! i))"
    "sharable (freeResource (h' ! i)) = sharable (freeResource (h ! i))"
    "isolated (freeResource (h' ! i)) = isolated (freeResource (h ! i))"
    "memoryTotal (freeResource (h' ! i)) = memoryTotal (freeResource (h ! i))"
  using assms same_tree_length[OF assms(1)] unfolding same_tree_def
  by (metis comp_apply nth_map)+

lemma strip_sel:
  "strip m = strip n \<Longrightarrow> nd_name m = nd_name n \<and> nd_id m = nd_id n \<and> nd_kind m = nd_kind n
     \<and> nd_depth m = nd_depth n \<and> nd_parent m = nd_parent n \<and> nd_children m = nd_children n
     \<and> nd_numaNodeID m = nd_numaNodeID n \<and> nd_memInfo m = nd_memInfo n \<and> nodeResource m = nodeResource n"
  by (cases m; cases n) (simp add: strip_def)

lemmas same_tree_sel = strip_sel[OF same_tree_nth(1)]

lemma same_tree_wf_node:
  assumes "same_tree h h'" "wf_heap h" "i < length h"
  shows "wf_node h' i"
proof -
  note eq = same_tree_sel[OF assms(1)]
  note wf = wf_heapD[OF assms(2,3), unfolded wf_node_def]
  have c: "list_all (\<lambda>c. i < c \<and> c < length h' \<and> nd_parent (h' ! c) = Ref i) (nd_children (h' ! i))"
    using wf eq eq[OF assms(3)] same_tree_length[OF assms(1)] by (simp add: list_all_iff)
  show ?thesis
  proof (cases "i = 0")
    case True
    with wf c eq[OF assms(3)] same_tree_nth(2)[OF assms(1,3)] show ?thesis
      unfolding wf_node_def by simp
  next
    case False
    from wf_parent[OF assms(2,3) False] obtain j where
      j: "nd_parent (h ! i) = Ref j" "j < i" "j < length h" "nd_depth (h ! i) = nd_depth (h ! j) + 1"
        "nd_kind (h ! i) = ClusterNode \<longrightarrow> nd_kind (h ! j) = NumaNode" "i \<in> set (nd_children (h ! j))" .
    with wf c eq[OF assms(3)] eq[OF j(3)] same_tree_nth(2)[OF assms(1,3)] False show ?thesis
      unfolding wf_node_def by simp
  qed
qed

lemma same_tree_wf: "same_tree h h' \<Longrightarrow> wf_heap h \<Longrightarrow> wf_heap h'"
proof -
  assume a: "same_tree h h'" "wf_heap h"
  have "map nd_id h' = map nd_id h"
    using same_tree_length[OF a(1)] same_tree_sel[OF a(1)] by (auto intro!: nth_equalityI)
  with a same_tree_wf_node[OF a] same_tree_length[OF a(1)] show "wf_heap h'"
    by (auto simp: wf_heap_def list_all_iff)
qed

lemma same_tree_chain:
  assumes "same_tree h h'" "wf_heap h"
  shows "i < length h \<Longrightarrow> chain f h' (Ref i) = chain f h (Ref i)"
proof (induction f arbitrary: i)
  case (Suc f)
  from wf_parent_cases[OF assms(2) Suc.prems] show ?case
  proof
    assume "i = 0 \<and> nd_parent (h ! i) = NilNode"
    with same_tree_sel[OF assms(1) Suc.prems] show ?thesis by (cases f) auto
  next
    assume "\<exists>j<i. nd_parent (h ! i) = Ref j"
    then obtain j where "j < i" "nd_parent (h ! i) = Ref j" by blast
    with same_tree_sel[OF assms(1) Suc.prems] Suc show ?thesis by simp
  qed
qed simp

lemma same_tree_anc:
  assumes "same_tree h h'" "wf_heap h" "valid_ptr h p"
  shows "anc h' p = anc h p"
  using same_tree_chain[OF assms(1,2)] same_tree_length[OF assms(1)] assms(3)
  by (cases p) (simp_all add: anc_def[of _ "Ref _"] valid_ptr_def del: chain.simps(2))

lemma same_tree_set_free:
  assumes "i < length h" "sp_node s = sp_node (freeResource (h ! i))"
    "sharable s = sharable (freeResource (h ! i))" "isolated s = isolated (freeResource (h ! i))"
    "memoryTotal s = memoryTotal (freeResource (h ! i))"
  shows "same_tree h (set_free h i s)"
  unfolding same_tree_def set_free_def
  using assms by (auto simp: map_update strip_def intro!: list_update_same_conv[THEN iffD2, symmetric])

lemma set_free_nth:
  "i < length h \<Longrightarrow> freeResource (set_free h i s ! j) = (if j = i then s else freeResource (h ! j))"
  by (auto simp: set_free_def nth_list_update)

lemma length_set_free [simp]: "length (set_free h i s) = length h"
  by (simp add: set_free_def)

end
