(* ===== verification/TopoRequest.thy ===== *)
theory TopoRequest
  imports ContainerContext
begin

text \<open>
  The resource request of a container (\<^verbatim>\<open>policy/topology-aware/request.go\<close>): CPU and memory from the
  estimated requirements, accelerator devices from the environment. A \<open>DeviceRegex\<close> of the known
  configurations is a literal followed by the group \<open>(\d+)\<close>; the field holds the literal.
\<close>

section \<open>Devices\<close>

datatype device_type = DevGPU | DevNPU | DevFPGA

record device_env_config =
  AllocateEnvName :: string
  VisibleEnvName :: string
  DevicePrefix :: string
  DeviceRegex :: string
  DeviceType :: device_type

definition knownDeviceConfigs :: "device_env_config list" where
  "knownDeviceConfigs =
     [\<lparr>AllocateEnvName = ''VA_ALLOCATE_DEVICES'', VisibleEnvName = ''VA_VISIBLE_DEVICES'',
       DevicePrefix = ''/dev/vacc'', DeviceRegex = ''/dev/vacc'', DeviceType = DevGPU\<rparr>]"

text \<open>The leftmost match of the literal followed by at least one digit; the group takes all of them.\<close>

fun match_digits :: "string \<Rightarrow> string \<Rightarrow> string option" where
  "match_digits lit [] = None"
| "match_digits lit (c # cs) =
     (if has_prefix (c # cs) lit \<and> takeWhile is_digit (drop (length lit) (c # cs)) \<noteq> []
      then Some (takeWhile is_digit (drop (length lit) (c # cs)))
      else match_digits lit cs)"

definition parseDeviceID :: "string \<Rightarrow> string \<Rightarrow> string option" where
  "parseDeviceID device regex = match_digits regex (trim_space device)"

definition extractDeviceIDs :: "string \<Rightarrow> string \<Rightarrow> string list" where
  "extractDeviceIDs deviceStr regex =
     (if deviceStr = [] then []
      else List.map_filter (\<lambda>d. parseDeviceID d regex) (go_split '','' deviceStr))"

definition extractVisibleDeviceIDs :: "string \<Rightarrow> string \<Rightarrow> string list" where
  "extractVisibleDeviceIDs deviceStr regex =
     (if deviceStr = [] then []
      else List.map_filter
        (\<lambda>d. let device = trim_space d in
             if device = [] then None
             else (case parseDeviceID device regex of Some i \<Rightarrow> Some i | None \<Rightarrow> Some device))
        (go_split '','' deviceStr))"

definition env_get :: "(string, string) gomap \<Rightarrow> string \<Rightarrow> string" where
  "env_get m k = (case map_of m k of None \<Rightarrow> [] | Some v \<Rightarrow> v)"

definition checkDeviceRequest :: "(string, string) gomap option \<Rightarrow> device_env_config \<Rightarrow> bool \<times> string list" where
  "checkDeviceRequest containerEnvs config =
     (case containerEnvs of
        None \<Rightarrow> (False, [])
      | Some envs \<Rightarrow>
          (let alloc = env_get envs (AllocateEnvName config);
               visible = env_get envs (VisibleEnvName config);
               ids1 = (if alloc \<noteq> [] then extractDeviceIDs alloc (DeviceRegex config) else []);
               ids2 = (if visible \<noteq> [] then extractVisibleDeviceIDs visible (DeviceRegex config) else [])
           in (alloc \<noteq> [] \<or> visible \<noteq> [], ids1 @ ids2)))"

section \<open>Requests\<close>

record request =
  rq_container :: container_ctx
  cpuLimit :: int
  cpuRequest :: int
  memLimit :: int
  memRequest :: int
  hasGPURequest :: bool
  requestedGPUDevices :: "string list"

text \<open>\<open>Cpu()\<close> and \<open>Memory()\<close> of a resource list never return nil.\<close>

definition parseResourceRequirements ::
  "request \<Rightarrow> resource_list option \<Rightarrow> resource_list option \<Rightarrow> request" where
  "parseResourceRequirements r resourceReq resourceLimit =
     (let r1 = (case resourceLimit of None \<Rightarrow> r | Some l \<Rightarrow> r\<lparr>cpuLimit := Cpu l\<rparr>);
          r2 = (case resourceReq of None \<Rightarrow> r1 | Some q \<Rightarrow> r1\<lparr>cpuRequest := Cpu q, memRequest := Memory q\<rparr>)
      in case resourceLimit of Some l \<Rightarrow> r2\<lparr>memLimit := Memory l\<rparr> | None \<Rightarrow> r2\<lparr>memLimit := memRequest r2\<rparr>)"

definition process_device_config ::
  "(string, string) gomap option \<Rightarrow> request \<Rightarrow> device_env_config \<Rightarrow> request" where
  "process_device_config containerEnvs r config =
     (case checkDeviceRequest containerEnvs config of (hasRequest, deviceIDs) \<Rightarrow>
        (case DeviceType config of
           DevGPU \<Rightarrow> if hasRequest
                    then r\<lparr>hasGPURequest := True, requestedGPUDevices := requestedGPUDevices r @ deviceIDs\<rparr>
                    else r
         | _ \<Rightarrow> r))"

definition processGPUDeviceRequests :: "request \<Rightarrow> (string, string) gomap option \<Rightarrow> request" where
  "processGPUDeviceRequests r containerEnvs =
     (if containerEnvs = None then r
      else foldl (process_device_config containerEnvs) r knownDeviceConfigs)"

text \<open>
  \<open>newRequest\<close>: \<open>Inr None\<close> is the nil request of a container without requests or limits. A nil
  \<open>Resources\<close> pointer panics in \<open>GetRequests\<close>.
\<close>

definition newRequest :: "container_ctx \<Rightarrow> request option result" where
  "newRequest containerCtx =
     (let r = \<lparr>rq_container = containerCtx, cpuLimit = 0, cpuRequest = 0, memLimit = 0, memRequest = 0,
               hasGPURequest = False, requestedGPUDevices = []\<rparr>
      in case cr_Resources (Request containerCtx) of
           None \<Rightarrow> Inl Panic
         | Some res \<Rightarrow>
             (case (GetRequests res, GetLimits res) of
                (Some q, Some l) \<Rightarrow>
                  Inr (Some (processGPUDeviceRequests (parseResourceRequirements r (Some q) (Some l))
                               (ContainerEnvs (Request containerCtx))))
              | _ \<Rightarrow> Inr None))"

section \<open>Lemmas\<close>

lemma processGPU_frame [simp]:
  "rq_container (processGPUDeviceRequests r e) = rq_container r"
  "cpuLimit (processGPUDeviceRequests r e) = cpuLimit r"
  "cpuRequest (processGPUDeviceRequests r e) = cpuRequest r"
  "memLimit (processGPUDeviceRequests r e) = memLimit r"
  "memRequest (processGPUDeviceRequests r e) = memRequest r"
  by (simp_all add: processGPUDeviceRequests_def knownDeviceConfigs_def process_device_config_def
      split: prod.splits)

lemma newRequest_Some:
  assumes "newRequest ctx = Inr (Some r)"
  obtains res q l where "cr_Resources (Request ctx) = Some res" "GetRequests res = Some q"
    "GetLimits res = Some l" "rq_container r = ctx" "cpuRequest r = Cpu q" "cpuLimit r = Cpu l"
    "memLimit r = Memory l" "memRequest r = Memory q"
proof -
  obtain res where res: "cr_Resources (Request ctx) = Some res"
    using assms by (cases "cr_Resources (Request ctx)") (simp_all add: newRequest_def Let_def)
  obtain q l where ql: "GetRequests res = Some q" "GetLimits res = Some l"
    using assms res by (cases "GetRequests res"; cases "GetLimits res") (simp_all add: newRequest_def Let_def)
  have r: "r = processGPUDeviceRequests \<lparr>rq_container = ctx, cpuLimit = Cpu l, cpuRequest = Cpu q,
      memLimit = Memory l, memRequest = Memory q, hasGPURequest = False, requestedGPUDevices = []\<rparr>
      (ContainerEnvs (Request ctx))"
    using assms res ql by (simp add: newRequest_def Let_def parseResourceRequirements_def)
  show thesis
    by (rule that[OF res ql]) (simp_all add: r)
qed

lemma match_digits_hit:
  "xs \<noteq> [] \<Longrightarrow> has_prefix xs lit \<Longrightarrow> takeWhile is_digit (drop (length lit) xs) = d \<Longrightarrow> d \<noteq> []
   \<Longrightarrow> match_digits lit xs = Some d"
  by (cases xs) auto

lemma match_digits_at:
  assumes "n \<noteq> []" "list_all is_digit n"
  shows "match_digits lit (lit @ n) = Some n"
  using assms by (intro match_digits_hit) (simp_all add: has_prefix_def list_all_iff)

lemma digits_list_all: "0 \<le> n \<Longrightarrow> list_all is_digit (itoa n)"
  using itoa_nonneg_chars by (auto simp: list_all_iff)

text \<open>The device path of GPU \<open>n\<close> is read back as its number.\<close>

lemma parseDeviceID_path:
  assumes "0 \<le> n"
  shows "parseDeviceID (''/dev/vacc'' @ itoa n) ''/dev/vacc'' = Some (itoa n)"
proof -
  have last: "\<not> is_space (last (itoa n))"
    using itoa_nonneg_chars[OF assms] is_digit_not_space last_in_set[OF itoa_nonempty] by blast
  have "trim_space (''/dev/vacc'' @ itoa n) = ''/dev/vacc'' @ itoa n"
    by (rule trim_space_id) (use last in \<open>simp add: is_space_def\<close>)
  then show ?thesis
    using match_digits_at[OF itoa_nonempty digits_list_all[OF assms]]
    by (simp only: parseDeviceID_def)
qed

end
