(* ===== verification/TopoSupply.thy ===== *)
theory TopoSupply
  imports TopoTree TopoRequest
begin

text \<open>
  Supplies, grants and scores (\<^verbatim>\<open>policy/topology-aware/supply.go\<close>, \<^verbatim>\<open>grant.go\<close>, \<^verbatim>\<open>score.go\<close>) and what
  \<^verbatim>\<open>resource_propagator.go\<close> does to one supply. CPU amounts are milli-CPUs in Go \<open>int\<close>s, memory is in
  KB. Both ways of charging a supply -- at the granted node and at its ancestors -- are instances of
  one interface, \<open>ledger_op\<close>.
\<close>

section \<open>Grants and scores\<close>

record grant =
  gr_ctx :: container_ctx
  gr_node :: nptr
  gr_exclusive :: bool
  allocatedCPUs :: int
  allocatedCPUByRequest :: int
  allocatedCPUByLimit :: int
  allocatedMemory :: int

definition newGrant :: "nptr \<Rightarrow> container_ctx \<Rightarrow> bool \<Rightarrow> int \<Rightarrow> grant" where
  "newGrant n ctx exclusive grantedCPUs =
     \<lparr>gr_ctx = ctx, gr_node = n, gr_exclusive = exclusive, allocatedCPUs = grantedCPUs,
      allocatedCPUByRequest = 0, allocatedCPUByLimit = 0, allocatedMemory = 0\<rparr>"

record score =
  sc_shared :: int
  sc_sharedByRequest :: int
  sc_sharedByLimit :: int
  sc_memoryCapacity :: int
  sc_colocated :: int
  sc_gpuCount :: int

section \<open>Supplies\<close>

definition newSupply :: "mem_info result \<Rightarrow> nptr \<Rightarrow> cpu_set \<Rightarrow> cpu_set \<Rightarrow> supply_t" where
  "newSupply memInfo n isol shr =
     \<lparr>sp_node = n, isolated = isol, sharable = shr, grantedShared = 0, grantedCPUByRequest = 0,
      grantedCPUByLimit = 0, memoryTotal = (case memInfo of Inr m \<Rightarrow> MemTotal m | Inl _ \<Rightarrow> 0),
      grantedMemory = 0\<rparr>"

definition Clone :: "mem_info result \<Rightarrow> supply_t \<Rightarrow> supply_t" where
  "Clone memInfo s = newSupply memInfo (sp_node s) (isolated s) (sharable s)"

definition Collect_supply :: "supply_t \<Rightarrow> supply_t \<Rightarrow> supply_t" where
  "Collect_supply s other =
     s\<lparr>isolated := isolated s \<union> isolated other, sharable := sharable s \<union> sharable other,
       grantedShared := grantedShared s + grantedShared other,
       grantedCPUByRequest := grantedCPUByRequest s + grantedCPUByRequest other,
       grantedCPUByLimit := grantedCPUByLimit s + grantedCPUByLimit other,
       memoryTotal := to_u64 (memoryTotal s + memoryTotal other),
       grantedMemory := to_u64 (grantedMemory s + grantedMemory other)\<rparr>"

definition TotalSharedCPU :: "supply_t \<Rightarrow> int" where
  "TotalSharedCPU s = 1000 * int (card (sharable s))"

definition AllocatableSharedCPU :: "supply_t \<Rightarrow> int" where
  "AllocatableSharedCPU s = 1000 * int (card (sharable s)) - grantedShared s"

definition AllocatableCPUByRequest :: "supply_t \<Rightarrow> int" where
  "AllocatableCPUByRequest s = TotalSharedCPU s - grantedCPUByRequest s"

definition AllocatableCPUByLimit :: "supply_t \<Rightarrow> int" where
  "AllocatableCPUByLimit s = TotalSharedCPU s - grantedCPUByLimit s"

definition AllocatableMemory :: "supply_t \<Rightarrow> int" where
  "AllocatableMemory s =
     (if memoryTotal s \<le> grantedMemory s then 0 else memoryTotal s - grantedMemory s)"

definition Memset :: "heap \<Rightarrow> supply_t \<Rightarrow> cpu_set" where
  "Memset h s = (case MemoryInfo h (sp_node s) of Inl _ \<Rightarrow> {} | Inr m \<Rightarrow> MemSet m)"

text \<open>
  The grants of the policy enter a score through \<open>CountColocation\<close>, the GPUs through
  \<open>CountNodeGPUs\<close>: the \<open>ScoreContext\<close> of the code.
\<close>

definition GetScore :: "(int \<Rightarrow> int) \<Rightarrow> (int \<Rightarrow> int) \<Rightarrow> heap \<Rightarrow> request \<Rightarrow> supply_t \<Rightarrow> score" where
  "GetScore countColocation countNodeGPUs h req s =
     \<lparr>sc_shared = AllocatableSharedCPU s - cpuLimit req,
      sc_sharedByRequest = AllocatableCPUByRequest s - cpuRequest req,
      sc_sharedByLimit = AllocatableCPUByLimit s - cpuLimit req,
      sc_memoryCapacity = AllocatableMemory s,
      sc_colocated = countColocation (NodeID h (sp_node s)),
      sc_gpuCount = foldl (\<lambda>n i. n + countNodeGPUs i) 0 (GetNUMAIDs h (sp_node s))\<rparr>"

text \<open>
  \<open>AllocateCPU\<close> reads the requests and limits of the container again. A grant is returned together
  with the supply it was taken from.
\<close>

definition AllocateCPU :: "request \<Rightarrow> supply_t \<Rightarrow> (grant \<times> supply_t) result" where
  "AllocateCPU req s =
     (let grant = newGrant (sp_node s) (rq_container req) False 0 in
      case cr_Resources (Request (rq_container req)) of
        None \<Rightarrow> Inl Panic
      | Some resource \<Rightarrow>
          (case (GetRequests resource, GetLimits resource) of
             (Some rq, Some lm) \<Rightarrow>
               (let requestCpu = Cpu rq; limitCpu = Cpu lm in
                if requestCpu + grantedCPUByRequest s > TotalSharedCPU s
                then Inl (Err ''request CPU exceeds total shared CPU'')
                else (let allocatedCpu = requestCpu in
                  Inr (grant\<lparr>allocatedCPUs := allocatedCpu, allocatedCPUByRequest := requestCpu,
                             allocatedCPUByLimit := limitCpu\<rparr>,
                       s\<lparr>grantedShared := grantedShared s + allocatedCpu,
                         grantedCPUByRequest := grantedCPUByRequest s + requestCpu,
                         grantedCPUByLimit := grantedCPUByLimit s + limitCpu\<rparr>)))
           | _ \<Rightarrow> Inl Panic))"

definition Allocate :: "request \<Rightarrow> bool \<Rightarrow> supply_t \<Rightarrow> (grant \<times> supply_t) result" where
  "Allocate req enforceMemoryCapacity s =
     (let memoryRequest = go_div (memLimit req) 1024 in
      if enforceMemoryCapacity \<and> memoryRequest > 0 \<and> to_u64 memoryRequest > AllocatableMemory s
      then Inl (Err ''memory request exceeds allocatable'')
      else (case AllocateCPU req s of
              Inl e \<Rightarrow> Inl e
            | Inr (grant, s') \<Rightarrow>
                if memoryRequest > 0
                then Inr (grant\<lparr>allocatedMemory := to_u64 memoryRequest\<rparr>,
                          s'\<lparr>grantedMemory := to_u64 (grantedMemory s' + to_u64 memoryRequest)\<rparr>)
                else Inr (grant, s')))"

text \<open>Charging the granted node for an existing grant, as the state rebuild does.\<close>

definition supply_charge :: "grant \<Rightarrow> supply_t \<Rightarrow> supply_t" where
  "supply_charge g s =
     s\<lparr>grantedShared := grantedShared s + allocatedCPUs g,
       grantedCPUByRequest := grantedCPUByRequest s + allocatedCPUByRequest g,
       grantedCPUByLimit := grantedCPUByLimit s + allocatedCPUByLimit g,
       grantedMemory := to_u64 (grantedMemory s + allocatedMemory g)\<rparr>"

definition supply_Release :: "grant \<Rightarrow> supply_t \<Rightarrow> supply_t" where
  "supply_Release g s =
     (let s1 = s\<lparr>grantedShared := grantedShared s - allocatedCPUs g,
                 grantedCPUByRequest := grantedCPUByRequest s - allocatedCPUByRequest g,
                 grantedCPUByLimit := grantedCPUByLimit s - allocatedCPUByLimit g\<rparr>;
          s2 = (if grantedShared s1 < 0 then s1\<lparr>grantedShared := 0\<rparr> else s1)
      in if grantedMemory s2 < allocatedMemory g then s2\<lparr>grantedMemory := 0\<rparr>
         else s2\<lparr>grantedMemory := grantedMemory s2 - allocatedMemory g\<rparr>)"

section \<open>One ancestor\<close>

definition updateParentResource :: "grant \<Rightarrow> bool \<Rightarrow> supply_t \<Rightarrow> supply_t" where
  "updateParentResource grant isAllocation s =
     (if isAllocation
      then s\<lparr>grantedShared := grantedShared s + allocatedCPUs grant,
             grantedCPUByRequest := grantedCPUByRequest s + allocatedCPUByRequest grant,
             grantedCPUByLimit := grantedCPUByLimit s + allocatedCPUByLimit grant,
             grantedMemory := to_u64 (grantedMemory s + allocatedMemory grant)\<rparr>
      else
        (let s1 = s\<lparr>grantedShared := grantedShared s - allocatedCPUs grant,
                    grantedCPUByRequest := grantedCPUByRequest s - allocatedCPUByRequest grant,
                    grantedCPUByLimit := grantedCPUByLimit s - allocatedCPUByLimit grant\<rparr>;
             s2 = (if grantedMemory s1 \<ge> allocatedMemory grant
                   then s1\<lparr>grantedMemory := grantedMemory s1 - allocatedMemory grant\<rparr>
                   else s1\<lparr>grantedMemory := 0\<rparr>);
             s3 = (if grantedShared s2 < 0 then s2\<lparr>grantedShared := 0\<rparr> else s2);
             s4 = (if grantedCPUByRequest s3 < 0 then s3\<lparr>grantedCPUByRequest := 0\<rparr> else s3)
         in if grantedCPUByLimit s4 < 0 then s4\<lparr>grantedCPUByLimit := 0\<rparr> else s4))"

section \<open>The ledger of a supply\<close>

text \<open>The four counters of a supply and what a grant adds to each.\<close>

datatype counter = CShared | CByRequest | CByLimit | CMemory

definition ctr :: "counter \<Rightarrow> supply_t \<Rightarrow> int" where
  "ctr c s = (case c of CShared \<Rightarrow> grantedShared s | CByRequest \<Rightarrow> grantedCPUByRequest s
                      | CByLimit \<Rightarrow> grantedCPUByLimit s | CMemory \<Rightarrow> grantedMemory s)"

definition amount :: "counter \<Rightarrow> grant \<Rightarrow> int" where
  "amount c g = (case c of CShared \<Rightarrow> allocatedCPUs g | CByRequest \<Rightarrow> allocatedCPUByRequest g
                         | CByLimit \<Rightarrow> allocatedCPUByLimit g | CMemory \<Rightarrow> allocatedMemory g)"

lemmas ledger_simps = ctr_def amount_def

text \<open>What never changes in a supply.\<close>

definition same_fixed :: "supply_t \<Rightarrow> supply_t \<Rightarrow> bool" where
  "same_fixed s s' \<longleftrightarrow> sp_node s' = sp_node s \<and> isolated s' = isolated s \<and> sharable s' = sharable s
     \<and> memoryTotal s' = memoryTotal s"

text \<open>
  The 64-bit memory counter wraps; a charge is exact while it stays below \<open>2^64\<close> KB. A refund is exact
  when the supply carries at least what the grant took.
\<close>

definition chargeable :: "grant \<Rightarrow> supply_t \<Rightarrow> bool" where
  "chargeable g s \<longleftrightarrow> 0 \<le> grantedMemory s \<and> 0 \<le> allocatedMemory g
     \<and> grantedMemory s + allocatedMemory g < 18446744073709551616"

definition refundable :: "grant \<Rightarrow> supply_t \<Rightarrow> bool" where
  "refundable g s \<longleftrightarrow> (amount CShared g \<le> ctr CShared s \<and> amount CByRequest g \<le> ctr CByRequest s
     \<and> amount CByLimit g \<le> ctr CByLimit s \<and> amount CMemory g \<le> ctr CMemory s)"

locale ledger_op =
  fixes charge :: "grant \<Rightarrow> supply_t \<Rightarrow> supply_t"
    and refund :: "grant \<Rightarrow> supply_t \<Rightarrow> supply_t"
  assumes charge_ctr: "chargeable g s \<Longrightarrow> ctr c (charge g s) = ctr c s + amount c g"
    and refund_ctr: "refundable g s \<Longrightarrow> ctr c (refund g s) = ctr c s - amount c g"
    and charge_fixed: "same_fixed s (charge g s)"
    and refund_fixed: "same_fixed s (refund g s)"
begin

lemma refundable_charge:
  assumes "chargeable g s" "\<And>c. 0 \<le> ctr c s"
  shows "refundable g (charge g s)"
proof -
  have "amount c g \<le> ctr c (charge g s)" for c
    using assms(2)[of c] by (simp add: charge_ctr[OF assms(1)])
  then show ?thesis unfolding refundable_def by blast
qed

lemma refund_charge_ctr:
  assumes "chargeable g s" "\<And>c. 0 \<le> ctr c s"
  shows "ctr c (refund g (charge g s)) = ctr c s"
  using refund_ctr[OF refundable_charge[OF assms], of c] charge_ctr[OF assms(1), of c] by simp

lemma refund_charge:
  assumes "chargeable g s" "\<And>c. 0 \<le> ctr c s"
  shows "refund g (charge g s) = s"
proof -
  have "same_fixed s (refund g (charge g s))"
    using charge_fixed[of s g] refund_fixed[of "charge g s" g] by (simp add: same_fixed_def)
  moreover have "ctr c (refund g (charge g s)) = ctr c s" for c
    by (rule refund_charge_ctr[OF assms])
  note this[of CShared] this[of CByRequest] this[of CByLimit] this[of CMemory]
  ultimately show ?thesis
    by (cases s; cases "refund g (charge g s)") (simp add: same_fixed_def ctr_def)
qed

lemma capacity_charge:
  assumes "chargeable g s" "amount CByRequest g \<le> AllocatableCPUByRequest s"
  shows "ctr CByRequest (charge g s) \<le> TotalSharedCPU (charge g s)"
  using charge_ctr[OF assms(1), of CByRequest] charge_fixed[of s g] assms(2)
  by (simp add: same_fixed_def TotalSharedCPU_def AllocatableCPUByRequest_def ctr_def)

end

lemma all_counters: "(\<forall>c. P c) \<longleftrightarrow> P CShared \<and> P CByRequest \<and> P CByLimit \<and> P CMemory"
  by (metis counter.exhaust)

interpretation own: ledger_op supply_charge supply_Release
proof
  fix g s c
  show "chargeable g s \<Longrightarrow> ctr c (supply_charge g s) = ctr c s + amount c g"
    by (cases c) (simp_all add: supply_charge_def ledger_simps chargeable_def)
  show "refundable g s \<Longrightarrow> ctr c (supply_Release g s) = ctr c s - amount c g"
    by (cases c) (simp_all add: supply_Release_def ledger_simps refundable_def Let_def)
  show "same_fixed s (supply_charge g s)" by (simp add: supply_charge_def same_fixed_def)
  show "same_fixed s (supply_Release g s)" by (simp add: supply_Release_def same_fixed_def Let_def)
qed

interpretation ancestor: ledger_op "\<lambda>g. updateParentResource g True" "\<lambda>g. updateParentResource g False"
proof
  fix g s c
  show "chargeable g s \<Longrightarrow> ctr c (updateParentResource g True s) = ctr c s + amount c g"
    by (cases c) (simp_all add: updateParentResource_def ledger_simps chargeable_def)
  show "refundable g s \<Longrightarrow> ctr c (updateParentResource g False s) = ctr c s - amount c g"
    by (cases c) (simp_all add: updateParentResource_def ledger_simps refundable_def Let_def)
  show "same_fixed s (updateParentResource g True s)" by (simp add: updateParentResource_def same_fixed_def)
  show "same_fixed s (updateParentResource g False s)"
    by (simp add: updateParentResource_def same_fixed_def Let_def)
qed

section \<open>Allocation from a supply\<close>

definition mem_kb :: "request \<Rightarrow> int" where
  "mem_kb req = (let m = go_div (memLimit req) 1024 in if m > 0 then m else 0)"

text \<open>A request of which the sizes fit the machine's integers.\<close>

definition sane_request :: "request \<Rightarrow> bool" where
  "sane_request r \<longleftrightarrow> 0 \<le> cpuRequest r \<and> 0 \<le> cpuLimit r \<and> 0 \<le> memLimit r \<and> in_i64 (memLimit r)"

lemma mem_kb_eq: "sane_request r \<Longrightarrow> mem_kb r = memLimit r div 1024"
  by (auto simp: mem_kb_def sane_request_def Let_def not_less intro!: antisym pos_imp_zdiv_nonneg_iff[THEN iffD2])

lemma mem_kb_bounds:
  assumes "sane_request r"
  shows "0 \<le> mem_kb r" "mem_kb r < 9223372036854775808"
proof -
  have "memLimit r div 1024 \<le> 9223372036854775807 div 1024"
    using assms by (intro zdiv_mono1) (simp_all add: sane_request_def in_i64_def)
  then show "0 \<le> mem_kb r" "mem_kb r < 9223372036854775808"
    using assms unfolding mem_kb_eq[OF assms] by (simp_all add: sane_request_def pos_imp_zdiv_nonneg_iff)
qed

text \<open>
  A successful \<open>Allocate\<close> is a charge of the grant it returns; it fails, without effect, exactly when
  the request does not fit the node (or, with memory topology, its memory does not).
\<close>

lemma Allocate_cases:
  assumes "newRequest ctx = Inr (Some req)" "sane_request req"
  shows "Allocate req enforce s =
    (if enforce \<and> mem_kb req > AllocatableMemory s \<and> mem_kb req > 0
     then Inl (Err ''memory request exceeds allocatable'')
     else if cpuRequest req + grantedCPUByRequest s > TotalSharedCPU s
     then Inl (Err ''request CPU exceeds total shared CPU'')
     else (let g = (newGrant (sp_node s) ctx False 0)\<lparr>allocatedCPUs := cpuRequest req,
                      allocatedCPUByRequest := cpuRequest req, allocatedCPUByLimit := cpuLimit req,
                      allocatedMemory := mem_kb req\<rparr>
           in Inr (g, if mem_kb req > 0 then supply_charge g s
                      else s\<lparr>grantedShared := grantedShared s + cpuRequest req,
                             grantedCPUByRequest := grantedCPUByRequest s + cpuRequest req,
                             grantedCPUByLimit := grantedCPUByLimit s + cpuLimit req\<rparr>)))"
proof -
  obtain res q l where res: "cr_Resources (Request ctx) = Some res" "GetRequests res = Some q"
    "GetLimits res = Some l" "rq_container req = ctx" "cpuRequest req = Cpu q" "cpuLimit req = Cpu l"
    using newRequest_Some[OF assms(1)] by metis
  have m: "mem_kb req = go_div (memLimit req) 1024" "to_u64 (mem_kb req) = mem_kb req"
    using assms(2) mem_kb_bounds[OF assms(2)] by (auto simp: mem_kb_eq sane_request_def)
  show ?thesis
    unfolding Allocate_def Let_def m(1)[symmetric] m(2)
    using res mem_kb_bounds(1)[OF assms(2)]
    by (auto simp: AllocateCPU_def Let_def supply_charge_def newGrant_def)
qed

lemma Allocate_charge:
  assumes "newRequest ctx = Inr (Some req)" "sane_request req" "Allocate req enforce s = Inr (g, s')"
    and "0 \<le> grantedMemory s" "grantedMemory s < 18446744073709551616"
  shows "s' = supply_charge g s" "gr_node g = sp_node s" "gr_ctx g = ctx"
    "allocatedCPUs g = cpuRequest req" "allocatedCPUByRequest g = cpuRequest req"
    "allocatedCPUByLimit g = cpuLimit req" "allocatedMemory g = mem_kb req"
    "cpuRequest req \<le> AllocatableCPUByRequest s"
    "enforce \<Longrightarrow> mem_kb req > 0 \<Longrightarrow> mem_kb req \<le> AllocatableMemory s"
  using assms(3-5) mem_kb_bounds[OF assms(2)]
  unfolding Allocate_cases[OF assms(1,2)]
  by (auto simp: Let_def newGrant_def supply_charge_def AllocatableCPUByRequest_def split: if_splits)

end
