(* ===== verification/TopoSelect.thy ===== *)
theory TopoSelect
  imports TopoSupply
begin

text \<open>
  Choosing a pool (\<^verbatim>\<open>policy/topology-aware/pool_filter.go\<close>, \<^verbatim>\<open>pool_sorter.go\<close>): the capacity filter that
  climbs from a pool to the root, the six-level comparison that orders the candidates, the GPU
  affinities, and the two selections that end the search.
\<close>

section \<open>The policy object\<close>

record policy =
  p_sys :: system
  p_heap :: heap
  p_nodes :: "(string, nat) gomap"
  p_pools :: "nat list"
  p_root :: nptr
  p_nodeCnt :: int
  p_depth :: int
  p_allowed :: cpu_set
  p_isolated :: cpu_set
  p_grants :: "(string, grant) gomap"
  enableMemoryTopology :: bool
  resourcePriority :: string
  enableClusterAffinity :: bool

definition CountColocation :: "policy \<Rightarrow> int \<Rightarrow> int" where
  "CountColocation p nodeID =
     int (length (filter (\<lambda>(_, g). NodeID (p_heap p) (gr_node g) = nodeID) (p_grants p)))"

definition CountNodeGPUs :: "policy \<Rightarrow> int \<Rightarrow> int" where
  "CountNodeGPUs p numaID = int (length (NodeGPUs (p_sys p) numaID))"

definition score_of :: "policy \<Rightarrow> request \<Rightarrow> supply_t \<Rightarrow> score" where
  "score_of p req s = GetScore (CountColocation p) (CountNodeGPUs p) (p_heap p) req s"

section \<open>The capacity filter\<close>

text \<open>Both loops climb while the pool is neither nil nor the root; the fuel is the height of any tree.\<close>

fun cpu_loop :: "nat \<Rightarrow> policy \<Rightarrow> request \<Rightarrow> nptr \<Rightarrow> bool option" where
  "cpu_loop 0 p req pool = None"
| "cpu_loop (Suc f) p req pool =
     (if pool = GoNil \<or> pool = p_root p then Some True
      else (case FreeResource (p_heap p) pool of
              None \<Rightarrow> Some False
            | Some free \<Rightarrow>
                if sc_sharedByRequest (score_of p req free) < 0 then Some False
                else cpu_loop f p req (Parent (p_heap p) pool)))"

definition checkCapacityByRequest :: "policy \<Rightarrow> request \<Rightarrow> nptr \<Rightarrow> bool" where
  "checkCapacityByRequest p req pool = (cpu_loop (length (p_heap p) + 1) p req pool = Some True)"

fun memory_loop :: "nat \<Rightarrow> policy \<Rightarrow> request \<Rightarrow> int \<Rightarrow> nptr \<Rightarrow> bool option" where
  "memory_loop 0 p req kb pool = None"
| "memory_loop (Suc f) p req kb pool =
     (if pool = GoNil \<or> pool = p_root p then Some True
      else (case FreeResource (p_heap p) pool of
              None \<Rightarrow> Some False
            | Some free \<Rightarrow>
                if sc_memoryCapacity (score_of p req free) < kb then Some False
                else memory_loop f p req kb (Parent (p_heap p) pool)))"

definition checkMemoryCapacity :: "policy \<Rightarrow> request \<Rightarrow> nptr \<Rightarrow> bool" where
  "checkMemoryCapacity p req pool =
     (let memoryLimitKB = to_u64 (go_div (memLimit req) 1024)
      in memoryLimitKB = 0
         \<or> memory_loop (length (p_heap p) + 1) p req memoryLimitKB pool = Some True)"

definition hasCapacity :: "policy \<Rightarrow> request \<Rightarrow> nat \<Rightarrow> bool" where
  "hasCapacity p req pool \<longleftrightarrow>
     checkCapacityByRequest p req (Ref pool)
     \<and> (enableMemoryTopology p \<longrightarrow> checkMemoryCapacity p req (Ref pool))"

definition filterPoolsByCapacity :: "policy \<Rightarrow> request \<Rightarrow> nat list" where
  "filterPoolsByCapacity p req =
     (let filteredPools = filter (\<lambda>i. Ref i \<noteq> p_root p \<and> hasCapacity p req i) (p_pools p);
          rootPools = filter (\<lambda>i. Ref i = p_root p) (p_pools p)
      in if filteredPools = [] \<and> rootPools \<noteq> [] then [last rootPools] else filteredPools)"

section \<open>GPU affinities\<close>

definition aff_get :: "(int, int) gomap \<Rightarrow> int \<Rightarrow> int" where
  "aff_get m k = (case map_of m k of None \<Rightarrow> 0 | Some v \<Rightarrow> v)"

text \<open>The NUMA nodes of the requested GPUs, one entry per match of a device with a requested name.\<close>

definition matched_numas :: "policy \<Rightarrow> request \<Rightarrow> int list" where
  "matched_numas p req =
     concat (map (\<lambda>gpuID. case GPU (p_sys p) gpuID of
                    None \<Rightarrow> []
                  | Some gpu \<Rightarrow> map (\<lambda>_. g_nodeID gpu)
                       (filter (\<lambda>rid. itoa gpuID = rid) (requestedGPUDevices req)))
             (GPUIDs (p_sys p)))"

definition getRequestedGPUNUMANodes :: "policy \<Rightarrow> request \<Rightarrow> (int, bool) gomap" where
  "getRequestedGPUNUMANodes p req =
     (if requestedGPUDevices req = [] then []
      else foldl (\<lambda>m n. AList.update n True m) [] (matched_numas p req))"

definition calculateGPUNUMAAffinity :: "(int, bool) gomap \<Rightarrow> (int, int) gomap" where
  "calculateGPUNUMAAffinity gpuNUMANodes =
     foldl (\<lambda>m (numaID, _). AList.update numaID 1000 m) [] gpuNUMANodes"

definition isPoolInGPUNUMANodes :: "int list \<Rightarrow> (int, bool) gomap \<Rightarrow> bool" where
  "isPoolInGPUNUMANodes poolNUMAIDs gpuNUMANodes =
     list_ex (\<lambda>i. map_of gpuNUMANodes i = Some True) poolNUMAIDs"

definition calculateSpecificGPUAffinity :: "policy \<Rightarrow> request \<Rightarrow> (int, int) gomap" where
  "calculateSpecificGPUAffinity p req =
     (let numaWeights = foldl (\<lambda>m n. AList.update n (aff_get m n + 1) m) [] (matched_numas p req)
      in foldl (\<lambda>m (numaID, weight).
                  AList.update numaID (wrap_i32 (aff_get m numaID + wrap_i32 (weight * 100))) m) [] numaWeights)"

definition calculatePoolAffinities :: "policy \<Rightarrow> request \<Rightarrow> (int, int) gomap" where
  "calculatePoolAffinities p req =
     (if \<not> hasGPURequest req then []
      else if requestedGPUDevices req \<noteq> [] then calculateSpecificGPUAffinity p req
      else [])"

section \<open>Comparing pools\<close>

text \<open>A comparison answers \<open>Some\<close> when it decides, \<open>None\<close> on a tie.\<close>

definition decide :: "int \<Rightarrow> int \<Rightarrow> bool option" where
  "decide a b = (if a > b then Some True else if b > a then Some False else None)"

definition compareResourceCapacity :: "policy \<Rightarrow> request \<Rightarrow> nat \<Rightarrow> nat \<Rightarrow> bool option" where
  "compareResourceCapacity p req n1 n2 =
     (let capacity1 = sc_shared (score_of p req (freeResource (p_heap p ! n1)));
          capacity2 = sc_shared (score_of p req (freeResource (p_heap p ! n2)))
      in if capacity1 \<ge> 0 \<and> capacity2 < 0 then Some True
         else if capacity1 < 0 \<and> capacity2 \<ge> 0 then Some False
         else None)"

definition compareDepth :: "policy \<Rightarrow> nat \<Rightarrow> nat \<Rightarrow> bool option" where
  "compareDepth p n1 n2 = decide (RootDistance (p_heap p) (Ref n1)) (RootDistance (p_heap p) (Ref n2))"

definition compareSharedCapacity :: "score \<Rightarrow> score \<Rightarrow> bool option" where
  "compareSharedCapacity score1 score2 = decide (sc_shared score1) (sc_shared score2)"

definition compareColocated :: "score \<Rightarrow> score \<Rightarrow> bool option" where
  "compareColocated score1 score2 =
     (if sc_colocated score1 < sc_colocated score2 then Some True
      else if sc_colocated score2 < sc_colocated score1 then Some False else None)"

definition affinity_add :: "policy \<Rightarrow> (int, int) gomap \<Rightarrow> int \<Rightarrow> int \<Rightarrow> int" where
  "affinity_add p affinity a numaID =
     (let baseAffinity = aff_get affinity numaID in
      if resourcePriority p = ''gpu-first'' \<and> baseAffinity > 0
      then wrap_i32 (a + wrap_i32 (baseAffinity * 100))
      else wrap_i32 (a + baseAffinity))"

definition affinity_sum :: "policy \<Rightarrow> (int, int) gomap \<Rightarrow> int list \<Rightarrow> int" where
  "affinity_sum p affinity numaIDs = foldl (affinity_add p affinity) 0 numaIDs"

definition supply_numas :: "policy \<Rightarrow> nat \<Rightarrow> int list" where
  "supply_numas p n = GetNUMAIDs (p_heap p) (sp_node (freeResource (p_heap p ! n)))"

definition compareGPUAffinity :: "policy \<Rightarrow> request \<Rightarrow> (int, int) gomap \<Rightarrow> nat \<Rightarrow> nat \<Rightarrow> bool option" where
  "compareGPUAffinity p req affinity n1 n2 =
     (if \<not> hasGPURequest req then None
      else decide (affinity_sum p affinity (supply_numas p n1)) (affinity_sum p affinity (supply_numas p n2)))"

definition compareCPUCapacity :: "policy \<Rightarrow> nat \<Rightarrow> nat \<Rightarrow> bool option" where
  "compareCPUCapacity p n1 n2 =
     decide (AllocatableSharedCPU (freeResource (p_heap p ! n1))) (AllocatableSharedCPU (freeResource (p_heap p ! n2)))"

definition orelse :: "bool option \<Rightarrow> bool option \<Rightarrow> bool option" where
  "orelse a b = (case a of Some r \<Rightarrow> Some r | None \<Rightarrow> b)"

definition applyResourcePriorityStrategy ::
  "policy \<Rightarrow> request \<Rightarrow> (int, int) gomap \<Rightarrow> nat \<Rightarrow> nat \<Rightarrow> bool option" where
  "applyResourcePriorityStrategy p req affinity n1 n2 =
     (if resourcePriority p = ''gpu-first''
      then orelse (compareGPUAffinity p req affinity n1 n2) (compareCPUCapacity p n1 n2)
      else orelse (compareCPUCapacity p n1 n2) (compareGPUAffinity p req affinity n1 n2))"

definition compareNodes ::
  "policy \<Rightarrow> request \<Rightarrow> (int, score) gomap \<Rightarrow> (int, int) gomap \<Rightarrow> nat \<Rightarrow> nat \<Rightarrow> bool" where
  "compareNodes p req scores affinity n1 n2 =
     (let id1 = NodeID (p_heap p) (Ref n1); id2 = NodeID (p_heap p) (Ref n2) in
      case (map_of scores id1, map_of scores id2) of
        (Some score1, Some score2) \<Rightarrow>
          (case orelse (compareResourceCapacity p req n1 n2)
               (orelse (compareDepth p n1 n2)
               (orelse (compareSharedCapacity score1 score2)
               (orelse (compareColocated score1 score2)
                       (applyResourcePriorityStrategy p req affinity n1 n2)))) of
             Some r \<Rightarrow> r
           | None \<Rightarrow> id1 < id2)
      | _ \<Rightarrow> False)"

definition pool_scores :: "policy \<Rightarrow> request \<Rightarrow> nat list \<Rightarrow> (int, score) gomap" where
  "pool_scores p req pools =
     foldl (\<lambda>m n. AList.update (NodeID (p_heap p) (Ref n)) (score_of p req (freeResource (p_heap p ! n))) m) [] pools"

definition sortPoolsByScore ::
  "policy \<Rightarrow> request \<Rightarrow> (int, int) gomap \<Rightarrow> nat list \<Rightarrow> (int, score) gomap \<times> nat list" where
  "sortPoolsByScore p req affinity pools =
     (let scores = pool_scores p req pools
      in (scores, go_sort (compareNodes p req scores affinity) pools))"

section \<open>Selection\<close>

definition better_pool :: "policy \<Rightarrow> request \<Rightarrow> nat option \<times> int \<Rightarrow> nat \<Rightarrow> nat option \<times> int" where
  "better_pool p req best pool =
     (if hasCapacity p req pool
      then (let depth = RootDistance (p_heap p) (Ref pool)
            in if depth > snd best then (Some pool, depth) else best)
      else best)"

definition findRegularPool :: "policy \<Rightarrow> request \<Rightarrow> nat list \<Rightarrow> nat option" where
  "findRegularPool p req pools = fst (foldl (better_pool p req) (None, -1) pools)"

definition findGPUAffinityPool :: "policy \<Rightarrow> request \<Rightarrow> nat option" where
  "findGPUAffinityPool p req =
     (let gpuNUMANodes = getRequestedGPUNUMANodes p req in
      if gpuNUMANodes = [] then None
      else (let affinity = calculateGPUNUMAAffinity gpuNUMANodes;
                filteredPools = filterPoolsByCapacity p req;
                sortedPools = snd (sortPoolsByScore p req affinity filteredPools)
            in List.find (\<lambda>i. isPoolInGPUNUMANodes (supply_numas p i) gpuNUMANodes) sortedPools))"

definition findBestAvailablePool :: "policy \<Rightarrow> request \<Rightarrow> nat list \<Rightarrow> nat option" where
  "findBestAvailablePool p req pools =
     (case (if resourcePriority p = ''gpu-first'' \<and> hasGPURequest req
            then findGPUAffinityPool p req else None) of
        Some pool \<Rightarrow> Some pool
      | None \<Rightarrow> findRegularPool p req pools)"

section \<open>What a pool must carry\<close>

text \<open>The capacity test without its loops: every node below the root on the way up has room.\<close>

definition fits_node :: "policy \<Rightarrow> request \<Rightarrow> nat \<Rightarrow> bool" where
  "fits_node p req i \<longleftrightarrow>
     cpuRequest req \<le> AllocatableCPUByRequest (freeResource (p_heap p ! i))
     \<and> (enableMemoryTopology p \<longrightarrow> to_u64 (go_div (memLimit req) 1024) \<le> AllocatableMemory (freeResource (p_heap p ! i)))"

definition wf_policy :: "policy \<Rightarrow> bool" where
  "wf_policy p \<longleftrightarrow> wf_heap (p_heap p) \<and> p_root p = Ref 0 \<and> distinct (p_pools p)
     \<and> set (p_pools p) = {..<length (p_heap p)}"

definition below_root :: "policy \<Rightarrow> nat \<Rightarrow> nat list" where
  "below_root p i = filter (\<lambda>j. j \<noteq> 0) (anc (p_heap p) (Ref i))"

lemma score_simps [simp]:
  "sc_sharedByRequest (score_of p req s) = AllocatableCPUByRequest s - cpuRequest req"
  "sc_memoryCapacity (score_of p req s) = AllocatableMemory s"
  "sc_shared (score_of p req s) = AllocatableSharedCPU s - cpuLimit req"
  "sc_colocated (score_of p req s) = CountColocation p (NodeID (p_heap p) (sp_node s))"
  by (simp_all add: score_of_def GetScore_def)

lemma climb_loop:
  assumes "wf_heap (p_heap p)" "p_root p = Ref 0"
  shows "i < length (p_heap p) \<Longrightarrow> i < f \<Longrightarrow>
    cpu_loop f p req (Ref i) = Some (\<forall>j\<in>set (below_root p i).
      cpuRequest req \<le> AllocatableCPUByRequest (freeResource (p_heap p ! j)))
    \<and> memory_loop f p req kb (Ref i) = Some (\<forall>j\<in>set (below_root p i).
      kb \<le> AllocatableMemory (freeResource (p_heap p ! j)))"
proof (induction i arbitrary: f rule: less_induct)
  case (less i)
  obtain g where f: "f = Suc g" using less.prems by (cases f) auto
  show ?case
  proof (cases "i = 0")
    case True
    then show ?thesis
      using anc_Ref[OF assms(1) less.prems(1)] wf_parent_root[OF assms(1)] assms(2)
      by (simp add: f below_root_def)
  next
    case False
    from wf_parent[OF assms(1) less.prems(1) False] obtain j where j: "nd_parent (p_heap p ! i) = Ref j" "j < i" .
    have "below_root p i = i # below_root p j"
      using anc_Ref[OF assms(1) less.prems(1)] False j by (simp add: below_root_def)
    with less.IH[OF j(2), of g] less.prems j(2) False assms(2) show ?thesis
      by (auto simp: f FreeResource_def Parent_def j(1))
  qed
qed

text \<open>The loops always end: neither answers \<open>None\<close>, the model's out-of-fuel.\<close>

lemma climb_returns:
  assumes "wf_policy p" "i < length (p_heap p)"
  shows "cpu_loop (length (p_heap p) + 1) p req (Ref i) \<noteq> None"
    "memory_loop (length (p_heap p) + 1) p req kb (Ref i) \<noteq> None"
  using climb_loop[of p i "length (p_heap p) + 1"] assms by (auto simp: wf_policy_def)

lemma hasCapacity_iff:
  assumes "wf_policy p" "i < length (p_heap p)"
  shows "hasCapacity p req i \<longleftrightarrow> (\<forall>j\<in>set (below_root p i). fits_node p req j)"
proof -
  have nn: "0 \<le> AllocatableMemory s" for s by (simp add: AllocatableMemory_def)
  show ?thesis
    using climb_loop[of p i "length (p_heap p) + 1" req "to_u64 (go_div (memLimit req) 1024)"] assms nn
    by (auto simp: hasCapacity_def checkCapacityByRequest_def checkMemoryCapacity_def fits_node_def wf_policy_def
        Let_def)
qed

lemma below_root_self: "wf_policy p \<Longrightarrow> i < length (p_heap p) \<Longrightarrow> i \<noteq> 0 \<Longrightarrow> i \<in> set (below_root p i)"
  using anc_bound[of "p_heap p" i] by (auto simp: below_root_def wf_policy_def)

section \<open>What the filter returns\<close>

lemma filterPools_mem:
  assumes "wf_policy p" "i \<in> set (filterPoolsByCapacity p req)"
  shows "i < length (p_heap p)" "i \<in> set (p_pools p)"
    "i = 0 \<or> hasCapacity p req i"
    "i = 0 \<Longrightarrow> (\<forall>j. 0 < j \<and> j < length (p_heap p) \<longrightarrow> \<not> hasCapacity p req j)"
proof -
  let ?fp = "filter (\<lambda>i. Ref i \<noteq> p_root p \<and> hasCapacity p req i) (p_pools p)"
  have root: "p_root p = Ref 0" and pools: "set (p_pools p) = {..<length (p_heap p)}"
    using assms(1) by (auto simp: wf_policy_def)
  have last0: "x \<in> set xs \<Longrightarrow> last (filter (\<lambda>i. i = (0::nat)) xs) = 0" if "x = 0" for x and xs :: "nat list"
    using last_in_set[of "filter (\<lambda>i. i = 0) xs"] that by (auto simp: filter_empty_conv)
  have "(?fp = [] \<and> i = 0) \<or> i \<in> set ?fp"
    using assms(2) last0 by (auto simp: filterPoolsByCapacity_def Let_def root filter_empty_conv split: if_splits)
  moreover have "0 \<in> set (p_pools p)" using assms(1) by (auto simp: wf_policy_def wf_heap_def)
  ultimately show "i < length (p_heap p)" "i \<in> set (p_pools p)" "i = 0 \<or> hasCapacity p req i"
    "i = 0 \<Longrightarrow> (\<forall>j. 0 < j \<and> j < length (p_heap p) \<longrightarrow> \<not> hasCapacity p req j)"
    unfolding pools[symmetric]
    by (auto simp: root filter_empty_conv pools Ball_def)
qed

lemma filterPools_complete:
  assumes "wf_policy p" "0 < j" "j < length (p_heap p)" "hasCapacity p req j"
  shows "j \<in> set (filterPoolsByCapacity p req)"
  using assms by (auto simp: filterPoolsByCapacity_def Let_def wf_policy_def filter_empty_conv Ball_def)

lemma filterPools_nonempty: "wf_policy p \<Longrightarrow> filterPoolsByCapacity p req \<noteq> []"
  by (auto simp: filterPoolsByCapacity_def Let_def wf_policy_def wf_heap_def filter_empty_conv)

lemma filterPools_distinct: "wf_policy p \<Longrightarrow> distinct (filterPoolsByCapacity p req)"
  by (simp add: filterPoolsByCapacity_def Let_def wf_policy_def)

section \<open>What the selection returns\<close>

text \<open>The regular search returns the first pool of the greatest depth among those with room.\<close>

lemma better_pool_fold:
  "foldl (better_pool p req) (b, d) pools = (b', d') \<Longrightarrow>
   d \<le> d' \<and> (\<forall>i\<in>set pools. hasCapacity p req i \<longrightarrow> RootDistance (p_heap p) (Ref i) \<le> d') \<and>
   ((b' = b \<and> d' = d) \<or> (\<exists>i\<in>set pools. b' = Some i \<and> hasCapacity p req i
      \<and> d' = RootDistance (p_heap p) (Ref i) \<and> d < d'))"
proof (induction pools arbitrary: b d)
  case (Cons i pools)
  obtain b1 d1 where bd: "better_pool p req (b, d) i = (b1, d1)" by (cases "better_pool p req (b, d) i")
  with Cons.prems have "foldl (better_pool p req) (b1, d1) pools = (b', d')" by simp
  note IH = Cons.IH[OF this]
  from bd have step: "(b1 = b \<and> d1 = d \<and> (hasCapacity p req i \<longrightarrow> RootDistance (p_heap p) (Ref i) \<le> d))
      \<or> (b1 = Some i \<and> hasCapacity p req i \<and> d1 = RootDistance (p_heap p) (Ref i) \<and> d < d1)"
    by (auto simp: better_pool_def Let_def split: if_splits)
  from IH step show ?case by auto
qed simp

lemma findRegularPool_Some:
  assumes "findRegularPool p req pools = Some i"
  shows "i \<in> set pools" "hasCapacity p req i"
    "\<forall>j\<in>set pools. hasCapacity p req j \<longrightarrow> RootDistance (p_heap p) (Ref j) \<le> RootDistance (p_heap p) (Ref i)"
proof -
  obtain d where "foldl (better_pool p req) (None, -1) pools = (Some i, d)"
    using assms by (cases "foldl (better_pool p req) (None, -1) pools") (simp add: findRegularPool_def)
  note f = better_pool_fold[OF this]
  from f obtain k where k: "k \<in> set pools" "i = k" "hasCapacity p req k" "d = RootDistance (p_heap p) (Ref k)"
    by auto
  then show "i \<in> set pools" "hasCapacity p req i" by simp_all
  from f k show "\<forall>j\<in>set pools. hasCapacity p req j \<longrightarrow> RootDistance (p_heap p) (Ref j) \<le> RootDistance (p_heap p) (Ref i)"
    by simp
qed

lemma findRegularPool_None:
  assumes "findRegularPool p req pools = None" "\<forall>i\<in>set pools. 0 \<le> RootDistance (p_heap p) (Ref i)"
  shows "\<forall>i\<in>set pools. \<not> hasCapacity p req i"
proof -
  obtain d where fd: "foldl (better_pool p req) (None, -1) pools = (None, d)"
    using assms(1) by (cases "foldl (better_pool p req) (None, -1) pools") (simp add: findRegularPool_def)
  note f = better_pool_fold[OF fd]
  from f have "d = -1" by auto
  with f assms(2) show ?thesis by force
qed

lemma find_Some_mem: "List.find P xs = Some x \<Longrightarrow> x \<in> set xs \<and> P x"
  by (induction xs) (auto split: if_splits)

lemma findGPUAffinityPool_Some:
  assumes "findGPUAffinityPool p req = Some i"
  shows "i \<in> set (filterPoolsByCapacity p req)"
    "isPoolInGPUNUMANodes (supply_numas p i) (getRequestedGPUNUMANodes p req)"
  using assms by (auto simp: findGPUAffinityPool_def Let_def sortPoolsByScore_def split: if_splits dest!: find_Some_mem)

end
