(* ===== verification/TopoSort.thy ===== *)
theory TopoSort
  imports TopoSelect
begin

text \<open>
  The comparison of \<^verbatim>\<open>pool_sorter.go\<close> is the lexicographic order of a key of seven numbers, larger
  first. It satisfies the contract of \<open>sort.Slice\<close>, separates any two pools, and so determines the
  sorted sequence whatever algorithm the library uses.
\<close>

section \<open>Lexicographic keys\<close>

fun lex_gt :: "int list \<Rightarrow> int list \<Rightarrow> bool" where
  "lex_gt (a # as) (b # bs) = (a > b \<or> (a = b \<and> lex_gt as bs))"
| "lex_gt (a # as) [] = True"
| "lex_gt [] bs = False"

lemma lex_gt_irrefl: "\<not> lex_gt xs xs"
  by (induction xs) auto

lemma lex_gt_trans: "lex_gt xs ys \<Longrightarrow> lex_gt ys zs \<Longrightarrow> lex_gt xs zs"
proof (induction xs ys arbitrary: zs rule: lex_gt.induct)
  case (1 a as b bs)
  then show ?case by (cases zs) auto
qed auto

lemma lex_gt_linear: "lex_gt xs ys \<or> xs = ys \<or> lex_gt ys xs"
proof (induction xs ys rule: lex_gt.induct)
  case (3 bs)
  then show ?case by (cases bs) auto
qed auto

interpretation lex: slice_order lex_gt
proof
  fix x y z
  show "\<not> lex_gt x x" by (rule lex_gt_irrefl)
  show "lex_gt x y \<Longrightarrow> lex_gt y z \<Longrightarrow> lex_gt x z" by (rule lex_gt_trans)
  show "\<not> lex_gt x y \<Longrightarrow> \<not> lex_gt y z \<Longrightarrow> \<not> lex_gt x z"
    by (metis lex_gt_linear lex_gt_trans)
qed

section \<open>Sorting by a key\<close>

lemma sort_ins_cong:
  assumes "\<And>y. y \<in> set ys \<Longrightarrow> f y x = g y x"
  shows "sort_ins f x ys = sort_ins g x ys"
  using assms by (induction ys) auto

lemma go_sort_cong:
  assumes "\<And>x y. x \<in> set xs \<Longrightarrow> y \<in> set xs \<Longrightarrow> f x y = g x y"
  shows "go_sort f xs = go_sort g xs"
  using assms
proof (induction xs)
  case (Cons x xs)
  then have "go_sort f xs = go_sort g xs" by simp
  moreover have "sort_ins f x (go_sort g xs) = sort_ins g x (go_sort g xs)"
    by (rule sort_ins_cong) (use Cons.prems in auto)
  ultimately show ?case by (simp add: go_sort_Cons)
qed simp

text \<open>A comparison given by a key satisfies the contract of \<open>sort.Slice\<close>.\<close>

locale keyed_order =
  fixes lt :: "'a \<Rightarrow> 'a \<Rightarrow> bool" and key :: "'a \<Rightarrow> int list"
  assumes lt_key: "lt x y \<longleftrightarrow> lex_gt (key x) (key y)"

sublocale keyed_order \<subseteq> slice_order lt
  by unfold_locales (auto simp: lt_key lex_gt_irrefl intro: lex_gt_trans dest: lex.less_neg_trans)

context keyed_order
begin

lemma keyed_unique:
  assumes "slice_sorted lt ys" "mset ys = mset xs" "inj_on key (set xs)"
  shows "ys = go_sort lt xs"
  by (rule slice_sort_unique[OF assms(1,2)]) (metis assms(3) inj_onD lt_key lex_gt_linear)

end

section \<open>The key of a pool\<close>

text \<open>The affinity of a pool counts only for a request with GPUs.\<close>

definition pool_affinity :: "policy \<Rightarrow> request \<Rightarrow> (int, int) gomap \<Rightarrow> nat \<Rightarrow> int" where
  "pool_affinity p req affinity n =
     (if hasGPURequest req then affinity_sum p affinity (supply_numas p n) else 0)"

definition pool_key :: "policy \<Rightarrow> request \<Rightarrow> (int, int) gomap \<Rightarrow> nat \<Rightarrow> int list" where
  "pool_key p req affinity n =
     (let s = freeResource (p_heap p ! n); shared = AllocatableSharedCPU s - cpuLimit req in
      [if shared \<ge> 0 then 1 else 0,
       nd_depth (p_heap p ! n), shared, - CountColocation p (nd_id (p_heap p ! n)),
       pool_affinity p req affinity n, - nd_id (p_heap p ! n)])"

lemma fold_update_lookup:
  "map_of (foldl (\<lambda>m n. AList.update (k n) (v n) m) m xs) x =
     (case find (\<lambda>n. k n = x) (rev xs) of Some n \<Rightarrow> Some (v n) | None \<Rightarrow> map_of m x)"
proof (induction xs rule: rev_induct)
  case (snoc a xs)
  then show ?case by (auto split: option.splits)
qed simp

lemma find_rev_unique:
  assumes "inj_on k (set xs)" "i \<in> set xs"
  shows "find (\<lambda>n. k n = k i) (rev xs) = Some i"
proof (cases "find (\<lambda>n. k n = k i) (rev xs)")
  case None
  with assms(2) show ?thesis by (auto simp: find_None_iff)
next
  case (Some j)
  then have "j \<in> set xs" "k j = k i" by (auto dest: find_Some_mem)
  with assms Some show ?thesis by (auto dest: inj_onD)
qed

lemma pool_scores_lookup:
  assumes "wf_policy p" "set pools \<subseteq> {..<length (p_heap p)}" "i \<in> set pools"
  shows "map_of (pool_scores p req pools) (nd_id (p_heap p ! i)) = Some (score_of p req (freeResource (p_heap p ! i)))"
proof -
  have "inj_on (\<lambda>n. nd_id (p_heap p ! n)) (set pools)"
    using assms(1,2) unfolding wf_policy_def by (auto intro!: inj_onI dest: wf_id_inj)
  from find_rev_unique[OF this assms(3)] show ?thesis
    by (simp add: pool_scores_def NodeID_def fold_update_lookup)
qed

text \<open>
  The strategy only orders the two comparisons that follow the shared capacity; on pools whose shared
  capacity ties, the CPU capacities tie too, and both strategies compare the affinities alone.
\<close>

lemma compareNodes_key:
  assumes "wf_policy p" "set pools \<subseteq> {..<length (p_heap p)}" "i \<in> set pools" "j \<in> set pools"
  shows "compareNodes p req (pool_scores p req pools) affinity i j
     \<longleftrightarrow> lex_gt (pool_key p req affinity i) (pool_key p req affinity j)"
proof -
  have len: "i < length (p_heap p)" "j < length (p_heap p)" using assms by auto
  have sp: "sp_node (freeResource (p_heap p ! i)) = Ref i" "sp_node (freeResource (p_heap p ! j)) = Ref j"
    using wf_sp_node assms(1) len by (auto simp: wf_policy_def)
  note lookups = pool_scores_lookup[OF assms(1,2,3)] pool_scores_lookup[OF assms(1,2,4)]
  show ?thesis
    by (simp add: compareNodes_def NodeID_def lookups sp compareResourceCapacity_def compareDepth_def
        RootDistance_def compareSharedCapacity_def compareColocated_def applyResourcePriorityStrategy_def
        compareGPUAffinity_def compareCPUCapacity_def decide_def orelse_def pool_key_def pool_affinity_def Let_def)
qed

definition pool_before :: "policy \<Rightarrow> request \<Rightarrow> (int, int) gomap \<Rightarrow> nat \<Rightarrow> nat \<Rightarrow> bool" where
  "pool_before p req affinity x y \<longleftrightarrow> lex_gt (pool_key p req affinity x) (pool_key p req affinity y)"

interpretation pool_order: keyed_order "pool_before p req affinity" "pool_key p req affinity" for p req affinity
  by unfold_locales (simp add: pool_before_def)

lemma sortPools_key:
  assumes "wf_policy p" "set pools \<subseteq> {..<length (p_heap p)}"
  shows "snd (sortPoolsByScore p req affinity pools) = go_sort (pool_before p req affinity) pools"
  unfolding sortPoolsByScore_def Let_def snd_conv
  by (rule go_sort_cong) (simp add: compareNodes_key[OF assms] pool_before_def)

lemma pool_key_inj:
  assumes "wf_policy p" "set pools \<subseteq> {..<length (p_heap p)}"
  shows "inj_on (pool_key p req affinity) (set pools)"
proof (rule inj_onI)
  fix x y assume "x \<in> set pools" "y \<in> set pools" "pool_key p req affinity x = pool_key p req affinity y"
  moreover from this assms have "x < length (p_heap p)" "y < length (p_heap p)" by auto
  ultimately show "x = y"
    using assms(1) by (auto simp: pool_key_def Let_def wf_policy_def dest: wf_id_inj)
qed

lemma sortPools_sorted:
  assumes "wf_policy p" "set pools \<subseteq> {..<length (p_heap p)}"
  shows "slice_sorted (pool_before p req affinity) (snd (sortPoolsByScore p req affinity pools))"
  unfolding sortPools_key[OF assms] by (rule pool_order.slice_sort_sorted)

end
