(* ===== verification/TopoPolicy.thy ===== *)
theory TopoPolicy
  imports TopoSort
begin

text \<open>
  Allocation and release (\<^verbatim>\<open>policy/topology-aware/topology_aware.go\<close>, \<^verbatim>\<open>resource_propagator.go\<close>): the
  propagation of a grant to the ancestors of its node, \<open>allocatePool\<close>, \<open>releasePool\<close>, and the
  invariant that every counter of every node is the sum over the live grants beneath it.
\<close>

section \<open>Propagation\<close>

fun propagate_loop :: "nat \<Rightarrow> heap \<Rightarrow> grant \<Rightarrow> bool \<Rightarrow> nptr \<Rightarrow> heap option" where
  "propagate_loop 0 h grant isAllocation parent = None"
| "propagate_loop (Suc f) h grant isAllocation parent =
     (case parent of
        Ref j \<Rightarrow>
          (let h' = set_free h j (updateParentResource grant isAllocation (freeResource (h ! j)))
           in propagate_loop f h' grant isAllocation (Parent h' (Ref j)))
      | _ \<Rightarrow> Some h)"

definition propagateResourceToParent :: "policy \<Rightarrow> grant \<Rightarrow> bool \<Rightarrow> policy" where
  "propagateResourceToParent p grant isAllocation =
     (case gr_node grant of
        Ref i \<Rightarrow>
          (case propagate_loop (length (p_heap p) + 1) (p_heap p) grant isAllocation
                  (Parent (p_heap p) (Ref i)) of
             Some h \<Rightarrow> p\<lparr>p_heap := h\<rparr>
           | None \<Rightarrow> p)
      | _ \<Rightarrow> p)"

section \<open>Allocation\<close>

definition grant_id :: "container_ctx \<Rightarrow> string" where
  "grant_id ctx = pm_UID (PodMeta (Request ctx)) @ '':'' @ cm_Name (ContainerMeta (Request ctx))"

text \<open>The steps of \<open>allocatePool\<close> for a container that is not a system container.\<close>

definition select_pool :: "policy \<Rightarrow> request \<Rightarrow> nptr result" where
  "select_pool p req =
     (let filteredPools = filterPoolsByCapacity p req in
      if filteredPools = [] then Inl (Err ''no pool with sufficient capacity'')
      else (let affinity = calculatePoolAffinities p req;
                sortedPools = snd (sortPoolsByScore p req affinity filteredPools)
            in if sortedPools = [] then Inl (Err ''no suitable pool found'')
               else (case findBestAvailablePool p req sortedPools of
                       None \<Rightarrow> Inl (Err ''no suitable pool found'')
                     | Some i \<Rightarrow> Inr (Ref i))))"

text \<open>
  The policy after the call comes with the result. A nil request is dereferenced on every path, which
  panics; so does a nil supply.
\<close>

definition allocatePool :: "policy \<Rightarrow> container_ctx \<Rightarrow> policy \<times> grant result" where
  "allocatePool p ctx =
     (case newRequest ctx of
        Inl e \<Rightarrow> (p, Inl e)
      | Inr None \<Rightarrow> (p, Inl Panic)
      | Inr (Some req) \<Rightarrow>
          (case (if pm_Namespace (PodMeta (Request ctx)) = ''kube-system'' then Inr (p_root p)
                 else select_pool p req) of
             Inl e \<Rightarrow> (p, Inl e)
           | Inr pool \<Rightarrow>
               (case pool of
                  Ref i \<Rightarrow>
                    (case Allocate req (enableMemoryTopology p) (freeResource (p_heap p ! i)) of
                       Inl e \<Rightarrow> (p, Inl e)
                     | Inr (grant, supply') \<Rightarrow>
                         (let gid = grant_id ctx;
                              p1 = p\<lparr>p_heap := set_free (p_heap p) i supply',
                                     p_grants := AList.update gid grant (p_grants p)\<rparr>
                          in (propagateResourceToParent p1 grant True, Inr grant)))
                | _ \<Rightarrow> (p, Inl Panic))))"

definition AllocateResources :: "policy \<Rightarrow> container_ctx \<Rightarrow> policy \<times> unit result" where
  "AllocateResources p ctx =
     (case allocatePool p ctx of
        (p', Inl e) \<Rightarrow> (p', Inl e)
      | (p', Inr _) \<Rightarrow> (p', Inr ()))"

section \<open>Release\<close>

definition grant_Release :: "policy \<Rightarrow> grant \<Rightarrow> policy" where
  "grant_Release p g =
     (case gr_node g of
        Ref i \<Rightarrow> p\<lparr>p_heap := set_free (p_heap p) i (supply_Release g (freeResource (p_heap p ! i)))\<rparr>
      | _ \<Rightarrow> p)"

definition releasePool :: "policy \<Rightarrow> container_ctx \<Rightarrow> policy \<times> grant option" where
  "releasePool p ctx =
     (if cm_ID (ContainerMeta (Request ctx)) = [] \<or> pm_UID (PodMeta (Request ctx)) = [] then (p, None)
      else (case map_of (p_grants p) (grant_id ctx) of
              None \<Rightarrow> (p, None)
            | Some grant \<Rightarrow>
                (let p1 = grant_Release (propagateResourceToParent p grant False) grant
                 in (p1\<lparr>p_grants := AList.delete (grant_id ctx) (p_grants p1)\<rparr>, Some grant))))"

definition ReleaseResources :: "policy \<Rightarrow> container_ctx \<Rightarrow> policy \<times> unit result" where
  "ReleaseResources p ctx =
     (if cm_ID (ContainerMeta (Request ctx)) = [] \<or> pm_UID (PodMeta (Request ctx)) = []
      then (p, Inl (Err ''missing required container or pod information''))
      else (fst (releasePool p ctx), Inr ()))"

section \<open>What propagation does\<close>

lemma updateParent_fixed: "same_fixed s (updateParentResource g b s)"
  by (cases b) (simp_all add: ancestor.charge_fixed ancestor.refund_fixed)

lemma same_tree_fixed:
  assumes "i < length h" "same_fixed (freeResource (h ! i)) s"
  shows "same_tree h (set_free h i s)"
  using assms by (intro same_tree_set_free) (auto simp: same_fixed_def)

lemma propagate_loop_spec:
  "wf_heap h \<Longrightarrow> i < length h \<Longrightarrow> i < f \<Longrightarrow>
   \<exists>h'. propagate_loop (Suc f) h g b (Ref i) = Some h' \<and> same_tree h h' \<and>
     (\<forall>k<length h. freeResource (h' ! k) =
        (if k \<in> set (anc h (Ref i)) then updateParentResource g b (freeResource (h ! k)) else freeResource (h ! k)))"
proof (induction i arbitrary: h f rule: less_induct)
  case (less i)
  define h1 where "h1 = set_free h i (updateParentResource g b (freeResource (h ! i)))"
  have st: "same_tree h h1"
    unfolding h1_def by (rule same_tree_fixed[OF less.prems(2) updateParent_fixed])
  have len: "length h1 = length h" by (simp add: h1_def)
  have fr1: "k < length h \<Longrightarrow> freeResource (h1 ! k)
      = (if k = i then updateParentResource g b (freeResource (h ! i)) else freeResource (h ! k))" for k
    by (simp add: h1_def set_free_nth[OF less.prems(2)])
  have par: "nd_parent (h1 ! i) = nd_parent (h ! i)"
    using same_tree_sel[OF st less.prems(2)] by simp
  have step: "propagate_loop (Suc f) h g b (Ref i) = propagate_loop f h1 g b (nd_parent (h ! i))"
    by (simp add: h1_def[symmetric] Let_def Parent_def par)
  note anc = anc_Ref[OF less.prems(1,2)]
  from wf_parent_cases[OF less.prems(1,2)] show ?case
  proof
    assume root: "i = 0 \<and> nd_parent (h ! i) = NilNode"
    with less.prems(3) have "propagate_loop f h1 g b (nd_parent (h ! i)) = Some h1" by (cases f) auto
    with step st fr1 anc root show ?thesis by auto
  next
    assume "\<exists>j<i. nd_parent (h ! i) = Ref j"
    then obtain j where j: "j < i" "nd_parent (h ! i) = Ref j" by blast
    obtain f' where f': "f = Suc f'" using less.prems(3) by (cases f) auto
    have wf1: "wf_heap h1" by (rule same_tree_wf[OF st less.prems(1)])
    have anc1: "anc h1 (Ref j) = anc h (Ref j)"
      using same_tree_anc[OF st less.prems(1), of "Ref j"] j less.prems(2) by (simp add: valid_ptr_def)
    from less.IH[OF j(1) wf1, of f'] j less.prems len f' obtain h' where
      h': "propagate_loop (Suc f') h1 g b (Ref j) = Some h'" "same_tree h1 h'"
        "\<forall>k<length h. freeResource (h' ! k) = (if k \<in> set (anc h1 (Ref j))
            then updateParentResource g b (freeResource (h1 ! k)) else freeResource (h1 ! k))"
      by auto
    have "i \<notin> set (anc h (Ref j))" using anc_lt[OF less.prems(1), of j i] j less.prems(2) by auto
    with h' show ?thesis
      using step j f' same_tree_trans[OF st h'(2)] anc fr1 anc1 by auto
  qed
qed

text \<open>The loop returns on every well-formed tree.\<close>

lemma propagate_spec:
  assumes "wf_heap (p_heap p)" "gr_node g = Ref i" "i < length (p_heap p)"
  shows "\<exists>h'. propagateResourceToParent p g b = p\<lparr>p_heap := h'\<rparr> \<and> same_tree (p_heap p) h' \<and>
     (\<forall>k<length (p_heap p). freeResource (h' ! k) =
        (if k \<noteq> i \<and> k \<in> set (anc (p_heap p) (Ref i))
         then updateParentResource g b (freeResource (p_heap p ! k)) else freeResource (p_heap p ! k)))"
proof -
  note anc = anc_Ref[OF assms(1,3)]
  from wf_parent_cases[OF assms(1,3)] show ?thesis
  proof
    assume root: "i = 0 \<and> nd_parent (p_heap p ! i) = NilNode"
    then show ?thesis
      using assms anc by (intro exI[of _ "p_heap p"]) (auto simp: propagateResourceToParent_def Parent_def)
  next
    assume "\<exists>j<i. nd_parent (p_heap p ! i) = Ref j"
    then obtain j where j: "j < i" "nd_parent (p_heap p ! i) = Ref j" by blast
    with propagate_loop_spec[OF assms(1), of j "length (p_heap p)" g b] assms(3) obtain h' where
      "propagate_loop (length (p_heap p) + 1) (p_heap p) g b (Ref j) = Some h'" "same_tree (p_heap p) h'"
      "\<forall>k<length (p_heap p). freeResource (h' ! k) = (if k \<in> set (anc (p_heap p) (Ref j))
          then updateParentResource g b (freeResource (p_heap p ! k)) else freeResource (p_heap p ! k))"
      by auto
    moreover have "i \<notin> set (anc (p_heap p) (Ref j))"
      using anc_lt[OF assms(1), of j i] j assms(3) by auto
    ultimately show ?thesis
      using assms(2) j anc by (intro exI[of _ h']) (auto simp: propagateResourceToParent_def Parent_def)
  qed
qed

section \<open>Charging and refunding a whole path\<close>

definition charge_path :: "policy \<Rightarrow> grant \<Rightarrow> nat \<Rightarrow> policy" where
  "charge_path p g i =
     propagateResourceToParent
       (p\<lparr>p_heap := set_free (p_heap p) i (supply_charge g (freeResource (p_heap p ! i)))\<rparr>) g True"

definition refund_path :: "policy \<Rightarrow> grant \<Rightarrow> policy" where
  "refund_path p g = grant_Release (propagateResourceToParent p g False) g"

lemma charge_path_spec:
  assumes "wf_heap (p_heap p)" "gr_node g = Ref i" "i < length (p_heap p)"
  shows "\<exists>h'. charge_path p g i = p\<lparr>p_heap := h'\<rparr> \<and> same_tree (p_heap p) h' \<and>
     (\<forall>k<length (p_heap p). freeResource (h' ! k) =
        (if k = i then supply_charge g (freeResource (p_heap p ! k))
         else if k \<in> set (anc (p_heap p) (Ref i)) then updateParentResource g True (freeResource (p_heap p ! k))
         else freeResource (p_heap p ! k)))"
proof -
  define h1 where "h1 = set_free (p_heap p) i (supply_charge g (freeResource (p_heap p ! i)))"
  have st: "same_tree (p_heap p) h1"
    unfolding h1_def by (rule same_tree_fixed[OF assms(3) own.charge_fixed])
  have wf1: "wf_heap h1" by (rule same_tree_wf[OF st assms(1)])
  have len: "length h1 = length (p_heap p)" by (simp add: h1_def)
  have fr: "k < length (p_heap p) \<Longrightarrow> freeResource (h1 ! k)
      = (if k = i then supply_charge g (freeResource (p_heap p ! i)) else freeResource (p_heap p ! k))" for k
    by (simp add: h1_def set_free_nth[OF assms(3)])
  have anc: "anc h1 (Ref i) = anc (p_heap p) (Ref i)"
    using same_tree_anc[OF st assms(1), of "Ref i"] assms(3) by (simp add: valid_ptr_def)
  from propagate_spec[of "p\<lparr>p_heap := h1\<rparr>" g i True] wf1 assms(2,3) len obtain h' where
    h': "propagateResourceToParent (p\<lparr>p_heap := h1\<rparr>) g True = p\<lparr>p_heap := h'\<rparr>" "same_tree h1 h'"
      "\<forall>k<length (p_heap p). freeResource (h' ! k) = (if k \<noteq> i \<and> k \<in> set (anc h1 (Ref i))
          then updateParentResource g True (freeResource (h1 ! k)) else freeResource (h1 ! k))"
    by auto
  show ?thesis
    unfolding charge_path_def h1_def[symmetric]
    by (rule exI[of _ h']) (use h' same_tree_trans[OF st h'(2)] fr anc in auto)
qed

lemma refund_path_spec:
  assumes "wf_heap (p_heap p)" "gr_node g = Ref i" "i < length (p_heap p)"
  shows "\<exists>h'. refund_path p g = p\<lparr>p_heap := h'\<rparr> \<and> same_tree (p_heap p) h' \<and>
     (\<forall>k<length (p_heap p). freeResource (h' ! k) =
        (if k = i then supply_Release g (freeResource (p_heap p ! k))
         else if k \<in> set (anc (p_heap p) (Ref i)) then updateParentResource g False (freeResource (p_heap p ! k))
         else freeResource (p_heap p ! k)))"
proof -
  from propagate_spec[OF assms, of False] obtain h1 where
    h1: "propagateResourceToParent p g False = p\<lparr>p_heap := h1\<rparr>" "same_tree (p_heap p) h1"
      "\<forall>k<length (p_heap p). freeResource (h1 ! k) = (if k \<noteq> i \<and> k \<in> set (anc (p_heap p) (Ref i))
          then updateParentResource g False (freeResource (p_heap p ! k)) else freeResource (p_heap p ! k))"
    by auto
  have len: "length h1 = length (p_heap p)" by (rule same_tree_length[OF h1(2)])
  define h' where "h' = set_free h1 i (supply_Release g (freeResource (h1 ! i)))"
  have st: "same_tree h1 h'"
    unfolding h'_def using assms(3) len by (intro same_tree_fixed own.refund_fixed) simp
  have "refund_path p g = p\<lparr>p_heap := h'\<rparr>"
    by (simp add: refund_path_def grant_Release_def assms(2) h1(1) h'_def)
  moreover have "freeResource (h' ! k) = (if k = i then supply_Release g (freeResource (h1 ! i)) else freeResource (h1 ! k))" for k
    unfolding h'_def by (rule set_free_nth) (simp add: len assms(3))
  ultimately show ?thesis
    using same_tree_trans[OF h1(2) st] h1(3) assms(3) by (intro exI[of _ h']) auto
qed

text \<open>Seen through the counters, both add or subtract the grant on the path and nothing elsewhere.\<close>

definition counter_at :: "policy \<Rightarrow> nat \<Rightarrow> counter \<Rightarrow> int" where
  "counter_at p k c = ctr c (freeResource (p_heap p ! k))"

definition on_path :: "policy \<Rightarrow> grant \<Rightarrow> nat \<Rightarrow> bool" where
  "on_path p g k \<longleftrightarrow> k \<in> set (anc (p_heap p) (gr_node g))"

lemma charge_path_counters:
  assumes "wf_heap (p_heap p)" "gr_node g = Ref i" "i < length (p_heap p)" "k < length (p_heap p)"
    and "\<forall>k<length (p_heap p). chargeable g (freeResource (p_heap p ! k))"
  shows "counter_at (charge_path p g i) k c = counter_at p k c + (if on_path p g k then amount c g else 0)"
  using charge_path_spec[OF assms(1-3)] assms(2,4,5) anc_bound[OF assms(1,3)]
  by (auto simp: counter_at_def on_path_def own.charge_ctr ancestor.charge_ctr)

lemma refund_path_counters:
  assumes "wf_heap (p_heap p)" "gr_node g = Ref i" "i < length (p_heap p)" "k < length (p_heap p)"
    and "on_path p g k \<longrightarrow> refundable g (freeResource (p_heap p ! k))"
  shows "counter_at (refund_path p g) k c = counter_at p k c - (if on_path p g k then amount c g else 0)"
  using refund_path_spec[OF assms(1-3)] assms(2,4,5) anc_bound[OF assms(1,3)]
  by (auto simp: counter_at_def on_path_def own.refund_ctr ancestor.refund_ctr)

end
