(* ===== verification/TopoLedger.thy ===== *)
theory TopoLedger
  imports TopoPolicy
begin

text \<open>
  The invariant of the allocator, over every sequence of allocations and releases: the books balance
  (each counter of each node is the sum over the live grants on whose path the node lies) and no node
  below the root is charged beyond its capacity. The abstract state is the map of live grants; the
  counters in the tree are its image.
\<close>

section \<open>The books\<close>

definition grant_sum :: "policy \<Rightarrow> nat \<Rightarrow> counter \<Rightarrow> int" where
  "grant_sum p k c = (\<Sum>(gid, g)\<leftarrow>p_grants p. if on_path p g k then amount c g else 0)"

definition valid_grant :: "policy \<Rightarrow> grant \<Rightarrow> bool" where
  "valid_grant p g \<longleftrightarrow> (\<exists>i<length (p_heap p). gr_node g = Ref i)
     \<and> 0 \<le> allocatedCPUs g \<and> 0 \<le> allocatedCPUByRequest g \<and> 0 \<le> allocatedCPUByLimit g \<and> 0 \<le> allocatedMemory g"

definition books :: "policy \<Rightarrow> bool" where
  "books p \<longleftrightarrow> wf_policy p \<and> wf_map (p_grants p) \<and> (\<forall>(gid, g)\<in>set (p_grants p). valid_grant p g)
     \<and> (\<forall>k<length (p_heap p). \<forall>c. counter_at p k c = grant_sum p k c)"

definition within_capacity :: "policy \<Rightarrow> bool" where
  "within_capacity p \<longleftrightarrow> (\<forall>k. 0 < k \<and> k < length (p_heap p) \<longrightarrow>
     counter_at p k CByRequest \<le> TotalSharedCPU (freeResource (p_heap p ! k))
     \<and> (enableMemoryTopology p \<longrightarrow> counter_at p k CMemory \<le> memoryTotal (freeResource (p_heap p ! k))))"

lemma amount_nonneg: "valid_grant p g \<Longrightarrow> 0 \<le> amount c g"
  by (cases c) (auto simp: valid_grant_def amount_def)

lemma booksD:
  assumes "books p"
  shows "wf_policy p" "wf_heap (p_heap p)" "wf_map (p_grants p)"
    "(gid, g) \<in> set (p_grants p) \<Longrightarrow> valid_grant p g"
    "k < length (p_heap p) \<Longrightarrow> counter_at p k c = grant_sum p k c"
  using assms by (auto simp: books_def wf_policy_def)

lemma sum_list_mset: "(\<Sum>x\<leftarrow>xs. f x) = \<Sum>\<^sub># (image_mset f (mset xs))"
  for f :: "'a \<Rightarrow> int"
  by (induction xs) auto

lemma sum_list_member_le:
  fixes f :: "'a \<Rightarrow> int"
  shows "x \<in> set xs \<Longrightarrow> (\<And>y. y \<in> set xs \<Longrightarrow> 0 \<le> f y) \<Longrightarrow> f x \<le> (\<Sum>y\<leftarrow>xs. f y)"
proof (induction xs)
  case (Cons a xs)
  have "0 \<le> (\<Sum>y\<leftarrow>xs. f y)" by (rule sum_list_nonneg) (use Cons.prems(2) in auto)
  moreover have "0 \<le> f a" by (rule Cons.prems(2)) simp
  ultimately show ?case using Cons by fastforce
qed simp

lemma set_update_sub: "set (AList.update k v m) \<subseteq> insert (k, v) (set m)"
  by (induction m) auto

lemma set_delete_sub: "set (AList.delete k m) \<subseteq> set m"
  by (induction m) auto

lemma sum_update_fresh:
  fixes f :: "'k \<times> 'v \<Rightarrow> int"
  assumes "wf_map m" "map_of m k = None"
  shows "(\<Sum>x\<leftarrow>AList.update k v m. f x) = (\<Sum>x\<leftarrow>m. f x) + f (k, v)"
  by (simp add: sum_list_mset wf_map_mset_update[OF assms(1)] assms(2))

lemma sum_delete:
  fixes f :: "'k \<times> 'v \<Rightarrow> int"
  assumes "wf_map m" "map_of m k = Some v"
  shows "(\<Sum>x\<leftarrow>AList.delete k m. f x) = (\<Sum>x\<leftarrow>m. f x) - f (k, v)"
proof -
  have "(k, v) \<in># mset m" using assms(2) by (simp add: map_of_SomeD)
  then have "\<Sum>\<^sub># (image_mset f (mset m)) = f (k, v) + \<Sum>\<^sub># (image_mset f (mset m - {#(k, v)#}))"
    by (metis add_mset_remove_trivial_eq image_mset_add_mset insert_DiffM sum_mset.add_mset)
  then show ?thesis by (simp add: sum_list_mset wf_map_mset_delete[OF assms(1)] assms(2))
qed

lemma grant_sum_nonneg: "\<forall>(gid, g)\<in>set (p_grants p). valid_grant p g \<Longrightarrow> 0 \<le> grant_sum p k c"
  unfolding grant_sum_def by (intro sum_list_nonneg) (auto simp: amount_nonneg)

lemma grant_sum_ge:
  assumes "\<forall>(gid, g)\<in>set (p_grants p). valid_grant p g" "(gid, g) \<in> set (p_grants p)" "on_path p g k"
  shows "amount c g \<le> grant_sum p k c"
proof -
  let ?f = "\<lambda>(gid, g). if on_path p g k then amount c g else 0"
  have "?f (gid, g) \<le> (\<Sum>x\<leftarrow>p_grants p. ?f x)"
    by (rule sum_list_member_le[OF assms(2)]) (use assms(1) in \<open>auto simp: amount_nonneg\<close>)
  with assms(3) show ?thesis by (simp add: grant_sum_def)
qed

text \<open>Every path ends at the root: the root carries the largest counters.\<close>

lemma on_path_root: "books p \<Longrightarrow> (gid, g) \<in> set (p_grants p) \<Longrightarrow> on_path p g 0"
  using booksD(4)[of p gid g] anc_bound booksD(2)[of p] by (auto simp: on_path_def valid_grant_def)

lemma counter_le_root:
  assumes "books p" "k < length (p_heap p)"
  shows "0 \<le> counter_at p k c" "counter_at p k c \<le> counter_at p 0 c"
proof -
  have v: "\<forall>(gid, g)\<in>set (p_grants p). valid_grant p g" using assms(1) by (auto simp: books_def)
  have z: "0 < length (p_heap p)" using assms(2) by auto
  show "0 \<le> counter_at p k c" using booksD(5)[OF assms] grant_sum_nonneg[OF v] by simp
  have "grant_sum p k c \<le> grant_sum p 0 c"
    unfolding grant_sum_def
    by (rule sum_list_mono) (use v on_path_root[OF assms(1)] amount_nonneg in \<open>auto split: if_splits\<close>)
  then show "counter_at p k c \<le> counter_at p 0 c"
    using booksD(5)[OF assms] booksD(5)[OF assms(1) z] by simp
qed

lemma live_refundable:
  assumes "books p" "(gid, g) \<in> set (p_grants p)" "k < length (p_heap p)" "on_path p g k"
  shows "refundable g (freeResource (p_heap p ! k))"
proof -
  have v: "\<forall>(gid, g)\<in>set (p_grants p). valid_grant p g" using assms(1) by (auto simp: books_def)
  have "amount c g \<le> ctr c (freeResource (p_heap p ! k))" for c
    using grant_sum_ge[OF v assms(2,4), of c] booksD(5)[OF assms(1,3), of c] by (simp add: counter_at_def)
  then show ?thesis by (simp add: refundable_def)
qed

section \<open>Frames\<close>

lemma propagate_grants_commute:
  "propagateResourceToParent (p\<lparr>p_grants := G\<rparr>) g b = (propagateResourceToParent p g b)\<lparr>p_grants := G\<rparr>"
  by (auto simp: propagateResourceToParent_def split: nptr.splits option.splits)

lemma on_path_grants [simp]: "on_path (p\<lparr>p_grants := G\<rparr>) = on_path p"
  by (auto simp: on_path_def fun_eq_iff)

lemma counter_at_grants [simp]: "counter_at (p\<lparr>p_grants := G\<rparr>) = counter_at p"
  by (auto simp: counter_at_def fun_eq_iff)

lemma wf_policy_same_tree:
  "wf_policy p \<Longrightarrow> same_tree (p_heap p) h \<Longrightarrow> wf_policy (p\<lparr>p_heap := h, p_grants := G\<rparr>)"
  using same_tree_wf same_tree_length[of "p_heap p" h] by (auto simp: wf_policy_def)

lemma on_path_same_tree:
  assumes "wf_policy p" "same_tree (p_heap p) h" "valid_grant p g"
  shows "on_path (p\<lparr>p_heap := h, p_grants := G\<rparr>) g k \<longleftrightarrow> on_path p g k"
proof -
  have wf: "wf_heap (p_heap p)" using assms(1) by (simp add: wf_policy_def)
  obtain i where "gr_node g = Ref i" "i < length (p_heap p)" using assms(3) unfolding valid_grant_def by blast
  then have "valid_ptr (p_heap p) (gr_node g)" by (simp add: valid_ptr_def)
  from same_tree_anc[OF assms(2) wf this] show ?thesis by (simp add: on_path_def)
qed

lemma valid_grant_same_tree:
  "same_tree (p_heap p) h \<Longrightarrow> valid_grant (p\<lparr>p_heap := h, p_grants := G\<rparr>) g \<longleftrightarrow> valid_grant p g"
  using same_tree_length[of "p_heap p" h] by (auto simp: valid_grant_def)

lemma books_update:
  assumes "books p" "same_tree (p_heap p) h"
    and "wf_map G" "\<forall>(gid, g)\<in>set G. valid_grant p g"
    and "\<And>k c. k < length (p_heap p) \<Longrightarrow> counter_at (p\<lparr>p_heap := h\<rparr>) k c
          = (\<Sum>(gid, g)\<leftarrow>G. if on_path p g k then amount c g else 0)"
  shows "books (p\<lparr>p_heap := h, p_grants := G\<rparr>)"
proof -
  let ?p = "p\<lparr>p_heap := h, p_grants := G\<rparr>"
  have wf: "wf_policy p" by (rule booksD(1)[OF assms(1)])
  have eq: "grant_sum ?p k c = (\<Sum>(gid, g)\<leftarrow>G. if on_path p g k then amount c g else 0)" for k c
    unfolding grant_sum_def
    by (rule arg_cong[of _ _ sum_list], rule map_cong)
      (use assms(4) on_path_same_tree[OF wf assms(2)] in auto)
  have ca: "counter_at ?p k c = counter_at (p\<lparr>p_heap := h\<rparr>) k c" for k c by (simp add: counter_at_def)
  have "\<forall>(gid, g)\<in>set G. valid_grant ?p g"
    using assms(4) valid_grant_same_tree[OF assms(2)] by blast
  then show ?thesis
    using wf_policy_same_tree[OF wf assms(2)] assms(3,5) same_tree_length[OF assms(2)]
    by (simp add: books_def eq ca)
qed

section \<open>Selection\<close>

lemma select_pool_cases:
  assumes "wf_policy p" "select_pool p req = Inr pool"
  obtains i where "pool = Ref i" "i < length (p_heap p)" "i \<in> set (filterPoolsByCapacity p req)"
    "i = 0 \<or> hasCapacity p req i"
proof -
  let ?f = "filterPoolsByCapacity p req"
  let ?s = "snd (sortPoolsByScore p req (calculatePoolAffinities p req) ?f)"
  from assms(2) obtain i where i: "pool = Ref i" "findBestAvailablePool p req ?s = Some i"
    by (auto simp: select_pool_def Let_def split: if_splits option.splits)
  have "set ?s = set ?f" by (simp add: sortPoolsByScore_def Let_def)
  with i(2) have "i \<in> set ?f"
    using findRegularPool_Some(1)[of p req ?s i] findGPUAffinityPool_Some(1)[of p req i]
    by (auto simp: findBestAvailablePool_def split: option.splits if_splits)
  with filterPools_mem[OF assms(1) this] i(1) that show thesis by blast
qed

lemma allocatePool_success:
  assumes "books p" "newRequest ctx = Inr (Some req)" "sane_request req"
    and "allocatePool p ctx = (p', Inr g)"
    and "counter_at p 0 CMemory < 18446744073709551616"
  obtains i where "i < length (p_heap p)" "gr_node g = Ref i"
    "p' = (charge_path p g i)\<lparr>p_grants := AList.update (grant_id ctx) g (p_grants p)\<rparr>"
    "allocatedCPUs g = cpuRequest req" "allocatedCPUByRequest g = cpuRequest req"
    "allocatedCPUByLimit g = cpuLimit req" "allocatedMemory g = mem_kb req" "valid_grant p g"
    "i = 0 \<or> (i \<in> set (filterPoolsByCapacity p req) \<and> hasCapacity p req i)"
    "cpuRequest req \<le> AllocatableCPUByRequest (freeResource (p_heap p ! i))"
    "pm_Namespace (PodMeta (Request ctx)) \<noteq> ''kube-system'' \<Longrightarrow> select_pool p req = Inr (Ref i)"
    "pm_Namespace (PodMeta (Request ctx)) = ''kube-system'' \<Longrightarrow> i = 0"
proof -
  note wf = booksD(1,2)[OF assms(1)]
  let ?ns = "pm_Namespace (PodMeta (Request ctx))"
  from assms(4)[unfolded allocatePool_def assms(2)] obtain i s' where
    pool: "(if ?ns = ''kube-system'' then Inr (p_root p) else select_pool p req) = (Inr (Ref i) :: nptr result)"
    and al: "Allocate req (enableMemoryTopology p) (freeResource (p_heap p ! i)) = Inr (g, s')"
    and p': "p' = propagateResourceToParent (p\<lparr>p_heap := set_free (p_heap p) i s',
                  p_grants := AList.update (grant_id ctx) g (p_grants p)\<rparr>) g True"
    by (auto simp: Let_def split: sum.splits nptr.splits prod.splits)
  have root: "p_root p = Ref 0" using wf(1) by (simp add: wf_policy_def)
  have i: "i < length (p_heap p)" "i = 0 \<or> (i \<in> set (filterPoolsByCapacity p req) \<and> hasCapacity p req i)"
    using pool root wf select_pool_cases[OF wf(1), of req "Ref i"]
    by (auto simp: wf_heap_def split: if_splits)
  have mem: "0 \<le> grantedMemory (freeResource (p_heap p ! i))" "grantedMemory (freeResource (p_heap p ! i)) < 18446744073709551616"
    using counter_le_root[OF assms(1) i(1), of CMemory] assms(5) by (simp_all add: counter_at_def ctr_def)
  note ac = Allocate_charge[OF assms(2,3) al mem]
  have node: "gr_node g = Ref i" using ac(2) wf_sp_node[OF wf(2) i(1)] by simp
  show thesis
  proof (rule that[OF i(1) node])
    show "p' = (charge_path p g i)\<lparr>p_grants := AList.update (grant_id ctx) g (p_grants p)\<rparr>"
      unfolding p' charge_path_def ac(1) by (simp add: propagate_grants_commute[symmetric])
    show "valid_grant p g"
      using node i(1) ac(4-7) assms(3) mem_kb_bounds(1)[OF assms(3)] by (auto simp: valid_grant_def sane_request_def)
  qed (use ac i(2) pool root in \<open>auto split: if_splits\<close>)
qed

text \<open>A failed allocation leaves the policy as it was.\<close>

lemma allocatePool_error: "allocatePool p ctx = (p', Inl e) \<Longrightarrow> p' = p"
  by (auto simp: allocatePool_def Let_def split: sum.splits option.splits nptr.splits prod.splits)

section \<open>Preservation\<close>

definition roomy :: "policy \<Rightarrow> request \<Rightarrow> bool" where
  "roomy p req \<longleftrightarrow> counter_at p 0 CMemory + mem_kb req < 18446744073709551616"

lemma roomy_chargeable:
  assumes "books p" "roomy p req" "allocatedMemory g = mem_kb req" "valid_grant p g" "k < length (p_heap p)"
  shows "chargeable g (freeResource (p_heap p ! k))"
  using counter_le_root[OF assms(1,5), of CMemory] assms(2-4)
  by (auto simp: chargeable_def roomy_def counter_at_def ctr_def valid_grant_def)

lemma charge_path_heap:
  assumes "books p" "gr_node g = Ref i" "i < length (p_heap p)"
  obtains h where "charge_path p g i = p\<lparr>p_heap := h\<rparr>" "same_tree (p_heap p) h"
  using charge_path_spec[OF booksD(2)[OF assms(1)] assms(2,3)] by blast

lemma alloc_books:
  assumes "books p" "newRequest ctx = Inr (Some req)" "sane_request req" "roomy p req"
    and "map_of (p_grants p) (grant_id ctx) = None"
    and "allocatePool p ctx = (p', Inr g)"
  shows "books p'"
proof -
  have "counter_at p 0 CMemory < 18446744073709551616"
    using assms(4) mem_kb_bounds(1)[OF assms(3)] by (simp add: roomy_def)
  from allocatePool_success[OF assms(1-3,6) this] obtain i where
    i: "i < length (p_heap p)" "gr_node g = Ref i" "allocatedMemory g = mem_kb req" "valid_grant p g"
    and p': "p' = (charge_path p g i)\<lparr>p_grants := AList.update (grant_id ctx) g (p_grants p)\<rparr>" by metis
  obtain h where h: "charge_path p g i = p\<lparr>p_heap := h\<rparr>" "same_tree (p_heap p) h"
    by (rule charge_path_heap[OF assms(1) i(2,1)])
  note wf = booksD(3)[OF assms(1)]
  let ?G = "AList.update (grant_id ctx) g (p_grants p)"
  have "books (p\<lparr>p_heap := h, p_grants := ?G\<rparr>)"
  proof (rule books_update[OF assms(1) h(2)])
    show "wf_map ?G" using wf by simp
    show "\<forall>(gid, g)\<in>set ?G. valid_grant p g"
      using i(4) booksD(4)[OF assms(1)] set_update_sub[of "grant_id ctx" g "p_grants p"] by blast
    fix k c assume k: "k < length (p_heap p)"
    have "counter_at (p\<lparr>p_heap := h\<rparr>) k c = counter_at p k c + (if on_path p g k then amount c g else 0)"
      unfolding h(1)[symmetric]
      by (rule charge_path_counters[OF booksD(2)[OF assms(1)] i(2,1) k])
        (use roomy_chargeable[OF assms(1,4) i(3,4)] in blast)
    also have "\<dots> = (\<Sum>(gid, g)\<leftarrow>?G. if on_path p g k then amount c g else 0)"
      unfolding booksD(5)[OF assms(1) k] grant_sum_def sum_update_fresh[OF wf assms(5)] by simp
    finally show "counter_at (p\<lparr>p_heap := h\<rparr>) k c = (\<Sum>(gid, g)\<leftarrow>?G. if on_path p g k then amount c g else 0)" .
  qed
  then show ?thesis by (simp add: p' h(1))
qed

lemma releasePool_cases:
  assumes "releasePool p ctx = (p', r)"
  shows "(p' = p \<and> r = None) \<or> (\<exists>g. map_of (p_grants p) (grant_id ctx) = Some g \<and> r = Some g
     \<and> p' = (refund_path p g)\<lparr>p_grants := AList.delete (grant_id ctx) (p_grants (refund_path p g))\<rparr>)"
proof (cases "map_of (p_grants p) (grant_id ctx)")
  case None
  with assms show ?thesis by (simp add: releasePool_def split: if_splits)
next
  case (Some g)
  with assms show ?thesis by (auto simp: releasePool_def refund_path_def Let_def split: if_splits)
qed

lemma refund_path_heap:
  assumes "books p" "(gid, g) \<in> set (p_grants p)"
  obtains h where "refund_path p g = p\<lparr>p_heap := h\<rparr>" "same_tree (p_heap p) h"
    "\<forall>k<length (p_heap p). \<forall>c. counter_at (p\<lparr>p_heap := h\<rparr>) k c
        = counter_at p k c - (if on_path p g k then amount c g else 0)"
proof -
  obtain i where i: "gr_node g = Ref i" "i < length (p_heap p)"
    using booksD(4)[OF assms] by (auto simp: valid_grant_def)
  from refund_path_spec[OF booksD(2)[OF assms(1)] i] obtain h where
    h: "refund_path p g = p\<lparr>p_heap := h\<rparr>" "same_tree (p_heap p) h" by blast
  show thesis
  proof (rule that[OF h], intro allI impI)
    fix k c assume k: "k < length (p_heap p)"
    show "counter_at (p\<lparr>p_heap := h\<rparr>) k c = counter_at p k c - (if on_path p g k then amount c g else 0)"
      unfolding h(1)[symmetric]
      by (rule refund_path_counters[OF booksD(2)[OF assms(1)] i k]) (use live_refundable[OF assms k] in blast)
  qed
qed

lemma release_books:
  assumes "books p" "releasePool p ctx = (p', r)"
  shows "books p'"
  using releasePool_cases[OF assms(2)]
proof
  assume "\<exists>g. map_of (p_grants p) (grant_id ctx) = Some g \<and> r = Some g
     \<and> p' = (refund_path p g)\<lparr>p_grants := AList.delete (grant_id ctx) (p_grants (refund_path p g))\<rparr>"
  then obtain g where g: "map_of (p_grants p) (grant_id ctx) = Some g"
    and p': "p' = (refund_path p g)\<lparr>p_grants := AList.delete (grant_id ctx) (p_grants (refund_path p g))\<rparr>" by blast
  have mem: "(grant_id ctx, g) \<in> set (p_grants p)" using g by (rule map_of_SomeD)
  obtain h where h: "refund_path p g = p\<lparr>p_heap := h\<rparr>" "same_tree (p_heap p) h"
    and ca: "\<forall>k<length (p_heap p). \<forall>c. counter_at (p\<lparr>p_heap := h\<rparr>) k c
        = counter_at p k c - (if on_path p g k then amount c g else 0)"
    by (rule refund_path_heap[OF assms(1) mem])
  note wf = booksD(3)[OF assms(1)]
  have "books (p\<lparr>p_heap := h, p_grants := AList.delete (grant_id ctx) (p_grants p)\<rparr>)"
  proof (rule books_update[OF assms(1) h(2)])
    show "wf_map (AList.delete (grant_id ctx) (p_grants p))" using wf by simp
    show "\<forall>(gid, g)\<in>set (AList.delete (grant_id ctx) (p_grants p)). valid_grant p g"
      using booksD(4)[OF assms(1)] set_delete_sub[of "grant_id ctx" "p_grants p"] by blast
  qed (simp add: ca booksD(5)[OF assms(1)] sum_delete[OF wf g] grant_sum_def)
  then show ?thesis by (simp add: p' h(1))
qed (use assms(1) in simp)

end
