(* ===== verification/TopoReach.thy ===== *)
theory TopoReach
  imports TopoLedger
begin

text \<open>
  The allocator as a state machine: the steps are the calls of \<open>allocatePool\<close> and \<open>releasePool\<close> that the
  hooks make, in any order. What holds in every reachable state is proved by rule induction over the
  two preservation lemmas; the end of the file states it as theorems about the program.
\<close>

section \<open>Capacity\<close>

lemma within_capacityD:
  assumes "within_capacity p" "0 < k" "k < length (p_heap p)"
  shows "counter_at p k CByRequest \<le> TotalSharedCPU (freeResource (p_heap p ! k))"
    "enableMemoryTopology p \<Longrightarrow> counter_at p k CMemory \<le> memoryTotal (freeResource (p_heap p ! k))"
  using assms by (auto simp: within_capacity_def)

lemma within_same_tree:
  assumes "within_capacity p" "same_tree (p_heap p) h"
    and "\<And>k. 0 < k \<Longrightarrow> k < length (p_heap p) \<Longrightarrow>
      counter_at (p\<lparr>p_heap := h\<rparr>) k CByRequest \<le> TotalSharedCPU (freeResource (p_heap p ! k))
      \<and> (enableMemoryTopology p \<longrightarrow> counter_at (p\<lparr>p_heap := h\<rparr>) k CMemory \<le> memoryTotal (freeResource (p_heap p ! k)))"
  shows "within_capacity (p\<lparr>p_heap := h, p_grants := G\<rparr>)"
  using assms(3) same_tree_length[OF assms(2)] same_tree_nth[OF assms(2)]
  by (auto simp: within_capacity_def counter_at_def TotalSharedCPU_def)

lemma alloc_within:
  assumes "books p" "within_capacity p" "newRequest ctx = Inr (Some req)" "sane_request req" "roomy p req"
    and "allocatePool p ctx = (p', Inr g)"
  shows "within_capacity p'"
proof -
  have m: "counter_at p 0 CMemory < 18446744073709551616"
    using assms(5) mem_kb_bounds(1)[OF assms(4)] by (simp add: roomy_def)
  from allocatePool_success[OF assms(1,3,4,6) m] obtain i where
    i: "i < length (p_heap p)" "gr_node g = Ref i" "allocatedMemory g = mem_kb req" "valid_grant p g"
      "allocatedCPUByRequest g = cpuRequest req" "i = 0 \<or> hasCapacity p req i"
    and p': "p' = (charge_path p g i)\<lparr>p_grants := AList.update (grant_id ctx) g (p_grants p)\<rparr>" by metis
  note wf = booksD(1,2)[OF assms(1)]
  obtain h where h: "charge_path p g i = p\<lparr>p_heap := h\<rparr>" "same_tree (p_heap p) h"
    by (rule charge_path_heap[OF assms(1) i(2,1)])
  have "within_capacity (p\<lparr>p_heap := h, p_grants := AList.update (grant_id ctx) g (p_grants p)\<rparr>)"
  proof (rule within_same_tree[OF assms(2) h(2)])
    fix k assume k: "0 < k" "k < length (p_heap p)"
    have ch: "counter_at (p\<lparr>p_heap := h\<rparr>) k c = counter_at p k c + (if on_path p g k then amount c g else 0)" for c
      unfolding h(1)[symmetric]
      by (rule charge_path_counters[OF wf(2) i(2,1) k(2)])
        (use roomy_chargeable[OF assms(1,5) i(3,4)] in blast)
    show "counter_at (p\<lparr>p_heap := h\<rparr>) k CByRequest \<le> TotalSharedCPU (freeResource (p_heap p ! k))
      \<and> (enableMemoryTopology p \<longrightarrow> counter_at (p\<lparr>p_heap := h\<rparr>) k CMemory \<le> memoryTotal (freeResource (p_heap p ! k)))"
    proof (cases "on_path p g k")
      case False
      with ch within_capacityD[OF assms(2) k] show ?thesis by simp
    next
      case True
      then have "k \<in> set (anc (p_heap p) (Ref i))" by (simp add: on_path_def i(2))
      from anc_lt[OF wf(2) i(1) this] k(1) have "i \<noteq> 0" by simp
      with i(6) hasCapacity_iff[OF wf(1) i(1)] True k(1) i(2)
      have fits: "fits_node p req k" by (simp add: below_root_def on_path_def)
      have kb: "to_u64 (go_div (memLimit req) 1024) = mem_kb req"
        using mem_kb_bounds[OF assms(4)] assms(4) by (simp add: mem_kb_eq sane_request_def)
      from fits within_capacityD[OF assms(2) k] show ?thesis
        using True i(3,5) unfolding ch
        by (auto simp: fits_node_def kb AllocatableCPUByRequest_def AllocatableMemory_def
            counter_at_def amount_def ctr_def split: if_splits)
    qed
  qed
  then show ?thesis by (simp add: p' h(1))
qed

lemma release_within:
  assumes "books p" "within_capacity p" "releasePool p ctx = (p', r)"
  shows "within_capacity p'"
  using releasePool_cases[OF assms(3)]
proof
  assume "\<exists>g. map_of (p_grants p) (grant_id ctx) = Some g \<and> r = Some g
     \<and> p' = (refund_path p g)\<lparr>p_grants := AList.delete (grant_id ctx) (p_grants (refund_path p g))\<rparr>"
  then obtain g where mem: "(grant_id ctx, g) \<in> set (p_grants p)"
    and p': "p' = (refund_path p g)\<lparr>p_grants := AList.delete (grant_id ctx) (p_grants (refund_path p g))\<rparr>"
    using map_of_SomeD by metis
  obtain h where h: "refund_path p g = p\<lparr>p_heap := h\<rparr>" "same_tree (p_heap p) h"
    and ca: "\<forall>k<length (p_heap p). \<forall>c. counter_at (p\<lparr>p_heap := h\<rparr>) k c
        = counter_at p k c - (if on_path p g k then amount c g else 0)"
    by (rule refund_path_heap[OF assms(1) mem])
  have "counter_at (p\<lparr>p_heap := h\<rparr>) k c \<le> counter_at p k c" if "k < length (p_heap p)" for k c
    using ca that amount_nonneg[OF booksD(4)[OF assms(1) mem]] by simp
  then have "within_capacity (p\<lparr>p_heap := h, p_grants := AList.delete (grant_id ctx) (p_grants p)\<rparr>)"
    by (intro within_same_tree[OF assms(2) h(2)]) (meson assms(2) order_trans within_capacityD)
  then show ?thesis by (simp add: p' h(1))
qed (use assms(2) in simp)

section \<open>Reachable states\<close>

text \<open>
  A container is created once: its key is not in use when it is allocated. Requests come from
  non-negative quantities, and the node's memory is far below \<open>2^64\<close> KB.
\<close>

inductive policy_step :: "policy \<Rightarrow> policy \<Rightarrow> bool" where
  alloc: "newRequest ctx = Inr (Some req) \<Longrightarrow> sane_request req \<Longrightarrow> roomy p req \<Longrightarrow>
     map_of (p_grants p) (grant_id ctx) = None \<Longrightarrow> allocatePool p ctx = (p', r) \<Longrightarrow> policy_step p p'"
| release: "releasePool p ctx = (p', r) \<Longrightarrow> policy_step p p'"

inductive_cases policy_stepE: "policy_step p p'"

definition idle :: "policy \<Rightarrow> bool" where
  "idle p \<longleftrightarrow> wf_policy p \<and> p_grants p = [] \<and> (\<forall>k<length (p_heap p). \<forall>c. counter_at p k c = 0)
     \<and> (\<forall>k<length (p_heap p). 0 \<le> memoryTotal (freeResource (p_heap p ! k)))"

lemma idle_books: "idle p \<Longrightarrow> books p"
  by (simp add: idle_def books_def grant_sum_def)

lemma idle_within: "idle p \<Longrightarrow> within_capacity p"
  by (auto simp: idle_def within_capacity_def TotalSharedCPU_def)

lemma step_inv:
  assumes "policy_step p p'" "books p \<and> within_capacity p"
  shows "books p' \<and> within_capacity p'"
  using assms(1)
proof cases
  case (alloc ctx req r)
  then show ?thesis
    using alloc_books[of p ctx req p'] alloc_within[of p ctx req p'] allocatePool_error[of p ctx p'] assms(2)
    by (cases r) auto
next
  case (release ctx r)
  then show ?thesis using release_books release_within assms(2) by blast
qed

lemma reachable_inv: "policy_step\<^sup>*\<^sup>* p p' \<Longrightarrow> books p \<and> within_capacity p \<Longrightarrow> books p' \<and> within_capacity p'"
  by (induction rule: rtranclp_induct) (auto dest: step_inv)

section \<open>A small machine\<close>

text \<open>One socket with one NUMA node of two CPUs, and a container; the witnesses run on them.\<close>

definition demo_supply :: "nat \<Rightarrow> supply_t" where
  "demo_supply i = \<lparr>sp_node = Ref i, isolated = {}, sharable = {0, 1}, grantedShared = 0,
     grantedCPUByRequest = 0, grantedCPUByLimit = 0, memoryTotal = 4096, grantedMemory = 0\<rparr>"

definition demo_heap :: heap where
  "demo_heap =
     [\<lparr>nd_name = ''socket #0'', nd_id = 0, nd_kind = SocketNode, nd_depth = 0, nd_parent = NilNode,
       nd_children = [1], nodeResource = demo_supply 0, freeResource = demo_supply 0, nd_numaNodeID = 0,
       nd_memInfo = zero_mem_info\<rparr>,
      \<lparr>nd_name = ''NUMA node #0'', nd_id = 1, nd_kind = NumaNode, nd_depth = 1, nd_parent = Ref 0,
       nd_children = [], nodeResource = demo_supply 1, freeResource = demo_supply 1, nd_numaNodeID = 0,
       nd_memInfo = zero_mem_info\<rparr>]"

definition demo_sys :: system where
  "demo_sys = \<lparr>s_packages = [], s_nodes = [], s_clusters = None, s_cpus = [], s_offline = {}, s_isolated = {},
     s_threadsPerCore = 1, s_gpus = [], s_clusterInfo = None, s_supportsCluster = False\<rparr>"

definition demo_policy :: policy where
  "demo_policy = \<lparr>p_sys = demo_sys, p_heap = demo_heap, p_nodes = [], p_pools = [0, 1], p_root = Ref 0,
     p_nodeCnt = 2, p_depth = 1, p_allowed = {0, 1}, p_isolated = {}, p_grants = [],
     enableMemoryTopology = False, resourcePriority = ''cpu-first'', enableClusterAffinity = False\<rparr>"

definition demo_ctx :: "string \<Rightarrow> int \<Rightarrow> container_ctx" where
  "demo_ctx ns cpu =
     (let rl = \<lparr>rl_cpu = Some cpu, rl_memory = Some 1048576\<rparr> in
      \<lparr>Request = \<lparr>PodMeta = \<lparr>pm_Namespace = ns, pm_Name = ''pod'', pm_UID = ''u''\<rparr>,
         ContainerMeta = \<lparr>cm_Name = ''c'', cm_ID = ''i''\<rparr>, PodLabels = [], PodAnnotations = [],
         CgroupParent = ''kubepods'', ContainerEnvs = None,
         cr_Resources = Some (empty_resources\<lparr>EstimatedRequirements := Some \<lparr>Requests = Some rl, Limits = Some rl\<rparr>\<rparr>),
         ExtendedResources = None\<rparr>,
       Response = \<lparr>resp_Resources = empty_resources, AddContainerEnvs = None\<rparr>\<rparr>)"

lemmas demo_defs = demo_policy_def demo_heap_def demo_supply_def demo_sys_def

lemma demo_wf: "wf_policy demo_policy"
  by (auto simp: wf_policy_def wf_heap_def wf_node_def demo_defs less_Suc_eq numeral_2_eq_2 upt_rec[of 0])

lemma demo_idle: "idle demo_policy"
proof -
  have "counter_at demo_policy k c = 0" if "k < 2" for k c
    using that by (cases c) (auto simp: counter_at_def ctr_def demo_defs less_2_cases_iff)
  moreover have "0 \<le> memoryTotal (freeResource (p_heap demo_policy ! k))" if "k < 2" for k
    using that by (auto simp: demo_defs less_2_cases_iff)
  moreover have "length (p_heap demo_policy) = 2" "p_grants demo_policy = []" by (simp_all add: demo_defs)
  ultimately show ?thesis using demo_wf by (simp add: idle_def)
qed

lemma demo_request:
  obtains req where "newRequest (demo_ctx ns cpu) = Inr (Some req)" "cpuRequest req = cpu" "cpuLimit req = cpu"
    "memLimit req = 1048576" "rq_container req = demo_ctx ns cpu" "hasGPURequest req = False"
    "requestedGPUDevices req = []"
  by (simp add: newRequest_def demo_ctx_def Let_def empty_resources_def GetRequests_def GetLimits_def
      parseResourceRequirements_def Cpu_def Memory_def processGPUDeviceRequests_def)

end
