(* ===== verification/TopoTheorems.thy ===== *)
theory TopoTheorems
  imports TopoReach
begin

text \<open>
  What the topology-aware policy guarantees: the theorems about the filter, the sort, the selection, and
  about every reachable state of the allocator, each with a run on a small machine.
\<close>

section \<open>Keeping the tree\<close>

lemma step_same_tree:
  assumes "policy_step p p'" "books p"
  shows "same_tree (p_heap p) (p_heap p')"
  using assms(1)
proof cases
  case (alloc ctx req r)
  show ?thesis
  proof (cases r)
    case (Inl e)
    with alloc allocatePool_error have "p' = p" by blast
    then show ?thesis by simp
  next
    case (Inr g)
    have "counter_at p 0 CMemory < 18446744073709551616"
      using alloc(3) mem_kb_bounds(1)[OF alloc(2)] by (simp add: roomy_def)
    from allocatePool_success[OF assms(2) alloc(1,2) alloc(5)[unfolded Inr] this] obtain i where
      i: "i < length (p_heap p)" "gr_node g = Ref i"
      and p': "p' = (charge_path p g i)\<lparr>p_grants := AList.update (grant_id ctx) g (p_grants p)\<rparr>" by metis
    obtain h where "charge_path p g i = p\<lparr>p_heap := h\<rparr>" "same_tree (p_heap p) h"
      by (rule charge_path_heap[OF assms(2) i(2,1)])
    then show ?thesis by (simp add: p')
  qed
next
  case (release ctx r)
  from releasePool_cases[OF release] show ?thesis
  proof
    assume "\<exists>g. map_of (p_grants p) (grant_id ctx) = Some g \<and> r = Some g
     \<and> p' = (refund_path p g)\<lparr>p_grants := AList.delete (grant_id ctx) (p_grants (refund_path p g))\<rparr>"
    then obtain g where mem: "(grant_id ctx, g) \<in> set (p_grants p)"
      and p': "p' = (refund_path p g)\<lparr>p_grants := AList.delete (grant_id ctx) (p_grants (refund_path p g))\<rparr>"
      using map_of_SomeD by metis
    obtain h where "refund_path p g = p\<lparr>p_heap := h\<rparr>" "same_tree (p_heap p) h"
      by (rule refund_path_heap[OF assms(2) mem])
    then show ?thesis by (simp add: p')
  qed simp
qed

lemma reachable_same_tree:
  assumes "policy_step\<^sup>*\<^sup>* p p'" "books p" "within_capacity p"
  shows "same_tree (p_heap p) (p_heap p')"
  using assms(1)
proof (induction rule: rtranclp_induct)
  case (step q r)
  then have "books q" using reachable_inv[OF step(1)] assms(2,3) by blast
  with step step_same_tree same_tree_trans show ?case by blast
qed simp

lemma same_heapI:
  assumes "same_tree h h'" "\<And>k c. k < length h \<Longrightarrow> ctr c (freeResource (h' ! k)) = ctr c (freeResource (h ! k))"
  shows "h' = h"
proof (rule nth_equalityI)
  show len: "length h' = length h" by (rule same_tree_length[OF assms(1)])
  fix k assume "k < length h'"
  then have k: "k < length h" using len by simp
  let ?s = "freeResource (h ! k)" and ?s' = "freeResource (h' ! k)"
  have "?s' = ?s"
    using assms(2)[OF k, of CShared] assms(2)[OF k, of CByRequest] assms(2)[OF k, of CByLimit]
      assms(2)[OF k, of CMemory] same_tree_nth(2-5)[OF assms(1) k]
    by (cases ?s; cases ?s') (simp add: ctr_def)
  with same_tree_nth(1)[OF assms(1) k] show "h' ! k = h ! k"
    by (cases "h ! k"; cases "h' ! k") (simp add: strip_def)
qed

lemma update_fresh_delete: "map_of m k = None \<Longrightarrow> AList.delete k (AList.update k v m) = m"
  by (induction m) (auto split: if_splits)

lemma policy_heap_id: "p\<lparr>p_heap := p_heap p, p_grants := p_grants p\<rparr> = p"
  by simp

section \<open>The demonstration runs\<close>

definition demo_run :: "policy \<times> grant result" where
  "demo_run = allocatePool demo_policy (demo_ctx ''default'' 1500)"

lemma demo_run_eval:
  "ok (snd demo_run)" "counter_at (fst demo_run) 1 CByRequest = 1500" "counter_at (fst demo_run) 0 CMemory = 1024"
  "map fst (p_grants (fst demo_run)) = [''u:c'']"
  by code_simp+

lemma demo_fresh: "map_of (p_grants demo_policy) k = None"
  by (simp add: demo_policy_def)

lemma demo_sane:
  assumes "newRequest (demo_ctx ns cpu) = Inr (Some req)" "0 \<le> cpu"
  shows "sane_request req" "roomy demo_policy req"
proof -
  obtain r where r: "newRequest (demo_ctx ns cpu) = Inr (Some r)" "cpuRequest r = cpu" "cpuLimit r = cpu"
    "memLimit r = 1048576" using demo_request[of ns cpu] by metis
  then have req: "req = r" using assms(1) by simp
  then show "sane_request req" using r assms(2) by (simp add: sane_request_def in_i64_def)
  show "roomy demo_policy req"
    using req r(4) by (simp add: roomy_def mem_kb_def counter_at_def ctr_def demo_defs)
qed

lemma demo_step: "policy_step demo_policy (fst demo_run)"
proof -
  obtain req where req: "newRequest (demo_ctx ''default'' 1500) = Inr (Some req)" using demo_request by metis
  show ?thesis
    by (rule policy_step.alloc[OF req demo_sane[OF req] demo_fresh])
      (simp, simp, unfold demo_run_def, rule surjective_pairing)
qed

lemma demo_reach: "policy_step\<^sup>*\<^sup>* demo_policy (fst demo_run)"
  by (rule r_into_rtranclp, rule demo_step)

section \<open>Every reachable state\<close>





text \<open>Nothing leaks: whatever allocations and releases happened in between, once no grant is live the
  whole resource tree is exactly the tree of the idle policy.\<close>

theorem drained_tree:
  assumes "idle p" "policy_step\<^sup>*\<^sup>* p p'" "p_grants p' = []"
  shows "p_heap p' = p_heap p"
proof (rule same_heapI[OF reachable_same_tree[OF assms(2) idle_books[OF assms(1)] idle_within[OF assms(1)]]])
  fix k c assume k: "k < length (p_heap p)"
  have b: "books p'" using reachable_inv[OF assms(2)] idle_books[OF assms(1)] idle_within[OF assms(1)] by blast
  have "length (p_heap p') = length (p_heap p)"
    by (rule same_tree_length[OF reachable_same_tree[OF assms(2) idle_books[OF assms(1)] idle_within[OF assms(1)]]])
  with booksD(5)[OF b, of k c] k assms(1,3) show "ctr c (freeResource (p_heap p' ! k)) = ctr c (freeResource (p_heap p ! k))"
    by (simp add: counter_at_def grant_sum_def idle_def)
qed

definition demo_drained :: policy where
  "demo_drained = fst (releasePool (fst demo_run) (demo_ctx ''default'' 1500))"

theorem drained_tree_witness:
  "p_heap demo_drained = p_heap demo_policy \<and> p_heap (fst demo_run) ! 1 \<noteq> p_heap demo_policy ! 1"
proof
  have "policy_step (fst demo_run) demo_drained"
    unfolding demo_drained_def by (rule policy_step.release) (rule surjective_pairing)
  moreover have "p_grants demo_drained = []" by code_simp
  moreover have "policy_step\<^sup>*\<^sup>* demo_policy demo_drained"
    using demo_reach calculation(1) by (rule rtranclp.rtrancl_into_rtrancl)
  ultimately show "p_heap demo_drained = p_heap demo_policy"
    by (intro drained_tree[OF demo_idle])
  have "counter_at (fst demo_run) 1 CByRequest \<noteq> counter_at demo_policy 1 CByRequest"
    unfolding demo_run_eval(2) by (simp add: counter_at_def ctr_def demo_defs)
  then show "p_heap (fst demo_run) ! 1 \<noteq> p_heap demo_policy ! 1" by (auto simp: counter_at_def)
qed

text \<open>The released context need only name the same grant: the hook that stops a container rebuilds it.\<close>

lemma release_after_alloc:
  assumes "books p" "newRequest ctx = Inr (Some req)" "sane_request req" "roomy p req"
    and "map_of (p_grants p) (grant_id ctx) = None"
    and "allocatePool p ctx = (p', Inr g)"
    and "grant_id ctx' = grant_id ctx"
    and "cm_ID (ContainerMeta (Request ctx')) \<noteq> []" "pm_UID (PodMeta (Request ctx')) \<noteq> []"
  shows "releasePool p' ctx' = (p, Some g)"
proof -
  have "counter_at p 0 CMemory < 18446744073709551616"
    using assms(4) mem_kb_bounds(1)[OF assms(3)] by (simp add: roomy_def)
  from allocatePool_success[OF assms(1-3,6) this] obtain i where
    i: "i < length (p_heap p)" "gr_node g = Ref i" "allocatedMemory g = mem_kb req" "valid_grant p g"
    and p': "p' = (charge_path p g i)\<lparr>p_grants := AList.update (grant_id ctx) g (p_grants p)\<rparr>" by metis
  obtain h where h: "charge_path p g i = p\<lparr>p_heap := h\<rparr>" "same_tree (p_heap p) h"
    by (rule charge_path_heap[OF assms(1) i(2,1)])
  have b': "books p'" by (rule alloc_books[OF assms(1-6)])
  have live: "map_of (p_grants p') (grant_id ctx) = Some g" by (simp add: p')
  obtain h2 where h2: "refund_path p' g = p'\<lparr>p_heap := h2\<rparr>" "same_tree (p_heap p') h2"
    and ca: "\<forall>k<length (p_heap p'). \<forall>c. counter_at (p'\<lparr>p_heap := h2\<rparr>) k c
        = counter_at p' k c - (if on_path p' g k then amount c g else 0)"
    by (rule refund_path_heap[OF b' map_of_SomeD[OF live]])
  have st: "same_tree (p_heap p) h2" using h2(2) same_tree_trans[OF h(2)] by (simp add: p' h(1))
  have len: "length (p_heap p') = length (p_heap p)" using same_tree_length[OF h(2)] by (simp add: p' h(1))
  have "h2 = p_heap p"
  proof (rule same_heapI[OF st])
    fix k c assume k: "k < length (p_heap p)"
    have "on_path p' g k \<longleftrightarrow> on_path p g k"
      using on_path_same_tree[OF booksD(1)[OF assms(1)] h(2) i(4)] by (simp add: p' h(1))
    moreover have "counter_at p' k c = counter_at p k c + (if on_path p g k then amount c g else 0)"
      unfolding p' counter_at_grants
      by (rule charge_path_counters[OF booksD(2)[OF assms(1)] i(2,1) k])
        (use roomy_chargeable[OF assms(1,4) i(3,4)] in blast)
    ultimately show "ctr c (freeResource (h2 ! k)) = ctr c (freeResource (p_heap p ! k))"
      using ca k len by (simp add: counter_at_def)
  qed
  then show ?thesis
    using assms(7-9) live h2(1) update_fresh_delete[OF assms(5), of g]
    by (simp add: releasePool_def refund_path_def[symmetric] Let_def p' h(1))
qed

text \<open>C10. Releasing a container undoes its allocation: on a policy with balanced books, releasing the
  container just allocated restores the policy exactly -- tree, counters and grant table.\<close>

theorem release_undoes_alloc:
  assumes "books p" "newRequest ctx = Inr (Some req)" "sane_request req" "roomy p req"
    and "map_of (p_grants p) (grant_id ctx) = None"
    and "allocatePool p ctx = (p', Inr g)"
    and "cm_ID (ContainerMeta (Request ctx)) \<noteq> []" "pm_UID (PodMeta (Request ctx)) \<noteq> []"
  shows "releasePool p' ctx = (p, Some g)"
  by (rule release_after_alloc[OF assms(1-6) refl assms(7,8)])

theorem release_undoes_alloc_witness:
  "releasePool (fst demo_run) (demo_ctx ''default'' 1500) = (demo_policy, Some (projr (snd demo_run)))"
proof -
  obtain req where req: "newRequest (demo_ctx ''default'' 1500) = Inr (Some req)" using demo_request by metis
  obtain g where g: "snd demo_run = Inr g" using demo_run_eval(1) by (cases "snd demo_run") auto
  then have "allocatePool demo_policy (demo_ctx ''default'' 1500) = (fst demo_run, Inr g)"
    by (metis demo_run_def prod.collapse)
  from release_undoes_alloc[OF idle_books[OF demo_idle] req demo_sane[OF req] demo_fresh this] show ?thesis
    by (simp add: g demo_ctx_def Let_def)
qed

text \<open>Allocating a container again without releasing it leaks: the grant table keeps only the new
  grant, so after the container is released its old grant's amounts stay charged on every node of the
  old path although no live grant accounts for them.\<close>

theorem duplicate_allocation_leaks:
  assumes "books p" "newRequest ctx = Inr (Some req)" "sane_request req" "roomy p req"
    and "map_of (p_grants p) (grant_id ctx) = Some old"
    and "allocatePool p ctx = (p', Inr g)" "k < length (p_heap p)"
  shows "counter_at (refund_path p' g) k c = counter_at p k c
    \<and> counter_at p k c = grant_sum (p\<lparr>p_grants := AList.delete (grant_id ctx) (p_grants p)\<rparr>) k c
        + (if on_path p old k then amount c old else 0)"
proof
  have "counter_at p 0 CMemory < 18446744073709551616"
    using assms(4) mem_kb_bounds(1)[OF assms(3)] by (simp add: roomy_def)
  from allocatePool_success[OF assms(1-3,6) this] obtain i where
    i: "i < length (p_heap p)" "gr_node g = Ref i" "allocatedMemory g = mem_kb req" "valid_grant p g"
    and p': "p' = (charge_path p g i)\<lparr>p_grants := AList.update (grant_id ctx) g (p_grants p)\<rparr>" by metis
  obtain h where h: "charge_path p g i = p\<lparr>p_heap := h\<rparr>" "same_tree (p_heap p) h"
    by (rule charge_path_heap[OF assms(1) i(2,1)])
  note wfp = booksD(1,2)[OF assms(1)]
  have wf': "wf_heap (p_heap p')" using same_tree_wf[OF h(2) wfp(2)] by (simp add: p' h(1))
  have len: "length (p_heap p') = length (p_heap p)" using same_tree_length[OF h(2)] by (simp add: p' h(1))
  have path: "on_path p' g k \<longleftrightarrow> on_path p g k"
    using on_path_same_tree[OF wfp(1) h(2) i(4)] by (simp add: p' h(1))
  have add: "counter_at p' k c = counter_at p k c + (if on_path p g k then amount c g else 0)" for c
    unfolding p' counter_at_grants
    by (rule charge_path_counters[OF wfp(2) i(2,1) assms(7)])
      (use roomy_chargeable[OF assms(1,4) i(3,4)] in blast)
  have "refundable g (freeResource (p_heap p' ! k))" if "on_path p g k"
    using add counter_le_root(1)[OF assms(1,7)] that by (auto simp: refundable_def counter_at_def)
  then have "counter_at (refund_path p' g) k c = counter_at p' k c - (if on_path p' g k then amount c g else 0)"
    using refund_path_counters[OF wf' i(2), of k c] i(1) assms(7) len path by simp
  with add path show "counter_at (refund_path p' g) k c = counter_at p k c" by simp
  show "counter_at p k c = grant_sum (p\<lparr>p_grants := AList.delete (grant_id ctx) (p_grants p)\<rparr>) k c
        + (if on_path p old k then amount c old else 0)"
    using booksD(5)[OF assms(1,7)] sum_delete[OF booksD(3)[OF assms(1)] assms(5)]
    by (simp add: grant_sum_def)
qed

definition demo_small :: "policy \<times> grant result" where
  "demo_small = allocatePool demo_policy (demo_ctx ''default'' 400)"

definition demo_twice :: "policy \<times> grant result" where
  "demo_twice = allocatePool (fst demo_small) (demo_ctx ''default'' 400)"

theorem duplicate_allocation_leaks_witness:
  "counter_at (refund_path (fst demo_twice) (projr (snd demo_twice))) 1 CByRequest = 400"
proof -
  obtain req where req: "newRequest (demo_ctx ''default'' 400) = Inr (Some req)" "memLimit req = 1048576"
    using demo_request by metis
  have ok1: "ok (snd demo_small)" "ok (snd demo_twice)" by code_simp+
  have c1: "counter_at (fst demo_small) 1 CByRequest = 400" "counter_at (fst demo_small) 0 CMemory = 1024"
    "length (p_heap (fst demo_small)) = 2" by code_simp+
  obtain g1 where g1: "snd demo_small = Inr g1" using ok1 by (cases "snd demo_small") auto
  obtain g2 where g2: "snd demo_twice = Inr g2" using ok1 by (cases "snd demo_twice") auto
  have a1: "allocatePool demo_policy (demo_ctx ''default'' 400) = (fst demo_small, Inr g1)"
    by (metis demo_small_def g1 prod.collapse)
  have a2: "allocatePool (fst demo_small) (demo_ctx ''default'' 400) = (fst demo_twice, Inr g2)"
    by (metis demo_twice_def g2 prod.collapse)
  have b: "books (fst demo_small)"
    by (rule alloc_books[OF idle_books[OF demo_idle] req(1) demo_sane[OF req(1)] demo_fresh a1]) simp_all
  have r: "roomy (fst demo_small) req" using req(2) c1(2) by (simp add: roomy_def mem_kb_def)
  have "map_of (p_grants (fst demo_small)) (grant_id (demo_ctx ''default'' 400)) \<noteq> None" by code_simp
  then obtain old where old: "map_of (p_grants (fst demo_small)) (grant_id (demo_ctx ''default'' 400)) = Some old" by blast
  show ?thesis
    using duplicate_allocation_leaks[OF b req(1) demo_sane(1)[OF req(1)] r old a2, of 1] c1 g2 by simp
qed

end
