(* ===== verification/TopoChoice.thy ===== *)
theory TopoChoice
  imports TopoReach
begin

text \<open>
  Which pool a container gets: the exact result of the filter, the uniqueness of the sorted order, and
  the pool that the search ends with, for both resource priorities.
\<close>

section \<open>The regular search takes the first of the deepest\<close>

lemma better_pool_first:
  "foldl (better_pool p req) (b, d) pools = (Some i, d') \<Longrightarrow> d < d' \<Longrightarrow>
   \<exists>xs ys. pools = xs @ i # ys \<and> hasCapacity p req i \<and> d' = RootDistance (p_heap p) (Ref i)
     \<and> (\<forall>j\<in>set xs. hasCapacity p req j \<longrightarrow> RootDistance (p_heap p) (Ref j) < RootDistance (p_heap p) (Ref i))"
proof (induction pools arbitrary: b d)
  case (Cons k pools)
  obtain b1 d1 where bd: "better_pool p req (b, d) k = (b1, d1)" by (cases "better_pool p req (b, d) k")
  with Cons.prems(1) have fd: "foldl (better_pool p req) (b1, d1) pools = (Some i, d')" by simp
  from bd have step: "(b1 = b \<and> d1 = d \<and> (hasCapacity p req k \<longrightarrow> RootDistance (p_heap p) (Ref k) \<le> d))
      \<or> (b1 = Some k \<and> hasCapacity p req k \<and> d1 = RootDistance (p_heap p) (Ref k) \<and> d < d1)"
    by (auto simp: better_pool_def Let_def split: if_splits)
  show ?case
  proof (cases "d1 < d'")
    case True
    from Cons.IH[OF fd True] obtain xs ys where
      xy: "pools = xs @ i # ys" "hasCapacity p req i" "d' = RootDistance (p_heap p) (Ref i)"
        "\<forall>j\<in>set xs. hasCapacity p req j \<longrightarrow> RootDistance (p_heap p) (Ref j) < RootDistance (p_heap p) (Ref i)" by blast
    show ?thesis
      by (rule exI[of _ "k # xs"], rule exI[of _ ys]) (use xy step True Cons.prems(2) in auto)
  next
    case False
    moreover from better_pool_fold[OF fd] have "(Some i = b1 \<and> d' = d1) \<or> d1 < d'" by blast
    ultimately have "b1 = Some i" "d1 = d'" by simp_all
    with step Cons.prems(2) have "k # pools = [] @ i # pools \<and> hasCapacity p req i \<and> d' = RootDistance (p_heap p) (Ref i)"
      by auto
    then show ?thesis by fastforce
  qed
qed simp

lemma depth_nonneg: "wf_heap h \<Longrightarrow> i < length h \<Longrightarrow> 0 \<le> RootDistance h (Ref i)"
  using anc_depth[of h i] anc_Ref[of h i] by (simp add: RootDistance_def)

lemma root_has_capacity: "wf_policy p \<Longrightarrow> hasCapacity p req 0"
  using hasCapacity_iff[of p 0 req] anc_Ref[of "p_heap p" 0] wf_parent_root[of "p_heap p"]
  by (auto simp: wf_policy_def wf_heap_def below_root_def)

lemma candidates_fit: "wf_policy p \<Longrightarrow> i \<in> set (filterPoolsByCapacity p req) \<Longrightarrow> hasCapacity p req i"
  using filterPools_mem(3)[of p i req] root_has_capacity by auto

lemma candidates_bound: "wf_policy p \<Longrightarrow> set (filterPoolsByCapacity p req) \<subseteq> {..<length (p_heap p)}"
  using filterPools_mem(1) by auto

lemma sorted_split:
  assumes "slice_sorted lt (xs @ i # ys)" "j \<in> set ys"
  shows "\<not> lt j i"
  using assms by (auto simp: slice_sorted_def sorted_wrt_append)

lemma before_total:
  assumes "wf_policy p" "i < length (p_heap p)" "j < length (p_heap p)" "i \<noteq> j" "\<not> pool_before p req aff j i"
  shows "pool_before p req aff i j"
proof -
  have "inj_on (pool_key p req aff) (set [i, j])" by (rule pool_key_inj) (use assms in auto)
  with assms(4) have "pool_key p req aff i \<noteq> pool_key p req aff j" by (auto simp: inj_on_def)
  with assms(5) show ?thesis using lex_gt_linear by (auto simp: pool_before_def)
qed

section \<open>Theorems\<close>

text \<open>The capacity filter computes exactly this: the pools below the root such that every node from the
  pool up to (not including) the root can take the CPU request and, with memory topology, the memory
  limit in KB; the root alone when there is no such pool.\<close>

theorem filter_exact:
  assumes "wf_policy p"
  shows "set (filterPoolsByCapacity p req) =
    (let fitting = {i. 0 < i \<and> i < length (p_heap p) \<and> (\<forall>j\<in>set (anc (p_heap p) (Ref i)). j \<noteq> 0 \<longrightarrow>
           cpuRequest req \<le> AllocatableCPUByRequest (freeResource (p_heap p ! j))
           \<and> (enableMemoryTopology p \<longrightarrow>
                to_u64 (go_div (memLimit req) 1024) \<le> AllocatableMemory (freeResource (p_heap p ! j))))}
     in if fitting = {} then {0} else fitting)"
proof -
  have fit: "hasCapacity p req i \<longleftrightarrow> (\<forall>j\<in>set (anc (p_heap p) (Ref i)). j \<noteq> 0 \<longrightarrow> fits_node p req j)"
    if "i < length (p_heap p)" for i
    using hasCapacity_iff[OF assms that] by (auto simp: below_root_def)
  have z: "0 < length (p_heap p)" using assms by (simp add: wf_policy_def wf_heap_def)
  have eq: "set (filterPoolsByCapacity p req) =
     (let fitting = {i. 0 < i \<and> i < length (p_heap p) \<and> hasCapacity p req i} in if fitting = {} then {0} else fitting)"
  proof (cases "{i. 0 < i \<and> i < length (p_heap p) \<and> hasCapacity p req i} = {}")
    case True
    then have "i = 0" if "i \<in> set (filterPoolsByCapacity p req)" for i
      using filterPools_mem(1,3)[OF assms that] by auto
    then have "set (filterPoolsByCapacity p req) \<subseteq> {0}" by blast
    moreover have "set (filterPoolsByCapacity p req) \<noteq> {}" using filterPools_nonempty[OF assms] by simp
    ultimately have "set (filterPoolsByCapacity p req) = {0}" by (simp only: subset_singleton_iff simp_thms)
    with True show ?thesis by (simp only: Let_def if_True simp_thms)
  next
    case False
    then have "0 \<notin> set (filterPoolsByCapacity p req)" using filterPools_mem(4)[OF assms] by blast
    then have "x \<in> set (filterPoolsByCapacity p req) \<longleftrightarrow> 0 < x \<and> x < length (p_heap p) \<and> hasCapacity p req x" for x
      using filterPools_complete[OF assms, of x] filterPools_mem(1,3)[OF assms, of x] by (cases "x = 0") auto
    then have "set (filterPoolsByCapacity p req) = {i. 0 < i \<and> i < length (p_heap p) \<and> hasCapacity p req i}" by blast
    with False show ?thesis by (simp only: Let_def if_False simp_thms)
  qed
  have "{i. 0 < i \<and> i < length (p_heap p) \<and> hasCapacity p req i}
      = {i. 0 < i \<and> i < length (p_heap p) \<and> (\<forall>j\<in>set (anc (p_heap p) (Ref i)). j \<noteq> 0 \<longrightarrow> fits_node p req j)}"
    using fit by blast
  with eq show ?thesis by (simp add: fits_node_def)
qed

definition demo_req :: request where
  "demo_req = (case newRequest (demo_ctx ''default'' 1500) of Inr (Some r) \<Rightarrow> r)"

theorem filter_exact_witness:
  "set (filterPoolsByCapacity demo_policy demo_req) = {1} \<and>
   set (filterPoolsByCapacity demo_policy (demo_req\<lparr>cpuRequest := 2500\<rparr>)) = {0}"
proof -
  have a1: "anc demo_heap (Ref 1) = [1, 0]" by code_simp
  have len: "p_heap demo_policy = demo_heap" "length demo_heap = 2" "\<not> enableMemoryTopology demo_policy"
    by (simp_all add: demo_defs)
  have cap: "AllocatableCPUByRequest (freeResource (demo_heap ! 1)) = 2000" by code_simp
  have cpu: "cpuRequest demo_req = 1500" by code_simp
  have one: "{i. 0 < i \<and> i < 2 \<and> Q i} = (if Q 1 then {1} else {})" for Q :: "nat \<Rightarrow> bool"
    by (auto simp: less_2_cases_iff)
  show ?thesis
    using filter_exact[OF demo_wf, of demo_req] filter_exact[OF demo_wf, of "demo_req\<lparr>cpuRequest := 2500\<rparr>"]
    unfolding len one Let_def by (simp add: len a1[simplified] cap[simplified] cpu)
qed

text \<open>The order of the candidates does not depend on the sorting algorithm: any rearrangement of them
  that satisfies the contract of \<open>sort.Slice\<close> for the code's comparison is the one the model returns.\<close>

theorem sort_unique:
  assumes "wf_policy p" "set pools \<subseteq> {..<length (p_heap p)}"
    and "mset out = mset pools"
    and "slice_sorted (compareNodes p req (pool_scores p req pools) affinity) out"
  shows "snd (sortPoolsByScore p req affinity pools) = out"
proof -
  have set: "set out = set pools" using assms(3) by (metis set_mset_mset)
  have "slice_sorted (pool_before p req affinity) out"
    unfolding slice_sorted_def
  proof (rule sorted_wrt_mono_rel[OF _ assms(4)[unfolded slice_sorted_def]])
    fix x y assume "x \<in> set out" "y \<in> set out"
      "\<not> compareNodes p req (pool_scores p req pools) affinity y x"
    then show "\<not> pool_before p req affinity y x"
      using compareNodes_key[OF assms(1,2)] by (simp add: set pool_before_def)
  qed
  from pool_order.keyed_unique[OF this assms(3) pool_key_inj[OF assms(1,2)]] show ?thesis
    using sortPools_key[OF assms(1,2)] by simp
qed

theorem sort_unique_witness:
  "snd (sortPoolsByScore demo_policy demo_req [] [0, 1]) = [1, 0]"
proof (rule sort_unique[OF demo_wf])
  show "set [0, 1] \<subseteq> {..<length (p_heap demo_policy)}" by (simp add: demo_defs)
  show "slice_sorted (compareNodes demo_policy demo_req (pool_scores demo_policy demo_req [0, 1]) []) [1, 0]"
    by code_simp
qed simp

text \<open>The affinity of a pool, as long as \<open>int32\<close> does not overflow.\<close>

definition plain_affinity :: "(int, int) gomap \<Rightarrow> int list \<Rightarrow> int" where
  "plain_affinity m ns = (\<Sum>n\<leftarrow>ns. aff_get m n)"

lemma affinity_loop:
  assumes "\<forall>k. 0 \<le> aff_get m k" "f = (if resourcePriority p = ''gpu-first'' then 100 else 1)"
  shows "0 \<le> a \<Longrightarrow> 100 * (a + plain_affinity m ns) \<le> 2147483647 \<Longrightarrow>
    foldl (affinity_add p m) (f * a) ns = f * (a + plain_affinity m ns)"
proof (induction ns arbitrary: a)
  case (Cons n ns)
  have s: "0 \<le> plain_affinity m ns" "plain_affinity m (n # ns) = aff_get m n + plain_affinity m ns"
    unfolding plain_affinity_def by (rule sum_list_nonneg) (use assms(1) in auto)
  have n: "0 \<le> aff_get m n" using assms(1) by blast
  have "wrap_i32 (aff_get m n * 100) = aff_get m n * 100"
    "wrap_i32 (100 * a + aff_get m n * 100) = 100 * a + aff_get m n * 100"
    "wrap_i32 (a + aff_get m n) = a + aff_get m n" "wrap_i32 (100 * a) = 100 * a"
    using Cons.prems s n by (simp_all add: in_i32_def)
  then have "affinity_add p m (f * a) n = f * (a + aff_get m n)"
    using n by (auto simp: affinity_add_def assms(2) Let_def)
  with Cons.IH[of "a + aff_get m n"] Cons.prems n s show ?case by simp
qed (simp add: plain_affinity_def)

text \<open>The resource priority does not influence the order of the candidates: when the affinities are
  non-negative and do not overflow \<open>int32\<close>, sorting under GPU-first gives the same sequence as sorting under
  CPU-first. (Pools reach the strategy only when their shared capacities tie, and then their CPU
  capacities tie as well, so both strategies compare the affinities alone.)\<close>

theorem priority_irrelevant_for_sort:
  assumes "wf_policy p" "set pools \<subseteq> {..<length (p_heap p)}"
    and "\<forall>k. 0 \<le> aff_get affinity k"
    and "\<forall>i\<in>set pools. 100 * plain_affinity affinity (supply_numas p i) \<le> 2147483647"
  shows "snd (sortPoolsByScore (p\<lparr>resourcePriority := ''gpu-first''\<rparr>) req affinity pools)
       = snd (sortPoolsByScore (p\<lparr>resourcePriority := ''cpu-first''\<rparr>) req affinity pools)"
proof -
  let ?g = "p\<lparr>resourcePriority := ''gpu-first''\<rparr>" and ?c = "p\<lparr>resourcePriority := ''cpu-first''\<rparr>"
  have wf: "wf_policy ?g" "wf_policy ?c" using assms(1) by (simp_all add: wf_policy_def)
  have same: "supply_numas ?g = supply_numas p" "supply_numas ?c = supply_numas p"
    "CountColocation ?g = CountColocation p" "CountColocation ?c = CountColocation p"
    by (simp_all add: supply_numas_def CountColocation_def fun_eq_iff)
  have aff: "affinity_sum ?g affinity (supply_numas p i) = 100 * plain_affinity affinity (supply_numas p i)"
    "affinity_sum ?c affinity (supply_numas p i) = plain_affinity affinity (supply_numas p i)"
    if "i \<in> set pools" for i
    using affinity_loop[OF assms(3), of 100 ?g 0 "supply_numas p i"]
      affinity_loop[OF assms(3), of 1 ?c 0 "supply_numas p i"] assms(4) that
    by (simp_all add: affinity_sum_def)
  have "pool_before ?g req affinity x y \<longleftrightarrow> pool_before ?c req affinity x y" if "x \<in> set pools" "y \<in> set pools" for x y
    using aff that by (simp add: pool_before_def pool_key_def pool_affinity_def same Let_def)
  then have "go_sort (pool_before ?g req affinity) pools = go_sort (pool_before ?c req affinity) pools"
    by (rule go_sort_cong)
  with sortPools_key[OF wf(1)] sortPools_key[OF wf(2)] assms(2) show ?thesis by simp
qed

theorem priority_irrelevant_for_sort_witness:
  "snd (sortPoolsByScore (demo_policy\<lparr>resourcePriority := ''gpu-first''\<rparr>) demo_req [(0, 300)] [0, 1])
   = snd (sortPoolsByScore (demo_policy\<lparr>resourcePriority := ''cpu-first''\<rparr>) demo_req [(0, 300)] [0, 1])"
proof (rule priority_irrelevant_for_sort[OF demo_wf])
  show "set [0, 1] \<subseteq> {..<length (p_heap demo_policy)}" by (simp add: demo_defs)
  show "\<forall>k. 0 \<le> aff_get [(0, 300)] k" by (simp add: aff_get_def)
  have "plain_affinity [(0, 300)] (supply_numas demo_policy 0) = 300"
    "plain_affinity [(0, 300)] (supply_numas demo_policy 1) = 300" by code_simp+
  then show "\<forall>i\<in>set [0, 1]. 100 * plain_affinity [(0, 300)] (supply_numas demo_policy i) \<le> 2147483647" by simp
qed

text \<open>On a well-formed tree the search always finds a pool for a request that is not steered by GPUs: a
  pool below the root where the request fits whenever there is one -- then one of greatest depth, and
  among those the first in the sorted order -- and the root otherwise.\<close>

theorem regular_selection:
  assumes "wf_policy p" "resourcePriority p \<noteq> ''gpu-first'' \<or> \<not> hasGPURequest req"
  shows "\<exists>i. select_pool p req = Inr (Ref i) \<and> i \<in> set (filterPoolsByCapacity p req) \<and> hasCapacity p req i
    \<and> (\<forall>j\<in>set (filterPoolsByCapacity p req). j \<noteq> i \<longrightarrow>
         nd_depth (p_heap p ! j) < nd_depth (p_heap p ! i)
         \<or> (nd_depth (p_heap p ! j) = nd_depth (p_heap p ! i) \<and> pool_before p req (calculatePoolAffinities p req) i j))"
proof -
  let ?f = "filterPoolsByCapacity p req" and ?a = "calculatePoolAffinities p req"
  define s where "s = snd (sortPoolsByScore p req ?a ?f)"
  have set: "set s = set ?f" and srt: "slice_sorted (pool_before p req ?a) s"
    using sortPools_sorted[OF assms(1) candidates_bound[OF assms(1)]] by (simp_all add: s_def sortPoolsByScore_def Let_def)
  have ne: "?f \<noteq> []" "s \<noteq> []" using filterPools_nonempty[OF assms(1)] by (simp_all add: s_def sortPoolsByScore_def Let_def)
  have bound: "j < length (p_heap p)" if "j \<in> set s" for j using that candidates_bound[OF assms(1)] set by auto
  have wfh: "wf_heap (p_heap p)" using assms(1) by (simp add: wf_policy_def)
  obtain i where reg: "findRegularPool p req s = Some i"
    using findRegularPool_None[of p req s] ne(2) set candidates_fit[OF assms(1), of _ req] depth_nonneg[OF wfh] bound
    by (metis last_in_set not_None_eq)
  then obtain d where fd: "foldl (better_pool p req) (None, -1) s = (Some i, d)"
    by (cases "foldl (better_pool p req) (None, -1) s") (simp add: findRegularPool_def)
  have "-1 < d" using better_pool_fold[OF fd] by auto
  from better_pool_first[OF fd this] obtain xs ys where
    xy: "s = xs @ i # ys" "hasCapacity p req i"
      "\<forall>j\<in>set xs. hasCapacity p req j \<longrightarrow> RootDistance (p_heap p) (Ref j) < RootDistance (p_heap p) (Ref i)" by blast
  have sel: "select_pool p req = Inr (Ref i)"
    using assms(2) ne reg unfolding select_pool_def Let_def s_def[symmetric]
    by (auto simp: findBestAvailablePool_def)
  have "nd_depth (p_heap p ! j) < nd_depth (p_heap p ! i)
     \<or> (nd_depth (p_heap p ! j) = nd_depth (p_heap p ! i) \<and> pool_before p req ?a i j)" if "j \<in> set ?f" "j \<noteq> i" for j
  proof (cases "j \<in> set xs")
    case True
    with xy(3) candidates_fit[OF assms(1) that(1)] show ?thesis by (simp add: RootDistance_def)
  next
    case False
    with that set xy(1) have "j \<in> set ys" by auto
    with sorted_split[OF srt[unfolded xy(1)]] have "\<not> pool_before p req ?a j i" by blast
    then have "pool_before p req ?a i j"
      using before_total[OF assms(1) bound bound that(2)[symmetric]] that(1) set xy(1) by auto
    moreover have "RootDistance (p_heap p) (Ref j) \<le> RootDistance (p_heap p) (Ref i)"
      using findRegularPool_Some(3)[OF reg] that(1) set candidates_fit[OF assms(1) that(1)] by blast
    ultimately show ?thesis by (auto simp: RootDistance_def)
  qed
  with sel xy set show ?thesis by (intro exI[of _ i]) auto
qed

theorem regular_selection_witness:
  "select_pool demo_policy demo_req = Inr (Ref 1)"
proof -
  have f: "filterPoolsByCapacity demo_policy demo_req = [1]" by code_simp
  have "resourcePriority demo_policy \<noteq> ''gpu-first'' \<or> \<not> hasGPURequest demo_req" by code_simp
  from regular_selection[OF demo_wf this] show ?thesis by (simp add: f)
qed

lemma find_split: "List.find P xs = Some i \<Longrightarrow> \<exists>ys zs. xs = ys @ i # zs \<and> P i \<and> (\<forall>y\<in>set ys. \<not> P y)"
proof (induction xs)
  case (Cons x xs)
  show ?case
  proof (cases "P x")
    case True
    with Cons.prems have "x # xs = [] @ i # xs \<and> P i" by simp
    then show ?thesis by fastforce
  next
    case False
    with Cons obtain ys zs where "xs = ys @ i # zs" "P i" "\<forall>y\<in>set ys. \<not> P y" by auto
    with False have "x # xs = (x # ys) @ i # zs \<and> P i \<and> (\<forall>y\<in>set (x # ys). \<not> P y)" by simp
    then show ?thesis by blast
  qed
qed simp

text \<open>GPU-first keeps a container next to its devices: if some candidate shares a NUMA node with a
  requested GPU, the search ends with a candidate that does, has room, and precedes every other such
  candidate in the order by GPU affinity.\<close>

theorem gpu_first_selection:
  assumes "wf_policy p" "resourcePriority p = ''gpu-first''" "hasGPURequest req"
    and "j \<in> set (filterPoolsByCapacity p req)"
    and "isPoolInGPUNUMANodes (supply_numas p j) (getRequestedGPUNUMANodes p req)"
  shows "\<exists>i. select_pool p req = Inr (Ref i) \<and> hasCapacity p req i
    \<and> isPoolInGPUNUMANodes (supply_numas p i) (getRequestedGPUNUMANodes p req)
    \<and> (j \<noteq> i \<longrightarrow> pool_before p req (calculateGPUNUMAAffinity (getRequestedGPUNUMANodes p req)) i j)"
proof -
  let ?f = "filterPoolsByCapacity p req" and ?n = "getRequestedGPUNUMANodes p req"
  let ?P = "\<lambda>i. isPoolInGPUNUMANodes (supply_numas p i) ?n"
  define s where "s = snd (sortPoolsByScore p req (calculateGPUNUMAAffinity ?n) ?f)"
  have set: "set s = set ?f" and srt: "slice_sorted (pool_before p req (calculateGPUNUMAAffinity ?n)) s"
    using sortPools_sorted[OF assms(1) candidates_bound[OF assms(1)]] by (simp_all add: s_def sortPoolsByScore_def Let_def)
  have ne: "?n \<noteq> []" using assms(5) by (auto simp: isPoolInGPUNUMANodes_def list_ex_iff)
  have "List.find ?P s \<noteq> None" using assms(4,5) set by (auto simp: find_None_iff)
  then obtain i where i: "List.find ?P s = Some i" by blast
  from find_split[OF this] obtain ys zs where yz: "s = ys @ i # zs" "?P i" "\<forall>y\<in>set ys. \<not> ?P y" by blast
  have g: "findGPUAffinityPool p req = Some i"
    using ne i by (simp add: findGPUAffinityPool_def Let_def s_def)
  have "snd (sortPoolsByScore p req (calculatePoolAffinities p req) ?f) \<noteq> []"
    using filterPools_nonempty[OF assms(1)] by (simp add: sortPoolsByScore_def Let_def)
  then have sel: "select_pool p req = Inr (Ref i)"
    using g assms(2,3) filterPools_nonempty[OF assms(1), of req]
    by (simp add: select_pool_def Let_def findBestAvailablePool_def)
  have mem: "i \<in> set ?f" using yz(1) set by auto
  have "pool_before p req (calculateGPUNUMAAffinity ?n) i j" if "j \<noteq> i"
  proof -
    have "j \<in> set zs" using assms(4,5) set yz that by auto
    with sorted_split[OF srt[unfolded yz(1)]] have "\<not> pool_before p req (calculateGPUNUMAAffinity ?n) j i" by blast
    with before_total[OF assms(1) _ _ that[symmetric]] mem assms(4) candidates_bound[OF assms(1)] show ?thesis by auto
  qed
  with sel yz(2) candidates_fit[OF assms(1) mem] show ?thesis by blast
qed

definition gpu_policy :: policy where
  "gpu_policy = demo_policy\<lparr>resourcePriority := ''gpu-first'',
     p_sys := demo_sys\<lparr>s_gpus := [(0, \<lparr>g_id = 0, g_nodeID = 0, g_pciAddress = [], g_vendorID = [],
        g_deviceID = [], g_deviceClass = []\<rparr>)]\<rparr>\<rparr>"

definition gpu_req :: request where
  "gpu_req = demo_req\<lparr>hasGPURequest := True, requestedGPUDevices := [''0'']\<rparr>"

theorem gpu_first_selection_witness:
  "select_pool gpu_policy gpu_req = Inr (Ref 1)"
proof -
  have wf: "wf_policy gpu_policy" using demo_wf by (simp add: gpu_policy_def wf_policy_def)
  have f: "1 \<in> set (filterPoolsByCapacity gpu_policy gpu_req)"
    "isPoolInGPUNUMANodes (supply_numas gpu_policy 1) (getRequestedGPUNUMANodes gpu_policy gpu_req)"
    "filterPoolsByCapacity gpu_policy gpu_req = [1]" by code_simp+
  from gpu_first_selection[OF wf _ _ f(1,2)] obtain i where
    "select_pool gpu_policy gpu_req = Inr (Ref i)"
    by (auto simp: gpu_policy_def gpu_req_def)
  moreover from this select_pool_cases[OF wf this] f(3) have "i = 1" by auto
  ultimately show ?thesis by simp
qed

end
