(* ===== verification/TopoBuild.thy ===== *)
theory TopoBuild
  imports TopoReach
begin

text \<open>
  Building the resource tree (\<^verbatim>\<open>policy/topology-aware/topology_builder.go\<close>, the constructors of
  \<^verbatim>\<open>node_impl.go\<close>, \<open>NewTopologyAwarePolicyWithSystem\<close>): a virtual root for several sockets, the sockets,
  their NUMA nodes, the clusters, and the numbering of the pools in depth-first order. The policy it
  returns is well formed and idle, the state all runs of the allocator start from.
\<close>

section \<open>Constructors\<close>

text \<open>
  The common part of \<open>NewVirtualNode\<close>, \<open>NewSocketNode\<close>, \<open>NewNumaNode\<close> and \<open>NewClusterNode\<close>: initialise,
  link to a parent that is not the nil node, and create the two supplies. The supply of a cluster asks
  its parent for the memory.
\<close>

definition blank_supply :: supply_t where
  "blank_supply = \<lparr>sp_node = GoNil, isolated = {}, sharable = {}, grantedShared = 0, grantedCPUByRequest = 0,
     grantedCPUByLimit = 0, memoryTotal = 0, grantedMemory = 0\<rparr>"

definition init_node :: "string \<Rightarrow> node_kind \<Rightarrow> nptr \<Rightarrow> int \<Rightarrow> mem_info \<Rightarrow> tnode" where
  "init_node name kind parent numaID memInfo =
     \<lparr>nd_name = name, nd_id = -1, nd_kind = kind, nd_depth = 0, nd_parent = parent, nd_children = [],
      nodeResource = blank_supply, freeResource = blank_supply, nd_numaNodeID = numaID, nd_memInfo = memInfo\<rparr>"

definition new_node ::
  "policy \<Rightarrow> string \<Rightarrow> node_kind \<Rightarrow> nptr \<Rightarrow> int \<Rightarrow> mem_info \<Rightarrow> cpu_set \<Rightarrow> policy \<times> nat" where
  "new_node p name kind parent numaID memInfo totalCPU =
     (let i = length (p_heap p);
          h1 = p_heap p @ [init_node name kind parent numaID memInfo];
          h2 = (if parent \<noteq> NilNode then LinkParent h1 parent i else h1);
          isol = totalCPU \<inter> p_isolated p;
          shr = totalCPU - isol;
          res = newSupply (MemoryInfo h2 (Ref i)) (Ref i) isol shr;
          free = Clone (MemoryInfo h2 (Ref i)) res;
          h3 = h2[i := (h2 ! i)\<lparr>nodeResource := res, freeResource := free\<rparr>]
      in (p\<lparr>p_heap := h3, p_nodes := AList.update name i (p_nodes p)\<rparr>, i))"

definition mem_or_zero :: "mem_info result \<Rightarrow> mem_info" where
  "mem_or_zero r = (case r of Inr m \<Rightarrow> m | Inl _ \<Rightarrow> zero_mem_info)"

definition NewVirtualNode :: "policy \<Rightarrow> string \<Rightarrow> nptr \<Rightarrow> policy \<times> nat" where
  "NewVirtualNode p name parent =
     new_node p name VirtualNode parent 0 (mem_or_zero (sys_MemoryInfo (p_sys p))) (AllowedSet (p_sys p))"

definition NewSocketNode :: "policy \<Rightarrow> int \<Rightarrow> nptr \<Rightarrow> cpu_package \<Rightarrow> policy \<times> nat" where
  "NewSocketNode p i parent pkg =
     new_node p (''socket #'' @ itoa i) SocketNode parent 0 (mem_or_zero (pkg_MemoryInfo (p_sys p) pkg)) (pk_cpus pkg)"

definition NewNumaNode :: "policy \<Rightarrow> int \<Rightarrow> nptr \<Rightarrow> sys_node \<Rightarrow> policy \<times> nat" where
  "NewNumaNode p i parent sysNode =
     new_node p (''NUMA node #'' @ itoa i) NumaNode parent i (mem_or_zero (node_MemoryInfo sysNode)) (n_cpus sysNode)"

definition NewClusterNode :: "policy \<Rightarrow> sys_cluster \<Rightarrow> nptr \<Rightarrow> policy \<times> nat" where
  "NewClusterNode p c parent =
     new_node p (''cluster #'' @ itoa (cl_id c) @ '' (NUMA '' @ itoa (cl_nodeID c) @ '')'') ClusterNode parent 0
       zero_mem_info (cl_cpus c)"

section \<open>Levels\<close>

fun createSocketNodes :: "policy \<Rightarrow> (int, nat) gomap \<Rightarrow> int list \<Rightarrow> (policy \<times> (int, nat) gomap) result" where
  "createSocketNodes p sockets [] = Inr (p, sockets)"
| "createSocketNodes p sockets (socketID # ids) =
     (case Package (p_sys p) socketID of
        None \<Rightarrow> Inl Panic
      | Some pkg \<Rightarrow>
          (case (if p_root p \<noteq> GoNil then NewSocketNode p socketID (p_root p) pkg
                 else (case NewSocketNode p socketID NilNode pkg of (q, i) \<Rightarrow> (q\<lparr>p_root := Ref i\<rparr>, i))) of
             (q, socket) \<Rightarrow> createSocketNodes q (AList.update socketID socket sockets) ids))"

text \<open>A NUMA node whose package has no socket gets the nil interface as its parent, which panics.\<close>

fun createNumaNodes ::
  "policy \<Rightarrow> (int, nat) gomap \<Rightarrow> (int, nat) gomap \<Rightarrow> int list \<Rightarrow> (policy \<times> (int, nat) gomap) result" where
  "createNumaNodes p sockets numaNodes [] = Inr (p, numaNodes)"
| "createNumaNodes p sockets numaNodes (numaID # ids) =
     (case Node (p_sys p) numaID of
        None \<Rightarrow> Inl Panic
      | Some sysNode \<Rightarrow>
          (case map_of sockets (n_pkg sysNode) of
             None \<Rightarrow> Inl Panic
           | Some parent \<Rightarrow>
               (case NewNumaNode p numaID (Ref parent) sysNode of
                  (q, n) \<Rightarrow> createNumaNodes q sockets (AList.update numaID n numaNodes) ids)))"

definition NodeClusters :: "system \<Rightarrow> int \<Rightarrow> int list" where
  "NodeClusters s nodeID =
     (case s_clusterInfo s of
        Some ci \<Rightarrow> (case map_of (ci_NodeClusters ci) nodeID of None \<Rightarrow> [] | Some ids \<Rightarrow> ids)
      | None \<Rightarrow>
          (case s_clusters s of
             None \<Rightarrow> []
           | Some m \<Rightarrow> sort_ints (map (cl_id \<circ> snd) (filter (\<lambda>(_, c). cl_nodeID c = nodeID) m))))"

fun cluster_loop :: "policy \<Rightarrow> nat \<Rightarrow> int list \<Rightarrow> policy" where
  "cluster_loop p numaNode [] = p"
| "cluster_loop p numaNode (clusterID # ids) =
     (case Cluster (p_sys p) clusterID of
        None \<Rightarrow> cluster_loop p numaNode ids
      | Some c \<Rightarrow> cluster_loop (fst (NewClusterNode p c (Ref numaNode))) numaNode ids)"

definition createClusterNodes :: "policy \<Rightarrow> (int, nat) gomap \<Rightarrow> policy" where
  "createClusterNodes p numaNodes =
     (if \<not> enableClusterAffinity p \<or> ClusterIDs (p_sys p) = [] then p
      else foldl (\<lambda>q (numaID, n). cluster_loop q n (NodeClusters (p_sys q) numaID)) p numaNodes)"

definition validateSocketStructure :: "system \<Rightarrow> bool" where
  "validateSocketStructure s \<longleftrightarrow>
     PackageIDs s \<noteq> [] \<and>
     list_all (\<lambda>i. 0 \<le> i \<and> (case Package s i of None \<Rightarrow> False | Some pkg \<Rightarrow> pkg_NodeIDs pkg \<noteq> [])) (PackageIDs s)"

section \<open>Numbering\<close>

definition visit :: "policy \<Rightarrow> nat \<Rightarrow> policy" where
  "visit p n =
     p\<lparr>p_pools := p_pools p @ [n],
       p_heap := (p_heap p)[n := SetNodeID (p_nodeCnt p) (p_heap p ! n)],
       p_nodeCnt := p_nodeCnt p + 1,
       p_depth := (if p_depth p < nd_depth (p_heap p ! n) then nd_depth (p_heap p ! n) else p_depth p)\<rparr>"

text \<open>\<open>collectNodes\<close>; \<open>Panic\<close> is the stack overflow of a cyclic tree.\<close>

fun collectNodes :: "nat \<Rightarrow> policy \<Rightarrow> nat \<Rightarrow> policy result" where
  "collectNodes 0 p n = Inl Panic"
| "collectNodes (Suc f) p n =
     foldl (\<lambda>r c. case r of Inl e \<Rightarrow> Inl e | Inr q \<Rightarrow> collectNodes f q c)
       (Inr (visit p n)) (nd_children (p_heap p ! n))"

definition buildResourcePoolsByTopology :: "policy \<Rightarrow> policy result" where
  "buildResourcePoolsByTopology p =
     (case ValidateTopology (p_sys p) of
        Inl e \<Rightarrow> Inl e
      | Inr _ \<Rightarrow>
          if \<not> validateSocketStructure (p_sys p) then Inl (Err ''invalid socket structure detected'')
          else
            (let p0 = p\<lparr>p_nodes := []\<rparr>;
                 p1 = (if length (PackageIDs (p_sys p)) > 1
                       then (case NewVirtualNode p0 ''root'' NilNode of (q, i) \<Rightarrow> q\<lparr>p_root := Ref i\<rparr>)
                       else p0)
             in case createSocketNodes p1 [] (PackageIDs (p_sys p)) of
                  Inl e \<Rightarrow> Inl e
                | Inr (p2, sockets) \<Rightarrow>
                    (case createNumaNodes p2 sockets [] (NodeIDs (p_sys p)) of
                       Inl e \<Rightarrow> Inl e
                     | Inr (p3, numaNodes) \<Rightarrow>
                         (let p4 = createClusterNodes p3 numaNodes
                          in case p_root p4 of
                               Ref r \<Rightarrow> collectNodes (length (p_heap p4) + 1) (p4\<lparr>p_pools := []\<rparr>) r
                             | NilNode \<Rightarrow> Inr (p4\<lparr>p_pools := []\<rparr>)
                             | GoNil \<Rightarrow> Inl Panic))))"

text \<open>\<open>NewTopologyAwarePolicyWithSystem\<close> with a given system, up to the metrics.\<close>

definition NewTopologyAwarePolicy :: "system \<Rightarrow> bool \<Rightarrow> string \<Rightarrow> bool \<Rightarrow> policy result" where
  "NewTopologyAwarePolicy sys memTopo priority clusterAff =
     buildResourcePoolsByTopology
       \<lparr>p_sys = sys, p_heap = [], p_nodes = [], p_pools = [], p_root = GoNil, p_nodeCnt = 0, p_depth = 0,
        p_allowed = AllowedSet sys, p_isolated = {}, p_grants = [], enableMemoryTopology = memTopo,
        resourcePriority = priority,
        enableClusterAffinity = (clusterAff \<and> s_supportsCluster sys \<and> ClusterIDs sys \<noteq> [])\<rparr>"

section \<open>Memory totals are non-negative\<close>

lemma parse_u64_nonneg: "parse_u64 s = Some n \<Longrightarrow> 0 \<le> n"
  by (auto simp: parse_u64_def parse_nat_def split: option.splits if_splits dest: parse_digits_nonneg)

lemma convertValueToKB_nonneg: "0 \<le> v \<Longrightarrow> 0 \<le> convertValueToKB v u"
  by (simp add: convertValueToKB_def pos_imp_zdiv_nonneg_iff)

lemma meminfo_line_nonneg: "0 \<le> MemTotal b \<Longrightarrow> 0 \<le> MemTotal (meminfo_line b l)"
  by (auto simp: meminfo_line_def Let_def convertValueToKB_nonneg dest!: parse_u64_nonneg split: option.splits)

lemma node_MemoryInfo_nonneg: "node_MemoryInfo n = Inr m \<Longrightarrow> 0 \<le> MemTotal m"
proof -
  have "0 \<le> MemTotal b \<Longrightarrow> 0 \<le> MemTotal (foldl meminfo_line b ls)" for b ls
    by (induction ls arbitrary: b) (simp_all add: meminfo_line_nonneg)
  note this[of "zero_mem_info\<lparr>MemSet := {n_id n}\<rparr>"]
  then show "node_MemoryInfo n = Inr m \<Longrightarrow> 0 \<le> MemTotal m"
    by (auto simp: node_MemoryInfo_def zero_mem_info_def Let_def split: option.splits if_splits)
qed

lemma add_node_memory_nonneg: "0 \<le> MemTotal b \<Longrightarrow> 0 \<le> MemTotal (foldl (add_node_memory s) b ids)"
  by (induction ids arbitrary: b) (auto simp: add_node_memory_def split: option.splits sum.splits)

lemma mem_or_zero_nonneg:
  "0 \<le> MemTotal (mem_or_zero (sys_MemoryInfo s))" "0 \<le> MemTotal (mem_or_zero (pkg_MemoryInfo s pkg))"
  "0 \<le> MemTotal (mem_or_zero (node_MemoryInfo n))"
  using add_node_memory_nonneg[of zero_mem_info s] node_MemoryInfo_nonneg[of n]
  by (auto simp: mem_or_zero_def sys_MemoryInfo_def pkg_MemoryInfo_def zero_mem_info_def split: sum.splits)

end
