(* ===== verification/TopoBuildOk.thy ===== *)
theory TopoBuildOk
  imports TopoBuild
begin

text \<open>
  The builder is correct: every tree it returns satisfies \<open>wf_policy\<close>, its pools are all the nodes, in
  depth-first order with their positions as IDs, and nothing is granted yet.
\<close>

section \<open>Adding a node\<close>

definition shape :: "heap \<Rightarrow> bool" where
  "shape h \<longleftrightarrow> (\<forall>i<length h. wf_node h i \<and> (\<forall>c. ctr c (freeResource (h ! i)) = 0)
     \<and> 0 \<le> memoryTotal (freeResource (h ! i)) \<and> 0 \<le> MemTotal (nd_memInfo (h ! i)))"

definition new_supply_ok :: "supply_t \<Rightarrow> nat \<Rightarrow> bool" where
  "new_supply_ok s i \<longleftrightarrow> sp_node s = Ref i \<and> (\<forall>c. ctr c s = 0) \<and> 0 \<le> memoryTotal s"

lemma mem_info_of_nonneg:
  "\<forall>n\<in>set h. 0 \<le> MemTotal (nd_memInfo n) \<Longrightarrow>
   (case p of Ref i \<Rightarrow> i < length h \<and> (\<forall>k<length h. case nd_parent (h ! k) of Ref j \<Rightarrow> j < length h | _ \<Rightarrow> True) | _ \<Rightarrow> True) \<Longrightarrow>
   mem_info_of f h p = Inr m \<Longrightarrow> 0 \<le> MemTotal m"
proof (induction f arbitrary: p)
  case (Suc f)
  show ?case
  proof (cases p)
    case (Ref i)
    with Suc.prems have i: "i < length h" "h ! i \<in> set h" by auto
    have par: "case nd_parent (h ! i) of Ref j \<Rightarrow> j < length h | _ \<Rightarrow> True"
      using Suc.prems(2) i(1) by (simp add: Ref)
    show ?thesis
    proof (cases "nd_kind (h ! i) = ClusterNode")
      case True
      with Suc.prems(3) obtain j where j: "nd_parent (h ! i) = Ref j" "mem_info_of f h (Ref j) = Inr m"
        by (auto simp: Ref split: nptr.splits)
      show ?thesis by (rule Suc.IH[OF Suc.prems(1) _ j(2)]) (use Suc.prems(2) par in \<open>simp add: Ref j(1)\<close>)
    next
      case False
      with Suc.prems(1,3) i(2) show ?thesis by (auto simp: Ref Let_def split: node_kind.splits)
    qed
  qed (use Suc.prems in auto)
qed simp

lemma new_supply_ok_Clone:
  assumes "case m of Inr x \<Rightarrow> 0 \<le> MemTotal x | Inl _ \<Rightarrow> True"
  shows "new_supply_ok (Clone m (newSupply m (Ref i) a b)) i"
proof -
  have "ctr c (Clone m (newSupply m (Ref i) a b)) = 0" for c
    by (cases c) (simp_all add: Clone_def newSupply_def ctr_def)
  then show ?thesis using assms by (auto simp: new_supply_ok_def Clone_def newSupply_def split: sum.splits)
qed

text \<open>The heap after \<open>new_node\<close>, in closed form.\<close>

lemma new_node_root:
  assumes "p_heap p = []" "0 \<le> MemTotal mi" "kind \<noteq> ClusterNode" "kind \<noteq> UnknownNode"
  obtains n where "new_node p name kind NilNode nid mi cpus = (p\<lparr>p_heap := [n], p_nodes := AList.update name 0 (p_nodes p)\<rparr>, 0)"
    "nd_kind n = kind" "shape [n]"
proof -
  let ?n0 = "init_node name kind NilNode nid mi"
  define m where "m = MemoryInfo [?n0] (Ref 0)"
  have m: "case m of Inr x \<Rightarrow> 0 \<le> MemTotal x | Inl _ \<Rightarrow> True"
    using assms(2-4) unfolding m_def by (cases kind) (simp_all add: MemoryInfo_def init_node_def)
  define res where "res = newSupply m (Ref 0) (cpus \<inter> p_isolated p) (cpus - (cpus \<inter> p_isolated p))"
  define n where "n = ?n0\<lparr>nodeResource := res, freeResource := Clone m res\<rparr>"
  have nn: "new_node p name kind NilNode nid mi cpus = (p\<lparr>p_heap := [n], p_nodes := AList.update name 0 (p_nodes p)\<rparr>, 0)"
    using assms(1) unfolding n_def res_def m_def by (simp add: new_node_def Let_def)
  have k: "nd_kind n = kind" by (simp add: n_def init_node_def)
  have "new_supply_ok (Clone m res) 0" unfolding res_def by (rule new_supply_ok_Clone[OF m])
  then have "shape [n]"
    using assms(2-4) by (simp add: shape_def wf_node_def n_def init_node_def new_supply_ok_def)
  from that[OF nn k this] show thesis .
qed

lemma new_node_child:
  assumes "shape (p_heap p)" "j < length (p_heap p)" "0 \<le> MemTotal mi" "kind \<noteq> UnknownNode"
    and "kind = ClusterNode \<Longrightarrow> nd_kind (p_heap p ! j) = NumaNode"
  obtains h where "new_node p name kind (Ref j) nid mi cpus
      = (p\<lparr>p_heap := h, p_nodes := AList.update name (length (p_heap p)) (p_nodes p)\<rparr>, length (p_heap p))"
    "length h = length (p_heap p) + 1" "nd_kind (h ! length (p_heap p)) = kind"
    "\<forall>k<length (p_heap p). nd_kind (h ! k) = nd_kind (p_heap p ! k)" "shape h"
proof -
  let ?h = "p_heap p" and ?i = "length (p_heap p)"
  let ?n0 = "init_node name kind (Ref j) nid mi"
  have notin: "?i \<notin> set (nd_children (?h ! j))"
  proof
    assume "?i \<in> set (nd_children (?h ! j))"
    moreover have "wf_node ?h j" using assms(1,2) by (simp add: shape_def)
    ultimately have "?i < ?i" unfolding wf_node_def list_all_iff by blast
    then show False by simp
  qed
  define nj where "nj = (?h ! j)\<lparr>nd_children := nd_children (?h ! j) @ [?i]\<rparr>"
  define h2 where "h2 = ?h[j := nj] @ [?n0\<lparr>nd_depth := nd_depth (?h ! j) + 1\<rparr>]"
  have link: "LinkParent (?h @ [?n0]) (Ref j) ?i = h2"
    using assms(2) notin
    by (simp add: LinkParent_def h2_def nj_def AddChildren_def RootDistance_def nth_append list_update_append init_node_def Let_def)
  define m where "m = MemoryInfo h2 (Ref ?i)"
  define res where "res = newSupply m (Ref ?i) (cpus \<inter> p_isolated p) (cpus - (cpus \<inter> p_isolated p))"
  define ni where "ni = ?n0\<lparr>nd_depth := nd_depth (?h ! j) + 1, nodeResource := res, freeResource := Clone m res\<rparr>"
  define h where "h = ?h[j := nj] @ [ni]"
  have nn: "new_node p name kind (Ref j) nid mi cpus = (p\<lparr>p_heap := h, p_nodes := AList.update name ?i (p_nodes p)\<rparr>, ?i)"
    unfolding new_node_def Let_def link h_def ni_def res_def m_def
    by (simp add: link) (simp add: h2_def list_update_append nth_append init_node_def)
  have at: "h ! k = (if k = ?i then ni else if k = j then nj else ?h ! k)" if "k \<le> ?i" for k
    using that assms(2) by (auto simp: h_def nth_append)
  have mem: "\<forall>n\<in>set h2. 0 \<le> MemTotal (nd_memInfo n)"
    using assms(1-3) unfolding h2_def nj_def shape_def
    by (auto simp: in_set_conv_nth nth_list_update init_node_def)
  have par: "case nd_parent (h2 ! k) of Ref j \<Rightarrow> j < length h2 | _ \<Rightarrow> True" if k: "k < length h2" for k
  proof (cases "k < ?i")
    case True
    then have "wf_node ?h k" using assms(1) by (simp add: shape_def)
    moreover have "nd_parent (h2 ! k) = nd_parent (?h ! k)" using True assms(2) by (simp add: h2_def nth_append nth_list_update nj_def)
    ultimately show ?thesis using True by (auto simp: wf_node_def h2_def split: nptr.splits if_splits)
  next
    case False
    with k have "k = ?i" by (simp add: h2_def)
    with assms(2) show ?thesis by (simp add: h2_def nth_append init_node_def)
  qed
  have "case m of Inr x \<Rightarrow> 0 \<le> MemTotal x | Inl _ \<Rightarrow> True"
    unfolding m_def MemoryInfo_def
    using mem_info_of_nonneg[OF mem, of "Ref ?i" "length h2 + 1"] par by (auto simp: h2_def split: sum.splits)
  then have sup: "new_supply_ok (Clone m res) ?i" unfolding res_def by (rule new_supply_ok_Clone)
  have new: "wf_node h ?i"
    unfolding wf_node_def
    using assms(2,4,5) sup
    by (auto simp: at ni_def nj_def init_node_def new_supply_ok_def)
  have old: "wf_node h k" if k: "k < ?i" for k
  proof -
    have w: "wf_node ?h k" using assms(1) k by (simp add: shape_def)
    have sel: "nd_parent (h ! k) = nd_parent (?h ! k)" "nd_kind (h ! k) = nd_kind (?h ! k)" "nd_depth (h ! k) = nd_depth (?h ! k)"
      "freeResource (h ! k) = freeResource (?h ! k)"
      "nd_children (h ! k) = nd_children (?h ! k) @ (if k = j then [?i] else [])" if "k < ?i" for k
      using that by (simp_all add: at nj_def)
    have "list_all (\<lambda>c. k < c \<and> c < length h \<and> nd_parent (h ! c) = Ref k) (nd_children (h ! k))"
    proof -
      have "list_all (\<lambda>c. k < c \<and> c < ?i \<and> nd_parent (?h ! c) = Ref k) (nd_children (?h ! k))"
        using w by (simp add: wf_node_def)
      then have "list_all (\<lambda>c. k < c \<and> c < length h \<and> nd_parent (h ! c) = Ref k) (nd_children (?h ! k))"
        using sel(1) by (auto simp: list_all_iff h_def nth_append)
      moreover have "nd_parent (h ! ?i) = Ref j" by (simp add: at ni_def init_node_def)
      moreover have "length h = ?i + 1" by (simp add: h_def)
      ultimately show ?thesis using k unfolding sel(5)[OF k] by auto
    qed
    moreover have "distinct (nd_children (h ! k))"
      using w notin by (auto simp: sel(5)[OF k] wf_node_def)
    moreover have "sp_node (freeResource (h ! k)) = Ref k" "nd_kind (h ! k) \<noteq> UnknownNode"
      using w by (simp_all add: wf_node_def sel[OF k])
    moreover have "(if k = 0 then nd_parent (h ! k) = NilNode \<and> nd_depth (h ! k) = 0 \<and> nd_kind (h ! k) \<noteq> ClusterNode
      else (case nd_parent (h ! k) of
              Ref j \<Rightarrow> j < k \<and> k \<in> set (nd_children (h ! j)) \<and> nd_depth (h ! k) = nd_depth (h ! j) + 1
                      \<and> (nd_kind (h ! k) = ClusterNode \<longrightarrow> nd_kind (h ! j) = NumaNode)
            | _ \<Rightarrow> False))"
    proof (cases "k = 0")
      case True
      with w show ?thesis using sel[OF k] unfolding wf_node_def by simp
    next
      case False
      then obtain l where "nd_parent (?h ! k) = Ref l" "l < k"
        using w by (auto simp: wf_node_def split: nptr.splits)
      with w False show ?thesis using sel[OF k] sel[of l] k unfolding wf_node_def by auto
    qed
    ultimately show ?thesis unfolding wf_node_def by blast
  qed
  have "shape h"
    unfolding shape_def
  proof (intro allI impI)
    fix k assume "k < length h"
    then consider "k = ?i" | "k < ?i" by (auto simp: h_def less_Suc_eq)
    then show "wf_node h k \<and> (\<forall>c. ctr c (freeResource (h ! k)) = 0)
     \<and> 0 \<le> memoryTotal (freeResource (h ! k)) \<and> 0 \<le> MemTotal (nd_memInfo (h ! k))"
    proof cases
      case 1
      then show ?thesis using new sup assms(3) by (simp add: at ni_def init_node_def new_supply_ok_def)
    next
      case 2
      then show ?thesis using old[OF 2] assms(1) by (simp add: at shape_def nj_def)
    qed
  qed
  moreover have "length h = ?i + 1" "nd_kind (h ! ?i) = kind" "\<forall>k<?i. nd_kind (h ! k) = nd_kind (?h ! k)"
    using assms(2) by (auto simp: h_def nth_append ni_def init_node_def nth_list_update nj_def)
  ultimately show thesis using that[OF nn] by blast
qed

section \<open>The levels\<close>

definition kinds_in :: "heap \<Rightarrow> node_kind \<Rightarrow> (int, nat) gomap \<Rightarrow> bool" where
  "kinds_in h k m \<longleftrightarrow> (\<forall>(x, i)\<in>set m. i < length h \<and> nd_kind (h ! i) = k)"

text \<open>What the builder leaves alone: everything but the heap, the names and the root.\<close>

definition same_config :: "policy \<Rightarrow> policy \<Rightarrow> bool" where
  "same_config p q \<longleftrightarrow> p_sys q = p_sys p \<and> p_nodeCnt q = p_nodeCnt p \<and> p_depth q = p_depth p
     \<and> p_grants q = p_grants p \<and> enableMemoryTopology q = enableMemoryTopology p
     \<and> enableClusterAffinity q = enableClusterAffinity p"

lemma same_config_trans: "same_config p q \<Longrightarrow> same_config q r \<Longrightarrow> same_config p r"
  by (simp add: same_config_def)

lemma kinds_in_mono:
  "kinds_in h k m \<Longrightarrow> length h \<le> length h' \<Longrightarrow> \<forall>i<length h. nd_kind (h' ! i) = nd_kind (h ! i) \<Longrightarrow> kinds_in h' k m"
  by (fastforce simp: kinds_in_def)

lemma kinds_in_update: "kinds_in h k m \<Longrightarrow> i < length h \<Longrightarrow> nd_kind (h ! i) = k \<Longrightarrow> kinds_in h k (AList.update x i m)"
  using set_update_sub[of x i m] by (fastforce simp: kinds_in_def)

lemma kinds_in_lookup: "kinds_in h k m \<Longrightarrow> map_of m x = Some i \<Longrightarrow> i < length h \<and> nd_kind (h ! i) = k"
  by (auto simp: kinds_in_def dest: map_of_SomeD)

lemma sockets_ok:
  "createSocketNodes p m ids = Inr (q, m') \<Longrightarrow> shape (p_heap p) \<Longrightarrow> kinds_in (p_heap p) SocketNode m \<Longrightarrow>
   (p_root p = GoNil \<and> p_heap p = []) \<or> (p_root p = Ref 0 \<and> p_heap p \<noteq> []) \<Longrightarrow>
   shape (p_heap q) \<and> kinds_in (p_heap q) SocketNode m' \<and> same_config p q
     \<and> (ids \<noteq> [] \<or> p_heap p \<noteq> [] \<longrightarrow> p_root q = Ref 0 \<and> p_heap q \<noteq> [])"
proof (induction ids arbitrary: p m)
  case Nil
  then show ?case by (auto simp: same_config_def)
next
  case (Cons i ids)
  then obtain pkg where pkg: "Package (p_sys p) i = Some pkg" by (cases "Package (p_sys p) i") auto
  show ?case
  proof (cases "p_heap p = []")
    case True
    with Cons.prems(4) have root: "p_root p = GoNil" by auto
    obtain n where n: "NewSocketNode p i NilNode pkg = (p\<lparr>p_heap := [n],
        p_nodes := AList.update (''socket #'' @ itoa i) 0 (p_nodes p)\<rparr>, 0)" "nd_kind n = SocketNode" "shape [n]"
      unfolding NewSocketNode_def
      by (rule new_node_root[where kind = SocketNode, OF True mem_or_zero_nonneg(2)]) (simp, simp, assumption)
    let ?q = "p\<lparr>p_heap := [n], p_nodes := AList.update (''socket #'' @ itoa i) 0 (p_nodes p), p_root := Ref 0\<rparr>"
    have "createSocketNodes ?q (AList.update i 0 m) ids = Inr (q, m')"
      using Cons.prems(1) by (simp add: pkg root n(1))
    moreover have "kinds_in [n] SocketNode m" using Cons.prems(3) True by (auto simp: kinds_in_def)
    ultimately show ?thesis
      using Cons.IH[of ?q "AList.update i 0 m"] n(2,3) kinds_in_update[of "[n]" SocketNode m 0 i]
      by (auto simp: same_config_def)
  next
    case False
    with Cons.prems(4) have root: "p_root p = Ref 0" and z: "0 < length (p_heap p)" by auto
    obtain h where h: "NewSocketNode p i (Ref 0) pkg = (p\<lparr>p_heap := h,
        p_nodes := AList.update (''socket #'' @ itoa i) (length (p_heap p)) (p_nodes p)\<rparr>, length (p_heap p))"
      "length h = length (p_heap p) + 1" "nd_kind (h ! length (p_heap p)) = SocketNode"
      "\<forall>k<length (p_heap p). nd_kind (h ! k) = nd_kind (p_heap p ! k)" "shape h"
      unfolding NewSocketNode_def
      by (rule new_node_child[where kind = SocketNode, OF Cons.prems(2) z mem_or_zero_nonneg(2)]) (simp, simp, assumption)
    let ?q = "p\<lparr>p_heap := h, p_nodes := AList.update (''socket #'' @ itoa i) (length (p_heap p)) (p_nodes p)\<rparr>"
    have "createSocketNodes ?q (AList.update i (length (p_heap p)) m) ids = Inr (q, m')"
      using Cons.prems(1) by (simp add: pkg root h(1))
    moreover have "kinds_in h SocketNode (AList.update i (length (p_heap p)) m)"
      using kinds_in_mono[OF Cons.prems(3), of h] h(2-4) by (intro kinds_in_update) auto
    moreover have "h \<noteq> []" using h(2) by auto
    ultimately show ?thesis
      using Cons.IH[of ?q "AList.update i (length (p_heap p)) m"] h(5) root
      by (auto simp: same_config_def)
  qed
qed

lemma numas_ok:
  "createNumaNodes p socks m ids = Inr (q, m') \<Longrightarrow> shape (p_heap p) \<Longrightarrow> kinds_in (p_heap p) SocketNode socks \<Longrightarrow>
   kinds_in (p_heap p) NumaNode m \<Longrightarrow>
   shape (p_heap q) \<and> kinds_in (p_heap q) NumaNode m' \<and> same_config p q \<and> p_root q = p_root p
     \<and> length (p_heap p) \<le> length (p_heap q)"
proof (induction ids arbitrary: p m)
  case Nil
  then show ?case by (auto simp: same_config_def)
next
  case (Cons i ids)
  then obtain sn where sn: "Node (p_sys p) i = Some sn" by (cases "Node (p_sys p) i") auto
  with Cons.prems(1) obtain s where s: "map_of socks (n_pkg sn) = Some s" by (cases "map_of socks (n_pkg sn)") auto
  note sk = kinds_in_lookup[OF Cons.prems(3) s]
  obtain h where h: "NewNumaNode p i (Ref s) sn = (p\<lparr>p_heap := h,
      p_nodes := AList.update (''NUMA node #'' @ itoa i) (length (p_heap p)) (p_nodes p)\<rparr>, length (p_heap p))"
    "length h = length (p_heap p) + 1" "nd_kind (h ! length (p_heap p)) = NumaNode"
    "\<forall>k<length (p_heap p). nd_kind (h ! k) = nd_kind (p_heap p ! k)" "shape h"
    unfolding NewNumaNode_def
    by (rule new_node_child[where kind = NumaNode, OF Cons.prems(2) conjunct1[OF sk] mem_or_zero_nonneg(3)]) (simp, simp, assumption)
  let ?q = "p\<lparr>p_heap := h, p_nodes := AList.update (''NUMA node #'' @ itoa i) (length (p_heap p)) (p_nodes p)\<rparr>"
  have "createNumaNodes ?q socks (AList.update i (length (p_heap p)) m) ids = Inr (q, m')"
    using Cons.prems(1) by (simp add: sn s h(1))
  moreover have "kinds_in h NumaNode (AList.update i (length (p_heap p)) m)"
    using kinds_in_mono[OF Cons.prems(4), of h] h(2-4) by (intro kinds_in_update) auto
  moreover have "kinds_in h SocketNode socks" using kinds_in_mono[OF Cons.prems(3), of h] h(2,4) by auto
  ultimately show ?case
    using Cons.IH[of ?q "AList.update i (length (p_heap p)) m"] h(2,5) by (auto simp: same_config_def)
qed

lemma clusters_ok:
  "shape (p_heap p) \<Longrightarrow> n < length (p_heap p) \<Longrightarrow> nd_kind (p_heap p ! n) = NumaNode \<Longrightarrow>
   shape (p_heap (cluster_loop p n ids)) \<and> same_config p (cluster_loop p n ids)
   \<and> p_root (cluster_loop p n ids) = p_root p \<and> length (p_heap p) \<le> length (p_heap (cluster_loop p n ids))
   \<and> (\<forall>k<length (p_heap p). nd_kind (p_heap (cluster_loop p n ids) ! k) = nd_kind (p_heap p ! k))"
proof (induction ids arbitrary: p)
  case Nil
  then show ?case by (simp add: same_config_def)
next
  case (Cons c ids)
  show ?case
  proof (cases "Cluster (p_sys p) c")
    case None
    with Cons show ?thesis by simp
  next
    case (Some cl)
    let ?name = "''cluster #'' @ itoa (cl_id cl) @ '' (NUMA '' @ itoa (cl_nodeID cl) @ '')''"
    obtain h where h: "NewClusterNode p cl (Ref n) = (p\<lparr>p_heap := h,
        p_nodes := AList.update ?name (length (p_heap p)) (p_nodes p)\<rparr>, length (p_heap p))"
      "length h = length (p_heap p) + 1" "nd_kind (h ! length (p_heap p)) = ClusterNode"
      "\<forall>k<length (p_heap p). nd_kind (h ! k) = nd_kind (p_heap p ! k)" "shape h"
      unfolding NewClusterNode_def
      by (rule new_node_child[where kind = ClusterNode and mi = zero_mem_info, OF Cons.prems(1,2)])
        (simp add: zero_mem_info_def, simp, rule Cons.prems(3), assumption)
    let ?q = "p\<lparr>p_heap := h, p_nodes := AList.update ?name (length (p_heap p)) (p_nodes p)\<rparr>"
    from Cons.IH[of ?q] h Cons.prems show ?thesis by (simp add: Some h(1) same_config_def)
  qed
qed

lemma createClusters_ok:
  assumes "shape (p_heap p)" "kinds_in (p_heap p) NumaNode m"
  shows "shape (p_heap (createClusterNodes p m)) \<and> same_config p (createClusterNodes p m)
    \<and> p_root (createClusterNodes p m) = p_root p \<and> length (p_heap p) \<le> length (p_heap (createClusterNodes p m))"
proof -
  have "shape (p_heap q) \<and> same_config p q \<and> p_root q = p_root p \<and> length (p_heap p) \<le> length (p_heap q)"
    if "q = foldl (\<lambda>q (numaID, n). cluster_loop q n (NodeClusters (p_sys q) numaID)) p m" for q
    using assms that
  proof (induction m arbitrary: p)
    case Nil
    then show ?case by (simp add: same_config_def)
  next
    case (Cons x m)
    obtain a n where x: "x = (a, n)" by (cases x)
    let ?r = "cluster_loop p n (NodeClusters (p_sys p) a)"
    have n: "n < length (p_heap p)" "nd_kind (p_heap p ! n) = NumaNode" using Cons.prems(2) by (auto simp: kinds_in_def x)
    note ok = clusters_ok[OF Cons.prems(1) n, of "NodeClusters (p_sys p) a"]
    have "kinds_in (p_heap ?r) NumaNode m"
      using Cons.prems(2) ok kinds_in_mono[of "p_heap p" NumaNode m "p_heap ?r"] by (auto simp: kinds_in_def)
    from Cons.IH[OF conjunct1[OF ok] this] Cons.prems(3) ok show ?case
      by (auto simp: x intro: same_config_trans)
  qed
  then show ?thesis using assms(1) by (simp add: createClusterNodes_def same_config_def)
qed

section \<open>Numbering\<close>

text \<open>The depth-first order as a list; numbering does not disturb the children it walks.\<close>

fun dfs :: "nat \<Rightarrow> heap \<Rightarrow> nat \<Rightarrow> nat list" where
  "dfs 0 h n = []"
| "dfs (Suc f) h n = n # concat (map (dfs f h) (nd_children (h ! n)))"

definition same_children :: "heap \<Rightarrow> heap \<Rightarrow> bool" where
  "same_children h h' \<longleftrightarrow> length h' = length h \<and> (\<forall>i<length h. nd_children (h' ! i) = nd_children (h ! i))"

lemma visit_children:
  "n < length (p_heap p) \<Longrightarrow> same_children (p_heap p) (p_heap (visit p n))"
  by (auto simp: same_children_def visit_def nth_list_update SetNodeID_def)

lemma visits_children:
  "set ns \<subseteq> {..<length (p_heap p)} \<Longrightarrow> same_children (p_heap p) (p_heap (foldl visit p ns))"
proof (induction ns arbitrary: p)
  case (Cons n ns)
  then have v: "same_children (p_heap p) (p_heap (visit p n))" by (intro visit_children) auto
  with Cons.IH[of "visit p n"] Cons.prems show ?case by (auto simp: same_children_def)
qed (simp add: same_children_def)

lemma dfs_same_children:
  assumes "same_children h h'" "\<forall>i<length h. \<forall>c\<in>set (nd_children (h ! i)). c < length h"
  shows "n < length h \<Longrightarrow> dfs f h' n = dfs f h n"
proof (induction f arbitrary: n)
  case (Suc f)
  have m: "map (dfs f h') (nd_children (h ! n)) = map (dfs f h) (nd_children (h ! n))"
    by (rule map_cong[OF refl], rule Suc.IH) (use assms(2) Suc.prems in blast)
  have "nd_children (h' ! n) = nd_children (h ! n)" using assms(1) Suc.prems by (simp add: same_children_def)
  then show ?case by (simp only: dfs.simps m)
qed simp

lemma dfs_bound:
  assumes "\<forall>i<length h. \<forall>c\<in>set (nd_children (h ! i)). c < length h"
  shows "n < length h \<Longrightarrow> set (dfs f h n) \<subseteq> {..<length h}"
proof (induction f arbitrary: n)
  case (Suc f)
  have "set (dfs f h c) \<subseteq> {..<length h}" if "c \<in> set (nd_children (h ! n))" for c
    by (rule Suc.IH) (use assms Suc.prems that in blast)
  with Suc.prems show ?case by auto
qed simp

lemma collect_dfs:
  "\<forall>i<length (p_heap p). \<forall>c\<in>set (nd_children (p_heap p ! i)). i < c \<and> c < length (p_heap p) \<Longrightarrow>
   n < length (p_heap p) \<Longrightarrow> length (p_heap p) - n \<le> f \<Longrightarrow>
   collectNodes f p n = Inr (foldl visit p (dfs f (p_heap p) n))"
proof (induction f arbitrary: p n)
  case (Suc f)
  let ?h = "p_heap p"
  have ch: "\<forall>i<length ?h. \<forall>c\<in>set (nd_children (?h ! i)). c < length ?h" using Suc.prems(1) by blast
  have main: "foldl (\<lambda>r c. case r of Inl e \<Rightarrow> Inl e | Inr q \<Rightarrow> collectNodes f q c) (Inr q) cs
      = Inr (foldl visit q (concat (map (dfs f ?h) cs)))"
    if "same_children ?h (p_heap q)" "set cs \<subseteq> {n<..<length ?h}" for q cs
    using that
  proof (induction cs arbitrary: q)
    case (Cons c cs)
    have c: "n < c" "c < length ?h" using Cons.prems(2) by auto
    have inv: "\<forall>i<length (p_heap q). \<forall>c\<in>set (nd_children (p_heap q ! i)). i < c \<and> c < length (p_heap q)"
    proof (intro allI ballI impI)
      fix i c assume i: "i < length (p_heap q)" "c \<in> set (nd_children (p_heap q ! i))"
      have "length (p_heap q) = length ?h" using Cons.prems(1) by (simp add: same_children_def)
      moreover have "nd_children (p_heap q ! i) = nd_children (?h ! i)"
        using Cons.prems(1) i(1) unfolding same_children_def by (metis)
      ultimately show "i < c \<and> c < length (p_heap q)" using Suc.prems(1) i by metis
    qed
    have len: "length (p_heap q) = length ?h" using Cons.prems(1) by (simp add: same_children_def)
    have "collectNodes f q c = Inr (foldl visit q (dfs f ?h c))"
      using Suc.IH[OF inv, of c] c Suc.prems(2,3) dfs_same_children[OF Cons.prems(1) ch c(2), of f] len by simp
    moreover have "same_children ?h (p_heap (foldl visit q (dfs f ?h c)))"
      using visits_children[of "dfs f ?h c" q] dfs_bound[OF ch c(2), of f] Cons.prems(1) len
      by (auto simp: same_children_def)
    ultimately show ?case using Cons.IH Cons.prems(2) by simp
  qed simp
  have "set (nd_children (?h ! n)) \<subseteq> {n<..<length ?h}"
    using Suc.prems(1,2) greaterThanLessThan_iff by blast
  with main[OF visit_children[OF Suc.prems(2)]] show ?case by simp
next
  case 0
  from 0(2,3) have False by simp
  then show ?case ..
qed

definition child_ok :: "heap \<Rightarrow> bool" where
  "child_ok h \<longleftrightarrow> h \<noteq> [] \<and> (\<forall>i<length h. distinct (nd_children (h ! i)) \<and>
     (\<forall>c\<in>set (nd_children (h ! i)). i < c \<and> c < length h \<and> nd_parent (h ! c) = Ref i) \<and>
     (i \<noteq> 0 \<longrightarrow> (\<exists>j<i. nd_parent (h ! i) = Ref j \<and> i \<in> set (nd_children (h ! j)))))"

lemma shape_child_ok:
  assumes "shape h" "h \<noteq> []"
  shows "child_ok h"
  unfolding child_ok_def
proof (intro conjI allI impI)
  fix i assume i: "i < length h"
  then have w: "wf_node h i" using assms(1) by (simp add: shape_def)
  then show "distinct (nd_children (h ! i))" unfolding wf_node_def by blast
  show "\<forall>c\<in>set (nd_children (h ! i)). i < c \<and> c < length h \<and> nd_parent (h ! c) = Ref i"
    using w unfolding wf_node_def list_all_iff by blast
  assume "i \<noteq> 0"
  then obtain j where "nd_parent (h ! i) = Ref j" "j < i" "i \<in> set (nd_children (h ! j))"
    using w by (auto simp: wf_node_def split: nptr.splits)
  then show "\<exists>j<i. nd_parent (h ! i) = Ref j \<and> i \<in> set (nd_children (h ! j))" by blast
qed (use assms(2) in simp)

lemma child_okD:
  assumes "child_ok h" "i < length h"
  shows "distinct (nd_children (h ! i))"
    "c \<in> set (nd_children (h ! i)) \<Longrightarrow> i < c \<and> c < length h \<and> nd_parent (h ! c) = Ref i"
    "i \<noteq> 0 \<Longrightarrow> \<exists>j<i. nd_parent (h ! i) = Ref j \<and> i \<in> set (nd_children (h ! j))"
  using assms unfolding child_ok_def by blast+

lemma dfs_ge:
  assumes "child_ok h"
  shows "n < length h \<Longrightarrow> x \<in> set (dfs f h n) \<Longrightarrow> n \<le> x"
proof (induction f arbitrary: n)
  case (Suc f)
  from Suc.prems(2) consider "x = n" | c where "c \<in> set (nd_children (h ! n))" "x \<in> set (dfs f h c)" by auto
  then show ?case
  proof cases
    case 2
    with child_okD(2)[OF assms Suc.prems(1) 2(1)] Suc.IH[of c] show ?thesis by auto
  qed simp
qed simp

lemma dfs_tail_gt:
  assumes "child_ok h" "n < length h" "c \<in> set (nd_children (h ! n))" "x \<le> n"
  shows "count_list (dfs f h c) x = 0"
proof -
  have "x \<notin> set (dfs f h c)"
    using child_okD(2)[OF assms(1-3)] dfs_ge[OF assms(1), of c x f] assms(4) by auto
  then show ?thesis by (simp add: count_list_0_iff)
qed

lemma count_concat: "count_list (concat (map g cs)) x = (\<Sum>c\<leftarrow>cs. count_list (g c) x)"
  by (induction cs) auto

lemma dfs_head:
  assumes "child_ok h" "n < length h"
  shows "count_list (dfs (Suc f) h n) n = 1"
proof -
  have "(\<Sum>c\<leftarrow>nd_children (h ! n). count_list (dfs f h c) n) = 0"
    by (intro sum_list_eq_0_iff[THEN iffD2]) (use dfs_tail_gt[OF assms] in auto)
  then show ?thesis by (simp add: count_concat)
qed

lemma sum_one_extra:
  fixes f g :: "nat \<Rightarrow> nat"
  assumes "distinct cs" "\<And>c. c \<in> set cs \<Longrightarrow> c \<noteq> i \<Longrightarrow> f c = g c" "f i = 1" "g i = 0"
  shows "(\<Sum>c\<leftarrow>cs. f c) = (\<Sum>c\<leftarrow>cs. g c) + (if i \<in> set cs then 1 else 0)"
  using assms(1,2)
proof (induction cs)
  case (Cons c cs)
  then show ?case using assms(3,4) by (cases "c = i") auto
qed simp

text \<open>A node is visited as often as its parent.\<close>

lemma dfs_count_parent:
  assumes "child_ok h" "i < length h" "nd_parent (h ! i) = Ref j" "i \<in> set (nd_children (h ! j))" "j < i"
  shows "n < length h \<Longrightarrow> length h - n \<le> f \<Longrightarrow> i \<noteq> n \<Longrightarrow> count_list (dfs f h n) i = count_list (dfs f h n) j"
proof (induction f arbitrary: n)
  case (Suc f)
  let ?cs = "nd_children (h ! n)"
  have eq: "count_list (dfs f h c) i = count_list (dfs f h c) j" if "c \<in> set ?cs" "c \<noteq> i" for c
    using Suc.IH[of c] child_okD(2)[OF assms(1) Suc.prems(1) that(1)] that(2) Suc.prems(2) by auto
  have own: "i \<in> set ?cs \<longleftrightarrow> n = j"
    using child_okD(2)[OF assms(1) Suc.prems(1), of i] assms(3,4) by auto
  show ?case
  proof (cases "n = j")
    case True
    have f: "f \<noteq> 0" using Suc.prems(1,2) assms(2,5) True by auto
    then have "count_list (dfs f h i) i = 1" using dfs_head[OF assms(1,2)] by (cases f) auto
    moreover have "count_list (dfs f h i) j = 0"
      using dfs_tail_gt[OF assms(1) Suc.prems(1), of i j f] own True by simp
    ultimately have "(\<Sum>c\<leftarrow>?cs. count_list (dfs f h c) i) = (\<Sum>c\<leftarrow>?cs. count_list (dfs f h c) j) + 1"
      using sum_one_extra[OF child_okD(1)[OF assms(1) Suc.prems(1)], of i "\<lambda>c. count_list (dfs f h c) i" "\<lambda>c. count_list (dfs f h c) j"]
        eq own True by simp
    then show ?thesis using True Suc.prems(3) by (simp add: count_concat)
  next
    case False
    have "(\<Sum>c\<leftarrow>?cs. count_list (dfs f h c) i) = (\<Sum>c\<leftarrow>?cs. count_list (dfs f h c) j)"
      by (rule arg_cong[of _ _ sum_list], rule map_cong[OF refl], rule eq) (use own False in auto)
    then show ?thesis using False Suc.prems(3) by (simp add: count_concat)
  qed
qed simp

lemma dfs_all_once:
  assumes "child_ok h" "length h \<le> f" "i < length h"
  shows "count_list (dfs f h 0) i = 1"
  using assms(3)
proof (induction i rule: less_induct)
  case (less i)
  have z: "0 < length h" using assms(1) by (auto simp: child_ok_def)
  show ?case
  proof (cases "i = 0")
    case True
    then show ?thesis using dfs_head[OF assms(1) z] assms(2) z by (cases f) auto
  next
    case False
    from child_okD(3)[OF assms(1) less.prems False] obtain j where
      j: "j < i" "nd_parent (h ! i) = Ref j" "i \<in> set (nd_children (h ! j))" by blast
    from dfs_count_parent[OF assms(1) less.prems j(2,3,1) z _ False, of f] assms(2) less.IH[OF j(1)] j(1) less.prems
    show ?thesis by simp
  qed
qed

lemma dfs_permutation:
  assumes "child_ok h" "length h \<le> f"
  shows "set (dfs f h 0) = {..<length h}" "distinct (dfs f h 0)"
proof -
  have z: "0 < length h" using assms(1) by (auto simp: child_ok_def)
  have sub: "set (dfs f h 0) \<subseteq> {..<length h}"
    by (rule dfs_bound[OF _ z]) (use child_okD(2)[OF assms(1)] in blast)
  have "i \<in> set (dfs f h 0)" if "i < length h" for i
    using dfs_all_once[OF assms that] count_list_0_iff[of "dfs f h 0" i] by auto
  with sub show set: "set (dfs f h 0) = {..<length h}" by auto
  have "count_list (dfs f h 0) i = (if i \<in> set (dfs f h 0) then 1 else 0)" for i
    using dfs_all_once[OF assms] set by (auto simp: count_list_0_iff)
  then show "distinct (dfs f h 0)"
    by (metis count_mset distinct_count_atmost_1)
qed

section \<open>The numbered tree\<close>

definition unnumbered :: "tnode \<Rightarrow> tnode" where
  "unnumbered n = n\<lparr>nd_id := 0\<rparr>"

lemma visits_spec:
  "set ns \<subseteq> {..<length (p_heap p)} \<Longrightarrow> distinct ns \<Longrightarrow>
   p_pools (foldl visit p ns) = p_pools p @ ns
   \<and> length (p_heap (foldl visit p ns)) = length (p_heap p)
   \<and> (\<forall>i<length (p_heap p). unnumbered (p_heap (foldl visit p ns) ! i) = unnumbered (p_heap p ! i))
   \<and> (\<forall>i<length (p_heap p). i \<notin> set ns \<longrightarrow> p_heap (foldl visit p ns) ! i = p_heap p ! i)
   \<and> (\<forall>k<length ns. nd_id (p_heap (foldl visit p ns) ! (ns ! k)) = p_nodeCnt p + int k)
   \<and> p_root (foldl visit p ns) = p_root p \<and> p_grants (foldl visit p ns) = p_grants p
   \<and> p_nodeCnt (foldl visit p ns) = p_nodeCnt p + int (length ns)"
proof (induction ns arbitrary: p)
  case (Cons n ns)
  let ?p = "visit p n"
  have n: "n < length (p_heap p)" "n \<notin> set ns" using Cons.prems by auto
  have len: "length (p_heap ?p) = length (p_heap p)" by (simp add: visit_def)
  have at: "p_heap ?p ! i = (if i = n then SetNodeID (p_nodeCnt p) (p_heap p ! n) else p_heap p ! i)" if "i < length (p_heap p)" for i
    using that n(1) by (simp add: visit_def nth_list_update)
  note IH = Cons.IH[of ?p, unfolded len]
  have IH: "p_pools (foldl visit ?p ns) = p_pools ?p @ ns"
    "length (p_heap (foldl visit ?p ns)) = length (p_heap p)"
    "\<And>i. i < length (p_heap p) \<Longrightarrow> unnumbered (p_heap (foldl visit ?p ns) ! i) = unnumbered (p_heap ?p ! i)"
    "\<And>i. i < length (p_heap p) \<Longrightarrow> i \<notin> set ns \<Longrightarrow> p_heap (foldl visit ?p ns) ! i = p_heap ?p ! i"
    "\<And>k. k < length ns \<Longrightarrow> nd_id (p_heap (foldl visit ?p ns) ! (ns ! k)) = p_nodeCnt ?p + int k"
    "p_root (foldl visit ?p ns) = p_root ?p" "p_grants (foldl visit ?p ns) = p_grants ?p"
    "p_nodeCnt (foldl visit ?p ns) = p_nodeCnt ?p + int (length ns)"
    using IH Cons.prems by auto
  have cnt: "p_nodeCnt ?p = p_nodeCnt p + 1" "p_pools ?p = p_pools p @ [n]" "p_root ?p = p_root p" "p_grants ?p = p_grants p"
    by (simp_all add: visit_def)
  have ids: "nd_id (p_heap (foldl visit ?p ns) ! ((n # ns) ! k)) = p_nodeCnt p + int k" if "k < length (n # ns)" for k
    using that IH(4)[OF n] IH(5)[of "k - 1"] at[OF n(1)] cnt(1) by (cases k) (simp_all add: SetNodeID_def)
  have un: "unnumbered (p_heap ?p ! i) = unnumbered (p_heap p ! i)" if "i < length (p_heap p)" for i
    using at[OF that] by (simp add: unnumbered_def SetNodeID_def)
  have rest: "p_heap (foldl visit ?p ns) ! i = p_heap p ! i" if "i < length (p_heap p)" "i \<notin> set (n # ns)" for i
    using IH(4)[OF that(1)] at[OF that(1)] that(2) by simp
  show ?case
    unfolding foldl_Cons using IH(1,2,6,7,8) IH(3) un rest ids cnt by simp
qed simp

lemma unnumbered_sel:
  "unnumbered m = unnumbered n \<Longrightarrow> nd_kind m = nd_kind n \<and> nd_depth m = nd_depth n \<and> nd_parent m = nd_parent n
     \<and> nd_children m = nd_children n \<and> freeResource m = freeResource n"
  by (cases m; cases n) (simp add: unnumbered_def)

lemma wf_node_unnumbered:
  assumes "\<forall>i<length h. unnumbered (h' ! i) = unnumbered (h ! i)" "length h' = length h" "i < length h" "wf_node h i"
  shows "wf_node h' i"
proof -
  have sel: "k < length h \<Longrightarrow> nd_kind (h' ! k) = nd_kind (h ! k) \<and> nd_depth (h' ! k) = nd_depth (h ! k) \<and> nd_parent (h' ! k) = nd_parent (h ! k)
     \<and> nd_children (h' ! k) = nd_children (h ! k) \<and> freeResource (h' ! k) = freeResource (h ! k)" for k
    using assms(1) unnumbered_sel by blast
  have c: "list_all (\<lambda>c. i < c \<and> c < length h' \<and> nd_parent (h' ! c) = Ref i) (nd_children (h' ! i))"
    using assms(2-4) sel sel[OF assms(3)] unfolding wf_node_def list_all_iff by simp
  show ?thesis
  proof (cases "i = 0")
    case True
    with c assms(4) sel[OF assms(3)] show ?thesis unfolding wf_node_def by simp
  next
    case False
    then obtain j where j: "nd_parent (h ! i) = Ref j" "j < i" "i \<in> set (nd_children (h ! j))"
      "nd_depth (h ! i) = nd_depth (h ! j) + 1" "nd_kind (h ! i) = ClusterNode \<longrightarrow> nd_kind (h ! j) = NumaNode"
      using assms(4) by (auto simp: wf_node_def split: nptr.splits)
    with c assms(3,4) sel[OF assms(3)] sel[of j] False show ?thesis unfolding wf_node_def by simp
  qed
qed

lemma numbered_wf:
  assumes "shape (p_heap p)" "p_heap p \<noteq> []" "p_root p = Ref 0" "p_pools p = []" "p_grants p = []"
    and "collectNodes (length (p_heap p) + 1) p 0 = Inr q"
  shows "idle q" "\<forall>k<length (p_pools q). nd_id (p_heap q ! (p_pools q ! k)) = p_nodeCnt p + int k"
proof -
  let ?ns = "dfs (length (p_heap p) + 1) (p_heap p) 0"
  have co: "child_ok (p_heap p)" by (rule shape_child_ok[OF assms(1,2)])
  have q: "q = foldl visit p ?ns"
  proof -
    have "\<forall>i<length (p_heap p). \<forall>c\<in>set (nd_children (p_heap p ! i)). i < c \<and> c < length (p_heap p)"
      using child_okD(2)[OF co] by blast
    from collect_dfs[OF this, of 0 "length (p_heap p) + 1"] show ?thesis using assms(2,6) by simp
  qed
  note perm = dfs_permutation[OF co, of "length (p_heap p) + 1"]
  have perm: "set ?ns = {..<length (p_heap p)}" "distinct ?ns" using perm by auto
  note vs = visits_spec[OF equalityD1[OF perm(1)] perm(2)]
  have sp: "p_pools q = ?ns" "length (p_heap q) = length (p_heap p)"
      "\<forall>i<length (p_heap p). unnumbered (p_heap q ! i) = unnumbered (p_heap p ! i)"
      "\<forall>k<length ?ns. nd_id (p_heap q ! (?ns ! k)) = p_nodeCnt p + int k"
      "p_root q = Ref 0" "p_grants q = []"
    using vs unfolding q assms(3-5) append_Nil by blast+
  show "\<forall>k<length (p_pools q). nd_id (p_heap q ! (p_pools q ! k)) = p_nodeCnt p + int k"
    using sp(1,4) by simp
  have fr: "freeResource (p_heap q ! i) = freeResource (p_heap p ! i)" if "i < length (p_heap p)" for i
    using sp(3) that unnumbered_sel by blast
  have ids: "distinct (map nd_id (p_heap q))"
    unfolding distinct_conv_nth
  proof (intro allI impI)
    fix a b assume ab: "a < length (map nd_id (p_heap q))" "b < length (map nd_id (p_heap q))" "a \<noteq> b"
    then have "a \<in> set ?ns" "b \<in> set ?ns" using perm(1) sp(2) by auto
    then obtain k l where kl: "k < length ?ns" "?ns ! k = a" "l < length ?ns" "?ns ! l = b"
      by (metis in_set_conv_nth)
    with sp(4) have "nd_id (p_heap q ! a) = p_nodeCnt p + int k" "nd_id (p_heap q ! b) = p_nodeCnt p + int l" by auto
    with kl ab show "map nd_id (p_heap q) ! a \<noteq> map nd_id (p_heap q) ! b" by auto
  qed
  have "wf_node (p_heap q) i" if "i < length (p_heap q)" for i
    by (rule wf_node_unnumbered[OF sp(3,2)]) (use that sp(2) assms(1) in \<open>simp_all add: shape_def\<close>)
  then have "wf_heap (p_heap q)"
    using assms(2) sp(2) ids by (auto simp: wf_heap_def list_all_iff)
  then have "wf_policy q" using sp perm by (simp add: wf_policy_def)
  then show "idle q"
    using sp fr assms(1) by (simp add: idle_def counter_at_def shape_def)
qed

section \<open>The policy that is built\<close>

definition build_start :: "system \<Rightarrow> bool \<Rightarrow> string \<Rightarrow> bool \<Rightarrow> policy" where
  "build_start sys memTopo priority clusterAff =
     \<lparr>p_sys = sys, p_heap = [], p_nodes = [], p_pools = [], p_root = GoNil, p_nodeCnt = 0, p_depth = 0,
      p_allowed = AllowedSet sys, p_isolated = {}, p_grants = [], enableMemoryTopology = memTopo,
      resourcePriority = priority, enableClusterAffinity = (clusterAff \<and> s_supportsCluster sys \<and> ClusterIDs sys \<noteq> [])\<rparr>"

definition build_root :: "policy \<Rightarrow> policy" where
  "build_root p = (if length (PackageIDs (p_sys p)) > 1
       then (case NewVirtualNode p ''root'' NilNode of (q, i) \<Rightarrow> q\<lparr>p_root := Ref i\<rparr>) else p)"

lemma build_start_sel [simp]:
  "(build_start sys m pr ca)\<lparr>p_nodes := []\<rparr> = build_start sys m pr ca" "p_sys (build_start sys m pr ca) = sys"
  "p_heap (build_start sys m pr ca) = []" "p_root (build_start sys m pr ca) = GoNil" "p_grants (build_start sys m pr ca) = []"
  "p_nodeCnt (build_start sys m pr ca) = 0"
  by (simp_all add: build_start_def)

lemma build_root_ok:
  assumes "p1 = build_root (build_start sys m pr ca)"
  shows "shape (p_heap p1)" "(p_root p1 = GoNil \<and> p_heap p1 = []) \<or> (p_root p1 = Ref 0 \<and> p_heap p1 \<noteq> [])"
    "same_config (build_start sys m pr ca) p1"
proof -
  let ?p0 = "build_start sys m pr ca"
  obtain n where n: "NewVirtualNode ?p0 ''root'' NilNode = (?p0\<lparr>p_heap := [n], p_nodes := AList.update ''root'' 0 (p_nodes ?p0)\<rparr>, 0)"
    "nd_kind n = VirtualNode" "shape [n]"
    unfolding NewVirtualNode_def
    by (rule new_node_root[where kind = VirtualNode, OF build_start_sel(3) mem_or_zero_nonneg(1)]) (simp, simp, assumption)
  show "shape (p_heap p1)" using n(3) by (auto simp: assms build_root_def n(1) shape_def)
  show "(p_root p1 = GoNil \<and> p_heap p1 = []) \<or> (p_root p1 = Ref 0 \<and> p_heap p1 \<noteq> [])" by (simp add: assms build_root_def n(1))
  show "same_config ?p0 p1" by (simp add: assms build_root_def n(1) same_config_def)
qed

lemma built_heap:
  assumes "createSocketNodes (build_root (build_start sys m pr ca)) [] (PackageIDs sys) = Inr (p2, socks)"
    and "createNumaNodes p2 socks [] (NodeIDs sys) = Inr (p3, numas)" "PackageIDs sys \<noteq> []"
  defines "p4 \<equiv> createClusterNodes p3 numas"
  shows "shape (p_heap p4)" "p_root p4 = Ref 0" "p_heap p4 \<noteq> []" "same_config (build_start sys m pr ca) p4"
proof -
  note p1 = build_root_ok[OF refl, of sys m pr ca]
  have p2: "shape (p_heap p2)" "kinds_in (p_heap p2) SocketNode socks" "same_config (build_root (build_start sys m pr ca)) p2"
    "p_root p2 = Ref 0" "p_heap p2 \<noteq> []"
    using sockets_ok[OF assms(1) p1(1) _ p1(2)] assms(3) by (auto simp: kinds_in_def)
  have p3: "shape (p_heap p3)" "kinds_in (p_heap p3) NumaNode numas" "same_config p2 p3" "p_root p3 = Ref 0" "p_heap p3 \<noteq> []"
    using numas_ok[OF assms(2) p2(1,2)] p2(4,5) by (auto simp: kinds_in_def)
  note p4 = createClusters_ok[OF p3(1,2), folded p4_def]
  show "shape (p_heap p4)" using p4 by blast
  show "p_root p4 = Ref 0" "p_heap p4 \<noteq> []" using p4 p3(4,5) by auto
  show "same_config (build_start sys m pr ca) p4" using p1(3) p2(3) p3(3) p4 same_config_trans by blast
qed

text \<open>What is left of the builder once the topology has passed the checks.\<close>

lemma build_unfold:
  assumes "ValidateTopology sys = Inr v" "validateSocketStructure sys"
  shows "NewTopologyAwarePolicy sys m pr ca =
    (case createSocketNodes (build_root (build_start sys m pr ca)) [] (PackageIDs sys) of
       Inl e \<Rightarrow> Inl e
     | Inr (p2, socks) \<Rightarrow>
         (case createNumaNodes p2 socks [] (NodeIDs sys) of
            Inl e \<Rightarrow> Inl e
          | Inr (p3, numas) \<Rightarrow>
              (let p4 = createClusterNodes p3 numas in
               case p_root p4 of
                 Ref r \<Rightarrow> collectNodes (length (p_heap p4) + 1) (p4\<lparr>p_pools := []\<rparr>) r
               | NilNode \<Rightarrow> Inr (p4\<lparr>p_pools := []\<rparr>) | GoNil \<Rightarrow> Inl Panic)))"
proof -
  have n: "NewTopologyAwarePolicy sys m pr ca = buildResourcePoolsByTopology (build_start sys m pr ca)"
    by (simp add: NewTopologyAwarePolicy_def build_start_def)
  show ?thesis unfolding n buildResourcePoolsByTopology_def build_start_sel Let_def build_root_def using assms by simp
qed

lemma built_passes:
  assumes "NewTopologyAwarePolicy sys m pr ca = Inr p"
  shows "ValidateTopology sys = Inr ()" "validateSocketStructure sys" "PackageIDs sys \<noteq> []"
proof -
  have n: "buildResourcePoolsByTopology (build_start sys m pr ca) = Inr p"
    using assms by (simp add: NewTopologyAwarePolicy_def build_start_def)
  then show "ValidateTopology sys = Inr ()" by (auto simp: buildResourcePoolsByTopology_def split: sum.splits)
  with n show "validateSocketStructure sys" by (auto simp: buildResourcePoolsByTopology_def split: if_splits)
  then show "PackageIDs sys \<noteq> []" by (simp add: validateSocketStructure_def)
qed

lemma built_collect:
  assumes "shape (p_heap p)" "p_heap p \<noteq> []"
  shows "\<exists>q. collectNodes (length (p_heap p) + 1) p 0 = Inr q"
proof -
  have "\<forall>i<length (p_heap p). \<forall>c\<in>set (nd_children (p_heap p ! i)). i < c \<and> c < length (p_heap p)"
    using child_okD(2)[OF shape_child_ok[OF assms]] by blast
  from collect_dfs[OF this, of 0 "length (p_heap p) + 1"] assms(2) show ?thesis by simp
qed


definition two_socket_sys :: system where
  "two_socket_sys =
     (let pkg = \<lambda>i. \<lparr>pk_id = i, pk_cpus = {2 * i, 2 * i + 1}, pk_nodes = {i}, pk_dies = {0},
                     pk_dieCPUs = [(0, {2 * i, 2 * i + 1})], pk_dieNodes = [(0, {i})]\<rparr>;
          node = \<lambda>i. \<lparr>n_id = i, n_pkg = i, n_die = 0, n_cpus = {2 * i, 2 * i + 1}, n_distance = [10, 10],
                      n_hasMemory = True, n_normalMem = True, n_memoryType = MemoryTypeDRAM,
                      n_meminfo = Some ''Node 0 MemTotal: 4096 kB''\<rparr>
      in \<lparr>s_packages = [(0, pkg 0), (1, pkg 1)], s_nodes = [(0, node 0), (1, node 1)], s_clusters = None,
          s_cpus = [], s_offline = {}, s_isolated = {}, s_threadsPerCore = 1, s_gpus = [],
          s_clusterInfo = None, s_supportsCluster = False\<rparr>)"


end
