(* ===== verification/Cache.thy ===== *)
theory Cache
  imports ContainerContext
begin

text \<open>
  The cache of pods and containers (\<^verbatim>\<open>pkg/kunpeng-tap/cache/cache.go\<close>, \<^verbatim>\<open>pod.go\<close>, \<^verbatim>\<open>container.go\<close>). The
  Go map \<open>Containers\<close> holds pointers and one container may be reachable under two keys, so containers
  live in a store and the map holds their addresses. The mutex is a flag: an operation that locks a
  locked cache never returns, which is the value \<open>None\<close>.
\<close>

section \<open>Data\<close>

datatype pod_state = PodStateReady | PodStateNotReady | PodStateStale

datatype container_state =
  ContainerStateCreated | ContainerStateRunning | ContainerStateExited | ContainerStateUnknown
| ContainerStateCreating | ContainerStateStale

record pod =
  po_ID :: string
  po_UID :: string
  po_Name :: string
  po_Namespace :: string
  po_Annotations :: "(string, string) gomap"
  po_Labels :: "(string, string) gomap"
  po_State :: pod_state
  po_QOSClass :: pod_qos
  po_Resources :: resource_requirements
  po_LinuxReq :: "linux_resources option"
  po_CgroupParent :: string
  po_containers :: "(string, string) gomap option"

record container =
  ct_ID :: string
  ct_PodID :: string
  ct_CacheID :: string
  ct_Name :: string
  ct_Namespace :: string
  ct_State :: container_state
  ct_Resources :: resource_requirements
  ct_LinuxReq :: "linux_resources option"
  ct_pending :: "string list"
  ct_prettyName :: string

record cache =
  c_locked :: bool
  Pods :: "(string, pod) gomap"
  Containers :: "(string, nat) gomap"
  c_store :: "container list"
  c_pending :: "string list"

definition no_requirements :: resource_requirements where
  "no_requirements = \<lparr>Requests = None, Limits = None\<rparr>"

definition new_cache :: cache where
  "new_cache = \<lparr>c_locked = False, Pods = [], Containers = [], c_store = [], c_pending = []\<rparr>"

text \<open>\<open>Lock\<close> and the deferred \<open>Unlock\<close> around a body, which may itself block.\<close>

definition with_lock_m :: "(cache \<Rightarrow> (cache \<times> 'a) option) \<Rightarrow> cache \<Rightarrow> (cache \<times> 'a) option" where
  "with_lock_m body c =
     (if c_locked c then None
      else (case body (c\<lparr>c_locked := True\<rparr>) of
              None \<Rightarrow> None | Some (c', r) \<Rightarrow> Some (c'\<lparr>c_locked := False\<rparr>, r)))"

definition with_lock :: "(cache \<Rightarrow> cache \<times> 'a) \<Rightarrow> cache \<Rightarrow> (cache \<times> 'a) option" where
  "with_lock body = with_lock_m (\<lambda>c. Some (body c))"

text \<open>\<open>set_add\<close> is the assignment of an empty struct under a key.\<close>

definition set_add :: "'a \<Rightarrow> 'a list \<Rightarrow> 'a list" where
  "set_add x xs = (if x \<in> set xs then xs else xs @ [x])"

section \<open>Pods\<close>

text \<open>The class found, if any, and whether an error is returned.\<close>

definition discoverQOSClass :: "string \<Rightarrow> pod_qos option \<times> bool" where
  "discoverQOSClass cgroupParent =
     (if cgroupParent = [] then (Some BestEffort, False)
      else (let dirs = go_split ''/'' (trim_prefix cgroupParent ''/'');
                dirs1 = (if hd dirs \<noteq> ''kubepods.slice'' \<and> hd dirs \<noteq> ''kubepods'' then tl dirs else dirs)
            in if dirs1 = [] then (None, False)
               else (let dirs2 = (if hd dirs1 = ''kubepods.slice'' \<or> hd dirs1 = ''kubepods'' then tl dirs1 else dirs1)
                     in if dirs2 = [] then (None, False)
                        else if hd dirs2 = ''kubepods-besteffort.slice'' \<or> hd dirs2 = ''besteffort''
                          then (Some BestEffort, True)
                        else if hd dirs2 = ''kubepods-burstable.slice'' \<or> hd dirs2 = ''burstable''
                          then (Some Burstable, True)
                        else if has_prefix (hd dirs2) ''kubepods-pod'' \<or> has_prefix (hd dirs2) ''pod''
                          then (Some Guaranteed, True)
                        else (None, False))))"

definition set_qos :: "pod \<Rightarrow> pod" where
  "set_qos p = (case fst (discoverQOSClass (po_CgroupParent p)) of None \<Rightarrow> p | Some q \<Rightarrow> p\<lparr>po_QOSClass := q\<rparr>)"

text \<open>The fields of the hook request of a sandbox and of the NRI's messages that are read.\<close>

record pod_hook_request =
  ph_Uid :: string
  ph_Name :: string
  ph_Namespace :: string
  ph_Id :: string
  ph_Labels :: "(string, string) gomap"
  ph_Annotations :: "(string, string) gomap"
  ph_CgroupParent :: string
  ph_Resources :: "linux_resources option"

record nri_cpu =
  ni_period :: "int option"
  ni_quota :: "int option"
  ni_shares :: "int option"
  ni_cpus :: string
  ni_mems :: string

record nri_resources =
  ni_cpu :: "nri_cpu option"
  ni_memory_limit :: "int option"

record nri_pod =
  np_Uid :: string
  np_Name :: string
  np_Namespace :: string
  np_Labels :: "(string, string) gomap"
  np_Annotations :: "(string, string) gomap"
  np_Linux :: "(string \<times> nri_resources option \<times> nri_resources option) option"

datatype nri_state = NriCreated | NriPaused | NriRunning | NriStopped | NriOther

record nri_container =
  nc_Id :: string
  nc_PodSandboxId :: string
  nc_Name :: string
  nc_State :: nri_state
  nc_Resources :: "nri_resources option"

definition blank_pod :: "string \<Rightarrow> pod" where
  "blank_pod i = \<lparr>po_ID = i, po_UID = [], po_Name = [], po_Namespace = [], po_Annotations = [], po_Labels = [],
     po_State = PodStateReady, po_QOSClass = QosNone, po_Resources = no_requirements, po_LinuxReq = None,
     po_CgroupParent = [], po_containers = None\<rparr>"

definition pod_fromDockerRunRequest :: "pod \<Rightarrow> pod_hook_request \<Rightarrow> pod" where
  "pod_fromDockerRunRequest p pInfo =
     set_qos (p\<lparr>po_containers := Some [], po_UID := ph_Uid pInfo, po_Name := ph_Name pInfo,
       po_Namespace := ph_Namespace pInfo, po_Labels := ph_Labels pInfo, po_Annotations := ph_Annotations pInfo,
       po_State := PodStateReady, po_CgroupParent := ph_CgroupParent pInfo, po_LinuxReq := ph_Resources pInfo,
       po_Resources := no_requirements\<rparr>)"

text \<open>Period and shares are unsigned in the NRI's messages; a value that is not positive is ignored.\<close>

definition take_pos :: "int option \<Rightarrow> int \<Rightarrow> int" where
  "take_pos v old = (case v of Some x \<Rightarrow> if x > 0 then x else old | None \<Rightarrow> old)"

definition convertNriLinuxResources :: "nri_resources option \<Rightarrow> linux_resources option" where
  "convertNriLinuxResources nriRes =
     (case nriRes of
        None \<Rightarrow> None
      | Some res \<Rightarrow>
          (let r0 = zero_linux_resources;
               r1 = (case ni_cpu res of
                       None \<Rightarrow> r0
                     | Some cpu \<Rightarrow>
                         r0\<lparr>CpuPeriod := take_pos (map_option wrap_i64 (ni_period cpu)) (CpuPeriod r0),
                            CpuQuota := take_pos (ni_quota cpu) (CpuQuota r0),
                            CpuShares := take_pos (map_option wrap_i64 (ni_shares cpu)) (CpuShares r0),
                            CpusetCpus := (if ni_cpus cpu \<noteq> [] then ni_cpus cpu else CpusetCpus r0),
                            CpusetMems := (if ni_mems cpu \<noteq> [] then ni_mems cpu else CpusetMems r0)\<rparr>);
               r2 = r1\<lparr>MemoryLimitInBytes := take_pos (ni_memory_limit res) (MemoryLimitInBytes r1)\<rparr>
           in Some (r2\<lparr>OomScoreAdj := 0\<rparr>)))"

definition pod_fromNriPodSandbox :: "pod \<Rightarrow> nri_pod \<Rightarrow> string option \<Rightarrow> pod" where
  "pod_fromNriPodSandbox p m status =
     (let p1 = p\<lparr>po_containers := Some [], po_UID := np_Uid m, po_Name := np_Name m, po_Namespace := np_Namespace m,
                 po_Labels := np_Labels m, po_Annotations := np_Annotations m, po_State := PodStateReady\<rparr>;
          p2 = (case np_Linux m of
                  None \<Rightarrow> p1
                | Some (parent, podRes, legacyRes) \<Rightarrow>
                    (let q = p1\<lparr>po_CgroupParent := parent\<rparr>
                     in if podRes \<noteq> None then q\<lparr>po_LinuxReq := convertNriLinuxResources podRes\<rparr>
                        else if legacyRes \<noteq> None then q\<lparr>po_LinuxReq := convertNriLinuxResources legacyRes\<rparr>
                        else q));
          p3 = (case status of Some parent \<Rightarrow> if parent \<noteq> [] then p2\<lparr>po_CgroupParent := parent\<rparr> else p2
                | None \<Rightarrow> p2)
      in set_qos (p3\<lparr>po_Resources := no_requirements\<rparr>))"

text \<open>The messages a pod or a container can be made from. The CRI messages are accepted and not read.\<close>

datatype pod_msg = PodCri | PodHook pod_hook_request | PodNri nri_pod | PodOther

definition InsertPod :: "string \<Rightarrow> pod_msg \<Rightarrow> string option \<Rightarrow> cache \<Rightarrow> (cache \<times> pod result) option" where
  "InsertPod i msg status c =
     (if i = [] then Some (c, Inl (Err ''pod ID is empty''))
      else with_lock (\<lambda>c.
        (case (case msg of
                 PodCri \<Rightarrow> Inr (blank_pod i)
               | PodHook m \<Rightarrow> Inr (pod_fromDockerRunRequest (blank_pod i) m)
               | PodNri m \<Rightarrow> Inr (pod_fromNriPodSandbox (blank_pod i) m status)
               | PodOther \<Rightarrow> Inl (Err ''cannot create pod'')) of
           Inl e \<Rightarrow> (c, Inl e)
         | Inr p \<Rightarrow> (c\<lparr>Pods := AList.update i p (Pods c)\<rparr>, Inr p))) c)"

definition DeletePod :: "string \<Rightarrow> cache \<Rightarrow> (cache \<times> pod option) option" where
  "DeletePod i = with_lock (\<lambda>c.
     (case map_of (Pods c) i of
        None \<Rightarrow> (c, None)
      | Some p \<Rightarrow> (c\<lparr>Pods := AList.delete i (Pods c)\<rparr>, Some p)))"

definition LookupPod :: "string \<Rightarrow> cache \<Rightarrow> (cache \<times> pod option) option" where
  "LookupPod i = with_lock (\<lambda>c. (c, map_of (Pods c) i))"

definition GetPods :: "cache \<Rightarrow> (cache \<times> pod list) option" where
  "GetPods = with_lock (\<lambda>c. (c, map snd (Pods c)))"

section \<open>Containers\<close>

definition blank_container :: container where
  "blank_container = \<lparr>ct_ID = [], ct_PodID = [], ct_CacheID = [], ct_Name = [], ct_Namespace = [],
     ct_State = ContainerStateCreated, ct_Resources = no_requirements, ct_LinuxReq = None, ct_pending = [],
     ct_prettyName = []\<rparr>"

text \<open>The hook request of a container with the pod's ID; \<open>PodMeta\<close> may be nil.\<close>

record container_hook_request =
  ch_PodId :: "string option"
  ch_Id :: string
  ch_Name :: string
  ch_Resources :: "linux_resources option"

text \<open>Writing to a nil map panics: the map of a pod made from a CRI message is never made.\<close>

definition register :: "string \<Rightarrow> string \<Rightarrow> string \<Rightarrow> cache \<Rightarrow> cache result" where
  "register podID name cid c =
     (case map_of (Pods c) podID of
        None \<Rightarrow> Inr c
      | Some p \<Rightarrow>
          (case po_containers p of
             None \<Rightarrow> Inl Panic
           | Some m \<Rightarrow>
               if map_of m name = None
               then Inr (c\<lparr>Pods := AList.update podID (p\<lparr>po_containers := Some (AList.update name cid m)\<rparr>) (Pods c)\<rparr>)
               else Inr c))"

definition ctr_fromDockerRunRequest ::
  "container \<Rightarrow> container_hook_request \<Rightarrow> cache \<Rightarrow> (cache \<times> container) result" where
  "ctr_fromDockerRunRequest k req c =
     (let k1 = (case ch_PodId req of None \<Rightarrow> k | Some i \<Rightarrow> k\<lparr>ct_PodID := i\<rparr>) in
      case map_of (Pods c) (ct_PodID k1) of
        None \<Rightarrow> Inl (Err ''can't find cached pod for listed container'')
      | Some pod \<Rightarrow>
          map_sum id (\<lambda>c'. (c', k1\<lparr>ct_ID := ch_Id req, ct_Name := ch_Name req, ct_Namespace := po_Namespace pod,
                   ct_State := ContainerStateCreating, ct_Resources := po_Resources pod,
                   ct_LinuxReq := ch_Resources req\<rparr>))
            (register (ct_PodID k1) (ch_Name req) (ch_Id req) c))"

definition convertNriContainerState :: "nri_state \<Rightarrow> container_state" where
  "convertNriContainerState s =
     (case s of NriCreated \<Rightarrow> ContainerStateCreated | NriPaused \<Rightarrow> ContainerStateCreated
              | NriRunning \<Rightarrow> ContainerStateRunning | NriStopped \<Rightarrow> ContainerStateExited
              | NriOther \<Rightarrow> ContainerStateCreating)"

text \<open>The conversion of a container's resources has the body of the pod's.\<close>

definition ctr_fromNriContainer :: "container \<Rightarrow> nri_container \<Rightarrow> cache \<Rightarrow> (cache \<times> container) result" where
  "ctr_fromNriContainer k m c =
     (case map_of (Pods c) (nc_PodSandboxId m) of
        None \<Rightarrow> Inl (Err ''can't find cached pod for NRI container'')
      | Some pod \<Rightarrow>
          (let k1 = k\<lparr>ct_PodID := nc_PodSandboxId m, ct_ID := nc_Id m, ct_Name := nc_Name m,
                      ct_Namespace := po_Namespace pod, ct_State := convertNriContainerState (nc_State m),
                      ct_Resources := po_Resources pod\<rparr>;
               k2 = (if nc_Resources m \<noteq> None
                     then k1\<lparr>ct_LinuxReq := convertNriLinuxResources (nc_Resources m)\<rparr> else k1)
           in map_sum id (\<lambda>c'. (c', k2)) (register (nc_PodSandboxId m) (nc_Name m) (nc_Id m) c)))"

definition ctr_fromBasicInfo :: "container \<Rightarrow> string \<Rightarrow> container" where
  "ctr_fromBasicInfo k i = k\<lparr>ct_ID := i, ct_Name := i, ct_State := ContainerStateCreating, ct_CacheID := i\<rparr>"

datatype container_msg =
  CtrCri | CtrHook container_hook_request | CtrNri nri_container | CtrOther

definition insert_body :: "string \<Rightarrow> container_msg \<Rightarrow> cache \<Rightarrow> cache \<times> container result" where
  "insert_body containerId msg c =
     (case (case msg of
              CtrCri \<Rightarrow> Inr (c, blank_container)
            | CtrHook m \<Rightarrow> ctr_fromDockerRunRequest blank_container m c
            | CtrNri m \<Rightarrow> ctr_fromNriContainer blank_container m c
            | CtrOther \<Rightarrow> Inr (c, ctr_fromBasicInfo blank_container containerId)) of
        Inl Panic \<Rightarrow> (c, Inl Panic)
      | Inl (Err e) \<Rightarrow> (c, Inl (Err ''failed to insert container''))
      | Inr (c', k) \<Rightarrow>
          (let k' = k\<lparr>ct_ID := containerId\<rparr>
           in (c'\<lparr>c_store := c_store c' @ [k'],
                  Containers := AList.update containerId (length (c_store c')) (Containers c')\<rparr>, Inr k')))"

definition InsertContainer :: "string \<Rightarrow> container_msg \<Rightarrow> cache \<Rightarrow> (cache \<times> container result) option" where
  "InsertContainer containerId msg = with_lock (insert_body containerId msg)"

text \<open>The reply of a create call; any other message is an error.\<close>

definition UpdateContainerID :: "string \<Rightarrow> string option \<Rightarrow> cache \<Rightarrow> (cache \<times> container result) option" where
  "UpdateContainerID cacheID reply = with_lock (\<lambda>c.
     (case map_of (Containers c) cacheID of
        None \<Rightarrow> (c, Inl (Err ''container not found''))
      | Some a \<Rightarrow>
          (case reply of
             None \<Rightarrow> (c, Inl (Err ''failed to update ID from message''))
           | Some i \<Rightarrow>
               (let k = (c_store c ! a)\<lparr>ct_ID := i\<rparr>
                in (c\<lparr>c_store := (c_store c)[a := k], Containers := AList.update i a (Containers c)\<rparr>, Inr k)))))"

definition delete_body :: "string \<Rightarrow> cache \<Rightarrow> cache \<times> container option" where
  "delete_body i c =
     (case map_of (Containers c) i of
        None \<Rightarrow> (c, None)
      | Some a \<Rightarrow>
          (let k = c_store c ! a
           in (c\<lparr>Containers := AList.delete (ct_CacheID k) (AList.delete (ct_ID k) (Containers c))\<rparr>, Some k)))"

definition DeleteContainer :: "string \<Rightarrow> cache \<Rightarrow> (cache \<times> container option) option" where
  "DeleteContainer i = with_lock (delete_body i)"

definition LookupContainer :: "string \<Rightarrow> cache \<Rightarrow> (cache \<times> container option) option" where
  "LookupContainer i = with_lock (\<lambda>c. (c, map_option (\<lambda>a. c_store c ! a) (map_of (Containers c) i)))"

definition GetContainers :: "cache \<Rightarrow> (cache \<times> container list) option" where
  "GetContainers = with_lock (\<lambda>c. (c, map (\<lambda>(i, a). c_store c ! a) (Containers c)))"

definition state_body :: "string \<Rightarrow> container_state \<Rightarrow> cache \<Rightarrow> cache \<times> unit" where
  "state_body i st c =
     (case map_of (Containers c) i of
        None \<Rightarrow> (c, ())
      | Some a \<Rightarrow> (c\<lparr>c_store := (c_store c)[a := (c_store c ! a)\<lparr>ct_State := st\<rparr>]\<rparr>, ()))"

definition SetContainerState :: "string \<Rightarrow> container_state \<Rightarrow> cache \<Rightarrow> (cache \<times> unit) option" where
  "SetContainerState i st = with_lock (state_body i st)"

definition GetContainerCacheIds :: "cache \<Rightarrow> string list" where
  "GetContainerCacheIds c =
     concat (map (\<lambda>(i, a). if i \<noteq> ct_CacheID (c_store c ! a) then [] else [ct_CacheID (c_store c ! a)]) (Containers c))"

definition GetContainerIds :: "cache \<Rightarrow> string list" where
  "GetContainerIds c =
     concat (map (\<lambda>(i, a). if i = ct_CacheID (c_store c ! a) then [] else [ct_ID (c_store c ! a)]) (Containers c))"

definition ctr_GetPod :: "cache \<Rightarrow> container \<Rightarrow> pod option" where
  "ctr_GetPod c k = map_of (Pods c) (ct_PodID k)"

text \<open>The pretty name is computed once and kept.\<close>

definition PrettyName :: "cache \<Rightarrow> container \<Rightarrow> string" where
  "PrettyName c k =
     (if ct_prettyName k \<noteq> [] then ct_prettyName k
      else (case ctr_GetPod c k of None \<Rightarrow> ct_PodID k @ '':'' @ ct_Name k
            | Some p \<Rightarrow> po_Name p @ '':'' @ ct_Name k))"

definition ctr_GetQOSClass :: "cache \<Rightarrow> container \<Rightarrow> pod_qos" where
  "ctr_GetQOSClass c k = (case ctr_GetPod c k of None \<Rightarrow> QosNone | Some p \<Rightarrow> po_QOSClass p)"

definition GetCpusetCpus :: "container \<Rightarrow> string" where
  "GetCpusetCpus k = (case ct_LinuxReq k of None \<Rightarrow> [] | Some r \<Rightarrow> CpusetCpus r)"

section \<open>Pending changes and setters\<close>

definition cache_markPending :: "container \<Rightarrow> cache \<Rightarrow> cache" where
  "cache_markPending k c = c\<lparr>c_pending := set_add (ct_CacheID k) (c_pending c)\<rparr>"

definition clearPending :: "container \<Rightarrow> cache \<Rightarrow> cache" where
  "clearPending k c = c\<lparr>c_pending := removeAll (ct_CacheID k) (c_pending c)\<rparr>"

definition ctr_markPending :: "string list \<Rightarrow> nat \<Rightarrow> cache \<Rightarrow> cache" where
  "ctr_markPending controllers a c =
     foldl (\<lambda>c ctrl. let k = (c_store c ! a)\<lparr>ct_pending := set_add ctrl (ct_pending (c_store c ! a))\<rparr>
                     in cache_markPending k (c\<lparr>c_store := (c_store c)[a := k]\<rparr>)) c controllers"

definition ClearPending :: "string \<Rightarrow> nat \<Rightarrow> cache \<Rightarrow> cache" where
  "ClearPending controller a c =
     (let k = (c_store c ! a)\<lparr>ct_pending := removeAll controller (ct_pending (c_store c ! a))\<rparr>;
          c1 = c\<lparr>c_store := (c_store c)[a := k]\<rparr>
      in if ct_pending k = [] then clearPending k c1 else c1)"

definition GetPending :: "container \<Rightarrow> string list" where
  "GetPending k = go_sort str_less (ct_pending k)"

definition HasPending :: "container \<Rightarrow> string \<Rightarrow> bool" where
  "HasPending k controller \<longleftrightarrow> controller \<in> set (ct_pending k)"

definition GetPendingContainers :: "cache \<Rightarrow> container list option" where
  "GetPendingContainers c =
     (if c_locked c \<and> c_pending c \<noteq> [] then None
      else Some (List.map_filter (\<lambda>i. map_option (\<lambda>a. c_store c ! a) (map_of (Containers c) i)) (c_pending c)))"

text \<open>Every setter guards its value, allocates the resources when they are nil, writes one field, and marks.\<close>

definition set_field :: "(linux_resources \<Rightarrow> linux_resources) \<Rightarrow> nat \<Rightarrow> cache \<Rightarrow> cache" where
  "set_field f a c =
     (let k = c_store c ! a;
          r = (case ct_LinuxReq k of None \<Rightarrow> zero_linux_resources | Some r \<Rightarrow> r)
      in ctr_markPending [''cri''] a (c\<lparr>c_store := (c_store c)[a := k\<lparr>ct_LinuxReq := Some (f r)\<rparr>]\<rparr>))"

definition SetLinuxResources :: "linux_resources option \<Rightarrow> nat \<Rightarrow> cache \<Rightarrow> cache" where
  "SetLinuxResources req a c =
     ctr_markPending [''cri''] a (c\<lparr>c_store := (c_store c)[a := (c_store c ! a)\<lparr>ct_LinuxReq := req\<rparr>]\<rparr>)"

definition SetCPUPeriod :: "int \<Rightarrow> nat \<Rightarrow> cache \<Rightarrow> cache" where
  "SetCPUPeriod v a c = (if v < 0 then c else set_field (\<lambda>r. r\<lparr>CpuPeriod := v\<rparr>) a c)"

definition SetCPUQuota :: "int \<Rightarrow> nat \<Rightarrow> cache \<Rightarrow> cache" where
  "SetCPUQuota v a c = (if v < 0 then c else set_field (\<lambda>r. r\<lparr>CpuQuota := v\<rparr>) a c)"

definition SetCPUShares :: "int \<Rightarrow> nat \<Rightarrow> cache \<Rightarrow> cache" where
  "SetCPUShares v a c = (if v < 0 then c else set_field (\<lambda>r. r\<lparr>CpuShares := v\<rparr>) a c)"

definition SetMemoryLimit :: "int \<Rightarrow> nat \<Rightarrow> cache \<Rightarrow> cache" where
  "SetMemoryLimit v a c = (if v < 0 then c else set_field (\<lambda>r. r\<lparr>MemoryLimitInBytes := v\<rparr>) a c)"

definition SetOomScoreAdj :: "int \<Rightarrow> nat \<Rightarrow> cache \<Rightarrow> cache" where
  "SetOomScoreAdj v a c = (if v < -1000 \<or> v > 1000 then c else set_field (\<lambda>r. r\<lparr>OomScoreAdj := v\<rparr>) a c)"

definition SetCpusetCpus :: "string \<Rightarrow> nat \<Rightarrow> cache \<Rightarrow> cache" where
  "SetCpusetCpus v = set_field (\<lambda>r. r\<lparr>CpusetCpus := v\<rparr>)"

definition SetCpusetMems :: "string \<Rightarrow> nat \<Rightarrow> cache \<Rightarrow> cache" where
  "SetCpusetMems v = set_field (\<lambda>r. r\<lparr>CpusetMems := v\<rparr>)"

section \<open>Stale containers\<close>

definition alive :: "string list \<Rightarrow> string \<Rightarrow> bool" where
  "alive allContainerIds i \<longleftrightarrow>
     i \<in> set allContainerIds \<or> list_ex (\<lambda>d. has_prefix d i \<or> has_prefix i d) allContainerIds"

definition ValidateCachedContainers :: "string list \<Rightarrow> cache \<Rightarrow> (cache \<times> string list) option" where
  "ValidateCachedContainers allContainerIds = with_lock (\<lambda>c.
     (c, List.map_filter (\<lambda>(i, a). if alive allContainerIds (ct_ID (c_store c ! a)) then None
                          else Some (ct_ID (c_store c ! a))) (Containers c)))"

fun cleanup_loop :: "string list \<Rightarrow> int \<Rightarrow> cache \<Rightarrow> (cache \<times> int) option" where
  "cleanup_loop [] n c = Some (c, n)"
| "cleanup_loop (i # is) n c =
     (case DeleteContainer i c of None \<Rightarrow> None | Some (c', _) \<Rightarrow> cleanup_loop is (n + 1) c')"

definition CleanupStaleContainers :: "string list \<Rightarrow> cache \<Rightarrow> (cache \<times> int) option" where
  "CleanupStaleContainers staleContainerIds = cleanup_loop staleContainerIds 0"

section \<open>Refreshing from a list\<close>

text \<open>
  The two refresh operations lock the cache and call the operations above, which lock it again. The
  loops visit the entries present at their start.
\<close>

fun refresh_add :: "(string \<Rightarrow> string option) \<Rightarrow> string list \<Rightarrow> pod list \<Rightarrow> cache \<Rightarrow> (cache \<times> pod list) option" where
  "refresh_add status [] acc c = Some (c, acc)"
| "refresh_add status (i # items) acc c =
     (if map_of (Pods c) i \<noteq> None then refresh_add status items acc c
      else (case InsertPod i PodCri (status i) c of
              None \<Rightarrow> None
            | Some (c', Inl _) \<Rightarrow> refresh_add status items acc c'
            | Some (c', Inr p) \<Rightarrow> refresh_add status items (acc @ [p]) c'))"

fun refresh_del :: "string list \<Rightarrow> (string, pod) gomap \<Rightarrow> pod list \<Rightarrow> cache \<Rightarrow> (cache \<times> pod list) option" where
  "refresh_del valid [] acc c = Some (c, acc)"
| "refresh_del valid ((i, p) # ps) acc c =
     (if po_ID p \<in> set valid then refresh_del valid ps acc c
      else (case DeletePod (po_ID p) c of
              None \<Rightarrow> None
            | Some (c', d) \<Rightarrow> refresh_del valid ps (acc @ (case d of None \<Rightarrow> [] | Some q \<Rightarrow> [q\<lparr>po_State := PodStateStale\<rparr>])) c'))"

fun refresh_ctrs :: "(container \<Rightarrow> bool) \<Rightarrow> (string, nat) gomap \<Rightarrow> container list \<Rightarrow> cache \<Rightarrow> (cache \<times> container list) option" where
  "refresh_ctrs valid [] acc c = Some (c, acc)"
| "refresh_ctrs valid ((i, a) # ks) acc c =
     (let k = c_store c ! a in
      if valid k then refresh_ctrs valid ks acc c
      else (case DeleteContainer (ct_CacheID k) c of
              None \<Rightarrow> None
            | Some (c', _) \<Rightarrow>
                (let k' = (c_store c' ! a)\<lparr>ct_State := ContainerStateStale\<rparr>
                 in refresh_ctrs valid ks (if i = ct_CacheID k then acc @ [k'] else acc)
                      (c'\<lparr>c_store := (c_store c')[a := k']\<rparr>))))"

definition RefreshPods ::
  "string list \<Rightarrow> (string \<Rightarrow> string option) \<Rightarrow> cache \<Rightarrow> (cache \<times> pod list \<times> pod list \<times> container list) option" where
  "RefreshPods items status = with_lock_m (\<lambda>c.
     (case refresh_add status items [] c of None \<Rightarrow> None | Some (c1, add) \<Rightarrow>
        (case refresh_del items (Pods c1) [] c1 of None \<Rightarrow> None | Some (c2, del) \<Rightarrow>
           (case refresh_ctrs (\<lambda>k. ct_PodID k \<in> set items) (Containers c2) [] c2 of None \<Rightarrow> None
            | Some (c3, ks) \<Rightarrow> Some (c3, add, del, ks)))))"

fun refresh_ctr_add :: "string list \<Rightarrow> container list \<Rightarrow> cache \<Rightarrow> (cache \<times> container list) option" where
  "refresh_ctr_add [] acc c = Some (c, acc)"
| "refresh_ctr_add (i # items) acc c =
     (if map_of (Containers c) i \<noteq> None then refresh_ctr_add items acc c
      else (case InsertContainer i CtrCri c of
              None \<Rightarrow> None
            | Some (c', Inl _) \<Rightarrow> refresh_ctr_add items acc c'
            | Some (c', Inr k) \<Rightarrow> refresh_ctr_add items (acc @ [k]) c'))"

definition RefreshContainers ::
  "(string \<times> container_state) list \<Rightarrow> cache \<Rightarrow> (cache \<times> container list \<times> container list) option" where
  "RefreshContainers items = with_lock_m (\<lambda>c.
     (let valid = map fst (filter (\<lambda>(i, st). st \<noteq> ContainerStateExited) items) in
      case refresh_ctr_add valid [] c of None \<Rightarrow> None | Some (c1, add) \<Rightarrow>
        (case refresh_ctrs (\<lambda>k. ct_ID k \<in> set valid) (Containers c1) [] c1 of None \<Rightarrow> None
         | Some (c2, del) \<Rightarrow> Some (c2, add, del))))"

end
