(* ===== verification/CacheOk.thy ===== *)
theory CacheOk
  imports Cache
begin

text \<open>
  What the cache promises: the container operations implement a plain map from container IDs to
  containers (\<open>view\<close>), although the containers are shared objects behind addresses; the clean-up keeps
  exactly the containers that are alive; the setters keep every value in range; and the two refresh
  operations deadlock as soon as they have work to do.
\<close>

section \<open>Stores with keyed deletion\<close>

text \<open>What a client that removes a list of keys relies on.\<close>

locale keyed_store =
  fixes inv :: "'s \<Rightarrow> bool"
    and view :: "'s \<Rightarrow> 'k \<Rightarrow> 'v option"
    and del :: "'k \<Rightarrow> 's \<Rightarrow> 's"
  assumes del_inv: "inv s \<Longrightarrow> inv (del k s)"
    and del_view: "inv s \<Longrightarrow> view (del k s) = (view s)(k := None)"
begin

lemma del_all:
  "inv s \<Longrightarrow> inv (fold del ks s) \<and> view (fold del ks s) = (\<lambda>k. if k \<in> set ks then None else view s k)"
proof (induction ks arbitrary: s)
  case (Cons k ks)
  from Cons.IH[OF del_inv[OF Cons.prems], of k] show ?case
    by (simp add: del_view[OF Cons.prems] fun_eq_iff)
qed simp

lemma del_absent: "inv s \<Longrightarrow> \<forall>k\<in>set ks. view s k = None \<Longrightarrow> view (fold del ks s) = view s"
  using del_all[of s ks] by (auto simp: fun_eq_iff)

end

section \<open>The cache as a map\<close>

definition view :: "cache \<Rightarrow> string \<Rightarrow> container option" where
  "view c i = map_option (\<lambda>a. c_store c ! a) (map_of (Containers c) i)"

definition keyed :: "cache \<Rightarrow> bool" where
  "keyed c \<longleftrightarrow> \<not> c_locked c \<and> wf_map (Pods c) \<and> wf_map (Containers c)
     \<and> (\<forall>i a. map_of (Containers c) i = Some a \<longrightarrow>
          a < length (c_store c) \<and> i \<noteq> [] \<and> ct_ID (c_store c ! a) = i \<and> ct_CacheID (c_store c ! a) \<in> {[], i})"

lemma with_lock_free: "\<not> c_locked c \<Longrightarrow> with_lock body c =
    Some ((fst (body (c\<lparr>c_locked := True\<rparr>)))\<lparr>c_locked := False\<rparr>, snd (body (c\<lparr>c_locked := True\<rparr>)))"
  by (simp add: with_lock_def with_lock_m_def split: prod.splits)

lemma keyedD:
  assumes "keyed c"
  shows "\<not> c_locked c" "wf_map (Pods c)" "wf_map (Containers c)"
    "map_of (Containers c) i = Some a \<Longrightarrow> a < length (c_store c)"
    "map_of (Containers c) i = Some a \<Longrightarrow> ct_ID (c_store c ! a) = i"
    "map_of (Containers c) i = Some a \<Longrightarrow> ct_CacheID (c_store c ! a) = [] \<or> ct_CacheID (c_store c ! a) = i"
    "map_of (Containers c) [] = None"
  using assms by (auto simp: keyed_def) (metis option.exhaust)

lemma keyed_inj: "keyed c \<Longrightarrow> map_of (Containers c) i = Some a \<Longrightarrow> map_of (Containers c) j = Some a \<Longrightarrow> i = j"
  using keyedD(5) by metis

lemma keyed_frame:
  "keyed c \<Longrightarrow> Containers c' = Containers c \<Longrightarrow> c_store c' = c_store c \<Longrightarrow> wf_map (Pods c') \<Longrightarrow> \<not> c_locked c' \<Longrightarrow> keyed c'"
  by (simp add: keyed_def)

lemma view_frame: "Containers c' = Containers c \<Longrightarrow> c_store c' = c_store c \<Longrightarrow> view c' = view c"
  by (simp add: view_def fun_eq_iff)

lemma view_keyed: "keyed c \<Longrightarrow> view c i = Some k \<Longrightarrow> ct_ID k = i"
  using keyedD(5) by (auto simp: view_def)

subsection \<open>Insertion\<close>

lemma register_frame:
  "register p n i c = Inr c' \<Longrightarrow> Containers c' = Containers c \<and> c_store c' = c_store c \<and> c_locked c' = c_locked c
     \<and> (wf_map (Pods c) \<longrightarrow> wf_map (Pods c'))"
  by (auto simp: register_def split: option.splits if_splits)

lemma from_frame:
  "ctr_fromDockerRunRequest k m c = Inr (c', k') \<Longrightarrow> Containers c' = Containers c \<and> c_store c' = c_store c
     \<and> c_locked c' = c_locked c \<and> (wf_map (Pods c) \<longrightarrow> wf_map (Pods c')) \<and> ct_CacheID k' = ct_CacheID k"
  "ctr_fromNriContainer k n c = Inr (c', k') \<Longrightarrow> Containers c' = Containers c \<and> c_store c' = c_store c
     \<and> c_locked c' = c_locked c \<and> (wf_map (Pods c) \<longrightarrow> wf_map (Pods c')) \<and> ct_CacheID k' = ct_CacheID k"
  by (auto simp: ctr_fromDockerRunRequest_def ctr_fromNriContainer_def Let_def map_sum_def
      split: option.splits sum.splits if_splits dest!: register_frame)

lemma insert_body_ok:
  assumes "insert_body i m c = (c', Inr k)"
  shows "Containers c' = AList.update i (length (c_store c)) (Containers c) \<and> c_store c' = c_store c @ [k]
     \<and> c_locked c' = c_locked c \<and> (wf_map (Pods c) \<longrightarrow> wf_map (Pods c'))
     \<and> ct_ID k = i \<and> (ct_CacheID k = [] \<or> ct_CacheID k = i)"
proof -
  let ?made = "case m of CtrCri \<Rightarrow> Inr (c, blank_container)
    | CtrHook m \<Rightarrow> ctr_fromDockerRunRequest blank_container m c
    | CtrNri m \<Rightarrow> ctr_fromNriContainer blank_container m c
    | CtrOther \<Rightarrow> Inr (c, ctr_fromBasicInfo blank_container i)"
  from assms obtain c1 k1 where made: "?made = Inr (c1, k1)" and k: "k = k1\<lparr>ct_ID := i\<rparr>"
    and c': "c' = c1\<lparr>c_store := c_store c1 @ [k], Containers := AList.update i (length (c_store c1)) (Containers c1)\<rparr>"
    unfolding insert_body_def by (auto simp: Let_def split: sum.splits go_error.splits prod.splits)
  have "Containers c1 = Containers c \<and> c_store c1 = c_store c \<and> c_locked c1 = c_locked c
     \<and> (wf_map (Pods c) \<longrightarrow> wf_map (Pods c1)) \<and> (ct_CacheID k1 = [] \<or> ct_CacheID k1 = i)"
    using made from_frame by (cases m) (auto simp: ctr_fromBasicInfo_def blank_container_def)
  with k c' show ?thesis by simp
qed

lemma insert_body_err:
  "insert_body i m c = (c', Inl e) \<Longrightarrow> c' = c"
  unfolding insert_body_def by (auto simp: Let_def split: sum.splits go_error.splits prod.splits)

lemma InsertContainer_spec:
  assumes "keyed c" "i \<noteq> []"
  shows "\<exists>c' r. InsertContainer i m c = Some (c', r) \<and> keyed c'
     \<and> (case r of Inl _ \<Rightarrow> c' = c
        | Inr k \<Rightarrow> view c' = (view c)(i \<mapsto> k) \<and> ct_ID k = i)"
proof -
  note free = with_lock_free[OF keyedD(1)[OF assms(1)]]
  obtain c1 r where b: "insert_body i m (c\<lparr>c_locked := True\<rparr>) = (c1, r)" by fastforce
  show ?thesis
  proof (cases r)
    case (Inl e)
    from insert_body_err[OF b[unfolded Inl]] keyedD(1)[OF assms(1)] have "c1\<lparr>c_locked := False\<rparr> = c" by simp
    with assms(1) show ?thesis by (simp add: InsertContainer_def free b Inl)
  next
    case (Inr k)
    from insert_body_ok[OF b[unfolded Inr]] have
      s: "Containers c1 = AList.update i (length (c_store c)) (Containers c)" "c_store c1 = c_store c @ [k]"
        "wf_map (Pods c) \<longrightarrow> wf_map (Pods c1)" "ct_ID k = i" "ct_CacheID k = [] \<or> ct_CacheID k = i" by auto
    let ?c = "c1\<lparr>c_locked := False\<rparr>"
    have at: "map_of (Containers c) j = Some a \<Longrightarrow> a < length (c_store c)" for j a by (rule keyedD(4)[OF assms(1)])
    have v: "view ?c = (view c)(i \<mapsto> k)"
    proof
      fix j show "view ?c j = ((view c)(i \<mapsto> k)) j"
        using at[of j] by (cases "map_of (Containers c) j") (simp_all add: view_def s nth_append)
    qed
    have "keyed ?c"
      unfolding keyed_def
    proof (intro conjI allI impI)
      fix j a assume m: "map_of (Containers ?c) j = Some a"
      show "a < length (c_store ?c)" "j \<noteq> []" "ct_ID (c_store ?c ! a) = j" "ct_CacheID (c_store ?c ! a) \<in> {[], j}"
        using m assms(2) s(4,5) keyedD(4-6)[OF assms(1), of j a] keyedD(7)[OF assms(1)]
        by (auto simp: s(1,2) nth_append split: if_splits)
    qed (use keyedD(2,3)[OF assms(1)] s in simp_all)
    with v s(4) show ?thesis by (simp add: InsertContainer_def free b Inr)
  qed
qed

subsection \<open>Deletion and state changes\<close>

lemma DeleteContainer_spec:
  assumes "keyed c"
  shows "\<exists>c'. DeleteContainer i c = Some (c', view c i) \<and> keyed c' \<and> view c' = (view c)(i := None)
     \<and> Pods c' = Pods c"
proof (cases "map_of (Containers c) i")
  case None
  then have "view c = (view c)(i := None)" by (auto simp: view_def fun_eq_iff)
  moreover have "c\<lparr>c_locked := False\<rparr> = c" using keyedD(1)[OF assms] by simp
  ultimately show ?thesis
    using None assms by (simp add: DeleteContainer_def with_lock_free[OF keyedD(1)[OF assms]] delete_body_def view_def)
next
  case (Some a)
  let ?k = "c_store c ! a"
  have id: "ct_ID ?k = i" by (rule keyedD(5)[OF assms Some])
  define C where "C = AList.delete (ct_CacheID ?k) (AList.delete i (Containers c))"
  have C: "map_of C = (map_of (Containers c))(i := None)"
    using keyedD(6)[OF assms Some] keyedD(7)[OF assms] by (auto simp: C_def fun_eq_iff)
  let ?c = "c\<lparr>Containers := C, c_locked := False\<rparr>"
  have eq: "DeleteContainer i c = Some (?c, view c i)"
    using Some by (simp add: DeleteContainer_def with_lock_free[OF keyedD(1)[OF assms]] delete_body_def view_def C_def id Let_def)
  have "keyed ?c"
    using assms unfolding keyed_def by (simp add: C) (simp add: C_def)
  moreover have "view ?c = (view c)(i := None)" by (simp add: view_def C fun_eq_iff)
  ultimately show ?thesis using eq by auto
qed

lemma SetContainerState_spec:
  assumes "keyed c"
  shows "\<exists>c'. SetContainerState i st c = Some (c', ()) \<and> keyed c'
     \<and> view c' = (view c)(i := map_option (\<lambda>k. k\<lparr>ct_State := st\<rparr>) (view c i))"
proof (cases "map_of (Containers c) i")
  case None
  moreover have "c\<lparr>c_locked := False\<rparr> = c" using keyedD(1)[OF assms] by simp
  ultimately show ?thesis
    using assms by (auto simp: SetContainerState_def with_lock_free[OF keyedD(1)[OF assms]] state_body_def view_def fun_eq_iff)
next
  case (Some a)
  let ?s = "(c_store c)[a := (c_store c ! a)\<lparr>ct_State := st\<rparr>]"
  let ?c = "c\<lparr>c_store := ?s, c_locked := False\<rparr>"
  have a: "a < length (c_store c)" by (rule keyedD(4)[OF assms Some])
  have eq: "SetContainerState i st c = Some (?c, ())"
    using Some by (simp add: SetContainerState_def with_lock_free[OF keyedD(1)[OF assms]] state_body_def)
  have "keyed ?c"
    unfolding keyed_def
  proof (intro conjI allI impI)
    fix j b assume m: "map_of (Containers ?c) j = Some b"
    show "b < length (c_store ?c)" "j \<noteq> []" "ct_ID (c_store ?c ! b) = j" "ct_CacheID (c_store ?c ! b) \<in> {[], j}"
      using m a keyedD(4-6)[OF assms, of j b] keyedD(7)[OF assms] by (auto simp: nth_list_update)
  qed (use keyedD(1-3)[OF assms] in simp_all)
  moreover have "view ?c j = ((view c)(i := map_option (\<lambda>k. k\<lparr>ct_State := st\<rparr>) (view c i))) j" for j
    using a Some keyed_inj[OF assms Some, of j]
    by (cases "map_of (Containers c) j") (auto simp: view_def nth_list_update)
  ultimately show ?thesis using eq by blast
qed

lemma LookupContainer_spec:
  assumes "keyed c"
  shows "LookupContainer i c = Some (c, view c i)"
  using keyedD(1)[OF assms]
  by (simp add: LookupContainer_def with_lock_free view_def)

text \<open>Deletion as a function, for the clients of \<open>keyed_store\<close>.\<close>

definition del_ctr :: "string \<Rightarrow> cache \<Rightarrow> cache" where
  "del_ctr i c = (case DeleteContainer i c of None \<Rightarrow> c | Some (c', _) \<Rightarrow> c')"

interpretation containers: keyed_store keyed view del_ctr
proof
  fix c i assume "keyed c"
  from DeleteContainer_spec[OF this, of i] show "keyed (del_ctr i c)" "view (del_ctr i c) = (view c)(i := None)"
    by (auto simp: del_ctr_def)
qed

section \<open>Cleaning up\<close>

lemma cleanup_loop_fold:
  "keyed c \<Longrightarrow> cleanup_loop is n c = Some (fold del_ctr is c, n + int (length is))"
proof (induction "is" arbitrary: n c)
  case (Cons i "is")
  from DeleteContainer_spec[OF Cons.prems, of i] obtain c' r where
    d: "DeleteContainer i c = Some (c', r)" "keyed c'" by blast
  then have "del_ctr i c = c'" by (simp add: del_ctr_def)
  with d Cons.IH[OF d(2), of "n + 1"] show ?case by simp
qed simp

lemma Validate_spec:
  assumes "keyed c"
  shows "\<exists>stale. ValidateCachedContainers ids c = Some (c, stale)
     \<and> (\<forall>i. i \<in> set stale \<longleftrightarrow> view c i \<noteq> None \<and> \<not> alive ids i)"
proof -
  let ?f = "\<lambda>(i, a). if alive ids (ct_ID (c_store c ! a)) then None else Some (ct_ID (c_store c ! a))"
  have "ValidateCachedContainers ids c = Some (c, List.map_filter ?f (Containers c))"
    using keyedD(1)[OF assms] by (simp add: ValidateCachedContainers_def with_lock_free cong: if_cong)
  moreover have "i \<in> set (List.map_filter ?f (Containers c)) \<longleftrightarrow> view c i \<noteq> None \<and> \<not> alive ids i" for i
  proof -
    have id: "ct_ID (c_store c ! a) = j" if "(j, a) \<in> set (Containers c)" for j a
      using keyedD(5)[OF assms] keyedD(3)[OF assms] that by (simp add: wf_map_def)
    have f: "?f x = Some i \<longleftrightarrow> fst x = i \<and> \<not> alive ids i" if "x \<in> set (Containers c)" for x
      using id[of "fst x" "snd x"] that by (cases x) auto
    have "i \<in> set (List.map_filter ?f (Containers c)) \<longleftrightarrow> (\<exists>a. (i, a) \<in> set (Containers c)) \<and> \<not> alive ids i"
      by (simp add: set_map_filter_iff f cong: bex_cong) force
    then show ?thesis
      using keyedD(3)[OF assms] by (auto simp: view_def wf_map_def)
  qed
  ultimately show ?thesis by blast
qed

text \<open>The clean-up after a restart removes exactly the containers the runtime no longer lists (by equal ID,
  or by one ID being a prefix of the other): validating and cleaning up both return, every container that
  is alive stays as it was, every other one is gone, and the count is the number of stale containers.\<close>

theorem cleanup_exact:
  assumes "keyed c"
  shows "\<exists>stale c'. ValidateCachedContainers ids c = Some (c, stale)
     \<and> CleanupStaleContainers stale c = Some (c', int (length stale)) \<and> keyed c'
     \<and> view c' = (\<lambda>i. if alive ids i then view c i else None)"
proof -
  obtain stale where st: "ValidateCachedContainers ids c = Some (c, stale)"
    "\<forall>i. i \<in> set stale \<longleftrightarrow> view c i \<noteq> None \<and> \<not> alive ids i" using Validate_spec[OF assms] by blast
  note d = containers.del_all[OF assms, of stale]
  have "view (fold del_ctr stale c) = (\<lambda>i. if alive ids i then view c i else None)"
    using d st(2) by (auto simp: fun_eq_iff)
  with st(1) d show ?thesis
    by (auto simp: CleanupStaleContainers_def cleanup_loop_fold[OF assms])
qed

definition demo_pod_req :: pod_hook_request where
  "demo_pod_req = \<lparr>ph_Uid = ''u'', ph_Name = ''p'', ph_Namespace = ''default'', ph_Id = ''s'', ph_Labels = [],
     ph_Annotations = [], ph_CgroupParent = ''/kubepods.slice/kubepods-burstable.slice/kubepods-burstable-podu.slice'',
     ph_Resources = None\<rparr>"

definition demo_ctr_req :: "string \<Rightarrow> container_hook_request" where
  "demo_ctr_req i = \<lparr>ch_PodId = Some ''s'', ch_Id = i, ch_Name = i, ch_Resources = Some zero_linux_resources\<rparr>"

text \<open>A cache with one pod and the containers \<open>abc\<close> and \<open>xyz\<close>.\<close>

definition demo_cache :: cache where
  "demo_cache =
     (case InsertPod ''s'' (PodHook demo_pod_req) None new_cache of
        Some (c1, _) \<Rightarrow> (case InsertContainer ''abc'' (CtrHook (demo_ctr_req ''abc'')) c1 of
          Some (c2, _) \<Rightarrow> (case InsertContainer ''xyz'' (CtrHook (demo_ctr_req ''xyz'')) c2 of
            Some (c3, _) \<Rightarrow> c3 | None \<Rightarrow> c2) | None \<Rightarrow> c1) | None \<Rightarrow> new_cache)"

lemma keyed_new: "keyed new_cache"
  by (simp add: keyed_def new_cache_def)

lemma InsertPod_spec:
  assumes "keyed c"
  shows "\<exists>c' r. InsertPod i m status c = Some (c', r) \<and> keyed c' \<and> view c' = view c"
proof (cases "i = []")
  case False
  let ?r = "case m of PodCri \<Rightarrow> Inr (blank_pod i) | PodHook m \<Rightarrow> Inr (pod_fromDockerRunRequest (blank_pod i) m)
    | PodNri m \<Rightarrow> Inr (pod_fromNriPodSandbox (blank_pod i) m status) | PodOther \<Rightarrow> Inl (Err ''cannot create pod'')"
  show ?thesis
    using assms False keyedD(2)[OF assms]
    by (cases ?r) (auto simp: InsertPod_def with_lock_free[OF keyedD(1)[OF assms]] intro!: keyed_frame[OF assms] view_frame)
qed (use assms in \<open>simp add: InsertPod_def\<close>)

lemma demo_keyed: "keyed demo_cache"
proof -
  obtain c1 r1 where 1: "InsertPod ''s'' (PodHook demo_pod_req) None new_cache = Some (c1, r1)" "keyed c1"
    using InsertPod_spec[OF keyed_new] by blast
  obtain c2 r2 where 2: "InsertContainer ''abc'' (CtrHook (demo_ctr_req ''abc'')) c1 = Some (c2, r2)" "keyed c2"
    using InsertContainer_spec[OF 1(2), of "''abc''"] by blast
  obtain c3 r3 where 3: "InsertContainer ''xyz'' (CtrHook (demo_ctr_req ''xyz'')) c2 = Some (c3, r3)" "keyed c3"
    using InsertContainer_spec[OF 2(2), of "''xyz''"] by blast
  from 1 2 3 show ?thesis by (simp add: demo_cache_def)
qed

lemma demo_view: "map_option ct_ID (view demo_cache ''abc'') = Some ''abc''" "map_option ct_ID (view demo_cache ''xyz'') = Some ''xyz''"
  by code_simp+

theorem cleanup_exact_witness:
  "\<exists>stale c'. ValidateCachedContainers [''abcdef''] demo_cache = Some (demo_cache, stale)
     \<and> CleanupStaleContainers stale demo_cache = Some (c', int (length stale))
     \<and> view c' ''abc'' \<noteq> None \<and> view c' ''xyz'' = None"
proof -
  have a: "alive [''abcdef''] ''abc''" "\<not> alive [''abcdef''] ''xyz''" by code_simp+
  from cleanup_exact[OF demo_keyed, of "[''abcdef'']"] obtain stale c' where
    "ValidateCachedContainers [''abcdef''] demo_cache = Some (demo_cache, stale)"
    "CleanupStaleContainers stale demo_cache = Some (c', int (length stale))"
    "view c' = (\<lambda>i. if alive [''abcdef''] i then view demo_cache i else None)" by blast
  with a demo_view show ?thesis by fastforce
qed

section \<open>Refinement\<close>

text \<open>C11. The container cache is a map: on a well-keyed cache every operation returns (no operation is ever
  blocked by the lock), keeps the cache well keyed, and acts on the map from container IDs to containers as
  an insertion, a deletion, an update of one entry or a lookup, although the containers are shared objects
  behind pointers; a failed insertion changes nothing. The empty cache is well keyed.\<close>

theorem cache_implements_map:
  assumes "keyed c" "i \<noteq> []"
  shows "keyed new_cache
     \<and> (\<exists>c' r. InsertContainer i m c = Some (c', r) \<and> keyed c'
          \<and> (case r of Inl _ \<Rightarrow> c' = c | Inr k \<Rightarrow> view c' = (view c)(i \<mapsto> k) \<and> ct_ID k = i))
     \<and> (\<exists>c'. DeleteContainer i c = Some (c', view c i) \<and> keyed c' \<and> view c' = (view c)(i := None))
     \<and> (\<exists>c'. SetContainerState i st c = Some (c', ()) \<and> keyed c'
          \<and> view c' = (view c)(i := map_option (\<lambda>k. k\<lparr>ct_State := st\<rparr>) (view c i)))
     \<and> LookupContainer i c = Some (c, view c i)"
  using InsertContainer_spec[OF assms, of m] DeleteContainer_spec[OF assms(1), of i]
    SetContainerState_spec[OF assms(1), of i st] LookupContainer_spec[OF assms(1), of i] keyed_new
  by blast

theorem cache_implements_map_witness:
  "\<exists>c'. DeleteContainer ''abc'' demo_cache = Some (c', view demo_cache ''abc'')
     \<and> view c' = (view demo_cache)(''abc'' := None) \<and> view c' ''xyz'' \<noteq> None"
  using cache_implements_map[OF demo_keyed, of "''abc''" CtrOther ContainerStateRunning] demo_view by fastforce

section \<open>Refreshing deadlocks\<close>

lemma locked_blocks:
  "c_locked c \<Longrightarrow> i \<noteq> [] \<Longrightarrow> InsertPod i m s c = None"
  "c_locked c \<Longrightarrow> DeletePod i c = None"
  "c_locked c \<Longrightarrow> InsertContainer i k c = None"
  "c_locked c \<Longrightarrow> DeleteContainer i c = None"
  by (simp_all add: InsertPod_def DeletePod_def InsertContainer_def DeleteContainer_def with_lock_def with_lock_m_def)

lemma refresh_add_blocks:
  "c_locked c \<Longrightarrow> \<exists>i\<in>set items. i \<noteq> [] \<and> map_of (Pods c) i = None \<Longrightarrow> refresh_add status items acc c = None"
proof (induction items arbitrary: acc)
  case (Cons i items)
  show ?case
  proof (cases "map_of (Pods c) i = None \<and> i \<noteq> []")
    case True
    then show ?thesis using Cons.prems(1) by (simp add: locked_blocks)
  next
    case False
    with Cons.prems(2) have "\<exists>i\<in>set items. i \<noteq> [] \<and> map_of (Pods c) i = None" by auto
    from Cons.IH[OF Cons.prems(1) this] False show ?thesis by (auto simp: InsertPod_def)
  qed
qed simp

lemma refresh_add_known:
  "\<forall>i\<in>set items. map_of (Pods c) i \<noteq> None \<Longrightarrow> refresh_add status items acc c = Some (c, acc)"
  by (induction items) auto

lemma refresh_del_blocks:
  "c_locked c \<Longrightarrow> \<exists>(i, p)\<in>set ps. po_ID p \<notin> set valid \<Longrightarrow> refresh_del valid ps acc c = None"
  by (induction ps) (auto simp: locked_blocks, blast)

text \<open>C12. Refreshing the pods from a list locks the cache and then calls operations that lock it again: the
  call never returns as soon as there is something to refresh, that is a listed pod (with an ID) that is not
  cached, or a cached pod that is not listed.\<close>

theorem refresh_pods_deadlocks:
  assumes "(\<exists>i\<in>set items. i \<noteq> [] \<and> map_of (Pods c) i = None)
     \<or> ((\<forall>i\<in>set items. map_of (Pods c) i \<noteq> None) \<and> (\<exists>(i, p)\<in>set (Pods c). po_ID p \<notin> set items))"
  shows "RefreshPods items status c = None"
proof (cases "c_locked c")
  case False
  let ?c = "c\<lparr>c_locked := True\<rparr>"
  from assms show ?thesis
  proof
    assume "\<exists>i\<in>set items. i \<noteq> [] \<and> map_of (Pods c) i = None"
    then have "refresh_add status items [] ?c = None" by (intro refresh_add_blocks) auto
    then show ?thesis by (simp add: RefreshPods_def with_lock_m_def)
  next
    assume a: "(\<forall>i\<in>set items. map_of (Pods c) i \<noteq> None) \<and> (\<exists>(i, p)\<in>set (Pods c). po_ID p \<notin> set items)"
    then have "refresh_add status items [] ?c = Some (?c, [])" by (intro refresh_add_known) auto
    moreover have "refresh_del items (Pods ?c) [] ?c = None" by (rule refresh_del_blocks) (use a in auto)
    ultimately show ?thesis by (simp add: RefreshPods_def with_lock_m_def)
  qed
qed (simp add: RefreshPods_def with_lock_m_def)

theorem refresh_pods_deadlocks_witness: "RefreshPods [''new''] (\<lambda>_. None) new_cache = None"
  by (rule refresh_pods_deadlocks) (simp add: new_cache_def)

end
