(* ===== verification/CacheLoad.thy ===== *)
theory CacheLoad
  imports CacheOk
begin

text \<open>
  Filling the cache after a restart (\<^verbatim>\<open>pkg/kunpeng-tap/cache/utils.go\<close>) from the container runtime, and the
  helpers of \<^verbatim>\<open>pkg/kunpeng-tap/server/docker/utils/utils.go\<close> it uses. The answers of the runtime (its lists
  and the JSON it keeps for a sandbox or a container) are parameters; \<open>None\<close> is a failed call or a text that
  does not decode.
\<close>

section \<open>Docker's labels, paths and resources\<close>

definition GetRuntimeResourceType :: "(string, string) gomap \<Rightarrow> bool" where
  "GetRuntimeResourceType labels \<longleftrightarrow> map_of labels ''io.kubernetes.docker.type'' = Some ''podsandbox''"

definition SplitLabelsAndAnnotations ::
  "(string, string) gomap \<Rightarrow> (string, string) gomap \<times> (string, string) gomap" where
  "SplitLabelsAndAnnotations configs =
     foldl (\<lambda>(labels, annos) (k, v).
        if has_prefix k ''annotation.'' then (labels, AList.update (trim_prefix k ''annotation.'') v annos)
        else (AList.update k v labels, annos)) ([], []) configs"

record host_config =
  hc_CPUPeriod :: int
  hc_CPUQuota :: int
  hc_CPUShares :: int
  hc_Memory :: int
  hc_OomScoreAdj :: int
  hc_CpusetCpus :: string
  hc_CpusetMems :: string
  hc_MemorySwap :: int
  hc_CgroupParent :: string

definition HostConfigToResource :: "host_config option \<Rightarrow> linux_resources option" where
  "HostConfigToResource config = map_option (\<lambda>h.
     \<lparr>CpuPeriod = hc_CPUPeriod h, CpuQuota = hc_CPUQuota h, CpuShares = hc_CPUShares h,
      MemoryLimitInBytes = hc_Memory h, OomScoreAdj = hc_OomScoreAdj h, CpusetCpus = hc_CpusetCpus h,
      CpusetMems = hc_CpusetMems h, MemorySwapLimitInBytes = hc_MemorySwap h\<rparr>) config"

definition UpdateHostConfigByResource :: "host_config option \<Rightarrow> linux_resources option \<Rightarrow> host_config option" where
  "UpdateHostConfigByResource config resources =
     (case (config, resources) of
        (Some h, Some r) \<Rightarrow>
          Some (h\<lparr>hc_CPUPeriod := CpuPeriod r, hc_CPUQuota := CpuQuota r, hc_CPUShares := CpuShares r,
                  hc_Memory := MemoryLimitInBytes r, hc_OomScoreAdj := OomScoreAdj r,
                  hc_CpusetCpus := CpusetCpus r, hc_CpusetMems := CpusetMems r,
                  hc_MemorySwap := MemorySwapLimitInBytes r\<rparr>)
      | _ \<Rightarrow> config)"

definition SplitDockerEnv :: "string list \<Rightarrow> (string, string) gomap" where
  "SplitDockerEnv dockerEnvs =
     foldl (\<lambda>res str. case go_splitn2 ''='' str of [k, v] \<Rightarrow> AList.update k v res | _ \<Rightarrow> res) [] dockerEnvs"

definition GenerateEnvList :: "(string, string) gomap \<Rightarrow> string list" where
  "GenerateEnvList envs = map (\<lambda>(k, v). k @ ''='' @ v) envs"

definition ContainerdEnvConvert :: "(string \<times> string) option list \<Rightarrow> (string, string) gomap" where
  "ContainerdEnvConvert envs =
     foldl (\<lambda>env e. case e of None \<Rightarrow> env | Some (k, v) \<Rightarrow> AList.update k v env) [] envs"

fun slice_path :: "string \<Rightarrow> string \<Rightarrow> string list \<Rightarrow> string \<times> string" where
  "slice_path full pre [] = (full, pre)"
| "slice_path full pre (h # hs) = slice_path (path_join [full, pre @ ''.slice'']) (pre @ ''-'' @ h) hs"

definition ToCriCgroupPath :: "string \<Rightarrow> string \<Rightarrow> string" where
  "ToCriCgroupPath cgroupDriver cgroupParent =
     (if cgroupDriver \<noteq> ''systemd'' then cgroupParent
      else if cgroupParent = [] then cgroupParent
      else (let hs = go_split ''-'' cgroupParent in
            case slice_path ''/'' (hd hs) (tl hs) of (full, pre) \<Rightarrow> path_join [full, pre]))"

definition GenerateExpectedCgroupParent :: "string \<Rightarrow> string \<Rightarrow> string" where
  "GenerateExpectedCgroupParent cgroupDriver cgroupParent =
     (if cgroupParent \<noteq> [] \<and> cgroupDriver = ''systemd'' then path_base cgroupParent else cgroupParent)"

section \<open>Loading from Docker\<close>

record docker_item =
  di_ID :: string
  di_Name :: string
  di_Labels :: "(string, string) gomap"
  di_HostConfig :: host_config

text \<open>A sandbox is inserted with its container ID as its UID; the first failure ends the load.\<close>

fun docker_pods :: "string \<Rightarrow> docker_item list \<Rightarrow> cache \<Rightarrow> (cache \<times> unit result) option" where
  "docker_pods driver [] c = Some (c, Inr ())"
| "docker_pods driver (s # ss) c =
     (case SplitLabelsAndAnnotations (di_Labels s) of (labels, annos) \<Rightarrow>
        (case InsertPod (di_ID s)
           (PodHook \<lparr>ph_Uid = di_ID s, ph_Name = di_Name s, ph_Namespace = [], ph_Id = [], ph_Labels = labels,
              ph_Annotations = annos, ph_CgroupParent = ToCriCgroupPath driver (hc_CgroupParent (di_HostConfig s)),
              ph_Resources = HostConfigToResource (Some (di_HostConfig s))\<rparr>) None c of
           None \<Rightarrow> None
         | Some (c', Inl e) \<Rightarrow> Some (c', Inl e)
         | Some (c', Inr _) \<Rightarrow> docker_pods driver ss c'))"

text \<open>The metadata of the pod that is put into the request carries its name, UID and namespace, no ID.\<close>

fun docker_ctrs :: "docker_item list \<Rightarrow> cache \<Rightarrow> (cache \<times> unit result) option" where
  "docker_ctrs [] c = Some (c, Inr ())"
| "docker_ctrs (k # ks) c =
     (case LookupPod (case map_of (di_Labels k) ''io.kubernetes.sandbox.id'' of None \<Rightarrow> [] | Some i \<Rightarrow> i) c of
        None \<Rightarrow> None
      | Some (c1, pod) \<Rightarrow>
          (case InsertContainer (di_ID k)
             (CtrHook \<lparr>ch_PodId = (case pod of None \<Rightarrow> None | Some _ \<Rightarrow> Some []), ch_Id = di_ID k,
                ch_Name = di_Name k, ch_Resources = HostConfigToResource (Some (di_HostConfig k))\<rparr>) c1 of
             None \<Rightarrow> None
           | Some (c2, Inl e) \<Rightarrow> Some (c2, Inl e)
           | Some (c2, Inr _) \<Rightarrow> docker_ctrs ks c2))"

definition LoadStoreDocker ::
  "string list option \<Rightarrow> (string \<Rightarrow> docker_item option) \<Rightarrow> string \<Rightarrow> cache \<Rightarrow> (cache \<times> unit result) option" where
  "LoadStoreDocker containerList inspect driver c =
     (case containerList of
        None \<Rightarrow> Some (c, Inl (Err ''container list''))
      | Some cs \<Rightarrow>
          (let items = List.map_filter inspect cs;
               sandboxes = filter (\<lambda>d. GetRuntimeResourceType (di_Labels d)) items;
               containers = filter (\<lambda>d. \<not> GetRuntimeResourceType (di_Labels d)) items
           in case docker_pods driver sandboxes c of
                None \<Rightarrow> None
              | Some (c1, Inl e) \<Rightarrow> Some (c1, Inl e)
              | Some (c1, Inr _) \<Rightarrow> docker_ctrs containers c1))"

section \<open>Loading from containerd\<close>

record sandbox_item =
  si_Id :: string
  si_Labels :: "(string, string) gomap"
  si_Annotations :: "(string, string) gomap"
  si_Name :: string
  si_Namespace :: string
  si_Uid :: string

text \<open>The decoded information of a sandbox: the cgroup parent of its configuration, if it has one, and the
  runtime specification with its annotations.\<close>

record sandbox_info =
  sb_ConfigParent :: "string option"
  sb_RuntimeSpec :: "(oci_spec \<times> (string, string) gomap) option"

record ctr_item =
  ci_Id :: string
  ci_PodSandboxId :: string
  ci_Name :: string
  ci_State :: container_state

definition sandbox_parent :: "sandbox_info \<Rightarrow> string" where
  "sandbox_parent info =
     (case sb_ConfigParent info of
        Some p \<Rightarrow> p
      | None \<Rightarrow> (case sb_RuntimeSpec info of
                   None \<Rightarrow> []
                 | Some (_, annos) \<Rightarrow> (case map_of annos ''io.kubernetes.cri-o.CgroupParent'' of None \<Rightarrow> [] | Some p \<Rightarrow> p)))"

definition processPodSandbox ::
  "(string \<Rightarrow> sandbox_info option) \<Rightarrow> sandbox_item \<Rightarrow> cache \<Rightarrow> (cache \<times> unit result) option" where
  "processPodSandbox status pod c =
     (case status (si_Id pod) of
        None \<Rightarrow> Some (c, Inl (Err ''pod details''))
      | Some info \<Rightarrow>
          (case InsertPod (si_Id pod)
             (PodHook \<lparr>ph_Uid = si_Uid pod, ph_Name = si_Name pod, ph_Namespace = si_Namespace pod, ph_Id = [],
                ph_Labels = si_Labels pod, ph_Annotations = si_Annotations pod,
                ph_CgroupParent = sandbox_parent info,
                ph_Resources = RuntimeSpecToResource (map_option fst (sb_RuntimeSpec info))\<rparr>) None c of
             None \<Rightarrow> None
           | Some (c', Inl e) \<Rightarrow> Some (c', Inl e)
           | Some (c', Inr _) \<Rightarrow> Some (c', Inr ())))"

definition processContainer ::
  "(string \<Rightarrow> oci_spec option option) \<Rightarrow> ctr_item \<Rightarrow> cache \<Rightarrow> (cache \<times> unit result) option" where
  "processContainer status k c =
     (case status (ci_Id k) of
        None \<Rightarrow> Some (c, Inl (Err ''container details''))
      | Some spec \<Rightarrow>
          (case LookupPod (ci_PodSandboxId k) c of
             None \<Rightarrow> None
           | Some (c1, pod) \<Rightarrow>
               (case InsertContainer (ci_Id k)
                  (CtrHook \<lparr>ch_PodId = (case pod of None \<Rightarrow> None | Some _ \<Rightarrow> Some (ci_PodSandboxId k)),
                     ch_Id = ci_Id k, ch_Name = ci_Name k, ch_Resources = RuntimeSpecToResource spec\<rparr>) c1 of
                  None \<Rightarrow> None
                | Some (c2, Inl e) \<Rightarrow> Some (c2, Inl e)
                | Some (c2, Inr _) \<Rightarrow>
                    (case SetContainerState (ci_Id k) (ci_State k) c2 of
                       None \<Rightarrow> None | Some (c3, _) \<Rightarrow> Some (c3, Inr ())))))"

text \<open>The loops go on after a failure.\<close>

fun each_item :: "('i \<Rightarrow> cache \<Rightarrow> (cache \<times> unit result) option) \<Rightarrow> 'i list \<Rightarrow> cache \<Rightarrow> cache option" where
  "each_item f [] c = Some c"
| "each_item f (x # xs) c = (case f x c of None \<Rightarrow> None | Some (c', _) \<Rightarrow> each_item f xs c')"

text \<open>The second list is what the runtime answers to the filter on running containers.\<close>

definition LoadStoreContainerd ::
  "sandbox_item list option \<Rightarrow> (string \<Rightarrow> sandbox_info option) \<Rightarrow> ctr_item list option
   \<Rightarrow> (string \<Rightarrow> oci_spec option option) \<Rightarrow> cache \<Rightarrow> (cache \<times> unit result) option" where
  "LoadStoreContainerd sandboxes podStatus containers ctrStatus c =
     (case sandboxes of
        None \<Rightarrow> Some (c, Inl (Err ''list pods''))
      | Some ss \<Rightarrow>
          (case each_item (processPodSandbox podStatus) ss c of
             None \<Rightarrow> None
           | Some c1 \<Rightarrow>
               (case containers of
                  None \<Rightarrow> Some (c1, Inl (Err ''list containers''))
                | Some ks \<Rightarrow>
                    (case each_item (processContainer ctrStatus) ks c1 of
                       None \<Rightarrow> None | Some c2 \<Rightarrow> Some (c2, Inr ())))))"

section \<open>What is loaded\<close>

text \<open>Every pod of the cache was made from a hook or NRI message: its container map exists, its key is not empty.\<close>

definition pods_made :: "cache \<Rightarrow> bool" where
  "pods_made c \<longleftrightarrow> (\<forall>i p. map_of (Pods c) i = Some p \<longrightarrow> i \<noteq> [] \<and> po_containers p \<noteq> None)"

lemma new_cache_facts:
  "keyed new_cache" "pods_made new_cache" "view new_cache = (\<lambda>_. None)" "dom (map_of (Pods new_cache)) = {}"
  by (rule keyed_new) (simp_all add: pods_made_def view_def new_cache_def fun_eq_iff)

lemma made_containers: "po_containers (pod_fromDockerRunRequest p m) = Some []"
  by (simp add: pod_fromDockerRunRequest_def set_qos_def split: option.splits)

lemma insert_hook_pod:
  assumes "keyed c" "pods_made c" "i \<noteq> []"
  shows "\<exists>c' p. InsertPod i (PodHook m) None c = Some (c', Inr p) \<and> keyed c' \<and> pods_made c' \<and> view c' = view c
     \<and> dom (map_of (Pods c')) = insert i (dom (map_of (Pods c)))"
proof -
  let ?p = "pod_fromDockerRunRequest (blank_pod i) m"
  let ?c = "c\<lparr>Pods := AList.update i ?p (Pods c), c_locked := False\<rparr>"
  have "InsertPod i (PodHook m) None c = Some (?c, Inr ?p)"
    using assms(3) by (simp add: InsertPod_def with_lock_free[OF keyedD(1)[OF assms(1)]])
  moreover have "keyed ?c"
    by (rule keyed_frame[OF assms(1)]) (use keyedD(2)[OF assms(1)] in simp_all)
  moreover have "pods_made ?c"
    using assms(2,3) by (auto simp: pods_made_def made_containers)
  moreover have "view ?c = view c" by (rule view_frame) simp_all
  ultimately show ?thesis by auto
qed

lemma LookupPod_keyed: "keyed c \<Longrightarrow> LookupPod i c = Some (c, map_of (Pods c) i)"
  using keyedD(1)[of c] by (simp add: LookupPod_def with_lock_free)

definition loaded_pods :: "(string \<Rightarrow> sandbox_info option) \<Rightarrow> sandbox_item list \<Rightarrow> string set" where
  "loaded_pods st ss = set (filter (\<lambda>i. i \<noteq> [] \<and> st i \<noteq> None) (map si_Id ss))"

lemma loaded_pods_simps [simp]:
  "loaded_pods st [] = {}"
  "loaded_pods st (s # ss) = (if si_Id s \<noteq> [] \<and> st (si_Id s) \<noteq> None then insert (si_Id s) (loaded_pods st ss) else loaded_pods st ss)"
  by (simp_all add: loaded_pods_def)

lemma pods_loop:
  assumes "keyed c" "pods_made c"
  shows "\<exists>c'. each_item (processPodSandbox st) ss c = Some c' \<and> keyed c' \<and> pods_made c' \<and> view c' = view c
     \<and> dom (map_of (Pods c')) = dom (map_of (Pods c)) \<union> loaded_pods st ss"
  using assms
proof (induction ss arbitrary: c)
  case (Cons s ss)
  show ?case
  proof (cases "si_Id s \<noteq> [] \<and> st (si_Id s) \<noteq> None")
    case False
    then have "\<exists>e. processPodSandbox st s c = Some (c, Inl e)"
      by (auto simp: processPodSandbox_def InsertPod_def split: option.splits)
    then obtain e where "processPodSandbox st s c = Some (c, Inl e)" ..
    with Cons.IH[OF Cons.prems] False show ?thesis by auto
  next
    case True
    then obtain info where info: "st (si_Id s) = Some info" "si_Id s \<noteq> []" by auto
    obtain c1 p where
      1: "InsertPod (si_Id s) (PodHook \<lparr>ph_Uid = si_Uid s, ph_Name = si_Name s, ph_Namespace = si_Namespace s, ph_Id = [],
                ph_Labels = si_Labels s, ph_Annotations = si_Annotations s, ph_CgroupParent = sandbox_parent info,
                ph_Resources = RuntimeSpecToResource (map_option fst (sb_RuntimeSpec info))\<rparr>) None c = Some (c1, Inr p)"
        "keyed c1" "pods_made c1" "view c1 = view c" "dom (map_of (Pods c1)) = insert (si_Id s) (dom (map_of (Pods c)))"
      using insert_hook_pod[OF Cons.prems info(2)] by blast
    then have "processPodSandbox st s c = Some (c1, Inr ())" by (simp add: processPodSandbox_def info(1))
    with Cons.IH[OF 1(2,3)] 1(4,5) True show ?thesis by auto
  qed
qed simp

lemma register_made:
  assumes "pods_made c" "map_of (Pods c) i = Some p"
  shows "\<exists>c'. register i n j c = Inr c' \<and> pods_made c' \<and> dom (map_of (Pods c')) = dom (map_of (Pods c))"
  using assms by (auto simp: register_def pods_made_def split: option.splits)

lemma pods_made_frame: "Pods c' = Pods c \<Longrightarrow> pods_made c' = pods_made c"
  by (simp add: pods_made_def)

lemma insert_hook_ctr:
  assumes "keyed c" "pods_made c" "map_of (Pods c) pid = Some p" "i \<noteq> []"
  shows "\<exists>c' k. InsertContainer i (CtrHook \<lparr>ch_PodId = Some pid, ch_Id = i, ch_Name = n, ch_Resources = r\<rparr>) c = Some (c', Inr k)
     \<and> keyed c' \<and> pods_made c' \<and> dom (map_of (Pods c')) = dom (map_of (Pods c)) \<and> view c' = (view c)(i \<mapsto> k)
     \<and> ct_ID k = i \<and> ct_PodID k = pid \<and> ct_Name k = n \<and> ct_LinuxReq k = r"
proof -
  let ?m = "CtrHook \<lparr>ch_PodId = Some pid, ch_Id = i, ch_Name = n, ch_Resources = r\<rparr>"
  let ?c = "c\<lparr>c_locked := True\<rparr>"
  have "pods_made ?c" "map_of (Pods ?c) pid = Some p" using assms(2,3) by (simp_all add: pods_made_def)
  from register_made[OF this, of n i] obtain c1 where
    1: "register pid n i ?c = Inr c1" "pods_made c1" "dom (map_of (Pods c1)) = dom (map_of (Pods c))" by auto
  obtain c2 k where b: "insert_body i ?m ?c = (c2, Inr k)" "Pods c2 = Pods c1" "ct_PodID k = pid" "ct_Name k = n" "ct_LinuxReq k = r"
    using 1(1) assms(3) by (simp add: insert_body_def ctr_fromDockerRunRequest_def Let_def blank_container_def)
  have eq: "InsertContainer i ?m c = Some (c2\<lparr>c_locked := False\<rparr>, Inr k)"
    by (simp add: InsertContainer_def with_lock_free[OF keyedD(1)[OF assms(1)]] b(1))
  with InsertContainer_spec[OF assms(1,4), of ?m] have "keyed (c2\<lparr>c_locked := False\<rparr>)"
    "view (c2\<lparr>c_locked := False\<rparr>) = (view c)(i \<mapsto> k)" "ct_ID k = i" by auto
  moreover have "pods_made (c2\<lparr>c_locked := False\<rparr>)" using 1(2) b(2) by (simp add: pods_made_def)
  ultimately show ?thesis using eq 1(3) b by auto
qed

lemma state_pods:
  assumes "keyed c" "SetContainerState i st c = Some (c', u)"
  shows "Pods c' = Pods c"
  using assms(2) by (auto simp: SetContainerState_def with_lock_free[OF keyedD(1)[OF assms(1)]] state_body_def split: option.splits)

definition ctr_loads :: "(string \<Rightarrow> oci_spec option option) \<Rightarrow> string set \<Rightarrow> ctr_item \<Rightarrow> bool" where
  "ctr_loads st pods k \<longleftrightarrow> st (ci_Id k) \<noteq> None \<and> ci_PodSandboxId k \<in> pods"

definition loaded_as :: "(string \<Rightarrow> oci_spec option option) \<Rightarrow> ctr_item \<Rightarrow> container \<Rightarrow> bool" where
  "loaded_as st k x \<longleftrightarrow> ct_ID x = ci_Id k \<and> ct_PodID x = ci_PodSandboxId k \<and> ct_Name x = ci_Name k
     \<and> ct_State x = ci_State k \<and> ct_LinuxReq x = RuntimeSpecToResource (the (st (ci_Id k)))"

lemma processContainer_spec:
  assumes "keyed c" "pods_made c" "ci_Id k \<noteq> []"
  shows "\<exists>c' r. processContainer st k c = Some (c', r) \<and> keyed c' \<and> pods_made c' \<and> dom (map_of (Pods c')) = dom (map_of (Pods c))
     \<and> (if ctr_loads st (dom (map_of (Pods c))) k then \<exists>x. view c' = (view c)(ci_Id k \<mapsto> x) \<and> loaded_as st k x
        else view c' = view c)"
proof (cases "st (ci_Id k)")
  case None
  then show ?thesis using assms by (simp add: processContainer_def ctr_loads_def)
next
  case (Some spec)
  note lk = LookupPod_keyed[OF assms(1), of "ci_PodSandboxId k"]
  show ?thesis
  proof (cases "map_of (Pods c) (ci_PodSandboxId k)")
    case None
    have "map_of (Pods c) [] = None" using assms(2) by (auto simp: pods_made_def) (metis option.exhaust)
    then have "InsertContainer (ci_Id k) (CtrHook \<lparr>ch_PodId = None, ch_Id = ci_Id k, ch_Name = ci_Name k,
        ch_Resources = RuntimeSpecToResource spec\<rparr>) c = Some (c, Inl (Err ''failed to insert container''))"
      using keyedD(1)[OF assms(1)]
      by (simp add: InsertContainer_def with_lock_free insert_body_def ctr_fromDockerRunRequest_def Let_def blank_container_def)
    then show ?thesis using assms None Some lk by (simp add: processContainer_def ctr_loads_def domIff)
  next
    case (Some p)
    from insert_hook_ctr[OF assms(1,2) Some assms(3), of "ci_Name k" "RuntimeSpecToResource spec"] obtain c1 x where
      1: "InsertContainer (ci_Id k) (CtrHook \<lparr>ch_PodId = Some (ci_PodSandboxId k), ch_Id = ci_Id k, ch_Name = ci_Name k,
            ch_Resources = RuntimeSpecToResource spec\<rparr>) c = Some (c1, Inr x)"
        "keyed c1" "pods_made c1" "dom (map_of (Pods c1)) = dom (map_of (Pods c))" "view c1 = (view c)(ci_Id k \<mapsto> x)"
        "ct_ID x = ci_Id k" "ct_PodID x = ci_PodSandboxId k" "ct_Name x = ci_Name k" "ct_LinuxReq x = RuntimeSpecToResource spec"
      by blast
    from SetContainerState_spec[OF 1(2), of "ci_Id k" "ci_State k"] obtain c2 where
      2: "SetContainerState (ci_Id k) (ci_State k) c1 = Some (c2, ())" "keyed c2"
        "view c2 = (view c1)(ci_Id k := map_option (\<lambda>k'. k'\<lparr>ct_State := ci_State k\<rparr>) (view c1 (ci_Id k)))" by blast
    have pods: "Pods c2 = Pods c1" by (rule state_pods[OF 1(2) 2(1)])
    have "processContainer st k c = Some (c2, Inr ())"
      using \<open>st (ci_Id k) = Some spec\<close> Some lk 1(1) 2(1) by (simp add: processContainer_def)
    moreover have "view c2 = (view c)(ci_Id k \<mapsto> x\<lparr>ct_State := ci_State k\<rparr>)" by (simp add: 2(3) 1(5))
    moreover have "loaded_as st k (x\<lparr>ct_State := ci_State k\<rparr>)"
      using 1(6-9) \<open>st (ci_Id k) = Some spec\<close> by (simp add: loaded_as_def)
    moreover have "pods_made c2" using 1(3) pods pods_made_frame by metis
    moreover have "ctr_loads st (dom (map_of (Pods c))) k"
      using Some \<open>st (ci_Id k) = Some spec\<close> by (simp add: ctr_loads_def domIff)
    ultimately show ?thesis using 2(2) 1(4) pods by auto
  qed
qed

lemma ctrs_loop:
  assumes "keyed c" "pods_made c" "\<forall>k\<in>set ks. ci_Id k \<noteq> []" "distinct (map ci_Id ks)"
  shows "\<exists>c'. each_item (processContainer st) ks c = Some c' \<and> keyed c' \<and> dom (map_of (Pods c')) = dom (map_of (Pods c))
     \<and> (\<forall>k\<in>set ks. ctr_loads st (dom (map_of (Pods c))) k \<longrightarrow> (\<exists>x. view c' (ci_Id k) = Some x \<and> loaded_as st k x))
     \<and> (\<forall>i. (\<forall>k\<in>set ks. ci_Id k = i \<longrightarrow> \<not> ctr_loads st (dom (map_of (Pods c))) k) \<longrightarrow> view c' i = view c i)"
  using assms
proof (induction ks arbitrary: c)
  case (Cons k ks)
  let ?L = "ctr_loads st (dom (map_of (Pods c)))"
  have "ci_Id k \<noteq> []" using Cons.prems(3) by simp
  from processContainer_spec[OF Cons.prems(1,2) this, of st] obtain c1 r where
    1: "processContainer st k c = Some (c1, r)" "keyed c1" "pods_made c1" "dom (map_of (Pods c1)) = dom (map_of (Pods c))"
      "if ?L k then \<exists>x. view c1 = (view c)(ci_Id k \<mapsto> x) \<and> loaded_as st k x else view c1 = view c" by blast
  have "\<forall>k\<in>set ks. ci_Id k \<noteq> []" "distinct (map ci_Id ks)" using Cons.prems(3,4) by auto
  from Cons.IH[OF 1(2,3) this] obtain c2 where
    2: "each_item (processContainer st) ks c1 = Some c2" "keyed c2" "dom (map_of (Pods c2)) = dom (map_of (Pods c))"
      "\<forall>k\<in>set ks. ?L k \<longrightarrow> (\<exists>x. view c2 (ci_Id k) = Some x \<and> loaded_as st k x)"
      "\<forall>i. (\<forall>k\<in>set ks. ci_Id k = i \<longrightarrow> \<not> ?L k) \<longrightarrow> view c2 i = view c1 i" unfolding 1(4) by blast
  have fresh: "\<forall>k'\<in>set ks. ci_Id k' \<noteq> ci_Id k" using Cons.prems(4) by (auto simp: image_iff)
  then have same: "view c2 (ci_Id k) = view c1 (ci_Id k)" using 2(5) by blast
  have head: "?L k \<Longrightarrow> \<exists>x. view c2 (ci_Id k) = Some x \<and> loaded_as st k x" using 1(5) same by (auto split: if_splits)
  have rest: "view c2 i = view c i" if "\<forall>k'\<in>set (k # ks). ci_Id k' = i \<longrightarrow> \<not> ?L k'" for i
  proof -
    have "view c2 i = view c1 i" using 2(5) that by (meson list.set_intros(2))
    moreover have "view c1 i = view c i" using 1(5) that by (cases "ci_Id k = i") (auto split: if_splits)
    ultimately show ?thesis by simp
  qed
  have "each_item (processContainer st) (k # ks) c = Some c2" using 1(1) 2(1) by simp
  moreover have "\<forall>k'\<in>set (k # ks). ?L k' \<longrightarrow> (\<exists>x. view c2 (ci_Id k') = Some x \<and> loaded_as st k' x)" using head 2(4) by simp
  ultimately show ?case using 2(2,3) rest by blast
qed simp

text \<open>After a restart the cache holds exactly what containerd reports: loading into an empty cache returns
  without an error, and a container is cached if and only if it is listed, its status decodes, and its sandbox is
  listed and decodes; it is then cached with the listed state (not the state of a container being created),
  name and sandbox and with the resources of its runtime specification.\<close>

theorem containerd_load_exact:
  assumes "\<forall>k\<in>set ks. ci_Id k \<noteq> []" "distinct (map ci_Id ks)"
  shows "\<exists>c. LoadStoreContainerd (Some ss) podStatus (Some ks) ctrStatus new_cache = Some (c, Inr ()) \<and> keyed c
     \<and> dom (map_of (Pods c)) = loaded_pods podStatus ss
     \<and> (\<forall>k\<in>set ks. ctr_loads ctrStatus (loaded_pods podStatus ss) k \<longrightarrow>
          (\<exists>x. view c (ci_Id k) = Some x \<and> loaded_as ctrStatus k x))
     \<and> (\<forall>i. view c i \<noteq> None \<longrightarrow> (\<exists>k\<in>set ks. ci_Id k = i \<and> ctr_loads ctrStatus (loaded_pods podStatus ss) k))"
proof -
  have n: "keyed new_cache" "pods_made new_cache" "view new_cache = (\<lambda>_. None)" "dom (map_of (Pods new_cache)) = {}"
    by (rule new_cache_facts)+
  from pods_loop[OF n(1,2), of podStatus ss] n(3,4) obtain c1 where
    1: "each_item (processPodSandbox podStatus) ss new_cache = Some c1" "keyed c1" "pods_made c1"
      "view c1 = (\<lambda>_. None)" "dom (map_of (Pods c1)) = loaded_pods podStatus ss" by auto
  from ctrs_loop[OF 1(2,3) assms, of ctrStatus] obtain c2 where
    2: "each_item (processContainer ctrStatus) ks c1 = Some c2" "keyed c2" "dom (map_of (Pods c2)) = loaded_pods podStatus ss"
      "\<forall>k\<in>set ks. ctr_loads ctrStatus (loaded_pods podStatus ss) k \<longrightarrow> (\<exists>x. view c2 (ci_Id k) = Some x \<and> loaded_as ctrStatus k x)"
      "\<forall>i. (\<forall>k\<in>set ks. ci_Id k = i \<longrightarrow> \<not> ctr_loads ctrStatus (loaded_pods podStatus ss) k) \<longrightarrow> view c2 i = view c1 i"
    unfolding 1(5) by blast
  have "LoadStoreContainerd (Some ss) podStatus (Some ks) ctrStatus new_cache = Some (c2, Inr ())"
    by (simp add: LoadStoreContainerd_def 1(1) 2(1))
  moreover have "\<forall>i. view c2 i \<noteq> None \<longrightarrow> (\<exists>k\<in>set ks. ci_Id k = i \<and> ctr_loads ctrStatus (loaded_pods podStatus ss) k)"
    using 2(5) unfolding 1(4) by metis
  ultimately show ?thesis using 2(2-4) by blast
qed

theorem containerd_load_exact_witness:
  "\<exists>c x. LoadStoreContainerd (Some [\<lparr>si_Id = ''s'', si_Labels = [], si_Annotations = [], si_Name = ''p'', si_Namespace = ''n'', si_Uid = ''u''\<rparr>])
       (\<lambda>_. Some \<lparr>sb_ConfigParent = Some ''/kubepods/podu'', sb_RuntimeSpec = None\<rparr>)
       (Some [\<lparr>ci_Id = ''c'', ci_PodSandboxId = ''s'', ci_Name = ''k'', ci_State = ContainerStateRunning\<rparr>,
              \<lparr>ci_Id = ''d'', ci_PodSandboxId = ''gone'', ci_Name = ''k'', ci_State = ContainerStateRunning\<rparr>])
       (\<lambda>_. Some None) new_cache = Some (c, Inr ())
     \<and> view c ''c'' = Some x \<and> ct_State x = ContainerStateRunning \<and> view c ''d'' = None"
proof -
  let ?s = "\<lparr>si_Id = ''s'', si_Labels = [], si_Annotations = [], si_Name = ''p'', si_Namespace = ''n'', si_Uid = ''u''\<rparr>"
  let ?k = "\<lparr>ci_Id = ''c'', ci_PodSandboxId = ''s'', ci_Name = ''k'', ci_State = ContainerStateRunning\<rparr>"
  let ?d = "\<lparr>ci_Id = ''d'', ci_PodSandboxId = ''gone'', ci_Name = ''k'', ci_State = ContainerStateRunning\<rparr>"
  let ?st = "\<lambda>_. Some \<lparr>sb_ConfigParent = Some ''/kubepods/podu'', sb_RuntimeSpec = None\<rparr>"
  have p: "loaded_pods ?st [?s] = {''s''}" by simp
  have "\<forall>k\<in>set [?k, ?d]. ci_Id k \<noteq> []" "distinct (map ci_Id [?k, ?d])" by simp_all
  from containerd_load_exact[OF this, of "[?s]" ?st "\<lambda>_. Some None"] obtain c where
    c: "LoadStoreContainerd (Some [?s]) ?st (Some [?k, ?d]) (\<lambda>_. Some None) new_cache = Some (c, Inr ())"
      "\<forall>k\<in>set [?k, ?d]. ctr_loads (\<lambda>_. Some None) {''s''} k \<longrightarrow> (\<exists>x. view c (ci_Id k) = Some x \<and> loaded_as (\<lambda>_. Some None) k x)"
      "\<forall>i. view c i \<noteq> None \<longrightarrow> (\<exists>k\<in>set [?k, ?d]. ci_Id k = i \<and> ctr_loads (\<lambda>_. Some None) {''s''} k)" unfolding p by blast
  from c(2) obtain x where "view c ''c'' = Some x" "ct_State x = ContainerStateRunning"
    by (auto simp: ctr_loads_def loaded_as_def)
  moreover have "view c ''d'' = None" using c(3) by (auto simp: ctr_loads_def)
  ultimately show ?thesis using c(1) by blast
qed

section \<open>Docker's loader fails\<close>

lemma insert_without_pod:
  assumes "keyed c" "pods_made c" "ch_PodId m = None \<or> ch_PodId m = Some []"
  shows "InsertContainer i (CtrHook m) c = Some (c, Inl (Err ''failed to insert container''))"
proof -
  have "map_of (Pods c) [] = None" using assms(2) by (auto simp: pods_made_def) (metis option.exhaust)
  with assms(3) keyedD(1)[OF assms(1)] show ?thesis
    by (auto simp: InsertContainer_def with_lock_free insert_body_def ctr_fromDockerRunRequest_def Let_def blank_container_def)
qed

lemma docker_pods_keep:
  assumes "keyed c" "pods_made c"
  shows "\<exists>c' r. docker_pods driver ss c = Some (c', r) \<and> keyed c' \<and> pods_made c' \<and> view c' = view c"
  using assms
proof (induction ss arbitrary: c)
  case (Cons s ss)
  obtain labels annos where l: "SplitLabelsAndAnnotations (di_Labels s) = (labels, annos)" by fastforce
  let ?m = "\<lparr>ph_Uid = di_ID s, ph_Name = di_Name s, ph_Namespace = [], ph_Id = [], ph_Labels = labels,
              ph_Annotations = annos, ph_CgroupParent = ToCriCgroupPath driver (hc_CgroupParent (di_HostConfig s)),
              ph_Resources = HostConfigToResource (Some (di_HostConfig s))\<rparr>"
  show ?case
  proof (cases "di_ID s = []")
    case True
    then show ?thesis using Cons.prems l by (simp add: InsertPod_def)
  next
    case False
    from insert_hook_pod[OF Cons.prems False, of ?m] obtain c1 p where
      1: "InsertPod (di_ID s) (PodHook ?m) None c = Some (c1, Inr p)" "keyed c1" "pods_made c1" "view c1 = view c" by blast
    from Cons.IH[OF 1(2,3)] 1(1,4) l show ?thesis by simp
  qed
qed simp

text \<open>The loader for Docker never loads a container: the request it builds carries no pod ID, so the insertion
  looks for a pod with the empty ID, which is never cached. With one inspectable container that is not a sandbox
  the load always ends with an error, and no container is in the cache.\<close>

theorem docker_load_fails:
  assumes "i \<in> set ids" "inspect i = Some d" "\<not> GetRuntimeResourceType (di_Labels d)"
  shows "\<exists>c e. LoadStoreDocker (Some ids) inspect driver new_cache = Some (c, Inl e) \<and> (\<forall>j. view c j = None)"
proof -
  let ?items = "List.map_filter inspect ids"
  have "d \<in> set (filter (\<lambda>d. \<not> GetRuntimeResourceType (di_Labels d)) ?items)"
    using assms by (auto simp: set_map_filter_iff)
  then obtain k ks where ks: "filter (\<lambda>d. \<not> GetRuntimeResourceType (di_Labels d)) ?items = k # ks"
    by (cases "filter (\<lambda>d. \<not> GetRuntimeResourceType (di_Labels d)) ?items") auto
  have n: "keyed new_cache" "pods_made new_cache" "view new_cache = (\<lambda>_. None)"
    by (rule new_cache_facts)+
  from docker_pods_keep[OF n(1,2)] n(3) obtain c r where
    p: "docker_pods driver (filter (\<lambda>d. GetRuntimeResourceType (di_Labels d)) ?items) new_cache = Some (c, r)"
      "keyed c" "pods_made c" "view c = (\<lambda>_. None)" by metis
  have "\<exists>e. docker_ctrs (k # ks) c = Some (c, Inl e)"
    by (simp add: LookupPod_keyed[OF p(2)] insert_without_pod[OF p(2,3)] split: option.splits)
  then show ?thesis
    using p(1,4) by (cases r) (auto simp: LoadStoreDocker_def ks)
qed

theorem docker_load_fails_witness:
  "\<exists>c e. LoadStoreDocker (Some [''c'']) (\<lambda>i. Some \<lparr>di_ID = i, di_Name = ''n'', di_Labels = [],
        di_HostConfig = \<lparr>hc_CPUPeriod = 0, hc_CPUQuota = 0, hc_CPUShares = 0, hc_Memory = 0, hc_OomScoreAdj = 0,
          hc_CpusetCpus = [], hc_CpusetMems = [], hc_MemorySwap = 0, hc_CgroupParent = []\<rparr>\<rparr>) ''systemd'' new_cache
      = Some (c, Inl e) \<and> (\<forall>j. view c j = None)"
  by (rule docker_load_fails[of "''c''"], simp, rule refl, simp add: GetRuntimeResourceType_def)

end
