(* ===== verification/TopoRebuild.thy ===== *)
theory TopoRebuild
  imports TopoReach CacheOk
begin

text \<open>
  Rebuilding the allocations after a restart (\<^verbatim>\<open>policy/topology-aware/state_rebuild.go\<close>): every cached
  container that runs on a cpuset is charged to the deepest pool that contains the cpuset. Parsing a
  cpuset is \<open>k8s.io/utils/cpuset\<close>: it is the parameter \<open>parse\<close>, with \<open>None\<close> for a text that does not parse.
\<close>

section \<open>Definitions\<close>

definition bare_ctx :: "string \<Rightarrow> string \<Rightarrow> string \<Rightarrow> container_ctx" where
  "bare_ctx cid name uid =
     \<lparr>Request = \<lparr>PodMeta = \<lparr>pm_Namespace = [], pm_Name = [], pm_UID = uid\<rparr>,
         ContainerMeta = \<lparr>cm_Name = name, cm_ID = cid\<rparr>, PodLabels = [], PodAnnotations = [],
         CgroupParent = [], ContainerEnvs = None, cr_Resources = None, ExtendedResources = None\<rparr>,
      Response = \<lparr>resp_Resources = empty_resources, AddContainerEnvs = None\<rparr>\<rparr>"

definition deeper_match :: "policy \<Rightarrow> int set \<Rightarrow> nat option \<Rightarrow> nat \<Rightarrow> nat option" where
  "deeper_match p cpus best node =
     (if cpus \<subseteq> sharable (freeResource (p_heap p ! node))
      then (case best of
              None \<Rightarrow> Some node
            | Some b \<Rightarrow> if RootDistance (p_heap p) (Ref node) > RootDistance (p_heap p) (Ref b) then Some node else Some b)
      else best)"

definition findNodeByCPUSet :: "(string \<Rightarrow> int set option) \<Rightarrow> policy \<Rightarrow> string \<Rightarrow> nat option" where
  "findNodeByCPUSet parse p cpuSetStr =
     (case parse cpuSetStr of
        None \<Rightarrow> None
      | Some containerCPUs \<Rightarrow> foldl (deeper_match p containerCPUs) None (p_pools p))"

definition rebuild_milli :: "int \<Rightarrow> int \<Rightarrow> int" where
  "rebuild_milli x period =
     f64_to_int (f64_add (f64_div (f64_of_int (wrap_i64 (x * 1000))) (f64_of_int period)) (1 / 2))"

text \<open>The milli-CPUs requested, the milli-CPU limit and the bytes that are read off a container.\<close>

definition grant_sizes :: "container \<Rightarrow> int \<times> int \<times> int" where
  "grant_sizes k =
     (let reqs = Requests (ct_Resources k); lims = Limits (ct_Resources k);
          cpuRequest = (case reqs of None \<Rightarrow> 0 | Some l \<Rightarrow> if Cpu l > 0 then Cpu l else 0);
          memory = (case reqs of None \<Rightarrow> 0 | Some l \<Rightarrow> if Memory l > 0 then Memory l else 0);
          cpuLimit = (case lims of None \<Rightarrow> 0 | Some l \<Rightarrow> if Cpu l > 0 then Cpu l else 0)
      in if cpuRequest = 0 \<or> cpuLimit = 0
         then (case ct_LinuxReq k of
                 None \<Rightarrow> (cpuRequest, cpuLimit, memory)
               | Some r \<Rightarrow>
                   (if cpuRequest = 0 \<and> CpuShares r > 0 then rebuild_milli (CpuShares r) 1024 else cpuRequest,
                    if cpuLimit = 0 \<and> CpuQuota r > 0 \<and> CpuPeriod r > 0
                      then rebuild_milli (CpuQuota r) (CpuPeriod r) else cpuLimit,
                    if memory = 0 \<and> MemoryLimitInBytes r > 0 then MemoryLimitInBytes r else memory))
         else (cpuRequest, cpuLimit, memory))"

definition createGrantFromContainer :: "container \<Rightarrow> pod \<Rightarrow> nptr \<Rightarrow> grant \<times> string" where
  "createGrantFromContainer k pod targetNode =
     (let grant = newGrant targetNode (bare_ctx (ct_ID k) (ct_Name k) (po_UID pod)) False 0;
          cpuRequest = fst (grant_sizes k); cpuLimit = fst (snd (grant_sizes k)); memory = snd (snd (grant_sizes k));
          g1 = (if cpuRequest > 0 then grant\<lparr>allocatedCPUs := cpuRequest, allocatedCPUByRequest := cpuRequest\<rparr> else grant);
          g2 = (if cpuLimit > 0 then g1\<lparr>allocatedCPUByLimit := cpuLimit\<rparr> else g1);
          g3 = (if memory > 0 then g2\<lparr>allocatedMemory := to_u64 (go_div memory 1024)\<rparr> else g2)
      in (g3, po_UID pod @ '':'' @ ct_Name k))"

definition updateNodeResourceUsage :: "policy \<Rightarrow> nptr \<Rightarrow> grant \<Rightarrow> policy" where
  "updateNodeResourceUsage p node g =
     (case node of
        Ref i \<Rightarrow> propagateResourceToParent
                   (p\<lparr>p_heap := set_free (p_heap p) i (supply_charge g (freeResource (p_heap p ! i)))\<rparr>) g True
      | _ \<Rightarrow> p)"

definition rebuildContainerAllocation :: "policy \<Rightarrow> cache \<Rightarrow> container \<Rightarrow> nat \<Rightarrow> policy \<times> unit result" where
  "rebuildContainerAllocation p c k targetNode =
     (case ctr_GetPod c k of
        None \<Rightarrow> (p, Inl (Err ''pod not found for container''))
      | Some pod \<Rightarrow>
          if map_of (p_grants p) (po_UID pod @ '':'' @ ct_Name k) \<noteq> None then (p, Inr ())
          else (case createGrantFromContainer k pod (Ref targetNode) of
                  (g, gid) \<Rightarrow>
                    (let p1 = updateNodeResourceUsage p (Ref targetNode) g
                     in (p1\<lparr>p_grants := AList.update gid g (p_grants p1)\<rparr>, Inr ()))))"

definition rebuild_candidate :: "container \<Rightarrow> bool" where
  "rebuild_candidate k \<longleftrightarrow>
     (ct_State k = ContainerStateRunning \<or> ct_State k = ContainerStateCreated)
     \<and> ct_Namespace k \<noteq> ''kube-system'' \<and> GetCpusetCpus k \<noteq> []"

definition rebuild_one :: "(string \<Rightarrow> int set option) \<Rightarrow> cache \<Rightarrow> policy \<Rightarrow> container \<Rightarrow> policy" where
  "rebuild_one parse c p k =
     (if \<not> rebuild_candidate k then p
      else (case findNodeByCPUSet parse p (GetCpusetCpus k) of
              None \<Rightarrow> p
            | Some i \<Rightarrow> fst (rebuildContainerAllocation p c k i)))"

text \<open>A failure for one container is logged; a blocked cache blocks the call.\<close>

definition RebuildAllocationsFromCache ::
  "(string \<Rightarrow> int set option) \<Rightarrow> policy \<Rightarrow> cache option \<Rightarrow> (policy \<times> unit result) option" where
  "RebuildAllocationsFromCache parse p cch =
     (case cch of
        None \<Rightarrow> Some (p, Inr ())
      | Some c \<Rightarrow>
          (case GetContainers c of
             None \<Rightarrow> None
           | Some (c', ks) \<Rightarrow> Some (foldl (rebuild_one parse c') p ks, Inr ())))"

section \<open>The search\<close>

lemma deepest_match:
  "set ns \<subseteq> S \<Longrightarrow> (\<forall>b. best = Some b \<longrightarrow> b \<in> S \<and> cpus \<subseteq> sharable (freeResource (p_heap p ! b))) \<Longrightarrow>
   (case foldl (deeper_match p cpus) best ns of
      None \<Rightarrow> best = None \<and> (\<forall>n\<in>set ns. \<not> cpus \<subseteq> sharable (freeResource (p_heap p ! n)))
    | Some m \<Rightarrow> m \<in> S \<and> cpus \<subseteq> sharable (freeResource (p_heap p ! m))
        \<and> (\<forall>n. (best = Some n \<or> n \<in> set ns \<and> cpus \<subseteq> sharable (freeResource (p_heap p ! n))) \<longrightarrow>
              RootDistance (p_heap p) (Ref n) \<le> RootDistance (p_heap p) (Ref m)))"
proof (induction ns arbitrary: best)
  case (Cons x ns)
  let ?b = "deeper_match p cpus best x"
  have b: "\<forall>b. ?b = Some b \<longrightarrow> b \<in> S \<and> cpus \<subseteq> sharable (freeResource (p_heap p ! b))"
    using Cons.prems by (auto simp: deeper_match_def split: option.splits if_splits)
  have none: "?b = None \<Longrightarrow> best = None \<and> \<not> cpus \<subseteq> sharable (freeResource (p_heap p ! x))"
    by (auto simp: deeper_match_def split: option.splits if_splits)
  have le: "best = Some n \<or> n = x \<and> cpus \<subseteq> sharable (freeResource (p_heap p ! n)) \<Longrightarrow>
      \<exists>m. ?b = Some m \<and> RootDistance (p_heap p) (Ref n) \<le> RootDistance (p_heap p) (Ref m)" for n
    by (auto simp: deeper_match_def split: option.splits)
  have IH: "case foldl (deeper_match p cpus) ?b ns of
      None \<Rightarrow> ?b = None \<and> (\<forall>n\<in>set ns. \<not> cpus \<subseteq> sharable (freeResource (p_heap p ! n)))
    | Some m \<Rightarrow> m \<in> S \<and> cpus \<subseteq> sharable (freeResource (p_heap p ! m))
        \<and> (\<forall>n. (?b = Some n \<or> n \<in> set ns \<and> cpus \<subseteq> sharable (freeResource (p_heap p ! n))) \<longrightarrow>
              RootDistance (p_heap p) (Ref n) \<le> RootDistance (p_heap p) (Ref m))"
    by (rule Cons.IH) (use Cons.prems(1) b in auto)
  show ?case
  proof (cases "foldl (deeper_match p cpus) ?b ns")
    case None
    with IH none show ?thesis by simp
  next
    case (Some m)
    with IH have m: "m \<in> S" "cpus \<subseteq> sharable (freeResource (p_heap p ! m))"
      "\<And>n. ?b = Some n \<or> n \<in> set ns \<and> cpus \<subseteq> sharable (freeResource (p_heap p ! n)) \<Longrightarrow>
              RootDistance (p_heap p) (Ref n) \<le> RootDistance (p_heap p) (Ref m)" by auto
    have "RootDistance (p_heap p) (Ref n) \<le> RootDistance (p_heap p) (Ref m)"
      if n: "best = Some n \<or> n \<in> set (x # ns) \<and> cpus \<subseteq> sharable (freeResource (p_heap p ! n))" for n
    proof (cases "n \<in> set ns \<and> cpus \<subseteq> sharable (freeResource (p_heap p ! n))")
      case False
      with n le[of n] obtain l where "?b = Some l" "RootDistance (p_heap p) (Ref n) \<le> RootDistance (p_heap p) (Ref l)" by auto
      with m(3)[of l] show ?thesis by simp
    qed (use m(3) in simp)
    with Some m(1,2) show ?thesis by simp
  qed
qed (auto split: option.splits)

lemma findNode_bound:
  assumes "wf_policy p" "findNodeByCPUSet parse p s = Some i"
  shows "i < length (p_heap p)"
proof -
  from assms(2) obtain cpus where "foldl (deeper_match p cpus) None (p_pools p) = Some i"
    by (auto simp: findNodeByCPUSet_def split: option.splits)
  with deepest_match[of "p_pools p" "set (p_pools p)" None cpus p] assms(1) show ?thesis
    by (auto simp: wf_policy_def)
qed

section \<open>Rebuilding keeps the books\<close>

text \<open>The memory, in KB, that rebuilding a container charges.\<close>

definition rebuilt_kb :: "container \<Rightarrow> int" where
  "rebuilt_kb k = (if snd (snd (grant_sizes k)) > 0 then to_u64 (go_div (snd (snd (grant_sizes k))) 1024) else 0)"

lemma rebuilt_kb_nonneg [simp]: "0 \<le> rebuilt_kb k"
  by (simp add: rebuilt_kb_def)

lemma createGrant_fields:
  "gr_node (fst (createGrantFromContainer k pod n)) = n"
  "snd (createGrantFromContainer k pod n) = po_UID pod @ '':'' @ ct_Name k"
  "0 \<le> amount c (fst (createGrantFromContainer k pod n))"
  "allocatedMemory (fst (createGrantFromContainer k pod n)) = rebuilt_kb k"
  by (cases c; simp add: createGrantFromContainer_def newGrant_def rebuilt_kb_def Let_def amount_def)+

lemma createGrant_valid:
  "i < length (p_heap p) \<Longrightarrow> valid_grant p (fst (createGrantFromContainer k pod (Ref i)))"
  using createGrant_fields(3)[of CShared k pod "Ref i"] createGrant_fields(3)[of CByRequest k pod "Ref i"]
    createGrant_fields(3)[of CByLimit k pod "Ref i"] createGrant_fields(3)[of CMemory k pod "Ref i"]
  by (simp add: valid_grant_def createGrant_fields(1) amount_def)

text \<open>Storing a fresh grant and charging its path keeps the books, whoever made the grant.\<close>

lemma charge_books:
  assumes "books p" "gr_node g = Ref i" "i < length (p_heap p)" "valid_grant p g"
    and "counter_at p 0 CMemory + allocatedMemory g < 18446744073709551616"
    and "map_of (p_grants p) gid = None"
  shows "books ((charge_path p g i)\<lparr>p_grants := AList.update gid g (p_grants p)\<rparr>)"
proof -
  obtain h where h: "charge_path p g i = p\<lparr>p_heap := h\<rparr>" "same_tree (p_heap p) h"
    by (rule charge_path_heap[OF assms(1-3)])
  note wf = booksD(3)[OF assms(1)]
  let ?G = "AList.update gid g (p_grants p)"
  have ch: "\<forall>k<length (p_heap p). chargeable g (freeResource (p_heap p ! k))"
  proof (intro allI impI)
    fix k assume "k < length (p_heap p)"
    from counter_le_root[OF assms(1) this, of CMemory] assms(4,5)
    show "chargeable g (freeResource (p_heap p ! k))"
      by (auto simp: chargeable_def counter_at_def ctr_def valid_grant_def)
  qed
  have "books (p\<lparr>p_heap := h, p_grants := ?G\<rparr>)"
  proof (rule books_update[OF assms(1) h(2)])
    show "wf_map ?G" using wf by simp
    show "\<forall>(gid, g)\<in>set ?G. valid_grant p g"
      using assms(4) booksD(4)[OF assms(1)] set_update_sub[of gid g "p_grants p"] by blast
    fix k c assume k: "k < length (p_heap p)"
    have "counter_at (p\<lparr>p_heap := h\<rparr>) k c = counter_at p k c + (if on_path p g k then amount c g else 0)"
      unfolding h(1)[symmetric] by (rule charge_path_counters[OF booksD(2)[OF assms(1)] assms(2,3) k ch])
    then show "counter_at (p\<lparr>p_heap := h\<rparr>) k c = (\<Sum>(gid, g)\<leftarrow>?G. if on_path p g k then amount c g else 0)"
      unfolding booksD(5)[OF assms(1) k] grant_sum_def sum_update_fresh[OF wf assms(6)] by simp
  qed
  then show ?thesis by (simp add: h(1))
qed

lemma charge_root:
  assumes "books p" "gr_node g = Ref i" "i < length (p_heap p)" "valid_grant p g"
    and "counter_at p 0 CMemory + allocatedMemory g < 18446744073709551616"
  shows "counter_at (charge_path p g i) 0 CMemory = counter_at p 0 CMemory + allocatedMemory g"
proof -
  have z: "0 < length (p_heap p)" using assms(3) by auto
  have ch: "\<forall>k<length (p_heap p). chargeable g (freeResource (p_heap p ! k))"
  proof (intro allI impI)
    fix k assume "k < length (p_heap p)"
    from counter_le_root[OF assms(1) this, of CMemory] assms(4,5)
    show "chargeable g (freeResource (p_heap p ! k))"
      by (auto simp: chargeable_def counter_at_def ctr_def valid_grant_def)
  qed
  have "on_path p g 0" using anc_bound[OF booksD(2)[OF assms(1)] assms(3)] assms(2) by (auto simp: on_path_def)
  with charge_path_counters[OF booksD(2)[OF assms(1)] assms(2,3) z ch, of CMemory]
  show ?thesis by (simp add: amount_def)
qed

text \<open>One container: either nothing changes, or its grant is stored and its path charged.\<close>

definition grant_key :: "cache \<Rightarrow> container \<Rightarrow> string option" where
  "grant_key c k = map_option (\<lambda>pod. po_UID pod @ '':'' @ ct_Name k) (ctr_GetPod c k)"

definition same_places :: "policy \<Rightarrow> policy \<Rightarrow> bool" where
  "same_places p q \<longleftrightarrow> p_pools q = p_pools p \<and> same_tree (p_heap p) (p_heap q)"

definition placed :: "(string \<Rightarrow> int set option) \<Rightarrow> policy \<Rightarrow> container \<Rightarrow> bool" where
  "placed parse p k \<longleftrightarrow> rebuild_candidate k \<and> findNodeByCPUSet parse p (GetCpusetCpus k) \<noteq> None"

lemma rebuild_one_cases:
  assumes "books p" "counter_at p 0 CMemory + rebuilt_kb k < 18446744073709551616"
  shows "books (rebuild_one parse c p k)
     \<and> counter_at (rebuild_one parse c p k) 0 CMemory \<le> counter_at p 0 CMemory + rebuilt_kb k
     \<and> same_places p (rebuild_one parse c p k)
     \<and> (\<forall>gid g. map_of (p_grants p) gid = Some g \<longrightarrow> map_of (p_grants (rebuild_one parse c p k)) gid = Some g)
     \<and> (\<forall>gid. placed parse p k \<and> grant_key c k = Some gid \<longrightarrow> map_of (p_grants (rebuild_one parse c p k)) gid \<noteq> None)"
proof -
  let ?q = "rebuild_one parse c p k"
  have refl: "same_places p p" by (simp add: same_places_def same_tree_def)
  show ?thesis
  proof (cases "\<exists>i pod. rebuild_candidate k \<and> findNodeByCPUSet parse p (GetCpusetCpus k) = Some i \<and> ctr_GetPod c k = Some pod
      \<and> map_of (p_grants p) (po_UID pod @ '':'' @ ct_Name k) = None")
    case False
    then have "?q = p"
      by (auto simp: rebuild_one_def rebuildContainerAllocation_def split: option.splits)
    moreover have "\<forall>gid. placed parse p k \<and> grant_key c k = Some gid \<longrightarrow> map_of (p_grants p) gid \<noteq> None"
      using False by (auto simp: placed_def grant_key_def)
    ultimately show ?thesis using assms(1) refl by simp
  next
    case True
    then obtain i pod where t: "rebuild_candidate k" "findNodeByCPUSet parse p (GetCpusetCpus k) = Some i"
      "ctr_GetPod c k = Some pod" "map_of (p_grants p) (po_UID pod @ '':'' @ ct_Name k) = None" by blast
    let ?g = "fst (createGrantFromContainer k pod (Ref i))" and ?gid = "po_UID pod @ '':'' @ ct_Name k"
    have i: "i < length (p_heap p)" by (rule findNode_bound[OF booksD(1)[OF assms(1)] t(2)])
    note f = createGrant_fields[where k = k and pod = pod and n = "Ref i"]
    have v: "valid_grant p ?g" by (rule createGrant_valid[OF i])
    have m: "counter_at p 0 CMemory + allocatedMemory ?g < 18446744073709551616" using assms(2) f(4) by simp
    obtain h where h: "charge_path p ?g i = p\<lparr>p_heap := h\<rparr>" "same_tree (p_heap p) h"
      by (rule charge_path_heap[OF assms(1) f(1) i])
    have q: "?q = (charge_path p ?g i)\<lparr>p_grants := AList.update ?gid ?g (p_grants p)\<rparr>"
      using t h(1) by (simp add: rebuild_one_def rebuildContainerAllocation_def updateNodeResourceUsage_def
          charge_path_def[symmetric] case_prod_unfold f(2) Let_def)
    have "books ?q" unfolding q by (rule charge_books[OF assms(1) f(1) i v m t(4)])
    moreover have "counter_at ?q 0 CMemory = counter_at p 0 CMemory + rebuilt_kb k"
      using charge_root[OF assms(1) f(1) i v m] f(4) unfolding q by simp
    moreover have "same_places p ?q" using h unfolding q by (simp add: same_places_def)
    moreover have "grant_key c k = Some ?gid" using t(3) by (simp add: grant_key_def)
    ultimately show ?thesis using t(4) unfolding q by (auto simp: h(1))
  qed
qed

lemma findNode_same_places:
  assumes "wf_policy p" "same_places p q"
  shows "findNodeByCPUSet parse q s = findNodeByCPUSet parse p s"
proof -
  have st: "same_tree (p_heap p) (p_heap q)" "p_pools q = p_pools p" using assms(2) by (auto simp: same_places_def)
  have eq: "sharable (freeResource (p_heap q ! n)) = sharable (freeResource (p_heap p ! n))"
    "nd_depth (p_heap q ! n) = nd_depth (p_heap p ! n)" if "n < length (p_heap p)" for n
    using same_tree_nth[OF st(1) that] same_tree_sel[OF st(1) that] by simp_all
  have "foldl (deeper_match q cpus) best ns = foldl (deeper_match p cpus) best ns"
    if "set ns \<subseteq> {..<length (p_heap p)}" "\<forall>b. best = Some b \<longrightarrow> b < length (p_heap p)" for cpus best ns
    using that
  proof (induction ns arbitrary: best)
    case (Cons x ns)
    have "deeper_match q cpus best x = deeper_match p cpus best x"
      using Cons.prems eq by (auto simp: deeper_match_def RootDistance_def split: option.splits)
    moreover have "\<forall>b. deeper_match p cpus best x = Some b \<longrightarrow> b < length (p_heap p)"
      using Cons.prems by (auto simp: deeper_match_def split: option.splits if_splits)
    ultimately show ?case using Cons.IH[of "deeper_match p cpus best x"] Cons.prems(1) by simp
  qed simp
  moreover have "set (p_pools p) \<subseteq> {..<length (p_heap p)}" using assms(1) by (auto simp: wf_policy_def)
  ultimately show ?thesis using st(2) by (simp add: findNodeByCPUSet_def split: option.splits)
qed

lemma rebuild_all:
  assumes "books p" "counter_at p 0 CMemory + (\<Sum>k\<leftarrow>ks. rebuilt_kb k) < 18446744073709551616"
  shows "books (foldl (rebuild_one parse c) p ks) \<and> same_places p (foldl (rebuild_one parse c) p ks)
     \<and> (\<forall>gid g. map_of (p_grants p) gid = Some g \<longrightarrow> map_of (p_grants (foldl (rebuild_one parse c) p ks)) gid = Some g)
     \<and> (\<forall>k\<in>set ks. \<forall>gid. placed parse p k \<and> grant_key c k = Some gid \<longrightarrow>
          map_of (p_grants (foldl (rebuild_one parse c) p ks)) gid \<noteq> None)"
  using assms
proof (induction ks arbitrary: p)
  case Nil
  then show ?case by (simp add: same_places_def same_tree_def)
next
  case (Cons k ks)
  let ?q = "rebuild_one parse c p k"
  have nn: "0 \<le> (\<Sum>k\<leftarrow>ks. rebuilt_kb k)" by (rule sum_list_nonneg) auto
  have "counter_at p 0 CMemory + rebuilt_kb k < 18446744073709551616" using Cons.prems(2) nn by simp
  note one = rebuild_one_cases[OF Cons.prems(1) this, of parse c]
  have "counter_at ?q 0 CMemory + (\<Sum>k\<leftarrow>ks. rebuilt_kb k) < 18446744073709551616" using one Cons.prems(2) by simp
  note IH = Cons.IH[OF conjunct1[OF one] this]
  have pl: "placed parse ?q k' = placed parse p k'" for k'
    using findNode_same_places[OF booksD(1)[OF Cons.prems(1)]] one by (simp add: placed_def)
  have tr: "same_places p (foldl (rebuild_one parse c) ?q ks)"
    using one IH same_tree_trans by (auto simp: same_places_def)
  show ?case
    using IH one tr unfolding foldl_Cons pl by (metis (no_types, lifting) not_None_eq set_ConsD)
qed

lemma rebuild_idle:
  assumes "\<forall>k\<in>set ks. \<forall>gid. placed parse p k \<and> grant_key c k = Some gid \<longrightarrow> map_of (p_grants p) gid \<noteq> None"
  shows "foldl (rebuild_one parse c) p ks = p"
  using assms
proof (induction ks)
  case (Cons k ks)
  have "rebuild_one parse c p k = p"
    using Cons.prems by (auto simp: rebuild_one_def rebuildContainerAllocation_def placed_def grant_key_def split: option.splits)
  with Cons show ?case by simp
qed simp

lemma GetContainers_keyed: "keyed c \<Longrightarrow> GetContainers c = Some (c, map (\<lambda>(i, a). c_store c ! a) (Containers c))"
  using keyedD(1)[of c] by (simp add: GetContainers_def with_lock_free)


definition rebuild_cache :: cache where
  "rebuild_cache =
     (case InsertPod ''s'' (PodHook demo_pod_req) None new_cache of
        Some (c1, _) \<Rightarrow> (case InsertContainer ''abc'' (CtrHook (demo_ctr_req ''abc''\<lparr>ch_Resources :=
             Some (zero_linux_resources\<lparr>CpuShares := 1024, MemoryLimitInBytes := 1048576, CpusetCpus := ''0-1''\<rparr>)\<rparr>)) c1 of
          Some (c2, _) \<Rightarrow> (case SetContainerState ''abc'' ContainerStateRunning c2 of
            Some (c3, _) \<Rightarrow> c3 | None \<Rightarrow> c2) | None \<Rightarrow> c1) | None \<Rightarrow> new_cache)"

lemma rebuild_cache_keyed: "keyed rebuild_cache"
proof -
  obtain c1 r1 where 1: "InsertPod ''s'' (PodHook demo_pod_req) None new_cache = Some (c1, r1)" "keyed c1"
    using InsertPod_spec[OF keyed_new] by blast
  obtain c2 r2 where 2: "InsertContainer ''abc'' (CtrHook (demo_ctr_req ''abc''\<lparr>ch_Resources :=
      Some (zero_linux_resources\<lparr>CpuShares := 1024, MemoryLimitInBytes := 1048576, CpusetCpus := ''0-1''\<rparr>)\<rparr>)) c1 = Some (c2, r2)" "keyed c2"
    using InsertContainer_spec[OF 1(2), of "''abc''"] by blast
  obtain c3 where 3: "SetContainerState ''abc'' ContainerStateRunning c2 = Some (c3, ())" "keyed c3"
    using SetContainerState_spec[OF 2(2)] by blast
  from 1 2 3 show ?thesis by (simp add: rebuild_cache_def)
qed


end
