(* ===== verification/PolicyManager.thy ===== *)
theory PolicyManager
  imports TopoTheorems TopoRebuild
begin

text \<open>
  The policy manager (\<^verbatim>\<open>pkg/kunpeng-tap/policy/policy.go\<close>, \<^verbatim>\<open>util.go\<close>) and the hooks of the topology-aware
  policy (\<^verbatim>\<open>topology_aware.go\<close>). A policy is its name and its hooks over a shared world \<open>'s\<close> (the policies'
  states and the cache). The manager calls the registered policies in the order of a Go map, that is, in
  any order: the list of a manager is arbitrary.
\<close>

section \<open>Allocations\<close>

record allocation =
  al_Resources :: "linux_resources option"

definition NewAllocation :: allocation where
  "NewAllocation = \<lparr>al_Resources = Some zero_linux_resources\<rparr>"

text \<open>Both setters write through the pointer of the allocation, which \<open>NewAllocation\<close> has made.\<close>

definition SetCPUSetCpus :: "string \<Rightarrow> allocation \<Rightarrow> allocation" where
  "SetCPUSetCpus s a = a\<lparr>al_Resources := map_option (\<lambda>r. r\<lparr>CpusetCpus := s\<rparr>) (al_Resources a)\<rparr>"

definition SetCPUSetMems :: "string \<Rightarrow> allocation \<Rightarrow> allocation" where
  "SetCPUSetMems s a = a\<lparr>al_Resources := map_option (\<lambda>r. r\<lparr>CpusetMems := s\<rparr>) (al_Resources a)\<rparr>"

definition ensureContainerResources :: "linux_resources option \<Rightarrow> linux_resources" where
  "ensureContainerResources resp = (case resp of None \<Rightarrow> zero_linux_resources | Some l \<Rightarrow> l)"

definition merge_if :: "bool \<Rightarrow> (linux_resources \<Rightarrow> linux_resources) \<Rightarrow> linux_resources option \<Rightarrow> linux_resources option" where
  "merge_if b f resp = (if b then Some (f (ensureContainerResources resp)) else resp)"

definition mergeCPUResources :: "linux_resources \<Rightarrow> linux_resources option \<Rightarrow> linux_resources option" where
  "mergeCPUResources a resp =
     merge_if (CpuShares a \<noteq> 0) (\<lambda>l. l\<lparr>CpuShares := CpuShares a\<rparr>)
      (merge_if (CpuQuota a \<noteq> 0) (\<lambda>l. l\<lparr>CpuQuota := CpuQuota a\<rparr>)
       (merge_if (CpuPeriod a \<noteq> 0) (\<lambda>l. l\<lparr>CpuPeriod := CpuPeriod a\<rparr>) resp))"

definition mergeCPUSetResources :: "linux_resources \<Rightarrow> linux_resources option \<Rightarrow> linux_resources option" where
  "mergeCPUSetResources a resp =
     merge_if (CpusetCpus a \<noteq> []) (\<lambda>l. l\<lparr>CpusetCpus := CpusetCpus a\<rparr>)
      (merge_if (CpusetMems a \<noteq> []) (\<lambda>l. l\<lparr>CpusetMems := CpusetMems a\<rparr>) resp)"

definition mergeMemoryResources :: "linux_resources \<Rightarrow> linux_resources option \<Rightarrow> linux_resources option" where
  "mergeMemoryResources a resp =
     merge_if (MemorySwapLimitInBytes a \<noteq> 0) (\<lambda>l. l\<lparr>MemorySwapLimitInBytes := MemorySwapLimitInBytes a\<rparr>)
      (merge_if (MemoryLimitInBytes a \<noteq> 0) (\<lambda>l. l\<lparr>MemoryLimitInBytes := MemoryLimitInBytes a\<rparr>) resp)"

definition Merge :: "allocation \<Rightarrow> linux_resources option \<Rightarrow> linux_resources option" where
  "Merge a resp =
     (case al_Resources a of
        None \<Rightarrow> resp
      | Some r \<Rightarrow> mergeMemoryResources r (mergeCPUSetResources r (mergeCPUResources r resp)))"

definition mergeAllocations :: "allocation list \<Rightarrow> linux_resources option \<Rightarrow> linux_resources option" where
  "mergeAllocations allocs resp = foldl (\<lambda>r a. Merge a r) resp allocs"

section \<open>The manager\<close>

record 's hook_policy =
  hp_Name :: string
  hp_PreCreateContainerHook :: "'s \<Rightarrow> container_ctx \<Rightarrow> 's \<times> allocation option result"
  hp_PostStopContainerHook :: "'s \<Rightarrow> container_ctx \<Rightarrow> 's \<times> allocation option result"
  hp_RebuildAllocationsFromCache :: "('s \<Rightarrow> ('s \<times> unit result) option) option"

text \<open>The first call makes the manager, every later one returns it.\<close>

definition NewPolicyManagerWithPolicies ::
  "(string, 's hook_policy) gomap option \<Rightarrow> 's hook_policy list \<Rightarrow> (string, 's hook_policy) gomap" where
  "NewPolicyManagerWithPolicies singleton policies =
     (case singleton of
        Some pm \<Rightarrow> pm
      | None \<Rightarrow> foldl (\<lambda>m p. AList.update (hp_Name p) p m) [] policies)"

definition RegisterPolicy :: "(string, 's hook_policy) gomap \<Rightarrow> 's hook_policy \<Rightarrow> (string, 's hook_policy) gomap" where
  "RegisterPolicy pm p = (if map_of pm (hp_Name p) \<noteq> None then pm else AList.update (hp_Name p) p pm)"

definition ListPolicies :: "(string, 's hook_policy) gomap \<Rightarrow> 's hook_policy list" where
  "ListPolicies pm = map snd pm"

text \<open>An error of a policy is logged and skipped; a panic of one ends the call.\<close>

fun call_policies ::
  "('s hook_policy \<Rightarrow> 's \<Rightarrow> container_ctx \<Rightarrow> 's \<times> allocation option result) \<Rightarrow> container_ctx
   \<Rightarrow> 's hook_policy list \<Rightarrow> 's \<Rightarrow> allocation list \<Rightarrow> 's \<times> allocation list result" where
  "call_policies hook ctx [] w allocs = (w, Inr allocs)"
| "call_policies hook ctx (p # ps) w allocs =
     (case hook p w ctx of
        (w', Inl Panic) \<Rightarrow> (w', Inl Panic)
      | (w', Inl (Err _)) \<Rightarrow> call_policies hook ctx ps w' allocs
      | (w', Inr None) \<Rightarrow> call_policies hook ctx ps w' allocs
      | (w', Inr (Some a)) \<Rightarrow> call_policies hook ctx ps w' (allocs @ [a]))"

text \<open>The response carries the resources of the request and what the policies merge into them; its other
  fields repeat the request. The hooks before a start, after a start and before an update only repeat it.\<close>

definition echo_response :: "hook_request \<Rightarrow> hook_response" where
  "echo_response req = \<lparr>hs_ContainerResources = hr_ContainerResources req, hs_ContainerEnvs = hr_ContainerEnvs req\<rparr>"

definition finish_hook :: "hook_request \<Rightarrow> 's \<times> allocation list result \<Rightarrow> 's \<times> hook_response result" where
  "finish_hook req r =
     (case r of
        (w, Inl e) \<Rightarrow> (w, Inl e)
      | (w, Inr allocs) \<Rightarrow>
          (w, Inr ((echo_response req)\<lparr>hs_ContainerResources := mergeAllocations allocs (hr_ContainerResources req)\<rparr>)))"

definition blank_request :: container_request where
  "blank_request = Request (bare_ctx [] [] [])"

definition hook_ctx ::
  "(string \<Rightarrow> (string, resource_requirements) gomap option) \<Rightarrow> cgroup_driver \<Rightarrow> string \<Rightarrow> hook_request \<Rightarrow> container_ctx" where
  "hook_ctx unmarshal driver runtime req =
     (bare_ctx [] [] [])\<lparr>Request := req_FromProxy unmarshal driver runtime (blank_request\<lparr>cr_Resources := None\<rparr>) req\<rparr>"

definition pm_PreCreateContainerHook ::
  "(string \<Rightarrow> (string, resource_requirements) gomap option) \<Rightarrow> cgroup_driver \<Rightarrow> string
   \<Rightarrow> (string, 's hook_policy) gomap \<Rightarrow> 's \<Rightarrow> hook_request \<Rightarrow> 's \<times> hook_response result" where
  "pm_PreCreateContainerHook unmarshal driver runtime pm w req =
     finish_hook req (call_policies hp_PreCreateContainerHook (hook_ctx unmarshal driver runtime req) (ListPolicies pm) w [])"

text \<open>Stopping and removing a container both call the policies' stop hooks, with the container's ID alone.\<close>

definition pm_PostStopContainerHook ::
  "(string, 's hook_policy) gomap \<Rightarrow> 's \<Rightarrow> hook_request \<Rightarrow> 's \<times> hook_response result" where
  "pm_PostStopContainerHook pm w req =
     finish_hook req (call_policies hp_PostStopContainerHook (bare_ctx (hr_ContainerId req) [] []) (ListPolicies pm) w [])"

definition pm_PreRemoveContainerHook ::
  "(string, 's hook_policy) gomap \<Rightarrow> 's \<Rightarrow> hook_request \<Rightarrow> 's \<times> hook_response result" where
  "pm_PreRemoveContainerHook pm w req =
     finish_hook req (call_policies hp_PostStopContainerHook (bare_ctx (hr_ContainerId req) [] []) (ListPolicies pm) w [])"

fun rebuild_policies :: "'s hook_policy list \<Rightarrow> 's \<Rightarrow> 's option" where
  "rebuild_policies [] w = Some w"
| "rebuild_policies (p # ps) w =
     (case hp_RebuildAllocationsFromCache p of
        None \<Rightarrow> rebuild_policies ps w
      | Some f \<Rightarrow> (case f w of None \<Rightarrow> None | Some (w', _) \<Rightarrow> rebuild_policies ps w'))"

definition pm_RebuildAllocationsFromCache :: "(string, 's hook_policy) gomap \<Rightarrow> 's \<Rightarrow> ('s \<times> unit result) option" where
  "pm_RebuildAllocationsFromCache pm w = map_option (\<lambda>w'. (w', Inr ())) (rebuild_policies (ListPolicies pm) w)"

section \<open>The hooks of the topology-aware policy\<close>

text \<open>Rendering a CPU set as text is \<open>cpuset.String\<close>: the parameter \<open>show\<close>.\<close>

definition SharedCPUSet :: "policy \<Rightarrow> grant \<Rightarrow> int set" where
  "SharedCPUSet p g = (case FreeResource (p_heap p) (gr_node g) of None \<Rightarrow> {} | Some s \<Rightarrow> sharable s)"

definition grant_Memset :: "policy \<Rightarrow> grant \<Rightarrow> int set" where
  "grant_Memset p g = (case FreeResource (p_heap p) (gr_node g) of None \<Rightarrow> {} | Some s \<Rightarrow> Memset (p_heap p) s)"

record tap_world =
  tw_policy :: policy
  tw_cache :: cache

definition topo_PreCreateContainerHook ::
  "(int set \<Rightarrow> string) \<Rightarrow> tap_world \<Rightarrow> container_ctx \<Rightarrow> tap_world \<times> allocation option result" where
  "topo_PreCreateContainerHook show_set w ctx =
     (if ParseCgroupForQOSClass (CgroupParent (Request ctx)) = BestEffort then (w, Inr None)
      else (case AllocateResources (tw_policy w) ctx of
              (p, Inl e) \<Rightarrow> (w\<lparr>tw_policy := p\<rparr>, Inl e)
            | (p, Inr _) \<Rightarrow>
                (case map_of (p_grants p) (grant_id ctx) of
                   None \<Rightarrow> (w\<lparr>tw_policy := p\<rparr>, Inl (Err ''no grant found for container''))
                 | Some g \<Rightarrow>
                     (let a = SetCPUSetCpus (show_set (SharedCPUSet p g)) NewAllocation;
                          b = (if enableMemoryTopology p then SetCPUSetMems (show_set (grant_Memset p g)) a else a)
                      in (w\<lparr>tw_policy := p\<rparr>, Inr (Some b))))))"

text \<open>A cache that blocks never answers; the lookups of the hooks find it unlocked.\<close>

definition topo_PostStopContainerHook :: "tap_world \<Rightarrow> container_ctx \<Rightarrow> tap_world \<times> allocation option result" where
  "topo_PostStopContainerHook w ctx =
     (if cm_ID (ContainerMeta (Request ctx)) = [] then (w, Inr None)
      else (case LookupContainer (cm_ID (ContainerMeta (Request ctx))) (tw_cache w) of
              None \<Rightarrow> (w, Inl Panic)
            | Some (c, None) \<Rightarrow> (w\<lparr>tw_cache := c\<rparr>, Inr None)
            | Some (c, Some k) \<Rightarrow>
                (case ctr_GetPod c k of
                   None \<Rightarrow> (w\<lparr>tw_cache := c\<rparr>, Inr None)
                 | Some pod \<Rightarrow>
                     (case ReleaseResources (tw_policy w) (bare_ctx (ct_ID k) (ct_Name k) (po_UID pod)) of
                        (p, Inl e) \<Rightarrow> (w\<lparr>tw_policy := p, tw_cache := c\<rparr>, Inl e)
                      | (p, Inr _) \<Rightarrow> (w\<lparr>tw_policy := p, tw_cache := c\<rparr>, Inr None)))))"

definition topo_hook_policy :: "(int set \<Rightarrow> string) \<Rightarrow> (string \<Rightarrow> int set option) \<Rightarrow> tap_world hook_policy" where
  "topo_hook_policy show_set parse =
     \<lparr>hp_Name = ''topology-aware'', hp_PreCreateContainerHook = topo_PreCreateContainerHook show_set,
      hp_PostStopContainerHook = topo_PostStopContainerHook,
      hp_RebuildAllocationsFromCache = Some (\<lambda>w.
        (case RebuildAllocationsFromCache parse (tw_policy w) (Some (tw_cache w)) of
           None \<Rightarrow> None | Some (p, r) \<Rightarrow> Some (w\<lparr>tw_policy := p\<rparr>, r)))\<rparr>"

section \<open>Merging\<close>

text \<open>The last value that is set wins; a field that no allocation sets keeps the value of the request.\<close>

definition last_set :: "'v \<Rightarrow> 'v list \<Rightarrow> 'v \<Rightarrow> 'v" where
  "last_set unset vs v = foldl (\<lambda>v x. if x = unset then v else x) v vs"

definition al_res :: "allocation \<Rightarrow> linux_resources" where
  "al_res a = ensureContainerResources (al_Resources a)"

lemma last_set_snoc: "last_set u (vs @ [x]) v = (if x = u then last_set u vs v else x)"
  by (simp add: last_set_def)

definition merged :: "allocation list \<Rightarrow> linux_resources \<Rightarrow> linux_resources" where
  "merged allocs l =
     \<lparr>CpuPeriod = last_set 0 (map (CpuPeriod \<circ> al_res) allocs) (CpuPeriod l),
      CpuQuota = last_set 0 (map (CpuQuota \<circ> al_res) allocs) (CpuQuota l),
      CpuShares = last_set 0 (map (CpuShares \<circ> al_res) allocs) (CpuShares l),
      MemoryLimitInBytes = last_set 0 (map (MemoryLimitInBytes \<circ> al_res) allocs) (MemoryLimitInBytes l),
      OomScoreAdj = OomScoreAdj l,
      CpusetCpus = last_set [] (map (CpusetCpus \<circ> al_res) allocs) (CpusetCpus l),
      CpusetMems = last_set [] (map (CpusetMems \<circ> al_res) allocs) (CpusetMems l),
      MemorySwapLimitInBytes = last_set 0 (map (MemorySwapLimitInBytes \<circ> al_res) allocs) (MemorySwapLimitInBytes l)\<rparr>"

lemma merge_if_eff: "ensureContainerResources (merge_if b f r) = (if b then f (ensureContainerResources r) else ensureContainerResources r)"
  by (simp add: merge_if_def ensureContainerResources_def)

lemma Merge_eff:
  "ensureContainerResources (Merge a r) =
     (let x = al_res a; l = ensureContainerResources r in
      l\<lparr>CpuPeriod := if CpuPeriod x = 0 then CpuPeriod l else CpuPeriod x,
        CpuQuota := if CpuQuota x = 0 then CpuQuota l else CpuQuota x,
        CpuShares := if CpuShares x = 0 then CpuShares l else CpuShares x,
        MemoryLimitInBytes := if MemoryLimitInBytes x = 0 then MemoryLimitInBytes l else MemoryLimitInBytes x,
        CpusetCpus := if CpusetCpus x = [] then CpusetCpus l else CpusetCpus x,
        CpusetMems := if CpusetMems x = [] then CpusetMems l else CpusetMems x,
        MemorySwapLimitInBytes := if MemorySwapLimitInBytes x = 0 then MemorySwapLimitInBytes l else MemorySwapLimitInBytes x\<rparr>)"
proof (cases "al_Resources a")
  case None
  then show ?thesis by (simp add: Merge_def al_res_def ensureContainerResources_def[of None] zero_linux_resources_def Let_def)
next
  case (Some x)
  then have "al_res a = x" by (simp add: al_res_def ensureContainerResources_def)
  with Some show ?thesis
    by (simp add: Merge_def mergeMemoryResources_def mergeCPUSetResources_def mergeCPUResources_def merge_if_eff Let_def)
qed

lemma mergeAllocations_eff:
  "ensureContainerResources (mergeAllocations allocs r) = merged allocs (ensureContainerResources r)"
proof (induction allocs rule: rev_induct)
  case Nil
  then show ?case by (simp add: mergeAllocations_def merged_def last_set_def)
next
  case (snoc a allocs)
  have "mergeAllocations (allocs @ [a]) r = Merge a (mergeAllocations allocs r)" by (simp add: mergeAllocations_def)
  then show ?case by (simp add: Merge_eff snoc Let_def merged_def last_set_snoc)
qed

definition sets_nothing :: "linux_resources \<Rightarrow> bool" where
  "sets_nothing l \<longleftrightarrow> CpuPeriod l = 0 \<and> CpuQuota l = 0 \<and> CpuShares l = 0 \<and> MemoryLimitInBytes l = 0
     \<and> CpusetCpus l = [] \<and> CpusetMems l = [] \<and> MemorySwapLimitInBytes l = 0"

lemma merge_if_None: "merge_if b f r = None \<longleftrightarrow> r = None \<and> \<not> b"
  by (simp add: merge_if_def)

lemma Merge_None: "Merge a r = None \<longleftrightarrow> r = None \<and> sets_nothing (al_res a)"
proof (cases "al_Resources a")
  case None
  then show ?thesis
    by (simp add: Merge_def al_res_def ensureContainerResources_def sets_nothing_def zero_linux_resources_def)
next
  case (Some x)
  then have x: "al_res a = x" by (simp add: al_res_def ensureContainerResources_def)
  show ?thesis
    unfolding Merge_def Some option.case x mergeMemoryResources_def mergeCPUSetResources_def mergeCPUResources_def
      merge_if_None sets_nothing_def by blast
qed

text \<open>Merging the policies' allocations into a response sets each of the seven fields an allocation can set
  to the last value some policy gave it, and keeps the container's own value when none did; the OOM score is
  never touched; and a response without resources gets none when no policy sets anything.\<close>

theorem merge_last_wins:
  "ensureContainerResources (mergeAllocations allocs resp) = merged allocs (ensureContainerResources resp)
   \<and> (mergeAllocations allocs resp = None \<longleftrightarrow>
        resp = None \<and> list_all (\<lambda>a. sets_nothing (al_res a)) allocs)"
proof
  show "mergeAllocations allocs resp = None \<longleftrightarrow>
        resp = None \<and> list_all (\<lambda>a. sets_nothing (al_res a)) allocs"
    unfolding mergeAllocations_def by (induction allocs arbitrary: resp) (auto simp: Merge_None)
qed (rule mergeAllocations_eff)

section \<open>The life of a container\<close>

text \<open>What a hook request must carry: resources, with a memory limit that is an \<open>int64\<close>.\<close>

lemma hook_request_sane:
  assumes "hr_ContainerResources req = Some l" "in_i64 (MemoryLimitInBytes l)"
    and "newRequest (hook_ctx u d rt req) = Inr (Some r)"
  shows "sane_request r" "memLimit r = max 0 (MemoryLimitInBytes l)"
proof -
  let ?est = "EstimateRequirements (Some l) (hr_PodCgroupParent req)"
  from newRequest_Some[OF assms(3)] obtain res q lm where
    r: "cr_Resources (Request (hook_ctx u d rt req)) = Some res" "GetRequests res = Some q" "GetLimits res = Some lm"
      "cpuRequest r = Cpu q" "cpuLimit r = Cpu lm" "memLimit r = Memory lm" by metis
  have "EstimatedRequirements res = Some ?est"
    using r(1) assms(1) by (auto simp: hook_ctx_def req_FromProxy_def Let_def res_FromProxy_def)
  then have ql: "Requests ?est = Some q" "Limits ?est = Some lm" using r(2,3) by (simp_all add: GetRequests_def GetLimits_def)
  have "nonneg_list q" "nonneg_list lm"
    using EstimateRequirements_total[of "Some l" "hr_PodCgroupParent req"] ql by auto
  moreover have m: "Memory lm = max 0 (MemoryLimitInBytes l)"
    using ql(2) by (auto simp: estimate_defs split: if_splits)
  ultimately show "sane_request r" "memLimit r = max 0 (MemoryLimitInBytes l)"
    using assms(2) by (auto simp: sane_request_def nonneg_list_def r(4-6) in_i64_def)
qed

lemma call_one: "call_policies h ctx [p] w [] =
   (case h p w ctx of (w', Inl Panic) \<Rightarrow> (w', Inl Panic) | (w', Inl (Err _)) \<Rightarrow> (w', Inr [])
     | (w', Inr None) \<Rightarrow> (w', Inr []) | (w', Inr (Some a)) \<Rightarrow> (w', Inr [a]))"
  by (simp split: prod.splits sum.splits go_error.splits option.splits)

lemma finish_world: "fst (finish_hook req (call_policies h ctx [p] w [])) = fst (h p w ctx)"
  by (simp add: finish_hook_def call_one split: prod.splits sum.splits go_error.splits option.splits)

lemma manager_world:
  "fst (pm_PreCreateContainerHook u d rt [(n, topo_hook_policy sh parse)] w req)
     = fst (topo_PreCreateContainerHook sh w (hook_ctx u d rt req))"
  "fst (pm_PostStopContainerHook [(n, topo_hook_policy sh parse)] w req)
     = fst (topo_PostStopContainerHook w (bare_ctx (hr_ContainerId req) [] []))"
  unfolding pm_PreCreateContainerHook_def pm_PostStopContainerHook_def ListPolicies_def
  by (simp_all del: call_policies.simps add: finish_world topo_hook_policy_def)

text \<open>After the creation hook the policy is unchanged, or the container's grant was allocated.\<close>

lemma topo_create_cases:
  "fst (topo_PreCreateContainerHook sh w ctx) = w
   \<or> (\<exists>p' g. allocatePool (tw_policy w) ctx = (p', Inr g) \<and> fst (topo_PreCreateContainerHook sh w ctx) = w\<lparr>tw_policy := p'\<rparr>)"
  using allocatePool_error[of "tw_policy w" ctx]
  by (auto simp: topo_PreCreateContainerHook_def AllocateResources_def Let_def split: prod.splits sum.splits option.splits)

lemma bare_ctx_sel [simp]:
  "cm_ID (ContainerMeta (Request (bare_ctx i n u))) = i" "pm_UID (PodMeta (Request (bare_ctx i n u))) = u"
  "grant_id (bare_ctx i n u) = u @ '':'' @ n"
  by (simp_all add: bare_ctx_def grant_id_def)

text \<open>After a creation hook the policy is unchanged, or the container's pool has been allocated. Releasing the
  container's key gives the policy back.\<close>

definition allocates :: "policy \<Rightarrow> container_ctx \<Rightarrow> policy \<Rightarrow> bool" where
  "allocates p ctx p' \<longleftrightarrow> p' = p \<or> (\<exists>g. allocatePool p ctx = (p', Inr g))"

lemma release_restores:
  assumes "books p" "allocates p (hook_ctx u d rt req) p'" "i \<noteq> []" "uid \<noteq> []"
    and "name = hr_ContainerName req" "uid = pm_UID (hr_PodMeta req)"
    and "hr_ContainerResources req = Some l" "in_i64 (MemoryLimitInBytes l)"
    and "counter_at p 0 CMemory + max 0 (MemoryLimitInBytes l) div 1024 < 18446744073709551616"
    and "map_of (p_grants p) (uid @ '':'' @ name) = None"
  shows "fst (ReleaseResources p' (bare_ctx i name uid)) = p"
proof -
  let ?ctx = "hook_ctx u d rt req" and ?stop = "bare_ctx i name uid"
  have rel: "fst (ReleaseResources q ?stop) = fst (releasePool q ?stop)" for q
    using assms(3,4) by (simp add: ReleaseResources_def)
  have key: "grant_id ?stop = grant_id ?ctx"
    using assms(5,6) by (simp add: grant_id_def bare_ctx_def hook_ctx_def req_FromProxy_def Let_def)
  from assms(2) show ?thesis
    unfolding allocates_def
  proof
    assume "p' = p"
    then show ?thesis using assms(10) by (simp add: rel releasePool_def)
  next
    assume "\<exists>g. allocatePool p ?ctx = (p', Inr g)"
    then obtain g where a: "allocatePool p ?ctx = (p', Inr g)" by blast
    obtain r where r: "newRequest ?ctx = Inr (Some r)"
      using a by (auto simp: allocatePool_def split: sum.splits option.splits)
    note s = hook_request_sane[OF assms(7,8) r]
    have room: "roomy p r" using assms(9) s(2) by (simp add: roomy_def mem_kb_eq[OF s(1)])
    have fresh: "map_of (p_grants p) (grant_id ?ctx) = None" using assms(10) key by simp
    have "releasePool p' ?stop = (p, Some g)"
      by (rule release_after_alloc[OF assms(1) r s(1) room fresh a key]) (use assms(3,4) in simp_all)
    then show ?thesis by (simp add: rel)
  qed
qed

definition demo_pm :: "(string, tap_world hook_policy) gomap" where
  "demo_pm = [(''topology-aware'', topo_hook_policy (\<lambda>s. if s = {0, 1} then ''0-1'' else []) (\<lambda>_. None))]"

end
