(* ===== verification/Dispatcher.thy ===== *)
theory Dispatcher
  imports PolicyManager CacheLoad
begin

text \<open>
  The dispatcher between the container runtime's proxies and the policy manager
  (\<^verbatim>\<open>pkg/kunpeng-tap/server/dispatcher/dispatcher.go\<close>, \<^verbatim>\<open>utils.go\<close>) and the calls of the CRI proxy that go through
  it (\<^verbatim>\<open>server/containerd/runtime.go\<close>). A request is turned into a hook message, the policy manager answers it,
  the answer is written back into the request and into the message, the request goes to the runtime, and the
  message is what the cache remembers. The runtime behind the proxy is a parameter: a function from the request
  it is handed to its reply or its error. An operation on a locked cache never returns, which is \<open>None\<close>.
\<close>

section \<open>Messages\<close>

datatype hook_type =
  PreRunPodSandbox | PostStopPodSandbox | PreRemovePodSandbox | PreCreateContainer | PreStartContainer
| PostStartContainer | PostStopContainer | PreRemoveContainer | PreUpdateContainerResources | NoneHookType

datatype runtime_resource_type = RuntimePodResource | RuntimeContainerResource | RuntimeNoopResource

text \<open>The resources of the CRI and of the hook messages are two generated types with the same fields; an item of
  the huge page limits may be a nil pointer.\<close>

record full_resources = linux_resources +
  Unified :: "(string, string) gomap"
  HugepageLimits :: "(string \<times> int) option list"

text \<open>The messages to the hooks. A map that is an option may be nil; \<open>cx_PodMeta\<close> carries the pod's ID.\<close>

record ctr_message =
  cx_PodMeta :: "(pod_meta \<times> string) option"
  cx_Name :: string
  cx_Id :: string
  cx_Attempt :: int
  cx_PodResources :: "linux_resources option"
  cx_ContainerAnnotations :: "(string, string) gomap option"
  cx_ContainerResources :: "full_resources option"
  cx_PodAnnotations :: "(string, string) gomap"
  cx_PodLabels :: "(string, string) gomap"
  cx_PodCgroupParent :: string
  cx_ContainerEnvs :: "(string, string) gomap option"

record pod_message =
  px_Uid :: string
  px_Name :: string
  px_Namespace :: string
  px_RuntimeHandler :: string
  px_Annotations :: "(string, string) gomap option"
  px_Labels :: "(string, string) gomap option"
  px_CgroupParent :: string
  px_Resources :: "full_resources option"

datatype hook_msg = CtrMsg ctr_message | PodMsg pod_message

record ctr_response =
  rx_ContainerAnnotations :: "(string, string) gomap option"
  rx_ContainerResources :: "full_resources option"
  rx_PodCgroupParent :: string
  rx_ContainerEnvs :: "(string, string) gomap option"

record pod_response =
  ry_Annotations :: "(string, string) gomap option"
  ry_Labels :: "(string, string) gomap option"
  ry_CgroupParent :: string
  ry_Resources :: "full_resources option"

datatype hook_reply = CtrReply ctr_response | PodReply pod_response

text \<open>What the policy manager and the cache read of a message.\<close>

definition nil_map :: "('k, 'v) gomap option \<Rightarrow> ('k, 'v) gomap" where
  "nil_map m = (case m of None \<Rightarrow> [] | Some m \<Rightarrow> m)"

definition no_pod_meta :: pod_meta where
  "no_pod_meta = \<lparr>pm_Namespace = [], pm_Name = [], pm_UID = []\<rparr>"

definition hook_request_of :: "ctr_message \<Rightarrow> hook_request" where
  "hook_request_of m =
     \<lparr>hr_PodMeta = (case cx_PodMeta m of None \<Rightarrow> no_pod_meta | Some (pm, _) \<Rightarrow> pm),
      hr_ContainerName = cx_Name m, hr_ContainerId = cx_Id m, hr_PodLabels = cx_PodLabels m,
      hr_PodAnnotations = cx_PodAnnotations m, hr_PodCgroupParent = cx_PodCgroupParent m,
      hr_ContainerEnvs = cx_ContainerEnvs m,
      hr_ContainerResources = map_option linux_resources.truncate (cx_ContainerResources m)\<rparr>"

definition ctr_hook_of :: "ctr_message \<Rightarrow> container_hook_request" where
  "ctr_hook_of m =
     \<lparr>ch_PodId = map_option snd (cx_PodMeta m), ch_Id = cx_Id m, ch_Name = cx_Name m,
      ch_Resources = map_option linux_resources.truncate (cx_ContainerResources m)\<rparr>"

definition pod_hook_of :: "pod_message \<Rightarrow> pod_hook_request" where
  "pod_hook_of m =
     \<lparr>ph_Uid = px_Uid m, ph_Name = px_Name m, ph_Namespace = px_Namespace m, ph_Id = [],
      ph_Labels = nil_map (px_Labels m), ph_Annotations = nil_map (px_Annotations m),
      ph_CgroupParent = px_CgroupParent m, ph_Resources = map_option linux_resources.truncate (px_Resources m)\<rparr>"

text \<open>The manager's answer repeats the message, with the resources its policies have merged.\<close>

definition with_rest :: "full_resources option \<Rightarrow> linux_resources option \<Rightarrow> full_resources option" where
  "with_rest orig res =
     map_option (\<lambda>l. linux_resources.extend l
       (case orig of None \<Rightarrow> full_resources.fields [] [] | Some f \<Rightarrow> linux_resources.more f)) res"

definition ctr_reply_of :: "ctr_message \<Rightarrow> hook_response \<Rightarrow> ctr_response" where
  "ctr_reply_of m r =
     \<lparr>rx_ContainerAnnotations = cx_ContainerAnnotations m,
      rx_ContainerResources = with_rest (cx_ContainerResources m) (hs_ContainerResources r),
      rx_PodCgroupParent = cx_PodCgroupParent m, rx_ContainerEnvs = hs_ContainerEnvs r\<rparr>"

definition echo_ctr :: "ctr_message \<Rightarrow> ctr_response" where
  "echo_ctr m = ctr_reply_of m (echo_response (hook_request_of m))"

definition echo_pod :: "pod_message \<Rightarrow> pod_response" where
  "echo_pod m = \<lparr>ry_Annotations = px_Annotations m, ry_Labels = px_Labels m, ry_CgroupParent = px_CgroupParent m,
     ry_Resources = px_Resources m\<rparr>"

section \<open>The requests of the proxies\<close>

text \<open>The metadata of a CRI container is its name and the number of the attempt.\<close>

record cri_config =
  cc_Metadata :: "(string \<times> int) option"
  cc_Annotations :: "(string, string) gomap option"
  cc_Labels :: "(string, string) gomap"
  cc_Envs :: "(string \<times> string) option list"
  cc_Linux :: "full_resources option option"

record cri_pod_linux =
  pl_CgroupParent :: string
  pl_Resources :: "full_resources option"

record cri_sandbox_config =
  sc_Metadata :: "pod_meta option"
  sc_Annotations :: "(string, string) gomap option"
  sc_Labels :: "(string, string) gomap option"
  sc_Linux :: "cri_pod_linux option"

record create_container_request =
  cq_PodSandboxId :: string
  cq_Config :: "cri_config option"
  cq_SandboxConfig :: "cri_sandbox_config option"

record run_sandbox_request =
  rq_Config :: "cri_sandbox_config option"
  rq_RuntimeHandler :: string

datatype cri_request =
  CriCreate create_container_request | CriStop string | CriRunSandbox run_sandbox_request | CriStopSandbox string

text \<open>Docker answers the creation of a sandbox and of a container alike: the message tells them apart.\<close>

datatype runtime_reply = ContainerCreated string | SandboxRunning string | DockerCreated string | OtherReply

record config_wrapper =
  cw_Labels :: "(string, string) gomap"
  cw_Env :: "string list"
  cw_HostConfig :: "host_config option"

record docker_create_request = config_wrapper +
  dr_RuntimeResourceType :: runtime_resource_type
  dr_ContainerRawName :: string
  dr_ContainerRawLabel :: "(string, string) gomap"
  dr_ContainerRawAnnotations :: "(string, string) gomap"
  dr_ContainerName :: string
  dr_PodName :: string
  dr_PodNamespace :: string
  dr_PodUid :: string

datatype tap_request = TapCri cri_request | TapDockerCreate docker_create_request | TapDockerStop string

datatype proxy_request = ProxyCri cri_request | ProxyDocker config_wrapper

record dispatcher =
  d_manager :: "(string, tap_world hook_policy) gomap"
  d_unmarshal :: "string \<Rightarrow> (string, resource_requirements) gomap option"
  d_driver :: cgroup_driver
  d_runtime :: string
  d_dockerCgroupDriver :: string

definition SetDockerCgroupDriver :: "string \<Rightarrow> dispatcher \<Rightarrow> dispatcher" where
  "SetDockerCgroupDriver s d = d\<lparr>d_dockerCgroupDriver := s\<rparr>"

section \<open>Conversions\<close>

definition TransferToCRIContainerEnvs :: "(string, string) gomap option \<Rightarrow> (string \<times> string) option list" where
  "TransferToCRIContainerEnvs envs = (case envs of None \<Rightarrow> [] | Some m \<Rightarrow> map Some m)"

definition env_item :: "(string \<times> string) option \<Rightarrow> string \<times> string" where
  "env_item e = (case e of None \<Rightarrow> ([], []) | Some kv \<Rightarrow> kv)"

definition TransferCRIContainerEnvsToMap :: "(string \<times> string) option list \<Rightarrow> (string, string) gomap" where
  "TransferCRIContainerEnvsToMap envs =
     foldl (\<lambda>res e. AList.update (fst (env_item e)) (snd (env_item e)) res) [] envs"

definition copy_limits :: "(string \<times> int) option list \<Rightarrow> (string \<times> int) option list" where
  "copy_limits items = map (\<lambda>i. Some (case i of None \<Rightarrow> ([], 0) | Some h \<Rightarrow> h)) items"

definition TransferToCRIResources :: "full_resources option \<Rightarrow> full_resources option" where
  "TransferToCRIResources r =
     (case r of
        None \<Rightarrow> None
      | Some r \<Rightarrow> Some \<lparr>CpuPeriod = CpuPeriod r, CpuQuota = CpuQuota r, CpuShares = CpuShares r,
          MemoryLimitInBytes = MemoryLimitInBytes r, OomScoreAdj = OomScoreAdj r, CpusetCpus = CpusetCpus r,
          CpusetMems = CpusetMems r, MemorySwapLimitInBytes = MemorySwapLimitInBytes r, Unified = Unified r,
          HugepageLimits = copy_limits (HugepageLimits r)\<rparr>)"

definition TransferToHookResources :: "full_resources option \<Rightarrow> full_resources option" where
  "TransferToHookResources r =
     (case r of
        None \<Rightarrow> None
      | Some r \<Rightarrow> Some \<lparr>CpuPeriod = CpuPeriod r, CpuQuota = CpuQuota r, CpuShares = CpuShares r,
          MemoryLimitInBytes = MemoryLimitInBytes r, OomScoreAdj = OomScoreAdj r, CpusetCpus = CpusetCpus r,
          CpusetMems = CpusetMems r, MemorySwapLimitInBytes = MemorySwapLimitInBytes r, Unified = Unified r,
          HugepageLimits = copy_limits (HugepageLimits r)\<rparr>)"

definition GetResourceTypeFromHookType :: "hook_type \<Rightarrow> runtime_resource_type" where
  "GetResourceTypeFromHookType t =
     (case t of
        PreRunPodSandbox \<Rightarrow> RuntimePodResource | PostStopPodSandbox \<Rightarrow> RuntimePodResource
      | PreRemovePodSandbox \<Rightarrow> RuntimePodResource
      | PreCreateContainer \<Rightarrow> RuntimeContainerResource | PreStartContainer \<Rightarrow> RuntimeContainerResource
      | PostStartContainer \<Rightarrow> RuntimeContainerResource | PostStopContainer \<Rightarrow> RuntimeContainerResource
      | PreRemoveContainer \<Rightarrow> RuntimeContainerResource | PreUpdateContainerResources \<Rightarrow> RuntimeContainerResource
      | NoneHookType \<Rightarrow> RuntimeNoopResource)"

definition SkipTAPHandle :: "(string, string) gomap \<Rightarrow> bool" where
  "SkipTAPHandle labels \<longleftrightarrow> map_of labels ''tap.kunpeng.huawei.com/skip'' \<noteq> None"

definition host_resources :: "host_config option \<Rightarrow> full_resources option" where
  "host_resources h = map_option (\<lambda>l. linux_resources.extend l (full_resources.fields [] [])) (HostConfigToResource h)"

section \<open>Parsing the requests\<close>

text \<open>The getters of the generated messages answer a nil message with the zero value.\<close>

definition buildContainerResourceHookRequest ::
  "pod \<Rightarrow> string \<Rightarrow> int \<Rightarrow> (string, string) gomap option \<Rightarrow> full_resources option
   \<Rightarrow> (string, string) gomap option \<Rightarrow> ctr_message" where
  "buildContainerResourceHookRequest podInfo name attempt annos res envs =
     \<lparr>cx_PodMeta = Some (\<lparr>pm_Namespace = po_Namespace podInfo, pm_Name = po_Name podInfo, pm_UID = po_UID podInfo\<rparr>,
                         po_ID podInfo),
      cx_Name = name, cx_Id = [], cx_Attempt = attempt, cx_PodResources = po_LinuxReq podInfo,
      cx_ContainerAnnotations = annos, cx_ContainerResources = res, cx_PodAnnotations = po_Annotations podInfo,
      cx_PodLabels = po_Labels podInfo, cx_PodCgroupParent = po_CgroupParent podInfo, cx_ContainerEnvs = envs\<rparr>"

definition stop_message :: "string \<Rightarrow> ctr_message" where
  "stop_message i =
     \<lparr>cx_PodMeta = None, cx_Name = [], cx_Id = i, cx_Attempt = 0, cx_PodResources = None,
      cx_ContainerAnnotations = None, cx_ContainerResources = None, cx_PodAnnotations = [], cx_PodLabels = [],
      cx_PodCgroupParent = [], cx_ContainerEnvs = None\<rparr>"

definition parseCRICreateContainerRequest :: "create_container_request \<Rightarrow> pod \<Rightarrow> ctr_message" where
  "parseCRICreateContainerRequest q podInfo =
     (case cq_Config q of
        None \<Rightarrow> buildContainerResourceHookRequest podInfo [] 0 None None (Some [])
      | Some cfg \<Rightarrow>
          buildContainerResourceHookRequest podInfo
            (case cc_Metadata cfg of None \<Rightarrow> [] | Some (n, _) \<Rightarrow> n)
            (case cc_Metadata cfg of None \<Rightarrow> 0 | Some (_, a) \<Rightarrow> a)
            (cc_Annotations cfg)
            (TransferToHookResources (case cc_Linux cfg of None \<Rightarrow> None | Some r \<Rightarrow> r))
            (Some (TransferCRIContainerEnvsToMap (cc_Envs cfg))))"

definition parseDockerCreateContainerRequest :: "docker_create_request \<Rightarrow> pod \<Rightarrow> ctr_message" where
  "parseDockerCreateContainerRequest q podInfo =
     buildContainerResourceHookRequest podInfo (dr_ContainerName q) 0 (Some (dr_ContainerRawAnnotations q))
       (host_resources (cw_HostConfig q)) (Some (SplitDockerEnv (cw_Env q)))"

definition label_at :: "(string, string) gomap \<Rightarrow> string \<Rightarrow> string" where
  "label_at m k = (case map_of m k of None \<Rightarrow> [] | Some v \<Rightarrow> v)"

text \<open>A container whose pod is not in the cache has no message.\<close>

definition ParseContainerRequest :: "tap_request \<Rightarrow> cache \<Rightarrow> (cache \<times> hook_msg option) option" where
  "ParseContainerRequest req c =
     (case req of
        TapCri (CriCreate q) \<Rightarrow>
          map_option (\<lambda>(c', p). (c', map_option (\<lambda>p. CtrMsg (parseCRICreateContainerRequest q p)) p))
            (LookupPod (cq_PodSandboxId q) c)
      | TapDockerCreate q \<Rightarrow>
          map_option (\<lambda>(c', p). (c', map_option (\<lambda>p. CtrMsg (parseDockerCreateContainerRequest q p)) p))
            (LookupPod (label_at (cw_Labels q) ''io.kubernetes.sandbox.id'') c)
      | TapCri (CriStop i) \<Rightarrow> Some (c, Some (CtrMsg (stop_message i)))
      | TapDockerStop i \<Rightarrow> Some (c, Some (CtrMsg (stop_message i)))
      | _ \<Rightarrow> Some (c, None))"

text \<open>A Docker request without a host configuration is dereferenced.\<close>

definition ParsePodRequest :: "dispatcher \<Rightarrow> tap_request \<Rightarrow> hook_msg option result" where
  "ParsePodRequest d req =
     (case req of
        TapCri (CriRunSandbox q) \<Rightarrow>
          (case rq_Config q of
             None \<Rightarrow> Inr (Some (PodMsg \<lparr>px_Uid = [], px_Name = [], px_Namespace = [],
               px_RuntimeHandler = rq_RuntimeHandler q, px_Annotations = None, px_Labels = None,
               px_CgroupParent = [], px_Resources = None\<rparr>))
           | Some cfg \<Rightarrow>
               (let pm = (case sc_Metadata cfg of None \<Rightarrow> no_pod_meta | Some pm \<Rightarrow> pm) in
                Inr (Some (PodMsg \<lparr>px_Uid = pm_UID pm, px_Name = pm_Name pm, px_Namespace = pm_Namespace pm,
                  px_RuntimeHandler = rq_RuntimeHandler q, px_Annotations = sc_Annotations cfg,
                  px_Labels = sc_Labels cfg,
                  px_CgroupParent = (case sc_Linux cfg of None \<Rightarrow> [] | Some l \<Rightarrow> pl_CgroupParent l),
                  px_Resources = None\<rparr>))))
      | TapDockerCreate q \<Rightarrow>
          (case cw_HostConfig q of
             None \<Rightarrow> Inl Panic
           | Some h \<Rightarrow>
               Inr (Some (PodMsg \<lparr>px_Uid = dr_PodUid q, px_Name = dr_PodName q, px_Namespace = dr_PodNamespace q,
                 px_RuntimeHandler = ''docker'', px_Annotations = Some (dr_ContainerRawAnnotations q),
                 px_Labels = Some (dr_ContainerRawLabel q),
                 px_CgroupParent = ToCriCgroupPath (d_dockerCgroupDriver d) (hc_CgroupParent h),
                 px_Resources = host_resources (Some h)\<rparr>)))
      | _ \<Rightarrow> Inr None)"

section \<open>Writing the answer back\<close>

text \<open>Each step writes one part of the answer into the request and into the hook message.\<close>

definition blank_sandbox_config :: cri_sandbox_config where
  "blank_sandbox_config = \<lparr>sc_Metadata = None, sc_Annotations = None, sc_Labels = None, sc_Linux = None\<rparr>"

definition blank_cri_config :: cri_config where
  "blank_cri_config = \<lparr>cc_Metadata = None, cc_Annotations = None, cc_Labels = [], cc_Envs = [], cc_Linux = None\<rparr>"

definition blank_pod_linux :: cri_pod_linux where
  "blank_pod_linux = \<lparr>pl_CgroupParent = [], pl_Resources = None\<rparr>"

definition or_blank :: "'a option \<Rightarrow> 'a \<Rightarrow> 'a" where
  "or_blank x b = (case x of None \<Rightarrow> b | Some y \<Rightarrow> y)"

definition put_sandbox_parent :: "string \<Rightarrow> cri_sandbox_config option \<Rightarrow> cri_sandbox_config" where
  "put_sandbox_parent parent s =
     (let cfg = or_blank s blank_sandbox_config
      in cfg\<lparr>sc_Linux := Some ((or_blank (sc_Linux cfg) blank_pod_linux)\<lparr>pl_CgroupParent := parent\<rparr>)\<rparr>)"

definition fill_cri_config :: "ctr_response \<Rightarrow> cri_config \<Rightarrow> cri_config" where
  "fill_cri_config r cfg =
     (let c1 = (case rx_ContainerAnnotations r of None \<Rightarrow> cfg | Some a \<Rightarrow> cfg\<lparr>cc_Annotations := Some a\<rparr>);
          c2 = (case rx_ContainerResources r of None \<Rightarrow> c1
                | Some res \<Rightarrow> c1\<lparr>cc_Linux := Some (TransferToCRIResources (Some res))\<rparr>)
      in c2\<lparr>cc_Envs := TransferToCRIContainerEnvs (rx_ContainerEnvs r)\<rparr>)"

definition fill_cri_message :: "ctr_response \<Rightarrow> ctr_message \<Rightarrow> ctr_message" where
  "fill_cri_message r m =
     (let m1 = (case rx_ContainerAnnotations r of None \<Rightarrow> m | Some a \<Rightarrow> m\<lparr>cx_ContainerAnnotations := Some a\<rparr>);
          m2 = (case rx_ContainerResources r of None \<Rightarrow> m1
                | Some res \<Rightarrow> m1\<lparr>cx_ContainerResources := Some res\<rparr>);
          m3 = (if rx_PodCgroupParent r \<noteq> [] then m2\<lparr>cx_PodCgroupParent := rx_PodCgroupParent r\<rparr> else m2)
      in m3\<lparr>cx_ContainerEnvs := rx_ContainerEnvs r\<rparr>)"

definition fill_docker :: "string \<Rightarrow> ctr_response \<Rightarrow> config_wrapper \<Rightarrow> config_wrapper" where
  "fill_docker driver r w =
     (let w1 = (case rx_ContainerResources r of None \<Rightarrow> w
                | Some res \<Rightarrow> w\<lparr>cw_HostConfig :=
                    UpdateHostConfigByResource (cw_HostConfig w) (Some (linux_resources.truncate res))\<rparr>);
          w2 = (case cw_HostConfig w1 of
                  Some h \<Rightarrow> (if rx_PodCgroupParent r \<noteq> []
                             then w1\<lparr>cw_HostConfig := Some (h\<lparr>hc_CgroupParent :=
                                    GenerateExpectedCgroupParent driver (rx_PodCgroupParent r)\<rparr>)\<rparr> else w1)
                | None \<Rightarrow> w1)
      in (case rx_ContainerEnvs r of None \<Rightarrow> w2 | Some envs \<Rightarrow> w2\<lparr>cw_Env := GenerateEnvList envs\<rparr>))"

definition fill_docker_message :: "config_wrapper \<Rightarrow> ctr_response \<Rightarrow> ctr_message \<Rightarrow> ctr_message" where
  "fill_docker_message w r m =
     (let m1 = (case rx_ContainerResources r of None \<Rightarrow> m
                | Some res \<Rightarrow> m\<lparr>cx_ContainerResources := Some res\<rparr>);
          m2 = (if rx_PodCgroupParent r \<noteq> [] \<and> cw_HostConfig w \<noteq> None
                then m1\<lparr>cx_PodCgroupParent := rx_PodCgroupParent r\<rparr> else m1)
      in (case rx_ContainerEnvs r of None \<Rightarrow> m2 | Some envs \<Rightarrow> m2\<lparr>cx_ContainerEnvs := Some envs\<rparr>))"

definition BackfillContainerRequest ::
  "string \<Rightarrow> proxy_request \<Rightarrow> ctr_message \<Rightarrow> ctr_response \<Rightarrow> proxy_request \<times> ctr_message" where
  "BackfillContainerRequest driver proxyReq m r =
     (case proxyReq of
        ProxyCri (CriCreate q) \<Rightarrow>
          (ProxyCri (CriCreate (q\<lparr>cq_Config := Some (fill_cri_config r (or_blank (cq_Config q) blank_cri_config)),
             cq_SandboxConfig := (if rx_PodCgroupParent r \<noteq> []
               then Some (put_sandbox_parent (rx_PodCgroupParent r) (cq_SandboxConfig q)) else cq_SandboxConfig q)\<rparr>)),
           fill_cri_message r m)
      | ProxyDocker w \<Rightarrow> (ProxyDocker (fill_docker driver r w), fill_docker_message w r m)
      | _ \<Rightarrow> (proxyReq, m))"

definition fill_sandbox :: "pod_response \<Rightarrow> cri_sandbox_config \<Rightarrow> cri_sandbox_config" where
  "fill_sandbox r cfg =
     (let c1 = (case ry_Annotations r of None \<Rightarrow> cfg | Some a \<Rightarrow> cfg\<lparr>sc_Annotations := Some a\<rparr>);
          c2 = (case ry_Labels r of None \<Rightarrow> c1 | Some l \<Rightarrow> c1\<lparr>sc_Labels := Some l\<rparr>);
          c3 = (if ry_CgroupParent r \<noteq> [] then put_sandbox_parent (ry_CgroupParent r) (Some c2) else c2)
      in (case ry_Resources r of
            None \<Rightarrow> c3
          | Some res \<Rightarrow> c3\<lparr>sc_Linux := Some ((or_blank (sc_Linux c3) blank_pod_linux)
              \<lparr>pl_Resources := TransferToCRIResources (Some res)\<rparr>)\<rparr>))"

definition fill_sandbox_message :: "pod_response \<Rightarrow> pod_message \<Rightarrow> pod_message" where
  "fill_sandbox_message r m =
     (let m1 = (case ry_Annotations r of None \<Rightarrow> m | Some a \<Rightarrow> m\<lparr>px_Annotations := Some a\<rparr>);
          m2 = (case ry_Labels r of None \<Rightarrow> m1 | Some l \<Rightarrow> m1\<lparr>px_Labels := Some l\<rparr>);
          m3 = (if ry_CgroupParent r \<noteq> [] then m2\<lparr>px_CgroupParent := ry_CgroupParent r\<rparr> else m2)
      in (case ry_Resources r of None \<Rightarrow> m3 | Some res \<Rightarrow> m3\<lparr>px_Resources := Some res\<rparr>))"

definition fill_docker_pod :: "string \<Rightarrow> pod_response \<Rightarrow> config_wrapper \<Rightarrow> pod_message \<Rightarrow> config_wrapper \<times> pod_message" where
  "fill_docker_pod driver r w m =
     (let (w1, m1) = (case ry_Resources r of None \<Rightarrow> (w, m)
            | Some res \<Rightarrow> (w\<lparr>cw_HostConfig :=
                UpdateHostConfigByResource (cw_HostConfig w) (Some (linux_resources.truncate res))\<rparr>,
                m\<lparr>px_Resources := Some res\<rparr>))
      in (case cw_HostConfig w1 of
            Some h \<Rightarrow> (if ry_CgroupParent r \<noteq> []
               then (w1\<lparr>cw_HostConfig := Some (h\<lparr>hc_CgroupParent := GenerateExpectedCgroupParent driver (ry_CgroupParent r)\<rparr>)\<rparr>,
                     m1\<lparr>px_CgroupParent := ry_CgroupParent r\<rparr>)
               else (w1, m1))
          | None \<Rightarrow> (w1, m1)))"

definition BackfillPodRequest ::
  "string \<Rightarrow> proxy_request \<Rightarrow> pod_message \<Rightarrow> pod_response \<Rightarrow> proxy_request \<times> pod_message" where
  "BackfillPodRequest driver proxyReq m r =
     (case proxyReq of
        ProxyCri (CriRunSandbox q) \<Rightarrow>
          (ProxyCri (CriRunSandbox (q\<lparr>rq_Config := Some (fill_sandbox r (or_blank (rq_Config q) blank_sandbox_config))\<rparr>)),
           fill_sandbox_message r m)
      | ProxyDocker w \<Rightarrow> (case fill_docker_pod driver r w m of (w', m') \<Rightarrow> (ProxyDocker w', m'))
      | _ \<Rightarrow> (proxyReq, m))"

text \<open>A reply of the other kind than the message leaves both unchanged.\<close>

definition BackfillRequest ::
  "dispatcher \<Rightarrow> proxy_request \<Rightarrow> hook_msg \<Rightarrow> hook_reply option \<Rightarrow> proxy_request \<times> hook_msg" where
  "BackfillRequest d proxyReq msg reply =
     (case (reply, msg) of
        (Some (PodReply r), PodMsg m) \<Rightarrow>
          (case BackfillPodRequest (d_dockerCgroupDriver d) proxyReq m r of (q, m') \<Rightarrow> (q, PodMsg m'))
      | (Some (CtrReply r), CtrMsg m) \<Rightarrow>
          (case BackfillContainerRequest (d_dockerCgroupDriver d) proxyReq m r of (q, m') \<Rightarrow> (q, CtrMsg m'))
      | _ \<Rightarrow> (proxyReq, msg))"

section \<open>Dispatching\<close>

definition with_reply ::
  "(tap_world \<times> hook_response result) \<Rightarrow> ctr_message \<Rightarrow> tap_world \<times> hook_reply option result" where
  "with_reply r m = (case r of (w, Inl e) \<Rightarrow> (w, Inl e) | (w, Inr h) \<Rightarrow> (w, Inr (Some (CtrReply (ctr_reply_of m h)))))"

text \<open>A message of the wrong kind fails the type assertion and panics; the removal of a container has no case.\<close>

definition dispatchInternal ::
  "dispatcher \<Rightarrow> hook_type \<Rightarrow> hook_msg \<Rightarrow> tap_world \<Rightarrow> tap_world \<times> hook_reply option result" where
  "dispatchInternal d hookType msg w =
     (case GetResourceTypeFromHookType hookType of
        RuntimePodResource \<Rightarrow>
          (case msg of PodMsg m \<Rightarrow> (w, Inr (Some (PodReply (echo_pod m)))) | CtrMsg _ \<Rightarrow> (w, Inl Panic))
      | RuntimeNoopResource \<Rightarrow> (w, Inl (Err ''method not implemented''))
      | RuntimeContainerResource \<Rightarrow>
          (if hookType = PreRemoveContainer then (w, Inl (Err ''method not implemented''))
           else (case msg of
                   PodMsg _ \<Rightarrow> (w, Inl Panic)
                 | CtrMsg m \<Rightarrow>
                     if hookType = PreCreateContainer
                     then with_reply (pm_PreCreateContainerHook (d_unmarshal d) (d_driver d) (d_runtime d)
                            (d_manager d) w (hook_request_of m)) m
                     else if hookType = PostStopContainer
                     then with_reply (pm_PostStopContainerHook (d_manager d) w (hook_request_of m)) m
                     else (w, Inr (Some (CtrReply (echo_ctr m)))))))"

text \<open>An error of the hook is logged and answers nothing.\<close>

definition Dispatch ::
  "dispatcher \<Rightarrow> hook_type \<Rightarrow> hook_msg \<Rightarrow> (string, string) gomap \<Rightarrow> tap_world \<Rightarrow> tap_world \<times> hook_reply option result" where
  "Dispatch d hookType msg labels w =
     (if SkipTAPHandle labels then (w, Inr None)
      else (case dispatchInternal d hookType msg w of
              (w', Inl (Err _)) \<Rightarrow> (w', Inr None) | (w', r) \<Rightarrow> (w', r)))"

definition in_cache :: "(cache \<Rightarrow> (cache \<times> 'a) option) \<Rightarrow> tap_world \<Rightarrow> (tap_world \<times> 'a) option" where
  "in_cache f w = (case f (tw_cache w) of None \<Rightarrow> None | Some (c, r) \<Rightarrow> Some (w\<lparr>tw_cache := c\<rparr>, r))"

text \<open>An error of the cache is logged; a panic is not.\<close>

definition logged :: "'a result \<Rightarrow> unit result" where
  "logged r = (case r of Inl Panic \<Rightarrow> Inl Panic | _ \<Rightarrow> Inr ())"

definition ctr_msg_of :: "hook_msg \<Rightarrow> container_msg" where
  "ctr_msg_of m = (case m of CtrMsg m \<Rightarrow> CtrHook (ctr_hook_of m) | PodMsg _ \<Rightarrow> CtrOther)"

definition pod_msg_of :: "hook_msg \<Rightarrow> pod_msg" where
  "pod_msg_of m = (case m of PodMsg m \<Rightarrow> PodHook (pod_hook_of m) | CtrMsg _ \<Rightarrow> PodOther)"

definition InsertIntoCacheIfNeed :: "runtime_reply \<Rightarrow> hook_msg \<Rightarrow> cache \<Rightarrow> (cache \<times> unit result) option" where
  "InsertIntoCacheIfNeed reply msg c =
     (case reply of
        ContainerCreated i \<Rightarrow> map_option (\<lambda>(c', r). (c', logged r)) (InsertContainer i (ctr_msg_of msg) c)
      | SandboxRunning i \<Rightarrow> map_option (\<lambda>(c', r). (c', logged r)) (InsertPod i (pod_msg_of msg) None c)
      | DockerCreated i \<Rightarrow>
          (case msg of
             CtrMsg m \<Rightarrow> map_option (\<lambda>(c', r). (c', logged r)) (InsertContainer i (CtrHook (ctr_hook_of m)) c)
           | PodMsg m \<Rightarrow> map_option (\<lambda>(c', r). (c', logged r)) (InsertPod i (PodHook (pod_hook_of m)) None c))
      | OtherReply \<Rightarrow> Some (c, Inr ()))"

definition DeleteFromCacheIfNeed :: "tap_request \<Rightarrow> cache \<Rightarrow> (cache \<times> unit) option" where
  "DeleteFromCacheIfNeed req c =
     (case req of
        TapCri (CriStop i) \<Rightarrow> map_option (\<lambda>(c', _). (c', ())) (DeleteContainer i c)
      | TapCri (CriStopSandbox i) \<Rightarrow> map_option (\<lambda>(c', _). (c', ())) (DeletePod i c)
      | TapDockerStop i \<Rightarrow> map_option (\<lambda>(c', _). (c', ())) (DeleteContainer i c)
      | _ \<Rightarrow> Some (c, ()))"

section \<open>Intercepting a call of the CRI\<close>

text \<open>The message a call has, if any.\<close>

definition hook_message ::
  "dispatcher \<Rightarrow> hook_type \<Rightarrow> cri_request \<Rightarrow> cache \<Rightarrow> (cache \<times> hook_msg option) option" where
  "hook_message d hookType req c =
     (case GetResourceTypeFromHookType hookType of
        RuntimeContainerResource \<Rightarrow> ParseContainerRequest (TapCri req) c
      | RuntimePodResource \<Rightarrow>
          Some (c, (case ParsePodRequest d (TapCri req) of Inl _ \<Rightarrow> None | Inr m \<Rightarrow> m))
      | RuntimeNoopResource \<Rightarrow> Some (c, None))"

text \<open>The hook and the writing back: the request that goes to the runtime and the message that goes to the cache.\<close>

definition run_hook ::
  "dispatcher \<Rightarrow> hook_type \<Rightarrow> cri_request \<Rightarrow> (string, string) gomap \<Rightarrow> hook_msg option \<Rightarrow> tap_world
   \<Rightarrow> tap_world \<times> (cri_request \<times> hook_msg option) result" where
  "run_hook d hookType req labels msg w =
     (case msg of
        None \<Rightarrow> (w, Inr (req, None))
      | Some m \<Rightarrow>
          (case Dispatch d hookType m labels w of
             (w', Inl e) \<Rightarrow> (w', Inl e)
           | (w', Inr reply) \<Rightarrow>
               (case BackfillRequest d (ProxyCri req) m reply of
                  (q, m') \<Rightarrow> (w', Inr (case q of ProxyCri r \<Rightarrow> r | ProxyDocker _ \<Rightarrow> req, Some m')))))"

definition after_runtime ::
  "hook_msg option \<Rightarrow> runtime_reply result \<Rightarrow> tap_world \<Rightarrow> (tap_world \<times> runtime_reply result) option" where
  "after_runtime msg reply w =
     (case (reply, msg) of
        (Inl e, _) \<Rightarrow> Some (w, Inl e)
      | (Inr r, None) \<Rightarrow> Some (w, Inr r)
      | (Inr r, Some m) \<Rightarrow>
          (case in_cache (InsertIntoCacheIfNeed r m) w of
             None \<Rightarrow> None
           | Some (w', Inl e) \<Rightarrow> Some (w', Inl e)
           | Some (w', Inr _) \<Rightarrow> Some (w', Inr r)))"

text \<open>The deletion is deferred: it runs on every return after the message has been made, errors included.\<close>

definition deferred_delete ::
  "cri_request \<Rightarrow> (tap_world \<times> 'a) option \<Rightarrow> (tap_world \<times> 'a) option" where
  "deferred_delete req r =
     (case r of
        None \<Rightarrow> None
      | Some (w, x) \<Rightarrow> map_option (\<lambda>(w', _). (w', x)) (in_cache (DeleteFromCacheIfNeed (TapCri req)) w))"

definition InterceptRuntimeRequest ::
  "dispatcher \<Rightarrow> hook_type \<Rightarrow> cri_request \<Rightarrow> (string, string) gomap \<Rightarrow> (cri_request \<Rightarrow> runtime_reply result)
   \<Rightarrow> tap_world \<Rightarrow> (tap_world \<times> runtime_reply result) option" where
  "InterceptRuntimeRequest d hookType req labels handler w =
     (case in_cache (hook_message d hookType req) w of
        None \<Rightarrow> None
      | Some (w1, msg) \<Rightarrow>
          deferred_delete req
            (case run_hook d hookType req labels msg w1 of
               (w2, Inl e) \<Rightarrow> Some (w2, Inl e)
             | (w2, Inr (req', msg')) \<Rightarrow> after_runtime msg' (handler req') w2))"

section \<open>The CRI proxy\<close>

text \<open>The runtime's side of each call asserts the type of the request it is handed, and the proxy the type of the
  reply. The calls log the names first, through the pointers of the request: a request without a configuration
  or its metadata panics. Every other call of the CRI goes to the runtime as it is.\<close>

definition run_handler :: "(run_sandbox_request \<Rightarrow> string result) \<Rightarrow> cri_request \<Rightarrow> runtime_reply result" where
  "run_handler runtime req = (case req of CriRunSandbox q \<Rightarrow> map_sum id SandboxRunning (runtime q) | _ \<Rightarrow> Inl Panic)"

definition create_handler :: "(create_container_request \<Rightarrow> string result) \<Rightarrow> cri_request \<Rightarrow> runtime_reply result" where
  "create_handler runtime req = (case req of CriCreate q \<Rightarrow> map_sum id ContainerCreated (runtime q) | _ \<Rightarrow> Inl Panic)"

definition stop_handler :: "(string \<Rightarrow> unit result) \<Rightarrow> cri_request \<Rightarrow> runtime_reply result" where
  "stop_handler runtime req =
     (case req of CriStop i \<Rightarrow> map_sum id (\<lambda>_. OtherReply) (runtime i)
                | CriStopSandbox i \<Rightarrow> map_sum id (\<lambda>_. OtherReply) (runtime i) | _ \<Rightarrow> Inl Panic)"

definition reply_id :: "runtime_reply result \<Rightarrow> string result" where
  "reply_id r = (case r of Inl e \<Rightarrow> Inl e | Inr (ContainerCreated i) \<Rightarrow> Inr i | Inr (SandboxRunning i) \<Rightarrow> Inr i
                 | Inr _ \<Rightarrow> Inl Panic)"

definition reply_unit :: "runtime_reply result \<Rightarrow> unit result" where
  "reply_unit r = map_sum id (\<lambda>_. ()) r"

definition cri_RunPodSandbox ::
  "dispatcher \<Rightarrow> (run_sandbox_request \<Rightarrow> string result) \<Rightarrow> run_sandbox_request \<Rightarrow> tap_world
   \<Rightarrow> (tap_world \<times> string result) option" where
  "cri_RunPodSandbox d runtime q w =
     (case rq_Config q of
        None \<Rightarrow> Some (w, Inl Panic)
      | Some cfg \<Rightarrow>
          if sc_Metadata cfg = None then Some (w, Inl Panic)
          else map_option (apsnd reply_id)
            (InterceptRuntimeRequest d PreRunPodSandbox (CriRunSandbox q) (nil_map (sc_Labels cfg)) (run_handler runtime) w))"

definition cri_StopPodSandbox ::
  "dispatcher \<Rightarrow> (string \<Rightarrow> unit result) \<Rightarrow> string \<Rightarrow> tap_world \<Rightarrow> (tap_world \<times> unit result) option" where
  "cri_StopPodSandbox d runtime i w =
     map_option (apsnd reply_unit)
       (InterceptRuntimeRequest d PostStopPodSandbox (CriStopSandbox i) [] (stop_handler runtime) w)"

definition cri_CreateContainer ::
  "dispatcher \<Rightarrow> (create_container_request \<Rightarrow> string result) \<Rightarrow> create_container_request \<Rightarrow> tap_world
   \<Rightarrow> (tap_world \<times> string result) option" where
  "cri_CreateContainer d runtime q w =
     (case (cq_Config q, cq_SandboxConfig q) of
        (Some cfg, Some sb) \<Rightarrow>
          if cc_Metadata cfg = None \<or> sc_Metadata sb = None then Some (w, Inl Panic)
          else map_option (apsnd reply_id)
            (InterceptRuntimeRequest d PreCreateContainer (CriCreate q) (cc_Labels cfg) (create_handler runtime) w)
      | _ \<Rightarrow> Some (w, Inl Panic))"

definition cri_StopContainer ::
  "dispatcher \<Rightarrow> (string \<Rightarrow> unit result) \<Rightarrow> string \<Rightarrow> tap_world \<Rightarrow> (tap_world \<times> unit result) option" where
  "cri_StopContainer d runtime i w =
     map_option (apsnd reply_unit)
       (InterceptRuntimeRequest d PostStopContainer (CriStop i) [] (stop_handler runtime) w)"

end
