(* ===== verification/DispatcherOk.thy ===== *)
theory DispatcherOk
  imports Dispatcher
begin

text \<open>
  What the CRI proxy promises when the topology-aware policy is the registered one: no call blocks, the cache
  stays well formed, every change of the policy is an allocation or a release, and a container that is created
  and stopped leaves everything as it was.
\<close>

section \<open>The cache behind the proxy\<close>

text \<open>Pods are filed under their own ID and have the map of their containers: the proxies insert no other.\<close>

definition pods_ok :: "cache \<Rightarrow> bool" where
  "pods_ok c \<longleftrightarrow> (\<forall>i p. map_of (Pods c) i = Some p \<longrightarrow> po_ID p = i \<and> po_containers p \<noteq> None)"

definition tap_inv :: "cache \<Rightarrow> bool" where
  "tap_inv c \<longleftrightarrow> keyed c \<and> pods_ok c"

lemma tap_invD: "tap_inv c \<Longrightarrow> keyed c" "tap_inv c \<Longrightarrow> pods_ok c"
  by (simp_all add: tap_inv_def)

lemma pods_okD: "pods_ok c \<Longrightarrow> map_of (Pods c) i = Some p \<Longrightarrow> po_ID p = i"
  "pods_ok c \<Longrightarrow> map_of (Pods c) i = Some p \<Longrightarrow> \<exists>m. po_containers p = Some m"
  by (auto simp: pods_ok_def)

lemma tap_inv_new: "tap_inv new_cache"
  by (simp add: tap_inv_def keyed_new) (simp add: pods_ok_def new_cache_def)

lemma LookupPod_spec: "keyed c \<Longrightarrow> LookupPod i c = Some (c, map_of (Pods c) i)"
  using keyedD(1)[of c] by (simp add: LookupPod_def with_lock_free)

lemma pod_from_hook [simp]:
  "po_ID (pod_fromDockerRunRequest p m) = po_ID p" "po_containers (pod_fromDockerRunRequest p m) = Some []"
  "po_UID (pod_fromDockerRunRequest p m) = ph_Uid m"
  by (simp_all add: pod_fromDockerRunRequest_def set_qos_def split: option.splits)

lemma InsertPod_inv:
  assumes "tap_inv c"
  shows "\<exists>c' r. InsertPod i (pod_msg_of m) st c = Some (c', r) \<and> tap_inv c' \<and> view c' = view c \<and> r \<noteq> Inl Panic"
proof -
  obtain c' r where r: "InsertPod i (pod_msg_of m) st c = Some (c', r)" "keyed c'" "view c' = view c"
    using InsertPod_spec[OF tap_invD(1)[OF assms]] by metis
  have "pods_ok c' \<and> r \<noteq> Inl Panic"
    using r(1) tap_invD(2)[OF assms] keyedD(1)[OF tap_invD(1)[OF assms]]
    by (auto simp: InsertPod_def with_lock_free pods_ok_def pod_msg_of_def blank_pod_def split: hook_msg.splits if_splits)
  with r show ?thesis by (auto simp: tap_inv_def)
qed

lemma DeletePod_inv:
  assumes "tap_inv c"
  shows "\<exists>c'. DeletePod i c = Some (c', map_of (Pods c) i) \<and> tap_inv c' \<and> view c' = view c
     \<and> map_of (Pods c') = (map_of (Pods c))(i := None)"
proof -
  note k = tap_invD(1)[OF assms]
  show ?thesis
  proof (cases "map_of (Pods c) i")
    case None
    moreover have "c\<lparr>c_locked := False\<rparr> = c" using keyedD(1)[OF k] by simp
    ultimately show ?thesis
      using assms by (auto simp: DeletePod_def with_lock_free[OF keyedD(1)[OF k]] fun_eq_iff)
  next
    case (Some p)
    let ?c = "c\<lparr>Pods := AList.delete i (Pods c), c_locked := False\<rparr>"
    have "keyed ?c" by (rule keyed_frame[OF k]) (use keyedD(2)[OF k] in simp_all)
    moreover have "view ?c = view c" by (rule view_frame) simp_all
    moreover have "pods_ok ?c" using tap_invD(2)[OF assms] by (simp add: pods_ok_def)
    ultimately show ?thesis
      using Some by (simp add: DeletePod_def with_lock_free[OF keyedD(1)[OF k]] tap_inv_def)
  qed
qed

text \<open>A container of a known pod is inserted with what its message carries.\<close>

lemma register_known:
  assumes "pods_ok c" "map_of (Pods c) pid = Some pod"
  obtains P where "register pid n i c = Inr (c\<lparr>Pods := P\<rparr>)" "pods_ok (c\<lparr>Pods := P\<rparr>)"
    "map_option po_UID (map_of P pid) = Some (po_UID pod)"
proof -
  obtain m where m: "po_containers pod = Some m" using pods_okD(2)[OF assms] by blast
  show thesis
  proof (cases "map_of m n")
    case None
    let ?P = "AList.update pid (pod\<lparr>po_containers := Some (AList.update n i m)\<rparr>) (Pods c)"
    have "pods_ok (c\<lparr>Pods := ?P\<rparr>)" using assms pods_okD[OF assms] by (simp add: pods_ok_def)
    with that[of ?P] None m assms(2) show thesis by (simp add: register_def)
  next
    case (Some j)
    with that[of "Pods c"] m assms show thesis by (simp add: register_def)
  qed
qed

lemma InsertContainer_hook:
  assumes "tap_inv c" "i \<noteq> []" "ch_PodId m = Some pid" "map_of (Pods c) pid = Some pod"
  shows "\<exists>c' k. InsertContainer i (CtrHook m) c = Some (c', Inr k) \<and> tap_inv c' \<and> view c' = (view c)(i \<mapsto> k)
     \<and> ct_ID k = i \<and> ct_Name k = ch_Name m \<and> ct_PodID k = pid \<and> ct_LinuxReq k = ch_Resources m
     \<and> map_option po_UID (ctr_GetPod c' k) = Some (po_UID pod)"
proof -
  note inv = tap_invD[OF assms(1)]
  let ?c = "c\<lparr>c_locked := True\<rparr>"
  have "pods_ok ?c" "map_of (Pods ?c) pid = Some pod" using inv(2) assms(4) by (simp_all add: pods_ok_def)
  then obtain P where P: "register pid (ch_Name m) (ch_Id m) ?c = Inr (?c\<lparr>Pods := P\<rparr>)" "pods_ok (?c\<lparr>Pods := P\<rparr>)"
    "map_option po_UID (map_of P pid) = Some (po_UID pod)" using register_known by metis
  let ?k = "blank_container\<lparr>ct_PodID := pid, ct_ID := i, ct_Name := ch_Name m, ct_Namespace := po_Namespace pod,
    ct_State := ContainerStateCreating, ct_Resources := po_Resources pod, ct_LinuxReq := ch_Resources m\<rparr>"
  have b: "insert_body i (CtrHook m) ?c = (?c\<lparr>Pods := P, c_store := c_store c @ [?k],
      Containers := AList.update i (length (c_store c)) (Containers c)\<rparr>, Inr ?k)"
    using assms(3,4) P(1) by (simp add: insert_body_def ctr_fromDockerRunRequest_def Let_def)
  define c' where "c' = c\<lparr>c_locked := False, Pods := P, c_store := c_store c @ [?k],
      Containers := AList.update i (length (c_store c)) (Containers c)\<rparr>"
  define k where "k = ?k"
  have ins: "InsertContainer i (CtrHook m) c = Some (c', Inr k)"
    by (simp add: InsertContainer_def with_lock_free[OF keyedD(1)[OF inv(1)]] b c'_def k_def)
  obtain c1 r where r: "InsertContainer i (CtrHook m) c = Some (c1, r)" "keyed c1"
    "case r of Inl _ \<Rightarrow> c1 = c | Inr k \<Rightarrow> view c1 = (view c)(i \<mapsto> k) \<and> ct_ID k = i"
    using InsertContainer_spec[OF inv(1) assms(2), of "CtrHook m"] by (elim exE conjE) (rule that)
  have eq: "c1 = c'" "r = Inr k" using r(1) ins by simp_all
  have "keyed c'" using r(2) eq(1) by simp
  moreover have "view c' = (view c)(i \<mapsto> k)" using r(3) unfolding eq by simp
  moreover have "pods_ok c'" using P(2) by (simp add: pods_ok_def c'_def)
  moreover have "map_option po_UID (ctr_GetPod c' k) = Some (po_UID pod)" by (simp add: ctr_GetPod_def k_def c'_def P(3))
  moreover have "ct_ID k = i" "ct_Name k = ch_Name m" "ct_PodID k = pid" "ct_LinuxReq k = ch_Resources m"
    by (simp_all add: k_def)
  ultimately show ?thesis using ins by (intro exI[of _ c'] exI[of _ k] conjI) (simp_all add: tap_inv_def)
qed

lemma InsertContainer_unknown:
  assumes "tap_inv c" "i \<noteq> []" "case ch_PodId m of None \<Rightarrow> map_of (Pods c) [] = None | Some pid \<Rightarrow> map_of (Pods c) pid = None"
  shows "\<exists>e. InsertContainer i (CtrHook m) c = Some (c, Inl (Err e))"
  using assms(3) keyedD(1)[OF tap_invD(1)[OF assms(1)]]
  by (auto simp: InsertContainer_def with_lock_free insert_body_def ctr_fromDockerRunRequest_def blank_container_def
      Let_def split: option.splits)

lemma DeleteContainer_inv:
  assumes "tap_inv c"
  shows "\<exists>c'. DeleteContainer i c = Some (c', view c i) \<and> tap_inv c' \<and> view c' = (view c)(i := None) \<and> Pods c' = Pods c"
  using DeleteContainer_spec[OF tap_invD(1)[OF assms], of i] tap_invD(2)[OF assms]
  by (auto simp: tap_inv_def pods_ok_def)

section \<open>The hooks behind the proxy\<close>

text \<open>The dispatcher of a manager that has registered the topology-aware policy, and nothing else.\<close>

definition topo_only :: "dispatcher \<Rightarrow> bool" where
  "topo_only d \<longleftrightarrow> (\<exists>n sh parse. d_manager d = [(n, topo_hook_policy sh parse)])"

text \<open>What the stop hook of a container does to the policy: it releases the grant of the container's key, which
  it finds through the container and its pod in the cache.\<close>

definition stopped_policy :: "tap_world \<Rightarrow> string \<Rightarrow> policy" where
  "stopped_policy w i =
     (case view (tw_cache w) i of
        None \<Rightarrow> tw_policy w
      | Some k \<Rightarrow>
          (case ctr_GetPod (tw_cache w) k of
             None \<Rightarrow> tw_policy w
           | Some pod \<Rightarrow> fst (ReleaseResources (tw_policy w) (bare_ctx i (ct_Name k) (po_UID pod)))))"

lemma topo_stop_world:
  assumes "keyed (tw_cache w)"
  shows "\<exists>r. topo_PostStopContainerHook w (bare_ctx i [] []) = (w\<lparr>tw_policy := stopped_policy w i\<rparr>, r) \<and> r \<noteq> Inl Panic"
proof (cases "view (tw_cache w) i")
  case None
  then show ?thesis
    using LookupContainer_spec[OF assms, of i] by (simp add: topo_PostStopContainerHook_def stopped_policy_def)
next
  case (Some k)
  have i: "i \<noteq> []" using Some keyedD(7)[OF assms] by (auto simp: view_def)
  show ?thesis
    using LookupContainer_spec[OF assms, of i] i Some view_keyed[OF assms Some]
    by (cases "ctr_GetPod (tw_cache w) k") (simp_all add: topo_PostStopContainerHook_def stopped_policy_def ReleaseResources_def)
qed

lemma pm_stop_world:
  assumes "keyed (tw_cache w)" "topo_only d"
  shows "\<exists>r. pm_PostStopContainerHook (d_manager d) w req = (w\<lparr>tw_policy := stopped_policy w (hr_ContainerId req)\<rparr>, Inr r)"
proof -
  from assms(2) obtain n sh parse where m: "d_manager d = [(n, topo_hook_policy sh parse)]" by (auto simp: topo_only_def)
  obtain r where r: "topo_PostStopContainerHook w (bare_ctx (hr_ContainerId req) [] [])
      = (w\<lparr>tw_policy := stopped_policy w (hr_ContainerId req)\<rparr>, r)" "r \<noteq> Inl Panic"
    using topo_stop_world[OF assms(1)] by blast
  have "hp_PostStopContainerHook (topo_hook_policy sh parse) = topo_PostStopContainerHook" by (simp add: topo_hook_policy_def)
  then show ?thesis
    using r unfolding pm_PostStopContainerHook_def m ListPolicies_def
    by (simp del: call_policies.simps add: call_one finish_hook_def split: sum.splits option.splits go_error.splits)
qed

lemma Dispatch_stop:
  assumes "keyed (tw_cache w)" "topo_only d"
  shows "\<exists>r. Dispatch d PostStopContainer (CtrMsg (stop_message i)) [] w
    = (w\<lparr>tw_policy := stopped_policy w i\<rparr>, Inr (Some (CtrReply r)))"
proof -
  obtain r where "pm_PostStopContainerHook (d_manager d) w (hook_request_of (stop_message i))
      = (w\<lparr>tw_policy := stopped_policy w i\<rparr>, Inr r)"
    using pm_stop_world[OF assms, of "hook_request_of (stop_message i)"] by (auto simp: hook_request_of_def stop_message_def)
  then show ?thesis
    by (simp add: Dispatch_def SkipTAPHandle_def dispatchInternal_def GetResourceTypeFromHookType_def with_reply_def)
qed

text \<open>Stopping a container: the grant is released and the container leaves the cache, whatever the runtime answers.\<close>

lemma cri_stop_spec:
  assumes "tap_inv (tw_cache w)" "topo_only d"
  shows "\<exists>c'. cri_StopContainer d runtime i w = Some (\<lparr>tw_policy = stopped_policy w i, tw_cache = c'\<rparr>, runtime i)
     \<and> tap_inv c' \<and> view c' = (view (tw_cache w))(i := None) \<and> Pods c' = Pods (tw_cache w)"
proof -
  obtain c' where c': "DeleteContainer i (tw_cache w) = Some (c', view (tw_cache w) i)" "tap_inv c'"
    "view c' = (view (tw_cache w))(i := None)" "Pods c' = Pods (tw_cache w)"
    using DeleteContainer_inv[OF assms(1)] by blast
  obtain r where r: "Dispatch d PostStopContainer (CtrMsg (stop_message i)) [] w
    = (w\<lparr>tw_policy := stopped_policy w i\<rparr>, Inr (Some (CtrReply r)))"
    using Dispatch_stop[OF tap_invD(1)[OF assms(1)] assms(2)] by blast
  have "reply_unit (stop_handler runtime (CriStop i)) = runtime i"
    by (cases "runtime i") (simp_all add: stop_handler_def reply_unit_def)
  moreover have "after_runtime (Some m) (stop_handler runtime (CriStop i)) v = Some (v, stop_handler runtime (CriStop i))" for m v
    by (cases "runtime i") (simp_all add: stop_handler_def after_runtime_def in_cache_def InsertIntoCacheIfNeed_def)
  ultimately have "cri_StopContainer d runtime i w = Some (\<lparr>tw_policy = stopped_policy w i, tw_cache = c'\<rparr>, runtime i)"
    by (simp add: cri_StopContainer_def InterceptRuntimeRequest_def hook_message_def GetResourceTypeFromHookType_def
        ParseContainerRequest_def in_cache_def run_hook_def r BackfillRequest_def BackfillContainerRequest_def
        deferred_delete_def DeleteFromCacheIfNeed_def c'(1))
  with c' show ?thesis by blast
qed

text \<open>Stopping a sandbox forgets the pod; running one files it. The policy is not involved.\<close>

lemma cri_stop_sandbox_spec:
  assumes "tap_inv (tw_cache w)"
  shows "\<exists>c'. cri_StopPodSandbox d runtime i w = Some (w\<lparr>tw_cache := c'\<rparr>, runtime i)
     \<and> tap_inv c' \<and> view c' = view (tw_cache w) \<and> map_of (Pods c') = (map_of (Pods (tw_cache w)))(i := None)"
proof -
  obtain c' where c': "DeletePod i (tw_cache w) = Some (c', map_of (Pods (tw_cache w)) i)" "tap_inv c'"
    "view c' = view (tw_cache w)" "map_of (Pods c') = (map_of (Pods (tw_cache w)))(i := None)"
    using DeletePod_inv[OF assms(1)] by blast
  have "cri_StopPodSandbox d runtime i w = Some (w\<lparr>tw_cache := c'\<rparr>, runtime i)"
    by (cases "runtime i") (simp_all add: cri_StopPodSandbox_def InterceptRuntimeRequest_def hook_message_def
        GetResourceTypeFromHookType_def ParsePodRequest_def in_cache_def run_hook_def after_runtime_def stop_handler_def
        reply_unit_def deferred_delete_def DeleteFromCacheIfNeed_def c'(1))
  with c' show ?thesis by blast
qed

lemma Dispatch_run: "\<exists>r. Dispatch d PreRunPodSandbox (PodMsg m) labels w = (w, Inr r) \<and> (r = None \<or> r = Some (PodReply (echo_pod m)))"
  by (simp add: Dispatch_def dispatchInternal_def GetResourceTypeFromHookType_def)

lemma cri_run_spec:
  assumes "tap_inv (tw_cache w)"
  shows "\<exists>c' r. cri_RunPodSandbox d runtime q w = Some (w\<lparr>tw_cache := c'\<rparr>, r)
     \<and> tap_inv c' \<and> view c' = view (tw_cache w)"
proof (cases "rq_Config q")
  case None
  then show ?thesis using assms by (intro exI[of _ "tw_cache w"]) (simp add: cri_RunPodSandbox_def)
next
  case (Some cfg)
  show ?thesis
  proof (cases "sc_Metadata cfg")
    case None
    with Some show ?thesis using assms by (intro exI[of _ "tw_cache w"]) (simp add: cri_RunPodSandbox_def)
  next
    case (Some pm)
    note cfg = \<open>rq_Config q = Some cfg\<close> Some
    obtain m where m: "ParsePodRequest d (TapCri (CriRunSandbox q)) = Inr (Some (PodMsg m))"
      using cfg by (simp add: ParsePodRequest_def Let_def)
    obtain r where r: "Dispatch d PreRunPodSandbox (PodMsg m) (nil_map (sc_Labels cfg)) w = (w, Inr r)"
      "r = None \<or> r = Some (PodReply (echo_pod m))" using Dispatch_run by blast
    obtain q' m' where b: "BackfillRequest d (ProxyCri (CriRunSandbox q)) (PodMsg m) r = (ProxyCri (CriRunSandbox q'), PodMsg m')"
      using r(2) by (auto simp: BackfillRequest_def BackfillPodRequest_def)
    have h: "run_hook d PreRunPodSandbox (CriRunSandbox q) (nil_map (sc_Labels cfg)) (Some (PodMsg m)) w
        = (w, Inr (CriRunSandbox q', Some (PodMsg m')))"
      by (simp add: run_hook_def r(1) b)
    have "\<exists>c' rr. after_runtime (Some (PodMsg m')) (run_handler runtime (CriRunSandbox q')) w = Some (w\<lparr>tw_cache := c'\<rparr>, rr)
        \<and> tap_inv c' \<and> view c' = view (tw_cache w)"
    proof (cases "runtime q'")
      case (Inl e)
      then show ?thesis
        using assms by (intro exI[of _ "tw_cache w"]) (simp add: after_runtime_def run_handler_def)
    next
      case (Inr i)
      obtain c' x where "InsertPod i (pod_msg_of (PodMsg m')) None (tw_cache w) = Some (c', x)" "tap_inv c'"
        "view c' = view (tw_cache w)" "x \<noteq> Inl Panic" using InsertPod_inv[OF assms] by blast
      then show ?thesis
        by (intro exI[of _ c'])
          (simp add: after_runtime_def run_handler_def Inr in_cache_def InsertIntoCacheIfNeed_def split: sum.splits)
    qed
    then obtain c' rr where a: "after_runtime (Some (PodMsg m')) (run_handler runtime (CriRunSandbox q')) w = Some (w\<lparr>tw_cache := c'\<rparr>, rr)"
      "tap_inv c'" "view c' = view (tw_cache w)" by blast
    have "cri_RunPodSandbox d runtime q w = Some (w\<lparr>tw_cache := c'\<rparr>, reply_id rr)"
      by (simp add: cri_RunPodSandbox_def cfg InterceptRuntimeRequest_def hook_message_def GetResourceTypeFromHookType_def
          m in_cache_def h a(1) deferred_delete_def DeleteFromCacheIfNeed_def)
    with a show ?thesis by blast
  qed
qed

section \<open>Creating a container\<close>

definition create_ctx :: "dispatcher \<Rightarrow> ctr_message \<Rightarrow> container_ctx" where
  "create_ctx d m = hook_ctx (d_unmarshal d) (d_driver d) (d_runtime d) (hook_request_of m)"

lemma pm_create_world:
  assumes "topo_only d"
  shows "\<exists>p' h. pm_PreCreateContainerHook (d_unmarshal d) (d_driver d) (d_runtime d) (d_manager d) w (hook_request_of m)
      = (w\<lparr>tw_policy := p'\<rparr>, h) \<and> allocates (tw_policy w) (create_ctx d m) p' \<and> (\<forall>e. h = Inl e \<longrightarrow> e = Panic)"
proof -
  from assms obtain n sh parse where mg: "d_manager d = [(n, topo_hook_policy sh parse)]" by (auto simp: topo_only_def)
  obtain w' h where h: "pm_PreCreateContainerHook (d_unmarshal d) (d_driver d) (d_runtime d) (d_manager d) w (hook_request_of m) = (w', h)"
    by fastforce
  then have w': "w' = fst (topo_PreCreateContainerHook sh w (create_ctx d m))"
    using manager_world(1)[of "d_unmarshal d" "d_driver d" "d_runtime d" n sh parse w "hook_request_of m"]
    by (simp add: mg create_ctx_def)
  have "\<exists>p'. w' = w\<lparr>tw_policy := p'\<rparr> \<and> allocates (tw_policy w) (create_ctx d m) p'"
    using topo_create_cases[of sh w "create_ctx d m"] unfolding w' allocates_def by (metis tap_world.surjective tap_world.update_convs(1))
  moreover have "e = Panic" if "h = Inl e" for e
    using h that unfolding pm_PreCreateContainerHook_def mg ListPolicies_def
    by (auto simp del: call_policies.simps simp: call_one finish_hook_def split: prod.splits sum.splits option.splits go_error.splits)
  ultimately show ?thesis using h by blast
qed

text \<open>The resources a creation request carries, as the hooks and the cache read them.\<close>

definition sent_resources :: "create_container_request \<Rightarrow> linux_resources option" where
  "sent_resources q =
     (case cq_Config q of None \<Rightarrow> None
      | Some cfg \<Rightarrow> map_option linux_resources.truncate (case cc_Linux cfg of None \<Rightarrow> None | Some r \<Rightarrow> r))"

lemma transfer_truncate [simp]:
  "map_option linux_resources.truncate (TransferToCRIResources r) = map_option linux_resources.truncate r"
  "map_option linux_resources.truncate (TransferToHookResources r) = map_option linux_resources.truncate r"
  by (simp_all add: TransferToCRIResources_def TransferToHookResources_def linux_resources.truncate_def split: option.splits)

lemma parse_create_fields [simp]:
  "cx_PodMeta (parseCRICreateContainerRequest q pod)
     = Some (\<lparr>pm_Namespace = po_Namespace pod, pm_Name = po_Name pod, pm_UID = po_UID pod\<rparr>, po_ID pod)"
  "map_option linux_resources.truncate (cx_ContainerResources (parseCRICreateContainerRequest q pod)) = sent_resources q"
  by (simp_all add: parseCRICreateContainerRequest_def buildContainerResourceHookRequest_def sent_resources_def
      split: option.splits)

lemma fill_create:
  assumes "sent_resources q = map_option linux_resources.truncate (cx_ContainerResources m)"
    and "BackfillRequest d (ProxyCri (CriCreate q)) (CtrMsg m) (Some (CtrReply r)) = (pq, hm)"
  obtains q' m' where "pq = ProxyCri (CriCreate q')" "hm = CtrMsg m'" "cx_Name m' = cx_Name m" "cx_PodMeta m' = cx_PodMeta m"
    "sent_resources q' = map_option linux_resources.truncate (cx_ContainerResources m')"
    "\<forall>res. rx_ContainerResources r = Some res \<longrightarrow> sent_resources q' = Some (linux_resources.truncate res)"
proof -
  let ?q = "q\<lparr>cq_Config := Some (fill_cri_config r (or_blank (cq_Config q) blank_cri_config)),
     cq_SandboxConfig := (if rx_PodCgroupParent r \<noteq> []
       then Some (put_sandbox_parent (rx_PodCgroupParent r) (cq_SandboxConfig q)) else cq_SandboxConfig q)\<rparr>"
  have eq: "pq = ProxyCri (CriCreate ?q)" "hm = CtrMsg (fill_cri_message r m)"
    using assms(2) by (simp_all add: BackfillRequest_def BackfillContainerRequest_def)
  have "cx_Name (fill_cri_message r m) = cx_Name m" "cx_PodMeta (fill_cri_message r m) = cx_PodMeta m"
    by (simp_all add: fill_cri_message_def Let_def split: option.splits)
  moreover have "sent_resources ?q = map_option linux_resources.truncate (cx_ContainerResources (fill_cri_message r m))"
    using assms(1)
    by (simp add: sent_resources_def fill_cri_config_def fill_cri_message_def or_blank_def blank_cri_config_def Let_def
        TransferToCRIResources_def linux_resources.truncate_def split: option.splits)
  moreover have "\<forall>res. rx_ContainerResources r = Some res \<longrightarrow> sent_resources ?q = Some (linux_resources.truncate res)"
    by (simp add: sent_resources_def fill_cri_config_def Let_def TransferToCRIResources_def
        linux_resources.truncate_def split: option.splits)
  ultimately show thesis using eq by (intro that)
qed

text \<open>Either nothing of the policy has changed, or the manager has answered and the resources of its answer are
  those of the request that goes to the runtime.\<close>

definition answered :: "dispatcher \<Rightarrow> tap_world \<Rightarrow> ctr_message \<Rightarrow> policy \<Rightarrow> create_container_request \<Rightarrow> bool" where
  "answered d w m p' q' \<longleftrightarrow> p' = tw_policy w
     \<or> (\<exists>x. pm_PreCreateContainerHook (d_unmarshal d) (d_driver d) (d_runtime d) (d_manager d) w (hook_request_of m)
              = (w\<lparr>tw_policy := p'\<rparr>, Inr x)
          \<and> (hs_ContainerResources x \<noteq> None \<longrightarrow> sent_resources q' = hs_ContainerResources x))"

lemma with_rest_truncate: "with_rest f r = Some res \<Longrightarrow> r = Some (linux_resources.truncate res)"
  by (cases r) (auto simp: with_rest_def linux_resources.truncate_def linux_resources.extend_def split: option.splits)

lemma with_rest_None: "with_rest f r = None \<longleftrightarrow> r = None"
  by (simp add: with_rest_def)

text \<open>What a creation comes to once the pod is known: the hook, the request as the runtime gets it, and the message
  as the cache gets it.\<close>

lemma create_hook:
  assumes "topo_only d"
  obtains p' where "allocates (tw_policy w) (create_ctx d (parseCRICreateContainerRequest q pod)) p'"
      "run_hook d PreCreateContainer (CriCreate q) labels (Some (CtrMsg (parseCRICreateContainerRequest q pod))) w
         = (w\<lparr>tw_policy := p'\<rparr>, Inl Panic)"
  | p' q' m' where "allocates (tw_policy w) (create_ctx d (parseCRICreateContainerRequest q pod)) p'"
      "run_hook d PreCreateContainer (CriCreate q) labels (Some (CtrMsg (parseCRICreateContainerRequest q pod))) w
         = (w\<lparr>tw_policy := p'\<rparr>, Inr (CriCreate q', Some (CtrMsg m')))"
      "cx_Name m' = cx_Name (parseCRICreateContainerRequest q pod)"
      "cx_PodMeta m' = cx_PodMeta (parseCRICreateContainerRequest q pod)"
      "sent_resources q' = map_option linux_resources.truncate (cx_ContainerResources m')"
      "answered d w (parseCRICreateContainerRequest q pod) p' q'"
proof -
  let ?m = "parseCRICreateContainerRequest q pod"
  show thesis
  proof (cases "SkipTAPHandle labels")
    case True
    then have "run_hook d PreCreateContainer (CriCreate q) labels (Some (CtrMsg ?m)) w
        = (w\<lparr>tw_policy := tw_policy w\<rparr>, Inr (CriCreate q, Some (CtrMsg ?m)))"
      by (simp add: run_hook_def Dispatch_def BackfillRequest_def)
    then show thesis by (rule that(2)[rotated]) (simp_all add: allocates_def answered_def)
  next
    case False
    obtain p' h where h: "pm_PreCreateContainerHook (d_unmarshal d) (d_driver d) (d_runtime d) (d_manager d) w (hook_request_of ?m)
        = (w\<lparr>tw_policy := p'\<rparr>, h)" "allocates (tw_policy w) (create_ctx d ?m) p'" "\<forall>e. h = Inl e \<longrightarrow> e = Panic"
      using pm_create_world[OF assms, of w ?m] by blast
    note dis = False h(1) run_hook_def Dispatch_def dispatchInternal_def GetResourceTypeFromHookType_def with_reply_def
    show thesis
    proof (cases h)
      case (Inl e)
      with h(3) have "run_hook d PreCreateContainer (CriCreate q) labels (Some (CtrMsg ?m)) w = (w\<lparr>tw_policy := p'\<rparr>, Inl Panic)"
        by (simp add: dis)
      with h(2) show thesis by (rule that(1))
    next
      case (Inr x)
      obtain pq hm where b: "BackfillRequest d (ProxyCri (CriCreate q)) (CtrMsg ?m) (Some (CtrReply (ctr_reply_of ?m x))) = (pq, hm)"
        by fastforce
      obtain q' m' where f: "pq = ProxyCri (CriCreate q')" "hm = CtrMsg m'" "cx_Name m' = cx_Name ?m"
        "cx_PodMeta m' = cx_PodMeta ?m" "sent_resources q' = map_option linux_resources.truncate (cx_ContainerResources m')"
        "\<forall>res. rx_ContainerResources (ctr_reply_of ?m x) = Some res \<longrightarrow> sent_resources q' = Some (linux_resources.truncate res)"
        by (rule fill_create[OF _ b]) (use that in \<open>simp_all only: parse_create_fields\<close>)
      have "sent_resources q' = hs_ContainerResources x" if some: "hs_ContainerResources x \<noteq> None"
      proof -
        obtain res where res: "rx_ContainerResources (ctr_reply_of ?m x) = Some res"
          using some by (auto simp: ctr_reply_of_def with_rest_def)
        have "hs_ContainerResources x = Some (linux_resources.truncate res)"
          by (rule with_rest_truncate) (use res in \<open>simp add: ctr_reply_of_def\<close>)
        with f(6) res show ?thesis by simp
      qed
      then have ans: "answered d w ?m p' q'" using h(1) Inr by (auto simp: answered_def)
      have "run_hook d PreCreateContainer (CriCreate q) labels (Some (CtrMsg ?m)) w
          = (w\<lparr>tw_policy := p'\<rparr>, Inr (CriCreate q', Some (CtrMsg m')))"
        using Inr by (simp add: dis b f(1,2))
      from that(2)[OF h(2) this f(3-5) ans] show thesis .
    qed
  qed
qed

lemma after_create:
  assumes "tap_inv (tw_cache v)" "map_of (Pods (tw_cache v)) pid = Some pod" "map_option snd (cx_PodMeta m) = Some pid"
    and "runtime q' = Inr i" "i \<noteq> []"
  obtains c' k where "after_runtime (Some (CtrMsg m)) (create_handler runtime (CriCreate q')) v
      = Some (v\<lparr>tw_cache := c'\<rparr>, Inr (ContainerCreated i))"
    "tap_inv c'" "view c' = (view (tw_cache v))(i \<mapsto> k)" "ct_Name k = cx_Name m"
    "map_option po_UID (ctr_GetPod c' k) = Some (po_UID pod)"
    "ct_LinuxReq k = map_option linux_resources.truncate (cx_ContainerResources m)"
proof -
  have "ch_PodId (ctr_hook_of m) = Some pid" using assms(3) by (simp add: ctr_hook_of_def)
  from InsertContainer_hook[OF assms(1,5) this assms(2)] obtain c' k where
    k: "InsertContainer i (CtrHook (ctr_hook_of m)) (tw_cache v) = Some (c', Inr k)" "tap_inv c'"
      "view c' = (view (tw_cache v))(i \<mapsto> k)" "ct_Name k = ch_Name (ctr_hook_of m)"
      "ct_LinuxReq k = ch_Resources (ctr_hook_of m)" "map_option po_UID (ctr_GetPod c' k) = Some (po_UID pod)" by blast
  have "after_runtime (Some (CtrMsg m)) (create_handler runtime (CriCreate q')) v
      = Some (v\<lparr>tw_cache := c'\<rparr>, Inr (ContainerCreated i))"
    using k(1) assms(4) by (simp add: after_runtime_def create_handler_def in_cache_def InsertIntoCacheIfNeed_def
        ctr_msg_of_def logged_def)
  from that[OF this k(2,3)] k(4-6) show thesis by (simp add: ctr_hook_of_def)
qed

text \<open>The three ways a creation ends: without the policy, with the policy's change and an error, or with a container
  in the cache.\<close>

lemma cri_create_cases:
  assumes "tap_inv (tw_cache w)" "topo_only d" "\<And>q i. runtime q = Inr i \<Longrightarrow> i \<noteq> []"
  obtains r where "cri_CreateContainer d runtime q w = Some (w, r)"
      "map_of (Pods (tw_cache w)) (cq_PodSandboxId q) = None \<or> r = Inl Panic"
  | pod p' e where "map_of (Pods (tw_cache w)) (cq_PodSandboxId q) = Some pod"
      "allocates (tw_policy w) (create_ctx d (parseCRICreateContainerRequest q pod)) p'"
      "cri_CreateContainer d runtime q w = Some (w\<lparr>tw_policy := p'\<rparr>, Inl e)"
  | pod p' q' i c' k where "map_of (Pods (tw_cache w)) (cq_PodSandboxId q) = Some pod"
      "allocates (tw_policy w) (create_ctx d (parseCRICreateContainerRequest q pod)) p'"
      "runtime q' = Inr i"
      "cri_CreateContainer d runtime q w = Some (\<lparr>tw_policy = p', tw_cache = c'\<rparr>, Inr i)"
      "tap_inv c'" "view c' = (view (tw_cache w))(i \<mapsto> k)"
      "ct_Name k = cx_Name (parseCRICreateContainerRequest q pod)"
      "map_option po_UID (ctr_GetPod c' k) = Some (po_UID pod)" "ct_LinuxReq k = sent_resources q'"
      "answered d w (parseCRICreateContainerRequest q pod) p' q'"
proof -
  note inv = tap_invD[OF assms(1)]
  show thesis
  proof (cases "\<exists>cfg sb. cq_Config q = Some cfg \<and> cq_SandboxConfig q = Some sb \<and> cc_Metadata cfg \<noteq> None \<and> sc_Metadata sb \<noteq> None")
    case False
    then have "cri_CreateContainer d runtime q w = Some (w, Inl Panic)"
      by (auto simp: cri_CreateContainer_def split: option.splits)
    with that(1) False show thesis by blast
  next
    case True
    then obtain cfg sb where c: "cq_Config q = Some cfg" "cq_SandboxConfig q = Some sb" "cc_Metadata cfg \<noteq> None" "sc_Metadata sb \<noteq> None"
      by blast
    note look = LookupPod_spec[OF inv(1), of "cq_PodSandboxId q"]
    note call = c cri_CreateContainer_def InterceptRuntimeRequest_def hook_message_def GetResourceTypeFromHookType_def
      ParseContainerRequest_def look in_cache_def deferred_delete_def DeleteFromCacheIfNeed_def
    show thesis
    proof (cases "map_of (Pods (tw_cache w)) (cq_PodSandboxId q)")
      case None
      have "\<exists>r. cri_CreateContainer d runtime q w = Some (w, r)"
        by (cases "runtime q") (simp_all add: call None run_hook_def after_runtime_def create_handler_def)
      with that(1) None show thesis by auto
    next
      case (Some pod)
      have pid: "po_ID pod = cq_PodSandboxId q" by (rule pods_okD(1)[OF inv(2) Some])
      let ?m = "parseCRICreateContainerRequest q pod"
      show thesis
      proof (rule create_hook[OF assms(2), of w q pod "cc_Labels cfg"])
        fix p' assume a: "allocates (tw_policy w) (create_ctx d ?m) p'"
          "run_hook d PreCreateContainer (CriCreate q) (cc_Labels cfg) (Some (CtrMsg ?m)) w = (w\<lparr>tw_policy := p'\<rparr>, Inl Panic)"
        then have "cri_CreateContainer d runtime q w = Some (w\<lparr>tw_policy := p'\<rparr>, Inl Panic)"
          by (simp add: call Some reply_id_def)
        with that(2)[OF Some a(1)] show thesis by blast
      next
        fix p' q' m' assume a: "allocates (tw_policy w) (create_ctx d ?m) p'"
          "run_hook d PreCreateContainer (CriCreate q) (cc_Labels cfg) (Some (CtrMsg ?m)) w
             = (w\<lparr>tw_policy := p'\<rparr>, Inr (CriCreate q', Some (CtrMsg m')))"
          "cx_Name m' = cx_Name ?m" "cx_PodMeta m' = cx_PodMeta ?m"
          "sent_resources q' = map_option linux_resources.truncate (cx_ContainerResources m')"
          "answered d w ?m p' q'"
        show thesis
        proof (cases "runtime q'")
          case (Inl e)
          have "cri_CreateContainer d runtime q w = Some (w\<lparr>tw_policy := p'\<rparr>, Inl e)"
            by (simp add: call Some a(2) after_runtime_def create_handler_def Inl reply_id_def)
          with that(2)[OF Some a(1)] show thesis by blast
        next
          case (Inr i)
          have "map_option snd (cx_PodMeta m') = Some (cq_PodSandboxId q)" by (simp add: a(4) pid)
          let ?v = "w\<lparr>tw_policy := p'\<rparr>"
          have v: "tap_inv (tw_cache ?v)" "map_of (Pods (tw_cache ?v)) (cq_PodSandboxId q) = Some pod" using assms(1) Some by simp_all
          obtain c' k where k: "after_runtime (Some (CtrMsg m')) (create_handler runtime (CriCreate q')) ?v
              = Some (?v\<lparr>tw_cache := c'\<rparr>, Inr (ContainerCreated i))"
            "tap_inv c'" "view c' = (view (tw_cache ?v))(i \<mapsto> k)" "ct_Name k = cx_Name m'"
            "map_option po_UID (ctr_GetPod c' k) = Some (po_UID pod)"
            "ct_LinuxReq k = map_option linux_resources.truncate (cx_ContainerResources m')"
            by (rule after_create[where v = ?v and runtime = runtime and q' = q' and m = m' and pid = "cq_PodSandboxId q"
                and pod = pod and i = i]) (use v \<open>map_option snd (cx_PodMeta m') = Some (cq_PodSandboxId q)\<close> Inr assms(3)[OF Inr] in auto)
          have "cri_CreateContainer d runtime q w = Some (\<lparr>tw_policy = p', tw_cache = c'\<rparr>, Inr i)"
            by (simp add: call Some a(2) k(1) reply_id_def)
          then show thesis by (rule that(3)[OF Some a(1) Inr]) (use k(2-6) a(3,5,6) in simp_all)
        qed
      qed
    qed
  qed
qed

section \<open>Sessions\<close>

text \<open>The steps of the proxy: the four calls, in any order, with any answers of the runtime, except that the runtime
  names a container it has created. As in \<open>policy_step\<close> the request is made of non-negative quantities, the node's
  memory is far below \<open>2^64\<close> KB, and the container's key is not in use.\<close>

definition fits :: "dispatcher \<Rightarrow> create_container_request \<Rightarrow> tap_world \<Rightarrow> bool" where
  "fits d q w \<longleftrightarrow>
     (case map_of (Pods (tw_cache w)) (cq_PodSandboxId q) of
        None \<Rightarrow> True
      | Some pod \<Rightarrow>
          (let ctx = create_ctx d (parseCRICreateContainerRequest q pod)
           in case newRequest ctx of
                Inr (Some req) \<Rightarrow> sane_request req \<and> roomy (tw_policy w) req \<and> map_of (p_grants (tw_policy w)) (grant_id ctx) = None
              | _ \<Rightarrow> True))"

inductive cri_step :: "dispatcher \<Rightarrow> tap_world \<Rightarrow> tap_world \<Rightarrow> bool" for d where
  run: "cri_RunPodSandbox d runtime q w = Some (w', r) \<Longrightarrow> cri_step d w w'"
| create: "cri_CreateContainer d create_rt cq w = Some (w', r) \<Longrightarrow> fits d cq w
    \<Longrightarrow> (\<And>q i. create_rt q = Inr i \<Longrightarrow> i \<noteq> []) \<Longrightarrow> cri_step d w w'"
| stop: "cri_StopContainer d stop_rt i w = Some (w', u) \<Longrightarrow> cri_step d w w'"
| stop_sandbox: "cri_StopPodSandbox d stop_rt i w = Some (w', u) \<Longrightarrow> cri_step d w w'"

lemma allocates_step:
  assumes "allocates (tw_policy w) (create_ctx d (parseCRICreateContainerRequest q pod)) p'" "fits d q w"
    and "map_of (Pods (tw_cache w)) (cq_PodSandboxId q) = Some pod"
  shows "policy_step\<^sup>*\<^sup>* (tw_policy w) p'"
proof -
  let ?ctx = "create_ctx d (parseCRICreateContainerRequest q pod)"
  from assms(1) show ?thesis
    unfolding allocates_def
  proof
    assume "\<exists>g. allocatePool (tw_policy w) ?ctx = (p', Inr g)"
    then obtain g where g: "allocatePool (tw_policy w) ?ctx = (p', Inr g)" by blast
    then obtain req where req: "newRequest ?ctx = Inr (Some req)"
      by (auto simp: allocatePool_def split: sum.splits option.splits)
    have "sane_request req \<and> roomy (tw_policy w) req \<and> map_of (p_grants (tw_policy w)) (grant_id ?ctx) = None"
      using assms(2,3) req by (simp add: fits_def Let_def)
    then have "policy_step (tw_policy w) p'" using g req by (blast intro: policy_step.alloc)
    then show ?thesis by blast
  qed simp
qed

lemma stopped_step: "policy_step\<^sup>*\<^sup>* (tw_policy w) (stopped_policy w i)"
proof -
  have "policy_step\<^sup>*\<^sup>* p (fst (ReleaseResources p ctx))" for p ctx
    by (cases "releasePool p ctx") (auto simp: ReleaseResources_def intro: policy_step.release)
  then show ?thesis by (auto simp: stopped_policy_def split: option.splits)
qed

lemma cri_step_inv:
  assumes "cri_step d w w'" "topo_only d" "tap_inv (tw_cache w)"
  shows "tap_inv (tw_cache w') \<and> policy_step\<^sup>*\<^sup>* (tw_policy w) (tw_policy w')"
  using assms(1)
proof cases
  case (run runtime q r)
  with cri_run_spec[OF assms(3), of d runtime q] show ?thesis by auto
next
  case (create runtime q r)
  show ?thesis
  proof (rule cri_create_cases[OF assms(3,2), of runtime q])
    show "i \<noteq> []" if "runtime q' = Inr i" for q' i using create(3) that by blast
  qed (use create assms(3) allocates_step[OF _ create(2)] in auto)
next
  case (stop runtime i u)
  with cri_stop_spec[OF assms(3,2), of runtime i] stopped_step[of w i] show ?thesis by auto
next
  case (stop_sandbox runtime i u)
  with cri_stop_sandbox_spec[OF assms(3), of d runtime i] show ?thesis by auto
qed

lemma cri_session_inv:
  assumes "(cri_step d)\<^sup>*\<^sup>* w w'" "topo_only d" "tap_inv (tw_cache w)"
  shows "tap_inv (tw_cache w') \<and> policy_step\<^sup>*\<^sup>* (tw_policy w) (tw_policy w')"
  using assms(1)
proof (induction rule: rtranclp_induct)
  case (step v w')
  with cri_step_inv[OF step(2) assms(2)] show ?case by auto
qed (use assms(3) in simp)

section \<open>The CPU set of a created container\<close>

lemma alloc_cpuset: "CpusetCpus (al_res (SetCPUSetCpus s NewAllocation)) = s"
  "CpusetCpus (al_res (SetCPUSetMems t (SetCPUSetCpus s NewAllocation))) = s"
  by (simp_all add: al_res_def SetCPUSetCpus_def SetCPUSetMems_def NewAllocation_def ensureContainerResources_def)

lemma topo_granted:
  assumes "topo_PreCreateContainerHook sh w ctx = (w', r)" "map_of (p_grants (tw_policy w)) (grant_id ctx) = None"
    and "map_of (p_grants (tw_policy w')) (grant_id ctx) = Some g"
  shows "\<exists>b. r = Inr (Some b) \<and> CpusetCpus (al_res b) = sh (SharedCPUSet (tw_policy w') g)"
proof (cases "ParseCgroupForQOSClass (CgroupParent (Request ctx)) = BestEffort")
  case True
  with assms show ?thesis by (simp add: topo_PreCreateContainerHook_def)
next
  case False
  obtain p' x where x: "AllocateResources (tw_policy w) ctx = (p', x)" by fastforce
  show ?thesis
  proof (cases x)
    case (Inl e)
    then have "p' = tw_policy w" using x allocatePool_error[of "tw_policy w" ctx]
      by (auto simp: AllocateResources_def split: prod.splits sum.splits)
    with assms False x Inl show ?thesis by (simp add: topo_PreCreateContainerHook_def)
  next
    case (Inr u)
    with assms False x show ?thesis
      by (auto simp: topo_PreCreateContainerHook_def Let_def alloc_cpuset split: option.splits if_splits)
  qed
qed

lemma granted_cpuset:
  assumes "d_manager d = [(n, topo_hook_policy sh parse)]"
    and "pm_PreCreateContainerHook (d_unmarshal d) (d_driver d) (d_runtime d) (d_manager d) w (hook_request_of m) = (w', Inr x)"
    and "map_of (p_grants (tw_policy w)) (grant_id (create_ctx d m)) = None"
    and "map_of (p_grants (tw_policy w')) (grant_id (create_ctx d m)) = Some g"
    and "sh (SharedCPUSet (tw_policy w') g) \<noteq> []"
  shows "\<exists>l. hs_ContainerResources x = Some l \<and> CpusetCpus l = sh (SharedCPUSet (tw_policy w') g)"
proof -
  let ?res = "hr_ContainerResources (hook_request_of m)"
  have w': "w' = fst (topo_PreCreateContainerHook sh w (create_ctx d m))"
    using assms(2) manager_world(1)[of "d_unmarshal d" "d_driver d" "d_runtime d" n sh parse w "hook_request_of m"]
    by (simp add: assms(1) create_ctx_def)
  obtain r where r: "topo_PreCreateContainerHook sh w (create_ctx d m) = (w', r)" using w' by (metis prod.collapse)
  obtain b where b: "r = Inr (Some b)" "CpusetCpus (al_res b) = sh (SharedCPUSet (tw_policy w') g)"
    using topo_granted[OF r assms(3,4)] by blast
  have "hp_PreCreateContainerHook (topo_hook_policy sh parse) = topo_PreCreateContainerHook sh" by (simp add: topo_hook_policy_def)
  then have x: "hs_ContainerResources x = Merge b ?res"
    using assms(2) r b(1) unfolding pm_PreCreateContainerHook_def assms(1) ListPolicies_def create_ctx_def
    by (auto simp del: call_policies.simps simp: call_one finish_hook_def mergeAllocations_def)
  have "Merge b ?res \<noteq> None" using b(2) assms(5) by (simp add: Merge_None sets_nothing_def)
  then obtain l where l: "Merge b ?res = Some l" by blast
  have "CpusetCpus (ensureContainerResources (Merge b ?res)) = sh (SharedCPUSet (tw_policy w') g)"
    using b(2) assms(5) by (simp add: Merge_eff Let_def)
  with x l show ?thesis by (simp add: ensureContainerResources_def)
qed

section \<open>What the proxy guarantees\<close>



text \<open>C3. A created container runs where its grant says. When the policy grants a pool to a container of a cached pod,
  the request that reaches the runtime carries the CPU set of that pool, and the cache files the container under the
  runtime's ID with exactly the resources the runtime was given -- what the rebuild after a restart reads back.\<close>

theorem created_on_its_pool:
  assumes "d_manager d = [(n, topo_hook_policy sh parse)]" "tap_inv (tw_cache w)"
    and "map_of (Pods (tw_cache w)) (cq_PodSandboxId q) = Some pod"
    and "\<And>q i. create_rt q = Inr i \<Longrightarrow> i \<noteq> []"
    and "cri_CreateContainer d create_rt q w = Some (w1, Inr i)"
    and "gid = grant_id (create_ctx d (parseCRICreateContainerRequest q pod))"
    and "map_of (p_grants (tw_policy w)) gid = None" "map_of (p_grants (tw_policy w1)) gid = Some g"
    and "sh (SharedCPUSet (tw_policy w1) g) \<noteq> []"
  shows "\<exists>q' k l. create_rt q' = Inr i \<and> sent_resources q' = Some l \<and> CpusetCpus l = sh (SharedCPUSet (tw_policy w1) g)
    \<and> view (tw_cache w1) i = Some k \<and> ct_LinuxReq k = Some l"
proof -
  have t: "topo_only d" using assms(1) by (auto simp: topo_only_def)
  show ?thesis
  proof (rule cri_create_cases[OF assms(2) t, of create_rt q])
    show "i' \<noteq> []" if "create_rt q' = Inr i'" for q' i' by (rule assms(4)[OF that])
  next
    fix r' assume "cri_CreateContainer d create_rt q w = Some (w, r')"
    with assms(5,7,8) show ?thesis by simp
  next
    fix pod' p' e assume "cri_CreateContainer d create_rt q w = Some (w\<lparr>tw_policy := p'\<rparr>, Inl e)"
    with assms(5) show ?thesis by simp
  next
    fix pod' p' q' i' c' k
    assume a: "map_of (Pods (tw_cache w)) (cq_PodSandboxId q) = Some pod'" "create_rt q' = Inr i'"
      "cri_CreateContainer d create_rt q w = Some (\<lparr>tw_policy = p', tw_cache = c'\<rparr>, Inr i')"
      "view c' = (view (tw_cache w))(i' \<mapsto> k)" "ct_LinuxReq k = sent_resources q'"
      "answered d w (parseCRICreateContainerRequest q pod') p' q'"
    have eq: "w1 = \<lparr>tw_policy = p', tw_cache = c'\<rparr>" "i' = i" "pod' = pod" using a(1,3) assms(3,5) by simp_all
    let ?m = "parseCRICreateContainerRequest q pod"
    have "p' \<noteq> tw_policy w" using assms(7,8) eq by auto
    then obtain x where x: "pm_PreCreateContainerHook (d_unmarshal d) (d_driver d) (d_runtime d) (d_manager d) w (hook_request_of ?m)
        = (w\<lparr>tw_policy := p'\<rparr>, Inr x)" "hs_ContainerResources x \<noteq> None \<longrightarrow> sent_resources q' = hs_ContainerResources x"
      using a(6) by (auto simp: answered_def eq)
    from granted_cpuset[OF assms(1) x(1), of g] assms(6-9)
    obtain l where l: "hs_ContainerResources x = Some l" "CpusetCpus l = sh (SharedCPUSet p' g)" by (auto simp: eq)
    with x(2) a(2,4,5) show ?thesis by (auto simp: eq)
  qed
qed

section \<open>What a failed call leaves behind\<close>

lemma propagate_grants: "p_grants (propagateResourceToParent p g b) = p_grants p"
  by (simp add: propagateResourceToParent_def split: nptr.splits option.splits)

lemma release_grants: "map_of (p_grants (fst (ReleaseResources p ctx))) =
   (if cm_ID (ContainerMeta (Request ctx)) = [] \<or> pm_UID (PodMeta (Request ctx)) = [] then map_of (p_grants p)
    else (map_of (p_grants p))(grant_id ctx := None))"
  by (auto simp: ReleaseResources_def releasePool_def Let_def grant_Release_def propagate_grants fun_eq_iff
      split: option.splits nptr.splits)

text \<open>The key a cached container's grant is filed under.\<close>

definition cached_key :: "cache \<Rightarrow> container \<Rightarrow> string option" where
  "cached_key c k = map_option (\<lambda>pod. po_UID pod @ '':'' @ ct_Name k) (ctr_GetPod c k)"

definition unclaimed :: "cache \<Rightarrow> string \<Rightarrow> bool" where
  "unclaimed c gid \<longleftrightarrow> (\<forall>i k. view c i = Some k \<longrightarrow> cached_key c k \<noteq> Some gid)"

inductive stop_step :: "dispatcher \<Rightarrow> tap_world \<Rightarrow> tap_world \<Rightarrow> bool" for d where
  stop: "cri_StopContainer d rt i w = Some (w', u) \<Longrightarrow> stop_step d w w'"
| stop_sandbox: "cri_StopPodSandbox d rt i w = Some (w', u) \<Longrightarrow> stop_step d w w'"

lemma stopped_keeps:
  assumes "unclaimed (tw_cache w) gid"
  shows "map_of (p_grants (stopped_policy w i)) gid = map_of (p_grants (tw_policy w)) gid"
  using assms by (auto simp: unclaimed_def cached_key_def stopped_policy_def release_grants split: option.splits)

lemma stop_step_keeps:
  assumes "stop_step d w w'" "topo_only d" "tap_inv (tw_cache w)" "unclaimed (tw_cache w) gid"
  shows "tap_inv (tw_cache w') \<and> unclaimed (tw_cache w') gid
    \<and> map_of (p_grants (tw_policy w')) gid = map_of (p_grants (tw_policy w)) gid"
  using assms(1)
proof cases
  case (stop rt i u)
  obtain c' where c': "cri_StopContainer d rt i w = Some (\<lparr>tw_policy = stopped_policy w i, tw_cache = c'\<rparr>, rt i)"
    "tap_inv c'" "view c' = (view (tw_cache w))(i := None)" "Pods c' = Pods (tw_cache w)"
    using cri_stop_spec[OF assms(3,2)] by blast
  have "unclaimed c' gid" using assms(4) c'(3,4) by (auto simp: unclaimed_def cached_key_def ctr_GetPod_def)
  with c' stop stopped_keeps[OF assms(4)] show ?thesis by simp
next
  case (stop_sandbox rt i u)
  obtain c' where c': "cri_StopPodSandbox d rt i w = Some (w\<lparr>tw_cache := c'\<rparr>, rt i)" "tap_inv c'"
    "view c' = view (tw_cache w)" "map_of (Pods c') = (map_of (Pods (tw_cache w)))(i := None)"
    using cri_stop_sandbox_spec[OF assms(3)] by blast
  have "unclaimed c' gid" using assms(4) c'(3,4) by (auto simp: unclaimed_def cached_key_def ctr_GetPod_def split: if_splits)
  with c' stop_sandbox show ?thesis by simp
qed

text \<open>C4. A creation that the runtime refuses leaks its grant. The hook has run before the runtime is asked, and the
  error path neither releases the grant nor files the container: as long as no cached container has its key, no
  sequence of stops ever releases it.\<close>

theorem refused_creation_leaks:
  assumes "topo_only d" "tap_inv (tw_cache w)" "\<And>q i. create_rt q = Inr i \<Longrightarrow> i \<noteq> []"
    and "cri_CreateContainer d create_rt q w = Some (w1, Inl e)"
    and "unclaimed (tw_cache w) gid" "map_of (p_grants (tw_policy w1)) gid = Some g"
    and "(stop_step d)\<^sup>*\<^sup>* w1 w2"
  shows "map_of (p_grants (tw_policy w2)) gid = Some g \<and> tw_cache w1 = tw_cache w"
proof -
  have c: "tw_cache w1 = tw_cache w"
    by (rule cri_create_cases[OF assms(2,1), of create_rt q]) (use assms(3,4) in auto)
  from assms(7) have "tap_inv (tw_cache w2) \<and> unclaimed (tw_cache w2) gid
      \<and> map_of (p_grants (tw_policy w2)) gid = map_of (p_grants (tw_policy w1)) gid"
  proof (induction rule: rtranclp_induct)
    case base
    show ?case using assms(2,5) c by simp
  next
    case (step v w')
    with stop_step_keeps[OF step(2) assms(1), of gid] show ?case by simp
  qed
  with assms(6) c show ?thesis by simp
qed

text \<open>Stopping a sandbox before its containers leaks their grants: the call forgets the pod, so the stop hook of
  a container of that pod finds no pod, releases nothing, and the container still leaves the cache.\<close>

theorem sandbox_stopped_first:
  assumes "topo_only d" "tap_inv (tw_cache w)"
    and "view (tw_cache w) i = Some k" "ct_PodID k = s"
    and "cri_StopPodSandbox d sandbox_rt s w = Some (w1, r1)" "cri_StopContainer d stop_rt i w1 = Some (w2, r2)"
  shows "tw_policy w2 = tw_policy w \<and> view (tw_cache w2) i = None"
proof -
  obtain c' where c': "w1 = w\<lparr>tw_cache := c'\<rparr>" "tap_inv c'" "view c' = view (tw_cache w)"
    "map_of (Pods c') = (map_of (Pods (tw_cache w)))(s := None)"
    using cri_stop_sandbox_spec[OF assms(2), of d sandbox_rt s] assms(5) by auto
  have "stopped_policy w1 i = tw_policy w"
    using assms(3,4) by (simp add: stopped_policy_def c' ctr_GetPod_def)
  with cri_stop_spec[of w1 d stop_rt i] assms(1,6) c' show ?thesis by auto
qed

section \<open>A small node\<close>

definition demo_dispatcher :: dispatcher where
  "demo_dispatcher = \<lparr>d_manager = demo_pm, d_unmarshal = (\<lambda>_. None), d_driver = Systemd, d_runtime = ''containerd'',
     d_dockerCgroupDriver = []\<rparr>"

definition demo_sandbox_config :: cri_sandbox_config where
  "demo_sandbox_config = \<lparr>sc_Metadata = Some \<lparr>pm_Namespace = ''default'', pm_Name = ''p'', pm_UID = ''u''\<rparr>,
     sc_Annotations = None, sc_Labels = None,
     sc_Linux = Some \<lparr>pl_CgroupParent = ''/kubepods.slice/kubepods-burstable.slice/kubepods-burstable-podu.slice'',
                      pl_Resources = None\<rparr>\<rparr>"

definition demo_run_request :: run_sandbox_request where
  "demo_run_request = \<lparr>rq_Config = Some demo_sandbox_config, rq_RuntimeHandler = []\<rparr>"

definition demo_limits :: linux_resources where
  "demo_limits = zero_linux_resources\<lparr>CpuShares := 1024, MemoryLimitInBytes := 1048576\<rparr>"

definition demo_create_request :: create_container_request where
  "demo_create_request =
     \<lparr>cq_PodSandboxId = ''s'',
      cq_Config = Some \<lparr>cc_Metadata = Some (''web'', 0), cc_Annotations = None, cc_Labels = [],
        cc_Envs = [Some (''A'', ''1'')],
        cc_Linux = Some (Some (linux_resources.extend demo_limits (full_resources.fields [] [])))\<rparr>,
      cq_SandboxConfig = Some demo_sandbox_config\<rparr>"

definition demo_w0 :: tap_world where
  "demo_w0 = \<lparr>tw_policy = demo_policy, tw_cache = new_cache\<rparr>"

definition demo_w1 :: tap_world where
  "demo_w1 = (case cri_RunPodSandbox demo_dispatcher (\<lambda>_. Inr ''s'') demo_run_request demo_w0 of Some (w, _) \<Rightarrow> w | None \<Rightarrow> demo_w0)"

definition demo_w2 :: tap_world where
  "demo_w2 = (case cri_CreateContainer demo_dispatcher (\<lambda>_. Inr ''k'') demo_create_request demo_w1 of Some (w, _) \<Rightarrow> w | None \<Rightarrow> demo_w1)"

definition demo_refused :: tap_world where
  "demo_refused = (case cri_CreateContainer demo_dispatcher (\<lambda>_. Inl (Err ''refused'')) demo_create_request demo_w1 of
     Some (w, _) \<Rightarrow> w | None \<Rightarrow> demo_w1)"

lemma demo_topo: "topo_only demo_dispatcher"
  by (auto simp: topo_only_def demo_dispatcher_def demo_pm_def)

lemma demo_run: "cri_RunPodSandbox demo_dispatcher (\<lambda>_. Inr ''s'') demo_run_request demo_w0 = Some (demo_w1, Inr ''s'')"
  by code_simp

lemma demo_create: "cri_CreateContainer demo_dispatcher (\<lambda>_. Inr ''k'') demo_create_request demo_w1 = Some (demo_w2, Inr ''k'')"
  by code_simp

lemma demo_refuse: "cri_CreateContainer demo_dispatcher (\<lambda>_. Inl (Err ''refused'')) demo_create_request demo_w1
   = Some (demo_refused, Inl (Err ''refused''))"
  by code_simp

lemma demo_fits: "fits demo_dispatcher demo_create_request demo_w1"
  by code_simp

lemma demo_w1_policy: "tw_policy demo_w1 = demo_policy"
proof -
  have "tap_inv (tw_cache demo_w0)" by (simp add: demo_w0_def tap_inv_new)
  from cri_run_spec[OF this, of demo_dispatcher "\<lambda>_. Inr ''s''" demo_run_request]
  obtain c' where "demo_w1 = demo_w0\<lparr>tw_cache := c'\<rparr>" unfolding demo_run by blast
  then have "tw_policy demo_w1 = tw_policy (demo_w0\<lparr>tw_cache := c'\<rparr>)" by (rule arg_cong)
  then show ?thesis by (simp add: demo_w0_def)
qed

lemma demo_steps: "(cri_step demo_dispatcher)\<^sup>*\<^sup>* demo_w0 demo_w1" "(cri_step demo_dispatcher)\<^sup>*\<^sup>* demo_w0 demo_w2"
proof -
  have "cri_step demo_dispatcher demo_w0 demo_w1" by (rule cri_step.run[OF demo_run])
  moreover have "cri_step demo_dispatcher demo_w1 demo_w2" by (rule cri_step.create[OF demo_create demo_fits]) simp
  ultimately show "(cri_step demo_dispatcher)\<^sup>*\<^sup>* demo_w0 demo_w1" "(cri_step demo_dispatcher)\<^sup>*\<^sup>* demo_w0 demo_w2" by auto
qed

lemma demo_inv: "tap_inv (tw_cache demo_w1)" "tap_inv (tw_cache demo_w2)"
  using cri_session_inv[OF demo_steps(1) demo_topo] cri_session_inv[OF demo_steps(2) demo_topo] tap_inv_new
  by (simp_all add: demo_w0_def)

lemma demo_granted: "map_of (p_grants (tw_policy demo_w2)) ''u:web'' \<noteq> None"
  "map_of (p_grants (tw_policy demo_refused)) ''u:web'' \<noteq> None"
  by code_simp+


lemma demo_pod: "\<exists>pod. map_of (Pods (tw_cache demo_w1)) ''s'' = Some pod \<and> po_UID pod = ''u''"
proof -
  have "map_option po_UID (map_of (Pods (tw_cache demo_w1)) ''s'') = Some ''u''" by code_simp
  then show ?thesis by (cases "map_of (Pods (tw_cache demo_w1)) ''s''") auto
qed

lemma demo_sent: "sent_resources demo_create_request = Some demo_limits" "cq_PodSandboxId demo_create_request = ''s''"
  by (simp_all add: sent_resources_def demo_create_request_def linux_resources.truncate_def linux_resources.extend_def
      demo_limits_def zero_linux_resources_def full_resources.fields_def)


lemma demo_gid: "grant_id (create_ctx demo_dispatcher (parseCRICreateContainerRequest demo_create_request pod)) = po_UID pod @ '':web''"
  by (simp add: grant_id_def create_ctx_def hook_ctx_def req_FromProxy_def hook_request_of_def demo_create_request_def
      parseCRICreateContainerRequest_def buildContainerResourceHookRequest_def Let_def)

theorem created_on_its_pool_witness:
  "\<exists>k l. view (tw_cache demo_w2) ''k'' = Some k \<and> ct_LinuxReq k = Some l \<and> CpusetCpus l = ''0-1''"
proof -
  obtain pod where pod: "map_of (Pods (tw_cache demo_w1)) ''s'' = Some pod" "po_UID pod = ''u''" using demo_pod by blast
  obtain g where g: "map_of (p_grants (tw_policy demo_w2)) ''u:web'' = Some g" using demo_granted(1) by blast
  let ?sh = "\<lambda>s. if s = {0, 1} then ''0-1'' else []"
  have "case map_of (p_grants (tw_policy demo_w2)) ''u:web'' of None \<Rightarrow> False | Some g \<Rightarrow> SharedCPUSet (tw_policy demo_w2) g = {0, 1}"
    by code_simp
  with g have s: "?sh (SharedCPUSet (tw_policy demo_w2) g) = ''0-1''" by simp
  have mg: "d_manager demo_dispatcher = [(''topology-aware'', topo_hook_policy ?sh (\<lambda>_. None))]"
    by (simp add: demo_dispatcher_def demo_pm_def)
  have p: "map_of (Pods (tw_cache demo_w1)) (cq_PodSandboxId demo_create_request) = Some pod"
    using pod by (simp add: demo_sent(2))
  have gid: "''u:web'' = grant_id (create_ctx demo_dispatcher (parseCRICreateContainerRequest demo_create_request pod))"
    by (simp add: demo_gid pod(2))
  have f: "map_of (p_grants (tw_policy demo_w1)) ''u:web'' = None" by (simp add: demo_w1_policy demo_policy_def)
  have n: "?sh (SharedCPUSet (tw_policy demo_w2) g) \<noteq> []" unfolding s by simp
  have "\<exists>q' k l. Inr ''k'' = (Inr ''k'' :: string result) \<and> sent_resources q' = Some l
      \<and> CpusetCpus l = ?sh (SharedCPUSet (tw_policy demo_w2) g) \<and> view (tw_cache demo_w2) ''k'' = Some k \<and> ct_LinuxReq k = Some l"
    by (rule created_on_its_pool[OF mg demo_inv(1) p _ demo_create gid f g n]) simp
  then show ?thesis by (auto simp: s)
qed

lemma demo_unclaimed: "unclaimed (tw_cache demo_w1) ''u:web''"
proof -
  have "Containers (tw_cache demo_w1) = []" by code_simp
  then show ?thesis by (simp add: unclaimed_def view_def)
qed

theorem refused_creation_leaks_witness:
  "\<exists>w. cri_StopPodSandbox demo_dispatcher (\<lambda>_. Inr ()) ''s'' demo_refused = Some (w, Inr ())
     \<and> map_of (p_grants (tw_policy w)) ''u:web'' \<noteq> None \<and> tw_cache demo_refused = tw_cache demo_w1"
proof -
  obtain g where g: "map_of (p_grants (tw_policy demo_refused)) ''u:web'' = Some g" using demo_granted(2) by blast
  note leak = refused_creation_leaks[OF demo_topo demo_inv(1) _ demo_refuse demo_unclaimed g]
  have inv: "tap_inv (tw_cache demo_refused)" using leak[of demo_refused] demo_inv(1) by simp
  obtain w where w: "cri_StopPodSandbox demo_dispatcher (\<lambda>_. Inr ()) ''s'' demo_refused = Some (w, Inr ())"
    using cri_stop_sandbox_spec[OF inv, of demo_dispatcher "\<lambda>_. Inr ()" "''s''"] by blast
  have "(stop_step demo_dispatcher)\<^sup>*\<^sup>* demo_refused w" using stop_step.stop_sandbox[OF w] by blast
  from leak[OF _ this] w show ?thesis by auto
qed

theorem sandbox_stopped_first_witness:
  "\<exists>w1 w2. cri_StopPodSandbox demo_dispatcher (\<lambda>_. Inr ()) ''s'' demo_w2 = Some (w1, Inr ())
     \<and> cri_StopContainer demo_dispatcher (\<lambda>_. Inr ()) ''k'' w1 = Some (w2, Inr ())
     \<and> map_of (p_grants (tw_policy w2)) ''u:web'' \<noteq> None \<and> view (tw_cache w2) ''k'' = None"
proof -
  have "map_option ct_PodID (view (tw_cache demo_w2) ''k'') = Some ''s''" by code_simp
  then obtain k where k: "view (tw_cache demo_w2) ''k'' = Some k" "ct_PodID k = ''s''" by auto
  obtain c1 where w1: "cri_StopPodSandbox demo_dispatcher (\<lambda>_. Inr ()) ''s'' demo_w2 = Some (demo_w2\<lparr>tw_cache := c1\<rparr>, Inr ())" "tap_inv c1"
    using cri_stop_sandbox_spec[OF demo_inv(2), of demo_dispatcher "\<lambda>_. Inr ()" "''s''"] by blast
  obtain w2 where w2: "cri_StopContainer demo_dispatcher (\<lambda>_. Inr ()) ''k'' (demo_w2\<lparr>tw_cache := c1\<rparr>) = Some (w2, Inr ())"
    using cri_stop_spec[of "demo_w2\<lparr>tw_cache := c1\<rparr>" demo_dispatcher "\<lambda>_. Inr ()" "''k''"] demo_topo w1(2) by auto
  from sandbox_stopped_first[OF demo_topo demo_inv(2) k w1(1) w2] w1 w2 demo_granted(1) show ?thesis by auto
qed

end
