(* ===== verification/TapStop.thy ===== *)
theory TapStop
  imports DispatcherOk
begin

text \<open>
  The contract all three proxies share: what stopping (for the NRI: removing) a container does to the policy and
  to the cache. The lifecycle of a container is proved once, for any proxy that keeps the contract.
\<close>

section \<open>A grant and its release\<close>

lemma stopped_restores:
  assumes "books p" "allocates p (create_ctx d m) p1" "view c1 i = Some k" "i \<noteq> []"
    and "ct_Name k = cx_Name m" "map_option po_UID (ctr_GetPod c1 k) = Some uid" "uid \<noteq> []"
    and "pm_UID (hr_PodMeta (hook_request_of m)) = uid"
    and "map_option linux_resources.truncate (cx_ContainerResources m) = Some l" "in_i64 (MemoryLimitInBytes l)"
    and "counter_at p 0 CMemory + max 0 (MemoryLimitInBytes l) div 1024 < 18446744073709551616"
    and "map_of (p_grants p) (uid @ '':'' @ cx_Name m) = None"
  shows "stopped_policy \<lparr>tw_policy = p1, tw_cache = c1\<rparr> i = p"
proof -
  obtain pod where pod: "ctr_GetPod c1 k = Some pod" "po_UID pod = uid" using assms(6) by auto
  have "stopped_policy \<lparr>tw_policy = p1, tw_cache = c1\<rparr> i = fst (ReleaseResources p1 (bare_ctx i (ct_Name k) uid))"
    using assms(3) pod by (simp add: stopped_policy_def)
  also have "\<dots> = p"
    unfolding assms(5)
  proof (rule release_restores[OF assms(1)])
    show "allocates p (hook_ctx (d_unmarshal d) (d_driver d) (d_runtime d) (hook_request_of m)) p1"
      using assms(2) by (simp add: create_ctx_def)
    show "hr_ContainerResources (hook_request_of m) = Some l" using assms(9) by (simp add: hook_request_of_def)
  qed (use assms in \<open>simp_all add: hook_request_of_def\<close>)
  finally show ?thesis .
qed

text \<open>Stopping a container that has no grant changes nothing.\<close>

lemma stopped_ungranted:
  assumes "view (tw_cache w) i = Some k" "map_option po_UID (ctr_GetPod (tw_cache w) k) = Some uid"
    and "map_of (p_grants (tw_policy w)) (uid @ '':'' @ ct_Name k) = None"
  shows "stopped_policy w i = tw_policy w"
  using assms by (auto simp: stopped_policy_def ReleaseResources_def releasePool_def)

section \<open>The contract\<close>

locale container_stop =
  fixes stop :: "dispatcher \<Rightarrow> 'rt \<Rightarrow> string \<Rightarrow> tap_world \<Rightarrow> (tap_world \<times> 'r) option"
    and done_by :: "'rt \<Rightarrow> string \<Rightarrow> bool"
  assumes stop_law: "topo_only d \<Longrightarrow> tap_inv (tw_cache w) \<Longrightarrow> view (tw_cache w) i \<noteq> None \<Longrightarrow> done_by rt i \<Longrightarrow>
    \<exists>c' r. stop d rt i w = Some (\<lparr>tw_policy = stopped_policy w i, tw_cache = c'\<rparr>, r) \<and> tap_inv c'
      \<and> view c' = (view (tw_cache w))(i := None)"
begin

text \<open>A container that was put on an allocated policy is taken off it.\<close>

lemma life:
  assumes "topo_only d" "tap_inv c1" "books p"
    and "allocates p (create_ctx d m) p1" "view c1 = (view c)(i \<mapsto> k)" "i \<noteq> []"
    and "ct_Name k = cx_Name m" "map_option po_UID (ctr_GetPod c1 k) = Some uid" "uid \<noteq> []"
    and "pm_UID (hr_PodMeta (hook_request_of m)) = uid"
    and "map_option linux_resources.truncate (cx_ContainerResources m) = Some l" "in_i64 (MemoryLimitInBytes l)"
    and "counter_at p 0 CMemory + max 0 (MemoryLimitInBytes l) div 1024 < 18446744073709551616"
    and "map_of (p_grants p) (uid @ '':'' @ cx_Name m) = None"
    and "done_by rt i" "stop d rt i \<lparr>tw_policy = p1, tw_cache = c1\<rparr> = Some (w2, r)"
  shows "tw_policy w2 = p \<and> view (tw_cache w2) = (view c)(i := None) \<and> tap_inv (tw_cache w2)"
proof -
  let ?w1 = "\<lparr>tw_policy = p1, tw_cache = c1\<rparr>"
  obtain c2 r2 where c2: "stop d rt i ?w1 = Some (\<lparr>tw_policy = stopped_policy ?w1 i, tw_cache = c2\<rparr>, r2)" "tap_inv c2"
    "view c2 = (view c1)(i := None)"
    using stop_law[of d ?w1 i rt] assms(1,2,5,15) by auto
  have "view c1 i = Some k" using assms(5) by simp
  then have "stopped_policy ?w1 i = p" by (rule stopped_restores[OF assms(3,4) _ assms(6-14)])
  with c2 assms(5,16) show ?thesis by (auto simp: fun_eq_iff)
qed

text \<open>Stopping a container twice does nothing more.\<close>

lemma stopped_gone:
  assumes "topo_only d" "tap_inv (tw_cache w)" "view (tw_cache w) i \<noteq> None" "done_by rt i" "stop d rt i w = Some (w', r)"
  shows "tap_inv (tw_cache w') \<and> view (tw_cache w') i = None \<and> stopped_policy w' i = tw_policy w'"
  using stop_law[OF assms(1-4)] assms(5) by (auto simp: stopped_policy_def)

end

interpretation cri: container_stop cri_StopContainer "\<lambda>_ _. True"
proof
  fix d and rt :: "string \<Rightarrow> unit result" and i and w :: tap_world
  assume "topo_only d" "tap_inv (tw_cache w)"
  from cri_stop_spec[OF this(2,1), of rt i]
  show "\<exists>c' r. cri_StopContainer d rt i w = Some (\<lparr>tw_policy = stopped_policy w i, tw_cache = c'\<rparr>, r) \<and> tap_inv c'
      \<and> view c' = (view (tw_cache w))(i := None)" by blast
qed

end
