(* ===== verification/DockerHandler.thy ===== *)
theory DockerHandler
  imports TapStop
begin

text \<open>
  The proxy of the Docker API (\<^verbatim>\<open>pkg/kunpeng-tap/server/docker/handler.go\<close>). Its parameters are what the Docker
  daemon answers: the list of its containers, the body of the reply behind the reverse proxy, the decoding of a
  request's body and of the ID in a reply. The handlers run under one mutex, so each is one step.
\<close>

section \<open>The handlers\<close>

datatype http_reply = HttpError int | Proxied string

text \<open>Encoding a body: \<open>None\<close> is a body that is not there.\<close>

definition CalculateContentLength :: "string option \<Rightarrow> int result" where
  "CalculateContentLength body = (case body of None \<Rightarrow> Inl (Err ''reader is nil'') | Some b \<Rightarrow> Inr (int (length b)))"

definition ParseDockerStopRequest :: "string \<Rightarrow> string \<Rightarrow> (string \<times> int option) result" where
  "ParseDockerStopRequest containerID timeoutStr =
     (if containerID = [] then Inl (Err ''container ID is empty'')
      else Inr (containerID, if timeoutStr \<noteq> [] then atoi timeoutStr else None))"

definition ParseDockerResponseCode :: "string \<Rightarrow> int" where
  "ParseDockerResponseCode response =
     (if contains response ''No such container'' then 404
      else if contains response ''container already stopped'' then 304
      else if contains response ''server error'' then 500
      else 204)"

text \<open>\<open>None\<close> is a list that the daemon has failed to give: the error is logged and the list is empty.\<close>

definition docker_CleanCache :: "string list option \<Rightarrow> tap_world \<Rightarrow> (tap_world \<times> int) option" where
  "docker_CleanCache allContainers w =
     (case in_cache (ValidateCachedContainers (case allContainers of None \<Rightarrow> [] | Some ids \<Rightarrow> ids)) w of
        None \<Rightarrow> None
      | Some (w1, staleContainerIds) \<Rightarrow> in_cache (CleanupStaleContainers staleContainerIds) w1)"

text \<open>A Kubernetes container name has six parts; the decoder answers with the configuration or an error.\<close>

definition docker_ParseRequest :: "config_wrapper option \<Rightarrow> string \<Rightarrow> docker_create_request result" where
  "docker_ParseRequest decoded containerRawName =
     (case decoded of
        None \<Rightarrow> Inl (Err ''decode'')
      | Some cfg \<Rightarrow>
          (let tokens = go_split ''_'' containerRawName in
           if length tokens \<noteq> 6 then Inl (Err ''len of tokens in container name is not equal 6'')
           else (case SplitLabelsAndAnnotations (cw_Labels cfg) of (labels, annos) \<Rightarrow>
             Inr \<lparr>cw_Labels = cw_Labels cfg, cw_Env = cw_Env cfg, cw_HostConfig = cw_HostConfig cfg,
               dr_RuntimeResourceType = (if GetRuntimeResourceType (cw_Labels cfg) then RuntimePodResource
                                         else RuntimeContainerResource),
               dr_ContainerRawName = containerRawName, dr_ContainerRawLabel = labels,
               dr_ContainerRawAnnotations = annos, dr_ContainerName = tokens ! 1, dr_PodName = tokens ! 2,
               dr_PodNamespace = tokens ! 3, dr_PodUid = tokens ! 4\<rparr>)))"

text \<open>The hook's part of a creation: the message and the answer, or the HTTP error that refuses the request.\<close>

definition docker_hook ::
  "dispatcher \<Rightarrow> docker_create_request \<Rightarrow> tap_world \<Rightarrow> (tap_world \<times> (http_reply + hook_msg \<times> hook_reply option) result) option" where
  "docker_hook d q w =
     (if dr_RuntimeResourceType q = RuntimeContainerResource
      then (case in_cache (LookupPod (label_at (cw_Labels q) ''io.kubernetes.sandbox.id'')) w of
              None \<Rightarrow> None
            | Some (w1, None) \<Rightarrow> Some (w1, Inr (Inl (HttpError 500)))
            | Some (w1, Some podInfo) \<Rightarrow>
                (case in_cache (ParseContainerRequest (TapDockerCreate q)) w1 of
                   None \<Rightarrow> None
                 | Some (w2, None) \<Rightarrow> Some (w2, Inl Panic)
                 | Some (w2, Some m) \<Rightarrow>
                     Some (apsnd (map_sum id (\<lambda>r. Inr (m, r))) (Dispatch d PreCreateContainer m (po_Labels podInfo) w2))))
      else (case ParsePodRequest d (TapDockerCreate q) of
              Inl e \<Rightarrow> Some (w, Inl e)
            | Inr None \<Rightarrow> Some (w, Inl Panic)
            | Inr (Some m) \<Rightarrow>
                Some (apsnd (map_sum id (\<lambda>r. Inr (m, r))) (Dispatch d PreRunPodSandbox m (dr_ContainerRawLabel q) w))))"

text \<open>The ID is read off the reply whatever its status is: a refusal has none, which is the empty ID.\<close>

definition docker_HandleCreateContainer ::
  "dispatcher \<Rightarrow> string list option \<Rightarrow> (config_wrapper \<Rightarrow> string) \<Rightarrow> (string \<Rightarrow> string) \<Rightarrow> config_wrapper option \<Rightarrow> string
   \<Rightarrow> tap_world \<Rightarrow> (tap_world \<times> http_reply result) option" where
  "docker_HandleCreateContainer d allContainers daemon decodeID decoded name w =
     (case docker_CleanCache allContainers w of
        None \<Rightarrow> None
      | Some (w1, _) \<Rightarrow>
          (case docker_ParseRequest decoded name of
             Inl _ \<Rightarrow> Some (w1, Inr (HttpError 500))
           | Inr q \<Rightarrow>
               (case docker_hook d q w1 of
                  None \<Rightarrow> None
                | Some (w2, Inl e) \<Rightarrow> Some (w2, Inl e)
                | Some (w2, Inr (Inl refused)) \<Rightarrow> Some (w2, Inr refused)
                | Some (w2, Inr (Inr (hookReq, hookResp))) \<Rightarrow>
                    (case BackfillRequest d (ProxyDocker (config_wrapper.truncate q)) hookReq hookResp of
                       (cfgBody, hookReq') \<Rightarrow>
                         (let body = (case cfgBody of ProxyDocker c \<Rightarrow> daemon c | ProxyCri _ \<Rightarrow> [])
                          in case in_cache (InsertIntoCacheIfNeed (DockerCreated (decodeID body)) hookReq') w2 of
                               None \<Rightarrow> None
                             | Some (w3, Inl e) \<Rightarrow> Some (w3, Inl e)
                             | Some (w3, Inr _) \<Rightarrow> Some (w3, Inr (Proxied body)))))))"

definition docker_HandleStopContainer ::
  "dispatcher \<Rightarrow> (string \<Rightarrow> string) \<Rightarrow> string \<Rightarrow> tap_world \<Rightarrow> (tap_world \<times> http_reply result) option" where
  "docker_HandleStopContainer d daemon containerID w =
     (case ParseDockerStopRequest containerID [] of
        Inl _ \<Rightarrow> Some (w, Inr (HttpError 400))
      | Inr (i, _) \<Rightarrow>
          (case in_cache (ParseContainerRequest (TapDockerStop i)) w of
             None \<Rightarrow> None
           | Some (w1, None) \<Rightarrow> Some (w1, Inr (HttpError 500))
           | Some (w1, Some hookReq) \<Rightarrow>
               (let body = daemon i; respCode = ParseDockerResponseCode body in
                if respCode \<noteq> 204 \<and> respCode \<noteq> 304 then Some (w1, Inr (Proxied body))
                else (case in_cache (LookupContainer i) w1 of
                        None \<Rightarrow> None
                      | Some (w2, None) \<Rightarrow> Some (w2, Inr (Proxied body))
                      | Some (w2, Some _) \<Rightarrow>
                          (case Dispatch d PostStopContainer hookReq [] w2 of
                             (w3, Inl e) \<Rightarrow> Some (w3, Inl e)
                           | (w3, Inr _) \<Rightarrow>
                               (case in_cache (LookupContainer i) w3 of
                                  None \<Rightarrow> None
                                | Some (w4, None) \<Rightarrow> Some (w4, Inr (Proxied body))
                                | Some (w4, Some _) \<Rightarrow>
                                    map_option (\<lambda>(w5, _). (w5, Inr (Proxied body))) (in_cache (DeleteContainer i) w4)))))))"

definition docker_HandleDeleteContainer ::
  "(string \<Rightarrow> string) \<Rightarrow> string \<Rightarrow> tap_world \<Rightarrow> (tap_world \<times> http_reply result) option" where
  "docker_HandleDeleteContainer daemon containerID w =
     (let body = daemon containerID;
          ctr = (case in_cache (LookupContainer containerID) w of
                   None \<Rightarrow> None
                 | Some (w1, None) \<Rightarrow> Some w1
                 | Some (w1, Some _) \<Rightarrow> map_option fst (in_cache (DeleteContainer containerID) w1))
      in case ctr of
           None \<Rightarrow> None
         | Some w2 \<Rightarrow>
             (case in_cache (LookupPod containerID) w2 of
                None \<Rightarrow> None
              | Some (w3, None) \<Rightarrow> Some (w3, Inr (Proxied body))
              | Some (w3, Some _) \<Rightarrow>
                  map_option (\<lambda>(w4, _). (w4, Inr (Proxied body))) (in_cache (DeletePod containerID) w3)))"

text \<open>Starting and updating a container only pass the request on.\<close>

definition docker_HandleStartContainer :: "(string \<Rightarrow> string) \<Rightarrow> string \<Rightarrow> tap_world \<Rightarrow> tap_world \<times> http_reply result" where
  "docker_HandleStartContainer daemon containerID w = (w, Inr (Proxied (daemon containerID)))"

definition docker_HandleUpdateContainer :: "(string \<Rightarrow> string) \<Rightarrow> string \<Rightarrow> tap_world \<Rightarrow> tap_world \<times> http_reply result" where
  "docker_HandleUpdateContainer daemon containerID w = (w, Inr (Proxied (daemon containerID)))"

end
