(* ===== verification/DockerOk.thy ===== *)
theory DockerOk
  imports DockerHandler
begin

text \<open>
  What the Docker proxy promises: it is transparent (a creation whose policies change nothing reaches the daemon as
  it was sent, cgroup parent and environment included), it keeps the stop contract, and what goes wrong when the
  daemon does not list its containers or refuses a creation.
\<close>

section \<open>Cgroup parents\<close>

text \<open>The path that is made of a systemd slice ends in the slice.\<close>

lemma path_join_plain:
  assumes "is_rooted a" "plain_comp s"
  shows "path_join [a, s] = path_of True (clean_comps a @ [s])"
proof -
  have "is_rooted (a @ CHR ''/'' # s)" using assms(1) by (cases a) (simp_all add: is_rooted_def has_prefix_def)
  moreover have "clean_comps (a @ CHR ''/'' # s) = clean_comps a @ [s]"
    using assms(2) go_split_char_None[of "CHR ''/''" s]
    by (simp add: clean_comps_join[OF assms(1)] plain_comp_def)
  ultimately show ?thesis
    using assms by (simp add: path_join_rooted path_clean_rooted plain_comp_def)
qed

lemma path_base_snoc:
  assumes "list_all plain_comp cs" "plain_comp s"
  shows "path_base (path_of True (cs @ [s])) = s"
proof -
  let ?j = "go_join ''/'' (cs @ [s])"
  have j: "\<exists>p. ?j = p @ s"
  proof (induction cs)
    case (Cons c cs)
    then show ?case by (cases "cs @ [s]") (auto simp: go_join_Cons)
  qed simp
  then obtain p where p: "?j = p @ s" by blast
  obtain t x where t: "s = t @ [x]" using assms(2) by (cases s rule: rev_cases) (auto simp: plain_comp_def)
  have "x \<noteq> CHR ''/''" using assms(2) by (auto simp: plain_comp_def t)
  then have "rev (dropWhile (\<lambda>c. c = CHR ''/'') (rev (CHR ''/'' # p @ t @ [x]))) = CHR ''/'' # p @ t @ [x]" by simp
  then have d: "rev (dropWhile (\<lambda>c. c = CHR ''/'') (rev (CHR ''/'' # ?j))) = CHR ''/'' # ?j" unfolding p unfolding t .
  have "go_split ''/'' (CHR ''/'' # ?j) = [] # (cs @ [s])"
    using go_split_char_app[of "CHR ''/''" "[]" ?j] go_split_join_plain[of "cs @ [s]"] assms by simp
  with d show ?thesis by (simp add: path_base_def path_of_def)
qed

lemma slice_path_spec:
  assumes "is_rooted full"
  shows "is_rooted (fst (slice_path full pre hs)) \<and> snd (slice_path full pre hs) = go_join ''-'' (pre # hs)"
  using assms
proof (induction hs arbitrary: full pre)
  case (Cons h hs)
  have "is_rooted (path_join [full, pre @ ''.slice''])"
    using Cons.prems by (cases full) (simp_all add: path_join_rooted is_rooted_def[of "_ # _"] is_rooted_def[of "[]"] has_prefix_def)
  from Cons.IH[OF this, of "pre @ ''-'' @ h"] show ?case
    by (cases hs) (simp_all add: go_join_Cons)
qed simp

lemma slice_parent_roundtrip:
  assumes "plain_comp s"
  shows "GenerateExpectedCgroupParent driver (ToCriCgroupPath driver s) = s"
proof (cases "driver = ''systemd''")
  case True
  have s: "s \<noteq> []" using assms by (simp add: plain_comp_def)
  let ?hs = "go_split ''-'' s"
  obtain full pre where fp: "slice_path ''/'' (hd ?hs) (tl ?hs) = (full, pre)" by fastforce
  have "is_rooted full \<and> pre = go_join ''-'' ?hs"
    using slice_path_spec[of "''/''" "hd ?hs" "tl ?hs"] fp by (simp add: is_rooted_def has_prefix_def)
  then have f: "is_rooted full" "pre = s" using go_join_split[of "''-''" s] by simp_all
  then have t: "ToCriCgroupPath driver s = path_of True (clean_comps full @ [s])"
    using True s fp path_join_plain[OF f(1) assms] by (simp add: ToCriCgroupPath_def Let_def)
  show ?thesis
    unfolding t using True path_base_snoc[OF clean_comps_rooted[OF f(1)] assms] by (simp add: GenerateExpectedCgroupParent_def)
qed (simp add: ToCriCgroupPath_def GenerateExpectedCgroupParent_def)

section \<open>Environments and resources\<close>

lemma splitn2_eq: "CHR ''='' \<notin> set k \<Longrightarrow> go_splitn2 ''='' (k @ CHR ''='' # v) = [k, v]"
  by (simp add: go_splitn2_def go_cut_char_app)

lemma AList_update_new: "k \<notin> fst ` set m \<Longrightarrow> AList.update k v m = m @ [(k, v)]"
  by (induction m) auto

lemma split_env_roundtrip:
  assumes "distinct (map fst envs)" "\<forall>(k, v)\<in>set envs. CHR ''='' \<notin> set k"
  shows "SplitDockerEnv (GenerateEnvList envs) = envs"
proof -
  have "foldl (\<lambda>res str. case go_splitn2 ''='' str of [k, v] \<Rightarrow> AList.update k v res | _ \<Rightarrow> res) acc (GenerateEnvList envs)
      = acc @ envs" if "distinct (map fst (acc @ envs))" "\<forall>(k, v)\<in>set envs. CHR ''='' \<notin> set k" for acc
    using that
  proof (induction envs arbitrary: acc)
    case (Cons e envs)
    obtain k v where e: "e = (k, v)" by (cases e)
    have "k \<notin> fst ` set acc" using Cons.prems(1) by (auto simp: e)
    moreover have "distinct (map fst ((acc @ [(k, v)]) @ envs))" using Cons.prems(1) by (simp add: e)
    ultimately show ?case
      using Cons.IH[of "acc @ [(k, v)]"] Cons.prems(2) by (simp add: e GenerateEnvList_def splitn2_eq AList_update_new)
  qed (simp add: GenerateEnvList_def)
  from this[of "[]"] assms show ?thesis by (simp add: SplitDockerEnv_def)
qed

lemma host_resources_roundtrip:
  "UpdateHostConfigByResource (Some h) (map_option linux_resources.truncate (host_resources (Some h))) = Some h"
  by (simp add: UpdateHostConfigByResource_def host_resources_def HostConfigToResource_def linux_resources.truncate_def
      linux_resources.extend_def)

lemma host_resources_Some: "host_resources (Some h) = Some r \<Longrightarrow> UpdateHostConfigByResource (Some h) (Some (linux_resources.truncate r)) = Some h"
  using host_resources_roundtrip[of h] by simp

section \<open>The handlers\<close>

lemma CleanCache_spec:
  assumes "tap_inv (tw_cache w)"
  shows "\<exists>c' n. docker_CleanCache ids w = Some (w\<lparr>tw_cache := c'\<rparr>, n) \<and> tap_inv c' \<and> Pods c' = Pods (tw_cache w)
     \<and> view c' = (\<lambda>i. if alive (case ids of None \<Rightarrow> [] | Some l \<Rightarrow> l) i then view (tw_cache w) i else None)"
proof -
  let ?l = "case ids of None \<Rightarrow> [] | Some l \<Rightarrow> l"
  note k = tap_invD(1)[OF assms]
  obtain stale where st: "ValidateCachedContainers ?l (tw_cache w) = Some (tw_cache w, stale)"
    "\<forall>i. i \<in> set stale \<longleftrightarrow> view (tw_cache w) i \<noteq> None \<and> \<not> alive ?l i" using Validate_spec[OF k] by blast
  note d = containers.del_all[OF k, of stale]
  have pods: "tap_inv (fold del_ctr js c) \<and> Pods (fold del_ctr js c) = Pods c" if "tap_inv c" for js c
    using that
  proof (induction js arbitrary: c)
    case (Cons j js)
    obtain c1 where c1: "DeleteContainer j c = Some (c1, view c j)" "tap_inv c1" "Pods c1 = Pods c"
      using DeleteContainer_inv[OF Cons.prems] by blast
    then have "del_ctr j c = c1" by (simp add: del_ctr_def)
    with Cons.IH[OF c1(2)] c1(3) show ?case by simp
  qed simp
  have "view (fold del_ctr stale (tw_cache w)) = (\<lambda>i. if alive ?l i then view (tw_cache w) i else None)"
    using d st(2) by (auto simp: fun_eq_iff)
  moreover have "docker_CleanCache ids w = Some (w\<lparr>tw_cache := fold del_ctr stale (tw_cache w)\<rparr>, int (length stale))"
    by (simp add: docker_CleanCache_def in_cache_def st(1) CleanupStaleContainers_def cleanup_loop_fold[OF k])
  ultimately show ?thesis using pods[OF assms] by blast
qed

definition stop_succeeds :: "(string \<Rightarrow> string) \<Rightarrow> string \<Rightarrow> bool" where
  "stop_succeeds daemon i \<longleftrightarrow> ParseDockerResponseCode (daemon i) \<in> {204, 304}"

lemma in_cache_Lookup: "tap_inv (tw_cache w) \<Longrightarrow> in_cache (LookupContainer i) w = Some (w, view (tw_cache w) i)"
  by (simp add: in_cache_def LookupContainer_spec[OF tap_invD(1)])

lemma view_empty: "tap_inv c \<Longrightarrow> view c [] = None"
  using keyedD(7)[OF tap_invD(1)] by (simp add: view_def)

text \<open>A container that the daemon has stopped gives its grant back and leaves the cache.\<close>

lemma docker_stop_spec:
  assumes "tap_inv (tw_cache w)" "topo_only d" "view (tw_cache w) i \<noteq> None" "stop_succeeds daemon i"
  shows "\<exists>c'. docker_HandleStopContainer d daemon i w
      = Some (\<lparr>tw_policy = stopped_policy w i, tw_cache = c'\<rparr>, Inr (Proxied (daemon i)))
     \<and> tap_inv c' \<and> view c' = (view (tw_cache w))(i := None)"
proof -
  obtain c' where c': "DeleteContainer i (tw_cache w) = Some (c', view (tw_cache w) i)" "tap_inv c'"
    "view c' = (view (tw_cache w))(i := None)" using DeleteContainer_inv[OF assms(1)] by blast
  obtain r where r: "Dispatch d PostStopContainer (CtrMsg (stop_message i)) [] w
    = (w\<lparr>tw_policy := stopped_policy w i\<rparr>, Inr (Some (CtrReply r)))"
    using Dispatch_stop[OF tap_invD(1)[OF assms(1)] assms(2)] by blast
  obtain k where k: "view (tw_cache w) i = Some k" using assms(3) by blast
  have i: "i \<noteq> []" using k view_empty[OF assms(1)] by auto
  have code: "\<not> (ParseDockerResponseCode (daemon i) \<noteq> 204 \<and> ParseDockerResponseCode (daemon i) \<noteq> 304)"
    using assms(4) by (simp add: stop_succeeds_def)
  have l2: "in_cache (LookupContainer i) (w\<lparr>tw_policy := stopped_policy w i\<rparr>) = Some (w\<lparr>tw_policy := stopped_policy w i\<rparr>, Some k)"
    using in_cache_Lookup[of "w\<lparr>tw_policy := stopped_policy w i\<rparr>" i] assms(1) k by simp
  have p: "in_cache (ParseContainerRequest (TapDockerStop i)) w = Some (w, Some (CtrMsg (stop_message i)))"
    by (simp add: in_cache_def ParseContainerRequest_def)
  have del: "in_cache (DeleteContainer i) (w\<lparr>tw_policy := stopped_policy w i\<rparr>)
      = Some (\<lparr>tw_policy = stopped_policy w i, tw_cache = c'\<rparr>, Some k)"
    using c'(1) k by (simp add: in_cache_def)
  have "docker_HandleStopContainer d daemon i w
      = Some (\<lparr>tw_policy = stopped_policy w i, tw_cache = c'\<rparr>, Inr (Proxied (daemon i)))"
    using code by (auto simp: docker_HandleStopContainer_def ParseDockerStopRequest_def i p Let_def
        in_cache_Lookup[OF assms(1)] k r l2 del)
  with c' show ?thesis by blast
qed

text \<open>A container that is not in the cache is stopped without the policy hearing of it.\<close>

lemma docker_stop_unknown:
  assumes "tap_inv (tw_cache w)" "view (tw_cache w) i = None"
  shows "\<exists>r. docker_HandleStopContainer d daemon i w = Some (w, r)"
  using assms
  by (auto simp: docker_HandleStopContainer_def ParseDockerStopRequest_def Let_def in_cache_Lookup
      in_cache_def[of "ParseContainerRequest _"] ParseContainerRequest_def)

interpretation docker: container_stop docker_HandleStopContainer stop_succeeds
proof
  fix d and daemon :: "string \<Rightarrow> string" and i and w :: tap_world
  assume "topo_only d" "tap_inv (tw_cache w)" "view (tw_cache w) i \<noteq> None" "stop_succeeds daemon i"
  from docker_stop_spec[OF this(2,1,3,4)]
  show "\<exists>c' r. docker_HandleStopContainer d daemon i w = Some (\<lparr>tw_policy = stopped_policy w i, tw_cache = c'\<rparr>, r)
      \<and> tap_inv c' \<and> view c' = (view (tw_cache w))(i := None)" by blast
qed

section \<open>Creating a container\<close>

lemma Dispatch_create:
  assumes "topo_only d"
  obtains p' where "allocates (tw_policy w) (create_ctx d m) p'"
      "Dispatch d PreCreateContainer (CtrMsg m) labels w = (w\<lparr>tw_policy := p'\<rparr>, Inl Panic)"
  | p' r where "allocates (tw_policy w) (create_ctx d m) p'"
      "Dispatch d PreCreateContainer (CtrMsg m) labels w = (w\<lparr>tw_policy := p'\<rparr>, Inr r)" "\<forall>x. r \<noteq> Some (PodReply x)"
proof (cases "SkipTAPHandle labels")
  case True
  then have "Dispatch d PreCreateContainer (CtrMsg m) labels w = (w\<lparr>tw_policy := tw_policy w\<rparr>, Inr None)"
    by (simp add: Dispatch_def)
  then show thesis by (rule that(2)[rotated]) (simp_all add: allocates_def)
next
  case False
  obtain p' h where h: "pm_PreCreateContainerHook (d_unmarshal d) (d_driver d) (d_runtime d) (d_manager d) w (hook_request_of m)
      = (w\<lparr>tw_policy := p'\<rparr>, h)" "allocates (tw_policy w) (create_ctx d m) p'" "\<forall>e. h = Inl e \<longrightarrow> e = Panic"
    using pm_create_world[OF assms, of w m] by blast
  note dis = False h(1) Dispatch_def dispatchInternal_def GetResourceTypeFromHookType_def with_reply_def
  show thesis
  proof (cases h)
    case (Inl e)
    with h(3) have "Dispatch d PreCreateContainer (CtrMsg m) labels w = (w\<lparr>tw_policy := p'\<rparr>, Inl Panic)" by (simp add: dis)
    with h(2) show thesis by (rule that(1))
  next
    case (Inr x)
    then have "Dispatch d PreCreateContainer (CtrMsg m) labels w = (w\<lparr>tw_policy := p'\<rparr>, Inr (Some (CtrReply (ctr_reply_of m x))))"
      by (simp add: dis)
    with h(2) show thesis by (rule that(2)) simp
  qed
qed

lemma backfill_docker:
  assumes "\<forall>x. r \<noteq> Some (PodReply x)"
  obtains cfg m' where "BackfillRequest d (ProxyDocker c) (CtrMsg m) r = (ProxyDocker cfg, CtrMsg m')"
    "cx_Name m' = cx_Name m" "cx_PodMeta m' = cx_PodMeta m"
proof (cases r)
  case None
  with that[of c m] show thesis by (simp add: BackfillRequest_def)
next
  case (Some x)
  with assms obtain y where y: "r = Some (CtrReply y)" by (cases x) auto
  have "cx_Name (fill_docker_message c y m) = cx_Name m" "cx_PodMeta (fill_docker_message c y m) = cx_PodMeta m"
    by (simp_all add: fill_docker_message_def Let_def split: option.splits)
  with that y show thesis by (simp add: BackfillRequest_def BackfillContainerRequest_def)
qed

text \<open>A creation that the daemon answers with an ID, for a pod in the cache.\<close>

lemma docker_create_ok:
  assumes "topo_only d" "tap_inv (tw_cache w)"
    and "docker_ParseRequest decoded name = Inr q" "dr_RuntimeResourceType q = RuntimeContainerResource"
    and "map_of (Pods (tw_cache w)) (label_at (cw_Labels q) ''io.kubernetes.sandbox.id'') = Some pod"
    and "docker_HandleCreateContainer d ids daemon decodeID decoded name w = Some (w1, Inr (Proxied body))" "decodeID body \<noteq> []"
  obtains c0 c1 k where "view c0 = (\<lambda>i. if alive (case ids of None \<Rightarrow> [] | Some l \<Rightarrow> l) i then view (tw_cache w) i else None)"
    "allocates (tw_policy w) (create_ctx d (parseDockerCreateContainerRequest q pod)) (tw_policy w1)"
    "tap_inv (tw_cache w1)" "view (tw_cache w1) = (view c0)(decodeID body \<mapsto> k)"
    "ct_Name k = cx_Name (parseDockerCreateContainerRequest q pod)"
    "map_option po_UID (ctr_GetPod (tw_cache w1) k) = Some (po_UID pod)"
proof -
  let ?sid = "label_at (cw_Labels q) ''io.kubernetes.sandbox.id''"
  let ?m = "parseDockerCreateContainerRequest q pod"
  obtain c0 n where c0: "docker_CleanCache ids w = Some (w\<lparr>tw_cache := c0\<rparr>, n)" "tap_inv c0" "Pods c0 = Pods (tw_cache w)"
    "view c0 = (\<lambda>i. if alive (case ids of None \<Rightarrow> [] | Some l \<Rightarrow> l) i then view (tw_cache w) i else None)"
    using CleanCache_spec[OF assms(2)] by blast
  let ?w = "w\<lparr>tw_cache := c0\<rparr>"
  have look: "LookupPod ?sid c0 = Some (c0, Some pod)" using LookupPod_spec[OF tap_invD(1)[OF c0(2)]] assms(5) c0(3) by simp
  have hook: "docker_hook d q ?w = Some (apsnd (map_sum id (\<lambda>r. Inr (CtrMsg ?m, r)))
      (Dispatch d PreCreateContainer (CtrMsg ?m) (po_Labels pod) ?w))"
    by (simp add: docker_hook_def assms(4) in_cache_def look ParseContainerRequest_def)
  note call = assms(3) docker_HandleCreateContainer_def c0(1) hook
  show thesis
  proof (rule Dispatch_create[OF assms(1), of ?w ?m "po_Labels pod"])
    fix p' assume "Dispatch d PreCreateContainer (CtrMsg ?m) (po_Labels pod) ?w = (?w\<lparr>tw_policy := p'\<rparr>, Inl Panic)"
    with assms(6) show thesis by (simp add: call)
  next
    fix p' r assume a: "allocates (tw_policy ?w) (create_ctx d ?m) p'"
      "Dispatch d PreCreateContainer (CtrMsg ?m) (po_Labels pod) ?w = (?w\<lparr>tw_policy := p'\<rparr>, Inr r)" "\<forall>x. r \<noteq> Some (PodReply x)"
    obtain cfg m' where b: "BackfillRequest d (ProxyDocker (config_wrapper.truncate q)) (CtrMsg ?m) r = (ProxyDocker cfg, CtrMsg m')"
      "cx_Name m' = cx_Name ?m" "cx_PodMeta m' = cx_PodMeta ?m" by (rule backfill_docker[OF a(3)])
    have pm: "cx_PodMeta ?m = Some (\<lparr>pm_Namespace = po_Namespace pod, pm_Name = po_Name pod, pm_UID = po_UID pod\<rparr>, po_ID pod)"
      by (simp add: parseDockerCreateContainerRequest_def buildContainerResourceHookRequest_def)
    have pid: "po_ID pod = ?sid" using pods_okD(1)[OF tap_invD(2)[OF assms(2)] assms(5)] .
    have ch: "ch_PodId (ctr_hook_of m') = Some ?sid" using b(3) pm pid by (simp add: ctr_hook_of_def)
    have pods: "map_of (Pods c0) ?sid = Some pod" using assms(5) c0(3) by simp
    let ?body = "daemon cfg"
    have ret: "docker_HandleCreateContainer d ids daemon decodeID decoded name w
        = (case in_cache (InsertIntoCacheIfNeed (DockerCreated (decodeID ?body)) (CtrMsg m')) (?w\<lparr>tw_policy := p'\<rparr>) of
             None \<Rightarrow> None | Some (w3, Inl e) \<Rightarrow> Some (w3, Inl e) | Some (w3, Inr _) \<Rightarrow> Some (w3, Inr (Proxied ?body)))"
      by (simp add: call a(2) b(1) Let_def split: option.splits sum.splits)
    have body: "body = ?body" using assms(6) unfolding ret by (auto split: option.splits sum.splits)
    obtain c1 k where k: "InsertContainer (decodeID body) (CtrHook (ctr_hook_of m')) c0 = Some (c1, Inr k)" "tap_inv c1"
      "view c1 = (view c0)(decodeID body \<mapsto> k)" "ct_Name k = ch_Name (ctr_hook_of m')"
      "map_option po_UID (ctr_GetPod c1 k) = Some (po_UID pod)"
      using InsertContainer_hook[OF c0(2) assms(7) ch pods] by blast
    have w1: "w1 = w\<lparr>tw_policy := p', tw_cache := c1\<rparr>"
      using assms(6) k(1) unfolding ret body by (auto simp: in_cache_def InsertIntoCacheIfNeed_def logged_def)
    show thesis
      by (rule that[of c0 k]) (use c0(4) a(1) k b(2) in \<open>simp_all add: w1 ctr_hook_of_def\<close>)
  qed
qed

section \<open>What the proxy guarantees\<close>

lemma trunc_host: "map_option linux_resources.truncate (host_resources (Some h)) = HostConfigToResource (Some h)"
  by (simp add: host_resources_def HostConfigToResource_def linux_resources.truncate_def linux_resources.extend_def)

lemma with_rest_echo: "with_rest (host_resources (Some h)) (map_option linux_resources.truncate (host_resources (Some h))) = host_resources (Some h)"
  by (simp add: with_rest_def host_resources_def HostConfigToResource_def linux_resources.truncate_def linux_resources.extend_def
      full_resources.fields_def)


text \<open>When the daemon fails to list its containers, the next creation forgets them all: the clean-up takes the empty
  list at its word, removes every container from the cache and releases none of their grants, and stopping any of
  them afterwards, whatever the daemon answers, leaves the policy as it is.\<close>

theorem docker_list_failure_leaks:
  assumes "tap_inv (tw_cache w)"
  shows "\<exists>w1 n. docker_CleanCache None w = Some (w1, n) \<and> tw_policy w1 = tw_policy w \<and> view (tw_cache w1) = (\<lambda>_. None)
    \<and> (\<exists>r. docker_HandleStopContainer d daemon i w1 = Some (w1, r))"
proof -
  obtain c' n where c': "docker_CleanCache None w = Some (w\<lparr>tw_cache := c'\<rparr>, n)" "tap_inv c'"
    "view c' = (\<lambda>i. if alive [] i then view (tw_cache w) i else None)"
    using CleanCache_spec[OF assms, of None] by auto
  then have v: "view c' = (\<lambda>_. None)" by (simp add: alive_def)
  then have "\<exists>r. docker_HandleStopContainer d daemon i (w\<lparr>tw_cache := c'\<rparr>) = Some (w\<lparr>tw_cache := c'\<rparr>, r)"
    using c'(2) by (intro docker_stop_unknown) simp_all
  with c'(1) v show ?thesis by (intro exI[of _ "w\<lparr>tw_cache := c'\<rparr>"] exI[of _ n]) simp
qed

text \<open>A container's life through the Docker proxy leaves no trace in the policy: when the daemon has created the
  container of a cached pod, and later stops it or says that it had stopped already, the policy is exactly what it
  was, and the cache has the containers the daemon still listed.\<close>

theorem docker_lifecycle:
  assumes "topo_only d" "tap_inv (tw_cache w)" "books (tw_policy w)"
    and "docker_ParseRequest decoded name = Inr q" "dr_RuntimeResourceType q = RuntimeContainerResource"
    and "map_of (Pods (tw_cache w)) (label_at (cw_Labels q) ''io.kubernetes.sandbox.id'') = Some pod" "po_UID pod \<noteq> []"
    and "cw_HostConfig q = Some h" "in_i64 (hc_Memory h)"
    and "counter_at (tw_policy w) 0 CMemory + max 0 (hc_Memory h) div 1024 < 18446744073709551616"
    and "map_of (p_grants (tw_policy w)) (po_UID pod @ '':'' @ dr_ContainerName q) = None"
    and "docker_HandleCreateContainer d ids daemon decodeID decoded name w = Some (w1, Inr (Proxied body))" "decodeID body \<noteq> []"
    and "stop_succeeds daemon2 (decodeID body)" "docker_HandleStopContainer d daemon2 (decodeID body) w1 = Some (w2, r)"
  shows "tw_policy w2 = tw_policy w
    \<and> (\<forall>i. view (tw_cache w2) i = (if i \<noteq> decodeID body \<and> alive (case ids of None \<Rightarrow> [] | Some l \<Rightarrow> l) i then view (tw_cache w) i else None))"
proof -
  let ?m = "parseDockerCreateContainerRequest q pod"
  obtain c0 k where c: "view c0 = (\<lambda>i. if alive (case ids of None \<Rightarrow> [] | Some l \<Rightarrow> l) i then view (tw_cache w) i else None)"
    "allocates (tw_policy w) (create_ctx d ?m) (tw_policy w1)" "tap_inv (tw_cache w1)"
    "view (tw_cache w1) = (view c0)(decodeID body \<mapsto> k)" "ct_Name k = cx_Name ?m"
    "map_option po_UID (ctr_GetPod (tw_cache w1) k) = Some (po_UID pod)"
    by (rule docker_create_ok[OF assms(1,2,4-6,12,13)])
  have m: "cx_Name ?m = dr_ContainerName q" "pm_UID (hr_PodMeta (hook_request_of ?m)) = po_UID pod"
    "map_option linux_resources.truncate (cx_ContainerResources ?m) = HostConfigToResource (Some h)"
    using assms(8) by (simp_all add: parseDockerCreateContainerRequest_def buildContainerResourceHookRequest_def
        hook_request_of_def trunc_host)
  obtain l where l: "HostConfigToResource (Some h) = Some l" "MemoryLimitInBytes l = hc_Memory h"
    by (simp add: HostConfigToResource_def)
  have stop: "docker_HandleStopContainer d daemon2 (decodeID body) \<lparr>tw_policy = tw_policy w1, tw_cache = tw_cache w1\<rparr> = Some (w2, r)"
    using assms(15) by (cases w1) simp
  have "tw_policy w2 = tw_policy w \<and> view (tw_cache w2) = (view c0)(decodeID body := None) \<and> tap_inv (tw_cache w2)"
    by (rule docker.life[OF assms(1) c(3) assms(3) c(2,4) assms(13) c(5,6) assms(7) m(2) m(3)[unfolded l(1)] _ _ _ assms(14) stop])
      (use assms(9-11) l(2) m(1) in simp_all)
  with c(1) show ?thesis by auto
qed

section \<open>A small node\<close>

definition demo_docker :: dispatcher where
  "demo_docker = SetDockerCgroupDriver ''systemd'' demo_dispatcher"

definition demo_host :: host_config where
  "demo_host = \<lparr>hc_CPUPeriod = 0, hc_CPUQuota = 0, hc_CPUShares = 1024, hc_Memory = 1048576, hc_OomScoreAdj = 0,
     hc_CpusetCpus = [], hc_CpusetMems = [], hc_MemorySwap = 0, hc_CgroupParent = ''kubepods-burstable-podu.slice''\<rparr>"

definition demo_wrapper :: config_wrapper where
  "demo_wrapper = \<lparr>cw_Labels = [(''io.kubernetes.sandbox.id'', ''s'')], cw_Env = [''A=1'', ''B=x=y''], cw_HostConfig = Some demo_host\<rparr>"

definition demo_docker_name :: string where
  "demo_docker_name = ''k8s_web_p_default_u_0''"

definition demo_docker_request :: docker_create_request where
  "demo_docker_request = (case docker_ParseRequest (Some demo_wrapper) demo_docker_name of Inr q \<Rightarrow> q)"

definition demo_docker_pod :: pod where
  "demo_docker_pod = (blank_pod ''s'')\<lparr>po_UID := ''u'', po_Name := ''p'', po_Namespace := ''default'', po_containers := Some [],
     po_CgroupParent := ToCriCgroupPath ''systemd'' ''kubepods-burstable-podu.slice''\<rparr>"

definition demo_docker_created :: tap_world where
  "demo_docker_created =
     (case docker_HandleCreateContainer demo_docker (Some []) (\<lambda>_. ''k'') id (Some demo_wrapper) demo_docker_name demo_w1 of
        Some (w, _) \<Rightarrow> w | None \<Rightarrow> demo_w1)"

lemma demo_docker_topo: "topo_only demo_docker"
  by (auto simp: topo_only_def demo_docker_def SetDockerCgroupDriver_def demo_dispatcher_def demo_pm_def)

lemma demo_docker_parse: "docker_ParseRequest (Some demo_wrapper) demo_docker_name = Inr demo_docker_request"
  by code_simp

lemma demo_docker_fields: "cw_HostConfig demo_docker_request = Some demo_host" "cw_Env demo_docker_request = [''A=1'', ''B=x=y'']"
  "dr_ContainerName demo_docker_request = ''web''" "dr_RuntimeResourceType demo_docker_request = RuntimeContainerResource"
  "label_at (cw_Labels demo_docker_request) ''io.kubernetes.sandbox.id'' = ''s''"
  by code_simp+


theorem docker_list_failure_leaks_witness:
  "\<exists>w1 n. docker_CleanCache None demo_w2 = Some (w1, n) \<and> map_of (p_grants (tw_policy w1)) ''u:web'' \<noteq> None
     \<and> view (tw_cache w1) ''k'' = None \<and> (\<exists>r. docker_HandleStopContainer demo_docker (\<lambda>_. []) ''k'' w1 = Some (w1, r))"
  using docker_list_failure_leaks[OF demo_inv(2), of demo_docker "\<lambda>_. []" "''k''"] demo_granted(1) by auto

lemma demo_docker_create:
  "docker_HandleCreateContainer demo_docker (Some []) (\<lambda>_. ''k'') id (Some demo_wrapper) demo_docker_name demo_w1
     = Some (demo_docker_created, Inr (Proxied ''k''))"
  by code_simp

theorem docker_lifecycle_witness:
  "map_of (p_grants (tw_policy demo_docker_created)) ''u:web'' \<noteq> None
   \<and> (\<exists>w r. docker_HandleStopContainer demo_docker (\<lambda>_. []) ''k'' demo_docker_created = Some (w, r) \<and> tw_policy w = demo_policy)"
proof
  show "map_of (p_grants (tw_policy demo_docker_created)) ''u:web'' \<noteq> None" by code_simp
  have s: "docker_HandleStopContainer demo_docker (\<lambda>_. []) ''k'' demo_docker_created \<noteq> None" by code_simp
  then obtain w r where w: "docker_HandleStopContainer demo_docker (\<lambda>_. []) ''k'' demo_docker_created = Some (w, r)" by auto
  obtain pod where pod: "map_of (Pods (tw_cache demo_w1)) ''s'' = Some pod" "po_UID pod = ''u''" using demo_pod by blast
  have p: "map_of (Pods (tw_cache demo_w1)) (label_at (cw_Labels demo_docker_request) ''io.kubernetes.sandbox.id'') = Some pod"
    "po_UID pod \<noteq> []" using pod by (simp_all add: demo_docker_fields(5))
  have b: "books (tw_policy demo_w1)" unfolding demo_w1_policy by (rule idle_books[OF demo_idle])
  have m: "counter_at (tw_policy demo_w1) 0 CMemory + max 0 (hc_Memory demo_host) div 1024 < 18446744073709551616"
    unfolding demo_w1_policy by code_simp
  have f: "map_of (p_grants (tw_policy demo_w1)) (po_UID pod @ '':'' @ dr_ContainerName demo_docker_request) = None"
    by (simp add: demo_w1_policy demo_policy_def)
  have i: "in_i64 (hc_Memory demo_host)" by (simp add: demo_host_def in_i64_def)
  have ok: "stop_succeeds (\<lambda>_. []) (id ''k'')" by code_simp
  have "tw_policy w = tw_policy demo_w1"
    using docker_lifecycle[OF demo_docker_topo demo_inv(1) b demo_docker_parse demo_docker_fields(4) p demo_docker_fields(1) i m f
      demo_docker_create _ ok, of w r] w by simp
  with w show "\<exists>w r. docker_HandleStopContainer demo_docker (\<lambda>_. []) ''k'' demo_docker_created = Some (w, r) \<and> tw_policy w = demo_policy"
    by (auto simp: demo_w1_policy)
qed

end
