(* ===== verification/NriAgent.thy ===== *)
theory NriAgent
  imports TapStop
begin

text \<open>
  The plugin of the node resource interface (\<^verbatim>\<open>pkg/kunpeng-tap/server/nri/server.go\<close>): the runtime calls it with a
  pod and a container, the plugin calls the policy manager and answers with an adjustment. The events that only
  log (\<open>StopPodSandbox\<close>, \<open>PostCreateContainer\<close>, \<open>StartContainer\<close>, \<open>UpdateContainer\<close>) change nothing. Of the \<open>dispatcher\<close>
  record the agent uses the hook manager and the values its hooks read. A nil pod in a list is \<open>None\<close>.
\<close>

section \<open>Messages\<close>

record nri_sandbox = nri_pod +
  ns_Id :: string

record nri_ctr = nri_container +
  nk_Annotations :: "(string, string) gomap option"
  nk_Env :: "string list"

record nri_adjustment =
  ad_Annotations :: "(string, string) gomap option"
  ad_Env :: "(string \<times> string) list"
  ad_CpuPeriod :: "int option"
  ad_CpuQuota :: "int option"
  ad_CpuShares :: "int option"
  ad_Cpus :: string
  ad_Mems :: string
  ad_MemoryLimit :: "int option"
  ad_OomScoreAdj :: "int option"

definition no_adjustment :: nri_adjustment where
  "no_adjustment = \<lparr>ad_Annotations = None, ad_Env = [], ad_CpuPeriod = None, ad_CpuQuota = None, ad_CpuShares = None,
     ad_Cpus = [], ad_Mems = [], ad_MemoryLimit = None, ad_OomScoreAdj = None\<rparr>"

section \<open>From the NRI to the hooks\<close>

definition set_from :: "int option \<Rightarrow> int \<Rightarrow> int" where
  "set_from v old = (case v of None \<Rightarrow> old | Some x \<Rightarrow> x)"

text \<open>Period and shares are unsigned in the NRI's messages.\<close>

definition extractCPUResources :: "nri_cpu \<Rightarrow> linux_resources \<Rightarrow> linux_resources" where
  "extractCPUResources cpu r =
     r\<lparr>CpuPeriod := set_from (map_option wrap_i64 (ni_period cpu)) (CpuPeriod r),
       CpuQuota := set_from (ni_quota cpu) (CpuQuota r),
       CpuShares := set_from (map_option wrap_i64 (ni_shares cpu)) (CpuShares r),
       CpusetCpus := (if ni_cpus cpu \<noteq> [] then ni_cpus cpu else CpusetCpus r),
       CpusetMems := (if ni_mems cpu \<noteq> [] then ni_mems cpu else CpusetMems r)\<rparr>"

definition extractMemoryResources :: "int option \<Rightarrow> linux_resources \<Rightarrow> linux_resources" where
  "extractMemoryResources limit r = r\<lparr>MemoryLimitInBytes := set_from limit (MemoryLimitInBytes r)\<rparr>"

definition convertContainerResources :: "nri_ctr \<Rightarrow> linux_resources option" where
  "convertContainerResources c =
     (case nc_Resources c of
        None \<Rightarrow> None
      | Some res \<Rightarrow>
          (let r0 = zero_linux_resources;
               r1 = (case ni_cpu res of None \<Rightarrow> r0 | Some cpu \<Rightarrow> extractCPUResources cpu r0)
           in Some ((extractMemoryResources (ni_memory_limit res) r1)\<lparr>OomScoreAdj := 0\<rparr>)))"

definition convertPodResources :: "nri_sandbox \<Rightarrow> linux_resources option" where
  "convertPodResources pod =
     (case np_Linux pod of
        Some (_, _, Some res) \<Rightarrow>
          (let r0 = zero_linux_resources;
               r1 = (case ni_cpu res of
                       None \<Rightarrow> r0
                     | Some cpu \<Rightarrow>
                         r0\<lparr>CpuPeriod := set_from (map_option wrap_i64 (ni_period cpu)) 0,
                            CpuQuota := set_from (ni_quota cpu) 0,
                            CpuShares := set_from (map_option wrap_i64 (ni_shares cpu)) 0,
                            CpusetCpus := ni_cpus cpu, CpusetMems := ni_mems cpu\<rparr>)
           in Some (r1\<lparr>MemoryLimitInBytes := set_from (ni_memory_limit res) 0, OomScoreAdj := 0\<rparr>))
      | _ \<Rightarrow> None)"

definition convertEnvironmentVariables :: "string list \<Rightarrow> (string, string) gomap" where
  "convertEnvironmentVariables envVars =
     foldl (\<lambda>m env. if env = [] then m
                    else (case go_cut ''='' env of
                            None \<Rightarrow> AList.update env [] m
                          | Some (k, v) \<Rightarrow> if k = [] then AList.update env [] m else AList.update k v m)) [] envVars"

definition extractCgroupParent :: "nri_sandbox \<Rightarrow> string" where
  "extractCgroupParent pod = (case np_Linux pod of None \<Rightarrow> [] | Some (parent, _) \<Rightarrow> parent)"

definition convertPodMetadata :: "nri_sandbox \<Rightarrow> pod_meta \<times> string" where
  "convertPodMetadata pod = (\<lparr>pm_Namespace = np_Namespace pod, pm_Name = np_Name pod, pm_UID = np_Uid pod\<rparr>, ns_Id pod)"

definition convertContainerMetadata :: "nri_ctr \<Rightarrow> string \<times> string" where
  "convertContainerMetadata c = (nc_Name c, nc_Id c)"

definition convertToHookRequest :: "nri_sandbox \<Rightarrow> nri_ctr \<Rightarrow> ctr_message" where
  "convertToHookRequest pod c =
     \<lparr>cx_PodMeta = Some (convertPodMetadata pod),
      cx_Name = fst (convertContainerMetadata c), cx_Id = snd (convertContainerMetadata c), cx_Attempt = 0,
      cx_PodResources = convertPodResources pod, cx_ContainerAnnotations = nk_Annotations c,
      cx_ContainerResources =
        map_option (\<lambda>l. linux_resources.extend l (full_resources.fields [] [])) (convertContainerResources c),
      cx_PodAnnotations = np_Annotations pod, cx_PodLabels = np_Labels pod,
      cx_PodCgroupParent = extractCgroupParent pod,
      cx_ContainerEnvs = Some (convertEnvironmentVariables (nk_Env c))\<rparr>"

section \<open>From the hooks to the NRI\<close>

text \<open>A value that is not positive, or an OOM score out of its range, is not set.\<close>

definition setLinuxResources :: "linux_resources \<Rightarrow> nri_adjustment \<Rightarrow> nri_adjustment" where
  "setLinuxResources r a =
     a\<lparr>ad_CpuPeriod := (if CpuPeriod r > 0 then Some (CpuPeriod r) else ad_CpuPeriod a),
       ad_CpuQuota := (if CpuQuota r > 0 then Some (CpuQuota r) else ad_CpuQuota a),
       ad_CpuShares := (if CpuShares r > 0 then Some (to_u64 (CpuShares r)) else ad_CpuShares a),
       ad_Cpus := (if CpusetCpus r \<noteq> [] then CpusetCpus r else ad_Cpus a),
       ad_Mems := (if CpusetMems r \<noteq> [] then CpusetMems r else ad_Mems a),
       ad_MemoryLimit := (if MemoryLimitInBytes r > 0 then Some (MemoryLimitInBytes r) else ad_MemoryLimit a),
       ad_OomScoreAdj := (if OomScoreAdj r \<noteq> 0 \<and> \<not> (OomScoreAdj r < -1000 \<or> OomScoreAdj r > 1000)
                          then Some (OomScoreAdj r) else ad_OomScoreAdj a)\<rparr>"

definition convertToCtrAdjustment :: "ctr_response \<Rightarrow> nri_adjustment" where
  "convertToCtrAdjustment resp =
     (let a0 = no_adjustment;
          a1 = (case rx_ContainerResources resp of None \<Rightarrow> a0
                | Some r \<Rightarrow> setLinuxResources (linux_resources.truncate r) a0);
          a2 = (case rx_ContainerAnnotations resp of None \<Rightarrow> a1 | Some x \<Rightarrow> a1\<lparr>ad_Annotations := Some x\<rparr>)
      in (case rx_ContainerEnvs resp of None \<Rightarrow> a2 | Some envs \<Rightarrow> a2\<lparr>ad_Env := ad_Env a2 @ envs\<rparr>))"

section \<open>Synchronizing\<close>

text \<open>Pods and containers that the cache does not know are inserted; a failure is logged.\<close>

fun synchronizePods :: "nri_sandbox option list \<Rightarrow> tap_world \<Rightarrow> (tap_world \<times> unit result) option" where
  "synchronizePods [] w = Some (w, Inr ())"
| "synchronizePods (None # ps) w = synchronizePods ps w"
| "synchronizePods (Some p # ps) w =
     (case in_cache (LookupPod (ns_Id p)) w of
        None \<Rightarrow> None
      | Some (w1, Some _) \<Rightarrow> synchronizePods ps w1
      | Some (w1, None) \<Rightarrow>
          (case in_cache (InsertPod (ns_Id p) (PodNri (nri_pod.truncate p)) (Some [])) w1 of
             None \<Rightarrow> None
           | Some (w2, Inl Panic) \<Rightarrow> Some (w2, Inl Panic)
           | Some (w2, _) \<Rightarrow> synchronizePods ps w2))"

fun synchronizeContainers :: "nri_ctr option list \<Rightarrow> tap_world \<Rightarrow> (tap_world \<times> unit result) option" where
  "synchronizeContainers [] w = Some (w, Inr ())"
| "synchronizeContainers (None # cs) w = synchronizeContainers cs w"
| "synchronizeContainers (Some c # cs) w =
     (case in_cache (LookupContainer (nc_Id c)) w of
        None \<Rightarrow> None
      | Some (w1, Some _) \<Rightarrow> synchronizeContainers cs w1
      | Some (w1, None) \<Rightarrow>
          (case in_cache (InsertContainer (nc_Id c) (CtrNri (nri_container.truncate c))) w1 of
             None \<Rightarrow> None
           | Some (w2, Inl Panic) \<Rightarrow> Some (w2, Inl Panic)
           | Some (w2, _) \<Rightarrow> synchronizeContainers cs w2))"

definition nri_Synchronize ::
  "dispatcher \<Rightarrow> nri_sandbox option list \<Rightarrow> nri_ctr option list \<Rightarrow> tap_world \<Rightarrow> (tap_world \<times> unit result) option" where
  "nri_Synchronize d pods containers w =
     (case synchronizePods pods w of
        None \<Rightarrow> None
      | Some (w1, Inl e) \<Rightarrow> Some (w1, Inl e)
      | Some (w1, Inr _) \<Rightarrow>
          (case synchronizeContainers containers w1 of
             None \<Rightarrow> None
           | Some (w2, Inl e) \<Rightarrow> Some (w2, Inl e)
           | Some (w2, Inr _) \<Rightarrow>
               map_option (\<lambda>(w3, _). (w3, Inr ())) (pm_RebuildAllocationsFromCache (d_manager d) w2)))"

section \<open>The events\<close>

definition nri_RunPodSandbox :: "nri_sandbox \<Rightarrow> tap_world \<Rightarrow> (tap_world \<times> unit result) option" where
  "nri_RunPodSandbox pod w =
     map_option (apsnd (map_sum id (\<lambda>_. ())))
       (in_cache (InsertPod (ns_Id pod) (PodNri (nri_pod.truncate pod)) (Some (extractCgroupParent pod))) w)"

definition nri_RemovePodSandbox :: "nri_sandbox \<Rightarrow> tap_world \<Rightarrow> (tap_world \<times> unit result) option" where
  "nri_RemovePodSandbox pod w = map_option (\<lambda>(w', _). (w', Inr ())) (in_cache (DeletePod (ns_Id pod)) w)"

definition ensure_pod :: "nri_sandbox \<Rightarrow> tap_world \<Rightarrow> (tap_world \<times> unit result) option" where
  "ensure_pod pod w =
     (case in_cache (LookupPod (ns_Id pod)) w of
        None \<Rightarrow> None
      | Some (w1, Some _) \<Rightarrow> Some (w1, Inr ())
      | Some (w1, None) \<Rightarrow> nri_RunPodSandbox pod w1)"

text \<open>The container is filed as the runtime has described it, without the adjustment.\<close>

definition nri_CreateContainer ::
  "dispatcher \<Rightarrow> nri_sandbox \<Rightarrow> nri_ctr \<Rightarrow> tap_world \<Rightarrow> (tap_world \<times> nri_adjustment result) option" where
  "nri_CreateContainer d pod c w =
     (case ensure_pod pod w of
        None \<Rightarrow> None
      | Some (w1, Inl e) \<Rightarrow> Some (w1, Inl e)
      | Some (w1, Inr _) \<Rightarrow>
          (case with_reply (pm_PreCreateContainerHook (d_unmarshal d) (d_driver d) (d_runtime d) (d_manager d) w1
                  (hook_request_of (convertToHookRequest pod c))) (convertToHookRequest pod c) of
             (w2, Inl e) \<Rightarrow> Some (w2, Inl e)
           | (w2, Inr reply) \<Rightarrow>
               (let adjustment = (case reply of Some (CtrReply r) \<Rightarrow> convertToCtrAdjustment r | _ \<Rightarrow> no_adjustment)
                in case in_cache (InsertContainer (nc_Id c) (CtrNri (nri_container.truncate c))) w2 of
                     None \<Rightarrow> None
                   | Some (w3, Inl Panic) \<Rightarrow> Some (w3, Inl Panic)
                   | Some (w3, _) \<Rightarrow> Some (w3, Inr adjustment))))"

text \<open>The message of a stop is made from the pod and the container; the hook reads the container's ID.\<close>

definition nri_StopContainer :: "dispatcher \<Rightarrow> nri_sandbox \<Rightarrow> nri_ctr \<Rightarrow> tap_world \<Rightarrow> (tap_world \<times> unit result) option" where
  "nri_StopContainer d pod c w =
     Some (apsnd (map_sum id (\<lambda>_. ()))
       (pm_PostStopContainerHook (d_manager d) w (hook_request_of (convertToHookRequest pod c))))"

definition nri_RemoveContainer :: "dispatcher \<Rightarrow> nri_sandbox \<Rightarrow> nri_ctr \<Rightarrow> tap_world \<Rightarrow> (tap_world \<times> unit result) option" where
  "nri_RemoveContainer d pod c w =
     (case pm_PreRemoveContainerHook (d_manager d) w (hook_request_of (convertToHookRequest pod c)) of
        (w1, Inl e) \<Rightarrow> Some (w1, Inl e)
      | (w1, Inr _) \<Rightarrow> map_option (\<lambda>(w2, _). (w2, Inr ())) (in_cache (DeleteContainer (nc_Id c)) w1))"

end
