(* ===== verification/NriOk.thy ===== *)
theory NriOk
  imports NriAgent
begin

text \<open>
  What the plugin of the node resource interface promises: the life of a container leaves no trace, and the
  adjustment of a new container only moves it to its CPUs, never touching a limit.
\<close>

section \<open>Pods and containers\<close>

lemma pod_from_nri [simp]:
  "po_ID (pod_fromNriPodSandbox p m st) = po_ID p" "po_containers (pod_fromNriPodSandbox p m st) = Some []"
  "po_UID (pod_fromNriPodSandbox p m st) = np_Uid m"
  by (simp_all add: pod_fromNriPodSandbox_def set_qos_def Let_def split: option.splits prod.splits)

lemma InsertPod_nri:
  assumes "tap_inv c" "i \<noteq> []"
  shows "\<exists>c' p. InsertPod i (PodNri m) st c = Some (c', Inr p) \<and> tap_inv c' \<and> view c' = view c
     \<and> map_of (Pods c') i = Some p \<and> po_UID p = np_Uid m"
proof -
  obtain c' r where r: "InsertPod i (PodNri m) st c = Some (c', r)" "keyed c'" "view c' = view c"
    using InsertPod_spec[OF tap_invD(1)[OF assms(1)]] by metis
  let ?p = "pod_fromNriPodSandbox (blank_pod i) m st"
  have c': "r = Inr ?p" "Pods c' = AList.update i ?p (Pods c)"
    using r(1) assms(2) keyedD(1)[OF tap_invD(1)[OF assms(1)]] by (auto simp: InsertPod_def with_lock_free)
  have "pods_ok c'" using tap_invD(2)[OF assms(1)] by (simp add: pods_ok_def c'(2) blank_pod_def)
  with r c' show ?thesis by (auto simp: tap_inv_def)
qed

text \<open>A pod that the cache knows has the UID the runtime gives it.\<close>

definition pod_agrees :: "nri_sandbox \<Rightarrow> cache \<Rightarrow> bool" where
  "pod_agrees pod c \<longleftrightarrow> ns_Id pod \<noteq> [] \<and> (case map_of (Pods c) (ns_Id pod) of None \<Rightarrow> True | Some p \<Rightarrow> po_UID p = np_Uid pod)"

lemma ensure_pod_spec:
  assumes "tap_inv (tw_cache w)" "pod_agrees pod (tw_cache w)"
  shows "\<exists>c' p. ensure_pod pod w = Some (w\<lparr>tw_cache := c'\<rparr>, Inr ()) \<and> tap_inv c' \<and> view c' = view (tw_cache w)
     \<and> map_of (Pods c') (ns_Id pod) = Some p \<and> po_UID p = np_Uid pod"
proof (cases "map_of (Pods (tw_cache w)) (ns_Id pod)")
  case None
  have "ns_Id pod \<noteq> []" using assms(2) by (simp add: pod_agrees_def)
  from InsertPod_nri[OF assms(1) this, of "nri_pod.truncate pod" "Some (extractCgroupParent pod)"] None
    LookupPod_spec[OF tap_invD(1)[OF assms(1)], of "ns_Id pod"]
  show ?thesis by (auto simp: ensure_pod_def in_cache_def nri_RunPodSandbox_def nri_pod.truncate_def)
next
  case (Some p)
  with LookupPod_spec[OF tap_invD(1)[OF assms(1)], of "ns_Id pod"] assms show ?thesis
    by (intro exI[of _ "tw_cache w"] exI[of _ p]) (simp add: ensure_pod_def in_cache_def pod_agrees_def)
qed

text \<open>The container is filed with the resources the runtime has described.\<close>

lemma InsertContainer_nri:
  assumes "tap_inv c" "i \<noteq> []" "map_of (Pods c) (nc_PodSandboxId m) = Some pod"
  shows "\<exists>c' k. InsertContainer i (CtrNri m) c = Some (c', Inr k) \<and> tap_inv c' \<and> view c' = (view c)(i \<mapsto> k)
     \<and> ct_Name k = nc_Name m \<and> ct_LinuxReq k = convertNriLinuxResources (nc_Resources m)
     \<and> map_option po_UID (ctr_GetPod c' k) = Some (po_UID pod)"
proof -
  note inv = tap_invD[OF assms(1)]
  let ?c = "c\<lparr>c_locked := True\<rparr>"
  have "pods_ok ?c" "map_of (Pods ?c) (nc_PodSandboxId m) = Some pod" using inv(2) assms(3) by (simp_all add: pods_ok_def)
  then obtain P where P: "register (nc_PodSandboxId m) (nc_Name m) (nc_Id m) ?c = Inr (?c\<lparr>Pods := P\<rparr>)" "pods_ok (?c\<lparr>Pods := P\<rparr>)"
    "map_option po_UID (map_of P (nc_PodSandboxId m)) = Some (po_UID pod)" using register_known by metis
  let ?k1 = "blank_container\<lparr>ct_PodID := nc_PodSandboxId m, ct_ID := nc_Id m, ct_Name := nc_Name m,
    ct_Namespace := po_Namespace pod, ct_State := convertNriContainerState (nc_State m), ct_Resources := po_Resources pod\<rparr>"
  define k where "k = (if nc_Resources m \<noteq> None
     then ?k1\<lparr>ct_LinuxReq := convertNriLinuxResources (nc_Resources m)\<rparr> else ?k1)\<lparr>ct_ID := i\<rparr>"
  define c' where "c' = c\<lparr>c_locked := False, Pods := P, c_store := c_store c @ [k],
      Containers := AList.update i (length (c_store c)) (Containers c)\<rparr>"
  have "insert_body i (CtrNri m) ?c = (?c\<lparr>Pods := P, c_store := c_store c @ [k],
      Containers := AList.update i (length (c_store c)) (Containers c)\<rparr>, Inr k)"
    using assms(3) P(1) by (simp add: insert_body_def ctr_fromNriContainer_def Let_def k_def)
  then have ins: "InsertContainer i (CtrNri m) c = Some (c', Inr k)"
    by (simp add: InsertContainer_def with_lock_free[OF keyedD(1)[OF inv(1)]] c'_def)
  obtain c1 r where r: "InsertContainer i (CtrNri m) c = Some (c1, r)" "keyed c1"
    "case r of Inl _ \<Rightarrow> c1 = c | Inr k \<Rightarrow> view c1 = (view c)(i \<mapsto> k) \<and> ct_ID k = i"
    using InsertContainer_spec[OF inv(1) assms(2), of "CtrNri m"] by (elim exE conjE) (rule that)
  have eq: "c1 = c'" "r = Inr k" using r(1) ins by simp_all
  have "keyed c'" using r(2) eq(1) by simp
  moreover have "view c' = (view c)(i \<mapsto> k)" using r(3) unfolding eq by simp
  moreover have "pods_ok c'" using P(2) by (simp add: pods_ok_def c'_def)
  moreover have "ct_PodID k = nc_PodSandboxId m" "ct_Name k = nc_Name m" by (simp_all add: k_def)
  moreover have "ct_LinuxReq k = convertNriLinuxResources (nc_Resources m)"
    by (simp add: k_def blank_container_def convertNriLinuxResources_def)
  moreover have "map_option po_UID (ctr_GetPod c' k) = Some (po_UID pod)"
    using P(3) calculation(4) by (simp add: ctr_GetPod_def c'_def)
  ultimately show ?thesis using ins by (intro exI[of _ c'] exI[of _ k] conjI) (simp_all add: tap_inv_def)
qed

section \<open>The events\<close>

lemma pm_remove_eq: "pm_PreRemoveContainerHook = pm_PostStopContainerHook"
  by (simp add: fun_eq_iff pm_PreRemoveContainerHook_def pm_PostStopContainerHook_def)

lemma convert_id [simp]: "hr_ContainerId (hook_request_of (convertToHookRequest pod c)) = nc_Id c"
  by (simp add: hook_request_of_def convertToHookRequest_def convertContainerMetadata_def)

lemma nri_stop_spec:
  assumes "tap_inv (tw_cache w)" "topo_only d"
  shows "nri_StopContainer d pod c w = Some (w\<lparr>tw_policy := stopped_policy w (nc_Id c)\<rparr>, Inr ())"
  using pm_stop_world[OF tap_invD(1)[OF assms(1)] assms(2), of "hook_request_of (convertToHookRequest pod c)"]
  by (auto simp: nri_StopContainer_def)

lemma nri_remove_spec:
  assumes "tap_inv (tw_cache w)" "topo_only d"
  shows "\<exists>c'. nri_RemoveContainer d pod c w = Some (\<lparr>tw_policy = stopped_policy w (nc_Id c), tw_cache = c'\<rparr>, Inr ())
     \<and> tap_inv c' \<and> view c' = (view (tw_cache w))(nc_Id c := None)"
proof -
  obtain c' where c': "DeleteContainer (nc_Id c) (tw_cache w) = Some (c', view (tw_cache w) (nc_Id c))" "tap_inv c'"
    "view c' = (view (tw_cache w))(nc_Id c := None)" using DeleteContainer_inv[OF assms(1)] by blast
  obtain r where "pm_PreRemoveContainerHook (d_manager d) w (hook_request_of (convertToHookRequest pod c))
      = (w\<lparr>tw_policy := stopped_policy w (nc_Id c)\<rparr>, Inr r)"
    using pm_stop_world[OF tap_invD(1)[OF assms(1)] assms(2), of "hook_request_of (convertToHookRequest pod c)"]
    by (auto simp: pm_remove_eq)
  with c' show ?thesis by (intro exI[of _ c']) (simp add: nri_RemoveContainer_def in_cache_def)
qed

interpretation nri: container_stop "\<lambda>d x i. nri_RemoveContainer d (fst x) (snd x)" "\<lambda>x i. nc_Id (snd x) = i"
proof
  fix d and x :: "nri_sandbox \<times> nri_ctr" and i and w :: tap_world
  assume a: "topo_only d" "tap_inv (tw_cache w)" "nc_Id (snd x) = i"
  from nri_remove_spec[OF a(2,1), of "fst x" "snd x"] a(3)
  show "\<exists>c' r. nri_RemoveContainer d (fst x) (snd x) w = Some (\<lparr>tw_policy = stopped_policy w i, tw_cache = c'\<rparr>, r) \<and> tap_inv c'
      \<and> view c' = (view (tw_cache w))(i := None)" by blast
qed

text \<open>What a successful creation has done.\<close>

lemma nri_create_ok:
  assumes "topo_only d" "tap_inv (tw_cache w)" "pod_agrees pod (tw_cache w)" "nc_Id c \<noteq> []" "nc_PodSandboxId c = ns_Id pod"
    and "nri_CreateContainer d pod c w = Some (w1, Inr a)"
  obtains k x w0 where "allocates (tw_policy w) (create_ctx d (convertToHookRequest pod c)) (tw_policy w1)"
    "tap_inv (tw_cache w1)" "view (tw_cache w1) = (view (tw_cache w))(nc_Id c \<mapsto> k)" "ct_Name k = nc_Name c"
    "map_option po_UID (ctr_GetPod (tw_cache w1) k) = Some (np_Uid pod)"
    "ct_LinuxReq k = convertNriLinuxResources (nc_Resources c)"
    "tw_policy w0 = tw_policy w"
    "pm_PreCreateContainerHook (d_unmarshal d) (d_driver d) (d_runtime d) (d_manager d) w0
       (hook_request_of (convertToHookRequest pod c)) = (w0\<lparr>tw_policy := tw_policy w1\<rparr>, Inr x)"
    "a = convertToCtrAdjustment (ctr_reply_of (convertToHookRequest pod c) x)"
proof -
  let ?m = "convertToHookRequest pod c"
  obtain c0 p where e: "ensure_pod pod w = Some (w\<lparr>tw_cache := c0\<rparr>, Inr ())" "tap_inv c0" "view c0 = view (tw_cache w)"
    "map_of (Pods c0) (ns_Id pod) = Some p" "po_UID p = np_Uid pod" using ensure_pod_spec[OF assms(2,3)] by blast
  let ?w = "w\<lparr>tw_cache := c0\<rparr>"
  obtain p' h where h: "pm_PreCreateContainerHook (d_unmarshal d) (d_driver d) (d_runtime d) (d_manager d) ?w (hook_request_of ?m)
      = (?w\<lparr>tw_policy := p'\<rparr>, h)" "allocates (tw_policy ?w) (create_ctx d ?m) p'" using pm_create_world[OF assms(1)] by blast
  obtain x where x: "h = Inr x"
    using assms(6) by (cases h) (simp_all add: nri_CreateContainer_def e(1) h(1) with_reply_def)
  have "map_of (Pods c0) (nc_PodSandboxId (nri_container.truncate c)) = Some p"
    using e(4) assms(5) by (simp add: nri_container.truncate_def)
  from InsertContainer_nri[OF e(2) assms(4) this] obtain c1 k where
    k: "InsertContainer (nc_Id c) (CtrNri (nri_container.truncate c)) c0 = Some (c1, Inr k)" "tap_inv c1"
      "view c1 = (view c0)(nc_Id c \<mapsto> k)" "ct_Name k = nc_Name (nri_container.truncate c)"
      "ct_LinuxReq k = convertNriLinuxResources (nc_Resources (nri_container.truncate c))"
      "map_option po_UID (ctr_GetPod c1 k) = Some (po_UID p)" by blast
  have w1: "w1 = ?w\<lparr>tw_policy := p', tw_cache := c1\<rparr>" "a = convertToCtrAdjustment (ctr_reply_of ?m x)"
    using assms(6) by (simp_all add: nri_CreateContainer_def e(1) h(1) x with_reply_def Let_def in_cache_def k(1))
  show thesis
    by (rule that[of k ?w x]) (use h k e(3,5) x w1 in \<open>simp_all add: nri_container.truncate_def\<close>)
qed

section \<open>What the plugin guarantees\<close>

lemma convert_fields [simp]:
  "cx_Name (convertToHookRequest pod c) = nc_Name c"
  "pm_UID (hr_PodMeta (hook_request_of (convertToHookRequest pod c))) = np_Uid pod"
  "map_option linux_resources.truncate (cx_ContainerResources (convertToHookRequest pod c)) = convertContainerResources c"
  "cx_ContainerAnnotations (convertToHookRequest pod c) = nk_Annotations c"
  "hr_ContainerEnvs (hook_request_of (convertToHookRequest pod c)) = Some (convertEnvironmentVariables (nk_Env c))"
  by (cases "convertContainerResources c"; simp add: convertToHookRequest_def convertContainerMetadata_def
      convertPodMetadata_def hook_request_of_def linux_resources.truncate_def linux_resources.extend_def)+

text \<open>A container's life through the NRI plugin leaves no trace: after the creation the stop event gives back exactly
  what the creation has taken, the remove event -- which runs the same hook a second time -- takes nothing more, and
  the cache has the containers it had.\<close>

theorem nri_lifecycle:
  assumes "topo_only d" "tap_inv (tw_cache w)" "books (tw_policy w)" "pod_agrees pod (tw_cache w)" "np_Uid pod \<noteq> []"
    and "nc_Id c \<noteq> []" "nc_PodSandboxId c = ns_Id pod" "view (tw_cache w) (nc_Id c) = None"
    and "convertContainerResources c = Some l" "in_i64 (MemoryLimitInBytes l)"
    and "counter_at (tw_policy w) 0 CMemory + max 0 (MemoryLimitInBytes l) div 1024 < 18446744073709551616"
    and "map_of (p_grants (tw_policy w)) (np_Uid pod @ '':'' @ nc_Name c) = None"
    and "nri_CreateContainer d pod c w = Some (w1, Inr a)"
    and "nri_StopContainer d pod c w1 = Some (w2, r2)" "nri_RemoveContainer d pod c w2 = Some (w3, r3)"
  shows "tw_policy w2 = tw_policy w \<and> tw_policy w3 = tw_policy w \<and> view (tw_cache w3) = view (tw_cache w)
    \<and> r2 = Inr () \<and> r3 = Inr ()"
proof -
  let ?m = "convertToHookRequest pod c"
  obtain k where k: "allocates (tw_policy w) (create_ctx d ?m) (tw_policy w1)" "tap_inv (tw_cache w1)"
    "view (tw_cache w1) = (view (tw_cache w))(nc_Id c \<mapsto> k)" "ct_Name k = nc_Name c"
    "map_option po_UID (ctr_GetPod (tw_cache w1) k) = Some (np_Uid pod)"
    by (rule nri_create_ok[OF assms(1,2,4,6,7,13)])
  have v: "view (tw_cache w1) (nc_Id c) = Some k" by (simp add: k(3))
  have name: "ct_Name k = cx_Name ?m" by (simp add: k(4))
  have "stopped_policy \<lparr>tw_policy = tw_policy w1, tw_cache = tw_cache w1\<rparr> (nc_Id c) = tw_policy w"
    by (rule stopped_restores[OF assms(3) k(1) v assms(6) name k(5) assms(5) _ _ assms(10,11)]) (use assms(9,12) in simp_all)
  then have "stopped_policy w1 (nc_Id c) = tw_policy w" by (cases w1) simp
  then have w2: "w2 = w1\<lparr>tw_policy := tw_policy w\<rparr>" "r2 = Inr ()"
    using nri_stop_spec[OF k(2) assms(1), of pod c] assms(14) by simp_all
  have inv2: "tap_inv (tw_cache w2)" using k(2) by (simp add: w2(1))
  have "stopped_policy w2 (nc_Id c) = tw_policy w2"
    by (rule stopped_ungranted[where k = k and uid = "np_Uid pod"]) (use v k(4,5) assms(12) in \<open>simp_all add: w2(1)\<close>)
  moreover obtain c' where "nri_RemoveContainer d pod c w2 = Some (\<lparr>tw_policy = stopped_policy w2 (nc_Id c), tw_cache = c'\<rparr>, Inr ())"
    "view c' = (view (tw_cache w2))(nc_Id c := None)" using nri_remove_spec[OF inv2 assms(1)] by blast
  ultimately have w3: "tw_policy w3 = tw_policy w" "view (tw_cache w3) = (view (tw_cache w1))(nc_Id c := None)" "r3 = Inr ()"
    using assms(15) by (auto simp: w2(1))
  have "view (tw_cache w3) = view (tw_cache w)" using w3(2) k(3) assms(8) by (auto simp: fun_eq_iff)
  with w2 w3 show ?thesis by simp
qed

text \<open>The topology-aware policy sets the CPU set and the memory nodes, and nothing else.\<close>

lemma topo_allocation:
  assumes "topo_PreCreateContainerHook sh w ctx = (w', Inr (Some b))"
  shows "\<exists>s t. al_res b = zero_linux_resources\<lparr>CpusetCpus := s, CpusetMems := t\<rparr>"
proof -
  have "b = SetCPUSetMems t (SetCPUSetCpus s NewAllocation) \<or> b = SetCPUSetCpus s NewAllocation \<Longrightarrow> ?thesis" for s t
    by (auto simp: al_res_def SetCPUSetCpus_def SetCPUSetMems_def NewAllocation_def ensureContainerResources_def zero_linux_resources_def)
  with assms show ?thesis
    by (auto simp: topo_PreCreateContainerHook_def Let_def split: if_splits prod.splits sum.splits option.splits)
qed

lemma only_cpusets:
  assumes "topo_only d"
    and "pm_PreCreateContainerHook (d_unmarshal d) (d_driver d) (d_runtime d) (d_manager d) w req = (w', Inr x)"
  obtains s t where "ensureContainerResources (hs_ContainerResources x)
    = (ensureContainerResources (hr_ContainerResources req))\<lparr>CpusetCpus := s, CpusetMems := t\<rparr>"
    "hs_ContainerEnvs x = hr_ContainerEnvs req"
proof -
  from assms(1) obtain n sh parse where m: "d_manager d = [(n, topo_hook_policy sh parse)]" by (auto simp: topo_only_def)
  let ?ctx = "hook_ctx (d_unmarshal d) (d_driver d) (d_runtime d) req"
  have hp: "hp_PreCreateContainerHook (topo_hook_policy sh parse) = topo_PreCreateContainerHook sh" by (simp add: topo_hook_policy_def)
  obtain w1 r where r: "topo_PreCreateContainerHook sh w ?ctx = (w1, r)" by fastforce
  have "\<exists>allocs. hs_ContainerResources x = mergeAllocations allocs (hr_ContainerResources req) \<and> hs_ContainerEnvs x = hr_ContainerEnvs req
      \<and> (allocs = [] \<or> (\<exists>b. r = Inr (Some b) \<and> allocs = [b]))"
    using assms(2) unfolding pm_PreCreateContainerHook_def m ListPolicies_def
    by (auto simp del: call_policies.simps simp: call_one hp r finish_hook_def echo_response_def
        split: sum.splits option.splits go_error.splits)
  then obtain allocs where a: "hs_ContainerResources x = mergeAllocations allocs (hr_ContainerResources req)"
    "hs_ContainerEnvs x = hr_ContainerEnvs req" "allocs = [] \<or> (\<exists>b. r = Inr (Some b) \<and> allocs = [b])" by blast
  let ?l = "ensureContainerResources (hr_ContainerResources req)"
  from a(3) show thesis
  proof
    assume "allocs = []"
    then show thesis using that[of "CpusetMems ?l" "CpusetCpus ?l"] a(1,2) by (simp add: mergeAllocations_def)
  next
    assume "\<exists>b. r = Inr (Some b) \<and> allocs = [b]"
    then obtain b where b: "r = Inr (Some b)" "allocs = [b]" by blast
    obtain s t where st: "al_res b = zero_linux_resources\<lparr>CpusetCpus := s, CpusetMems := t\<rparr>"
      using topo_allocation[OF r[unfolded b(1)]] by blast
    have "ensureContainerResources (hs_ContainerResources x)
        = ?l\<lparr>CpusetCpus := if s = [] then CpusetCpus ?l else s, CpusetMems := if t = [] then CpusetMems ?l else t\<rparr>"
      unfolding a(1) b(2) mergeAllocations_eff merged_def last_set_def by (simp add: st zero_linux_resources_def)
    then show thesis using that a(2) by blast
  qed
qed

lemma adjustment_of:
  "convertToCtrAdjustment (ctr_reply_of m x) =
     (setLinuxResources (ensureContainerResources (hs_ContainerResources x)) no_adjustment)
       \<lparr>ad_Annotations := cx_ContainerAnnotations m, ad_Env := nil_map (hs_ContainerEnvs x)\<rparr>"
proof -
  have t: "linux_resources.truncate (linux_resources.extend l f) = l" for l f
    by (simp add: linux_resources.truncate_def linux_resources.extend_def)
  show ?thesis
    by (cases "hs_ContainerResources x"; cases "cx_ContainerAnnotations m"; cases "hs_ContainerEnvs x")
      (simp_all add: convertToCtrAdjustment_def ctr_reply_of_def with_rest_def t setLinuxResources_def no_adjustment_def
        ensureContainerResources_def zero_linux_resources_def nil_map_def)
qed

text \<open>C5. An adjustment only moves a container. With the topology-aware policy, the answer to a creation never changes a
  limit: a CPU period, quota or weight or a memory limit is set only to the positive value the container already has,
  an unlimited quota and the OOM score are left alone, and the annotations and the environment are the container's own.\<close>

theorem nri_adjusts_only_cpus:
  assumes "topo_only d" "tap_inv (tw_cache w)" "pod_agrees pod (tw_cache w)" "nc_Id c \<noteq> []" "nc_PodSandboxId c = ns_Id pod"
    and "nri_CreateContainer d pod c w = Some (w1, Inr a)"
    and "l = ensureContainerResources (convertContainerResources c)" "in_i64 (CpuShares l)"
  shows "ad_CpuPeriod a = (if CpuPeriod l > 0 then Some (CpuPeriod l) else None)
    \<and> ad_CpuQuota a = (if CpuQuota l > 0 then Some (CpuQuota l) else None)
    \<and> ad_CpuShares a = (if CpuShares l > 0 then Some (CpuShares l) else None)
    \<and> ad_MemoryLimit a = (if MemoryLimitInBytes l > 0 then Some (MemoryLimitInBytes l) else None)
    \<and> ad_OomScoreAdj a = None \<and> ad_Annotations a = nk_Annotations c \<and> ad_Env a = convertEnvironmentVariables (nk_Env c)"
proof -
  let ?m = "convertToHookRequest pod c"
  obtain x w0 where x: "pm_PreCreateContainerHook (d_unmarshal d) (d_driver d) (d_runtime d) (d_manager d) w0 (hook_request_of ?m)
      = (w0\<lparr>tw_policy := tw_policy w1\<rparr>, Inr x)" "a = convertToCtrAdjustment (ctr_reply_of ?m x)"
    by (rule nri_create_ok[OF assms(1-6)])
  have hr: "hr_ContainerResources (hook_request_of ?m) = convertContainerResources c"
    using convert_fields(3)[of pod c] by (simp add: hook_request_of_def)
  obtain s t where st: "ensureContainerResources (hs_ContainerResources x) = l\<lparr>CpusetCpus := s, CpusetMems := t\<rparr>"
    "hs_ContainerEnvs x = Some (convertEnvironmentVariables (nk_Env c))"
    by (rule only_cpusets[OF assms(1) x(1)]) (simp add: hr assms(7))
  have oom: "OomScoreAdj l = 0"
    unfolding assms(7) by (simp add: convertContainerResources_def ensureContainerResources_def zero_linux_resources_def Let_def
        split: option.splits)
  have sh: "to_u64 (CpuShares l) = CpuShares l" if "CpuShares l > 0" using that assms(8) by (simp add: in_i64_def)
  show ?thesis
    unfolding x(2) adjustment_of st using oom sh by (simp add: setLinuxResources_def no_adjustment_def nil_map_def)
qed

section \<open>A small node\<close>

definition demo_nri_pod :: nri_sandbox where
  "demo_nri_pod = \<lparr>np_Uid = ''u'', np_Name = ''p'', np_Namespace = ''default'', np_Labels = [], np_Annotations = [],
     np_Linux = Some (''/kubepods.slice/kubepods-burstable.slice/kubepods-burstable-podu.slice'', None, None), ns_Id = ''s''\<rparr>"

definition demo_nri_ctr :: nri_ctr where
  "demo_nri_ctr = \<lparr>nc_Id = ''k'', nc_PodSandboxId = ''s'', nc_Name = ''web'', nc_State = NriCreated,
     nc_Resources = Some \<lparr>ni_cpu = Some \<lparr>ni_period = Some 100000, ni_quota = Some (-1), ni_shares = Some 1024, ni_cpus = [], ni_mems = []\<rparr>,
       ni_memory_limit = Some 1048576\<rparr>,
     nk_Annotations = None, nk_Env = [''A=1'', ''FLAG'']\<rparr>"

definition demo_nri_limits :: linux_resources where
  "demo_nri_limits = zero_linux_resources\<lparr>CpuPeriod := 100000, CpuQuota := -1, CpuShares := 1024, MemoryLimitInBytes := 1048576\<rparr>"

definition demo_nri_created :: "tap_world \<times> nri_adjustment" where
  "demo_nri_created = (case nri_CreateContainer demo_dispatcher demo_nri_pod demo_nri_ctr demo_w1 of
     Some (w, Inr a) \<Rightarrow> (w, a) | _ \<Rightarrow> (demo_w1, no_adjustment))"

lemma demo_nri_create: "nri_CreateContainer demo_dispatcher demo_nri_pod demo_nri_ctr demo_w1
    = Some (fst demo_nri_created, Inr (snd demo_nri_created))"
  by code_simp

lemma demo_agrees: "pod_agrees demo_nri_pod (tw_cache demo_w1)"
  using demo_pod by (auto simp: pod_agrees_def demo_nri_pod_def)

lemma demo_nri_ids: "nc_Id demo_nri_ctr \<noteq> []" "nc_PodSandboxId demo_nri_ctr = ns_Id demo_nri_pod" "np_Uid demo_nri_pod \<noteq> []"
  by (simp_all add: demo_nri_ctr_def demo_nri_pod_def)

lemma demo_nri_resources: "convertContainerResources demo_nri_ctr = Some demo_nri_limits"
  by (simp add: convertContainerResources_def demo_nri_ctr_def demo_nri_limits_def Let_def extractCPUResources_def
      extractMemoryResources_def set_from_def zero_linux_resources_def in_i64_def)

theorem nri_lifecycle_witness:
  "map_of (p_grants (tw_policy (fst demo_nri_created))) ''u:web'' \<noteq> None
   \<and> (\<exists>w2 w3. nri_StopContainer demo_dispatcher demo_nri_pod demo_nri_ctr (fst demo_nri_created) = Some (w2, Inr ())
        \<and> nri_RemoveContainer demo_dispatcher demo_nri_pod demo_nri_ctr w2 = Some (w3, Inr ())
        \<and> tw_policy w3 = demo_policy \<and> view (tw_cache w3) = view (tw_cache demo_w1))"
proof
  show "map_of (p_grants (tw_policy (fst demo_nri_created))) ''u:web'' \<noteq> None" by code_simp
  have inv: "tap_inv (tw_cache (fst demo_nri_created))"
    by (rule nri_create_ok[OF demo_topo demo_inv(1) demo_agrees demo_nri_ids(1,2) demo_nri_create])
  obtain w2 where w2: "nri_StopContainer demo_dispatcher demo_nri_pod demo_nri_ctr (fst demo_nri_created) = Some (w2, Inr ())"
    "tap_inv (tw_cache w2)" using nri_stop_spec[OF inv demo_topo] inv by auto
  obtain w3 where w3: "nri_RemoveContainer demo_dispatcher demo_nri_pod demo_nri_ctr w2 = Some (w3, Inr ())"
    using nri_remove_spec[OF w2(2) demo_topo] by blast
  have b: "books (tw_policy demo_w1)" unfolding demo_w1_policy by (rule idle_books[OF demo_idle])
  have v: "view (tw_cache demo_w1) (nc_Id demo_nri_ctr) = None" by code_simp
  have i: "in_i64 (MemoryLimitInBytes demo_nri_limits)" by (simp add: demo_nri_limits_def in_i64_def)
  have m: "counter_at (tw_policy demo_w1) 0 CMemory + max 0 (MemoryLimitInBytes demo_nri_limits) div 1024 < 18446744073709551616"
    unfolding demo_w1_policy by code_simp
  have f: "map_of (p_grants (tw_policy demo_w1)) (np_Uid demo_nri_pod @ '':'' @ nc_Name demo_nri_ctr) = None"
    by (simp add: demo_w1_policy demo_policy_def)
  from nri_lifecycle[OF demo_topo demo_inv(1) b demo_agrees demo_nri_ids(3,1,2) v demo_nri_resources i m f demo_nri_create w2(1) w3] w2(1) w3
  show "\<exists>w2 w3. nri_StopContainer demo_dispatcher demo_nri_pod demo_nri_ctr (fst demo_nri_created) = Some (w2, Inr ())
        \<and> nri_RemoveContainer demo_dispatcher demo_nri_pod demo_nri_ctr w2 = Some (w3, Inr ())
        \<and> tw_policy w3 = demo_policy \<and> view (tw_cache w3) = view (tw_cache demo_w1)" by (auto simp: demo_w1_policy)
qed

theorem nri_adjusts_only_cpus_witness:
  "ad_CpuPeriod (snd demo_nri_created) = Some 100000 \<and> ad_CpuQuota (snd demo_nri_created) = None
   \<and> ad_Cpus (snd demo_nri_created) = ''0-1'' \<and> ad_Env (snd demo_nri_created) = [(''A'', ''1''), (''FLAG'', [])]"
proof -
  have l: "demo_nri_limits = ensureContainerResources (convertContainerResources demo_nri_ctr)"
    by (simp add: demo_nri_resources ensureContainerResources_def)
  have i: "in_i64 (CpuShares demo_nri_limits)" by (simp add: demo_nri_limits_def in_i64_def)
  note a = nri_adjusts_only_cpus[OF demo_topo demo_inv(1) demo_agrees demo_nri_ids(1,2) demo_nri_create l i]
  have "ad_Cpus (snd demo_nri_created) = ''0-1''" by code_simp
  moreover have "convertEnvironmentVariables (nk_Env demo_nri_ctr) = [(''A'', ''1''), (''FLAG'', [])]" by code_simp
  ultimately show ?thesis using a by (simp add: demo_nri_limits_def)
qed

end
