(* ===== verification/CpuInfo.thy ===== *)
theory CpuInfo
  imports GoStrings
begin

text \<open>
  The CPU inventory of the NUMA-aware policy (\<^verbatim>\<open>pkg/kunpeng-tap/sysfs/cpuinfo.go\<close>): the grouping of the
  processors by core and NUMA node, the CPU sets written as ranges, and the node a CPU set lies on. The
  contents of the sysfs files and the list of processors of \<open>gopsutil\<close> are arguments; \<open>None\<close> is a
  failed read.
\<close>

section \<open>Data\<close>

record processor_info =
  CPUID :: int
  CoreID :: int
  SocketID :: int
  pi_NodeID :: int

record cpu_total_info =
  NumberCPUs :: int
  CoreToCPU :: "(int, processor_info list) gomap"
  NodeToCPU :: "(int, processor_info list) gomap"
  SocketToCPU :: "(int, processor_info list) gomap"

record cpu_info =
  ci_NUMANodeID :: int
  ci_SocketID :: int
  ci_CoreID :: int

record cpu_topology =
  NumCPUs :: int
  NumCores :: int
  NumSockets :: int
  NumNUMANodes :: int
  CPUDetails :: "(int, cpu_info) gomap"

record numa_range =
  nr_numaID :: int
  nr_cpuStart :: int
  nr_cpuEnd :: int

record local_cpu_info =
  ProcessorInfos :: "processor_info list"
  TotalInfo :: cpu_total_info

section \<open>Discovery\<close>

definition zero_cpu_info :: cpu_info where
  "zero_cpu_info = \<lparr>ci_NUMANodeID = 0, ci_SocketID = 0, ci_CoreID = 0\<rparr>"

definition details_of :: "(int, cpu_info) gomap \<Rightarrow> int \<Rightarrow> cpu_info" where
  "details_of m i = (case map_of m i of None \<Rightarrow> zero_cpu_info | Some c \<Rightarrow> c)"

definition set_numa :: "(int, cpu_info) gomap \<Rightarrow> int \<times> processor_info list \<Rightarrow> (int, cpu_info) gomap" where
  "set_numa m e = foldl (\<lambda>m i. AList.update (CPUID i) ((details_of m (CPUID i))\<lparr>ci_NUMANodeID := fst e\<rparr>) m) m (snd e)"

definition set_core :: "(int, cpu_info) gomap \<Rightarrow> int \<times> processor_info list \<Rightarrow> (int, cpu_info) gomap" where
  "set_core m e = foldl (\<lambda>m i. AList.update (CPUID i) ((details_of m (CPUID i))\<lparr>ci_CoreID := fst e\<rparr>) m) m (snd e)"

definition Discover :: "cpu_total_info \<Rightarrow> cpu_topology" where
  "Discover c =
     \<lparr>NumCPUs = NumberCPUs c, NumCores = map_len (CoreToCPU c), NumSockets = map_len (SocketToCPU c),
      NumNUMANodes = map_len (NodeToCPU c),
      CPUDetails = foldl set_core (foldl set_numa [] (NodeToCPU c)) (CoreToCPU c)\<rparr>"

text \<open>The leftmost match of digits, a dash and digits.\<close>

fun match_range :: "string \<Rightarrow> (string \<times> string) option" where
  "match_range [] = None"
| "match_range (c # cs) =
     (let a = takeWhile is_digit (c # cs); r = dropWhile is_digit (c # cs) in
      if a \<noteq> [] \<and> r \<noteq> [] \<and> hd r = CHR ''-'' \<and> takeWhile is_digit (tl r) \<noteq> []
      then Some (a, takeWhile is_digit (tl r)) else match_range cs)"

definition getNodeCPU :: "string option \<Rightarrow> (int \<times> int) result" where
  "getNodeCPU cpulist =
     (case cpulist of
        None \<Rightarrow> Inl (Err ''read cpulist'')
      | Some s \<Rightarrow>
          (case match_range (trim_space s) of
             None \<Rightarrow> Inl (Err ''wrong cpu range format found'')
           | Some (a, b) \<Rightarrow>
               (case (atoi a, atoi b) of
                  (Some x, Some y) \<Rightarrow> Inr (wrap_i32 x, wrap_i32 y)
                | _ \<Rightarrow> Inl (Err ''atoi''))))"

fun numa_loop :: "(string \<Rightarrow> string option) \<Rightarrow> string list \<Rightarrow> numa_range list \<Rightarrow> numa_range list result" where
  "numa_loop cpulist [] acc = Inr acc"
| "numa_loop cpulist (n # ns) acc =
     (if has_prefix n ''node''
      then (case atoi (trim_prefix n ''node'') of
              None \<Rightarrow> Inl (Err ''parse NUMA node ID'')
            | Some i \<Rightarrow>
                (case getNodeCPU (cpulist n) of
                   Inl e \<Rightarrow> Inl e
                 | Inr (a, b) \<Rightarrow>
                     numa_loop cpulist ns (acc @ [\<lparr>nr_numaID = wrap_i32 i, nr_cpuStart = a, nr_cpuEnd = b\<rparr>])))
      else numa_loop cpulist ns acc)"

definition getNumaNodes :: "string list option \<Rightarrow> (string \<Rightarrow> string option) \<Rightarrow> numa_range list result" where
  "getNumaNodes dir cpulist =
     (case dir of None \<Rightarrow> Inl (Err ''read NUMA nodes'') | Some names \<Rightarrow> numa_loop cpulist names [])"

text \<open>A processor is given by its number and the text of its core ID.\<close>

definition getProcessorInfo :: "numa_range list \<Rightarrow> int \<times> string \<Rightarrow> processor_info result" where
  "getProcessorInfo nodeList info =
     (case atoi (snd info) of
        None \<Rightarrow> Inl (Err ''parse core ID'')
      | Some core \<Rightarrow>
          (let nodeID = (case find (\<lambda>n. nr_cpuStart n \<le> fst info \<and> fst info \<le> nr_cpuEnd n) nodeList of
                           None \<Rightarrow> -1 | Some n \<Rightarrow> nr_numaID n)
           in Inr \<lparr>CPUID = fst info, CoreID = wrap_i32 core, SocketID = -1, pi_NodeID = nodeID\<rparr>))"

definition add_to :: "int \<Rightarrow> processor_info \<Rightarrow> (int, processor_info list) gomap \<Rightarrow> (int, processor_info list) gomap" where
  "add_to k i m = AList.update k ((case map_of m k of None \<Rightarrow> [] | Some xs \<Rightarrow> xs) @ [i]) m"

definition fillTotalInfo :: "processor_info list \<Rightarrow> cpu_total_info" where
  "fillTotalInfo ps =
     \<lparr>NumberCPUs = wrap_i32 (int (length ps)),
      CoreToCPU = foldl (\<lambda>m i. add_to (CoreID i) i m) [] ps,
      NodeToCPU = foldl (\<lambda>m i. add_to (pi_NodeID i) i m) [] ps,
      SocketToCPU = []\<rparr>"

fun processors :: "numa_range list \<Rightarrow> (int \<times> string) list \<Rightarrow> processor_info list \<Rightarrow> processor_info list result" where
  "processors nodeList [] acc = Inr acc"
| "processors nodeList (i # is) acc =
     (case getProcessorInfo nodeList i of Inl e \<Rightarrow> Inl e | Inr p \<Rightarrow> processors nodeList is (acc @ [p]))"

definition getCpu ::
  "(int \<times> string) list option \<Rightarrow> string list option \<Rightarrow> (string \<Rightarrow> string option) \<Rightarrow> local_cpu_info result" where
  "getCpu info dir cpulist =
     (case info of
        None \<Rightarrow> Inl (Err ''get CPU info'')
      | Some is \<Rightarrow>
          (case getNumaNodes dir cpulist of
             Inl e \<Rightarrow> Inl e
           | Inr nodeList \<Rightarrow>
               (case processors nodeList is [] of
                  Inl e \<Rightarrow> Inl e
                | Inr ps \<Rightarrow> Inr \<lparr>ProcessorInfos = ps, TotalInfo = fillTotalInfo ps\<rparr>)))"

section \<open>CPU sets as ranges\<close>

text \<open>The loop starts from \<open>math.MaxInt\<close> and \<open>-1\<close>, which are printed when no CPU is on the node.\<close>

definition GetNumaNodeCPUSet :: "cpu_topology \<Rightarrow> int \<Rightarrow> string" where
  "GetNumaNodeCPUSet c nodeid =
     (case foldl (\<lambda>(lo, hi) (cpuid, i). if ci_NUMANodeID i = nodeid then (min lo cpuid, max hi cpuid) else (lo, hi))
             (9223372036854775807, -1) (CPUDetails c) of
        (lo, hi) \<Rightarrow> itoa lo @ ''-'' @ itoa hi)"

definition parse_range :: "string \<Rightarrow> int list" where
  "parse_range r =
     (if \<not> contains r ''-'' then (case atoi r of None \<Rightarrow> [] | Some cpu \<Rightarrow> [cpu])
      else (let parts = go_split ''-'' r in
            case (atoi (parts ! 0), atoi (parts ! 1)) of
              (Some start, Some stop) \<Rightarrow> [start..stop]
            | _ \<Rightarrow> []))"

definition parseCpusetCpus :: "string \<Rightarrow> int list" where
  "parseCpusetCpus cpuset = concat (map parse_range (go_split '','' cpuset))"

definition findMinMaxCpus :: "int list \<Rightarrow> int \<times> int" where
  "findMinMaxCpus cpus =
     (if cpus = [] then (-1, -1)
      else foldl (\<lambda>(lo, hi) cpu. (if cpu < lo then cpu else lo, if cpu > hi then cpu else hi)) (hd cpus, hd cpus) cpus)"

text \<open>The loop stops as soon as both have been seen, which is the conjunction of the two searches.\<close>

fun cpus_in_node :: "processor_info list \<Rightarrow> int \<Rightarrow> int \<Rightarrow> bool \<Rightarrow> bool \<Rightarrow> bool" where
  "cpus_in_node [] lo hi foundMin foundMax = False"
| "cpus_in_node (c # cs) lo hi foundMin foundMax =
     (let a = (foundMin \<or> CPUID c = wrap_i32 lo); b = (foundMax \<or> CPUID c = wrap_i32 hi)
      in if a \<and> b then True else cpus_in_node cs lo hi a b)"

definition areCpusInNode :: "processor_info list \<Rightarrow> int \<Rightarrow> int \<Rightarrow> bool" where
  "areCpusInNode node minCpu maxCpu = cpus_in_node node minCpu maxCpu False False"

definition GetNumaNodeFromCpuSet :: "local_cpu_info \<Rightarrow> string \<Rightarrow> int" where
  "GetNumaNodeFromCpuSet info cpuSet =
     (let cpus = parseCpusetCpus cpuSet in
      if cpus = [] then -1
      else (case findMinMaxCpus cpus of
              (lo, hi) \<Rightarrow>
                (case find (\<lambda>(i, node). areCpusInNode node lo hi) (NodeToCPU (TotalInfo info)) of
                   None \<Rightarrow> -1 | Some (i, _) \<Rightarrow> i)))"

section \<open>Grouping\<close>

definition grouped :: "('a \<Rightarrow> int) \<Rightarrow> 'a list \<Rightarrow> (int, 'a list) gomap \<Rightarrow> bool" where
  "grouped f ps m \<longleftrightarrow> wf_map m \<and>
     (\<forall>k. map_of m k = (let g = filter (\<lambda>i. f i = k) ps in if g = [] then None else Some g))"

lemma grouped_fold: "grouped f ps (foldl (\<lambda>m i. add_to (f i) i m) [] ps)"
proof (induction ps rule: rev_induct)
  case Nil
  then show ?case by (simp add: grouped_def)
next
  case (snoc x ps)
  then show ?case by (auto simp: grouped_def add_to_def Let_def)
qed

lemma fill_grouped:
  "grouped CoreID ps (CoreToCPU (fillTotalInfo ps))" "grouped pi_NodeID ps (NodeToCPU (fillTotalInfo ps))"
  using grouped_fold[of CoreID ps] grouped_fold[of pi_NodeID ps] by (simp_all add: fillTotalInfo_def)

lemma grouped_entry:
  assumes "grouped f ps m" "(k, xs) \<in> set m"
  shows "xs = filter (\<lambda>i. f i = k) ps"
proof -
  have "map_of m k = Some xs"
    using assms(1) map_of_is_SomeI[OF _ assms(2)] unfolding grouped_def wf_map_def by blast
  with assms(1) show ?thesis by (auto simp: grouped_def Let_def split: if_splits)
qed

section \<open>Details of the processors\<close>

text \<open>What assigning a field for every processor of every group leaves under a CPU.\<close>

lemma assign_group:
  fixes upd :: "cpu_info \<Rightarrow> cpu_info"
  shows "details_of (foldl (\<lambda>m i. AList.update (CPUID i) (upd (details_of m (CPUID i))) m) m xs) c
     = (upd ^^ (length (filter (\<lambda>i. CPUID i = c) xs))) (details_of m c)"
proof (induction xs arbitrary: m)
  case (Cons x xs)
  show ?case unfolding foldl_Cons Cons.IH by (simp add: details_of_def funpow_swap1)
qed simp

lemma assign_dom:
  "dom (map_of (foldl (\<lambda>m i. AList.update (CPUID i) (u m i) m) m xs)) = dom (map_of m) \<union> CPUID ` set xs"
  by (induction xs arbitrary: m) auto

lemma numa_pow: "((\<lambda>d. d\<lparr>ci_NUMANodeID := k\<rparr>) ^^ n) d = (if n = 0 then d else d\<lparr>ci_NUMANodeID := k\<rparr>)"
  by (induction n) auto

lemma core_pow: "((\<lambda>d. d\<lparr>ci_CoreID := k\<rparr>) ^^ n) d = (if n = 0 then d else d\<lparr>ci_CoreID := k\<rparr>)"
  by (induction n) auto

lemma set_numa_at:
  "details_of (set_numa m (k, xs)) c
     = (if c \<in> CPUID ` set xs then (details_of m c)\<lparr>ci_NUMANodeID := k\<rparr> else details_of m c)"
  unfolding set_numa_def fst_conv snd_conv assign_group[where upd = "\<lambda>d. d\<lparr>ci_NUMANodeID := k\<rparr>"] numa_pow
  by (auto simp: filter_empty_conv image_iff)

lemma set_core_at:
  "details_of (set_core m (k, xs)) c
     = (if c \<in> CPUID ` set xs then (details_of m c)\<lparr>ci_CoreID := k\<rparr> else details_of m c)"
  unfolding set_core_def fst_conv snd_conv assign_group[where upd = "\<lambda>d. d\<lparr>ci_CoreID := k\<rparr>"] core_pow
  by (auto simp: filter_empty_conv image_iff)

text \<open>Folding over groups of which at most one holds the CPU.\<close>

lemma fold_numa:
  assumes "\<forall>(k, xs)\<in>set es. c \<in> CPUID ` set xs \<longrightarrow> k = n"
  shows "details_of (foldl set_numa m es) c
     = (if \<exists>(k, xs)\<in>set es. c \<in> CPUID ` set xs then (details_of m c)\<lparr>ci_NUMANodeID := n\<rparr> else details_of m c)"
  using assms
proof (induction es arbitrary: m)
  case (Cons e es)
  obtain k xs where e: "e = (k, xs)" by (cases e)
  have "\<forall>(k, xs)\<in>set es. c \<in> CPUID ` set xs \<longrightarrow> k = n" "c \<in> CPUID ` set xs \<longrightarrow> k = n" using Cons.prems e by auto
  then show ?case using Cons.IH[of "set_numa m e"] by (auto simp: e set_numa_at)
qed simp

lemma fold_core:
  assumes "\<forall>(k, xs)\<in>set es. c \<in> CPUID ` set xs \<longrightarrow> k = n"
  shows "details_of (foldl set_core m es) c
     = (if \<exists>(k, xs)\<in>set es. c \<in> CPUID ` set xs then (details_of m c)\<lparr>ci_CoreID := n\<rparr> else details_of m c)"
  using assms
proof (induction es arbitrary: m)
  case (Cons e es)
  obtain k xs where e: "e = (k, xs)" by (cases e)
  have "\<forall>(k, xs)\<in>set es. c \<in> CPUID ` set xs \<longrightarrow> k = n" "c \<in> CPUID ` set xs \<longrightarrow> k = n" using Cons.prems e by auto
  then show ?case using Cons.IH[of "set_core m e"] by (auto simp: e set_core_at)
qed simp

lemma group_hit:
  assumes "grouped f ps m" "distinct (map CPUID ps)" "p \<in> set ps"
  shows "\<forall>(k, xs)\<in>set m. CPUID p \<in> CPUID ` set xs \<longrightarrow> k = f p" "\<exists>(k, xs)\<in>set m. CPUID p \<in> CPUID ` set xs"
proof -
  have inj: "\<And>q. q \<in> set ps \<Longrightarrow> CPUID q = CPUID p \<Longrightarrow> q = p"
    using assms(2,3) by (auto simp: distinct_map inj_on_def)
  show "\<forall>(k, xs)\<in>set m. CPUID p \<in> CPUID ` set xs \<longrightarrow> k = f p"
  proof (clarify)
    fix k xs q assume a: "(k, xs) \<in> set m" "CPUID p = CPUID q" "q \<in> set xs"
    then have "q \<in> set ps" "f q = k" using grouped_entry[OF assms(1) a(1)] by auto
    with inj[of q] a(2) show "k = f p" by simp
  qed
  have "map_of m (f p) = Some (filter (\<lambda>i. f i = f p) ps)"
    using assms(1,3) by (auto simp: grouped_def Let_def filter_empty_conv)
  then have "(f p, filter (\<lambda>i. f i = f p) ps) \<in> set m" by (rule map_of_SomeD)
  moreover have "CPUID p \<in> CPUID ` set (filter (\<lambda>i. f i = f p) ps)" using assms(3) by auto
  ultimately show "\<exists>(k, xs)\<in>set m. CPUID p \<in> CPUID ` set xs" by blast
qed

lemma fold_dom:
  assumes "F = set_numa \<or> F = set_core"
  shows "dom (map_of (foldl F m es)) = dom (map_of m) \<union> (\<Union>e\<in>set es. CPUID ` set (snd e))"
proof (induction es arbitrary: m)
  case (Cons e es)
  have one: "dom (map_of (F m e)) = dom (map_of m) \<union> CPUID ` set (snd e)"
    using assms by (elim disjE) (simp_all only: set_numa_def set_core_def assign_dom)
  show ?case unfolding foldl_Cons Cons.IH one by (simp only: list.set UN_insert Un_assoc)
qed simp

text \<open>Discovery is faithful to the processors: grouping the processors by core and by NUMA node and reading
  the groups back gives every processor its own core and node, whatever order the maps are visited in; no other
  CPU gets details; and the groups of the nodes partition the processors, in their order.\<close>

theorem discover_roundtrip:
  assumes "distinct (map CPUID ps)"
  shows "(\<forall>p\<in>set ps. details_of (CPUDetails (Discover (fillTotalInfo ps))) (CPUID p)
            = \<lparr>ci_NUMANodeID = pi_NodeID p, ci_SocketID = 0, ci_CoreID = CoreID p\<rparr>)
     \<and> dom (map_of (CPUDetails (Discover (fillTotalInfo ps)))) = CPUID ` set ps
     \<and> (\<forall>n xs. map_of (NodeToCPU (fillTotalInfo ps)) n = Some xs \<longrightarrow> xs = filter (\<lambda>p. pi_NodeID p = n) ps \<and> xs \<noteq> [])"
proof (intro conjI)
  let ?t = "fillTotalInfo ps"
  note g = fill_grouped[of ps]
  show "\<forall>p\<in>set ps. details_of (CPUDetails (Discover ?t)) (CPUID p)
            = \<lparr>ci_NUMANodeID = pi_NodeID p, ci_SocketID = 0, ci_CoreID = CoreID p\<rparr>"
  proof
    fix p assume p: "p \<in> set ps"
    note c = group_hit[OF g(1) assms p] and n = group_hit[OF g(2) assms p]
    show "details_of (CPUDetails (Discover ?t)) (CPUID p)
            = \<lparr>ci_NUMANodeID = pi_NodeID p, ci_SocketID = 0, ci_CoreID = CoreID p\<rparr>"
      unfolding Discover_def cpu_topology.simps fold_core[OF c(1)] fold_numa[OF n(1)]
      using c(2) n(2) by (simp add: details_of_def zero_cpu_info_def)
  qed
  note d = fold_dom[OF disjI1[OF refl]] fold_dom[OF disjI2[OF refl]]
  have sub: "(\<Union>e\<in>set m. CPUID ` set (snd e)) \<subseteq> CPUID ` set ps" if "grouped f ps m" for f m
  proof
    fix c assume "c \<in> (\<Union>e\<in>set m. CPUID ` set (snd e))"
    then obtain e i where "(fst e, snd e) \<in> set m" "i \<in> set (snd e)" "c = CPUID i" by auto
    with grouped_entry[OF that, of "fst e" "snd e"] show "c \<in> CPUID ` set ps" by simp
  qed
  have "(\<Union>e\<in>set (CoreToCPU ?t). CPUID ` set (snd e)) \<subseteq> CPUID ` set ps" by (rule sub[OF g(1)])
  moreover have "(\<Union>e\<in>set (NodeToCPU ?t). CPUID ` set (snd e)) = CPUID ` set ps"
  proof
    show "(\<Union>e\<in>set (NodeToCPU ?t). CPUID ` set (snd e)) \<subseteq> CPUID ` set ps" by (rule sub[OF g(2)])
    show "CPUID ` set ps \<subseteq> (\<Union>e\<in>set (NodeToCPU ?t). CPUID ` set (snd e))"
      using group_hit(2)[OF g(2) assms] by fastforce
  qed
  ultimately show "dom (map_of (CPUDetails (Discover ?t))) = CPUID ` set ps"
    by (simp add: Discover_def d) blast
  show "\<forall>n xs. map_of (NodeToCPU ?t) n = Some xs \<longrightarrow> xs = filter (\<lambda>p. pi_NodeID p = n) ps \<and> xs \<noteq> []"
    using g(2) by (auto simp: grouped_def Let_def split: if_splits)
qed

theorem discover_roundtrip_witness:
  "details_of (CPUDetails (Discover (fillTotalInfo
      [\<lparr>CPUID = 0, CoreID = 0, SocketID = -1, pi_NodeID = 0\<rparr>, \<lparr>CPUID = 4, CoreID = 2, SocketID = -1, pi_NodeID = 1\<rparr>]))) 4
    = \<lparr>ci_NUMANodeID = 1, ci_SocketID = 0, ci_CoreID = 2\<rparr>"
  using discover_roundtrip[of "[\<lparr>CPUID = 0, CoreID = 0, SocketID = -1, pi_NodeID = 0\<rparr>, \<lparr>CPUID = 4, CoreID = 2, SocketID = -1, pi_NodeID = 1\<rparr>]"]
  by simp

end
