(* ===== verification/NumaAware.thy ===== *)
theory NumaAware
  imports CpuInfo PolicyManager
begin

text \<open>
  The NUMA-aware policy (\<^verbatim>\<open>pkg/kunpeng-tap/policy/numa-aware/numa_aware.go\<close>) and the accounting of the CPU
  use of the NUMA nodes it decides by (\<open>GetNodeResources\<close>, \<^verbatim>\<open>cache/cache.go\<close>). A \<open>float64\<close> is the rational
  it denotes. \<open>Quantity.AsApproximateFloat64\<close> is the library's: it is the parameter \<open>approx\<close>.
\<close>

section \<open>Use of the nodes\<close>

record numa_node_resources =
  CpuFree :: rat
  CpuUsed :: rat
  CpuUsedByRequest :: rat
  CpuTotal :: rat

definition charge_node :: "local_cpu_info \<Rightarrow> numa_node_resources list result \<Rightarrow> container \<Rightarrow> numa_node_resources list result" where
  "charge_node info nodes k =
     (case nodes of
        Inl e \<Rightarrow> Inl e
      | Inr ns \<Rightarrow>
          (case ct_LinuxReq k of
             None \<Rightarrow> Inr ns
           | Some res \<Rightarrow>
               if CpuPeriod res = 0 then Inr ns
               else (let cpuTime = f64_div (f64_of_int (CpuQuota res)) (f64_of_int (CpuPeriod res));
                         cpuRequest = f64_div (f64_of_int (CpuShares res)) 1024;
                         i = GetNumaNodeFromCpuSet info (CpusetCpus res)
                     in if i < 0 then Inr ns
                        else if int (length ns) \<le> i then Inl Panic
                        else Inr (ns[nat i := (ns ! nat i)\<lparr>CpuUsed := f64_add (CpuUsed (ns ! nat i)) cpuTime,
                               CpuUsedByRequest := f64_add (CpuUsedByRequest (ns ! nat i)) cpuRequest\<rparr>]))))"

definition GetNodeResources :: "local_cpu_info \<Rightarrow> cache \<Rightarrow> (cache \<times> numa_node_resources list result) option" where
  "GetNodeResources info = with_lock (\<lambda>c.
     (let nodeToCPU = NodeToCPU (TotalInfo info);
          nodes = map (\<lambda>i. let cap = f64_of_int (int (length (case map_of nodeToCPU (int i) of None \<Rightarrow> [] | Some xs \<Rightarrow> xs)))
                           in \<lparr>CpuFree = cap, CpuUsed = 0, CpuUsedByRequest = 0, CpuTotal = cap\<rparr>) [0..<length nodeToCPU]
      in (c, foldl (charge_node info) (Inr nodes) (map (\<lambda>(i, a). c_store c ! a) (Containers c)))))"

section \<open>The choice of a node\<close>

definition max_float64 :: rat where
  "max_float64 = of_int ((2 ^ 53 - 1) * 2 ^ 971)"

definition better_node :: "rat \<Rightarrow> rat \<Rightarrow> int \<times> rat \<Rightarrow> nat \<times> numa_node_resources \<Rightarrow> int \<times> rat" where
  "better_node reqCpu cap best iv =
     (case iv of (i, v) \<Rightarrow>
        if f64_add reqCpu (CpuUsedByRequest v) > cap then best
        else if CpuUsed v < snd best then (int i, CpuUsed v) else best)"

definition preferred_node :: "rat \<Rightarrow> rat \<Rightarrow> numa_node_resources list \<Rightarrow> int" where
  "preferred_node reqCpu cap nodes = fst (foldl (better_node reqCpu cap) (-1, max_float64) (enumerate 0 nodes))"

definition AllocateCPUSet ::
  "(int \<Rightarrow> rat) \<Rightarrow> numa_node_resources list \<Rightarrow> resource_list option \<Rightarrow> resource_list option \<Rightarrow> allocation option" where
  "AllocateCPUSet approx nodeResources request limit =
     (case (request, limit) of
        (Some rq, Some lm) \<Rightarrow>
          (let reqCpu = approx (Cpu rq); limitCpu = approx (Cpu lm) in
           if nodeResources = [] then None
           else (let cpuTotalInNode = CpuTotal (nodeResources ! 0) in
                 if reqCpu > cpuTotalInNode \<or> limitCpu > cpuTotalInNode then None
                 else (let preferedNode = preferred_node reqCpu cpuTotalInNode nodeResources;
                           t = f64_to_int cpuTotalInNode
                       in if preferedNode = -1 then None
                          else Some (SetCPUSetCpus (itoa (preferedNode * t) @ ''-'' @ itoa ((preferedNode + 1) * t - 1))
                                       NewAllocation))))
      | _ \<Rightarrow> None)"

definition numa_PreCreateContainerHook ::
  "(int \<Rightarrow> rat) \<Rightarrow> local_cpu_info \<Rightarrow> cache \<Rightarrow> container_ctx \<Rightarrow> (cache \<times> allocation option result) option" where
  "numa_PreCreateContainerHook approx info c ctx =
     (case cr_Resources (Request ctx) of
        None \<Rightarrow> Some (c, Inr None)
      | Some res \<Rightarrow>
          (case (GetRequests res, GetLimits res) of
             (Some rq, Some lm) \<Rightarrow>
               (let qos = ParseCgroupForQOSClass (CgroupParent (Request ctx)) in
                if qos = Guaranteed \<or> qos = Burstable
                then (case GetNodeResources info c of
                        None \<Rightarrow> None
                      | Some (c', Inl e) \<Rightarrow> Some (c', Inl e)
                      | Some (c', Inr nodes) \<Rightarrow> Some (c', Inr (AllocateCPUSet approx nodes (Some rq) (Some lm))))
                else Some (c, Inr None))
           | _ \<Rightarrow> Some (c, Inr None)))"

section \<open>The preferred node\<close>

definition node_fits :: "rat \<Rightarrow> rat \<Rightarrow> numa_node_resources \<Rightarrow> bool" where
  "node_fits reqCpu cap v \<longleftrightarrow> f64_add reqCpu (CpuUsedByRequest v) \<le> cap \<and> CpuUsed v < max_float64"

text \<open>What the loop has found after the first \<open>n\<close> nodes.\<close>

definition best_of :: "rat \<Rightarrow> rat \<Rightarrow> numa_node_resources list \<Rightarrow> int \<times> rat \<Rightarrow> bool" where
  "best_of reqCpu cap ns best \<longleftrightarrow>
     (case best of (i, used) \<Rightarrow>
        (i = -1 \<and> used = max_float64 \<and> (\<forall>v\<in>set ns. \<not> node_fits reqCpu cap v))
        \<or> (0 \<le> i \<and> nat i < length ns \<and> node_fits reqCpu cap (ns ! nat i) \<and> used = CpuUsed (ns ! nat i)
           \<and> (\<forall>v\<in>set ns. node_fits reqCpu cap v \<longrightarrow> used \<le> CpuUsed v)
           \<and> (\<forall>j<nat i. node_fits reqCpu cap (ns ! j) \<longrightarrow> used < CpuUsed (ns ! j))))"

lemma best_of_step:
  assumes "best_of r t ns best"
  shows "best_of r t (ns @ [v]) (better_node r t best (length ns, v))"
proof (cases "node_fits r t v \<and> CpuUsed v < snd best")
  case True
  then have p: "better_node r t best (length ns, v) = (int (length ns), CpuUsed v)"
    by (simp add: better_node_def node_fits_def)
  have le: "\<forall>w\<in>set ns. node_fits r t w \<longrightarrow> CpuUsed v < CpuUsed w"
    using assms True by (fastforce simp: best_of_def node_fits_def split: prod.splits)
  have "\<forall>j<length ns. node_fits r t (ns ! j) \<longrightarrow> CpuUsed v < CpuUsed (ns ! j)" using le by simp
  then show ?thesis unfolding p using True le by (auto simp: best_of_def nth_append less_imp_le)
next
  case False
  have p: "better_node r t best (length ns, v) = best"
  proof (cases "f64_add r (CpuUsedByRequest v) > t")
    case nf: False
    have "snd best \<le> max_float64"
      using assms by (fastforce simp: best_of_def node_fits_def split: prod.splits)
    with False nf show ?thesis by (auto simp: better_node_def node_fits_def)
  qed (simp add: better_node_def)
  obtain i u where b: "best = (i, u)" by (cases best)
  have "node_fits r t v \<longrightarrow> u \<le> CpuUsed v" using False b by auto
  moreover have "i = -1 \<and> u = max_float64 \<longrightarrow> \<not> node_fits r t v" using False b by (auto simp: node_fits_def)
  ultimately show ?thesis using assms unfolding b p[unfolded b] best_of_def prod.case
    by (elim disjE conjE) (simp_all add: nth_append)
qed

lemma best_of_loop: "best_of r t ns (foldl (better_node r t) (-1, max_float64) (enumerate 0 ns))"
proof (induction ns rule: rev_induct)
  case Nil
  then show ?case by (simp add: best_of_def)
next
  case (snoc v ns)
  have "enumerate 0 (ns @ [v]) = enumerate 0 ns @ [(length ns, v)]" by (simp add: enumerate_append_eq)
  with best_of_step[OF snoc] show ?case by simp
qed


definition demo_node :: "rat \<Rightarrow> numa_node_resources" where
  "demo_node u = \<lparr>CpuFree = 4, CpuUsed = u, CpuUsedByRequest = u, CpuTotal = 4\<rparr>"


section \<open>The CPU set is read back as the node\<close>

lemma fold_minmax:
  "foldl (\<lambda>(lo, hi) cpu. (if cpu < lo then cpu else lo, if cpu > hi then cpu else hi)) (a, b) xs
     = (Min (insert a (set xs)), Max (insert b (set xs)))" for a b :: int
proof (induction xs arbitrary: a b)
  case (Cons x xs)
  have "Min (insert (if x < a then x else a) (set xs)) = Min (insert a (insert x (set xs)))"
    "Max (insert (if x > b then x else b) (set xs)) = Max (insert b (insert x (set xs)))"
    by (cases "set xs = {}"; auto simp: min_def max_def)+
  with Cons show ?case by simp
qed simp

lemma findMinMaxCpus_spec: "cpus \<noteq> [] \<Longrightarrow> findMinMaxCpus cpus = (Min (set cpus), Max (set cpus))"
  by (simp add: findMinMaxCpus_def fold_minmax insert_absorb)

lemma cpus_in_node_spec:
  "\<not> (a \<and> b) \<Longrightarrow>
   cpus_in_node cs lo hi a b \<longleftrightarrow> (a \<or> wrap_i32 lo \<in> CPUID ` set cs) \<and> (b \<or> wrap_i32 hi \<in> CPUID ` set cs)"
proof (induction cs arbitrary: a b)
  case (Cons c cs)
  show ?case
  proof (cases "(a \<or> CPUID c = wrap_i32 lo) \<and> (b \<or> CPUID c = wrap_i32 hi)")
    case True
    then show ?thesis by (auto simp: Let_def)
  next
    case False
    then have "cpus_in_node (c # cs) lo hi a b = cpus_in_node cs lo hi (a \<or> CPUID c = wrap_i32 lo) (b \<or> CPUID c = wrap_i32 hi)"
      by (simp only: cpus_in_node.simps Let_def if_False)
    then show ?thesis unfolding Cons.IH[OF False] by (simp add: eq_commute)
  qed
qed simp

lemma areCpusInNode_spec:
  "areCpusInNode node lo hi \<longleftrightarrow> wrap_i32 lo \<in> CPUID ` set node \<and> wrap_i32 hi \<in> CPUID ` set node"
  unfolding areCpusInNode_def by (subst cpus_in_node_spec) simp_all

lemma parse_itoa_range:
  assumes "0 \<le> a" "0 \<le> b" "in_i64 a" "in_i64 b"
  shows "parseCpusetCpus (itoa a @ ''-'' @ itoa b) = [a..b]"
proof -
  have d: "CHR ''-'' \<notin> set (itoa a)" "CHR ''-'' \<notin> set (itoa b)" using assms itoa_nonneg_no_dash by auto
  have "CHR '','' \<notin> set (itoa a @ ''-'' @ itoa b)" using itoa_no_comma by simp
  then have "go_split '','' (itoa a @ ''-'' @ itoa b) = [itoa a @ ''-'' @ itoa b]" by (rule go_split_char_None)
  moreover have "go_split ''-'' (itoa a @ ''-'' @ itoa b) = [itoa a, itoa b]"
    using go_split_char_app[OF d(1), of "itoa b"] go_split_char_None[OF d(2)] by simp
  moreover have "contains (itoa a @ ''-'' @ itoa b) ''-''" by (simp add: contains_char)
  ultimately show ?thesis
    by (simp add: parseCpusetCpus_def parse_range_def atoi_itoa assms(3,4))
qed

text \<open>The layout the policy assumes: node \<open>i\<close> has the \<open>t\<close> CPUs from \<open>i * t\<close>.\<close>

definition regular_nodes :: "local_cpu_info \<Rightarrow> int \<Rightarrow> bool" where
  "regular_nodes info t \<longleftrightarrow> 0 < t \<and> (\<forall>(i, xs)\<in>set (NodeToCPU (TotalInfo info)). 0 \<le> i \<and> CPUID ` set xs = {i * t..<(i + 1) * t})"

lemma regular_nodesD:
  assumes "regular_nodes info t" "(i, xs) \<in> set (NodeToCPU (TotalInfo info))"
  shows "0 < t" "0 \<le> i" "CPUID ` set xs = {i * t..<(i + 1) * t}"
  using assms unfolding regular_nodes_def by fast+

lemma node_of_range:
  assumes "regular_nodes info t" "(i, xs) \<in> set (NodeToCPU (TotalInfo info))" "(i + 1) * t \<le> 2147483647"
  shows "GetNumaNodeFromCpuSet info (itoa (i * t) @ ''-'' @ itoa ((i + 1) * t - 1)) = i"
proof -
  let ?lo = "i * t" and ?hi = "(i + 1) * t - 1"
  have t: "0 < t" "0 \<le> i" using regular_nodesD[OF assms(1,2)] by simp_all
  then have ge: "0 \<le> ?lo" "?lo \<le> ?hi" by (simp_all add: distrib_right)
  have in32: "in_i32 ?lo" "in_i32 ?hi" using ge assms(3) by (auto simp: in_i32_def)
  have "in_i64 ?lo" "in_i64 ?hi" "0 \<le> ?hi" using in32 ge by (auto simp: in_i32_def in_i64_def)
  then have cpus: "parseCpusetCpus (itoa ?lo @ ''-'' @ itoa ?hi) = [?lo..?hi]" using parse_itoa_range ge(1) by blast
  have mm: "findMinMaxCpus [?lo..?hi] = (?lo, ?hi)" "[?lo..?hi] \<noteq> []"
  proof -
    show ne: "[?lo..?hi] \<noteq> []" using ge(2) by simp
    have "Min {?lo..?hi} = ?lo" "Max {?lo..?hi} = ?hi" using ge(2) by (auto intro!: Min_eqI Max_eqI)
    then show "findMinMaxCpus [?lo..?hi] = (?lo, ?hi)" using findMinMaxCpus_spec[OF ne] by simp
  qed
  have hit: "areCpusInNode ys ?lo ?hi \<longleftrightarrow> j = i" if "(j, ys) \<in> set (NodeToCPU (TotalInfo info))" for j ys
  proof -
    have ys: "CPUID ` set ys = {j * t..<(j + 1) * t}" by (rule regular_nodesD(3)[OF assms(1) that])
    have "i * t \<in> {j * t..<(j + 1) * t} \<longleftrightarrow> j = i"
    proof
      assume "i * t \<in> {j * t..<(j + 1) * t}"
      then have "j \<le> i" "i < j + 1" using t(1) by (simp_all add: mult_le_cancel_right mult_less_cancel_right)
      then show "j = i" by simp
    qed (use t(1) in \<open>simp add: distrib_right\<close>)
    moreover have "?hi \<in> {i * t..<(i + 1) * t}" using ge(2) by simp
    ultimately show ?thesis unfolding areCpusInNode_spec ys wrap_i32_id[OF in32(1)] wrap_i32_id[OF in32(2)] by auto
  qed
  have "find (\<lambda>(j, node). areCpusInNode node ?lo ?hi) (NodeToCPU (TotalInfo info)) \<noteq> None"
    using hit[OF assms(2)] assms(2) by (auto simp: find_None_iff)
  then obtain j ys where f: "find (\<lambda>(j, node). areCpusInNode node ?lo ?hi) (NodeToCPU (TotalInfo info)) = Some (j, ys)" by auto
  then have "(j, ys) \<in> set (NodeToCPU (TotalInfo info))" "areCpusInNode ys ?lo ?hi"
    by (auto simp: find_Some_iff dest!: nth_mem)
  with hit have "j = i" by blast
  then show ?thesis
    unfolding GetNumaNodeFromCpuSet_def Let_def cpus mm(1) prod.case f option.case using mm(2) by (simp only: if_False)
qed

text \<open>What the policy writes is what the cache reads: on a machine whose node \<open>i\<close> holds the \<open>t\<close> CPUs from
  \<open>i * t\<close>, the CPU set written for node \<open>i\<close> parses to exactly those CPUs, and the container that carries it is
  accounted to node \<open>i\<close>.\<close>

theorem numa_cpuset_roundtrip:
  assumes "regular_nodes info t" "(i, xs) \<in> set (NodeToCPU (TotalInfo info))" "(i + 1) * t \<le> 2147483647"
  shows "set (parseCpusetCpus (itoa (i * t) @ ''-'' @ itoa ((i + 1) * t - 1))) = CPUID ` set xs
    \<and> GetNumaNodeFromCpuSet info (itoa (i * t) @ ''-'' @ itoa ((i + 1) * t - 1)) = i"
proof
  have t: "0 < t" "0 \<le> i" "CPUID ` set xs = {i * t..<(i + 1) * t}" by (rule regular_nodesD[OF assms(1,2)])+
  have n: "0 \<le> i * t" "0 \<le> (i + 1) * t - 1"
    using t(1) mult_nonneg_nonneg[OF t(2) less_imp_le[OF t(1)]] by (simp_all add: distrib_right)
  then have "in_i64 (i * t)" "in_i64 ((i + 1) * t - 1)" using assms(3) t(1) by (auto simp: in_i64_def distrib_right)
  with parse_itoa_range[OF n] t(3) show "set (parseCpusetCpus (itoa (i * t) @ ''-'' @ itoa ((i + 1) * t - 1))) = CPUID ` set xs"
    by auto
qed (rule node_of_range[OF assms])

definition two_nodes :: local_cpu_info where
  "two_nodes =
     (let ps = map (\<lambda>c. \<lparr>CPUID = c, CoreID = c, SocketID = -1, pi_NodeID = c div 2\<rparr>) [0..3]
      in \<lparr>ProcessorInfos = ps, TotalInfo = fillTotalInfo ps\<rparr>)"

theorem numa_cpuset_roundtrip_witness: "GetNumaNodeFromCpuSet two_nodes (itoa (1 * 2) @ ''-'' @ itoa ((1 + 1) * 2 - 1)) = 1"
proof -
  have n: "NodeToCPU (TotalInfo two_nodes) =
      [(0, [\<lparr>CPUID = 0, CoreID = 0, SocketID = -1, pi_NodeID = 0\<rparr>, \<lparr>CPUID = 1, CoreID = 1, SocketID = -1, pi_NodeID = 0\<rparr>]),
       (1, [\<lparr>CPUID = 2, CoreID = 2, SocketID = -1, pi_NodeID = 1\<rparr>, \<lparr>CPUID = 3, CoreID = 3, SocketID = -1, pi_NodeID = 1\<rparr>])]"
    by code_simp
  have r: "regular_nodes two_nodes 2" unfolding regular_nodes_def n by auto
  have "(1, [\<lparr>CPUID = 2, CoreID = 2, SocketID = -1, pi_NodeID = 1\<rparr>, \<lparr>CPUID = 3, CoreID = 3, SocketID = -1, pi_NodeID = 1\<rparr>])
      \<in> set (NodeToCPU (TotalInfo two_nodes))" by (simp add: n)
  from numa_cpuset_roundtrip[OF r this] show ?thesis by simp
qed

end
