(* ===== verification/PCorePaths.thy ===== *)
theory PCorePaths
  imports GoPath
begin

text \<open>
  The cgroup paths of the physical-core binding (\<^verbatim>\<open>pkg/kunpeng-tap-pcore-binding/plugin/agent.go\<close>): from the
  path the runtime gives for a pod to the directories below the cgroup root whose \<^verbatim>\<open>cpuset.cpus\<close> is written. The
  file system is an argument: the working directory, \<open>filepath.EvalSymlinks\<close>, whether a path is a regular file
  (\<open>os.Lstat\<close>) and the directories \<open>filepath.WalkDir\<close> visits, in its order.
\<close>

record cg_os =
  os_cwd :: "string option"
  os_evalSymlinks :: "string \<Rightarrow> string option"
  os_isRegular :: "string \<Rightarrow> bool"
  os_walkDirs :: "string \<Rightarrow> string list"

section \<open>Definitions\<close>

text \<open>\<open>filepath.Abs\<close>.\<close>

definition path_abs :: "cg_os \<Rightarrow> string \<Rightarrow> string option" where
  "path_abs os p =
     (if is_rooted p then Some (path_clean p) else map_option (\<lambda>wd. path_join [wd, p]) (os_cwd os))"

definition pathWithinRoot :: "string \<Rightarrow> string \<Rightarrow> string option" where
  "pathWithinRoot rt candidate =
     (let cleanRoot = path_clean rt; cleanCandidate = path_clean candidate in
      case path_rel cleanRoot cleanCandidate of
        None \<Rightarrow> None
      | Some rel \<Rightarrow>
          if is_rooted rel \<or> rel = ''..'' \<or> has_prefix rel ''../'' then None else Some cleanCandidate)"

definition child_of_root :: "string \<Rightarrow> string \<Rightarrow> (string \<times> string) result" where
  "child_of_root cleanRoot candidate =
     (case path_rel cleanRoot candidate of
        None \<Rightarrow> Inl (Err ''does not identify a child of root'')
      | Some rel \<Rightarrow>
          if rel = ''.'' then Inl (Err ''does not identify a child of root'') else Inr (cleanRoot, rel))"

definition normalizeCgroupPath :: "cg_os \<Rightarrow> string \<Rightarrow> string \<Rightarrow> (string \<times> string) result" where
  "normalizeCgroupPath os rt cgroupPath =
     (if rt = [] then Inl (Err ''cgroup root is empty'')
      else if cgroupPath = [] then Inl (Err ''cgroup path is empty'')
      else (case path_abs os (path_clean rt) of
              None \<Rightarrow> Inl (Err ''clean cgroup root'')
            | Some cleanRoot \<Rightarrow>
                (let cleanInput = path_clean cgroupPath;
                     joined = (\<lambda>input. case pathWithinRoot cleanRoot (path_join [cleanRoot, input]) of
                                 None \<Rightarrow> Inl (Err ''cgroup path escapes root'')
                               | Some candidate \<Rightarrow> child_of_root cleanRoot candidate)
                 in if is_rooted cleanInput
                    then (case pathWithinRoot cleanRoot cleanInput of
                            Some candidate \<Rightarrow> child_of_root cleanRoot candidate
                          | None \<Rightarrow> joined (dropWhile (\<lambda>c. c = CHR ''/'') cleanInput))
                    else joined cleanInput)))"

definition existingPathWithinRoot :: "cg_os \<Rightarrow> string \<Rightarrow> string \<Rightarrow> string option" where
  "existingPathWithinRoot os rt candidate =
     (case pathWithinRoot rt candidate of
        None \<Rightarrow> None
      | Some cleanCandidate \<Rightarrow>
          (case (os_evalSymlinks os rt, os_evalSymlinks os cleanCandidate) of
             (Some resolvedRoot, Some resolvedCandidate) \<Rightarrow>
               if pathWithinRoot resolvedRoot resolvedCandidate = None then None else Some cleanCandidate
           | _ \<Rightarrow> None))"

definition systemdQoSSlice :: "string \<Rightarrow> string" where
  "systemdQoSSlice podSlice =
     (if has_prefix podSlice ''kubepods-burstable-'' then ''kubepods-burstable.slice''
      else if has_prefix podSlice ''kubepods-besteffort-'' then ''kubepods-besteffort.slice''
      else [])"

definition systemdScopeCandidates :: "string \<Rightarrow> string \<Rightarrow> string list" where
  "systemdScopeCandidates rt cgroupPath =
     (if \<not> contains cgroupPath '':'' then []
      else (let parts = go_split '':'' cgroupPath in
            if length parts < 3 then []
            else (let podSlice = parts ! 0; scopeName = parts ! 1 @ ''-'' @ parts ! 2 @ ''.scope'';
                      qosSlice = systemdQoSSlice podSlice
                  in if qosSlice = [] then []
                     else [path_join [rt, ''kubepods.slice'', qosSlice, podSlice, scopeName]])))"

definition sandboxCgroupCandidates :: "string \<Rightarrow> string \<Rightarrow> string \<Rightarrow> string list" where
  "sandboxCgroupCandidates rt cgroupPath sandboxID =
     (let podSlice = path_base cgroupPath; qosSlice = systemdQoSSlice podSlice in
      if sandboxID = [] \<or> \<not> has_prefix podSlice ''kubepods-'' \<or> \<not> has_suffix podSlice ''.slice'' then []
      else path_join [rt, podSlice @ '':cri-containerd:'' @ sandboxID]
           # (if qosSlice = [] then []
              else [path_join [rt, ''kubepods.slice'', qosSlice, podSlice, ''cri-containerd-'' @ sandboxID @ ''.scope'']]))"

definition cpuset_file :: "string \<Rightarrow> string" where
  "cpuset_file cgroupPath = path_join [cgroupPath, ''cpuset.cpus'']"

definition hasCpusetFile :: "cg_os \<Rightarrow> string \<Rightarrow> bool" where
  "hasCpusetFile os cgroupPath = os_isRegular os (cpuset_file cgroupPath)"

definition findCgroupByBase :: "cg_os \<Rightarrow> string \<Rightarrow> string \<Rightarrow> string option" where
  "findCgroupByBase os rt base =
     (if rt = [] \<or> base = [] \<or> base = ''.'' \<or> base = ''/'' then None
      else find (\<lambda>path. path_base path = base \<and> hasCpusetFile os path) (os_walkDirs os rt))"

text \<open>The loop over the candidates returns the paths and all candidates it has seen.\<close>

fun candidate_loop :: "cg_os \<Rightarrow> string \<Rightarrow> string list \<Rightarrow> string list \<Rightarrow> string list \<Rightarrow> string list \<times> string list" where
  "candidate_loop os rt [] seen out = (seen, out)"
| "candidate_loop os rt (c # cs) seen out =
     (case existingPathWithinRoot os rt c of
        None \<Rightarrow> candidate_loop os rt cs seen out
      | Some candidate \<Rightarrow>
          if candidate \<in> set seen then candidate_loop os rt cs seen out
          else candidate_loop os rt cs (candidate # seen)
                 (if hasCpusetFile os candidate then out @ [candidate] else out))"

definition resolveCgroupPathCandidates :: "cg_os \<Rightarrow> string \<Rightarrow> string \<Rightarrow> string \<Rightarrow> string list result" where
  "resolveCgroupPathCandidates os cgroupRoot cgroupPath sandboxID =
     (case normalizeCgroupPath os cgroupRoot cgroupPath of
        Inl e \<Rightarrow> Inl e
      | Inr (rt, relativePath) \<Rightarrow>
          (case candidate_loop os rt
                  (path_join [rt, relativePath] # systemdScopeCandidates rt relativePath
                   @ sandboxCgroupCandidates rt relativePath sandboxID) [] [] of
             (seen, out) \<Rightarrow>
               (case findCgroupByBase os rt (path_base relativePath) of
                  None \<Rightarrow> Inr out
                | Some found \<Rightarrow>
                    (case existingPathWithinRoot os rt found of
                       None \<Rightarrow> Inr out
                     | Some p \<Rightarrow> Inr (if p \<in> set seen then out else out @ [p])))))"

definition resolveCgroupPaths :: "cg_os \<Rightarrow> string \<Rightarrow> string \<Rightarrow> string \<Rightarrow> string list result" where
  "resolveCgroupPaths os cgroupRoot cgroupPath podID =
     (case resolveCgroupPathCandidates os cgroupRoot cgroupPath podID of
        Inl e \<Rightarrow> Inl e
      | Inr paths \<Rightarrow> if paths = [] then Inl (Err ''cpuset.cpus not found'') else Inr paths)"

definition resolveCgroupPath :: "cg_os \<Rightarrow> string \<Rightarrow> string \<Rightarrow> string result" where
  "resolveCgroupPath os cgroupRoot cgroupPath =
     (case resolveCgroupPathCandidates os cgroupRoot cgroupPath [] of
        Inl e \<Rightarrow> Inl e
      | Inr paths \<Rightarrow> if paths = [] then Inl (Err ''cpuset.cpus not found'') else Inr (paths ! 0))"


section \<open>Confinement\<close>

text \<open>The working directory and whatever an absolute path resolves to are absolute.\<close>

definition absolute_os :: "cg_os \<Rightarrow> bool" where
  "absolute_os os \<longleftrightarrow> (\<forall>wd. os_cwd os = Some wd \<longrightarrow> is_rooted wd)
     \<and> (\<forall>p q. os_evalSymlinks os p = Some q \<and> is_rooted p \<longrightarrow> is_rooted q)"

definition inside :: "string \<Rightarrow> string \<Rightarrow> bool" where
  "inside rt p \<longleftrightarrow> is_rooted rt \<and> is_rooted p \<and> (\<exists>us. list_all plain_comp us \<and> clean_comps p = clean_comps rt @ us)"

lemma go_join_ups: "b # bs \<noteq> [] \<Longrightarrow> go_join ''/'' (map (\<lambda>_. ''..'') (b # bs) @ ts) = ''..'' \<or> has_prefix (go_join ''/'' (map (\<lambda>_. ''..'') (b # bs) @ ts)) ''../''"
  by (cases "map (\<lambda>_. ''..'') bs @ ts") (auto simp: has_prefix_def)

lemma clean_comps_clean: "is_rooted s \<Longrightarrow> clean_comps (path_clean s) = clean_comps s"
  by (simp add: path_clean_rooted clean_comps_path_of clean_comps_rooted)

lemma pathWithinRoot_inside:
  assumes "pathWithinRoot rt c = Some q" "is_rooted rt"
  shows "q = path_clean c \<and> is_rooted c \<and> inside rt q"
proof -
  from assms(1) obtain rel where rel: "path_rel (path_clean rt) (path_clean c) = Some rel" "rel \<noteq> ''..''" "\<not> has_prefix rel ''../''"
    and q: "q = path_clean c"
    by (auto simp: pathWithinRoot_def Let_def split: option.splits if_splits)
  have rc: "is_rooted c"
  proof (rule ccontr)
    assume n: "\<not> is_rooted c"
    then have "is_rooted (path_clean (path_clean rt)) \<noteq> is_rooted (path_clean (path_clean c))" using assms(2) by simp
    with rel(1) show False unfolding path_rel_def Let_def by (metis option.distinct(1))
  qed
  have "\<exists>us. clean_comps c = clean_comps rt @ us"
  proof (cases "path_clean rt = path_clean c")
    case True
    then show ?thesis using clean_comps_clean assms(2) rc by (metis append_Nil2)
  next
    case False
    obtain bs ts where st: "strip_common (clean_comps rt) (clean_comps c) = (bs, ts)" by fastforce
    have "bs = []"
    proof (rule ccontr)
      assume "bs \<noteq> []"
      then obtain b bs' where b: "bs = b # bs'" by (cases bs) auto
      with rel(1) False st assms(2) rc have "rel = go_join ''/'' (map (\<lambda>_. ''..'') (b # bs') @ ts)"
        by (auto simp: path_rel_def Let_def path_clean_idem clean_comps_clean split: if_splits)
      with go_join_ups[of b bs' ts] rel(2,3) show False by simp
    qed
    with st show ?thesis using strip_common_Nil by blast
  qed
  then show ?thesis
    using q rc assms(2) clean_comps_rooted[OF rc] by (auto simp: inside_def clean_comps_clean)
qed

lemma existing_inside:
  assumes "existingPathWithinRoot os rt c = Some p" "is_rooted rt" "absolute_os os"
  shows "p = path_clean c \<and> is_rooted c \<and> inside rt p
     \<and> (\<exists>r q. os_evalSymlinks os rt = Some r \<and> os_evalSymlinks os p = Some q \<and> inside r q)"
proof -
  from assms(1) obtain r q s where *: "pathWithinRoot rt c = Some p" "os_evalSymlinks os rt = Some r" "os_evalSymlinks os p = Some q"
    "pathWithinRoot r q = Some s"
    by (auto simp: existingPathWithinRoot_def split: option.splits if_splits)
  note p = pathWithinRoot_inside[OF *(1) assms(2)]
  have r: "is_rooted r" using assms(2,3) *(2) by (auto simp: absolute_os_def)
  note q = pathWithinRoot_inside[OF *(4) r]
  then have "inside r q" unfolding inside_def using clean_comps_clean by auto
  with p * show ?thesis by blast
qed

lemma cpuset_file_clean: "is_rooted p \<Longrightarrow> cpuset_file (path_clean p) = cpuset_file p"
  by (simp add: cpuset_file_def path_join_clean)

definition confined :: "cg_os \<Rightarrow> string \<Rightarrow> string \<Rightarrow> bool" where
  "confined os rt p \<longleftrightarrow> inside rt p \<and> hasCpusetFile os p
     \<and> (case (os_evalSymlinks os rt, os_evalSymlinks os p) of (Some r, Some q) \<Rightarrow> inside r q | _ \<Rightarrow> False)"

lemma candidate_loop_confined:
  assumes "is_rooted rt" "absolute_os os"
    and "candidate_loop os rt cs seen out = (seen', out')" "distinct out" "set out \<subseteq> set seen" "\<forall>p\<in>set out. confined os rt p"
  shows "distinct out' \<and> set out' \<subseteq> set seen' \<and> (\<forall>p\<in>set out'. confined os rt p)"
  using assms(3-)
proof (induction cs arbitrary: seen out)
  case (Cons c cs)
  show ?case
  proof (cases "existingPathWithinRoot os rt c")
    case None
    with Cons show ?thesis by simp
  next
    case (Some p)
    note p = existing_inside[OF this assms(1,2)]
    show ?thesis
    proof (cases "p \<in> set seen")
      case True
      with Some Cons show ?thesis by simp
    next
      case False
      let ?out = "if hasCpusetFile os p then out @ [p] else out"
      have "candidate_loop os rt cs (p # seen) ?out = (seen', out')" using Cons.prems(1) Some False by simp
      moreover have "distinct ?out" "set ?out \<subseteq> set (p # seen)" "\<forall>p\<in>set ?out. confined os rt p"
        using Cons.prems(2-4) False p by (auto simp: confined_def)
      ultimately show ?thesis by (rule Cons.IH)
    qed
  qed
qed simp

lemma normalize_root:
  assumes "normalizeCgroupPath os cr cg = Inr (rt, rel)" "absolute_os os"
  shows "path_abs os (path_clean cr) = Some rt \<and> is_rooted rt"
proof -
  from assms(1) have p: "path_abs os (path_clean cr) = Some rt"
    by (auto simp: normalizeCgroupPath_def child_of_root_def Let_def split: option.splits if_splits)
  have "is_rooted rt"
  proof (cases "is_rooted (path_clean cr)")
    case True
    with p show ?thesis by (auto simp: path_abs_def)
  next
    case False
    with p obtain wd where wd: "os_cwd os = Some wd" "rt = path_join [wd, path_clean cr]" by (auto simp: path_abs_def)
    have "is_rooted wd" using assms(2) wd(1) by (auto simp: absolute_os_def)
    moreover from this have "is_rooted (wd @ CHR ''/'' # x)" for x by (cases wd) (auto simp: is_rooted_def has_prefix_def)
    ultimately show ?thesis unfolding wd(2) by (simp add: path_join_rooted)
  qed
  with p show ?thesis by simp
qed

text \<open>C16. Confinement: whatever path the runtime reports for a pod, the agent only ever writes below the cgroup root.
  Every path it resolves lies inside the root component by component, carries a regular \<open>cpuset.cpus\<close>, still lies
  inside the root once all symbolic links are resolved, and none is listed twice.\<close>

theorem cgroup_paths_confined:
  assumes "resolveCgroupPaths os cr cg pod = Inr paths"
    and "absolute_os os"
  shows "\<exists>rt. path_abs os (path_clean cr) = Some rt \<and> paths \<noteq> [] \<and> distinct paths \<and> (\<forall>p\<in>set paths. confined os rt p)"
proof -
  from assms(1) obtain rt rel where n: "normalizeCgroupPath os cr cg = Inr (rt, rel)" and ne: "paths \<noteq> []"
    by (auto simp: resolveCgroupPaths_def resolveCgroupPathCandidates_def split: sum.splits if_splits)
  note rt = normalize_root[OF n assms(2)]
  obtain seen out where l: "candidate_loop os rt (path_join [rt, rel] # systemdScopeCandidates rt rel
      @ sandboxCgroupCandidates rt rel pod) [] [] = (seen, out)" by fastforce
  have out: "distinct out" "set out \<subseteq> set seen" "\<forall>p\<in>set out. confined os rt p"
    using candidate_loop_confined[OF conjunct2[OF rt] assms(2) l] by simp_all
  from assms(1) n l have "paths = out \<or> (\<exists>f p. findCgroupByBase os rt (path_base rel) = Some f
      \<and> existingPathWithinRoot os rt f = Some p \<and> p \<notin> set seen \<and> paths = out @ [p])"
    by (auto simp: resolveCgroupPaths_def resolveCgroupPathCandidates_def split: sum.splits if_splits option.splits)
  then show ?thesis
  proof (elim disjE exE conjE)
    assume "paths = out"
    with rt ne out show ?thesis by blast
  next
    fix f p
    assume f: "findCgroupByBase os rt (path_base rel) = Some f" "existingPathWithinRoot os rt f = Some p" "p \<notin> set seen" "paths = out @ [p]"
    note p = existing_inside[OF f(2) conjunct2[OF rt] assms(2)]
    have "hasCpusetFile os f" using f(1) by (auto simp: findCgroupByBase_def find_Some_iff split: if_splits)
    then have "confined os rt p" using p by (auto simp: confined_def hasCpusetFile_def cpuset_file_clean)
    with rt ne out f(3,4) show ?thesis by auto
  qed
qed

definition demo_os :: cg_os where
  "demo_os = \<lparr>os_cwd = Some ''/'', os_evalSymlinks = Some,
     os_isRegular = (\<lambda>p. p = ''/sys/fs/cgroup/kubepods.slice/kubepods-pod1.slice/cpuset.cpus''),
     os_walkDirs = (\<lambda>_. [''/sys/fs/cgroup'', ''/sys/fs/cgroup/kubepods.slice'', ''/sys/fs/cgroup/kubepods.slice/kubepods-pod1.slice''])\<rparr>"

theorem cgroup_paths_confined_witness:
  "\<exists>rt. path_abs demo_os (path_clean ''/sys/fs//cgroup/'') = Some rt
     \<and> confined demo_os rt ''/sys/fs/cgroup/kubepods.slice/kubepods-pod1.slice''"
proof -
  have r: "resolveCgroupPaths demo_os ''/sys/fs//cgroup/'' ''/../kubepods.slice/kubepods-pod1.slice'' ''7f''
      = Inr [''/sys/fs/cgroup/kubepods.slice/kubepods-pod1.slice'']" by code_simp
  have "absolute_os demo_os" by (simp add: absolute_os_def demo_os_def is_rooted_def has_prefix_def)
  from cgroup_paths_confined[OF r this] show ?thesis by auto
qed

end
