(* ===== verification/PCoreTopology.thy ===== *)
theory PCoreTopology
  imports GoStrings
begin

text \<open>
  The sibling pairs of the physical-core binding (\<^verbatim>\<open>pkg/kunpeng-tap-pcore-binding/topology/siblings.go\<close>) and
  the normal form of CPU sets that its agent compares (\<^verbatim>\<open>plugin/agent.go\<close>). The files under sysfs are an
  argument: one entry per \<open>thread_siblings_list\<close> in the order of the glob, \<open>None\<close> for a failed read. A range
  that ends at the largest \<open>int\<close>, which the counting loop of the code never leaves, is read as the finite range.
\<close>

section \<open>CPU lists\<close>

fun cpu_items :: "string list \<Rightarrow> int list option" where
  "cpu_items [] = Some []"
| "cpu_items (raw # rest) =
     (let item = trim_space raw in
      if item = [] then cpu_items rest
      else if contains item ''-'' then
        (let bounds = go_split ''-'' item in
         if length bounds \<noteq> 2 then None
         else (case (atoi (trim_space (bounds ! 0)), atoi (trim_space (bounds ! 1))) of
                 (Some start, Some stop) \<Rightarrow> map_option ((@) [start..stop]) (cpu_items rest)
               | _ \<Rightarrow> None))
      else (case atoi item of None \<Rightarrow> None | Some cpu \<Rightarrow> map_option ((#) cpu) (cpu_items rest)))"

definition parseCPUList :: "string \<Rightarrow> int list option" where
  "parseCPUList raw = map_option sort_ints (cpu_items (go_split '','' raw))"

definition parseCpuset :: "string \<Rightarrow> int list option" where
  "parseCpuset raw = (if trim_space raw = [] then Some [] else cpu_items (go_split '','' (trim_space raw)))"

definition normalizeCpuset :: "string \<Rightarrow> string" where
  "normalizeCpuset raw =
     (case parseCpuset raw of
        None \<Rightarrow> trim_space raw
      | Some cpus \<Rightarrow> go_join '','' (map itoa (sort_ints cpus)))"

section \<open>Pairs\<close>

record sibling_pair =
  CPU0 :: int
  CPU1 :: int

definition pair_String :: "sibling_pair \<Rightarrow> string" where
  "pair_String p =
     (if CPU0 p < CPU1 p then itoa (CPU0 p) @ '','' @ itoa (CPU1 p) else itoa (CPU1 p) @ '','' @ itoa (CPU0 p))"

definition parsePair :: "string \<Rightarrow> sibling_pair option" where
  "parsePair s =
     (case parseCPUList s of
        None \<Rightarrow> None
      | Some cpus \<Rightarrow> if length cpus \<noteq> 2 then None else Some \<lparr>CPU0 = cpus ! 0, CPU1 = cpus ! 1\<rparr>)"

definition pair_lt :: "sibling_pair \<Rightarrow> sibling_pair \<Rightarrow> bool" where
  "pair_lt p q \<longleftrightarrow> (if CPU0 p = CPU0 q then CPU1 p < CPU1 q else CPU0 p < CPU0 q)"

fun pair_loop :: "string option list \<Rightarrow> string list \<Rightarrow> sibling_pair list \<Rightarrow> sibling_pair list" where
  "pair_loop [] seen out = out"
| "pair_loop (f # fs) seen out =
     (case f of
        None \<Rightarrow> pair_loop fs seen out
      | Some raw \<Rightarrow>
          (case parsePair (trim_space raw) of
             None \<Rightarrow> pair_loop fs seen out
           | Some p \<Rightarrow>
               if pair_String p \<in> set seen then pair_loop fs seen out
               else pair_loop fs (pair_String p # seen) (out @ [p])))"

definition DiscoverSiblingPairs :: "string option list \<Rightarrow> sibling_pair list result" where
  "DiscoverSiblingPairs files =
     (if files = [] then Inl (Err ''no sibling topology found'')
      else (let out = pair_loop files [] [] in
            if out = [] then Inl (Err ''no valid sibling pair found'') else Inr (go_sort pair_lt out)))"

interpretation pair_slice: slice_order pair_lt
  by unfold_locales (auto simp: pair_lt_def split: if_splits)

section \<open>What is parsed\<close>

lemma go_split_no_sep: "x \<in> set (go_split [c] s) \<Longrightarrow> c \<notin> set x"
proof (induction "[c]" s rule: go_split.induct)
  case (1 s)
  show ?case
  proof (cases "c \<in> set s")
    case False
    with 1(2) show ?thesis by (simp add: go_split_char_None)
  next
    case True
    then obtain a b where s: "s = a @ c # b" "c \<notin> set a" by (metis split_list_first)
    then have cut: "go_cut [c] s = Some (a, b)" by (simp add: go_cut_char_app)
    from 1(2) s have "x = a \<or> x \<in> set (go_split [c] b)" by (simp add: go_split_char_app)
    then show ?thesis using 1(1)[OF _ cut refl] s by auto
  qed
qed

lemma trim_space_subset: "c \<in> set (trim_space s) \<Longrightarrow> c \<in> set s"
  unfolding trim_space_def by (auto dest!: set_dropWhileD)

lemma atoi_range: "atoi s = Some n \<Longrightarrow> in_i64 n"
  by (auto simp: atoi_def split: option.splits if_splits)

lemma parse_nat_nonneg: "parse_nat s = Some n \<Longrightarrow> 0 \<le> n"
  using parse_digits_nonneg[of 0 s n] by (simp add: parse_nat_def split: if_splits)

lemma atoi_nonneg: "atoi s = Some n \<Longrightarrow> CHR ''-'' \<notin> set s \<Longrightarrow> 0 \<le> n"
  by (auto simp: atoi_def intro: parse_nat_nonneg split: option.splits if_splits list.splits)

definition cpu_number :: "int \<Rightarrow> bool" where
  "cpu_number c \<longleftrightarrow> 0 \<le> c \<and> in_i64 c"

lemma atoi_cpu_number: "atoi s = Some n \<Longrightarrow> CHR ''-'' \<notin> set s \<Longrightarrow> cpu_number n"
  by (simp add: cpu_number_def atoi_range atoi_nonneg)

lemma cpu_items_numbers: "cpu_items items = Some cpus \<Longrightarrow> c \<in> set cpus \<Longrightarrow> cpu_number c"
proof (induction items arbitrary: cpus)
  case (Cons raw rest)
  let ?i = "trim_space raw" and ?b = "go_split ''-'' (trim_space raw)"
  consider "?i = []" | "?i \<noteq> []" "contains ?i ''-''" | "?i \<noteq> []" "\<not> contains ?i ''-''" by blast
  then show ?case
  proof cases
    case 1
    with Cons show ?thesis by simp
  next
    case 2
    with Cons.prems(1) obtain a b xs where *: "length ?b = 2" "atoi (trim_space (?b ! 0)) = Some a" "atoi (trim_space (?b ! 1)) = Some b"
      "cpu_items rest = Some xs" "cpus = [a..b] @ xs"
      by (auto simp: Let_def split: if_splits option.splits)
    have "CHR ''-'' \<notin> set (trim_space (?b ! i))" if "i < 2" for i
      using go_split_no_sep[of "?b ! i" "CHR ''-''" ?i] that *(1) trim_space_subset by fastforce
    from atoi_cpu_number[OF *(2) this[of 0]] atoi_cpu_number[OF *(3) this[of 1]]
    have "cpu_number a" "cpu_number b" by simp_all
    then have "cpu_number c" if "c \<in> set [a..b]" using that by (auto simp: cpu_number_def in_i64_def)
    with Cons.IH[OF *(4)] Cons.prems(2) *(5) show ?thesis by auto
  next
    case 3
    with Cons.prems(1) obtain a xs where *: "atoi ?i = Some a" "cpu_items rest = Some xs" "cpus = a # xs"
      by (auto simp: Let_def split: if_splits option.splits)
    from 3(2) have "CHR ''-'' \<notin> set ?i" by (simp add: contains_char)
    from atoi_cpu_number[OF *(1) this] Cons.IH[OF *(2)] Cons.prems(2) *(3) show ?thesis by auto
  qed
qed simp


section \<open>The pairs found\<close>

definition proper_pair :: "sibling_pair \<Rightarrow> bool" where
  "proper_pair p \<longleftrightarrow> cpu_number (CPU0 p) \<and> cpu_number (CPU1 p)"

lemma parsePair_proper: "parsePair s = Some p \<Longrightarrow> proper_pair p \<and> CPU0 p \<le> CPU1 p"
proof -
  assume "parsePair s = Some p"
  then obtain xs where xs: "cpu_items (go_split '','' s) = Some xs" "length (sort_ints xs) = 2"
    and p: "p = \<lparr>CPU0 = sort_ints xs ! 0, CPU1 = sort_ints xs ! 1\<rparr>"
    by (auto simp: parsePair_def parseCPUList_def split: option.splits if_splits)
  have "sort_ints xs ! i \<in> set xs" if "i < 2" for i
    using nth_mem[of i "sort_ints xs"] that xs(2) by (simp only: set_sort_ints)
  moreover have "sort_ints xs ! 0 \<le> sort_ints xs ! 1"
    using sorted_nth_mono[OF sorted_sort_ints, of 0 1 xs] xs(2) by simp
  ultimately show ?thesis using cpu_items_numbers[OF xs(1)] p by (simp add: proper_pair_def)
qed

lemma itoa_item: "cpu_number c \<Longrightarrow> cpu_items (itoa c # rest) = map_option ((#) c) (cpu_items rest)"
  by (simp add: cpu_number_def contains_char itoa_nonneg_no_dash atoi_itoa)

lemma two_cpus:
  assumes "cpu_number a" "cpu_number b"
  shows "parseCpuset (itoa a @ '','' @ itoa b) = Some [a, b]"
proof -
  have ns: "\<not> is_space c" if "c \<in> set (itoa a @ '','' @ itoa b)" for c
    using that assms itoa_nonneg_chars[of a c] itoa_nonneg_chars[of b c]
    by (auto simp: cpu_number_def is_digit_not_space, simp add: is_space_def)
  then have trim: "trim_space (itoa a @ '','' @ itoa b) = itoa a @ '','' @ itoa b" by (intro trim_space_no_space) blast
  have "go_split '','' (itoa a @ '','' @ itoa b) = [itoa a, itoa b]"
    using go_split_char_app[OF itoa_no_comma, of a "itoa b"] go_split_char_None[OF itoa_no_comma, of b] by simp
  then show ?thesis unfolding parseCpuset_def trim using itoa_item[OF assms(1)] itoa_item[OF assms(2)]
    by (simp del: cpu_items.simps(2))
qed

lemma normalize_pair:
  assumes "proper_pair p"
  shows "normalizeCpuset (pair_String p) = pair_String p"
proof (cases "CPU0 p < CPU1 p")
  case True
  then have "parseCpuset (pair_String p) = Some [CPU0 p, CPU1 p]"
    using assms two_cpus by (simp add: pair_String_def proper_pair_def)
  moreover have "sort_ints [CPU0 p, CPU1 p] = [CPU0 p, CPU1 p]" by (rule sort_ints_unique) (use True in auto)
  ultimately show ?thesis using True by (simp add: normalizeCpuset_def pair_String_def)
next
  case False
  then have "parseCpuset (pair_String p) = Some [CPU1 p, CPU0 p]"
    using assms two_cpus by (simp add: pair_String_def proper_pair_def)
  moreover have "sort_ints [CPU1 p, CPU0 p] = [CPU1 p, CPU0 p]" by (rule sort_ints_unique) (use False in auto)
  ultimately show ?thesis using False by (simp add: normalizeCpuset_def pair_String_def)
qed

lemma pair_String_inj:
  assumes "proper_pair p" "proper_pair q" "CPU0 p \<le> CPU1 p" "CPU0 q \<le> CPU1 q" "pair_String p = pair_String q"
  shows "p = q"
proof -
  have s: "pair_String r = itoa (CPU0 r) @ '','' @ itoa (CPU1 r)" if "CPU0 r \<le> CPU1 r" for r
    using that by (cases "CPU0 r = CPU1 r") (simp_all add: pair_String_def)
  have "parseCpuset (pair_String r) = Some [CPU0 r, CPU1 r]" if "proper_pair r" "CPU0 r \<le> CPU1 r" for r
    using that s two_cpus by (simp add: proper_pair_def)
  with assms have "[CPU0 p, CPU1 p] = [CPU0 q, CPU1 q]" by (metis option.inject)
  then show ?thesis by (cases p; cases q) simp
qed

lemma pair_lt_total: "p \<noteq> q \<Longrightarrow> pair_lt p q \<or> pair_lt q p"
  by (cases p; cases q) (auto simp: pair_lt_def)

lemma slice_sorted_strict:
  "slice_sorted lt xs \<Longrightarrow> distinct xs \<Longrightarrow> (\<And>x y. x \<in> set xs \<Longrightarrow> y \<in> set xs \<Longrightarrow> x \<noteq> y \<Longrightarrow> lt x y \<or> lt y x) \<Longrightarrow> sorted_wrt lt xs"
  by (induction xs) (auto simp: slice_sorted_def)

definition read_pairs :: "string option list \<Rightarrow> sibling_pair set" where
  "read_pairs files = {p. \<exists>raw. Some raw \<in> set files \<and> parsePair (trim_space raw) = Some p}"

lemma pair_loop_spec:
  assumes "set seen = pair_String ` set out" "distinct out" "set out \<subseteq> S" "read_pairs fs \<subseteq> S" "inj_on pair_String S"
  shows "distinct (pair_loop fs seen out) \<and> set (pair_loop fs seen out) = set out \<union> read_pairs fs"
  using assms
proof (induction fs arbitrary: seen out)
  case Nil
  then show ?case by (simp add: read_pairs_def)
next
  case (Cons f fs)
  show ?case
  proof (cases "case f of None \<Rightarrow> None | Some raw \<Rightarrow> parsePair (trim_space raw)")
    case None
    then have "read_pairs (f # fs) = read_pairs fs" by (auto simp: read_pairs_def split: option.splits)
    moreover have "pair_loop (f # fs) seen out = pair_loop fs seen out" using None by (auto split: option.splits)
    ultimately show ?thesis using Cons.IH[OF Cons.prems(1-3) _ Cons.prems(5)] Cons.prems(4) by simp
  next
    case (Some p)
    then obtain raw where f: "f = Some raw" "parsePair (trim_space raw) = Some p" by (auto split: option.splits)
    then have r: "read_pairs (f # fs) = insert p (read_pairs fs)" by (auto simp: read_pairs_def)
    have sub: "p \<in> S" "read_pairs fs \<subseteq> S" using Cons.prems(4) r by auto
    have seen: "pair_String p \<in> set seen \<longleftrightarrow> p \<in> set out"
      using Cons.prems(1,3,5) sub(1) by (simp add: inj_on_image_mem_iff)
    show ?thesis
    proof (cases "p \<in> set out")
      case True
      then have "pair_loop (f # fs) seen out = pair_loop fs seen out" using f seen by simp
      with Cons.IH[OF Cons.prems(1-3) sub(2) Cons.prems(5)] r True show ?thesis by auto
    next
      case False
      then have "pair_loop (f # fs) seen out = pair_loop fs (pair_String p # seen) (out @ [p])" using f seen by simp
      moreover have "set (pair_String p # seen) = pair_String ` set (out @ [p])" "distinct (out @ [p])" "set (out @ [p]) \<subseteq> S"
        using Cons.prems(1-3) False sub(1) by auto
      ultimately show ?thesis using Cons.IH[OF _ _ _ sub(2) Cons.prems(5), of "pair_String p # seen" "out @ [p]"] r by simp
    qed
  qed
qed

text \<open>Discovery finds exactly the sibling pairs that the readable files describe, each once and in strictly
  increasing order, so the result does not depend on the order of the files; each pair is written in the normal form
  in which the agent compares CPU sets, and different pairs are written differently.\<close>

theorem siblings_discovered:
  assumes "DiscoverSiblingPairs files = Inr pairs"
  shows "set pairs = read_pairs files \<and> pairs \<noteq> [] \<and> sorted_wrt pair_lt pairs
     \<and> (\<forall>p\<in>set pairs. proper_pair p \<and> CPU0 p \<le> CPU1 p \<and> normalizeCpuset (pair_String p) = pair_String p)
     \<and> inj_on pair_String (set pairs)"
proof -
  let ?out = "pair_loop files [] []"
  have proper: "proper_pair p \<and> CPU0 p \<le> CPU1 p" if "p \<in> read_pairs files" for p
    using that parsePair_proper by (auto simp: read_pairs_def)
  then have inj: "inj_on pair_String (read_pairs files)" by (auto intro!: inj_onI pair_String_inj)
  have out: "distinct ?out" "set ?out = read_pairs files"
    using pair_loop_spec[of "[]" "[]" "read_pairs files" files] inj by simp_all
  from assms have p: "pairs = go_sort pair_lt ?out" "?out \<noteq> []" by (auto simp: DiscoverSiblingPairs_def Let_def split: if_splits)
  have "distinct pairs" using p(1) out(1) by simp
  moreover have "slice_sorted pair_lt pairs" unfolding p(1) by (rule pair_slice.slice_sort_sorted)
  ultimately have "sorted_wrt pair_lt pairs" by (intro slice_sorted_strict) (simp_all add: pair_lt_total)
  then show ?thesis using p out proper inj normalize_pair by auto
qed

theorem siblings_discovered_witness:
  "DiscoverSiblingPairs [Some (''2-3'' @ [CHR 0x0A]), None, Some ''1,0'', Some ''3,2'', Some ''7'']
     = Inr [\<lparr>CPU0 = 0, CPU1 = 1\<rparr>, \<lparr>CPU0 = 2, CPU1 = 3\<rparr>]
   \<and> normalizeCpuset (pair_String \<lparr>CPU0 = 2, CPU1 = 3\<rparr>) = pair_String \<lparr>CPU0 = 2, CPU1 = 3\<rparr>"
proof -
  have "DiscoverSiblingPairs [Some (''2-3'' @ [CHR 0x0A]), None, Some ''1,0'', Some ''3,2'', Some ''7'']
     = Inr [\<lparr>CPU0 = 0, CPU1 = 1\<rparr>, \<lparr>CPU0 = 2, CPU1 = 3\<rparr>]" by code_simp
  with siblings_discovered[OF this] show ?thesis by simp
qed

end
