(* ===== verification/PCoreAgent.thy ===== *)
theory PCoreAgent
  imports PCorePaths PCoreTopology
begin

text \<open>
  The agent of the physical-core binding (\<^verbatim>\<open>pkg/kunpeng-tap-pcore-binding/plugin/agent.go\<close>): the pods it knows,
  the handlers of the runtime's events, and the reconciliation that gives every matching pod a sibling pair of
  its own. The cpuset files are a store from cgroup paths to texts; a write may fail, and what a file shows after a
  successful write is the kernel's rendering \<open>echo\<close> of the text.
\<close>

section \<open>Pods\<close>

record pcore_pod =
  pp_id :: string
  pp_name :: string
  pp_namespace :: string
  pp_runtimeClass :: string
  pp_cgroupPath :: string
  pp_cpuQuota :: int
  pp_cpuPeriod :: int
  pp_cpuLimitKnown :: bool

text \<open>The runtime's message: the CPU part of a resource block is its quota and period, where set.\<close>

type_synonym nri_cpu_limits = "(int option \<times> int option) option"

record nri_sandbox =
  ns_Id :: string
  ns_Name :: string
  ns_Namespace :: string
  ns_RuntimeHandler :: string
  ns_Linux :: "(string \<times> nri_cpu_limits option \<times> nri_cpu_limits option) option"

definition convertPod :: "nri_sandbox \<Rightarrow> pcore_pod" where
  "convertPod p =
     (let out = \<lparr>pp_id = ns_Id p, pp_name = ns_Name p, pp_namespace = ns_Namespace p, pp_runtimeClass = [],
                 pp_cgroupPath = [], pp_cpuQuota = 0, pp_cpuPeriod = 0, pp_cpuLimitKnown = False\<rparr>;
          out = (case ns_Linux p of
                   None \<Rightarrow> out
                 | Some (parent, podResources, res) \<Rightarrow>
                     (let out = out\<lparr>pp_cgroupPath := parent\<rparr> in
                      case (if podResources = None then res else podResources) of
                        Some (Some (Some quota, Some period)) \<Rightarrow>
                          out\<lparr>pp_cpuQuota := quota, pp_cpuPeriod := period, pp_cpuLimitKnown := True\<rparr>
                      | _ \<Rightarrow> out))
      in if ns_RuntimeHandler p \<noteq> [] then out\<lparr>pp_runtimeClass := ns_RuntimeHandler p\<rparr> else out)"

definition targetCPULimit :: int where
  "targetCPULimit = 2"

definition hasTargetCPULimit :: "pcore_pod \<Rightarrow> bool" where
  "hasTargetCPULimit pod \<longleftrightarrow>
     \<not> (\<not> pp_cpuLimitKnown pod \<or> pp_cpuQuota pod \<le> 0 \<or> pp_cpuPeriod pod = 0)
     \<and> pp_cpuQuota pod div pp_cpuPeriod pod = targetCPULimit \<and> pp_cpuQuota pod mod pp_cpuPeriod pod = 0"

definition pod_lt :: "pcore_pod \<Rightarrow> pcore_pod \<Rightarrow> bool" where
  "pod_lt p q \<longleftrightarrow>
     (if pp_namespace p \<noteq> pp_namespace q then str_less (pp_namespace p) (pp_namespace q)
      else if pp_name p \<noteq> pp_name q then str_less (pp_name p) (pp_name q)
      else str_less (pp_id p) (pp_id q))"

section \<open>The agent\<close>

record pcore_config =
  cf_CgroupRoot :: string
  cf_Namespaces :: "string list"
  cf_RuntimeClasses :: "string list"
  cf_DryRun :: bool

record pcore_agent =
  ag_cfg :: pcore_config
  ag_siblingPairs :: "sibling_pair list"
  ag_namespaces :: "string list"
  ag_runtimeClasses :: "string list"
  ag_pods :: "(string, pcore_pod) gomap"
  ag_reconcileCh :: bool

definition toSet :: "string list \<Rightarrow> string list" where
  "toSet items = filter (\<lambda>i. i \<noteq> []) items"

text \<open>The stub of the runtime interface is made by a library call, which may fail.\<close>

definition pcore_New :: "bool \<Rightarrow> pcore_config \<Rightarrow> sibling_pair list \<Rightarrow> pcore_agent result" where
  "pcore_New stub_ok cfg pairs =
     (if pairs = [] then Inl (Err ''no sibling pair available'')
      else if \<not> stub_ok then Inl (Err ''stub'')
      else Inr \<lparr>ag_cfg = cfg, ag_siblingPairs = pairs, ag_namespaces = toSet (cf_Namespaces cfg),
                ag_runtimeClasses = toSet (cf_RuntimeClasses cfg), ag_pods = [], ag_reconcileCh = False\<rparr>)"

text \<open>The channel holds one request; a request to a full channel is dropped.\<close>

definition requestReconcile :: "pcore_agent \<Rightarrow> pcore_agent" where
  "requestReconcile a = a\<lparr>ag_reconcileCh := True\<rparr>"

definition replacePods :: "nri_sandbox option list \<Rightarrow> pcore_agent \<Rightarrow> pcore_agent" where
  "replacePods pods a =
     a\<lparr>ag_pods := foldl (\<lambda>m p. case p of None \<Rightarrow> m | Some s \<Rightarrow> AList.update (ns_Id s) (convertPod s) m) [] pods\<rparr>"

definition upsertPod :: "nri_sandbox option \<Rightarrow> pcore_agent \<Rightarrow> pcore_agent" where
  "upsertPod pod a =
     (case pod of None \<Rightarrow> a | Some s \<Rightarrow> a\<lparr>ag_pods := AList.update (ns_Id s) (convertPod s) (ag_pods a)\<rparr>)"

definition removePod :: "nri_sandbox option \<Rightarrow> pcore_agent \<Rightarrow> pcore_agent" where
  "removePod pod a = (case pod of None \<Rightarrow> a | Some s \<Rightarrow> a\<lparr>ag_pods := AList.delete (ns_Id s) (ag_pods a)\<rparr>)"

definition listPods :: "pcore_agent \<Rightarrow> pcore_pod list" where
  "listPods a = go_sort pod_lt (map snd (ag_pods a))"

definition match_pod :: "pcore_agent \<Rightarrow> pcore_pod \<Rightarrow> bool" where
  "match_pod a pod \<longleftrightarrow>
     pp_namespace pod \<in> set (ag_namespaces a) \<and> pp_runtimeClass pod \<in> set (ag_runtimeClasses a) \<and> hasTargetCPULimit pod"

section \<open>Reconciliation\<close>

definition targetCpuset :: "pcore_agent \<Rightarrow> string \<Rightarrow> string list \<Rightarrow> string" where
  "targetCpuset a current occupied =
     (let free = (case find (\<lambda>p. normalizeCpuset (pair_String p) \<notin> set occupied) (ag_siblingPairs a) of
                    None \<Rightarrow> [] | Some p \<Rightarrow> pair_String p)
      in case find (\<lambda>p. normalizeCpuset current = normalizeCpuset (pair_String p)) (ag_siblingPairs a) of
           Some p \<Rightarrow> if normalizeCpuset (pair_String p) \<in> set occupied then free else pair_String p
         | None \<Rightarrow> free)"

type_synonym cpuset_files = "string \<Rightarrow> string option"

definition readCpuset :: "cpuset_files \<Rightarrow> string \<Rightarrow> string option" where
  "readCpuset files cgroupPath = map_option trim_space (files (cpuset_file cgroupPath))"

definition writeCpuset :: "(string \<Rightarrow> bool) \<Rightarrow> (string \<Rightarrow> string) \<Rightarrow> string \<Rightarrow> cpuset_files \<Rightarrow> string \<Rightarrow> cpuset_files" where
  "writeCpuset wr echo cpus files cgroupPath =
     (if wr (cpuset_file cgroupPath) then files(cpuset_file cgroupPath \<mapsto> echo cpus) else files)"

text \<open>\<open>None\<close> is a failed read.\<close>

fun needsCpusetUpdate :: "cpuset_files \<Rightarrow> string list \<Rightarrow> string \<Rightarrow> bool option" where
  "needsCpusetUpdate files [] target = Some False"
| "needsCpusetUpdate files (p # ps) target =
     (case readCpuset files p of
        None \<Rightarrow> None
      | Some current \<Rightarrow>
          if normalizeCpuset current \<noteq> normalizeCpuset target then Some True
          else needsCpusetUpdate files ps target)"

text \<open>The pod's cgroups and the pair chosen for it, if the pass comes to that point.\<close>

definition chosen :: "pcore_agent \<Rightarrow> cg_os \<Rightarrow> cpuset_files \<Rightarrow> string list \<Rightarrow> pcore_pod \<Rightarrow> (string list \<times> string) option" where
  "chosen a os files occupied pod =
     (if \<not> match_pod a pod then None
      else if pp_cgroupPath pod = [] then None
      else (case resolveCgroupPaths os (cf_CgroupRoot (ag_cfg a)) (pp_cgroupPath pod) (pp_id pod) of
              Inl _ \<Rightarrow> None
            | Inr cgroupPaths \<Rightarrow>
                (case readCpuset files (cgroupPaths ! 0) of
                   None \<Rightarrow> None
                 | Some current \<Rightarrow>
                     (let target = targetCpuset a current occupied in
                      if target = [] then None else Some (cgroupPaths, target)))))"

definition reconcile_pod ::
  "(string \<Rightarrow> bool) \<Rightarrow> (string \<Rightarrow> string) \<Rightarrow> pcore_agent \<Rightarrow> cg_os
   \<Rightarrow> cpuset_files \<times> string list \<Rightarrow> pcore_pod \<Rightarrow> cpuset_files \<times> string list" where
  "reconcile_pod wr echo a os st pod =
     (case st of (files, occupied) \<Rightarrow>
        (case chosen a os files occupied pod of
           None \<Rightarrow> (files, occupied)
         | Some (cgroupPaths, target) \<Rightarrow>
             (let occupied' = normalizeCpuset target # occupied in
              if needsCpusetUpdate files cgroupPaths target = Some True \<and> \<not> cf_DryRun (ag_cfg a)
              then (foldl (writeCpuset wr echo target) files cgroupPaths, occupied')
              else (files, occupied'))))"

definition reconcileOnce ::
  "(string \<Rightarrow> bool) \<Rightarrow> (string \<Rightarrow> string) \<Rightarrow> pcore_agent \<Rightarrow> cg_os \<Rightarrow> cpuset_files \<Rightarrow> cpuset_files" where
  "reconcileOnce wr echo a os files = fst (foldl (reconcile_pod wr echo a os) (files, []) (listPods a))"

interpretation pod_slice: slice_order pod_lt
proof unfold_locales
  fix x y z
  show "\<not> pod_lt x x" by (simp add: pod_lt_def)
  show "pod_lt x y \<Longrightarrow> pod_lt y z \<Longrightarrow> pod_lt x z"
    by (auto simp: pod_lt_def split: if_splits dest: str_less_trans str_less_asym)
  show "\<not> pod_lt x y \<Longrightarrow> \<not> pod_lt y z \<Longrightarrow> \<not> pod_lt x z"
    by (auto simp: pod_lt_def split: if_splits) (metis str_less_linear str_less_trans str_less_irrefl)+
qed


section \<open>The handlers keep the pods keyed\<close>

definition agent_ok :: "pcore_agent \<Rightarrow> bool" where
  "agent_ok a \<longleftrightarrow> wf_map (ag_pods a) \<and> (\<forall>e\<in>set (ag_pods a). pp_id (snd e) = fst e)"

lemma convertPod_id [simp]: "pp_id (convertPod s) = ns_Id s"
  by (simp add: convertPod_def Let_def split: option.splits prod.splits)

lemma update_keyed:
  "wf_map m \<Longrightarrow> \<forall>e\<in>set m. pp_id (snd e) = fst e \<Longrightarrow> pp_id v = k \<Longrightarrow> \<forall>e\<in>set (AList.update k v m). pp_id (snd e) = fst e"
  by (induction m) (auto simp: wf_map_def split: if_splits)

lemma fold_update_keyed:
  "wf_map m \<and> (\<forall>e\<in>set m. pp_id (snd e) = fst e) \<Longrightarrow>
   (let m' = foldl (\<lambda>m p. case p of None \<Rightarrow> m | Some s \<Rightarrow> AList.update (ns_Id s) (convertPod s) m) m pods
    in wf_map m' \<and> (\<forall>e\<in>set m'. pp_id (snd e) = fst e))"
proof (induction pods arbitrary: m)
  case (Cons p pods)
  show ?case
  proof (cases p)
    case None
    then show ?thesis using Cons.IH[OF Cons.prems] by simp
  next
    case (Some s)
    have "wf_map (AList.update (ns_Id s) (convertPod s) m) \<and> (\<forall>e\<in>set (AList.update (ns_Id s) (convertPod s) m). pp_id (snd e) = fst e)"
      using Cons.prems update_keyed[of m "convertPod s" "ns_Id s"] by simp
    from Cons.IH[OF this] Some show ?thesis by simp
  qed
qed (simp add: Let_def)

lemma delete_set_subset: "set (AList.delete k m) \<subseteq> set m"
  by (induction m) auto

lemma agent_ok_handlers [inv_intros]:
  "agent_ok a \<Longrightarrow> agent_ok (requestReconcile a)"
  "agent_ok (replacePods pods a)"
  "agent_ok a \<Longrightarrow> agent_ok (upsertPod pod a)"
  "agent_ok a \<Longrightarrow> agent_ok (removePod pod a)"
proof -
  show "agent_ok (replacePods pods a)"
    using fold_update_keyed[of "[]" pods] by (simp add: agent_ok_def replacePods_def Let_def)
  show "agent_ok a \<Longrightarrow> agent_ok (upsertPod pod a)"
    by (cases pod) (auto simp add: agent_ok_def upsertPod_def dest!: update_keyed[of "ag_pods a" "convertPod (the pod)" "ns_Id (the pod)", rotated])
  show "agent_ok a \<Longrightarrow> agent_ok (removePod pod a)"
    using delete_set_subset by (cases pod) (fastforce simp: agent_ok_def removePod_def)+
qed (simp add: agent_ok_def requestReconcile_def)

lemma listPods_distinct: "agent_ok a \<Longrightarrow> distinct (listPods a) \<and> set (listPods a) = snd ` set (ag_pods a)"
proof -
  assume a: "agent_ok a"
  then have "map pp_id (map snd (ag_pods a)) = map fst (ag_pods a)" by (auto simp: agent_ok_def)
  with a have "distinct (map snd (ag_pods a))" unfolding agent_ok_def wf_map_def by (metis distinct_map)
  then show ?thesis by (simp add: listPods_def)
qed

section \<open>One pod\<close>

definition pairs_ok :: "pcore_agent \<Rightarrow> bool" where
  "pairs_ok a \<longleftrightarrow> (\<forall>q\<in>set (ag_siblingPairs a). proper_pair q)"

lemma pair_String_nonempty [simp]: "pair_String p \<noteq> []"
  by (simp add: pair_String_def)

lemma targetCpuset_spec:
  assumes "pairs_ok a"
  shows "if targetCpuset a current occupied = [] then pair_String ` set (ag_siblingPairs a) \<subseteq> set occupied
     else \<exists>q\<in>set (ag_siblingPairs a). targetCpuset a current occupied = pair_String q \<and> pair_String q \<notin> set occupied"
proof -
  have n: "normalizeCpuset (pair_String q) = pair_String q" if "q \<in> set (ag_siblingPairs a)" for q
    using assms that by (simp add: pairs_ok_def normalize_pair)
  show ?thesis
    by (auto simp: targetCpuset_def Let_def n find_None_iff find_Some_iff dest!: nth_mem split: option.splits if_splits)
qed

lemma targetCpuset_keep:
  assumes "pairs_ok a" "q \<in> set (ag_siblingPairs a)" "pair_String q \<notin> set occupied" "normalizeCpuset current = pair_String q"
  shows "targetCpuset a current occupied = pair_String q"
proof -
  have n: "normalizeCpuset (pair_String p) = pair_String p" if "p \<in> set (ag_siblingPairs a)" for p
    using assms(1) that by (simp add: pairs_ok_def normalize_pair)
  obtain p where p: "find (\<lambda>p. normalizeCpuset current = normalizeCpuset (pair_String p)) (ag_siblingPairs a) = Some p"
    using assms(2,4) n by (cases "find (\<lambda>p. normalizeCpuset current = normalizeCpuset (pair_String p)) (ag_siblingPairs a)")
      (auto simp: find_None_iff)
  then have "p \<in> set (ag_siblingPairs a)" "normalizeCpuset current = normalizeCpuset (pair_String p)"
    by (auto simp: find_Some_iff)
  then have "pair_String p = pair_String q" using n assms(4) by simp
  then show ?thesis using p assms(3) n[OF assms(2)] by (simp add: targetCpuset_def Let_def)
qed

lemma chosen_target:
  assumes "chosen a os files occupied pod = Some (paths, t)" "pairs_ok a"
  shows "\<exists>q\<in>set (ag_siblingPairs a). t = pair_String q \<and> t \<notin> set occupied \<and> normalizeCpuset t = t"
  using assms targetCpuset_spec[OF assms(2)] normalize_pair
  by (fastforce simp: chosen_def Let_def pairs_ok_def split: if_splits sum.splits option.splits)

definition pod_files :: "pcore_agent \<Rightarrow> cg_os \<Rightarrow> pcore_pod \<Rightarrow> string set" where
  "pod_files a os pod =
     (case resolveCgroupPaths os (cf_CgroupRoot (ag_cfg a)) (pp_cgroupPath pod) (pp_id pod) of
        Inl _ \<Rightarrow> {} | Inr paths \<Rightarrow> cpuset_file ` set paths)"

lemma resolve_nonempty: "resolveCgroupPaths os r c i = Inr paths \<Longrightarrow> paths \<noteq> []"
  by (auto simp: resolveCgroupPaths_def split: sum.splits if_splits)

lemma chosen_paths:
  "chosen a os files occupied pod = Some (paths, t) \<Longrightarrow>
   resolveCgroupPaths os (cf_CgroupRoot (ag_cfg a)) (pp_cgroupPath pod) (pp_id pod) = Inr paths \<and> paths \<noteq> []
   \<and> pod_files a os pod = cpuset_file ` set paths"
  using resolve_nonempty by (fastforce simp: chosen_def pod_files_def Let_def split: if_splits sum.splits option.splits)

lemma readCpuset_cong: "F (cpuset_file p) = G (cpuset_file p) \<Longrightarrow> readCpuset F p = readCpuset G p"
  by (simp add: readCpuset_def)

lemma chosen_local:
  assumes "\<And>f. f \<in> pod_files a os pod \<Longrightarrow> F f = G f"
  shows "chosen a os F occupied pod = chosen a os G occupied pod"
proof (cases "resolveCgroupPaths os (cf_CgroupRoot (ag_cfg a)) (pp_cgroupPath pod) (pp_id pod)")
  case (Inr paths)
  then have "paths ! 0 \<in> set paths" using resolve_nonempty by (intro nth_mem) auto
  then have "readCpuset F (paths ! 0) = readCpuset G (paths ! 0)"
    using assms Inr by (intro readCpuset_cong) (simp add: pod_files_def)
  with Inr show ?thesis by (simp add: chosen_def)
qed (simp add: chosen_def)

lemma needs_local: "(\<And>p. p \<in> set paths \<Longrightarrow> F (cpuset_file p) = G (cpuset_file p)) \<Longrightarrow>
   needsCpusetUpdate F paths t = needsCpusetUpdate G paths t"
  by (induction paths) (simp_all add: readCpuset_cong[of F _ G] split: option.splits)

lemma write_all:
  "foldl (writeCpuset wr echo t) F paths f
     = (if f \<in> cpuset_file ` set paths \<and> wr f then Some (echo t) else F f)"
  by (induction paths arbitrary: F) (auto simp: writeCpuset_def)

lemma reconcile_pod_Some:
  "chosen a os F occ pod = Some (paths, t) \<Longrightarrow>
   reconcile_pod wr echo a os (F, occ) pod
     = (if needsCpusetUpdate F paths t = Some True \<and> \<not> cf_DryRun (ag_cfg a) then foldl (writeCpuset wr echo t) F paths else F,
        normalizeCpuset t # occ)"
  by (simp add: reconcile_pod_def Let_def)

lemma reconcile_pod_None: "chosen a os F occ pod = None \<Longrightarrow> reconcile_pod wr echo a os (F, occ) pod = (F, occ)"
  by (simp add: reconcile_pod_def)

lemma reconcile_pod_local:
  assumes "\<And>f. f \<in> pod_files a os pod \<Longrightarrow> F f = G f"
  shows "snd (reconcile_pod wr echo a os (F, occ) pod) = snd (reconcile_pod wr echo a os (G, occ) pod)"
    and "f \<in> pod_files a os pod \<Longrightarrow> fst (reconcile_pod wr echo a os (F, occ) pod) f = fst (reconcile_pod wr echo a os (G, occ) pod) f"
    and "f \<notin> pod_files a os pod \<Longrightarrow> fst (reconcile_pod wr echo a os (F, occ) pod) f = F f"
proof -
  note c = chosen_local[OF assms]
  have *: "snd (reconcile_pod wr echo a os (F, occ) pod) = snd (reconcile_pod wr echo a os (G, occ) pod)
     \<and> (f \<in> pod_files a os pod \<longrightarrow> fst (reconcile_pod wr echo a os (F, occ) pod) f = fst (reconcile_pod wr echo a os (G, occ) pod) f)
     \<and> (f \<notin> pod_files a os pod \<longrightarrow> fst (reconcile_pod wr echo a os (F, occ) pod) f = F f)"
  proof (cases "chosen a os G occ pod")
    case None
    then show ?thesis using reconcile_pod_None[OF None] reconcile_pod_None[of a os F occ pod] c assms by simp
  next
    case (Some r)
    obtain paths t where r: "r = (paths, t)" by fastforce
    note p = chosen_paths[OF Some[unfolded r]]
    have "needsCpusetUpdate F paths t = needsCpusetUpdate G paths t"
      using assms p by (intro needs_local) simp
    moreover have "chosen a os F occ pod = Some (paths, t)" using c[where occupied = occ] Some r by simp
    ultimately show ?thesis
      using reconcile_pod_Some[of a os F occ pod paths t wr echo] reconcile_pod_Some[OF Some[unfolded r], of wr echo] p assms
      by (simp add: write_all)
  qed
  then show "snd (reconcile_pod wr echo a os (F, occ) pod) = snd (reconcile_pod wr echo a os (G, occ) pod)"
    and "f \<in> pod_files a os pod \<Longrightarrow> fst (reconcile_pod wr echo a os (F, occ) pod) f = fst (reconcile_pod wr echo a os (G, occ) pod) f"
    and "f \<notin> pod_files a os pod \<Longrightarrow> fst (reconcile_pod wr echo a os (F, occ) pod) f = F f" by auto
qed

text \<open>What the kernel shows after a pair has been written denotes the same set.\<close>

definition echo_ok :: "(string \<Rightarrow> string) \<Rightarrow> pcore_agent \<Rightarrow> bool" where
  "echo_ok echo a \<longleftrightarrow> (\<forall>q\<in>set (ag_siblingPairs a). normalizeCpuset (echo (pair_String q)) = pair_String q)"

lemma normalize_trim [simp]: "normalizeCpuset (trim_space s) = normalizeCpuset s"
  by (simp add: normalizeCpuset_def parseCpuset_def split: option.split)

lemma reconcile_pod_again:
  assumes "pairs_ok a" "echo_ok echo a"
  shows "reconcile_pod wr echo a os (fst (reconcile_pod wr echo a os (F, occ) pod), occ) pod = reconcile_pod wr echo a os (F, occ) pod
     \<and> chosen a os (fst (reconcile_pod wr echo a os (F, occ) pod)) occ pod = chosen a os F occ pod"
proof (cases "chosen a os F occ pod")
  case None
  then show ?thesis by (simp add: reconcile_pod_def)
next
  case (Some r)
  obtain paths t where r: "r = (paths, t)" by fastforce
  note ch = Some[unfolded r]
  show ?thesis
  proof (cases "needsCpusetUpdate F paths t = Some True \<and> \<not> cf_DryRun (ag_cfg a)")
    case False
    then have "reconcile_pod wr echo a os (F, occ) pod = (F, normalizeCpuset t # occ)"
      by (simp only: reconcile_pod_Some[OF ch] if_False)
    then show ?thesis by simp
  next
    case True
    let ?G = "foldl (writeCpuset wr echo t) F paths"
    obtain q where q: "q \<in> set (ag_siblingPairs a)" "t = pair_String q" "t \<notin> set occ" "normalizeCpuset t = t"
      using chosen_target[OF ch assms(1)] by blast
    note p = chosen_paths[OF ch]
    from ch p obtain cur where cur: "readCpuset F (paths ! 0) = Some cur" "targetCpuset a cur occ = t" "t \<noteq> []"
      "match_pod a pod" "pp_cgroupPath pod \<noteq> []"
      by (auto simp: chosen_def Let_def split: if_splits option.splits)
    have "chosen a os ?G occ pod = Some (paths, t)"
    proof (cases "wr (cpuset_file (paths ! 0))")
      case True
      have "cpuset_file (paths ! 0) \<in> cpuset_file ` set paths" using p by simp
      then have "readCpuset ?G (paths ! 0) = Some (trim_space (echo t))" using True by (simp add: readCpuset_def write_all)
      moreover have "targetCpuset a (trim_space (echo t)) occ = t"
        unfolding q(2) using assms q by (intro targetCpuset_keep) (simp_all add: echo_ok_def)
      ultimately show ?thesis using p cur(3-5) by (simp add: chosen_def)
    next
      case False
      then have "readCpuset ?G (paths ! 0) = Some cur" using cur(1) by (simp add: readCpuset_def write_all)
      then show ?thesis using p cur by (simp add: chosen_def)
    qed
    moreover have "foldl (writeCpuset wr echo t) ?G paths = ?G" by (rule ext) (simp add: write_all)
    ultimately show ?thesis using reconcile_pod_Some[of a os ?G occ pod paths t wr echo] reconcile_pod_Some[OF ch, of wr echo] True ch
      by (simp cong: if_cong)
  qed
qed


section \<open>A pass\<close>

text \<open>The pods a pass serves, with their cgroups and pairs.\<close>

fun assigned ::
  "(string \<Rightarrow> bool) \<Rightarrow> (string \<Rightarrow> string) \<Rightarrow> pcore_agent \<Rightarrow> cg_os \<Rightarrow> cpuset_files \<times> string list
   \<Rightarrow> pcore_pod list \<Rightarrow> (pcore_pod \<times> string list \<times> string) list" where
  "assigned wr echo a os st [] = []"
| "assigned wr echo a os st (p # ps) =
     (case chosen a os (fst st) (snd st) p of None \<Rightarrow> [] | Some (paths, t) \<Rightarrow> [(p, paths, t)])
     @ assigned wr echo a os (reconcile_pod wr echo a os st p) ps"

definition pass_assignments ::
  "(string \<Rightarrow> bool) \<Rightarrow> (string \<Rightarrow> string) \<Rightarrow> pcore_agent \<Rightarrow> cg_os \<Rightarrow> cpuset_files \<Rightarrow> (pcore_pod \<times> string list \<times> string) list" where
  "pass_assignments wr echo a os files = assigned wr echo a os (files, []) (listPods a)"

definition separate_cgroups :: "pcore_agent \<Rightarrow> cg_os \<Rightarrow> bool" where
  "separate_cgroups a os \<longleftrightarrow>
     (\<forall>p\<in>set (listPods a). \<forall>q\<in>set (listPods a). p \<noteq> q \<longrightarrow> pod_files a os p \<inter> pod_files a os q = {})"

lemma fold_outside:
  assumes "\<forall>p\<in>set ps. f \<notin> pod_files a os p"
  shows "fst (foldl (reconcile_pod wr echo a os) st ps) f = fst st f"
  using assms
proof (induction ps arbitrary: st)
  case (Cons p ps)
  obtain F occ where st: "st = (F, occ)" by fastforce
  have "fst (reconcile_pod wr echo a os (F, occ) p) f = F f"
    using reconcile_pod_local(3)[of a os p F F f wr echo occ] Cons.prems by simp
  then show ?case using Cons st by simp
qed simp

lemma fold_again:
  assumes "pairs_ok a" "echo_ok echo a" "distinct ps"
    and "\<forall>p\<in>set ps. \<forall>q\<in>set ps. p \<noteq> q \<longrightarrow> pod_files a os p \<inter> pod_files a os q = {}"
  shows "foldl (reconcile_pod wr echo a os) (fst (foldl (reconcile_pod wr echo a os) (F, occ) ps), occ) ps
     = foldl (reconcile_pod wr echo a os) (F, occ) ps
     \<and> assigned wr echo a os (fst (foldl (reconcile_pod wr echo a os) (F, occ) ps), occ) ps = assigned wr echo a os (F, occ) ps"
  using assms(3,4)
proof (induction ps arbitrary: F occ)
  case (Cons p ps)
  let ?step = "reconcile_pod wr echo a os"
  obtain F1 o1 where s1: "?step (F, occ) p = (F1, o1)" by fastforce
  obtain Fn on where sn: "foldl ?step (F1, o1) ps = (Fn, on)" by fastforce
  have disj: "f \<notin> pod_files a os q" if "f \<in> pod_files a os p" "q \<in> set ps" for f q
    using Cons.prems that by fastforce
  have agree: "Fn f = F1 f" if "f \<in> pod_files a os p" for f
    using fold_outside[of ps f a os wr echo "(F1, o1)"] disj that sn by simp
  have again: "?step (F1, occ) p = (F1, o1)" using reconcile_pod_again[OF assms(1,2), of wr os F occ p] s1 by simp
  have ch: "chosen a os Fn occ p = chosen a os F occ p"
    using chosen_local[of a os p Fn F1 occ, OF agree] reconcile_pod_again[OF assms(1,2), of wr os F occ p] s1 by simp
  have "?step (Fn, occ) p = (Fn, o1)"
  proof (rule prod_eqI)
    show "snd (?step (Fn, occ) p) = snd (Fn, o1)"
      using reconcile_pod_local(1)[of a os p Fn F1 wr echo occ, OF agree] again by simp
    show "fst (?step (Fn, occ) p) = fst (Fn, o1)"
    proof
      fix f
      show "fst (?step (Fn, occ) p) f = fst (Fn, o1) f"
      proof (cases "f \<in> pod_files a os p")
        case True
        then show ?thesis using reconcile_pod_local(2)[of a os p Fn F1 f wr echo occ, OF agree] again agree by simp
      next
        case False
        then show ?thesis using reconcile_pod_local(3)[of a os p Fn Fn f wr echo occ] by simp
      qed
    qed
  qed
  moreover have "foldl ?step (Fn, o1) ps = (Fn, on)" "assigned wr echo a os (Fn, o1) ps = assigned wr echo a os (F1, o1) ps"
    using Cons.IH[of F1 o1] Cons.prems sn by simp_all
  ultimately show ?case using s1 sn ch by simp
qed simp

lemma assigned_spec:
  assumes "pairs_ok a"
  shows "distinct (map (snd \<circ> snd) (assigned wr echo a os (F, occ) ps))
     \<and> (\<forall>e\<in>set (assigned wr echo a os (F, occ) ps). fst e \<in> set ps \<and> snd (snd e) \<notin> set occ
          \<and> snd (snd e) \<in> pair_String ` set (ag_siblingPairs a) \<and> match_pod a (fst e))"
proof (induction ps arbitrary: F occ)
  case (Cons p ps)
  show ?case
  proof (cases "chosen a os F occ p")
    case None
    with Cons[of F occ] show ?thesis by (auto simp: reconcile_pod_None)
  next
    case (Some r)
    obtain paths t where r: "r = (paths, t)" by fastforce
    note ch = Some[unfolded r]
    have t: "t \<in> pair_String ` set (ag_siblingPairs a)" "t \<notin> set occ" "normalizeCpuset t = t"
      using chosen_target[OF ch assms] by auto
    have m: "match_pod a p" using ch by (simp add: chosen_def split: if_splits)
    obtain F' where s: "reconcile_pod wr echo a os (F, occ) p = (F', t # occ)"
      using reconcile_pod_Some[OF ch, of wr echo] t(3) by simp
    have eq: "assigned wr echo a os (F, occ) (p # ps) = (p, paths, t) # assigned wr echo a os (F', t # occ) ps"
      using ch s by simp
    from Cons[of F' "t # occ"] show ?thesis unfolding eq using t(1,2) m by auto
  qed
qed simp


lemma step_reads: "F f \<noteq> None \<Longrightarrow> fst (reconcile_pod wr echo a os (F, occ) pod) f \<noteq> None"
  by (cases "chosen a os F occ pod") (auto simp: reconcile_pod_None reconcile_pod_Some write_all)

lemma needs_False:
  "needsCpusetUpdate F paths t \<noteq> Some True \<Longrightarrow> \<forall>p\<in>set paths. F (cpuset_file p) \<noteq> None \<Longrightarrow> p \<in> set paths \<Longrightarrow>
   map_option normalizeCpuset (F (cpuset_file p)) = Some (normalizeCpuset t)"
  by (induction paths) (auto simp: readCpuset_def split: option.splits if_splits)

lemma step_effect:
  assumes "chosen a os F occ pod = Some (paths, t)" "pairs_ok a" "echo_ok echo a" "\<not> cf_DryRun (ag_cfg a)"
    and "\<forall>p\<in>set paths. wr (cpuset_file p) \<and> F (cpuset_file p) \<noteq> None" "p \<in> set paths"
  shows "map_option normalizeCpuset (fst (reconcile_pod wr echo a os (F, occ) pod) (cpuset_file p)) = Some t"
proof -
  obtain q where q: "q \<in> set (ag_siblingPairs a)" "t = pair_String q" "normalizeCpuset t = t"
    using chosen_target[OF assms(1,2)] by blast
  show ?thesis
  proof (cases "needsCpusetUpdate F paths t = Some True")
    case True
    then show ?thesis using assms(3-6) q by (simp add: reconcile_pod_Some[OF assms(1)] write_all echo_ok_def)
  next
    case False
    with needs_False[OF False _ assms(6)] assms(5) q(3) show ?thesis by (simp add: reconcile_pod_Some[OF assms(1)])
  qed
qed

definition servable :: "pcore_agent \<Rightarrow> cg_os \<Rightarrow> pcore_pod \<Rightarrow> bool" where
  "servable a os pod \<longleftrightarrow> match_pod a pod \<and> pp_cgroupPath pod \<noteq> [] \<and> pod_files a os pod \<noteq> {}"

lemma servable_chosen:
  assumes "servable a os pod" "\<forall>f\<in>pod_files a os pod. F f \<noteq> None" "chosen a os F occ pod = None" "pairs_ok a"
  shows "pair_String ` set (ag_siblingPairs a) \<subseteq> set occ"
proof -
  from assms(1) obtain paths where r: "resolveCgroupPaths os (cf_CgroupRoot (ag_cfg a)) (pp_cgroupPath pod) (pp_id pod) = Inr paths"
    by (auto simp: servable_def pod_files_def split: sum.splits)
  then have "cpuset_file (paths ! 0) \<in> pod_files a os pod" using resolve_nonempty[OF r] by (simp add: pod_files_def)
  then obtain cur where "readCpuset F (paths ! 0) = Some cur" using assms(2) by (auto simp: readCpuset_def)
  with r assms(1,3) have "targetCpuset a cur occ = []" by (auto simp: chosen_def servable_def Let_def split: if_splits)
  with targetCpuset_spec[OF assms(4), of cur occ] show ?thesis by simp
qed

lemma pass_spec:
  assumes "pairs_ok a" "echo_ok echo a" "\<not> cf_DryRun (ag_cfg a)" "distinct ps"
    and "\<forall>p\<in>set ps. \<forall>q\<in>set ps. p \<noteq> q \<longrightarrow> pod_files a os p \<inter> pod_files a os q = {}"
    and "\<forall>p\<in>set ps. \<forall>f\<in>pod_files a os p. wr f \<and> F f \<noteq> None"
  shows "(\<forall>(pod, paths, t)\<in>set (assigned wr echo a os (F, occ) ps). \<forall>p\<in>set paths.
           map_option normalizeCpuset (fst (foldl (reconcile_pod wr echo a os) (F, occ) ps) (cpuset_file p)) = Some t)
     \<and> (\<forall>pod\<in>set ps. servable a os pod \<longrightarrow> pod \<in> fst ` set (assigned wr echo a os (F, occ) ps)
          \<or> pair_String ` set (ag_siblingPairs a) \<subseteq> set occ \<union> (snd \<circ> snd) ` set (assigned wr echo a os (F, occ) ps))"
  using assms(4-6)
proof (induction ps arbitrary: F occ)
  case (Cons p ps)
  let ?step = "reconcile_pod wr echo a os"
  obtain F1 o1 where s1: "?step (F, occ) p = (F1, o1)" by fastforce
  have reads: "\<forall>p\<in>set ps. \<forall>f\<in>pod_files a os p. wr f \<and> F1 f \<noteq> None"
    using Cons.prems(3) step_reads[of F _ wr echo a os occ p] s1 by fastforce
  have IH: "(\<forall>(pod, paths, t)\<in>set (assigned wr echo a os (F1, o1) ps). \<forall>p\<in>set paths.
           map_option normalizeCpuset (fst (foldl ?step (F1, o1) ps) (cpuset_file p)) = Some t)
     \<and> (\<forall>pod\<in>set ps. servable a os pod \<longrightarrow> pod \<in> fst ` set (assigned wr echo a os (F1, o1) ps)
          \<or> pair_String ` set (ag_siblingPairs a) \<subseteq> set o1 \<union> (snd \<circ> snd) ` set (assigned wr echo a os (F1, o1) ps))"
    using Cons.IH[of F1 o1] Cons.prems reads by simp
  show ?case
  proof (cases "chosen a os F occ p")
    case None
    then have "F1 = F" "o1 = occ" using s1 by (simp_all add: reconcile_pod_None)
    moreover have "servable a os p \<longrightarrow> pair_String ` set (ag_siblingPairs a) \<subseteq> set occ"
      using servable_chosen[OF _ _ None assms(1)] Cons.prems(3) by simp
    ultimately show ?thesis using IH None s1 by auto
  next
    case (Some r)
    obtain paths t where r: "r = (paths, t)" by fastforce
    note ch = Some[unfolded r]
    have o1: "o1 = t # occ" using s1 reconcile_pod_Some[OF ch, of wr echo] chosen_target[OF ch assms(1)] by auto
    have eq: "assigned wr echo a os (F, occ) (p # ps) = (p, paths, t) # assigned wr echo a os (F1, o1) ps" using ch s1 by simp
    note pf = chosen_paths[OF ch]
    have "map_option normalizeCpuset (fst (foldl ?step (F1, o1) ps) (cpuset_file x)) = Some t" if x: "x \<in> set paths" for x
    proof -
      have "\<forall>q\<in>set ps. cpuset_file x \<notin> pod_files a os q" using Cons.prems(1,2) pf x by fastforce
      from fold_outside[OF this, of wr echo "(F1, o1)"]
      have "fst (foldl ?step (F1, o1) ps) (cpuset_file x) = F1 (cpuset_file x)" by simp
      moreover have "map_option normalizeCpuset (F1 (cpuset_file x)) = Some t"
        using step_effect[OF ch assms(1-3) _ x, of wr] Cons.prems(3) pf s1 by simp
      ultimately show ?thesis by simp
    qed
    then show ?thesis using IH unfolding eq o1 by (auto simp: s1 o1)
  qed
qed simp


text \<open>C15. Isolation: a reconciliation pass gives every pod it serves a whole physical core of its own. Each served pod
  matches the configured namespaces, runtime classes and CPU limit; it gets one of the sibling pairs; no two pods get
  the same; when reads and writes succeed every cpuset file of the pod shows that pair after the pass; and a matching
  pod with a cgroup is left out only when all pairs are taken.\<close>

theorem pcore_exclusive:
  assumes "agent_ok a" "pairs_ok a" "echo_ok echo a" "separate_cgroups a os" "\<not> cf_DryRun (ag_cfg a)"
    and "\<forall>p\<in>set (listPods a). \<forall>f\<in>pod_files a os p. wr f \<and> files f \<noteq> None"
  shows "let served = pass_assignments wr echo a os files; targets = map (snd \<circ> snd) served in
     distinct targets \<and> set targets \<subseteq> pair_String ` set (ag_siblingPairs a)
     \<and> (\<forall>(pod, paths, t)\<in>set served. pod \<in> snd ` set (ag_pods a) \<and> match_pod a pod
          \<and> (\<forall>p\<in>set paths. map_option normalizeCpuset (reconcileOnce wr echo a os files (cpuset_file p)) = Some t))
     \<and> (\<forall>pod\<in>snd ` set (ag_pods a). servable a os pod \<longrightarrow>
          pod \<in> fst ` set served \<or> set targets = pair_String ` set (ag_siblingPairs a))"
proof -
  let ?served = "pass_assignments wr echo a os files" and ?pairs = "pair_String ` set (ag_siblingPairs a)"
  let ?targets = "map (snd \<circ> snd) ?served"
  note d = listPods_distinct[OF assms(1)]
  note as = assigned_spec[OF assms(2), of wr echo os files "[]" "listPods a", folded pass_assignments_def]
  note ps = pass_spec[OF assms(2,3,5) conjunct1[OF d] assms(4)[unfolded separate_cgroups_def] assms(6), of "[]",
      folded pass_assignments_def reconcileOnce_def]
  have sub: "set ?targets \<subseteq> ?pairs" using as by auto
  have served: "fst e \<in> snd ` set (ag_pods a) \<and> match_pod a (fst e)" if "e \<in> set ?served" for e
    using as d that by blast
  have "(snd \<circ> snd) ` set ?served = set ?targets" by simp
  with ps sub have full: "pod \<in> fst ` set ?served \<or> set ?targets = ?pairs" if "pod \<in> snd ` set (ag_pods a)" "servable a os pod" for pod
    using that d by (metis (no_types, lifting) empty_set sup_bot_left subset_antisym)
  show ?thesis unfolding Let_def
  proof (intro conjI)
    show "distinct ?targets" using as by blast
    show "\<forall>(pod, paths, t)\<in>set ?served. pod \<in> snd ` set (ag_pods a) \<and> match_pod a pod
        \<and> (\<forall>p\<in>set paths. map_option normalizeCpuset (reconcileOnce wr echo a os files (cpuset_file p)) = Some t)"
      using conjunct1[OF ps] served by fastforce
  qed (use sub full in blast)+
qed

text \<open>Stability: a second pass over unchanged pods chooses the same pairs and changes no file, even when some
  reads or writes fail, as long as the pods' cgroups are separate and the kernel shows a written pair as the same set.\<close>

theorem pcore_stable:
  assumes "agent_ok a" "pairs_ok a" "echo_ok echo a" "separate_cgroups a os"
  shows "reconcileOnce wr echo a os (reconcileOnce wr echo a os files) = reconcileOnce wr echo a os files
     \<and> pass_assignments wr echo a os (reconcileOnce wr echo a os files) = pass_assignments wr echo a os files"
  using fold_again[OF assms(2,3) conjunct1[OF listPods_distinct[OF assms(1)]] assms(4)[unfolded separate_cgroups_def], of wr files "[]"]
  by (simp add: reconcileOnce_def pass_assignments_def)

section \<open>A running agent\<close>

definition demo_agent :: pcore_agent where
  "demo_agent =
     (let pod = (\<lambda>i n cg. \<lparr>ns_Id = i, ns_Name = n, ns_Namespace = ''default'', ns_RuntimeHandler = ''kata'',
                   ns_Linux = Some (cg, Some (Some (Some 200000, Some 100000)), None)\<rparr>)
      in upsertPod (Some (pod ''i1'' ''a'' ''/k/p1''))
          (upsertPod (Some (pod ''i2'' ''b'' ''/k/p2''))
            \<lparr>ag_cfg = \<lparr>cf_CgroupRoot = ''/c'', cf_Namespaces = [''default''], cf_RuntimeClasses = [''kata''], cf_DryRun = False\<rparr>,
             ag_siblingPairs = [\<lparr>CPU0 = 0, CPU1 = 1\<rparr>, \<lparr>CPU0 = 2, CPU1 = 3\<rparr>], ag_namespaces = [''default''],
             ag_runtimeClasses = [''kata''], ag_pods = [], ag_reconcileCh = False\<rparr>))"

definition demo_cg_os :: cg_os where
  "demo_cg_os = \<lparr>os_cwd = Some ''/'', os_evalSymlinks = Some,
     os_isRegular = (\<lambda>p. p = ''/c/k/p1/cpuset.cpus'' \<or> p = ''/c/k/p2/cpuset.cpus''), os_walkDirs = (\<lambda>_. [''/c'', ''/c/k'', ''/c/k/p1'', ''/c/k/p2''])\<rparr>"

definition demo_files :: cpuset_files where
  "demo_files = [''/c/k/p1/cpuset.cpus'' \<mapsto> ''0-7'', ''/c/k/p2/cpuset.cpus'' \<mapsto> ''0-1'']"

definition demo_pod :: "string \<Rightarrow> string \<Rightarrow> string \<Rightarrow> pcore_pod" where
  "demo_pod i n cg = \<lparr>pp_id = i, pp_name = n, pp_namespace = ''default'', pp_runtimeClass = ''kata'', pp_cgroupPath = cg,
     pp_cpuQuota = 200000, pp_cpuPeriod = 100000, pp_cpuLimitKnown = True\<rparr>"

lemma demo_pods: "listPods demo_agent = [demo_pod ''i1'' ''a'' ''/k/p1'', demo_pod ''i2'' ''b'' ''/k/p2'']"
  by code_simp

lemma demo_resolve:
  "resolveCgroupPaths demo_cg_os ''/c'' ''/k/p1'' ''i1'' = Inr [''/c/k/p1'']"
  "resolveCgroupPaths demo_cg_os ''/c'' ''/k/p2'' ''i2'' = Inr [''/c/k/p2'']"
  by code_simp+

lemma demo_pod_files:
  "pod_files demo_agent demo_cg_os (demo_pod ''i1'' ''a'' ''/k/p1'') = {''/c/k/p1/cpuset.cpus''}"
  "pod_files demo_agent demo_cg_os (demo_pod ''i2'' ''b'' ''/k/p2'') = {''/c/k/p2/cpuset.cpus''}"
proof -
  have "cf_CgroupRoot (ag_cfg demo_agent) = ''/c''" "cpuset_file ''/c/k/p1'' = ''/c/k/p1/cpuset.cpus''" "cpuset_file ''/c/k/p2'' = ''/c/k/p2/cpuset.cpus''"
    by code_simp+
  then show "pod_files demo_agent demo_cg_os (demo_pod ''i1'' ''a'' ''/k/p1'') = {''/c/k/p1/cpuset.cpus''}"
    "pod_files demo_agent demo_cg_os (demo_pod ''i2'' ''b'' ''/k/p2'') = {''/c/k/p2/cpuset.cpus''}"
    by (simp_all add: pod_files_def demo_pod_def demo_resolve)
qed

lemma demo_ready:
  "agent_ok demo_agent" "pairs_ok demo_agent" "echo_ok (\<lambda>s. s @ [CHR 0x0A]) demo_agent" "separate_cgroups demo_agent demo_cg_os"
  "\<not> cf_DryRun (ag_cfg demo_agent)"
  "\<forall>p\<in>set (listPods demo_agent). \<forall>f\<in>pod_files demo_agent demo_cg_os p. demo_files f \<noteq> None"
proof -
  show "agent_ok demo_agent" "pairs_ok demo_agent" "echo_ok (\<lambda>s. s @ [CHR 0x0A]) demo_agent" "\<not> cf_DryRun (ag_cfg demo_agent)"
    by code_simp+
  show "separate_cgroups demo_agent demo_cg_os" by (simp add: separate_cgroups_def demo_pods demo_pod_files)
  show "\<forall>p\<in>set (listPods demo_agent). \<forall>f\<in>pod_files demo_agent demo_cg_os p. demo_files f \<noteq> None"
    by (simp add: demo_pods demo_pod_files demo_files_def)
qed

theorem pcore_exclusive_witness:
  "map (snd \<circ> snd) (pass_assignments (\<lambda>_. True) (\<lambda>s. s @ [CHR 0x0A]) demo_agent demo_cg_os demo_files) = [''0,1'', ''2,3'']
   \<and> distinct (map (snd \<circ> snd) (pass_assignments (\<lambda>_. True) (\<lambda>s. s @ [CHR 0x0A]) demo_agent demo_cg_os demo_files))"
proof
  show "map (snd \<circ> snd) (pass_assignments (\<lambda>_. True) (\<lambda>s. s @ [CHR 0x0A]) demo_agent demo_cg_os demo_files) = [''0,1'', ''2,3'']"
    by code_simp
  show "distinct (map (snd \<circ> snd) (pass_assignments (\<lambda>_. True) (\<lambda>s. s @ [CHR 0x0A]) demo_agent demo_cg_os demo_files))"
    using pcore_exclusive[OF demo_ready(1-5), of "\<lambda>_. True" demo_files] demo_ready(6) by (simp add: Let_def)
qed

theorem pcore_stable_witness:
  "let files = reconcileOnce (\<lambda>_. True) (\<lambda>s. s @ [CHR 0x0A]) demo_agent demo_cg_os demo_files in
   files ''/c/k/p2/cpuset.cpus'' = Some (''2,3'' @ [CHR 0x0A])
   \<and> reconcileOnce (\<lambda>_. True) (\<lambda>s. s @ [CHR 0x0A]) demo_agent demo_cg_os files = files"
proof -
  have "reconcileOnce (\<lambda>_. True) (\<lambda>s. s @ [CHR 0x0A]) demo_agent demo_cg_os demo_files ''/c/k/p2/cpuset.cpus'' = Some (''2,3'' @ [CHR 0x0A])"
    by code_simp
  then show ?thesis using pcore_stable[OF demo_ready(1-4), of "\<lambda>_. True" demo_files] by (simp add: Let_def)
qed

end
