(* ===== verification/PCoreEvents.thy ===== *)
theory PCoreEvents
  imports PCoreAgent
begin

text \<open>
  The event loop of the physical-core binding (\<open>Run\<close> and the handlers of the runtime's events in
  \<^verbatim>\<open>pkg/kunpeng-tap-pcore-binding/plugin/agent.go\<close>) and the discovery of the cpuset mount. The handlers run in
  the goroutine of the runtime stub, the reconciliation in the one of \<open>Run\<close>: a step of the system is one
  critical section or one channel operation of either, so a handler changes the pods in one step and asks for a
  reconciliation in a later one.
\<close>

section \<open>The handlers\<close>

definition pcore_Synchronize :: "nri_sandbox option list \<Rightarrow> pcore_agent \<Rightarrow> pcore_agent" where
  "pcore_Synchronize pods a = requestReconcile (replacePods pods a)"

definition pcore_RunPodSandbox :: "nri_sandbox option \<Rightarrow> pcore_agent \<Rightarrow> pcore_agent" where
  "pcore_RunPodSandbox pod a = requestReconcile (upsertPod pod a)"

definition pcore_StopPodSandbox :: "nri_sandbox option \<Rightarrow> pcore_agent \<Rightarrow> pcore_agent" where
  "pcore_StopPodSandbox pod a = requestReconcile (removePod pod a)"

definition pcore_RemovePodSandbox :: "nri_sandbox option \<Rightarrow> pcore_agent \<Rightarrow> pcore_agent" where
  "pcore_RemovePodSandbox pod a = requestReconcile (removePod pod a)"

section \<open>Interleaving\<close>

datatype pcore_event =
    Synchronize "nri_sandbox option list"
  | RunPodSandbox "nri_sandbox option"
  | StopPodSandbox "nri_sandbox option"
  | RemovePodSandbox "nri_sandbox option"

text \<open>The first half of a handler, before its call of \<open>requestReconcile\<close>.\<close>

fun event_change :: "pcore_event \<Rightarrow> pcore_agent \<Rightarrow> pcore_agent" where
  "event_change (Synchronize pods) a = replacePods pods a"
| "event_change (RunPodSandbox pod) a = upsertPod pod a"
| "event_change (StopPodSandbox pod) a = removePod pod a"
| "event_change (RemovePodSandbox pod) a = removePod pod a"

text \<open>
  \<open>sy_calls\<close> counts the calls of \<open>requestReconcile\<close> that are still to come, \<open>sy_running\<close> says that a
  reconciliation has begun and not yet listed the pods, \<open>sy_seen\<close> are the pods the last listing has seen.
\<close>

record pcore_sys =
  sy_agent :: pcore_agent
  sy_calls :: nat
  sy_running :: bool
  sy_seen :: "(string, pcore_pod) gomap option"

text \<open>\<open>Run\<close> starts with a call of its own.\<close>

definition sys_start :: "pcore_agent \<Rightarrow> pcore_sys" where
  "sys_start a = \<lparr>sy_agent = a, sy_calls = 1, sy_running = False, sy_seen = None\<rparr>"

inductive pcore_step :: "pcore_sys \<Rightarrow> pcore_sys \<Rightarrow> bool" where
  Change: "pcore_step s (s\<lparr>sy_agent := event_change e (sy_agent s), sy_calls := sy_calls s + 1\<rparr>)"
| Call: "0 < sy_calls s \<Longrightarrow> pcore_step s (s\<lparr>sy_agent := requestReconcile (sy_agent s), sy_calls := sy_calls s - 1\<rparr>)"
| Receive: "ag_reconcileCh (sy_agent s) \<Longrightarrow> \<not> sy_running s \<Longrightarrow>
    pcore_step s (s\<lparr>sy_agent := (sy_agent s)\<lparr>ag_reconcileCh := False\<rparr>, sy_running := True\<rparr>)"
| Tick: "\<not> sy_running s \<Longrightarrow> pcore_step s (s\<lparr>sy_running := True\<rparr>)"
| Listing: "sy_running s \<Longrightarrow> pcore_step s (s\<lparr>sy_running := False, sy_seen := Some (ag_pods (sy_agent s))\<rparr>)"

inductive_cases pcore_stepE: "pcore_step s s'"

inductive pcore_reach :: "pcore_agent \<Rightarrow> pcore_sys \<Rightarrow> bool" for a where
  Start: "pcore_reach a (sys_start a)"
| Step: "pcore_reach a s \<Longrightarrow> pcore_step s s' \<Longrightarrow> pcore_reach a s'"

definition sys_current :: "pcore_sys \<Rightarrow> bool" where
  "sys_current s \<longleftrightarrow> sy_calls s > 0 \<or> ag_reconcileCh (sy_agent s) \<or> sy_running s \<or> sy_seen s = Some (ag_pods (sy_agent s))"

lemma handler_pods [simp]:
  "ag_pods (requestReconcile a) = ag_pods a" "ag_reconcileCh (requestReconcile a)"
  "ag_siblingPairs (requestReconcile a) = ag_siblingPairs a" "ag_siblingPairs (event_change e a) = ag_siblingPairs a"
  by (cases e; simp add: requestReconcile_def replacePods_def upsertPod_def removePod_def split: option.split)+

lemma agent_ok_event: "agent_ok a \<Longrightarrow> agent_ok (event_change e a)"
  by (cases e) (simp_all add: agent_ok_handlers)

text \<open>C17. No pod event is lost: although requests to a full channel are dropped and the handlers run concurrently
  with the reconciliation, in every reachable state in which no handler is between its change and its request, no
  request is queued and no reconciliation is about to list the pods, the last reconciliation has seen exactly the
  pods the agent knows; and the pods are always stored under their own IDs.\<close>

theorem pcore_no_lost_event:
  assumes "pcore_reach a s" "agent_ok a"
  shows "agent_ok (sy_agent s)
     \<and> (sy_calls s = 0 \<and> \<not> ag_reconcileCh (sy_agent s) \<and> \<not> sy_running s \<longrightarrow> sy_seen s = Some (ag_pods (sy_agent s)))"
proof -
  from assms have "agent_ok (sy_agent s) \<and> sys_current s"
  proof (induction rule: pcore_reach.induct)
    case Start
    then show ?case by (simp add: sys_start_def sys_current_def)
  next
    case (Step s s')
    from Step.hyps(2) Step.IH[OF Step.prems] show ?case
      by (cases rule: pcore_stepE) (auto simp: sys_current_def agent_ok_event intro: agent_ok_handlers simp del: handler_pods(2), simp_all add: agent_ok_def)
  qed
  then show ?thesis by (auto simp: sys_current_def)
qed

text \<open>A pod arrives while the first reconciliation is under way; the agent ends up having seen it.\<close>

definition demo_sandbox :: nri_sandbox where
  "demo_sandbox = \<lparr>ns_Id = ''i3'', ns_Name = ''c'', ns_Namespace = ''default'', ns_RuntimeHandler = ''kata'', ns_Linux = None\<rparr>"

theorem pcore_no_lost_event_witness:
  "\<exists>s. pcore_reach demo_agent s \<and> length (ag_pods (sy_agent s)) = 3 \<and> sy_seen s = Some (ag_pods (sy_agent s))"
proof -
  let ?a = "demo_agent" and ?e = "RunPodSandbox (Some demo_sandbox)"
  let ?s1 = "(sys_start ?a)\<lparr>sy_agent := requestReconcile ?a, sy_calls := 0\<rparr>"
  let ?s2 = "?s1\<lparr>sy_agent := (sy_agent ?s1)\<lparr>ag_reconcileCh := False\<rparr>, sy_running := True\<rparr>"
  let ?s3 = "?s2\<lparr>sy_running := False, sy_seen := Some (ag_pods (sy_agent ?s2))\<rparr>"
  let ?s4 = "?s3\<lparr>sy_agent := event_change ?e (sy_agent ?s3), sy_calls := 1\<rparr>"
  let ?s5 = "?s4\<lparr>sy_agent := requestReconcile (sy_agent ?s4), sy_calls := 0\<rparr>"
  let ?s6 = "?s5\<lparr>sy_agent := (sy_agent ?s5)\<lparr>ag_reconcileCh := False\<rparr>, sy_running := True\<rparr>"
  let ?s7 = "?s6\<lparr>sy_running := False, sy_seen := Some (ag_pods (sy_agent ?s6))\<rparr>"
  have "pcore_step (sys_start ?a) ?s1" using Call[of "sys_start ?a"] by (simp add: sys_start_def)
  note r1 = Step[OF Start this]
  have "pcore_step ?s1 ?s2" using Receive[of ?s1] by (simp add: sys_start_def)
  note r2 = Step[OF r1 this]
  have "pcore_step ?s2 ?s3" using Listing[of ?s2] by simp
  note r3 = Step[OF r2 this]
  have "pcore_step ?s3 ?s4" using Change[of ?s3 ?e] by simp
  note r4 = Step[OF r3 this]
  have "pcore_step ?s4 ?s5" using Call[of ?s4] by simp
  note r5 = Step[OF r4 this]
  have "pcore_step ?s5 ?s6" using Receive[of ?s5] by (simp add: sys_start_def)
  note r6 = Step[OF r5 this]
  have "pcore_step ?s6 ?s7" using Listing[of ?s6] by simp
  note r = Step[OF r6 this]
  have "length (ag_pods (event_change ?e ?a)) = 3" by code_simp
  moreover have "ag_pods (event_change ?e ((requestReconcile ?a)\<lparr>ag_reconcileCh := False\<rparr>)) = ag_pods (event_change ?e ?a)"
    by (simp add: upsertPod_def requestReconcile_def)
  ultimately have "length (ag_pods (sy_agent ?s7)) = 3" by simp
  moreover have "sy_seen ?s7 = Some (ag_pods (sy_agent ?s7))"
    using pcore_no_lost_event[OF r demo_ready(1)] by simp
  ultimately show ?thesis using r by blast
qed


section \<open>The cpuset mount\<close>

text \<open>\<open>strings.NewReplacer\<close> with the four escapes, which start with a backslash and exclude each other.\<close>

fun unescapeMountPath :: "string \<Rightarrow> string" where
  "unescapeMountPath [] = []"
| "unescapeMountPath (c # cs) =
     (if c \<noteq> CHR 0x5C then c # unescapeMountPath cs
      else if take 1 cs = [CHR 0x5C] then CHR 0x5C # unescapeMountPath (drop 1 cs)
      else if take 3 cs = ''040'' then CHR '' '' # unescapeMountPath (drop 3 cs)
      else if take 3 cs = ''011'' then CHR 0x09 # unescapeMountPath (drop 3 cs)
      else if take 3 cs = ''012'' then CHR 0x0A # unescapeMountPath (drop 3 cs)
      else c # unescapeMountPath cs)"

definition hasMountOption :: "string \<Rightarrow> string \<Rightarrow> bool" where
  "hasMountOption options target \<longleftrightarrow> target \<in> set (go_split '','' options)"

text \<open>\<open>controllers\<close> reads the file \<^verbatim>\<open>cgroup.controllers\<close> of a directory.\<close>

definition hasCgroup2Controller :: "(string \<Rightarrow> string option) \<Rightarrow> string \<Rightarrow> string \<Rightarrow> bool" where
  "hasCgroup2Controller controllers rt controller \<longleftrightarrow>
     (case controllers rt of None \<Rightarrow> False | Some data \<Rightarrow> controller \<in> set (go_fields data))"

definition parseCpusetMount :: "(string \<Rightarrow> string option) \<Rightarrow> string \<Rightarrow> string option" where
  "parseCpusetMount controllers line =
     (if trim_space line = [] then None
      else (let parts = go_split '' - '' line in
            if length parts \<noteq> 2 then None
            else (let left = go_fields (parts ! 0); right = go_fields (parts ! 1) in
                  if length left < 5 \<or> length right < 3 then None
                  else (let mountPoint = unescapeMountPath (left ! 4); fsType = right ! 0; superOptions = right ! 2 in
                        if fsType = ''cgroup''
                        then (if hasMountOption superOptions ''cpuset'' then Some mountPoint else None)
                        else if fsType = ''cgroup2'' \<and> hasCgroup2Controller controllers mountPoint ''cpuset'' then Some mountPoint
                        else None))))"

definition DiscoverCpusetRoot :: "(string \<Rightarrow> string option) \<Rightarrow> string option \<Rightarrow> string result" where
  "DiscoverCpusetRoot controllers mountinfo =
     (case mountinfo of
        None \<Rightarrow> Inl (Err ''read mountinfo'')
      | Some data \<Rightarrow>
          (case List.map_filter (parseCpusetMount controllers) (go_split [CHR 0x0A] data) of
             [] \<Rightarrow> Inl (Err ''cpuset cgroup mount not found'')
           | r # _ \<Rightarrow> Inr r))"

text \<open>The kernel's escapes for blanks are undone; it writes a backslash as \<open>134\<close> in octal, which is not.\<close>

fun mangle :: "string \<Rightarrow> string" where
  "mangle [] = []"
| "mangle (c # cs) =
     (if c = CHR '' '' then CHR 0x5C # ''040'' else if c = CHR 0x09 then CHR 0x5C # ''011''
      else if c = CHR 0x0A then CHR 0x5C # ''012'' else if c = CHR 0x5C then CHR 0x5C # ''134'' else [c]) @ mangle cs"

lemma unescape_mangle: "CHR 0x5C \<notin> set p \<Longrightarrow> unescapeMountPath (mangle p) = p"
  by (induction p) auto

lemma unescape_backslash: "unescapeMountPath (mangle [CHR 0x5C]) = CHR 0x5C # ''134''"
  by code_simp

end
