(* ===== verification/QosResctrl.thy ===== *)
theory QosResctrl
  imports GoPath
begin

text \<open>
  Resctrl groups of the QoS controller: the policy type (\<^verbatim>\<open>api/kunpeng-qos-controller/v1alpha1\<close>), the reading of
  the \<^verbatim>\<open>schemata\<close> file (\<^verbatim>\<open>pkg/kunpeng-qos-controller/util/mpam_topology.go\<close>) and the group manager
  (\<^verbatim>\<open>controller/resctrl_group_manager.go\<close>). The file system below the resctrl root is a state: the directories and
  the lines each \<^verbatim>\<open>schemata\<close> file has been given since its group was made. Which system calls succeed is an argument.
\<close>

section \<open>The policy\<close>

record mb_policy =
  mb_HDL :: int
  mb_PRI :: int
  mb_MIN :: int
  mb_MAX :: int

record l3_policy =
  l3_PRI :: int
  l3_MIN :: int
  l3_MAX :: int
  l3_Ways :: int

record qos_spec =
  sp_MB :: mb_policy
  sp_L3 :: l3_policy
  sp_NodeSelector :: "(string, string) gomap option"
  sp_QoSLevel :: int

record resctrl_config =
  rc_MBHDL :: int
  rc_MBPRI :: int
  rc_L3PRI :: int
  rc_MBMIN :: int
  rc_L3MIN :: int
  rc_L3MAX :: int
  rc_MB :: int
  rc_L3 :: int

definition translateQoSPolicySpec :: "qos_spec \<Rightarrow> resctrl_config" where
  "translateQoSPolicySpec spec =
     \<lparr>rc_MBHDL = mb_HDL (sp_MB spec), rc_MBPRI = mb_PRI (sp_MB spec), rc_L3PRI = l3_PRI (sp_L3 spec),
      rc_MBMIN = mb_MIN (sp_MB spec), rc_L3MIN = l3_MIN (sp_L3 spec), rc_L3MAX = l3_MAX (sp_L3 spec),
      rc_MB = mb_MAX (sp_MB spec), rc_L3 = l3_Ways (sp_L3 spec)\<rparr>"

text \<open>The selector of \<open>labels.SelectorFromSet\<close> asks for every entry.\<close>

definition MatchNodeSelector :: "(string, string) gomap \<Rightarrow> (string, string) gomap option \<Rightarrow> bool" where
  "MatchNodeSelector nodeLabels selector \<longleftrightarrow>
     (case selector of
        None \<Rightarrow> True
      | Some sel \<Rightarrow> sel = [] \<or> list_all (\<lambda>(k, v). map_of nodeLabels k = Some v) sel)"

section \<open>Reading schemata\<close>

fun schemata_ids :: "string list \<Rightarrow> int list result" where
  "schemata_ids [] = Inr []"
| "schemata_ids (raw # rest) =
     (let part = trim_space raw in
      if part = [] then schemata_ids rest
      else (let kv = go_splitn2 ''='' part in
            if length kv \<noteq> 2 then Inl (Err ''invalid schemata assignment'')
            else (case atoi (trim_space (kv ! 0)) of
                    None \<Rightarrow> Inl (Err ''invalid id'')
                  | Some i \<Rightarrow> (case schemata_ids rest of Inl e \<Rightarrow> Inl e | Inr ids \<Rightarrow> Inr (i # ids)))))"

fun schemata_line :: "string list \<Rightarrow> string \<Rightarrow> int list result" where
  "schemata_line [] item = Inl (Err ''line not found in schemata'')"
| "schemata_line (raw # rest) item =
     (let line = trim_space raw in
      if line = [] \<or> \<not> has_prefix line (item @ '':'') then schemata_line rest item
      else (case schemata_ids (go_split '';'' (trim_prefix line (item @ '':''))) of
              Inl e \<Rightarrow> Inl e
            | Inr ids \<Rightarrow> if ids = [] then Inl (Err ''no ids found'') else Inr (sort_ints ids)))"

definition parseSchemataIDs :: "string \<Rightarrow> string \<Rightarrow> int list result" where
  "parseSchemataIDs content item = schemata_line (go_split [CHR 0x0A] content) item"

fun schemata_keys :: "string list \<Rightarrow> string list \<Rightarrow> string list" where
  "schemata_keys [] keys = keys"
| "schemata_keys (raw # rest) keys =
     (case go_cut '':'' (trim_space raw) of
        None \<Rightarrow> schemata_keys rest keys
      | Some (k, _) \<Rightarrow>
          (let key = trim_space k in
           if trim_space raw = [] \<or> key = [] \<or> key \<in> set keys then schemata_keys rest keys
           else schemata_keys rest (keys @ [key])))"

definition parseSchemataKeys :: "string \<Rightarrow> string list result" where
  "parseSchemataKeys content =
     (let keys = schemata_keys (go_split [CHR 0x0A] content) []
      in if keys = [] then Inl (Err ''no schemata keys found'') else Inr keys)"

section \<open>Writing schemata\<close>

definition hex_char :: "int \<Rightarrow> char" where
  "hex_char d = ''0123456789abcdef'' ! nat d"

function hex_of :: "int \<Rightarrow> string" where
  "hex_of n = (if n < 16 then [hex_char (max 0 n)] else hex_of (n div 16) @ [hex_char (n mod 16)])"
  by pat_completeness auto
termination
  by (relation "measure nat") auto

declare hex_of.simps [simp del]

definition waysToHexMask :: "int \<Rightarrow> string result" where
  "waysToHexMask ways =
     (if ways < 1 then Inl (Err ''invalid l3 ways'') else Inr (to_lower (hex_of (2 ^ nat ways - 1))))"

definition buildIDAssignment :: "int list \<Rightarrow> string \<Rightarrow> string result" where
  "buildIDAssignment ids v =
     (if ids = [] then Inl (Err ''ids must not be empty'')
      else Inr (go_join '';'' (map (\<lambda>i. itoa i @ ''='' @ v) ids)))"

text \<open>The eight assignments in the order in which the code builds them; the first error is returned.\<close>

fun all_ok :: "(string \<times> string result) list \<Rightarrow> string list result" where
  "all_ok [] = Inr []"
| "all_ok ((key, r) # rs) =
     (case r of Inl e \<Rightarrow> Inl e | Inr a \<Rightarrow> (case all_ok rs of Inl e \<Rightarrow> Inl e | Inr xs \<Rightarrow> Inr ((key @ '':'' @ a) # xs)))"

definition buildSchemataItems :: "resctrl_config \<Rightarrow> int list \<Rightarrow> int list \<Rightarrow> string list option \<Rightarrow> string list result" where
  "buildSchemataItems cfg numaIDs cacheIDs supported =
     (let mb = (\<lambda>v. buildIDAssignment numaIDs (itoa v)); l3 = (\<lambda>v. buildIDAssignment cacheIDs (itoa v));
          mbs = all_ok [(''MBHDL'', mb (rc_MBHDL cfg)), (''MBPRI'', mb (rc_MBPRI cfg)), (''MBMIN'', mb (rc_MBMIN cfg)), (''MB'', mb (rc_MB cfg))]
      in case mbs of
           Inl e \<Rightarrow> Inl e
         | Inr m \<Rightarrow>
             (case waysToHexMask (rc_L3 cfg) of
                Inl e \<Rightarrow> Inl e
              | Inr l3Mask \<Rightarrow>
                  (case all_ok [(''L3PRI'', l3 (rc_L3PRI cfg)), (''L3MIN'', l3 (rc_L3MIN cfg)), (''L3MAX'', l3 (rc_L3MAX cfg)),
                                (''L3'', buildIDAssignment cacheIDs l3Mask)] of
                     Inl e \<Rightarrow> Inl e
                   | Inr l \<Rightarrow>
                       (let allItems = [m ! 0, m ! 1, l ! 0, m ! 2, l ! 1, l ! 2, m ! 3, l ! 3] in
                        case supported of
                          None \<Rightarrow> Inr allItems
                        | Some keys \<Rightarrow> Inr (filter (\<lambda>item. case go_cut '':'' item of None \<Rightarrow> False | Some (k, _) \<Rightarrow> k \<in> set keys) allItems)))))"

definition makeSchemataKeySet :: "string list \<Rightarrow> string list" where
  "makeSchemataKeySet keys = filter (\<lambda>k. k \<noteq> []) (map trim_space keys)"

section \<open>The group manager\<close>

record resctrl_fs =
  rf_dirs :: "string list"
  rf_written :: "(string, string list) gomap"

text \<open>Which directories can be made or removed and which lines the kernel accepts.\<close>

record resctrl_os =
  ro_mkdir :: "string \<Rightarrow> bool"
  ro_remove :: "string \<Rightarrow> bool"
  ro_write :: "string \<Rightarrow> string \<Rightarrow> bool"

record local_manager =
  lm_RootDir :: string
  lm_NumaIDs :: "int list"
  lm_CacheIDs :: "int list"
  lm_SupportedSchemataKeys :: "string list"

definition NewLocalResctrlGroupManager :: "string option \<Rightarrow> local_manager result" where
  "NewLocalResctrlGroupManager schemata =
     (case schemata of
        None \<Rightarrow> Inl (Err ''discover resctrl NUMA IDs'')
      | Some content \<Rightarrow>
          (case parseSchemataIDs content ''MB'' of
             Inl e \<Rightarrow> Inl e
           | Inr numaIDs \<Rightarrow>
               (case parseSchemataIDs content ''L3'' of
                  Inl e \<Rightarrow> Inl e
                | Inr cacheIDs \<Rightarrow>
                    (case parseSchemataKeys content of
                       Inl e \<Rightarrow> Inl e
                     | Inr keys \<Rightarrow> Inr \<lparr>lm_RootDir = [], lm_NumaIDs = numaIDs, lm_CacheIDs = cacheIDs, lm_SupportedSchemataKeys = keys\<rparr>))))"

definition rootDir :: "local_manager \<Rightarrow> string" where
  "rootDir m = (if lm_RootDir m \<noteq> [] then lm_RootDir m else ''/sys/fs/resctrl'')"

definition groupDir :: "local_manager \<Rightarrow> string \<Rightarrow> string" where
  "groupDir m groupName = path_join [rootDir m, groupName]"

definition supportedSchemataKeySet :: "local_manager \<Rightarrow> string list option" where
  "supportedSchemataKeySet m =
     (if lm_SupportedSchemataKeys m \<noteq> [] then Some (makeSchemataKeySet (lm_SupportedSchemataKeys m)) else None)"

definition local_EnsureGroup :: "resctrl_os \<Rightarrow> local_manager \<Rightarrow> string \<Rightarrow> resctrl_fs \<Rightarrow> resctrl_fs \<times> unit result" where
  "local_EnsureGroup os m groupName fs =
     (let groupPath = groupDir m groupName in
      if groupPath \<in> set (rf_dirs fs) then (fs, Inr ())
      else if \<not> ro_mkdir os groupPath then (fs, Inl (Err ''mkdir''))
      else (fs\<lparr>rf_dirs := groupPath # rf_dirs fs\<rparr>, Inr ()))"

definition writeSchemataItem :: "resctrl_os \<Rightarrow> string \<Rightarrow> string \<Rightarrow> resctrl_fs \<Rightarrow> resctrl_fs \<times> unit result" where
  "writeSchemataItem os path item fs =
     (if \<not> ro_write os path item then (fs, Inl (Err ''write''))
      else (fs\<lparr>rf_written := AList.update path
               ((case map_of (rf_written fs) path of None \<Rightarrow> [] | Some xs \<Rightarrow> xs) @ [item @ [CHR 0x0A]]) (rf_written fs)\<rparr>, Inr ()))"

fun write_items :: "resctrl_os \<Rightarrow> string \<Rightarrow> string list \<Rightarrow> resctrl_fs \<Rightarrow> resctrl_fs \<times> unit result" where
  "write_items os path [] fs = (fs, Inr ())"
| "write_items os path (item # items) fs =
     (case writeSchemataItem os path item fs of
        (fs', Inl e) \<Rightarrow> (fs', Inl e)
      | (fs', Inr _) \<Rightarrow> write_items os path items fs')"

definition schemataPath :: "local_manager \<Rightarrow> string \<Rightarrow> string" where
  "schemataPath m groupName = path_join [groupDir m groupName, ''schemata'']"

definition local_ApplyConfig :: "resctrl_os \<Rightarrow> local_manager \<Rightarrow> string \<Rightarrow> resctrl_config \<Rightarrow> resctrl_fs \<Rightarrow> resctrl_fs \<times> unit result" where
  "local_ApplyConfig os m groupName cfg fs =
     (case local_EnsureGroup os m groupName fs of
        (fs', Inl e) \<Rightarrow> (fs', Inl e)
      | (fs', Inr _) \<Rightarrow>
          (case buildSchemataItems cfg (lm_NumaIDs m) (lm_CacheIDs m) (supportedSchemataKeySet m) of
             Inl e \<Rightarrow> (fs', Inl e)
           | Inr items \<Rightarrow> write_items os (schemataPath m groupName) items fs'))"

text \<open>With its directory the kernel drops the group's \<^verbatim>\<open>schemata\<close>.\<close>

definition local_DeleteGroup :: "resctrl_os \<Rightarrow> local_manager \<Rightarrow> string \<Rightarrow> resctrl_fs \<Rightarrow> resctrl_fs \<times> unit result" where
  "local_DeleteGroup os m groupName fs =
     (let groupPath = groupDir m groupName in
      if groupPath \<notin> set (rf_dirs fs) then (fs, Inr ())
      else if \<not> ro_remove os groupPath then (fs, Inl (Err ''remove''))
      else (fs\<lparr>rf_dirs := filter (\<lambda>d. d \<noteq> groupPath) (rf_dirs fs),
               rf_written := AList.delete (schemataPath m groupName) (rf_written fs)\<rparr>, Inr ()))"


section \<open>What is written is read back\<close>

definition hex_val :: "char \<Rightarrow> int" where
  "hex_val c = (let n = int (of_char c) in if n < 58 then n - 48 else n - 87)"

definition hex_value :: "string \<Rightarrow> int" where
  "hex_value s = foldl (\<lambda>a c. 16 * a + hex_val c) 0 s"

lemma hex_char_facts:
  assumes "0 \<le> d" "d < 16"
  shows "hex_val (to_lower_char (hex_char d)) = d \<and> \<not> is_space (to_lower_char (hex_char d)) \<and> to_lower_char (hex_char d) \<noteq> CHR '';''
    \<and> to_lower_char (hex_char d) \<noteq> CHR ''=''"
proof -
  have "d \<in> {0, 1, 2, 3, 4, 5, 6, 7, 8, 9, 10, 11, 12, 13, 14, 15}" using assms by (simp, presburger)
  then show ?thesis by (elim insertE emptyE; hypsubst; code_simp)
qed

lemma hex_value_append: "hex_value (s @ [c]) = 16 * hex_value s + hex_val c"
  by (simp add: hex_value_def)

lemma to_lower_append: "to_lower (a @ b) = to_lower a @ to_lower b"
  by (simp add: to_lower_def)

lemma hex_value_of: "0 \<le> n \<Longrightarrow> hex_value (to_lower (hex_of n)) = n"
proof (induction n rule: hex_of.induct)
  case (1 n)
  show ?case
  proof (cases "n < 16")
    case True
    with 1 show ?thesis using hex_char_facts[of n] by (simp add: hex_of.simps[of n] to_lower_def hex_value_def)
  next
    case False
    with 1 have "hex_value (to_lower (hex_of (n div 16))) = n div 16" by simp
    with False show ?thesis using hex_char_facts[of "n mod 16"]
      by (simp add: hex_of.simps[of n] to_lower_append hex_value_append) (simp add: to_lower_def hex_value_append)
  qed
qed

text \<open>Texts that can stand in an assignment.\<close>

definition token :: "string \<Rightarrow> bool" where
  "token s \<longleftrightarrow> (\<forall>c\<in>set s. \<not> is_space c \<and> c \<noteq> CHR '';'')"

lemma token_itoa [simp]: "token (itoa n)"
  unfolding token_def using itoa_chars[of _ n] by (auto simp: is_digit_def is_space_def)

lemma token_hex: "0 \<le> n \<Longrightarrow> token (to_lower (hex_of n))"
proof (induction n rule: hex_of.induct)
  case (1 n)
  show ?case
  proof (cases "n < 16")
    case True
    with 1 show ?thesis using hex_char_facts[of n] by (simp add: hex_of.simps[of n] to_lower_def token_def)
  next
    case False
    with 1 have "token (to_lower (hex_of (n div 16)))" by simp
    with False show ?thesis using hex_char_facts[of "n mod 16"]
      by (simp add: hex_of.simps[of n] to_lower_append token_def) (simp add: to_lower_def)
  qed
qed

lemma itoa_no_eq: "CHR ''='' \<notin> set (itoa n)"
  using itoa_chars[of "CHR ''=''" n] by (auto simp: is_digit_def)

lemma schemata_ids_assignment:
  assumes "token v" "\<forall>i\<in>set ids. in_i64 i"
  shows "schemata_ids (map (\<lambda>i. itoa i @ ''='' @ v) ids) = Inr ids"
  using assms(2)
proof (induction ids)
  case (Cons i ids)
  have "trim_space (itoa i @ ''='' @ v) = itoa i @ ''='' @ v"
    using assms(1) token_itoa[of i] by (intro trim_space_no_space) (auto simp: token_def is_space_def)
  moreover have "go_splitn2 ''='' (itoa i @ ''='' @ v) = [itoa i, v]"
    using go_cut_char_app[OF itoa_no_eq, of i v] by (simp add: go_splitn2_def)
  ultimately show ?case using Cons by (simp add: atoi_itoa)
qed simp

lemma set_go_join: "set (go_join sep xs) \<subseteq> set sep \<union> (\<Union>x\<in>set xs. set x)"
  by (induction sep xs rule: go_join.induct) auto

lemma assignment_facts:
  assumes "buildIDAssignment ids v = Inr a" "token v" "\<forall>i\<in>set ids. in_i64 i"
  shows "ids \<noteq> [] \<and> schemata_ids (go_split '';'' a) = Inr ids \<and> (\<forall>c\<in>set a. \<not> is_space c)"
proof -
  from assms(1) have a: "ids \<noteq> []" "a = go_join '';'' (map (\<lambda>i. itoa i @ ''='' @ v) ids)"
    by (auto simp: buildIDAssignment_def split: if_splits)
  have parts: "CHR '';'' \<notin> set (itoa i @ ''='' @ v)" for i
    using assms(2) token_itoa[of i] by (auto simp: token_def)
  have split: "go_split '';'' a = map (\<lambda>i. itoa i @ ''='' @ v) ids"
    unfolding a(2) using a(1) parts by (intro go_split_join_char) auto
  have "\<not> is_space c" if "c \<in> set a" for c
  proof -
    from that set_go_join[of "'';''" "map (\<lambda>i. itoa i @ ''='' @ v) ids"] obtain i where "c \<in> set ('';'' @ itoa i @ ''='' @ v)"
      unfolding a(2) by fastforce
    then show ?thesis using assms(2) token_itoa[of i] by (auto simp: token_def is_space_def)
  qed
  then have "\<forall>c\<in>set a. \<not> is_space c" by blast
  with a(1) split schemata_ids_assignment[OF assms(2,3)] show ?thesis by simp
qed

definition schemata_item_keys :: "string list" where
  "schemata_item_keys = [''MBHDL'', ''MBPRI'', ''L3PRI'', ''MBMIN'', ''L3MIN'', ''L3MAX'', ''MB'', ''L3'']"

lemma split_lines: "\<forall>i\<in>set items. CHR 0x0A \<notin> set i \<Longrightarrow>
   go_split [CHR 0x0A] (concat (map (\<lambda>i. i @ [CHR 0x0A]) items)) = items @ [[]]"
  by (induction items) (simp_all add: go_split_char_None go_split_char_app)

lemma all_ok_Cons: "all_ok ((k, r) # rs) = Inr xs \<longleftrightarrow> (\<exists>a ys. r = Inr a \<and> all_ok rs = Inr ys \<and> xs = (k @ '':'' @ a) # ys)"
  by (auto split: sum.splits)

lemma buildSchemataItems_shape:
  assumes "buildSchemataItems cfg numa cache None = Inr items"
  shows "1 \<le> rc_L3 cfg \<and> (\<exists>a b c d e f g h. items = [''MBHDL:'' @ a, ''MBPRI:'' @ b, ''L3PRI:'' @ c, ''MBMIN:'' @ d, ''L3MIN:'' @ e, ''L3MAX:'' @ f, ''MB:'' @ g, ''L3:'' @ h]
     \<and> buildIDAssignment numa (itoa (rc_MBHDL cfg)) = Inr a \<and> buildIDAssignment numa (itoa (rc_MBPRI cfg)) = Inr b
     \<and> buildIDAssignment cache (itoa (rc_L3PRI cfg)) = Inr c \<and> buildIDAssignment numa (itoa (rc_MBMIN cfg)) = Inr d
     \<and> buildIDAssignment cache (itoa (rc_L3MIN cfg)) = Inr e \<and> buildIDAssignment cache (itoa (rc_L3MAX cfg)) = Inr f
     \<and> buildIDAssignment numa (itoa (rc_MB cfg)) = Inr g \<and> buildIDAssignment cache (to_lower (hex_of (2 ^ nat (rc_L3 cfg) - 1))) = Inr h)"
proof -
  let ?mb = "\<lambda>v. buildIDAssignment numa (itoa v)" and ?l3 = "\<lambda>v. buildIDAssignment cache (itoa v)"
  obtain m w l where m: "all_ok [(''MBHDL'', ?mb (rc_MBHDL cfg)), (''MBPRI'', ?mb (rc_MBPRI cfg)), (''MBMIN'', ?mb (rc_MBMIN cfg)), (''MB'', ?mb (rc_MB cfg))] = Inr m"
    and w: "waysToHexMask (rc_L3 cfg) = Inr w"
    and l: "all_ok [(''L3PRI'', ?l3 (rc_L3PRI cfg)), (''L3MIN'', ?l3 (rc_L3MIN cfg)), (''L3MAX'', ?l3 (rc_L3MAX cfg)),
      (''L3'', buildIDAssignment cache w)] = Inr l"
    and items: "items = [m ! 0, m ! 1, l ! 0, m ! 2, l ! 1, l ! 2, m ! 3, l ! 3]"
    using assms unfolding buildSchemataItems_def Let_def bind_Inr_iff option.case by blast
  have "1 \<le> rc_L3 cfg" "w = to_lower (hex_of (2 ^ nat (rc_L3 cfg) - 1))"
    using w by (simp_all add: waysToHexMask_def split: if_splits)
  with items m l show ?thesis unfolding all_ok_Cons all_ok.simps(1) by auto
qed


text \<open>No line the manager writes has a blank in it.\<close>

lemma schemata_items_plain:
  assumes "buildSchemataItems cfg numa cache None = Inr items" "\<forall>i\<in>set numa \<union> set cache. in_i64 i"
  shows "\<forall>i\<in>set items. \<forall>x\<in>set i. \<not> is_space x"
proof -
  obtain a b c d e f g h where items: "items = [''MBHDL:'' @ a, ''MBPRI:'' @ b, ''L3PRI:'' @ c, ''MBMIN:'' @ d, ''L3MIN:'' @ e, ''L3MAX:'' @ f, ''MB:'' @ g, ''L3:'' @ h]"
    and as: "buildIDAssignment numa (itoa (rc_MBHDL cfg)) = Inr a" "buildIDAssignment numa (itoa (rc_MBPRI cfg)) = Inr b"
      "buildIDAssignment cache (itoa (rc_L3PRI cfg)) = Inr c" "buildIDAssignment numa (itoa (rc_MBMIN cfg)) = Inr d"
      "buildIDAssignment cache (itoa (rc_L3MIN cfg)) = Inr e" "buildIDAssignment cache (itoa (rc_L3MAX cfg)) = Inr f"
      "buildIDAssignment numa (itoa (rc_MB cfg)) = Inr g" "buildIDAssignment cache (to_lower (hex_of (2 ^ nat (rc_L3 cfg) - 1))) = Inr h"
    using buildSchemataItems_shape[OF assms(1)] by blast
  have ids: "\<forall>i\<in>set numa. in_i64 i" "\<forall>i\<in>set cache. in_i64 i" using assms(2) by auto
  note n = assignment_facts[OF _ _ ids(1)] and k = assignment_facts[OF _ _ ids(2)]
  have mask: "(0 :: int) \<le> 2 ^ nat (rc_L3 cfg) - 1" by simp
  have ns: "\<forall>x\<in>set y. \<not> is_space x" if "y \<in> {a, b, c, d, e, f, g, h}" for y
    using that n[OF as(1) token_itoa] n[OF as(2) token_itoa] k[OF as(3) token_itoa] n[OF as(4) token_itoa]
      k[OF as(5) token_itoa] k[OF as(6) token_itoa] n[OF as(7) token_itoa] k[OF as(8) token_hex[OF mask]] by blast
  have key: "\<forall>x\<in>set (k @ y). \<not> is_space x" if "y \<in> {a, b, c, d, e, f, g, h}" "list_all (\<lambda>x. \<not> is_space x) k" for k y
    using ns[OF that(1)] that(2) by (auto simp: list_all_iff)
  have "list_all (\<lambda>i. \<forall>x\<in>set i. \<not> is_space x) items"
    unfolding items list.pred_inject by (intro conjI TrueI key) (simp_all add: is_space_def)
  then show ?thesis by (simp add: list_all_iff)
qed

lemma schemata_line_skip: "trim_space raw = raw \<Longrightarrow> \<not> has_prefix raw (item @ '':'') \<Longrightarrow> schemata_line (raw # rest) item = schemata_line rest item"
  by (simp add: Let_def)

lemma schemata_line_hit:
  assumes "trim_space (item @ '':'' @ a) = item @ '':'' @ a" "schemata_ids (go_split '';'' a) = Inr ids" "ids \<noteq> []"
  shows "schemata_line ((item @ '':'' @ a) # rest) item = Inr (sort_ints ids)"
  using assms by (simp add: Let_def has_prefix_def trim_prefix_def)

text \<open>What one manager writes, another discovers: for every configuration it accepts, the lines written to a
  \<open>schemata\<close> file are read back as the same NUMA and cache domains, in increasing order, and as exactly the eight keys;
  a configuration with fewer than one cache way is refused, and the cache mask written is the number with exactly the
  configured number of low bits set.\<close>

theorem schemata_rediscovered:
  assumes "buildSchemataItems cfg numa cache None = Inr items" "\<forall>i\<in>set numa \<union> set cache. in_i64 i"
  shows "NewLocalResctrlGroupManager (Some (concat (map (\<lambda>i. i @ [CHR 0x0A]) items)))
      = Inr \<lparr>lm_RootDir = [], lm_NumaIDs = sort_ints numa, lm_CacheIDs = sort_ints cache, lm_SupportedSchemataKeys = schemata_item_keys\<rparr>
    \<and> 1 \<le> rc_L3 cfg
    \<and> (\<exists>mask a. last items = ''L3:'' @ a \<and> buildIDAssignment cache mask = Inr a \<and> hex_value mask = 2 ^ nat (rc_L3 cfg) - 1)"
proof -
  let ?mask = "to_lower (hex_of (2 ^ nat (rc_L3 cfg) - 1))"
  obtain a b c d e f g h where items: "items = [''MBHDL:'' @ a, ''MBPRI:'' @ b, ''L3PRI:'' @ c, ''MBMIN:'' @ d, ''L3MIN:'' @ e, ''L3MAX:'' @ f, ''MB:'' @ g, ''L3:'' @ h]"
    and as: "buildIDAssignment numa (itoa (rc_MBHDL cfg)) = Inr a" "buildIDAssignment numa (itoa (rc_MBPRI cfg)) = Inr b"
      "buildIDAssignment cache (itoa (rc_L3PRI cfg)) = Inr c" "buildIDAssignment numa (itoa (rc_MBMIN cfg)) = Inr d"
      "buildIDAssignment cache (itoa (rc_L3MIN cfg)) = Inr e" "buildIDAssignment cache (itoa (rc_L3MAX cfg)) = Inr f"
      "buildIDAssignment numa (itoa (rc_MB cfg)) = Inr g" "buildIDAssignment cache ?mask = Inr h"
    and ways: "1 \<le> rc_L3 cfg"
    using buildSchemataItems_shape[OF assms(1)] by blast
  have ids: "\<forall>i\<in>set numa. in_i64 i" "\<forall>i\<in>set cache. in_i64 i" using assms(2) by auto
  note n = assignment_facts[OF _ _ ids(1)] and k = assignment_facts[OF _ _ ids(2)]
  have mask: "(0 :: int) \<le> 2 ^ nat (rc_L3 cfg) - 1" by simp
  note G = n[OF as(7) token_itoa] and H = k[OF as(8) token_hex[OF mask]]
  have ns_items: "\<forall>x\<in>set i. \<not> is_space x" if "i \<in> set items" for i
    using schemata_items_plain[OF assms] that by blast
  have trim: "trim_space i = i" if "i \<in> set items" for i using ns_items[OF that] by (rule trim_space_no_space)
  have nl: "is_space (CHR 0x0A)" by (simp add: is_space_def)
  have lines: "go_split [CHR 0x0A] (concat (map (\<lambda>i. i @ [CHR 0x0A]) items)) = items @ [[]]"
    by (rule split_lines) (use ns_items nl in blast)
  have t: "trim_space (''MBHDL:'' @ a) = ''MBHDL:'' @ a" "trim_space (''MBPRI:'' @ b) = ''MBPRI:'' @ b"
    "trim_space (''L3PRI:'' @ c) = ''L3PRI:'' @ c" "trim_space (''MBMIN:'' @ d) = ''MBMIN:'' @ d" "trim_space (''L3MIN:'' @ e) = ''L3MIN:'' @ e"
    "trim_space (''L3MAX:'' @ f) = ''L3MAX:'' @ f" "trim_space (''MB:'' @ g) = ''MB:'' @ g" "trim_space (''L3:'' @ h) = ''L3:'' @ h"
    by (rule trim, simp add: items)+
  have mb: "schemata_line (items @ [[]]) ''MB'' = Inr (sort_ints numa)"
    using schemata_line_hit[of "''MB''" g numa "[''L3:'' @ h, []]"] t G
    unfolding items append.simps by (simp add: schemata_line_skip has_prefix_def del: schemata_line.simps(2))
  have l3: "schemata_line (items @ [[]]) ''L3'' = Inr (sort_ints cache)"
    using schemata_line_hit[of "''L3''" h cache "[[]]"] t H
    unfolding items append.simps by (simp add: schemata_line_skip has_prefix_def del: schemata_line.simps(2))
  have cut: "go_cut '':'' (key @ CHR '':'' # y) = Some (key, y)" if "CHR '':'' \<notin> set key" for key y
    using go_cut_char_app[OF that] .
  have keys: "schemata_keys (items @ [[]]) [] = schemata_item_keys"
    using t cut[of "''MBHDL''" a] cut[of "''MBPRI''" b] cut[of "''L3PRI''" c] cut[of "''MBMIN''" d] cut[of "''L3MIN''" e]
      cut[of "''L3MAX''" f] cut[of "''MB''" g] cut[of "''L3''" h]
    unfolding items append.simps schemata_item_keys_def
    by (simp add: trim_space_no_space is_space_def trim_space_id Let_def)
  have "schemata_item_keys \<noteq> []" by (simp add: schemata_item_keys_def)
  then have "NewLocalResctrlGroupManager (Some (concat (map (\<lambda>i. i @ [CHR 0x0A]) items)))
      = Inr \<lparr>lm_RootDir = [], lm_NumaIDs = sort_ints numa, lm_CacheIDs = sort_ints cache, lm_SupportedSchemataKeys = schemata_item_keys\<rparr>"
    by (simp add: NewLocalResctrlGroupManager_def parseSchemataIDs_def parseSchemataKeys_def lines mb l3 keys)
  moreover have "last items = ''L3:'' @ h" by (simp add: items)
  ultimately show ?thesis using ways as(8) hex_value_of[OF mask] by blast
qed

theorem schemata_rediscovered_witness:
  "\<exists>items. buildSchemataItems \<lparr>rc_MBHDL = 1, rc_MBPRI = 3, rc_L3PRI = 0, rc_MBMIN = 0, rc_L3MIN = 0, rc_L3MAX = 100, rc_MB = 90, rc_L3 = 4\<rparr> [1, 0] [7] None = Inr items
     \<and> last items = ''L3:7=f''
     \<and> map_sum id lm_NumaIDs (NewLocalResctrlGroupManager (Some (concat (map (\<lambda>i. i @ [CHR 0x0A]) items)))) = Inr [0, 1]"
proof -
  let ?cfg = "\<lparr>rc_MBHDL = 1, rc_MBPRI = 3, rc_L3PRI = 0, rc_MBMIN = 0, rc_L3MIN = 0, rc_L3MAX = 100, rc_MB = 90, rc_L3 = 4\<rparr>"
  have b: "buildSchemataItems ?cfg [1, 0] [7] None
      = Inr [''MBHDL:1=1;0=1'', ''MBPRI:1=3;0=3'', ''L3PRI:7=0'', ''MBMIN:1=0;0=0'', ''L3MIN:7=0'', ''L3MAX:7=100'', ''MB:1=90;0=90'', ''L3:7=f'']"
    by code_simp
  have r: "\<forall>i\<in>set [1, 0] \<union> set [7 :: int]. in_i64 i" by (simp add: in_i64_def)
  have s: "sort_ints [1, 0] = [0, 1]" by code_simp
  from schemata_rediscovered[OF b r] s b show ?thesis by simp
qed

end
