(* ===== verification/QosReconcile.thy ===== *)
theory QosReconcile
  imports QosResctrl
begin

text \<open>
  The reconciler of QoS policies (\<^verbatim>\<open>pkg/kunpeng-qos-controller/controller/qospolicy_reconciler.go\<close>) against the
  interface \<open>ResctrlGroupManager\<close>, and the local manager as its implementation. The Kubernetes client is the record
  \<open>qos_client\<close> of the calls the code makes; \<open>retry.RetryOnConflict\<close> makes at most \<open>Suc n\<close> attempts and repeats an
  attempt only after a conflict.
\<close>

section \<open>The interface of the group manager\<close>

record 's resctrl_ops =
  rm_EnsureGroup :: "string \<Rightarrow> 's \<Rightarrow> 's \<times> unit result"
  rm_ApplyConfig :: "string \<Rightarrow> resctrl_config \<Rightarrow> 's \<Rightarrow> 's \<times> unit result"
  rm_DeleteGroup :: "string \<Rightarrow> 's \<Rightarrow> 's \<times> unit result"

definition local_ops :: "resctrl_os \<Rightarrow> local_manager \<Rightarrow> resctrl_fs resctrl_ops" where
  "local_ops os m = \<lparr>rm_EnsureGroup = local_EnsureGroup os m, rm_ApplyConfig = local_ApplyConfig os m,
     rm_DeleteGroup = local_DeleteGroup os m\<rparr>"

text \<open>
  The promises: \<open>has s g\<close> says that group \<open>g\<close> exists, \<open>applied s g cfg\<close> that the last thing the group was given is
  \<open>cfg\<close>. Operations on one valid group name leave every other valid one alone.
\<close>

definition same_group :: "('s \<Rightarrow> string \<Rightarrow> bool) \<Rightarrow> ('s \<Rightarrow> string \<Rightarrow> resctrl_config \<Rightarrow> bool) \<Rightarrow> string \<Rightarrow> 's \<Rightarrow> 's \<Rightarrow> bool" where
  "same_group has applied h s s' \<longleftrightarrow> has s' h = has s h \<and> applied s' h = applied s h"

locale resctrl_manager =
  fixes rm :: "'s resctrl_ops"
    and valid :: "string \<Rightarrow> bool"
    and has :: "'s \<Rightarrow> string \<Rightarrow> bool"
    and applied :: "'s \<Rightarrow> string \<Rightarrow> resctrl_config \<Rightarrow> bool"
  assumes ensure_has: "rm_EnsureGroup rm g s = (s', Inr ()) \<Longrightarrow> has s' g"
    and apply_sets: "rm_ApplyConfig rm g cfg s = (s', Inr ()) \<Longrightarrow> has s' g \<and> applied s' g cfg"
    and delete_gone: "rm_DeleteGroup rm g s = (s', Inr ()) \<Longrightarrow> \<not> has s' g"
    and ensure_frame: "valid g \<Longrightarrow> valid h \<Longrightarrow> h \<noteq> g \<Longrightarrow> same_group has applied h s (fst (rm_EnsureGroup rm g s))"
    and apply_frame: "valid g \<Longrightarrow> valid h \<Longrightarrow> h \<noteq> g \<Longrightarrow> same_group has applied h s (fst (rm_ApplyConfig rm g cfg s))"
    and delete_frame: "valid g \<Longrightarrow> valid h \<Longrightarrow> h \<noteq> g \<Longrightarrow> same_group has applied h s (fst (rm_DeleteGroup rm g s))"

section \<open>The reconciler\<close>

record qos_obj =
  qo_name :: string
  qo_deleting :: bool
  qo_finalizers :: "string list"
  qo_spec :: qos_spec

text \<open>\<open>cl_Get\<close> is \<open>Inr None\<close> for a missing object. A patch carries the object before and after the change.\<close>

record 'a qos_client =
  cl_Get :: "'a \<Rightarrow> string \<Rightarrow> qos_obj option result"
  cl_Patch :: "'a \<Rightarrow> qos_obj \<Rightarrow> qos_obj \<Rightarrow> 'a \<times> unit result"
  cl_NodeLabels :: "'a \<Rightarrow> (string, string) gomap result"

definition conflict :: go_error where
  "conflict = Err ''conflict''"

fun RetryOnConflict :: "nat \<Rightarrow> ('a \<Rightarrow> 'a \<times> unit result) \<Rightarrow> 'a \<Rightarrow> 'a \<times> unit result" where
  "RetryOnConflict 0 f a = f a"
| "RetryOnConflict (Suc n) f a =
     (case f a of (a', Inl e) \<Rightarrow> if e = conflict then RetryOnConflict n f a' else (a', Inl e) | r \<Rightarrow> r)"

definition defaultQoSPolicyFinalizer :: string where
  "defaultQoSPolicyFinalizer = ''qos.kunpeng.huawei.com/finalizer''"

definition ensureFinalizerWithRetry :: "nat \<Rightarrow> 'a qos_client \<Rightarrow> string \<Rightarrow> string \<Rightarrow> 'a \<Rightarrow> 'a \<times> unit result" where
  "ensureFinalizerWithRetry n cl key finalizer =
     RetryOnConflict n (\<lambda>a.
       (case cl_Get cl a key of
          Inl e \<Rightarrow> (a, Inl e)
        | Inr None \<Rightarrow> (a, Inr ())
        | Inr (Some latest) \<Rightarrow>
            if qo_deleting latest then (a, Inr ())
            else if finalizer \<in> set (qo_finalizers latest) then (a, Inr ())
            else cl_Patch cl a latest (latest\<lparr>qo_finalizers := qo_finalizers latest @ [finalizer]\<rparr>)))"

definition removeFinalizerWithRetry :: "nat \<Rightarrow> 'a qos_client \<Rightarrow> string \<Rightarrow> string \<Rightarrow> 'a \<Rightarrow> 'a \<times> unit result" where
  "removeFinalizerWithRetry n cl key finalizer =
     RetryOnConflict n (\<lambda>a.
       (case cl_Get cl a key of
          Inl e \<Rightarrow> (a, Inl e)
        | Inr None \<Rightarrow> (a, Inr ())
        | Inr (Some latest) \<Rightarrow>
            if finalizer \<notin> set (qo_finalizers latest) then (a, Inr ())
            else cl_Patch cl a latest (latest\<lparr>qo_finalizers := filter (\<lambda>f. f \<noteq> finalizer) (qo_finalizers latest)\<rparr>)))"

definition qos_Reconcile ::
  "nat \<Rightarrow> 'a qos_client \<Rightarrow> 's resctrl_ops \<Rightarrow> string \<Rightarrow> 'a \<times> 's \<Rightarrow> ('a \<times> 's) \<times> unit result" where
  "qos_Reconcile n cl rm name w =
     (case w of (a, s) \<Rightarrow>
        (case cl_Get cl a name of
           Inl e \<Rightarrow> ((a, s), Inl e)
         | Inr None \<Rightarrow> ((a, s), Inr ())
         | Inr (Some policy) \<Rightarrow>
             (let groupName = qo_name policy in
              if qo_deleting policy
              then (case rm_DeleteGroup rm groupName s of
                      (s1, Inl e) \<Rightarrow> ((a, s1), Inl e)
                    | (s1, Inr _) \<Rightarrow>
                        (case removeFinalizerWithRetry n cl name defaultQoSPolicyFinalizer a of (a1, r) \<Rightarrow> ((a1, s1), r)))
              else (case ensureFinalizerWithRetry n cl name defaultQoSPolicyFinalizer a of
                      (a1, Inl e) \<Rightarrow> ((a1, s), Inl e)
                    | (a1, Inr _) \<Rightarrow>
                        (case cl_NodeLabels cl a1 of
                           Inl e \<Rightarrow> ((a1, s), Inl (Err ''get labels for node''))
                         | Inr nodeLabels \<Rightarrow>
                             if \<not> MatchNodeSelector nodeLabels (sp_NodeSelector (qo_spec policy))
                             then (case rm_DeleteGroup rm groupName s of (s1, r) \<Rightarrow> ((a1, s1), r))
                             else (case rm_EnsureGroup rm groupName s of
                                     (s1, Inl e) \<Rightarrow> ((a1, s1), Inl e)
                                   | (s1, Inr _) \<Rightarrow>
                                       (case rm_ApplyConfig rm groupName (translateQoSPolicySpec (qo_spec policy)) s1 of
                                          (s2, r) \<Rightarrow> ((a1, s2), r))))))))"

section \<open>What a successful reconciliation leaves\<close>

text \<open>The local groups of a node agree with the policy: no group while it is being deleted or does not select the node.\<close>

definition group_as_wanted ::
  "('s \<Rightarrow> string \<Rightarrow> bool) \<Rightarrow> ('s \<Rightarrow> string \<Rightarrow> resctrl_config \<Rightarrow> bool) \<Rightarrow> (string, string) gomap \<Rightarrow> qos_obj \<Rightarrow> 's \<Rightarrow> bool" where
  "group_as_wanted has applied nodeLabels policy s \<longleftrightarrow>
     (if \<not> qo_deleting policy \<and> MatchNodeSelector nodeLabels (sp_NodeSelector (qo_spec policy))
      then has s (qo_name policy) \<and> applied s (qo_name policy) (translateQoSPolicySpec (qo_spec policy))
      else \<not> has s (qo_name policy))"

context resctrl_manager
begin

lemma same_group_trans: "same_group has applied h s t \<Longrightarrow> same_group has applied h t u \<Longrightarrow> same_group has applied h s u"
  by (simp add: same_group_def)

lemma reconcile_wanted:
  assumes "qos_Reconcile n cl rm name (a, s) = ((a', s'), Inr ())" "cl_Get cl a name = Inr (Some policy)"
  shows "qo_deleting policy \<and> \<not> has s' (qo_name policy)
     \<or> (\<exists>a1 labels. cl_NodeLabels cl a1 = Inr labels \<and> group_as_wanted has applied labels policy s')"
  using assms
  by (auto simp: qos_Reconcile_def Let_def group_as_wanted_def split: prod.splits sum.splits if_splits
      dest: delete_gone ensure_has apply_sets)

lemma reconcile_frame:
  assumes "valid h" "\<And>p. cl_Get cl a name = Inr (Some p) \<Longrightarrow> valid (qo_name p) \<and> h \<noteq> qo_name p"
  shows "same_group has applied h s (snd (fst (qos_Reconcile n cl rm name (a, s))))"
proof (cases "cl_Get cl a name")
  case (Inr r)
  show ?thesis
  proof (cases r)
    case (Some p)
    let ?g = "qo_name p"
    have v: "valid ?g" "h \<noteq> ?g" using assms(2) Inr Some by auto
    have del: "same_group has applied h s (fst (rm_DeleteGroup rm ?g s))" by (rule delete_frame[OF v(1) assms(1) v(2)])
    have ens: "same_group has applied h s (fst (rm_EnsureGroup rm ?g s))" by (rule ensure_frame[OF v(1) assms(1) v(2)])
    have app: "same_group has applied h t (fst (rm_ApplyConfig rm ?g cfg t))" for t cfg by (rule apply_frame[OF v(1) assms(1) v(2)])
    have "same_group has applied h s s2"
      if "rm_EnsureGroup rm ?g s = (s1, r1)" "rm_ApplyConfig rm ?g cfg s1 = (s2, r2)" for s1 s2 cfg r1 r2
      using ens app[of s1 cfg] that same_group_trans by fastforce
    then show ?thesis using Inr Some del ens
      by (auto simp: qos_Reconcile_def Let_def split: prod.splits sum.splits) (simp_all add: same_group_def)
  qed (use Inr in \<open>simp add: qos_Reconcile_def same_group_def\<close>)
qed (simp add: qos_Reconcile_def same_group_def)

end


section \<open>The local manager keeps the promises\<close>

definition valid_group :: "local_manager \<Rightarrow> string \<Rightarrow> bool" where
  "valid_group m g \<longleftrightarrow> is_rooted (rootDir m) \<and> plain_comp g"

definition local_has :: "local_manager \<Rightarrow> resctrl_fs \<Rightarrow> string \<Rightarrow> bool" where
  "local_has m fs g \<longleftrightarrow> groupDir m g \<in> set (rf_dirs fs)"

definition written_to :: "resctrl_fs \<Rightarrow> string \<Rightarrow> string list" where
  "written_to fs path = (case map_of (rf_written fs) path of None \<Rightarrow> [] | Some xs \<Rightarrow> xs)"

text \<open>The last lines the group's \<open>schemata\<close> was given are those of the configuration.\<close>

definition local_applied :: "local_manager \<Rightarrow> resctrl_fs \<Rightarrow> string \<Rightarrow> resctrl_config \<Rightarrow> bool" where
  "local_applied m fs g cfg \<longleftrightarrow>
     (case buildSchemataItems cfg (lm_NumaIDs m) (lm_CacheIDs m) (supportedSchemataKeySet m) of
        Inl _ \<Rightarrow> False
      | Inr items \<Rightarrow>
          (let xs = written_to fs (schemataPath m g)
           in drop (length xs - length items) xs = map (\<lambda>i. i @ [CHR 0x0A]) items))"

lemma groupDir_rooted: "is_rooted (rootDir m) \<Longrightarrow> is_rooted (groupDir m g)"
  unfolding groupDir_def by (cases "rootDir m") (auto simp: path_join_rooted is_rooted_def has_prefix_def path_clean_def path_of_def)

lemma groupDir_comps:
  assumes "valid_group m g"
  shows "groupDir m g = path_of True (clean_comps (rootDir m) @ [g])" "clean_comps (groupDir m g) = clean_comps (rootDir m) @ [g]"
proof -
  have g: "plain_comp g" "g \<noteq> []" and r: "is_rooted (rootDir m)" using assms by (auto simp: valid_group_def plain_comp_def)
  have rr: "is_rooted (rootDir m @ CHR ''/'' # g)" using r by (cases "rootDir m") (auto simp: is_rooted_def has_prefix_def)
  have "go_split ''/'' g = [g]" using g(1) by (intro go_split_char_None) (simp add: plain_comp_def)
  then have "clean_comps (rootDir m @ CHR ''/'' # g) = clean_comps (rootDir m) @ [g]"
    using clean_comps_join[OF r, of g] g(1) by (simp add: plain_comp_def)
  then show d: "groupDir m g = path_of True (clean_comps (rootDir m) @ [g])"
    using g(2) r rr by (simp add: groupDir_def path_join_rooted path_clean_rooted)
  show "clean_comps (groupDir m g) = clean_comps (rootDir m) @ [g]"
    unfolding d using clean_comps_rooted[OF r] g(1) by (intro clean_comps_path_of) simp
qed

lemma schemataPath_comps:
  assumes "valid_group m g"
  shows "clean_comps (schemataPath m g) = clean_comps (rootDir m) @ [g, ''schemata'']"
proof -
  have d: "is_rooted (groupDir m g)" using assms groupDir_rooted by (simp add: valid_group_def)
  have j: "is_rooted (groupDir m g @ CHR ''/'' # ''schemata'')" using d by (cases "groupDir m g") (auto simp: is_rooted_def has_prefix_def)
  have "go_split ''/'' ''schemata'' = [''schemata'']" by (intro go_split_char_None) simp
  then show ?thesis
    using d j clean_comps_join[OF d, of "''schemata''"] groupDir_comps(2)[OF assms] clean_comps_rooted[OF j]
    by (simp add: schemataPath_def path_join_rooted path_clean_rooted clean_comps_path_of)
qed

lemma groups_apart:
  "valid_group m g \<Longrightarrow> valid_group m h \<Longrightarrow> h \<noteq> g \<Longrightarrow> groupDir m h \<noteq> groupDir m g \<and> schemataPath m h \<noteq> schemataPath m g"
  using groupDir_comps(2) schemataPath_comps by (metis append_same_eq list.inject same_append_eq)

lemma write_items_effect:
  assumes "write_items os path items fs = (fs', r)"
  shows "rf_dirs fs' = rf_dirs fs \<and> (\<forall>q. q \<noteq> path \<longrightarrow> written_to fs' q = written_to fs q)
    \<and> (r = Inr () \<longrightarrow> written_to fs' path = written_to fs path @ map (\<lambda>i. i @ [CHR 0x0A]) items)"
  using assms
proof (induction items arbitrary: fs)
  case (Cons i items)
  show ?case
  proof (cases "ro_write os path i")
    case True
    let ?fs = "fst (writeSchemataItem os path i fs)"
    have w: "writeSchemataItem os path i fs = (?fs, Inr ())" using True by (simp add: writeSchemataItem_def)
    from Cons.prems have "write_items os path items ?fs = (fs', r)" by (subst (asm) write_items.simps(2), subst (asm) w) simp
    moreover have "rf_dirs ?fs = rf_dirs fs" "\<forall>q. q \<noteq> path \<longrightarrow> written_to ?fs q = written_to fs q"
      "written_to ?fs path = written_to fs path @ [i @ [CHR 0x0A]]"
      using True by (simp_all add: writeSchemataItem_def written_to_def split: option.split)
    ultimately show ?thesis using Cons.IH[of ?fs] by simp
  qed (use Cons.prems in \<open>auto simp: writeSchemataItem_def\<close>)
qed simp

lemma ensure_effect:
  "rf_written (fst (local_EnsureGroup os m g fs)) = rf_written fs"
  "set (rf_dirs (fst (local_EnsureGroup os m g fs))) \<subseteq> insert (groupDir m g) (set (rf_dirs fs))"
  "set (rf_dirs fs) \<subseteq> set (rf_dirs (fst (local_EnsureGroup os m g fs)))"
  "snd (local_EnsureGroup os m g fs) = Inr () \<Longrightarrow> groupDir m g \<in> set (rf_dirs (fst (local_EnsureGroup os m g fs)))"
  by (auto simp: local_EnsureGroup_def Let_def split: if_splits)

interpretation local: resctrl_manager "local_ops os m" "valid_group m" "local_has m" "local_applied m" for os m
proof unfold_locales
  fix g s s' cfg
  show "rm_EnsureGroup (local_ops os m) g s = (s', Inr ()) \<Longrightarrow> local_has m s' g"
    using ensure_effect(4)[where os = os and m = m and g = g and fs = s] by (simp add: local_ops_def local_has_def)
  show "rm_DeleteGroup (local_ops os m) g s = (s', Inr ()) \<Longrightarrow> \<not> local_has m s' g"
    by (auto simp: local_ops_def local_has_def local_DeleteGroup_def Let_def split: if_splits)
  show "rm_ApplyConfig (local_ops os m) g cfg s = (s', Inr ()) \<Longrightarrow> local_has m s' g \<and> local_applied m s' g cfg"
  proof -
    assume "rm_ApplyConfig (local_ops os m) g cfg s = (s', Inr ())"
    then obtain t items where *: "local_EnsureGroup os m g s = (t, Inr ())"
      "buildSchemataItems cfg (lm_NumaIDs m) (lm_CacheIDs m) (supportedSchemataKeySet m) = Inr items"
      "write_items os (schemataPath m g) items t = (s', Inr ())"
      by (auto simp: local_ops_def local_ApplyConfig_def split: prod.splits sum.splits)
    from write_items_effect[OF *(3)] ensure_effect(4)[where os = os and m = m and g = g and fs = s] * show ?thesis
      by (simp add: local_has_def local_applied_def Let_def)
  qed
next
  fix g h s
  assume v: "valid_group m g" "valid_group m h" "h \<noteq> g"
  note a = groups_apart[OF v]
  have app: "local_applied m s1 h = local_applied m s2 h" if "written_to s1 (schemataPath m h) = written_to s2 (schemataPath m h)" for s1 s2
    unfolding local_applied_def Let_def that ..
  show ens: "same_group (local_has m) (local_applied m) h s (fst (rm_EnsureGroup (local_ops os m) g s))" for s
    using a ensure_effect(1)[where os = os and m = m and g = g and fs = s] ensure_effect(2,3)[where os = os and m = m and g = g and fs = s]
    by (auto simp: local_ops_def same_group_def local_has_def written_to_def intro!: app)
  show "same_group (local_has m) (local_applied m) h s (fst (rm_DeleteGroup (local_ops os m) g s))"
    using a by (auto simp: local_ops_def same_group_def local_has_def local_DeleteGroup_def Let_def written_to_def intro!: app)
  show "same_group (local_has m) (local_applied m) h s (fst (rm_ApplyConfig (local_ops os m) g cfg s))" for cfg
  proof -
    obtain t r where t: "local_EnsureGroup os m g s = (t, r)" by fastforce
    then have e: "same_group (local_has m) (local_applied m) h s t" using ens[of s] by (simp add: local_ops_def)
    have w: "same_group (local_has m) (local_applied m) h t (fst (write_items os (schemataPath m g) items t))" for items
      using write_items_effect[of os "schemataPath m g" items t] a
      by (cases "write_items os (schemataPath m g) items t") (auto simp: same_group_def local_has_def intro!: app)
    show ?thesis using e w t
      by (auto simp: local_ops_def local_ApplyConfig_def same_group_def split: sum.splits)
  qed
qed


section \<open>The finalizer\<close>

text \<open>
  What the code relies on of the API server: an object is found under its name; a successful patch leaves the new
  object or, when it is being deleted and its last finalizer is gone, no object; a failed patch changes nothing.
\<close>

definition client_ok :: "'a qos_client \<Rightarrow> bool" where
  "client_ok cl \<longleftrightarrow>
     (\<forall>a k p. cl_Get cl a k = Inr (Some p) \<longrightarrow> qo_name p = k)
     \<and> (\<forall>a a' old new. cl_Patch cl a old new = (a', Inr ()) \<longrightarrow>
          cl_Get cl a' (qo_name new) = Inr (if qo_deleting new \<and> qo_finalizers new = [] then None else Some new))
     \<and> (\<forall>a a' old new e. cl_Patch cl a old new = (a', Inl e) \<longrightarrow> cl_Get cl a' = cl_Get cl a)"

lemma client_okD:
  assumes "client_ok cl"
  shows "cl_Get cl a k = Inr (Some p) \<Longrightarrow> qo_name p = k"
    and "cl_Patch cl a old new = (a', Inr ()) \<Longrightarrow> qo_name new = k \<Longrightarrow>
      cl_Get cl a' k = Inr (if qo_deleting new \<and> qo_finalizers new = [] then None else Some new)"
    and "cl_Patch cl a old new = (a', Inl e) \<Longrightarrow> cl_Get cl a' k = cl_Get cl a k"
  using assms unfolding client_ok_def by blast (use assms in \<open>unfold client_ok_def, metis\<close>)+

lemma retry_last:
  assumes "RetryOnConflict n f a = (a', Inr ())" "\<And>b b' e. P b \<Longrightarrow> f b = (b', Inl e) \<Longrightarrow> P b'" "P a"
  shows "\<exists>b. P b \<and> f b = (a', Inr ())"
  using assms(1,3)
proof (induction n arbitrary: a)
  case (Suc n)
  show ?case
  proof (cases "snd (f a)")
    case (Inl e)
    then have fa: "f a = (fst (f a), Inl e)" by (metis prod.collapse)
    have step: "RetryOnConflict (Suc n) f a = (if e = conflict then RetryOnConflict n f (fst (f a)) else (fst (f a), Inl e))"
      by (subst RetryOnConflict.simps(2), subst fa) simp
    then have "RetryOnConflict n f (fst (f a)) = (a', Inr ())" using Suc.prems(1) by (auto split: if_splits)
    from Suc.IH[OF this assms(2)[OF Suc.prems(2) fa]] show ?thesis .
  next
    case (Inr u)
    then have "RetryOnConflict (Suc n) f a = f a" by (cases "f a") auto
    with Suc.prems show ?thesis by auto
  qed
qed auto

definition finalized :: "'a qos_client \<Rightarrow> 'a \<Rightarrow> string \<Rightarrow> bool \<Rightarrow> bool" where
  "finalized cl a name want \<longleftrightarrow>
     (case cl_Get cl a name of
        Inr (Some p) \<Rightarrow> (want \<and> qo_deleting p) \<or> (defaultQoSPolicyFinalizer \<in> set (qo_finalizers p)) = want
      | Inr None \<Rightarrow> True
      | Inl _ \<Rightarrow> False)"

lemma ensureFinalizer_spec:
  assumes "client_ok cl" "ensureFinalizerWithRetry n cl name defaultQoSPolicyFinalizer a = (a', Inr ())"
  shows "finalized cl a' name True"
proof -
  obtain b where "(case cl_Get cl b name of
          Inl e \<Rightarrow> (b, Inl e)
        | Inr None \<Rightarrow> (b, Inr ())
        | Inr (Some latest) \<Rightarrow>
            if qo_deleting latest then (b, Inr ())
            else if defaultQoSPolicyFinalizer \<in> set (qo_finalizers latest) then (b, Inr ())
            else cl_Patch cl b latest (latest\<lparr>qo_finalizers := qo_finalizers latest @ [defaultQoSPolicyFinalizer]\<rparr>)) = (a', Inr ())"
    using retry_last[of n _ a a' "\<lambda>_. True"] assms(2) unfolding ensureFinalizerWithRetry_def by blast
  then consider "cl_Get cl b name = Inr None" "b = a'"
    | p where "cl_Get cl b name = Inr (Some p)" "b = a'" "qo_deleting p \<or> defaultQoSPolicyFinalizer \<in> set (qo_finalizers p)"
    | p where "cl_Get cl b name = Inr (Some p)"
        "cl_Patch cl b p (p\<lparr>qo_finalizers := qo_finalizers p @ [defaultQoSPolicyFinalizer]\<rparr>) = (a', Inr ())"
    by (auto split: sum.splits option.splits if_splits)
  then show ?thesis
  proof cases
    case 3
    have "qo_name (p\<lparr>qo_finalizers := qo_finalizers p @ [defaultQoSPolicyFinalizer]\<rparr>) = name"
      using client_okD(1)[OF assms(1) 3(1)] by simp
    from client_okD(2)[OF assms(1) 3(2) this] show ?thesis by (simp add: finalized_def)
  qed (auto simp: finalized_def)
qed

lemma removeFinalizer_spec:
  assumes "client_ok cl" "removeFinalizerWithRetry n cl name defaultQoSPolicyFinalizer a = (a', Inr ())"
  shows "finalized cl a' name False
    \<and> (\<forall>p. cl_Get cl a name = Inr (Some p) \<and> qo_deleting p \<and> qo_finalizers p = [defaultQoSPolicyFinalizer] \<longrightarrow> cl_Get cl a' name = Inr None)"
proof -
  let ?f = "\<lambda>b. (case cl_Get cl b name of
          Inl e \<Rightarrow> (b, Inl e)
        | Inr None \<Rightarrow> (b, Inr ())
        | Inr (Some latest) \<Rightarrow>
            if defaultQoSPolicyFinalizer \<notin> set (qo_finalizers latest) then (b, Inr ())
            else cl_Patch cl b latest (latest\<lparr>qo_finalizers := filter (\<lambda>f. f \<noteq> defaultQoSPolicyFinalizer) (qo_finalizers latest)\<rparr>))"
  have keep: "cl_Get cl b' name = cl_Get cl a name" if "cl_Get cl b name = cl_Get cl a name" "?f b = (b', Inl e)" for b b' e
    using that client_okD(3)[OF assms(1), where k = name] by (fastforce split: sum.splits option.splits if_splits)
  obtain b where b: "cl_Get cl b name = cl_Get cl a name" "?f b = (a', Inr ())"
    using retry_last[of n ?f a a' "\<lambda>b. cl_Get cl b name = cl_Get cl a name"] assms(2) keep
    unfolding removeFinalizerWithRetry_def by blast
  have law: "cl_Get cl a' name = Inr (if qo_deleting new \<and> qo_finalizers new = [] then None else Some new)"
    if "cl_Patch cl b old new = (a', Inr ())" "qo_name new = name" for old new
    by (rule client_okD(2)[OF assms(1) that])
  have nm: "qo_name p = name" if "cl_Get cl b name = Inr (Some p)" for p
    by (rule client_okD(1)[OF assms(1) that])
  show ?thesis
  proof (cases "cl_Get cl b name")
    case (Inr r)
    show ?thesis
    proof (cases r)
      case (Some p)
      let ?new = "p\<lparr>qo_finalizers := filter (\<lambda>f. f \<noteq> defaultQoSPolicyFinalizer) (qo_finalizers p)\<rparr>"
      show ?thesis
      proof (cases "defaultQoSPolicyFinalizer \<in> set (qo_finalizers p)")
        case True
        then have "cl_Patch cl b p ?new = (a', Inr ())" using b(2) Inr Some by simp
        from law[OF this] have "cl_Get cl a' name = Inr (if qo_deleting p \<and> qo_finalizers ?new = [] then None else Some ?new)"
          using nm Inr Some by simp
        moreover have "cl_Get cl a name = Inr (Some p)" using b(1) Inr Some by simp
        ultimately show ?thesis by (auto simp: finalized_def)
      next
        case False
        then have "b = a'" using b(2) Inr Some by simp
        moreover have "cl_Get cl a name = Inr (Some p)" using b(1) Inr Some by simp
        ultimately show ?thesis using False b(1) by (auto simp: finalized_def)
      qed
    next
      case None
      have "b = a'" using b(2) unfolding Inr None by simp
      moreover have "cl_Get cl a name = Inr None" using b(1) Inr None by simp
      ultimately show ?thesis using b(1) by (simp add: finalized_def)
    qed
  qed (use b in simp)
qed

text \<open>C18. Reconciliation establishes the policy on the node: when it succeeds for an existing policy, the local
  group of a policy that selects the node exists and was last given exactly the policy's settings, and the group of
  a policy that is being deleted or does not select the node is gone; the finalizer is accordingly on the
  policy or off it; and the groups of all other policies are as they were.\<close>

theorem reconcile_establishes:
  assumes "client_ok cl" "\<And>b. cl_NodeLabels cl b = Inr nodeLabels" "cl_Get cl a name = Inr (Some policy)" "valid_group m name"
    and "qos_Reconcile n cl (local_ops os m) name (a, s) = ((a', s'), Inr ())"
  shows "group_as_wanted (local_has m) (local_applied m) nodeLabels policy s' \<and> finalized cl a' name (\<not> qo_deleting policy)
    \<and> (\<forall>h. valid_group m h \<and> h \<noteq> name \<longrightarrow> same_group (local_has m) (local_applied m) h s s')"
proof (intro conjI)
  have nm: "qo_name policy = name" by (rule client_okD(1)[OF assms(1,3)])
  show "group_as_wanted (local_has m) (local_applied m) nodeLabels policy s'"
    using local.reconcile_wanted[OF assms(5,3)] assms(2) by (auto simp: group_as_wanted_def)
  show "\<forall>h. valid_group m h \<and> h \<noteq> name \<longrightarrow> same_group (local_has m) (local_applied m) h s s'"
  proof (intro allI impI)
    fix h assume "valid_group m h \<and> h \<noteq> name"
    then show "same_group (local_has m) (local_applied m) h s s'"
      using local.reconcile_frame[where m = m and h = h and cl = cl and a = a and name = name and n = n and os = os and s = s] assms(3-5) nm by simp
  qed
  show "finalized cl a' name (\<not> qo_deleting policy)"
  proof (cases "qo_deleting policy")
    case True
    then obtain s1 where "removeFinalizerWithRetry n cl name defaultQoSPolicyFinalizer a = (a', Inr ())"
      using assms(3,5) by (auto simp: qos_Reconcile_def Let_def split: prod.splits sum.splits)
    from removeFinalizer_spec[OF assms(1) this] True show ?thesis by simp
  next
    case False
    then obtain a1 where "ensureFinalizerWithRetry n cl name defaultQoSPolicyFinalizer a = (a', Inr ())"
      using assms(3,5) by (auto simp: qos_Reconcile_def Let_def split: prod.splits sum.splits if_splits)
    from ensureFinalizer_spec[OF assms(1) this] False show ?thesis by simp
  qed
qed

text \<open>C21. The finalizer is shared by all nodes: once the first node has reconciled a policy that is being deleted,
  the policy is gone, and the reconciliation of any other node does nothing and reports success -- whatever group the
  other node has stays there for ever.\<close>

theorem finalizer_is_shared:
  assumes "client_ok cl" "cl_Get cl a name = Inr (Some policy)" "qo_deleting policy" "qo_finalizers policy = [defaultQoSPolicyFinalizer]"
    and "qos_Reconcile n cl (local_ops os1 m1) name (a, s1) = ((a', s1'), Inr ())"
  shows "cl_Get cl a' name = Inr None \<and> qos_Reconcile n cl (local_ops os2 m2) name (a', s2) = ((a', s2), Inr ())"
proof -
  have "removeFinalizerWithRetry n cl name defaultQoSPolicyFinalizer a = (a', Inr ())"
    using assms(2,3,5) by (auto simp: qos_Reconcile_def Let_def split: prod.splits sum.splits)
  with removeFinalizer_spec[OF assms(1)] assms(2-4) have "cl_Get cl a' name = Inr None" by blast
  then show ?thesis by (simp add: qos_Reconcile_def)
qed


section \<open>A store of policies\<close>

definition store_client :: "(string, string) gomap \<Rightarrow> (string \<Rightarrow> qos_obj option) qos_client" where
  "store_client labels =
     \<lparr>cl_Get = (\<lambda>a k. Inr (case a k of None \<Rightarrow> None | Some p \<Rightarrow> if qo_name p = k then Some p else None)),
      cl_Patch = (\<lambda>a old new. (a(qo_name new := (if qo_deleting new \<and> qo_finalizers new = [] then None else Some new)), Inr ())),
      cl_NodeLabels = (\<lambda>_. Inr labels)\<rparr>"

lemma store_client_ok: "client_ok (store_client labels)"
  by (auto simp: client_ok_def store_client_def split: option.splits if_splits)

definition demo_spec :: qos_spec where
  "demo_spec = \<lparr>sp_MB = \<lparr>mb_HDL = 1, mb_PRI = 3, mb_MIN = 0, mb_MAX = 90\<rparr>, sp_L3 = \<lparr>l3_PRI = 0, l3_MIN = 0, l3_MAX = 100, l3_Ways = 4\<rparr>,
     sp_NodeSelector = Some [(''zone'', ''a'')], sp_QoSLevel = 0\<rparr>"

definition demo_policy :: "bool \<Rightarrow> qos_obj" where
  "demo_policy del = \<lparr>qo_name = ''p'', qo_deleting = del, qo_finalizers = (if del then [defaultQoSPolicyFinalizer] else []), qo_spec = demo_spec\<rparr>"

definition demo_manager :: local_manager where
  "demo_manager = \<lparr>lm_RootDir = [], lm_NumaIDs = [0, 1], lm_CacheIDs = [7], lm_SupportedSchemataKeys = [''MB'', ''L3'']\<rparr>"

definition demo_resctrl_os :: resctrl_os where
  "demo_resctrl_os = \<lparr>ro_mkdir = (\<lambda>_. True), ro_remove = (\<lambda>_. True), ro_write = (\<lambda>_ _. True)\<rparr>"

definition empty_fs :: resctrl_fs where
  "empty_fs = \<lparr>rf_dirs = [], rf_written = []\<rparr>"

theorem reconcile_establishes_witness:
  "\<exists>a' s'. qos_Reconcile 4 (store_client [(''zone'', ''a'')]) (local_ops demo_resctrl_os demo_manager) ''p'' ([''p'' \<mapsto> demo_policy False], empty_fs)
      = ((a', s'), Inr ())
     \<and> group_as_wanted (local_has demo_manager) (local_applied demo_manager) [(''zone'', ''a'')] (demo_policy False) s'
     \<and> rf_written s' = [(''/sys/fs/resctrl/p/schemata'', [''MB:0=90;1=90'' @ [CHR 0x0A], ''L3:7=f'' @ [CHR 0x0A]])]"
proof -
  let ?cl = "store_client [(''zone'', ''a'')]" and ?a = "[''p'' \<mapsto> demo_policy False]"
  let ?r = "qos_Reconcile 4 ?cl (local_ops demo_resctrl_os demo_manager) ''p'' (?a, empty_fs)"
  have r: "snd ?r = Inr ()" "rf_written (snd (fst ?r)) = [(''/sys/fs/resctrl/p/schemata'', [''MB:0=90;1=90'' @ [CHR 0x0A], ''L3:7=f'' @ [CHR 0x0A]])]"
    by code_simp+
  have v: "valid_group demo_manager ''p''" by code_simp
  have g: "cl_Get ?cl ?a ''p'' = Inr (Some (demo_policy False))" by (simp add: store_client_def demo_policy_def)
  have l: "cl_NodeLabels ?cl b = Inr [(''zone'', ''a'')]" for b by (simp add: store_client_def)
  obtain a' s' where e: "?r = ((a', s'), Inr ())" using r(1) by (metis prod.collapse)
  from reconcile_establishes[OF store_client_ok l g v e] e r(2) show ?thesis by auto
qed

theorem finalizer_is_shared_witness:
  "\<exists>a'. fst (fst (qos_Reconcile 4 (store_client []) (local_ops demo_resctrl_os demo_manager) ''p'' ([''p'' \<mapsto> demo_policy True], empty_fs))) = a'
     \<and> (let other = empty_fs\<lparr>rf_dirs := [groupDir demo_manager ''p'']\<rparr>
        in qos_Reconcile 4 (store_client []) (local_ops demo_resctrl_os demo_manager) ''p'' (a', other) = ((a', other), Inr ())
           \<and> local_has demo_manager other ''p'')"
proof -
  let ?cl = "store_client []" and ?a = "[''p'' \<mapsto> demo_policy True]"
  let ?r = "qos_Reconcile 4 ?cl (local_ops demo_resctrl_os demo_manager) ''p'' (?a, empty_fs)"
  have r: "snd ?r = Inr ()" by code_simp
  have g: "cl_Get ?cl ?a ''p'' = Inr (Some (demo_policy True))" by (simp add: store_client_def demo_policy_def)
  obtain a' s' where e: "?r = ((a', s'), Inr ())" using r by (metis prod.collapse)
  have "qo_deleting (demo_policy True)" "qo_finalizers (demo_policy True) = [defaultQoSPolicyFinalizer]" by (simp_all add: demo_policy_def)
  from finalizer_is_shared[OF store_client_ok g this e] e show ?thesis by (auto simp: Let_def local_has_def)
qed

end
