(* ===== verification/QosDynamic.thy ===== *)
theory QosDynamic
  imports QosReconcile
begin

text \<open>
  Dynamic control of the QoS controller (\<^verbatim>\<open>pkg/kunpeng-qos-controller/dynamiccontrol\<close>): the interference reasons an
  external analyzer reports, and the policy of a node that is tightened on each report. The Kubernetes client and the
  agent's HTTP answers are arguments; decoding JSON is \<open>encoding/json\<close>: an answer is given decoded.
\<close>

section \<open>Reasons\<close>

definition reason_order :: "string list" where
  "reason_order = [''cpu'', ''mb'', ''l3'']"

definition normal_reason :: "string \<Rightarrow> string" where
  "normal_reason r = to_lower (trim_space r)"

definition normalizeInterferenceReasons :: "string list \<Rightarrow> bool \<Rightarrow> string list \<times> string list" where
  "normalizeInterferenceReasons reasons includeNone =
     (let seen = filter (\<lambda>r. (r = ''none'' \<and> includeNone) \<or> r \<in> set reason_order) (map normal_reason reasons);
          ignored = filter (\<lambda>r. normal_reason r \<noteq> ''none'' \<and> normal_reason r \<notin> set reason_order) reasons
      in ((if ''none'' \<in> set seen then [''none''] else []) @ filter (\<lambda>r. r \<in> set seen) reason_order, ignored))"

definition reason_of_code :: "int \<Rightarrow> string option" where
  "reason_of_code = map_of [(0, ''none''), (1, ''cpu''), (2, ''cpu''), (3, ''l3''), (4, ''mb''), (5, ''cpu''), (6, ''cpu'')]"

definition mapInterferenceReasonCodes :: "int list \<Rightarrow> string list \<times> int list" where
  "mapInterferenceReasonCodes codes =
     (fst (normalizeInterferenceReasons (List.map_filter reason_of_code codes) True),
      filter (\<lambda>c. reason_of_code c = None) codes)"

text \<open>The decoded answer: the node's name and the reason codes, \<open>None\<close> where the field is missing or not a list of numbers.\<close>

definition GetInterference :: "(string \<times> int list option) result \<Rightarrow> string \<Rightarrow> string list result" where
  "GetInterference answer nodeName =
     (if nodeName = [] then Inl (Err ''node name must not be empty'')
      else (case answer of
              Inl e \<Rightarrow> Inl e
            | Inr (node, codes) \<Rightarrow>
                if node \<noteq> nodeName then Inl (Err ''unexpected interference response node'')
                else (case codes of
                        None \<Rightarrow> Inl (Err ''reason_codes'')
                      | Some cs \<Rightarrow> Inr (fst (mapInterferenceReasonCodes cs)))))"

section \<open>The policy of a node\<close>

record dynamic_updater =
  MBStep :: int
  L3WaysStep :: int
  L3MaxStep :: int

definition NewQoSPolicyDynamicUpdater :: dynamic_updater where
  "NewQoSPolicyDynamicUpdater = \<lparr>MBStep = 10, L3WaysStep = 1, L3MaxStep = 10\<rparr>"

definition dynamicPolicyName :: "string \<Rightarrow> string" where
  "dynamicPolicyName nodeName =
     (let name = replace_char (CHR ''_'') (CHR ''-'') (replace_char (CHR ''.'') (CHR ''-'') (to_lower (trim_space nodeName)))
      in ''qos-dynamic-offline-'' @ (if name = [] then ''unknown-node'' else name))"

definition node_selector_key :: string where
  "node_selector_key = ''kubernetes.io/hostname''"

definition defaultDynamicPolicySpec :: "string \<Rightarrow> qos_spec" where
  "defaultDynamicPolicySpec nodeName =
     \<lparr>sp_MB = \<lparr>mb_HDL = 1, mb_PRI = 3, mb_MIN = 0, mb_MAX = 100\<rparr>, sp_L3 = \<lparr>l3_PRI = 0, l3_MIN = 0, l3_MAX = 100, l3_Ways = 4\<rparr>,
      sp_NodeSelector = Some [(node_selector_key, nodeName)], sp_QoSLevel = 0\<rparr>"

definition maxInt32 :: "int \<Rightarrow> int \<Rightarrow> int" where
  "maxInt32 v low = (if v < low then low else v)"

definition apply_reason :: "dynamic_updater \<Rightarrow> qos_spec \<Rightarrow> string \<Rightarrow> qos_spec" where
  "apply_reason u spec reason =
     (if reason = ''mb''
      then spec\<lparr>sp_MB := (sp_MB spec)\<lparr>mb_MAX := maxInt32 (wrap_i32 (mb_MAX (sp_MB spec) - MBStep u)) 1\<rparr>\<rparr>
      else if reason = ''l3''
      then spec\<lparr>sp_L3 := (sp_L3 spec)\<lparr>l3_Ways := maxInt32 (wrap_i32 (l3_Ways (sp_L3 spec) - L3WaysStep u)) 1,
                                      l3_MAX := maxInt32 (wrap_i32 (l3_MAX (sp_L3 spec) - L3MaxStep u)) 1\<rparr>\<rparr>
      else if reason = ''cpu'' then spec\<lparr>sp_QoSLevel := -1\<rparr>
      else spec)"

definition applyReasonsToSpec :: "dynamic_updater \<Rightarrow> qos_spec \<Rightarrow> string list \<Rightarrow> qos_spec" where
  "applyReasonsToSpec u spec reasons = foldl (apply_reason u) spec reasons"

text \<open>
  A copy of a spec shares the selector's map: the key that is set for the node appears in the original too, unless
  the original has no map at all.
\<close>

definition with_node :: "string \<Rightarrow> qos_spec \<Rightarrow> qos_spec" where
  "with_node nodeName spec =
     spec\<lparr>sp_NodeSelector := Some (AList.update node_selector_key nodeName (case sp_NodeSelector spec of None \<Rightarrow> [] | Some m \<Rightarrow> m))\<rparr>"

definition aliased :: "string \<Rightarrow> qos_spec \<Rightarrow> qos_spec" where
  "aliased nodeName spec = (if sp_NodeSelector spec = None then spec else with_node nodeName spec)"

definition desired_spec :: "dynamic_updater \<Rightarrow> string \<Rightarrow> qos_spec \<Rightarrow> string list \<Rightarrow> qos_spec" where
  "desired_spec u nodeName spec reasons =
     (let d = with_node nodeName spec;
          d = (if l3_Ways (sp_L3 d) < 1 then d\<lparr>sp_L3 := (sp_L3 d)\<lparr>l3_Ways := 1\<rparr>\<rparr> else d)
      in applyReasonsToSpec u d reasons)"

record 'a dynamic_client =
  dc_Get :: "'a \<Rightarrow> string \<Rightarrow> qos_obj option result"
  dc_Create :: "'a \<Rightarrow> qos_obj \<Rightarrow> 'a \<times> unit result"
  dc_Update :: "'a \<Rightarrow> qos_obj \<Rightarrow> 'a \<times> unit result"

text \<open>What the updater asks of the API server after it has read the policy.\<close>

datatype dynamic_call = NoCall | CreateCall qos_obj | UpdateCall qos_obj | GetFailed go_error

definition new_policy :: "string \<Rightarrow> qos_spec \<Rightarrow> qos_obj" where
  "new_policy nodeName spec = \<lparr>qo_name = dynamicPolicyName nodeName, qo_deleting = False, qo_finalizers = [], qo_spec = spec\<rparr>"

definition plan_reasons :: "dynamic_updater \<Rightarrow> string \<Rightarrow> string list \<Rightarrow> qos_obj option result \<Rightarrow> dynamic_call" where
  "plan_reasons u nodeName reasons got =
     (case got of
        Inl e \<Rightarrow> GetFailed e
      | Inr None \<Rightarrow> CreateCall (new_policy nodeName (applyReasonsToSpec u (defaultDynamicPolicySpec nodeName) reasons))
      | Inr (Some current) \<Rightarrow>
          (let desired = desired_spec u nodeName (qo_spec current) reasons
           in if aliased nodeName (qo_spec current) = desired then NoCall else UpdateCall (current\<lparr>qo_spec := desired\<rparr>)))"

definition perform :: "'a dynamic_client \<Rightarrow> 'a \<Rightarrow> dynamic_call \<Rightarrow> 'a \<times> unit result" where
  "perform cl a call =
     (case call of NoCall \<Rightarrow> (a, Inr ()) | CreateCall p \<Rightarrow> dc_Create cl a p | UpdateCall p \<Rightarrow> dc_Update cl a p
      | GetFailed e \<Rightarrow> (a, Inl e))"

definition ApplyReasons :: "'a dynamic_client \<Rightarrow> dynamic_updater \<Rightarrow> string \<Rightarrow> string list \<Rightarrow> 'a \<Rightarrow> 'a \<times> unit result" where
  "ApplyReasons cl u nodeName reasons a =
     (if trim_space nodeName = [] then (a, Inl (Err ''node name must not be empty''))
      else (let normal = fst (normalizeInterferenceReasons reasons False) in
            if normal = [] then (a, Inr ())
            else perform cl a (plan_reasons u nodeName normal (dc_Get cl a (dynamicPolicyName nodeName)))))"

definition EnsurePolicy :: "'a dynamic_client \<Rightarrow> string \<Rightarrow> 'a \<Rightarrow> 'a \<times> unit result" where
  "EnsurePolicy cl nodeName a =
     (if trim_space nodeName = [] then (a, Inl (Err ''node name must not be empty''))
      else (case dc_Get cl a (dynamicPolicyName nodeName) of
              Inr (Some _) \<Rightarrow> (a, Inr ())
            | Inl e \<Rightarrow> (a, Inl e)
            | Inr None \<Rightarrow> dc_Create cl a (new_policy nodeName (defaultDynamicPolicySpec nodeName))))"

definition HandleInterference :: "'a dynamic_client \<Rightarrow> dynamic_updater \<Rightarrow> string \<Rightarrow> string list \<Rightarrow> 'a \<Rightarrow> 'a \<times> unit result" where
  "HandleInterference cl u nodeName reasons a =
     (if nodeName = [] then (a, Inl (Err ''node name must not be empty''))
      else (let normal = fst (normalizeInterferenceReasons reasons False) in
            if normal = [] then (a, Inr ()) else ApplyReasons cl u nodeName normal a))"

definition EnsurePolicyOnce :: "'a dynamic_client \<Rightarrow> string \<Rightarrow> 'a \<Rightarrow> 'a \<times> unit result" where
  "EnsurePolicyOnce cl nodeName a =
     (if nodeName = [] then (a, Inl (Err ''node name must not be empty'')) else EnsurePolicy cl nodeName a)"

definition ApplyInterferenceOnce ::
  "'a dynamic_client \<Rightarrow> dynamic_updater \<Rightarrow> string \<Rightarrow> (string \<times> int list option) result \<Rightarrow> 'a \<Rightarrow> 'a \<times> unit result" where
  "ApplyInterferenceOnce cl u nodeName answer a =
     (if nodeName = [] then (a, Inl (Err ''node name must not be empty''))
      else (case GetInterference answer nodeName of
              Inl e \<Rightarrow> (a, Inl e)
            | Inr reasons \<Rightarrow> HandleInterference cl u nodeName reasons a))"


section \<open>What the CRD accepts\<close>

text \<open>The ranges and the transition rule in the comments of \<^verbatim>\<open>qospolicy_types.go\<close>, which the API server enforces.\<close>

definition spec_valid :: "qos_spec \<Rightarrow> bool" where
  "spec_valid s \<longleftrightarrow>
     mb_HDL (sp_MB s) \<in> {0..1} \<and> mb_PRI (sp_MB s) \<in> {0..7} \<and> mb_MIN (sp_MB s) \<in> {0..100} \<and> mb_MAX (sp_MB s) \<in> {0..100}
     \<and> l3_PRI (sp_L3 s) \<in> {0..3} \<and> l3_MIN (sp_L3 s) \<in> {0..100} \<and> l3_MAX (sp_L3 s) \<in> {0..100}
     \<and> l3_Ways (sp_L3 s) \<in> {1..2147483647} \<and> sp_QoSLevel s \<in> {-1..1}"

definition level_update_ok :: "int \<Rightarrow> int \<Rightarrow> bool" where
  "level_update_ok old new \<longleftrightarrow> new = old \<or> old = 0"

definition steps_ok :: "dynamic_updater \<Rightarrow> bool" where
  "steps_ok u \<longleftrightarrow> MBStep u \<in> {1..2147483647} \<and> L3WaysStep u \<in> {1..2147483647} \<and> L3MaxStep u \<in> {1..2147483647}"

definition i32_nat :: "int \<Rightarrow> bool" where
  "i32_nat x \<longleftrightarrow> 0 \<le> x \<and> x \<le> 2147483647"

lemma lowered:
  assumes "i32_nat x" "1 \<le> d" "d \<le> 2147483647"
  shows "1 \<le> maxInt32 (wrap_i32 (x - d)) 1" "maxInt32 (wrap_i32 (x - d)) 1 \<le> max 1 (x - 1)" "i32_nat (maxInt32 (wrap_i32 (x - d)) 1)"
proof -
  have "in_i32 (x - d)" using assms by (simp add: i32_nat_def in_i32_def)
  then show "1 \<le> maxInt32 (wrap_i32 (x - d)) 1" "maxInt32 (wrap_i32 (x - d)) 1 \<le> max 1 (x - 1)" "i32_nat (maxInt32 (wrap_i32 (x - d)) 1)"
    using assms by (simp_all add: maxInt32_def i32_nat_def)
qed

text \<open>The effect of one round on each field; \<open>tightens b x y\<close> bounds a field that \<open>b\<close> says is lowered.\<close>

definition tightens :: "bool \<Rightarrow> int \<Rightarrow> int \<Rightarrow> bool" where
  "tightens b x y \<longleftrightarrow> (if b then 1 \<le> y \<and> y \<le> max 1 (x - 1) else y = x)"

definition round_ok :: "string list \<Rightarrow> qos_spec \<Rightarrow> qos_spec \<Rightarrow> bool" where
  "round_ok rs s t \<longleftrightarrow>
     sp_NodeSelector t = sp_NodeSelector s \<and> sp_QoSLevel t = (if ''cpu'' \<in> set rs then -1 else sp_QoSLevel s)
     \<and> (\<exists>y. sp_MB t = (sp_MB s)\<lparr>mb_MAX := y\<rparr> \<and> tightens (''mb'' \<in> set rs) (mb_MAX (sp_MB s)) y)
     \<and> (\<exists>y z. sp_L3 t = (sp_L3 s)\<lparr>l3_Ways := y, l3_MAX := z\<rparr> \<and> tightens (''l3'' \<in> set rs) (l3_Ways (sp_L3 s)) y
          \<and> tightens (''l3'' \<in> set rs) (l3_MAX (sp_L3 s)) z)"

definition fields_ok :: "qos_spec \<Rightarrow> bool" where
  "fields_ok s \<longleftrightarrow> i32_nat (mb_MAX (sp_MB s)) \<and> i32_nat (l3_Ways (sp_L3 s)) \<and> i32_nat (l3_MAX (sp_L3 s))"

lemma tightens_more: "tightens b x y \<Longrightarrow> 1 \<le> z \<Longrightarrow> z \<le> max 1 (y - 1) \<Longrightarrow> tightens True x z"
  by (auto simp: tightens_def split: if_splits)

lemma tightens_refl: "tightens False x x"
  by (simp add: tightens_def)

lemma spec_eqI:
  fixes s t :: qos_spec
  assumes "sp_MB s = sp_MB t" "sp_L3 s = sp_L3 t" "sp_NodeSelector s = sp_NodeSelector t" "sp_QoSLevel s = sp_QoSLevel t"
  shows "s = t"
  using assms by (cases s; cases t) simp

lemma apply_round:
  assumes "steps_ok u" "fields_ok s"
  shows "round_ok rs s (applyReasonsToSpec u s rs) \<and> fields_ok (applyReasonsToSpec u s rs)"
proof (induction rs rule: rev_induct)
  case Nil
  have "sp_MB s = (sp_MB s)\<lparr>mb_MAX := mb_MAX (sp_MB s)\<rparr>" "sp_L3 s = (sp_L3 s)\<lparr>l3_Ways := l3_Ways (sp_L3 s), l3_MAX := l3_MAX (sp_L3 s)\<rparr>"
    by simp_all
  then show ?case using assms(2) unfolding applyReasonsToSpec_def round_ok_def by (auto simp: tightens_def)
next
  case (snoc r rs)
  let ?t = "applyReasonsToSpec u s rs"
  obtain y a b where t: "sp_NodeSelector ?t = sp_NodeSelector s" "sp_QoSLevel ?t = (if ''cpu'' \<in> set rs then -1 else sp_QoSLevel s)"
    "sp_MB ?t = (sp_MB s)\<lparr>mb_MAX := y\<rparr>" "tightens (''mb'' \<in> set rs) (mb_MAX (sp_MB s)) y"
    "sp_L3 ?t = (sp_L3 s)\<lparr>l3_Ways := a, l3_MAX := b\<rparr>" "tightens (''l3'' \<in> set rs) (l3_Ways (sp_L3 s)) a" "tightens (''l3'' \<in> set rs) (l3_MAX (sp_L3 s)) b"
    using snoc unfolding round_ok_def by blast
  have i: "i32_nat y" "i32_nat a" "i32_nat b" using snoc t(3,5) by (simp_all add: fields_ok_def)
  have step: "applyReasonsToSpec u s (rs @ [r]) = apply_reason u ?t r" by (simp add: applyReasonsToSpec_def)
  note d = assms(1)[unfolded steps_ok_def]
  consider "r = ''mb''" | "r = ''l3''" | "r = ''cpu''" | "r \<noteq> ''mb''" "r \<noteq> ''l3''" "r \<noteq> ''cpu''" by blast
  then show ?case
  proof cases
    case 1
    let ?y = "maxInt32 (wrap_i32 (y - MBStep u)) 1"
    have l: "1 \<le> ?y" "?y \<le> max 1 (y - 1)" "i32_nat ?y" using lowered[OF i(1), of "MBStep u"] d by simp_all
    have "sp_MB (apply_reason u ?t r) = (sp_MB s)\<lparr>mb_MAX := ?y\<rparr>" "sp_L3 (apply_reason u ?t r) = sp_L3 ?t"
      "sp_NodeSelector (apply_reason u ?t r) = sp_NodeSelector s" "sp_QoSLevel (apply_reason u ?t r) = sp_QoSLevel ?t"
      using 1 t by (simp_all add: apply_reason_def)
    then show ?thesis unfolding step round_ok_def fields_ok_def
      using t l i 1 tightens_more[OF t(4) l(1,2)] by auto
  next
    case 2
    let ?a = "maxInt32 (wrap_i32 (a - L3WaysStep u)) 1" and ?b = "maxInt32 (wrap_i32 (b - L3MaxStep u)) 1"
    have l: "1 \<le> ?a" "?a \<le> max 1 (a - 1)" "i32_nat ?a" using lowered[OF i(2), of "L3WaysStep u"] d by simp_all
    have m: "1 \<le> ?b" "?b \<le> max 1 (b - 1)" "i32_nat ?b" using lowered[OF i(3), of "L3MaxStep u"] d by simp_all
    have "sp_MB (apply_reason u ?t r) = sp_MB ?t" "sp_L3 (apply_reason u ?t r) = (sp_L3 s)\<lparr>l3_Ways := ?a, l3_MAX := ?b\<rparr>"
      "sp_NodeSelector (apply_reason u ?t r) = sp_NodeSelector s" "sp_QoSLevel (apply_reason u ?t r) = sp_QoSLevel ?t"
      using 2 t by (simp_all add: apply_reason_def)
    then show ?thesis unfolding step round_ok_def fields_ok_def
      using t l m i 2 tightens_more[OF t(6) l(1,2)] tightens_more[OF t(7) m(1,2)] by auto
  next
    case 3
    have "sp_MB (apply_reason u ?t r) = sp_MB ?t" "sp_L3 (apply_reason u ?t r) = sp_L3 ?t"
      "sp_NodeSelector (apply_reason u ?t r) = sp_NodeSelector s" "sp_QoSLevel (apply_reason u ?t r) = -1"
      using 3 t by (simp_all add: apply_reason_def)
    then show ?thesis unfolding step round_ok_def fields_ok_def using t i 3 by auto
  next
    case 4
    then have "apply_reason u ?t r = ?t" by (simp add: apply_reason_def)
    then show ?thesis unfolding step using snoc 4 by (simp add: round_ok_def)
  qed
qed


lemma with_node_fields [simp]:
  "sp_MB (with_node n s) = sp_MB s" "sp_L3 (with_node n s) = sp_L3 s" "sp_QoSLevel (with_node n s) = sp_QoSLevel s"
  "map_of (the (sp_NodeSelector (with_node n s))) node_selector_key = Some n" "sp_NodeSelector (with_node n s) \<noteq> None"
  by (simp_all add: with_node_def)

lemma update_same: "map_of m k = Some v \<Longrightarrow> AList.update k v m = m"
  by (induction m) auto

lemma with_node_idem: "map_of (the (sp_NodeSelector s)) node_selector_key = Some n \<Longrightarrow> sp_NodeSelector s \<noteq> None \<Longrightarrow> with_node n s = s"
  by (auto intro!: spec_eqI simp: with_node_def update_same)

lemma desired_round:
  assumes "steps_ok u" "spec_valid s"
  shows "round_ok rs (with_node n s) (desired_spec u n s rs)"
proof -
  have "\<not> l3_Ways (sp_L3 (with_node n s)) < 1" "fields_ok (with_node n s)"
    using assms(2) by (simp_all add: spec_valid_def fields_ok_def i32_nat_def)
  then show ?thesis using apply_round[OF assms(1), of "with_node n s" rs] by (simp add: desired_spec_def Let_def)
qed

lemma round_valid:
  assumes "round_ok rs s t" "spec_valid s"
  shows "spec_valid t"
proof -
  obtain y a b where t: "sp_QoSLevel t = (if ''cpu'' \<in> set rs then -1 else sp_QoSLevel s)"
    "sp_MB t = (sp_MB s)\<lparr>mb_MAX := y\<rparr>" "tightens (''mb'' \<in> set rs) (mb_MAX (sp_MB s)) y"
    "sp_L3 t = (sp_L3 s)\<lparr>l3_Ways := a, l3_MAX := b\<rparr>" "tightens (''l3'' \<in> set rs) (l3_Ways (sp_L3 s)) a" "tightens (''l3'' \<in> set rs) (l3_MAX (sp_L3 s)) b"
    using assms(1) unfolding round_ok_def by blast
  show ?thesis using assms(2) t(3,5,6) unfolding spec_valid_def t(1,2,4) by (auto simp: tightens_def split: if_splits)
qed

lemma spec_valid_node [simp]: "spec_valid (with_node n s) = spec_valid s"
  by (simp add: spec_valid_def)

lemma default_valid: "spec_valid (defaultDynamicPolicySpec n)"
  by (simp add: spec_valid_def defaultDynamicPolicySpec_def)

text \<open>C19. The updater never asks for a policy the CRD's ranges forbid: from any valid policy and any reasons, what it
  creates or updates is valid, is named after the node and selects it; an update lowers or keeps each limit it touches
  (never below 1) and leaves all other settings alone; and the API server's transition rule for the CPU level is
  met except when CPU interference hits a policy whose level is 1, in which case it is always broken.\<close>

theorem dynamic_policy_valid:
  assumes "steps_ok u" "\<And>p. got = Inr (Some p) \<Longrightarrow> spec_valid (qo_spec p)"
  shows "case plan_reasons u node rs got of
      CreateCall p \<Rightarrow> qo_name p = dynamicPolicyName node \<and> spec_valid (qo_spec p) \<and> sp_NodeSelector (qo_spec p) = Some [(node_selector_key, node)]
    | UpdateCall p \<Rightarrow> (\<exists>old. got = Inr (Some old) \<and> qo_name p = qo_name old \<and> spec_valid (qo_spec p)
        \<and> round_ok rs (with_node node (qo_spec old)) (qo_spec p)
        \<and> (level_update_ok (sp_QoSLevel (qo_spec old)) (sp_QoSLevel (qo_spec p)) \<longleftrightarrow> \<not> (''cpu'' \<in> set rs \<and> sp_QoSLevel (qo_spec old) = 1)))
    | NoCall \<Rightarrow> \<exists>old. got = Inr (Some old)
    | GetFailed e \<Rightarrow> got = Inl e"
proof (cases got)
  case (Inr r)
  show ?thesis
  proof (cases r)
    case None
    have "round_ok rs (defaultDynamicPolicySpec node) (applyReasonsToSpec u (defaultDynamicPolicySpec node) rs)"
      using apply_round[OF assms(1)] by (simp add: fields_ok_def i32_nat_def defaultDynamicPolicySpec_def)
    from round_valid[OF this default_valid] this show ?thesis
      using Inr None by (simp add: plan_reasons_def new_policy_def round_ok_def defaultDynamicPolicySpec_def)
  next
    case (Some old)
    have v: "spec_valid (qo_spec old)" using assms(2) Inr Some by simp
    note r = desired_round[OF assms(1) v, of rs node]
    have w: "spec_valid (desired_spec u node (qo_spec old) rs)" using round_valid[OF r] v by simp
    have l: "sp_QoSLevel (desired_spec u node (qo_spec old) rs) = (if ''cpu'' \<in> set rs then -1 else sp_QoSLevel (qo_spec old))"
      using r by (simp add: round_ok_def)
    have "sp_QoSLevel (qo_spec old) \<in> {-1, 0, 1}" using v by (auto simp: spec_valid_def)
    then have "level_update_ok (sp_QoSLevel (qo_spec old)) (sp_QoSLevel (desired_spec u node (qo_spec old) rs))
        \<longleftrightarrow> \<not> (''cpu'' \<in> set rs \<and> sp_QoSLevel (qo_spec old) = 1)"
      unfolding l by (auto simp: level_update_ok_def)
    with r w show ?thesis using Inr Some by (simp add: plan_reasons_def Let_def)
  qed
qed (simp add: plan_reasons_def)

section \<open>Quiescence\<close>

definition tightened_by :: "nat \<Rightarrow> bool \<Rightarrow> int \<Rightarrow> int \<Rightarrow> bool" where
  "tightened_by n b x y \<longleftrightarrow> (if b then 1 \<le> y \<and> y \<le> max 1 (x - int n) else y = x)"

definition rounds_ok :: "nat \<Rightarrow> string list \<Rightarrow> qos_spec \<Rightarrow> qos_spec \<Rightarrow> bool" where
  "rounds_ok n rs s t \<longleftrightarrow>
     sp_NodeSelector t = sp_NodeSelector s \<and> sp_QoSLevel t = (if ''cpu'' \<in> set rs then -1 else sp_QoSLevel s)
     \<and> (\<exists>y. sp_MB t = (sp_MB s)\<lparr>mb_MAX := y\<rparr> \<and> tightened_by n (''mb'' \<in> set rs) (mb_MAX (sp_MB s)) y)
     \<and> (\<exists>y z. sp_L3 t = (sp_L3 s)\<lparr>l3_Ways := y, l3_MAX := z\<rparr> \<and> tightened_by n (''l3'' \<in> set rs) (l3_Ways (sp_L3 s)) y
          \<and> tightened_by n (''l3'' \<in> set rs) (l3_MAX (sp_L3 s)) z)"

lemma tightened_step: "tightened_by n b x y \<Longrightarrow> tightens b y z \<Longrightarrow> tightened_by (Suc n) b x z"
  by (auto simp: tightened_by_def tightens_def split: if_splits)

lemma rounds_step:
  assumes "rounds_ok n rs s t" "round_ok rs t v"
  shows "rounds_ok (Suc n) rs s v"
proof -
  obtain y a b where t: "sp_NodeSelector t = sp_NodeSelector s" "sp_QoSLevel t = (if ''cpu'' \<in> set rs then -1 else sp_QoSLevel s)"
    "sp_MB t = (sp_MB s)\<lparr>mb_MAX := y\<rparr>" "tightened_by n (''mb'' \<in> set rs) (mb_MAX (sp_MB s)) y"
    "sp_L3 t = (sp_L3 s)\<lparr>l3_Ways := a, l3_MAX := b\<rparr>" "tightened_by n (''l3'' \<in> set rs) (l3_Ways (sp_L3 s)) a"
    "tightened_by n (''l3'' \<in> set rs) (l3_MAX (sp_L3 s)) b"
    using assms(1) unfolding rounds_ok_def by blast
  obtain y' a' b' where v: "sp_NodeSelector v = sp_NodeSelector t" "sp_QoSLevel v = (if ''cpu'' \<in> set rs then -1 else sp_QoSLevel t)"
    "sp_MB v = (sp_MB t)\<lparr>mb_MAX := y'\<rparr>" "tightens (''mb'' \<in> set rs) y y'"
    "sp_L3 v = (sp_L3 t)\<lparr>l3_Ways := a', l3_MAX := b'\<rparr>" "tightens (''l3'' \<in> set rs) a a'" "tightens (''l3'' \<in> set rs) b b'"
    using assms(2) t(3,5) unfolding round_ok_def by auto
  have "sp_NodeSelector v = sp_NodeSelector s" "sp_QoSLevel v = (if ''cpu'' \<in> set rs then -1 else sp_QoSLevel s)"
    "sp_MB v = (sp_MB s)\<lparr>mb_MAX := y'\<rparr>" "sp_L3 v = (sp_L3 s)\<lparr>l3_Ways := a', l3_MAX := b'\<rparr>"
    using t(1-3,5) v(1-3,5) by simp_all
  then show ?thesis unfolding rounds_ok_def
    using tightened_step[OF t(4) v(4)] tightened_step[OF t(6) v(6)] tightened_step[OF t(7) v(7)] by blast
qed

lemma round_first: "round_ok rs s t \<Longrightarrow> rounds_ok 1 rs s t"
proof -
  have "tightened_by 1 = tightens" by (intro ext) (simp add: tightened_by_def tightens_def)
  then show "round_ok rs s t \<Longrightarrow> rounds_ok 1 rs s t" unfolding round_ok_def rounds_ok_def by simp
qed

lemma rounds_iterate:
  assumes "steps_ok u" "spec_valid s"
  shows "rounds_ok (Suc n) rs (with_node node s) (((\<lambda>s. desired_spec u node s rs) ^^ Suc n) s)
     \<and> spec_valid (((\<lambda>s. desired_spec u node s rs) ^^ Suc n) s)"
proof (induction n)
  case 0
  note r = desired_round[OF assms, of rs node]
  show ?case using round_first[OF r] round_valid[OF r] assms(2) by simp
next
  case (Suc n)
  let ?t = "((\<lambda>s. desired_spec u node s rs) ^^ Suc n) s"
  have v: "spec_valid ?t" and ro: "rounds_ok (Suc n) rs (with_node node s) ?t" using Suc by blast+
  have sel: "sp_NodeSelector ?t = sp_NodeSelector (with_node node s)" using ro unfolding rounds_ok_def by blast
  have wn: "with_node node ?t = ?t" by (rule with_node_idem) (simp_all add: sel del: funpow.simps)
  have r: "round_ok rs ?t (desired_spec u node ?t rs)" using desired_round[OF assms(1) v, of rs node] unfolding wn .
  have "((\<lambda>s. desired_spec u node s rs) ^^ Suc (Suc n)) s = desired_spec u node ?t rs" by simp
  with rounds_step[OF ro r] round_valid[OF r v] show ?case by metis
qed

lemma rounds_floor:
  assumes "rounds_ok n rs s t" "rounds_ok (Suc n) rs s v"
    and "mb_MAX (sp_MB s) - int n \<le> 1" "l3_Ways (sp_L3 s) - int n \<le> 1" "l3_MAX (sp_L3 s) - int n \<le> 1"
  shows "v = t"
proof -
  have floor: "z = y" if "tightened_by n b x y" "tightened_by (Suc n) b x z" "x - int n \<le> 1" for b x y z
    using that by (auto simp: tightened_by_def split: if_splits)
  obtain y a b where t: "sp_NodeSelector t = sp_NodeSelector s" "sp_QoSLevel t = (if ''cpu'' \<in> set rs then -1 else sp_QoSLevel s)"
    "sp_MB t = (sp_MB s)\<lparr>mb_MAX := y\<rparr>" "tightened_by n (''mb'' \<in> set rs) (mb_MAX (sp_MB s)) y"
    "sp_L3 t = (sp_L3 s)\<lparr>l3_Ways := a, l3_MAX := b\<rparr>" "tightened_by n (''l3'' \<in> set rs) (l3_Ways (sp_L3 s)) a"
    "tightened_by n (''l3'' \<in> set rs) (l3_MAX (sp_L3 s)) b"
    using assms(1) unfolding rounds_ok_def by blast
  obtain y' a' b' where v: "sp_NodeSelector v = sp_NodeSelector s" "sp_QoSLevel v = (if ''cpu'' \<in> set rs then -1 else sp_QoSLevel s)"
    "sp_MB v = (sp_MB s)\<lparr>mb_MAX := y'\<rparr>" "tightened_by (Suc n) (''mb'' \<in> set rs) (mb_MAX (sp_MB s)) y'"
    "sp_L3 v = (sp_L3 s)\<lparr>l3_Ways := a', l3_MAX := b'\<rparr>" "tightened_by (Suc n) (''l3'' \<in> set rs) (l3_Ways (sp_L3 s)) a'"
    "tightened_by (Suc n) (''l3'' \<in> set rs) (l3_MAX (sp_L3 s)) b'"
    using assms(2) unfolding rounds_ok_def by blast
  have "y' = y" "a' = a" "b' = b" using floor[OF t(4) v(4) assms(3)] floor[OF t(6) v(6) assms(4)] floor[OF t(7) v(7) assms(5)] by simp_all
  with t v show ?thesis by (intro spec_eqI) simp_all
qed

text \<open>The control loop comes to rest: whatever reasons keep being reported, after as many rounds as the larger of
  100 and the policy's cache ways the updater makes no further call to the API server.\<close>

theorem dynamic_quiesces:
  assumes "steps_ok u" "spec_valid (qo_spec p)" "100 \<le> n" "l3_Ways (sp_L3 (qo_spec p)) \<le> int n"
  shows "plan_reasons u node rs (Inr (Some (p\<lparr>qo_spec := ((\<lambda>s. desired_spec u node s rs) ^^ n) (qo_spec p)\<rparr>))) = NoCall"
proof -
  let ?s = "qo_spec p" and ?f = "\<lambda>s. desired_spec u node s rs"
  obtain k where n: "n = Suc k" using assms(3) by (cases n) auto
  let ?t = "(?f ^^ n) ?s" and ?v = "(?f ^^ Suc n) ?s"
  have t: "rounds_ok n rs (with_node node ?s) ?t" using rounds_iterate[OF assms(1,2), of k rs node] n by simp
  have v: "rounds_ok (Suc n) rs (with_node node ?s) ?v" using rounds_iterate[OF assms(1,2), of n rs node] by blast
  have le: "mb_MAX (sp_MB ?s) - int n \<le> 1" "l3_Ways (sp_L3 ?s) - int n \<le> 1" "l3_MAX (sp_L3 ?s) - int n \<le> 1"
    using assms(2-4) by (simp_all add: spec_valid_def)
  have "?v = ?t" using rounds_floor[OF t v] le by simp
  moreover have "?v = desired_spec u node ?t rs" by simp
  moreover have "aliased node ?t = ?t"
  proof -
    have sel: "sp_NodeSelector ?t = sp_NodeSelector (with_node node ?s)" using t unfolding rounds_ok_def by blast
    have "with_node node ?t = ?t" by (rule with_node_idem) (simp_all add: sel)
    then show ?thesis by (simp add: aliased_def)
  qed
  ultimately show ?thesis by (simp add: plan_reasons_def)
qed

theorem dynamic_policy_valid_witness:
  "plan_reasons NewQoSPolicyDynamicUpdater ''n1'' [''cpu''] (Inr (Some (demo_policy False)))
     = UpdateCall ((demo_policy False)\<lparr>qo_spec := demo_spec\<lparr>sp_NodeSelector := Some [(''zone'', ''a''), (node_selector_key, ''n1'')], sp_QoSLevel := -1\<rparr>\<rparr>)
   \<and> spec_valid (demo_spec\<lparr>sp_NodeSelector := Some [(''zone'', ''a''), (node_selector_key, ''n1'')], sp_QoSLevel := -1\<rparr>)"
proof -
  have c: "plan_reasons NewQoSPolicyDynamicUpdater ''n1'' [''cpu''] (Inr (Some (demo_policy False)))
     = UpdateCall ((demo_policy False)\<lparr>qo_spec := demo_spec\<lparr>sp_NodeSelector := Some [(''zone'', ''a''), (node_selector_key, ''n1'')], sp_QoSLevel := -1\<rparr>\<rparr>)"
    by code_simp
  have s: "steps_ok NewQoSPolicyDynamicUpdater" "spec_valid demo_spec"
    by (simp_all add: steps_ok_def NewQoSPolicyDynamicUpdater_def spec_valid_def demo_spec_def)
  have v: "spec_valid (qo_spec q)" if "Inr (Some (demo_policy False)) = (Inr (Some q) :: qos_obj option result)" for q
    using that s(2) by (auto simp: demo_policy_def)
  note t = dynamic_policy_valid[where u = NewQoSPolicyDynamicUpdater and got = "Inr (Some (demo_policy False))"
      and node = "''n1''" and rs = "[''cpu'']", OF s(1) v, simplified c dynamic_call.case]
  from t c show ?thesis by auto
qed

theorem dynamic_quiesces_witness:
  "plan_reasons NewQoSPolicyDynamicUpdater ''n1'' [''mb'', ''l3'']
     (Inr (Some ((demo_policy False)\<lparr>qo_spec := ((\<lambda>s. desired_spec NewQoSPolicyDynamicUpdater ''n1'' s [''mb'', ''l3'']) ^^ 100) demo_spec\<rparr>))) = NoCall"
proof -
  have s: "steps_ok NewQoSPolicyDynamicUpdater" "spec_valid demo_spec" "l3_Ways (sp_L3 demo_spec) \<le> 100"
    by (simp_all add: steps_ok_def NewQoSPolicyDynamicUpdater_def spec_valid_def demo_spec_def)
  have d: "qo_spec (demo_policy False) = demo_spec" by (simp add: demo_policy_def)
  show ?thesis using dynamic_quiesces[OF s(1), of "demo_policy False" 100 "''n1''" "[''mb'', ''l3'']"] s(2,3) unfolding d by simp
qed

end
