(* ===== verification/QosBinding.thy ===== *)
theory QosBinding
  imports QosDynamic ContainerContext
begin

text \<open>
  Binding pods to resctrl groups (\<^verbatim>\<open>pkg/kunpeng-qos-controller/controller/pod_binding_reconciler.go\<close>,
  \<^verbatim>\<open>pod_binding_actions.go\<close>, \<^verbatim>\<open>pod_process_binder.go\<close>, \<^verbatim>\<open>node_identity.go\<close>), the cgroup paths it uses (\<^verbatim>\<open>util\<close>) and the
  list of online pods (\<^verbatim>\<open>dynamiccontrol/online_pod_source.go\<close>). The cgroup files are a store from paths to texts
  and the writes to \<^verbatim>\<open>tasks\<close> files are a log; how a read or a write ends is an argument.
\<close>

section \<open>Cgroup paths\<close>

definition qc_ParentDir :: "cgroup_driver \<Rightarrow> string" where
  "qc_ParentDir d = (if d = Cgroupfs then ''kubepods/'' else ''kubepods.slice/'')"

definition qc_QOSDirFn :: "cgroup_driver \<Rightarrow> pod_qos \<Rightarrow> string" where
  "qc_QOSDirFn d qos =
     (case qos of
        Burstable \<Rightarrow> if d = Cgroupfs then ''burstable/'' else ''kubepods-burstable.slice/''
      | BestEffort \<Rightarrow> if d = Cgroupfs then ''besteffort/'' else ''kubepods-besteffort.slice/''
      | _ \<Rightarrow> ''/'')"

definition qc_PodDirFn :: "cgroup_driver \<Rightarrow> pod_qos \<Rightarrow> string \<Rightarrow> string" where
  "qc_PodDirFn d qos podUID =
     (if d = Cgroupfs then ''pod'' @ podUID @ ''/''
      else (let i = replace_char (CHR ''-'') (CHR ''_'') podUID in
            case qos of
              Burstable \<Rightarrow> ''kubepods-burstable-pod'' @ i @ ''.slice/''
            | BestEffort \<Rightarrow> ''kubepods-besteffort-pod'' @ i @ ''.slice/''
            | Guaranteed \<Rightarrow> ''kubepods-pod'' @ i @ ''.slice/''
            | QosNone \<Rightarrow> ''/''))"

definition qc_ContainerDirFn :: "cgroup_driver \<Rightarrow> string \<Rightarrow> (string \<times> string) result" where
  "qc_ContainerDirFn d i =
     (let hashID = go_split ''://'' i in
      if length hashID < 2 then Inl (Err ''parse container id failed'')
      else if hashID ! 0 = ''docker''
        then Inr (''docker'', if d = Cgroupfs then hashID ! 1 else ''docker-'' @ hashID ! 1 @ ''.scope'')
      else if hashID ! 0 = ''containerd''
        then Inr (''containerd'', if d = Cgroupfs then hashID ! 1 else ''cri-containerd-'' @ hashID ! 1 @ ''.scope'')
      else Inl (Err ''unknown container protocol''))"

text \<open>The driver is read off the directories below \<^verbatim>\<open>/sys/fs/cgroup/cpu\<close>.\<close>

definition qc_GetCgroupDriver :: "(string \<Rightarrow> bool) \<Rightarrow> cgroup_driver" where
  "qc_GetCgroupDriver exists =
     (if exists (path_join [''/sys/fs/cgroup/cpu'', ''kubepods.slice/'']) then Systemd
      else if exists (path_join [''/sys/fs/cgroup/cpu'', ''kubepods/'']) then Cgroupfs
      else NoDriver)"

definition qc_GetCgroupFormatter :: "(string \<Rightarrow> bool) \<Rightarrow> cgroup_driver" where
  "qc_GetCgroupFormatter exists = (let d = qc_GetCgroupDriver exists in if d = NoDriver then Systemd else d)"

record k8s_pod =
  kp_Namespace :: string
  kp_Name :: string
  kp_UID :: string
  kp_NodeName :: string
  kp_Phase :: string
  kp_QOSClass :: pod_qos
  kp_Labels :: "(string, string) gomap option"
  kp_Deleting :: bool
  kp_ContainerIDs :: "string list"

definition label :: "k8s_pod \<Rightarrow> string \<Rightarrow> string" where
  "label pod k =
     (case kp_Labels pod of None \<Rightarrow> [] | Some m \<Rightarrow> (case map_of m k of None \<Rightarrow> [] | Some v \<Rightarrow> v))"

definition GetPodCgroupParentDir :: "cgroup_driver \<Rightarrow> k8s_pod \<Rightarrow> string" where
  "GetPodCgroupParentDir d pod =
     path_join [qc_ParentDir d, qc_QOSDirFn d (kp_QOSClass pod), qc_PodDirFn d (kp_QOSClass pod) (kp_UID pod)]"

definition qc_GetContainerCgroupParentDirByID :: "cgroup_driver \<Rightarrow> string \<Rightarrow> string \<Rightarrow> string result" where
  "qc_GetContainerCgroupParentDirByID d podParentDir containerID =
     (case qc_ContainerDirFn d containerID of
        Inl e \<Rightarrow> Inl e | Inr (_, containerDir) \<Rightarrow> Inr (path_join [podParentDir, containerDir]))"

section \<open>The binder\<close>

datatype io_result = IoOk | IoGone | IoFailed

record pod_binder =
  pb_CgroupCPURoot :: string
  pb_ResctrlRoot :: string
  pb_TasksFile :: string

definition resctrlRoot :: "pod_binder \<Rightarrow> string" where
  "resctrlRoot b = (if pb_ResctrlRoot b \<noteq> [] then pb_ResctrlRoot b else ''/sys/fs/resctrl'')"

definition cgroupCPURoot :: "pod_binder \<Rightarrow> string" where
  "cgroupCPURoot b = (if pb_CgroupCPURoot b \<noteq> [] then pb_CgroupCPURoot b else ''/sys/fs/cgroup/cpu'')"

definition tasksFile :: "pod_binder \<Rightarrow> string" where
  "tasksFile b = (if pb_TasksFile b \<noteq> [] then pb_TasksFile b else ''tasks'')"

text \<open>
  \<open>bo_readFails\<close> are the paths whose read fails although the file exists, \<open>bo_write\<close> how writing a level to a file
  ends, \<open>bo_writePid\<close> how writing a process to a \<^verbatim>\<open>tasks\<close> file ends, where \<open>IoGone\<close> is a process that has exited.
\<close>

record bind_os =
  bo_readFails :: "string \<Rightarrow> bool"
  bo_write :: "string \<Rightarrow> io_result"
  bo_writePid :: "string \<Rightarrow> string \<Rightarrow> io_result"

record bind_world =
  bw_files :: "string \<Rightarrow> string option"
  bw_tasks :: "(string \<times> string) list"
  bw_updates :: "k8s_pod list"

definition collectContainerIDs :: "k8s_pod \<Rightarrow> string list" where
  "collectContainerIDs pod = filter (\<lambda>i. trim_space i \<noteq> []) (kp_ContainerIDs pod)"

fun container_files :: "cgroup_driver \<Rightarrow> pod_binder \<Rightarrow> string \<Rightarrow> string \<Rightarrow> string list \<Rightarrow> string list result" where
  "container_files d b podParentDir file [] = Inr []"
| "container_files d b podParentDir file (cid # cids) =
     (case qc_GetContainerCgroupParentDirByID d podParentDir cid of
        Inl e \<Rightarrow> Inl (Err ''resolve container cgroup path'')
      | Inr dir \<Rightarrow>
          (case container_files d b podParentDir file cids of
             Inl e \<Rightarrow> Inl e | Inr ps \<Rightarrow> Inr (path_join [cgroupCPURoot b, dir, file] # ps)))"

definition resolvePodTaskFiles :: "cgroup_driver \<Rightarrow> pod_binder \<Rightarrow> k8s_pod \<Rightarrow> string list result" where
  "resolvePodTaskFiles d b pod =
     (let ids = collectContainerIDs pod in
      if ids = [] then Inl (Err ''pod has no container ids in status'')
      else container_files d b (GetPodCgroupParentDir d pod) (tasksFile b) ids)"

definition resolvePodCPUQoSFiles :: "cgroup_driver \<Rightarrow> pod_binder \<Rightarrow> k8s_pod \<Rightarrow> string list result" where
  "resolvePodCPUQoSFiles d b pod =
     (let ids = collectContainerIDs pod in
      if ids = [] then Inl (Err ''pod has no container ids in status'')
      else container_files d b (GetPodCgroupParentDir d pod) ''cpu.qos_level'' ids)"

definition file_pids :: "string \<Rightarrow> string list" where
  "file_pids data = filter (\<lambda>p. p \<noteq> []) (map trim_space (go_split [CHR 0x0A] data))"

fun readPIDs :: "bind_os \<Rightarrow> (string \<Rightarrow> string option) \<Rightarrow> string list \<Rightarrow> string list result" where
  "readPIDs os files [] = Inr []"
| "readPIDs os files (t # ts) =
     (case (if bo_readFails os t then None else files t) of
        None \<Rightarrow> Inl (Err ''read tasks file'')
      | Some data \<Rightarrow> (case readPIDs os files ts of Inl e \<Rightarrow> Inl e | Inr ps \<Rightarrow> Inr (file_pids data @ ps)))"

fun write_pids :: "bind_os \<Rightarrow> string \<Rightarrow> string list \<Rightarrow> bind_world \<Rightarrow> bind_world \<times> unit result" where
  "write_pids os target [] w = (w, Inr ())"
| "write_pids os target (pid # pids) w =
     (case bo_writePid os target pid of
        IoOk \<Rightarrow> write_pids os target pids (w\<lparr>bw_tasks := bw_tasks w @ [(target, pid)]\<rparr>)
      | IoGone \<Rightarrow> write_pids os target pids w
      | IoFailed \<Rightarrow> (w, Inl (Err ''write pid'')))"

definition group_tasks :: "pod_binder \<Rightarrow> string \<Rightarrow> string" where
  "group_tasks b groupName = path_join [resctrlRoot b, groupName, tasksFile b]"

definition BindPodToGroup ::
  "cgroup_driver \<Rightarrow> pod_binder \<Rightarrow> bind_os \<Rightarrow> k8s_pod \<Rightarrow> string \<Rightarrow> bind_world \<Rightarrow> bind_world \<times> unit result" where
  "BindPodToGroup d b os pod groupName w =
     (if kp_UID pod = [] then (w, Inl (Err ''pod uid must not be empty''))
      else if bw_files w (group_tasks b groupName) = None then (w, Inl (Err ''target resctrl tasks file not ready''))
      else (case resolvePodTaskFiles d b pod of
              Inl e \<Rightarrow> (w, Inl e)
            | Inr taskFiles \<Rightarrow>
                if taskFiles = [] then (w, Inl (Err ''no cgroup tasks files found''))
                else (case readPIDs os (bw_files w) taskFiles of
                        Inl e \<Rightarrow> (w, Inl e)
                      | Inr pids \<Rightarrow>
                          if pids = [] then (w, Inl (Err ''no pids found''))
                          else write_pids os (group_tasks b groupName) pids w)))"

fun set_levels :: "bind_os \<Rightarrow> string \<Rightarrow> string list \<Rightarrow> bind_world \<Rightarrow> bind_world \<times> unit result" where
  "set_levels os level [] w = (w, Inr ())"
| "set_levels os level (t # ts) w =
     (if bo_readFails os t then (w, Inl (Err ''read cpu qos file''))
      else (case bw_files w t of
              None \<Rightarrow> set_levels os level ts w
            | Some current \<Rightarrow>
                if trim_space current = level then set_levels os level ts w
                else if trim_space current = ''-1'' \<and> level = ''0'' then set_levels os level ts w
                else (case bo_write os t of
                        IoOk \<Rightarrow> set_levels os level ts (w\<lparr>bw_files := (bw_files w)(t \<mapsto> level)\<rparr>)
                      | IoGone \<Rightarrow> set_levels os level ts w
                      | IoFailed \<Rightarrow> (w, Inl (Err ''write cpu qos file'')))))"

definition SetPodCPUQoSLevel ::
  "cgroup_driver \<Rightarrow> pod_binder \<Rightarrow> bind_os \<Rightarrow> k8s_pod \<Rightarrow> string \<Rightarrow> bind_world \<Rightarrow> bind_world \<times> unit result" where
  "SetPodCPUQoSLevel d b os pod level w =
     (if trim_space level = [] then (w, Inl (Err ''cpu qos level must not be empty''))
      else if kp_UID pod = [] then (w, Inl (Err ''pod uid must not be empty''))
      else (case resolvePodCPUQoSFiles d b pod of
              Inl e \<Rightarrow> (w, Inl e)
            | Inr targets \<Rightarrow>
                if targets = [] then (w, Inl (Err ''no cpu.qos_level files found'')) else set_levels os level targets w))"


section \<open>The pod reconciler\<close>

definition resolveNodeName :: "string \<Rightarrow> string" where
  "resolveNodeName envNodeName = to_lower (trim_space envNodeName)"

definition NodeLabels :: "string \<Rightarrow> (string, string) gomap result \<Rightarrow> (string, string) gomap result" where
  "NodeLabels nodeName got = (if nodeName = [] then Inl (Err ''node name is empty'') else got)"

definition PodQoSGroupLabelKey :: string where
  "PodQoSGroupLabelKey = ''qos.kunpeng.huawei.com/group''"

definition WorkloadClassLabelKey :: string where
  "WorkloadClassLabelKey = ''qos.kunpeng.huawei.com/workload-class''"

definition resolvePodGroup :: "k8s_pod \<Rightarrow> string option" where
  "resolvePodGroup pod = (let v = label pod PodQoSGroupLabelKey in if v \<noteq> [] then Some v else None)"

definition isdynamicWorkload :: "k8s_pod \<Rightarrow> bool" where
  "isdynamicWorkload pod \<longleftrightarrow> label pod WorkloadClassLabelKey = ''offline''"

definition dynamicOfflineGroupName :: "string \<Rightarrow> string" where
  "dynamicOfflineGroupName nodeName =
     (let name = to_lower (trim_space nodeName);
          name = replace_char (CHR ''.'') (CHR ''-'') name;
          name = replace_char (CHR ''_'') (CHR ''-'') name
      in ''qos-dynamic-offline-'' @ (if name = [] then ''unknown-node'' else name))"

text \<open>
  The API server seen from one reconciliation: the pod it asks for, the policies, and how an update of a pod ends; the
  updates that were accepted are in \<open>bw_updates\<close>.
\<close>

record bind_client =
  bc_GetPod :: "string \<Rightarrow> string \<Rightarrow> k8s_pod option result"
  bc_Update :: "k8s_pod \<Rightarrow> unit result"
  bc_GetPolicy :: "string \<Rightarrow> qos_obj option result"

definition with_label :: "string \<Rightarrow> string \<Rightarrow> k8s_pod \<Rightarrow> k8s_pod" where
  "with_label k v pod =
     pod\<lparr>kp_Labels := Some (AList.update k v (case kp_Labels pod of None \<Rightarrow> [] | Some m \<Rightarrow> m))\<rparr>"

definition ensureOfflineGroupLabel ::
  "bind_client \<Rightarrow> k8s_pod \<Rightarrow> bind_world \<Rightarrow> bind_world \<times> (k8s_pod \<times> bool) result" where
  "ensureOfflineGroupLabel cl pod w =
     (if \<not> isdynamicWorkload pod then (w, Inr (pod, False))
      else (let nodeName = trim_space (kp_NodeName pod) in
            if nodeName = [] then (w, Inl (Err ''node name must not be empty''))
            else (let desiredGroup = dynamicOfflineGroupName nodeName in
                  if label pod PodQoSGroupLabelKey = desiredGroup then (w, Inr (pod, False))
                  else (let pod' = with_label PodQoSGroupLabelKey desiredGroup pod in
                        case bc_Update cl pod' of
                          Inl e \<Rightarrow> (w, Inl e)
                        | Inr _ \<Rightarrow> (w\<lparr>bw_updates := bw_updates w @ [pod']\<rparr>, Inr (pod', True))))))"

datatype pod_action = SetDynamicGroupLabelAction | BindResctrlGroupAction | SetCPUQoSAction

definition DefaultPodActions :: "bool \<Rightarrow> pod_action list" where
  "DefaultPodActions enableDynamicControl =
     (if enableDynamicControl then [SetDynamicGroupLabelAction] else []) @ [BindResctrlGroupAction, SetCPUQoSAction]"

fun Match :: "pod_action \<Rightarrow> k8s_pod \<Rightarrow> bool" where
  "Match SetDynamicGroupLabelAction pod = isdynamicWorkload pod"
| "Match BindResctrlGroupAction pod = (resolvePodGroup pod \<noteq> None)"
| "Match SetCPUQoSAction pod = (resolvePodGroup pod \<noteq> None)"

record bind_env =
  be_driver :: cgroup_driver
  be_binder :: pod_binder
  be_os :: bind_os
  be_client :: bind_client

definition on_pod :: "k8s_pod \<Rightarrow> bind_world \<times> unit result \<Rightarrow> bind_world \<times> k8s_pod result" where
  "on_pod pod r = (case r of (w, Inl e) \<Rightarrow> (w, Inl e) | (w, Inr _) \<Rightarrow> (w, Inr pod))"

fun Apply :: "bind_env \<Rightarrow> pod_action \<Rightarrow> k8s_pod \<Rightarrow> bind_world \<Rightarrow> bind_world \<times> k8s_pod result" where
  "Apply e SetDynamicGroupLabelAction pod w =
     (case ensureOfflineGroupLabel (be_client e) pod w of (w', Inl err) \<Rightarrow> (w', Inl err) | (w', Inr (pod', _)) \<Rightarrow> (w', Inr pod'))"
| "Apply e BindResctrlGroupAction pod w =
     (case resolvePodGroup pod of
        None \<Rightarrow> (w, Inr pod)
      | Some g \<Rightarrow> on_pod pod (BindPodToGroup (be_driver e) (be_binder e) (be_os e) pod g w))"
| "Apply e SetCPUQoSAction pod w =
     (case resolvePodGroup pod of
        None \<Rightarrow> (w, Inr pod)
      | Some g \<Rightarrow>
          (case bc_GetPolicy (be_client e) g of
             Inl err \<Rightarrow> (w, Inl err)
           | Inr None \<Rightarrow> (w, Inr pod)
           | Inr (Some policy) \<Rightarrow>
               on_pod pod (SetPodCPUQoSLevel (be_driver e) (be_binder e) (be_os e) pod (itoa (sp_QoSLevel (qo_spec policy))) w)))"

fun runPodActions :: "bind_env \<Rightarrow> pod_action list \<Rightarrow> k8s_pod \<Rightarrow> bind_world \<Rightarrow> bind_world \<times> k8s_pod result" where
  "runPodActions e [] pod w = (w, Inr pod)"
| "runPodActions e (a # as) pod w =
     (if Match a pod
      then (case Apply e a pod w of
              (w', Inl err) \<Rightarrow> (w', Inl (Err ''pod action failed''))
            | (w', Inr pod') \<Rightarrow> runPodActions e as pod' w')
      else runPodActions e as pod w)"

definition pod_Reconcile :: "bind_env \<Rightarrow> pod_action list \<Rightarrow> string \<Rightarrow> string \<Rightarrow> bind_world \<Rightarrow> bind_world \<times> unit result" where
  "pod_Reconcile e actions ns name w =
     (case bc_GetPod (be_client e) ns name of
        Inl err \<Rightarrow> (w, Inl err)
      | Inr None \<Rightarrow> (w, Inr ())
      | Inr (Some pod) \<Rightarrow>
          if kp_Deleting pod then (w, Inr ())
          else (case runPodActions e actions pod w of (w', Inl err) \<Rightarrow> (w', Inl err) | (w', Inr _) \<Rightarrow> (w', Inr ())))"

definition shouldProcessPod :: "string \<Rightarrow> pod_action list \<Rightarrow> k8s_pod \<Rightarrow> bool" where
  "shouldProcessPod nodeName actions pod \<longleftrightarrow>
     kp_NodeName pod \<noteq> [] \<and> kp_NodeName pod = nodeName \<and> kp_Phase pod = ''Running'' \<and> list_ex (\<lambda>a. Match a pod) actions"

definition policy_update_relevant :: "qos_obj \<Rightarrow> qos_obj \<Rightarrow> bool" where
  "policy_update_relevant old new \<longleftrightarrow> sp_QoSLevel (qo_spec old) \<noteq> sp_QoSLevel (qo_spec new)"

definition mapQoSPolicyToPods ::
  "string \<Rightarrow> pod_action list \<Rightarrow> (string, string) gomap result \<Rightarrow> (string \<Rightarrow> k8s_pod list result) \<Rightarrow> qos_obj \<Rightarrow> (string \<times> string) list" where
  "mapQoSPolicyToPods nodeName actions labels listLabelled policy =
     (if qo_name policy = [] then []
      else (case NodeLabels nodeName labels of
              Inl _ \<Rightarrow> []
            | Inr nodeLabels \<Rightarrow>
                if \<not> MatchNodeSelector nodeLabels (sp_NodeSelector (qo_spec policy)) then []
                else (case listLabelled (qo_name policy) of
                        Inl _ \<Rightarrow> []
                      | Inr pods \<Rightarrow> map (\<lambda>p. (kp_Namespace p, kp_Name p)) (filter (shouldProcessPod nodeName actions) pods))))"

section \<open>Online pods\<close>

record online_pod =
  op_Namespace :: string
  op_Name :: string
  op_UID :: string
  op_CgroupPath :: string

definition online_before :: "online_pod \<Rightarrow> online_pod \<Rightarrow> bool" where
  "online_before a b \<longleftrightarrow>
     (if op_Namespace a \<noteq> op_Namespace b then str_less (op_Namespace a) (op_Namespace b) else str_less (op_Name a) (op_Name b))"

definition ListOnlinePodCgroups :: "cgroup_driver \<Rightarrow> k8s_pod list result \<Rightarrow> string \<Rightarrow> online_pod list result" where
  "ListOnlinePodCgroups d listed nodeName =
     (if nodeName = [] then Inl (Err ''node name must not be empty'')
      else (case listed of
              Inl e \<Rightarrow> Inl e
            | Inr pods \<Rightarrow>
                Inr (go_sort online_before
                       (map (\<lambda>p. \<lparr>op_Namespace = kp_Namespace p, op_Name = kp_Name p, op_UID = kp_UID p,
                                  op_CgroupPath = GetPodCgroupParentDir d p\<rparr>)
                          (filter (\<lambda>p. kp_NodeName p = nodeName \<and> kp_Phase p = ''Running'' \<and> kp_UID p \<noteq> []) pods)))))"


section \<open>The two copies of the path rules\<close>

text \<open>The QoS controller and the TAP manager put a container in the same cgroup directory: the rules for
  the directory of a QoS class and of a pod are equal, and a container id the controller accepts gets the same directory
  from both, the manager also accepting the ids of pouch and cri-o.\<close>

theorem cgroup_rules_agree:
  "qc_QOSDirFn d qos = (if d = Cgroupfs then cgroupfs_QOSDirFn qos else systemd_QOSDirFn qos)
   \<and> qc_PodDirFn d qos uid = (if d = Cgroupfs then cgroupfs_PodDirFn qos uid else systemd_PodDirFn qos uid)
   \<and> (qc_ContainerDirFn d i = Inr x \<longleftrightarrow> ContainerDirFn d i = Inr x \<and> fst x \<in> {''docker'', ''containerd''})
   \<and> (qc_GetContainerCgroupParentDirByID d parent i = Inr dir
       \<longleftrightarrow> GetContainerCgroupParentDirByID d parent i = Inr dir \<and> go_split ''://'' i ! 0 \<in> {''docker'', ''containerd''})"
proof (intro conjI)
  show "qc_QOSDirFn d qos = (if d = Cgroupfs then cgroupfs_QOSDirFn qos else systemd_QOSDirFn qos)"
    by (simp add: qc_QOSDirFn_def cgroupfs_QOSDirFn_def systemd_QOSDirFn_def split: pod_qos.split)
  show "qc_PodDirFn d qos uid = (if d = Cgroupfs then cgroupfs_PodDirFn qos uid else systemd_PodDirFn qos uid)"
    by (simp add: qc_PodDirFn_def cgroupfs_PodDirFn_def systemd_PodDirFn_def between_def Let_def split: pod_qos.split)
  show "qc_ContainerDirFn d i = Inr x \<longleftrightarrow> ContainerDirFn d i = Inr x \<and> fst x \<in> {''docker'', ''containerd''}"
    by (cases d) (auto simp: qc_ContainerDirFn_def ContainerDirFn_def cgroupfs_ContainerDirFn_def systemd_ContainerDirFn_def
        between_def Let_def)
  show "qc_GetContainerCgroupParentDirByID d parent i = Inr dir
       \<longleftrightarrow> GetContainerCgroupParentDirByID d parent i = Inr dir \<and> go_split ''://'' i ! 0 \<in> {''docker'', ''containerd''}"
    by (cases d) (auto simp: qc_GetContainerCgroupParentDirByID_def GetContainerCgroupParentDirByID_def qc_ContainerDirFn_def
        ContainerDirFn_def cgroupfs_ContainerDirFn_def systemd_ContainerDirFn_def between_def Let_def)
qed

section \<open>Setting the CPU level\<close>

definition level_kept :: "string \<Rightarrow> string \<Rightarrow> bool" where
  "level_kept level current \<longleftrightarrow> trim_space current = level \<or> (trim_space current = ''-1'' \<and> level = ''0'')"

text \<open>Each file is as it was or holds the level, and a file whose level is to be kept is as it was.\<close>

definition level_effect :: "string \<Rightarrow> string set \<Rightarrow> (string \<Rightarrow> string option) \<Rightarrow> (string \<Rightarrow> string option) \<Rightarrow> bool" where
  "level_effect level ts f g \<longleftrightarrow>
     (\<forall>p. g p = f p \<or> (p \<in> ts \<and> g p = Some level \<and> (\<exists>c. f p = Some c \<and> \<not> level_kept level c)))"

lemma level_effect_refl: "level_effect level ts f f"
  by (simp add: level_effect_def)

lemma level_effect_mono: "level_effect level ts f g \<Longrightarrow> ts \<subseteq> us \<Longrightarrow> level_effect level us f g"
  unfolding level_effect_def by blast

lemma level_effect_write:
  assumes "f t = Some c" "\<not> level_kept level c" "level_effect level ts (f(t \<mapsto> level)) g"
  shows "level_effect level (insert t ts) f g"
  unfolding level_effect_def
proof (intro allI)
  fix p
  have e: "g p = (f(t \<mapsto> level)) p \<or> (p \<in> ts \<and> g p = Some level \<and> (\<exists>c. (f(t \<mapsto> level)) p = Some c \<and> \<not> level_kept level c))"
    using assms(3) unfolding level_effect_def by blast
  show "g p = f p \<or> (p \<in> insert t ts \<and> g p = Some level \<and> (\<exists>c. f p = Some c \<and> \<not> level_kept level c))"
  proof (cases "p = t")
    case True
    then have "g p = Some level" using e by auto
    then show ?thesis using True assms(1,2) by blast
  next
    case False
    then show ?thesis using e by auto
  qed
qed

lemma set_levels_cases:
  assumes "set_levels os level (t # ts) w = (w', r)"
  obtains (fails) "w' = w" "r \<noteq> Inr ()"
    | (skips) "set_levels os level ts w = (w', r)" "\<And>c. bw_files w t = Some c \<Longrightarrow> level_kept level c \<or> bo_write os t = IoGone"
    | (writes) c where "bw_files w t = Some c" "\<not> level_kept level c"
        "set_levels os level ts (w\<lparr>bw_files := (bw_files w)(t \<mapsto> level)\<rparr>) = (w', r)"
proof (cases "bo_readFails os t")
  case True
  then show thesis using fails assms by auto
next
  case rd: False
  show thesis
  proof (cases "bw_files w t")
    case None
    then show thesis using skips assms rd by simp
  next
    case (Some c)
    show thesis
    proof (cases "level_kept level c")
      case True
      then have "set_levels os level ts w = (w', r)" using assms rd Some by (auto simp: level_kept_def split: if_splits)
      then show thesis using skips Some True by simp
    next
      case False
      then have k: "trim_space c \<noteq> level" "\<not> (trim_space c = ''-1'' \<and> level = ''0'')" by (auto simp: level_kept_def)
      show thesis
      proof (cases "bo_write os t")
        case IoOk
        then show thesis using writes[OF Some False] assms rd Some k by simp
      next
        case IoGone
        then show thesis using skips assms rd Some k by simp
      next
        case IoFailed
        then show thesis using fails assms rd Some k by auto
      qed
    qed
  qed
qed

lemma set_levels_effect:
  "set_levels os level ts w = (w', r) \<Longrightarrow>
   bw_tasks w' = bw_tasks w \<and> bw_updates w' = bw_updates w \<and> level_effect level (set ts) (bw_files w) (bw_files w')"
proof (induction ts arbitrary: w)
  case Nil
  then show ?case by (simp add: level_effect_refl)
next
  case (Cons t ts)
  from Cons.prems show ?case
  proof (cases rule: set_levels_cases)
    case fails
    then show ?thesis by (simp add: level_effect_refl)
  next
    case skips
    then show ?thesis using Cons.IH[OF skips(1)] level_effect_mono[of level "set ts" _ _ "set (t # ts)"] by auto
  next
    case (writes c)
    then show ?thesis using Cons.IH[OF writes(3)] level_effect_write[where f = "bw_files w" and t = t, OF writes(1,2)] by (simp add: fun_upd_def)
  qed
qed

lemma set_levels_done:
  assumes "set_levels os level ts w = (w', Inr ())" "trim_space level = level" "p \<in> set ts" "bw_files w p = Some c" "bo_write os p \<noteq> IoGone"
  shows "\<exists>c'. bw_files w' p = Some c' \<and> level_kept level c'"
  using assms
proof (induction ts arbitrary: w c)
  case (Cons t ts)
  have lk: "level_kept level level" using Cons.prems(2) by (simp add: level_kept_def)
  have stay: "\<exists>c'. bw_files w' p = Some c' \<and> level_kept level c'"
    if "set_levels os level ts v = (w', Inr ())" "bw_files v p = Some d" "level_kept level d" for v d
  proof -
    have "level_effect level (set ts) (bw_files v) (bw_files w')" using set_levels_effect[OF that(1)] by blast
    then have "bw_files w' p = Some d \<or> bw_files w' p = Some level" using that(2) unfolding level_effect_def by metis
    then show ?thesis using that(3) lk by blast
  qed
  from Cons.prems(1) show ?case
  proof (cases rule: set_levels_cases)
    case skips
    show ?thesis
    proof (cases "p = t")
      case True
      then show ?thesis using skips Cons.prems(4,5) stay[OF skips(1), of c] by blast
    next
      case False
      then show ?thesis using Cons.IH[OF skips(1) Cons.prems(2) _ Cons.prems(4,5)] Cons.prems(3) by simp
    qed
  next
    case (writes d)
    show ?thesis
    proof (cases "p = t")
      case True
      then show ?thesis using stay[OF writes(3), of level] lk by simp
    next
      case False
      then show ?thesis using Cons.IH[OF writes(3) Cons.prems(2)] Cons.prems(3-5) by simp
    qed
  qed simp
qed simp

text \<open>Setting a pod's CPU level writes only to the level files of the pod's containers that exist, never to one
  that has the level already or holds -1 when 0 is wanted, even when it fails half way; when it succeeds,
  every such file whose container still runs holds the level, the -1 excepted.\<close>

theorem cpu_qos_level_set:
  assumes "SetPodCPUQoSLevel d b os pod level w = (w', r)" "resolvePodCPUQoSFiles d b pod = Inr targets"
  shows "bw_tasks w' = bw_tasks w \<and> bw_updates w' = bw_updates w
    \<and> level_effect level (set targets) (bw_files w) (bw_files w')
    \<and> (r = Inr () \<longrightarrow> trim_space level = level \<longrightarrow>
        (\<forall>p\<in>set targets. \<forall>c. bw_files w p = Some c \<longrightarrow> bo_write os p \<noteq> IoGone \<longrightarrow>
          (\<exists>c'. bw_files w' p = Some c' \<and> level_kept level c')))"
proof (cases "trim_space level = [] \<or> kp_UID pod = [] \<or> targets = []")
  case True
  then have "w' = w \<and> r \<noteq> Inr ()" using assms by (auto simp: SetPodCPUQoSLevel_def split: if_splits)
  then show ?thesis by (simp add: level_effect_refl)
next
  case False
  then have s: "set_levels os level targets w = (w', r)" using assms by (simp add: SetPodCPUQoSLevel_def)
  show ?thesis using set_levels_effect[OF s] set_levels_done[of os level targets w w'] s by blast
qed


section \<open>Binding\<close>

definition bound_to :: "string \<Rightarrow> string set \<Rightarrow> bind_world \<Rightarrow> bind_world \<Rightarrow> bool" where
  "bound_to target pids w w' \<longleftrightarrow>
     bw_files w' = bw_files w \<and> bw_updates w' = bw_updates w
     \<and> (\<exists>ts. bw_tasks w' = bw_tasks w @ ts \<and> set ts \<subseteq> {target} \<times> pids)"

lemma bound_to_refl [simp]: "bound_to target pids w w"
  by (simp add: bound_to_def)

lemma write_pids_bound:
  "write_pids os target pids w = (w', r) \<Longrightarrow>
   bound_to target (set pids) w w'
   \<and> (r = Inr () \<longrightarrow> (\<forall>p\<in>set pids. bo_writePid os target p = IoOk \<longrightarrow> (target, p) \<in> set (bw_tasks w')) \<and> (\<forall>p\<in>set pids. bo_writePid os target p \<noteq> IoFailed))"
proof (induction pids arbitrary: w)
  case (Cons p pids)
  show ?case
  proof (cases "bo_writePid os target p")
    case IoOk
    let ?v = "w\<lparr>bw_tasks := bw_tasks w @ [(target, p)]\<rparr>"
    have s: "write_pids os target pids ?v = (w', r)" using Cons.prems IoOk by simp
    note ih = Cons.IH[OF s]
    from ih obtain ts where ts: "bw_tasks w' = bw_tasks w @ (target, p) # ts" "set ts \<subseteq> {target} \<times> set pids"
      "bw_files w' = bw_files w" "bw_updates w' = bw_updates w" by (auto simp: bound_to_def)
    then have "bound_to target (set (p # pids)) w w'" unfolding bound_to_def
      by (intro conjI exI[of _ "(target, p) # ts"]) auto
    then show ?thesis using ih ts(1) IoOk by simp
  next
    case IoGone
    then have "write_pids os target pids w = (w', r)" using Cons.prems by simp
    from Cons.IH[OF this] show ?thesis using IoGone by (auto simp: bound_to_def)
  qed (use Cons.prems in auto)
qed simp

definition pod_pids :: "cgroup_driver \<Rightarrow> pod_binder \<Rightarrow> bind_os \<Rightarrow> (string \<Rightarrow> string option) \<Rightarrow> k8s_pod \<Rightarrow> string list" where
  "pod_pids d b os files pod =
     (case resolvePodTaskFiles d b pod of
        Inl e \<Rightarrow> [] | Inr ts \<Rightarrow> (case readPIDs os files ts of Inl e \<Rightarrow> [] | Inr pids \<Rightarrow> pids))"

lemma BindPodToGroup_cases:
  assumes "BindPodToGroup d b os pod g w = (w', r)"
  obtains "w' = w" "r \<noteq> Inr ()"
    | "write_pids os (group_tasks b g) (pod_pids d b os (bw_files w) pod) w = (w', r)" "bw_files w (group_tasks b g) \<noteq> None"
  using assms by (auto simp: BindPodToGroup_def pod_pids_def split: if_splits sum.splits)


section \<open>Offline pods\<close>

lemma group_names_agree: "dynamicOfflineGroupName (trim_space n) = dynamicPolicyName n"
  by (auto simp: dynamicOfflineGroupName_def dynamicPolicyName_def Let_def replace_char_def)

lemma label_with [simp]: "label (with_label k v pod) k' = (if k' = k then v else label pod k')"
  by (auto simp: label_def with_label_def split: option.splits)

lemma parent_dir_label [simp]: "GetPodCgroupParentDir d (with_label k v pod) = GetPodCgroupParentDir d pod"
  by (simp add: GetPodCgroupParentDir_def with_label_def)

lemma containers_label [simp]: "kp_ContainerIDs (with_label k v pod) = kp_ContainerIDs pod"
  by (simp add: with_label_def)

lemma pod_pids_label [simp]: "pod_pids d b os f (with_label k v pod) = pod_pids d b os f pod"
  by (simp add: pod_pids_def resolvePodTaskFiles_def collectContainerIDs_def Let_def)

lemma dynamicPolicyName_nonempty [simp]: "dynamicPolicyName n \<noteq> []"
  by (simp add: dynamicPolicyName_def Let_def)

lemma on_pod_eq: "on_pod pod (w, r) = (w', Inr pod') \<longleftrightarrow> w = w' \<and> r = Inr () \<and> pod' = pod"
  by (auto simp: on_pod_def split: sum.splits)

lemma ensure_label_ok:
  assumes "ensureOfflineGroupLabel cl pod w = (w', Inr (pod', ch))" "isdynamicWorkload pod"
  shows "(w' = w \<and> pod' = pod \<and> label pod PodQoSGroupLabelKey = dynamicPolicyName (kp_NodeName pod))
    \<or> (pod' = with_label PodQoSGroupLabelKey (dynamicPolicyName (kp_NodeName pod)) pod
        \<and> label pod PodQoSGroupLabelKey \<noteq> dynamicPolicyName (kp_NodeName pod)
        \<and> w' = w\<lparr>bw_updates := bw_updates w @ [pod']\<rparr>)"
  using assms unfolding ensureOfflineGroupLabel_def Let_def group_names_agree
  by (auto split: if_splits sum.splits)

lemma bind_action:
  assumes "Apply e BindResctrlGroupAction pod w = (w', Inr pod')" "resolvePodGroup pod = Some g"
  shows "pod' = pod" "bound_to (group_tasks (be_binder e) g) (set (pod_pids (be_driver e) (be_binder e) (be_os e) (bw_files w) pod)) w w'"
    "\<forall>p\<in>set (pod_pids (be_driver e) (be_binder e) (be_os e) (bw_files w) pod).
       bo_writePid (be_os e) (group_tasks (be_binder e) g) p = IoOk \<longrightarrow> (group_tasks (be_binder e) g, p) \<in> set (bw_tasks w')"
proof -
  obtain u r where b: "BindPodToGroup (be_driver e) (be_binder e) (be_os e) pod g w = (u, r)" by (metis surj_pair)
  have o: "on_pod pod (u, r) = (w', Inr pod')" using assms b by simp
  then have u: "u = w'" "r = Inr ()" "pod' = pod" by (simp_all add: on_pod_eq)
  show "pod' = pod" by (rule u)
  from b u have b: "BindPodToGroup (be_driver e) (be_binder e) (be_os e) pod g w = (w', Inr ())" by simp
  then have wp: "write_pids (be_os e) (group_tasks (be_binder e) g) (pod_pids (be_driver e) (be_binder e) (be_os e) (bw_files w) pod) w = (w', Inr ())"
    by (elim BindPodToGroup_cases) simp_all
  from write_pids_bound[OF wp]
  show "bound_to (group_tasks (be_binder e) g) (set (pod_pids (be_driver e) (be_binder e) (be_os e) (bw_files w) pod)) w w'"
    "\<forall>p\<in>set (pod_pids (be_driver e) (be_binder e) (be_os e) (bw_files w) pod).
       bo_writePid (be_os e) (group_tasks (be_binder e) g) p = IoOk \<longrightarrow> (group_tasks (be_binder e) g, p) \<in> set (bw_tasks w')"
    by simp_all
qed

lemma level_action:
  assumes "Apply e SetCPUQoSAction pod w = (w', Inr pod')"
  shows "pod' = pod \<and> bw_tasks w' = bw_tasks w \<and> bw_updates w' = bw_updates w"
proof (cases "resolvePodGroup pod")
  case (Some g)
  show ?thesis
  proof (cases "\<exists>q. bc_GetPolicy (be_client e) g = Inr (Some q)")
    case True
    then obtain q where q: "bc_GetPolicy (be_client e) g = Inr (Some q)" by blast
    obtain u r where s: "SetPodCPUQoSLevel (be_driver e) (be_binder e) (be_os e) pod (itoa (sp_QoSLevel (qo_spec q))) w = (u, r)"
      by (metis surj_pair)
    then have u: "u = w'" "r = Inr ()" "pod' = pod" using assms Some q by (simp_all add: on_pod_eq)
    from s u(2) obtain ts where "set_levels (be_os e) (itoa (sp_QoSLevel (qo_spec q))) ts w = (u, r)"
      by (auto simp: SetPodCPUQoSLevel_def split: if_splits sum.splits)
    from set_levels_effect[OF this] u show ?thesis by simp
  next
    case False
    then show ?thesis using assms Some by (auto split: sum.splits option.splits)
  qed
qed (use assms in simp)

text \<open>C20. With dynamic control a successful reconciliation puts an offline pod under the policy that the updater
  maintains for its node: the pod ends with the label of exactly that policy (both sides compute the same name), it was
  updated only if it had another, all processes of its containers whose write is accepted are in that policy's
  group, and no other \<^verbatim>\<open>tasks\<close> file was written.\<close>

theorem offline_pods_join_dynamic_group:
  assumes "runPodActions e (DefaultPodActions True) pod w = (w', Inr pod')" "isdynamicWorkload pod"
  defines "g \<equiv> dynamicPolicyName (kp_NodeName pod)"
  shows "label pod' PodQoSGroupLabelKey = g
    \<and> bw_updates w' = bw_updates w @ (if label pod PodQoSGroupLabelKey = g then [] else [with_label PodQoSGroupLabelKey g pod])
    \<and> (\<exists>ts. bw_tasks w' = bw_tasks w @ ts
        \<and> set ts \<subseteq> {group_tasks (be_binder e) g} \<times> set (pod_pids (be_driver e) (be_binder e) (be_os e) (bw_files w) pod))
    \<and> (\<forall>p\<in>set (pod_pids (be_driver e) (be_binder e) (be_os e) (bw_files w) pod).
        bo_writePid (be_os e) (group_tasks (be_binder e) g) p = IoOk \<longrightarrow> (group_tasks (be_binder e) g, p) \<in> set (bw_tasks w'))"
proof -
  have acts: "DefaultPodActions True = [SetDynamicGroupLabelAction, BindResctrlGroupAction, SetCPUQoSAction]"
    by (simp add: DefaultPodActions_def)
  obtain w1 p1 where a1: "Apply e SetDynamicGroupLabelAction pod w = (w1, Inr p1)"
    and r1: "runPodActions e [BindResctrlGroupAction, SetCPUQoSAction] p1 w1 = (w', Inr pod')"
    using assms(1,2) unfolding acts by (auto split: prod.splits sum.splits)
  obtain ch where "ensureOfflineGroupLabel (be_client e) pod w = (w1, Inr (p1, ch))"
    using a1 by (auto split: prod.splits sum.splits)
  from ensure_label_ok[OF this assms(2), folded g_def]
  have l: "label p1 PodQoSGroupLabelKey = g" "bw_files w1 = bw_files w" "bw_tasks w1 = bw_tasks w"
    "bw_updates w1 = bw_updates w @ (if label pod PodQoSGroupLabelKey = g then [] else [with_label PodQoSGroupLabelKey g pod])"
    "\<And>f. pod_pids (be_driver e) (be_binder e) (be_os e) f p1 = pod_pids (be_driver e) (be_binder e) (be_os e) f pod" by auto
  have g: "resolvePodGroup p1 = Some g" using l(1) by (simp add: resolvePodGroup_def g_def)
  obtain w2 p2 where a2: "Apply e BindResctrlGroupAction p1 w1 = (w2, Inr p2)" and r2: "runPodActions e [SetCPUQoSAction] p2 w2 = (w', Inr pod')"
    using r1 g by (auto split: prod.splits sum.splits simp del: Apply.simps)
  note b = bind_action[OF a2 g]
  have "Apply e SetCPUQoSAction p1 w2 = (w', Inr pod')" using r2 b(1) g by (auto split: prod.splits sum.splits simp del: Apply.simps)
  note c = level_action[OF this]
  show ?thesis using c b(2,3) l by (auto simp: bound_to_def)
qed


section \<open>Examples\<close>

definition demo_pod :: k8s_pod where
  "demo_pod = \<lparr>kp_Namespace = ''default'', kp_Name = ''job'', kp_UID = ''u-1'', kp_NodeName = ''n1'', kp_Phase = ''Running'',
     kp_QOSClass = BestEffort, kp_Labels = Some [(WorkloadClassLabelKey, ''offline'')], kp_Deleting = False,
     kp_ContainerIDs = [''containerd://c1'']\<rparr>"

definition demo_binder :: pod_binder where
  "demo_binder = \<lparr>pb_CgroupCPURoot = [], pb_ResctrlRoot = [], pb_TasksFile = []\<rparr>"

definition demo_dir :: string where
  "demo_dir = ''/sys/fs/cgroup/cpu/kubepods.slice/kubepods-besteffort.slice/kubepods-besteffort-podu_1.slice/cri-containerd-c1.scope''"

definition demo_group :: string where
  "demo_group = ''/sys/fs/resctrl/qos-dynamic-offline-n1/tasks''"

definition demo_world :: bind_world where
  "demo_world = \<lparr>bw_files = (\<lambda>p. if p = demo_dir @ ''/tasks'' then Some (''41'' @ [CHR 0x0A] @ ''42'' @ [CHR 0x0A])
       else if p = demo_dir @ ''/cpu.qos_level'' then Some ''0''
       else if p = demo_group then Some [] else None), bw_tasks = [], bw_updates = []\<rparr>"

definition demo_bind_os :: bind_os where
  "demo_bind_os = \<lparr>bo_readFails = (\<lambda>p. False), bo_write = (\<lambda>p. IoOk),
     bo_writePid = (\<lambda>t p. if p = ''42'' then IoGone else IoOk)\<rparr>"

definition demo_env :: bind_env where
  "demo_env = \<lparr>be_driver = Systemd, be_binder = demo_binder, be_os = demo_bind_os,
     be_client = \<lparr>bc_GetPod = (\<lambda>ns n. Inr (Some demo_pod)), bc_Update = (\<lambda>p. Inr ()),
       bc_GetPolicy = (\<lambda>g. Inr (Some (new_policy ''n1'' (defaultDynamicPolicySpec ''n1''))))\<rparr>\<rparr>"

theorem cpu_qos_level_set_witness:
  "let w' = fst (SetPodCPUQoSLevel Systemd demo_binder demo_bind_os demo_pod ''-1'' demo_world)
   in bw_files w' (demo_dir @ ''/cpu.qos_level'') = Some ''-1'' \<and> level_effect ''-1'' {demo_dir @ ''/cpu.qos_level''} (bw_files demo_world) (bw_files w')"
proof -
  have t: "resolvePodCPUQoSFiles Systemd demo_binder demo_pod = Inr [demo_dir @ ''/cpu.qos_level'']" by code_simp
  have c: "bw_files (fst (SetPodCPUQoSLevel Systemd demo_binder demo_bind_os demo_pod ''-1'' demo_world)) (demo_dir @ ''/cpu.qos_level'') = Some ''-1''"
    by code_simp
  show ?thesis using cpu_qos_level_set[OF surjective_pairing t, of demo_bind_os "''-1''" demo_world] c by (simp add: Let_def)
qed

theorem offline_pods_join_dynamic_group_witness:
  "let r = runPodActions demo_env (DefaultPodActions True) demo_pod demo_world;
       p = with_label PodQoSGroupLabelKey ''qos-dynamic-offline-n1'' demo_pod
   in snd r = Inr p \<and> bw_updates (fst r) = [p] \<and> bw_tasks (fst r) = [(demo_group, ''41'')]"
proof -
  let ?p = "with_label PodQoSGroupLabelKey ''qos-dynamic-offline-n1'' demo_pod"
  have r: "snd (runPodActions demo_env (DefaultPodActions True) demo_pod demo_world) = Inr ?p"
    and t: "bw_tasks (fst (runPodActions demo_env (DefaultPodActions True) demo_pod demo_world)) = [(demo_group, ''41'')]"
    and d: "isdynamicWorkload demo_pod" and g: "dynamicPolicyName (kp_NodeName demo_pod) = ''qos-dynamic-offline-n1''"
    and u: "bw_updates demo_world = []" "label demo_pod PodQoSGroupLabelKey \<noteq> ''qos-dynamic-offline-n1''"
    by code_simp+
  have "runPodActions demo_env (DefaultPodActions True) demo_pod demo_world
      = (fst (runPodActions demo_env (DefaultPodActions True) demo_pod demo_world), Inr ?p)" using r by (metis surjective_pairing)
  from offline_pods_join_dynamic_group[OF this d, unfolded g] r t u show ?thesis by (simp add: Let_def)
qed

end
