(* ===== verification/SysDiscover.thy ===== *)
theory SysDiscover
  imports SysTopology GoPath
begin

text \<open>
  Discovery of the hardware topology from sysfs (\<^verbatim>\<open>pkg/kunpeng-tap/sysfs/system/system.go\<close>, \<^verbatim>\<open>utils.go\<close>,
  \<^verbatim>\<open>model.go\<close>, \<^verbatim>\<open>cluster.go\<close>, \<^verbatim>\<open>cpu_package.go\<close>, \<^verbatim>\<open>node.go\<close>): CPUs, NUMA nodes, packages, GPUs and clusters. The
  files and directories are a snapshot; \<open>cpuset.Parse\<close> and the model strings of gopsutil are library answers and
  arguments. The order in which Go walks a map is an argument too.
\<close>

section \<open>Numbers\<close>

text \<open>\<open>getEnumeratedID\<close>: the loop runs from the last byte down to the second.\<close>

fun enum_loop :: "int \<Rightarrow> int \<Rightarrow> string \<Rightarrow> int" where
  "enum_loop i base [] = -1"
| "enum_loop i base (c # cs) =
     (case digit_val c of
        Some d \<Rightarrow> enum_loop (wrap_i64 (i + base * d)) (wrap_i64 (base * 10)) cs
      | None \<Rightarrow> if base > 1 then i else -1)"

definition getEnumeratedID :: "string \<Rightarrow> int" where
  "getEnumeratedID name = enum_loop 0 1 (rev (tl name))"

text \<open>\<open>strconv.ParseInt(s, 0, 64)\<close>: the base follows from the literal's start, underscores may separate digits.\<close>

definition lit_val :: "char \<Rightarrow> int option" where
  "lit_val c =
     (case digit_val c of
        Some d \<Rightarrow> Some d
      | None \<Rightarrow>
          (let n = of_char (to_lower_char c) :: int in
           if 97 \<le> n \<and> n \<le> 122 then Some (n - 97 + 10) else None))"

fun lit_digits :: "int \<Rightarrow> int \<Rightarrow> string \<Rightarrow> int option" where
  "lit_digits base acc [] = Some acc"
| "lit_digits base acc (c # cs) =
     (if c = CHR ''_'' then lit_digits base acc cs
      else (case lit_val c of
              None \<Rightarrow> None
            | Some d \<Rightarrow> if d \<ge> base then None else lit_digits base (base * acc + d) cs))"

datatype last_seen = SeenStart | SeenDigit | SeenUnderscore | SeenOther

fun underscore_loop :: "bool \<Rightarrow> last_seen \<Rightarrow> string \<Rightarrow> bool" where
  "underscore_loop hex i [] = (i \<noteq> SeenUnderscore)"
| "underscore_loop hex i (c # cs) =
     (if digit_val c \<noteq> None \<or> (hex \<and> to_lower_char c \<in> set ''abcdef'') then underscore_loop hex SeenDigit cs
      else if c = CHR ''_'' then (if i \<noteq> SeenDigit then False else underscore_loop hex SeenUnderscore cs)
      else if i = SeenUnderscore then False
      else underscore_loop hex SeenOther cs)"

definition drop_sign :: "string \<Rightarrow> string" where
  "drop_sign s = (case s of c # cs \<Rightarrow> if c = CHR ''-'' \<or> c = CHR ''+'' then cs else s | [] \<Rightarrow> [])"

definition underscoreOK :: "string \<Rightarrow> bool" where
  "underscoreOK s0 =
     (let s = drop_sign s0 in
      if length s \<ge> 2 \<and> s ! 0 = CHR ''0'' \<and> to_lower_char (s ! 1) \<in> set ''box''
      then underscore_loop (to_lower_char (s ! 1) = CHR ''x'') SeenDigit (drop 2 s)
      else underscore_loop False SeenStart s)"

definition lit_base :: "string \<Rightarrow> int \<times> string" where
  "lit_base s =
     (if s \<noteq> [] \<and> s ! 0 = CHR ''0''
      then (if length s \<ge> 3 \<and> to_lower_char (s ! 1) = CHR ''b'' then (2, drop 2 s)
            else if length s \<ge> 3 \<and> to_lower_char (s ! 1) = CHR ''o'' then (8, drop 2 s)
            else if length s \<ge> 3 \<and> to_lower_char (s ! 1) = CHR ''x'' then (16, drop 2 s)
            else (8, drop 1 s))
      else (10, s))"

definition parse_uint0 :: "string \<Rightarrow> int option" where
  "parse_uint0 s =
     (if s = [] then None
      else (case lit_base s of
              (base, ds) \<Rightarrow>
                (case lit_digits base 0 ds of
                   None \<Rightarrow> None
                 | Some n \<Rightarrow> if CHR ''_'' \<in> set ds \<and> \<not> underscoreOK s then None
                            else if n < 18446744073709551616 then Some n else None)))"

definition parse_int0 :: "string \<Rightarrow> int option" where
  "parse_int0 s =
     (if s = [] then None
      else (case parse_uint0 (drop_sign s) of
              None \<Rightarrow> None
            | Some n \<Rightarrow>
                if hd s = CHR ''-'' then (if n \<le> 9223372036854775808 then Some (- n) else None)
                else if n < 9223372036854775808 then Some n else None))"

section \<open>Sysfs\<close>

record sysfs =
  fs_read :: "string \<Rightarrow> string option"
  fs_list :: "string \<Rightarrow> string list option"
  fs_models :: "string list option"
  fs_parseSet :: "string \<Rightarrow> cpu_set option"

text \<open>The matches of \<^verbatim>\<open>cpu[0-9]*\<close> and \<^verbatim>\<open>node[0-9]*\<close> in a directory.\<close>

definition glob_numbered :: "sysfs \<Rightarrow> string \<Rightarrow> string \<Rightarrow> string list" where
  "glob_numbered fs dir pre =
     (case fs_list fs dir of
        None \<Rightarrow> []
      | Some names \<Rightarrow>
          map (\<lambda>n. path_join [dir, n])
            (filter (\<lambda>n. has_prefix n pre \<and> length pre < length n \<and> digit_val (n ! length pre) \<noteq> None) names))"

definition trim_nl :: "string \<Rightarrow> string" where
  "trim_nl s = rev (dropWhile (\<lambda>c. c = CHR 0x0A) (rev (dropWhile (\<lambda>c. c = CHR 0x0A) s)))"

text \<open>\<open>readSysfsEntry\<close> at the target types the code uses: none, \<open>*int\<close>, \<open>*[]int\<close> and \<open>*cpuset.CPUSet\<close>. An empty
  list leaves the target as it was.\<close>

definition sysfs_text :: "sysfs \<Rightarrow> string \<Rightarrow> string \<Rightarrow> string result" where
  "sysfs_text fs dir file =
     (case fs_read fs (path_join [dir, file]) of None \<Rightarrow> Inl (Err ''read'') | Some blob \<Rightarrow> Inr (trim_nl blob))"

definition sysfs_int :: "sysfs \<Rightarrow> string \<Rightarrow> string \<Rightarrow> int result" where
  "sysfs_int fs dir file =
     (case sysfs_text fs dir file of
        Inl e \<Rightarrow> Inl e
      | Inr buf \<Rightarrow> (case parse_int0 buf of None \<Rightarrow> Inl (Err ''failed to parse value of int64'') | Some v \<Rightarrow> Inr v))"

fun parse_items :: "string list \<Rightarrow> int list result" where
  "parse_items [] = Inr []"
| "parse_items (s # ss) =
     (if s = [] then parse_items ss
      else (case parse_int0 s of
              None \<Rightarrow> Inl (Err ''failed to parse number'')
            | Some v \<Rightarrow> (case parse_items ss of Inl e \<Rightarrow> Inl e | Inr vs \<Rightarrow> Inr (v # vs))))"

definition sysfs_ints :: "sysfs \<Rightarrow> string \<Rightarrow> string \<Rightarrow> int list result" where
  "sysfs_ints fs dir file =
     (case sysfs_text fs dir file of
        Inl e \<Rightarrow> Inl e | Inr buf \<Rightarrow> if buf = [] then Inr [] else parse_items (go_split '' '' buf))"

definition sysfs_set :: "sysfs \<Rightarrow> string \<Rightarrow> string \<Rightarrow> cpu_set \<Rightarrow> cpu_set result" where
  "sysfs_set fs dir file old =
     (case sysfs_text fs dir file of
        Inl e \<Rightarrow> Inl e
      | Inr buf \<Rightarrow>
          if buf = [] then Inr old
          else (case fs_parseSet fs buf of None \<Rightarrow> Inl (Err ''failed to parse CPUSet'') | Some s \<Rightarrow> Inr s))"

section \<open>The state of a discovery\<close>

text \<open>The maps that have been made, which the guards at the head of the steps test.\<close>

record discovery = system +
  made_cpus :: bool
  made_nodes :: bool
  made_packages :: bool
  made_gpus :: bool

definition fresh_system :: discovery where
  "fresh_system =
     \<lparr>s_packages = [], s_nodes = [], s_clusters = None, s_cpus = [], s_offline = {}, s_isolated = {}, s_threadsPerCore = 0,
      s_gpus = [], s_clusterInfo = None, s_supportsCluster = False, made_cpus = False, made_nodes = False,
      made_packages = False, made_gpus = False\<rparr>"

definition system_of :: "discovery \<Rightarrow> system" where
  "system_of s = system.truncate s"

text \<open>The orders in which the ranges over the maps of CPUs, packages and clusters happen to run.\<close>

record map_order =
  walk_cpus :: "(int, sys_cpu) gomap \<Rightarrow> (int, sys_cpu) gomap"
  walk_packages :: "(int, cpu_package) gomap \<Rightarrow> (int, cpu_package) gomap"
  walk_clusters :: "(int, sys_cluster) gomap \<Rightarrow> (int, sys_cluster) gomap"

definition some_order :: "map_order \<Rightarrow> bool" where
  "some_order w \<longleftrightarrow>
     (\<forall>m. mset (walk_cpus w m) = mset m) \<and> (\<forall>m. mset (walk_packages w m) = mset m) \<and> (\<forall>m. mset (walk_clusters w m) = mset m)"

section \<open>CPUs\<close>

definition or_minus :: "int result \<Rightarrow> int" where
  "or_minus r = (case r of Inl _ \<Rightarrow> -1 | Inr v \<Rightarrow> v)"

definition readCPUTopology :: "sysfs \<Rightarrow> string \<Rightarrow> sys_cpu \<Rightarrow> sys_cpu" where
  "readCPUTopology fs path c =
     c\<lparr>c_pkg := or_minus (sysfs_int fs path ''topology/physical_package_id''),
       c_die := or_minus (sysfs_int fs path ''topology/die_id''),
       c_core := or_minus (sysfs_int fs path ''topology/core_id''),
       c_threads := (case sysfs_set fs path ''topology/thread_siblings_list'' (c_threads c) of Inl _ \<Rightarrow> {c_id c} | Inr s \<Rightarrow> s)\<rparr>"

definition updateThreadsPerCore :: "sys_cpu \<Rightarrow> discovery \<Rightarrow> discovery" where
  "updateThreadsPerCore c s =
     (let t = (if s_threadsPerCore s < 1 then 1 else s_threadsPerCore s) in
      s\<lparr>s_threadsPerCore := (if int (card (c_threads c)) > t then int (card (c_threads c)) else t)\<rparr>)"

definition discoverCPU :: "sysfs \<Rightarrow> string \<Rightarrow> discovery \<Rightarrow> discovery result" where
  "discoverCPU fs path s =
     (let i = getEnumeratedID path;
          online = (case sysfs_text fs path ''online'' of Inl _ \<Rightarrow> True | Inr t \<Rightarrow> t \<noteq> [] \<and> hd t \<noteq> CHR ''0'');
          c0 = \<lparr>c_id = i, c_pkg = 0, c_die = 0, c_node = 0, c_core = 0, c_threads = {}, c_isolated = i \<in> s_isolated s, c_online = online\<rparr>;
          c1 = (if online then readCPUTopology fs path c0 else c0);
          s1 = (if online then s else s\<lparr>s_offline := s_offline s \<union> {i}\<rparr>)
      in case glob_numbered fs path ''node'' of
           [n] \<Rightarrow>
             (let c = c1\<lparr>c_node := getEnumeratedID n\<rparr>; s2 = updateThreadsPerCore c s1
              in Inr (s2\<lparr>s_cpus := AList.update i c (s_cpus s2)\<rparr>))
         | _ \<Rightarrow> Inl (Err ''exactly one node per cpu allowed''))"

fun each :: "('a \<Rightarrow> 's \<Rightarrow> 's result) \<Rightarrow> 'a list \<Rightarrow> 's \<Rightarrow> 's result" where
  "each f [] s = Inr s"
| "each f (x # xs) s = (case f x s of Inl e \<Rightarrow> Inl e | Inr s' \<Rightarrow> each f xs s')"

definition sysfs_cpu :: "string \<Rightarrow> string" where
  "sysfs_cpu path = path_join [path, ''devices/system/cpu'']"

definition sysfs_node :: "string \<Rightarrow> string" where
  "sysfs_node path = path_join [path, ''devices/system/node'']"

definition discoverCPUs :: "sysfs \<Rightarrow> string \<Rightarrow> discovery \<Rightarrow> discovery result" where
  "discoverCPUs fs path s =
     (if made_cpus s then Inr s
      else each (discoverCPU fs) (glob_numbered fs (sysfs_cpu path) ''cpu'')
             (s\<lparr>made_cpus := True, s_cpus := [],
                s_isolated := (case sysfs_set fs path ''devices/system/cpu/isolated'' (s_isolated s) of
                                 Inr t \<Rightarrow> t
                               | Inl _ \<Rightarrow> (if ok (sysfs_text fs path ''devices/system/cpu/isolated'') then {} else s_isolated s))\<rparr>))"

section \<open>Nodes\<close>

definition discoverNode :: "sysfs \<Rightarrow> string \<Rightarrow> discovery \<Rightarrow> discovery result" where
  "discoverNode fs path s =
     (let i = getEnumeratedID path in
      case sysfs_set fs path ''cpulist'' {} of
        Inl e \<Rightarrow> Inl e
      | Inr cpus \<Rightarrow>
          (case sysfs_ints fs path ''distance'' of
             Inl e \<Rightarrow> Inl e
           | Inr row \<Rightarrow>
               Inr (s\<lparr>s_nodes := AList.update i
                        \<lparr>n_id = i, n_pkg = 0, n_die = 0, n_cpus = cpus, n_distance = row, n_hasMemory = False, n_normalMem = False,
                         n_memoryType = MemoryTypeDRAM, n_meminfo = fs_read fs (path_join [path, ''meminfo''])\<rparr> (s_nodes s)\<rparr>)))"

definition set_nodes :: "(sys_node \<Rightarrow> sys_node) \<Rightarrow> cpu_set \<Rightarrow> discovery \<Rightarrow> discovery" where
  "set_nodes f ids s = s\<lparr>s_nodes := map (\<lambda>(i, n). (i, if n_id n \<in> ids then f n else n)) (s_nodes s)\<rparr>"

text \<open>The ids read from a node list file; a missing, empty or malformed file changes nothing.\<close>

definition listed_nodes :: "sysfs \<Rightarrow> string \<Rightarrow> string \<Rightarrow> cpu_set" where
  "listed_nodes fs path file =
     (case sysfs_text fs path file of
        Inl _ \<Rightarrow> {}
      | Inr t \<Rightarrow> if t = [] then {} else (case fs_parseSet fs t of None \<Rightarrow> {} | Some ids \<Rightarrow> ids))"

definition discoverNodesWithMemory :: "sysfs \<Rightarrow> string \<Rightarrow> discovery \<Rightarrow> discovery" where
  "discoverNodesWithMemory fs path s =
     set_nodes (n_hasMemory_update (\<lambda>_. True)) (listed_nodes fs path ''devices/system/node/has_memory'') s"

definition discoverNodesWithNormalMemory :: "sysfs \<Rightarrow> string \<Rightarrow> discovery \<Rightarrow> discovery" where
  "discoverNodesWithNormalMemory fs path s =
     set_nodes (\<lambda>n. n\<lparr>n_normalMem := True, n_memoryType := MemoryTypeDRAM\<rparr>)
       (listed_nodes fs path ''devices/system/node/has_normal_memory'') s"

definition discoverNodeMemory :: "sysfs \<Rightarrow> string \<Rightarrow> discovery \<Rightarrow> discovery" where
  "discoverNodeMemory fs path s = discoverNodesWithNormalMemory fs path (discoverNodesWithMemory fs path s)"

definition discoverNodes :: "sysfs \<Rightarrow> string \<Rightarrow> discovery \<Rightarrow> discovery result" where
  "discoverNodes fs path s =
     (if made_nodes s then Inr s
      else (case each (discoverNode fs) (glob_numbered fs (sysfs_node path) ''node'') (s\<lparr>made_nodes := True, s_nodes := []\<rparr>) of
              Inl e \<Rightarrow> Inl e | Inr s' \<Rightarrow> Inr (discoverNodeMemory fs path s')))"

section \<open>Packages\<close>

definition AddCPUToDie :: "int \<Rightarrow> int \<Rightarrow> cpu_package \<Rightarrow> cpu_package" where
  "AddCPUToDie d i p = p\<lparr>pk_dieCPUs := AList.update d (dieSet (pk_dieCPUs p) d \<union> {i}) (pk_dieCPUs p)\<rparr>"

definition AddNodeToDie :: "int \<Rightarrow> int \<Rightarrow> cpu_package \<Rightarrow> cpu_package" where
  "AddNodeToDie d n p = p\<lparr>pk_dieNodes := AList.update d (dieSet (pk_dieNodes p) d \<union> {n}) (pk_dieNodes p)\<rparr>"

definition AddCPU :: "int \<Rightarrow> cpu_package \<Rightarrow> cpu_package" where
  "AddCPU i p = p\<lparr>pk_cpus := pk_cpus p \<union> {i}\<rparr>"

definition AddNode :: "int \<Rightarrow> cpu_package \<Rightarrow> cpu_package" where
  "AddNode n p = p\<lparr>pk_nodes := pk_nodes p \<union> {n}\<rparr>"

definition AddDie :: "int \<Rightarrow> cpu_package \<Rightarrow> cpu_package" where
  "AddDie d p = p\<lparr>pk_dies := pk_dies p \<union> {d}\<rparr>"

definition empty_package :: "int \<Rightarrow> cpu_package" where
  "empty_package i = \<lparr>pk_id = i, pk_cpus = {}, pk_nodes = {}, pk_dies = {}, pk_dieCPUs = [], pk_dieNodes = []\<rparr>"

definition add_to_package :: "sys_cpu \<Rightarrow> cpu_package \<Rightarrow> cpu_package" where
  "add_to_package c p =
     AddNodeToDie (c_die c) (c_node c) (AddCPUToDie (c_die c) (c_id c) (AddDie (c_die c) (AddNode (c_node c) (AddCPU (c_id c) p))))"

definition SetDieID :: "int \<Rightarrow> sys_node \<Rightarrow> sys_node" where
  "SetDieID d n = n\<lparr>n_die := d\<rparr>"

definition SetPackageID :: "int \<Rightarrow> sys_node \<Rightarrow> sys_node" where
  "SetPackageID p n = n\<lparr>n_pkg := p\<rparr>"

definition package_cpu :: "discovery \<Rightarrow> sys_cpu \<Rightarrow> discovery" where
  "package_cpu s c =
     (let pkg = (case map_of (s_packages s) (c_pkg c) of None \<Rightarrow> empty_package (c_pkg c) | Some p \<Rightarrow> p);
          s1 = s\<lparr>s_packages := AList.update (c_pkg c) (add_to_package c pkg) (s_packages s)\<rparr>
      in case map_of (s_nodes s1) (c_node c) of
           None \<Rightarrow> s1
         | Some n \<Rightarrow> s1\<lparr>s_nodes := AList.update (c_node c) (SetDieID (c_die c) n) (s_nodes s1)\<rparr>)"

definition discoverPackages :: "map_order \<Rightarrow> discovery \<Rightarrow> discovery" where
  "discoverPackages w s =
     (if made_packages s then s
      else foldl package_cpu (s\<lparr>made_packages := True, s_packages := []\<rparr>) (map snd (walk_cpus w (s_cpus s))))"

fun place_nodes :: "int \<Rightarrow> int list \<Rightarrow> discovery \<Rightarrow> discovery result" where
  "place_nodes p [] s = Inr s"
| "place_nodes p (i # ids) s =
     (case map_of (s_nodes s) i of
        None \<Rightarrow> Inl (Err ''can't find package for ID'')
      | Some n \<Rightarrow> place_nodes p ids (s\<lparr>s_nodes := AList.update i (SetPackageID p n) (s_nodes s)\<rparr>))"

definition populateNodePackageInfo :: "map_order \<Rightarrow> discovery \<Rightarrow> discovery result" where
  "populateNodePackageInfo w s =
     (if s_nodes s = [] then Inr s
      else each (\<lambda>pkg. place_nodes (pk_id pkg) (GetSortedNodes pkg)) (map snd (walk_packages w (s_packages s))) s)"

section \<open>GPUs\<close>

definition isGPUDevice :: "string \<Rightarrow> bool" where
  "isGPUDevice classStr = has_prefix (trim_space classStr) ''0x0302''"

definition optional_text :: "sysfs \<Rightarrow> string list \<Rightarrow> string" where
  "optional_text fs elems = (case fs_read fs (path_join elems) of None \<Rightarrow> [] | Some b \<Rightarrow> trim_space b)"

definition readGPUDeviceInfo :: "sysfs \<Rightarrow> string \<Rightarrow> string \<Rightarrow> sys_gpu result" where
  "readGPUDeviceInfo fs dir addr =
     (case fs_read fs (path_join [dir, addr, ''class'']) of
        None \<Rightarrow> Inl (Err ''failed to read device class'')
      | Some cls \<Rightarrow>
          if \<not> isGPUDevice (trim_space cls) then Inl (Err ''not a GPU device'')
          else (case fs_read fs (path_join [dir, addr, ''numa_node'']) of
                  None \<Rightarrow> Inl (Err ''numa_node'')
                | Some numa \<Rightarrow>
                    (case atoi (trim_space numa) of
                       None \<Rightarrow> Inl (Err ''numa_node'')
                     | Some n \<Rightarrow>
                         Inr \<lparr>g_id = -1, g_nodeID = (if n < 0 then -1 else n), g_pciAddress = addr,
                              g_vendorID = optional_text fs [dir, addr, ''vendor''],
                              g_deviceID = optional_text fs [dir, addr, ''device''], g_deviceClass = trim_space cls\<rparr>)))"

definition gpus_of :: "sysfs \<Rightarrow> string \<Rightarrow> string list \<Rightarrow> sys_gpu list" where
  "gpus_of fs dir addrs = List.map_filter (\<lambda>a. case readGPUDeviceInfo fs dir a of Inl _ \<Rightarrow> None | Inr g \<Rightarrow> Some g) addrs"

definition discoverGPUs :: "sysfs \<Rightarrow> string \<Rightarrow> discovery \<Rightarrow> discovery \<times> unit result" where
  "discoverGPUs fs path s =
     (if made_gpus s then (s, Inr ())
      else (let dir = path_join [path, ''bus/pci/devices''] in
            case fs_list fs dir of
              None \<Rightarrow> (s\<lparr>made_gpus := True, s_gpus := []\<rparr>, Inl (Err ''failed to read PCI devices directory''))
            | Some addrs \<Rightarrow>
                (let gs = gpus_of fs dir addrs in
                 (s\<lparr>made_gpus := True, s_gpus := map (\<lambda>(k, g). (int k, g\<lparr>g_id := int k\<rparr>)) (enumerate 0 gs)\<rparr>, Inr ()))))"

section \<open>Clusters\<close>

definition cpuModel950 :: string where
  "cpuModel950 = ''0xd06''"

definition drop_cr :: "string \<Rightarrow> string" where
  "drop_cr l = (if l \<noteq> [] \<and> last l = CHR 0x0D then butlast l else l)"

definition part_is_950 :: "string \<Rightarrow> bool" where
  "part_is_950 line \<longleftrightarrow>
     has_prefix line ''CPU part'' \<and> (case go_cut '':'' line of None \<Rightarrow> False | Some (_, v) \<Rightarrow> trim_space v = cpuModel950)"

definition checkCPUInfoFileForCluster :: "sysfs \<Rightarrow> string \<Rightarrow> bool" where
  "checkCPUInfoFileForCluster fs path \<longleftrightarrow>
     (case fs_models fs of Some (m # _) \<Rightarrow> m = cpuModel950 | _ \<Rightarrow> False)
     \<or> (case fs_read fs path of None \<Rightarrow> False | Some text \<Rightarrow> list_ex part_is_950 (map drop_cr (go_split [CHR 0x0A] text)))"

definition SupportsClusterFeature :: "sysfs \<Rightarrow> bool option \<Rightarrow> bool" where
  "SupportsClusterFeature fs cached = (case cached of Some b \<Rightarrow> b | None \<Rightarrow> checkCPUInfoFileForCluster fs ''/proc/cpuinfo'')"

text \<open>The clusters found so far, by the text of their CPU list, with the number each got.\<close>

record cluster_scan =
  sc_ids :: "(string, int) gomap"
  sc_cpus :: "(string, cpu_set) gomap"
  sc_cpuCluster :: "(int, int) gomap"
  sc_next :: int

text \<open>\<open>None\<close> is the early return of a machine without cluster files.\<close>

fun scan_clusters :: "sysfs \<Rightarrow> string list \<Rightarrow> cluster_scan \<Rightarrow> cluster_scan option" where
  "scan_clusters fs [] t = Some t"
| "scan_clusters fs (entry # es) t =
     (case atoi (trim_prefix (path_base entry) ''cpu'') of
        None \<Rightarrow> scan_clusters fs es t
      | Some cpu \<Rightarrow>
          (case fs_read fs (path_join [entry, ''topology'', ''cluster_cpus_list'']) of
             None \<Rightarrow> None
           | Some data \<Rightarrow>
               (let l = trim_space data in
                if l = [] then scan_clusters fs es t
                else (case fs_parseSet fs l of
                        None \<Rightarrow> scan_clusters fs es t
                      | Some cpus \<Rightarrow>
                          (let t1 = (if map_of (sc_ids t) l = None
                                     then t\<lparr>sc_ids := AList.update l (sc_next t) (sc_ids t), sc_cpus := AList.update l cpus (sc_cpus t),
                                            sc_next := sc_next t + 1\<rparr>
                                     else t)
                           in scan_clusters fs es
                                (t1\<lparr>sc_cpuCluster := AList.update cpu (the (map_of (sc_ids t1) l)) (sc_cpuCluster t1)\<rparr>))))))"

definition DiscoverClusters :: "sysfs \<Rightarrow> string \<Rightarrow> cluster_info option result" where
  "DiscoverClusters fs path =
     (let entries = glob_numbered fs (sysfs_cpu path) ''cpu'' in
      if entries = [] then Inl (Err ''no CPU entries found'')
      else (case scan_clusters fs entries \<lparr>sc_ids = [], sc_cpus = [], sc_cpuCluster = [], sc_next = 0\<rparr> of
              None \<Rightarrow> Inr None
            | Some t \<Rightarrow>
                if sc_ids t = [] then Inr None
                else Inr (Some \<lparr>ci_Clusters = map (\<lambda>(l, i). (i, \<lparr>cl_id = i, cl_nodeID = -1, cl_cpus = the (map_of (sc_cpus t) l)\<rparr>)) (sc_ids t),
                               ci_NodeClusters = [], ci_CPUCluster = sc_cpuCluster t\<rparr>)))"

definition associate_cluster :: "(int, int) gomap \<Rightarrow> cluster_info \<Rightarrow> int \<times> sys_cluster \<Rightarrow> cluster_info" where
  "associate_cluster cpuNodeMap ci kc =
     (case kc of (i, c) \<Rightarrow>
        (case cpu_list (cl_cpus c) of
           [] \<Rightarrow> ci
         | cpu # _ \<Rightarrow>
             (case map_of cpuNodeMap cpu of
                None \<Rightarrow> ci
              | Some node \<Rightarrow>
                  ci\<lparr>ci_Clusters := AList.update i (c\<lparr>cl_nodeID := node\<rparr>) (ci_Clusters ci),
                     ci_NodeClusters := AList.update node
                       ((case map_of (ci_NodeClusters ci) node of None \<Rightarrow> [] | Some ids \<Rightarrow> ids) @ [i]) (ci_NodeClusters ci)\<rparr>)))"

definition AssociateWithNodes :: "map_order \<Rightarrow> (int, int) gomap \<Rightarrow> cluster_info \<Rightarrow> cluster_info" where
  "AssociateWithNodes w cpuNodeMap ci =
     (let ci' = foldl (associate_cluster cpuNodeMap) ci (walk_clusters w (ci_Clusters ci))
      in ci'\<lparr>ci_NodeClusters := map (\<lambda>(n, ids). (n, sort_ints ids)) (ci_NodeClusters ci')\<rparr>)"

definition cpu_node_map :: "discovery \<Rightarrow> (int, int) gomap" where
  "cpu_node_map s =
     foldl (\<lambda>m i. case map_of (s_nodes s) i of None \<Rightarrow> m | Some n \<Rightarrow> foldl (\<lambda>m c. AList.update c i m) m (cpu_list (n_cpus n)))
       [] (NodeIDs (system_of s))"

definition discoverClusters :: "sysfs \<Rightarrow> map_order \<Rightarrow> bool option \<Rightarrow> string \<Rightarrow> discovery \<Rightarrow> discovery \<times> unit result" where
  "discoverClusters fs w cached path s =
     (if s_clusters s \<noteq> None then (s, Inr ())
      else (let s1 = s\<lparr>s_clusters := Some []\<rparr> in
            if \<not> SupportsClusterFeature fs cached then (s1, Inr ())
            else (case DiscoverClusters fs path of
                    Inl e \<Rightarrow> (s1, Inl e)
                  | Inr None \<Rightarrow> (s1, Inr ())
                  | Inr (Some ci) \<Rightarrow>
                      if ci_Clusters ci = [] then (s1, Inr ())
                      else (let ci' = AssociateWithNodes w (cpu_node_map s1) ci
                            in (s1\<lparr>s_clusters := Some (ci_Clusters ci'), s_clusterInfo := Some ci'\<rparr>, Inr ())))))"

section \<open>The whole discovery\<close>

definition sys_Discover :: "sysfs \<Rightarrow> map_order \<Rightarrow> bool option \<Rightarrow> string \<Rightarrow> discovery \<Rightarrow> discovery result" where
  "sys_Discover fs w cached path s =
     (case discoverCPUs fs path s of
        Inl e \<Rightarrow> Inl e
      | Inr s1 \<Rightarrow>
          (case discoverNodes fs path s1 of
             Inl e \<Rightarrow> Inl e
           | Inr s2 \<Rightarrow>
               (case populateNodePackageInfo w (fst (discoverGPUs fs path (discoverPackages w s2))) of
                  Inl e \<Rightarrow> Inl e
                | Inr s3 \<Rightarrow>
                    Inr (let b = SupportsClusterFeature fs cached; s4 = s3\<lparr>s_supportsCluster := b\<rparr>
                         in if b then fst (discoverClusters fs w (Some b) path s4) else s4))))"

definition sysfs_path :: "string \<Rightarrow> string" where
  "sysfs_path sysRoot = path_join [''/'', sysRoot, ''sys'']"

definition NewSystem :: "sysfs \<Rightarrow> map_order \<Rightarrow> bool option \<Rightarrow> string \<Rightarrow> system result" where
  "NewSystem fs w cached sysRoot =
     (case sys_Discover fs w cached (sysfs_path sysRoot) fresh_system of Inl e \<Rightarrow> Inl e | Inr s \<Rightarrow> Inr (system_of s))"

end
