(* ===== verification/SysDiscovered.thy ===== *)
theory SysDiscovered
  imports SysDiscover TopoBuildOk
begin

text \<open>
  What discovery guarantees: the packages and dies are the groups of the CPUs however Go walks its maps, every
  node lies in the package of its CPUs, and the policy builder accepts what passes the topology's validation. An
  offline CPU, whose topology is not read, is counted to package 0.
\<close>

section \<open>Packages are the groups of the CPUs\<close>

definition package_ok :: "sys_cpu set \<Rightarrow> int \<Rightarrow> cpu_package \<Rightarrow> bool" where
  "package_ok C p pkg \<longleftrightarrow>
     pk_id pkg = p \<and> pk_cpus pkg = c_id ` {c \<in> C. c_pkg c = p} \<and> pk_nodes pkg = c_node ` {c \<in> C. c_pkg c = p}
     \<and> pk_dies pkg = c_die ` {c \<in> C. c_pkg c = p}
     \<and> (\<forall>d. dieSet (pk_dieCPUs pkg) d = c_id ` {c \<in> C. c_pkg c = p \<and> c_die c = d})
     \<and> (\<forall>d. dieSet (pk_dieNodes pkg) d = c_node ` {c \<in> C. c_pkg c = p \<and> c_die c = d})"

definition packages_ok :: "sys_cpu set \<Rightarrow> (int, cpu_package) gomap \<Rightarrow> bool" where
  "packages_ok C m \<longleftrightarrow>
     wf_map m \<and> dom (map_of m) = c_pkg ` C \<and> (\<forall>p pkg. map_of m p = Some pkg \<longrightarrow> package_ok C p pkg)"

lemma dieSet_update: "dieSet (AList.update d x m) e = (if e = d then x else dieSet m e)"
  by (simp add: dieSet_def)

lemma group_insert:
  "f ` {x \<in> insert c C. P x} = (if P c then insert (f c) (f ` {x \<in> C. P x}) else f ` {x \<in> C. P x})"
  by auto

lemma package_empty: "p \<notin> c_pkg ` C \<Longrightarrow> package_ok C p (empty_package p)"
  by (auto simp: package_ok_def empty_package_def dieSet_def)

lemma package_add:
  assumes "package_ok C (c_pkg c) pkg"
  shows "package_ok (insert c C) (c_pkg c) (add_to_package c pkg)"
  using assms unfolding package_ok_def group_insert
  by (simp add: add_to_package_def AddNodeToDie_def AddCPUToDie_def AddDie_def AddNode_def AddCPU_def dieSet_update)

lemma package_other: "package_ok C p pkg \<Longrightarrow> p \<noteq> c_pkg c \<Longrightarrow> package_ok (insert c C) p pkg"
  unfolding package_ok_def group_insert by auto

lemma packages_step:
  assumes "packages_ok C (s_packages s)"
  shows "packages_ok (insert c C) (s_packages (package_cpu s c))"
proof -
  let ?pkg = "case map_of (s_packages s) (c_pkg c) of None \<Rightarrow> empty_package (c_pkg c) | Some p \<Rightarrow> p"
  have m: "s_packages (package_cpu s c) = AList.update (c_pkg c) (add_to_package c ?pkg) (s_packages s)"
    by (auto simp: package_cpu_def Let_def split: option.splits)
  have "package_ok C (c_pkg c) ?pkg"
  proof (cases "map_of (s_packages s) (c_pkg c)")
    case None
    then have "c_pkg c \<notin> dom (map_of (s_packages s))" by blast
    then have "c_pkg c \<notin> c_pkg ` C" using assms by (simp add: packages_ok_def)
    then show ?thesis using None by (simp add: package_empty)
  qed (use assms in \<open>simp add: packages_ok_def\<close>)
  note here = package_add[OF this]
  show ?thesis unfolding packages_ok_def m
  proof (intro conjI allI impI)
    show "wf_map (AList.update (c_pkg c) (add_to_package c ?pkg) (s_packages s))" using assms by (simp add: packages_ok_def)
    show "dom (map_of (AList.update (c_pkg c) (add_to_package c ?pkg) (s_packages s))) = c_pkg ` insert c C"
      using assms by (simp add: packages_ok_def)
    fix p pkg assume "map_of (AList.update (c_pkg c) (add_to_package c ?pkg) (s_packages s)) p = Some pkg"
    then show "package_ok (insert c C) p pkg"
      using assms here package_other[of C p pkg c] by (cases "p = c_pkg c") (auto simp: packages_ok_def)
  qed
qed

lemma packages_fold:
  "packages_ok C (s_packages s) \<Longrightarrow> packages_ok (set cs \<union> C) (s_packages (foldl package_cpu s cs))"
proof (induction cs arbitrary: C s)
  case (Cons c cs)
  from Cons.IH[OF packages_step[OF Cons.prems, of c]] show ?case by simp
qed simp

section \<open>Nodes\<close>

definition nodes_keyed :: "(int, sys_node) gomap \<Rightarrow> bool" where
  "nodes_keyed m \<longleftrightarrow> wf_map m \<and> (\<forall>i n. map_of m i = Some n \<longrightarrow> n_id n = i)"

lemma nodes_keyed_update: "nodes_keyed m \<Longrightarrow> n_id n = i \<Longrightarrow> nodes_keyed (AList.update i n m)"
  by (auto simp: nodes_keyed_def split: if_splits)

text \<open>The fields that placing CPUs and nodes leaves alone.\<close>

definition frame :: "discovery \<Rightarrow> discovery \<Rightarrow> bool" where
  "frame s t \<longleftrightarrow> s_cpus t = s_cpus s \<and> s_offline t = s_offline s \<and> s_isolated t = s_isolated s \<and> s_gpus t = s_gpus s
     \<and> s_clusters t = s_clusters s \<and> dom (map_of (s_nodes t)) = dom (map_of (s_nodes s))"

lemma frame_refl: "frame s s" and frame_trans: "frame s t \<Longrightarrow> frame t u \<Longrightarrow> frame s u"
  by (simp_all add: frame_def)

lemma package_cpu_sel:
  "s_cpus (package_cpu s c) = s_cpus s" "s_offline (package_cpu s c) = s_offline s" "s_isolated (package_cpu s c) = s_isolated s"
  "s_gpus (package_cpu s c) = s_gpus s" "s_clusters (package_cpu s c) = s_clusters s"
  "s_nodes (package_cpu s c) =
     (case map_of (s_nodes s) (c_node c) of None \<Rightarrow> s_nodes s | Some n \<Rightarrow> AList.update (c_node c) (SetDieID (c_die c) n) (s_nodes s))"
  by (simp_all add: package_cpu_def Let_def split: option.split)

definition same_places :: "discovery \<Rightarrow> discovery \<Rightarrow> bool" where
  "same_places s t \<longleftrightarrow> (\<forall>i. map_option n_pkg (map_of (s_nodes t) i) = map_option n_pkg (map_of (s_nodes s) i))"

lemma package_cpu_frame:
  assumes "nodes_keyed (s_nodes s)"
  shows "frame s (package_cpu s c)" "nodes_keyed (s_nodes (package_cpu s c))" "same_places s (package_cpu s c)"
proof -
  have f: "frame s (package_cpu s c) \<and> nodes_keyed (s_nodes (package_cpu s c)) \<and> same_places s (package_cpu s c)"
  proof (cases "map_of (s_nodes s) (c_node c)")
    case None
    then show ?thesis using assms by (simp add: frame_def same_places_def package_cpu_sel)
  next
    case (Some n)
    then have "n_id n = c_node c" using assms by (simp add: nodes_keyed_def)
    with Some show ?thesis using assms
      by (auto simp: frame_def same_places_def package_cpu_sel SetDieID_def intro!: nodes_keyed_update)
  qed
  then show "frame s (package_cpu s c)" "nodes_keyed (s_nodes (package_cpu s c))" "same_places s (package_cpu s c)" by blast+
qed

lemma packages_frame:
  "nodes_keyed (s_nodes s) \<Longrightarrow>
   frame s (foldl package_cpu s cs) \<and> nodes_keyed (s_nodes (foldl package_cpu s cs)) \<and> same_places s (foldl package_cpu s cs)"
proof (induction cs arbitrary: s)
  case Nil
  then show ?case by (simp add: frame_def same_places_def)
next
  case (Cons c cs)
  note f = package_cpu_frame[OF Cons.prems, of c]
  note ih = Cons.IH[OF f(2)]
  have "same_places s (foldl package_cpu (package_cpu s c) cs)"
    using f(3) ih unfolding same_places_def by presburger
  then show ?case using ih frame_trans[OF f(1)] by simp
qed

text \<open>Placing the nodes of one package.\<close>

lemma place_nodes_spec:
  "place_nodes p ids s = Inr t \<Longrightarrow> nodes_keyed (s_nodes s) \<Longrightarrow>
   frame s t \<and> s_packages t = s_packages s \<and> nodes_keyed (s_nodes t) \<and> set ids \<subseteq> dom (map_of (s_nodes s))
   \<and> (\<forall>i. map_option n_pkg (map_of (s_nodes t) i) = (if i \<in> set ids then Some p else map_option n_pkg (map_of (s_nodes s) i)))"
proof (induction ids arbitrary: s)
  case Nil
  then show ?case by (simp add: frame_def)
next
  case (Cons i ids)
  then obtain n where n: "map_of (s_nodes s) i = Some n" by (cases "map_of (s_nodes s) i") auto
  let ?u = "s\<lparr>s_nodes := AList.update i (SetPackageID p n) (s_nodes s)\<rparr>"
  have u: "place_nodes p ids ?u = Inr t" using Cons.prems(1) n by simp
  have "n_id n = i" using n Cons.prems(2) by (simp add: nodes_keyed_def)
  then have k: "nodes_keyed (s_nodes ?u)" using Cons.prems(2) by (simp add: nodes_keyed_update SetPackageID_def)
  have fr: "frame s ?u" using n by (auto simp: frame_def)
  note ih = Cons.IH[OF u k]
  have d: "dom (map_of (s_nodes ?u)) = dom (map_of (s_nodes s))" using fr by (simp add: frame_def)
  have "set ids \<subseteq> dom (map_of (s_nodes ?u))" using ih by blast
  then have "set (i # ids) \<subseteq> dom (map_of (s_nodes s))" unfolding d using n by (simp add: domI)
  moreover have "map_option n_pkg (map_of (s_nodes t) j)
      = (if j \<in> set (i # ids) then Some p else map_option n_pkg (map_of (s_nodes s) j))" for j
    using ih by (auto simp: SetPackageID_def)
  ultimately show ?case using ih frame_trans[OF fr] by simp
qed

lemma each_Inr_Cons: "each f (x # xs) s = Inr u \<longleftrightarrow> (\<exists>t. f x s = Inr t \<and> each f xs t = Inr u)"
  by (simp add: bind_Inr_iff)

definition placed_by :: "cpu_package set \<Rightarrow> (int \<Rightarrow> int option) \<Rightarrow> (int \<Rightarrow> int option) \<Rightarrow> bool" where
  "placed_by P f g \<longleftrightarrow>
     (\<forall>i. if \<exists>pkg\<in>P. i \<in> pk_nodes pkg then \<exists>pkg\<in>P. i \<in> pk_nodes pkg \<and> g i = Some (pk_id pkg) else g i = f i)"

lemma placed_step:
  assumes "placed_by P f g" "\<And>i. h i = (if i \<in> pk_nodes pkg then Some (pk_id pkg) else g i)"
  shows "placed_by (insert pkg P) f h"
  unfolding placed_by_def
proof (intro allI)
  fix i
  show "if \<exists>q\<in>insert pkg P. i \<in> pk_nodes q then \<exists>q\<in>insert pkg P. i \<in> pk_nodes q \<and> h i = Some (pk_id q) else h i = f i"
  proof (cases "i \<in> pk_nodes pkg")
    case True
    then show ?thesis using assms(2) by auto
  next
    case False
    then have "h i = g i" using assms(2) by simp
    moreover have "if \<exists>q\<in>P. i \<in> pk_nodes q then \<exists>q\<in>P. i \<in> pk_nodes q \<and> g i = Some (pk_id q) else g i = f i"
      using assms(1) unfolding placed_by_def by blast
    ultimately show ?thesis using False by (auto split: if_splits)
  qed
qed

lemma place_packages:
  assumes "\<And>pkg. pkg \<in> set pkgs \<Longrightarrow> finite (pk_nodes pkg)"
  shows "each (\<lambda>pkg. place_nodes (pk_id pkg) (GetSortedNodes pkg)) pkgs s = Inr t \<Longrightarrow> nodes_keyed (s_nodes s) \<Longrightarrow>
     placed_by P f (\<lambda>i. map_option n_pkg (map_of (s_nodes s) i)) \<Longrightarrow>
     frame s t \<and> s_packages t = s_packages s \<and> nodes_keyed (s_nodes t)
     \<and> (\<Union>pkg\<in>set pkgs. pk_nodes pkg) \<subseteq> dom (map_of (s_nodes s))
     \<and> placed_by (set pkgs \<union> P) f (\<lambda>i. map_option n_pkg (map_of (s_nodes t) i))"
  using assms
proof (induction pkgs arbitrary: s P)
  case Nil
  then show ?case by (simp add: frame_def)
next
  case (Cons pkg pkgs)
  obtain u where u: "place_nodes (pk_id pkg) (GetSortedNodes pkg) s = Inr u"
    "each (\<lambda>pkg. place_nodes (pk_id pkg) (GetSortedNodes pkg)) pkgs u = Inr t"
    using Cons.prems(1) unfolding each_Inr_Cons by blast
  have ids: "set (GetSortedNodes pkg) = pk_nodes pkg" using Cons.prems(4) by (simp add: GetSortedNodes_def cpu_list_def)
  note pl = place_nodes_spec[OF u(1) Cons.prems(2), unfolded ids]
  have k: "nodes_keyed (s_nodes u)" and fr: "frame s u" and sp: "s_packages u = s_packages s" and sub: "pk_nodes pkg \<subseteq> dom (map_of (s_nodes s))"
    using pl by blast+
  have "placed_by (insert pkg P) f (\<lambda>i. map_option n_pkg (map_of (s_nodes u) i))"
    using pl by (intro placed_step[OF Cons.prems(3)]) blast
  from Cons.IH[OF u(2) k this Cons.prems(4)]
  have ih: "frame u t" "s_packages t = s_packages u" "nodes_keyed (s_nodes t)" "(\<Union>pkg\<in>set pkgs. pk_nodes pkg) \<subseteq> dom (map_of (s_nodes u))"
    "placed_by (set pkgs \<union> insert pkg P) f (\<lambda>i. map_option n_pkg (map_of (s_nodes t) i))" by simp_all
  have "dom (map_of (s_nodes u)) = dom (map_of (s_nodes s))" using fr by (simp add: frame_def)
  with ih(4) sub have "(\<Union>pkg\<in>set (pkg # pkgs). pk_nodes pkg) \<subseteq> dom (map_of (s_nodes s))" by simp
  then show ?case using ih frame_trans[OF fr] sp by (simp add: Un_commute insert_commute)
qed


section \<open>CPUs and nodes read from sysfs\<close>

definition cpus_keyed :: "(int, sys_cpu) gomap \<Rightarrow> bool" where
  "cpus_keyed m \<longleftrightarrow> wf_map m \<and> (\<forall>i c. map_of m i = Some c \<longrightarrow> c_id c = i)"

lemma cpus_keyed_update: "cpus_keyed m \<Longrightarrow> c_id c = i \<Longrightarrow> cpus_keyed (AList.update i c m)"
  by (auto simp: cpus_keyed_def split: if_splits)

text \<open>An offline CPU is listed as offline and has kept the zero value of the fields that are read only when it is online.\<close>

definition offline_ok :: "'a system_scheme \<Rightarrow> bool" where
  "offline_ok s \<longleftrightarrow>
     (\<forall>i c. map_of (s_cpus s) i = Some c \<longrightarrow> \<not> c_online c \<longrightarrow> i \<in> s_offline s \<and> c_pkg c = 0 \<and> c_die c = 0 \<and> c_threads c = {})"

lemma discoverCPU_spec:
  assumes "discoverCPU fs path s = Inr t" "cpus_keyed (s_cpus s)" "offline_ok s"
  shows "cpus_keyed (s_cpus t) \<and> offline_ok t \<and> dom (map_of (s_cpus t)) = insert (getEnumeratedID path) (dom (map_of (s_cpus s)))
    \<and> s_nodes t = s_nodes s \<and> made_nodes t = made_nodes s \<and> made_packages t = made_packages s \<and> made_gpus t = made_gpus s
    \<and> s_clusters t = s_clusters s \<and> s_clusterInfo t = s_clusterInfo s"
proof -
  obtain n where n: "glob_numbered fs path ''node'' = [n]"
    using assms(1) unfolding discoverCPU_def Let_def by (auto split: list.splits)
  let ?i = "getEnumeratedID path"
  let ?on = "case sysfs_text fs path ''online'' of Inl _ \<Rightarrow> True | Inr t \<Rightarrow> t \<noteq> [] \<and> hd t \<noteq> CHR ''0''"
  let ?c0 = "\<lparr>c_id = ?i, c_pkg = 0, c_die = 0, c_node = 0, c_core = 0, c_threads = {}, c_isolated = ?i \<in> s_isolated s, c_online = ?on\<rparr>"
  let ?c = "(if ?on then readCPUTopology fs path ?c0 else ?c0)\<lparr>c_node := getEnumeratedID n\<rparr>"
  have t: "t = (updateThreadsPerCore ?c (if ?on then s else s\<lparr>s_offline := s_offline s \<union> {?i}\<rparr>))
      \<lparr>s_cpus := AList.update ?i ?c (s_cpus s)\<rparr>"
    using assms(1) unfolding discoverCPU_def Let_def n by (auto simp: updateThreadsPerCore_def Let_def)
  have c: "c_id ?c = ?i" "c_online ?c = ?on" "\<not> ?on \<Longrightarrow> c_pkg ?c = 0 \<and> c_die ?c = 0 \<and> c_threads ?c = {}"
    by (simp_all add: readCPUTopology_def)
  have sel: "s_cpus t = AList.update ?i ?c (s_cpus s)" "s_offline t = (if ?on then s_offline s else s_offline s \<union> {?i})"
    unfolding t by (simp_all add: updateThreadsPerCore_def Let_def)
  have k: "cpus_keyed (s_cpus t)" unfolding sel by (rule cpus_keyed_update[OF assms(2) c(1)])
  have "offline_ok t" unfolding offline_ok_def
  proof (intro allI impI)
    fix i c' assume m: "map_of (s_cpus t) i = Some c'" "\<not> c_online c'"
    show "i \<in> s_offline t \<and> c_pkg c' = 0 \<and> c_die c' = 0 \<and> c_threads c' = {}"
    proof (cases "i = ?i")
      case True
      then have "c' = ?c" using m(1) by (simp add: sel)
      then show ?thesis using m(2) c True sel(2) by simp
    next
      case False
      then have "map_of (s_cpus s) i = Some c'" using m(1) by (simp add: sel)
      then show ?thesis using m(2) assms(3) sel(2) unfolding offline_ok_def by auto
    qed
  qed
  moreover have "dom (map_of (s_cpus t)) = insert ?i (dom (map_of (s_cpus s)))" by (simp add: sel)
  moreover have "s_nodes t = s_nodes s \<and> made_nodes t = made_nodes s \<and> made_packages t = made_packages s \<and> made_gpus t = made_gpus s
      \<and> s_clusters t = s_clusters s \<and> s_clusterInfo t = s_clusterInfo s"
    unfolding t by (simp add: updateThreadsPerCore_def Let_def)
  ultimately show ?thesis using k by blast
qed

lemma each_cpus:
  "each (discoverCPU fs) paths s = Inr t \<Longrightarrow> cpus_keyed (s_cpus s) \<Longrightarrow> offline_ok s \<Longrightarrow>
   cpus_keyed (s_cpus t) \<and> offline_ok t \<and> dom (map_of (s_cpus t)) = getEnumeratedID ` set paths \<union> dom (map_of (s_cpus s))
   \<and> s_nodes t = s_nodes s \<and> made_nodes t = made_nodes s \<and> made_packages t = made_packages s \<and> made_gpus t = made_gpus s
   \<and> s_clusters t = s_clusters s \<and> s_clusterInfo t = s_clusterInfo s"
proof (induction paths arbitrary: s)
  case (Cons p paths)
  obtain u where u: "discoverCPU fs p s = Inr u" "each (discoverCPU fs) paths u = Inr t"
    using Cons.prems(1) unfolding each_Inr_Cons by blast
  note d = discoverCPU_spec[OF u(1) Cons.prems(2,3)]
  then show ?case using Cons.IH[OF u(2)] by simp
qed simp

lemma discoverNode_spec:
  assumes "discoverNode fs path s = Inr t" "nodes_keyed (s_nodes s)" "\<forall>i n. map_of (s_nodes s) i = Some n \<longrightarrow> n_pkg n = 0"
  shows "nodes_keyed (s_nodes t) \<and> (\<forall>i n. map_of (s_nodes t) i = Some n \<longrightarrow> n_pkg n = 0)
    \<and> dom (map_of (s_nodes t)) = insert (getEnumeratedID path) (dom (map_of (s_nodes s)))
    \<and> s_cpus t = s_cpus s \<and> s_offline t = s_offline s \<and> made_packages t = made_packages s \<and> made_gpus t = made_gpus s
    \<and> s_clusters t = s_clusters s \<and> s_clusterInfo t = s_clusterInfo s"
proof -
  obtain cpus where c: "sysfs_set fs path ''cpulist'' {} = Inr cpus"
    using assms(1) by (cases "sysfs_set fs path ''cpulist'' {}") (auto simp: discoverNode_def)
  obtain row where r: "sysfs_ints fs path ''distance'' = Inr row"
    using assms(1) c by (cases "sysfs_ints fs path ''distance''") (auto simp: discoverNode_def)
  let ?n = "\<lparr>n_id = getEnumeratedID path, n_pkg = 0, n_die = 0, n_cpus = cpus, n_distance = row, n_hasMemory = False, n_normalMem = False,
       n_memoryType = MemoryTypeDRAM, n_meminfo = fs_read fs (path_join [path, ''meminfo''])\<rparr>"
  have t: "t = s\<lparr>s_nodes := AList.update (getEnumeratedID path) ?n (s_nodes s)\<rparr>"
    using assms(1) c r by (simp add: discoverNode_def Let_def)
  show ?thesis unfolding t using assms(2,3) nodes_keyed_update[OF assms(2), of ?n "getEnumeratedID path"] by simp
qed

lemma each_nodes:
  "each (discoverNode fs) paths s = Inr t \<Longrightarrow> nodes_keyed (s_nodes s) \<Longrightarrow> \<forall>i n. map_of (s_nodes s) i = Some n \<longrightarrow> n_pkg n = 0 \<Longrightarrow>
   nodes_keyed (s_nodes t) \<and> (\<forall>i n. map_of (s_nodes t) i = Some n \<longrightarrow> n_pkg n = 0)
    \<and> dom (map_of (s_nodes t)) = getEnumeratedID ` set paths \<union> dom (map_of (s_nodes s))
    \<and> s_cpus t = s_cpus s \<and> s_offline t = s_offline s \<and> made_packages t = made_packages s \<and> made_gpus t = made_gpus s
    \<and> s_clusters t = s_clusters s \<and> s_clusterInfo t = s_clusterInfo s"
proof (induction paths arbitrary: s)
  case (Cons p paths)
  obtain u where u: "discoverNode fs p s = Inr u" "each (discoverNode fs) paths u = Inr t"
    using Cons.prems(1) unfolding each_Inr_Cons by blast
  note d = discoverNode_spec[OF u(1) Cons.prems(2,3)]
  then show ?case using Cons.IH[OF u(2)] by simp
qed simp

lemma map_of_map_values: "map_of (map (\<lambda>(i, n). (i, g n)) m) i = map_option g (map_of m i)"
  by (induction m) auto

lemma set_nodes_spec:
  assumes "\<And>n. n_id (f n) = n_id n" "\<And>n. n_pkg (f n) = n_pkg n" "nodes_keyed (s_nodes s)"
  shows "nodes_keyed (s_nodes (set_nodes f ids s))" "dom (map_of (s_nodes (set_nodes f ids s))) = dom (map_of (s_nodes s))"
    "\<forall>i. map_option n_pkg (map_of (s_nodes (set_nodes f ids s)) i) = map_option n_pkg (map_of (s_nodes s) i)"
proof -
  have m: "map_of (s_nodes (set_nodes f ids s)) i = map_option (\<lambda>n. if n_id n \<in> ids then f n else n) (map_of (s_nodes s) i)" for i
    by (simp add: set_nodes_def map_of_map_values)
  have "wf_map (s_nodes (set_nodes f ids s))" using assms(3)
    by (simp add: nodes_keyed_def wf_map_def set_nodes_def comp_def case_prod_beta)
  moreover have "n_id n = i" if "map_of (s_nodes (set_nodes f ids s)) i = Some n" for i n
    using that assms(1,3) by (auto simp: m nodes_keyed_def split: if_splits)
  ultimately show "nodes_keyed (s_nodes (set_nodes f ids s))" by (simp add: nodes_keyed_def)
  show "dom (map_of (s_nodes (set_nodes f ids s))) = dom (map_of (s_nodes s))" by (auto simp: dom_def m)
  show "\<forall>i. map_option n_pkg (map_of (s_nodes (set_nodes f ids s)) i) = map_option n_pkg (map_of (s_nodes s) i)"
    using assms(2) by (simp add: m option.map_comp comp_def if_distrib cong: if_cong)
qed


section \<open>The discovered topology\<close>

definition all_cpus :: "'a system_scheme \<Rightarrow> sys_cpu set" where
  "all_cpus s = snd ` set (s_cpus s)"

definition node_places_ok :: "sys_cpu set \<Rightarrow> (int, sys_node) gomap \<Rightarrow> bool" where
  "node_places_ok C m \<longleftrightarrow>
     (m \<noteq> [] \<longrightarrow> c_node ` C \<subseteq> dom (map_of m))
     \<and> (\<forall>i n. map_of m i = Some n \<longrightarrow>
          (if \<exists>c\<in>C. c_node c = i then \<exists>c\<in>C. c_node c = i \<and> n_pkg n = c_pkg c else n_pkg n = 0))"

definition topology_ok :: "'a system_scheme \<Rightarrow> bool" where
  "topology_ok s \<longleftrightarrow> cpus_keyed (s_cpus s) \<and> nodes_keyed (s_nodes s) \<and> packages_ok (all_cpus s) (s_packages s)
     \<and> node_places_ok (all_cpus s) (s_nodes s)"

lemma nodes_fold_ok:
  assumes "discoverNodes fs path s = Inr t" "\<not> made_nodes s"
  shows "nodes_keyed (s_nodes t) \<and> (\<forall>i n. map_of (s_nodes t) i = Some n \<longrightarrow> n_pkg n = 0)
    \<and> dom (map_of (s_nodes t)) = getEnumeratedID ` set (glob_numbered fs (sysfs_node path) ''node'')
    \<and> s_cpus t = s_cpus s \<and> s_offline t = s_offline s \<and> made_packages t = made_packages s"
proof -
  obtain u where u: "each (discoverNode fs) (glob_numbered fs (sysfs_node path) ''node'') (s\<lparr>made_nodes := True, s_nodes := []\<rparr>) = Inr u"
    "t = discoverNodeMemory fs path u"
    using assms by (auto simp: discoverNodes_def split: sum.splits)
  have "nodes_keyed (s_nodes (s\<lparr>made_nodes := True, s_nodes := []\<rparr>))" by (simp add: nodes_keyed_def)
  note e = each_nodes[OF u(1) this]
  have k: "nodes_keyed (s_nodes u)" using e by simp
  let ?v = "discoverNodesWithMemory fs path u"
  have v: "nodes_keyed (s_nodes ?v)" "dom (map_of (s_nodes ?v)) = dom (map_of (s_nodes u))"
    "\<forall>i. map_option n_pkg (map_of (s_nodes ?v) i) = map_option n_pkg (map_of (s_nodes u) i)"
    unfolding discoverNodesWithMemory_def by (rule set_nodes_spec[OF _ _ k]; simp)+
  have t: "nodes_keyed (s_nodes t)" "dom (map_of (s_nodes t)) = dom (map_of (s_nodes ?v))"
    "\<forall>i. map_option n_pkg (map_of (s_nodes t) i) = map_option n_pkg (map_of (s_nodes ?v) i)"
    unfolding u(2) discoverNodeMemory_def discoverNodesWithNormalMemory_def by (rule set_nodes_spec[OF _ _ v(1)]; simp)+
  have pk: "n_pkg n = 0" if "map_of (s_nodes t) i = Some n" for i n
  proof -
    have "map_option n_pkg (map_of (s_nodes u) i) = Some (n_pkg n)" using that t(3) v(3) by (metis option.simps(9))
    then show ?thesis using e by auto
  qed
  have "s_cpus t = s_cpus u \<and> s_offline t = s_offline u \<and> made_packages t = made_packages u"
    by (simp add: u(2) discoverNodeMemory_def discoverNodesWithNormalMemory_def discoverNodesWithMemory_def set_nodes_def)
  then show ?thesis using e t(1,2) v(2) pk by simp
qed

lemma finite_packages: "packages_ok C m \<Longrightarrow> finite C \<Longrightarrow> map_of m p = Some pkg \<Longrightarrow> finite (pk_nodes pkg)"
  by (simp add: packages_ok_def package_ok_def)

lemma placed_topology:
  assumes "packages_ok C m" "placed_by (ran (map_of m)) f g"
  shows "if \<exists>c\<in>C. c_node c = i then \<exists>c\<in>C. c_node c = i \<and> g i = Some (c_pkg c) else g i = f i"
proof -
  have mem: "(\<exists>pkg\<in>ran (map_of m). i \<in> pk_nodes pkg \<and> Q (pk_id pkg)) \<longleftrightarrow> (\<exists>c\<in>C. c_node c = i \<and> Q (c_pkg c))" for Q
  proof
    assume "\<exists>pkg\<in>ran (map_of m). i \<in> pk_nodes pkg \<and> Q (pk_id pkg)"
    then obtain p pkg where p: "map_of m p = Some pkg" "i \<in> pk_nodes pkg" "Q (pk_id pkg)" by (auto simp: ran_def)
    then have "package_ok C p pkg" using assms(1) by (simp add: packages_ok_def)
    then show "\<exists>c\<in>C. c_node c = i \<and> Q (c_pkg c)" using p(2,3) by (auto simp: package_ok_def)
  next
    assume "\<exists>c\<in>C. c_node c = i \<and> Q (c_pkg c)"
    then obtain c where c: "c \<in> C" "c_node c = i" "Q (c_pkg c)" by blast
    then have "c_pkg c \<in> dom (map_of m)" using assms(1) by (simp add: packages_ok_def)
    then obtain pkg where pkg: "map_of m (c_pkg c) = Some pkg" by blast
    then have "package_ok C (c_pkg c) pkg" using assms(1) by (simp add: packages_ok_def)
    then have "i \<in> pk_nodes pkg" "pk_id pkg = c_pkg c" using c by (auto simp: package_ok_def)
    then show "\<exists>pkg\<in>ran (map_of m). i \<in> pk_nodes pkg \<and> Q (pk_id pkg)" using pkg c(3) by (auto simp: ran_def)
  qed
  from mem[of "\<lambda>_. True"] mem[of "\<lambda>p. g i = Some p"] assms(2)[unfolded placed_by_def, rule_format, of i]
  show ?thesis by (simp split: if_splits)
qed


lemma walked: "some_order w \<Longrightarrow> set (walk_cpus w m) = set m" "some_order w \<Longrightarrow> set (walk_packages w k) = set k"
  unfolding some_order_def by (metis mset_eq_setD)+

lemma populate_ok:
  assumes "populateNodePackageInfo w s = Inr t" "some_order w" "packages_ok C (s_packages s)" "finite C" "nodes_keyed (s_nodes s)"
    "\<forall>i n. map_of (s_nodes s) i = Some n \<longrightarrow> n_pkg n = 0"
  shows "frame s t \<and> s_packages t = s_packages s \<and> nodes_keyed (s_nodes t) \<and> node_places_ok C (s_nodes t)"
proof (cases "s_nodes s = []")
  case True
  then show ?thesis using assms(1,5) by (simp add: populateNodePackageInfo_def frame_def node_places_ok_def)
next
  case False
  let ?pk = "map snd (walk_packages w (s_packages s))" and ?g = "\<lambda>s i. map_option n_pkg (map_of (s_nodes s) i)"
  have e: "each (\<lambda>pkg. place_nodes (pk_id pkg) (GetSortedNodes pkg)) ?pk s = Inr t" using assms(1) False by (simp add: populateNodePackageInfo_def)
  have wf: "distinct (map fst (s_packages s))" using assms(3) by (simp add: packages_ok_def wf_map_def)
  have pk: "set ?pk = ran (map_of (s_packages s))" using walked(2)[OF assms(2)] ran_distinct[OF wf] by simp
  have fin: "finite (pk_nodes pkg)" if "pkg \<in> set ?pk" for pkg
    using that finite_packages[OF assms(3,4)] unfolding pk ran_def by blast
  have "placed_by {} (?g s) (?g s)" by (simp add: placed_by_def)
  from place_packages[OF fin e assms(5) this]
  have p: "frame s t" "s_packages t = s_packages s" "nodes_keyed (s_nodes t)" "(\<Union>pkg\<in>set ?pk. pk_nodes pkg) \<subseteq> dom (map_of (s_nodes s))"
    "placed_by (ran (map_of (s_packages s))) (?g s) (?g t)" unfolding pk[symmetric] by simp_all
  have d: "dom (map_of (s_nodes t)) = dom (map_of (s_nodes s))" using p(1) by (simp add: frame_def)
  have sub: "c_node ` C \<subseteq> dom (map_of (s_nodes t))"
  proof
    fix i assume "i \<in> c_node ` C"
    then obtain c where c: "c \<in> C" "i = c_node c" by blast
    then have "c_pkg c \<in> dom (map_of (s_packages s))" using assms(3) by (simp add: packages_ok_def)
    then obtain pkg where pkg: "map_of (s_packages s) (c_pkg c) = Some pkg" by blast
    then have "package_ok C (c_pkg c) pkg" using assms(3) by (simp add: packages_ok_def)
    then have "i \<in> pk_nodes pkg" using c by (auto simp: package_ok_def)
    then show "i \<in> dom (map_of (s_nodes t))" using pkg p(4) d unfolding pk ran_def by blast
  qed
  have "if \<exists>c\<in>C. c_node c = i then \<exists>c\<in>C. c_node c = i \<and> n_pkg n = c_pkg c else n_pkg n = 0"
    if n: "map_of (s_nodes t) i = Some n" for i n
  proof -
    have z: "?g s i = Some 0" using n d assms(6) by (metis (mono_tags, lifting) domD domI option.simps(9))
    from placed_topology[OF assms(3) p(5), of i] n z show ?thesis by (auto split: if_splits)
  qed
  then show ?thesis using p(1-3) sub unfolding node_places_ok_def by blast
qed

lemma discoverClusters_frame:
  "s_cpus (fst (discoverClusters fs w b path s)) = s_cpus s" "s_nodes (fst (discoverClusters fs w b path s)) = s_nodes s"
  "s_packages (fst (discoverClusters fs w b path s)) = s_packages s" "s_offline (fst (discoverClusters fs w b path s)) = s_offline s"
  by (simp_all add: discoverClusters_def Let_def split: sum.split option.split)

lemma discoverGPUs_frame:
  "s_cpus (fst (discoverGPUs fs path s)) = s_cpus s" "s_nodes (fst (discoverGPUs fs path s)) = s_nodes s"
  "s_packages (fst (discoverGPUs fs path s)) = s_packages s" "s_offline (fst (discoverGPUs fs path s)) = s_offline s"
  by (simp_all add: discoverGPUs_def Let_def split: option.split)

lemma finite_all_cpus [simp]: "finite (all_cpus s)"
  by (simp add: all_cpus_def)

lemma system_of_sel [simp]:
  "s_cpus (system_of s) = s_cpus s" "s_nodes (system_of s) = s_nodes s" "s_packages (system_of s) = s_packages s"
  "s_offline (system_of s) = s_offline s"
  by (simp_all add: system_of_def system.truncate_def)

lemma sys_Discover_fresh:
  assumes "sys_Discover fs w cached path fresh_system = Inr t" "some_order w"
  shows "topology_ok t \<and> offline_ok t
    \<and> dom (map_of (s_cpus t)) = getEnumeratedID ` set (glob_numbered fs (sysfs_cpu path) ''cpu'')
    \<and> dom (map_of (s_nodes t)) = getEnumeratedID ` set (glob_numbered fs (sysfs_node path) ''node'')"
proof -
  obtain s1 where s1: "discoverCPUs fs path fresh_system = Inr s1" using assms(1) by (auto simp: sys_Discover_def split: sum.splits)
  obtain s2 where s2: "discoverNodes fs path s1 = Inr s2" using assms(1) s1 by (auto simp: sys_Discover_def split: sum.splits)
  let ?p = "discoverPackages w s2" and ?g = "fst (discoverGPUs fs path (discoverPackages w s2))"
  obtain s3 where s3: "populateNodePackageInfo w ?g = Inr s3" using assms(1) s1 s2 by (auto simp: sys_Discover_def split: sum.splits)
  let ?s4 = "s3\<lparr>s_supportsCluster := SupportsClusterFeature fs cached\<rparr>"
  have te: "t = (if SupportsClusterFeature fs cached then fst (discoverClusters fs w (Some True) path ?s4) else ?s4)"
    using assms(1) s1 s2 s3 by (simp add: sys_Discover_def Let_def split: if_splits)
  have t: "s_cpus t = s_cpus s3" "s_nodes t = s_nodes s3" "s_packages t = s_packages s3" "s_offline t = s_offline s3"
    unfolding te by (simp_all add: discoverClusters_frame)
  obtain iset where e1: "each (discoverCPU fs) (glob_numbered fs (sysfs_cpu path) ''cpu'')
      (fresh_system\<lparr>made_cpus := True, s_cpus := [], s_isolated := iset\<rparr>) = Inr s1"
    using s1 unfolding discoverCPUs_def by (simp add: fresh_system_def)
  have c1: "cpus_keyed (s_cpus s1)" "offline_ok s1"
    "dom (map_of (s_cpus s1)) = getEnumeratedID ` set (glob_numbered fs (sysfs_cpu path) ''cpu'')"
    "\<not> made_nodes s1" "\<not> made_packages s1" "s_nodes s1 = []"
    using each_cpus[OF e1] by (simp_all add: fresh_system_def cpus_keyed_def offline_ok_def)
  note n2 = nodes_fold_ok[OF s2 c1(4)]
  have n2k: "nodes_keyed (s_nodes s2)" "\<forall>i n. map_of (s_nodes s2) i = Some n \<longrightarrow> n_pkg n = 0" using n2 by blast+
  let ?cs = "map snd (walk_cpus w (s_cpus s2))" and ?s = "s2\<lparr>made_packages := True, s_packages := []\<rparr>"
  have p: "?p = foldl package_cpu ?s ?cs" using n2 c1(5) by (simp add: discoverPackages_def)
  have cs: "set ?cs = all_cpus s2" using walked(1)[OF assms(2)] by (simp add: all_cpus_def)
  have "packages_ok {} (s_packages ?s)" by (simp add: packages_ok_def)
  from packages_fold[OF this, of ?cs] have pk: "packages_ok (all_cpus s2) (s_packages ?p)" unfolding p cs by simp
  have pf: "frame ?s ?p" "nodes_keyed (s_nodes ?p)" "same_places ?s ?p" using packages_frame[of ?s ?cs] n2k(1) unfolding p by simp_all
  have z: "n_pkg n = 0" if "map_of (s_nodes ?p) i = Some n" for i n
  proof -
    have "map_option n_pkg (map_of (s_nodes ?s) i) = Some (n_pkg n)" using pf(3) that unfolding same_places_def by (metis option.simps(9))
    then show ?thesis using n2k(2) by auto
  qed
  have "\<forall>i n. map_of (s_nodes ?g) i = Some n \<longrightarrow> n_pkg n = 0" using z by (simp add: discoverGPUs_frame)
  from populate_ok[OF s3 assms(2) _ _ _ this, of "all_cpus s2"] pk pf(2)
  have f3: "frame ?g s3" "s_packages s3 = s_packages ?g" "nodes_keyed (s_nodes s3)" "node_places_ok (all_cpus s2) (s_nodes s3)"
    by (simp_all add: discoverGPUs_frame)
  have cpus: "s_cpus s3 = s_cpus s1" "s_offline s3 = s_offline s1"
    using f3(1) pf(1) n2 by (simp_all add: frame_def discoverGPUs_frame)
  have "all_cpus s2 = all_cpus t" using cpus n2 by (simp add: all_cpus_def t)
  then have "topology_ok t" using f3 pk c1(1) cpus by (simp add: topology_ok_def t discoverGPUs_frame)
  moreover have "offline_ok t" using c1(2) cpus by (simp add: offline_ok_def t)
  moreover have "dom (map_of (s_nodes s3)) = dom (map_of (s_nodes s2))" using f3(1) pf(1) by (simp add: frame_def discoverGPUs_frame)
  ultimately show ?thesis using c1(3) n2 cpus by (simp add: t)
qed

lemma discovered_facts:
  assumes "NewSystem fs w cached sysRoot = Inr sys" "some_order w"
  shows "topology_ok sys \<and> offline_ok sys
    \<and> dom (map_of (s_cpus sys)) = getEnumeratedID ` set (glob_numbered fs (sysfs_cpu (sysfs_path sysRoot)) ''cpu'')
    \<and> dom (map_of (s_nodes sys)) = getEnumeratedID ` set (glob_numbered fs (sysfs_node (sysfs_path sysRoot)) ''node'')"
proof -
  obtain t where t: "sys_Discover fs w cached (sysfs_path sysRoot) fresh_system = Inr t" "sys = system_of t"
    using assms(1) by (auto simp: NewSystem_def split: sum.splits)
  from sys_Discover_fresh[OF t(1) assms(2)] show ?thesis by (simp add: topology_ok_def offline_ok_def all_cpus_def t(2))
qed

text \<open>C22. What discovery returns is well typed, in whatever order Go walks its maps: CPUs and nodes are stored under
  the numbers of their directories, all of them; the packages and their dies are exactly the groups of CPUs with
  equal package and die number, with the nodes of those CPUs; every node a CPU names exists, and a node lies in the
  package of one of its CPUs, a node without CPUs in package 0.\<close>

theorem discovered_topology:
  assumes "NewSystem fs w cached sysRoot = Inr sys" "some_order w"
  shows "topology_ok sys
    \<and> fst ` set (s_cpus sys) = getEnumeratedID ` set (glob_numbered fs (sysfs_cpu (sysfs_path sysRoot)) ''cpu'')
    \<and> fst ` set (s_nodes sys) = getEnumeratedID ` set (glob_numbered fs (sysfs_node (sysfs_path sysRoot)) ''node'')"
  using discovered_facts[OF assms] by (simp add: dom_map_of_conv_image_fst)

section \<open>The builder accepts what validation passes\<close>

lemma new_node_sys: "p_sys (fst (new_node p name kind parent numa mi cpu)) = p_sys p"
  by (simp add: new_node_def Let_def)

lemma build_root_sys [simp]: "p_sys (build_root p) = p_sys p"
proof -
  obtain q i where q: "NewVirtualNode p ''root'' NilNode = (q, i)" by (rule prod.exhaust)
  then have "p_sys q = p_sys p" unfolding NewVirtualNode_def by (metis fst_conv new_node_sys)
  then show ?thesis by (simp add: build_root_def q)
qed

lemma sockets_total:
  "\<forall>i\<in>set ids. Package (p_sys p) i \<noteq> None \<Longrightarrow>
   \<exists>q socks. createSocketNodes p m ids = Inr (q, socks) \<and> dom (map_of socks) = set ids \<union> dom (map_of m) \<and> p_sys q = p_sys p"
proof (induction ids arbitrary: p m)
  case (Cons i ids)
  then obtain pkg where pkg: "Package (p_sys p) i = Some pkg" by auto
  obtain q s where q: "(if p_root p \<noteq> GoNil then NewSocketNode p i (p_root p) pkg
      else (case NewSocketNode p i NilNode pkg of (q, i) \<Rightarrow> (q\<lparr>p_root := Ref i\<rparr>, i))) = (q, s)" by (rule prod.exhaust)
  have sys: "p_sys q = p_sys p"
  proof (cases "p_root p \<noteq> GoNil")
    case True
    then have "NewSocketNode p i (p_root p) pkg = (q, s)" using q by simp
    then show ?thesis using new_node_sys unfolding NewSocketNode_def by (metis fst_conv)
  next
    case False
    obtain q' s' where q': "NewSocketNode p i NilNode pkg = (q', s')" by (rule prod.exhaust)
    then have "p_sys q' = p_sys p" using new_node_sys unfolding NewSocketNode_def by (metis fst_conv)
    then show ?thesis using q q' False by auto
  qed
  have "\<forall>j\<in>set ids. Package (p_sys q) j \<noteq> None" using Cons.prems sys by simp
  from Cons.IH[OF this, of "AList.update i s m"] obtain r socks where
    r: "createSocketNodes q (AList.update i s m) ids = Inr (r, socks)" "dom (map_of socks) = set ids \<union> dom (map_of (AList.update i s m))" "p_sys r = p_sys q"
    by blast
  have "createSocketNodes p m (i # ids) = Inr (r, socks)" using pkg q r(1) by simp
  then show ?case using r(2,3) sys by simp
qed simp

lemma numas_total:
  "createNumaNodes p socks m ids =
     (if \<forall>i\<in>set ids. \<exists>n. Node (p_sys p) i = Some n \<and> n_pkg n \<in> dom (map_of socks)
      then Inr (the_Inr (createNumaNodes p socks m ids)) else Inl Panic)"
  if "\<forall>i\<in>set ids. Node (p_sys p) i \<noteq> None" and "the_Inr = (\<lambda>r. case r of Inr x \<Rightarrow> x | Inl e \<Rightarrow> undefined)" for the_Inr
  using that(1)
proof (induction ids arbitrary: p m)
  case Nil
  then show ?case using that(2) by simp
next
  case (Cons i ids)
  then obtain n where n: "Node (p_sys p) i = Some n" by auto
  show ?case
  proof (cases "map_of socks (n_pkg n)")
    case None
    then have "createNumaNodes p socks m (i # ids) = Inl Panic" using n by simp
    moreover have "\<not> (\<exists>n. Node (p_sys p) i = Some n \<and> n_pkg n \<in> dom (map_of socks))" using n None by auto
    ultimately show ?thesis by simp
  next
    case (Some parent)
    obtain q k where q: "NewNumaNode p i (Ref parent) n = (q, k)" by (rule prod.exhaust)
    then have sys: "p_sys q = p_sys p" using new_node_sys unfolding NewNumaNode_def by (metis fst_conv)
    have step: "createNumaNodes p socks m (i # ids) = createNumaNodes q socks (AList.update i k m) ids" using n Some q by simp
    have "\<forall>i\<in>set ids. Node (p_sys q) i \<noteq> None" using Cons.prems sys by simp
    note ih = Cons.IH[OF this, of "AList.update i k m", unfolded sys]
    have "n_pkg n \<in> dom (map_of socks)" using Some by auto
    then show ?thesis unfolding step using ih n by simp
  qed
qed

lemma topology_sets:
  assumes "topology_ok sys"
  shows "set (PackageIDs sys) = c_pkg ` all_cpus sys" "set (NodeIDs sys) = dom (map_of (s_nodes sys))"
  using assms by (simp_all add: PackageIDs_def NodeIDs_def topology_ok_def packages_ok_def dom_map_of_conv_image_fst)

lemma package_at:
  assumes "topology_ok sys" "c \<in> all_cpus sys"
  shows "\<exists>pkg. Package sys (c_pkg c) = Some pkg \<and> package_ok (all_cpus sys) (c_pkg c) pkg"
proof -
  have ok: "packages_ok (all_cpus sys) (s_packages sys)" using assms(1) by (simp add: topology_ok_def)
  then have "c_pkg c \<in> dom (map_of (s_packages sys))" using assms(2) by (simp add: packages_ok_def)
  then obtain pkg where "map_of (s_packages sys) (c_pkg c) = Some pkg" by auto
  then show ?thesis using ok by (simp add: packages_ok_def Package_def)
qed

lemma node_place:
  assumes "topology_ok sys" "i \<in> set (NodeIDs sys)"
  shows "(\<exists>n. Node sys i = Some n \<and> n_pkg n \<in> c_pkg ` all_cpus sys)
    \<longleftrightarrow> (\<exists>c\<in>all_cpus sys. c_node c = i) \<or> (\<exists>c\<in>all_cpus sys. c_pkg c = 0)"
proof -
  have "i \<in> dom (map_of (s_nodes sys))" using assms topology_sets(2) by blast
  then obtain n where n: "map_of (s_nodes sys) i = Some n" by auto
  have e: "if \<exists>c\<in>all_cpus sys. c_node c = i then \<exists>c\<in>all_cpus sys. c_node c = i \<and> n_pkg n = c_pkg c else n_pkg n = 0"
    using assms(1) n by (simp add: topology_ok_def node_places_ok_def)
  have l: "(\<exists>n. Node sys i = Some n \<and> n_pkg n \<in> c_pkg ` all_cpus sys) \<longleftrightarrow> n_pkg n \<in> c_pkg ` all_cpus sys" using n by (simp add: Node_def)
  show ?thesis
  proof (cases "\<exists>c\<in>all_cpus sys. c_node c = i")
    case True
    then have "n_pkg n \<in> c_pkg ` all_cpus sys" using e by (simp add: image_iff) blast
    then show ?thesis using True l by simp
  next
    case False
    then have "n_pkg n = 0" using e by simp
    then show ?thesis using False l by (auto simp: image_iff)
  qed
qed

text \<open>C23. Building the policy from a discovered topology never fails but in one case: once the topology has passed
  its validation and the package numbers are known, the builder returns a policy exactly when every NUMA node has a
  CPU or some CPU is in package 0; a node of memory only panics on a machine whose packages do not start at 0.\<close>

theorem discovered_system_builds:
  assumes "NewSystem fs w cached sysRoot = Inr sys" "some_order w" "ValidateTopology sys = Inr ()"
    and "s_cpus sys \<noteq> []" "\<forall>c\<in>all_cpus sys. 0 \<le> c_pkg c"
  shows "if \<forall>i\<in>set (NodeIDs sys). (\<exists>c\<in>all_cpus sys. c_node c = i) \<or> (\<exists>c\<in>all_cpus sys. c_pkg c = 0)
    then \<exists>p. NewTopologyAwarePolicy sys memTopo priority clusterAff = Inr p
    else NewTopologyAwarePolicy sys memTopo priority clusterAff = Inl Panic"
proof -
  have tok: "topology_ok sys" using discovered_facts[OF assms(1,2)] by blast
  note ids = topology_sets[OF tok]
  have pk: "\<exists>pkg. Package sys i = Some pkg \<and> package_ok (all_cpus sys) i pkg" if "i \<in> c_pkg ` all_cpus sys" for i
    using that package_at[OF tok] by blast
  have ne: "PackageIDs sys \<noteq> []" using assms(4) ids(1) by (auto simp: all_cpus_def)
  have vs: "validateSocketStructure sys"
    unfolding validateSocketStructure_def list_all_iff ids(1)
  proof (intro conjI ballI)
    fix i assume i: "i \<in> c_pkg ` all_cpus sys"
    show "0 \<le> i" using i assms(5) by blast
    obtain pkg where p: "Package sys i = Some pkg" "package_ok (all_cpus sys) i pkg" using pk[OF i] by blast
    then have "pk_nodes pkg \<noteq> {}" "finite (pk_nodes pkg)" using i by (auto simp: package_ok_def)
    then show "case Package sys i of None \<Rightarrow> False | Some pkg \<Rightarrow> pkg_NodeIDs pkg \<noteq> []" using p(1) by (simp add: pkg_NodeIDs_def cpu_list_def)
  qed (rule ne)
  let ?p1 = "build_root (build_start sys memTopo priority clusterAff)"
  have "\<forall>i\<in>set (PackageIDs sys). Package (p_sys ?p1) i \<noteq> None" using pk ids(1) by fastforce
  from sockets_total[OF this, of "[]"] obtain p2 socks where
    s: "createSocketNodes ?p1 [] (PackageIDs sys) = Inr (p2, socks)" "dom (map_of socks) = c_pkg ` all_cpus sys" "p_sys p2 = sys"
    using ids(1) by auto
  have nodes: "\<forall>i\<in>set (NodeIDs sys). Node (p_sys p2) i \<noteq> None" using ids(2) by (auto simp: s(3) Node_def)
  note place = node_place[OF tok]
  note nt = numas_total[OF nodes refl, of socks "[]", unfolded s(2,3)]
  show ?thesis
  proof (cases "\<forall>i\<in>set (NodeIDs sys). (\<exists>c\<in>all_cpus sys. c_node c = i) \<or> (\<exists>c\<in>all_cpus sys. c_pkg c = 0)")
    case True
    then obtain p3 numas where n: "createNumaNodes p2 socks [] (NodeIDs sys) = Inr (p3, numas)" using nt place by (metis surj_pair)
    note p4 = built_heap[OF s(1) n ne]
    let ?p4 = "(createClusterNodes p3 numas)\<lparr>p_pools := []\<rparr>"
    from built_collect[of ?p4] p4 obtain q where "collectNodes (length (p_heap ?p4) + 1) ?p4 0 = Inr q" by auto
    then show ?thesis using True p4(2) unfolding build_unfold[OF assms(3) vs] s(1) by (simp add: n Let_def)
  next
    case False
    then have "createNumaNodes p2 socks [] (NodeIDs sys) = Inl Panic" using nt place by (simp split: if_splits) blast
    then show ?thesis using False unfolding build_unfold[OF assms(3) vs] s(1) by simp
  qed
qed

section \<open>Offline CPUs\<close>

text \<open>An offline CPU is misplaced: its topology files are not read, so it is counted to package 0 and die 0. If
  its NUMA node has an online CPU of another package the two packages seem to share that node, and the validation
  rejects the machine: no policy can be built as long as the CPU is offline.\<close>

theorem offline_cpu_rejected:
  assumes "NewSystem fs w cached sysRoot = Inr sys" "some_order w"
    and "map_of (s_cpus sys) i = Some c" "\<not> c_online c"
    and "map_of (s_cpus sys) j = Some c'" "c_node c' = c_node c" "c_pkg c' \<noteq> 0"
  shows "c_pkg c = 0 \<and> i \<in> s_offline sys \<and> ValidateTopology sys = Inl (Err ''sockets share NUMA nodes'')
    \<and> NewTopologyAwarePolicy sys memTopo priority clusterAff = Inl (Err ''sockets share NUMA nodes'')"
proof -
  have tok: "topology_ok sys" and off: "offline_ok sys" using discovered_facts[OF assms(1,2)] by blast+
  have z: "c_pkg c = 0" "i \<in> s_offline sys" using off assms(3,4) unfolding offline_ok_def by blast+
  have mem: "c \<in> all_cpus sys" "c' \<in> all_cpus sys" using assms(3,5) by (force simp: all_cpus_def dest: map_of_SomeD)+
  have pk: "\<exists>pkg. Package sys (c_pkg x) = Some pkg \<and> c_node x \<in> set (pkg_NodeIDs pkg)" if x: "x \<in> all_cpus sys" for x
  proof -
    obtain pkg where p: "Package sys (c_pkg x) = Some pkg" "package_ok (all_cpus sys) (c_pkg x) pkg"
      using package_at[OF tok x] by blast
    then have "c_node x \<in> pk_nodes pkg" "finite (pk_nodes pkg)" using x by (auto simp: package_ok_def)
    then show ?thesis using p(1) by (simp add: pkg_NodeIDs_def cpu_list_def)
  qed
  obtain p0 p1 where p: "Package sys (c_pkg c) = Some p0" "c_node c \<in> set (pkg_NodeIDs p0)"
    "Package sys (c_pkg c') = Some p1" "c_node c' \<in> set (pkg_NodeIDs p1)" using pk mem by blast
  have ids: "c_pkg c \<in> set (PackageIDs sys)" "c_pkg c' \<in> set (PackageIDs sys)" using mem topology_sets(1)[OF tok] by auto
  have sh: "set (pkg_NodeIDs p0) \<inter> set (pkg_NodeIDs p1) \<noteq> {}" using p assms(6) by auto
  have ex: "list_ex (\<lambda>id1. list_ex (\<lambda>id2. id1 \<noteq> id2 \<and>
      (case Package sys id1 of None \<Rightarrow> {} | Some p \<Rightarrow> set (pkg_NodeIDs p)) \<inter> (case Package sys id2 of None \<Rightarrow> {} | Some p \<Rightarrow> set (pkg_NodeIDs p)) \<noteq> {})
      (PackageIDs sys)) (PackageIDs sys)"
    unfolding list_ex_iff
  proof (rule bexI[OF _ ids(1)], rule bexI[OF _ ids(2)], rule conjI)
    show "c_pkg c \<noteq> c_pkg c'" using z(1) assms(7) by simp
    show "(case Package sys (c_pkg c) of None \<Rightarrow> {} | Some p \<Rightarrow> set (pkg_NodeIDs p)) \<inter> (case Package sys (c_pkg c') of None \<Rightarrow> {} | Some p \<Rightarrow> set (pkg_NodeIDs p)) \<noteq> {}"
      using sh p(1,3) by simp
  qed
  then have v: "ValidateTopology sys = Inl (Err ''sockets share NUMA nodes'')"
    by (simp add: ValidateTopology_def validateSocketNodes_def Let_def)
  then have "NewTopologyAwarePolicy sys memTopo priority clusterAff = Inl (Err ''sockets share NUMA nodes'')"
    by (simp add: NewTopologyAwarePolicy_def buildResourcePoolsByTopology_def)
  with z v show ?thesis by blast
qed


section \<open>A machine\<close>

text \<open>Two sockets with one CPU each; a second CPU of socket 1 is online or not.\<close>

definition demo_sysfs :: "string \<Rightarrow> sysfs" where
  "demo_sysfs online =
     \<lparr>fs_read = map_of
        [(''/sys/devices/system/cpu/cpu0/topology/physical_package_id'', ''0'' @ [CHR 0x0A]),
         (''/sys/devices/system/cpu/cpu1/topology/physical_package_id'', ''1'' @ [CHR 0x0A]),
         (''/sys/devices/system/cpu/cpu2/topology/physical_package_id'', ''1'' @ [CHR 0x0A]),
         (''/sys/devices/system/cpu/cpu0/topology/die_id'', ''0''), (''/sys/devices/system/cpu/cpu1/topology/die_id'', ''0''),
         (''/sys/devices/system/cpu/cpu2/topology/die_id'', ''0''),
         (''/sys/devices/system/cpu/cpu2/online'', online),
         (''/sys/devices/system/node/node0/cpulist'', ''0''), (''/sys/devices/system/node/node1/cpulist'', ''1''),
         (''/sys/devices/system/node/node0/distance'', ''10 20''), (''/sys/devices/system/node/node1/distance'', ''20 10'')],
      fs_list = map_of
        [(''/sys/devices/system/cpu'', [''cpu0'', ''cpu1'', ''cpu2'', ''cpufreq'']),
         (''/sys/devices/system/cpu/cpu0'', [''node0'', ''online'']), (''/sys/devices/system/cpu/cpu1'', [''node1'']),
         (''/sys/devices/system/cpu/cpu2'', [''node1'', ''online'']),
         (''/sys/devices/system/node'', [''node0'', ''node1'', ''possible''])],
      fs_models = None,
      fs_parseSet = (\<lambda>s. if s = ''0'' then Some {0} else if s = ''1'' then Some {1} else None)\<rparr>"

definition list_order :: map_order where
  "list_order = \<lparr>walk_cpus = (\<lambda>m. m), walk_packages = rev, walk_clusters = (\<lambda>m. m)\<rparr>"

lemma list_order: "some_order list_order"
  by (simp add: some_order_def list_order_def)

lemma demo_on:
  obtains sys where "NewSystem (demo_sysfs ''1'') list_order None [] = Inr sys" "ValidateTopology sys = Inr ()"
    "map (\<lambda>(i, c). (i, c_pkg c, c_node c)) (s_cpus sys) = [(0, 0, 0), (1, 1, 1), (2, 1, 1)]" "map fst (s_nodes sys) = [0, 1]"
proof -
  have "case NewSystem (demo_sysfs ''1'') list_order None [] of Inl e \<Rightarrow> False
    | Inr sys \<Rightarrow> ValidateTopology sys = Inr () \<and> map (\<lambda>(i, c). (i, c_pkg c, c_node c)) (s_cpus sys) = [(0, 0, 0), (1, 1, 1), (2, 1, 1)] \<and> map fst (s_nodes sys) = [0, 1]"
    by code_simp
  then show thesis using that by (auto split: sum.splits)
qed

lemma demo_off:
  obtains sys c c' where "NewSystem (demo_sysfs ''0'') list_order None [] = Inr sys" "map_of (s_cpus sys) 2 = Some c" "\<not> c_online c"
    "map_of (s_cpus sys) 1 = Some c'" "c_node c' = c_node c" "c_pkg c' \<noteq> 0"
proof -
  have "case NewSystem (demo_sysfs ''0'') list_order None [] of Inl e \<Rightarrow> False
    | Inr sys \<Rightarrow> (case map_of (s_cpus sys) 2 of None \<Rightarrow> False | Some c \<Rightarrow> \<not> c_online c
        \<and> (case map_of (s_cpus sys) 1 of None \<Rightarrow> False | Some c' \<Rightarrow> c_node c' = c_node c \<and> c_pkg c' \<noteq> 0))"
    by code_simp
  then show thesis using that by (auto split: sum.splits option.splits)
qed

theorem discovered_topology_witness:
  "\<exists>sys. NewSystem (demo_sysfs ''1'') list_order None [] = Inr sys \<and> topology_ok sys \<and> fst ` set (s_nodes sys) = {0, 1}"
proof -
  obtain sys where s: "NewSystem (demo_sysfs ''1'') list_order None [] = Inr sys" "map fst (s_nodes sys) = [0, 1]" by (rule demo_on)
  from discovered_topology[OF s(1) list_order] s(1) arg_cong[OF s(2), of set] show ?thesis by auto
qed

theorem discovered_system_builds_witness:
  "\<exists>sys p. NewSystem (demo_sysfs ''1'') list_order None [] = Inr sys \<and> NewTopologyAwarePolicy sys True ''cpu-first'' False = Inr p"
proof -
  obtain sys where s: "NewSystem (demo_sysfs ''1'') list_order None [] = Inr sys" "ValidateTopology sys = Inr ()"
    "map (\<lambda>(i, c). (i, c_pkg c, c_node c)) (s_cpus sys) = [(0, 0, 0), (1, 1, 1), (2, 1, 1)]" by (rule demo_on)
  have c: "(\<lambda>c. (c_pkg c, c_node c)) ` all_cpus sys = {(0, 0), (1, 1)}"
    using arg_cong[OF s(3), of "\<lambda>l. set (map snd l)"] by (simp add: all_cpus_def image_image case_prod_beta comp_def)
  have "fst ` (\<lambda>c. (c_pkg c, c_node c)) ` all_cpus sys = {0, 1}" unfolding c by simp
  then have p: "c_pkg ` all_cpus sys = {0, 1}" by (simp add: image_image)
  then have "\<exists>c\<in>all_cpus sys. c_pkg c = 0" by (metis imageE insertI1)
  moreover have "\<forall>c\<in>all_cpus sys. 0 \<le> c_pkg c" using p by (metis imageI insertE order_refl singletonD zero_le_one)
  moreover have "s_cpus sys \<noteq> []" using s(3) by auto
  ultimately show ?thesis using discovered_system_builds[OF s(1) list_order s(2), of True "''cpu-first''" False] s(1) by auto
qed

theorem offline_cpu_rejected_witness:
  "\<exists>sys. NewSystem (demo_sysfs ''0'') list_order None [] = Inr sys
     \<and> NewTopologyAwarePolicy sys True ''cpu-first'' False = Inl (Err ''sockets share NUMA nodes'')"
proof -
  obtain sys c c' where s: "NewSystem (demo_sysfs ''0'') list_order None [] = Inr sys" "map_of (s_cpus sys) 2 = Some c" "\<not> c_online c"
    "map_of (s_cpus sys) 1 = Some c'" "c_node c' = c_node c" "c_pkg c' \<noteq> 0" by (rule demo_off)
  from offline_cpu_rejected[OF s(1) list_order s(2-6)] s(1) show ?thesis by blast
qed

end
