(* ===== verification/KaeWebhook.thy ===== *)
theory KaeWebhook
  imports GoPath
begin

text \<open>
  The admission webhook of the KAE device plugin (\<open>pkg/kae-device-plugin/webhook\<close>): its flags and
  their validation (\<open>options.go\<close>), the mutation of a pod (\<open>pod_mutator.go\<close>) and the entry point
  that controller-runtime calls (\<open>pod_webhook.go\<close>). The part of \<open>corev1.Pod\<close> that the KAE packages
  use is declared here. A \<open>resource.Quantity\<close> is its exact value in units of \<open>10\<^sup>-\<^sup>9\<close>, the
  precision of the Kubernetes type; \<open>IsQualifiedName\<close> of the Kubernetes validation library is an
  argument.
\<close>

section \<open>Pods\<close>

type_synonym quantity = int

definition NewQuantity :: "int \<Rightarrow> quantity" where
  "NewQuantity n = n * 1000000000"

text \<open>A nil \<open>ResourceList\<close> is \<^const>\<open>None\<close>; reading it is reading an empty map.\<close>

type_synonym quantities = "(string, quantity) gomap option"

definition res_map :: "quantities \<Rightarrow> (string, quantity) gomap" where
  "res_map r = (case r of None \<Rightarrow> [] | Some m \<Rightarrow> m)"

record kae_env =
  ke_name :: string
  ke_value :: string
  ke_from :: "string option"

record kae_container =
  kc_name :: string
  kc_requests :: quantities
  kc_limits :: quantities
  kc_env :: "kae_env list"

record kae_pod =
  kp_name :: string
  kp_namespace :: string
  kp_annotations :: "(string, string) gomap option"
  kp_finalizers :: "string list"
  kp_deleting :: bool
  kp_containers :: "kae_container list"
  kp_init_containers :: "kae_container list"
  kp_node_name :: string
  kp_phase :: string

section \<open>The mutation of a pod\<close>

definition kaeResourcePrefix :: string where
  "kaeResourcePrefix = ''kae.kunpeng.com/''"

record injection_config =
  ic_enabled :: bool
  ic_resource :: string
  ic_count :: int
  ic_target :: int
  ic_included :: "string list"
  ic_excluded :: "string list"
  ic_env :: "kae_env list"

definition no_injection :: injection_config where
  "no_injection = \<lparr>ic_enabled = False, ic_resource = [], ic_count = 0, ic_target = 0, ic_included = [],
     ic_excluded = [], ic_env = []\<rparr>"

definition NormalizeResourceName :: "string \<Rightarrow> string" where
  "NormalizeResourceName name =
     (let n = trim_space name in if contains n ''/'' then n else kaeResourcePrefix @ n)"

definition namespaceInList :: "string \<Rightarrow> string list \<Rightarrow> bool" where
  "namespaceInList ns xs \<longleftrightarrow> list_ex (\<lambda>x. ns = trim_space x) xs"

definition shouldInjectNamespace :: "string \<Rightarrow> string list \<Rightarrow> string list \<Rightarrow> bool" where
  "shouldInjectNamespace ns included excluded =
     (if included = [] then \<not> namespaceInList ns excluded else namespaceInList ns included)"

definition resourceListHasKAE :: "quantities \<Rightarrow> bool" where
  "resourceListHasKAE r \<longleftrightarrow> list_ex (\<lambda>(name, q). has_prefix name kaeResourcePrefix) (res_map r)"

definition hasKAEResource :: "kae_pod \<Rightarrow> bool" where
  "hasKAEResource pod \<longleftrightarrow>
     list_ex (\<lambda>c. resourceListHasKAE (kc_requests c) \<or> resourceListHasKAE (kc_limits c)) (kp_containers pod) \<or>
     list_ex (\<lambda>c. resourceListHasKAE (kc_requests c) \<or> resourceListHasKAE (kc_limits c)) (kp_init_containers pod)"

text \<open>The loop of \<open>appendMissingEnvVars\<close>: the names seen, the entries and whether one was added.\<close>

fun append_envs :: "string list \<Rightarrow> kae_env list \<Rightarrow> kae_env list \<Rightarrow> bool \<Rightarrow> kae_env list \<times> bool" where
  "append_envs existing env [] changed = (env, changed)"
| "append_envs existing env (e # es) changed =
     (if ke_name e \<in> set existing then append_envs existing env es changed
      else append_envs (ke_name e # existing) (env @ [e]) es True)"

definition appendMissingEnvVars :: "kae_container \<Rightarrow> kae_env list \<Rightarrow> kae_container \<times> bool" where
  "appendMissingEnvVars c envVars =
     (case append_envs (map ke_name (kc_env c)) (kc_env c) envVars False of
        (env, changed) \<Rightarrow> (c\<lparr>kc_env := env\<rparr>, changed))"

definition inject_resource :: "string \<Rightarrow> int \<Rightarrow> kae_container \<Rightarrow> kae_container" where
  "inject_resource name n c =
     c\<lparr>kc_requests := Some (AList.update name (NewQuantity n) (res_map (kc_requests c))),
       kc_limits := Some (AList.update name (NewQuantity n) (res_map (kc_limits c)))\<rparr>"

definition mutatePodForKAEInjection ::
  "(string \<Rightarrow> bool) \<Rightarrow> kae_pod option \<Rightarrow> string \<Rightarrow> injection_config \<Rightarrow> (kae_pod option \<times> bool) result" where
  "mutatePodForKAEInjection qual opod ns cfg =
     (case opod of
        None \<Rightarrow> Inl (Err ''pod is nil'')
      | Some pod \<Rightarrow>
          if \<not> ic_enabled cfg \<or> \<not> shouldInjectNamespace ns (ic_included cfg) (ic_excluded cfg) then Inr (Some pod, False)
          else if kp_containers pod = [] then Inl (Err ''pod has no containers'')
          else if ic_target cfg < 0 \<or> int (length (kp_containers pod)) \<le> ic_target cfg then
            Inl (Err ''target container index out of range'')
          else if ic_count cfg \<le> 0 then Inl (Err ''default KAE count must be greater than zero'')
          else if trim_space (ic_resource cfg) = [] then Inl (Err ''default KAE resource must not be empty'')
          else if \<not> qual (NormalizeResourceName (ic_resource cfg)) then Inl (Err ''invalid KAE resource name'')
          else
            (let i = nat (ic_target cfg);
                 c = kp_containers pod ! i;
                 found = hasKAEResource pod;
                 c1 = (if found then c
                       else inject_resource (NormalizeResourceName (ic_resource cfg)) (ic_count cfg) c);
                 (c2, env_changed) = appendMissingEnvVars c1 (ic_env cfg)
             in Inr (Some (pod\<lparr>kp_containers := (kp_containers pod)[i := c2]\<rparr>), \<not> found \<or> env_changed)))"

definition MutatePodForKAEInjection ::
  "(string \<Rightarrow> bool) \<Rightarrow> kae_pod option \<Rightarrow> injection_config \<Rightarrow> (kae_pod option \<times> bool) result" where
  "MutatePodForKAEInjection qual opod cfg =
     mutatePodForKAEInjection qual opod (case opod of None \<Rightarrow> [] | Some pod \<Rightarrow> kp_namespace pod) cfg"

text \<open>
  \<open>PodCustomDefaulter.Default\<close>: a pod being created may have no namespace yet, then the one of the
  admission request counts (\<^const>\<open>None\<close> when the context holds no request). The framework sends the
  changed object back; on an error it rejects the request or, with the failure policy \<open>ignore\<close>,
  admits the pod unchanged.
\<close>

definition effective_namespace :: "kae_pod \<Rightarrow> string option \<Rightarrow> string" where
  "effective_namespace pod request =
     (if kp_namespace pod = [] then (case request of None \<Rightarrow> [] | Some ns \<Rightarrow> ns) else kp_namespace pod)"

definition Defaulter_Default ::
  "(string \<Rightarrow> bool) \<Rightarrow> injection_config \<Rightarrow> string option \<Rightarrow> kae_pod \<Rightarrow> kae_pod result" where
  "Defaulter_Default qual cfg request pod =
     (case mutatePodForKAEInjection qual (Some pod) (effective_namespace pod request) cfg of
        Inl e \<Rightarrow> Inl e
      | Inr (p, changed) \<Rightarrow> (case p of None \<Rightarrow> Inl Panic | Some p' \<Rightarrow> Inr p'))"

section \<open>Options\<close>

record webhook_options =
  wo_enabled :: bool
  wo_addr :: string
  wo_cert :: string
  wo_key :: string
  wo_resource :: string
  wo_count :: int
  wo_target :: int
  wo_envs :: string
  wo_included :: string
  wo_excluded :: string

definition NewOptions :: webhook_options where
  "NewOptions = \<lparr>wo_enabled = False, wo_addr = '':9443'', wo_cert = ''/tls/tls.crt'', wo_key = ''/tls/tls.key'',
     wo_resource = ''hisi_hpre'', wo_count = 1, wo_target = 0,
     wo_envs = ''OPENSSL_ENGINES=/usr/local/lib/engines-1.1'', wo_included = [],
     wo_excluded = ''kube-system,kube-public,kube-node-lease''\<rparr>"

text \<open>The part of controller-runtime's \<open>webhook.Options\<close> that \<open>Build\<close> fills.\<close>

record server_options =
  so_host :: string
  so_port :: int
  so_cert_dir :: string
  so_cert_name :: string
  so_key_name :: string

definition no_server :: server_options where
  "no_server = \<lparr>so_host = [], so_port = 0, so_cert_dir = [], so_cert_name = [], so_key_name = []\<rparr>"

fun append_unique_loop :: "string list \<Rightarrow> string list \<Rightarrow> string list \<Rightarrow> string list" where
  "append_unique_loop existing xs [] = xs"
| "append_unique_loop existing xs (a # as) =
     (if a \<in> set existing then append_unique_loop existing xs as
      else append_unique_loop (a # existing) (xs @ [a]) as)"

definition appendUnique :: "string list \<Rightarrow> string list \<Rightarrow> string list" where
  "appendUnique xs additions = append_unique_loop xs xs additions"

fun split_csv_loop :: "string list \<Rightarrow> string list \<Rightarrow> string list" where
  "split_csv_loop result [] = result"
| "split_csv_loop result (v # vs) =
     (let t = trim_space v in split_csv_loop (if t = [] then result else appendUnique result [t]) vs)"

definition splitCSV :: "string \<Rightarrow> string list" where
  "splitCSV value = split_csv_loop [] (go_split '','' value)"

fun parse_env_loop :: "kae_env list \<Rightarrow> string list \<Rightarrow> kae_env list result" where
  "parse_env_loop acc [] = Inr acc"
| "parse_env_loop acc (e # es) =
     (case go_splitn2 ''='' (trim_space e) of
        [k, v] \<Rightarrow>
          (if trim_space k = [] then Inl (Err ''environment variable name must not be empty'')
           else parse_env_loop (acc @ [\<lparr>ke_name = trim_space k, ke_value = v, ke_from = None\<rparr>]) es)
      | _ \<Rightarrow> Inl (Err ''invalid environment variable''))"

definition ParseEnvVars :: "string \<Rightarrow> kae_env list result" where
  "ParseEnvVars value =
     (if trim_space value = [] then Inr [] else parse_env_loop [] (go_split '','' value))"

text \<open>Go's \<open>net.SplitHostPort\<close>, with the positions of the first and last occurrence of a byte.\<close>

definition index_byte :: "char \<Rightarrow> string \<Rightarrow> nat option" where
  "index_byte c s = (let n = length (takeWhile (\<lambda>x. x \<noteq> c) s) in if n < length s then Some n else None)"

definition last_index_byte :: "char \<Rightarrow> string \<Rightarrow> nat option" where
  "last_index_byte c s =
     (case index_byte c (rev s) of None \<Rightarrow> None | Some n \<Rightarrow> Some (length s - 1 - n))"

definition split_host_port :: "string \<Rightarrow> (string \<times> string) option" where
  "split_host_port s =
     (case last_index_byte (CHR '':'') s of
        None \<Rightarrow> None
      | Some i \<Rightarrow>
          (case (if has_prefix s ''['' then
                   (case index_byte (CHR '']'') s of
                      None \<Rightarrow> None
                    | Some e \<Rightarrow> if e + 1 = i then Some (drop 1 (take e s), 1, e + 1) else None)
                 else if index_byte (CHR '':'') (take i s) \<noteq> None then None
                 else Some (take i s, 0, 0)) of
             None \<Rightarrow> None
           | Some (host, j, k) \<Rightarrow>
               if index_byte (CHR ''['') (drop j s) \<noteq> None \<or> index_byte (CHR '']'') (drop k s) \<noteq> None then None
               else Some (host, drop (i + 1) s)))"

text \<open>\<open>filepath.Dir\<close>.\<close>

definition path_dir :: "string \<Rightarrow> string" where
  "path_dir s = path_clean (rev (dropWhile (\<lambda>c. c \<noteq> CHR ''/'') (rev s)))"

definition Options_Build ::
  "(string \<Rightarrow> bool) \<Rightarrow> webhook_options \<Rightarrow> string \<Rightarrow> (server_options \<times> injection_config) result" where
  "Options_Build qual opt podNamespace =
     (if \<not> wo_enabled opt then Inr (no_server, no_injection)
      else
        (let ns = trim_space podNamespace in
         if ns = [] then Inl (Err ''POD_NAMESPACE must not be empty'')
         else if trim_space (wo_resource opt) = [] then Inl (Err ''default KAE resource must not be empty'')
         else if \<not> qual (NormalizeResourceName (wo_resource opt)) then Inl (Err ''invalid KAE resource name'')
         else if wo_count opt \<le> 0 then Inl (Err ''default KAE count must be greater than zero'')
         else if wo_target opt < 0 then Inl (Err ''target container index must not be negative'')
         else
           (case split_host_port (trim_space (wo_addr opt)) of
              None \<Rightarrow> Inl (Err ''invalid webhook listen address'')
            | Some (host, portValue) \<Rightarrow>
                (case atoi portValue of
                   None \<Rightarrow> Inl (Err ''invalid webhook listen port'')
                 | Some port \<Rightarrow>
                     if port < 1 \<or> 65535 < port then Inl (Err ''invalid webhook listen port'')
                     else
                       (let cert = trim_space (wo_cert opt); key = trim_space (wo_key opt) in
                        if cert = [] then Inl (Err ''webhook TLS certificate file must not be empty'')
                        else if key = [] then Inl (Err ''webhook TLS private key file must not be empty'')
                        else if path_clean (path_dir key) \<noteq> path_clean (path_dir cert) then
                          Inl (Err ''certificate and private key must be in the same directory'')
                        else
                          (case ParseEnvVars (wo_envs opt) of
                             Inl e \<Rightarrow> Inl e
                           | Inr envs \<Rightarrow>
                               Inr (\<lparr>so_host = host, so_port = port, so_cert_dir = path_clean (path_dir cert),
                                      so_cert_name = path_base cert, so_key_name = path_base key\<rparr>,
                                    \<lparr>ic_enabled = True, ic_resource = trim_space (wo_resource opt),
                                      ic_count = wo_count opt, ic_target = wo_target opt,
                                      ic_included = splitCSV (wo_included opt),
                                      ic_excluded = appendUnique (splitCSV (wo_excluded opt)) [ns],
                                      ic_env = envs\<rparr>)))))))"

end
