(* ===== verification/KaeWebhookOk.thy ===== *)
theory KaeWebhookOk
  imports KaeWebhook
begin

text \<open>
  What the KAE webhook does to a pod: the environment entries it adds, the resource it injects, that
  a second pass changes nothing, and that a validated configuration cannot make it fail on a pod with
  enough containers.
\<close>

section \<open>Environment entries\<close>

fun fresh_envs :: "string set \<Rightarrow> kae_env list \<Rightarrow> kae_env list" where
  "fresh_envs seen [] = []"
| "fresh_envs seen (e # es) =
     (if ke_name e \<in> seen then fresh_envs seen es else e # fresh_envs (insert (ke_name e) seen) es)"

lemma append_envs_fresh:
  "append_envs ex env es ch = (env @ fresh_envs (set ex) es, ch \<or> fresh_envs (set ex) es \<noteq> [])"
  by (induction ex env es ch rule: append_envs.induct) auto

lemma fresh_envs_names: "ke_name ` set (fresh_envs seen es) = ke_name ` set es - seen"
  by (induction seen es rule: fresh_envs.induct) auto

lemma fresh_envs_subset: "set (fresh_envs seen es) \<subseteq> set es"
  by (induction seen es rule: fresh_envs.induct) auto

lemma fresh_envs_distinct: "distinct (map ke_name (fresh_envs seen es))"
proof (induction seen es rule: fresh_envs.induct)
  case (2 seen e es)
  then show ?case using fresh_envs_names[of "insert (ke_name e) seen" es] by auto
qed simp

lemma fresh_envs_none: "ke_name ` set es \<subseteq> seen \<Longrightarrow> fresh_envs seen es = []"
  by (induction seen es rule: fresh_envs.induct) auto

lemma appendMissing_eq:
  "appendMissingEnvVars c es =
     (c\<lparr>kc_env := kc_env c @ fresh_envs (ke_name ` set (kc_env c)) es\<rparr>,
      fresh_envs (ke_name ` set (kc_env c)) es \<noteq> [])"
  by (simp add: appendMissingEnvVars_def append_envs_fresh)

section \<open>One mutation\<close>

text \<open>The guards of the mutation, and the container it leaves.\<close>

definition injectable :: "(string \<Rightarrow> bool) \<Rightarrow> kae_pod \<Rightarrow> injection_config \<Rightarrow> bool" where
  "injectable qual pod cfg \<longleftrightarrow>
     0 \<le> ic_target cfg \<and> ic_target cfg < int (length (kp_containers pod)) \<and> 0 < ic_count cfg \<and>
     trim_space (ic_resource cfg) \<noteq> [] \<and> qual (NormalizeResourceName (ic_resource cfg))"

definition selected :: "string \<Rightarrow> injection_config \<Rightarrow> bool" where
  "selected ns cfg \<longleftrightarrow> ic_enabled cfg \<and> shouldInjectNamespace ns (ic_included cfg) (ic_excluded cfg)"

definition injected :: "kae_pod \<Rightarrow> injection_config \<Rightarrow> kae_container" where
  "injected pod cfg =
     (let c = kp_containers pod ! nat (ic_target cfg);
          c1 = (if hasKAEResource pod then c
                else inject_resource (NormalizeResourceName (ic_resource cfg)) (ic_count cfg) c)
      in fst (appendMissingEnvVars c1 (ic_env cfg)))"

lemma inject_resource_env [simp]: "kc_env (inject_resource n q c) = kc_env c"
  by (simp add: inject_resource_def)

lemma mutate_cases:
  assumes "mutatePodForKAEInjection qual (Some pod) ns cfg = Inr (r, ch)"
  obtains (skip) "\<not> selected ns cfg" "r = Some pod" "\<not> ch"
  | (mutated) "selected ns cfg" "injectable qual pod cfg"
      "r = Some (pod\<lparr>kp_containers := (kp_containers pod)[nat (ic_target cfg) := injected pod cfg]\<rparr>)"
      "ch = (\<not> hasKAEResource pod \<or>
        fresh_envs (ke_name ` set (kc_env (kp_containers pod ! nat (ic_target cfg)))) (ic_env cfg) \<noteq> [])"
proof (cases "selected ns cfg")
  case False
  with assms show ?thesis by (intro skip) (auto simp: mutatePodForKAEInjection_def selected_def)
next
  case True
  with assms show ?thesis
    by (intro mutated)
      (auto simp: mutatePodForKAEInjection_def selected_def injectable_def injected_def appendMissing_eq Let_def
        split: if_splits)
qed

lemma mutate_total:
  assumes "injectable qual pod cfg"
  shows "\<exists>p ch. mutatePodForKAEInjection qual (Some pod) ns cfg = Inr (Some p, ch)"
  using assms by (auto simp: mutatePodForKAEInjection_def injectable_def appendMissing_eq Let_def)

lemma injected_env:
  "kc_env (injected pod cfg) =
     kc_env (kp_containers pod ! nat (ic_target cfg)) @
     fresh_envs (ke_name ` set (kc_env (kp_containers pod ! nat (ic_target cfg)))) (ic_env cfg)"
  by (simp add: injected_def appendMissing_eq Let_def)

lemma injected_found:
  "hasKAEResource pod \<Longrightarrow>
     kc_requests (injected pod cfg) = kc_requests (kp_containers pod ! nat (ic_target cfg)) \<and>
     kc_limits (injected pod cfg) = kc_limits (kp_containers pod ! nat (ic_target cfg))"
  by (simp add: injected_def appendMissing_eq Let_def)

lemma injected_new:
  assumes "\<not> hasKAEResource pod"
  shows "kc_requests (injected pod cfg) =
      Some (AList.update (NormalizeResourceName (ic_resource cfg)) (NewQuantity (ic_count cfg))
        (res_map (kc_requests (kp_containers pod ! nat (ic_target cfg)))))"
    and "kc_limits (injected pod cfg) =
      Some (AList.update (NormalizeResourceName (ic_resource cfg)) (NewQuantity (ic_count cfg))
        (res_map (kc_limits (kp_containers pod ! nat (ic_target cfg)))))"
  using assms by (simp_all add: injected_def appendMissing_eq Let_def inject_resource_def)

lemma webhook_injects_parts:
  assumes "mutatePodForKAEInjection qual (Some pod) ns cfg = Inr (Some pod', ch)"
    and "ic_enabled cfg" "shouldInjectNamespace ns (ic_included cfg) (ic_excluded cfg)"
  defines "i \<equiv> nat (ic_target cfg)"
  defines "c \<equiv> kp_containers pod ! i" and "c' \<equiv> kp_containers pod' ! i"
  defines "n \<equiv> NormalizeResourceName (ic_resource cfg)"
  shows "i < length (kp_containers pod)"
    "\<And>j. j \<noteq> i \<Longrightarrow> kp_containers pod' ! j = kp_containers pod ! j"
    "pod'\<lparr>kp_containers := kp_containers pod\<rparr> = pod"
    "\<exists>add. kc_env c' = kc_env c @ add \<and> distinct (map ke_name add) \<and> set add \<subseteq> set (ic_env cfg) \<and>
       ke_name ` set add = ke_name ` set (ic_env cfg) - ke_name ` set (kc_env c)"
    "hasKAEResource pod \<Longrightarrow> kc_requests c' = kc_requests c \<and> kc_limits c' = kc_limits c"
    "\<not> hasKAEResource pod \<Longrightarrow>
       map_of (res_map (kc_requests c')) = (map_of (res_map (kc_requests c)))(n \<mapsto> NewQuantity (ic_count cfg)) \<and>
       map_of (res_map (kc_limits c')) = (map_of (res_map (kc_limits c)))(n \<mapsto> NewQuantity (ic_count cfg))"
    "has_prefix n kaeResourcePrefix \<Longrightarrow> ch \<longleftrightarrow> pod' \<noteq> pod"
proof -
  have sel: "selected ns cfg" using assms(2,3) by (simp add: selected_def)
  from assms(1) have inj: "injectable qual pod cfg"
    and r: "Some pod' = Some (pod\<lparr>kp_containers := (kp_containers pod)[i := injected pod cfg]\<rparr>)"
    and ch: "ch = (\<not> hasKAEResource pod \<or> fresh_envs (ke_name ` set (kc_env c)) (ic_env cfg) \<noteq> [])"
    unfolding i_def c_def by (rule mutate_cases; use sel in blast)+
  show i: "i < length (kp_containers pod)" using inj by (auto simp: injectable_def i_def nat_less_iff)
  have c': "c' = injected pod cfg" using r i by (simp add: c'_def)
  show "kp_containers pod' ! j = kp_containers pod ! j" if "j \<noteq> i" for j using r that by simp
  show "pod'\<lparr>kp_containers := kp_containers pod\<rparr> = pod" using r by simp
  show "\<exists>add. kc_env c' = kc_env c @ add \<and> distinct (map ke_name add) \<and> set add \<subseteq> set (ic_env cfg) \<and>
       ke_name ` set add = ke_name ` set (ic_env cfg) - ke_name ` set (kc_env c)"
    unfolding c' injected_env c_def i_def
    by (intro exI[where x = "fresh_envs (ke_name ` set (kc_env (kp_containers pod ! nat (ic_target cfg)))) (ic_env cfg)"]
          conjI fresh_envs_distinct fresh_envs_subset fresh_envs_names refl)
  show "hasKAEResource pod \<Longrightarrow> kc_requests c' = kc_requests c \<and> kc_limits c' = kc_limits c"
    unfolding c' c_def i_def by (rule injected_found)
  show new: "\<not> hasKAEResource pod \<Longrightarrow>
       map_of (res_map (kc_requests c')) = (map_of (res_map (kc_requests c)))(n \<mapsto> NewQuantity (ic_count cfg)) \<and>
       map_of (res_map (kc_limits c')) = (map_of (res_map (kc_limits c)))(n \<mapsto> NewQuantity (ic_count cfg))"
    using injected_new[of pod cfg] by (simp add: c' c_def i_def n_def res_map_def)
  have same: "pod' = pod \<longleftrightarrow> c' = c"
  proof
    assume "pod' = pod"
    then show "c' = c" by (simp add: c'_def c_def)
  next
    assume "c' = c"
    then have "injected pod cfg = kp_containers pod ! i" using c' by (simp add: c_def)
    then show "pod' = pod" using r by simp
  qed
  show "ch \<longleftrightarrow> pod' \<noteq> pod" if pre: "has_prefix n kaeResourcePrefix"
  proof (cases "hasKAEResource pod")
    case True
    with ch show ?thesis unfolding same unfolding c' c_def i_def
      by (auto simp: injected_def Let_def appendMissing_eq dest: arg_cong[where f = kc_env])
  next
    case False
    have "c \<in> set (kp_containers pod)" using i by (simp add: c_def)
    with False have "\<not> resourceListHasKAE (kc_limits c)" by (auto simp: hasKAEResource_def list_ex_iff)
    with pre have "map_of (res_map (kc_limits c)) n = None"
      by (auto simp: resourceListHasKAE_def list_ex_iff map_of_eq_None_iff)
    moreover have "map_of (res_map (kc_limits c')) n \<noteq> None" using new[OF False] by simp
    ultimately have "c' \<noteq> c" by auto
    with ch False show ?thesis by (simp add: same)
  qed
qed

text \<open>When a pod is selected by its namespace, the webhook changes one container only: its
  environment gets, behind the entries it had, one entry for each configured name it lacked; and when
  no container of the pod names a KAE resource, the configured quantity becomes both the request and
  the limit of the target, which are otherwise kept. The reported flag is true exactly when the pod
  has changed, if the configured resource is a KAE resource.\<close>

theorem webhook_injects:
  assumes "mutatePodForKAEInjection qual (Some pod) ns cfg = Inr (Some pod', ch)"
    and "ic_enabled cfg" "shouldInjectNamespace ns (ic_included cfg) (ic_excluded cfg)"
  shows "let i = nat (ic_target cfg); c = kp_containers pod ! i; c' = kp_containers pod' ! i;
      n = NormalizeResourceName (ic_resource cfg) in
    i < length (kp_containers pod) \<and> (\<forall>j. j \<noteq> i \<longrightarrow> kp_containers pod' ! j = kp_containers pod ! j) \<and>
    pod'\<lparr>kp_containers := kp_containers pod\<rparr> = pod \<and>
    (\<exists>add. kc_env c' = kc_env c @ add \<and> distinct (map ke_name add) \<and> set add \<subseteq> set (ic_env cfg) \<and>
       ke_name ` set add = ke_name ` set (ic_env cfg) - ke_name ` set (kc_env c)) \<and>
    (hasKAEResource pod \<longrightarrow> kc_requests c' = kc_requests c \<and> kc_limits c' = kc_limits c) \<and>
    (\<not> hasKAEResource pod \<longrightarrow>
       map_of (res_map (kc_requests c')) = (map_of (res_map (kc_requests c)))(n \<mapsto> NewQuantity (ic_count cfg)) \<and>
       map_of (res_map (kc_limits c')) = (map_of (res_map (kc_limits c)))(n \<mapsto> NewQuantity (ic_count cfg))) \<and>
    (has_prefix n kaeResourcePrefix \<longrightarrow> (ch \<longleftrightarrow> pod' \<noteq> pod))"
  unfolding Let_def using webhook_injects_parts[OF assms] by (intro conjI allI impI) simp_all


definition demo_kae_pod :: kae_pod where
  "demo_kae_pod = \<lparr>kp_name = ''web'', kp_namespace = ''tenant-a'', kp_annotations = None, kp_finalizers = [],
     kp_deleting = False,
     kp_containers = [\<lparr>kc_name = ''c0'', kc_requests = None, kc_limits = Some [(''cpu'', 2000000000)],
       kc_env = [\<lparr>ke_name = ''HOME'', ke_value = ''/root'', ke_from = None\<rparr>]\<rparr>],
     kp_init_containers = [], kp_node_name = ''n1'', kp_phase = ''Pending''\<rparr>"

definition demo_injection :: injection_config where
  "demo_injection = \<lparr>ic_enabled = True, ic_resource = ''hisi_hpre'', ic_count = 1, ic_target = 0,
     ic_included = [], ic_excluded = [''kube-system'', ''kae-system''],
     ic_env = [\<lparr>ke_name = ''OPENSSL_ENGINES'', ke_value = ''/usr/lib'', ke_from = None\<rparr>]\<rparr>"

definition demo_injected_pod :: kae_pod where
  "demo_injected_pod = demo_kae_pod\<lparr>kp_containers :=
     [\<lparr>kc_name = ''c0'', kc_requests = Some [(''kae.kunpeng.com/hisi_hpre'', 1000000000)],
       kc_limits = Some [(''cpu'', 2000000000), (''kae.kunpeng.com/hisi_hpre'', 1000000000)],
       kc_env = [\<lparr>ke_name = ''HOME'', ke_value = ''/root'', ke_from = None\<rparr>,
                 \<lparr>ke_name = ''OPENSSL_ENGINES'', ke_value = ''/usr/lib'', ke_from = None\<rparr>]\<rparr>]\<rparr>"

lemma demo_injects:
  "mutatePodForKAEInjection (\<lambda>_. True) (Some demo_kae_pod) ''tenant-a'' demo_injection = Inr (Some demo_injected_pod, True)"
  by code_simp

lemma demo_selected:
  "ic_enabled demo_injection"
  "shouldInjectNamespace ''tenant-a'' (ic_included demo_injection) (ic_excluded demo_injection)"
  by code_simp+

theorem webhook_injects_witness:
  "demo_injected_pod\<lparr>kp_containers := kp_containers demo_kae_pod\<rparr> = demo_kae_pod"
  using webhook_injects[OF demo_injects demo_selected] by (simp only: Let_def)

section \<open>A second pass\<close>

lemma update_twice: "AList.update k v (AList.update k v m) = AList.update k v m"
  by (induction m) auto

lemma list_ex_update_same: "i < length xs \<Longrightarrow> f x = f (xs ! i) \<Longrightarrow> list_ex f (xs[i := x]) = list_ex f xs"
  by (induction xs arbitrary: i) (auto split: nat.splits simp: nth_Cons')

lemma hasKAE_update:
  assumes "i < length (kp_containers pod)"
    and "kc_requests c = kc_requests (kp_containers pod ! i)" "kc_limits c = kc_limits (kp_containers pod ! i)"
  shows "hasKAEResource (pod\<lparr>kp_containers := (kp_containers pod)[i := c]\<rparr>) = hasKAEResource pod"
  using assms by (simp add: hasKAEResource_def list_ex_update_same)

lemma mutate_twice:
  assumes m: "mutatePodForKAEInjection qual (Some pod) ns cfg = Inr (Some p, ch)"
  shows "\<exists>ch'. mutatePodForKAEInjection qual (Some p) ns cfg = Inr (Some p, ch')"
  using m
proof (cases rule: mutate_cases)
  case skip
  then show ?thesis using m by auto
next
  case mutated
  define i where "i = nat (ic_target cfg)"
  let ?c = "kp_containers pod ! i" let ?c' = "injected pod cfg"
  have p: "p = pod\<lparr>kp_containers := (kp_containers pod)[i := ?c']\<rparr>" using mutated(3) by (simp add: i_def)
  have i: "i < length (kp_containers pod)" using mutated(2) by (auto simp: injectable_def i_def nat_less_iff)
  have pi: "kp_containers p ! i = ?c'" using i by (simp add: p)
  have "injectable qual p cfg" using mutated(2) by (simp add: injectable_def p)
  then obtain p2 ch2 where m2: "mutatePodForKAEInjection qual (Some p) ns cfg = Inr (Some p2, ch2)"
    using mutate_total by blast
  then have p2: "p2 = p\<lparr>kp_containers := (kp_containers p)[i := injected p cfg]\<rparr>"
    by (cases rule: mutate_cases) (use mutated(1) in \<open>auto simp: i_def\<close>)
  have fresh: "fresh_envs (ke_name ` set (kc_env ?c')) (ic_env cfg) = []"
    by (rule fresh_envs_none) (auto simp: injected_env fresh_envs_names image_Un i_def)
  have "injected p cfg = ?c'"
  proof (cases "hasKAEResource p")
    case True
    with pi fresh show ?thesis by (simp add: injected_def[of p] appendMissing_eq Let_def flip: i_def)
  next
    case False
    have "\<not> hasKAEResource pod"
    proof
      assume has: "hasKAEResource pod"
      have "hasKAEResource p = hasKAEResource pod"
        unfolding p using injected_found[OF has, of cfg] by (intro hasKAE_update[OF i]) (simp_all add: i_def)
      with has False show False by simp
    qed
    note old = injected_new[OF this, of cfg]
    have "inject_resource (NormalizeResourceName (ic_resource cfg)) (ic_count cfg) ?c' = ?c'"
      by (simp add: inject_resource_def old res_map_def update_twice)
    with False pi fresh show ?thesis by (simp add: injected_def[of p] appendMissing_eq Let_def flip: i_def)
  qed
  with p2 pi have "p2 = p" by (metis (no_types, lifting) list_update_id kae_pod.surjective kae_pod.update_convs(6))
  with m2 show ?thesis by blast
qed

text \<open>C28. The webhook is idempotent: the API server may call it again on the pod it returned (on
  reinvocation and on updates) and gets the same pod back.\<close>

theorem webhook_idempotent:
  assumes "Defaulter_Default qual cfg request pod = Inr pod'"
    and "effective_namespace pod' request' = effective_namespace pod request"
  shows "Defaulter_Default qual cfg request' pod' = Inr pod'"
proof -
  obtain ch where "mutatePodForKAEInjection qual (Some pod) (effective_namespace pod request) cfg = Inr (Some pod', ch)"
    using assms(1) by (auto simp: Defaulter_Default_def split: sum.splits option.splits)
  from mutate_twice[OF this] show ?thesis using assms(2) by (auto simp: Defaulter_Default_def)
qed

theorem webhook_idempotent_witness:
  "Defaulter_Default (\<lambda>_. True) demo_injection (Some ''tenant-a'') demo_injected_pod = Inr demo_injected_pod"
proof (rule webhook_idempotent)
  show "Defaulter_Default (\<lambda>_. True) demo_injection None demo_kae_pod = Inr demo_injected_pod" by code_simp
  show "effective_namespace demo_injected_pod (Some ''tenant-a'') = effective_namespace demo_kae_pod None" by code_simp
qed


section \<open>Validated options\<close>

lemma append_unique_loop_distinct:
  "distinct xs \<Longrightarrow> set ex = set xs \<Longrightarrow> distinct (append_unique_loop ex xs as) \<and>
     set (append_unique_loop ex xs as) = set xs \<union> set as"
  by (induction ex xs as rule: append_unique_loop.induct) auto

lemma appendUnique_set:
  assumes "distinct xs"
  shows "distinct (appendUnique xs as)" "set (appendUnique xs as) = set xs \<union> set as"
  unfolding appendUnique_def using append_unique_loop_distinct[OF assms refl, of as] by blast+

lemma split_csv_loop_distinct: "distinct r \<Longrightarrow> distinct (split_csv_loop r vs)"
  by (induction r vs rule: split_csv_loop.induct) (auto simp: Let_def appendUnique_set)

lemma splitCSV_distinct: "distinct (splitCSV s)"
  by (simp add: splitCSV_def split_csv_loop_distinct)

lemma NormalizeResourceName_trim [simp]: "NormalizeResourceName (trim_space s) = NormalizeResourceName s"
  by (simp add: NormalizeResourceName_def)

lemma Build_fields:
  assumes "Options_Build qual opt ns = Inr (srv, cfg)" "wo_enabled opt"
  shows "1 \<le> so_port srv" "so_port srv \<le> 65535" "ic_enabled cfg" "trim_space (ic_resource cfg) \<noteq> []"
    "qual (NormalizeResourceName (ic_resource cfg))" "0 < ic_count cfg" "0 \<le> ic_target cfg"
    "ic_target cfg = wo_target opt" "ic_included cfg = splitCSV (wo_included opt)"
    "ic_excluded cfg = appendUnique (splitCSV (wo_excluded opt)) [trim_space ns]"
  using assms unfolding Options_Build_def
  by (auto simp: Let_def split: if_splits option.splits sum.splits prod.splits)

lemma Default_injectable:
  "injectable qual pod cfg \<Longrightarrow> \<exists>p. Defaulter_Default qual cfg request pod = Inr p"
  using mutate_total[of qual pod cfg "effective_namespace pod request"] by (auto simp: Defaulter_Default_def)

lemma Default_unselected:
  "\<not> selected (effective_namespace pod request) cfg \<Longrightarrow> Defaulter_Default qual cfg request pod = Inr pod"
  by (auto simp: Defaulter_Default_def mutatePodForKAEInjection_def selected_def)

text \<open>Options that pass the validation can be served: the port is one of a TCP listener, the
  namespace lists have no repetition, the webhook rejects no pod that has a container at the
  configured index, and without an include list it leaves every pod of its own namespace alone.\<close>

theorem webhook_options_checked:
  assumes "Options_Build qual opt ns = Inr (srv, cfg)" "wo_enabled opt"
  shows "1 \<le> so_port srv \<and> so_port srv \<le> 65535"
    "distinct (ic_included cfg)" "distinct (ic_excluded cfg)"
    "\<And>pod request. wo_target opt < int (length (kp_containers pod)) \<Longrightarrow>
       \<exists>pod'. Defaulter_Default qual cfg request pod = Inr pod'"
    "\<And>pod request. ic_included cfg = [] \<Longrightarrow> effective_namespace pod request = trim_space ns \<Longrightarrow>
       Defaulter_Default qual cfg request pod = Inr pod"
proof -
  note f = Build_fields[OF assms]
  show "1 \<le> so_port srv \<and> so_port srv \<le> 65535" using f by simp
  show "distinct (ic_included cfg)" by (simp add: f splitCSV_distinct)
  show "distinct (ic_excluded cfg)" by (simp add: f appendUnique_set splitCSV_distinct)
  show "\<exists>pod'. Defaulter_Default qual cfg request pod = Inr pod'"
    if "wo_target opt < int (length (kp_containers pod))" for pod request
    using f that by (intro Default_injectable) (simp add: injectable_def)
  show "Defaulter_Default qual cfg request pod = Inr pod"
    if "ic_included cfg = []" "effective_namespace pod request = trim_space ns" for pod request
  proof (rule Default_unselected)
    have "trim_space ns \<in> set (ic_excluded cfg)" by (simp add: f(10) appendUnique_set splitCSV_distinct)
    then have "namespaceInList (trim_space ns) (ic_excluded cfg)"
      by (auto simp: namespaceInList_def list_ex_iff intro: bexI[where x = "trim_space ns"])
    with that show "\<not> selected (effective_namespace pod request) cfg"
      by (simp add: selected_def shouldInjectNamespace_def)
  qed
qed

definition demo_options :: webhook_options where
  "demo_options = NewOptions\<lparr>wo_enabled := True, wo_included := '' ,'' \<rparr>"

theorem webhook_options_checked_witness:
  "case Options_Build (\<lambda>_. True) demo_options '' tenant-a '' of
     Inl _ \<Rightarrow> False
   | Inr (srv, cfg) \<Rightarrow> so_port srv = 9443 \<and> Defaulter_Default (\<lambda>_. True) cfg None demo_kae_pod = Inr demo_kae_pod"
proof -
  have "case Options_Build (\<lambda>_. True) demo_options '' tenant-a '' of
     Inl _ \<Rightarrow> False | Inr (srv, cfg) \<Rightarrow> so_port srv = 9443 \<and> ic_included cfg = []" by code_simp
  then obtain srv cfg where b: "Options_Build (\<lambda>_. True) demo_options '' tenant-a '' = Inr (srv, cfg)"
    and p: "so_port srv = 9443" "ic_included cfg = []" by (auto split: sum.splits)
  have en: "wo_enabled demo_options" by code_simp
  have ns: "effective_namespace demo_kae_pod None = trim_space '' tenant-a ''" by code_simp
  show ?thesis using webhook_options_checked(5)[OF b en p(2) ns] by (simp add: b p)
qed

end
