(* ===== verification/KaeDevices.thy ===== *)
theory KaeDevices
  imports GoPath
begin

text \<open>
  The KAE device plugin: device trees (\<open>device-plugin/api.go\<close>), the scan of the PCI functions
  (\<open>kae-plugin/kae_plugin.go\<close>), the notifier and the manager (\<open>device-plugin/manager.go\<close>) and the
  gRPC server of one device type (\<open>device-plugin/server.go\<close>). The processes of the plugin (scanner,
  manager, one \<open>Serve\<close> goroutine for each server, one \<open>ListAndWatch\<close> handler for each stream of the
  kubelet) interleave in \<open>kae_do\<close>. Server objects live in a store, because a goroutine or a handler
  keeps its object when the manager has dropped it.
\<close>

section \<open>Device trees\<close>

record device_spec =
  ds_container :: string
  ds_host :: string
  ds_perm :: string

record device_mount =
  dm_container :: string
  dm_host :: string
  dm_readonly :: bool

type_synonym str_map = "(string, string) gomap option"

record device_info =
  di_mounts :: "device_mount list"
  di_envs :: str_map
  di_annotations :: str_map
  di_health :: string
  di_devices :: "device_spec list"

type_synonym dev_map = "(string, device_info) gomap"
type_synonym device_tree = "(string, dev_map) gomap"

definition NewDeviceInfo ::
  "string \<Rightarrow> device_spec list \<Rightarrow> device_mount list \<Rightarrow> str_map \<Rightarrow> str_map \<Rightarrow> device_info" where
  "NewDeviceInfo state devices mounts envs annotations =
     \<lparr>di_mounts = mounts, di_envs = envs, di_annotations = annotations, di_health = state, di_devices = devices\<rparr>"

definition AddDevice :: "device_tree \<Rightarrow> string \<Rightarrow> string \<Rightarrow> device_info \<Rightarrow> device_tree" where
  "AddDevice tree devType did info =
     (let ids = (case map_of tree devType of None \<Rightarrow> [] | Some m \<Rightarrow> m)
      in AList.update devType (AList.update did info ids) tree)"

text \<open>\<open>reflect.DeepEqual\<close> on maps compares lengths and entries, and separates a nil map from an empty
  one. The slices of a device are never nil, so lists are compared as they are.\<close>

definition same_map :: "('b \<Rightarrow> 'b \<Rightarrow> bool) \<Rightarrow> ('a, 'b) gomap \<Rightarrow> ('a, 'b) gomap \<Rightarrow> bool" where
  "same_map eq m n \<longleftrightarrow> length m = length n \<and>
     list_all (\<lambda>(k, v). case map_of n k of None \<Rightarrow> False | Some w \<Rightarrow> eq v w) m"

definition same_strs :: "str_map \<Rightarrow> str_map \<Rightarrow> bool" where
  "same_strs a b =
     (case a of None \<Rightarrow> b = None | Some m \<Rightarrow> (case b of None \<Rightarrow> False | Some n \<Rightarrow> same_map (=) m n))"

definition same_info :: "device_info \<Rightarrow> device_info \<Rightarrow> bool" where
  "same_info a b \<longleftrightarrow> di_mounts a = di_mounts b \<and> same_strs (di_envs a) (di_envs b) \<and>
     same_strs (di_annotations a) (di_annotations b) \<and> di_health a = di_health b \<and> di_devices a = di_devices b"

definition same_devices :: "dev_map \<Rightarrow> dev_map \<Rightarrow> bool" where
  "same_devices = same_map same_info"

section \<open>The scan\<close>

text \<open>
  The files the scan reads: the matches of a glob pattern with the target of each symbolic link
  (\<^const>\<open>None\<close> when it cannot be evaluated), the text of a file, the names in a directory.
\<close>

record kae_fs =
  kf_glob :: "string \<Rightarrow> (string \<times> string option) list option"
  kf_read :: "string \<Rightarrow> string option"
  kf_dir :: "string \<Rightarrow> string list option"

definition kaeDeviceDriver :: "(string, string) gomap" where
  "kaeDeviceDriver = [(''a259'', ''hisi_hpre''), (''a251'', ''hisi_zip''), (''a256'', ''hisi_sec2'')]"

definition isValidKernelDriver :: "string \<Rightarrow> bool" where
  "isValidKernelDriver driver \<longleftrightarrow> list_ex (\<lambda>(i, d). driver = d) kaeDeviceDriver"

record kae_plugin =
  pl_drivers :: "string list"
  pl_driver_dir :: string
  pl_device_dir :: string
  pl_uacce_dir :: string

definition newDevicePlugin :: "string \<Rightarrow> string \<Rightarrow> string \<Rightarrow> string list \<Rightarrow> kae_plugin" where
  "newDevicePlugin pciDriverDir pciDeviceDir uacceDir drivers =
     \<lparr>pl_drivers = drivers, pl_driver_dir = pciDriverDir, pl_device_dir = pciDeviceDir, pl_uacce_dir = uacceDir\<rparr>"

definition NewDevicePlugin :: "string \<Rightarrow> kae_plugin result" where
  "NewDevicePlugin drivers =
     (let ds = go_split '','' drivers in
      if list_all isValidKernelDriver ds then
        Inr (newDevicePlugin ''/sys/bus/pci/drivers'' ''/sys/bus/pci/devices'' ''/sys/class/uacce'' ds)
      else Inl (Err ''wrong kernel VF driver''))"

definition getPciDevicesWithPattern :: "kae_fs \<Rightarrow> string \<Rightarrow> string list" where
  "getPciDevicesWithPattern fs pattern =
     (case kf_glob fs pattern of None \<Rightarrow> [] | Some devs \<Rightarrow> List.map_filter snd devs)"

definition isVfPci :: "kae_fs \<Rightarrow> string \<Rightarrow> string \<Rightarrow> bool result" where
  "isVfPci fs pciDir driver =
     (case kf_read fs (path_join [pciDir, ''device'']) of
        None \<Rightarrow> Inl (Err ''read device file'')
      | Some fileData \<Rightarrow>
          (let deviceId = trim_space (trim_prefix fileData ''0x'') in
           Inr ((case map_of kaeDeviceDriver deviceId of None \<Rightarrow> [] | Some d \<Rightarrow> d) = driver)))"

fun vf_loop :: "kae_fs \<Rightarrow> string \<Rightarrow> string list \<Rightarrow> string list \<Rightarrow> string list result" where
  "vf_loop fs driver acc [] = Inr acc"
| "vf_loop fs driver acc (p # ps) =
     (case isVfPci fs p driver of
        Inl e \<Rightarrow> Inl e
      | Inr True \<Rightarrow> vf_loop fs driver (acc @ [p]) ps
      | Inr False \<Rightarrow> vf_loop fs driver acc ps)"

definition getVfDevices :: "kae_fs \<Rightarrow> kae_plugin \<Rightarrow> string \<Rightarrow> string list result" where
  "getVfDevices fs dp driver =
     vf_loop fs driver []
       (getPciDevicesWithPattern fs (path_join [path_join [pl_driver_dir dp, driver], ''????:??:??.?'']))"

definition Healthy :: string where
  "Healthy = ''Healthy''"

definition getDeivceHealth :: "string \<Rightarrow> string result" where
  "getDeivceHealth bdf = Inr Healthy"

definition getDeviceName :: "kae_fs \<Rightarrow> kae_plugin \<Rightarrow> string \<Rightarrow> string result" where
  "getDeviceName fs dp bdf =
     (case kf_dir fs (path_join [pl_device_dir dp, bdf, ''uacce'']) of
        None \<Rightarrow> Inl (Err ''failed to read uacce dir'')
      | Some [] \<Rightarrow> Inl (Err ''no uacce device found'')
      | Some (e # es) \<Rightarrow> Inr e)"

definition getDeviceSpecs :: "string \<Rightarrow> device_spec list" where
  "getDeviceSpecs deviceName =
     [\<lparr>ds_container = path_join [''/dev'', deviceName], ds_host = path_join [''/dev'', deviceName], ds_perm = ''rw''\<rparr>]"

definition getMounts :: "kae_plugin \<Rightarrow> string \<Rightarrow> device_mount list" where
  "getMounts dp deviceName =
     [\<lparr>dm_container = path_join [pl_uacce_dir dp, deviceName], dm_host = path_join [pl_uacce_dir dp, deviceName],
       dm_readonly = False\<rparr>]"

text \<open>\<open>strings.ToUpper\<close> on ASCII.\<close>

definition to_upper :: "string \<Rightarrow> string" where
  "to_upper s = map (\<lambda>c. let n = of_char c :: nat in if 97 \<le> n \<and> n \<le> 122 then char_of (n - 32) else c) s"

definition env_name :: "string \<Rightarrow> int \<Rightarrow> string" where
  "env_name driver n = to_upper driver @ ''-'' @ itoa n"

text \<open>The body of the inner loop of \<open>scan\<close>; the counter \<open>n\<close> runs through all drivers.\<close>

definition scan_device ::
  "kae_fs \<Rightarrow> kae_plugin \<Rightarrow> string \<Rightarrow> int \<times> device_tree \<Rightarrow> string \<Rightarrow> (int \<times> device_tree) result" where
  "scan_device fs dp driver acc vfDevice =
     (case acc of (n, tree) \<Rightarrow>
       (let vfBdf = path_base vfDevice in
        (case getDeivceHealth vfBdf of
           Inl e \<Rightarrow> Inl e
         | Inr health \<Rightarrow>
             (case getDeviceName fs dp vfBdf of
                Inl e \<Rightarrow> Inl e
              | Inr deviceName \<Rightarrow>
                  Inr (n + 1, AddDevice tree driver vfBdf
                    (NewDeviceInfo health (getDeviceSpecs deviceName) (getMounts dp deviceName)
                       (Some [(env_name driver (n + 1), vfBdf)]) None))))))"

fun scan_devices ::
  "kae_fs \<Rightarrow> kae_plugin \<Rightarrow> string \<Rightarrow> int \<times> device_tree \<Rightarrow> string list \<Rightarrow> (int \<times> device_tree) result" where
  "scan_devices fs dp driver acc [] = Inr acc"
| "scan_devices fs dp driver acc (d # ds) =
     (case scan_device fs dp driver acc d of Inl e \<Rightarrow> Inl e | Inr acc' \<Rightarrow> scan_devices fs dp driver acc' ds)"

fun scan_drivers ::
  "kae_fs \<Rightarrow> kae_plugin \<Rightarrow> int \<times> device_tree \<Rightarrow> string list \<Rightarrow> (int \<times> device_tree) result" where
  "scan_drivers fs dp acc [] = Inr acc"
| "scan_drivers fs dp acc (d # ds) =
     (case getVfDevices fs dp d of
        Inl e \<Rightarrow> Inl e
      | Inr vfs \<Rightarrow> (case scan_devices fs dp d acc vfs of Inl e \<Rightarrow> Inl e | Inr acc' \<Rightarrow> scan_drivers fs dp acc' ds))"

definition plugin_scan :: "kae_fs \<Rightarrow> kae_plugin \<Rightarrow> device_tree result" where
  "plugin_scan fs dp =
     (case scan_drivers fs dp (0, []) (pl_drivers dp) of Inl e \<Rightarrow> Inl e | Inr (n, tree) \<Rightarrow> Inr tree)"

section \<open>The notifier\<close>

record update_info =
  ui_added :: device_tree
  ui_updated :: device_tree
  ui_removed :: device_tree

fun notify_loop ::
  "device_tree \<Rightarrow> device_tree \<Rightarrow> device_tree \<Rightarrow> device_tree \<Rightarrow> device_tree \<times> device_tree \<times> device_tree" where
  "notify_loop old added updated [] = (added, updated, old)"
| "notify_loop old added updated ((t, new) # rest) =
     (case map_of old t of
        Some o' \<Rightarrow>
          notify_loop (AList.delete t old) added
            (if same_devices o' new then updated else AList.update t new updated) rest
      | None \<Rightarrow> notify_loop old (AList.update t new added) updated rest)"

text \<open>The update that is sent, if any; the new tree replaces the remembered one.\<close>

definition Notify :: "device_tree \<Rightarrow> device_tree \<Rightarrow> update_info option" where
  "Notify old new =
     (case notify_loop old [] [] new of
        (added, updated, removed) \<Rightarrow>
          if added \<noteq> [] \<or> updated \<noteq> [] \<or> removed \<noteq> [] then
            Some \<lparr>ui_added = added, ui_updated = updated, ui_removed = removed\<rparr>
          else None)"

section \<open>The server of one device type\<close>

datatype server_state = SrvUninitialized | SrvServing | SrvTerminating

text \<open>
  \<open>sv_chan\<close> is the content of \<open>updatesCh\<close>, a channel of capacity 1. The gRPC servers that an object
  creates one after the other are numbered, \<open>sv_grpc\<close> is the current one (\<^const>\<open>None\<close> is nil) and
  \<open>sv_alive\<close> says that it has not been stopped.
\<close>

record kae_server =
  sv_devices :: dev_map
  sv_chan :: "dev_map list"
  sv_closed :: bool
  sv_type :: string
  sv_state :: server_state
  sv_grpc :: "nat option"
  sv_alive :: bool

definition newServer :: "string \<Rightarrow> kae_server" where
  "newServer devType = \<lparr>sv_devices = [], sv_chan = [], sv_closed = False, sv_type = devType,
     sv_state = SrvUninitialized, sv_grpc = None, sv_alive = False\<rparr>"

text \<open>\<open>Update\<close> sends on the channel: it panics when the channel is closed and blocks
  (\<^const>\<open>None\<close>) when it is full.\<close>

definition srv_Update :: "kae_server \<Rightarrow> dev_map \<Rightarrow> kae_server option result" where
  "srv_Update srv devices =
     (if sv_closed srv then Inl Panic
      else if sv_chan srv = [] then Inr (Some (srv\<lparr>sv_chan := [devices]\<rparr>))
      else Inr None)"

text \<open>\<open>Stop\<close>: the flag is false when it returns an error. Closing a closed channel panics.\<close>

definition srv_Stop :: "kae_server \<Rightarrow> (kae_server \<times> bool) result" where
  "srv_Stop srv =
     (if sv_grpc srv = None then Inr (srv, False)
      else if sv_closed srv then Inl Panic
      else Inr (srv\<lparr>sv_state := SrvTerminating, sv_alive := False, sv_closed := True\<rparr>, True))"

type_synonym report = "(string \<times> string) list"

definition device_report :: "dev_map \<Rightarrow> report" where
  "device_report ds = map (\<lambda>(did, d). (did, di_health d)) ds"

text \<open>\<open>sendDevices\<close> where \<open>sent\<close> says whether \<open>stream.Send\<close> succeeds: what the kubelet gets, or
  \<^const>\<open>None\<close> and the server stops itself.\<close>

definition sendDevices :: "bool \<Rightarrow> kae_server \<Rightarrow> (kae_server \<times> report option) result" where
  "sendDevices sent srv =
     (if sent then Inr (srv, Some (device_report (sv_devices srv)))
      else (case srv_Stop srv of Inl e \<Rightarrow> Inl e | Inr (srv', stopped) \<Rightarrow> Inr (srv', None)))"

record container_allocation =
  al_envs :: "(string, string) gomap"
  al_annotations :: "(string, string) gomap"
  al_devices :: "device_spec list"
  al_mounts :: "device_mount list"

definition empty_allocation :: container_allocation where
  "empty_allocation = \<lparr>al_envs = [], al_annotations = [], al_devices = [], al_mounts = []\<rparr>"

definition maps_copy :: "(string, string) gomap \<Rightarrow> str_map \<Rightarrow> (string, string) gomap" where
  "maps_copy dst src = (case src of None \<Rightarrow> dst | Some m \<Rightarrow> fold (\<lambda>(k, v). AList.update k v) m dst)"

fun allocate_ids :: "dev_map \<Rightarrow> container_allocation \<Rightarrow> string list \<Rightarrow> container_allocation result" where
  "allocate_ids devices resp [] = Inr resp"
| "allocate_ids devices resp (did # ids) =
     (case map_of devices did of
        None \<Rightarrow> Inl (Err ''non-existing device'')
      | Some dev \<Rightarrow>
          if di_health dev \<noteq> Healthy then Inl (Err ''unhealthy device'')
          else allocate_ids devices
            \<lparr>al_envs = maps_copy (al_envs resp) (di_envs dev),
             al_annotations = maps_copy (al_annotations resp) (di_annotations dev),
             al_devices = al_devices resp @ di_devices dev,
             al_mounts = al_mounts resp @ di_mounts dev\<rparr> ids)"

fun allocate_containers :: "dev_map \<Rightarrow> string list list \<Rightarrow> container_allocation list result" where
  "allocate_containers devices [] = Inr []"
| "allocate_containers devices (ids # rest) =
     (case allocate_ids devices empty_allocation ids of
        Inl e \<Rightarrow> Inl e
      | Inr c \<Rightarrow> (case allocate_containers devices rest of Inl e \<Rightarrow> Inl e | Inr cs \<Rightarrow> Inr (c # cs)))"

definition srv_Allocate :: "kae_server \<Rightarrow> string list list \<Rightarrow> container_allocation list result" where
  "srv_Allocate srv requests = allocate_containers (sv_devices srv) requests"

end
