(* ===== verification/KaePlugin.thy ===== *)
theory KaePlugin
  imports KaeDevices
begin

text \<open>
  The processes of the KAE device plugin as one transition function: scans and notifications, the
  operations of the manager, the \<open>Serve\<close> goroutine of each server and its \<open>ListAndWatch\<close> handlers.
\<close>

section \<open>The state of the processes\<close>

text \<open>
  One entry of \<open>Added\<close>, \<open>Updated\<close> or \<open>Removed\<close> in the update that the manager handles; it works them
  off one by one because \<open>Update\<close> can block.
\<close>

datatype manager_op = OpAdd string dev_map | OpUpdate string dev_map | OpRemove string

definition update_ops :: "update_info \<Rightarrow> manager_op list" where
  "update_ops u =
     map (\<lambda>(t, d). OpAdd t d) (ui_added u) @ map (\<lambda>(t, d). OpUpdate t d) (ui_updated u) @
     map (\<lambda>(t, d). OpRemove t) (ui_removed u)"

text \<open>
  Where a \<open>Serve\<close> goroutine stands: before it looks up its server, at the test of the loop, between
  creating the gRPC server and its registration with the kubelet, in \<open>watchFile\<close>.
\<close>

datatype serve_pc = GStart string | GSetup nat | GRegister nat | GWatch nat

record kae_world =
  kw_tree :: device_tree
  kw_servers :: "(string, nat) gomap"
  kw_objs :: "kae_server list"
  kw_ops :: "manager_op list"
  kw_gors :: "serve_pc list"
  kw_streams :: "(nat \<times> nat) list"
  kw_view :: "(nat, report) gomap"

definition NewManager :: kae_world where
  "NewManager = \<lparr>kw_tree = [], kw_servers = [], kw_objs = [], kw_ops = [], kw_gors = [], kw_streams = [], kw_view = []\<rparr>"

definition set_obj :: "nat \<Rightarrow> kae_server \<Rightarrow> kae_world \<Rightarrow> kae_world" where
  "set_obj r s w = w\<lparr>kw_objs := (kw_objs w)[r := s]\<rparr>"

definition drop_at :: "nat \<Rightarrow> 'a list \<Rightarrow> 'a list" where
  "drop_at i xs = take i xs @ drop (Suc i) xs"

section \<open>The manager\<close>

text \<open>\<open>Notify\<close> hands an update over when the manager is back at its channel, and none if nothing
  changed. \<^const>\<open>None\<close> means that the process cannot go on now.\<close>

definition world_notify :: "device_tree \<Rightarrow> kae_world \<Rightarrow> kae_world option" where
  "world_notify tree w =
     (case Notify (kw_tree w) tree of
        None \<Rightarrow> Some (w\<lparr>kw_tree := tree\<rparr>)
      | Some u \<Rightarrow> if kw_ops w = [] then Some (w\<lparr>kw_tree := tree, kw_ops := update_ops u\<rparr>) else None)"

text \<open>A call on a server that is not in the map is a call on a nil interface.\<close>

definition manager_add :: "string \<Rightarrow> dev_map \<Rightarrow> kae_world \<Rightarrow> kae_world option result" where
  "manager_add t d w =
     (case srv_Update (newServer t) d of
        Inl e \<Rightarrow> Inl e
      | Inr None \<Rightarrow> Inr None
      | Inr (Some s) \<Rightarrow>
          Inr (Some (w\<lparr>kw_servers := AList.update t (length (kw_objs w)) (kw_servers w),
            kw_objs := kw_objs w @ [s], kw_gors := kw_gors w @ [GStart t]\<rparr>)))"

definition manager_update :: "string \<Rightarrow> dev_map \<Rightarrow> kae_world \<Rightarrow> kae_world option result" where
  "manager_update t d w =
     (case map_of (kw_servers w) t of
        None \<Rightarrow> Inl Panic
      | Some r \<Rightarrow>
          (case srv_Update (kw_objs w ! r) d of
             Inl e \<Rightarrow> Inl e
           | Inr None \<Rightarrow> Inr None
           | Inr (Some s) \<Rightarrow> Inr (Some (set_obj r s w))))"

definition manager_remove :: "string \<Rightarrow> kae_world \<Rightarrow> kae_world option result" where
  "manager_remove t w =
     (case map_of (kw_servers w) t of
        None \<Rightarrow> Inl Panic
      | Some r \<Rightarrow>
          (case srv_Stop (kw_objs w ! r) of
             Inl e \<Rightarrow> Inl e
           | Inr (s, stopped) \<Rightarrow> Inr (Some ((set_obj r s w)\<lparr>kw_servers := AList.delete t (kw_servers w)\<rparr>))))"

text \<open>\<open>handleUpdate\<close>, one entry at a time.\<close>

definition handle_op :: "manager_op \<Rightarrow> kae_world \<Rightarrow> kae_world option result" where
  "handle_op p w =
     (case p of
        OpAdd t d \<Rightarrow> manager_add t d w
      | OpUpdate t d \<Rightarrow> manager_update t d w
      | OpRemove t \<Rightarrow> manager_remove t w)"

definition manager_step :: "kae_world \<Rightarrow> kae_world option result" where
  "manager_step w =
     (case kw_ops w of
        [] \<Rightarrow> Inr None
      | p # ps \<Rightarrow>
          (case handle_op p w of
             Inl e \<Rightarrow> Inl e
           | Inr None \<Rightarrow> Inr None
           | Inr (Some w') \<Rightarrow> Inr (Some (w'\<lparr>kw_ops := ps\<rparr>))))"

section \<open>The goroutine of a server\<close>

text \<open>What the system answers in one iteration of \<open>setupAndServe\<close>.\<close>

record serve_env =
  se_in_use :: bool
  se_listen :: bool
  se_started :: bool
  se_registered :: bool
  se_watch :: bool

definition se_fine :: serve_env where
  "se_fine = \<lparr>se_in_use = False, se_listen = True, se_started = True, se_registered = True, se_watch = True\<rparr>"

text \<open>An error that \<open>Serve\<close> returns ends the program with \<open>klog.Fatalf\<close>.\<close>

definition serve_step :: "nat \<Rightarrow> serve_env \<Rightarrow> kae_world \<Rightarrow> kae_world option result" where
  "serve_step i env w =
     (if length (kw_gors w) \<le> i then Inr None
      else
        (case kw_gors w ! i of
           GStart t \<Rightarrow>
             (case map_of (kw_servers w) t of
                None \<Rightarrow> Inl Panic
              | Some r \<Rightarrow>
                  Inr (Some ((set_obj r ((kw_objs w ! r)\<lparr>sv_state := SrvServing\<rparr>) w)
                    \<lparr>kw_gors := (kw_gors w)[i := GSetup r]\<rparr>)))
         | GSetup r \<Rightarrow>
             (let s = kw_objs w ! r in
              if sv_state s \<noteq> SrvServing then Inr (Some (w\<lparr>kw_gors := drop_at i (kw_gors w)\<rparr>))
              else if se_in_use env then Inl (Err ''socket is already in use'')
              else if \<not> se_listen env then Inl (Err ''Failed to listen to plugin socket'')
              else
                Inr (Some ((set_obj r (s\<lparr>sv_grpc := Some (case sv_grpc s of None \<Rightarrow> 0 | Some g \<Rightarrow> g + 1),
                                        sv_alive := True\<rparr>) w)
                  \<lparr>kw_gors := (kw_gors w)[i := GRegister r]\<rparr>)))
         | GRegister r \<Rightarrow>
             (if \<not> se_started env then Inl (Err ''Failed dial context'')
              else if \<not> se_registered env then Inl (Err ''Cannot register to kubelet service'')
              else Inr (Some (w\<lparr>kw_gors := (kw_gors w)[i := GWatch r]\<rparr>)))
         | GWatch r \<Rightarrow>
             (if \<not> se_watch env then Inl (Err ''watcher failed'')
              else
                (let s = kw_objs w ! r;
                     s' = (if sv_state s = SrvServing then s\<lparr>sv_alive := False\<rparr> else s)
                 in Inr (Some ((set_obj r s' w)\<lparr>kw_gors := (kw_gors w)[i := GSetup r]\<rparr>))))))"

section \<open>The streams of the kubelet\<close>

text \<open>
  A handler sends on the stream it was opened with. That works while the link is up and the gRPC
  server that accepted the stream has not been stopped: \<open>grpc.Server.Stop\<close> closes its connections,
  but it does not wait for the handlers, which keep waiting for \<open>updatesCh\<close>.
\<close>

definition send_works :: "bool \<Rightarrow> nat \<Rightarrow> kae_server \<Rightarrow> bool" where
  "send_works link g s \<longleftrightarrow> link \<and> sv_alive s \<and> sv_grpc s = Some g"

definition send_on :: "bool \<Rightarrow> nat \<Rightarrow> nat \<Rightarrow> kae_world \<Rightarrow> (kae_world \<times> bool) result" where
  "send_on link r g w =
     (case sendDevices (send_works link g (kw_objs w ! r)) (kw_objs w ! r) of
        Inl e \<Rightarrow> Inl e
      | Inr (s, None) \<Rightarrow> Inr (set_obj r s w, False)
      | Inr (s, Some rep) \<Rightarrow> Inr ((set_obj r s w)\<lparr>kw_view := AList.update r rep (kw_view w)\<rparr>, True))"

text \<open>The kubelet opens a stream to a running server; the handler sends the devices it knows.\<close>

definition listen_step :: "nat \<Rightarrow> bool \<Rightarrow> kae_world \<Rightarrow> kae_world option result" where
  "listen_step r link w =
     (if length (kw_objs w) \<le> r \<or> \<not> sv_alive (kw_objs w ! r) then Inr None
      else
        (case sv_grpc (kw_objs w ! r) of
           None \<Rightarrow> Inr None
         | Some g \<Rightarrow>
             (case send_on link r g w of
                Inl e \<Rightarrow> Inl e
              | Inr (w', True) \<Rightarrow> Inr (Some (w'\<lparr>kw_streams := kw_streams w' @ [(r, g)]\<rparr>))
              | Inr (w', False) \<Rightarrow> Inr (Some w'))))"

text \<open>Handler \<open>i\<close> takes the next value of the channel. All handlers of an object share the channel.\<close>

definition deliver_step :: "nat \<Rightarrow> bool \<Rightarrow> kae_world \<Rightarrow> kae_world option result" where
  "deliver_step i link w =
     (if length (kw_streams w) \<le> i then Inr None
      else
        (case kw_streams w ! i of
           (r, g) \<Rightarrow>
             (let s = kw_objs w ! r in
              case sv_chan s of
                [] \<Rightarrow> if sv_closed s then Inr (Some (w\<lparr>kw_streams := drop_at i (kw_streams w)\<rparr>)) else Inr None
              | d # ds \<Rightarrow>
                  (case send_on link r g (set_obj r (s\<lparr>sv_devices := d, sv_chan := ds\<rparr>) w) of
                     Inl e \<Rightarrow> Inl e
                   | Inr (w', True) \<Rightarrow> Inr (Some w')
                   | Inr (w', False) \<Rightarrow> Inr (Some (w'\<lparr>kw_streams := drop_at i (kw_streams w')\<rparr>))))))"

section \<open>Executions\<close>

datatype kae_event =
    EScan device_tree
  | EManager
  | EServe nat serve_env
  | EListen nat bool
  | EDeliver nat bool

definition kae_do :: "kae_world \<Rightarrow> kae_event \<Rightarrow> kae_world option result" where
  "kae_do w e =
     (case e of
        EScan tree \<Rightarrow> Inr (world_notify tree w)
      | EManager \<Rightarrow> manager_step w
      | EServe i env \<Rightarrow> serve_step i env w
      | EListen r link \<Rightarrow> listen_step r link w
      | EDeliver i link \<Rightarrow> deliver_step i link w)"

text \<open>The worlds reached by steps that satisfy a condition.\<close>

inductive kae_reach :: "(kae_world \<Rightarrow> kae_event \<Rightarrow> bool) \<Rightarrow> kae_world \<Rightarrow> bool"
  for P :: "kae_world \<Rightarrow> kae_event \<Rightarrow> bool" where
  reach_new: "kae_reach P NewManager"
| reach_step: "kae_reach P w \<Longrightarrow> P w e \<Longrightarrow> kae_do w e = Inr (Some w') \<Longrightarrow> kae_reach P w'"

inductive_cases kae_reach_cases: "kae_reach P w"

text \<open>A fixed list of events, for evaluation.\<close>

fun kae_run :: "kae_world \<Rightarrow> kae_event list \<Rightarrow> kae_world option result" where
  "kae_run w [] = Inr (Some w)"
| "kae_run w (e # es) =
     (case kae_do w e of
        Inl x \<Rightarrow> Inl x
      | Inr None \<Rightarrow> Inr None
      | Inr (Some w') \<Rightarrow> kae_run w' es)"

lemma kae_run_reach:
  "kae_run w es = Inr (Some w') \<Longrightarrow> kae_reach P w \<Longrightarrow> (\<And>v e. e \<in> set es \<Longrightarrow> P v e) \<Longrightarrow> kae_reach P w'"
proof (induction es arbitrary: w)
  case (Cons e es)
  then obtain v where v: "kae_do w e = Inr (Some v)" "kae_run v es = Inr (Some w')"
    by (auto split: sum.splits option.splits)
  have "kae_reach P v" using reach_step[OF Cons.prems(2) _ v(1)] Cons.prems(3) by simp
  with Cons v show ?case by simp
qed simp

end
