(* ===== verification/KaePluginOk.thy ===== *)
theory KaePluginOk
  imports KaePlugin
begin

text \<open>
  What the processes of the KAE device plugin keep: the notifier's difference turns the old tree into
  the new one, the servers of the manager follow the scans, and the kubelet is told the devices of
  every type as long as no send fails; and how one restart of the kubelet breaks this.
\<close>

section \<open>Deep equality\<close>

lemma map_of_wf: "wf_map m \<Longrightarrow> (k, v) \<in> set m \<Longrightarrow> map_of m k = Some v"
  by (simp add: wf_map_def)

lemma same_map_refl:
  assumes "wf_map m" and "\<And>k v. (k, v) \<in> set m \<Longrightarrow> eq v v"
  shows "same_map eq m m"
  using assms by (auto simp: same_map_def list_all_iff map_of_wf)

lemma same_mapD:
  assumes "same_map eq m n" "(k, v) \<in> set m"
  obtains w where "map_of n k = Some w" "eq v w"
  using assms by (fastforce simp: same_map_def list_all_iff split: option.splits)

lemma same_map_trans:
  assumes mn: "same_map eq m n" and np: "same_map eq n p"
    and tr: "\<And>u v w. eq u v \<Longrightarrow> eq v w \<Longrightarrow> eq u w"
  shows "same_map eq m p"
proof -
  have "\<exists>w. map_of p k = Some w \<and> eq u w" if k: "(k, u) \<in> set m" for k u
  proof -
    obtain v where v: "map_of n k = Some v" "eq u v" by (rule same_mapD[OF mn k])
    obtain w where "map_of p k = Some w" "eq v w" by (rule same_mapD[OF np map_of_SomeD[OF v(1)]])
    with v tr show ?thesis by blast
  qed
  then have "list_all (\<lambda>(k, v). case map_of p k of None \<Rightarrow> False | Some w \<Rightarrow> eq v w) m"
    by (fastforce simp: list_all_iff)
  with mn np show ?thesis by (simp add: same_map_def)
qed

lemma same_map_keys:
  assumes "same_map eq m n" "wf_map m"
  shows "fst ` set m = fst ` set n"
proof (rule card_seteq)
  show "fst ` set m \<subseteq> fst ` set n"
  proof
    fix k
    assume "k \<in> fst ` set m"
    then obtain v where "(k, v) \<in> set m" by auto
    then obtain w where "map_of n k = Some w" by (rule same_mapD[OF assms(1)])
    then show "k \<in> fst ` set n" by (auto dest: map_of_SomeD intro: image_eqI[where x = "(k, w)"])
  qed
  have "card (fst ` set m) = length m" using assms(2) distinct_card[of "map fst m"] by (simp add: wf_map_def)
  moreover have "card (fst ` set n) \<le> length n" using card_length[of "map fst n"] by simp
  ultimately show "card (fst ` set n) \<le> card (fst ` set m)" using assms(1) by (simp add: same_map_def)
qed simp

lemma same_map_eq_trans: "same_map (=) m n \<Longrightarrow> same_map (=) n p \<Longrightarrow> same_map (=) m p"
  by (rule same_map_trans) simp_all

lemma same_strs_trans: "same_strs a b \<Longrightarrow> same_strs b c \<Longrightarrow> same_strs a c"
  by (auto simp: same_strs_def intro: same_map_eq_trans split: option.splits)

lemma same_info_trans: "same_info a b \<Longrightarrow> same_info b c \<Longrightarrow> same_info a c"
  using same_strs_trans by (fastforce simp: same_info_def)

lemma same_devices_trans: "same_devices a b \<Longrightarrow> same_devices b c \<Longrightarrow> same_devices a c"
  unfolding same_devices_def by (erule (1) same_map_trans) (rule same_info_trans)

text \<open>Go maps have distinct keys, at every level of a tree.\<close>

definition wf_strs :: "str_map \<Rightarrow> bool" where
  "wf_strs m \<longleftrightarrow> (case m of None \<Rightarrow> True | Some m \<Rightarrow> wf_map m)"

definition wf_devices :: "dev_map \<Rightarrow> bool" where
  "wf_devices ds \<longleftrightarrow> wf_map ds \<and> list_all (\<lambda>(k, d). wf_strs (di_envs d) \<and> wf_strs (di_annotations d)) ds"

definition wf_tree :: "device_tree \<Rightarrow> bool" where
  "wf_tree tree \<longleftrightarrow> wf_map tree \<and> list_all (\<lambda>(t, ds). wf_devices ds) tree"

lemma same_strs_refl: "wf_strs a \<Longrightarrow> same_strs a a"
  by (auto simp: same_strs_def wf_strs_def intro: same_map_refl split: option.splits)

lemma same_devices_refl: "wf_devices ds \<Longrightarrow> same_devices ds ds"
  unfolding same_devices_def
  by (rule same_map_refl) (auto simp: wf_devices_def list_all_iff same_info_def intro: same_strs_refl)

lemma wf_tree_lookup: "wf_tree tree \<Longrightarrow> map_of tree t = Some ds \<Longrightarrow> wf_devices ds"
  by (auto simp: wf_tree_def list_all_iff dest: map_of_SomeD)

section \<open>The difference of two trees\<close>

lemma notify_loop_lookup:
  assumes "notify_loop old a u new = (a', u', r)" "wf_map new"
  shows "map_of a' t = (if map_of new t \<noteq> None \<and> map_of old t = None then map_of new t else map_of a t) \<and>
    map_of u' t =
      (case map_of new t of
         None \<Rightarrow> map_of u t
       | Some n \<Rightarrow> (case map_of old t of
                     None \<Rightarrow> map_of u t
                   | Some p \<Rightarrow> if same_devices p n then map_of u t else Some n)) \<and>
    map_of r t = (if map_of new t = None then map_of old t else None)"
  using assms
proof (induction old a u new arbitrary: a' u' r rule: notify_loop.induct)
  case (2 old added updated t0 new rest)
  have rest: "wf_map rest" "map_of rest t0 = None"
    using "2.prems"(2) by (auto simp: wf_map_def map_of_eq_None_iff)
  show ?case
  proof (cases "map_of old t0")
    case None
    then have "notify_loop old (AList.update t0 new added) updated rest = (a', u', r)" using "2.prems"(1) by simp
    from "2.IH"(1)[OF None this rest(1)] show ?thesis using None rest(2) by auto
  next
    case (Some p)
    let ?u = "if same_devices p new then updated else AList.update t0 new updated"
    have "notify_loop (AList.delete t0 old) added ?u rest = (a', u', r)" using "2.prems"(1) Some by simp
    from "2.IH"(2)[OF Some this rest(1)] show ?thesis using Some rest(2) by (auto split: option.splits)
  qed
qed auto

lemma notify_loop_wf:
  assumes "notify_loop old a u new = (a', u', r)" "wf_map old" "wf_map a" "wf_map u"
  shows "wf_map a' \<and> wf_map u' \<and> wf_map r"
  using assms by (induction old a u new rule: notify_loop.induct) (auto split: option.splits if_splits)


text \<open>What a server was told last, and what a world has told for each type.\<close>

definition told :: "kae_server \<Rightarrow> dev_map" where
  "told s = (if sv_chan s = [] then sv_devices s else last (sv_chan s))"

definition shown :: "kae_world \<Rightarrow> string \<Rightarrow> dev_map option" where
  "shown w t = (case map_of (kw_servers w) t of None \<Rightarrow> None | Some r \<Rightarrow> Some (told (kw_objs w ! r)))"

fun op_effect :: "manager_op \<Rightarrow> (string \<Rightarrow> dev_map option) \<Rightarrow> string \<Rightarrow> dev_map option" where
  "op_effect (OpAdd t d) v = v(t \<mapsto> d)"
| "op_effect (OpUpdate t d) v = v(t \<mapsto> d)"
| "op_effect (OpRemove t) v = v(t := None)"

text \<open>Updates and removals are for types that have a server at that point.\<close>

fun ops_ok :: "(string \<Rightarrow> dev_map option) \<Rightarrow> manager_op list \<Rightarrow> bool" where
  "ops_ok v [] = True"
| "ops_ok v (p # ps) =
     ((case p of OpAdd t d \<Rightarrow> True | OpUpdate t d \<Rightarrow> v t \<noteq> None | OpRemove t \<Rightarrow> v t \<noteq> None) \<and> ops_ok (op_effect p v) ps)"

lemma fold_sets:
  "wf_map m \<Longrightarrow> fold op_effect (map (\<lambda>(t, d). OpAdd t d) m) v = v ++ map_of m"
  "wf_map m \<Longrightarrow> fold op_effect (map (\<lambda>(t, d). OpUpdate t d) m) v = v ++ map_of m"
  by (induction m arbitrary: v) (auto simp: wf_map_def map_add_upd_left dom_map_of_conv_image_fst)

lemma fold_removes:
  "fold op_effect (map (\<lambda>(t, d). OpRemove t) m) v = (\<lambda>t. if map_of m t = None then v t else None)"
  by (induction m arbitrary: v) (auto simp: fun_eq_iff)

lemma fold_update_ops:
  assumes "wf_map (ui_added u)" "wf_map (ui_updated u)"
  shows "fold op_effect (update_ops u) v t =
    (if map_of (ui_removed u) t \<noteq> None then None else (v ++ map_of (ui_added u) ++ map_of (ui_updated u)) t)"
  using assms by (simp add: update_ops_def fold_sets fold_removes)

lemma ops_ok_append: "ops_ok v (ps @ qs) \<longleftrightarrow> ops_ok v ps \<and> ops_ok (fold op_effect ps v) qs"
  by (induction ps arbitrary: v) auto

lemma ops_ok_adds: "ops_ok v (map (\<lambda>(t, d). OpAdd t d) m)"
  by (induction m arbitrary: v) auto

lemma ops_ok_updates: "(\<And>t d. (t, d) \<in> set m \<Longrightarrow> v t \<noteq> None) \<Longrightarrow> ops_ok v (map (\<lambda>(t, d). OpUpdate t d) m)"
proof (induction m arbitrary: v)
  case (Cons p m)
  obtain t d where p: "p = (t, d)" by (cases p)
  have "v t \<noteq> None" using Cons.prems[of t d] by (simp add: p)
  moreover have "ops_ok (v(t \<mapsto> d)) (map (\<lambda>(t, d). OpUpdate t d) m)"
    by (rule Cons.IH) (use Cons.prems in \<open>auto simp: p\<close>)
  ultimately show ?case by (simp add: p)
qed simp

lemma ops_ok_removes:
  "wf_map m \<Longrightarrow> (\<And>t d. (t, d) \<in> set m \<Longrightarrow> v t \<noteq> None) \<Longrightarrow> ops_ok v (map (\<lambda>(t, d). OpRemove t) m)"
proof (induction m arbitrary: v)
  case (Cons p m)
  obtain t d where p: "p = (t, d)" by (cases p)
  have "v t \<noteq> None" using Cons.prems(2)[of t d] by (simp add: p)
  moreover have "ops_ok (v(t := None)) (map (\<lambda>(t, d). OpRemove t) m)"
  proof (rule Cons.IH)
    show "wf_map m" using Cons.prems(1) by (simp add: wf_map_def)
    show "(v(t := None)) t' \<noteq> None" if "(t', d') \<in> set m" for t' d'
    proof -
      have "t' \<noteq> t" using Cons.prems(1) that by (auto simp: p wf_map_def image_iff)
      with Cons.prems(2)[of t' d'] that show ?thesis by simp
    qed
  qed
  ultimately show ?case by (simp add: p)
qed simp

lemma map_add_keeps: "v t \<noteq> None \<Longrightarrow> (v ++ m) t \<noteq> None"
  by (simp add: map_add_def split: option.splits)

text \<open>A world agrees with a tree when it has the same types, each told the same devices.\<close>

definition agree :: "dev_map option \<Rightarrow> dev_map option \<Rightarrow> bool" where
  "agree a b = rel_option (\<lambda>d e. same_devices d e \<and> wf_devices d) a b"

lemma Notify_None:
  assumes "Notify old new = None" "wf_tree old" "wf_tree new" "\<And>t. agree (v t) (map_of old t)"
  shows "agree (v t) (map_of new t)"
proof -
  have loop: "notify_loop old [] [] new = ([], [], [])"
    using assms(1) by (auto simp: Notify_def split: prod.splits if_splits)
  have wf: "wf_map new" using assms(3) by (simp add: wf_tree_def)
  have "rel_option same_devices (map_of old t) (map_of new t)"
    using notify_loop_lookup[OF loop wf, of t]
    by (cases "map_of old t"; cases "map_of new t") (auto split: if_splits)
  with assms(4)[of t] show ?thesis
    by (cases "v t"; cases "map_of old t"; cases "map_of new t") (auto simp: agree_def intro: same_devices_trans)
qed

lemma Notify_Some:
  assumes "Notify old new = Some u" "wf_tree old" "wf_tree new" "\<And>t. agree (v t) (map_of old t)"
  shows "agree (fold op_effect (update_ops u) v t) (map_of new t)" and "ops_ok v (update_ops u)"
proof -
  obtain a up r where loop: "notify_loop old [] [] new = (a, up, r)" and u: "u = \<lparr>ui_added = a, ui_updated = up, ui_removed = r\<rparr>"
    using assms(1) by (auto simp: Notify_def split: prod.splits if_splits)
  have wf: "wf_map old" "wf_map new" using assms(2,3) by (simp_all add: wf_tree_def)
  then have wfs: "wf_map a" "wf_map up" "wf_map r" using notify_loop_wf[OF loop] by simp_all
  note look = notify_loop_lookup[OF loop wf(2)]
  have vt: "v t = None \<longleftrightarrow> map_of old t = None" for t using assms(4)[of t] by (auto simp: agree_def option_rel_Some1 option_rel_Some2)
  have refl: "agree (Some n) (Some n)" if "map_of new t = Some n" for t n
    using wf_tree_lookup[OF assms(3) that] by (simp add: agree_def same_devices_refl)
  show "agree (fold op_effect (update_ops u) v t) (map_of new t)"
  proof (cases "map_of new t")
    case None
    then show ?thesis using look[of t] vt[of t] by (auto simp: fold_update_ops u wfs agree_def map_add_def)
  next
    case (Some n)
    then show ?thesis
      using look[of t] vt[of t] assms(4)[of t] refl[OF Some]
      by (cases "map_of old t") (auto simp: fold_update_ops u wfs map_add_def agree_def option_rel_Some2 intro: same_devices_trans)
  qed
  have ups: "v t \<noteq> None" if "(t, d) \<in> set up" for t d
    using look[of t] map_of_wf[OF wfs(2) that] vt[of t] by (auto split: option.splits)
  have rms: "v t \<noteq> None \<and> map_of up t = None \<and> map_of a t = None" if "(t, d) \<in> set r" for t d
    using look[of t] map_of_wf[OF wfs(3) that] vt[of t] by (auto split: option.splits if_splits)
  show "ops_ok v (update_ops u)"
    using wfs
    by (simp add: update_ops_def u ops_ok_append fold_sets ops_ok_adds)
      (intro conjI ops_ok_updates ops_ok_removes map_add_keeps; use wfs ups rms in blast)
qed

section \<open>The invariant of the processes\<close>

definition plugin_inv :: "kae_world \<Rightarrow> bool" where
  "plugin_inv w \<longleftrightarrow>
     wf_tree (kw_tree w) \<and>
     (\<forall>t r. map_of (kw_servers w) t = Some r \<longrightarrow> r < length (kw_objs w) \<and> sv_type (kw_objs w ! r) = t) \<and>
     (\<forall>t. agree (fold op_effect (kw_ops w) (shown w) t) (map_of (kw_tree w) t)) \<and>
     ops_ok (shown w) (kw_ops w)"

text \<open>Two worlds look alike when a step has changed neither the tree, the pending operations and the
  servers nor what the objects were told.\<close>

definition alike :: "kae_world \<Rightarrow> kae_world \<Rightarrow> bool" where
  "alike w w' \<longleftrightarrow> kw_tree w' = kw_tree w \<and> kw_ops w' = kw_ops w \<and> kw_servers w' = kw_servers w \<and>
     length (kw_objs w') = length (kw_objs w) \<and>
     (\<forall>r < length (kw_objs w). told (kw_objs w' ! r) = told (kw_objs w ! r) \<and> sv_type (kw_objs w' ! r) = sv_type (kw_objs w ! r))"

lemma alike_inv: "alike w w' \<Longrightarrow> plugin_inv w \<Longrightarrow> plugin_inv w'"
proof -
  assume a: "alike w w'" and i: "plugin_inv w"
  have "shown w' = shown w"
    using a i by (auto simp: shown_def alike_def plugin_inv_def fun_eq_iff split: option.splits)
  with a i show "plugin_inv w'" by (auto simp: plugin_inv_def alike_def)
qed

lemma alike_refl [simp]: "alike w w"
  by (simp add: alike_def)

lemma alike_set_obj:
  "told s = told (kw_objs w ! r) \<Longrightarrow> sv_type s = sv_type (kw_objs w ! r) \<Longrightarrow> alike w (set_obj r s w)"
  unfolding alike_def set_obj_def by (simp, intro allI) (metis nth_list_update_eq nth_list_update_neq)

lemma alike_rest [simp]:
  "alike w (w'\<lparr>kw_gors := gs\<rparr>) = alike w w'" "alike w (w'\<lparr>kw_streams := ss\<rparr>) = alike w w'"
  "alike w (w'\<lparr>kw_view := v\<rparr>) = alike w w'"
  by (simp_all add: alike_def)

lemma told_updates [simp]:
  "told (s\<lparr>sv_state := x\<rparr>) = told s" "told (s\<lparr>sv_alive := b\<rparr>) = told s" "told (s\<lparr>sv_closed := b\<rparr>) = told s"
  "told (s\<lparr>sv_grpc := g\<rparr>) = told s"
  by (simp_all add: told_def)

lemma srv_Stop_told: "srv_Stop s = Inr (s', b) \<Longrightarrow> told s' = told s \<and> sv_type s' = sv_type s"
  by (auto simp: srv_Stop_def split: if_splits)

lemma send_on_alike:
  "send_on link r g w = Inr (w', b) \<Longrightarrow> alike w w'"
  by (auto simp: send_on_def sendDevices_def intro!: alike_set_obj dest!: srv_Stop_told
      split: sum.splits if_splits option.splits)

lemma alike_trans: "alike u v \<Longrightarrow> alike v w \<Longrightarrow> alike u w"
  by (auto simp: alike_def)

lemma serve_step_alike: "serve_step i env w = Inr (Some w') \<Longrightarrow> alike w w'"
  by (auto simp: serve_step_def Let_def intro!: alike_set_obj split: if_splits serve_pc.splits option.splits)

lemma listen_step_alike: "listen_step r link w = Inr (Some w') \<Longrightarrow> alike w w'"
  by (auto simp: listen_step_def dest: send_on_alike split: if_splits option.splits sum.splits prod.splits bool.splits)

lemma deliver_step_alike:
  assumes "deliver_step i link w = Inr (Some w')"
  shows "alike w w'"
proof -
  obtain r g where rg: "kw_streams w ! i = (r, g)" by (cases "kw_streams w ! i")
  show ?thesis
  proof (cases "sv_chan (kw_objs w ! r)")
    case Nil
    with assms rg show ?thesis by (auto simp: deliver_step_def split: if_splits)
  next
    case (Cons d ds)
    let ?v = "set_obj r ((kw_objs w ! r)\<lparr>sv_devices := d, sv_chan := ds\<rparr>) w"
    have "alike w ?v" by (rule alike_set_obj) (simp_all add: told_def Cons)
    moreover from assms rg Cons obtain v b where "send_on link r g ?v = Inr (v, b)" "alike v w'"
      by (auto simp: deliver_step_def split: if_splits sum.splits prod.splits bool.splits)
    ultimately show ?thesis by (meson alike_trans send_on_alike)
  qed
qed

text \<open>One entry of an update: the world moves on by its effect.\<close>

lemma handle_op_effect:
  assumes "handle_op p w = Inr (Some w')" "plugin_inv w"
  shows "shown w' = op_effect p (shown w) \<and> kw_tree w' = kw_tree w \<and>
    (\<forall>t r. map_of (kw_servers w') t = Some r \<longrightarrow> r < length (kw_objs w') \<and> sv_type (kw_objs w' ! r) = t)"
proof -
  have tyr: "r < length (kw_objs w) \<and> sv_type (kw_objs w ! r) = t" if "map_of (kw_servers w) t = Some r" for t r
    using assms(2) that by (simp add: plugin_inv_def)
  show ?thesis
  proof (cases p)
    case (OpAdd t d)
    then have "w' = w\<lparr>kw_servers := AList.update t (length (kw_objs w)) (kw_servers w),
        kw_objs := kw_objs w @ [(newServer t)\<lparr>sv_chan := [d]\<rparr>], kw_gors := kw_gors w @ [GStart t]\<rparr>"
      using assms(1) by (simp add: handle_op_def manager_add_def srv_Update_def newServer_def)
    then show ?thesis using OpAdd
      by (auto simp: shown_def told_def newServer_def nth_append fun_eq_iff dest: tyr split: option.splits)
  next
    case (OpUpdate t d)
    then obtain r where r: "map_of (kw_servers w) t = Some r"
      and w': "w' = set_obj r ((kw_objs w ! r)\<lparr>sv_chan := [d]\<rparr>) w"
      using assms(1) by (auto simp: handle_op_def manager_update_def srv_Update_def split: option.splits if_splits)
    have "r' \<noteq> r" if "map_of (kw_servers w) t' = Some r'" "t' \<noteq> t" for t' r' using tyr[OF that(1)] tyr[OF r] that(2) by blast
    then show ?thesis using OpUpdate r tyr
      by (auto simp: w' shown_def told_def set_obj_def fun_eq_iff nth_list_update split: option.splits)
  next
    case (OpRemove t)
    then obtain r s b where r: "map_of (kw_servers w) t = Some r" and s: "srv_Stop (kw_objs w ! r) = Inr (s, b)"
      and w': "w' = (set_obj r s w)\<lparr>kw_servers := AList.delete t (kw_servers w)\<rparr>"
      using assms(1) by (auto simp: handle_op_def manager_remove_def split: option.splits sum.splits)
    from srv_Stop_told[OF s] show ?thesis using OpRemove r tyr
      by (auto simp: w' shown_def set_obj_def fun_eq_iff nth_list_update split: option.splits)
  qed
qed

lemma manager_step_inv:
  assumes "manager_step w = Inr (Some w')" "plugin_inv w"
  shows "plugin_inv w'"
proof -
  obtain p ps v where p: "kw_ops w = p # ps" and v: "handle_op p w = Inr (Some v)" and w': "w' = v\<lparr>kw_ops := ps\<rparr>"
    using assms(1) by (auto simp: manager_step_def split: list.splits sum.splits option.splits)
  have sh: "shown w' = shown v" by (auto simp: w' shown_def fun_eq_iff split: option.splits)
  from handle_op_effect[OF v assms(2)] show ?thesis
    using assms(2) by (simp add: plugin_inv_def sh) (simp add: w' p)
qed

lemma notify_inv:
  assumes "world_notify tree w = Some w'" "plugin_inv w" "wf_tree tree"
  shows "plugin_inv w'"
proof -
  have wf: "wf_tree (kw_tree w)" and ag: "agree (fold op_effect (kw_ops w) (shown w) t) (map_of (kw_tree w) t)" for t
    using assms(2) by (simp_all add: plugin_inv_def)
  have sh: "shown w' = shown w" and srv: "kw_servers w' = kw_servers w" "kw_objs w' = kw_objs w" and tr: "kw_tree w' = tree"
    using assms(1) by (auto simp: world_notify_def shown_def fun_eq_iff split: option.splits if_splits)
  show ?thesis
  proof (cases "Notify (kw_tree w) tree")
    case None
    with assms have "kw_ops w' = kw_ops w" by (auto simp: world_notify_def)
    then show ?thesis using assms(2,3) Notify_None[OF None wf assms(3) ag]
      by (simp add: plugin_inv_def sh srv tr)
  next
    case (Some u)
    with assms have ops: "kw_ops w = []" "kw_ops w' = update_ops u"
      by (auto simp: world_notify_def split: if_splits)
    then have ag': "agree (shown w t) (map_of (kw_tree w) t)" for t using ag[of t] by simp
    show ?thesis using assms(2,3) Notify_Some[OF Some wf assms(3) ag']
      by (simp add: plugin_inv_def sh srv tr ops)
  qed
qed

definition scans_wf :: "kae_world \<Rightarrow> kae_event \<Rightarrow> bool" where
  "scans_wf w e \<longleftrightarrow> (case e of EScan tree \<Rightarrow> wf_tree tree | _ \<Rightarrow> True)"

lemma kae_do_inv:
  "kae_do w e = Inr (Some w') \<Longrightarrow> plugin_inv w \<Longrightarrow> scans_wf w e \<Longrightarrow> plugin_inv w'"
  by (cases e) (auto simp: kae_do_def scans_wf_def
      intro: notify_inv manager_step_inv alike_inv[OF serve_step_alike] alike_inv[OF listen_step_alike] alike_inv[OF deliver_step_alike])

lemma plugin_inv_new: "plugin_inv NewManager"
  by (simp add: plugin_inv_def NewManager_def wf_tree_def shown_def agree_def)

lemma kae_reach_inv: "kae_reach P w \<Longrightarrow> (\<And>v e. P v e \<Longrightarrow> scans_wf v e) \<Longrightarrow> plugin_inv w"
  by (induction rule: kae_reach.induct) (auto intro: plugin_inv_new kae_do_inv)


lemma manager_follows_scans_parts:
  assumes "kae_reach scans_wf w" "kw_ops w = []"
  shows "map_of (kw_servers w) t = None \<longleftrightarrow> map_of (kw_tree w) t = None"
    and "map_of (kw_servers w) t = Some r \<Longrightarrow> sv_type (kw_objs w ! r) = t \<and>
      (\<exists>ds. map_of (kw_tree w) t = Some ds \<and> same_devices (told (kw_objs w ! r)) ds)"
proof -
  have inv: "plugin_inv w" by (rule kae_reach_inv[OF assms(1)])
  then have ag: "agree (shown w t) (map_of (kw_tree w) t)" using assms(2) by (simp add: plugin_inv_def)
  then show "map_of (kw_servers w) t = None \<longleftrightarrow> map_of (kw_tree w) t = None"
    by (auto simp: agree_def shown_def option_rel_Some1 split: option.splits)
  assume r: "map_of (kw_servers w) t = Some r"
  then show "sv_type (kw_objs w ! r) = t \<and>
      (\<exists>ds. map_of (kw_tree w) t = Some ds \<and> same_devices (told (kw_objs w ! r)) ds)"
    using inv ag by (auto simp: plugin_inv_def agree_def shown_def option_rel_Some1)
qed

text \<open>C24. Whatever the interleaving of the plugin's goroutines, whenever the manager has worked off its
  updates it has a server for exactly the device types of the last scan, each under its own name, and
  has told it devices that are deeply equal to the scanned ones.\<close>

theorem manager_follows_scans:
  assumes "kae_reach scans_wf w" "kw_ops w = []"
  shows "(map_of (kw_servers w) t = None \<longleftrightarrow> map_of (kw_tree w) t = None) \<and>
    (\<forall>r. map_of (kw_servers w) t = Some r \<longrightarrow> sv_type (kw_objs w ! r) = t \<and>
      (\<exists>ds. map_of (kw_tree w) t = Some ds \<and> same_devices (told (kw_objs w ! r)) ds))"
  using manager_follows_scans_parts[OF assms] by simp


section \<open>Without failing sends\<close>

definition sends_ok :: "kae_world \<Rightarrow> kae_event \<Rightarrow> bool" where
  "sends_ok w e \<longleftrightarrow>
     (case e of
        EListen r link \<Rightarrow> link
      | EDeliver i link \<Rightarrow>
          (case kw_streams w ! i of (r, g) \<Rightarrow> sv_chan (kw_objs w ! r) \<noteq> [] \<longrightarrow> send_works link g (kw_objs w ! r))
      | _ \<Rightarrow> True)"

definition calm_inv :: "kae_world \<Rightarrow> bool" where
  "calm_inv w \<longleftrightarrow>
     (\<forall>t r. map_of (kw_servers w) t = Some r \<longrightarrow> \<not> sv_closed (kw_objs w ! r)) \<and>
     (\<forall>(r, g) \<in> set (kw_streams w). r < length (kw_objs w) \<and>
        map_of (kw_view w) r = Some (device_report (sv_devices (kw_objs w ! r))))"

lemma nth_update_keeps: "f s = f (xs ! r) \<Longrightarrow> f (xs[r := s] ! q) = f (xs ! q)"
  by (metis linorder_not_less list_update_beyond nth_list_update_eq nth_list_update_neq)

lemma calm_new: "calm_inv NewManager"
  by (simp add: calm_inv_def NewManager_def)

text \<open>A change of one object that keeps its devices and does not close its channel.\<close>

lemma calm_set_obj:
  assumes "calm_inv w" "sv_devices s = sv_devices (kw_objs w ! r)" "sv_closed s = sv_closed (kw_objs w ! r)"
  shows "calm_inv (set_obj r s w)"
proof -
  have "sv_devices ((kw_objs w)[r := s] ! q) = sv_devices (kw_objs w ! q) \<and>
    sv_closed ((kw_objs w)[r := s] ! q) = sv_closed (kw_objs w ! q)" for q
    using nth_update_keeps[of sv_devices, OF assms(2)] nth_update_keeps[of sv_closed, OF assms(3)] by simp
  with assms(1) show ?thesis by (simp add: calm_inv_def set_obj_def)
qed

lemma calm_rest [simp]:
  "calm_inv (w\<lparr>kw_gors := gs\<rparr>) = calm_inv w" "calm_inv (w\<lparr>kw_ops := ps\<rparr>) = calm_inv w"
  "calm_inv (w\<lparr>kw_tree := t\<rparr>) = calm_inv w"
  by (simp_all add: calm_inv_def)

lemma calm_notify: "world_notify tree w = Some w' \<Longrightarrow> calm_inv w \<Longrightarrow> calm_inv w'"
  by (auto simp: world_notify_def split: option.splits if_splits)

lemma calm_serve: "serve_step i env w = Inr (Some w') \<Longrightarrow> calm_inv w \<Longrightarrow> calm_inv w'"
  by (auto simp: serve_step_def Let_def intro!: calm_set_obj split: if_splits serve_pc.splits option.splits)

lemma calm_handle_op:
  assumes "handle_op p w = Inr (Some w')" "plugin_inv w" "calm_inv w"
  shows "calm_inv w'"
proof -
  have tyr: "r < length (kw_objs w) \<and> sv_type (kw_objs w ! r) = t" if "map_of (kw_servers w) t = Some r" for t r
    using assms(2) that by (simp add: plugin_inv_def)
  show ?thesis
  proof (cases p)
    case (OpAdd t d)
    then have "w' = w\<lparr>kw_servers := AList.update t (length (kw_objs w)) (kw_servers w),
        kw_objs := kw_objs w @ [(newServer t)\<lparr>sv_chan := [d]\<rparr>], kw_gors := kw_gors w @ [GStart t]\<rparr>"
      using assms(1) by (simp add: handle_op_def manager_add_def srv_Update_def newServer_def)
    then show ?thesis using assms(3) by (auto simp: calm_inv_def nth_append newServer_def dest: tyr)
  next
    case (OpUpdate t d)
    then obtain r where "w' = set_obj r ((kw_objs w ! r)\<lparr>sv_chan := [d]\<rparr>) w"
      using assms(1) by (auto simp: handle_op_def manager_update_def srv_Update_def split: option.splits if_splits)
    then show ?thesis using assms(3) by (simp add: calm_set_obj)
  next
    case (OpRemove t)
    then obtain r s b where r: "map_of (kw_servers w) t = Some r" and s: "srv_Stop (kw_objs w ! r) = Inr (s, b)"
      and w': "w' = (set_obj r s w)\<lparr>kw_servers := AList.delete t (kw_servers w)\<rparr>"
      using assms(1) by (auto simp: handle_op_def manager_remove_def split: option.splits sum.splits)
    have ne: "(kw_objs w)[r := s] ! r' = kw_objs w ! r'" if "map_of (kw_servers w) t' = Some r'" "t' \<noteq> t" for t' r'
      using tyr[OF that(1)] tyr[OF r] that(2) by (metis nth_list_update_neq)
    have dev: "sv_devices s = sv_devices (kw_objs w ! r)" using s by (auto simp: srv_Stop_def split: if_splits)
    have "sv_devices ((kw_objs w)[r := s] ! q) = sv_devices (kw_objs w ! q)" for q
      using nth_update_keeps[of sv_devices, OF dev] .
    then show ?thesis using assms(3) ne by (auto simp: w' calm_inv_def set_obj_def)
  qed
qed

lemma calm_manager: "manager_step w = Inr (Some w') \<Longrightarrow> plugin_inv w \<Longrightarrow> calm_inv w \<Longrightarrow> calm_inv w'"
  by (auto simp: manager_step_def dest: calm_handle_op split: list.splits sum.splits option.splits)

lemma send_on_works:
  "send_works link g (kw_objs w ! r) \<Longrightarrow>
     send_on link r g w =
       Inr ((set_obj r (kw_objs w ! r) w)\<lparr>kw_view := AList.update r (device_report (sv_devices (kw_objs w ! r))) (kw_view w)\<rparr>, True)"
  by (simp add: send_on_def sendDevices_def)

lemma set_obj_same [simp]: "set_obj r (kw_objs w ! r) w = w"
  by (simp add: set_obj_def)

lemma calm_listen:
  assumes "listen_step r True w = Inr (Some w')" "calm_inv w"
  shows "calm_inv w'"
proof -
  obtain g where r: "r < length (kw_objs w)" "sv_alive (kw_objs w ! r)" "sv_grpc (kw_objs w ! r) = Some g"
    using assms(1) by (auto simp: listen_step_def split: if_splits option.splits)
  have sw: "send_works True g (kw_objs w ! r)" using r by (simp add: send_works_def)
  have "w' = w\<lparr>kw_view := AList.update r (device_report (sv_devices (kw_objs w ! r))) (kw_view w),
      kw_streams := kw_streams w @ [(r, g)]\<rparr>"
    using assms(1) r by (simp add: listen_step_def send_on_works[OF sw])
  with assms(2) r show ?thesis by (auto simp: calm_inv_def)
qed

lemma set_drop_at: "set (drop_at i xs) \<subseteq> set xs"
  by (auto simp: drop_at_def dest: in_set_takeD in_set_dropD)

lemma calm_deliver:
  assumes "deliver_step i link w = Inr (Some w')" "calm_inv w" "sends_ok w (EDeliver i link)"
  shows "calm_inv w'"
proof -
  have i: "i < length (kw_streams w)" using assms(1) by (auto simp: deliver_step_def split: if_splits)
  obtain r g where rg: "kw_streams w ! i = (r, g)" by (cases "kw_streams w ! i")
  then have "(r, g) \<in> set (kw_streams w)" using i by (metis nth_mem)
  then have r: "r < length (kw_objs w)" using assms(2) by (auto simp: calm_inv_def)
  show ?thesis
  proof (cases "sv_chan (kw_objs w ! r)")
    case Nil
    then have "w' = w\<lparr>kw_streams := drop_at i (kw_streams w)\<rparr>"
      using assms(1) i rg by (auto simp: deliver_step_def split: if_splits)
    then show ?thesis using assms(2) set_drop_at[of i "kw_streams w"] by (auto simp: calm_inv_def)
  next
    case (Cons d ds)
    let ?s = "(kw_objs w ! r)\<lparr>sv_devices := d, sv_chan := ds\<rparr>"
    have "send_works link g (kw_objs w ! r)" using assms(3) rg Cons by (simp add: sends_ok_def)
    then have sw: "send_works link g (kw_objs (set_obj r ?s w) ! r)" using r by (simp add: send_works_def set_obj_def)
    have w': "w' = (set_obj r ?s w)\<lparr>kw_view := AList.update r (device_report d) (kw_view w)\<rparr>"
      using assms(1) i r rg Cons by (simp add: deliver_step_def send_on_works[OF sw]) (simp add: set_obj_def)
    show ?thesis using assms(2) r by (auto simp: w' calm_inv_def set_obj_def nth_list_update)
  qed
qed

lemma calm_do:
  assumes "kae_do w e = Inr (Some w')" "plugin_inv w" "calm_inv w" "sends_ok w e"
  shows "calm_inv w'"
proof (cases e)
  case (EListen r link)
  with assms show ?thesis using calm_listen[of r w w'] by (simp add: kae_do_def sends_ok_def)
next
  case (EDeliver i link)
  with assms show ?thesis using calm_deliver by (simp add: kae_do_def)
qed (use assms in \<open>auto simp: kae_do_def intro: calm_notify calm_manager calm_serve\<close>)

lemma calm_reach: "kae_reach (\<lambda>w e. scans_wf w e \<and> sends_ok w e) w \<Longrightarrow> calm_inv w"
proof (induction rule: kae_reach.induct)
  case (reach_step w e w')
  then show ?case using kae_reach_inv[OF reach_step.hyps(1)] calm_do by blast
qed (rule calm_new)

lemma calm_manager_no_panic:
  assumes "plugin_inv w" "calm_inv w"
  shows "manager_step w \<noteq> Inl x"
proof (cases "kw_ops w")
  case (Cons p ps)
  have srv: "\<exists>r. map_of (kw_servers w) t = Some r \<and> \<not> sv_closed (kw_objs w ! r)" if "shown w t \<noteq> None" for t
    using that assms(2) by (auto simp: shown_def calm_inv_def split: option.splits)
  have p: "case p of OpAdd t d \<Rightarrow> True | OpUpdate t d \<Rightarrow> shown w t \<noteq> None | OpRemove t \<Rightarrow> shown w t \<noteq> None"
    using assms(1) Cons by (simp add: plugin_inv_def)
  have "handle_op p w \<noteq> Inl x"
  proof (cases p)
    case (OpAdd t d)
    then show ?thesis by (simp add: handle_op_def manager_add_def srv_Update_def newServer_def)
  next
    case (OpUpdate t d)
    then obtain r where "map_of (kw_servers w) t = Some r" "\<not> sv_closed (kw_objs w ! r)" using p srv[of t] by auto
    then show ?thesis using OpUpdate by (simp add: handle_op_def manager_update_def srv_Update_def)
  next
    case (OpRemove t)
    then obtain r where "map_of (kw_servers w) t = Some r" "\<not> sv_closed (kw_objs w ! r)" using p srv[of t] by auto
    then show ?thesis using OpRemove by (simp add: handle_op_def manager_remove_def srv_Stop_def)
  qed
  then show ?thesis using Cons by (auto simp: manager_step_def split: sum.splits option.splits)
qed (simp add: manager_step_def)

lemma same_report:
  assumes "same_devices m n" "wf_map m"
  shows "set (device_report m) = set (device_report n)"
proof -
  have sub: "set (device_report m) \<subseteq> set (device_report n)"
  proof
    fix p
    assume "p \<in> set (device_report m)"
    then obtain k d where kd: "(k, d) \<in> set m" "p = (k, di_health d)" by (auto simp: device_report_def)
    from same_mapD[OF assms(1)[unfolded same_devices_def] kd(1)]
    obtain e where e: "map_of n k = Some e" "same_info d e" by blast
    then have "(k, e) \<in> set n" "di_health e = di_health d" by (auto simp: same_info_def dest: map_of_SomeD)
    with kd(2) show "p \<in> set (device_report n)" by (force simp: device_report_def)
  qed
  have fst_rep: "map fst (device_report ds) = map fst ds" for ds by (simp add: device_report_def case_prod_beta comp_def)
  have "card (set (device_report n)) \<le> length n" using card_length[of "device_report n"] by (simp add: device_report_def)
  moreover have "distinct (device_report m)"
    using assms(2) fst_rep[of m] by (metis distinct_map wf_map_def)
  then have "card (set (device_report m)) = length m" using distinct_card by (fastforce simp: device_report_def)
  ultimately show ?thesis using sub assms(1) by (intro card_seteq) (auto simp: same_devices_def same_map_def)
qed

lemma kubelet_informed_parts:
  assumes "kae_reach (\<lambda>w e. scans_wf w e \<and> sends_ok w e) w"
  shows "manager_step w \<noteq> Inl x"
    and "kw_ops w = [] \<Longrightarrow> map_of (kw_servers w) t = Some r \<Longrightarrow> (r, g) \<in> set (kw_streams w) \<Longrightarrow>
      sv_chan (kw_objs w ! r) = [] \<Longrightarrow>
      \<exists>ds rep. map_of (kw_tree w) t = Some ds \<and> map_of (kw_view w) r = Some rep \<and> set rep = set (device_report ds)"
proof -
  have inv: "plugin_inv w" by (rule kae_reach_inv[OF assms]) simp
  have calm: "calm_inv w" by (rule calm_reach[OF assms])
  show "manager_step w \<noteq> Inl x" by (rule calm_manager_no_panic[OF inv calm])
  assume a: "kw_ops w = []" "map_of (kw_servers w) t = Some r" "(r, g) \<in> set (kw_streams w)" "sv_chan (kw_objs w ! r) = []"
  have "agree (shown w t) (map_of (kw_tree w) t)" using inv a(1) by (simp add: plugin_inv_def)
  then obtain ds where ds: "map_of (kw_tree w) t = Some ds" "same_devices (sv_devices (kw_objs w ! r)) ds" "wf_map (sv_devices (kw_objs w ! r))"
    using a(2,4) by (auto simp: agree_def shown_def told_def wf_devices_def option_rel_Some1)
  moreover have "map_of (kw_view w) r = Some (device_report (sv_devices (kw_objs w ! r)))"
    using calm a(3) by (auto simp: calm_inv_def)
  ultimately show "\<exists>ds rep. map_of (kw_tree w) t = Some ds \<and> map_of (kw_view w) r = Some rep \<and> set rep = set (device_report ds)"
    using same_report by blast
qed

text \<open>C25. As long as every send on a stream of the kubelet succeeds, the manager never panics, and once
  it has worked off its updates and a server's channel is empty, the kubelet has been told exactly the
  devices, with their health, that the last scan found for that server's type.\<close>

theorem kubelet_informed:
  assumes "kae_reach (\<lambda>w e. scans_wf w e \<and> sends_ok w e) w"
  shows "(\<forall>x. manager_step w \<noteq> Inl x) \<and>
    (\<forall>t r g. kw_ops w = [] \<longrightarrow> map_of (kw_servers w) t = Some r \<longrightarrow> (r, g) \<in> set (kw_streams w) \<longrightarrow>
      sv_chan (kw_objs w ! r) = [] \<longrightarrow>
      (\<exists>ds rep. map_of (kw_tree w) t = Some ds \<and> map_of (kw_view w) r = Some rep \<and> set rep = set (device_report ds)))"
  using kubelet_informed_parts[OF assms] by simp



section \<open>Executions of the plugin\<close>

text \<open>Runs a list of events and checks a condition before each.\<close>

fun kae_checked :: "(kae_world \<Rightarrow> kae_event \<Rightarrow> bool) \<Rightarrow> kae_world \<Rightarrow> kae_event list \<Rightarrow> kae_world option" where
  "kae_checked P w [] = Some w"
| "kae_checked P w (e # es) =
     (if P w e then (case kae_do w e of Inr (Some w') \<Rightarrow> kae_checked P w' es | _ \<Rightarrow> None) else None)"

lemma kae_checked_reach: "kae_checked P w es = Some w' \<Longrightarrow> kae_reach P w \<Longrightarrow> kae_reach P w'"
proof (induction es arbitrary: w)
  case (Cons e es)
  then obtain v where v: "P w e" "kae_do w e = Inr (Some v)" "kae_checked P v es = Some w'"
    by (auto split: if_splits sum.splits option.splits)
  with Cons reach_step show ?case by blast
qed simp

definition demo_vf :: "string \<Rightarrow> int \<Rightarrow> device_info" where
  "demo_vf bdf n = NewDeviceInfo Healthy [] [] (Some [(env_name ''hisi_zip'' n, bdf)]) None"

definition demo_tree :: "nat \<Rightarrow> device_tree" where
  "demo_tree n = [(''hisi_zip'',
     map (\<lambda>i. (''0000:31:00.'' @ itoa (int i), demo_vf (''0000:31:00.'' @ itoa (int i)) (int i))) [1..<n])]"

definition demo_start :: "kae_event list" where
  "demo_start = [EScan (demo_tree 2), EManager, EServe 0 se_fine, EServe 0 se_fine, EServe 0 se_fine,
     EListen 0 True, EDeliver 0 True]"

definition demo_told :: kae_world where
  "demo_told =
     \<lparr>kw_tree = demo_tree 3, kw_servers = [(''hisi_zip'', 0)],
      kw_objs = [\<lparr>sv_devices = snd (hd (demo_tree 3)), sv_chan = [], sv_closed = False, sv_type = ''hisi_zip'',
        sv_state = SrvServing, sv_grpc = Some 0, sv_alive = True\<rparr>],
      kw_ops = [], kw_gors = [GWatch 0], kw_streams = [(0, 0)],
      kw_view = [(0, [(''0000:31:00.1'', Healthy), (''0000:31:00.2'', Healthy)])]\<rparr>"

lemma demo_told_run:
  "kae_checked (\<lambda>w e. scans_wf w e \<and> sends_ok w e) NewManager
     (demo_start @ [EScan (demo_tree 3), EManager, EDeliver 0 True]) = Some demo_told"
  by code_simp

lemma demo_told_reach: "kae_reach (\<lambda>w e. scans_wf w e \<and> sends_ok w e) demo_told"
  by (rule kae_checked_reach[OF demo_told_run reach_new])

lemma kae_reach_mono: "kae_reach P w \<Longrightarrow> (\<And>v e. P v e \<Longrightarrow> Q v e) \<Longrightarrow> kae_reach Q w"
  by (induction rule: kae_reach.induct) (auto intro: reach_new reach_step)

theorem manager_follows_scans_witness:
  "\<exists>ds. map_of (demo_tree 3) ''hisi_zip'' = Some ds \<and> same_devices (told (kw_objs demo_told ! 0)) ds"
proof -
  have r: "kae_reach scans_wf demo_told" by (rule kae_reach_mono[OF demo_told_reach]) simp
  have o: "kw_ops demo_told = []" "map_of (kw_servers demo_told) ''hisi_zip'' = Some 0" "kw_tree demo_told = demo_tree 3"
    by (simp_all add: demo_told_def)
  show ?thesis using manager_follows_scans[OF r o(1), of "''hisi_zip''"] o(2,3) by simp
qed

theorem kubelet_informed_witness:
  "\<exists>ds rep. map_of (demo_tree 3) ''hisi_zip'' = Some ds \<and> map_of (kw_view demo_told) 0 = Some rep \<and>
     set rep = set (device_report ds)"
proof -
  have o: "kw_ops demo_told = []" "map_of (kw_servers demo_told) ''hisi_zip'' = Some 0" "(0, 0) \<in> set (kw_streams demo_told)"
      "sv_chan (kw_objs demo_told ! 0) = []" "kw_tree demo_told = demo_tree 3"
    by (simp_all add: demo_told_def)
  show ?thesis using kubelet_informed[OF demo_told_reach] o by metis
qed

text \<open>C26. A restart of the kubelet leaves the old stream's handler waiting on the server's channel. When
  that handler takes the next update, its send fails and it stops the server that was registered anew:
  the kubelet is not told, the server ends, and the following update or removal of that device type
  panics in the manager, which ends the plugin.\<close>

theorem stale_stream_stops_server:
  assumes "i < length (kw_streams w)" "kw_streams w ! i = (r, g)" "r < length (kw_objs w)"
    and "sv_grpc (kw_objs w ! r) = Some g'" "g' \<noteq> g" "\<not> sv_closed (kw_objs w ! r)" "sv_chan (kw_objs w ! r) = [d]"
  shows "\<exists>w'. kae_do w (EDeliver i link) = Inr (Some w') \<and> kw_view w' = kw_view w \<and>
      sv_state (kw_objs w' ! r) = SrvTerminating \<and> kw_servers w' = kw_servers w \<and>
      (\<forall>t e. map_of (kw_servers w) t = Some r \<longrightarrow> manager_update t e w' = Inl Panic \<and> manager_remove t w' = Inl Panic)"
proof -
  define s where "s = (kw_objs w ! r)\<lparr>sv_devices := d, sv_chan := [], sv_state := SrvTerminating, sv_alive := False, sv_closed := True\<rparr>"
  define w' where "w' = (set_obj r s w)\<lparr>kw_streams := drop_at i (kw_streams w)\<rparr>"
  have "kae_do w (EDeliver i link) = Inr (Some w')"
    using assms by (simp add: kae_do_def deliver_step_def send_on_def sendDevices_def srv_Stop_def send_works_def set_obj_def s_def w'_def)
  moreover have "kw_objs w' ! r = s" using assms(3) by (simp add: w'_def set_obj_def)
  moreover have "sv_closed s" "sv_state s = SrvTerminating" "sv_grpc s = Some g'" using assms(4) by (simp_all add: s_def)
  ultimately show ?thesis
    by (auto simp: w'_def set_obj_def manager_update_def manager_remove_def srv_Update_def srv_Stop_def)
qed

definition demo_restart :: "kae_event list" where
  "demo_restart = [EServe 0 se_fine, EServe 0 se_fine, EServe 0 se_fine, EListen 0 True, EScan (demo_tree 3), EManager]"

definition demo_stale :: kae_world where
  "demo_stale =
     \<lparr>kw_tree = demo_tree 3, kw_servers = [(''hisi_zip'', 0)],
      kw_objs = [\<lparr>sv_devices = snd (hd (demo_tree 2)), sv_chan = [snd (hd (demo_tree 3))], sv_closed = False,
        sv_type = ''hisi_zip'', sv_state = SrvServing, sv_grpc = Some 1, sv_alive = True\<rparr>],
      kw_ops = [], kw_gors = [GWatch 0], kw_streams = [(0, 0), (0, 1)],
      kw_view = [(0, [(''0000:31:00.1'', Healthy)])]\<rparr>"

lemma demo_stale_run: "kae_run NewManager (demo_start @ demo_restart) = Inr (Some demo_stale)"
  by code_simp

lemma demo_stale_ends:
  "kae_run demo_stale [EDeliver 0 True, EScan (demo_tree 4), EManager] = Inl Panic"
  by code_simp

theorem stale_stream_stops_server_witness:
  "kae_run NewManager (demo_start @ demo_restart) = Inr (Some demo_stale) \<and>
   (\<exists>w'. kae_do demo_stale (EDeliver 0 True) = Inr (Some w') \<and> kw_view w' = kw_view demo_stale \<and>
      sv_state (kw_objs w' ! 0) = SrvTerminating \<and> manager_remove ''hisi_zip'' w' = Inl Panic)"
proof -
  have a: "0 < length (kw_streams demo_stale)" "kw_streams demo_stale ! 0 = (0, 0)" "0 < length (kw_objs demo_stale)"
      "sv_grpc (kw_objs demo_stale ! 0) = Some 1" "(1::nat) \<noteq> 0" "\<not> sv_closed (kw_objs demo_stale ! 0)"
      "sv_chan (kw_objs demo_stale ! 0) = [snd (hd (demo_tree 3))]" "map_of (kw_servers demo_stale) ''hisi_zip'' = Some 0"
    by (simp_all add: demo_stale_def)
  show ?thesis using stale_stream_stops_server[OF a(1-7), of True] a(8) demo_stale_run by blast
qed

end
