(* ===== verification/KaeScanOk.thy ===== *)
theory KaeScanOk
  imports KaePluginOk
begin

text \<open>
  What a scan finds and what an allocation from it hands to a container: scanned trees are well-formed
  maps, every device carries an environment variable of its own, and a container gets one variable for
  each device it was given.
\<close>

section \<open>Scanned devices\<close>

text \<open>The devices of one type after \<open>n\<close> devices were numbered: \<open>num\<close> is the number of each.\<close>

definition numbered_devices :: "int \<Rightarrow> string \<Rightarrow> (string \<Rightarrow> int) \<Rightarrow> dev_map \<Rightarrow> bool" where
  "numbered_devices n t num ds \<longleftrightarrow> wf_map ds \<and> inj_on num (fst ` set ds) \<and>
     (\<forall>(b, i) \<in> set ds. di_envs i = Some [(env_name t (num b), b)] \<and> di_annotations i = None \<and>
        di_health i = Healthy \<and> 1 \<le> num b \<and> num b \<le> n)"

definition scanned_tree :: "int \<Rightarrow> device_tree \<Rightarrow> bool" where
  "scanned_tree n tree \<longleftrightarrow> wf_map tree \<and> (\<forall>(t, ds) \<in> set tree. \<exists>num. numbered_devices n t num ds)"

lemma env_name_inj: "env_name t a = env_name t b \<Longrightarrow> 0 \<le> a \<Longrightarrow> 0 \<le> b \<Longrightarrow> a = b"
  using parse_nat_itoa by (simp add: env_name_def) (metis option.inject)

lemma numbered_mono: "numbered_devices n t num ds \<Longrightarrow> n \<le> m \<Longrightarrow> numbered_devices m t num ds"
  by (fastforce simp: numbered_devices_def)

lemma numberedD:
  "numbered_devices n t num ds \<Longrightarrow> (b, i) \<in> set ds \<Longrightarrow>
     di_envs i = Some [(env_name t (num b), b)] \<and> di_annotations i = None \<and> di_health i = Healthy \<and> 1 \<le> num b \<and> num b \<le> n"
  by (auto simp: numbered_devices_def)

lemma set_update: "distinct (map fst m) \<Longrightarrow> set (AList.update k v m) = insert (k, v) {p \<in> set m. fst p \<noteq> k}"
  by (induction m) force+

lemma numbered_update:
  assumes "numbered_devices n t num ds" "0 \<le> n"
    and "di_envs i = Some [(env_name t (n + 1), b)]" "di_annotations i = None" "di_health i = Healthy"
  shows "numbered_devices (n + 1) t (num(b := n + 1)) (AList.update b i ds)"
proof -
  have s: "set (AList.update b i ds) = insert (b, i) {p \<in> set ds. fst p \<noteq> b}"
    using assms(1) by (intro set_update) (simp add: numbered_devices_def wf_map_def)
  have le: "num c \<le> n" if "c \<in> fst ` set ds" for c using numberedD[OF assms(1)] that by auto
  have keys: "c \<in> fst ` set ds" if "c \<in> fst ` set (AList.update b i ds)" "c \<noteq> b" for c using that by (auto simp: s)
  have inj: "inj_on (num(b := n + 1)) (fst ` set (AList.update b i ds))"
  proof (rule inj_onI)
    fix x y
    assume xy: "x \<in> fst ` set (AList.update b i ds)" "y \<in> fst ` set (AList.update b i ds)"
      "(num(b := n + 1)) x = (num(b := n + 1)) y"
    show "x = y"
    proof (cases "x = b \<or> y = b")
      case True
      then show ?thesis using xy le[of x] le[of y] keys[of x] keys[of y] by (auto split: if_splits)
    next
      case False
      then have "num x = num y" "x \<in> fst ` set ds" "y \<in> fst ` set ds" using xy keys by auto
      then show ?thesis using assms(1) unfolding numbered_devices_def by (blast dest: inj_onD)
    qed
  qed
  have "di_envs j = Some [(env_name t ((num(b := n + 1)) c), c)] \<and> di_annotations j = None \<and> di_health j = Healthy \<and>
      1 \<le> (num(b := n + 1)) c \<and> (num(b := n + 1)) c \<le> n + 1" if "(c, j) \<in> set (AList.update b i ds)" for c j
  proof (cases "c = b")
    case True
    then show ?thesis using that assms(2-) by (auto simp: s)
  next
    case False
    then have "(c, j) \<in> set ds" using that by (simp add: s)
    from numberedD[OF assms(1) this] False show ?thesis by simp
  qed
  moreover have "wf_map (AList.update b i ds)" using assms(1) by (simp add: numbered_devices_def)
  ultimately show ?thesis using inj unfolding numbered_devices_def by blast
qed

lemma scanned_treeD: "scanned_tree n tree \<Longrightarrow> (t, ds) \<in> set tree \<Longrightarrow> \<exists>num. numbered_devices n t num ds"
  by (auto simp: scanned_tree_def)

lemma scan_device_inv:
  assumes "scan_device fs dp t (n, tree) d = Inr (m, tree')" "scanned_tree n tree" "0 \<le> n"
  shows "scanned_tree m tree' \<and> 0 \<le> m"
proof -
  define ids where "ids = (case map_of tree t of None \<Rightarrow> [] | Some x \<Rightarrow> x)"
  obtain i where m: "m = n + 1" and tree': "tree' = AList.update t (AList.update (path_base d) i ids) tree"
    and i: "di_envs i = Some [(env_name t (n + 1), path_base d)]" "di_annotations i = None" "di_health i = Healthy"
    using assms(1)
    by (auto simp: scan_device_def Let_def getDeivceHealth_def AddDevice_def NewDeviceInfo_def ids_def split: sum.splits)
  have "\<exists>num. numbered_devices n t num ids"
  proof (cases "map_of tree t")
    case None
    then show ?thesis by (simp add: ids_def numbered_devices_def)
  next
    case (Some x)
    then show ?thesis using scanned_treeD[OF assms(2) map_of_SomeD[OF Some]] by (simp add: ids_def)
  qed
  then have new: "\<exists>num. numbered_devices (n + 1) t num (AList.update (path_base d) i ids)"
    using numbered_update[OF _ assms(3) i] by blast
  have s: "set tree' = insert (t, AList.update (path_base d) i ids) {p \<in> set tree. fst p \<noteq> t}"
    unfolding tree' using assms(2) by (intro set_update) (simp add: scanned_tree_def wf_map_def)
  have "\<exists>num. numbered_devices (n + 1) t' num ds" if "(t', ds) \<in> set tree'" for t' ds
  proof (cases "(t', ds) \<in> set tree")
    case True
    obtain num where "numbered_devices n t' num ds" using scanned_treeD[OF assms(2) True] ..
    then show ?thesis by (intro exI[where x = num]) (erule numbered_mono, simp)
  next
    case False
    with that have "t' = t" "ds = AList.update (path_base d) i ids" by (auto simp: s)
    with new show ?thesis by simp
  qed
  moreover have "wf_map tree'" using assms(2) by (simp add: tree' scanned_tree_def)
  ultimately show ?thesis using assms(3) unfolding scanned_tree_def m by (simp add: split_beta)
qed

lemma scan_devices_inv:
  "scan_devices fs dp t acc ds = Inr acc' \<Longrightarrow> scanned_tree (fst acc) (snd acc) \<Longrightarrow> 0 \<le> fst acc \<Longrightarrow>
     scanned_tree (fst acc') (snd acc') \<and> 0 \<le> fst acc'"
proof (induction fs dp t acc ds rule: scan_devices.induct)
  case (2 fs dp t acc d ds)
  then obtain acc1 where a: "scan_device fs dp t acc d = Inr acc1" "scan_devices fs dp t acc1 ds = Inr acc'"
    by (auto split: sum.splits)
  then have "scanned_tree (fst acc1) (snd acc1) \<and> 0 \<le> fst acc1"
    using scan_device_inv[of fs dp t "fst acc" "snd acc" d "fst acc1" "snd acc1"] 2(3,4) by simp
  with 2(1)[OF a] show ?case by simp
qed simp

lemma scan_drivers_inv:
  "scan_drivers fs dp acc ts = Inr acc' \<Longrightarrow> scanned_tree (fst acc) (snd acc) \<Longrightarrow> 0 \<le> fst acc \<Longrightarrow>
     scanned_tree (fst acc') (snd acc') \<and> 0 \<le> fst acc'"
proof (induction fs dp acc ts rule: scan_drivers.induct)
  case (2 fs dp acc t ts)
  then obtain vfs acc1 where v: "getVfDevices fs dp t = Inr vfs"
    and a: "scan_devices fs dp t acc vfs = Inr acc1" "scan_drivers fs dp acc1 ts = Inr acc'"
    by (auto split: sum.splits)
  with 2(1)[OF v a] scan_devices_inv[OF a(1)] 2(3,4) show ?case by simp
qed simp

lemma plugin_scan_numbered:
  assumes "plugin_scan fs dp = Inr tree"
  obtains n where "scanned_tree n tree"
proof -
  obtain n where "scan_drivers fs dp (0, []) (pl_drivers dp) = Inr (n, tree)"
    using assms by (auto simp: plugin_scan_def split: sum.splits)
  from scan_drivers_inv[OF this] show ?thesis by (intro that[of n]) (simp add: scanned_tree_def)
qed

lemma numbered_devices_wf: "numbered_devices n t num ds \<Longrightarrow> wf_devices ds"
  by (auto simp: numbered_devices_def wf_devices_def list_all_iff wf_strs_def wf_map_def)

text \<open>The scanner keeps the condition under which the manager follows the scans.\<close>

lemma plugin_scan_wf: "plugin_scan fs dp = Inr tree \<Longrightarrow> wf_tree tree"
  by (erule plugin_scan_numbered) (auto simp: scanned_tree_def wf_tree_def list_all_iff dest: numbered_devices_wf)

section \<open>Allocation\<close>

lemma allocate_ids_numbered:
  assumes "numbered_devices n t num ds" "distinct ids" "set ids \<subseteq> fst ` set ds"
    and "\<And>b. b \<in> set ids \<Longrightarrow> env_name t (num b) \<notin> fst ` set (al_envs resp)"
  shows "\<exists>a. allocate_ids ds resp ids = Inr a \<and>
    al_envs a = al_envs resp @ map (\<lambda>b. (env_name t (num b), b)) ids \<and>
    al_devices a = al_devices resp @ concat (map (\<lambda>b. di_devices (the (map_of ds b))) ids)"
  using assms(2-)
proof (induction ids arbitrary: resp)
  case (Cons b ids)
  obtain i where bi: "(b, i) \<in> set ds" using Cons.prems(2) by auto
  then have m: "map_of ds b = Some i" using assms(1) by (auto simp: numbered_devices_def intro: map_of_wf)
  have i: "di_envs i = Some [(env_name t (num b), b)]" "di_health i = Healthy"
    using bi assms(1) by (auto simp: numbered_devices_def)
  let ?r = "\<lparr>al_envs = maps_copy (al_envs resp) (di_envs i), al_annotations = maps_copy (al_annotations resp) (di_annotations i),
    al_devices = al_devices resp @ di_devices i, al_mounts = al_mounts resp @ di_mounts i\<rparr>"
  have envs: "al_envs ?r = al_envs resp @ [(env_name t (num b), b)]"
    using Cons.prems(3)[of b] by (simp add: maps_copy_def i update_fresh)
  have "\<exists>a. allocate_ids ds ?r ids = Inr a \<and> al_envs a = al_envs ?r @ map (\<lambda>b. (env_name t (num b), b)) ids \<and>
    al_devices a = al_devices ?r @ concat (map (\<lambda>b. di_devices (the (map_of ds b))) ids)"
  proof (rule Cons.IH)
    show "distinct ids" "set ids \<subseteq> fst ` set ds" using Cons.prems by simp_all
    show "env_name t (num c) \<notin> fst ` set (al_envs ?r)" if c: "c \<in> set ids" for c
    proof -
      have "c \<noteq> b" "c \<in> fst ` set ds" "b \<in> fst ` set ds" using Cons.prems(1,2) c bi by auto
      then have "num c \<noteq> num b" "0 \<le> num c" "0 \<le> num b"
        using assms(1) by (auto simp: numbered_devices_def inj_on_def)
      then have "env_name t (num c) \<noteq> env_name t (num b)" using env_name_inj by blast
      then show ?thesis unfolding envs using Cons.prems(3)[of c] c by simp
    qed
  qed
  then show ?case using envs by (auto simp: m i)
qed simp

lemma allocate_ids_missing: "b \<in> set ids \<Longrightarrow> map_of ds b = None \<Longrightarrow> \<exists>e. allocate_ids ds resp ids = Inl e"
  by (induction ds resp ids rule: allocate_ids.induct) (auto split: option.splits)

lemma allocate_containers_all:
  assumes "\<And>ids. ids \<in> set reqs \<Longrightarrow> \<exists>a. allocate_ids ds empty_allocation ids = Inr a \<and> Q ids a"
  shows "\<exists>as. allocate_containers ds reqs = Inr as \<and> list_all2 Q reqs as"
  using assms
proof (induction reqs)
  case (Cons ids reqs)
  obtain a where a: "allocate_ids ds empty_allocation ids = Inr a" "Q ids a" using Cons.prems by auto
  obtain as where "allocate_containers ds reqs = Inr as" "list_all2 Q reqs as" using Cons by auto
  with a show ?case by (intro exI[where x = "a # as"]) simp
qed simp

lemma allocate_containers_missing:
  "ids \<in> set reqs \<Longrightarrow> b \<in> set ids \<Longrightarrow> map_of ds b = None \<Longrightarrow> \<exists>e. allocate_containers ds reqs = Inl e"
  using allocate_ids_missing[of b ids ds empty_allocation]
  by (induction reqs) (auto split: sum.splits)

lemma allocation_names_devices_parts:
  assumes "plugin_scan fs dp = Inr tree" "map_of tree t = Some (sv_devices srv)"
  shows "(\<And>ids. ids \<in> set reqs \<Longrightarrow> distinct ids \<and> set ids \<subseteq> fst ` set (sv_devices srv)) \<Longrightarrow>
      \<exists>as. srv_Allocate srv reqs = Inr as \<and>
        list_all2 (\<lambda>ids a. map snd (al_envs a) = ids \<and> distinct (map fst (al_envs a)) \<and>
          al_devices a = concat (map (\<lambda>b. di_devices (the (map_of (sv_devices srv) b))) ids)) reqs as"
    and "ids \<in> set reqs \<Longrightarrow> b \<in> set ids \<Longrightarrow> b \<notin> fst ` set (sv_devices srv) \<Longrightarrow> \<exists>e. srv_Allocate srv reqs = Inl e"
proof -
  obtain n where "scanned_tree n tree" by (rule plugin_scan_numbered[OF assms(1)])
  then obtain num where num: "numbered_devices n t num (sv_devices srv)"
    using scanned_treeD[OF _ map_of_SomeD[OF assms(2)]] by blast
  show "\<exists>as. srv_Allocate srv reqs = Inr as \<and>
        list_all2 (\<lambda>ids a. map snd (al_envs a) = ids \<and> distinct (map fst (al_envs a)) \<and>
          al_devices a = concat (map (\<lambda>b. di_devices (the (map_of (sv_devices srv) b))) ids)) reqs as"
    if req: "\<And>ids. ids \<in> set reqs \<Longrightarrow> distinct ids \<and> set ids \<subseteq> fst ` set (sv_devices srv)"
    unfolding srv_Allocate_def
  proof (rule allocate_containers_all)
    fix ids
    assume "ids \<in> set reqs"
    then have ids: "distinct ids" "set ids \<subseteq> fst ` set (sv_devices srv)" using req by auto
    obtain a where a: "allocate_ids (sv_devices srv) empty_allocation ids = Inr a"
      "al_envs a = map (\<lambda>b. (env_name t (num b), b)) ids"
      "al_devices a = concat (map (\<lambda>b. di_devices (the (map_of (sv_devices srv) b))) ids)"
      using allocate_ids_numbered[OF num ids, of empty_allocation] by (auto simp: empty_allocation_def)
    have "inj_on (\<lambda>b. env_name t (num b)) (set ids)"
    proof (rule inj_onI)
      fix x y
      assume xy: "x \<in> set ids" "y \<in> set ids" "env_name t (num x) = env_name t (num y)"
      then have k: "x \<in> fst ` set (sv_devices srv)" "y \<in> fst ` set (sv_devices srv)" using ids(2) by auto
      then have "0 \<le> num x" "0 \<le> num y" using num by (auto simp: numbered_devices_def)
      then have "num x = num y" using env_name_inj xy(3) by blast
      then show "x = y" using num k by (auto simp: numbered_devices_def inj_on_def)
    qed
    then have "distinct (map (\<lambda>b. env_name t (num b)) ids)" using ids(1) by (simp add: distinct_map)
    then have "distinct (map fst (al_envs a))" "map snd (al_envs a) = ids" by (simp_all add: a(2) comp_def)
    with a(1,3) show "\<exists>a. allocate_ids (sv_devices srv) empty_allocation ids = Inr a \<and> map snd (al_envs a) = ids \<and>
      distinct (map fst (al_envs a)) \<and> al_devices a = concat (map (\<lambda>b. di_devices (the (map_of (sv_devices srv) b))) ids)"
      by blast
  qed
  show "\<exists>e. srv_Allocate srv reqs = Inl e" if "ids \<in> set reqs" "b \<in> set ids" "b \<notin> fst ` set (sv_devices srv)"
    unfolding srv_Allocate_def using that
    by (intro allocate_containers_missing[of ids reqs b]) (auto simp: map_of_eq_None_iff)
qed

text \<open>C27. A server that holds the devices of a scan grants any request for devices of its type: each
  container gets, in the order of its request, one environment variable for each device, naming that
  device, under names that do not collide, and the device files of exactly these devices. A request
  that names a device the server does not have is refused as a whole.\<close>

theorem allocation_names_devices:
  assumes "plugin_scan fs dp = Inr tree" "map_of tree t = Some (sv_devices srv)"
  shows "((\<forall>ids\<in>set reqs. distinct ids \<and> set ids \<subseteq> fst ` set (sv_devices srv)) \<longrightarrow>
      (\<exists>as. srv_Allocate srv reqs = Inr as \<and>
        list_all2 (\<lambda>ids a. map snd (al_envs a) = ids \<and> distinct (map fst (al_envs a)) \<and>
          al_devices a = concat (map (\<lambda>b. di_devices (the (map_of (sv_devices srv) b))) ids)) reqs as)) \<and>
    (\<forall>ids\<in>set reqs. \<forall>b\<in>set ids. b \<notin> fst ` set (sv_devices srv) \<longrightarrow> (\<exists>e. srv_Allocate srv reqs = Inl e))"
  using allocation_names_devices_parts[OF assms, where reqs = reqs] by blast


definition demo_fs :: kae_fs where
  "demo_fs =
     \<lparr>kf_glob = (\<lambda>p. if p = ''/sys/bus/pci/drivers/hisi_zip/????:??:??.?'' then
          Some [(''l1'', Some ''/sys/devices/pci/0000:31:00.1''), (''l2'', Some ''/sys/devices/pci/0000:31:00.2''), (''l3'', None)]
        else Some []),
      kf_read = (\<lambda>p. Some (''0xa251'' @ [CHR 0x0A])),
      kf_dir = (\<lambda>p. Some [''hisi_zip-4''])\<rparr>"

definition demo_scan :: device_tree where
  "demo_scan = (case NewDevicePlugin ''hisi_hpre,hisi_zip'' of
     Inr dp \<Rightarrow> (case plugin_scan demo_fs dp of Inr tree \<Rightarrow> tree | _ \<Rightarrow> []) | _ \<Rightarrow> [])"

definition demo_srv :: kae_server where
  "demo_srv = (newServer ''hisi_zip'')\<lparr>sv_devices := snd (hd demo_scan)\<rparr>"

theorem allocation_names_devices_witness:
  "\<exists>as. srv_Allocate demo_srv [[''0000:31:00.2''], [''0000:31:00.1'']] = Inr as \<and>
     list_all2 (\<lambda>ids a. map snd (al_envs a) = ids \<and> distinct (map fst (al_envs a)) \<and>
       al_devices a = concat (map (\<lambda>b. di_devices (the (map_of (sv_devices demo_srv) b))) ids))
       [[''0000:31:00.2''], [''0000:31:00.1'']] as"
proof -
  have scan: "plugin_scan demo_fs (newDevicePlugin ''/sys/bus/pci/drivers'' ''/sys/bus/pci/devices'' ''/sys/class/uacce''
      [''hisi_hpre'', ''hisi_zip'']) = Inr demo_scan"
    by code_simp
  have srv: "map_of demo_scan ''hisi_zip'' = Some (sv_devices demo_srv)" by code_simp
  have keys: "fst ` set (sv_devices demo_srv) = {''0000:31:00.1'', ''0000:31:00.2''}" by code_simp
  have "\<forall>ids\<in>set [[''0000:31:00.2''], [''0000:31:00.1'']]. distinct ids \<and> set ids \<subseteq> fst ` set (sv_devices demo_srv)"
    unfolding keys by simp
  with allocation_names_devices[OF scan srv] show ?thesis by blast
qed

end
