(* ===== verification/KaeQos.thy ===== *)
theory KaeQos
  imports KaeWebhook
begin

text \<open>
  The QoS side of the KAE device plugin: which devices the kubelet gave to a pod
  (\<open>kae-qos/podresources.go\<close>), writing the bandwidth share of a device into the \<open>alg_qos\<close> file of its
  physical function (\<open>kae-qos/kae_qos.go\<close>) and the reconciler that holds a finalizer on the pods while
  their shares differ from the default (\<open>kae-qos/kae_reconciler.go\<close>). The kubelet's pod-resources
  service, the API server and the files are arguments.
\<close>

section \<open>Devices of a pod\<close>

definition supportDeivce :: "(string, string) gomap" where
  "supportDeivce = [(''kae.kunpeng.com/hisi_hpre'', ''hisi_hpre''), (''kae.kunpeng.com/hisi_zip'', ''hisi_zip''),
     (''kae.kunpeng.com/hisi_sec2'', ''hisi_sec2'')]"

definition isSupportDevice :: "string \<Rightarrow> bool" where
  "isSupportDevice res \<longleftrightarrow> map_of supportDeivce res \<noteq> None"

definition getResourceType :: "string \<Rightarrow> string" where
  "getResourceType res = (case map_of supportDeivce res of None \<Rightarrow> [] | Some t \<Rightarrow> t)"

type_synonym resource_info = "(string, string list) gomap"

record pod_res_client =
  pr_resources :: "(string, resource_info) gomap"
  pr_get_enabled :: bool

text \<open>One pod in an answer of the kubelet: its containers list resource names with device ids.\<close>

record pod_devices =
  pd_namespace :: string
  pd_name :: string
  pd_containers :: "(string \<times> string list) list list"

record kubelet_api =
  ka_get :: "string \<Rightarrow> string \<Rightarrow> pod_devices option"
  ka_list :: "pod_devices list option"

datatype grpc_code = CodeNotFound | CodeUnimplemented | CodeOther

text \<open>\<open>retry\<close> stands for client-go's \<open>retry.OnError\<close> around the probing \<open>Get\<close>: it is given the errors
  worth retrying and returns the error it ends with, if any.\<close>

definition retriable :: "grpc_code \<Rightarrow> bool" where
  "retriable c \<longleftrightarrow> c \<noteq> CodeNotFound \<and> c \<noteq> CodeUnimplemented"

definition checkEnablePodResourcesGet :: "((grpc_code \<Rightarrow> bool) \<Rightarrow> grpc_code option) \<Rightarrow> bool" where
  "checkEnablePodResourcesGet retry =
     (case retry retriable of
        None \<Rightarrow> True
      | Some c \<Rightarrow> if c = CodeUnimplemented then False else if c = CodeNotFound then True else False)"

definition NewQosManager :: "((grpc_code \<Rightarrow> bool) \<Rightarrow> grpc_code option) \<Rightarrow> pod_res_client" where
  "NewQosManager retry = \<lparr>pr_resources = [], pr_get_enabled = checkEnablePodResourcesGet retry\<rparr>"

fun getSupportedDevices :: "resource_info \<Rightarrow> (string \<times> string list) list \<Rightarrow> resource_info" where
  "getSupportedDevices info [] = info"
| "getSupportedDevices info ((res, ids) # ds) =
     (if \<not> isSupportDevice res then getSupportedDevices info ds
      else getSupportedDevices
        (AList.update res ((case map_of info res of None \<Rightarrow> [] | Some xs \<Rightarrow> xs) @ ids) info) ds)"

definition pod_info :: "pod_devices \<Rightarrow> resource_info" where
  "pod_info p = fold (\<lambda>ds info. getSupportedDevices info ds) (pd_containers p) []"

definition ns_name :: "string \<Rightarrow> string \<Rightarrow> string" where
  "ns_name ns name = ns @ ''/'' @ name"

definition getPodResources :: "kubelet_api \<Rightarrow> string \<Rightarrow> string \<Rightarrow> pod_res_client \<Rightarrow> pod_res_client result" where
  "getPodResources api ns name c =
     (case ka_get api ns name of
        None \<Rightarrow> Inl (Err ''failed to get pod resources'')
      | Some p \<Rightarrow> Inr (c\<lparr>pr_resources := AList.update (ns_name ns name) (pod_info p) (pr_resources c)\<rparr>))"

definition listPodResources :: "kubelet_api \<Rightarrow> pod_res_client \<Rightarrow> pod_res_client result" where
  "listPodResources api c =
     (case ka_list api of
        None \<Rightarrow> Inl (Err ''failed to list pod resources'')
      | Some ps \<Rightarrow>
          Inr (c\<lparr>pr_resources := fold (\<lambda>p. AList.update (ns_name (pd_namespace p) (pd_name p)) (pod_info p)) ps (pr_resources c)\<rparr>))"

definition fetchPodResources :: "kubelet_api \<Rightarrow> string \<Rightarrow> string \<Rightarrow> pod_res_client \<Rightarrow> pod_res_client result" where
  "fetchPodResources api ns name c =
     (if pr_get_enabled c then getPodResources api ns name c else listPodResources api c)"

text \<open>The result is nil (\<^const>\<open>None\<close>) for an unknown pod, for a missing resource and, as appending nothing
  to a nil slice leaves it nil, for a resource without devices.\<close>

definition getDeviceIds :: "pod_res_client \<Rightarrow> string \<Rightarrow> string \<Rightarrow> string list option" where
  "getDeviceIds c pod res =
     (case map_of (pr_resources c) pod of
        None \<Rightarrow> None
      | Some info \<Rightarrow> (case map_of info res of None \<Rightarrow> None | Some [] \<Rightarrow> None | Some (d # ds) \<Rightarrow> Some (d # ds)))"

section \<open>Writing the share of a device\<close>

text \<open>Symbolic links, existence of a file (a \<open>Stat\<close> error other than \<open>IsNotExist\<close> counts as existing), and
  whether a write succeeds.\<close>

record qos_fs =
  qf_link :: "string \<Rightarrow> string option"
  qf_exists :: "string \<Rightarrow> bool"
  qf_writable :: "string \<Rightarrow> bool"

text \<open>The successful writes, in order: file and text.\<close>

type_synonym qos_log = "(string \<times> string) list"

definition kaeDefaultQos :: string where
  "kaeDefaultQos = ''1000''"

definition isValidQos :: "string \<Rightarrow> bool" where
  "isValidQos qos \<longleftrightarrow> (case atoi qos of None \<Rightarrow> False | Some v \<Rightarrow> 1 \<le> v \<and> v \<le> 1000)"

definition getPfDeviceId :: "qos_fs \<Rightarrow> string \<Rightarrow> string result" where
  "getPfDeviceId fs device =
     (case qf_link fs (path_join [''/sys/bus/pci/devices'', device, ''physfn'']) of
        None \<Rightarrow> Inl (Err ''eval symlinks failed'')
      | Some p \<Rightarrow> Inr (path_base p))"

definition qos_file :: "string \<Rightarrow> string \<Rightarrow> string" where
  "qos_file rt pf = path_join [path_join [''/sys/kernel/debug'', rt], pf, ''alg_qos'']"

definition setDeviceKaeQos :: "qos_fs \<Rightarrow> string \<Rightarrow> string \<Rightarrow> string \<Rightarrow> qos_log \<Rightarrow> qos_log \<times> go_error option" where
  "setDeviceKaeQos fs rt device qos out =
     (case getPfDeviceId fs device of
        Inl e \<Rightarrow> (out, Some e)
      | Inr pf \<Rightarrow>
          (let f = qos_file rt pf in
           if \<not> qf_exists fs f then (out, Some (Err ''qos file not exist''))
           else if \<not> qf_writable fs f then (out, Some (Err ''write qos file failed''))
           else (out @ [(f, device @ '' '' @ qos)], None)))"

fun set_devices_loop :: "qos_fs \<Rightarrow> string \<Rightarrow> string list \<Rightarrow> string \<Rightarrow> qos_log \<Rightarrow> qos_log \<times> go_error option" where
  "set_devices_loop fs rt [] qos out = (out, None)"
| "set_devices_loop fs rt (d # ds) qos out =
     (case setDeviceKaeQos fs rt d qos out of
        (out', Some e) \<Rightarrow> (out', Some e)
      | (out', None) \<Rightarrow> set_devices_loop fs rt ds qos out')"

definition setKaeQos :: "qos_fs \<Rightarrow> string \<Rightarrow> string list \<Rightarrow> string \<Rightarrow> qos_log \<Rightarrow> qos_log \<times> go_error option" where
  "setKaeQos fs rt devices qos out =
     (if rt = [] then (out, Some (Err ''resourceType type is empty''))
      else if \<not> isValidQos qos then (out, Some (Err ''invalid qos value''))
      else set_devices_loop fs rt devices qos out)"

definition resourceNameToQosKey :: "string \<Rightarrow> string" where
  "resourceNameToQosKey res =
     (case go_split ''/'' res of [a, b] \<Rightarrow> ''qos.kae.kunpeng.com/'' @ b | _ \<Rightarrow> [])"

definition getQosfromPodAnnotation :: "string \<Rightarrow> (string, string) gomap option \<Rightarrow> string" where
  "getQosfromPodAnnotation res annotation =
     (case annotation of
        None \<Rightarrow> kaeDefaultQos
      | Some m \<Rightarrow> (case map_of m (resourceNameToQosKey res) of None \<Rightarrow> kaeDefaultQos | Some q \<Rightarrow> q))"

text \<open>\<open>order\<close> is the order in which Go visits the keys of \<open>supportDeivce\<close>. The check of the collected
  slice against nil never succeeds, because the slice starts empty and not nil.\<close>

definition allocated_resources :: "string list \<Rightarrow> kae_pod \<Rightarrow> string list" where
  "allocated_resources order pod =
     concat (map (\<lambda>c. filter (\<lambda>res. map_of (res_map (kc_limits c)) res \<noteq> None) order) (kp_containers pod))"

fun apply_loop ::
  "qos_fs \<Rightarrow> pod_res_client \<Rightarrow> string \<Rightarrow> (string \<Rightarrow> string) \<Rightarrow> string list \<Rightarrow> qos_log \<Rightarrow> qos_log \<times> go_error option" where
  "apply_loop fs c pod getQosValue [] out = (out, None)"
| "apply_loop fs c pod getQosValue (res # rs) out =
     (case getDeviceIds c pod res of
        None \<Rightarrow> (out, Some (Err ''podResourcesManager not synced''))
      | Some devices \<Rightarrow>
          (case setKaeQos fs (getResourceType res) devices (getQosValue res) out of
             (out', Some e) \<Rightarrow> (out', Some (Err ''set qos failed''))
           | (out', None) \<Rightarrow> apply_loop fs c pod getQosValue rs out'))"

definition applyQos ::
  "string list \<Rightarrow> qos_fs \<Rightarrow> pod_res_client \<Rightarrow> kae_pod \<Rightarrow> (string \<Rightarrow> string) \<Rightarrow> qos_log \<Rightarrow> qos_log \<times> go_error option" where
  "applyQos order fs c pod getQosValue out =
     apply_loop fs c (ns_name (kp_namespace pod) (kp_name pod)) getQosValue (allocated_resources order pod) out"

definition updateQos ::
  "string list \<Rightarrow> qos_fs \<Rightarrow> pod_res_client \<Rightarrow> kae_pod \<Rightarrow> qos_log \<Rightarrow> qos_log \<times> go_error option" where
  "updateQos order fs c pod out =
     applyQos order fs c pod (\<lambda>res. getQosfromPodAnnotation res (kp_annotations pod)) out"

definition restoreQos ::
  "string list \<Rightarrow> qos_fs \<Rightarrow> pod_res_client \<Rightarrow> kae_pod \<Rightarrow> qos_log \<Rightarrow> qos_log \<times> go_error option" where
  "restoreQos order fs c pod out = applyQos order fs c pod (\<lambda>res. kaeDefaultQos) out"

section \<open>The reconciler\<close>

definition finalizerName :: string where
  "finalizerName = ''kae.kunpeng.com/finalizer''"

datatype pod_get = PodMissing | PodGetFailed | PodFound kae_pod

text \<open>What the world outside answers during one call: the pod, whether an update of it is accepted, the
  kubelet, the files, the order of map visits.\<close>

record qos_env =
  qe_get :: pod_get
  qe_update :: bool
  qe_api :: kubelet_api
  qe_fs :: qos_fs
  qe_order :: "string list"

record qos_state =
  qs_client :: pod_res_client
  qs_log :: qos_log

text \<open>The result holds the pod that the API server has stored, if the call updated it.\<close>

definition kae_Reconcile :: "qos_env \<Rightarrow> qos_state \<Rightarrow> qos_state \<times> kae_pod option \<times> go_error option" where
  "kae_Reconcile env st =
     (case qe_get env of
        PodMissing \<Rightarrow> (st, None, None)
      | PodGetFailed \<Rightarrow> (st, None, Some (Err ''get pod''))
      | PodFound pod \<Rightarrow>
          if \<not> kp_deleting pod then
            (if finalizerName \<notin> set (kp_finalizers pod) then
               (if qe_update env then (st, Some (pod\<lparr>kp_finalizers := kp_finalizers pod @ [finalizerName]\<rparr>), None)
                else (st, None, Some (Err ''update pod'')))
             else
               (case fetchPodResources (qe_api env) (kp_namespace pod) (kp_name pod) (qs_client st) of
                  Inl e \<Rightarrow> (st, None, Some (Err ''get pod resources failed''))
                | Inr c \<Rightarrow>
                    (case updateQos (qe_order env) (qe_fs env) c pod (qs_log st) of
                       (out, Some e) \<Rightarrow> (\<lparr>qs_client = c, qs_log = out\<rparr>, None, Some (Err ''update pod qos failed''))
                     | (out, None) \<Rightarrow> (\<lparr>qs_client = c, qs_log = out\<rparr>, None, None))))
          else if finalizerName \<in> set (kp_finalizers pod) then
            (case fetchPodResources (qe_api env) (kp_namespace pod) (kp_name pod) (qs_client st) of
               Inl e \<Rightarrow> (st, None, Some (Err ''get pod resources failed''))
             | Inr c \<Rightarrow>
                 (case restoreQos (qe_order env) (qe_fs env) c pod (qs_log st) of
                    (out, Some e) \<Rightarrow> (\<lparr>qs_client = c, qs_log = out\<rparr>, None, Some (Err ''restore pod qos failed''))
                  | (out, None) \<Rightarrow>
                      if qe_update env then
                        (\<lparr>qs_client = c, qs_log = out\<rparr>,
                         Some (pod\<lparr>kp_finalizers := filter (\<lambda>f. f \<noteq> finalizerName) (kp_finalizers pod)\<rparr>), None)
                      else (\<lparr>qs_client = c, qs_log = out\<rparr>, None, Some (Err ''update pod''))))
          else (st, None, None))"

definition isKAEDeviceRequested :: "kae_pod \<Rightarrow> bool" where
  "isKAEDeviceRequested pod \<longleftrightarrow>
     list_ex (\<lambda>c. list_ex (\<lambda>(res, q). isSupportDevice res) (res_map (kc_limits c))) (kp_containers pod)"

text \<open>The event filter of \<open>SetupWithManager\<close>.\<close>

definition nodePredicate :: "string \<Rightarrow> kae_pod \<Rightarrow> bool" where
  "nodePredicate nodeName pod \<longleftrightarrow>
     kp_node_name pod = nodeName \<and> kp_phase pod = ''Running'' \<and> isKAEDeviceRequested pod"

text \<open>
  The life of one pod object: others change it, but neither our finalizer nor a phase in which all
  its containers have ended, and the reconciler acts on it when the filter lets its event pass.
\<close>

inductive pod_step :: "string \<Rightarrow> kae_pod \<times> qos_state \<Rightarrow> kae_pod \<times> qos_state \<Rightarrow> bool" for nodeName :: string where
  others_change:
    "(finalizerName \<in> set (kp_finalizers pod) \<longleftrightarrow> finalizerName \<in> set (kp_finalizers pod')) \<Longrightarrow>
     (kp_phase pod \<in> {''Succeeded'', ''Failed''} \<longrightarrow> kp_phase pod' = kp_phase pod) \<Longrightarrow>
     pod_step nodeName (pod, st) (pod', st)"
| reconciled:
    "nodePredicate nodeName pod \<Longrightarrow> qe_get env = PodFound pod \<Longrightarrow>
     kae_Reconcile env st = (st', stored, err) \<Longrightarrow>
     pod_step nodeName (pod, st) (case stored of None \<Rightarrow> pod | Some p \<Rightarrow> p, st')"

inductive_cases pod_step_cases: "pod_step nodeName a b"

end
