(* ===== verification/KaeQosOk.thy ===== *)
theory KaeQosOk
  imports KaeQos
begin

text \<open>
  The KAE QoS reconciler: what one call writes, that no text outside the documented range is ever
  written, when the finalizer goes, and why it never goes from a pod whose containers have ended.
\<close>

section \<open>What is written\<close>

text \<open>The line for one device, when its physical function is known.\<close>

definition share_line :: "qos_fs \<Rightarrow> string \<Rightarrow> string \<Rightarrow> string \<Rightarrow> string \<times> string" where
  "share_line fs res q d =
     (qos_file (getResourceType res) (case getPfDeviceId fs d of Inl e \<Rightarrow> [] | Inr pf \<Rightarrow> pf), d @ '' '' @ q)"

definition share_lines :: "qos_fs \<Rightarrow> pod_res_client \<Rightarrow> string \<Rightarrow> (string \<Rightarrow> string) \<Rightarrow> string \<Rightarrow> qos_log" where
  "share_lines fs c pod getQosValue res =
     map (share_line fs res (getQosValue res)) (case getDeviceIds c pod res of None \<Rightarrow> [] | Some ds \<Rightarrow> ds)"

text \<open>The line of a device can be written.\<close>

definition writable :: "qos_fs \<Rightarrow> string \<Rightarrow> string \<Rightarrow> bool" where
  "writable fs rt d \<longleftrightarrow>
     (case getPfDeviceId fs d of
        Inl e \<Rightarrow> False
      | Inr pf \<Rightarrow> qf_exists fs (qos_file rt pf) \<and> qf_writable fs (qos_file rt pf))"

lemma setDevice_cases:
  "setDeviceKaeQos fs (getResourceType res) d q out =
     (if writable fs (getResourceType res) d then (out @ [share_line fs res q d], None)
      else (out, snd (setDeviceKaeQos fs (getResourceType res) d q out))) \<and>
   (snd (setDeviceKaeQos fs (getResourceType res) d q out) = None \<longleftrightarrow> writable fs (getResourceType res) d)"
  by (auto simp: setDeviceKaeQos_def writable_def share_line_def Let_def split: sum.splits)

lemma set_devices_loop_ok:
  "list_all (writable fs (getResourceType res)) ds \<Longrightarrow>
     set_devices_loop fs (getResourceType res) ds q out = (out @ map (share_line fs res q) ds, None)"
  by (induction ds arbitrary: out) (simp_all add: setDevice_cases)

lemma set_devices_loop_all:
  "set_devices_loop fs (getResourceType res) ds q out = (out', None) \<Longrightarrow> list_all (writable fs (getResourceType res)) ds"
proof (induction ds arbitrary: out)
  case (Cons d ds)
  show ?case
  proof (cases "writable fs (getResourceType res) d")
    case True
    with Cons setDevice_cases[of fs res d q out] show ?thesis by simp
  next
    case False
    then obtain e where "setDeviceKaeQos fs (getResourceType res) d q out = (out, Some e)"
      using setDevice_cases[of fs res d q out] by (metis option.exhaust)
    with Cons.prems show ?thesis by simp
  qed
qed simp

lemma set_devices_loop_log:
  "\<exists>new. fst (set_devices_loop fs (getResourceType res) ds q out) = out @ new \<and> snd ` set new \<subseteq> (\<lambda>d. d @ '' '' @ q) ` set ds"
proof (induction ds arbitrary: out)
  case (Cons d ds)
  show ?case
  proof (cases "writable fs (getResourceType res) d")
    case True
    obtain new where "fst (set_devices_loop fs (getResourceType res) ds q (out @ [share_line fs res q d])) = (out @ [share_line fs res q d]) @ new"
      "snd ` set new \<subseteq> (\<lambda>d. d @ '' '' @ q) ` set ds" using Cons by blast
    with True setDevice_cases[of fs res d q out] show ?thesis
      by (intro exI[where x = "share_line fs res q d # new"]) (auto simp: share_line_def)
  next
    case False
    then obtain e where "setDeviceKaeQos fs (getResourceType res) d q out = (out, Some e)"
      using setDevice_cases[of fs res d q out] by (metis option.exhaust)
    then show ?thesis by simp
  qed
qed simp

lemma apply_loop_ok:
  assumes "\<And>res. res \<in> set rs \<Longrightarrow> getResourceType res \<noteq> [] \<and> isValidQos (gq res) \<and>
    (\<exists>ds. getDeviceIds c pod res = Some ds \<and> list_all (writable fs (getResourceType res)) ds)"
  shows "apply_loop fs c pod gq rs out = (out @ concat (map (share_lines fs c pod gq) rs), None)"
  using assms
proof (induction rs arbitrary: out)
  case (Cons res rs)
  obtain ds where ds: "getDeviceIds c pod res = Some ds" "list_all (writable fs (getResourceType res)) ds"
    using Cons.prems[of res] by auto
  have "setKaeQos fs (getResourceType res) ds (gq res) out = (out @ share_lines fs c pod gq res, None)"
    using Cons.prems[of res] set_devices_loop_ok[OF ds(2)] by (simp add: setKaeQos_def share_lines_def ds(1))
  with ds Cons show ?case by simp
qed simp

lemma apply_loop_all:
  "apply_loop fs c pod gq rs out = (out', None) \<Longrightarrow> res \<in> set rs \<Longrightarrow>
     getResourceType res \<noteq> [] \<and> isValidQos (gq res) \<and>
     (\<exists>ds. getDeviceIds c pod res = Some ds \<and> list_all (writable fs (getResourceType res)) ds)"
proof (induction rs arbitrary: out)
  case (Cons r rs)
  from Cons.prems(1) obtain ds o1 where ds: "getDeviceIds c pod r = Some ds"
    and s: "setKaeQos fs (getResourceType r) ds (gq r) out = (o1, None)" and rest: "apply_loop fs c pod gq rs o1 = (out', None)"
    by (auto split: option.splits prod.splits)
  from s have "getResourceType r \<noteq> []" "isValidQos (gq r)" "list_all (writable fs (getResourceType r)) ds"
    by (auto simp: setKaeQos_def dest: set_devices_loop_all split: if_splits)
  with ds Cons.IH[OF rest] Cons.prems(2) show ?case by auto
qed simp

text \<open>A text that the hardware accepts: a device and a share between 1 and 1000.\<close>

definition share_text :: "string \<Rightarrow> bool" where
  "share_text t \<longleftrightarrow> (\<exists>d q v. t = d @ '' '' @ q \<and> atoi q = Some v \<and> 1 \<le> v \<and> v \<le> 1000)"

lemma setKaeQos_log:
  "\<exists>new. fst (setKaeQos fs (getResourceType res) ds q out) = out @ new \<and> (\<forall>p\<in>set new. share_text (snd p))"
proof (cases "getResourceType res = [] \<or> \<not> isValidQos q")
  case False
  then obtain v where v: "atoi q = Some v" "1 \<le> v" "v \<le> 1000" by (auto simp: isValidQos_def split: option.splits)
  obtain new where n: "fst (set_devices_loop fs (getResourceType res) ds q out) = out @ new"
    "snd ` set new \<subseteq> (\<lambda>d. d @ '' '' @ q) ` set ds" using set_devices_loop_log by blast
  have "share_text (snd p)" if "p \<in> set new" for p
  proof -
    have "snd p \<in> (\<lambda>d. d @ '' '' @ q) ` set ds" using n(2) that by blast
    then show ?thesis using v unfolding share_text_def by blast
  qed
  with n(1) False show ?thesis by (auto simp: setKaeQos_def)
qed (auto simp: setKaeQos_def)

lemma apply_loop_log:
  "\<exists>new. fst (apply_loop fs c pod gq rs out) = out @ new \<and> (\<forall>p\<in>set new. share_text (snd p))"
proof (induction rs arbitrary: out)
  case (Cons r rs)
  show ?case
  proof (cases "getDeviceIds c pod r")
    case (Some ds)
    obtain n1 where n1: "fst (setKaeQos fs (getResourceType r) ds (gq r) out) = out @ n1" "\<forall>p\<in>set n1. share_text (snd p)"
      using setKaeQos_log by blast
    obtain n2 where n2: "fst (apply_loop fs c pod gq rs (out @ n1)) = (out @ n1) @ n2" "\<forall>p\<in>set n2. share_text (snd p)"
      using Cons by blast
    show ?thesis
    proof (cases "setKaeQos fs (getResourceType r) ds (gq r) out")
      case (Pair o1 e)
      with n1 n2 Some show ?thesis
        by (cases e) (auto intro: exI[where x = n1] exI[where x = "n1 @ n2"])
    qed
  qed auto
qed simp

text \<open>Whatever a call of the reconciler meets, it only appends to the \<open>alg_qos\<close> files, and every line it
  writes is a device followed by a share between 1 and 1000.\<close>

theorem qos_lines_in_range:
  assumes "kae_Reconcile env st = (st', stored, err)"
  shows "\<exists>new. qs_log st' = qs_log st @ new \<and> (\<forall>p\<in>set new. share_text (snd p))"
proof -
  have app: "\<exists>new. out' = out @ new \<and> (\<forall>p\<in>set new. share_text (snd p))"
    if "applyQos order fs c pod gq out = (out', e)" for order fs c pod gq out out' e
    using apply_loop_log[of fs c "ns_name (kp_namespace pod) (kp_name pod)" gq "allocated_resources order pod" out] that
    by (simp add: applyQos_def)
  show ?thesis
    using assms by (auto simp: kae_Reconcile_def updateQos_def restoreQos_def dest!: app
        split: pod_get.splits if_splits sum.splits prod.splits option.splits)
qed

section \<open>One call on a pod that holds the finalizer\<close>

lemma allocated_iff:
  "res \<in> set (allocated_resources order pod) \<longleftrightarrow>
     res \<in> set order \<and> (\<exists>c\<in>set (kp_containers pod). map_of (res_map (kc_limits c)) res \<noteq> None)"
  by (auto simp: allocated_resources_def)

definition wanted_share :: "kae_pod \<Rightarrow> string \<Rightarrow> string" where
  "wanted_share pod res = (if kp_deleting pod then kaeDefaultQos else getQosfromPodAnnotation res (kp_annotations pod))"

lemma Reconcile_applies:
  assumes "kae_Reconcile env st = (st', stored, None)" "qe_get env = PodFound pod" "finalizerName \<in> set (kp_finalizers pod)"
  shows "fetchPodResources (qe_api env) (kp_namespace pod) (kp_name pod) (qs_client st) = Inr (qs_client st')"
    and "applyQos (qe_order env) (qe_fs env) (qs_client st') pod (wanted_share pod) (qs_log st) = (qs_log st', None)"
    and "stored = (if kp_deleting pod then Some (pod\<lparr>kp_finalizers := filter (\<lambda>f. f \<noteq> finalizerName) (kp_finalizers pod)\<rparr>) else None)"
proof -
  have w: "wanted_share pod = (\<lambda>res. if kp_deleting pod then kaeDefaultQos else getQosfromPodAnnotation res (kp_annotations pod))"
    by (simp add: wanted_share_def fun_eq_iff)
  show "fetchPodResources (qe_api env) (kp_namespace pod) (kp_name pod) (qs_client st) = Inr (qs_client st')"
    "applyQos (qe_order env) (qe_fs env) (qs_client st') pod (wanted_share pod) (qs_log st) = (qs_log st', None)"
    "stored = (if kp_deleting pod then Some (pod\<lparr>kp_finalizers := filter (\<lambda>f. f \<noteq> finalizerName) (kp_finalizers pod)\<rparr>) else None)"
    using assms unfolding w
    by (auto simp: kae_Reconcile_def updateQos_def restoreQos_def split: if_splits sum.splits prod.splits option.splits)
qed

definition device_of :: "qos_state \<Rightarrow> kae_pod \<Rightarrow> string \<Rightarrow> string \<Rightarrow> bool" where
  "device_of st pod res d \<longleftrightarrow>
     (\<exists>ds. getDeviceIds (qs_client st) (ns_name (kp_namespace pod) (kp_name pod)) res = Some ds \<and> d \<in> set ds)"

definition limits_name :: "kae_pod \<Rightarrow> string \<Rightarrow> bool" where
  "limits_name pod res \<longleftrightarrow> isSupportDevice res \<and> (\<exists>c\<in>set (kp_containers pod). map_of (res_map (kc_limits c)) res \<noteq> None)"

lemma order_limits:
  "set order = fst ` set supportDeivce \<Longrightarrow> res \<in> set (allocated_resources order pod) \<longleftrightarrow> limits_name pod res"
  by (simp add: allocated_iff limits_name_def isSupportDevice_def map_of_eq_None_iff)

lemma set_share_lines:
  "p \<in> set (share_lines fs c key gq res) \<longleftrightarrow>
     (\<exists>d. (\<exists>ds. getDeviceIds c key res = Some ds \<and> d \<in> set ds) \<and> p = share_line fs res (gq res) d)"
  by (cases "getDeviceIds c key res") (auto simp: share_lines_def)

lemma Reconcile_lines:
  assumes "kae_Reconcile env st = (st', stored, None)" "qe_get env = PodFound pod" "finalizerName \<in> set (kp_finalizers pod)"
    and "set (qe_order env) = fst ` set supportDeivce"
  shows "\<exists>new. qs_log st' = qs_log st @ new \<and>
      (\<forall>p. p \<in> set new \<longleftrightarrow> (\<exists>res d. limits_name pod res \<and> device_of st' pod res d \<and>
        p = share_line (qe_fs env) res (wanted_share pod res) d))"
    and "\<And>res. limits_name pod res \<Longrightarrow> isValidQos (wanted_share pod res) \<and> (\<exists>d. device_of st' pod res d)"
proof -
  let ?key = "ns_name (kp_namespace pod) (kp_name pod)" and ?rs = "allocated_resources (qe_order env) pod"
  have loop: "apply_loop (qe_fs env) (qs_client st') ?key (wanted_share pod) ?rs (qs_log st) = (qs_log st', None)"
    using Reconcile_applies(2)[OF assms(1-3)] by (simp add: applyQos_def)
  note all = apply_loop_all[OF loop]
  have "apply_loop (qe_fs env) (qs_client st') ?key (wanted_share pod) ?rs (qs_log st) =
      (qs_log st @ concat (map (share_lines (qe_fs env) (qs_client st') ?key (wanted_share pod)) ?rs), None)"
    by (rule apply_loop_ok) (rule all)
  with loop have "qs_log st' = qs_log st @ concat (map (share_lines (qe_fs env) (qs_client st') ?key (wanted_share pod)) ?rs)"
    by simp
  moreover have "p \<in> set (concat (map (share_lines (qe_fs env) (qs_client st') ?key (wanted_share pod)) ?rs)) \<longleftrightarrow>
      (\<exists>res d. limits_name pod res \<and> device_of st' pod res d \<and> p = share_line (qe_fs env) res (wanted_share pod res) d)" for p
    unfolding order_limits[OF assms(4), symmetric] device_of_def set_concat set_map UN_iff bex_simps set_share_lines
    by blast
  ultimately show "\<exists>new. qs_log st' = qs_log st @ new \<and>
      (\<forall>p. p \<in> set new \<longleftrightarrow> (\<exists>res d. limits_name pod res \<and> device_of st' pod res d \<and>
        p = share_line (qe_fs env) res (wanted_share pod res) d))" by blast
  show "isValidQos (wanted_share pod res) \<and> (\<exists>d. device_of st' pod res d)" if lim: "limits_name pod res" for res
  proof -
    obtain ds where ds: "getDeviceIds (qs_client st') ?key res = Some ds" "isValidQos (wanted_share pod res)"
      using all[of res] lim order_limits[OF assms(4)] by auto
    then have "ds \<noteq> []" by (auto simp: getDeviceIds_def split: option.splits list.splits)
    then show ?thesis using ds by (auto simp: device_of_def intro: exI[where x = "hd ds"])
  qed
qed



section \<open>The finalizer\<close>

lemma Reconcile_ready:
  assumes "qe_get env = PodFound pod" "kp_deleting pod" "finalizerName \<in> set (kp_finalizers pod)"
    and "fetchPodResources (qe_api env) (kp_namespace pod) (kp_name pod) (qs_client st) = Inr c"
    and "set (qe_order env) = fst ` set supportDeivce" "qe_update env"
    and "\<And>res. limits_name pod res \<Longrightarrow> \<exists>ds. getDeviceIds c (ns_name (kp_namespace pod) (kp_name pod)) res = Some ds \<and>
      list_all (writable (qe_fs env) (getResourceType res)) ds"
  shows "\<exists>st'. kae_Reconcile env st =
    (st', Some (pod\<lparr>kp_finalizers := filter (\<lambda>f. f \<noteq> finalizerName) (kp_finalizers pod)\<rparr>), None)"
proof -
  have "\<exists>out. applyQos (qe_order env) (qe_fs env) c pod (\<lambda>res. kaeDefaultQos) (qs_log st) = (out, None)"
    unfolding applyQos_def
  proof (rule exI, rule apply_loop_ok)
    fix res
    assume "res \<in> set (allocated_resources (qe_order env) pod)"
    then have l: "limits_name pod res" using order_limits[OF assms(5)] by simp
    have "isValidQos kaeDefaultQos" by code_simp
    moreover have "getResourceType res \<noteq> []"
      using l by (auto simp: limits_name_def isSupportDevice_def getResourceType_def supportDeivce_def split: if_splits)
    ultimately show "getResourceType res \<noteq> [] \<and> isValidQos kaeDefaultQos \<and>
      (\<exists>ds. getDeviceIds c (ns_name (kp_namespace pod) (kp_name pod)) res = Some ds \<and>
        list_all (writable (qe_fs env) (getResourceType res)) ds)" using assms(7)[OF l] by blast
  qed
  then show ?thesis using assms(1-4,6) by (auto simp: kae_Reconcile_def restoreQos_def)
qed

lemma Reconcile_stored:
  assumes "kae_Reconcile env st = (st', Some p, err)" "qe_get env = PodFound pod"
  shows "err = None" and "kp_phase p = kp_phase pod"
    and "finalizerName \<in> set (kp_finalizers pod) \<Longrightarrow> finalizerName \<notin> set (kp_finalizers p) \<and> kp_deleting pod"
    and "finalizerName \<notin> set (kp_finalizers pod) \<Longrightarrow> finalizerName \<in> set (kp_finalizers p) \<and> st' = st"
  using assms by (auto simp: kae_Reconcile_def split: if_splits sum.splits prod.splits option.splits)

lemma finalizer_after_restore_parts:
  assumes "qe_get env = PodFound pod" "finalizerName \<in> set (kp_finalizers pod)" "set (qe_order env) = fst ` set supportDeivce"
  shows "kae_Reconcile env st = (st', Some p, err) \<Longrightarrow> limits_name pod res \<Longrightarrow> device_of st' pod res d \<Longrightarrow>
      \<exists>new. qs_log st' = qs_log st @ new \<and> share_line (qe_fs env) res ''1000'' d \<in> set new"
    and "kp_deleting pod \<Longrightarrow> qe_update env \<Longrightarrow>
      fetchPodResources (qe_api env) (kp_namespace pod) (kp_name pod) (qs_client st) = Inr c \<Longrightarrow>
      (\<And>r. limits_name pod r \<Longrightarrow> \<exists>ds. getDeviceIds c (ns_name (kp_namespace pod) (kp_name pod)) r = Some ds \<and>
        list_all (writable (qe_fs env) (getResourceType r)) ds) \<Longrightarrow>
      \<exists>st' p. kae_Reconcile env st = (st', Some p, None) \<and> finalizerName \<notin> set (kp_finalizers p)"
proof -
  assume a: "kae_Reconcile env st = (st', Some p, err)" "limits_name pod res" "device_of st' pod res d"
  have del: "kp_deleting pod" "err = None" using Reconcile_stored[OF a(1) assms(1)] assms(2) by blast+
  then have w: "wanted_share pod res = ''1000''" by (simp add: wanted_share_def kaeDefaultQos_def)
  from Reconcile_lines(1)[OF a(1)[unfolded del(2)] assms] a(2,3) w
  show "\<exists>new. qs_log st' = qs_log st @ new \<and> share_line (qe_fs env) res ''1000'' d \<in> set new" by metis
next
  assume b: "kp_deleting pod" "qe_update env"
    "fetchPodResources (qe_api env) (kp_namespace pod) (kp_name pod) (qs_client st) = Inr c"
    and w: "\<And>r. limits_name pod r \<Longrightarrow> \<exists>ds. getDeviceIds c (ns_name (kp_namespace pod) (kp_name pod)) r = Some ds \<and>
        list_all (writable (qe_fs env) (getResourceType r)) ds"
  from Reconcile_ready[OF assms(1) b(1) assms(2) b(3) assms(3) b(2) w]
  show "\<exists>st' p. kae_Reconcile env st = (st', Some p, None) \<and> finalizerName \<notin> set (kp_finalizers p)" by fastforce
qed

text \<open>C30. The finalizer protects the restoration: a call that takes it off a pod has, in the same call,
  written the default share for every device of every supported resource of that pod; and it does take
  it off a pod under deletion as soon as the kubelet names the devices, their files can be written and
  the API server accepts the update.\<close>

theorem finalizer_after_restore:
  assumes "qe_get env = PodFound pod" "finalizerName \<in> set (kp_finalizers pod)" "set (qe_order env) = fst ` set supportDeivce"
  shows "(\<forall>st' p err res d. kae_Reconcile env st = (st', Some p, err) \<longrightarrow> limits_name pod res \<longrightarrow> device_of st' pod res d \<longrightarrow>
      (\<exists>new. qs_log st' = qs_log st @ new \<and> share_line (qe_fs env) res ''1000'' d \<in> set new)) \<and>
    (\<forall>c. kp_deleting pod \<longrightarrow> qe_update env \<longrightarrow>
      fetchPodResources (qe_api env) (kp_namespace pod) (kp_name pod) (qs_client st) = Inr c \<longrightarrow>
      (\<forall>r. limits_name pod r \<longrightarrow> (\<exists>ds. getDeviceIds c (ns_name (kp_namespace pod) (kp_name pod)) r = Some ds \<and>
        list_all (writable (qe_fs env) (getResourceType r)) ds)) \<longrightarrow>
      (\<exists>st' p. kae_Reconcile env st = (st', Some p, None) \<and> finalizerName \<notin> set (kp_finalizers p)))"
  using finalizer_after_restore_parts[OF assms] by blast


lemma completed_step:
  assumes "pod_step nodeName (pod, st) (pod', st')"
    and "kp_phase pod \<in> {''Succeeded'', ''Failed''}" "finalizerName \<in> set (kp_finalizers pod)"
  shows "kp_phase pod' \<in> {''Succeeded'', ''Failed''} \<and> finalizerName \<in> set (kp_finalizers pod')"
  using assms(1)
proof (cases rule: pod_step.cases)
  case others_change
  then show ?thesis using assms(2,3) by auto
next
  case (reconciled env stored err)
  then show ?thesis using assms(2) by (auto simp: nodePredicate_def)
qed

lemma completed_pod_keeps_finalizer_parts:
  assumes "(pod_step nodeName)\<^sup>*\<^sup>* (pod, st) (pod', st')"
    and "kp_phase pod \<in> {''Succeeded'', ''Failed''}" "finalizerName \<in> set (kp_finalizers pod)"
  shows "finalizerName \<in> set (kp_finalizers pod')" "qs_log st' = qs_log st"
proof -
  have "kp_phase pod' \<in> {''Succeeded'', ''Failed''} \<and> finalizerName \<in> set (kp_finalizers pod') \<and> qs_log st' = qs_log st"
    using assms
  proof (induction "(pod', st')" arbitrary: pod' st' rule: rtranclp_induct)
    case (step b)
    obtain p s where b: "b = (p, s)" by (cases b)
    have ih: "kp_phase p \<in> {''Succeeded'', ''Failed''}" "finalizerName \<in> set (kp_finalizers p)" "qs_log s = qs_log st"
      using step.hyps(3)[OF b] step.prems by simp_all
    have "s = st'" using step.hyps(2)[unfolded b] ih(1) by cases (auto simp: nodePredicate_def)
    with completed_step[OF step.hyps(2)[unfolded b] ih(1,2)] ih(3) show ?case by simp
  qed auto
  then show "finalizerName \<in> set (kp_finalizers pod')" "qs_log st' = qs_log st" by simp_all
qed

text \<open>The event filter lets only running pods pass. A pod that holds the finalizer when its containers
  have ended therefore keeps it for ever, whatever the API server, the kubelet and the files answer: its
  shares are never restored, and Kubernetes cannot finish its deletion.\<close>

theorem completed_pod_keeps_finalizer:
  assumes "(pod_step nodeName)\<^sup>*\<^sup>* (pod, st) (pod', st')"
    and "kp_phase pod \<in> {''Succeeded'', ''Failed''}" "finalizerName \<in> set (kp_finalizers pod)"
  shows "finalizerName \<in> set (kp_finalizers pod') \<and> qs_log st' = qs_log st"
  using completed_pod_keeps_finalizer_parts[OF assms] by simp



section \<open>A pod with one device\<close>

definition demo_qos_pod :: kae_pod where
  "demo_qos_pod = \<lparr>kp_name = ''web'', kp_namespace = ''tenant-a'',
     kp_annotations = Some [(''qos.kae.kunpeng.com/hisi_zip'', ''200'')], kp_finalizers = [finalizerName], kp_deleting = False,
     kp_containers = [\<lparr>kc_name = ''c0'', kc_requests = None,
       kc_limits = Some [(''cpu'', 1000000000), (''kae.kunpeng.com/hisi_zip'', 1000000000)], kc_env = []\<rparr>],
     kp_init_containers = [], kp_node_name = ''n1'', kp_phase = ''Running''\<rparr>"

definition demo_qos_env :: "kae_pod \<Rightarrow> qos_env" where
  "demo_qos_env pod =
     \<lparr>qe_get = PodFound pod, qe_update = True,
      qe_api = \<lparr>ka_get = (\<lambda>ns name. Some \<lparr>pd_namespace = ns, pd_name = name,
        pd_containers = [[(''kae.kunpeng.com/hisi_zip'', [''0000:31:00.1''])]]\<rparr>), ka_list = None\<rparr>,
      qe_fs = \<lparr>qf_link = (\<lambda>p. Some ''../0000:31:00.0''), qf_exists = (\<lambda>_. True), qf_writable = (\<lambda>_. True)\<rparr>,
      qe_order = map fst supportDeivce\<rparr>"

definition demo_qos_state :: qos_state where
  "demo_qos_state = \<lparr>qs_client = NewQosManager (\<lambda>_. Some CodeNotFound), qs_log = []\<rparr>"

definition demo_qos_done :: "qos_log \<Rightarrow> qos_state" where
  "demo_qos_done out = \<lparr>qs_client = \<lparr>pr_resources = [(''tenant-a/web'', [(''kae.kunpeng.com/hisi_zip'', [''0000:31:00.1''])])],
     pr_get_enabled = True\<rparr>, qs_log = out\<rparr>"

definition demo_qos_line :: "string \<Rightarrow> string \<times> string" where
  "demo_qos_line q = (''/sys/kernel/debug/hisi_zip/0000:31:00.0/alg_qos'', ''0000:31:00.1 '' @ q)"

lemma demo_qos_update:
  "kae_Reconcile (demo_qos_env demo_qos_pod) demo_qos_state = (demo_qos_done [demo_qos_line ''200''], None, None)"
  by code_simp

lemma demo_qos_restore:
  "kae_Reconcile (demo_qos_env (demo_qos_pod\<lparr>kp_deleting := True\<rparr>)) (demo_qos_done [demo_qos_line ''200'']) =
     (demo_qos_done [demo_qos_line ''200'', demo_qos_line ''1000''], Some (demo_qos_pod\<lparr>kp_deleting := True, kp_finalizers := []\<rparr>), None)"
  by code_simp

theorem qos_lines_in_range_witness: "\<forall>p\<in>set [demo_qos_line ''200'']. share_text (snd p)"
  using qos_lines_in_range[OF demo_qos_update] by (simp add: demo_qos_done_def demo_qos_state_def)

lemma demo_qos_facts:
  "qe_get (demo_qos_env pod) = PodFound pod" "set (qe_order (demo_qos_env pod)) = fst ` set supportDeivce"
  "finalizerName \<in> set (kp_finalizers demo_qos_pod)"
  by (simp_all add: demo_qos_env_def demo_qos_pod_def)


theorem finalizer_after_restore_witness:
  "\<exists>new. [demo_qos_line ''200'', demo_qos_line ''1000''] = [demo_qos_line ''200''] @ new \<and>
     share_line (qe_fs (demo_qos_env demo_qos_pod)) ''kae.kunpeng.com/hisi_zip'' ''1000'' ''0000:31:00.1'' \<in> set new"
proof -
  let ?pod = "demo_qos_pod\<lparr>kp_deleting := True\<rparr>"
  have fin: "finalizerName \<in> set (kp_finalizers ?pod)" by (simp add: demo_qos_pod_def)
  have lim: "limits_name ?pod ''kae.kunpeng.com/hisi_zip''"
    by (simp add: limits_name_def isSupportDevice_def supportDeivce_def demo_qos_pod_def res_map_def)
  have dev: "device_of (demo_qos_done [demo_qos_line ''200'', demo_qos_line ''1000'']) ?pod ''kae.kunpeng.com/hisi_zip'' ''0000:31:00.1''"
    by (simp add: device_of_def demo_qos_done_def getDeviceIds_def ns_name_def demo_qos_pod_def)
  have fs: "qe_fs (demo_qos_env ?pod) = qe_fs (demo_qos_env demo_qos_pod)" by (simp add: demo_qos_env_def)
  show ?thesis
    using finalizer_after_restore[OF demo_qos_facts(1) fin demo_qos_facts(2), THEN conjunct1, rule_format, OF demo_qos_restore lim dev]
    by (simp add: fs) (simp add: demo_qos_done_def)
qed

theorem completed_pod_keeps_finalizer_witness:
  "finalizerName \<in> set (kp_finalizers (demo_qos_pod\<lparr>kp_phase := ''Succeeded'', kp_deleting := True\<rparr>))"
proof (rule completed_pod_keeps_finalizer[THEN conjunct1])
  show "(pod_step ''n1'')\<^sup>*\<^sup>* (demo_qos_pod\<lparr>kp_phase := ''Succeeded''\<rparr>, demo_qos_state)
      (demo_qos_pod\<lparr>kp_phase := ''Succeeded'', kp_deleting := True\<rparr>, demo_qos_state)"
    by (rule r_into_rtranclp, rule others_change) simp_all
  show "kp_phase (demo_qos_pod\<lparr>kp_phase := ''Succeeded''\<rparr>) \<in> {''Succeeded'', ''Failed''}" by simp
  show "finalizerName \<in> set (kp_finalizers (demo_qos_pod\<lparr>kp_phase := ''Succeeded''\<rparr>))"
    using demo_qos_facts(3) by simp
qed

end
