(* ===== verification/GoRegexp.thy ===== *)
theory GoRegexp
  imports GoStrings GoFloat
begin

text \<open>
  The part of Go's \<open>regexp\<close> package that the report parsers of the DevKit collectors use: a pattern is
  a term, and matching explores its alternatives in Go's order of preference (leftmost first, greedy or
  lazy as written), so the first success is the match Go reports. A star applies to one character class,
  which is how every pattern of the program uses it. Texts are bytes: the classes that can meet a
  multi-byte character (\<open>.\<close>, \<open>\S\<close>, \<open>[^']\<close>) contain all its bytes, and the marks next to them are ASCII.
  At the end, \<open>strconv.ParseFloat\<close> on the texts of digits and dots that the patterns let through.
\<close>

section \<open>Patterns\<close>

datatype regexp =
    Eps
  | Cls "char \<Rightarrow> bool"
  | Rep bool "char \<Rightarrow> bool"
  | Cat regexp regexp
  | Or regexp regexp
  | Cap nat regexp
  | Bol
  | Eol
  | BeginText
  | EndText

text \<open>A position is its offset, the byte before it and the text after it; captures are numbered.\<close>

type_synonym rpos = "int \<times> char option \<times> string"
type_synonym captures = "(nat \<times> string) list"

definition rp_offset :: "rpos \<Rightarrow> int" where "rp_offset p = fst p"
definition rp_rest :: "rpos \<Rightarrow> string" where "rp_rest p = snd (snd p)"

definition text_start :: "string \<Rightarrow> rpos" where "text_start s = (0, None, s)"

definition NL :: char where "NL = CHR 0x0A"

fun at_bol :: "rpos \<Rightarrow> bool" where
  "at_bol (i, prev, s) = (case prev of None \<Rightarrow> True | Some c \<Rightarrow> c = NL)"

fun at_eol :: "rpos \<Rightarrow> bool" where
  "at_eol (i, prev, s) = (case s of [] \<Rightarrow> True | c # cs \<Rightarrow> c = NL)"

text \<open>A repetition tries its continuation after every number of characters, the longest first when it
  is greedy (\<open>*\<close>), the shortest first when it is lazy (\<open>*?\<close>).\<close>

fun rep_match :: "bool \<Rightarrow> (char \<Rightarrow> bool) \<Rightarrow> int \<Rightarrow> char option \<Rightarrow> string \<Rightarrow> (rpos \<Rightarrow> 'r option) \<Rightarrow> 'r option" where
  "rep_match greedy P i prev [] k = k (i, prev, [])"
| "rep_match greedy P i prev (c # cs) k =
     (if P c then
        (if greedy then
           (case rep_match greedy P (i + 1) (Some c) cs k of
              None \<Rightarrow> k (i, prev, c # cs)
            | Some r \<Rightarrow> Some r)
         else
           (case k (i, prev, c # cs) of
              None \<Rightarrow> rep_match greedy P (i + 1) (Some c) cs k
            | Some r \<Rightarrow> Some r))
      else k (i, prev, c # cs))"

fun class_match :: "(char \<Rightarrow> bool) \<Rightarrow> rpos \<Rightarrow> (rpos \<Rightarrow> 'r option) \<Rightarrow> 'r option" where
  "class_match P (i, prev, []) k = None"
| "class_match P (i, prev, c # cs) k = (if P c then k (i + 1, Some c, cs) else None)"

primrec regexp_match ::
  "regexp \<Rightarrow> rpos \<Rightarrow> captures \<Rightarrow> (rpos \<Rightarrow> captures \<Rightarrow> 'r option) \<Rightarrow> 'r option" where
  "regexp_match Eps p cs k = k p cs"
| "regexp_match (Cls P) p cs k = class_match P p (\<lambda>p'. k p' cs)"
| "regexp_match (Rep greedy P) p cs k = rep_match greedy P (fst p) (fst (snd p)) (snd (snd p)) (\<lambda>p'. k p' cs)"
| "regexp_match (Cat r s) p cs k = regexp_match r p cs (\<lambda>p' cs'. regexp_match s p' cs' k)"
| "regexp_match (Or r s) p cs k =
     (case regexp_match r p cs k of None \<Rightarrow> regexp_match s p cs k | Some x \<Rightarrow> Some x)"
| "regexp_match (Cap n r) p cs k =
     regexp_match r p cs (\<lambda>p' cs'. k p' ((n, take (nat (rp_offset p' - rp_offset p)) (rp_rest p)) # cs'))"
| "regexp_match Bol p cs k = (if at_bol p then k p cs else None)"
| "regexp_match Eol p cs k = (if at_eol p then k p cs else None)"
| "regexp_match BeginText p cs k = (if fst (snd p) = None then k p cs else None)"
| "regexp_match EndText p cs k = (if rp_rest p = [] then k p cs else None)"

section \<open>Searching\<close>

text \<open>A match: where it begins, where it ends, its captures.\<close>

type_synonym rmatch = "rpos \<times> rpos \<times> captures"

definition match_here :: "regexp \<Rightarrow> rpos \<Rightarrow> rmatch option" where
  "match_here r p = regexp_match r p [] (\<lambda>e cs. Some (p, e, cs))"

fun find_from :: "regexp \<Rightarrow> int \<Rightarrow> char option \<Rightarrow> string \<Rightarrow> rmatch option" where
  "find_from r i prev [] = match_here r (i, prev, [])"
| "find_from r i prev (c # cs) =
     (case match_here r (i, prev, c # cs) of
        None \<Rightarrow> find_from r (i + 1) (Some c) cs
      | Some m \<Rightarrow> Some m)"

definition regexp_find :: "regexp \<Rightarrow> string \<Rightarrow> rmatch option" where
  "regexp_find r s = find_from r 0 None s"

definition regexp_matches :: "regexp \<Rightarrow> string \<Rightarrow> bool" where
  "regexp_matches r s \<longleftrightarrow> regexp_find r s \<noteq> None"

definition group :: "nat \<Rightarrow> rmatch \<Rightarrow> string" where
  "group n m = (case map_of (snd (snd m)) n of None \<Rightarrow> [] | Some t \<Rightarrow> t)"

definition match_start :: "rmatch \<Rightarrow> rpos" where "match_start m = fst m"
definition match_end :: "rmatch \<Rightarrow> rpos" where "match_end m = fst (snd m)"

definition match_text :: "rmatch \<Rightarrow> string" where
  "match_text m = take (nat (rp_offset (match_end m) - rp_offset (match_start m))) (rp_rest (match_start m))"

text \<open>Later positions of the same text.\<close>

definition later :: "rpos \<Rightarrow> rpos \<Rightarrow> bool" where
  "later p q \<longleftrightarrow> (\<exists>w. rp_rest p = w @ rp_rest q \<and> rp_offset q = rp_offset p + int (length w))"

lemma later_refl [simp, intro]: "later p p"
  by (simp add: later_def)

lemma later_trans [trans]: "later p q \<Longrightarrow> later q r \<Longrightarrow> later p r"
  unfolding later_def by (metis append_assoc length_append of_nat_add add.assoc)

lemma later_next: "later (i, prev, c # cs) (i + 1, prev', cs)"
  by (auto simp: later_def rp_rest_def rp_offset_def intro!: exI[of _ "[c]"])

lemma later_length: "later p q \<Longrightarrow> int (length (rp_rest p)) = int (length (rp_rest q)) + (rp_offset q - rp_offset p)"
  by (auto simp: later_def)

lemma rep_match_later:
  "rep_match g P i prev s k = Some x \<Longrightarrow> \<exists>q. later (i, prev, s) q \<and> k q = Some x"
proof (induction g P i prev s k rule: rep_match.induct)
  case (2 greedy P i prev c cs k)
  note more = later_trans[OF later_next]
  show ?case
  proof (cases "P c")
    case True
    show ?thesis
    proof (cases greedy)
      case g: True
      then show ?thesis using 2(1)[OF True g] 2(3) True
        by (auto split: option.splits intro: later_refl dest: more[of i "Some c" cs _ prev c])
    next
      case g: False
      then show ?thesis using 2(2)[OF True g] 2(3) True
        by (auto split: option.splits intro: later_refl dest: more[of i "Some c" cs _ prev c])
    qed
  qed (use 2(3) in auto)
qed (auto intro: later_refl)

lemma class_match_later: "class_match P p k = Some x \<Longrightarrow> \<exists>q. later p q \<and> k q = Some x"
  by (cases "(P, p, k)" rule: class_match.cases) (auto split: if_splits intro: later_next)

lemma regexp_match_later:
  "regexp_match r p cs k = Some x \<Longrightarrow> \<exists>q cs'. later p q \<and> k q cs' = Some x"
proof (induction r arbitrary: p cs k)
  case (Cls P)
  then obtain q where "later p q" "k q cs = Some x" using class_match_later[of P p "\<lambda>p'. k p' cs" x] by auto
  then show ?case by blast
next
  case (Rep g P)
  then have "rep_match g P (fst p) (fst (snd p)) (snd (snd p)) (\<lambda>p'. k p' cs) = Some x" by simp
  from rep_match_later[OF this] show ?case by auto
next
  case (Cat r s)
  from Cat.IH(1)[OF Cat.prems[unfolded regexp_match.simps]] obtain q cs'
    where q: "later p q" "regexp_match s q cs' k = Some x" by blast
  from Cat.IH(2)[OF q(2)] q(1) later_trans show ?case by blast
next
  case (Or r s)
  then show ?case by (auto split: option.splits)
next
  case (Cap n r)
  from Cap.IH[OF Cap.prems[unfolded regexp_match.simps]] show ?case by blast
qed (auto split: if_splits)

lemma match_here_later: "match_here r p = Some m \<Longrightarrow> match_start m = p \<and> later p (match_end m)"
  unfolding match_here_def by (drule regexp_match_later) (auto simp: match_start_def match_end_def)

lemma find_from_later:
  "find_from r i prev s = Some m \<Longrightarrow> later (i, prev, s) (match_start m) \<and> later (match_start m) (match_end m)"
proof (induction r i prev s rule: find_from.induct)
  case (2 r i prev c cs)
  then show ?case
    by (auto split: option.splits dest: match_here_later intro: later_trans[OF later_next])
qed (auto dest: match_here_later)

text \<open>\<open>FindAllStringSubmatch\<close>: the matches one after the other. No pattern of the program matches the
  empty text, so the search never has to step over an empty match.\<close>

function find_all_from :: "regexp \<Rightarrow> rpos \<Rightarrow> rmatch list" where
  "find_all_from r p =
     (case find_from r (fst p) (fst (snd p)) (snd (snd p)) of
        None \<Rightarrow> []
      | Some m \<Rightarrow> if rp_offset p < rp_offset (match_end m) then m # find_all_from r (match_end m) else [m])"
  by pat_completeness auto
termination
proof (relation "measure (\<lambda>(r, p). length (rp_rest p))", simp)
  fix r p m
  assume f: "find_from r (fst p) (fst (snd p)) (snd (snd p)) = Some m" and lt: "rp_offset p < rp_offset (match_end m)"
  have "later p (match_end m)" using find_from_later[OF f] later_trans by (metis prod.collapse)
  with lt show "((r, match_end m), (r, p)) \<in> measure (\<lambda>(r, p). length (rp_rest p))"
    by (auto dest!: later_length)
qed

declare find_all_from.simps [simp del]

definition regexp_find_all :: "regexp \<Rightarrow> string \<Rightarrow> rmatch list" where
  "regexp_find_all r s = find_all_from r (text_start s)"

section \<open>Building patterns\<close>

definition rx_digit :: "char \<Rightarrow> bool" where "rx_digit c \<longleftrightarrow> is_digit c"
definition rx_space :: "char \<Rightarrow> bool" where
  "rx_space c \<longleftrightarrow> c \<in> {CHR '' '', CHR 0x09, CHR 0x0A, CHR 0x0C, CHR 0x0D}"
definition rx_dot :: "char \<Rightarrow> bool" where "rx_dot c \<longleftrightarrow> c \<noteq> NL"
definition rx_alnum :: "char \<Rightarrow> bool" where
  "rx_alnum c = (let n = of_char c :: nat in (48 \<le> n \<and> n \<le> 57) \<or> (65 \<le> n \<and> n \<le> 90) \<or> (97 \<le> n \<and> n \<le> 122))"
definition rx_hex :: "char \<Rightarrow> bool" where
  "rx_hex c = (let n = of_char c :: nat in (48 \<le> n \<and> n \<le> 57) \<or> (65 \<le> n \<and> n \<le> 70) \<or> (97 \<le> n \<and> n \<le> 102))"
definition rx_one_of :: "string \<Rightarrow> char \<Rightarrow> bool" where "rx_one_of cs c \<longleftrightarrow> c \<in> set cs"

fun rx_seq :: "regexp list \<Rightarrow> regexp" where
  "rx_seq [] = Eps"
| "rx_seq [r] = r"
| "rx_seq (r # s # rs) = Cat r (rx_seq (s # rs))"

definition rx_char :: "char \<Rightarrow> regexp" where "rx_char c = Cls (\<lambda>x. x = c)"
definition rx_lit :: "string \<Rightarrow> regexp" where "rx_lit s = rx_seq (map rx_char s)"
definition rx_star :: "(char \<Rightarrow> bool) \<Rightarrow> regexp" where "rx_star P = Rep True P"
definition rx_plus :: "(char \<Rightarrow> bool) \<Rightarrow> regexp" where "rx_plus P = Cat (Cls P) (Rep True P)"
definition rx_plus_lazy :: "(char \<Rightarrow> bool) \<Rightarrow> regexp" where "rx_plus_lazy P = Cat (Cls P) (Rep False P)"
definition rx_opt :: "regexp \<Rightarrow> regexp" where "rx_opt r = Or r Eps"

section \<open>Decimal texts\<close>

text \<open>The \<open>float64\<close> nearest to a non-negative number, subnormals included; \<^const>\<open>None\<close> is the range error.\<close>

definition f64_nearest :: "rat \<Rightarrow> rat option" where
  "f64_nearest x =
     (let e = max (f64_exp x) (- 1074);
          y = (if x = 0 then 0 else of_int (round_half_even (x / 2 powi e)) * 2 powi e)
      in if 1024 < bitlen \<lfloor>y\<rfloor> then None else Some y)"

definition parse_decimal :: "string \<Rightarrow> rat option" where
  "parse_decimal s =
     (case go_split ''.'' s of
        [a] \<Rightarrow> Option.bind (parse_nat a) (\<lambda>n. f64_nearest (of_int n))
      | [a, b] \<Rightarrow> Option.bind (parse_nat (a @ b)) (\<lambda>n. f64_nearest (of_int n / 10 ^ length b))
      | _ \<Rightarrow> None)"

end
