(* ===== verification/DevkitSelector.thy ===== *)
theory DevkitSelector
  imports GoStrings
begin

text \<open>
  The CPU and PID selectors of the DevKit collectors (\<open>pkg/kunpeng-perf-monitor/collector/devkit_selector.go\<close>):
  their limits, their parsing, the canonical texts that are compared, and the comparison of the
  requested and the reported scope of a TopDown report. A \<open>uint64\<close> is an \<^typ>\<open>int\<close> between 0 and
  \<open>2\<^sup>6\<^sup>4 - 1\<close>; the host's files are arguments.
\<close>

section \<open>Numbers and limits\<close>

definition maxDevkitCPUSelectorCharacters :: nat where "maxDevkitCPUSelectorCharacters = 1024"
definition maxDevkitPIDSelectorCharacters :: nat where "maxDevkitPIDSelectorCharacters = 512"
definition maxDevkitCPUSelectorElements :: nat where "maxDevkitCPUSelectorElements = 512"
definition maxDevkitPIDSelectorElements :: nat where "maxDevkitPIDSelectorElements = 32"
definition fallbackMaxDevkitCPU :: int where "fallbackMaxDevkitCPU = 1024"
definition fallbackMaxDevkitPID :: int where "fallbackMaxDevkitPID = 4194304"
definition MaxUint64 :: int where "MaxUint64 = 18446744073709551615"

text \<open>\<open>utf8.RuneCountInString\<close> on valid UTF-8, the encoding of every YAML text: the bytes that do not
  continue a character.\<close>

definition rune_count :: "string \<Rightarrow> nat" where
  "rune_count s = length (filter (\<lambda>c. let n = of_char c :: nat in n < 128 \<or> 192 \<le> n) s)"

definition validateDevkitSelectorSize :: "string \<Rightarrow> nat \<Rightarrow> nat \<Rightarrow> unit result" where
  "validateDevkitSelectorSize raw maxCharacters maxElements =
     (if maxCharacters < rune_count raw then Inl (Err ''length_limit'')
      else if raw = [] then Inl (Err ''invalid_format: selector is empty'')
      else if maxElements < length (filter (\<lambda>c. c = CHR '','') raw) + 1 then Inl (Err ''element_limit'')
      else Inr ())"

definition parseDevkitUnsigned :: "string \<Rightarrow> int result" where
  "parseDevkitUnsigned raw =
     (if raw = [] then Inl (Err ''invalid_format: empty number'')
      else if \<not> list_all is_digit raw then Inl (Err ''invalid_format: not an unsigned decimal number'')
      else (case parse_u64 raw of None \<Rightarrow> Inl (Err ''overflow'') | Some v \<Rightarrow> Inr v))"

section \<open>CPU selectors\<close>

type_synonym cpu_interval = "int \<times> int"

definition parse_cpu_element :: "int \<Rightarrow> string \<Rightarrow> cpu_interval result" where
  "parse_cpu_element maxCPU element =
     (let bounds = go_split ''-'' element in
      if length bounds < 1 \<or> 2 < length bounds then Inl (Err ''invalid_format: not a number or range'')
      else
        (case parseDevkitUnsigned (hd bounds) of
           Inl e \<Rightarrow> Inl e
         | Inr start \<Rightarrow>
             (case (if length bounds = 2 then parseDevkitUnsigned (bounds ! 1) else Inr start) of
                Inl e \<Rightarrow> Inl e
              | Inr stop \<Rightarrow>
                  if maxCPU < start \<or> maxCPU < stop then Inl (Err ''value_out_of_range'')
                  else if stop < start then Inr (stop, start)
                  else Inr (start, stop))))"

fun parse_cpu_elements :: "int \<Rightarrow> string list \<Rightarrow> cpu_interval list result" where
  "parse_cpu_elements maxCPU [] = Inr []"
| "parse_cpu_elements maxCPU (e # es) =
     (case parse_cpu_element maxCPU e of
        Inl x \<Rightarrow> Inl x
      | Inr i \<Rightarrow> (case parse_cpu_elements maxCPU es of Inl x \<Rightarrow> Inl x | Inr is \<Rightarrow> Inr (i # is)))"

definition interval_less :: "cpu_interval \<Rightarrow> cpu_interval \<Rightarrow> bool" where
  "interval_less a b = (if fst a = fst b then snd a < snd b else fst a < fst b)"

text \<open>The merging loop; the first argument is \<open>merged\<close> with its last interval in front.\<close>

fun merge_loop :: "cpu_interval list \<Rightarrow> cpu_interval list \<Rightarrow> cpu_interval list" where
  "merge_loop acc [] = rev acc"
| "merge_loop [] (i # is) = merge_loop [i] is"
| "merge_loop ((s, e) # acc) ((a, b) # is) =
     (if a \<le> e \<or> (e < MaxUint64 \<and> a = e + 1) then merge_loop ((s, if e < b then b else e) # acc) is
      else merge_loop ((a, b) # (s, e) # acc) is)"

definition parseDevkitCPUIntervals :: "string \<Rightarrow> int \<Rightarrow> bool \<Rightarrow> cpu_interval list result" where
  "parseDevkitCPUIntervals raw maxCPU enforce =
     (case (if enforce then validateDevkitSelectorSize raw maxDevkitCPUSelectorCharacters maxDevkitCPUSelectorElements
            else Inr ()) of
        Inl e \<Rightarrow> Inl e
      | Inr _ \<Rightarrow>
          (case parse_cpu_elements maxCPU (go_split '','' raw) of
             Inl e \<Rightarrow> Inl e
           | Inr is \<Rightarrow> Inr (merge_loop [] (go_sort interval_less is))))"

definition interval_text :: "cpu_interval \<Rightarrow> string" where
  "interval_text i = (if fst i = snd i then itoa (fst i) else itoa (fst i) @ ''-'' @ itoa (snd i))"

definition canonicalizeDevkitCPUSelector :: "string \<Rightarrow> int \<Rightarrow> string result" where
  "canonicalizeDevkitCPUSelector raw maxCPU =
     (case parseDevkitCPUIntervals raw maxCPU True of
        Inl e \<Rightarrow> Inl e
      | Inr is \<Rightarrow> Inr (go_join '','' (map interval_text is)))"

section \<open>PID selectors\<close>

fun parse_pids :: "int \<Rightarrow> string list \<Rightarrow> int list result" where
  "parse_pids maxPID [] = Inr []"
| "parse_pids maxPID (e # es) =
     (case parseDevkitUnsigned e of
        Inl x \<Rightarrow> Inl x
      | Inr v \<Rightarrow>
          if v = 0 \<or> maxPID < v then Inl (Err ''value_out_of_range'')
          else (case parse_pids maxPID es of Inl x \<Rightarrow> Inl x | Inr vs \<Rightarrow> Inr (v # vs)))"

text \<open>The loop that skips repetitions; \<^const>\<open>None\<close> is the first round.\<close>

fun skip_repeated :: "int option \<Rightarrow> int list \<Rightarrow> int list" where
  "skip_repeated prev [] = []"
| "skip_repeated prev (v # vs) = (if prev = Some v then skip_repeated prev vs else v # skip_repeated (Some v) vs)"

definition canonicalizeDevkitPIDSelector :: "string \<Rightarrow> int \<Rightarrow> string result" where
  "canonicalizeDevkitPIDSelector raw maxPID =
     (case validateDevkitSelectorSize raw maxDevkitPIDSelectorCharacters maxDevkitPIDSelectorElements of
        Inl e \<Rightarrow> Inl e
      | Inr _ \<Rightarrow>
          (case parse_pids maxPID (go_split '','' raw) of
             Inl e \<Rightarrow> Inl e
           | Inr vs \<Rightarrow> Inr (go_join '','' (map itoa (skip_repeated None (sort_ints vs))))))"

section \<open>Limits of the host\<close>

definition devkitMaxCPU :: "string option \<Rightarrow> int" where
  "devkitMaxCPU file =
     (case file of
        None \<Rightarrow> fallbackMaxDevkitCPU
      | Some raw \<Rightarrow>
          (case parseDevkitCPUIntervals (trim_space raw) MaxUint64 False of
             Inl e \<Rightarrow> fallbackMaxDevkitCPU
           | Inr is \<Rightarrow> if is = [] then fallbackMaxDevkitCPU else snd (last is)))"

definition devkitMaxPID :: "string option \<Rightarrow> int" where
  "devkitMaxPID file =
     (case file of
        None \<Rightarrow> fallbackMaxDevkitPID
      | Some raw \<Rightarrow>
          (case parseDevkitUnsigned (trim_space raw) of
             Inl e \<Rightarrow> fallbackMaxDevkitPID
           | Inr v \<Rightarrow> if v = 0 then fallbackMaxDevkitPID else v))"

section \<open>Scopes\<close>

record topdown_scope =
  sc_type :: string
  sc_target :: string

definition devkitTopdownScopesEquivalent :: "topdown_scope \<Rightarrow> topdown_scope \<Rightarrow> bool result" where
  "devkitTopdownScopesEquivalent requested reported =
     (if sc_type requested \<noteq> sc_type reported then Inr False
      else if sc_type requested = ''system'' then Inr True
      else if sc_type requested = ''cpu'' then
        (case canonicalizeDevkitCPUSelector (sc_target requested) MaxUint64 of
           Inl e \<Rightarrow> Inl e
         | Inr a \<Rightarrow>
             (case canonicalizeDevkitCPUSelector (sc_target reported) MaxUint64 of
                Inl e \<Rightarrow> Inl e
              | Inr b \<Rightarrow> Inr (a = b)))
      else if sc_type requested = ''pid'' then
        (case canonicalizeDevkitPIDSelector (sc_target requested) MaxUint64 of
           Inl e \<Rightarrow> Inl e
         | Inr a \<Rightarrow>
             (case canonicalizeDevkitPIDSelector (sc_target reported) MaxUint64 of
                Inl e \<Rightarrow> Inl e
              | Inr b \<Rightarrow> Inr (a = b)))
      else Inl (Err ''unsupported TopDown target type''))"

section \<open>Canonical texts\<close>

interpretation cpu_slice: slice_order interval_less
  by unfold_locales (auto simp: interval_less_def split: if_splits)

text \<open>The CPUs of a list of intervals; the normal form has them apart and in order.\<close>

definition cpus_of :: "cpu_interval list \<Rightarrow> int set" where
  "cpus_of is = (\<Union>i\<in>set is. {fst i..snd i})"

fun normal :: "cpu_interval list \<Rightarrow> bool" where
  "normal [] = True"
| "normal [i] = (fst i \<le> snd i)"
| "normal (i # j # is) = (fst i \<le> snd i \<and> snd i + 1 < fst j \<and> normal (j # is))"

lemma cpus_of_simps [simp]:
  "cpus_of [] = {}" "cpus_of (i # is) = {fst i..snd i} \<union> cpus_of is"
  "cpus_of (is @ js) = cpus_of is \<union> cpus_of js" "cpus_of (rev is) = cpus_of is"
  by (auto simp: cpus_of_def)

lemma normal_above: "normal (i # is) \<Longrightarrow> x \<in> cpus_of is \<Longrightarrow> snd i + 1 < x"
proof (induction "is" arbitrary: i)
  case (Cons j "is")
  then have n: "snd i + 1 < fst j" "fst j \<le> snd j" "normal (j # is)" by (cases "is"; simp)+
  from Cons.prems(2) consider "x \<in> {fst j..snd j}" | "x \<in> cpus_of is" by auto
  then show ?case
  proof cases
    case 2
    from Cons.IH[OF n(3) this] n show ?thesis by simp
  qed (use n in simp)
qed simp

lemma normal_unique: "normal is \<Longrightarrow> normal js \<Longrightarrow> cpus_of is = cpus_of js \<Longrightarrow> is = js"
proof (induction "is" arbitrary: js)
  case Nil
  then show ?case by (cases js rule: normal.cases) auto
next
  case (Cons i "is")
  have ile: "fst i \<le> snd i" and isn: "normal is" using Cons.prems(1) by (cases "is"; simp)+
  then have "js \<noteq> []" using Cons.prems(3) by auto
  then obtain j js' where js: "js = j # js'" by (cases js) auto
  have jle: "fst j \<le> snd j" and jsn: "normal js'" using Cons.prems(2) js by (cases js'; simp)+
  note eq = Cons.prems(3)[unfolded js, simplified]
  have ai: "snd i + 1 < x" if "x \<in> cpus_of is" for x using normal_above[OF Cons.prems(1) that] .
  have aj: "snd j + 1 < x" if "x \<in> cpus_of js'" for x using normal_above[OF Cons.prems(2)[unfolded js] that] .
  have "fst i \<in> {fst j..snd j} \<union> cpus_of js'" "fst j \<in> {fst i..snd i} \<union> cpus_of is"
    using eq ile jle by auto
  then have f: "fst i = fst j" using ai[of "fst j"] aj[of "fst i"] ile jle by auto
  have "snd i + 1 \<notin> {fst i..snd i} \<union> cpus_of is" "snd j + 1 \<notin> {fst j..snd j} \<union> cpus_of js'"
    using ai[of "snd i + 1"] aj[of "snd j + 1"] by auto
  moreover have "snd i + 1 \<in> {fst j..snd j}" if "snd i < snd j" using that f ile by auto
  moreover have "snd j + 1 \<in> {fst i..snd i}" if "snd j < snd i" using that f jle by auto
  ultimately have s: "snd i = snd j" using eq by (metis UnCI linorder_neqE)
  have "cpus_of is = cpus_of js'"
  proof -
    have "cpus_of is = ({fst i..snd i} \<union> cpus_of is) - {fst i..snd i}" using ai by fastforce
    moreover have "cpus_of js' = ({fst j..snd j} \<union> cpus_of js') - {fst j..snd j}" using aj by fastforce
    ultimately show ?thesis using eq f s by simp
  qed
  then have "is = js'" by (rule Cons.IH[OF isn jsn])
  then show ?case using f s js by (cases i; cases j) simp
qed

lemma normal_snoc:
  "normal (is @ [i]) \<longleftrightarrow> normal is \<and> fst i \<le> snd i \<and> (is \<noteq> [] \<longrightarrow> snd (last is) + 1 < fst i)"
  by (induction "is" rule: normal.induct) auto

text \<open>Intervals as the parser makes them.\<close>

definition proper :: "cpu_interval \<Rightarrow> bool" where
  "proper i \<longleftrightarrow> 0 \<le> fst i \<and> fst i \<le> snd i \<and> snd i \<le> MaxUint64"

lemma merge_loop_normal:
  assumes "normal (rev acc)" "sorted_wrt (\<lambda>i j. fst i \<le> fst j) is" "list_all proper (acc @ is)"
    and "acc \<noteq> [] \<Longrightarrow> (\<forall>i\<in>set is. fst (hd acc) \<le> fst i)"
  shows "normal (merge_loop acc is) \<and> cpus_of (merge_loop acc is) = cpus_of acc \<union> cpus_of is \<and>
    list_all proper (merge_loop acc is)"
  using assms
proof (induction acc "is" rule: merge_loop.induct)
  case (1 acc)
  then show ?case by (simp add: list_all_iff)
next
  case (2 i "is")
  then show ?case by (simp add: proper_def)
next
  case (3 s e acc a b "is")
  have pr: "proper (s, e)" "proper (a, b)" "list_all proper acc" "list_all proper is" using 3(5) by simp_all
  then have p: "0 \<le> s" "s \<le> e" "e \<le> MaxUint64" "a \<le> b" "b \<le> MaxUint64" "s \<le> a"
    using 3(6) by (auto simp: proper_def[of "(s, e)"] proper_def[of "(a, b)"])
  show ?case
  proof (cases "a \<le> e \<or> (e < MaxUint64 \<and> a = e + 1)")
    case True
    define e' where "e' = (if e < b then b else e)"
    have e': "e \<le> e'" "e' \<le> MaxUint64" using p by (simp_all add: e'_def)
    have "normal (rev ((s, e') # acc))" using 3(3) e'(1) p by (auto simp: normal_snoc)
    moreover have "proper (s, e')" using p e' by (simp add: proper_def)
    then have "list_all proper (((s, e') # acc) @ is)" using pr by simp
    moreover have "\<forall>i\<in>set is. fst (hd ((s, e') # acc)) \<le> fst i" using 3(6) by auto
    moreover have "sorted_wrt (\<lambda>i j. fst i \<le> fst j) is" using 3(4) by simp
    ultimately have ih: "normal (merge_loop ((s, e') # acc) is) \<and>
        cpus_of (merge_loop ((s, e') # acc) is) = cpus_of ((s, e') # acc) \<union> cpus_of is \<and>
        list_all proper (merge_loop ((s, e') # acc) is)"
      using 3(1)[OF True] by (simp add: e'_def)
    have "{s..e'} = {s..e} \<union> {a..b}" using True p by (auto simp: e'_def)
    with ih True show ?thesis by (simp add: e'_def[symmetric]) (simp add: Un_ac)
  next
    case False
    then have gap: "e + 1 < a" using p by auto
    have "normal (rev ((a, b) # (s, e) # acc))" using 3(3) gap p by (simp add: normal_snoc del: append_assoc)
    moreover have "\<forall>i\<in>set is. fst (hd ((a, b) # (s, e) # acc)) \<le> fst i" using 3(4) by auto
    moreover have "list_all proper (((a, b) # (s, e) # acc) @ is)" using pr by simp
    ultimately have "normal (merge_loop ((a, b) # (s, e) # acc) is) \<and>
        cpus_of (merge_loop ((a, b) # (s, e) # acc) is) = cpus_of ((a, b) # (s, e) # acc) \<union> cpus_of is \<and>
        list_all proper (merge_loop ((a, b) # (s, e) # acc) is)"
      using 3(2)[OF False] 3(4) by simp
    moreover have "merge_loop ((s, e) # acc) ((a, b) # is) = merge_loop ((a, b) # (s, e) # acc) is"
      by (simp only: merge_loop.simps if_not_P[OF False])
    ultimately show ?thesis by (simp only: cpus_of_simps fst_conv snd_conv Un_ac)
  qed
qed

lemma is_digit_nonneg: "parseDevkitUnsigned r = Inr v \<Longrightarrow> 0 \<le> v \<and> v \<le> MaxUint64"
  by (auto simp: parseDevkitUnsigned_def parse_u64_def parse_nat_def MaxUint64_def
      split: if_splits option.splits dest: parse_digits_nonneg)

lemma parse_cpu_element_proper: "parse_cpu_element m e = Inr i \<Longrightarrow> proper i"
  by (auto simp: parse_cpu_element_def Let_def proper_def dest: is_digit_nonneg split: if_splits sum.splits)

lemma parse_cpu_elements_proper: "parse_cpu_elements m es = Inr is \<Longrightarrow> list_all proper is"
  by (induction es arbitrary: "is") (auto dest: parse_cpu_element_proper split: sum.splits)

lemma sorted_intervals: "sorted_wrt (\<lambda>i j. fst i \<le> fst j) (go_sort interval_less is)"
proof -
  have "sorted_wrt (\<lambda>x y. \<not> interval_less y x) (go_sort interval_less is)"
    using cpu_slice.slice_sort_sorted[of "is"] by (simp add: slice_sorted_def)
  then show ?thesis by (rule sorted_wrt_mono_rel[rotated]) (auto simp: interval_less_def split: if_splits)
qed

lemma merge_sorted:
  assumes "list_all proper is"
  shows "normal (merge_loop [] (go_sort interval_less is))"
    and "cpus_of (merge_loop [] (go_sort interval_less is)) = cpus_of is"
    and "list_all proper (merge_loop [] (go_sort interval_less is))"
proof -
  have "list_all proper (go_sort interval_less is)" using assms by (simp add: list_all_iff)
  then have "normal (merge_loop [] (go_sort interval_less is)) \<and>
    cpus_of (merge_loop [] (go_sort interval_less is)) = cpus_of [] \<union> cpus_of (go_sort interval_less is) \<and>
    list_all proper (merge_loop [] (go_sort interval_less is))"
    by (intro merge_loop_normal) (simp_all add: sorted_intervals)
  moreover have "cpus_of (go_sort interval_less is) = cpus_of is" by (simp add: cpus_of_def)
  ultimately show "normal (merge_loop [] (go_sort interval_less is))"
    "cpus_of (merge_loop [] (go_sort interval_less is)) = cpus_of is"
    "list_all proper (merge_loop [] (go_sort interval_less is))" by simp_all
qed

text \<open>The text of a normal list of intervals determines it.\<close>

lemma itoa_no_char: "0 \<le> n \<Longrightarrow> c \<in> set (itoa n) \<Longrightarrow> c \<noteq> CHR ''-'' \<and> c \<noteq> CHR '',''"
  using itoa_no_comma[of n] itoa_nonneg_no_dash[of n] by auto

lemma parse_unsigned_itoa: "0 \<le> n \<Longrightarrow> n \<le> MaxUint64 \<Longrightarrow> parseDevkitUnsigned (itoa n) = Inr n"
  by (auto simp: parseDevkitUnsigned_def parse_u64_itoa MaxUint64_def list_all_iff dest: itoa_nonneg_chars)

lemma parse_interval_text: "proper i \<Longrightarrow> parse_cpu_element MaxUint64 (interval_text i) = Inr i"
proof -
  assume p: "proper i"
  obtain s e where i: "i = (s, e)" by (cases i)
  have b: "0 \<le> s" "s \<le> e" "e \<le> MaxUint64" using p by (simp_all add: proper_def i)
  then have n: "CHR ''-'' \<notin> set (itoa s)" "CHR ''-'' \<notin> set (itoa e)" by (simp_all add: itoa_nonneg_no_dash)
  have u: "parseDevkitUnsigned (itoa s) = Inr s" "parseDevkitUnsigned (itoa e) = Inr e"
    using b by (simp_all add: parse_unsigned_itoa)
  show ?thesis
  proof (cases "s = e")
    case True
    then show ?thesis using b u go_split_char_None[OF n(1)]
      by (simp add: i interval_text_def parse_cpu_element_def Let_def)
  next
    case False
    have "go_split ''-'' (itoa s @ ''-'' @ itoa e) = [itoa s, itoa e]"
      using go_split_char_app[OF n(1), of "itoa e"] go_split_char_None[OF n(2)] by simp
    then show ?thesis using False b u by (simp add: i interval_text_def parse_cpu_element_def Let_def)
  qed
qed

lemma interval_text_no_comma: "proper i \<Longrightarrow> CHR '','' \<notin> set (interval_text i)"
  by (auto simp: interval_text_def proper_def itoa_no_comma)

lemma join_inj:
  assumes "list_all proper is" "list_all proper js" "is \<noteq> []" "js \<noteq> []"
    and "go_join '','' (map interval_text is) = go_join '','' (map interval_text js)"
  shows "is = js"
proof -
  have split: "go_split '','' (go_join '','' (map interval_text ks)) = map interval_text ks"
    if "list_all proper ks" "ks \<noteq> []" for ks
    using that by (intro go_split_join_char) (auto simp: list_all_iff interval_text_no_comma)
  have "map interval_text is = go_split '','' (go_join '','' (map interval_text is))"
    by (rule split[OF assms(1,3), symmetric])
  also have "\<dots> = map interval_text js" unfolding assms(5) by (rule split[OF assms(2,4)])
  finally have "map interval_text is = map interval_text js" .
  moreover have "inj_on interval_text (set is \<union> set js)"
  proof (rule inj_onI)
    fix i j
    assume mem: "i \<in> set is \<union> set js" "j \<in> set is \<union> set js" and eq: "interval_text i = interval_text j"
    have p: "proper i" "proper j" using mem assms(1,2) unfolding list_all_iff by blast+
    have "Inr i = parse_cpu_element MaxUint64 (interval_text i)" by (rule parse_interval_text[OF p(1), symmetric])
    also have "\<dots> = Inr j" unfolding eq by (rule parse_interval_text[OF p(2)])
    finally show "i = j" by (rule sum.inject(2)[THEN iffD1])
  qed
  ultimately show ?thesis by (rule map_inj_on)
qed


section \<open>Equal canonical texts mean equal selections\<close>

text \<open>What a selector denotes, element by element.\<close>

definition selector_cpus :: "string \<Rightarrow> int set" where
  "selector_cpus raw =
     (\<Union>e\<in>set (go_split '','' raw). case parse_cpu_element MaxUint64 e of Inl x \<Rightarrow> {} | Inr i \<Rightarrow> {fst i..snd i})"

definition selector_pids :: "string \<Rightarrow> int set" where
  "selector_pids raw =
     (\<Union>e\<in>set (go_split '','' raw). case parseDevkitUnsigned e of Inl x \<Rightarrow> {} | Inr v \<Rightarrow> {v})"

lemma parse_cpu_elements_cpus:
  "parse_cpu_elements MaxUint64 es = Inr is \<Longrightarrow>
     cpus_of is = (\<Union>e\<in>set es. case parse_cpu_element MaxUint64 e of Inl x \<Rightarrow> {} | Inr i \<Rightarrow> {fst i..snd i}) \<and>
     (es \<noteq> [] \<longrightarrow> is \<noteq> [])"
  by (induction es arbitrary: "is") (auto split: sum.splits)

lemma canonical_cpu:
  assumes "canonicalizeDevkitCPUSelector raw MaxUint64 = Inr c"
  obtains ks where "normal ks" "list_all proper ks" "ks \<noteq> []" "cpus_of ks = selector_cpus raw"
    "c = go_join '','' (map interval_text ks)"
proof -
  from assms obtain "is" where p: "parse_cpu_elements MaxUint64 (go_split '','' raw) = Inr is"
    and c: "c = go_join '','' (map interval_text (merge_loop [] (go_sort interval_less is)))"
    by (auto simp: canonicalizeDevkitCPUSelector_def parseDevkitCPUIntervals_def split: sum.splits)
  have proper: "list_all proper is" by (rule parse_cpu_elements_proper[OF p])
  note m = merge_sorted[OF proper]
  have cp: "cpus_of is = selector_cpus raw" and ne: "is \<noteq> []"
    using parse_cpu_elements_cpus[OF p] by (simp_all add: selector_cpus_def)
  then obtain i where "i \<in> set is" "proper i" using proper by (cases "is") auto
  then have "cpus_of is \<noteq> {}" by (auto simp: cpus_of_def proper_def)
  then have "merge_loop [] (go_sort interval_less is) \<noteq> []" using m(2) by auto
  with m cp c show ?thesis by (intro that) simp_all
qed

lemma cpu_canonical_eq:
  assumes "canonicalizeDevkitCPUSelector a MaxUint64 = Inr c" "canonicalizeDevkitCPUSelector b MaxUint64 = Inr d"
  shows "c = d \<longleftrightarrow> selector_cpus a = selector_cpus b"
proof -
  obtain ks where k: "normal ks" "list_all proper ks" "ks \<noteq> []" "cpus_of ks = selector_cpus a"
    "c = go_join '','' (map interval_text ks)" by (rule canonical_cpu[OF assms(1)])
  obtain ls where l: "normal ls" "list_all proper ls" "ls \<noteq> []" "cpus_of ls = selector_cpus b"
    "d = go_join '','' (map interval_text ls)" by (rule canonical_cpu[OF assms(2)])
  show ?thesis
  proof
    assume "c = d"
    then have "ks = ls" using join_inj[OF k(2) l(2) k(3) l(3)] k(5) l(5) by simp
    then show "selector_cpus a = selector_cpus b" using k(4) l(4) by simp
  next
    assume "selector_cpus a = selector_cpus b"
    then have "ks = ls" using normal_unique[OF k(1) l(1)] k(4) l(4) by simp
    then show "c = d" using k(5) l(5) by simp
  qed
qed

lemma parse_pids_bounds: "parse_pids m es = Inr vs \<Longrightarrow> v \<in> set vs \<Longrightarrow> 0 \<le> v \<and> v \<le> MaxUint64"
proof (induction es arbitrary: vs)
  case (Cons e es)
  then obtain x xs where "parseDevkitUnsigned e = Inr x" "parse_pids m es = Inr xs" "vs = x # xs"
    by (auto split: sum.splits if_splits)
  with Cons is_digit_nonneg[of e x] show ?case by auto
qed simp

lemma parse_pids_elems:
  "parse_pids m es = Inr vs \<Longrightarrow>
     set vs = (\<Union>e\<in>set es. case parseDevkitUnsigned e of Inl x \<Rightarrow> {} | Inr v \<Rightarrow> {v}) \<and> (es \<noteq> [] \<longrightarrow> vs \<noteq> [])"
  by (induction es arbitrary: vs) (auto split: sum.splits if_splits)

lemma parse_pids_set:
  assumes "parse_pids m es = Inr vs"
  shows "set vs = (\<Union>e\<in>set es. case parseDevkitUnsigned e of Inl x \<Rightarrow> {} | Inr v \<Rightarrow> {v}) \<and> (es \<noteq> [] \<longrightarrow> vs \<noteq> []) \<and>
     (\<forall>v\<in>set vs. 0 \<le> v \<and> v \<le> MaxUint64)"
  using parse_pids_elems[OF assms] parse_pids_bounds[OF assms] by blast

lemma skip_repeated_sorted:
  "sorted vs \<Longrightarrow> (\<And>p. prev = Some p \<Longrightarrow> \<forall>v\<in>set vs. p \<le> v) \<Longrightarrow>
     sorted (skip_repeated prev vs) \<and> distinct (skip_repeated prev vs) \<and> set (skip_repeated prev vs) = set vs - set_option prev"
proof (induction prev vs rule: skip_repeated.induct)
  case (2 prev v vs)
  show ?case
  proof (cases "prev = Some v")
    case True
    with 2(1)[OF True] 2(3,4) show ?thesis by auto
  next
    case False
    have ih: "sorted (skip_repeated (Some v) vs) \<and> distinct (skip_repeated (Some v) vs) \<and>
        set (skip_repeated (Some v) vs) = set vs - {v}"
      using 2(2)[OF False] 2(3) by simp
    have "p \<notin> set (v # vs)" if "prev = Some p" for p
      using 2(3) 2(4)[OF that] False that by (auto simp: order_antisym)
    then have "set (v # vs) - set_option prev = set (v # vs)" by (cases prev) auto
    with ih False 2(3) show ?thesis by auto
  qed
qed simp

lemma canonical_pid:
  assumes "canonicalizeDevkitPIDSelector raw m = Inr c"
  obtains vs where "sorted vs" "distinct vs" "vs \<noteq> []" "set vs = selector_pids raw" "\<forall>v\<in>set vs. 0 \<le> v \<and> v \<le> MaxUint64"
    "c = go_join '','' (map itoa vs)"
proof -
  from assms obtain vs where p: "parse_pids m (go_split '','' raw) = Inr vs"
    and c: "c = go_join '','' (map itoa (skip_repeated None (sort_ints vs)))"
    by (auto simp: canonicalizeDevkitPIDSelector_def split: sum.splits)
  have vs: "set vs = selector_pids raw" "vs \<noteq> []" "\<forall>v\<in>set vs. 0 \<le> v \<and> v \<le> MaxUint64"
    using parse_pids_set[OF p] by (simp_all add: selector_pids_def)
  have s: "sorted (skip_repeated None (sort_ints vs)) \<and> distinct (skip_repeated None (sort_ints vs)) \<and>
    set (skip_repeated None (sort_ints vs)) = set vs"
    using skip_repeated_sorted[of "sort_ints vs" None] by simp
  then have "skip_repeated None (sort_ints vs) \<noteq> []" using vs(2) by (metis set_empty)
  with s vs c show ?thesis by (intro that) simp_all
qed

lemma pid_canonical_eq:
  assumes "canonicalizeDevkitPIDSelector a m = Inr c" "canonicalizeDevkitPIDSelector b m = Inr d"
  shows "c = d \<longleftrightarrow> selector_pids a = selector_pids b"
proof -
  obtain xs where x: "sorted xs" "distinct xs" "xs \<noteq> []" "set xs = selector_pids a" "\<forall>v\<in>set xs. 0 \<le> v \<and> v \<le> MaxUint64"
    "c = go_join '','' (map itoa xs)" by (rule canonical_pid[OF assms(1)])
  obtain ys where y: "sorted ys" "distinct ys" "ys \<noteq> []" "set ys = selector_pids b" "\<forall>v\<in>set ys. 0 \<le> v \<and> v \<le> MaxUint64"
    "d = go_join '','' (map itoa ys)" by (rule canonical_pid[OF assms(2)])
  have split: "go_split '','' (go_join '','' (map itoa zs)) = map itoa zs" if "zs \<noteq> []" for zs
    using that by (intro go_split_join_char) (auto simp: itoa_no_comma)
  show ?thesis
  proof
    assume "c = d"
    then have "map itoa xs = map itoa ys" by (metis split[OF x(3)] split[OF y(3)] x(6) y(6))
    moreover have "inj_on itoa (set xs \<union> set ys)"
      by (rule inj_onI) (metis UnE option.inject parse_nat_itoa x(5) y(5))
    ultimately have "xs = ys" by (rule map_inj_on)
    then show "selector_pids a = selector_pids b" using x(4) y(4) by simp
  next
    assume "selector_pids a = selector_pids b"
    then have "xs = ys" using x y by (intro sorted_distinct_set_unique) simp_all
    then show "c = d" using x(6) y(6) by simp
  qed
qed

text \<open>C31. The comparison of the requested and the reported scope is exact: whenever it gives an answer, the
  answer says whether both have the same type and select the same CPUs, or the same processes, however
  the two texts order, repeat or overlap their elements.\<close>

theorem scope_match_exact:
  assumes "devkitTopdownScopesEquivalent requested reported = Inr r"
  shows "r \<longleftrightarrow> sc_type requested = sc_type reported \<and>
    (sc_type requested = ''cpu'' \<longrightarrow> selector_cpus (sc_target requested) = selector_cpus (sc_target reported)) \<and>
    (sc_type requested = ''pid'' \<longrightarrow> selector_pids (sc_target requested) = selector_pids (sc_target reported))"
  using assms cpu_canonical_eq pid_canonical_eq
  by (auto simp: devkitTopdownScopesEquivalent_def split: if_splits sum.splits)

theorem scope_match_exact_witness:
  "selector_cpus ''7-4,2'' = selector_cpus ''2,4-5,5-7''"
  using scope_match_exact[of "\<lparr>sc_type = ''cpu'', sc_target = ''7-4,2''\<rparr>" "\<lparr>sc_type = ''cpu'', sc_target = ''2,4-5,5-7''\<rparr>" True]
  by (simp, code_simp)

end
