(* ===== verification/DevkitConfig.thy ===== *)
theory DevkitConfig
  imports DevkitSelector GoPath
begin

text \<open>
  The configuration of the DevKit collectors (\<open>pkg/kunpeng-perf-monitor/collector/devkit_config.go\<close>): the
  validation of the environment and of the ConfigMap, and the watcher that publishes the last good
  configuration. The YAML decoder, the name rules of Kubernetes, the environment and the files of the
  host are arguments; durations of time are nanoseconds.
\<close>

section \<open>Configurations\<close>

definition defaultDevkitBinaryPath :: string where "defaultDevkitBinaryPath = ''/opt/devkit/devkit''"
definition defaultDevkitConfigName :: string where "defaultDevkitConfigName = ''kunpeng-perf-monitor-devkit-config''"
definition defaultDevkitDuration :: int where "defaultDevkitDuration = 3"
definition defaultDevkitMemoryPeriod :: int where "defaultDevkitMemoryPeriod = 1000"
definition minDevkitDuration :: int where "minDevkitDuration = 1"
definition maxDevkitDuration :: int where "maxDevkitDuration = 5"
definition go_second :: int where "go_second = 1000000000"
definition defaultDevkitInterval :: int where "defaultDevkitInterval = 15 * go_second"
definition devkitNominalCapacityBudget :: int where "devkitNominalCapacityBudget = 11 * go_second"
definition maxDevkitCollectIntervalSeconds :: int where "maxDevkitCollectIntervalSeconds = 3600"

record topdown_config =
  tc_CPU :: string
  tc_PID :: string
  tc_Duration :: int

record memory_config =
  mc_CPU :: string
  mc_Duration :: int
  mc_Period :: int

record devkit_config =
  dc_Topdown :: topdown_config
  dc_Memory :: memory_config

text \<open>The decoded YAML keeps apart a missing number and an explicit one.\<close>

record raw_topdown_config =
  rt_CPU :: string
  rt_PID :: string
  rt_Duration :: "int option"

record raw_memory_config =
  rm_CPU :: string
  rm_Duration :: "int option"
  rm_Period :: "int option"

record raw_devkit_config =
  rd_Topdown :: raw_topdown_config
  rd_Memory :: raw_memory_config

text \<open>The two files of the host that bound the selectors.\<close>

record host_limits =
  hl_possible :: "string option"
  hl_pid_max :: "string option"

definition check_selector :: "string \<Rightarrow> string result \<Rightarrow> unit result" where
  "check_selector raw r = (if raw \<noteq> [] then (case r of Inl e \<Rightarrow> Inl e | Inr _ \<Rightarrow> Inr ()) else Inr ())"

definition DevkitConfig_validate :: "host_limits \<Rightarrow> devkit_config \<Rightarrow> unit result" where
  "DevkitConfig_validate h c =
     (let t = dc_Topdown c; m = dc_Memory c in
      if tc_CPU t \<noteq> [] \<and> tc_PID t \<noteq> [] then Inl (Err ''topdown CPU and PID are mutually exclusive'')
      else
        (let maxCPU = devkitMaxCPU (hl_possible h) in
         case check_selector (tc_CPU t) (canonicalizeDevkitCPUSelector (tc_CPU t) maxCPU) of
           Inl e \<Rightarrow> Inl e
         | Inr _ \<Rightarrow>
             (case check_selector (tc_PID t) (canonicalizeDevkitPIDSelector (tc_PID t) (devkitMaxPID (hl_pid_max h))) of
                Inl e \<Rightarrow> Inl e
              | Inr _ \<Rightarrow>
                  (case check_selector (mc_CPU m) (canonicalizeDevkitCPUSelector (mc_CPU m) maxCPU) of
                     Inl e \<Rightarrow> Inl e
                   | Inr _ \<Rightarrow>
                       if mc_Period m \<noteq> 100 \<and> mc_Period m \<noteq> 1000 then Inl (Err ''memory period must be 100 or 1000'')
                       else if mc_Duration m = 1 \<and> mc_Period m = 1000 then Inl (Err ''when memory duration=1, period must be 100'')
                       else Inr ()))))"

definition effective_duration :: "int \<Rightarrow> int" where
  "effective_duration d = (if d < minDevkitDuration \<or> maxDevkitDuration < d then defaultDevkitDuration else d)"

definition effective_period :: "int \<Rightarrow> int \<Rightarrow> int" where
  "effective_period duration period =
     (if period \<noteq> 100 \<and> period \<noteq> 1000 then (if duration = 1 then 100 else defaultDevkitMemoryPeriod) else period)"

definition withDefaults :: "devkit_config \<Rightarrow> devkit_config" where
  "withDefaults c =
     (let t = (dc_Topdown c)\<lparr>tc_Duration := effective_duration (tc_Duration (dc_Topdown c))\<rparr>;
          m = (dc_Memory c)\<lparr>mc_Duration := effective_duration (mc_Duration (dc_Memory c))\<rparr>
      in \<lparr>dc_Topdown = t, dc_Memory = m\<lparr>mc_Period := effective_period (mc_Duration m) (mc_Period m)\<rparr>\<rparr>)"

definition normalizeDevkitDuration :: "int option \<Rightarrow> int result" where
  "normalizeDevkitDuration value =
     (case value of
        None \<Rightarrow> Inr defaultDevkitDuration
      | Some v \<Rightarrow> if v < minDevkitDuration \<or> maxDevkitDuration < v then Inl (Err ''duration must be an integer between 1 and 5'')
                  else Inr v)"

definition normalizeDevkitMemoryPeriod :: "int \<Rightarrow> int option \<Rightarrow> int result" where
  "normalizeDevkitMemoryPeriod duration value =
     (case value of
        None \<Rightarrow> Inr (if duration = 1 then 100 else defaultDevkitMemoryPeriod)
      | Some v \<Rightarrow> if v \<noteq> 100 \<and> v \<noteq> 1000 then Inl (Err ''memory period must be 100 or 1000'')
                  else if duration = 1 \<and> v = 1000 then Inl (Err ''when memory duration=1, period must be 100'')
                  else Inr v)"

type_synonym yaml_decoder = "string \<Rightarrow> raw_devkit_config option"

definition parseDevkitConfig :: "yaml_decoder \<Rightarrow> host_limits \<Rightarrow> string \<Rightarrow> devkit_config result" where
  "parseDevkitConfig decode h raw =
     (case decode raw of
        None \<Rightarrow> Inl (Err ''parse YAML'')
      | Some d \<Rightarrow>
          (case normalizeDevkitDuration (rt_Duration (rd_Topdown d)) of
             Inl e \<Rightarrow> Inl e
           | Inr topdownDuration \<Rightarrow>
               (case normalizeDevkitDuration (rm_Duration (rd_Memory d)) of
                  Inl e \<Rightarrow> Inl e
                | Inr memoryDuration \<Rightarrow>
                    (case normalizeDevkitMemoryPeriod memoryDuration (rm_Period (rd_Memory d)) of
                       Inl e \<Rightarrow> Inl e
                     | Inr memoryPeriod \<Rightarrow>
                         (let cfg = \<lparr>dc_Topdown = \<lparr>tc_CPU = rt_CPU (rd_Topdown d), tc_PID = rt_PID (rd_Topdown d), tc_Duration = topdownDuration\<rparr>,
                                     dc_Memory = \<lparr>mc_CPU = rm_CPU (rd_Memory d), mc_Duration = memoryDuration, mc_Period = memoryPeriod\<rparr>\<rparr>
                          in case DevkitConfig_validate h cfg of Inl e \<Rightarrow> Inl e | Inr _ \<Rightarrow> Inr (withDefaults cfg))))))"

section \<open>The environment\<close>

definition env_or :: "(string \<Rightarrow> string) \<Rightarrow> string \<Rightarrow> string \<Rightarrow> string" where
  "env_or env key dflt = (if env key \<noteq> [] then env key else dflt)"

definition devkitBinaryPath :: "(string \<Rightarrow> string) \<Rightarrow> string" where
  "devkitBinaryPath env = env_or env ''DEVKIT_BINARY_PATH'' defaultDevkitBinaryPath"

definition devkitConfigNamespace :: "(string \<Rightarrow> string) \<Rightarrow> string" where
  "devkitConfigNamespace env = env_or env ''DEVKIT_CONFIG_NAMESPACE'' ''default''"

definition devkitConfigName :: "(string \<Rightarrow> string) \<Rightarrow> string" where
  "devkitConfigName env = env_or env ''DEVKIT_CONFIG_NAME'' defaultDevkitConfigName"

text \<open>What \<open>os.Stat\<close> tells of a file; the permission as its execution bits for owner, group and others.\<close>

record file_stat =
  fs_regular :: bool
  fs_exec_bits :: "bool list"

definition validateDevkitBinaryPath :: "(string \<Rightarrow> file_stat option) \<Rightarrow> string \<Rightarrow> unit result" where
  "validateDevkitBinaryPath stat path =
     (if \<not> is_rooted path then Inl (Err ''binary path must be absolute'')
      else (case stat path of
              None \<Rightarrow> Inl (Err ''stat binary path'')
            | Some info \<Rightarrow>
                if \<not> fs_regular info then Inl (Err ''binary path must be a regular file'')
                else if list_all Not (fs_exec_bits info) then Inl (Err ''binary path must be executable'')
                else Inr ()))"

text \<open>The validators of Kubernetes return the reasons for which they reject a name.\<close>

definition validateDevkitConfigLocation ::
  "(string \<Rightarrow> string list) \<Rightarrow> (string \<Rightarrow> string list) \<Rightarrow> string \<Rightarrow> string \<Rightarrow> go_error list" where
  "validateDevkitConfigLocation isLabel isSubdomain ns name =
     (if isLabel ns \<noteq> [] then [Err ''namespace is invalid''] else []) @
     (if isSubdomain name \<noteq> [] then [Err ''ConfigMap name is invalid''] else [])"

definition validateDevkitEnvironment ::
  "(string \<Rightarrow> string) \<Rightarrow> (string \<Rightarrow> file_stat option) \<Rightarrow> (string \<Rightarrow> string list) \<Rightarrow> (string \<Rightarrow> string list) \<Rightarrow> go_error list" where
  "validateDevkitEnvironment env stat isLabel isSubdomain =
     (case validateDevkitBinaryPath stat (devkitBinaryPath env) of Inl e \<Rightarrow> [e] | Inr _ \<Rightarrow> []) @
     validateDevkitConfigLocation isLabel isSubdomain (devkitConfigNamespace env) (devkitConfigName env)"

definition parseDevkitCollectInterval :: "string \<Rightarrow> int result" where
  "parseDevkitCollectInterval raw =
     (if raw = [] then Inr defaultDevkitInterval
      else if \<not> list_all is_digit raw then Inl (Err ''must be a positive integer number of seconds'')
      else (case atoi raw of
              None \<Rightarrow> Inl (Err ''must be a positive integer number of seconds'')
            | Some secs \<Rightarrow>
                if secs \<le> 0 then Inl (Err ''must be a positive integer number of seconds'')
                else if maxDevkitCollectIntervalSeconds < secs then Inl (Err ''business_limit'')
                else if 9223372036854775807 div go_second < secs then Inl (Err ''exceeds the maximum supported duration'')
                else Inr (wrap_i64 (secs * go_second))))"

definition devkitCollectInterval :: "(string \<Rightarrow> string) \<Rightarrow> int" where
  "devkitCollectInterval env =
     (case parseDevkitCollectInterval (env ''DEVKIT_COLLECT_INTERVAL'') of Inl e \<Rightarrow> defaultDevkitInterval | Inr i \<Rightarrow> i)"

definition warnDevkitCapacity :: "int \<Rightarrow> bool" where
  "warnDevkitCapacity interval \<longleftrightarrow> interval < devkitNominalCapacityBudget"

section \<open>The watcher\<close>

record config_watcher =
  cw_namespace :: string
  cw_name :: string
  cw_config :: devkit_config
  cw_hasLoggedConfig :: bool
  cw_lastLoggedConfig :: devkit_config

definition zero_config :: devkit_config where
  "zero_config = \<lparr>dc_Topdown = \<lparr>tc_CPU = [], tc_PID = [], tc_Duration = 0\<rparr>,
                  dc_Memory = \<lparr>mc_CPU = [], mc_Duration = 0, mc_Period = 0\<rparr>\<rparr>"

text \<open>\<open>newDevkitConfigWatcher\<close>; the flag says whether the informer is started, which takes a cluster
  configuration and a client.\<close>

definition newDevkitConfigWatcher :: "(string \<Rightarrow> string) \<Rightarrow> bool \<Rightarrow> bool \<Rightarrow> config_watcher \<times> bool" where
  "newDevkitConfigWatcher env inCluster clientOk =
     (\<lparr>cw_namespace = devkitConfigNamespace env, cw_name = devkitConfigName env, cw_config = zero_config,
       cw_hasLoggedConfig = False, cw_lastLoggedConfig = zero_config\<rparr>, inCluster \<and> clientOk)"

text \<open>\<open>sync.Once\<close>: the first caller makes the watcher, the others get the same one.\<close>

definition watcher_provider_get :: "config_watcher option \<Rightarrow> config_watcher \<Rightarrow> config_watcher option \<times> config_watcher" where
  "watcher_provider_get p fresh = (case p of None \<Rightarrow> (Some fresh, fresh) | Some w \<Rightarrow> (p, w))"

record config_map =
  cm_Name :: string
  cm_Namespace :: string
  cm_Data :: "(string, string) gomap"

text \<open>What an informer hands to a handler.\<close>

datatype kube_object = ObjConfigMap config_map | ObjDeletedFinalState kube_object | ObjOther

definition logAppliedConfig :: "config_watcher \<Rightarrow> devkit_config \<Rightarrow> config_watcher \<times> string list" where
  "logAppliedConfig w cfg =
     (if \<not> cw_hasLoggedConfig w then
        (w\<lparr>cw_hasLoggedConfig := True, cw_lastLoggedConfig := cfg\<rparr>, [''devkit_config_loaded''])
      else if cw_lastLoggedConfig w = cfg then (w, [''devkit_config_unchanged''])
      else (w\<lparr>cw_lastLoggedConfig := cfg\<rparr>, [''devkit_config_changed'']))"

definition watcher_onUpdate ::
  "yaml_decoder \<Rightarrow> host_limits \<Rightarrow> config_watcher \<Rightarrow> kube_object \<Rightarrow> config_watcher \<times> string list" where
  "watcher_onUpdate decode h w obj =
     (case obj of
        ObjConfigMap cm \<Rightarrow>
          (case map_of (cm_Data cm) ''devkit-tuner.yaml'' of
             None \<Rightarrow> (w, [''devkit_config_missing''])
           | Some raw \<Rightarrow>
               (case parseDevkitConfig decode h raw of
                  Inl e \<Rightarrow> (w, [''devkit_config_rejected''])
                | Inr cfg \<Rightarrow> logAppliedConfig (w\<lparr>cw_config := cfg\<rparr>) cfg))
      | _ \<Rightarrow> (w, []))"

definition deleted_map :: "kube_object \<Rightarrow> config_map option" where
  "deleted_map obj =
     (case obj of
        ObjConfigMap cm \<Rightarrow> Some cm
      | ObjDeletedFinalState inner \<Rightarrow> (case inner of ObjConfigMap cm \<Rightarrow> Some cm | _ \<Rightarrow> None)
      | ObjOther \<Rightarrow> None)"

definition watcher_onDelete :: "config_watcher \<Rightarrow> kube_object \<Rightarrow> config_watcher \<times> string list" where
  "watcher_onDelete w obj =
     (case deleted_map obj of
        None \<Rightarrow> (w, [])
      | Some cm \<Rightarrow>
          if cm_Name cm \<noteq> cw_name w \<or> (cm_Namespace cm \<noteq> [] \<and> cm_Namespace cm \<noteq> cw_namespace w) then (w, [])
          else (w, [''devkit_config_deleted'']))"

definition watcher_load :: "config_watcher \<Rightarrow> devkit_config" where
  "watcher_load w = withDefaults (cw_config w)"

text \<open>The events of the informer, each with the limits of the host at that time.\<close>

datatype config_event = ConfigUpdated host_limits kube_object | ConfigDeleted kube_object

definition config_step :: "yaml_decoder \<Rightarrow> config_watcher \<Rightarrow> config_event \<Rightarrow> config_watcher" where
  "config_step decode w ev =
     fst (case ev of ConfigUpdated h obj \<Rightarrow> watcher_onUpdate decode h w obj | ConfigDeleted obj \<Rightarrow> watcher_onDelete w obj)"

section \<open>Every configuration in force is good\<close>

definition good_duration :: "int \<Rightarrow> bool" where "good_duration d \<longleftrightarrow> 1 \<le> d \<and> d \<le> 5"

text \<open>What the collectors may rely on. The selectors are read again, without the limits of the host, when a
  report is compared with the request; they were accepted under some limits.\<close>

definition good_config :: "devkit_config \<Rightarrow> bool" where
  "good_config c \<longleftrightarrow>
     good_duration (tc_Duration (dc_Topdown c)) \<and> good_duration (mc_Duration (dc_Memory c)) \<and>
     mc_Period (dc_Memory c) \<in> {100, 1000} \<and> \<not> (mc_Duration (dc_Memory c) = 1 \<and> mc_Period (dc_Memory c) = 1000) \<and>
     (tc_CPU (dc_Topdown c) = [] \<or> tc_PID (dc_Topdown c) = []) \<and>
     (tc_CPU (dc_Topdown c) \<noteq> [] \<longrightarrow> ok (canonicalizeDevkitCPUSelector (tc_CPU (dc_Topdown c)) MaxUint64)) \<and>
     (tc_PID (dc_Topdown c) \<noteq> [] \<longrightarrow> ok (canonicalizeDevkitPIDSelector (tc_PID (dc_Topdown c)) MaxUint64)) \<and>
     (mc_CPU (dc_Memory c) \<noteq> [] \<longrightarrow> ok (canonicalizeDevkitCPUSelector (mc_CPU (dc_Memory c)) MaxUint64))"

lemma parse_cpu_element_mono: "parse_cpu_element m e = Inr i \<Longrightarrow> parse_cpu_element MaxUint64 e = Inr i"
  by (auto simp: parse_cpu_element_def Let_def dest: is_digit_nonneg split: if_splits sum.splits)

lemma parse_cpu_elements_mono: "parse_cpu_elements m es = Inr is \<Longrightarrow> parse_cpu_elements MaxUint64 es = Inr is"
  by (induction es arbitrary: "is") (auto dest: parse_cpu_element_mono split: sum.splits)

lemma canonical_cpu_mono: "canonicalizeDevkitCPUSelector raw m = Inr c \<Longrightarrow> ok (canonicalizeDevkitCPUSelector raw MaxUint64)"
  by (auto simp: canonicalizeDevkitCPUSelector_def parseDevkitCPUIntervals_def dest: parse_cpu_elements_mono split: sum.splits)

lemma parse_pids_mono: "parse_pids m es = Inr vs \<Longrightarrow> parse_pids MaxUint64 es = Inr vs"
proof (induction es arbitrary: vs)
  case (Cons e es)
  then obtain x xs where x: "parseDevkitUnsigned e = Inr x" "x \<noteq> 0" "parse_pids m es = Inr xs" "vs = x # xs"
    by (auto split: sum.splits if_splits)
  with Cons.IH is_digit_nonneg[OF x(1)] show ?case by simp
qed simp

lemma canonical_pid_mono: "canonicalizeDevkitPIDSelector raw m = Inr c \<Longrightarrow> ok (canonicalizeDevkitPIDSelector raw MaxUint64)"
  by (auto simp: canonicalizeDevkitPIDSelector_def dest: parse_pids_mono split: sum.splits)

lemma effective_duration_good [simp]: "good_duration (effective_duration d)"
  by (simp add: good_duration_def effective_duration_def minDevkitDuration_def maxDevkitDuration_def defaultDevkitDuration_def)

lemma effective_duration_id [simp]: "good_duration d \<Longrightarrow> effective_duration d = d"
  by (simp add: good_duration_def effective_duration_def minDevkitDuration_def maxDevkitDuration_def)

lemma effective_period_id [simp]: "p \<in> {100, 1000} \<Longrightarrow> effective_period d p = p"
  by (auto simp: effective_period_def)

lemma withDefaults_good [simp]: "good_config c \<Longrightarrow> withDefaults c = c"
  by (cases c) (auto simp: good_config_def withDefaults_def Let_def effective_period_def)

lemma normalize_duration_good: "normalizeDevkitDuration v = Inr d \<Longrightarrow> good_duration d"
  by (auto simp: normalizeDevkitDuration_def good_duration_def minDevkitDuration_def maxDevkitDuration_def
      defaultDevkitDuration_def split: option.splits if_splits)

lemma check_selector_ok: "check_selector raw r = Inr u \<Longrightarrow> raw \<noteq> [] \<Longrightarrow> \<exists>c. r = Inr c"
  by (auto simp: check_selector_def split: sum.splits)

lemma validate_good:
  assumes "DevkitConfig_validate h c = Inr u" "good_duration (tc_Duration (dc_Topdown c))" "good_duration (mc_Duration (dc_Memory c))"
  shows "good_config c"
  using assms unfolding DevkitConfig_validate_def good_config_def Let_def
  by (auto split: if_splits sum.splits dest!: check_selector_ok intro: canonical_cpu_mono canonical_pid_mono)

lemma parse_config_good: "parseDevkitConfig decode h raw = Inr c \<Longrightarrow> good_config c"
  by (auto simp: parseDevkitConfig_def Let_def split: option.splits sum.splits
      dest!: normalize_duration_good dest: validate_good)

lemma default_config_good: "good_config (withDefaults zero_config)"
  by (simp add: good_config_def withDefaults_def zero_config_def effective_duration_def good_duration_def effective_period_def
      minDevkitDuration_def maxDevkitDuration_def defaultDevkitDuration_def defaultDevkitMemoryPeriod_def)

text \<open>The configuration an event brings, when it is accepted.\<close>

definition brought :: "yaml_decoder \<Rightarrow> config_event \<Rightarrow> devkit_config option" where
  "brought decode ev =
     (case ev of
        ConfigUpdated h (ObjConfigMap cm) \<Rightarrow>
          (case map_of (cm_Data cm) ''devkit-tuner.yaml'' of
             None \<Rightarrow> None
           | Some raw \<Rightarrow> (case parseDevkitConfig decode h raw of Inl e \<Rightarrow> None | Inr c \<Rightarrow> Some c))
      | _ \<Rightarrow> None)"

lemma config_step_config:
  "cw_config (config_step decode w ev) = (case brought decode ev of None \<Rightarrow> cw_config w | Some c \<Rightarrow> c)"
  by (auto simp: config_step_def brought_def watcher_onUpdate_def watcher_onDelete_def logAppliedConfig_def
      split: config_event.splits kube_object.splits option.splits sum.splits)

lemma brought_good: "brought decode ev = Some c \<Longrightarrow> good_config c"
  by (auto simp: brought_def dest: parse_config_good split: config_event.splits kube_object.splits option.splits sum.splits)

definition last_brought :: "yaml_decoder \<Rightarrow> devkit_config \<Rightarrow> config_event list \<Rightarrow> devkit_config" where
  "last_brought decode start evs = last (start # List.map_filter (brought decode) evs)"

lemma config_steps_config:
  "cw_config (fold (\<lambda>ev w. config_step decode w ev) evs w) = last_brought decode (cw_config w) evs"
  by (induction evs arbitrary: w) (auto simp: last_brought_def map_filter_simps config_step_config split: option.splits)

lemma last_brought_good: "good_config (withDefaults start) \<Longrightarrow> good_config (withDefaults (last_brought decode start evs))"
  by (induction evs arbitrary: start)
     (auto simp: last_brought_def map_filter_simps dest: brought_good split: option.splits)

lemma watcher_in_force:
  "watcher_load (fold (\<lambda>ev w. config_step decode w ev) evs (fst (newDevkitConfigWatcher env a b))) =
     withDefaults (last_brought decode zero_config evs)"
  by (simp add: watcher_load_def config_steps_config newDevkitConfigWatcher_def)

text \<open>C34. After any sequence of updates and deletions of ConfigMaps, with any decoder and any limits of the host,
  the configuration in force is the one of the last accepted update, or the default one before it, and it is
  good: durations from 1 to 5 seconds, a permitted period, at most one of CPU and PID, and selectors that
  parse. Rejected, incomplete and deleted ConfigMaps change nothing.\<close>

theorem config_last_known_good:
  "watcher_load (fold (\<lambda>ev w. config_step decode w ev) evs (fst (newDevkitConfigWatcher env inCluster clientOk))) =
     last (withDefaults zero_config # List.map_filter (brought decode) evs) \<and>
   good_config (watcher_load (fold (\<lambda>ev w. config_step decode w ev) evs (fst (newDevkitConfigWatcher env inCluster clientOk))))"
proof -
  have l: "withDefaults (last_brought decode zero_config evs) = last (withDefaults zero_config # List.map_filter (brought decode) evs)"
  proof (cases "List.map_filter (brought decode) evs = []")
    case False
    then have "last (List.map_filter (brought decode) evs) \<in> set (List.map_filter (brought decode) evs)" by (rule last_in_set)
    then have "good_config (last (List.map_filter (brought decode) evs))"
      by (auto simp: List.map_filter_def dest: brought_good)
    then show ?thesis using False by (simp add: last_brought_def)
  qed (simp add: last_brought_def)
  moreover have "good_config (withDefaults (last_brought decode zero_config evs))"
    by (rule last_brought_good[OF default_config_good])
  ultimately show ?thesis by (simp only: watcher_in_force simp_thms)
qed

text \<open>The interval of the collection is at least one second and at most an hour.\<close>

lemma collect_interval_bounds: "go_second \<le> devkitCollectInterval env \<and> devkitCollectInterval env \<le> 3600 * go_second"
proof -
  have "wrap_i64 (n * go_second) = n * go_second" if "0 < n" "n \<le> 3600" for n
    using that by (intro wrap_i64_id) (simp add: in_i64_def go_second_def)
  then show ?thesis
    by (auto simp: devkitCollectInterval_def parseDevkitCollectInterval_def defaultDevkitInterval_def go_second_def
        maxDevkitCollectIntervalSeconds_def split: sum.splits option.splits if_splits)
qed

end
