(* ===== verification/DevkitArgs.thy ===== *)
theory DevkitArgs
  imports DevkitConfig
begin

text \<open>
  The command lines of the DevKit collectors (\<open>topdownCommandArgs\<close> and \<open>memoryCommandArgs\<close> of
  \<open>devkit_topdown.go\<close> and \<open>devkit_memory.go\<close>) and the labels that are read back from them
  (\<open>parseDevkitAttemptMetadata\<close> of \<open>devkit_coordination.go\<close>).
\<close>

section \<open>Building a command line\<close>

definition topdownCommandArgs :: "topdown_config \<Rightarrow> string list" where
  "topdownCommandArgs cfg =
     (let d = (if tc_Duration cfg < minDevkitDuration \<or> maxDevkitDuration < tc_Duration cfg then defaultDevkitDuration
               else tc_Duration cfg);
          args = [''tuner'', ''top-down''] @ [''-d'', itoa d, ''-L'', ''0'']
      in if tc_PID cfg \<noteq> [] then args @ [''-p'', tc_PID cfg]
         else if tc_CPU cfg \<noteq> [] then args @ [''-c'', tc_CPU cfg]
         else args)"

definition memoryCommandArgs :: "memory_config \<Rightarrow> string list" where
  "memoryCommandArgs cfg =
     (let duration = (if mc_Duration cfg < minDevkitDuration \<or> maxDevkitDuration < mc_Duration cfg then defaultDevkitDuration
                      else mc_Duration cfg);
          period = (if mc_Period cfg \<noteq> 100 \<and> mc_Period cfg \<noteq> 1000
                    then (if duration = 1 then 100 else defaultDevkitMemoryPeriod) else mc_Period cfg);
          args = [''tuner'', ''memory'', ''-d'', itoa duration, ''-m'', ''1'', ''-P'', itoa period]
      in if mc_CPU cfg \<noteq> [] then args @ [''-c'', mc_CPU cfg] else args)"

section \<open>Reading it back\<close>

record attempt_metadata =
  am_targetType :: string
  am_target :: string
  am_targetValue :: string
  am_period :: int

fun flag_values :: "(string, string) gomap \<Rightarrow> string list \<Rightarrow> (string, string) gomap result" where
  "flag_values values [] = Inr values"
| "flag_values values [flag] = Inl (Err ''DevKit argument is missing a value'')"
| "flag_values values (flag # v # rest) =
     (if v = [] then Inl (Err ''DevKit argument has an empty value'')
      else if map_of values flag \<noteq> None then Inl (Err ''DevKit argument is duplicated'')
      else flag_values (AList.update flag v values) rest)"

text \<open>A missing key of a Go map reads as the empty text.\<close>

definition flag_value :: "(string, string) gomap \<Rightarrow> string \<Rightarrow> string" where
  "flag_value values k = (case map_of values k of None \<Rightarrow> [] | Some v \<Rightarrow> v)"

definition system_target :: attempt_metadata where
  "system_target = \<lparr>am_targetType = ''system'', am_target = ''system'', am_targetValue = [], am_period = 0\<rparr>"

definition cpu_target :: "string \<Rightarrow> attempt_metadata \<Rightarrow> attempt_metadata" where
  "cpu_target cpu m = m\<lparr>am_targetType := ''cpu'', am_target := ''cpu'' @ cpu, am_targetValue := cpu\<rparr>"

definition pid_target :: "string \<Rightarrow> attempt_metadata \<Rightarrow> attempt_metadata" where
  "pid_target pid m = m\<lparr>am_targetType := ''pid'', am_target := ''pid'' @ pid, am_targetValue := pid\<rparr>"

definition topdown_metadata :: "(string, string) gomap \<Rightarrow> attempt_metadata result" where
  "topdown_metadata values =
     (if \<not> list_all (\<lambda>(flag, v). flag \<in> {''-d'', ''-L'', ''-c'', ''-p''}) values then Inl (Err ''TopDown argv contains unsupported argument'')
      else if flag_value values ''-L'' \<noteq> ''0'' then Inl (Err ''TopDown profile level must be 0'')
      else if flag_value values ''-c'' \<noteq> [] \<and> flag_value values ''-p'' \<noteq> [] then Inl (Err ''TopDown argv cannot contain both CPU and PID'')
      else if flag_value values ''-c'' \<noteq> [] then Inr (cpu_target (flag_value values ''-c'') system_target)
      else if flag_value values ''-p'' \<noteq> [] then Inr (pid_target (flag_value values ''-p'') system_target)
      else Inr system_target)"

definition memory_metadata :: "(string, string) gomap \<Rightarrow> attempt_metadata result" where
  "memory_metadata values =
     (if \<not> list_all (\<lambda>(flag, v). flag \<in> {''-d'', ''-m'', ''-P'', ''-c''}) values then Inl (Err ''unsupported argument in Memory argv'')
      else if flag_value values ''-m'' \<noteq> ''1'' then Inl (Err ''invalid Memory metric: must be 1'')
      else (case atoi (flag_value values ''-P'') of
              None \<Rightarrow> Inl (Err ''invalid Memory period'')
            | Some period \<Rightarrow>
                if period \<noteq> 100 \<and> period \<noteq> 1000 then Inl (Err ''invalid Memory period'')
                else (let m = system_target\<lparr>am_period := period\<rparr>
                      in if flag_value values ''-c'' \<noteq> [] then Inr (cpu_target (flag_value values ''-c'') m) else Inr m)))"

definition parseDevkitAttemptMetadata :: "string list \<Rightarrow> attempt_metadata result" where
  "parseDevkitAttemptMetadata args =
     (if length args < 2 \<or> hd args \<noteq> ''tuner'' then Inl (Err ''DevKit argv is missing the tuner subcommand'')
      else
        (case flag_values [] (drop 2 args) of
           Inl e \<Rightarrow> Inl e
         | Inr values \<Rightarrow>
             (case atoi (flag_value values ''-d'') of
                None \<Rightarrow> Inl (Err ''DevKit duration is invalid'')
              | Some duration \<Rightarrow>
                  if duration < minDevkitDuration \<or> maxDevkitDuration < duration then Inl (Err ''DevKit duration is invalid'')
                  else if args ! 1 = ''top-down'' then topdown_metadata values
                  else if args ! 1 = ''memory'' then memory_metadata values
                  else Inl (Err ''unsupported DevKit subcommand''))))"

section \<open>Every command line is read back\<close>

definition topdown_attempt :: "topdown_config \<Rightarrow> attempt_metadata" where
  "topdown_attempt cfg =
     (if tc_PID cfg \<noteq> [] then pid_target (tc_PID cfg) system_target
      else if tc_CPU cfg \<noteq> [] then cpu_target (tc_CPU cfg) system_target
      else system_target)"

definition memory_attempt :: "memory_config \<Rightarrow> attempt_metadata" where
  "memory_attempt cfg =
     (let m = system_target\<lparr>am_period := effective_period (effective_duration (mc_Duration cfg)) (mc_Period cfg)\<rparr>
      in if mc_CPU cfg \<noteq> [] then cpu_target (mc_CPU cfg) m else m)"

lemma atoi_duration:
  "atoi (itoa (effective_duration d)) = Some (effective_duration d)"
proof (rule atoi_itoa)
  have "good_duration (effective_duration d)" by simp
  then show "in_i64 (effective_duration d)" by (simp add: good_duration_def in_i64_def)
qed

lemma effective_duration_bounds: "\<not> effective_duration d < minDevkitDuration" "\<not> maxDevkitDuration < effective_duration d"
  using effective_duration_good[of d] by (simp_all add: good_duration_def minDevkitDuration_def maxDevkitDuration_def)

lemma effective_period_cases: "effective_period d p = 100 \<or> effective_period d p = 1000"
  by (simp add: effective_period_def defaultDevkitMemoryPeriod_def)

lemma topdownCommandArgs_eq:
  "topdownCommandArgs cfg =
     [''tuner'', ''top-down'', ''-d'', itoa (effective_duration (tc_Duration cfg)), ''-L'', ''0''] @
     (if tc_PID cfg \<noteq> [] then [''-p'', tc_PID cfg] else if tc_CPU cfg \<noteq> [] then [''-c'', tc_CPU cfg] else [])"
  by (simp add: topdownCommandArgs_def effective_duration_def Let_def)

lemma memoryCommandArgs_eq:
  "memoryCommandArgs cfg =
     [''tuner'', ''memory'', ''-d'', itoa (effective_duration (mc_Duration cfg)), ''-m'', ''1'',
      ''-P'', itoa (effective_period (effective_duration (mc_Duration cfg)) (mc_Period cfg))] @
     (if mc_CPU cfg \<noteq> [] then [''-c'', mc_CPU cfg] else [])"
  by (simp add: memoryCommandArgs_def effective_duration_def effective_period_def Let_def)

lemma topdown_args_accepted: "parseDevkitAttemptMetadata (topdownCommandArgs cfg) = Inr (topdown_attempt cfg)"
  by (simp add: topdownCommandArgs_eq parseDevkitAttemptMetadata_def flag_value_def atoi_duration effective_duration_bounds
      topdown_metadata_def topdown_attempt_def)

lemma memory_args_accepted: "parseDevkitAttemptMetadata (memoryCommandArgs cfg) = Inr (memory_attempt cfg)"
proof -
  define d where "d = effective_duration (mc_Duration cfg)"
  define p where "p = effective_period d (mc_Period cfg)"
  have p: "p = 100 \<or> p = 1000" using effective_period_cases by (simp add: p_def)
  then have a: "atoi (itoa p) = Some p" by (intro atoi_itoa) (auto simp: in_i64_def)
  have d: "atoi (itoa d) = Some d" "\<not> d < minDevkitDuration" "\<not> maxDevkitDuration < d"
    by (simp_all add: d_def atoi_duration effective_duration_bounds)
  show ?thesis
    using p by (auto simp: memoryCommandArgs_eq parseDevkitAttemptMetadata_def flag_value_def memory_metadata_def memory_attempt_def
        d_def[symmetric] p_def[symmetric] a d Let_def)
qed

text \<open>C35. Whatever the configuration holds, the command line that is built from it is read back without an error,
  as the target and the period the configuration asks for: the collectors never report a broken command
  line of their own.\<close>

theorem command_lines_read_back:
  "parseDevkitAttemptMetadata (topdownCommandArgs t) = Inr (topdown_attempt t) \<and>
   parseDevkitAttemptMetadata (memoryCommandArgs m) = Inr (memory_attempt m)"
  by (simp add: topdown_args_accepted memory_args_accepted)

end
