(* ===== verification/DevkitTopdown.thy ===== *)
theory DevkitTopdown
  imports GoRegexp DevkitArgs
begin

text \<open>
  The parser of TopDown reports (\<open>pkg/kunpeng-perf-monitor/collector/devkit_topdown_parser.go\<close>): the choice
  of the last report, its scope, its summary, the tree of the pipeline bounds and the PMU events. The
  patterns are those of the file, one by one.
\<close>

section \<open>Patterns\<close>

definition topdownCommandPattern :: regexp where
  "topdownCommandPattern = rx_seq [Bol, rx_lit ''Command'', rx_star rx_space, rx_char (CHR '':''), rx_star rx_space,
     Cap 1 (rx_plus_lazy rx_dot), rx_star rx_space, Eol]"

definition topdownScopeLinePattern :: regexp where
  "topdownScopeLinePattern = rx_seq [Bol, rx_lit ''Top-down metrics of '', rx_plus rx_dot, rx_char (CHR '':''), rx_star rx_space, Eol]"

definition topdownSystemScopePattern :: regexp where
  "topdownSystemScopePattern = rx_seq [BeginText, rx_lit ''Top-down metrics of the system:'', rx_star rx_space, EndText]"

definition topdownCPUScopePattern :: regexp where
  "topdownCPUScopePattern = rx_seq [BeginText, rx_lit ''Top-down metrics of CPU(s)'', rx_plus rx_space, Cap 1 (rx_plus rx_dot),
     rx_char (CHR '':''), rx_star rx_space, EndText]"

definition topdownPIDScopePattern :: regexp where
  "topdownPIDScopePattern = rx_seq [BeginText, rx_lit (''Top-down metrics of process id '' @ [CHR 0x27]),
     Cap 1 (rx_plus (\<lambda>c. c \<noteq> CHR 0x27)), rx_char (CHR 0x27), rx_char (CHR '':''), rx_star rx_space, EndText]"

definition topdownTreeHeader :: regexp where
  "topdownTreeHeader = rx_seq [Bol, rx_star rx_dot, rx_lit ''Top-down Metrics'', rx_star rx_dot, rx_lit ''Bound(%)'', rx_star rx_dot, Eol]"

definition topdownPMUHeader :: regexp where
  "topdownPMUHeader = rx_seq [Bol, rx_star rx_dot, rx_lit ''PMU Event'', rx_star rx_dot, rx_lit ''Count'', rx_star rx_dot, Eol]"

definition rx_number :: regexp where
  "rx_number = Cat (rx_plus rx_digit) (rx_opt (Cat (rx_char (CHR ''.'')) (rx_plus rx_digit)))"

definition topdownElapsed :: regexp where
  "topdownElapsed = rx_seq [Bol, Cap 1 rx_number, rx_plus rx_space, rx_lit ''milliseconds time elapsed'', rx_star rx_space, Eol]"

definition topdownRowPattern :: regexp where
  "topdownRowPattern = rx_seq [BeginText, Cap 1 (rx_plus_lazy rx_dot), rx_plus rx_space, Cap 2 rx_number, rx_plus rx_space,
     Cap 3 (Or (rx_lit ''--'') (rx_plus (\<lambda>c. rx_alnum c \<or> c = CHR ''_''))), rx_star rx_space, EndText]"

text \<open>The branch signs of the tree are three bytes each in UTF-8.\<close>

definition tree_tee :: string where "tree_tee = [CHR 0xE2, CHR 0x94, CHR 0x9C]"
definition tree_corner :: string where "tree_corner = [CHR 0xE2, CHR 0x94, CHR 0x94]"
definition tree_line :: string where "tree_line = [CHR 0xE2, CHR 0x94, CHR 0x80]"

definition topdownTreeMarker :: regexp where
  "topdownTreeMarker = rx_seq [Or (rx_lit tree_tee) (rx_lit tree_corner), rx_lit tree_line, rx_lit tree_line]"

definition topdownPMURowPattern :: regexp where
  "topdownPMURowPattern = rx_seq [BeginText, rx_star rx_space, Cap 1 (Cat (rx_char (CHR ''r'')) (rx_plus rx_hex)), rx_plus rx_space,
     Cap 2 (rx_plus (\<lambda>c. rx_digit c \<or> c = CHR '','')), rx_star rx_space, EndText]"

definition summary_pattern :: "string \<Rightarrow> regexp" where
  "summary_pattern field = rx_seq [Bol, rx_lit field, rx_plus rx_space,
     Cap 1 (Cat (rx_plus (\<lambda>c. rx_digit c \<or> c = CHR '','')) (rx_opt (Cat (rx_char (CHR ''.'')) (rx_plus rx_digit)))),
     rx_star rx_space, Eol]"

section \<open>Reports\<close>

record topdown_node =
  tn_name :: string
  tn_path :: string
  tn_level :: int
  tn_preferredEvent :: string
  tn_value :: rat

record topdown_pmu_event =
  te_event :: string
  te_count :: int

record topdown_cache =
  tk_attempt :: attempt_metadata
  tk_cycles :: int
  tk_instructions :: int
  tk_ipc :: rat
  tk_nodes :: "topdown_node list"
  tk_pmuEvents :: "topdown_pmu_event list"
  tk_success :: bool
  tk_lastSuccessTime :: int

text \<open>The text between two positions of a text.\<close>

definition text_between :: "rpos \<Rightarrow> rpos \<Rightarrow> string" where
  "text_between p q = take (nat (rp_offset q - rp_offset p)) (rp_rest p)"

definition extractDevkitCommand :: "string \<Rightarrow> string result" where
  "extractDevkitCommand text =
     (let ms = regexp_find_all topdownCommandPattern text
      in if ms = [] then Inl (Err ''missing Command metadata'') else Inr (group 1 (last ms)))"

definition selectLastTopdownReport :: "string \<Rightarrow> (string \<times> nat) result" where
  "selectLastTopdownReport text =
     (let locs = regexp_find_all topdownScopeLinePattern text in
      if locs = [] then Inl (Err ''missing Top-down metrics of ... scope marker'')
      else
        (let selected = match_start (last locs);
             metadataStart = (if 1 < length locs then match_start (last (butlast locs)) else text_start text)
         in case extractDevkitCommand (text_between metadataStart selected) of
              Inl e \<Rightarrow> Inl e
            | Inr _ \<Rightarrow> Inr (rp_rest selected, length locs)))"

definition parseTopdownScope :: "string \<Rightarrow> topdown_scope result" where
  "parseTopdownScope reportText =
     (case regexp_find topdownScopeLinePattern reportText of
        None \<Rightarrow> Inl (Err ''missing Top-down metrics of ... scope marker'')
      | Some l \<Rightarrow>
          (let line = trim_space (match_text l) in
           if regexp_matches topdownSystemScopePattern line then Inr \<lparr>sc_type = ''system'', sc_target = []\<rparr>
           else
             (case regexp_find topdownCPUScopePattern line of
                Some m \<Rightarrow> Inr \<lparr>sc_type = ''cpu'', sc_target = trim_space (group 1 m)\<rparr>
              | None \<Rightarrow>
                  (case regexp_find topdownPIDScopePattern line of
                     Some m \<Rightarrow> Inr \<lparr>sc_type = ''pid'', sc_target = trim_space (group 1 m)\<rparr>
                   | None \<Rightarrow> Inl (Err ''unrecognized TopDown scope marker'')))))"

definition without_commas :: "string \<Rightarrow> string" where
  "without_commas s = filter (\<lambda>c. c \<noteq> CHR '','') s"

definition requiredUintField :: "string \<Rightarrow> string \<Rightarrow> int result" where
  "requiredUintField text field =
     (case regexp_find (summary_pattern field) text of
        None \<Rightarrow> Inl (Err ''missing Summary field'')
      | Some m \<Rightarrow> (case parse_u64 (without_commas (group 1 m)) of
                    None \<Rightarrow> Inl (Err ''Summary field has invalid value'')
                  | Some v \<Rightarrow> Inr v))"

definition requiredFloatField :: "string \<Rightarrow> string \<Rightarrow> rat result" where
  "requiredFloatField text field =
     (case regexp_find (summary_pattern field) text of
        None \<Rightarrow> Inl (Err ''missing Summary field'')
      | Some m \<Rightarrow> (case parse_decimal (without_commas (group 1 m)) of
                    None \<Rightarrow> Inl (Err ''Summary field has invalid value'')
                  | Some v \<Rightarrow> if v < 0 then Inl (Err ''Summary field must not be negative'') else Inr v))"

definition parseTopdownSummary :: "string \<Rightarrow> (int \<times> int \<times> rat) result" where
  "parseTopdownSummary text =
     (case requiredUintField text ''Cycles'' of
        Inl e \<Rightarrow> Inl e
      | Inr cycles \<Rightarrow>
          (case requiredUintField text ''Instructions'' of
             Inl e \<Rightarrow> Inl e
           | Inr instructions \<Rightarrow>
               (case requiredFloatField text ''IPC'' of
                  Inl e \<Rightarrow> Inl e
                | Inr ipc \<Rightarrow> Inr (cycles, instructions, ipc))))"

section \<open>The tree\<close>

text \<open>\<open>topdownNonAlphaNumeric.ReplaceAllString(s, "_")\<close>: each maximal run becomes one underscore; the flag says
  whether the character before was part of a run.\<close>

definition lower_alnum :: "char \<Rightarrow> bool" where
  "lower_alnum c = (let n = of_char c :: nat in (48 \<le> n \<and> n \<le> 57) \<or> (97 \<le> n \<and> n \<le> 122))"

fun collapse_runs :: "bool \<Rightarrow> string \<Rightarrow> string" where
  "collapse_runs inside [] = []"
| "collapse_runs inside (c # cs) =
     (if lower_alnum c then c # collapse_runs False cs
      else if inside then collapse_runs True cs
      else CHR ''_'' # collapse_runs True cs)"

definition trim_char :: "char \<Rightarrow> string \<Rightarrow> string" where
  "trim_char a s = rev (dropWhile (\<lambda>c. c = a) (rev (dropWhile (\<lambda>c. c = a) s)))"

definition normalizeTopdownName :: "string \<Rightarrow> string" where
  "normalizeTopdownName raw = trim_char (CHR ''_'') (collapse_runs False (to_lower (trim_space raw)))"

text \<open>\<open>strings.Trim(stripped, "\<^verbatim>\<open>...\<close>=-") == ""\<close> with the horizontal line of the tables: nothing but these signs.\<close>

fun only_separators :: "string \<Rightarrow> bool" where
  "only_separators s =
     (case s of
        [] \<Rightarrow> True
      | c # cs \<Rightarrow>
          if c = CHR ''='' \<or> c = CHR ''-'' then only_separators cs
          else (case cs of
                  d # e # rest \<Rightarrow> [c, d, e] = tree_line \<and> only_separators rest
                | _ \<Rightarrow> False))"

declare only_separators.simps [simp del]

definition isSeparatorLine :: "string \<Rightarrow> bool" where
  "isSeparatorLine line = (let stripped = trim_space line in stripped \<noteq> [] \<and> only_separators stripped)"

definition treeNameAndLevel :: "string \<Rightarrow> string \<times> int" where
  "treeNameAndLevel namePart =
     (let markers = regexp_find_all topdownTreeMarker namePart in
      if markers = [] then (trim_space namePart, 1)
      else (let l = last markers
            in (trim_space (rp_rest (match_end l)),
                int (rune_count (text_between (text_start namePart) (match_start l))) div 4 + 2)))"

text \<open>One round per line; the stack holds the names on the way to the last node, the paths those already used.\<close>

fun tree_rows :: "string list \<Rightarrow> string list \<Rightarrow> string list \<Rightarrow> topdown_node list result" where
  "tree_rows stack paths [] = Inr []"
| "tree_rows stack paths (rawLine # lines) =
     (if trim_space rawLine = [] \<or> isSeparatorLine rawLine then tree_rows stack paths lines
      else
        (case regexp_find topdownRowPattern rawLine of
           None \<Rightarrow> tree_rows stack paths lines
         | Some m \<Rightarrow>
             (let (rawName, level) = treeNameAndLevel (group 1 m);
                  name = normalizeTopdownName rawName in
              if name = [] then Inl (Err ''TopDown node name is empty'')
              else if contains name ''.'' then Inl (Err ''normalized node name still contains path separator'')
              else if level < 1 then Inl (Err ''TopDown node has invalid level'')
              else if int (length stack) < level - 1 then Inl (Err ''TopDown tree contains a level jump'')
              else
                (let stack' = take (nat (level - 1)) stack;
                     path = go_join ''.'' (stack' @ [name]) in
                 if path \<in> set paths then Inl (Err ''duplicate TopDown node path'')
                 else
                   (case parse_decimal (group 2 m) of
                      None \<Rightarrow> Inl (Err ''invalid TopDown percentage'')
                    | Some v \<Rightarrow>
                        (case tree_rows (stack' @ [name]) (path # paths) lines of
                           Inl e \<Rightarrow> Inl e
                         | Inr ns \<Rightarrow>
                             Inr (\<lparr>tn_name = name, tn_path = path, tn_level = level,
                                   tn_preferredEvent = (if group 3 m = ''--'' then [] else group 3 m),
                                   tn_value = v\<rparr> # ns)))))))"

definition topdownTopLevelNames :: "string list" where
  "topdownTopLevelNames = [''bad_speculation'', ''frontend_bound'', ''retiring'', ''backend_bound'']"

definition top_total :: "topdown_node list \<Rightarrow> rat" where
  "top_total nodes = fold (\<lambda>n s. if tn_level n = 1 then f64_add s (tn_value n) else s) nodes 0"

definition validateTopdownTree :: "topdown_node list \<Rightarrow> unit result" where
  "validateTopdownTree nodes =
     (let topNames = remdups (map tn_name (filter (\<lambda>n. tn_level n = 1) nodes)) in
      if length topNames \<noteq> length topdownTopLevelNames then Inl (Err ''TopDown top-level nodes are incomplete'')
      else if \<not> list_all (\<lambda>name. name \<in> set topNames) topdownTopLevelNames then Inl (Err ''TopDown is missing top-level node'')
      else if top_total nodes < 199 / 2 \<or> 201 / 2 < top_total nodes then Inl (Err ''TopDown top-level percentage sum is out of range'')
      else if \<not> list_all (\<lambda>required. required \<in> set (map tn_path nodes)) [''backend_bound.core_bound'', ''backend_bound.memory_bound'']
        then Inl (Err ''incomplete Backend Bound subtree'')
      else Inr ())"

definition parseTopdownTree :: "string \<Rightarrow> topdown_node list result" where
  "parseTopdownTree reportText =
     (case (regexp_find topdownTreeHeader reportText, regexp_find topdownPMUHeader reportText) of
        (Some header, Some pmu) \<Rightarrow>
          if rp_offset (match_start pmu) \<le> rp_offset (match_end header) then Inl (Err ''TopDown table or PMU table boundary is missing'')
          else
            (case tree_rows [] [] (go_split [NL] (text_between (match_end header) (match_start pmu))) of
               Inl e \<Rightarrow> Inl e
             | Inr nodes \<Rightarrow>
                 if nodes = [] then Inl (Err ''TopDown table has no valid nodes'')
                 else (case validateTopdownTree nodes of Inl e \<Rightarrow> Inl e | Inr _ \<Rightarrow> Inr nodes))
      | _ \<Rightarrow> Inl (Err ''TopDown table or PMU table boundary is missing''))"

section \<open>PMU events\<close>

fun pmu_rows :: "string list \<Rightarrow> string list \<Rightarrow> topdown_pmu_event list result" where
  "pmu_rows seen [] = Inr []"
| "pmu_rows seen (rawLine # lines) =
     (case regexp_find topdownPMURowPattern rawLine of
        None \<Rightarrow> pmu_rows seen lines
      | Some m \<Rightarrow>
          (let event = to_lower (group 1 m) in
           if event \<in> set seen then Inl (Err ''duplicate PMU event'')
           else
             (case parse_u64 (without_commas (group 2 m)) of
                None \<Rightarrow> Inl (Err ''invalid PMU count'')
              | Some n \<Rightarrow>
                  (case pmu_rows (event # seen) lines of
                     Inl e \<Rightarrow> Inl e
                   | Inr es \<Rightarrow> Inr (\<lparr>te_event = event, te_count = n\<rparr> # es)))))"

definition parseTopdownPMU :: "string \<Rightarrow> topdown_pmu_event list result" where
  "parseTopdownPMU reportText =
     (case (regexp_find topdownPMUHeader reportText, regexp_find topdownElapsed reportText) of
        (Some header, Some elapsed) \<Rightarrow>
          if rp_offset (match_start elapsed) \<le> rp_offset (match_end header) then Inl (Err ''PMU table or elapsed time is missing'')
          else
            (case pmu_rows [] (go_split [NL] (text_between (match_end header) (match_start elapsed))) of
               Inl e \<Rightarrow> Inl e
             | Inr events \<Rightarrow> if events = [] then Inl (Err ''PMU table has no valid events'') else Inr events)
      | _ \<Rightarrow> Inl (Err ''PMU table or elapsed time is missing''))"

section \<open>The whole report\<close>

definition check_scope :: "attempt_metadata \<Rightarrow> topdown_scope \<Rightarrow> unit result" where
  "check_scope attempt reported =
     (let requested = \<lparr>sc_type = am_targetType attempt, sc_target = am_targetValue attempt\<rparr> in
      if sc_type requested \<noteq> [] then
        (case devkitTopdownScopesEquivalent requested reported of
           Inl e \<Rightarrow> Inl e
         | Inr matches \<Rightarrow> if \<not> matches then Inl (Err ''TopDown scope does not match current argv'') else Inr ())
      else Inr ())"

definition parseTopdownOutput :: "string \<Rightarrow> attempt_metadata \<Rightarrow> topdown_cache result" where
  "parseTopdownOutput output attempt =
     (case selectLastTopdownReport output of
        Inl e \<Rightarrow> Inl e
      | Inr (reportText, reportCount) \<Rightarrow>
          (case parseTopdownScope reportText of
             Inl e \<Rightarrow> Inl e
           | Inr reported \<Rightarrow>
               (case check_scope attempt reported of
                  Inl e \<Rightarrow> Inl e
                | Inr _ \<Rightarrow>
                    (case parseTopdownSummary reportText of
                       Inl e \<Rightarrow> Inl e
                     | Inr (cycles, instructions, ipc) \<Rightarrow>
                         (case parseTopdownTree reportText of
                            Inl e \<Rightarrow> Inl e
                          | Inr nodes \<Rightarrow>
                              (case parseTopdownPMU reportText of
                                 Inl e \<Rightarrow> Inl e
                               | Inr events \<Rightarrow>
                                   Inr \<lparr>tk_attempt = attempt, tk_cycles = cycles, tk_instructions = instructions, tk_ipc = ipc,
                                        tk_nodes = nodes, tk_pmuEvents = events, tk_success = True, tk_lastSuccessTime = 0\<rparr>))))))"

end
