(* ===== verification/DevkitTopdownOk.thy ===== *)
theory DevkitTopdownOk
  imports DevkitTopdown
begin

text \<open>
  What a parsed TopDown report guarantees: its nodes form a tree that is described parent first, without a
  repetition, over the four top-level categories, and its PMU events are distinct.
\<close>

section \<open>Names\<close>

definition name_char :: "char \<Rightarrow> bool" where
  "name_char c \<longleftrightarrow> lower_alnum c \<or> c = CHR ''_''"

definition node_name :: "string \<Rightarrow> bool" where
  "node_name s \<longleftrightarrow> s \<noteq> [] \<and> list_all name_char s"

lemma collapse_runs_chars: "c \<in> set (collapse_runs b s) \<Longrightarrow> name_char c"
  by (induction b s rule: collapse_runs.induct) (auto simp: name_char_def split: if_splits)

lemma trim_char_subset: "set (trim_char a s) \<subseteq> set s"
  by (auto simp: trim_char_def dest!: set_dropWhileD)

lemma normalize_chars: "list_all name_char (normalizeTopdownName raw)"
proof -
  have "set (normalizeTopdownName raw) \<subseteq> set (collapse_runs False (to_lower (trim_space raw)))"
    unfolding normalizeTopdownName_def by (rule trim_char_subset)
  then show ?thesis using collapse_runs_chars by (auto simp: list_all_iff)
qed

lemma name_char_no_dot: "\<not> name_char (CHR ''.'')"
  by (simp add: name_char_def lower_alnum_def Let_def)

lemma node_name_no_dot: "node_name s \<Longrightarrow> CHR ''.'' \<notin> set s"
  using name_char_no_dot by (auto simp: node_name_def list_all_iff)

text \<open>The check for a separator inside a normalised name never fires.\<close>

lemma normalize_no_separator: "\<not> contains (normalizeTopdownName raw) ''.''"
  using normalize_chars[of raw] name_char_no_dot by (auto simp: contains_char list_all_iff)

section \<open>The tree\<close>

text \<open>A node hangs below the nodes with the known paths: the segments of its path are its level many names, the
  last one its own, and without the last one they are a known path.\<close>

definition attached :: "string set \<Rightarrow> topdown_node \<Rightarrow> bool" where
  "attached known n \<longleftrightarrow>
     (let segs = go_split ''.'' (tn_path n)
      in int (length segs) = tn_level n \<and> last segs = tn_name n \<and> list_all node_name segs \<and>
         (tn_level n = 1 \<or> go_join ''.'' (butlast segs) \<in> known))"

fun grown :: "string set \<Rightarrow> topdown_node list \<Rightarrow> bool" where
  "grown known [] = True"
| "grown known (n # ns) = (tn_path n \<notin> known \<and> attached known n \<and> grown (insert (tn_path n) known) ns)"

lemma grown_paths: "grown known ns \<Longrightarrow> distinct (map tn_path ns) \<and> set (map tn_path ns) \<inter> known = {}"
  by (induction known ns rule: grown.induct) auto

lemma level_nonneg: "1 \<le> snd (treeNameAndLevel s)"
  by (auto simp: treeNameAndLevel_def Let_def)

lemma tree_rows_step:
  assumes "tree_rows stack paths (l # ls) = Inr ns"
  shows "tree_rows stack paths ls = Inr ns \<or>
    (\<exists>name level ev v ns'. node_name name \<and> 1 \<le> level \<and> level - 1 \<le> int (length stack) \<and>
       go_join ''.'' (take (nat (level - 1)) stack @ [name]) \<notin> set paths \<and>
       tree_rows (take (nat (level - 1)) stack @ [name]) (go_join ''.'' (take (nat (level - 1)) stack @ [name]) # paths) ls = Inr ns' \<and>
       ns = \<lparr>tn_name = name, tn_path = go_join ''.'' (take (nat (level - 1)) stack @ [name]), tn_level = level,
             tn_preferredEvent = ev, tn_value = v\<rparr> # ns')"
proof (cases "trim_space l = [] \<or> isSeparatorLine l")
  case True
  then show ?thesis using assms by auto
next
  case nosep: False
  show ?thesis
  proof (cases "regexp_find topdownRowPattern l")
    case None
    then show ?thesis using assms nosep by auto
  next
    case (Some m)
    obtain raw level where rl: "treeNameAndLevel (group 1 m) = (raw, level)" by (cases "treeNameAndLevel (group 1 m)")
    let ?name = "normalizeTopdownName raw"
    let ?st = "take (nat (level - 1)) stack"
    have e: "tree_rows stack paths (l # ls) =
      (if ?name = [] then Inl (Err ''TopDown node name is empty'')
       else if int (length stack) < level - 1 then Inl (Err ''TopDown tree contains a level jump'')
       else if go_join ''.'' (?st @ [?name]) \<in> set paths then Inl (Err ''duplicate TopDown node path'')
       else (case parse_decimal (group 2 m) of
               None \<Rightarrow> Inl (Err ''invalid TopDown percentage'')
             | Some v \<Rightarrow>
                 (case tree_rows (?st @ [?name]) (go_join ''.'' (?st @ [?name]) # paths) ls of
                    Inl e \<Rightarrow> Inl e
                  | Inr ns \<Rightarrow>
                      Inr (\<lparr>tn_name = ?name, tn_path = go_join ''.'' (?st @ [?name]), tn_level = level,
                            tn_preferredEvent = (if group 3 m = ''--'' then [] else group 3 m), tn_value = v\<rparr> # ns))))"
      using nosep Some rl level_nonneg[of "group 1 m"] by (simp add: Let_def normalize_no_separator)
    have "node_name ?name" if "?name \<noteq> []" using that by (simp add: node_name_def normalize_chars)
    moreover have "1 \<le> level" using level_nonneg[of "group 1 m"] rl by simp
    ultimately show ?thesis
      using assms unfolding e by (auto split: if_splits option.splits sum.splits)
  qed
qed

lemma go_split_path:
  assumes "list_all node_name segs" "segs \<noteq> []"
  shows "go_split ''.'' (go_join ''.'' segs) = segs"
  using assms by (intro go_split_join_char) (auto simp: list_all_iff node_name_no_dot)

lemma tree_rows_grown:
  assumes "tree_rows stack paths lines = Inr ns" "list_all node_name stack"
    and "\<And>k. 0 < k \<Longrightarrow> k \<le> length stack \<Longrightarrow> go_join ''.'' (take k stack) \<in> set paths"
  shows "grown (set paths) ns"
  using assms
proof (induction lines arbitrary: stack paths ns)
  case (Cons l ls)
  from tree_rows_step[OF Cons.prems(1)] show ?case
  proof (elim disjE exE conjE)
    assume "tree_rows stack paths ls = Inr ns"
    then show ?thesis using Cons by blast
  next
    fix name level ev v ns'
    define st where "st = take (nat (level - 1)) stack"
    define path where "path = go_join ''.'' (st @ [name])"
    assume name: "node_name name" and lv: "1 \<le> level" "level - 1 \<le> int (length stack)"
      and new: "go_join ''.'' (take (nat (level - 1)) stack @ [name]) \<notin> set paths"
      and rest: "tree_rows (take (nat (level - 1)) stack @ [name]) (go_join ''.'' (take (nat (level - 1)) stack @ [name]) # paths) ls = Inr ns'"
      and ns: "ns = \<lparr>tn_name = name, tn_path = go_join ''.'' (take (nat (level - 1)) stack @ [name]), tn_level = level,
             tn_preferredEvent = ev, tn_value = v\<rparr> # ns'"
    have len: "int (length st) = level - 1" using lv by (simp add: st_def)
    have names: "list_all node_name (st @ [name])" using name Cons.prems(2)
      by (auto simp: st_def list_all_iff dest: in_set_takeD)
    have segs: "go_split ''.'' path = st @ [name]" unfolding path_def by (rule go_split_path[OF names]) simp
    have below: "level = 1 \<or> go_join ''.'' st \<in> set paths"
    proof (cases "level = 1")
      case False
      then have "0 < nat (level - 1)" "nat (level - 1) \<le> length stack" using lv by simp_all
      from Cons.prems(3)[OF this] show ?thesis by (simp add: st_def)
    qed simp
    have "grown (set (path # paths)) ns'"
    proof (rule Cons.IH)
      show "tree_rows (st @ [name]) (path # paths) ls = Inr ns'" using rest by (simp add: st_def path_def)
      show "list_all node_name (st @ [name])" by (rule names)
      fix k assume k: "0 < k" "k \<le> length (st @ [name])"
      show "go_join ''.'' (take k (st @ [name])) \<in> set (path # paths)"
      proof (cases "k \<le> length st")
        case True
        moreover have "length st \<le> nat (level - 1)" by (simp add: st_def)
        ultimately have "take k (st @ [name]) = take k stack" by (simp add: st_def)
        moreover have "k \<le> length stack" using True by (simp add: st_def)
        ultimately show ?thesis using Cons.prems(3)[OF k(1)] by simp
      next
        case False
        then have "take k (st @ [name]) = st @ [name]" using k(2) by simp
        then show ?thesis by (simp add: path_def)
      qed
    qed
    moreover have "attached (set paths) (hd ns)"
      using segs len names below by (simp add: attached_def ns st_def[symmetric] path_def[symmetric] Let_def)
    moreover have "tn_path (hd ns) = path" by (simp add: ns path_def st_def)
    moreover have "path \<notin> set paths" using new by (simp add: path_def st_def)
    ultimately show ?thesis by (simp add: ns)
  qed
qed simp

text \<open>The categories on the first level.\<close>

definition categories :: "topdown_node list \<Rightarrow> string list" where
  "categories ns = map tn_name (filter (\<lambda>n. tn_level n = 1) ns)"

lemma grown_top_path: "attached known n \<Longrightarrow> tn_level n = 1 \<Longrightarrow> tn_path n = tn_name n"
proof -
  assume a: "attached known n" "tn_level n = 1"
  then have "length (go_split ''.'' (tn_path n)) = 1" "last (go_split ''.'' (tn_path n)) = tn_name n"
    by (auto simp: attached_def Let_def)
  then have "go_split ''.'' (tn_path n) = [tn_name n]" by (cases "go_split ''.'' (tn_path n)") auto
  then show ?thesis using go_join_split[of "''.''" "tn_path n"] by simp
qed

lemma grown_categories: "grown known ns \<Longrightarrow> distinct (categories ns) \<and> set (categories ns) \<subseteq> set (map tn_path ns)"
proof (induction known ns rule: grown.induct)
  case (2 known n ns)
  then have g: "grown (insert (tn_path n) known) ns" and ih: "distinct (categories ns)" "set (categories ns) \<subseteq> set (map tn_path ns)"
    by auto
  from grown_paths[OF g] have "tn_path n \<notin> set (map tn_path ns)" by auto
  with 2 ih show ?case using grown_top_path[of known n] by (auto simp: categories_def)
qed (simp add: categories_def)

definition tree_complete :: "topdown_node list \<Rightarrow> bool" where
  "tree_complete ns \<longleftrightarrow>
     grown {} ns \<and> distinct (categories ns) \<and> set (categories ns) = set topdownTopLevelNames \<and>
     199 / 2 \<le> top_total ns \<and> top_total ns \<le> 201 / 2 \<and>
     {''backend_bound.core_bound'', ''backend_bound.memory_bound''} \<subseteq> set (map tn_path ns)"

lemma validate_complete:
  assumes "validateTopdownTree ns = Inr u" "grown {} ns"
  shows "tree_complete ns"
proof -
  have top: "length (remdups (categories ns)) = length topdownTopLevelNames"
    "set topdownTopLevelNames \<subseteq> set (categories ns)" "\<not> (top_total ns < 199 / 2 \<or> 201 / 2 < top_total ns)"
    "set [''backend_bound.core_bound'', ''backend_bound.memory_bound''] \<subseteq> set (map tn_path ns)"
    using assms(1) by (auto simp: validateTopdownTree_def Let_def categories_def list_all_iff split: if_splits)
  have d: "distinct (categories ns)" using grown_categories[OF assms(2)] by simp
  have "card (set topdownTopLevelNames) = card (set (categories ns))"
    using top(1) d distinct_card[of "categories ns"] distinct_card[of topdownTopLevelNames]
    by (simp add: distinct_remdups_id topdownTopLevelNames_def)
  then have "set topdownTopLevelNames = set (categories ns)" by (intro card_subset_eq top(2)) auto
  then show ?thesis using top d assms(2) by (auto simp: tree_complete_def)
qed

lemma parse_tree_complete:
  assumes "parseTopdownTree text = Inr ns"
  shows "tree_complete ns"
proof -
  from assms obtain lines where "tree_rows [] [] lines = Inr ns" and v: "validateTopdownTree ns = Inr ()"
    by (auto simp: parseTopdownTree_def split: option.splits if_splits sum.splits)
  then have "grown (set []) ns" by (intro tree_rows_grown) auto
  then show ?thesis using validate_complete[OF v] by simp
qed

section \<open>PMU events\<close>

lemma pmu_rows_distinct:
  "pmu_rows seen lines = Inr es \<Longrightarrow> distinct (map te_event es) \<and> set (map te_event es) \<inter> set seen = {}"
proof (induction seen lines arbitrary: es rule: pmu_rows.induct)
  case (2 seen l ls)
  show ?case
  proof (cases "regexp_find topdownPMURowPattern l")
    case None
    then show ?thesis using 2 by auto
  next
    case (Some m)
    then obtain n es' where e: "to_lower (group 1 m) \<notin> set seen" "parse_u64 (without_commas (group 2 m)) = Some n"
      "pmu_rows (to_lower (group 1 m) # seen) ls = Inr es'" "es = \<lparr>te_event = to_lower (group 1 m), te_count = n\<rparr> # es'"
      using 2(3) by (auto simp: Let_def split: if_splits option.splits sum.splits)
    from 2(2)[OF Some refl e(1) e(2) e(3)] e show ?thesis by auto
  qed
qed simp

lemma parse_pmu_distinct: "parseTopdownPMU text = Inr es \<Longrightarrow> distinct (map te_event es) \<and> es \<noteq> []"
  by (auto simp: parseTopdownPMU_def split: option.splits if_splits sum.splits dest: pmu_rows_distinct)

section \<open>The report\<close>

definition topdown_report_ok :: "topdown_cache \<Rightarrow> bool" where
  "topdown_report_ok c \<longleftrightarrow> tree_complete (tk_nodes c) \<and> distinct (map te_event (tk_pmuEvents c)) \<and> tk_pmuEvents c \<noteq> []"

lemma parse_topdown_ok:
  "parseTopdownOutput output attempt = Inr c \<Longrightarrow> topdown_report_ok c \<and> tk_attempt c = attempt \<and> tk_success c"
  by (auto simp: parseTopdownOutput_def topdown_report_ok_def split: sum.splits prod.splits
      dest: parse_tree_complete parse_pmu_distinct)

text \<open>C33. The nodes of a parsed TopDown table are a tree listed parent first: each path is new, its segments are
  as many names as the level says, and without its last segment it is the path of an earlier node. The
  first level is exactly the four categories, each once, with a sum between 99.5 and 100.5 percent.\<close>

theorem topdown_table_is_tree:
  assumes "parseTopdownTree text = Inr nodes"
  shows "grown {} nodes \<and> distinct (categories nodes) \<and> set (categories nodes) = set topdownTopLevelNames \<and>
    199 / 2 \<le> top_total nodes \<and> top_total nodes \<le> 201 / 2"
  using parse_tree_complete[OF assms] by (simp add: tree_complete_def)

definition demo_topdown_table :: string where
  "demo_topdown_table = go_join [NL] [''Top-down MetricsBound(%)'',
     ''Bad Speculation 10 x'', ''Frontend Bound 20 x'', ''Retiring 30 x'', ''Backend Bound 40 x'',
     tree_tee @ tree_line @ tree_line @ ''Core Bound 1 x'',
     tree_tee @ tree_line @ tree_line @ ''Memory Bound 1 x'', ''PMU EventCount'']"

theorem topdown_table_is_tree_witness:
  "set (categories (projr (parseTopdownTree demo_topdown_table))) = set topdownTopLevelNames"
proof -
  have "\<not> isl (parseTopdownTree demo_topdown_table)" by code_simp
  from topdown_table_is_tree[OF sum.collapse(2)[OF this, symmetric]] show ?thesis by simp
qed

end
