(* ===== verification/DevkitMemory.thy ===== *)
theory DevkitMemory
  imports DevkitTopdown
begin

text \<open>
  The parser of memory reports (\<open>pkg/kunpeng-perf-monitor/collector/devkit_memory_parser.go\<close>): the choice of
  the last report, its five tables and the cross check of their sums.
\<close>

section \<open>Patterns and anchors\<close>

definition memAnchorReport :: string where "memAnchorReport = ''Memory Summary Report''"
definition memAnchorCacheMiss :: string where "memAnchorCacheMiss = ''Percentage of core Cache miss''"
definition memAnchorDDRSystem :: string where "memAnchorDDRSystem = ''DDR Bandwidth (system wide)''"
definition memAnchorCacheMetrics :: string where "memAnchorCacheMetrics = ''Memory metrics of the Cache''"
definition memAnchorAccess :: string where "memAnchorAccess = ''L1/L2/TLB Access Bandwidth and Hit Rate''"
definition memAnchorL3 :: string where "memAnchorL3 = ''L3 Read Bandwidth and Hit Rate''"
definition memAnchorDDRCMetrics :: string where "memAnchorDDRCMetrics = ''Memory metrics of the DDRC''"
definition memAnchorDDRCTable :: string where "memAnchorDDRCTable = ''DDRC_ACCESS_BANDWIDTH''"

definition rx_amount :: regexp where "rx_amount = rx_plus (\<lambda>c. rx_digit c \<or> c = CHR ''.'')"

definition memAccessCell :: regexp where
  "memAccessCell = rx_seq [Cap 1 (Or (rx_lit ''N/A'') (Cat rx_amount (rx_lit ''MB/s''))), rx_star rx_space, rx_char (CHR ''|''),
     rx_star rx_space, Cap 2 (Or (rx_lit ''N/A'') (Cat rx_amount (rx_char (CHR ''%''))))]"

definition memDDRCCell :: regexp where
  "memDDRCCell = rx_seq [Cap 1 rx_amount, rx_lit ''MB/s'', rx_star rx_space, rx_char (CHR ''|''), rx_star rx_space,
     Cap 2 rx_amount, rx_lit ''MB/s'']"

definition memCacheMissRow :: regexp where
  "memCacheMissRow = rx_seq [Bol, rx_star rx_space,
     Cap 1 (Or (rx_lit ''L1D'') (Or (rx_lit ''L1I'') (Or (rx_lit ''L2D'') (rx_lit ''L2I'')))), rx_plus rx_space,
     Cap 2 rx_amount, rx_char (CHR ''%''), rx_star rx_space, Eol]"

definition memDDRSystemRow :: regexp where
  "memDDRSystemRow = rx_seq [Bol, rx_star rx_space, Cap 1 (Or (rx_lit ''ddrc_read'') (rx_lit ''ddrc_write'')), rx_plus rx_space,
     Cap 2 rx_amount, rx_lit ''MB/s'', rx_star rx_space, Eol]"

definition memL3Row :: regexp where
  "memL3Row = rx_seq [Bol, rx_star rx_space, Cap 1 (rx_plus rx_digit), rx_plus rx_space,
     Cap 2 (Or (rx_lit ''--'') (rx_plus rx_digit)), rx_plus rx_space, Cap 3 rx_amount, rx_lit ''MB/s'', rx_plus rx_space,
     Cap 4 rx_amount, rx_lit ''MB/s'', rx_plus rx_space, Cap 5 rx_amount, rx_char (CHR ''%''), rx_star rx_space, Eol]"

definition memAccessCPUPrefix :: regexp where
  "memAccessCPUPrefix = rx_seq [BeginText, rx_star rx_space, Cap 1 (rx_plus (\<lambda>c. \<not> rx_space c)), rx_plus rx_space,
     Cap 2 (rx_star rx_dot), EndText]"

definition memDDRCNodePrefix :: regexp where
  "memDDRCNodePrefix = rx_seq [BeginText, rx_star rx_space, Cap 1 (rx_plus rx_digit), rx_plus rx_space, Cap 2 (rx_star rx_dot), EndText]"

section \<open>Reports\<close>

record memory_access_cell =
  ma_cpu :: string
  ma_component :: string
  ma_bandwidth :: rat
  ma_hasBW :: bool
  ma_hitPercent :: rat
  ma_hasHit :: bool

record memory_l3_row =
  ml_node :: string
  ml_ccl :: string
  ml_readHitBandwidth :: rat
  ml_readBandwidth :: rat
  ml_readHitPercent :: rat

record memory_ddrc_cell =
  md_node :: string
  md_ddrc :: string
  md_read :: rat
  md_write :: rat

record memory_cache_miss =
  mm_component :: string
  mm_percent :: rat

record memory_ddr_system =
  ms_operation :: string
  ms_value :: rat

record memory_cache =
  mk_attempt :: attempt_metadata
  mk_cacheMiss :: "memory_cache_miss list"
  mk_ddrSystem :: "memory_ddr_system list"
  mk_access :: "memory_access_cell list"
  mk_l3 :: "memory_l3_row list"
  mk_ddrc :: "memory_ddrc_cell list"
  mk_success :: bool
  mk_lastSuccessTime :: int

text \<open>\<open>strings.LastIndex\<close>: the parts around the last occurrence of a non-empty text.\<close>

fun go_cut_last :: "string \<Rightarrow> string \<Rightarrow> (string \<times> string) option" where
  "go_cut_last sep [] = None"
| "go_cut_last sep (c # cs) =
     (case go_cut_last sep cs of
        Some (a, b) \<Rightarrow> Some (c # a, b)
      | None \<Rightarrow> if has_prefix (c # cs) sep then Some ([], drop (length sep) (c # cs)) else None)"

definition selectLastMemoryReport :: "string \<Rightarrow> (string \<times> nat) result" where
  "selectLastMemoryReport text =
     (case go_cut_last memAnchorReport text of
        None \<Rightarrow> Inl (Err ''missing Memory Summary Report'')
      | Some (front, back) \<Rightarrow>
          (let metadata = (case go_cut_last memAnchorReport front of
                             Some (a, b) \<Rightarrow> memAnchorReport @ b
                           | None \<Rightarrow> front)
           in case extractDevkitCommand metadata of
                Inl e \<Rightarrow> Inl e
              | Inr _ \<Rightarrow>
                  Inr ((case go_cut_last [NL] front of
                          None \<Rightarrow> text
                        | Some (a, line) \<Rightarrow> line @ memAnchorReport @ back),
                       length (go_split memAnchorReport text) - 1)))"

definition memorySection :: "string \<Rightarrow> string \<Rightarrow> string \<Rightarrow> string result" where
  "memorySection reportText startAnchor endAnchor =
     (case go_cut startAnchor reportText of
        None \<Rightarrow> Inl (Err ''missing section'')
      | Some (a, b) \<Rightarrow>
          if endAnchor = [] then Inr (startAnchor @ b)
          else (case go_cut endAnchor b of
                  None \<Rightarrow> Inl (Err ''section is missing end marker'')
                | Some (x, y) \<Rightarrow> Inr (startAnchor @ x)))"

definition trim_suffix :: "string \<Rightarrow> string \<Rightarrow> string" where
  "trim_suffix s p = (if has_suffix s p then take (length s - length p) s else s)"

definition parse_float :: "string \<Rightarrow> rat result" where
  "parse_float s = (case parse_decimal s of None \<Rightarrow> Inl (Err ''invalid number'') | Some v \<Rightarrow> Inr v)"

definition parseMBps :: "string \<Rightarrow> rat result" where
  "parseMBps token =
     (if \<not> has_suffix token ''MB/s'' then Inl (Err ''bandwidth is missing MB/s suffix'') else parse_float (trim_suffix token ''MB/s''))"

definition parsePercent :: "string \<Rightarrow> rat result" where
  "parsePercent token =
     (case parse_float (trim_suffix token ''%'') of
        Inl e \<Rightarrow> Inl (Err ''invalid percentage'')
      | Inr v \<Rightarrow> if v < 0 \<or> 100 < v then Inl (Err ''percentage is out of range'') else Inr v)"

section \<open>Cache misses and bandwidth of the system\<close>

fun cache_miss_rows :: "string list \<Rightarrow> rmatch list \<Rightarrow> memory_cache_miss list result" where
  "cache_miss_rows seen [] =
     (if list_all (\<lambda>c. c \<in> set seen) [''l1d'', ''l1i'', ''l2d'', ''l2i''] then Inr []
      else Inl (Err ''required Cache Miss component is missing''))"
| "cache_miss_rows seen (m # ms) =
     (let component = to_lower (group 1 m) in
      if component \<in> set seen then Inl (Err ''duplicate Cache Miss component'')
      else (case parsePercent (group 2 m) of
              Inl e \<Rightarrow> Inl e
            | Inr percent \<Rightarrow>
                (case cache_miss_rows (component # seen) ms of
                   Inl e \<Rightarrow> Inl e
                 | Inr rs \<Rightarrow> Inr (\<lparr>mm_component = component, mm_percent = percent\<rparr> # rs))))"

definition parseMemoryCacheMiss :: "string \<Rightarrow> memory_cache_miss list result" where
  "parseMemoryCacheMiss reportText =
     (case memorySection reportText memAnchorCacheMiss memAnchorDDRSystem of
        Inl e \<Rightarrow> Inl e
      | Inr segment \<Rightarrow> cache_miss_rows [] (regexp_find_all memCacheMissRow segment))"

fun ddr_system_rows :: "string list \<Rightarrow> rmatch list \<Rightarrow> memory_ddr_system list result" where
  "ddr_system_rows seen [] =
     (if list_all (\<lambda>c. c \<in> set seen) [''ddrc_read'', ''ddrc_write''] then Inr []
      else Inl (Err ''DDR system is missing required operation''))"
| "ddr_system_rows seen (m # ms) =
     (let operation = group 1 m in
      if operation \<in> set seen then Inl (Err ''duplicate DDR system operation'')
      else (case parse_float (group 2 m) of
              Inl e \<Rightarrow> Inl e
            | Inr v \<Rightarrow>
                (case ddr_system_rows (operation # seen) ms of
                   Inl e \<Rightarrow> Inl e
                 | Inr rs \<Rightarrow> Inr (\<lparr>ms_operation = operation, ms_value = v\<rparr> # rs))))"

definition parseMemoryDDRSystem :: "string \<Rightarrow> memory_ddr_system list result" where
  "parseMemoryDDRSystem reportText =
     (case memorySection reportText memAnchorDDRSystem memAnchorCacheMetrics of
        Inl e \<Rightarrow> Inl e
      | Inr segment \<Rightarrow> ddr_system_rows [] (regexp_find_all memDDRSystemRow segment))"

section \<open>The access table\<close>

text \<open>The header gives the columns and the lines below it.\<close>

fun memoryAccessHeader :: "string list \<Rightarrow> (string list \<times> string list) result" where
  "memoryAccessHeader [] = Inl (Err ''missing CPU header in Access table'')"
| "memoryAccessHeader (line # lines) =
     (let stripped = trim_space line in
      if has_prefix stripped ''CPU'' then
        (let columns = go_fields stripped in
         if length columns < 2 then Inl (Err ''component columns are missing from Access header'')
         else Inr (map to_lower (tl columns), lines))
      else memoryAccessHeader lines)"

definition access_value :: "(string \<Rightarrow> rat result) \<Rightarrow> string \<Rightarrow> rat option result" where
  "access_value parse token =
     (if token = ''N/A'' then Inr None else (case parse token of Inl e \<Rightarrow> Inl e | Inr v \<Rightarrow> Inr (Some v)))"

definition or_zero :: "rat option \<Rightarrow> rat" where "or_zero v = (case v of None \<Rightarrow> 0 | Some x \<Rightarrow> x)"

text \<open>The columns of one row, with the keys seen so far.\<close>

fun access_cells ::
  "string \<Rightarrow> string list \<Rightarrow> (string \<times> rmatch) list \<Rightarrow> (memory_access_cell list \<times> string list) result" where
  "access_cells cpu seen [] = Inr ([], seen)"
| "access_cells cpu seen ((component, m) # cols) =
     (let key = cpu @ ''|'' @ component in
      if key \<in> set seen then Inl (Err ''duplicate Access cell'')
      else
        (case access_value parseMBps (group 1 m) of
           Inl e \<Rightarrow> Inl e
         | Inr bw \<Rightarrow>
             (case access_value parsePercent (group 2 m) of
                Inl e \<Rightarrow> Inl e
              | Inr hit \<Rightarrow>
                  (case access_cells cpu (key # seen) cols of
                     Inl e \<Rightarrow> Inl e
                   | Inr (cells, seen') \<Rightarrow>
                       Inr (\<lparr>ma_cpu = cpu, ma_component = component, ma_bandwidth = or_zero bw, ma_hasBW = (bw \<noteq> None),
                             ma_hitPercent = or_zero hit, ma_hasHit = (hit \<noteq> None)\<rparr> # cells, seen')))))"

fun access_rows :: "string list \<Rightarrow> string list \<Rightarrow> string list \<Rightarrow> memory_access_cell list result" where
  "access_rows components seen [] = Inr []"
| "access_rows components seen (rawLine # lines) =
     (if trim_space rawLine = [] \<or> isSeparatorLine rawLine \<or> \<not> contains rawLine ''|'' then access_rows components seen lines
      else
        (case regexp_find memAccessCPUPrefix rawLine of
           None \<Rightarrow> access_rows components seen lines
         | Some p \<Rightarrow>
             (let matches = regexp_find_all memAccessCell (group 2 p) in
              if length matches \<noteq> length components then Inl (Err ''invalid Access row'')
              else
                (case access_cells (group 1 p) seen (zip components matches) of
                   Inl e \<Rightarrow> Inl e
                 | Inr (cells, seen') \<Rightarrow>
                     (case access_rows components seen' lines of Inl e \<Rightarrow> Inl e | Inr rest \<Rightarrow> Inr (cells @ rest))))))"

definition parseMemoryAccess :: "string \<Rightarrow> memory_access_cell list result" where
  "parseMemoryAccess reportText =
     (case memorySection reportText memAnchorAccess memAnchorL3 of
        Inl e \<Rightarrow> Inl e
      | Inr segment \<Rightarrow>
          (case memoryAccessHeader (go_split [NL] segment) of
             Inl e \<Rightarrow> Inl e
           | Inr (components, lines) \<Rightarrow>
               (case access_rows components [] lines of
                  Inl e \<Rightarrow> Inl e
                | Inr cells \<Rightarrow> if cells = [] then Inl (Err ''no valid data rows in Access table'') else Inr cells)))"

section \<open>The L3 table\<close>

fun l3_rows :: "string list \<Rightarrow> rmatch list \<Rightarrow> memory_l3_row list result" where
  "l3_rows seen [] = Inr []"
| "l3_rows seen (m # ms) =
     (let node = group 1 m;
          ccl = (if group 2 m = ''--'' then ''all'' else group 2 m);
          key = node @ ''|'' @ ccl in
      if key \<in> set seen then Inl (Err ''duplicate L3 row'')
      else
        (case parse_float (group 3 m) of
           Inl e \<Rightarrow> Inl e
         | Inr readHitBW \<Rightarrow>
             (case parse_float (group 4 m) of
                Inl e \<Rightarrow> Inl e
              | Inr readBW \<Rightarrow>
                  (case parsePercent (group 5 m) of
                     Inl e \<Rightarrow> Inl e
                   | Inr hit \<Rightarrow>
                       (case l3_rows (key # seen) ms of
                          Inl e \<Rightarrow> Inl e
                        | Inr rs \<Rightarrow> Inr (\<lparr>ml_node = node, ml_ccl = ccl, ml_readHitBandwidth = readHitBW,
                                         ml_readBandwidth = readBW, ml_readHitPercent = hit\<rparr> # rs))))))"

definition parseMemoryL3 :: "string \<Rightarrow> memory_l3_row list result" where
  "parseMemoryL3 reportText =
     (case memorySection reportText memAnchorL3 memAnchorDDRCMetrics of
        Inl e \<Rightarrow> Inl e
      | Inr segment \<Rightarrow>
          (case l3_rows [] (regexp_find_all memL3Row segment) of
             Inl e \<Rightarrow> Inl e
           | Inr rows \<Rightarrow> if rows = [] then Inl (Err ''L3 table has no valid data rows'') else Inr rows))"

section \<open>The DDRC table\<close>

definition ddrc_label :: "string \<Rightarrow> string" where
  "ddrc_label col = (if to_lower col = ''total'' then ''total'' else last (go_split ''_'' col))"

fun memoryDDRCHeader :: "string list \<Rightarrow> (string list \<times> string list) result" where
  "memoryDDRCHeader [] = Inl (Err ''DDRC table is missing NODE header'')"
| "memoryDDRCHeader (line # lines) =
     (let stripped = trim_space line in
      if has_prefix stripped ''NODE'' \<and> contains stripped ''DDRC'' then
        (let columns = go_fields stripped in
         if length columns < 2 then Inl (Err ''DDRC header is missing data columns'')
         else Inr (map ddrc_label (tl columns), lines))
      else memoryDDRCHeader lines)"

fun ddrc_cells ::
  "string \<Rightarrow> string list \<Rightarrow> (string \<times> rmatch) list \<Rightarrow> (memory_ddrc_cell list \<times> string list) result" where
  "ddrc_cells node seen [] = Inr ([], seen)"
| "ddrc_cells node seen ((ddrc, m) # cols) =
     (let key = node @ ''|'' @ ddrc in
      if key \<in> set seen then Inl (Err ''duplicate DDRC cell'')
      else
        (case parse_float (group 1 m) of
           Inl e \<Rightarrow> Inl e
         | Inr rd \<Rightarrow>
             (case parse_float (group 2 m) of
                Inl e \<Rightarrow> Inl e
              | Inr wr \<Rightarrow>
                  (case ddrc_cells node (key # seen) cols of
                     Inl e \<Rightarrow> Inl e
                   | Inr (cells, seen') \<Rightarrow>
                       Inr (\<lparr>md_node = node, md_ddrc = ddrc, md_read = rd, md_write = wr\<rparr> # cells, seen')))))"

fun ddrc_rows :: "string list \<Rightarrow> string list \<Rightarrow> string list \<Rightarrow> memory_ddrc_cell list result" where
  "ddrc_rows labels seen [] = Inr []"
| "ddrc_rows labels seen (rawLine # lines) =
     (if trim_space rawLine = [] \<or> isSeparatorLine rawLine \<or> \<not> contains rawLine ''|'' then ddrc_rows labels seen lines
      else
        (case regexp_find memDDRCNodePrefix rawLine of
           None \<Rightarrow> ddrc_rows labels seen lines
         | Some p \<Rightarrow>
             (let matches = regexp_find_all memDDRCCell (group 2 p) in
              if length matches \<noteq> length labels then Inl (Err ''DDRC row has an unexpected number of cells'')
              else
                (case ddrc_cells (group 1 p) seen (zip labels matches) of
                   Inl e \<Rightarrow> Inl e
                 | Inr (cells, seen') \<Rightarrow>
                     (case ddrc_rows labels seen' lines of Inl e \<Rightarrow> Inl e | Inr rest \<Rightarrow> Inr (cells @ rest))))))"

definition parseMemoryDDRC :: "string \<Rightarrow> memory_ddrc_cell list result" where
  "parseMemoryDDRC reportText =
     (case memorySection reportText memAnchorDDRCTable [] of
        Inl e \<Rightarrow> Inl e
      | Inr segment \<Rightarrow>
          (case memoryDDRCHeader (go_split [NL] segment) of
             Inl e \<Rightarrow> Inl e
           | Inr (labels, lines) \<Rightarrow>
               (case ddrc_rows labels [] lines of
                  Inl e \<Rightarrow> Inl e
                | Inr cells \<Rightarrow> if cells = [] then Inl (Err ''DDRC table has no valid data rows'') else Inr cells)))"

section \<open>The whole report\<close>

definition parseMemoryOutput :: "string \<Rightarrow> attempt_metadata \<Rightarrow> memory_cache result" where
  "parseMemoryOutput output attempt =
     (case selectLastMemoryReport output of
        Inl e \<Rightarrow> Inl e
      | Inr (reportText, reportCount) \<Rightarrow>
          (case parseMemoryCacheMiss reportText of
             Inl e \<Rightarrow> Inl e
           | Inr cacheMiss \<Rightarrow>
               (case parseMemoryDDRSystem reportText of
                  Inl e \<Rightarrow> Inl e
                | Inr ddrSystem \<Rightarrow>
                    (case parseMemoryAccess reportText of
                       Inl e \<Rightarrow> Inl e
                     | Inr access \<Rightarrow>
                         (case parseMemoryL3 reportText of
                            Inl e \<Rightarrow> Inl e
                          | Inr l3 \<Rightarrow>
                              (case parseMemoryDDRC reportText of
                                 Inl e \<Rightarrow> Inl e
                               | Inr ddrc \<Rightarrow>
                                   Inr \<lparr>mk_attempt = attempt, mk_cacheMiss = cacheMiss, mk_ddrSystem = ddrSystem, mk_access = access,
                                        mk_l3 = l3, mk_ddrc = ddrc, mk_success = True, mk_lastSuccessTime = 0\<rparr>))))))"

section \<open>The cross check\<close>

definition memSumTolerance :: rat where "memSumTolerance = 1 / 2"
definition absFloat :: "rat \<Rightarrow> rat" where "absFloat v = (if v < 0 then - v else v)"
definition f64_sub :: "rat \<Rightarrow> rat \<Rightarrow> rat" where "f64_sub x y = f64_round (x - y)"

text \<open>What is logged: the table, the node, the metric, the total and the sum.\<close>

type_synonym mismatch = "string \<times> string \<times> string \<times> rat \<times> rat"

definition check_sum :: "string \<Rightarrow> string \<Rightarrow> string \<Rightarrow> rat \<Rightarrow> rat \<Rightarrow> mismatch list" where
  "check_sum table node metric total_value sum_value =
     (if memSumTolerance < absFloat (f64_sub sum_value total_value) then [(table, node, metric, total_value, sum_value)] else [])"

text \<open>The rows of one node, in order: \<open>ccl=all\<close> (\<open>ddrc=total\<close>) sets the totals, the others are added up.\<close>

record node_sums =
  ns_first :: rat
  ns_second :: rat
  ns_allFirst :: rat
  ns_allSecond :: rat
  ns_hasAll :: bool
  ns_hasDetail :: bool

definition no_sums :: node_sums where
  "no_sums = \<lparr>ns_first = 0, ns_second = 0, ns_allFirst = 0, ns_allSecond = 0, ns_hasAll = False, ns_hasDetail = False\<rparr>"

definition sum_row :: "bool \<Rightarrow> rat \<Rightarrow> rat \<Rightarrow> node_sums \<Rightarrow> node_sums" where
  "sum_row is_all a b s =
     (if is_all then s\<lparr>ns_allFirst := a, ns_allSecond := b, ns_hasAll := True\<rparr>
      else s\<lparr>ns_first := f64_add (ns_first s) a, ns_second := f64_add (ns_second s) b, ns_hasDetail := True\<rparr>)"

definition l3_sums :: "string \<Rightarrow> memory_l3_row list \<Rightarrow> node_sums" where
  "l3_sums node rows =
     fold (\<lambda>r s. if ml_node r \<noteq> node then s else sum_row (ml_ccl r = ''all'') (ml_readHitBandwidth r) (ml_readBandwidth r) s) rows no_sums"

definition ddrc_sums :: "string \<Rightarrow> memory_ddrc_cell list \<Rightarrow> node_sums" where
  "ddrc_sums node cells =
     fold (\<lambda>c s. if md_node c \<noteq> node then s else sum_row (md_ddrc c = ''total'') (md_read c) (md_write c) s) cells no_sums"

definition l3_mismatches :: "memory_l3_row list \<Rightarrow> string \<Rightarrow> mismatch list" where
  "l3_mismatches rows node =
     (let s = l3_sums node rows in
      if \<not> ns_hasAll s \<or> \<not> ns_hasDetail s then []
      else check_sum ''L3'' node ''read_bandwidth'' (ns_allSecond s) (ns_second s) @
           check_sum ''L3'' node ''read_hit_bandwidth'' (ns_allFirst s) (ns_first s))"

definition ddrc_mismatches :: "memory_ddrc_cell list \<Rightarrow> string \<Rightarrow> mismatch list" where
  "ddrc_mismatches cells node =
     (let s = ddrc_sums node cells in
      if \<not> ns_hasAll s \<or> \<not> ns_hasDetail s then []
      else check_sum ''DDRC'' node ''read'' (ns_allFirst s) (ns_first s) @
           check_sum ''DDRC'' node ''write'' (ns_allSecond s) (ns_second s))"

text \<open>\<open>crossCheckMemory\<close>; the two arguments are the orders in which the sets of nodes are walked.\<close>

definition crossCheckMemory :: "(string list \<Rightarrow> string list) \<Rightarrow> (string list \<Rightarrow> string list) \<Rightarrow> memory_cache \<Rightarrow> mismatch list" where
  "crossCheckMemory order1 order2 c =
     concat (map (l3_mismatches (mk_l3 c)) (order1 (remdups (map ml_node (mk_l3 c))))) @
     concat (map (ddrc_mismatches (mk_ddrc c)) (order2 (remdups (map md_node (mk_ddrc c)))))"

end
