(* ===== verification/GoParseFloat.thy ===== *)
theory GoParseFloat
  imports GoRegexp
begin

text \<open>
  Go's \<open>strconv.ParseFloat\<close> and \<open>strconv.ParseInt\<close> on arbitrary texts, for the collectors that read files
  of the kernel: signs, decimal and hexadecimal mantissas, exponents, underscores between digits,
  infinities and not-a-number, correct rounding and the range error.
\<close>

section \<open>Values\<close>

datatype f64 = Fin rat | Infinite bool | NotANumber

section \<open>ParseFloat\<close>

definition special_float :: "string \<Rightarrow> f64 option" where
  "special_float s =
     (let t = to_lower s in
      if t \<in> {''inf'', ''+inf'', ''infinity'', ''+infinity''} then Some (Infinite False)
      else if t \<in> {''-inf'', ''-infinity''} then Some (Infinite True)
      else if t = ''nan'' then Some NotANumber
      else None)"

definition hex_digit_val :: "char \<Rightarrow> int option" where
  "hex_digit_val c =
     (let n = int (of_char c) in
      if 48 \<le> n \<and> n \<le> 57 then Some (n - 48)
      else if 97 \<le> n \<and> n \<le> 102 then Some (n - 87)
      else if 65 \<le> n \<and> n \<le> 70 then Some (n - 55)
      else None)"

definition base_digit_val :: "bool \<Rightarrow> char \<Rightarrow> int option" where
  "base_digit_val hex c = (if hex then hex_digit_val c else digit_val c)"

text \<open>The mantissa: its digits read as one number, how many of them follow the dot, whether there was a digit, and the
  rest of the text. Underscores are skipped here and checked at the end.\<close>

fun scan_mantissa :: "bool \<Rightarrow> bool \<Rightarrow> int \<Rightarrow> nat \<Rightarrow> bool \<Rightarrow> string \<Rightarrow> (int \<times> nat \<times> bool) \<times> string" where
  "scan_mantissa hex dot m k saw [] = ((m, k, saw), [])"
| "scan_mantissa hex dot m k saw (c # cs) =
     (if c = CHR ''_'' then scan_mantissa hex dot m k saw cs
      else if c = CHR ''.'' then (if dot then ((m, k, saw), c # cs) else scan_mantissa hex True m k saw cs)
      else case base_digit_val hex c of
             None \<Rightarrow> ((m, k, saw), c # cs)
           | Some d \<Rightarrow> scan_mantissa hex dot ((if hex then 16 else 10) * m + d) (if dot then Suc k else k) True cs)"

text \<open>The digits of an exponent; further digits are dropped once it has reached 10000.\<close>

fun scan_exponent :: "int \<Rightarrow> string \<Rightarrow> int \<times> string" where
  "scan_exponent e [] = (e, [])"
| "scan_exponent e (c # cs) =
     (if c = CHR ''_'' then scan_exponent e cs
      else case digit_val c of
             None \<Rightarrow> (e, c # cs)
           | Some d \<Rightarrow> scan_exponent (if e < 10000 then 10 * e + d else e) cs)"

definition read_sign :: "string \<Rightarrow> bool \<times> string" where
  "read_sign s =
     (case s of [] \<Rightarrow> (False, []) | c # cs \<Rightarrow> if c = CHR ''+'' then (False, cs) else if c = CHR ''-'' then (True, cs) else (False, s))"

text \<open>The exponent at the end of a text, with its marker; \<open>Some 0\<close> for none where none is needed.\<close>

definition read_exponent :: "bool \<Rightarrow> string \<Rightarrow> int option" where
  "read_exponent hex s =
     (case s of
        [] \<Rightarrow> if hex then None else Some 0
      | c # cs \<Rightarrow>
          if to_lower_char c = (if hex then CHR ''p'' else CHR ''e'') then
            (case read_sign cs of
               (neg, ds) \<Rightarrow>
                 if ds = [] \<or> \<not> is_digit (hd ds) then None
                 else case scan_exponent 0 ds of (e, rest) \<Rightarrow> if rest = [] then Some (if neg then - e else e) else None)
          else None)"

text \<open>\<open>underscoreOK\<close>: an underscore stands between digits, or between a base prefix and a digit.\<close>

datatype seen = AtStart | AtDigit | AtUnderscore | AtOther

fun underscores_from :: "bool \<Rightarrow> seen \<Rightarrow> string \<Rightarrow> bool" where
  "underscores_from hex w [] \<longleftrightarrow> w \<noteq> AtUnderscore"
| "underscores_from hex w (c # cs) \<longleftrightarrow>
     (if base_digit_val hex c \<noteq> None then underscores_from hex AtDigit cs
      else if c = CHR ''_'' then w = AtDigit \<and> underscores_from hex AtUnderscore cs
      else w \<noteq> AtUnderscore \<and> underscores_from hex AtOther cs)"

definition underscoreOK :: "string \<Rightarrow> bool" where
  "underscoreOK s =
     (case snd (read_sign s) of
        z # x # t \<Rightarrow>
          (if z = CHR ''0'' \<and> to_lower_char x \<in> {CHR ''b'', CHR ''o'', CHR ''x''}
           then underscores_from (to_lower_char x = CHR ''x'') AtDigit t
           else underscores_from False AtStart (z # x # t))
      | t \<Rightarrow> underscores_from False AtStart t)"

definition has_hex_prefix :: "string \<Rightarrow> bool" where
  "has_hex_prefix s \<longleftrightarrow> 2 < length s \<and> hd s = CHR ''0'' \<and> to_lower_char (s ! 1) = CHR ''x''"

definition float_value :: "bool \<Rightarrow> int \<Rightarrow> nat \<Rightarrow> int \<Rightarrow> rat" where
  "float_value hex m k e =
     (if hex then of_int m * 2 powi (e - 4 * int k) else of_int m * 10 powi (e - int k))"

definition ParseFloat :: "string \<Rightarrow> f64 option" where
  "ParseFloat s =
     (case special_float s of
        Some v \<Rightarrow> Some v
      | None \<Rightarrow>
        (case read_sign s of
           (neg, t) \<Rightarrow>
             (let hex = has_hex_prefix t in
              case scan_mantissa hex False 0 0 False (if hex then drop 2 t else t) of
                ((m, k, saw), rest) \<Rightarrow>
                  if \<not> saw then None
                  else case read_exponent hex rest of
                         None \<Rightarrow> None
                       | Some e \<Rightarrow>
                           if CHR ''_'' \<in> set s \<and> \<not> underscoreOK s then None
                           else map_option (\<lambda>x. Fin (if neg then - x else x)) (f64_nearest (float_value hex m k e)))))"

section \<open>ParseInt\<close>

text \<open>Base 10 or 16, 64 bits; with an explicit base neither a prefix nor an underscore is accepted.\<close>

fun parse_base :: "bool \<Rightarrow> int \<Rightarrow> string \<Rightarrow> int option" where
  "parse_base hex a [] = Some a"
| "parse_base hex a (c # cs) =
     (case base_digit_val hex c of None \<Rightarrow> None | Some d \<Rightarrow> parse_base hex ((if hex then 16 else 10) * a + d) cs)"

definition ParseInt :: "bool \<Rightarrow> string \<Rightarrow> int option" where
  "ParseInt hex s =
     (case read_sign s of
        (neg, t) \<Rightarrow>
          if t = [] then None
          else case parse_base hex 0 t of
                 None \<Rightarrow> None
               | Some n \<Rightarrow> let v = if neg then - n else n in if in_i64 v then Some v else None)"

section \<open>Plain numbers\<close>

lemma is_digit_val: "is_digit c \<Longrightarrow> \<exists>d. digit_val c = Some d \<and> 0 \<le> d \<and> d < 10"
  by (auto simp: is_digit_def digit_val_def)

lemma scan_mantissa_digits:
  assumes "\<forall>c\<in>set a. is_digit c"
  shows "\<exists>m'. parse_digits m a = Some m' \<and>
    scan_mantissa False dot m k saw (a @ s) = scan_mantissa False dot m' (if dot then k + length a else k) (saw \<or> a \<noteq> []) s"
  using assms
proof (induction a arbitrary: m k saw)
  case (Cons c a)
  from Cons.prems obtain d where d: "digit_val c = Some d" using is_digit_val[of c] by auto
  have c: "c \<noteq> CHR ''_''" "c \<noteq> CHR ''.''" using Cons.prems by (auto simp: is_digit_def)
  from Cons.IH[of "10 * m + d" "if dot then Suc k else k" True] Cons.prems d c
  show ?case by (auto simp: base_digit_val_def)
qed simp

lemma special_float_digit:
  assumes "c \<in> set s" "is_digit c"
  shows "special_float s = None"
proof -
  have "to_lower_char c = c" using assms(2) by (auto simp: is_digit_def to_lower_char_def)
  with assms(1) have "c \<in> set (to_lower s)" unfolding to_lower_def by force
  moreover have "c \<notin> set w" if "w \<in> {''inf'', ''+inf'', ''infinity'', ''+infinity'', ''-inf'', ''-infinity'', ''nan''}" for w
    using that assms(2) by (auto simp: is_digit_def)
  ultimately have "to_lower s \<notin> {''inf'', ''+inf'', ''infinity'', ''+infinity'', ''-inf'', ''-infinity'', ''nan''}" by blast
  then show ?thesis unfolding special_float_def Let_def by simp
qed

lemma digits_no_prefix:
  assumes "\<forall>c\<in>set a. is_digit c \<or> c = CHR ''.''"
  shows "read_sign a = (False, a)" "\<not> has_hex_prefix a"
proof -
  have dig: "is_digit c \<Longrightarrow> to_lower_char c = c" for c by (auto simp: is_digit_def to_lower_char_def)
  have plain: "c \<noteq> CHR ''+'' \<and> c \<noteq> CHR ''-'' \<and> c \<noteq> CHR ''x''" if "is_digit c \<or> c = CHR ''.''" for c
    using that by (auto simp: is_digit_def)
  have dot: "to_lower_char CHR ''.'' = CHR ''.''" by (simp add: to_lower_char_def)
  have "c \<noteq> CHR ''+'' \<and> c \<noteq> CHR ''-'' \<and> to_lower_char c \<noteq> CHR ''x''" if "c \<in> set a" for c
    using plain[of c] assms that dig[of c] dot by metis
  then show "read_sign a = (False, a)" "\<not> has_hex_prefix a"
    unfolding read_sign_def has_hex_prefix_def by (auto split: list.splits)
qed

lemma digits_no_underscore: "\<forall>c\<in>set a. is_digit c \<or> c = CHR ''.'' \<Longrightarrow> CHR ''_'' \<notin> set a"
  by (auto simp: is_digit_def)

lemma round_half_even_le: "x \<le> of_int n \<Longrightarrow> round_half_even x \<le> n"
proof -
  assume x: "x \<le> of_int n"
  have "of_int (round_half_even x) - x \<le> 1 / 2" using round_half_even_error[of x] by linarith
  with x have "of_int (round_half_even x) < (of_int (n + 1) :: rat)" by simp
  then show ?thesis by (simp only: of_int_less_iff)
qed

text \<open>Numbers of moderate size never run into the range error.\<close>

lemma f64_nearest_Some:
  assumes "0 \<le> x" "x < 2 ^ 64"
  obtains y where "f64_nearest x = Some y"
proof -
  let ?e = "max (f64_exp x) (- 1074)"
  define y :: rat where "y = (if x = 0 then 0 else of_int (round_half_even (x / 2 powi ?e)) * 2 powi ?e)"
  have le: "y \<le> 2 ^ 64"
  proof (cases "x = 0")
    case False
    with assms have "2 powi (f64_exp x + 52) < (2 powi 64 :: rat)" using f64_exp_bounds[OF False] by (simp add: power_int_def)
    then have "f64_exp x + 52 < 64" by (rule powi2_less_imp)
    then have e: "?e \<le> 64" by simp
    have "x / 2 powi ?e \<le> 2 ^ 64 / 2 powi ?e" using assms by (simp add: divide_right_mono)
    also have "\<dots> = of_int (2 ^ nat (64 - ?e))"
    proof -
      have "(2 powi 64 :: rat) / 2 powi ?e = 2 powi (64 - ?e)" by (simp add: power_int_diff)
      also have "\<dots> = of_int (2 ^ nat (64 - ?e))" using e by (simp add: power_int_def)
      finally show ?thesis by (simp add: power_int_def)
    qed
    finally have "round_half_even (x / 2 powi ?e) \<le> 2 ^ nat (64 - ?e)" by (rule round_half_even_le)
    then have "of_int (round_half_even (x / 2 powi ?e)) \<le> (of_int (2 ^ nat (64 - ?e)) :: rat)" by (simp only: of_int_le_iff)
    then have "of_int (round_half_even (x / 2 powi ?e)) \<le> (2 powi (64 - ?e) :: rat)" using e by (simp add: power_int_def)
    then have "y \<le> 2 powi (64 - ?e) * 2 powi ?e" using False unfolding y_def by (simp add: mult_right_mono)
    also have "\<dots> = 2 powi 64" by (simp flip: power_int_add)
    finally show ?thesis by (simp add: power_int_def)
  qed (simp add: y_def)
  then have "\<lfloor>y\<rfloor> \<le> \<lfloor>2 ^ 64 :: rat\<rfloor>" by (rule floor_mono)
  moreover have "\<lfloor>2 ^ 64 :: rat\<rfloor> = 2 ^ 64" by (simp add: floor_eq_iff)
  moreover have "(2 :: int) ^ 64 < 2 ^ nat 1024" by (rule power_strict_increasing) simp_all
  ultimately have "\<lfloor>y\<rfloor> < 2 ^ nat 1024" by linarith
  then have "bitlen \<lfloor>y\<rfloor> \<le> 1024" by (simp only: bitlen_le_iff_power) simp
  then have "f64_nearest x = Some y" by (simp add: f64_nearest_def Let_def y_def)
  then show thesis by (rule that)
qed

lemma parse_float_integer:
  assumes "\<forall>c\<in>set a. is_digit c" "a \<noteq> []" "parse_digits 0 a = Some n"
  shows "ParseFloat a = map_option Fin (f64_nearest (of_int n))"
proof -
  have d: "\<forall>c\<in>set a. is_digit c \<or> c = CHR ''.''" using assms(1) by blast
  from assms(1,2) have sp: "special_float a = None" by (cases a) (auto intro: special_float_digit)
  from scan_mantissa_digits[OF assms(1), of 0 False 0 False "[]"] assms(2,3)
  have "scan_mantissa False False 0 0 False a = ((n, 0, True), [])" by simp
  then show ?thesis
    unfolding ParseFloat_def sp digits_no_prefix(1)[OF d] Let_def
    using digits_no_prefix(2)[OF d] digits_no_underscore[OF d]
    by (simp add: read_exponent_def float_value_def)
qed

lemma parse_float_decimal:
  assumes "\<forall>c\<in>set a. is_digit c" "\<forall>c\<in>set b. is_digit c" "a @ b \<noteq> []" "parse_digits 0 (a @ b) = Some n"
  shows "ParseFloat (a @ CHR ''.'' # b) = map_option Fin (f64_nearest (of_int n / 10 ^ length b))"
proof -
  let ?s = "a @ CHR ''.'' # b"
  have d: "\<forall>c\<in>set ?s. is_digit c \<or> c = CHR ''.''" using assms(1,2) by auto
  have "hd (a @ b) \<in> set (a @ b)" using assms(3) by (rule hd_in_set)
  with assms(1,2) obtain c where "c \<in> set ?s" "is_digit c" by auto
  then have sp: "special_float ?s = None" by (rule special_float_digit)
  from scan_mantissa_digits[OF assms(1), of 0 False 0 False "CHR ''.'' # b"]
  obtain m where m: "parse_digits 0 a = Some m"
    "scan_mantissa False False 0 0 False ?s = scan_mantissa False True m 0 (a \<noteq> []) b" by auto
  from scan_mantissa_digits[OF assms(2), of m True 0 "a \<noteq> []" "[]"] m(1) assms(3,4)
  have "scan_mantissa False True m 0 (a \<noteq> []) b = ((n, length b, True), [])"
    by (auto simp: parse_digits_append)
  with m(2) have "scan_mantissa False False 0 0 False ?s = ((n, length b, True), [])" by simp
  then show ?thesis
    unfolding ParseFloat_def sp digits_no_prefix(1)[OF d] Let_def
    using digits_no_prefix(2)[OF d] digits_no_underscore[OF d]
    by (simp add: read_exponent_def float_value_def power_int_minus divide_inverse)
qed

text \<open>On the texts that the report parsers let through both models of \<open>ParseFloat\<close> agree.\<close>

lemma parse_float_parse_decimal:
  assumes "\<forall>c\<in>set a. is_digit c" "\<forall>c\<in>set b. is_digit c" "a @ b \<noteq> []"
  shows "ParseFloat (a @ CHR ''.'' # b) = map_option Fin (parse_decimal (a @ CHR ''.'' # b))"
proof -
  have "\<forall>c\<in>set (a @ b). is_digit c" using assms(1,2) by auto
  from scan_mantissa_digits[OF this, of 0] obtain n where n: "parse_digits 0 (a @ b) = Some n" by blast
  have "\<not> is_digit CHR ''.''" by (simp add: is_digit_def)
  with assms(1,2) have "CHR ''.'' \<notin> set a" "CHR ''.'' \<notin> set b" by blast+
  then have "go_split ''.'' (a @ CHR ''.'' # b) = [a, b]" by (simp add: go_split_char_app go_split_char_None)
  with parse_float_decimal[OF assms n] n assms(3) show ?thesis
    by (cases "a = []") (simp_all add: parse_decimal_def parse_nat_def)
qed

lemma ParseInt_itoa: "in_i64 n \<Longrightarrow> ParseInt False (itoa n) = Some n"
proof -
  assume n: "in_i64 n"
  have same: "parse_base False a s = parse_digits a s" for a s
    by (induction a s rule: parse_digits.induct) (auto simp: base_digit_val_def split: option.splits)
  have hd: "read_sign (digits_of m) = (False, digits_of m)" for m
    using digits_no_prefix(1)[of "digits_of m"] digits_of_digits by blast
  show ?thesis
  proof (cases "n < 0")
    case True
    then have s: "read_sign (itoa n) = (True, digits_of (- n))" by (simp add: read_sign_def itoa_def)
    have "parse_digits 0 (digits_of (- n)) = Some (- n)" using True by (intro parse_digits_of) simp
    with n show ?thesis by (simp add: ParseInt_def s same)
  next
    case False
    then have s: "read_sign (itoa n) = (False, digits_of n)" using hd[of n] by (simp add: itoa_def)
    have "parse_digits 0 (digits_of n) = Some n" using False by (intro parse_digits_of) simp
    with n show ?thesis by (simp add: ParseInt_def s same)
  qed
qed

end
