(* ===== verification/DevkitPublish.thy ===== *)
theory DevkitPublish
  imports DevkitTopdownOk DevkitMemory GoParseFloat
begin

text \<open>
  What the DevKit collectors hand to Prometheus (\<open>Update\<close> of \<open>devkit_topdown.go\<close> and \<open>devkit_memory.go\<close>), and
  why no two samples of a scrape have the same name and labels, which the registry would refuse.
\<close>

section \<open>Samples\<close>

text \<open>A sample is its full name, its value and its label values.\<close>

type_synonym sample = "string \<times> f64 \<times> string list"

definition sample_key :: "sample \<Rightarrow> string \<times> string list" where
  "sample_key s = (fst s, snd (snd s))"

definition BuildFQName :: "string \<Rightarrow> string \<Rightarrow> string" where
  "BuildFQName subsystem name = ''kunpeng_node_'' @ subsystem @ ''_'' @ name"

lemma BuildFQName_eq [simp]: "BuildFQName s a = BuildFQName s b \<longleftrightarrow> a = b"
  by (simp add: BuildFQName_def)

definition topdown_name :: "string \<Rightarrow> string" where "topdown_name n = BuildFQName ''devkit_topdown'' n"
definition memory_name :: "string \<Rightarrow> string" where "memory_name n = BuildFQName ''devkit_memory'' n"

lemma devkit_names_eq [simp]: "topdown_name a = topdown_name b \<longleftrightarrow> a = b" "memory_name a = memory_name b \<longleftrightarrow> a = b"
  "topdown_name a \<noteq> memory_name b" "memory_name b \<noteq> topdown_name a"
  by (simp_all add: topdown_name_def memory_name_def BuildFQName_def)

definition topdown_node_sample :: "attempt_metadata \<Rightarrow> topdown_node \<Rightarrow> sample" where
  "topdown_node_sample a n =
     (topdown_name ''bound_percent'', Fin (tn_value n),
      [tn_name n, tn_path n, itoa (tn_level n), tn_preferredEvent n, am_targetType a, am_target a])"

definition topdown_pmu_sample :: "attempt_metadata \<Rightarrow> topdown_pmu_event \<Rightarrow> sample" where
  "topdown_pmu_sample a e =
     (topdown_name ''pmu_event_count_value'', Fin (f64_of_int (te_count e)), [te_event e, ''0'', am_targetType a, am_target a])"

definition topdown_business :: "topdown_cache \<Rightarrow> sample list" where
  "topdown_business c =
     (let a = tk_attempt c; level0 = [''0'', am_targetType a, am_target a] in
      [(topdown_name ''cycles'', Fin (f64_of_int (tk_cycles c)), level0),
       (topdown_name ''instructions'', Fin (f64_of_int (tk_instructions c)), level0),
       (topdown_name ''ipc_ratio'', Fin (tk_ipc c), level0)] @
      map (topdown_node_sample a) (tk_nodes c) @ map (topdown_pmu_sample a) (tk_pmuEvents c))"

definition topdown_health :: "attempt_metadata \<Rightarrow> bool \<Rightarrow> int \<Rightarrow> sample list" where
  "topdown_health a success lastSuccess =
     [(topdown_name ''collection_success'', Fin (if success then 1 else 0), [am_targetType a, am_target a])] @
     (if 0 < lastSuccess then [(topdown_name ''last_success_unixtime_seconds'', Fin (of_int lastSuccess), [])] else [])"

text \<open>\<open>devkitTopdownCollector.Update\<close>; before the first round there is no data.\<close>

definition topdown_Update :: "topdown_cache option \<Rightarrow> sample list result" where
  "topdown_Update cached =
     (case cached of
        None \<Rightarrow> Inl (Err ''collector returned no data'')
      | Some c \<Rightarrow>
          Inr ((if tk_success c then topdown_business c else []) @
               topdown_health (tk_attempt c) (tk_success c) (tk_lastSuccessTime c)))"

definition memory_labels :: "attempt_metadata \<Rightarrow> string list" where
  "memory_labels a = [am_targetType a, am_target a, itoa (am_period a)]"

definition access_samples :: "attempt_metadata \<Rightarrow> memory_access_cell \<Rightarrow> sample list" where
  "access_samples a c =
     (if ma_hasBW c
      then [(memory_name ''access_bandwidth_megabytes_per_second'', Fin (ma_bandwidth c), [ma_component c, ma_cpu c] @ memory_labels a)]
      else []) @
     (if ma_hasHit c then [(memory_name ''access_hit_percent'', Fin (ma_hitPercent c), [ma_component c, ma_cpu c] @ memory_labels a)] else [])"

definition l3_samples :: "attempt_metadata \<Rightarrow> memory_l3_row \<Rightarrow> sample list" where
  "l3_samples a r =
     (let ls = [ml_node r, ml_ccl r] @ memory_labels a in
      [(memory_name ''l3_read_bandwidth_megabytes_per_second'', Fin (ml_readBandwidth r), ls),
       (memory_name ''l3_read_hit_bandwidth_megabytes_per_second'', Fin (ml_readHitBandwidth r), ls),
       (memory_name ''l3_read_hit_percent'', Fin (ml_readHitPercent r), ls)])"

definition ddrc_samples :: "attempt_metadata \<Rightarrow> memory_ddrc_cell \<Rightarrow> sample list" where
  "ddrc_samples a c =
     [(memory_name ''ddrc_bandwidth_megabytes_per_second'', Fin (md_read c), [md_node c, md_ddrc c, ''read''] @ memory_labels a),
      (memory_name ''ddrc_bandwidth_megabytes_per_second'', Fin (md_write c), [md_node c, md_ddrc c, ''write''] @ memory_labels a)]"

definition miss_sample :: "attempt_metadata \<Rightarrow> memory_cache_miss \<Rightarrow> sample list" where
  "miss_sample a i = [(memory_name ''cache_miss_percent'', Fin (mm_percent i), [mm_component i] @ memory_labels a)]"

definition ddr_system_sample :: "attempt_metadata \<Rightarrow> memory_ddr_system \<Rightarrow> sample list" where
  "ddr_system_sample a i = [(memory_name ''ddr_system_bandwidth_megabytes_per_second'', Fin (ms_value i), [ms_operation i] @ memory_labels a)]"

definition memory_health :: "attempt_metadata \<Rightarrow> bool \<Rightarrow> int \<Rightarrow> sample list" where
  "memory_health a success lastSuccess =
     [(memory_name ''collection_success'', Fin (if success then 1 else 0), memory_labels a)] @
     (if 0 < lastSuccess then [(memory_name ''last_success_unixtime_seconds'', Fin (of_int lastSuccess), [])] else [])"

definition memory_business :: "memory_cache \<Rightarrow> sample list" where
  "memory_business c =
     (let a = mk_attempt c in
      concat (map (miss_sample a) (mk_cacheMiss c)) @ concat (map (ddr_system_sample a) (mk_ddrSystem c)) @
      concat (map (access_samples a) (mk_access c)) @ concat (map (l3_samples a) (mk_l3 c)) @
      concat (map (ddrc_samples a) (mk_ddrc c)))"

definition memory_Update :: "memory_cache option \<Rightarrow> sample list result" where
  "memory_Update cached =
     (case cached of
        None \<Rightarrow> Inl (Err ''collector returned no data'')
      | Some c \<Rightarrow>
          Inr (memory_health (mk_attempt c) (mk_success c) (mk_lastSuccessTime c) @
               (if mk_success c then memory_business c else [])))"

section \<open>No two samples alike\<close>

definition keys_distinct :: "sample list \<Rightarrow> bool" where
  "keys_distinct ss \<longleftrightarrow> distinct (map sample_key ss)"

definition names_of :: "sample list \<Rightarrow> string set" where
  "names_of ss = fst ` set ss"

lemma distinct_map_append:
  "distinct (map f ss) \<Longrightarrow> distinct (map f ts) \<Longrightarrow> (\<And>s t. s \<in> set ss \<Longrightarrow> t \<in> set ts \<Longrightarrow> f s \<noteq> f t) \<Longrightarrow>
     distinct (map f (ss @ ts))"
  by (induction ss) (simp_all, blast)

lemma distinct_map_key: "distinct (map g xs) \<Longrightarrow> (\<And>x. h (f x) = g x) \<Longrightarrow> distinct (map f xs)"
  by (induction xs) (simp_all, metis image_iff)

lemma keys_distinct_append:
  "keys_distinct ss \<Longrightarrow> keys_distinct ts \<Longrightarrow> names_of ss \<inter> names_of ts = {} \<Longrightarrow> keys_distinct (ss @ ts)"
proof -
  assume d: "keys_distinct ss" "keys_distinct ts" and n: "names_of ss \<inter> names_of ts = {}"
  have "False" if s: "s \<in> set ss" and t: "t \<in> set ts" and k: "sample_key s = sample_key t" for s t
  proof -
    have "fst s = fst t" using k by (simp add: sample_key_def)
    then have "fst s \<in> names_of ss \<inter> names_of ts" using s t imageI[OF s, of fst] imageI[OF t, of fst] by (simp add: names_of_def)
    with n show False by simp
  qed
  with d show ?thesis unfolding keys_distinct_def by (intro distinct_map_append) blast+
qed

lemma names_of_simps [simp]:
  "names_of [] = {}" "names_of (s # ss) = insert (fst s) (names_of ss)" "names_of (ss @ ts) = names_of ss \<union> names_of ts"
  by (auto simp: names_of_def)

text \<open>Rows with different identifiers, each with its own samples that carry the identifier in their labels.\<close>

lemma keys_distinct_rows:
  assumes "distinct (map g rows)" "\<And>r. keys_distinct (f r)" "\<And>r s. s \<in> set (f r) \<Longrightarrow> h (snd (snd s)) = g r"
  shows "keys_distinct (concat (map f rows))"
  using assms(1)
proof (induction rows)
  case (Cons r rows)
  have "False" if s: "s \<in> set (f r)" and t: "t \<in> set (concat (map f rows))" and k: "sample_key s = sample_key t" for s t
  proof -
    obtain r' where r': "r' \<in> set rows" "t \<in> set (f r')" using t by auto
    have "snd (snd s) = snd (snd t)" using k by (simp add: sample_key_def)
    then have "g r = g r'" using assms(3)[OF s] assms(3)[OF r'(2)] by simp
    then show False using Cons.prems r'(1) by (metis distinct.simps(2) image_eqI list.simps(9) set_map)
  qed
  moreover have "keys_distinct (concat (map f rows))" using Cons by simp
  ultimately show ?case using assms(2)[of r]
    unfolding keys_distinct_def concat.simps list.map(2) by (intro distinct_map_append) blast+
qed (simp add: keys_distinct_def)

lemma names_of_concat: "(\<And>r. names_of (f r) \<subseteq> N) \<Longrightarrow> names_of (concat (map f rows)) \<subseteq> N"
  by (induction rows) auto


section \<open>Topdown\<close>

lemma topdown_nodes_distinct:
  "distinct (map tn_path ns) \<Longrightarrow> keys_distinct (map (topdown_node_sample a) ns)"
  unfolding keys_distinct_def map_map by (rule distinct_map_key[where h = "\<lambda>k. snd k ! 1"], assumption) (simp add: comp_def sample_key_def topdown_node_sample_def)

lemma topdown_pmu_distinct:
  "distinct (map te_event es) \<Longrightarrow> keys_distinct (map (topdown_pmu_sample a) es)"
  unfolding keys_distinct_def map_map by (rule distinct_map_key[where h = "\<lambda>k. hd (snd k)"], assumption) (simp add: comp_def sample_key_def topdown_pmu_sample_def)

lemma names_of_map: "(\<And>r. fst (f r) = n) \<Longrightarrow> names_of (map f rs) \<subseteq> {n}"
  by (auto simp: names_of_def)

lemma topdown_business_distinct:
  assumes "topdown_report_ok c"
  shows "keys_distinct (topdown_business c)"
proof -
  have nd: "distinct (map tn_path (tk_nodes c))" "distinct (map te_event (tk_pmuEvents c))"
    using assms grown_paths by (auto simp: topdown_report_ok_def tree_complete_def)
  have nn: "names_of (map (topdown_node_sample a) ns) \<subseteq> {topdown_name ''bound_percent''}"
    "names_of (map (topdown_pmu_sample a) es) \<subseteq> {topdown_name ''pmu_event_count_value''}" for a ns es
    by (auto intro!: names_of_map simp: topdown_node_sample_def topdown_pmu_sample_def)
  show ?thesis
    unfolding topdown_business_def Let_def
    by (intro keys_distinct_append topdown_nodes_distinct topdown_pmu_distinct nd)
       (use nn in \<open>fastforce simp: keys_distinct_def sample_key_def\<close>)+
qed

lemma topdown_names:
  "names_of (topdown_business c) \<subseteq> topdown_name ` {''cycles'', ''instructions'', ''ipc_ratio'', ''bound_percent'', ''pmu_event_count_value''}"
  by (auto simp: topdown_business_def Let_def names_of_def topdown_node_sample_def topdown_pmu_sample_def)

lemma topdown_health_distinct: "keys_distinct (topdown_health a b t)"
  by (simp add: topdown_health_def keys_distinct_def sample_key_def)

lemma topdown_health_names:
  "names_of (topdown_health a b t) \<subseteq> topdown_name ` {''collection_success'', ''last_success_unixtime_seconds''}"
  by (auto simp: topdown_health_def)

lemma topdown_update_distinct:
  assumes "topdown_Update cached = Inr ss" "\<And>c. cached = Some c \<Longrightarrow> tk_success c \<Longrightarrow> topdown_report_ok c"
  shows "keys_distinct ss"
proof -
  obtain c where c: "cached = Some c" using assms(1) by (cases cached) (auto simp: topdown_Update_def)
  let ?h = "topdown_health (tk_attempt c) (tk_success c) (tk_lastSuccessTime c)"
  have ss: "ss = (if tk_success c then topdown_business c else []) @ ?h" using assms(1) c by (simp add: topdown_Update_def)
  have "names_of (topdown_business c) \<inter> names_of ?h = {}"
    using topdown_names[of c] topdown_health_names[of "tk_attempt c" "tk_success c" "tk_lastSuccessTime c"] by fastforce
  then have "keys_distinct (topdown_business c @ ?h)" if "tk_success c"
    using assms(2)[OF c that] topdown_business_distinct topdown_health_distinct by (intro keys_distinct_append) auto
  then show ?thesis using ss topdown_health_distinct by simp
qed

section \<open>Memory\<close>

text \<open>The parsers refuse a repeated key.\<close>

lemma cache_miss_distinct:
  "cache_miss_rows seen ms = Inr rs \<Longrightarrow> distinct (map mm_component rs) \<and> set (map mm_component rs) \<inter> set seen = {}"
proof (induction seen ms arbitrary: rs rule: cache_miss_rows.induct)
  case (2 seen m ms)
  then obtain p rs' where r: "to_lower (group 1 m) \<notin> set seen" "parsePercent (group 2 m) = Inr p"
    "cache_miss_rows (to_lower (group 1 m) # seen) ms = Inr rs'" "rs = \<lparr>mm_component = to_lower (group 1 m), mm_percent = p\<rparr> # rs'"
    by (auto simp: Let_def split: if_splits sum.splits)
  from 2(1)[OF refl r(1,2,3)] r show ?case by auto
qed (auto split: if_splits)

lemma ddr_system_distinct:
  "ddr_system_rows seen ms = Inr rs \<Longrightarrow> distinct (map ms_operation rs) \<and> set (map ms_operation rs) \<inter> set seen = {}"
proof (induction seen ms arbitrary: rs rule: ddr_system_rows.induct)
  case (2 seen m ms)
  then obtain v rs' where r: "group 1 m \<notin> set seen" "parse_float (group 2 m) = Inr v"
    "ddr_system_rows (group 1 m # seen) ms = Inr rs'" "rs = \<lparr>ms_operation = group 1 m, ms_value = v\<rparr> # rs'"
    by (auto simp: Let_def split: if_splits sum.splits)
  from 2(1)[OF refl r(1,2,3)] r show ?case by auto
qed (auto split: if_splits)

definition l3_key :: "memory_l3_row \<Rightarrow> string" where "l3_key r = ml_node r @ ''|'' @ ml_ccl r"
definition access_key :: "memory_access_cell \<Rightarrow> string" where "access_key c = ma_cpu c @ ''|'' @ ma_component c"
definition ddrc_key :: "memory_ddrc_cell \<Rightarrow> string" where "ddrc_key c = md_node c @ ''|'' @ md_ddrc c"

lemma l3_distinct: "l3_rows seen ms = Inr rs \<Longrightarrow> distinct (map l3_key rs) \<and> set (map l3_key rs) \<inter> set seen = {}"
proof (induction ms arbitrary: seen rs)
  case (Cons m ms)
  then obtain r rs' where "l3_key r \<notin> set seen" "l3_rows (l3_key r # seen) ms = Inr rs'" "rs = r # rs'"
    by (force simp: Let_def l3_key_def split: if_splits sum.splits)
  with Cons.IH[of "l3_key r # seen" rs'] show ?case by auto
qed simp

lemma access_cells_distinct:
  "access_cells cpu seen cols = Inr (cells, seen') \<Longrightarrow>
     distinct (map access_key cells) \<and> set (map access_key cells) \<inter> set seen = {} \<and> set seen' = set seen \<union> set (map access_key cells)"
proof (induction cols arbitrary: seen cells seen')
  case (Cons col cols)
  obtain component m where "col = (component, m)" by (cases col)
  with Cons.prems obtain c cells' where "access_key c \<notin> set seen" "access_cells cpu (access_key c # seen) cols = Inr (cells', seen')"
    "cells = c # cells'"
    by (force simp: Let_def access_key_def split: if_splits sum.splits prod.splits)
  with Cons.IH[of "access_key c # seen" cells' seen'] show ?case by auto
qed simp

lemma access_rows_distinct:
  "access_rows comps seen lines = Inr cells \<Longrightarrow> distinct (map access_key cells) \<and> set (map access_key cells) \<inter> set seen = {}"
proof (induction lines arbitrary: seen cells)
  case (Cons l ls)
  show ?case
  proof (cases "access_rows comps seen ls = Inr cells")
    case False
    with Cons.prems obtain cpu cols cs seen' rest where
      a: "access_cells cpu seen cols = Inr (cs, seen')" "access_rows comps seen' ls = Inr rest" "cells = cs @ rest"
      by (force simp: Let_def split: if_splits option.splits sum.splits prod.splits)
    with access_cells_distinct[OF a(1)] Cons.IH[OF a(2)] show ?thesis by auto
  qed (rule Cons.IH)
qed simp

lemma ddrc_cells_distinct:
  "ddrc_cells node seen cols = Inr (cells, seen') \<Longrightarrow>
     distinct (map ddrc_key cells) \<and> set (map ddrc_key cells) \<inter> set seen = {} \<and> set seen' = set seen \<union> set (map ddrc_key cells)"
proof (induction cols arbitrary: seen cells seen')
  case (Cons col cols)
  obtain ddrc m where "col = (ddrc, m)" by (cases col)
  with Cons.prems obtain c cells' where "ddrc_key c \<notin> set seen" "ddrc_cells node (ddrc_key c # seen) cols = Inr (cells', seen')"
    "cells = c # cells'"
    by (force simp: Let_def ddrc_key_def split: if_splits sum.splits prod.splits)
  with Cons.IH[of "ddrc_key c # seen" cells' seen'] show ?case by auto
qed simp

lemma ddrc_rows_distinct:
  "ddrc_rows labels seen lines = Inr cells \<Longrightarrow> distinct (map ddrc_key cells) \<and> set (map ddrc_key cells) \<inter> set seen = {}"
proof (induction lines arbitrary: seen cells)
  case (Cons l ls)
  show ?case
  proof (cases "ddrc_rows labels seen ls = Inr cells")
    case False
    with Cons.prems obtain node cols cs seen' rest where
      a: "ddrc_cells node seen cols = Inr (cs, seen')" "ddrc_rows labels seen' ls = Inr rest" "cells = cs @ rest"
      by (force simp: Let_def split: if_splits option.splits sum.splits prod.splits)
    with ddrc_cells_distinct[OF a(1)] Cons.IH[OF a(2)] show ?thesis by auto
  qed (rule Cons.IH)
qed simp

definition memory_report_ok :: "memory_cache \<Rightarrow> bool" where
  "memory_report_ok c \<longleftrightarrow>
     distinct (map mm_component (mk_cacheMiss c)) \<and> distinct (map ms_operation (mk_ddrSystem c)) \<and>
     distinct (map access_key (mk_access c)) \<and> distinct (map l3_key (mk_l3 c)) \<and> distinct (map ddrc_key (mk_ddrc c))"

lemma parse_memory_ok:
  "parseMemoryOutput output attempt = Inr c \<Longrightarrow> memory_report_ok c \<and> mk_attempt c = attempt \<and> mk_success c"
  by (auto simp: parseMemoryOutput_def memory_report_ok_def parseMemoryCacheMiss_def parseMemoryDDRSystem_def parseMemoryAccess_def
      parseMemoryL3_def parseMemoryDDRC_def split: sum.splits prod.splits if_splits
      dest: cache_miss_distinct ddr_system_distinct access_rows_distinct l3_distinct ddrc_rows_distinct)

lemma memory_business_distinct:
  assumes "memory_report_ok c"
  shows "keys_distinct (memory_business c)"
proof -
  define a where "a = mk_attempt c"
  have d: "distinct (map mm_component (mk_cacheMiss c))" "distinct (map ms_operation (mk_ddrSystem c))"
    "distinct (map access_key (mk_access c))" "distinct (map l3_key (mk_l3 c))" "distinct (map ddrc_key (mk_ddrc c))"
    using assms by (simp_all add: memory_report_ok_def)
  have k1: "keys_distinct (concat (map (miss_sample a) (mk_cacheMiss c)))"
    by (rule keys_distinct_rows[where h = hd, OF d(1)]) (auto simp: miss_sample_def keys_distinct_def)
  have k2: "keys_distinct (concat (map (ddr_system_sample a) (mk_ddrSystem c)))"
    by (rule keys_distinct_rows[where h = hd, OF d(2)]) (auto simp: ddr_system_sample_def keys_distinct_def)
  have k3: "keys_distinct (concat (map (access_samples a) (mk_access c)))"
    by (rule keys_distinct_rows[where h = "\<lambda>l. l ! 1 @ ''|'' @ l ! 0", OF d(3)])
       (auto simp: access_samples_def keys_distinct_def sample_key_def access_key_def split: if_splits)
  have k4: "keys_distinct (concat (map (l3_samples a) (mk_l3 c)))"
    by (rule keys_distinct_rows[where h = "\<lambda>l. l ! 0 @ ''|'' @ l ! 1", OF d(4)])
       (auto simp: l3_samples_def Let_def keys_distinct_def sample_key_def l3_key_def)
  have k5: "keys_distinct (concat (map (ddrc_samples a) (mk_ddrc c)))"
    by (rule keys_distinct_rows[where h = "\<lambda>l. l ! 0 @ ''|'' @ l ! 1", OF d(5)])
       (auto simp: ddrc_samples_def keys_distinct_def sample_key_def ddrc_key_def)
  have n1: "names_of (concat (map (miss_sample a) xs)) \<subseteq> {memory_name ''cache_miss_percent''}" for xs
    by (rule names_of_concat) (simp add: miss_sample_def)
  have n2: "names_of (concat (map (ddr_system_sample a) xs)) \<subseteq> {memory_name ''ddr_system_bandwidth_megabytes_per_second''}" for xs
    by (rule names_of_concat) (simp add: ddr_system_sample_def)
  have n3: "names_of (concat (map (access_samples a) xs)) \<subseteq>
      {memory_name ''access_bandwidth_megabytes_per_second'', memory_name ''access_hit_percent''}" for xs
    by (rule names_of_concat) (simp add: access_samples_def)
  have n4: "names_of (concat (map (l3_samples a) xs)) \<subseteq>
      {memory_name ''l3_read_bandwidth_megabytes_per_second'', memory_name ''l3_read_hit_bandwidth_megabytes_per_second'',
       memory_name ''l3_read_hit_percent''}" for xs
    by (rule names_of_concat) (simp add: l3_samples_def Let_def)
  have n5: "names_of (concat (map (ddrc_samples a) xs)) \<subseteq> {memory_name ''ddrc_bandwidth_megabytes_per_second''}" for xs
    by (rule names_of_concat) (simp add: ddrc_samples_def)
  have s4: "keys_distinct (concat (map (l3_samples a) (mk_l3 c)) @ concat (map (ddrc_samples a) (mk_ddrc c)))"
    by (rule keys_distinct_append[OF k4 k5]) (use n4[of "mk_l3 c"] n5[of "mk_ddrc c"] in fastforce)
  have s3: "keys_distinct (concat (map (access_samples a) (mk_access c)) @ concat (map (l3_samples a) (mk_l3 c)) @
      concat (map (ddrc_samples a) (mk_ddrc c)))"
    by (rule keys_distinct_append[OF k3 s4]) (use n3[of "mk_access c"] n4[of "mk_l3 c"] n5[of "mk_ddrc c"] in fastforce)
  have s2: "keys_distinct (concat (map (ddr_system_sample a) (mk_ddrSystem c)) @ concat (map (access_samples a) (mk_access c)) @
      concat (map (l3_samples a) (mk_l3 c)) @ concat (map (ddrc_samples a) (mk_ddrc c)))"
    by (rule keys_distinct_append[OF k2 s3])
       (use n2[of "mk_ddrSystem c"] n3[of "mk_access c"] n4[of "mk_l3 c"] n5[of "mk_ddrc c"] in fastforce)
  show ?thesis
    unfolding memory_business_def Let_def a_def[symmetric]
    by (rule keys_distinct_append[OF k1 s2])
       (use n1[of "mk_cacheMiss c"] n2[of "mk_ddrSystem c"] n3[of "mk_access c"] n4[of "mk_l3 c"] n5[of "mk_ddrc c"] in fastforce)
qed

lemma memory_names:
  "names_of (memory_business c) \<subseteq> memory_name ` {''cache_miss_percent'', ''ddr_system_bandwidth_megabytes_per_second'',
     ''access_bandwidth_megabytes_per_second'', ''access_hit_percent'', ''l3_read_bandwidth_megabytes_per_second'',
     ''l3_read_hit_bandwidth_megabytes_per_second'', ''l3_read_hit_percent'', ''ddrc_bandwidth_megabytes_per_second''}"
  by (auto simp: memory_business_def Let_def names_of_def miss_sample_def ddr_system_sample_def access_samples_def l3_samples_def
      ddrc_samples_def split: if_splits)

lemma memory_health_distinct: "keys_distinct (memory_health a b t)"
  by (simp add: memory_health_def keys_distinct_def sample_key_def)

lemma memory_health_names:
  "names_of (memory_health a b t) \<subseteq> memory_name ` {''collection_success'', ''last_success_unixtime_seconds''}"
  by (auto simp: memory_health_def)

lemma memory_update_distinct:
  assumes "memory_Update cached = Inr ss" "\<And>c. cached = Some c \<Longrightarrow> mk_success c \<Longrightarrow> memory_report_ok c"
  shows "keys_distinct ss"
proof -
  obtain c where c: "cached = Some c" using assms(1) by (cases cached) (auto simp: memory_Update_def)
  let ?h = "memory_health (mk_attempt c) (mk_success c) (mk_lastSuccessTime c)"
  have ss: "ss = ?h @ (if mk_success c then memory_business c else [])" using assms(1) c by (simp add: memory_Update_def)
  have "names_of ?h \<inter> names_of (memory_business c) = {}"
    using memory_names[of c] memory_health_names[of "mk_attempt c" "mk_success c" "mk_lastSuccessTime c"] by fastforce
  then have "keys_distinct (?h @ memory_business c)" if "mk_success c"
    using assms(2)[OF c that] memory_business_distinct memory_health_distinct by (intro keys_distinct_append) auto
  then show ?thesis using ss memory_health_distinct by simp
qed

end
