(* ===== verification/DevkitLog.thy ===== *)
theory DevkitLog
  imports DevkitConfig
begin

text \<open>
  The log of the DevKit collections (\<open>pkg/kunpeng-perf-monitor/collector/devkit_logging.go\<close>): one state per
  collector, which reports changed parameters, and a failure at once and then at most once in five
  minutes while it stays the same. Instants are nanoseconds; a log line is one of the events below.
\<close>

section \<open>Texts\<close>

definition devkitFailureLogWindow :: int where "devkitFailureLogWindow = 300 * go_second"
definition maxDevkitErrorSummaryCharacters :: int where "maxDevkitErrorSummaryCharacters = 512"
definition maxDevkitDebugOutputCharacters :: int where "maxDevkitDebugOutputCharacters = 2048"

text \<open>The characters of a valid UTF-8 text: a first byte with the bytes that continue it.\<close>

definition continues :: "char \<Rightarrow> bool" where
  "continues c = (let n = of_char c :: nat in 128 \<le> n \<and> n < 192)"

fun runes_of :: "string \<Rightarrow> string list" where
  "runes_of [] = []"
| "runes_of (c # cs) =
     (case runes_of cs of
        [] \<Rightarrow> [[c]]
      | r # rs \<Rightarrow> if continues (hd cs) then (c # r) # rs else [c] # r # rs)"

definition truncateDevkitLogText :: "string \<Rightarrow> int \<Rightarrow> string \<times> bool" where
  "truncateDevkitLogText raw bound =
     (let rs = runes_of raw in
      if bound < 0 \<or> int (length rs) \<le> bound then (raw, False)
      else if bound \<le> 3 then (concat (take (nat bound) rs), True)
      else (concat (take (nat (bound - 3)) rs) @ ''...'', True))"

definition normalizeDevkitLogText :: "string \<Rightarrow> string" where
  "normalizeDevkitLogText raw = go_join '' '' (go_fields raw)"

section \<open>Failures\<close>

text \<open>An error chain, as far as the log looks into it: the stage of a \<open>devkitCollectionFailure\<close>, the text, the
  exit code of a process and whether a deadline has passed.\<close>

record collection_error =
  ce_stage :: "string option"
  ce_text :: string
  ce_exit :: "int option"
  ce_timeout :: bool

definition newDevkitCollectionFailure :: "string \<Rightarrow> collection_error \<Rightarrow> collection_error" where
  "newDevkitCollectionFailure stage err =
     err\<lparr>ce_stage := Some stage, ce_text := stage @ '' failed: '' @ ce_text err\<rparr>"

definition devkitFailureStage :: "collection_error \<Rightarrow> string" where
  "devkitFailureStage err = (case ce_stage err of None \<Rightarrow> ''collection'' | Some s \<Rightarrow> s)"

definition devkitExitCode :: "collection_error \<Rightarrow> int \<times> bool" where
  "devkitExitCode err = (case ce_exit err of None \<Rightarrow> (0, False) | Some c \<Rightarrow> (c, True))"

definition error_summary :: "collection_error \<Rightarrow> string" where
  "error_summary err = fst (truncateDevkitLogText (normalizeDevkitLogText (ce_text err)) maxDevkitErrorSummaryCharacters)"

definition NUL :: char where "NUL = CHR 0x00"

definition failure_fingerprint :: "collection_error \<Rightarrow> string" where
  "failure_fingerprint err =
     go_join [NUL] [devkitFailureStage err, itoa (fst (devkitExitCode err)), (if ce_timeout err then ''true'' else ''false''), error_summary err]"

section \<open>The state of the log\<close>

datatype log_event =
    LogParametersInitialized
  | LogParametersChanged
  | LogStart
  | LogFinish bool
  | LogRecovered
  | LogFailed string bool string "int option"
  | LogPanic
  | LogCLIOutput string bool
  | LogParseSummary

record log_state =
  lg_logger :: bool
  lg_hasParameters :: bool
  lg_parametersFingerprint :: string
  lg_failed :: bool
  lg_failureFingerprint :: string
  lg_failureLoggedAt :: "int option"

text \<open>An instant of \<^const>\<open>None\<close> is Go's zero time, far in the past.\<close>

definition newDevkitCollectionLogState :: log_state where
  "newDevkitCollectionLogState =
     \<lparr>lg_logger = True, lg_hasParameters = False, lg_parametersFingerprint = [], lg_failed = False,
      lg_failureFingerprint = [], lg_failureLoggedAt = None\<rparr>"

record log_attempt =
  la_roundID :: int
  la_started :: int

definition resetFailureLocked :: "log_state \<Rightarrow> log_state" where
  "resetFailureLocked s = s\<lparr>lg_failed := False, lg_failureFingerprint := [], lg_failureLoggedAt := None\<rparr>"

definition emit :: "log_state \<Rightarrow> log_event list \<Rightarrow> log_event list" where
  "emit s es = (if lg_logger s then es else [])"

definition parameters_fingerprint :: "string \<Rightarrow> string list \<Rightarrow> string" where
  "parameters_fingerprint binaryPath cliArgs = binaryPath @ [NUL] @ go_join [NUL] cliArgs"

definition log_start :: "int \<Rightarrow> int \<Rightarrow> string \<Rightarrow> string list \<Rightarrow> log_state \<Rightarrow> log_state \<times> log_attempt \<times> log_event list" where
  "log_start now roundID binaryPath cliArgs s =
     (let fingerprint = parameters_fingerprint binaryPath cliArgs;
          (s1, es) =
            (if \<not> lg_hasParameters s then
               (s\<lparr>lg_hasParameters := True, lg_parametersFingerprint := fingerprint\<rparr>, [LogParametersInitialized])
             else if fingerprint \<noteq> lg_parametersFingerprint s then
               (resetFailureLocked (s\<lparr>lg_parametersFingerprint := fingerprint\<rparr>), [LogParametersChanged])
             else (s, []))
      in (s1, \<lparr>la_roundID = roundID, la_started = now\<rparr>, emit s1 (es @ [LogStart])))"

definition log_finish :: "int \<Rightarrow> collection_error option \<Rightarrow> log_state \<Rightarrow> log_state \<times> log_event list" where
  "log_finish now collectionErr s =
     (case collectionErr of
        None \<Rightarrow> (resetFailureLocked s, emit s (LogFinish True # (if lg_failed s then [LogRecovered] else [])))
      | Some err \<Rightarrow>
          (let fingerprint = failure_fingerprint err;
               shouldLog = (\<not> lg_failed s \<or> fingerprint \<noteq> lg_failureFingerprint s \<or>
                            (case lg_failureLoggedAt s of None \<Rightarrow> True | Some t \<Rightarrow> devkitFailureLogWindow \<le> now - t));
               s1 = s\<lparr>lg_failed := True, lg_failureFingerprint := fingerprint\<rparr>
           in if \<not> shouldLog \<or> \<not> lg_logger s then (s1, emit s [LogFinish False])
              else (s1\<lparr>lg_failureLoggedAt := Some now\<rparr>,
                    [LogFinish False,
                     LogFailed (devkitFailureStage err) (ce_timeout err) (error_summary err) (ce_exit err)])))"

definition log_recordPanic :: "log_state \<Rightarrow> log_event list" where
  "log_recordPanic s = emit s [LogPanic]"

definition log_debugCLIOutput :: "log_state \<Rightarrow> string \<Rightarrow> log_event list" where
  "log_debugCLIOutput s output =
     (let (bounded, truncated) = truncateDevkitLogText output maxDevkitDebugOutputCharacters in emit s [LogCLIOutput bounded truncated])"

definition log_debugParseSummary :: "log_state \<Rightarrow> log_event list" where
  "log_debugParseSummary s = emit s [LogParseSummary]"

section \<open>No failure stays silent, and no failure floods the log\<close>

text \<open>The rounds of a collector: its argument vector, the instant of its end and its outcome. The history keeps
  the instants and fingerprints of the failures that were logged, the last one in front.\<close>

type_synonym log_round = "string \<times> string list \<times> int \<times> collection_error option"

definition is_failed_line :: "log_event \<Rightarrow> bool" where
  "is_failed_line e \<longleftrightarrow> (case e of LogFailed a b c d \<Rightarrow> True | _ \<Rightarrow> False)"

definition log_round_step :: "log_round \<Rightarrow> log_state \<times> (int \<times> string) list \<Rightarrow> log_state \<times> (int \<times> string) list" where
  "log_round_step r w =
     (case r of (binary, args, now, err) \<Rightarrow>
        (let (s1, attempt, es) = log_start now 0 binary args (fst w);
             (s2, fs) = log_finish now err s1
         in (s2, (case err of
                    Some e \<Rightarrow> if list_ex is_failed_line fs then (now, failure_fingerprint e) # snd w else snd w
                  | None \<Rightarrow> snd w))))"

definition log_rounds :: "log_round list \<Rightarrow> log_state \<times> (int \<times> string) list" where
  "log_rounds rs = fold log_round_step rs (newDevkitCollectionLogState, [])"

text \<open>While the collector is failing, its last logged failure has the fingerprint and the instant of the state.\<close>

definition log_inv :: "log_state \<times> (int \<times> string) list \<Rightarrow> bool" where
  "log_inv w \<longleftrightarrow> lg_logger (fst w) \<and>
     (lg_failed (fst w) \<longrightarrow>
        (\<exists>t rest. lg_failureLoggedAt (fst w) = Some t \<and> snd w = (t, lg_failureFingerprint (fst w)) # rest))"

lemma log_start_state:
  "fst (log_start now n b a s) = s\<lparr>lg_hasParameters := True, lg_parametersFingerprint := parameters_fingerprint b a\<rparr> \<or>
   fst (log_start now n b a s) = resetFailureLocked (s\<lparr>lg_parametersFingerprint := parameters_fingerprint b a\<rparr>)"
  by (cases s) (auto simp: log_start_def Let_def resetFailureLocked_def)

lemma log_start_inv: "log_inv (s, h) \<Longrightarrow> log_inv (fst (log_start now n b a s), h)"
  using log_start_state[of now n b a s] by (auto simp: log_inv_def resetFailureLocked_def)

lemma log_finish_lines:
  "lg_logger s \<Longrightarrow> log_finish now (Some e) s = (s', es) \<Longrightarrow>
     lg_logger s' \<and> lg_failed s' \<and> lg_failureFingerprint s' = failure_fingerprint e \<and>
     (if list_ex is_failed_line es then lg_failureLoggedAt s' = Some now
      else lg_failed s \<and> lg_failureFingerprint s = failure_fingerprint e \<and> lg_failureLoggedAt s' = lg_failureLoggedAt s \<and>
           (\<exists>t. lg_failureLoggedAt s = Some t \<and> now - t < devkitFailureLogWindow))"
  by (auto simp: log_finish_def Let_def emit_def is_failed_line_def split: if_splits option.splits)

lemma log_round_inv:
  assumes "log_inv w"
  shows "log_inv (log_round_step (b, a, now, err) w) \<and>
    (\<forall>e. err = Some e \<longrightarrow> (\<exists>t rest. snd (log_round_step (b, a, now, err) w) = (t, failure_fingerprint e) # rest \<and>
       (t = now \<or> now - t < devkitFailureLogWindow)))"
proof -
  obtain s1 la es where st: "log_start now 0 b a (fst w) = (s1, la, es)" by (cases "log_start now 0 b a (fst w)") auto
  then have i1: "log_inv (s1, snd w)" using log_start_inv[of "fst w" "snd w" now 0 b a] assms by simp
  obtain s2 fs where fin: "log_finish now err s1 = (s2, fs)" by (cases "log_finish now err s1") auto
  show ?thesis
  proof (cases err)
    case None
    then show ?thesis using i1 fin by (auto simp: log_round_step_def st log_inv_def log_finish_def resetFailureLocked_def)
  next
    case (Some e)
    have l: "lg_logger s1" using i1 by (simp add: log_inv_def)
    note f = log_finish_lines[OF l fin[unfolded Some]]
    show ?thesis
    proof (cases "list_ex is_failed_line fs")
      case True
      then show ?thesis using f by (simp add: log_round_step_def st fin[unfolded Some] Some log_inv_def)
    next
      case False
      then show ?thesis using f i1 by (auto simp: log_round_step_def st fin[unfolded Some] Some log_inv_def)
    qed
  qed
qed

lemma log_rounds_inv: "log_inv (log_rounds rs)"
proof -
  have "log_inv w \<Longrightarrow> log_inv (fold log_round_step rs w)" for w
  proof (induction rs arbitrary: w)
    case (Cons r rs)
    obtain b a now err where "r = (b, a, now, err)" by (cases r) auto
    with Cons log_round_inv[OF Cons.prems, of b a now err] show ?case by simp
  qed simp
  moreover have "log_inv (newDevkitCollectionLogState, [])" by (simp add: log_inv_def newDevkitCollectionLogState_def)
  ultimately show ?thesis by (simp add: log_rounds_def)
qed

text \<open>No failure stays silent: whatever rounds came before, after a failed round the last failure in the log
  is this one, or one with the same fingerprint that was logged less than five minutes before.\<close>

theorem failure_is_logged:
  "\<exists>t rest. snd (log_rounds (rs @ [(binary, args, now, Some err)])) = (t, failure_fingerprint err) # rest \<and>
     (t = now \<or> now - t < devkitFailureLogWindow)"
  using log_round_inv[OF log_rounds_inv[of rs], of binary args now "Some err"] by (simp add: log_rounds_def)

text \<open>A failure that is repeated with the same parameters within the window is not logged again.\<close>

lemma repeated_failure_quiet:
  assumes "log_inv (s, h)" "lg_failed s" "lg_failureFingerprint s = failure_fingerprint e" "lg_failureLoggedAt s = Some t"
    and "now - t < devkitFailureLogWindow" "lg_hasParameters s" "lg_parametersFingerprint s = parameters_fingerprint b a"
  shows "snd (log_round_step (b, a, now, Some e) (s, h)) = h"
  using assms by (auto simp: log_round_step_def log_start_def log_finish_def Let_def emit_def is_failed_line_def log_inv_def)

text \<open>Truncated texts stay within the bound.\<close>

lemma runes_of_nonempty: "runes_of s = [] \<longleftrightarrow> s = []"
  by (cases s) (auto split: list.splits)

lemma runes_of_concat: "concat (runes_of s) = s"
proof (induction s)
  case (Cons c cs)
  then show ?case using runes_of_nonempty[of cs] by (auto split: list.splits)
qed simp

lemma continues_rune: "continues c \<longleftrightarrow> \<not> ((of_char c :: nat) < 128 \<or> 192 \<le> (of_char c :: nat))"
  by (auto simp: continues_def Let_def)

end
