(* ===== verification/DevkitCollect.thy ===== *)
theory DevkitCollect
  imports DevkitPublish DevkitLog
begin

text \<open>
  The two DevKit collectors with their shared parts (\<open>collectOnce\<close>, \<open>storeFailure\<close>, \<open>markFailure\<close> of
  \<open>devkit_topdown.go\<close> and \<open>devkit_memory.go\<close>, \<open>devkitCollectionCoordinator\<close> of \<open>devkit_coordination.go\<close>): the
  watcher of the configuration, the coordinator that numbers and serialises the rounds, and per collector
  its cache and its log. A round is one step, because the coordinator's mutex keeps the rounds apart and
  each collector runs its own rounds one after the other. What the CLI answers, the clock and the texts
  of errors are arguments of the step.
\<close>

section \<open>State\<close>

text \<open>What is different between two collectors: nothing but the cache.\<close>

record 'c devkit_collector =
  co_cache :: "'c option"
  co_collecting :: bool
  co_log :: log_state

record devkit_world =
  dv_watcher :: config_watcher
  dv_nextRoundID :: int
  dv_topdown :: "topdown_cache devkit_collector"
  dv_memory :: "memory_cache devkit_collector"

definition new_collector :: "'c devkit_collector" where
  "new_collector = \<lparr>co_cache = None, co_collecting = False, co_log = newDevkitCollectionLogState\<rparr>"

definition new_devkit_world :: "config_watcher \<Rightarrow> devkit_world" where
  "new_devkit_world w = \<lparr>dv_watcher = w, dv_nextRoundID = 0, dv_topdown = new_collector, dv_memory = new_collector\<rparr>"

text \<open>The surroundings of a round: the runner of the CLI with the time limit and the arguments it gets, the
  instants of the start and the end, the Unix time, the path of the binary and the texts of errors.\<close>

record round_env =
  re_runner :: "int \<Rightarrow> string list \<Rightarrow> collection_error + string"
  re_started :: int
  re_finished :: int
  re_unix :: int
  re_binary :: string
  re_text :: "go_error \<Rightarrow> string"

definition plain_error :: "round_env \<Rightarrow> go_error \<Rightarrow> collection_error" where
  "plain_error env e = \<lparr>ce_stage = None, ce_text = re_text env e, ce_exit = None, ce_timeout = False\<rparr>"

definition runCLI :: "round_env \<Rightarrow> int \<Rightarrow> string list \<Rightarrow> collection_error + string" where
  "runCLI env duration args = re_runner env (wrap_i64 ((duration + 5) * go_second)) args"

section \<open>A round\<close>

text \<open>The coordinator's \<open>run\<close>: a new round number, the start and the end in the log. The uint64 wraps.\<close>

definition coordinator_run ::
  "round_env \<Rightarrow> string list \<Rightarrow> (collection_error + 'a) \<Rightarrow> int \<Rightarrow> log_state \<Rightarrow> int \<times> log_state" where
  "coordinator_run env args outcome nextRoundID l =
     (let roundID = to_u64 (nextRoundID + 1);
          (l1, attempt, es) = log_start (re_started env) roundID (re_binary env) args l;
          (l2, fs) = log_finish (re_finished env) (case outcome of Inl e \<Rightarrow> Some e | Inr _ \<Rightarrow> None) l1
      in (roundID, l2))"

text \<open>The function that both collectors hand to the coordinator: the CLI, then the parser.\<close>

definition collect_with :: "round_env \<Rightarrow> int \<Rightarrow> string list \<Rightarrow> (string \<Rightarrow> 'a result) \<Rightarrow> collection_error + 'a" where
  "collect_with env duration args parse =
     (case runCLI env duration args of
        Inl e \<Rightarrow> Inl (newDevkitCollectionFailure ''cli_execution'' e)
      | Inr out \<Rightarrow>
          (case parse out of
             Inl e \<Rightarrow> Inl (newDevkitCollectionFailure ''parse'' (plain_error env e))
           | Inr p \<Rightarrow> Inr p))"

text \<open>A broken command line is only logged.\<close>

definition log_argv_failure :: "round_env \<Rightarrow> string list \<Rightarrow> go_error \<Rightarrow> log_state \<Rightarrow> log_state" where
  "log_argv_failure env args e l =
     (let (l1, attempt, es) = log_start (re_started env) 0 (re_binary env) args l
      in fst (log_finish (re_finished env) (Some (newDevkitCollectionFailure ''argv_metadata'' (plain_error env e))) l1))"

definition storeFailure :: "attempt_metadata \<Rightarrow> topdown_cache option \<Rightarrow> topdown_cache" where
  "storeFailure attempt prev =
     \<lparr>tk_attempt = attempt, tk_cycles = 0, tk_instructions = 0, tk_ipc = 0, tk_nodes = [], tk_pmuEvents = [], tk_success = False,
      tk_lastSuccessTime = (case prev of None \<Rightarrow> 0 | Some c \<Rightarrow> tk_lastSuccessTime c)\<rparr>"

definition markFailure :: "attempt_metadata \<Rightarrow> memory_cache option \<Rightarrow> memory_cache" where
  "markFailure attempt prev =
     \<lparr>mk_attempt = attempt, mk_cacheMiss = [], mk_ddrSystem = [], mk_access = [], mk_l3 = [], mk_ddrc = [], mk_success = False,
      mk_lastSuccessTime = (case prev of None \<Rightarrow> 0 | Some c \<Rightarrow> mk_lastSuccessTime c)\<rparr>"

definition topdown_collectOnce :: "round_env \<Rightarrow> devkit_world \<Rightarrow> devkit_world" where
  "topdown_collectOnce env w =
     (let c = dv_topdown w in
      if co_collecting c then w
      else
        (let cfg = dc_Topdown (watcher_load (dv_watcher w)); args = topdownCommandArgs cfg in
         case parseDevkitAttemptMetadata args of
           Inl e \<Rightarrow> w\<lparr>dv_topdown := c\<lparr>co_log := log_argv_failure env args e (co_log c)\<rparr>\<rparr>
         | Inr attempt \<Rightarrow>
             (let outcome = collect_with env (tc_Duration cfg) args (\<lambda>out. parseTopdownOutput out attempt);
                  (n, l) = coordinator_run env args outcome (dv_nextRoundID w) (co_log c)
              in w\<lparr>dv_nextRoundID := n,
                   dv_topdown := c\<lparr>co_log := l,
                     co_cache := Some (case outcome of
                                         Inl e \<Rightarrow> storeFailure attempt (co_cache c)
                                       | Inr p \<Rightarrow> p\<lparr>tk_lastSuccessTime := re_unix env\<rparr>)\<rparr>\<rparr>)))"

definition memory_collectOnce :: "round_env \<Rightarrow> devkit_world \<Rightarrow> devkit_world" where
  "memory_collectOnce env w =
     (let c = dv_memory w in
      if co_collecting c then w
      else
        (let cfg = dc_Memory (watcher_load (dv_watcher w)); args = memoryCommandArgs cfg in
         case parseDevkitAttemptMetadata args of
           Inl e \<Rightarrow> w\<lparr>dv_memory := c\<lparr>co_log := log_argv_failure env args e (co_log c)\<rparr>\<rparr>
         | Inr attempt \<Rightarrow>
             (let outcome = collect_with env (mc_Duration cfg) args (\<lambda>out. parseMemoryOutput out attempt);
                  (n, l) = coordinator_run env args outcome (dv_nextRoundID w) (co_log c)
              in w\<lparr>dv_nextRoundID := n,
                   dv_memory := c\<lparr>co_log := l,
                     co_cache := Some (case outcome of
                                         Inl e \<Rightarrow> markFailure attempt (co_cache c)
                                       | Inr p \<Rightarrow> p\<lparr>mk_lastSuccessTime := re_unix env\<rparr>)\<rparr>\<rparr>)))"

text \<open>Everything that happens to the two collectors, in any order.\<close>

datatype devkit_event = DevkitConfigEvent config_event | TopdownRound round_env | MemoryRound round_env

fun devkit_step :: "yaml_decoder \<Rightarrow> devkit_event \<Rightarrow> devkit_world \<Rightarrow> devkit_world" where
  "devkit_step decode (DevkitConfigEvent ev) w = w\<lparr>dv_watcher := config_step decode (dv_watcher w) ev\<rparr>"
| "devkit_step decode (TopdownRound env) w = topdown_collectOnce env w"
| "devkit_step decode (MemoryRound env) w = memory_collectOnce env w"

definition devkit_run :: "yaml_decoder \<Rightarrow> config_watcher \<Rightarrow> devkit_event list \<Rightarrow> devkit_world" where
  "devkit_run decode start evs = fold (devkit_step decode) evs (new_devkit_world start)"

section \<open>The effect of a round\<close>

definition topdown_outcome :: "round_env \<Rightarrow> devkit_world \<Rightarrow> collection_error + topdown_cache" where
  "topdown_outcome env w =
     (let cfg = dc_Topdown (watcher_load (dv_watcher w))
      in collect_with env (tc_Duration cfg) (topdownCommandArgs cfg) (\<lambda>out. parseTopdownOutput out (topdown_attempt cfg)))"

definition memory_outcome :: "round_env \<Rightarrow> devkit_world \<Rightarrow> collection_error + memory_cache" where
  "memory_outcome env w =
     (let cfg = dc_Memory (watcher_load (dv_watcher w))
      in collect_with env (mc_Duration cfg) (memoryCommandArgs cfg) (\<lambda>out. parseMemoryOutput out (memory_attempt cfg)))"

lemma topdown_round_cache:
  assumes "\<not> co_collecting (dv_topdown w)"
  shows "co_cache (dv_topdown (topdown_collectOnce env w)) =
      Some (case topdown_outcome env w of
              Inl e \<Rightarrow> storeFailure (topdown_attempt (dc_Topdown (watcher_load (dv_watcher w)))) (co_cache (dv_topdown w))
            | Inr p \<Rightarrow> p\<lparr>tk_lastSuccessTime := re_unix env\<rparr>) \<and>
    \<not> co_collecting (dv_topdown (topdown_collectOnce env w)) \<and>
    dv_memory (topdown_collectOnce env w) = dv_memory w \<and> dv_watcher (topdown_collectOnce env w) = dv_watcher w"
  using assms
  by (auto simp: topdown_collectOnce_def topdown_outcome_def topdown_args_accepted Let_def split: prod.splits)

lemma memory_round_cache:
  assumes "\<not> co_collecting (dv_memory w)"
  shows "co_cache (dv_memory (memory_collectOnce env w)) =
      Some (case memory_outcome env w of
              Inl e \<Rightarrow> markFailure (memory_attempt (dc_Memory (watcher_load (dv_watcher w)))) (co_cache (dv_memory w))
            | Inr p \<Rightarrow> p\<lparr>mk_lastSuccessTime := re_unix env\<rparr>) \<and>
    \<not> co_collecting (dv_memory (memory_collectOnce env w)) \<and>
    dv_topdown (memory_collectOnce env w) = dv_topdown w \<and> dv_watcher (memory_collectOnce env w) = dv_watcher w"
  using assms
  by (auto simp: memory_collectOnce_def memory_outcome_def memory_args_accepted Let_def split: prod.splits)

lemma collect_with_Inr: "collect_with env d args parse = Inr p \<Longrightarrow> \<exists>out. runCLI env d args = Inr out \<and> parse out = Inr p"
  by (auto simp: collect_with_def split: sum.splits)

text \<open>What holds between the steps.\<close>

definition devkit_inv :: "devkit_world \<Rightarrow> bool" where
  "devkit_inv w \<longleftrightarrow>
     \<not> co_collecting (dv_topdown w) \<and> \<not> co_collecting (dv_memory w) \<and>
     (\<forall>c. co_cache (dv_topdown w) = Some c \<longrightarrow> tk_success c \<longrightarrow> topdown_report_ok c) \<and>
     (\<forall>c. co_cache (dv_memory w) = Some c \<longrightarrow> mk_success c \<longrightarrow> memory_report_ok c)"

lemma report_ok_time [simp]: "topdown_report_ok (c\<lparr>tk_lastSuccessTime := t\<rparr>) = topdown_report_ok c"
  "memory_report_ok (m\<lparr>mk_lastSuccessTime := t\<rparr>) = memory_report_ok m"
  by (simp_all add: topdown_report_ok_def memory_report_ok_def)

lemma topdown_outcome_ok: "topdown_outcome env w = Inr p \<Longrightarrow>
   topdown_report_ok p \<and> tk_success p \<and> tk_attempt p = topdown_attempt (dc_Topdown (watcher_load (dv_watcher w)))"
  by (auto simp: topdown_outcome_def Let_def dest!: collect_with_Inr dest: parse_topdown_ok)

lemma memory_outcome_ok: "memory_outcome env w = Inr p \<Longrightarrow>
   memory_report_ok p \<and> mk_success p \<and> mk_attempt p = memory_attempt (dc_Memory (watcher_load (dv_watcher w)))"
  by (auto simp: memory_outcome_def Let_def dest!: collect_with_Inr dest: parse_memory_ok)

lemma topdown_round_inv:
  assumes "devkit_inv w"
  shows "devkit_inv (topdown_collectOnce env w)"
proof -
  have n: "\<not> co_collecting (dv_topdown w)" using assms by (simp add: devkit_inv_def)
  note r = topdown_round_cache[OF n, of env]
  show ?thesis
  proof (cases "topdown_outcome env w")
    case (Inl e)
    then show ?thesis using r assms by (simp add: devkit_inv_def storeFailure_def)
  next
    case (Inr p)
    then show ?thesis using r assms topdown_outcome_ok[OF Inr] by (simp add: devkit_inv_def)
  qed
qed

lemma memory_round_inv:
  assumes "devkit_inv w"
  shows "devkit_inv (memory_collectOnce env w)"
proof -
  have n: "\<not> co_collecting (dv_memory w)" using assms by (simp add: devkit_inv_def)
  note r = memory_round_cache[OF n, of env]
  show ?thesis
  proof (cases "memory_outcome env w")
    case (Inl e)
    then show ?thesis using r assms by (simp add: devkit_inv_def markFailure_def)
  next
    case (Inr p)
    then show ?thesis using r assms memory_outcome_ok[OF Inr] by (simp add: devkit_inv_def)
  qed
qed

lemma devkit_step_inv: "devkit_inv w \<Longrightarrow> devkit_inv (devkit_step decode ev w)"
  by (cases ev) (simp_all add: topdown_round_inv memory_round_inv, simp add: devkit_inv_def)

lemma devkit_run_inv: "devkit_inv (devkit_run decode start evs)"
proof -
  have "devkit_inv w \<Longrightarrow> devkit_inv (fold (devkit_step decode) evs w)" for w
    by (induction evs arbitrary: w) (simp_all add: devkit_step_inv)
  moreover have "devkit_inv (new_devkit_world start)" by (simp add: devkit_inv_def new_devkit_world_def new_collector_def)
  ultimately show ?thesis by (simp add: devkit_run_def)
qed

section \<open>What a scrape sees\<close>

text \<open>The samples of a collector; one without data gives none.\<close>

definition samples_of :: "sample list result \<Rightarrow> sample list" where
  "samples_of r = (case r of Inl e \<Rightarrow> [] | Inr ss \<Rightarrow> ss)"

lemma topdown_samples_names: "names_of (samples_of (topdown_Update cached)) \<subseteq> range topdown_name"
proof (cases cached)
  case (Some c)
  have "names_of (topdown_business c) \<subseteq> range topdown_name" "names_of (topdown_health a b t) \<subseteq> range topdown_name" for a b t
    using topdown_names[of c] topdown_health_names[of a b t] by blast+
  then show ?thesis by (simp add: Some topdown_Update_def samples_of_def)
qed (simp add: topdown_Update_def samples_of_def)

lemma memory_samples_names: "names_of (samples_of (memory_Update cached)) \<subseteq> range memory_name"
proof (cases cached)
  case (Some c)
  have "names_of (memory_business c) \<subseteq> range memory_name" "names_of (memory_health a b t) \<subseteq> range memory_name" for a b t
    using memory_names[of c] memory_health_names[of a b t] by blast+
  then show ?thesis by (simp add: Some memory_Update_def samples_of_def)
qed (simp add: memory_Update_def samples_of_def)

lemma topdown_samples_distinct: "devkit_inv w \<Longrightarrow> keys_distinct (samples_of (topdown_Update (co_cache (dv_topdown w))))"
  using topdown_update_distinct[of "co_cache (dv_topdown w)"]
  by (cases "topdown_Update (co_cache (dv_topdown w))") (auto simp: samples_of_def devkit_inv_def keys_distinct_def)

lemma memory_samples_distinct: "devkit_inv w \<Longrightarrow> keys_distinct (samples_of (memory_Update (co_cache (dv_memory w))))"
  using memory_update_distinct[of "co_cache (dv_memory w)"]
  by (cases "memory_Update (co_cache (dv_memory w))") (auto simp: samples_of_def devkit_inv_def keys_distinct_def)

lemma business_time [simp]:
  "topdown_business (p\<lparr>tk_lastSuccessTime := t\<rparr>) = topdown_business p"
  "memory_business (m\<lparr>mk_lastSuccessTime := t\<rparr>) = memory_business m"
  by (simp_all add: topdown_business_def memory_business_def)

lemma topdown_round_published:
  assumes "devkit_inv w"
  shows "topdown_Update (co_cache (dv_topdown (topdown_collectOnce env w))) =
       Inr (case topdown_outcome env w of
              Inl e \<Rightarrow> topdown_health (topdown_attempt (dc_Topdown (watcher_load (dv_watcher w)))) False
                       (case co_cache (dv_topdown w) of None \<Rightarrow> 0 | Some c \<Rightarrow> tk_lastSuccessTime c)
            | Inr p \<Rightarrow> topdown_business p @ topdown_health (topdown_attempt (dc_Topdown (watcher_load (dv_watcher w)))) True (re_unix env))"
proof -
  have n: "\<not> co_collecting (dv_topdown w)" using assms by (simp add: devkit_inv_def)
  show ?thesis
  proof (cases "topdown_outcome env w")
    case (Inl e)
    then show ?thesis using topdown_round_cache[OF n, of env] by (simp add: topdown_Update_def storeFailure_def)
  next
    case (Inr p)
    then show ?thesis using topdown_round_cache[OF n, of env] topdown_outcome_ok[OF Inr] by (simp add: topdown_Update_def)
  qed
qed

lemma memory_round_published:
  assumes "devkit_inv w"
  shows "memory_Update (co_cache (dv_memory (memory_collectOnce env w))) =
       Inr (case memory_outcome env w of
              Inl e \<Rightarrow> memory_health (memory_attempt (dc_Memory (watcher_load (dv_watcher w)))) False
                       (case co_cache (dv_memory w) of None \<Rightarrow> 0 | Some c \<Rightarrow> mk_lastSuccessTime c)
            | Inr p \<Rightarrow> memory_health (memory_attempt (dc_Memory (watcher_load (dv_watcher w)))) True (re_unix env) @ memory_business p)"
proof -
  have n: "\<not> co_collecting (dv_memory w)" using assms by (simp add: devkit_inv_def)
  show ?thesis
  proof (cases "memory_outcome env w")
    case (Inl e)
    then show ?thesis using memory_round_cache[OF n, of env] by (simp add: memory_Update_def markFailure_def)
  next
    case (Inr p)
    then show ?thesis using memory_round_cache[OF n, of env] memory_outcome_ok[OF Inr] by (simp add: memory_Update_def)
  qed
qed

text \<open>C32. What a scrape publishes after a round: the reported data with the target of the current configuration
  and the time of the round when the CLI answered with a valid report, and otherwise only the failure and
  the time of the last success before. No data of an earlier round survives a failed one.\<close>

theorem round_is_published:
  "let w = devkit_run decode start evs; cfg = watcher_load (dv_watcher w) in
     topdown_Update (co_cache (dv_topdown (topdown_collectOnce env w))) =
       Inr (case topdown_outcome env w of
              Inl e \<Rightarrow> topdown_health (topdown_attempt (dc_Topdown cfg)) False
                       (case co_cache (dv_topdown w) of None \<Rightarrow> 0 | Some c \<Rightarrow> tk_lastSuccessTime c)
            | Inr p \<Rightarrow> topdown_business p @ topdown_health (topdown_attempt (dc_Topdown cfg)) True (re_unix env)) \<and>
     memory_Update (co_cache (dv_memory (memory_collectOnce env w))) =
       Inr (case memory_outcome env w of
              Inl e \<Rightarrow> memory_health (memory_attempt (dc_Memory cfg)) False
                       (case co_cache (dv_memory w) of None \<Rightarrow> 0 | Some c \<Rightarrow> mk_lastSuccessTime c)
            | Inr p \<Rightarrow> memory_health (memory_attempt (dc_Memory cfg)) True (re_unix env) @ memory_business p)"
  using topdown_round_published[OF devkit_run_inv[of decode start evs], of env]
    memory_round_published[OF devkit_run_inv[of decode start evs], of env]
  unfolding Let_def by (rule conjI)

end
