(* ===== verification/NodeCollector.thy ===== *)
theory NodeCollector
  imports DevkitCollect
begin

text \<open>
  The registry of the collectors and the scrape (\<open>pkg/kunpeng-perf-monitor/collector/collector.go\<close>): flags,
  the instances that are made once and shared, and the samples every scrape adds. What a factory returns
  is an argument; the goroutines of \<open>Collect\<close> write into one channel, here in the order of the map.
\<close>

section \<open>The registry\<close>

record ('f, 'c) registry =
  rg_state :: "(string, bool) gomap"
  rg_forced :: "(string, bool) gomap"
  rg_factories :: "(string, 'f) gomap"
  rg_initiated :: "(string, 'c) gomap"
  rg_watcher :: bool

definition new_registry :: "('f, 'c) registry" where
  "new_registry = \<lparr>rg_state = [], rg_forced = [], rg_factories = [], rg_initiated = [], rg_watcher = False\<rparr>"

definition RegisterCollector :: "string \<Rightarrow> bool \<Rightarrow> 'f \<Rightarrow> ('f, 'c) registry \<Rightarrow> ('f, 'c) registry" where
  "RegisterCollector collector isDefaultEnabled factory r =
     r\<lparr>rg_state := AList.update collector isDefaultEnabled (rg_state r),
       rg_factories := AList.update collector factory (rg_factories r)\<rparr>"

text \<open>A flag on the command line sets the state, and its action marks the collector as forced.\<close>

definition CollectorFlagAction :: "string \<Rightarrow> bool \<Rightarrow> ('f, 'c) registry \<Rightarrow> ('f, 'c) registry" where
  "CollectorFlagAction collector v r =
     r\<lparr>rg_state := AList.update collector v (rg_state r), rg_forced := AList.update collector True (rg_forced r)\<rparr>"

definition DisableDefaultCollectors :: "('f, 'c) registry \<Rightarrow> ('f, 'c) registry" where
  "DisableDefaultCollectors r =
     r\<lparr>rg_state := map (\<lambda>(c, v). if map_of (rg_forced r) c = None then (c, False) else (c, v)) (rg_state r)\<rparr>"

fun check_filters :: "(string, bool) gomap \<Rightarrow> string list \<Rightarrow> unit result" where
  "check_filters state [] = Inr ()"
| "check_filters state (f # fs) =
     (case map_of state f of
        None \<Rightarrow> Inl (Err ''missing collector'')
      | Some enabled \<Rightarrow> if \<not> enabled then Inl (Err ''disabled collector'') else check_filters state fs)"

definition wanted :: "string list \<Rightarrow> string \<times> bool \<Rightarrow> bool" where
  "wanted filters kv \<longleftrightarrow> snd kv \<and> (filters = [] \<or> fst kv \<in> set filters)"

definition isEnabled :: "(string, bool) gomap \<Rightarrow> string list \<Rightarrow> string \<Rightarrow> bool" where
  "isEnabled state filters name = (case map_of state name of None \<Rightarrow> False | Some enabled \<Rightarrow> wanted filters (name, enabled))"

text \<open>The instances: an existing one is shared, a new one is remembered; a missing factory is a nil function.\<close>

fun init_collectors ::
  "('f \<Rightarrow> 'c result) \<Rightarrow> string list \<Rightarrow> (string \<times> bool) list \<Rightarrow> ('f, 'c) registry \<Rightarrow> (string, 'c) gomap \<Rightarrow>
     ('f, 'c) registry \<times> (string, 'c) gomap result" where
  "init_collectors call filters [] r collectors = (r, Inr collectors)"
| "init_collectors call filters (kv # kvs) r collectors =
     (if \<not> wanted filters kv then init_collectors call filters kvs r collectors
      else
        (case map_of (rg_initiated r) (fst kv) of
           Some c \<Rightarrow> init_collectors call filters kvs r (AList.update (fst kv) c collectors)
         | None \<Rightarrow>
             (case map_of (rg_factories r) (fst kv) of
                None \<Rightarrow> (r, Inl Panic)
              | Some factory \<Rightarrow>
                  (case call factory of
                     Inl e \<Rightarrow> (r, Inl e)
                   | Inr c \<Rightarrow>
                       init_collectors call filters kvs (r\<lparr>rg_initiated := AList.update (fst kv) c (rg_initiated r)\<rparr>)
                         (AList.update (fst kv) c collectors)))))"

definition accuracy_warning :: "('f, 'c) registry \<Rightarrow> string list \<Rightarrow> bool" where
  "accuracy_warning r filters \<longleftrightarrow>
     isEnabled (rg_state r) filters ''pmu'' \<and>
     (isEnabled (rg_state r) filters ''devkit-topdown'' \<or> isEnabled (rg_state r) filters ''devkit-memory'')"

definition NewNodeCollector ::
  "('f \<Rightarrow> 'c result) \<Rightarrow> go_error list \<Rightarrow> string list \<Rightarrow> ('f, 'c) registry \<Rightarrow> ('f, 'c) registry \<times> (string, 'c) gomap result" where
  "NewNodeCollector call environmentErrors filters r =
     (case check_filters (rg_state r) filters of
        Inl e \<Rightarrow> (r, Inl e)
      | Inr _ \<Rightarrow>
          (let devkit = (isEnabled (rg_state r) filters ''devkit-topdown'' \<or> isEnabled (rg_state r) filters ''devkit-memory'') in
           if devkit \<and> environmentErrors \<noteq> [] then (r, Inl (Err ''invalid DevKit environment''))
           else init_collectors call filters (rg_state r) (if devkit then r\<lparr>rg_watcher := True\<rparr> else r) []))"

section \<open>The scrape\<close>

definition scrape_name :: "string \<Rightarrow> string" where "scrape_name n = BuildFQName ''scrape'' n"

text \<open>\<open>execute\<close>: the samples of the collector, also those it sent before an error, then its duration and success.\<close>

definition collector_execute :: "string \<Rightarrow> sample list \<times> go_error option \<Rightarrow> rat \<Rightarrow> sample list" where
  "collector_execute name upd duration =
     fst upd @ [(scrape_name ''collector_duration_seconds'', Fin duration, [name]),
                (scrape_name ''collector_success'', Fin (if snd upd = None then 1 else 0), [name])]"

definition NodeCollector_Collect :: "('c \<Rightarrow> sample list \<times> go_error option) \<Rightarrow> (string \<Rightarrow> rat) \<Rightarrow> (string, 'c) gomap \<Rightarrow> sample list" where
  "NodeCollector_Collect upd duration collectors =
     concat (map (\<lambda>(name, c). collector_execute name (upd c) (duration name)) collectors)"

section \<open>Each collector is made once\<close>

lemma init_frame:
  "init_collectors call fs kvs r cs = (r', res) \<Longrightarrow>
     rg_state r' = rg_state r \<and> rg_factories r' = rg_factories r \<and> rg_watcher r' = rg_watcher r"
proof (induction kvs arbitrary: r cs)
  case (Cons kv kvs)
  show ?case
  proof (cases "\<not> wanted fs kv \<or> map_of (rg_initiated r) (fst kv) \<noteq> None")
    case True
    then show ?thesis using Cons.IH[of r] Cons.prems by (auto split: if_splits)
  next
    case False
    show ?thesis
    proof (cases "\<exists>f c. map_of (rg_factories r) (fst kv) = Some f \<and> call f = Inr c")
      case True
      then obtain f c where "map_of (rg_factories r) (fst kv) = Some f" "call f = Inr c" by blast
      with False Cons.prems have "init_collectors call fs kvs (r\<lparr>rg_initiated := AList.update (fst kv) c (rg_initiated r)\<rparr>)
          (AList.update (fst kv) c cs) = (r', res)" by simp
      from Cons.IH[OF this] show ?thesis by simp
    next
      case nf: False
      then have "r' = r" using False Cons.prems by (auto split: option.splits sum.splits)
      then show ?thesis by simp
    qed
  qed
qed simp

text \<open>The selected collectors are those that are enabled and pass the filters.\<close>

definition selected :: "string list \<Rightarrow> (string \<times> bool) list \<Rightarrow> string set" where
  "selected fs kvs = fst ` {kv \<in> set kvs. wanted fs kv}"

lemma selected_Cons: "selected fs (kv # kvs) = (if wanted fs kv then insert (fst kv) (selected fs kvs) else selected fs kvs)"
  by (auto simp: selected_def)

lemma init_ok:
  assumes "init_collectors call fs kvs r cs = (r', Inr out)"
    and "\<And>k c. map_of cs k = Some c \<Longrightarrow> map_of (rg_initiated r) k = Some c"
  shows "dom (map_of out) = dom (map_of cs) \<union> selected fs kvs \<and>
    (\<forall>k c. map_of out k = Some c \<longrightarrow> map_of (rg_initiated r') k = Some c)"
  using assms
proof (induction call fs kvs r cs arbitrary: r' out rule: init_collectors.induct)
  case (1 call fs r cs)
  then show ?case by (simp add: selected_def)
next
  case (2 call fs kv kvs r cs)
  show ?case
  proof (cases "wanted fs kv")
    case False
    then show ?thesis using 2(1)[OF False] 2(4,5) by (simp add: selected_Cons)
  next
    case w: True
    then have nw: "\<not> \<not> wanted fs kv" by simp
    show ?thesis
    proof (cases "map_of (rg_initiated r) (fst kv)")
      case (Some c)
      then have e: "init_collectors call fs kvs r (AList.update (fst kv) c cs) = (r', Inr out)" using 2(4) w by simp
      have "map_of (AList.update (fst kv) c cs) k = Some d \<Longrightarrow> map_of (rg_initiated r) k = Some d" for k d
        using Some 2(5) by (auto split: if_splits)
      from 2(3)[OF nw Some e this] w show ?thesis by (auto simp: selected_Cons)
    next
      case None
      then obtain f c where f: "map_of (rg_factories r) (fst kv) = Some f" "call f = Inr c"
        and e: "init_collectors call fs kvs (r\<lparr>rg_initiated := AList.update (fst kv) c (rg_initiated r)\<rparr>)
          (AList.update (fst kv) c cs) = (r', Inr out)"
        using 2(4) w by (auto split: option.splits sum.splits)
      have "map_of (AList.update (fst kv) c cs) k = Some d \<Longrightarrow>
        map_of (rg_initiated (r\<lparr>rg_initiated := AList.update (fst kv) c (rg_initiated r)\<rparr>)) k = Some d" for k d
        using 2(5) by (auto split: if_splits)
      from 2(2)[OF nw None f e this] w show ?thesis by (auto simp: selected_Cons)
    qed
  qed
qed

text \<open>With every selected collector at hand no factory runs.\<close>

lemma init_again:
  assumes "\<And>k. k \<in> selected fs kvs \<Longrightarrow> map_of (rg_initiated r) k \<noteq> None"
  shows "\<exists>out. init_collectors call fs kvs r cs = (r, Inr out) \<and>
    map_of out = (\<lambda>k. if k \<in> selected fs kvs then map_of (rg_initiated r) k else map_of cs k)"
  using assms
proof (induction kvs arbitrary: cs)
  case Nil
  then show ?case by (simp add: selected_def)
next
  case (Cons kv kvs)
  show ?case
  proof (cases "wanted fs kv")
    case False
    then show ?thesis using Cons by (simp add: selected_Cons)
  next
    case True
    then obtain c where c: "map_of (rg_initiated r) (fst kv) = Some c" using Cons.prems[of "fst kv"] by (auto simp: selected_Cons)
    from Cons.IH[of "AList.update (fst kv) c cs"] Cons.prems True obtain out where
      "init_collectors call fs kvs r (AList.update (fst kv) c cs) = (r, Inr out)"
      "map_of out = (\<lambda>k. if k \<in> selected fs kvs then map_of (rg_initiated r) k else map_of (AList.update (fst kv) c cs) k)"
      by (auto simp: selected_Cons)
    then show ?thesis using True c by (auto simp: selected_Cons fun_eq_iff)
  qed
qed

lemma NewNodeCollector_run:
  "NewNodeCollector call errs fs r = (r', Inr cs) \<longleftrightarrow>
     check_filters (rg_state r) fs = Inr () \<and>
     \<not> ((isEnabled (rg_state r) fs ''devkit-topdown'' \<or> isEnabled (rg_state r) fs ''devkit-memory'') \<and> errs \<noteq> []) \<and>
     init_collectors call fs (rg_state r)
       (if isEnabled (rg_state r) fs ''devkit-topdown'' \<or> isEnabled (rg_state r) fs ''devkit-memory'' then r\<lparr>rg_watcher := True\<rparr> else r) [] =
     (r', Inr cs)"
  by (auto simp: NewNodeCollector_def Let_def split: sum.splits)

text \<open>A node collector holds exactly the collectors that are enabled and pass the filters, and a later one with
  the same filters holds the same instances: it runs no factory, so no second background loop is started,
  even where the factories would fail by then, and it leaves the registry alone.\<close>

theorem collectors_made_once:
  assumes "NewNodeCollector call errs filters r = (r', Inr cs)"
  shows "dom (map_of cs) = selected filters (rg_state r) \<and>
    (\<exists>cs'. NewNodeCollector call' errs filters r' = (r', Inr cs') \<and> map_of cs' = map_of cs)"
proof -
  define devkit where "devkit = (isEnabled (rg_state r) filters ''devkit-topdown'' \<or> isEnabled (rg_state r) filters ''devkit-memory'')"
  define r0 where "r0 = (if devkit then r\<lparr>rg_watcher := True\<rparr> else r)"
  from assms have ok: "check_filters (rg_state r) filters = Inr ()" "\<not> (devkit \<and> errs \<noteq> [])"
    and i: "init_collectors call filters (rg_state r) r0 [] = (r', Inr cs)"
    unfolding NewNodeCollector_run devkit_def[symmetric] r0_def[symmetric] by blast+
  have st: "rg_state r' = rg_state r" using init_frame[OF i] by (simp add: r0_def)
  from init_ok[OF i] have d: "dom (map_of cs) = selected filters (rg_state r)"
    and v: "map_of cs k = Some c \<Longrightarrow> map_of (rg_initiated r') k = Some c" for k c by simp_all
  have w: "(if devkit then r'\<lparr>rg_watcher := True\<rparr> else r') = r'" using init_frame[OF i] by (simp add: r0_def)
  have "map_of (rg_initiated r') k \<noteq> None" if "k \<in> selected filters (rg_state r)" for k
    using that d v by (metis domIff not_None_eq)
  from init_again[OF this] obtain cs' where
    c: "init_collectors call' filters (rg_state r) r' [] = (r', Inr cs')"
    "map_of cs' = (\<lambda>k. if k \<in> selected filters (rg_state r) then map_of (rg_initiated r') k else map_of [] k)" by blast
  have "map_of cs' k = map_of cs k" for k
  proof (cases "map_of cs k")
    case None
    then have "k \<notin> selected filters (rg_state r)" using d by auto
    then show ?thesis using None c(2) by simp
  next
    case (Some x)
    then have "k \<in> selected filters (rg_state r)" using d by auto
    then show ?thesis using Some v[OF Some] c(2) by simp
  qed
  then have "map_of cs' = map_of cs" by (rule ext)
  moreover have "NewNodeCollector call' errs filters r' = (r', Inr cs')"
    unfolding NewNodeCollector_run st devkit_def[symmetric] w using ok c(1) by simp
  ultimately show ?thesis using d by blast
qed

definition demo_registry :: "(nat, nat) registry" where
  "demo_registry = RegisterCollector ''psi'' True 1 (RegisterCollector ''devkit-topdown'' False 2 (RegisterCollector ''mpam'' True 3 new_registry))"

theorem collectors_made_once_witness:
  "\<exists>cs'. NewNodeCollector (\<lambda>f. Inl Panic) [] [''psi''] (fst (NewNodeCollector Inr [] [''psi''] demo_registry)) =
      (fst (NewNodeCollector Inr [] [''psi''] demo_registry), Inr cs') \<and> map_of cs' ''psi'' = Some 1"
proof -
  have e: "NewNodeCollector Inr [] [''psi''] demo_registry =
      (fst (NewNodeCollector Inr [] [''psi''] demo_registry), Inr [(''psi'', 1)])" by code_simp
  show ?thesis using collectors_made_once[OF e, of "\<lambda>f. Inl Panic"] by force
qed

section \<open>The scrape has no duplicates\<close>

lemma execute_distinct:
  assumes "keys_distinct (fst upd)" "names_of (fst upd) \<inter> range scrape_name = {}"
  shows "keys_distinct (collector_execute name upd d)"
  unfolding collector_execute_def
  by (rule keys_distinct_append[OF assms(1)])
     (use assms(2) in \<open>auto simp: keys_distinct_def sample_key_def scrape_name_def\<close>)

text \<open>Every collector reports its success exactly once.\<close>

lemma execute_success:
  assumes "names_of (fst upd) \<inter> range scrape_name = {}"
  shows "filter (\<lambda>s. fst s = scrape_name ''collector_success'') (collector_execute name upd d) =
    [(scrape_name ''collector_success'', Fin (if snd upd = None then 1 else 0), [name])]"
proof -
  have "filter (\<lambda>s. fst s = scrape_name ''collector_success'') (fst upd) = []"
    using assms by (force simp: filter_empty_conv names_of_def)
  then show ?thesis by (simp add: collector_execute_def scrape_name_def)
qed

end
