(* ===== verification/PerfFiles.thy ===== *)
theory PerfFiles
  imports GoParseFloat GoPath
begin

text \<open>
  The files that the MPAM and PSI collectors read (\<^verbatim>\<open>pkg/kunpeng-perf-monitor/collector/mpam_util.go\<close>): numbers, the
  lines of a \<^verbatim>\<open>schemata\<close> file, and the search of a directory tree for the groups. What the file system holds is an
  argument: the content of a file, the entries of a directory, the tree below a root; \<open>None\<close> is a failed call.
\<close>

section \<open>Numbers\<close>

definition hex_letters :: "string \<Rightarrow> bool" where
  "hex_letters s \<longleftrightarrow> (\<exists>c\<in>set s. c \<in> set ''abcdefABCDEF'')"

definition strToFloat64 :: "string \<Rightarrow> bool \<Rightarrow> f64 result" where
  "strToFloat64 text isInt =
     (let s = trim_space text in
      if s = [] then Inl (Err ''failed to parse int/float: empty string'')
      else if isInt then
        (case ParseInt (hex_letters s) s of
           None \<Rightarrow> Inl (Err ''failed to parse int from string'')
         | Some n \<Rightarrow> Inr (Fin (f64_of_int n)))
      else
        (case ParseFloat s of
           None \<Rightarrow> Inl (Err ''failed to parse float64 from string'')
         | Some v \<Rightarrow> Inr v))"

section \<open>Lines\<close>

text \<open>\<open>bufio.Scanner\<close>: the lines without their ends; a line that does not fit into the buffer ends the scan with an error.\<close>

definition drop_cr :: "string \<Rightarrow> string" where
  "drop_cr s = (if s \<noteq> [] \<and> last s = CHR 0x0D then butlast s else s)"

definition raw_lines :: "string \<Rightarrow> string list" where
  "raw_lines s = (let ls = go_split [CHR 0x0A] s in if last ls = [] then butlast ls else ls)"

definition scan_lines :: "string \<Rightarrow> string list \<times> bool" where
  "scan_lines s =
     (let fits = (\<lambda>l. length l < 65536); ls = raw_lines s in (map drop_cr (takeWhile fits ls), list_all fits ls))"

section \<open>The lines of a schemata file\<close>

type_synonym config_item = "(string, f64) gomap"
type_synonym config_data = "(string, config_item) gomap"

text \<open>A \<open>*ConfigData\<close>: \<open>None\<close> is the nil pointer; a nil map is the empty one, which the code then makes.\<close>

definition add_value :: "string \<Rightarrow> string \<Rightarrow> f64 \<Rightarrow> config_data \<Rightarrow> config_data" where
  "add_value item key v d =
     AList.update item (AList.update key v (case map_of d item of None \<Rightarrow> [] | Some m \<Rightarrow> m)) d"

definition addToConfigData :: "config_data option \<Rightarrow> string \<Rightarrow> string \<Rightarrow> f64 \<Rightarrow> config_data result" where
  "addToConfigData p item key v =
     (case p of None \<Rightarrow> Inl (Err ''configData is nil'') | Some d \<Rightarrow> Inr (add_value item key v d))"

text \<open>The pairs of one line. The two maps of the caller are a pair; an error drops them, so it carries none.\<close>

fun add_pairs ::
  "string \<Rightarrow> string \<Rightarrow> string \<Rightarrow> string list \<Rightarrow> config_data \<times> config_data \<Rightarrow> (config_data \<times> config_data) result" where
  "add_pairs k1 k2 item [] d = Inr d"
| "add_pairs k1 k2 item (p # ps) d =
     (let pair = trim_space p in
      if pair = [] then add_pairs k1 k2 item ps d
      else case go_splitn2 ''='' pair of
             [k, v] \<Rightarrow>
               (case strToFloat64 (trim_space v) True of
                  Inl e \<Rightarrow> Inl e
                | Inr x \<Rightarrow>
                    if contains item k1 then
                      (case addToConfigData (Some (fst d)) item (trim_space k) x of
                         Inl e \<Rightarrow> Inl e | Inr d1 \<Rightarrow> add_pairs k1 k2 item ps (d1, snd d))
                    else if contains item k2 then
                      (case addToConfigData (Some (snd d)) item (trim_space k) x of
                         Inl e \<Rightarrow> Inl e | Inr d2 \<Rightarrow> add_pairs k1 k2 item ps (fst d, d2))
                    else add_pairs k1 k2 item ps d)
           | _ \<Rightarrow> Inl (Err ''invalid key-value pair''))"

definition parseLine :: "string \<Rightarrow> string \<Rightarrow> string \<Rightarrow> config_data \<times> config_data \<Rightarrow> (config_data \<times> config_data) result" where
  "parseLine k1 k2 text d =
     (let line = trim_space text in
      if line = [] then Inr d
      else case go_splitn2 '':'' line of
             [item, dataStr] \<Rightarrow> add_pairs k1 k2 (trim_space item) (go_split '';'' (trim_space dataStr)) d
           | _ \<Rightarrow> Inl (Err ''invalid line format''))"

fun parse_lines ::
  "string \<Rightarrow> string \<Rightarrow> string list \<Rightarrow> config_data \<times> config_data \<Rightarrow> (config_data \<times> config_data) result" where
  "parse_lines k1 k2 [] d = Inr d"
| "parse_lines k1 k2 (l # ls) d =
     (case parseLine k1 k2 l d of Inl e \<Rightarrow> Inl e | Inr d' \<Rightarrow> parse_lines k1 k2 ls d')"

definition getMPAMConfigData :: "string option \<Rightarrow> string \<Rightarrow> string \<Rightarrow> (config_data \<times> config_data) result" where
  "getMPAMConfigData content k1 k2 =
     (case content of
        None \<Rightarrow> Inl (Err ''open'')
      | Some text \<Rightarrow>
          (case scan_lines text of
             (ls, all_read) \<Rightarrow>
               (case parse_lines k1 k2 ls ([], []) of
                  Inl e \<Rightarrow> Inl e
                | Inr d \<Rightarrow> if all_read then Inr d else Inl (Err ''bufio.Scanner: token too long''))))"

section \<open>The search for groups\<close>

text \<open>The tree below a directory as \<open>filepath.WalkDir\<close> meets it: the entries of a directory in the order of their names,
  and whether the directory can be read.\<close>

datatype fs_entry = FileE string | DirE string bool "fs_entry list"

fun entry_name :: "fs_entry \<Rightarrow> string" where
  "entry_name (FileE n) = n"
| "entry_name (DirE n readable es) = n"

fun entry_is_dir :: "fs_entry \<Rightarrow> bool" where
  "entry_is_dir (FileE n) = False"
| "entry_is_dir (DirE n readable es) = True"

definition path_dir :: "string \<Rightarrow> string" where
  "path_dir s = path_clean (rev (dropWhile (\<lambda>c. c \<noteq> CHR ''/'') (rev s)))"

text \<open>The callback on an entry that could be accessed; \<^const>\<open>True\<close> is \<open>filepath.SkipDir\<close>.\<close>

definition visit_entry ::
  "string \<Rightarrow> string \<Rightarrow> bool \<Rightarrow> string \<Rightarrow> fs_entry \<Rightarrow> (string, string) gomap \<Rightarrow> (string, string) gomap \<times> bool" where
  "visit_entry base T isDir path d dirs =
     (if entry_is_dir d = isDir \<and> entry_name d = T then
        (let parent = path_dir path in
         case path_rel base parent of
           None \<Rightarrow> (dirs, True)
         | Some r \<Rightarrow> (AList.update (path_base parent) r dirs, False))
      else (dirs, False))"

text \<open>\<open>walkDir\<close> of the standard library with that callback. A directory that cannot be read is left; a skip on a file
  leaves the rest of its directory.\<close>

fun walk_dir ::
  "string \<Rightarrow> string \<Rightarrow> bool \<Rightarrow> string \<Rightarrow> fs_entry \<Rightarrow> (string, string) gomap \<Rightarrow> (string, string) gomap \<times> bool"
and walk_entries ::
  "string \<Rightarrow> string \<Rightarrow> bool \<Rightarrow> string \<Rightarrow> fs_entry list \<Rightarrow> (string, string) gomap \<Rightarrow> (string, string) gomap" where
  "walk_dir base T isDir path (FileE n) dirs = visit_entry base T isDir path (FileE n) dirs"
| "walk_dir base T isDir path (DirE n readable es) dirs =
     (case visit_entry base T isDir path (DirE n readable es) dirs of
        (dirs', skip) \<Rightarrow> if skip \<or> \<not> readable then (dirs', False) else (walk_entries base T isDir path es dirs', False))"
| "walk_entries base T isDir path [] dirs = dirs"
| "walk_entries base T isDir path (e # es) dirs =
     (case walk_dir base T isDir (path_join [path, entry_name e]) e dirs of
        (dirs', skip) \<Rightarrow> if skip then dirs' else walk_entries base T isDir path es dirs')"

definition getAllTargetDirs :: "fs_entry option \<Rightarrow> string \<Rightarrow> string \<Rightarrow> bool \<Rightarrow> (string, string) gomap result" where
  "getAllTargetDirs tree base T isDir =
     (case tree of
        None \<Rightarrow> Inl (Err ''failed to stat path'')
      | Some d \<Rightarrow> Inr (fst (walk_dir base T isDir base d [])))"

definition listResInfoSubDirs :: "(string \<times> bool) list option \<Rightarrow> string \<Rightarrow> string \<Rightarrow> (string list \<times> string list) result" where
  "listResInfoSubDirs entries p1 p2 =
     (case entries of
        None \<Rightarrow> Inl (Err ''failed to read directory'')
      | Some es \<Rightarrow>
          (let dirs = map fst (filter snd es) in Inr (filter (\<lambda>n. has_prefix n p1) dirs, filter (\<lambda>n. has_prefix n p2) dirs)))"

definition getFileContent :: "string option \<Rightarrow> string result" where
  "getFileContent content =
     (case content of None \<Rightarrow> Inl (Err ''failed to read file'') | Some s \<Rightarrow> Inr (trim_space s))"

section \<open>Maps stay maps\<close>

definition wf_config :: "config_data \<Rightarrow> bool" where
  "wf_config d \<longleftrightarrow> wf_map d \<and> (\<forall>(item, m)\<in>set d. wf_map m)"

lemma wf_config_empty [simp]: "wf_config []"
  by (simp add: wf_config_def)

lemma wf_config_add: "wf_config d \<Longrightarrow> wf_config (add_value item key v d)"
proof -
  assume w: "wf_config d"
  let ?m = "case map_of d item of None \<Rightarrow> [] | Some m \<Rightarrow> m"
  have m: "wf_map ?m" using w by (auto simp: wf_config_def split: option.split dest: map_of_SomeD)
  have "set (AList.update item m' d) \<subseteq> insert (item, m') (set d)" for m'
    by (induction d) auto
  with w m show ?thesis unfolding wf_config_def add_value_def by fastforce
qed

lemma add_pairs_wf:
  "add_pairs k1 k2 item ps d = Inr d' \<Longrightarrow> wf_config (fst d) \<Longrightarrow> wf_config (snd d) \<Longrightarrow> wf_config (fst d') \<and> wf_config (snd d')"
proof (induction k1 k2 item ps d rule: add_pairs.induct)
  case (2 k1 k2 item p ps d)
  show ?case
  proof (cases "trim_space p = []")
    case True
    with 2 show ?thesis by simp
  next
    case False
    from 2(5) False obtain k v x where kv: "go_splitn2 ''='' (trim_space p) = [k, v]" "strToFloat64 (trim_space v) True = Inr x"
      by (auto simp: Let_def split: list.splits sum.splits)
    show ?thesis
      using 2(2-) False kv
      by (auto simp: addToConfigData_def Let_def wf_config_add split: if_splits)
  qed
qed simp

lemma parse_lines_wf:
  "parse_lines k1 k2 ls d = Inr d' \<Longrightarrow> wf_config (fst d) \<Longrightarrow> wf_config (snd d) \<Longrightarrow> wf_config (fst d') \<and> wf_config (snd d')"
proof (induction ls arbitrary: d)
  case (Cons l ls)
  from Cons.prems(1) obtain d1 where d1: "parseLine k1 k2 l d = Inr d1" "parse_lines k1 k2 ls d1 = Inr d'"
    by (auto split: sum.splits)
  have "wf_config (fst d1) \<and> wf_config (snd d1)"
    using d1(1) Cons.prems(2,3) by (auto simp: parseLine_def Let_def split: if_splits list.splits dest: add_pairs_wf)
  with Cons.IH[OF d1(2)] show ?case by blast
qed simp

lemma config_data_wf: "getMPAMConfigData c k1 k2 = Inr (d1, d2) \<Longrightarrow> wf_config d1 \<and> wf_config d2"
  using parse_lines_wf[of k1 k2 _ "([], [])"]
  by (fastforce simp: getMPAMConfigData_def split: option.splits prod.splits sum.splits if_splits)

lemma visit_entry_wf: "wf_map dirs \<Longrightarrow> wf_map (fst (visit_entry base T b path d dirs))"
  by (auto simp: visit_entry_def Let_def split: option.split)

lemma walk_wf:
  "wf_map dirs \<Longrightarrow> wf_map (fst (walk_dir base T b path d dirs))"
  "wf_map dirs \<Longrightarrow> wf_map (walk_entries base T b path es dirs)"
proof (induction base T b path d dirs and base T b path es dirs rule: walk_dir_walk_entries.induct)
  case (2 base T b path n readable es dirs)
  then show ?case using visit_entry_wf[of dirs base T b path "DirE n readable es"] by (auto split: prod.splits)
next
  case (4 base T b path e es dirs)
  then show ?case by (auto split: prod.splits if_splits)
qed (auto intro: visit_entry_wf)

lemma target_dirs_wf: "getAllTargetDirs tree base T b = Inr dirs \<Longrightarrow> wf_map dirs"
  by (auto simp: getAllTargetDirs_def walk_wf(1) split: option.splits)

end
