(* ===== verification/MpamCollector.thy ===== *)
theory MpamCollector
  imports PerfFiles DevkitPublish
begin

text \<open>
  The MPAM collector (\<^verbatim>\<open>pkg/kunpeng-perf-monitor/collector/mpam.go\<close>): the usage and the configuration of every
  resctrl group. The file system is a record of what its calls answer. The code first asks for the
  status of a usage file and then reads it, and skips it when either fails: the two calls are one answer.
\<close>

section \<open>The file system\<close>

record perf_os =
  po_tree :: "string \<Rightarrow> fs_entry option"
  po_read :: "string \<Rightarrow> string option"
  po_dir :: "string \<Rightarrow> (string \<times> bool) list option"

section \<open>The collector\<close>

definition mpam_name :: "string \<Rightarrow> string" where "mpam_name n = BuildFQName ''mpam'' n"

definition NewMPAMCollector :: "perf_os \<Rightarrow> string \<Rightarrow> unit result" where
  "NewMPAMCollector os mount = (case po_tree os mount of None \<Rightarrow> Inl (Err ''failed to stat resctl mount path'') | Some _ \<Rightarrow> Inr ())"

definition getMPAMGroups :: "perf_os \<Rightarrow> string \<Rightarrow> (string, string) gomap result" where
  "getMPAMGroups os mount =
     (case getAllTargetDirs (po_tree os mount) mount ''mon_groups'' True of
        Inl e \<Rightarrow> Inl e
      | Inr groups \<Rightarrow> if groups = [] then Inl (Err ''mpam groups is empty'') else Inr groups)"

text \<open>The group, the CPU list and the mode.\<close>

definition mpam_getLabels :: "perf_os \<Rightarrow> string \<Rightarrow> string \<Rightarrow> string \<Rightarrow> (string \<times> string \<times> string) result" where
  "mpam_getLabels os mount name rel =
     (case getFileContent (po_read os (path_join [mount, rel, ''cpus_list''])) of
        Inl e \<Rightarrow> Inl e
      | Inr cpus \<Rightarrow>
          (case getFileContent (po_read os (path_join [mount, rel, ''mode''])) of
             Inl e \<Rightarrow> Inl e
           | Inr mode \<Rightarrow> Inr (name, if cpus = [] then ''null'' else cpus, mode)))"

definition label_list :: "string \<times> string \<times> string \<Rightarrow> string list" where
  "label_list ls = [fst ls, fst (snd ls), snd (snd ls)]"

text \<open>One sample for each directory whose file can be read and holds a number.\<close>

definition usage_sample ::
  "perf_os \<Rightarrow> string \<Rightarrow> string \<Rightarrow> string \<times> string \<times> string \<Rightarrow> string \<Rightarrow> string \<Rightarrow> string \<Rightarrow> sample option" where
  "usage_sample os mount rel ls metric file dir =
     (case po_read os (path_join [mount, rel, ''mon_data'', dir, file]) of
        None \<Rightarrow> None
      | Some text \<Rightarrow>
          (case ParseFloat (trim_space text) of
             None \<Rightarrow> None
           | Some v \<Rightarrow> Some (mpam_name metric, v, label_list ls @ [dir])))"

definition updateResUsageMetrics ::
  "perf_os \<Rightarrow> string \<Rightarrow> string \<Rightarrow> string \<times> string \<times> string \<Rightarrow> string \<Rightarrow> string list \<Rightarrow> sample list \<times> unit result" where
  "updateResUsageMetrics os mount rel ls metric dirs =
     (if dirs = [] then ([], Inl (Err ''non fatal error, targetDir is empty''))
      else
        (let file = (if metric = ''mem_usage'' then ''mbm_total_bytes'' else ''llc_occupancy'') in
         (List.map_filter (usage_sample os mount rel ls metric file) dirs, Inr ())))"

text \<open>An empty list of directories is nil: the metric is skipped without an error.\<close>

definition usage_of ::
  "perf_os \<Rightarrow> string \<Rightarrow> string \<Rightarrow> string \<times> string \<times> string \<Rightarrow> string \<Rightarrow> string list \<Rightarrow> sample list \<times> unit result" where
  "usage_of os mount rel ls metric dirs = (if dirs = [] then ([], Inr ()) else updateResUsageMetrics os mount rel ls metric dirs)"

definition updateMPAMResUsageMetrics ::
  "perf_os \<Rightarrow> string \<Rightarrow> string \<Rightarrow> string \<times> string \<times> string \<Rightarrow> sample list \<times> unit result" where
  "updateMPAMResUsageMetrics os mount rel ls =
     (case listResInfoSubDirs (po_dir os (path_join [mount, rel, ''mon_data''])) ''mon_L3'' ''mon_MB'' of
        Inl e \<Rightarrow> ([], Inl e)
      | Inr (l3, mb) \<Rightarrow>
          (case usage_of os mount rel ls ''l3_cache_usage'' l3 of
             (ss, Inl e) \<Rightarrow> (ss, Inl e)
           | (ss, Inr _) \<Rightarrow> (case usage_of os mount rel ls ''mem_usage'' mb of (ts, r) \<Rightarrow> (ss @ ts, r))))"

definition updateResConfigMetrics :: "string \<times> string \<times> string \<Rightarrow> string \<Rightarrow> config_data \<Rightarrow> sample list" where
  "updateResConfigMetrics ls metric d =
     concat (map (\<lambda>(item, m). map (\<lambda>(id, v). (mpam_name metric, v, label_list ls @ [item, id])) m) d)"

definition updateMPAMResConfigMetrics ::
  "perf_os \<Rightarrow> string \<Rightarrow> string \<Rightarrow> string \<times> string \<times> string \<Rightarrow> sample list \<times> unit result" where
  "updateMPAMResConfigMetrics os mount rel ls =
     (case getMPAMConfigData (po_read os (path_join [mount, rel, ''schemata''])) ''L3'' ''MB'' of
        Inl e \<Rightarrow> ([], Inl e)
      | Inr (l3, mb) \<Rightarrow>
          (updateResConfigMetrics ls ''l3_cache_config'' l3 @ updateResConfigMetrics ls ''mem_config'' mb, Inr ()))"

text \<open>The body of the loop over the groups; what was sent before an error stays sent.\<close>

definition mpam_group :: "perf_os \<Rightarrow> string \<Rightarrow> string \<times> string \<Rightarrow> sample list" where
  "mpam_group os mount g =
     (case mpam_getLabels os mount (fst g) (snd g) of
        Inl e \<Rightarrow> []
      | Inr ls \<Rightarrow>
          (case updateMPAMResUsageMetrics os mount (snd g) ls of
             (ss, Inl e) \<Rightarrow> ss
           | (ss, Inr _) \<Rightarrow> ss @ fst (updateMPAMResConfigMetrics os mount (snd g) ls)))"

definition mpam_Update :: "perf_os \<Rightarrow> string \<Rightarrow> sample list \<times> go_error option" where
  "mpam_Update os mount =
     (case getMPAMGroups os mount of
        Inl e \<Rightarrow> ([], Some e)
      | Inr groups \<Rightarrow> (concat (map (mpam_group os mount) groups), None))"

section \<open>No two samples alike\<close>

lemma mpam_names_eq [simp]: "mpam_name a = mpam_name b \<longleftrightarrow> a = b"
  by (simp add: mpam_name_def)

lemma keys_distinct_Nil [simp]: "keys_distinct []"
  by (simp add: keys_distinct_def)

lemma keys_distinct_map_filter:
  assumes "distinct xs" "\<And>x s. f x = Some s \<Longrightarrow> last (snd (snd s)) = x"
  shows "keys_distinct (List.map_filter f xs)"
proof -
  have "distinct (map (\<lambda>s. last (snd (snd s))) (List.map_filter f xs)) \<and>
      set (map (\<lambda>s. last (snd (snd s))) (List.map_filter f xs)) \<subseteq> set xs"
    using assms by (induction xs) (auto simp: map_filter_simps split: option.splits)
  then have "distinct (map (\<lambda>s. last (snd (snd s))) (List.map_filter f xs))" by blast
  then show ?thesis
    unfolding keys_distinct_def by (rule distinct_map_key[where h = "\<lambda>k. last (snd k)"]) (simp add: sample_key_def)
qed

text \<open>A directory has no two entries of one name.\<close>

definition dirs_ok :: "perf_os \<Rightarrow> bool" where
  "dirs_ok os \<longleftrightarrow> (\<forall>p es. po_dir os p = Some es \<longrightarrow> distinct (map fst es))"

definition in_group :: "string \<Rightarrow> sample \<Rightarrow> bool" where
  "in_group g s \<longleftrightarrow> snd (snd s) \<noteq> [] \<and> hd (snd (snd s)) = g"

lemma usage_samples:
  assumes "distinct dirs"
  shows "keys_distinct (fst (usage_of os mount rel ls metric dirs)) \<and>
    names_of (fst (usage_of os mount rel ls metric dirs)) \<subseteq> {mpam_name metric} \<and>
    (\<forall>s\<in>set (fst (usage_of os mount rel ls metric dirs)). in_group (fst ls) s)"
proof (cases "dirs = []")
  case True
  then show ?thesis by (simp add: usage_of_def)
next
  case False
  define f where "f = usage_sample os mount rel ls metric (if metric = ''mem_usage'' then ''mbm_total_bytes'' else ''llc_occupancy'')"
  have u: "fst (usage_of os mount rel ls metric dirs) = List.map_filter f dirs"
    using False by (simp add: usage_of_def updateResUsageMetrics_def f_def)
  have f: "fst s = mpam_name metric \<and> last (snd (snd s)) = x \<and> in_group (fst ls) s" if "f x = Some s" for x s
    using that by (auto simp: f_def usage_sample_def label_list_def in_group_def split: option.splits)
  have "\<forall>s\<in>set (List.map_filter f dirs). \<exists>x. f x = Some s" by (auto simp: map_filter_def)
  then show ?thesis
    unfolding u using f keys_distinct_map_filter[OF assms, of f] by (auto simp: names_of_def)
qed

text \<open>The rows of a configuration, with the item and the key as the last labels.\<close>

lemma config_rows_distinct:
  assumes "wf_config d" "\<And>item key v. sample_key (f item key v) = (n, ls @ [item, key])"
  shows "keys_distinct (concat (map (\<lambda>(item, m). map (\<lambda>(key, v). f item key v) m) d))"
proof -
  let ?row = "\<lambda>(item, m). map (\<lambda>(key, v). f item key v) m"
  have "keys_distinct (concat (map ?row d'))" if "distinct (map fst d')" "set d' \<subseteq> set d" for d'
    using that
  proof (induction d')
    case (Cons r d')
    obtain item m where r: "r = (item, m)" by (cases r)
    have "wf_map m" using assms(1) Cons.prems r by (auto simp: wf_config_def)
    then have "distinct (map fst m)" by (simp add: wf_map_def)
    then have k: "keys_distinct (?row r)"
      unfolding r prod.case keys_distinct_def map_map
      by (rule distinct_map_key[where h = "\<lambda>k. last (snd k)"]) (auto simp: assms(2) split: prod.split)
    have "sample_key s \<noteq> sample_key t" if "s \<in> set (?row r)" "t \<in> set (concat (map ?row d'))" for s t
    proof -
      from that(1) obtain key where "sample_key s = (n, ls @ [item, key])" by (auto simp: r assms(2))
      moreover from that(2) obtain item' key' where "item' \<in> fst ` set d'" "sample_key t = (n, ls @ [item', key'])"
        by (force simp: assms(2))
      moreover have "item \<notin> fst ` set d'" using Cons.prems(1) r by simp
      ultimately show ?thesis by auto
    qed
    with k Cons.IH Cons.prems show ?case
      unfolding keys_distinct_def concat.simps list.map(2) by (intro distinct_map_append) auto
  qed simp
  with assms(1) show ?thesis by (simp add: wf_config_def wf_map_def)
qed

lemma config_samples:
  assumes "wf_config d"
  shows "keys_distinct (updateResConfigMetrics ls metric d) \<and>
    names_of (updateResConfigMetrics ls metric d) \<subseteq> {mpam_name metric} \<and>
    (\<forall>s\<in>set (updateResConfigMetrics ls metric d). in_group (fst ls) s)"
proof (intro conjI)
  show "keys_distinct (updateResConfigMetrics ls metric d)"
    unfolding updateResConfigMetrics_def
    by (rule config_rows_distinct[OF assms, where ls = "label_list ls" and n = "mpam_name metric"]) (simp add: sample_key_def)
  show "names_of (updateResConfigMetrics ls metric d) \<subseteq> {mpam_name metric}"
    unfolding updateResConfigMetrics_def by (rule names_of_concat) (auto simp: names_of_def split: prod.split)
  show "\<forall>s\<in>set (updateResConfigMetrics ls metric d). in_group (fst ls) s"
    by (auto simp: updateResConfigMetrics_def in_group_def label_list_def)
qed

lemma res_usage_samples:
  assumes "dirs_ok os" "updateMPAMResUsageMetrics os mount rel ls = (ss, r)"
  shows "keys_distinct ss \<and> names_of ss \<subseteq> {mpam_name ''l3_cache_usage'', mpam_name ''mem_usage''} \<and> (\<forall>s\<in>set ss. in_group (fst ls) s)"
proof (cases "listResInfoSubDirs (po_dir os (path_join [mount, rel, ''mon_data''])) ''mon_L3'' ''mon_MB''")
  case (Inl e)
  with assms(2) show ?thesis by (simp add: updateMPAMResUsageMetrics_def)
next
  case (Inr p)
  obtain l3 mb where p: "p = (l3, mb)" by (cases p)
  from Inr p obtain es where es: "po_dir os (path_join [mount, rel, ''mon_data'']) = Some es"
    "l3 = filter (\<lambda>n. has_prefix n ''mon_L3'') (map fst (filter snd es))"
    "mb = filter (\<lambda>n. has_prefix n ''mon_MB'') (map fst (filter snd es))"
    by (auto simp: listResInfoSubDirs_def Let_def split: option.splits)
  from assms(1) es(1) have "distinct (map fst es)" by (auto simp: dirs_ok_def)
  then have "distinct (map fst (filter snd es))" by (rule distinct_map_filter)
  then have d: "distinct l3" "distinct mb" by (simp_all add: es)
  obtain s1 r1 where u1: "usage_of os mount rel ls ''l3_cache_usage'' l3 = (s1, r1)" by (cases "usage_of os mount rel ls ''l3_cache_usage'' l3")
  obtain s2 r2 where u2: "usage_of os mount rel ls ''mem_usage'' mb = (s2, r2)" by (cases "usage_of os mount rel ls ''mem_usage'' mb")
  note f1 = usage_samples[OF d(1), of os mount rel ls "''l3_cache_usage''", unfolded u1 fst_conv]
  note f2 = usage_samples[OF d(2), of os mount rel ls "''mem_usage''", unfolded u2 fst_conv]
  have "names_of s1 \<inter> names_of s2 = {}" using f1 f2 by fastforce
  then have k: "keys_distinct (s1 @ s2)" using f1 f2 by (intro keys_distinct_append) blast+
  have "ss = s1 \<or> ss = s1 @ s2"
    using assms(2) by (auto simp: updateMPAMResUsageMetrics_def Inr p u1 u2 split: sum.splits)
  then show ?thesis
  proof
    assume "ss = s1"
    with f1 show ?thesis by blast
  next
    assume "ss = s1 @ s2"
    with f1 f2 k show ?thesis by auto
  qed
qed

lemma res_config_samples:
  "keys_distinct (fst (updateMPAMResConfigMetrics os mount rel ls)) \<and>
   names_of (fst (updateMPAMResConfigMetrics os mount rel ls)) \<subseteq> {mpam_name ''l3_cache_config'', mpam_name ''mem_config''} \<and>
   (\<forall>s\<in>set (fst (updateMPAMResConfigMetrics os mount rel ls)). in_group (fst ls) s)"
proof (cases "getMPAMConfigData (po_read os (path_join [mount, rel, ''schemata''])) ''L3'' ''MB''")
  case (Inl e)
  then show ?thesis by (simp add: updateMPAMResConfigMetrics_def)
next
  case (Inr p)
  obtain l3 mb where p: "p = (l3, mb)" by (cases p)
  with Inr have "wf_config l3" "wf_config mb" using config_data_wf[of _ "''L3''" "''MB''" l3 mb] by auto
  note f1 = config_samples[OF this(1), of ls "''l3_cache_config''"] and f2 = config_samples[OF this(2), of ls "''mem_config''"]
  have "names_of (updateResConfigMetrics ls ''l3_cache_config'' l3) \<inter> names_of (updateResConfigMetrics ls ''mem_config'' mb) = {}"
    using f1 f2 by fastforce
  then have "keys_distinct (updateResConfigMetrics ls ''l3_cache_config'' l3 @ updateResConfigMetrics ls ''mem_config'' mb)"
    using f1 f2 by (intro keys_distinct_append) blast+
  then show ?thesis using f1 f2 by (auto simp: updateMPAMResConfigMetrics_def Inr p)
qed

lemma mpam_group_samples:
  assumes "dirs_ok os"
  shows "keys_distinct (mpam_group os mount g) \<and> names_of (mpam_group os mount g) \<subseteq> range mpam_name \<and>
    (\<forall>s\<in>set (mpam_group os mount g). in_group (fst g) s)"
proof (cases "mpam_getLabels os mount (fst g) (snd g)")
  case (Inl e)
  then show ?thesis by (simp add: mpam_group_def)
next
  case (Inr ls)
  then have n: "fst ls = fst g" by (auto simp: mpam_getLabels_def split: sum.splits)
  obtain ss r where u: "updateMPAMResUsageMetrics os mount (snd g) ls = (ss, r)" by (cases "updateMPAMResUsageMetrics os mount (snd g) ls")
  let ?c = "fst (updateMPAMResConfigMetrics os mount (snd g) ls)"
  note f = res_usage_samples[OF assms u] and h = res_config_samples[of os mount "snd g" ls]
  have "names_of ss \<inter> names_of ?c = {}" using f h by fastforce
  then have k: "keys_distinct (ss @ ?c)" using f h by (intro keys_distinct_append) blast+
  have "mpam_group os mount g = ss \<or> mpam_group os mount g = ss @ ?c"
    by (auto simp: mpam_group_def Inr u split: sum.splits)
  then show ?thesis
  proof
    assume "mpam_group os mount g = ss"
    with f n show ?thesis by auto
  next
    assume "mpam_group os mount g = ss @ ?c"
    with f h k n show ?thesis by auto
  qed
qed

lemma mpam_update_distinct:
  assumes "dirs_ok os"
  shows "keys_distinct (fst (mpam_Update os mount)) \<and> names_of (fst (mpam_Update os mount)) \<subseteq> range mpam_name"
proof (cases "getMPAMGroups os mount")
  case (Inl e)
  then show ?thesis by (simp add: mpam_Update_def)
next
  case (Inr groups)
  then have "wf_map groups" by (auto simp: getMPAMGroups_def split: sum.splits if_splits dest: target_dirs_wf)
  then have d: "distinct (map fst groups)" by (simp add: wf_map_def)
  have "keys_distinct (concat (map (mpam_group os mount) groups))"
    by (rule keys_distinct_rows[where h = hd, OF d]) (use mpam_group_samples[OF assms] in \<open>auto simp: in_group_def\<close>)
  moreover have "names_of (concat (map (mpam_group os mount) groups)) \<subseteq> range mpam_name"
    by (rule names_of_concat) (use mpam_group_samples[OF assms] in blast)
  ultimately show ?thesis by (simp add: mpam_Update_def Inr)
qed

end
