(* ===== verification/PsiCollector.thy ===== *)
theory PsiCollector
  imports MpamCollector
begin

text \<open>
  The collector of pressure stall information (\<^verbatim>\<open>pkg/kunpeng-perf-monitor/collector/psi.go\<close>): where the cgroups of the
  pods are, which groups there are, and the pressure files of each. The answer of \<^verbatim>\<open>df -T\<close> is an argument;
  \<open>None\<close> is a command that fails.
\<close>

section \<open>The search path\<close>

definition checkCgroupVersion :: "(string \<Rightarrow> string option) \<Rightarrow> string \<Rightarrow> int result" where
  "checkCgroupVersion df path =
     (if path = [] then Inl (Err ''cgroupPath is empty'')
      else case df path of
             None \<Rightarrow> Inl (Err ''failed to execute command'')
           | Some output \<Rightarrow>
               (let s = trim_space output in
                if contains s ''cgroup2'' then Inr 2
                else if contains s ''tmpfs'' then Inr 1
                else Inl (Err ''unknown cgroup filesystem'')))"

fun first_path :: "(string \<Rightarrow> bool) \<Rightarrow> string \<Rightarrow> string list \<Rightarrow> string option" where
  "first_path exists_at dir [] = None"
| "first_path exists_at dir (f # fs) =
     (if exists_at (path_join [dir, f]) then Some (path_join [dir, f]) else first_path exists_at dir fs)"

definition getFinalPath :: "(string \<Rightarrow> bool) \<Rightarrow> string \<Rightarrow> string list \<Rightarrow> string result" where
  "getFinalPath exists_at dir candidates =
     (if dir = [] then Inl (Err ''rootPath is empty'')
      else if candidates = [] then Inl (Err ''target file list is empty'')
      else case first_path exists_at dir candidates of None \<Rightarrow> Inl (Err ''no target file found'') | Some p \<Rightarrow> Inr p)"

definition getCgroupSearchPath :: "(string \<Rightarrow> string option) \<Rightarrow> (string \<Rightarrow> bool) \<Rightarrow> string \<Rightarrow> string result" where
  "getCgroupSearchPath df exists_at mount =
     (if mount = [] then Inl (Err ''cgroupMountPath uninitialized'')
      else case checkCgroupVersion df mount of
             Inl e \<Rightarrow> Inl e
           | Inr version \<Rightarrow>
               getFinalPath exists_at (if version = 1 then path_join [mount, ''cpu,cpuacct''] else mount) [''kubepods'', ''kubepods.slice''])"

text \<open>The collector is its search path.\<close>

definition NewPSICollector :: "(string \<Rightarrow> string option) \<Rightarrow> (string \<Rightarrow> bool) \<Rightarrow> string \<Rightarrow> string result" where
  "NewPSICollector df exists_at mount =
     (if mount = [] then Inl (Err ''cgroupMountPath uninitialized'')
      else if \<not> exists_at mount then Inl (Err ''failed to stat cgroup mount path'')
      else getCgroupSearchPath df exists_at mount)"

section \<open>The pressure files\<close>

fun psi_pairs :: "string list \<Rightarrow> config_item \<Rightarrow> config_item result" where
  "psi_pairs [] m = Inr m"
| "psi_pairs (p # ps) m =
     (let pair = trim_space p in
      if pair = [] then psi_pairs ps m
      else case go_splitn2 ''='' pair of
             [k, v] \<Rightarrow>
               if k = [] \<or> v = [] then Inl (Err ''invalid key-value pair'')
               else (case strToFloat64 (trim_space v) False of
                       Inl e \<Rightarrow> Inl e
                     | Inr x \<Rightarrow> psi_pairs ps (AList.update (trim_space k) x m))
           | _ \<Rightarrow> Inl (Err ''invalid key-value pair''))"

definition parsePSILine :: "string \<Rightarrow> (string \<times> config_item) result" where
  "parsePSILine line =
     (case go_splitn2 '' '' line of
        [item, data] \<Rightarrow>
          if item = [] \<or> data = [] then Inl (Err ''invalid line format'')
          else (case psi_pairs (go_split '' '' data) [] of Inl e \<Rightarrow> Inl e | Inr m \<Rightarrow> Inr (item, m))
      | _ \<Rightarrow> Inl (Err ''invalid line format''))"

definition merge_item :: "string \<times> config_item \<Rightarrow> config_data \<Rightarrow> config_data" where
  "merge_item im d =
     (let old = (case map_of d (fst im) of None \<Rightarrow> [] | Some m \<Rightarrow> m)
      in AList.update (fst im) (fold (\<lambda>(k, v). AList.update k v) (snd im) old) d)"

fun psi_lines :: "string list \<Rightarrow> config_data \<Rightarrow> config_data result" where
  "psi_lines [] d = Inr d"
| "psi_lines (l # ls) d = (case parsePSILine l of Inl e \<Rightarrow> Inl e | Inr im \<Rightarrow> psi_lines ls (merge_item im d))"

definition getPSIData :: "string option \<Rightarrow> config_data result" where
  "getPSIData content =
     (case content of
        None \<Rightarrow> Inl (Err ''failed to open psi file'')
      | Some text \<Rightarrow>
          (case scan_lines text of
             (ls, all_read) \<Rightarrow>
               (case psi_lines ls [] of
                  Inl e \<Rightarrow> Inl e
                | Inr d \<Rightarrow> if all_read then Inr d else Inl (Err ''bufio.Scanner: token too long''))))"

section \<open>The samples\<close>

definition psi_name :: string where "psi_name = BuildFQName ''psi'' ''psi metrics''"

definition getPSICgroups :: "perf_os \<Rightarrow> string \<Rightarrow> (string, string) gomap result" where
  "getPSICgroups os searchPath =
     (case getAllTargetDirs (po_tree os searchPath) searchPath ''cpu.pressure'' False of
        Inl e \<Rightarrow> Inl e
      | Inr groups \<Rightarrow> if groups = [] then Inl (Err ''PSI cgroup is empty'') else Inr groups)"

definition getPSIMetric :: "perf_os \<Rightarrow> string \<Rightarrow> string \<Rightarrow> string \<Rightarrow> string \<Rightarrow> sample list result" where
  "getPSIMetric os searchPath name rel resource =
     (case getPSIData (po_read os (path_join [searchPath, rel, resource])) of
        Inl e \<Rightarrow> Inl e
      | Inr d \<Rightarrow>
          if d = [] then Inl (Err ''PSI cgroup resource data is empty'')
          else Inr (concat (map (\<lambda>(item, m). map (\<lambda>(key, v). (psi_name, v, [name, resource, item, key])) m) d)))"

fun common_files :: "perf_os \<Rightarrow> string \<Rightarrow> string \<Rightarrow> string \<Rightarrow> string list \<Rightarrow> sample list \<times> bool" where
  "common_files os searchPath name rel [] = ([], True)"
| "common_files os searchPath name rel (f # fs) =
     (case getPSIMetric os searchPath name rel f of
        Inl e \<Rightarrow> ([], False)
      | Inr ss \<Rightarrow> (case common_files os searchPath name rel fs of (ts, all_done) \<Rightarrow> (ss @ ts, all_done)))"

definition samples_if_ok :: "sample list result \<Rightarrow> sample list" where
  "samples_if_ok r = (case r of Inl e \<Rightarrow> [] | Inr ss \<Rightarrow> ss)"

text \<open>An error in a common file ends the group, an error in \<^verbatim>\<open>irq.pressure\<close> does not count.\<close>

definition updatePSIMetrics :: "perf_os \<Rightarrow> string \<Rightarrow> string \<times> string \<Rightarrow> sample list" where
  "updatePSIMetrics os searchPath g =
     (case common_files os searchPath (fst g) (snd g) [''cpu.pressure'', ''io.pressure'', ''memory.pressure''] of
        (ss, all_done) \<Rightarrow>
          ss @ (if all_done then samples_if_ok (getPSIMetric os searchPath (fst g) (snd g) ''irq.pressure'') else []))"

definition psi_Update :: "perf_os \<Rightarrow> string \<Rightarrow> sample list \<times> go_error option" where
  "psi_Update os searchPath =
     (case getPSICgroups os searchPath of
        Inl e \<Rightarrow> ([], Some e)
      | Inr groups \<Rightarrow> (concat (map (updatePSIMetrics os searchPath) groups), None))"

section \<open>No two samples alike\<close>

lemma merge_item_wf: "wf_config d \<Longrightarrow> wf_config (merge_item im d)"
proof -
  assume w: "wf_config d"
  have up: "wf_map m \<Longrightarrow> wf_map (fold (\<lambda>(k, v). AList.update k v) kvs m)" for kvs m :: config_item
    by (induction kvs arbitrary: m) (auto simp: case_prod_beta)
  let ?m = "case map_of d (fst im) of None \<Rightarrow> [] | Some m \<Rightarrow> m"
  have m: "wf_map ?m" using w by (auto simp: wf_config_def split: option.split dest: map_of_SomeD)
  have "set (AList.update item m' d) \<subseteq> insert (item, m') (set d)" for item m'
    by (induction d) auto
  with w up[OF m] show ?thesis unfolding wf_config_def merge_item_def Let_def by fastforce
qed

lemma psi_lines_wf: "psi_lines ls d = Inr d' \<Longrightarrow> wf_config d \<Longrightarrow> wf_config d'"
  by (induction ls arbitrary: d) (auto split: sum.splits intro: merge_item_wf)

lemma psi_data_wf: "getPSIData c = Inr d \<Longrightarrow> wf_config d"
  using psi_lines_wf[of _ "[]" d] by (auto simp: getPSIData_def split: option.splits prod.splits sum.splits if_splits)

definition in_resource :: "string \<Rightarrow> string \<Rightarrow> sample \<Rightarrow> bool" where
  "in_resource g r s \<longleftrightarrow> fst s = psi_name \<and> (\<exists>item key. snd (snd s) = [g, r, item, key])"

lemma psi_metric_samples:
  "getPSIMetric os sp g rel r = Inr ss \<Longrightarrow> keys_distinct ss \<and> (\<forall>s\<in>set ss. in_resource g r s)"
  by (auto simp: getPSIMetric_def in_resource_def psi_data_wf sample_key_def split: sum.splits if_splits
      intro!: config_rows_distinct[where ls = "[g, r]" and n = psi_name])

definition in_resources :: "string \<Rightarrow> string set \<Rightarrow> sample list \<Rightarrow> bool" where
  "in_resources g R ss \<longleftrightarrow> keys_distinct ss \<and> (\<forall>s\<in>set ss. \<exists>r\<in>R. in_resource g r s)"

lemma in_resources_append:
  assumes "in_resources g R ss" "in_resources g S ts" "R \<inter> S = {}"
  shows "in_resources g (R \<union> S) (ss @ ts)"
proof -
  have "sample_key s \<noteq> sample_key t" if "s \<in> set ss" "t \<in> set ts" for s t
    using assms that by (fastforce simp: in_resources_def in_resource_def sample_key_def)
  then have "keys_distinct (ss @ ts)"
    using assms(1,2) unfolding in_resources_def keys_distinct_def by (intro distinct_map_append) blast+
  with assms show ?thesis by (auto simp: in_resources_def)
qed

lemma in_resources_group:
  "in_resources g R ss \<Longrightarrow> keys_distinct ss \<and> (\<forall>s\<in>set ss. fst s = psi_name \<and> in_group g s)"
proof -
  have "in_resource g r s \<Longrightarrow> fst s = psi_name \<and> in_group g s" for r s
    by (auto simp: in_resource_def in_group_def)
  then show "in_resources g R ss \<Longrightarrow> keys_distinct ss \<and> (\<forall>s\<in>set ss. fst s = psi_name \<and> in_group g s)"
    unfolding in_resources_def by blast
qed

lemma common_files_samples:
  "distinct fs \<Longrightarrow> in_resources g (set fs) (fst (common_files os sp g rel fs))"
proof (induction fs)
  case (Cons f fs)
  obtain ts b where r: "common_files os sp g rel fs = (ts, b)" by (cases "common_files os sp g rel fs")
  show ?case
  proof (cases "getPSIMetric os sp g rel f")
    case (Inl e)
    then show ?thesis by (simp add: in_resources_def)
  next
    case (Inr ss)
    have "in_resources g {f} ss" using psi_metric_samples[OF Inr] by (simp add: in_resources_def)
    moreover have "in_resources g (set fs) ts" using Cons r by simp
    ultimately have "in_resources g ({f} \<union> set fs) (ss @ ts)" using Cons.prems by (intro in_resources_append) auto
    then show ?thesis by (simp add: Inr r)
  qed
qed (simp add: in_resources_def)

lemma psi_group_samples:
  "keys_distinct (updatePSIMetrics os sp g) \<and> (\<forall>s\<in>set (updatePSIMetrics os sp g). fst s = psi_name \<and> in_group (fst g) s)"
proof -
  let ?fs = "[''cpu.pressure'', ''io.pressure'', ''memory.pressure'']"
  obtain ss b where c: "common_files os sp (fst g) (snd g) ?fs = (ss, b)" by (cases "common_files os sp (fst g) (snd g) ?fs")
  have s: "in_resources (fst g) (set ?fs) ss"
    using common_files_samples[of ?fs "fst g" os sp "snd g"] c by simp
  let ?t = "if b then samples_if_ok (getPSIMetric os sp (fst g) (snd g) ''irq.pressure'') else []"
  have "in_resources (fst g) {''irq.pressure''} ?t"
    using psi_metric_samples[of os sp "fst g" "snd g" "''irq.pressure''"]
    by (auto simp: samples_if_ok_def in_resources_def split: sum.split)
  with s have "in_resources (fst g) (set ?fs \<union> {''irq.pressure''}) (ss @ ?t)" by (intro in_resources_append) auto
  then have "keys_distinct (ss @ ?t) \<and> (\<forall>s\<in>set (ss @ ?t). fst s = psi_name \<and> in_group (fst g) s)" by (rule in_resources_group)
  moreover have "updatePSIMetrics os sp g = ss @ ?t" unfolding updatePSIMetrics_def c by simp
  ultimately show ?thesis by metis
qed

lemma psi_update_distinct:
  "keys_distinct (fst (psi_Update os sp)) \<and> names_of (fst (psi_Update os sp)) \<subseteq> {psi_name}"
proof (cases "getPSICgroups os sp")
  case (Inl e)
  then show ?thesis by (simp add: psi_Update_def)
next
  case (Inr groups)
  then have "wf_map groups" by (auto simp: getPSICgroups_def split: sum.splits if_splits dest: target_dirs_wf)
  then have d: "distinct (map fst groups)" by (simp add: wf_map_def)
  have "keys_distinct (concat (map (updatePSIMetrics os sp) groups))"
    by (rule keys_distinct_rows[where h = hd, OF d]) (use psi_group_samples in \<open>auto simp: in_group_def\<close>)
  moreover have "names_of (concat (map (updatePSIMetrics os sp) groups)) \<subseteq> {psi_name}"
    by (rule names_of_concat) (use psi_group_samples in \<open>auto simp: names_of_def\<close>)
  ultimately show ?thesis by (simp add: psi_Update_def Inr)
qed

end
