(* ===== verification/PsiOk.thy ===== *)
theory PsiOk
  imports PsiCollector
begin

text \<open>
  What the PSI collector promises: it reads back what the kernel prints, and its search finds, for every name, the last
  directory of that name; so two cgroups of one name count as one.
\<close>

section \<open>The kernel's text\<close>

text \<open>A line of a pressure file: three averages in hundredths of a percent and a total in microseconds.\<close>

definition psi_percent :: "int \<Rightarrow> string" where
  "psi_percent h = itoa (h div 100) @ ''.'' @ [digit_char (h mod 100 div 10), digit_char (h mod 10)]"

record psi_stats =
  ps_avg10 :: int
  ps_avg60 :: int
  ps_avg300 :: int
  ps_total :: int

definition psi_fields :: "psi_stats \<Rightarrow> (string \<times> string) list" where
  "psi_fields p =
     [(''avg10'', psi_percent (ps_avg10 p)), (''avg60'', psi_percent (ps_avg60 p)), (''avg300'', psi_percent (ps_avg300 p)),
      (''total'', itoa (ps_total p))]"

definition psi_line :: "string \<Rightarrow> psi_stats \<Rightarrow> string" where
  "psi_line item p = go_join '' '' (item # map (\<lambda>(k, v). k @ ''='' @ v) (psi_fields p))"

definition psi_text :: "psi_stats \<Rightarrow> psi_stats \<Rightarrow> string" where
  "psi_text p q = psi_line ''some'' p @ [CHR 0x0A] @ psi_line ''full'' q @ [CHR 0x0A]"

definition psi_in_range :: "psi_stats \<Rightarrow> bool" where
  "psi_in_range p \<longleftrightarrow> list_all (\<lambda>n. 0 \<le> n \<and> n < 2 ^ 63) [ps_avg10 p, ps_avg60 p, ps_avg300 p, ps_total p]"

text \<open>What a reader should see: each number as the \<open>float64\<close> nearest to it.\<close>

definition psi_values :: "psi_stats \<Rightarrow> config_item" where
  "psi_values p =
     [(''avg10'', Fin (the (f64_nearest (of_int (ps_avg10 p) / 100)))), (''avg60'', Fin (the (f64_nearest (of_int (ps_avg60 p) / 100)))),
      (''avg300'', Fin (the (f64_nearest (of_int (ps_avg300 p) / 100)))), (''total'', Fin (the (f64_nearest (of_int (ps_total p)))))]"

lemma psi_percent_digits:
  assumes "0 \<le> h"
  shows "parse_digits 0 (itoa (h div 100) @ [digit_char (h mod 100 div 10), digit_char (h mod 10)]) = Some h"
    "\<forall>c\<in>set (itoa (h div 100)). is_digit c" "\<forall>c\<in>set [digit_char (h mod 100 div 10), digit_char (h mod 10)]. is_digit c"
proof -
  have q: "0 \<le> h div 100" using assms by simp
  then show d: "\<forall>c\<in>set (itoa (h div 100)). is_digit c" using itoa_nonneg_chars by blast
  have m: "0 \<le> h mod 100 div 10" "h mod 100 div 10 < 10" "0 \<le> h mod 10" "h mod 10 < 10" by simp_all
  then show "\<forall>c\<in>set [digit_char (h mod 100 div 10), digit_char (h mod 10)]. is_digit c"
    by (simp add: digit_char_is_digit)
  have "parse_digits 0 (itoa (h div 100)) = Some (h div 100)" using q by (simp add: itoa_def parse_digits_of)
  then have a: "parse_digits 0 (itoa (h div 100) @ [digit_char (h mod 100 div 10), digit_char (h mod 10)]) =
      Some (10 * (10 * (h div 100) + h mod 100 div 10) + h mod 10)"
    using m by (simp add: parse_digits_append)
  have b: "10 * (10 * (h div 100) + h mod 100 div 10) + h mod 10 = h"
  proof -
    have "100 * (h div 100) + h mod 100 = h" "10 * (h mod 100 div 10) + h mod 100 mod 10 = h mod 100" by (rule mult_div_mod_eq)+
    moreover have "h mod 100 mod 10 = h mod 10" by (rule mod_mod_cancel) simp
    moreover have "100 * q + r = h \<Longrightarrow> 10 * d + m = r \<Longrightarrow> m = n \<Longrightarrow> 10 * (10 * q + d) + n = h" for q r d m n :: int by simp
    ultimately show ?thesis by blast
  qed
  show "parse_digits 0 (itoa (h div 100) @ [digit_char (h mod 100 div 10), digit_char (h mod 10)]) = Some h"
    using a unfolding b .
qed

lemma psi_percent_read:
  assumes "0 \<le> h" "h < 2 ^ 63"
  shows "strToFloat64 (trim_space (psi_percent h)) False = Inr (Fin (the (f64_nearest (of_int h / 100))))"
proof -
  note d = psi_percent_digits[OF assms(1)]
  have "is_digit c \<Longrightarrow> \<not> is_space c" for c by (rule is_digit_not_space)
  moreover have "\<not> is_space CHR ''.''" by (simp add: is_space_def)
  ultimately have "\<forall>c\<in>set (psi_percent h). \<not> is_space c" using d(2,3) by (auto simp: psi_percent_def)
  then have t: "trim_space (psi_percent h) = psi_percent h" by (rule trim_space_no_space)
  have "ParseFloat (psi_percent h) = map_option Fin (f64_nearest (of_int h / 10 ^ 2))"
    using parse_float_decimal[OF d(2,3) _ d(1)] by (simp add: psi_percent_def)
  moreover have "of_int h < (of_int (2 ^ 63) :: rat)" using assms(2) by (simp only: of_int_less_iff)
  then have "of_int h / 100 < (2 ^ 64 :: rat)" by simp
  then obtain y where "f64_nearest (of_int h / 100) = Some y" using f64_nearest_Some[of "of_int h / 100"] assms(1) by auto
  moreover have "psi_percent h \<noteq> []" by (simp add: psi_percent_def)
  ultimately show ?thesis by (simp add: strToFloat64_def t)
qed

lemma psi_total_read:
  assumes "0 \<le> n" "n < 2 ^ 63"
  shows "strToFloat64 (trim_space (itoa n)) False = Inr (Fin (the (f64_nearest (of_int n))))"
proof -
  have d: "\<forall>c\<in>set (itoa n). is_digit c" using itoa_nonneg_chars[OF assms(1)] by blast
  have "ParseFloat (itoa n) = map_option Fin (f64_nearest (of_int n))"
    using assms(1) by (intro parse_float_integer d) (simp_all add: itoa_def parse_digits_of)
  moreover have "of_int n < (of_int (2 ^ 63) :: rat)" using assms(2) by (simp only: of_int_less_iff)
  then have "of_int n < (2 ^ 64 :: rat)" by simp
  then obtain y where "f64_nearest (of_int n) = Some y" using f64_nearest_Some[of "of_int n"] assms(1) by auto
  ultimately show ?thesis by (simp add: strToFloat64_def)
qed

definition field_ok :: "string \<times> string \<Rightarrow> string \<times> f64 \<Rightarrow> bool" where
  "field_ok f v \<longleftrightarrow> fst v = fst f \<and> fst f \<noteq> [] \<and> snd f \<noteq> [] \<and> (\<forall>c\<in>set (fst f). \<not> is_space c \<and> c \<noteq> CHR ''='') \<and>
     (\<forall>c\<in>set (snd f). \<not> is_space c) \<and> strToFloat64 (trim_space (snd f)) False = Inr (snd v)"

lemma psi_pairs_read:
  assumes "list_all2 field_ok fs vs" "distinct (map fst fs)" "set (map fst fs) \<inter> fst ` set m = {}"
  shows "psi_pairs (map (\<lambda>(k, s). k @ ''='' @ s) fs) m = Inr (m @ vs)"
  using assms
proof (induction fs arbitrary: vs m)
  case (Cons f fs)
  obtain k s where f: "f = (k, s)" by (cases f)
  from Cons.prems(1) obtain v vs' where vs: "vs = v # vs'" "field_ok f v" "list_all2 field_ok fs vs'"
    by (auto simp: list_all2_Cons1)
  obtain k' x where v: "v = (k', x)" by (cases v)
  have a: "k' = k" "k \<noteq> []" "s \<noteq> []" "\<forall>c\<in>set k. \<not> is_space c \<and> c \<noteq> CHR ''=''" "\<forall>c\<in>set s. \<not> is_space c"
    "strToFloat64 (trim_space s) False = Inr x"
    using vs(2) by (simp_all add: f v field_ok_def)
  have "\<not> is_space CHR ''=''" by (simp add: is_space_def)
  then have "\<forall>c\<in>set (k @ ''='' @ s). \<not> is_space c" using a by auto
  then have t: "trim_space (k @ ''='' @ s) = k @ ''='' @ s" by (rule trim_space_no_space)
  have "CHR ''='' \<notin> set k" using a(4) by blast
  from go_cut_char_app[OF this, of s] have c: "go_splitn2 ''='' (k @ ''='' @ s) = [k, s]" by (simp add: go_splitn2_def)
  have tk: "trim_space k = k" using a(4) by (intro trim_space_no_space) blast
  have fresh: "k \<notin> fst ` set m" using Cons.prems(3) by (auto simp: f)
  have "AList.update k x m = m @ [v]" using fresh by (induction m) (auto simp: v a(1))
  moreover have "psi_pairs (map (\<lambda>(k, s). k @ ''='' @ s) fs) (m @ [v]) = Inr ((m @ [v]) @ vs')"
    by (rule Cons.IH[OF vs(3)]) (use Cons.prems in \<open>auto simp: f v a(1)\<close>)
  moreover have "k @ ''='' @ s \<noteq> []" by simp
  ultimately show ?case
    unfolding f vs(1) list.map prod.case psi_pairs.simps Let_def t c list.case tk a(6) sum.case
    using a(2,3) by simp
qed simp

lemma psi_line_read:
  assumes "psi_in_range p" "item \<noteq> []" "CHR '' '' \<notin> set item"
  shows "parsePSILine (psi_line item p) = Inr (item, psi_values p)"
proof -
  have r: "0 \<le> ps_avg10 p" "ps_avg10 p < 2 ^ 63" "0 \<le> ps_avg60 p" "ps_avg60 p < 2 ^ 63"
    "0 \<le> ps_avg300 p" "ps_avg300 p < 2 ^ 63" "0 \<le> ps_total p" "ps_total p < 2 ^ 63"
    using assms(1) by (simp_all add: psi_in_range_def)
  have ns: "\<forall>c\<in>set (psi_percent h). \<not> is_space c" "psi_percent h \<noteq> []" if "0 \<le> h" for h
  proof -
    have "\<not> is_space CHR ''.''" by (simp add: is_space_def)
    then show "\<forall>c\<in>set (psi_percent h). \<not> is_space c"
      using psi_percent_digits[OF that] is_digit_not_space by (auto simp: psi_percent_def)
  qed (simp add: psi_percent_def)
  have nt: "\<forall>c\<in>set (itoa n). \<not> is_space c" if "0 \<le> n" for n
    using itoa_nonneg_chars[OF that] is_digit_not_space by blast
  have keys: "\<forall>c\<in>set k. \<not> is_space c \<and> c \<noteq> CHR ''=''" if "k \<in> {''avg10'', ''avg60'', ''avg300'', ''total''}" for k
    using that by (elim insertE emptyE; simp add: is_space_def)
  have f1: "field_ok (k, psi_percent h) (k, Fin (the (f64_nearest (of_int h / 100))))"
    if "k \<in> {''avg10'', ''avg60'', ''avg300'', ''total''}" "0 \<le> h" "h < 2 ^ 63" for k h
    using keys[OF that(1)] ns[OF that(2)] psi_percent_read[OF that(2,3)] that(1) by (auto simp: field_ok_def)
  have f2: "field_ok (k, itoa n) (k, Fin (the (f64_nearest (of_int n))))"
    if "k \<in> {''avg10'', ''avg60'', ''avg300'', ''total''}" "0 \<le> n" "n < 2 ^ 63" for k n
    using keys[OF that(1)] nt[OF that(2)] psi_total_read[OF that(2,3)] that(1) by (auto simp: field_ok_def)
  have fields: "list_all2 field_ok (psi_fields p) (psi_values p)"
    unfolding psi_fields_def psi_values_def list.rel_inject by (intro conjI f1 f2 r list.rel_intros(1)) simp_all
  have dist: "distinct (map fst (psi_fields p))" by (simp add: psi_fields_def)
  let ?l = "map (\<lambda>(k, v). k @ ''='' @ v) (psi_fields p)"
  have pairs: "psi_pairs ?l [] = Inr (psi_values p)"
    using psi_pairs_read[OF fields dist, of "[]"] by simp
  have nb: "\<forall>x\<in>set ?l. CHR '' '' \<notin> set x"
  proof -
    have s: "is_space CHR '' ''" by (simp add: is_space_def)
    have "CHR '' '' \<notin> set (psi_percent h)" if "0 \<le> h" for h using ns(1)[OF that] s by blast
    moreover have "CHR '' '' \<notin> set (itoa n)" if "0 \<le> n" for n using nt[OF that] s by blast
    ultimately show ?thesis using r by (simp add: psi_fields_def)
  qed
  have ne: "?l \<noteq> []" by (simp add: psi_fields_def)
  then have line: "psi_line item p = item @ CHR '' '' # go_join '' '' ?l"
    unfolding psi_line_def by (simp add: go_join_Cons)
  have c: "go_splitn2 '' '' (psi_line item p) = [item, go_join '' '' ?l]"
    unfolding go_splitn2_def line go_cut_char_app[OF assms(3)] by simp
  have j: "go_split '' '' (go_join '' '' ?l) = ?l" by (rule go_split_join_char[OF ne nb])
  have "go_join '' '' ?l \<noteq> []" by (simp add: psi_fields_def)
  then show ?thesis unfolding parsePSILine_def c list.case j pairs using assms(2) by simp
qed

lemma digits_of_length: "0 \<le> n \<Longrightarrow> n < 10 ^ Suc k \<Longrightarrow> length (digits_of n) \<le> Suc k"
proof (induction k arbitrary: n)
  case 0
  then show ?case by (simp add: digits_of.simps[of n])
next
  case (Suc k)
  show ?case
  proof (cases "n < 10")
    case True
    then show ?thesis by (simp add: digits_of.simps[of n])
  next
    case False
    have "n div 10 < 10 ^ Suc k" using Suc.prems(2) by (simp add: div_less_iff_less_mult)
    with Suc.IH[of "n div 10"] Suc.prems(1) False show ?thesis by (simp add: digits_of.simps[of n])
  qed
qed

lemma psi_line_length:
  assumes "psi_in_range p"
  shows "length (psi_line item p) \<le> length item + 200"
proof -
  have d: "length (itoa n) \<le> 19" if "0 \<le> n" "n < 2 ^ 63" for n
    using digits_of_length[OF that(1), of 18] that by (simp add: itoa_def)
  have q: "length (psi_percent n) \<le> 22" if "0 \<le> n" "n < 2 ^ 63" for n
  proof -
    have "0 \<le> n div 100" "n div 100 < 2 ^ 63" using that by simp_all
    from d[OF this] show ?thesis by (simp add: psi_percent_def)
  qed
  have r: "0 \<le> ps_avg10 p" "ps_avg10 p < 2 ^ 63" "0 \<le> ps_avg60 p" "ps_avg60 p < 2 ^ 63"
    "0 \<le> ps_avg300 p" "ps_avg300 p < 2 ^ 63" "0 \<le> ps_total p" "ps_total p < 2 ^ 63"
    using assms by (simp_all add: psi_in_range_def)
  show ?thesis using q[OF r(1,2)] q[OF r(3,4)] q[OF r(5,6)] d[OF r(7,8)] by (simp add: psi_line_def psi_fields_def)
qed

lemma psi_line_plain:
  assumes "psi_in_range p" "\<forall>c\<in>set item. c \<noteq> CHR 0x0A \<and> c \<noteq> CHR 0x0D"
  shows "\<forall>c\<in>set (psi_line item p). c \<noteq> CHR 0x0A \<and> c \<noteq> CHR 0x0D"
proof -
  have d: "\<not> is_digit CHR 0x0A" "\<not> is_digit CHR 0x0D" by (simp_all add: is_digit_def)
  have i: "\<forall>c\<in>set (itoa n). c \<noteq> CHR 0x0A \<and> c \<noteq> CHR 0x0D" if "0 \<le> n" for n
    using itoa_nonneg_chars[OF that] d by blast
  have q: "\<forall>c\<in>set (psi_percent n). c \<noteq> CHR 0x0A \<and> c \<noteq> CHR 0x0D" if "0 \<le> n" for n
  proof -
    have "\<forall>c\<in>set (psi_percent n). is_digit c \<or> c = CHR ''.''"
      using psi_percent_digits(2,3)[OF that] by (auto simp: psi_percent_def)
    moreover have "CHR ''.'' \<noteq> CHR 0x0A" "CHR ''.'' \<noteq> CHR 0x0D" by simp_all
    ultimately show ?thesis using d by blast
  qed
  have r: "0 \<le> ps_avg10 p" "0 \<le> ps_avg60 p" "0 \<le> ps_avg300 p" "0 \<le> ps_total p"
    using assms by (simp_all add: psi_in_range_def)
  show ?thesis using assms(2) i[OF r(4)] q[OF r(1)] q[OF r(2)] q[OF r(3)] by (simp add: psi_line_def psi_fields_def ball_Un)
qed



section \<open>The search\<close>

text \<open>The directories that hold an entry of the wanted name and kind, in the order of the walk.\<close>

fun group_dirs :: "string \<Rightarrow> bool \<Rightarrow> string \<Rightarrow> fs_entry \<Rightarrow> string list" where
  "group_dirs T isDir path (FileE n) = (if \<not> isDir \<and> n = T then [path_dir path] else [])"
| "group_dirs T isDir path (DirE n readable es) =
     (if isDir \<and> n = T then [path_dir path] else []) @
     (if readable then concat (map (\<lambda>e. group_dirs T isDir (path_join [path, entry_name e]) e) es) else [])"

lemma path_rel_rooted: "is_rooted a \<Longrightarrow> is_rooted b \<Longrightarrow> \<exists>r. path_rel a b = Some r"
proof -
  assume r: "is_rooted a" "is_rooted b"
  have "list_all plain_comp (clean_comps (path_clean a))" using r(1) by (intro clean_comps_rooted) simp
  moreover have "list_all P bs \<Longrightarrow> list_all P (fst (strip_common bs ts))" for P and bs ts :: "string list"
    by (induction bs ts rule: strip_common.induct) auto
  ultimately have "list_all plain_comp (fst (strip_common (clean_comps (path_clean a)) (clean_comps (path_clean b))))" by blast
  then have nd: "x \<noteq> ''..''" if "fst (strip_common (clean_comps (path_clean a)) (clean_comps (path_clean b))) = x # xs" for x xs
    using that by (auto simp: plain_comp_def)
  obtain bs ts where st: "strip_common (clean_comps (path_clean a)) (clean_comps (path_clean b)) = (bs, ts)"
    by (cases "strip_common (clean_comps (path_clean a)) (clean_comps (path_clean b))")
  have ab: "is_rooted (path_clean a) = is_rooted (path_clean b)" using r by simp
  show ?thesis
  proof (cases bs)
    case Nil
    then show ?thesis unfolding path_rel_def Let_def st using ab by simp
  next
    case (Cons x xs)
    then have "x \<noteq> ''..''" using nd[of x xs] unfolding st by simp
    then show ?thesis unfolding path_rel_def Let_def st using ab Cons by simp
  qed
qed

lemma rooted_dir: "is_rooted s \<Longrightarrow> is_rooted (path_dir s)"
proof -
  assume "is_rooted s"
  then obtain t where s: "s = CHR ''/'' # t" by (cases s) (auto simp: is_rooted_def has_prefix_def)
  let ?r = "rev (dropWhile (\<lambda>c. c \<noteq> CHR ''/'') (rev s))"
  have "\<exists>u. dropWhile (\<lambda>c. c \<noteq> CHR ''/'') (xs @ [CHR ''/'']) = u @ [CHR ''/'']" for xs
    by (induction xs) auto
  then obtain u where "dropWhile (\<lambda>c. c \<noteq> CHR ''/'') (rev t @ [CHR ''/'']) = u @ [CHR ''/'']" by blast
  then have "?r = CHR ''/'' # rev u" by (simp add: s)
  then have "is_rooted ?r" by (simp add: is_rooted_def has_prefix_def)
  then show ?thesis by (simp add: path_dir_def)
qed

lemma rooted_join: "is_rooted a \<Longrightarrow> is_rooted (path_join [a, b])"
proof -
  assume a: "is_rooted a"
  then have "is_rooted (a @ CHR ''/'' # b)" by (cases a) (simp_all add: is_rooted_def has_prefix_def)
  with a show ?thesis by (simp add: path_join_rooted)
qed

definition note_group :: "string \<Rightarrow> string \<Rightarrow> (string, string) gomap \<Rightarrow> (string, string) gomap" where
  "note_group base p = AList.update (path_base p) (the (path_rel base p))"

lemma walk_notes:
  "is_rooted base \<Longrightarrow> is_rooted path \<Longrightarrow> walk_dir base T b path d dirs = (fold (note_group base) (group_dirs T b path d) dirs, False)"
  "is_rooted base \<Longrightarrow> is_rooted path \<Longrightarrow> walk_entries base T b path es dirs =
     fold (note_group base) (concat (map (\<lambda>e. group_dirs T b (path_join [path, entry_name e]) e) es)) dirs"
proof (induction base T b path d dirs and base T b path es dirs rule: walk_dir_walk_entries.induct)
  case (1 base T b path n dirs)
  with path_rel_rooted[OF 1(1) rooted_dir[OF 1(2)]] show ?case
    by (auto simp: visit_entry_def Let_def note_group_def)
next
  case (2 base T b path n readable es dirs)
  have v: "visit_entry base T b path (DirE n readable es) dirs =
      (fold (note_group base) (if b \<and> n = T then [path_dir path] else []) dirs, False)"
    using path_rel_rooted[OF 2(2) rooted_dir[OF 2(3)]] by (auto simp: visit_entry_def Let_def note_group_def)
  show ?case using 2(1)[OF v[symmetric]] 2(2,3) by (simp add: v)
next
  case (4 base T b path e es dirs)
  have w: "walk_dir base T b (path_join [path, entry_name e]) e dirs =
      (fold (note_group base) (group_dirs T b (path_join [path, entry_name e]) e) dirs, False)"
    by (rule 4(1)[OF 4(3) rooted_join[OF 4(4)]])
  show ?case using 4(2)[OF w[symmetric]] 4(3,4) by (simp add: w)
qed simp

lemma map_of_notes:
  "map_of (fold (note_group base) ps dirs) n =
     (let same = filter (\<lambda>p. path_base p = n) ps in if same = [] then map_of dirs n else Some (the (path_rel base (last same))))"
proof (induction ps arbitrary: dirs)
  case (Cons p ps)
  then show ?case by (auto simp: note_group_def Let_def)
qed simp

text \<open>C39. The collectors find a group under a name exactly if some directory of that name has the file (or directory) they look for,
  and of several directories of one name only the last one in the walk: the others are not reported.\<close>

theorem groups_by_last_name:
  assumes "is_rooted mount" "getAllTargetDirs (Some d) mount T isDir = Inr groups"
  shows "map_of groups n =
    (let same = filter (\<lambda>p. path_base p = n) (group_dirs T isDir mount d) in if same = [] then None else path_rel mount (last same))"
proof -
  have g: "groups = fold (note_group mount) (group_dirs T isDir mount d) []"
    using assms walk_notes(1)[OF assms(1) assms(1)] by (simp add: getAllTargetDirs_def)
  have rooted: "\<forall>p\<in>set (group_dirs T isDir path e). is_rooted p" if "is_rooted path" for path e
    using that by (induction T isDir path e rule: group_dirs.induct) (auto intro: rooted_dir rooted_join)
  show ?thesis
  proof (cases "filter (\<lambda>p. path_base p = n) (group_dirs T isDir mount d) = []")
    case False
    then have "last (filter (\<lambda>p. path_base p = n) (group_dirs T isDir mount d)) \<in> set (group_dirs T isDir mount d)"
      by (metis filter_is_subset last_in_set subsetD)
    then have "is_rooted (last (filter (\<lambda>p. path_base p = n) (group_dirs T isDir mount d)))" using rooted[OF assms(1)] by blast
    from path_rel_rooted[OF assms(1) this] False show ?thesis unfolding g map_of_notes Let_def by auto
  qed (simp add: g map_of_notes)
qed

text \<open>Two pods that run \<^verbatim>\<open>systemd\<close> each have a cgroup \<^verbatim>\<open>init.scope\<close> below their own.\<close>

definition demo_cgroups :: fs_entry where
  "demo_cgroups = DirE ''kubepods'' True
     [FileE ''cpu.pressure'',
      DirE ''pod1'' True [FileE ''cpu.pressure'', DirE ''init.scope'' True [FileE ''cpu.pressure'']],
      DirE ''pod2'' True [FileE ''cpu.pressure'', DirE ''init.scope'' True [FileE ''cpu.pressure'']]]"

theorem groups_by_last_name_witness:
  "\<exists>groups. getAllTargetDirs (Some demo_cgroups) ''/sys/kubepods'' ''cpu.pressure'' False = Inr groups \<and>
     map_of groups ''pod1'' = Some ''pod1'' \<and> map_of groups ''init.scope'' = Some ''pod2/init.scope''"
proof -
  obtain groups where g: "getAllTargetDirs (Some demo_cgroups) ''/sys/kubepods'' ''cpu.pressure'' False = Inr groups"
    by (simp add: getAllTargetDirs_def)
  have r: "is_rooted ''/sys/kubepods''" by code_simp
  have dirs: "group_dirs ''cpu.pressure'' False ''/sys/kubepods'' demo_cgroups =
      [''/sys/kubepods'', ''/sys/kubepods/pod1'', ''/sys/kubepods/pod1/init.scope'', ''/sys/kubepods/pod2'', ''/sys/kubepods/pod2/init.scope'']"
    by code_simp
  have f: "filter (\<lambda>p. path_base p = ''pod1'') (group_dirs ''cpu.pressure'' False ''/sys/kubepods'' demo_cgroups) = [''/sys/kubepods/pod1'']"
    "filter (\<lambda>p. path_base p = ''init.scope'') (group_dirs ''cpu.pressure'' False ''/sys/kubepods'' demo_cgroups) =
      [''/sys/kubepods/pod1/init.scope'', ''/sys/kubepods/pod2/init.scope'']"
    unfolding dirs by code_simp+
  have p: "path_rel ''/sys/kubepods'' ''/sys/kubepods/pod1'' = Some ''pod1''"
    "path_rel ''/sys/kubepods'' ''/sys/kubepods/pod2/init.scope'' = Some ''pod2/init.scope''" by code_simp+
  show ?thesis using g groups_by_last_name[OF r g, of "''pod1''"] groups_by_last_name[OF r g, of "''init.scope''"] by (simp add: f p)
qed

end
