(* ===== verification/PmuCollector.thy ===== *)
theory PmuCollector
  imports DevkitPublish
begin

text \<open>
  The PMU collector (\<^verbatim>\<open>pkg/kunpeng-perf-monitor/collector/pmu.go\<close>) over the calls of the binding that it makes
  (\<^verbatim>\<open>libkperf/kperf/kperf.go\<close>). The C library is what its calls answer: a task number, return codes, the length of
  what was read and the metrics. A round is the list of the calls it makes into the library, in their order, with its
  result, so what is opened and freed can be read off.
\<close>

section \<open>The binding\<close>

datatype pmu_metric = HhaCrossNuma | HhaCrossSocket | OtherMetric int
datatype metric_mode = PerNuma int | OtherMode

record c_device =
  cd_metric :: pmu_metric
  cd_count :: f64
  cd_mode :: metric_mode

record pmu_device =
  pd_metric :: pmu_metric
  pd_count :: f64
  pd_numa :: int

record c_answers =
  ca_open :: int
  ca_enable :: int
  ca_disable :: int
  ca_read :: int
  ca_metric :: "c_device list option"

datatype c_call =
  COpen "pmu_metric list" | CEnable int | CDisable int | CRead int | CGetMetric "pmu_metric list"
  | CDataFree | CClose int | CDevDataFree bool

definition kperf_PmuDeviceOpen :: "c_answers \<Rightarrow> pmu_metric list \<Rightarrow> c_call list \<times> int result" where
  "kperf_PmuDeviceOpen a attrs = ([COpen attrs], if ca_open a = -1 then Inl (Err ''Perror'') else Inr (ca_open a))"

definition kperf_PmuEnable :: "c_answers \<Rightarrow> int \<Rightarrow> c_call list \<times> unit result" where
  "kperf_PmuEnable a fd = ([CEnable fd], if ca_enable a \<noteq> 0 then Inl (Err ''Perror'') else Inr ())"

definition kperf_PmuDisable :: "c_answers \<Rightarrow> int \<Rightarrow> c_call list \<times> unit result" where
  "kperf_PmuDisable a fd = ([CDisable fd], if ca_disable a \<noteq> 0 then Inl (Err ''Perror'') else Inr ())"

definition kperf_PmuRead :: "c_answers \<Rightarrow> int \<Rightarrow> c_call list \<times> unit result" where
  "kperf_PmuRead a fd =
     ([CRead fd],
      if ca_read a = 0 then Inl (Err ''PmuData is empty'') else if ca_read a = -1 then Inl (Err ''Perror'') else Inr ())"

text \<open>The NUMA node is set only for a metric that is counted by node.\<close>

definition go_device :: "c_device \<Rightarrow> pmu_device" where
  "go_device d =
     \<lparr>pd_metric = cd_metric d, pd_count = cd_count d, pd_numa = (case cd_mode d of PerNuma n \<Rightarrow> n | OtherMode \<Rightarrow> 0)\<rparr>"

definition kperf_PmuGetDevMetric :: "c_answers \<Rightarrow> pmu_metric list \<Rightarrow> c_call list \<times> pmu_device list result" where
  "kperf_PmuGetDevMetric a attrs =
     ([CGetMetric attrs], case ca_metric a of None \<Rightarrow> Inl (Err ''Perror'') | Some ds \<Rightarrow> Inr (map go_device ds))"

text \<open>A task number that is not positive is not passed on.\<close>

definition kperf_PmuClose :: "int \<Rightarrow> c_call list" where
  "kperf_PmuClose fd = (if fd \<le> 0 then [] else [CClose fd])"

section \<open>A round\<close>

definition hha_attrs :: "pmu_metric list" where
  "hha_attrs = [HhaCrossNuma, HhaCrossSocket]"

text \<open>The deferred close of the task, which runs on every return after a successful open.\<close>

definition close_task :: "int \<Rightarrow> c_call list" where
  "close_task fd = (if fd \<noteq> -1 then kperf_PmuClose fd else [])"

definition read_metrics :: "c_answers \<Rightarrow> int \<Rightarrow> c_call list \<times> pmu_device list result" where
  "read_metrics a fd =
     (case kperf_PmuEnable a fd of
        (cs1, Inl e) \<Rightarrow> (cs1, Inl e)
      | (cs1, Inr _) \<Rightarrow>
          (case kperf_PmuDisable a fd of
             (cs2, Inl e) \<Rightarrow> (cs1 @ cs2, Inl e)
           | (cs2, Inr _) \<Rightarrow>
               (case kperf_PmuRead a fd of
                  (cs3, Inl e) \<Rightarrow> (cs1 @ cs2 @ cs3, Inl e)
                | (cs3, Inr _) \<Rightarrow>
                    (case kperf_PmuGetDevMetric a hha_attrs of (cs4, r) \<Rightarrow> (cs1 @ cs2 @ cs3 @ cs4 @ [CDataFree], r)))))"

definition getHHACrossNumaAndSocketData :: "c_answers \<Rightarrow> c_call list \<times> pmu_device list result" where
  "getHHACrossNumaAndSocketData a =
     (case kperf_PmuDeviceOpen a hha_attrs of
        (cs, Inl e) \<Rightarrow> (cs, Inl e)
      | (cs, Inr fd) \<Rightarrow> (case read_metrics a fd of (cs', r) \<Rightarrow> (cs @ cs' @ close_task fd, r)))"

definition pmu_name :: "string \<Rightarrow> string" where "pmu_name n = BuildFQName ''pmu'' n"

definition pmu_samples :: "pmu_device \<Rightarrow> sample list" where
  "pmu_samples d =
     (if pd_metric d = HhaCrossNuma then [(pmu_name ''HHA_cross_numa_operations_ratio'', pd_count d, [itoa (pd_numa d)])] else []) @
     (if pd_metric d = HhaCrossSocket then [(pmu_name ''HHA_cross_socket_operations_ratio'', pd_count d, [itoa (pd_numa d)])] else [])"

text \<open>\<open>Update\<close>: the device data is freed at the end in any case, with a nil pointer when there is none.\<close>

definition pmu_Update :: "c_answers \<Rightarrow> c_call list \<times> sample list \<times> go_error option" where
  "pmu_Update a =
     (case getHHACrossNumaAndSocketData a of
        (cs, Inl e) \<Rightarrow> (cs @ [CDevDataFree False], [], Some e)
      | (cs, Inr ds) \<Rightarrow> (cs @ [CDevDataFree True], concat (map pmu_samples ds), None))"

section \<open>The protocol of the library\<close>

text \<open>What the library asks of its caller: a task is used only while it is open and is closed once, counting is
  stopped before it is read, data is read before metrics are taken from it and is freed while its task is open, and
  at the end nothing is left.\<close>

record lib_state =
  ls_task :: "int option"
  ls_counting :: bool
  ls_data :: bool
  ls_metrics :: bool

definition lib_idle :: lib_state where
  "lib_idle = \<lparr>ls_task = None, ls_counting = False, ls_data = False, ls_metrics = False\<rparr>"

definition lib_step :: "c_answers \<Rightarrow> lib_state \<Rightarrow> c_call \<Rightarrow> lib_state option" where
  "lib_step a s c =
     (case c of
        COpen attrs \<Rightarrow> if ls_task s = None then Some (if ca_open a = -1 then s else s\<lparr>ls_task := Some (ca_open a)\<rparr>) else None
      | CEnable fd \<Rightarrow> if ls_task s = Some fd then Some (s\<lparr>ls_counting := ca_enable a = 0\<rparr>) else None
      | CDisable fd \<Rightarrow> if ls_task s = Some fd \<and> ls_counting s then Some (s\<lparr>ls_counting := ca_disable a \<noteq> 0\<rparr>) else None
      | CRead fd \<Rightarrow>
          if ls_task s = Some fd \<and> \<not> ls_counting s \<and> \<not> ls_data s then Some (s\<lparr>ls_data := ca_read a \<noteq> 0 \<and> ca_read a \<noteq> -1\<rparr>) else None
      | CGetMetric attrs \<Rightarrow> if ls_data s \<and> \<not> ls_metrics s then Some (s\<lparr>ls_metrics := ca_metric a \<noteq> None\<rparr>) else None
      | CDataFree \<Rightarrow> if ls_task s \<noteq> None \<and> ls_data s then Some (s\<lparr>ls_data := False\<rparr>) else None
      | CClose fd \<Rightarrow> if ls_task s = Some fd \<and> \<not> ls_data s then Some (s\<lparr>ls_task := None, ls_counting := False\<rparr>) else None
      | CDevDataFree held \<Rightarrow> if held = ls_metrics s then Some (s\<lparr>ls_metrics := False\<rparr>) else None)"

fun lib_run :: "c_answers \<Rightarrow> lib_state \<Rightarrow> c_call list \<Rightarrow> lib_state option" where
  "lib_run a s [] = Some s"
| "lib_run a s (c # cs) = (case lib_step a s c of None \<Rightarrow> None | Some s' \<Rightarrow> lib_run a s' cs)"

text \<open>C40. Whatever the library answers, a round of the collector keeps to its protocol and leaves nothing open, exactly if the
  task number it got is positive or the error -1: the binding refuses to close any other.\<close>

theorem pmu_leaves_nothing:
  "lib_run a lib_idle (fst (pmu_Update a)) = Some lib_idle \<longleftrightarrow> ca_open a = -1 \<or> 0 < ca_open a"
proof -
  obtain fd e d r m where a: "ca_open a = fd" "ca_enable a = e" "ca_disable a = d" "ca_read a = r" "ca_metric a = m" by blast
  note defs = pmu_Update_def getHHACrossNumaAndSocketData_def kperf_PmuDeviceOpen_def read_metrics_def kperf_PmuEnable_def
    kperf_PmuDisable_def kperf_PmuRead_def kperf_PmuGetDevMetric_def close_task_def kperf_PmuClose_def lib_step_def lib_idle_def a
  consider "fd = -1" | "fd \<noteq> -1" "e \<noteq> 0" | "fd \<noteq> -1" "e = 0" "d \<noteq> 0" | "fd \<noteq> -1" "e = 0" "d = 0" "r = 0 \<or> r = -1"
    | "fd \<noteq> -1" "e = 0" "d = 0" "r \<noteq> 0" "r \<noteq> -1" by blast
  then show ?thesis
  proof cases
    case 1
    then show ?thesis by (simp add: defs)
  next
    case 2
    then show ?thesis by (simp add: defs)
  next
    case 3
    then show ?thesis by (simp add: defs)
  next
    case 4
    then show ?thesis by (elim disjE) (simp_all add: defs)
  next
    case 5
    then show ?thesis by (cases m) (simp_all add: defs)
  qed
qed

section \<open>The samples\<close>

lemma pmu_names: "names_of (fst (snd (pmu_Update a))) \<subseteq> range pmu_name"
proof -
  have "names_of (pmu_samples d) \<subseteq> range pmu_name" for d by (simp add: pmu_samples_def)
  then have "names_of (concat (map pmu_samples ds)) \<subseteq> range pmu_name" for ds by (rule names_of_concat)
  then show ?thesis by (auto simp: pmu_Update_def split: prod.split sum.split)
qed

text \<open>The library reports a metric once for every NUMA node.\<close>

definition metrics_distinct :: "c_answers \<Rightarrow> bool" where
  "metrics_distinct a \<longleftrightarrow>
     (\<forall>ds. ca_metric a = Some ds \<longrightarrow>
        (\<forall>d\<in>set ds. in_i64 (pd_numa (go_device d))) \<and> distinct (map (\<lambda>d. (cd_metric d, pd_numa (go_device d))) ds))"

lemma pmu_samples_distinct:
  assumes "distinct (map (\<lambda>d. (pd_metric d, pd_numa d)) ds)" "\<forall>d\<in>set ds. in_i64 (pd_numa d)"
  shows "keys_distinct (concat (map pmu_samples ds))"
  using assms
proof (induction ds)
  case (Cons d ds)
  have "sample_key s \<noteq> sample_key t" if "s \<in> set (pmu_samples d)" "t \<in> set (concat (map pmu_samples ds))" for s t
  proof
    assume k: "sample_key s = sample_key t"
    from that(2) obtain d' where d': "d' \<in> set ds" "t \<in> set (pmu_samples d')" by auto
    have "pd_metric d = pd_metric d'" "itoa (pd_numa d) = itoa (pd_numa d')"
      using k that(1) d'(2) by (auto simp: pmu_samples_def sample_key_def pmu_name_def split: if_splits)
    moreover from this(2) have "pd_numa d = pd_numa d'" using Cons.prems(2) d'(1) by (auto intro: itoa_inj)
    ultimately show False using Cons.prems(1) d'(1) by auto
  qed
  moreover have "keys_distinct (pmu_samples d)" by (simp add: pmu_samples_def keys_distinct_def)
  ultimately show ?case using Cons
    unfolding keys_distinct_def concat.simps list.map(2) by (intro distinct_map_append) auto
qed (simp add: keys_distinct_def)

lemma pmu_update_distinct:
  assumes "metrics_distinct a"
  shows "keys_distinct (fst (snd (pmu_Update a)))"
proof -
  have "keys_distinct (concat (map pmu_samples (map go_device ds)))" if "ca_metric a = Some ds" for ds
    using assms that by (intro pmu_samples_distinct) (auto simp: metrics_distinct_def go_device_def comp_def)
  then show ?thesis
    by (auto simp: pmu_Update_def getHHACrossNumaAndSocketData_def kperf_PmuDeviceOpen_def read_metrics_def kperf_PmuEnable_def
        kperf_PmuDisable_def kperf_PmuRead_def kperf_PmuGetDevMetric_def keys_distinct_def split: prod.splits sum.splits option.splits if_splits)
qed

end
