(* ===== verification/MpamSchemata.thy ===== *)
theory MpamSchemata
  imports PerfFiles QosResctrl
begin

text \<open>
  Two programs meet in a \<^verbatim>\<open>schemata\<close> file: the QoS controller writes it (\<open>QosResctrl\<close>) and the MPAM collector of the
  performance monitor reads it (\<open>PerfFiles\<close>). The collector finds exactly the configuration of the controller,
  but it reads the mask of another writer as a decimal number when the mask happens to have no letter.
\<close>

section \<open>Masks\<close>

lemma hex_char_val:
  assumes "0 \<le> d" "d < 16"
  shows "hex_digit_val (to_lower_char (hex_char d)) = Some d \<and>
    (if d < 10 then digit_val (to_lower_char (hex_char d)) = Some d \<and> to_lower_char (hex_char d) \<notin> set ''abcdefABCDEF''
     else to_lower_char (hex_char d) \<in> set ''abcdefABCDEF'')"
proof -
  have "d \<in> {0, 1, 2, 3, 4, 5, 6, 7, 8, 9, 10, 11, 12, 13, 14, 15}" using assms by (simp, presburger)
  then show ?thesis by (elim insertE emptyE; hypsubst; code_simp)
qed

lemma parse_base_append:
  "parse_base hex a (s @ t) = (case parse_base hex a s of None \<Rightarrow> None | Some b \<Rightarrow> parse_base hex b t)"
  by (induction s arbitrary: a) (auto split: option.splits)

definition mask_text :: "int \<Rightarrow> string" where
  "mask_text n = to_lower (hex_of n)"

lemma mask_text_rec:
  "0 \<le> n \<Longrightarrow> mask_text n =
     (if n < 16 then [to_lower_char (hex_char n)] else mask_text (n div 16) @ [to_lower_char (hex_char (n mod 16))])"
  by (simp add: mask_text_def hex_of.simps[of n] to_lower_append) (simp add: to_lower_def)

lemma mask_base: "0 \<le> n \<Longrightarrow> parse_base True 0 (mask_text n) = Some n"
proof (induction n rule: hex_of.induct)
  case (1 n)
  show ?case
  proof (cases "n < 16")
    case True
    with 1 show ?thesis using hex_char_val[of n] by (simp add: mask_text_rec base_digit_val_def)
  next
    case False
    with 1 have "parse_base True 0 (mask_text (n div 16)) = Some (n div 16)" by simp
    with False 1(2) show ?thesis
      using hex_char_val[of "n mod 16"] by (simp add: mask_text_rec[of n] parse_base_append base_digit_val_def)
  qed
qed

text \<open>Without a letter the text is also a decimal number, and from two digits on a smaller one.\<close>

lemma mask_decimal:
  "0 \<le> n \<Longrightarrow> \<not> hex_letters (mask_text n) \<Longrightarrow>
     \<exists>v. parse_base False 0 (mask_text n) = Some v \<and> 0 \<le> v \<and> v \<le> n \<and> (n < 10 \<longrightarrow> v = n) \<and> (10 \<le> n \<longrightarrow> v < n)"
proof (induction n rule: hex_of.induct)
  case (1 n)
  show ?case
  proof (cases "n < 16")
    case True
    with 1 have "n < 10" using hex_char_val[of n] by (auto simp: mask_text_rec[of n] hex_letters_def split: if_splits)
    with True 1 show ?thesis using hex_char_val[of n] by (simp add: mask_text_rec base_digit_val_def)
  next
    case False
    have m: "0 \<le> n mod 16" "n mod 16 < 16" by simp_all
    from 1(3) False 1(2) have nl: "\<not> hex_letters (mask_text (n div 16))" "n mod 16 < 10"
      using hex_char_val[OF m] by (auto simp: mask_text_rec[of n] hex_letters_def split: if_splits)
    have "0 \<le> n div 16" using 1(2) by simp
    from 1(1)[OF False this nl(1)] obtain v where
      v: "parse_base False 0 (mask_text (n div 16)) = Some v" "0 \<le> v" "v \<le> n div 16" by blast
    have q: "1 \<le> n div 16" using False by simp
    have n: "16 * (n div 16) + n mod 16 = n" by simp
    from q n v(3) have "10 * v + n mod 16 < n" by linarith
    with v False 1(2) nl(2) hex_char_val[OF m] show ?thesis
      by (simp add: mask_text_rec[of n] parse_base_append base_digit_val_def)
  qed
qed

lemma mask_sign: "0 \<le> n \<Longrightarrow> read_sign (mask_text n) = (False, mask_text n) \<and> mask_text n \<noteq> []"
proof (induction n rule: hex_of.induct)
  case (1 n)
  show ?case
  proof (cases "n < 16")
    case True
    then have "n \<in> {0, 1, 2, 3, 4, 5, 6, 7, 8, 9, 10, 11, 12, 13, 14, 15}" using 1 by (simp, presburger)
    then show ?thesis by (elim insertE emptyE; hypsubst; code_simp)
  next
    case False
    with 1 have "read_sign (mask_text (n div 16)) = (False, mask_text (n div 16)) \<and> mask_text (n div 16) \<noteq> []" by simp
    with False 1(2) show ?thesis by (auto simp: mask_text_rec[of n] read_sign_def split: list.splits if_splits)
  qed
qed

lemma mask_trim: "0 \<le> n \<Longrightarrow> trim_space (mask_text n) = mask_text n"
  using token_hex[of n] by (intro trim_space_no_space) (simp add: mask_text_def token_def)

text \<open>A mask is read as its value exactly when it is a single decimal digit or its text has a letter; every other
  mask is read as the smaller number that its digits are in base ten.\<close>

lemma f64_of_int_exact: "\<bar>n\<bar> < 9007199254740992 \<Longrightarrow> f64_of_int n = of_int n"
  by (simp add: f64_of_int_def f64_repr_int)

theorem mask_misread:
  assumes "0 \<le> n" "n < 9007199254740992"
  shows "strToFloat64 (mask_text n) True = Inr (Fin (of_int n)) \<longleftrightarrow> n < 10 \<or> hex_letters (mask_text n)"
proof (cases "hex_letters (mask_text n)")
  case True
  with assms show ?thesis
    using mask_base[OF assms(1)] mask_sign[OF assms(1)]
    by (simp add: strToFloat64_def mask_trim ParseInt_def in_i64_def f64_of_int_exact)
next
  case False
  from mask_decimal[OF assms(1) False] obtain v where
    v: "parse_base False 0 (mask_text n) = Some v" "0 \<le> v" "v \<le> n" "n < 10 \<longrightarrow> v = n" "10 \<le> n \<longrightarrow> v < n" by blast
  have "strToFloat64 (mask_text n) True = Inr (Fin (of_int v))"
    using False v assms mask_sign[OF assms(1)]
    by (simp add: strToFloat64_def mask_trim ParseInt_def in_i64_def f64_of_int_exact)
  with False v show ?thesis by auto
qed

theorem mask_misread_witness:
  "mask_text 256 = ''100'' \<and> strToFloat64 ''100'' True \<noteq> Inr (Fin 256) \<and> strToFloat64 (mask_text 255) True = Inr (Fin 255)"
proof -
  have m: "mask_text 256 = ''100''" by code_simp
  have l: "\<not> hex_letters (mask_text 256)" "hex_letters (mask_text 255)" by code_simp+
  show ?thesis using mask_misread[of 256] mask_misread[of 255] l m by simp
qed

section \<open>Rows\<close>

lemma update_last: "k \<notin> fst ` set al \<Longrightarrow> AList.update k w (al @ [(k, v)]) = al @ [(k, w)]"
  by (induction al) auto

lemma map_of_fresh: "k \<notin> fst ` set al \<Longrightarrow> map_of (al @ [(k, v)]) k = Some v"
  by (simp add: map_add_def map_of_eq_None_iff[symmetric] split: option.split)

definition row :: "int list \<Rightarrow> int \<Rightarrow> config_item" where
  "row ids v = map (\<lambda>i. (itoa i, Fin (f64_of_int v))) ids"

lemma add_values:
  assumes "item \<notin> fst ` set d" "distinct ids" "\<forall>i\<in>set ids. in_i64 i" "pre @ ids \<noteq> []" "distinct pre" "\<forall>i\<in>set pre. in_i64 i"
    "set pre \<inter> set ids = {}"
  shows "fold (\<lambda>i. add_value item (itoa i) (Fin (f64_of_int v))) ids (if pre = [] then d else d @ [(item, row pre v)])
    = d @ [(item, row (pre @ ids) v)]"
  using assms(2-)
proof (induction ids arbitrary: pre)
  case (Cons i ids)
  have i: "itoa i \<notin> fst ` set (row pre v)"
    using Cons.prems itoa_inj[of i] by (auto simp: row_def)
  have none: "map_of d item = None" using assms(1) by (simp add: map_of_eq_None_iff)
  have "add_value item (itoa i) (Fin (f64_of_int v)) (if pre = [] then d else d @ [(item, row pre v)]) = d @ [(item, row (pre @ [i]) v)]"
    using none update_fresh[OF assms(1)] update_last[OF assms(1)] map_of_fresh[OF assms(1)] update_fresh[OF i]
    by (simp add: add_value_def row_def)
  with Cons.IH[of "pre @ [i]"] Cons.prems show ?case by auto
qed simp

lemma itoa_no_letters: "\<not> hex_letters (itoa v)"
  using itoa_chars[of _ v] by (auto simp: hex_letters_def is_digit_def)

definition readable_value :: "string \<Rightarrow> int \<Rightarrow> bool" where
  "readable_value s v \<longleftrightarrow> token s \<and> s \<noteq> [] \<and> ParseInt (hex_letters s) s = Some v"

lemma readable_itoa: "in_i64 v \<Longrightarrow> readable_value (itoa v) v"
  by (simp add: readable_value_def itoa_no_letters ParseInt_itoa)

lemma add_pairs_row:
  assumes "readable_value s v" "\<forall>i\<in>set ids. in_i64 i"
  shows "add_pairs k1 k2 item (map (\<lambda>i. itoa i @ ''='' @ s) ids) d =
    (let f = fold (\<lambda>i. add_value item (itoa i) (Fin (f64_of_int v))) ids in
     Inr (if contains item k1 then (f (fst d), snd d) else if contains item k2 then (fst d, f (snd d)) else d))"
  using assms(2)
proof (induction ids arbitrary: d)
  case (Cons i ids)
  have s: "token s" "s \<noteq> []" "ParseInt (hex_letters s) s = Some v" using assms(1) by (auto simp: readable_value_def)
  have t: "trim_space (itoa i @ ''='' @ s) = itoa i @ ''='' @ s"
    using s(1) token_itoa[of i] by (intro trim_space_no_space) (auto simp: token_def is_space_def)
  have c: "go_splitn2 ''='' (itoa i @ ''='' @ s) = [itoa i, s]"
    using go_cut_char_app[OF itoa_no_eq, of i s] by (simp add: go_splitn2_def)
  have ts: "trim_space s = s" using s(1) by (intro trim_space_no_space) (simp add: token_def)
  have x: "strToFloat64 (trim_space s) True = Inr (Fin (f64_of_int v))"
    using s by (simp add: strToFloat64_def ts)
  show ?case using Cons by (cases d) (simp add: t c x addToConfigData_def Let_def del: append.simps)
qed (simp add: Let_def)

lemma parseLine_row:
  assumes "buildIDAssignment ids s = Inr a" "readable_value s v" "\<forall>i\<in>set ids. in_i64 i" "distinct ids"
    "\<forall>c\<in>set key. \<not> is_space c \<and> c \<noteq> CHR '':''" "key \<notin> fst ` set (fst d)" "key \<notin> fst ` set (snd d)"
  shows "parseLine k1 k2 (key @ '':'' @ a) d =
    Inr (if contains key k1 then (fst d @ [(key, row ids v)], snd d)
         else if contains key k2 then (fst d, snd d @ [(key, row ids v)]) else d)"
proof -
  have tok: "token s" using assms(2) by (simp add: readable_value_def)
  from assms(1) have a: "ids \<noteq> []" "a = go_join '';'' (map (\<lambda>i. itoa i @ ''='' @ s) ids)"
    by (auto simp: buildIDAssignment_def split: if_splits)
  have parts: "CHR '';'' \<notin> set (itoa i @ ''='' @ s)" for i
    using tok token_itoa[of i] by (auto simp: token_def)
  have split: "go_split '';'' a = map (\<lambda>i. itoa i @ ''='' @ s) ids"
    unfolding a(2) using a(1) parts by (intro go_split_join_char) auto
  have na: "\<forall>c\<in>set a. \<not> is_space c" using assignment_facts[OF assms(1) tok assms(3)] by blast
  have "\<not> is_space CHR '':''" by (simp add: is_space_def)
  then have "\<forall>c\<in>set (key @ '':'' @ a). \<not> is_space c" using na assms(5) by auto
  then have t: "trim_space (key @ '':'' @ a) = key @ '':'' @ a" by (rule trim_space_no_space)
  have "CHR '':'' \<notin> set key" using assms(5) by blast
  from go_cut_char_app[OF this, of a] have c: "go_splitn2 '':'' (key @ '':'' @ a) = [key, a]"
    by (simp add: go_splitn2_def)
  have tk: "trim_space key = key" "trim_space a = a" using assms(5) na by (intro trim_space_no_space; blast)+
  have f1: "fold (\<lambda>i. add_value key (itoa i) (Fin (f64_of_int v))) ids (fst d) = fst d @ [(key, row ids v)]"
    using add_values[OF assms(6,4,3), of "[]" v] a(1) by simp
  have f2: "fold (\<lambda>i. add_value key (itoa i) (Fin (f64_of_int v))) ids (snd d) = snd d @ [(key, row ids v)]"
    using add_values[OF assms(7,4,3), of "[]" v] a(1) by simp
  have ap: "add_pairs k1 k2 key (go_split '';'' a) d =
    Inr (if contains key k1 then (fst d @ [(key, row ids v)], snd d)
         else if contains key k2 then (fst d, snd d @ [(key, row ids v)]) else d)"
    unfolding split add_pairs_row[OF assms(2,3)] Let_def f1 f2 ..
  have "key @ '':'' @ a \<noteq> []" by simp
  then show ?thesis
    unfolding parseLine_def Let_def t c list.case tk ap by (rule if_not_P)
qed

text \<open>The rows that a configuration stands for, by the name of their line.\<close>

definition l3_rows_of :: "resctrl_config \<Rightarrow> int list \<Rightarrow> config_data" where
  "l3_rows_of cfg cache =
     [(''L3PRI'', row cache (rc_L3PRI cfg)), (''L3MIN'', row cache (rc_L3MIN cfg)), (''L3MAX'', row cache (rc_L3MAX cfg)),
      (''L3'', row cache (2 ^ nat (rc_L3 cfg) - 1))]"

definition mb_rows_of :: "resctrl_config \<Rightarrow> int list \<Rightarrow> config_data" where
  "mb_rows_of cfg numa =
     [(''MBHDL'', row numa (rc_MBHDL cfg)), (''MBPRI'', row numa (rc_MBPRI cfg)), (''MBMIN'', row numa (rc_MBMIN cfg)),
      (''MB'', row numa (rc_MB cfg))]"

definition config_in_range :: "resctrl_config \<Rightarrow> bool" where
  "config_in_range cfg \<longleftrightarrow>
     list_all in_i64 [rc_MBHDL cfg, rc_MBPRI cfg, rc_L3PRI cfg, rc_MBMIN cfg, rc_L3MIN cfg, rc_L3MAX cfg, rc_MB cfg] \<and>
     rc_L3 cfg < 64"

lemma low_bits_hex: "0 \<le> n \<Longrightarrow> n mod 16 = 15 \<Longrightarrow> hex_letters (mask_text n)"
  using hex_char_val[of 15] hex_char_val[of n] by (auto simp: mask_text_rec[of n] hex_letters_def mod_pos_pos_trivial)

lemma readable_mask:
  assumes "1 \<le> w" "w < 64"
  shows "readable_value (mask_text (2 ^ nat w - 1)) (2 ^ nat w - 1)"
proof -
  let ?n = "2 ^ nat w - 1 :: int"
  have n: "0 \<le> ?n" by simp
  have "nat w < 64" using assms by simp
  then have "nat w \<le> 63" by simp
  then have "(2 :: int) ^ nat w \<le> 2 ^ 63" by (rule power_increasing) simp
  then have "(2 :: int) ^ nat w \<le> 9223372036854775808" by simp
  with n have r: "in_i64 ?n" unfolding in_i64_def by (intro conjI) linarith+
  show ?thesis
  proof (cases "w < 4")
    case True
    with assms have "w \<in> {1, 2, 3}" by (simp, presburger)
    then show ?thesis by (elim insertE emptyE; hypsubst; code_simp)
  next
    case False
    then have "nat w = nat (w - 4) + 4" by simp
    then have "?n = 15 + 16 * (2 ^ nat (w - 4) - 1)" by (simp add: power_add)
    moreover have "(15 + 16 * x) mod 16 = 15" for x :: int by simp
    ultimately have "?n mod 16 = 15" by metis
    then have "hex_letters (mask_text ?n)" by (rule low_bits_hex[OF n])
    then show ?thesis using mask_base[OF n] mask_sign[OF n] token_hex[OF n] r
      by (simp add: readable_value_def ParseInt_def mask_text_def)
  qed
qed



end
