(* ===== verification/Monitor.thy ===== *)
theory Monitor
  imports NodeCollector PsiOk PmuCollector MpamSchemata
begin

text \<open>
  The performance monitor as a whole: the five collectors of \<^verbatim>\<open>pkg/kunpeng-perf-monitor/collector\<close> under the
  registry they put themselves into, and the scrape over any selection of them.
\<close>

datatype monitor_factory = NewMpam | NewPmu | NewPsi | NewTopdown | NewMemory
datatype monitor_collector = MpamC string | PmuC | PsiC string | TopdownC | MemoryC

record monitor_env =
  me_os :: perf_os
  me_df :: "string \<Rightarrow> string option"
  me_resctl :: string
  me_cgroup :: string

text \<open>The factories; the two that start a background loop and the one of the library always succeed.\<close>

fun call_factory :: "monitor_env \<Rightarrow> monitor_factory \<Rightarrow> monitor_collector result" where
  "call_factory env NewMpam = (case NewMPAMCollector (me_os env) (me_resctl env) of Inl e \<Rightarrow> Inl e | Inr _ \<Rightarrow> Inr (MpamC (me_resctl env)))"
| "call_factory env NewPmu = Inr PmuC"
| "call_factory env NewPsi =
     (case NewPSICollector (me_df env) (\<lambda>p. po_tree (me_os env) p \<noteq> None) (me_cgroup env) of Inl e \<Rightarrow> Inl e | Inr p \<Rightarrow> Inr (PsiC p))"
| "call_factory env NewTopdown = Inr TopdownC"
| "call_factory env NewMemory = Inr MemoryC"

text \<open>The \<open>init\<close> functions, in the order of the files.\<close>

definition monitor_registry :: "(monitor_factory, monitor_collector) registry" where
  "monitor_registry =
     RegisterCollector ''psi'' True NewPsi (RegisterCollector ''pmu'' True NewPmu (RegisterCollector ''mpam'' True NewMpam
       (RegisterCollector ''devkit-topdown'' False NewTopdown (RegisterCollector ''devkit-memory'' False NewMemory new_registry))))"

datatype monitor_event = SetFlag string bool | DisableDefaults | MakeCollector monitor_env "go_error list" "string list"

fun monitor_step :: "monitor_event \<Rightarrow> (monitor_factory, monitor_collector) registry \<Rightarrow> (monitor_factory, monitor_collector) registry" where
  "monitor_step (SetFlag n b) r = CollectorFlagAction n b r"
| "monitor_step DisableDefaults r = DisableDefaultCollectors r"
| "monitor_step (MakeCollector env errs fs) r = fst (NewNodeCollector (call_factory env) errs fs r)"

definition devkit_update :: "sample list result \<Rightarrow> sample list \<times> go_error option" where
  "devkit_update r = (case r of Inl e \<Rightarrow> ([], Some e) | Inr ss \<Rightarrow> (ss, None))"

fun monitor_update :: "perf_os \<Rightarrow> c_answers \<Rightarrow> devkit_world \<Rightarrow> monitor_collector \<Rightarrow> sample list \<times> go_error option" where
  "monitor_update os lib w (MpamC mount) = mpam_Update os mount"
| "monitor_update os lib w PmuC = snd (pmu_Update lib)"
| "monitor_update os lib w (PsiC searchPath) = psi_Update os searchPath"
| "monitor_update os lib w TopdownC = devkit_update (topdown_Update (co_cache (dv_topdown w)))"
| "monitor_update os lib w MemoryC = devkit_update (memory_Update (co_cache (dv_memory w)))"

section \<open>A collector carries the name it was registered under\<close>

fun collector_kind :: "monitor_collector \<Rightarrow> string" where
  "collector_kind (MpamC m) = ''mpam''"
| "collector_kind PmuC = ''pmu''"
| "collector_kind (PsiC p) = ''psi''"
| "collector_kind TopdownC = ''devkit-topdown''"
| "collector_kind MemoryC = ''devkit-memory''"

fun factory_kind :: "monitor_factory \<Rightarrow> string" where
  "factory_kind NewMpam = ''mpam''"
| "factory_kind NewPmu = ''pmu''"
| "factory_kind NewPsi = ''psi''"
| "factory_kind NewTopdown = ''devkit-topdown''"
| "factory_kind NewMemory = ''devkit-memory''"

definition kinds_ok :: "(string, monitor_collector) gomap \<Rightarrow> bool" where
  "kinds_ok cs \<longleftrightarrow> wf_map cs \<and> (\<forall>(n, c)\<in>set cs. collector_kind c = n)"

definition registry_ok :: "(monitor_factory, monitor_collector) registry \<Rightarrow> bool" where
  "registry_ok r \<longleftrightarrow> kinds_ok (rg_initiated r) \<and> (\<forall>n f. map_of (rg_factories r) n = Some f \<longrightarrow> factory_kind f = n)"

lemma call_factory_kind: "call_factory env f = Inr c \<Longrightarrow> collector_kind c = factory_kind f"
  by (cases f) (auto split: sum.splits)

lemma kinds_ok_update: "kinds_ok cs \<Longrightarrow> collector_kind c = n \<Longrightarrow> kinds_ok (AList.update n c cs)"
proof -
  assume a: "kinds_ok cs" "collector_kind c = n"
  have "set (AList.update n c cs) \<subseteq> insert (n, c) (set cs)" by (induction cs) auto
  with a show ?thesis by (fastforce simp: kinds_ok_def)
qed

lemma init_kinds:
  "init_collectors (call_factory env) fs kvs r cs = (r', res) \<Longrightarrow> registry_ok r \<Longrightarrow> kinds_ok cs \<Longrightarrow>
     registry_ok r' \<and> (\<forall>out. res = Inr out \<longrightarrow> kinds_ok out)"
proof (induction "call_factory env" fs kvs r cs arbitrary: r' res rule: init_collectors.induct)
  case (2 fs kv kvs r cs)
  show ?case
  proof (cases "wanted fs kv")
    case False
    then show ?thesis using 2(1)[OF False] 2(4-) by simp
  next
    case w: True
    then have nw: "\<not> \<not> wanted fs kv" by simp
    show ?thesis
    proof (cases "map_of (rg_initiated r) (fst kv)")
      case (Some c)
      then have "collector_kind c = fst kv" using 2(5) by (auto simp: registry_ok_def kinds_ok_def dest: map_of_SomeD)
      with 2(6) have "kinds_ok (AList.update (fst kv) c cs)" by (rule kinds_ok_update)
      with 2(3)[OF nw Some _ 2(5)] 2(4) w Some show ?thesis by simp
    next
      case None
      show ?thesis
      proof (cases "\<exists>f c. map_of (rg_factories r) (fst kv) = Some f \<and> call_factory env f = Inr c")
        case True
        then obtain f c where f: "map_of (rg_factories r) (fst kv) = Some f" "call_factory env f = Inr c" by blast
        have "collector_kind c = fst kv" using call_factory_kind[OF f(2)] f(1) 2(5) by (auto simp: registry_ok_def)
        with 2(5,6) have k: "kinds_ok (AList.update (fst kv) c cs)" "registry_ok (r\<lparr>rg_initiated := AList.update (fst kv) c (rg_initiated r)\<rparr>)"
          by (auto simp: registry_ok_def kinds_ok_update)
        from 2(2)[OF nw None f _ k(2,1)] 2(4) w None f show ?thesis by simp
      next
        case False
        then have "r' = r" "\<exists>e. res = Inl e" using 2(4) w None by (auto split: option.splits sum.splits)
        with 2(5) show ?thesis by auto
      qed
    qed
  qed
qed simp

lemma registry_ok_monitor: "registry_ok monitor_registry"
  by (auto simp: registry_ok_def kinds_ok_def monitor_registry_def RegisterCollector_def new_registry_def split: if_splits)

lemma registry_ok_make:
  assumes "registry_ok r" "NewNodeCollector (call_factory env) errs fs r = (r', res)"
  shows "registry_ok r' \<and> (\<forall>cs. res = Inr cs \<longrightarrow> kinds_ok cs)"
proof -
  have w: "registry_ok (r\<lparr>rg_watcher := True\<rparr>)" using assms(1) by (simp add: registry_ok_def)
  have e: "kinds_ok []" by (simp add: kinds_ok_def)
  note i = init_kinds[of env fs "rg_state r" _ "[]" r' res, OF _ _ e]
  from assms(2) have "(r' = r \<and> (\<exists>x. res = Inl x)) \<or> (\<exists>r0. (r0 = r \<or> r0 = r\<lparr>rg_watcher := True\<rparr>) \<and>
      init_collectors (call_factory env) fs (rg_state r) r0 [] = (r', res))"
    by (auto simp: NewNodeCollector_def Let_def split: sum.splits if_splits)
  with i w assms(1) show ?thesis by blast
qed

lemma registry_ok_run: "registry_ok r \<Longrightarrow> registry_ok (fold monitor_step evs r)"
proof (induction evs arbitrary: r)
  case (Cons ev evs)
  have "registry_ok (monitor_step ev r)"
  proof (cases ev)
    case (MakeCollector env errs fs)
    obtain r' res where "NewNodeCollector (call_factory env) errs fs r = (r', res)" by (cases "NewNodeCollector (call_factory env) errs fs r")
    with registry_ok_make[OF Cons.prems this] MakeCollector show ?thesis by simp
  qed (use Cons.prems in \<open>auto simp: registry_ok_def CollectorFlagAction_def DisableDefaultCollectors_def\<close>)
  with Cons.IH show ?case by simp
qed simp

section \<open>A whole scrape\<close>

definition names_for :: "string \<Rightarrow> string set" where
  "names_for kind =
     (if kind = ''mpam'' then range mpam_name else if kind = ''pmu'' then range pmu_name else if kind = ''psi'' then {psi_name}
      else if kind = ''devkit-topdown'' then range topdown_name else range memory_name)"

lemma names_for_disjoint:
  "collector_kind c \<noteq> collector_kind d \<Longrightarrow> names_for (collector_kind c) \<inter> names_for (collector_kind d) = {}"
  by (cases c; cases d)
     (auto simp: names_for_def mpam_name_def pmu_name_def psi_name_def topdown_name_def memory_name_def BuildFQName_def)

lemma names_for_scrape: "names_for (collector_kind c) \<inter> range scrape_name = {}"
  by (cases c)
     (auto simp: names_for_def mpam_name_def pmu_name_def psi_name_def topdown_name_def memory_name_def scrape_name_def BuildFQName_def)

lemma monitor_update_ok:
  assumes "dirs_ok os" "metrics_distinct lib" "devkit_inv w"
  shows "keys_distinct (fst (monitor_update os lib w c)) \<and> names_of (fst (monitor_update os lib w c)) \<subseteq> names_for (collector_kind c)"
proof (cases c)
  case TopdownC
  have "fst (devkit_update u) = samples_of u" for u by (simp add: devkit_update_def samples_of_def split: sum.split)
  with topdown_samples_distinct[OF assms(3)] topdown_samples_names TopdownC show ?thesis by (simp add: names_for_def)
next
  case MemoryC
  have "fst (devkit_update u) = samples_of u" for u by (simp add: devkit_update_def samples_of_def split: sum.split)
  with memory_samples_distinct[OF assms(3)] memory_samples_names MemoryC show ?thesis by (simp add: names_for_def)
qed (use mpam_update_distinct[OF assms(1)] psi_update_distinct pmu_update_distinct[OF assms(2)] pmu_names in \<open>simp_all add: names_for_def\<close>)

lemma execute_block:
  assumes "names_of (fst upd) \<subseteq> names_for n" "s \<in> set (collector_execute n upd d)"
  shows "fst s \<in> names_for n \<or> (fst s \<in> range scrape_name \<and> snd (snd s) = [n])"
  using assms by (auto simp: collector_execute_def names_of_def)

lemma collect_distinct:
  assumes "kinds_ok cs" "\<And>c. keys_distinct (fst (upd c)) \<and> names_of (fst (upd c)) \<subseteq> names_for (collector_kind c)"
  shows "keys_distinct (NodeCollector_Collect upd duration cs)"
  using assms(1)
proof (induction cs)
  case (Cons nc cs)
  obtain n c where nc: "nc = (n, c)" by (cases nc)
  have n: "n = collector_kind c" and k: "kinds_ok cs" using Cons.prems by (auto simp: kinds_ok_def nc wf_map_def)
  let ?b = "collector_execute n (upd c) (duration n)"
  have "keys_distinct ?b"
    using assms(2)[of c] names_for_scrape[of c] n by (intro execute_distinct) auto
  moreover have "sample_key s \<noteq> sample_key t" if "s \<in> set ?b" "t \<in> set (NodeCollector_Collect upd duration cs)" for s t
  proof
    assume eq: "sample_key s = sample_key t"
    from that(2) obtain m d where t: "(m, d) \<in> set cs" "t \<in> set (collector_execute m (upd d) (duration m))"
      by (auto simp: NodeCollector_Collect_def)
    have m: "m = collector_kind d" "m \<noteq> n" using Cons.prems t(1) by (force simp: kinds_ok_def nc wf_map_def)+
    have s: "fst s \<in> names_for n \<or> (fst s \<in> range scrape_name \<and> snd (snd s) = [n])"
      by (rule execute_block[OF _ that(1)]) (use assms(2)[of c] n in simp)
    have t': "fst t \<in> names_for m \<or> (fst t \<in> range scrape_name \<and> snd (snd t) = [m])"
      by (rule execute_block[OF _ t(2)]) (use assms(2)[of d] m in simp)
    have "fst s = fst t" "snd (snd s) = snd (snd t)" using eq by (simp_all add: sample_key_def)
    with s t' m names_for_disjoint[of c d] names_for_scrape[of c] names_for_scrape[of d] n show False by auto
  qed
  ultimately show ?case using Cons.IH[OF k]
    unfolding keys_distinct_def NodeCollector_Collect_def nc list.map(2) concat.simps prod.case by (intro distinct_map_append) blast+
qed (simp add: NodeCollector_Collect_def keys_distinct_def)

text \<open>C36. No scrape of the monitor has two samples with the same name and the same labels, so Prometheus never refuses
  one: whatever flags were given and collectors made before, whichever collectors the scrape selects, whatever the files
  of the kernel and the reports of the tool hold, as long as a directory has no two entries of one name and
  the library reports a metric once for each node.\<close>

theorem full_scrape_no_duplicates:
  assumes "NewNodeCollector (call_factory env) errs filters (fold monitor_step evs monitor_registry) = (r', Inr cs)"
    "dirs_ok os" "metrics_distinct lib"
  shows "distinct (map sample_key (NodeCollector_Collect (monitor_update os lib (devkit_run decode start devs)) duration cs))"
proof -
  have "kinds_ok cs" using registry_ok_make[OF registry_ok_run[OF registry_ok_monitor] assms(1)] by blast
  from collect_distinct[OF this monitor_update_ok[OF assms(2,3) devkit_run_inv]] show ?thesis by (simp add: keys_distinct_def)
qed

definition demo_files :: "(string \<times> string) list" where
  "demo_files =
     [(''/r/cpus_list'', []), (''/r/mode'', ''shareable''), (''/r/schemata'', ''L3:0=1f''),
      (''/r/mon_data/mon_L3_00/llc_occupancy'', ''42''), (''/r/mon_data/mon_MB_00/mbm_total_bytes'', ''Unavailable'')]"

definition demo_os :: perf_os where
  "demo_os =
     \<lparr>po_tree = (\<lambda>p. if p = ''/r'' then Some (DirE ''r'' True [DirE ''mon_data'' True [], DirE ''mon_groups'' True []]) else None),
      po_read = map_of demo_files,
      po_dir = (\<lambda>p. if p = ''/r/mon_data'' then Some [(''mon_L3_00'', True), (''mon_MB_00'', True)] else None)\<rparr>"

definition demo_lib :: c_answers where
  "demo_lib =
     \<lparr>ca_open = 1, ca_enable = 0, ca_disable = 0, ca_read = 2,
      ca_metric = Some [\<lparr>cd_metric = HhaCrossNuma, cd_count = Fin (1 / 2), cd_mode = PerNuma 0\<rparr>,
        \<lparr>cd_metric = HhaCrossNuma, cd_count = Fin 0, cd_mode = PerNuma 1\<rparr>]\<rparr>"

definition demo_env :: monitor_env where
  "demo_env = \<lparr>me_os = demo_os, me_df = (\<lambda>_. None), me_resctl = ''/r'', me_cgroup = ''/c''\<rparr>"

theorem full_scrape_no_duplicates_witness:
  "\<exists>cs. snd (NewNodeCollector (call_factory demo_env) [] [''pmu'', ''mpam''] (fold monitor_step [SetFlag ''psi'' False] monitor_registry)) = Inr cs \<and>
     length cs = 2 \<and>
     distinct (map sample_key (NodeCollector_Collect
       (monitor_update demo_os demo_lib (devkit_run (\<lambda>_. undefined) undefined [])) (\<lambda>_. 0) cs))"
proof -
  let ?m = "NewNodeCollector (call_factory demo_env) [] [''pmu'', ''mpam''] (fold monitor_step [SetFlag ''psi'' False] monitor_registry)"
  have m: "?m = (fst ?m, Inr [(''mpam'', MpamC ''/r''), (''pmu'', PmuC)])" by code_simp
  have d: "dirs_ok demo_os" by (simp add: dirs_ok_def demo_os_def)
  have l: "metrics_distinct demo_lib" by (simp add: metrics_distinct_def demo_lib_def go_device_def in_i64_def)
  have s: "snd ?m = Inr [(''mpam'', MpamC ''/r''), (''pmu'', PmuC)]" by (subst m) simp
  have n: "length [(''mpam'', MpamC ''/r''), (''pmu'', PmuC)] = 2" by simp
  show ?thesis by (rule exI[of _ "[(''mpam'', MpamC ''/r''), (''pmu'', PmuC)]"]) (intro conjI s n full_scrape_no_duplicates[OF m d l])
qed

end
