(* ===== verification/Spec2Isabelle.thy ===== *)
theory Spec2Isabelle
  imports TopoTheorems TopoChoice TopoBuildOk CacheLoad TopoRebuild PolicyManager DispatcherOk DockerOk NriOk NumaAware PCoreEvents QosBinding
    SysDiscovered KaeWebhookOk KaeScanOk KaeQosOk Monitor
begin

text \<open>
  A verification development for \<^verbatim>\<open>cloud-native\<close>, the node-side components that Kunpeng servers run under
  Kubernetes. The repository holds five programs; each group of theories below models one.

  \<^bold>\<open>kunpeng-tap\<close> (\<^verbatim>\<open>src/pkg/kunpeng-tap\<close>) places containers on NUMA nodes. A proxy sits between the kubelet and
  the container runtime (CRI, \<^verbatim>\<open>server/containerd\<close>, or the Docker API, \<^verbatim>\<open>server/docker\<close>) or is called by the runtime
  (NRI, \<^verbatim>\<open>server/nri\<close>). The proxy hands each request to the dispatcher, the dispatcher turns it into a hook message, the policy
  manager runs the hooks of the registered policies on it, and the answer is written back into the request before it
  goes on. A cache remembers pods and containers. The topology-aware policy keeps a tree of pools with the supply of
  each, chooses a pool for a container and charges it; after a restart it rebuilds the charges from the cache.
    \<^item> \<open>Dispatcher\<close>, \<open>DispatcherOk\<close>: \<^verbatim>\<open>server/dispatcher\<close> and the CRI calls that go through it;
      \<open>DockerHandler\<close>, \<open>DockerOk\<close>: the Docker handlers; \<open>NriAgent\<close>, \<open>NriOk\<close>: the NRI plugin; \<open>TapStop\<close>: the
      contract that the three share.
    \<^item> \<open>ContainerContext\<close>, \<open>Resources\<close>: the hook context and the estimates of a container's needs;
      \<open>PolicyManager\<close>: \<^verbatim>\<open>policy/policy.go\<close> and the hooks of the topology-aware policy.
    \<^item> \<open>Cache\<close>, \<open>CacheOk\<close>, \<open>CacheLoad\<close>: \<^verbatim>\<open>cache/\<close>. Containers are shared objects behind addresses in a store; a mutex is a
      flag, and locking a locked cache never returns, the value \<open>None\<close>.
    \<^item> \<open>TopoTree\<close>, \<open>TopoRequest\<close>, \<open>TopoSupply\<close>, \<open>TopoSelect\<close>, \<open>TopoPolicy\<close>, \<open>TopoBuild\<close>, \<open>TopoRebuild\<close>:
      \<^verbatim>\<open>policy/topology-aware\<close>, one theory for a few of its files. Nodes live in a heap, as the code's pointers do.
      \<open>TopoSort\<close>, \<open>TopoChoice\<close>, \<open>TopoLedger\<close>, \<open>TopoReach\<close>, \<open>TopoTheorems\<close>, \<open>TopoBuildOk\<close>: the proofs.
    \<^item> \<open>NumaAware\<close>, \<open>CpuInfo\<close>: the NUMA-aware policy and its CPU inventory.
    \<^item> \<open>SysTopology\<close>, \<open>SysDiscover\<close>, \<open>SysDiscovered\<close>: \<^verbatim>\<open>sysfs/system\<close>, the hardware that the tree is built from.

  \<^bold>\<open>kunpeng-tap-pcore-binding\<close> gives every pod with the annotation a pair of sibling CPUs of its own:
  \<open>PCoreTopology\<close> (the pairs), \<open>PCorePaths\<close> (the cgroup a container lives in), \<open>PCoreAgent\<close> (the reconciliation) and
  \<open>PCoreEvents\<close> (the event loop with its handlers, as interleaved steps).

  \<^bold>\<open>kunpeng-qos-controller\<close> turns policies (a custom resource) into resctrl groups and binds pods to them:
  \<open>QosResctrl\<close> (the groups and the \<^verbatim>\<open>schemata\<close> lines), \<open>QosReconcile\<close> (the reconciler, over any group manager),
  \<open>QosDynamic\<close> (a node's policy that is tightened on every report of interference) and \<open>QosBinding\<close> (pods).

  \<^bold>\<open>kae-device-plugin\<close> offers the accelerators to the kubelet: \<open>KaeDevices\<close>, \<open>KaePlugin\<close> (scanner, notifier,
  manager, servers and the streams of the kubelet as one transition function), \<open>KaeQos\<close> (bandwidth shares and their
  reconciler), \<open>KaeWebhook\<close> (the admission webhook); \<open>KaeScanOk\<close>, \<open>KaePluginOk\<close>, \<open>KaeQosOk\<close>, \<open>KaeWebhookOk\<close>: the proofs.

  \<^bold>\<open>kunpeng-perf-monitor\<close> exports measurements to Prometheus. \<open>NodeCollector\<close> is the registry of the collectors and
  the scrape. The DevKit collectors run a command line tool and read its report: \<open>DevkitConfig\<close> (configuration and
  watcher), \<open>DevkitSelector\<close> and \<open>DevkitArgs\<close> (the command line), \<open>DevkitTopdown\<close>, \<open>DevkitTopdownOk\<close> and \<open>DevkitMemory\<close> (the
  two parsers), \<open>DevkitCollect\<close> (the rounds), \<open>DevkitLog\<close> and \<open>DevkitPublish\<close> (the samples). The other collectors read files of the
  kernel or a library: \<open>PerfFiles\<close> (numbers, \<^verbatim>\<open>schemata\<close> lines, the search for groups), \<open>MpamCollector\<close>,
  \<open>PsiCollector\<close> and \<open>PsiOk\<close>, \<open>PmuCollector\<close> (with the functions of \<^verbatim>\<open>libkperf/kperf\<close> it calls), \<open>MpamSchemata\<close> (what
  the QoS controller writes and this program reads), and \<open>Monitor\<close>, the five collectors under their registry.

  \<^bold>\<open>The base.\<close> \<open>Prelude\<close> has results (an error or a value; \<open>Panic\<close> is a run-time panic), Go's fixed-width
  integers (an \<open>int\<close> with the wrap-around written out), Go maps as association lists whose order no theorem relies on, and
  \<open>sort.Slice\<close>. \<open>GoStrings\<close>, \<open>GoPath\<close>, \<open>GoFloat\<close> and \<open>GoRegexp\<close> are the parts of \<^verbatim>\<open>strings\<close>, \<^verbatim>\<open>strconv\<close>,
  \<^verbatim>\<open>path/filepath\<close>, \<open>float64\<close> and \<^verbatim>\<open>regexp\<close> that the code uses.

  \<^bold>\<open>Interfaces.\<close> \<open>slice_order\<close> is what \<open>sort.Slice\<close> needs of a comparison, and what its result then is; the code's
  comparisons of integers, CPU intervals, pods, sibling pairs and pools (\<open>keyed_order\<close>, a sublocale) are its
  interpretations. \<open>ledger_op\<close> is a charge with its inverse: the supply of a pool and that of its ancestors.
  \<open>keyed_store\<close> is a map with deletion under an invariant: the container cache. \<open>container_stop\<close> is what stopping a
  container does to policy and cache, from which the lifecycle of a container follows: the CRI proxy, the Docker proxy and
  the NRI plugin. \<open>resctrl_manager\<close> is what the reconciler relies on: the local manager over the resctrl file system.

  \<^bold>\<open>What the theorems show.\<close>
    \<^item> The proxies (\<open>DispatcherOk\<close>, \<open>NriOk\<close>, \<open>DockerOk\<close>): a session of the CRI proxy is a run of the allocator that
      keeps the books; a container's life leaves no trace; the runtime gets the CPUs of the granted pool; the NRI
      plugin and the Docker proxy change nothing else; some error paths leak a grant.
    \<^item> The allocator (\<open>TopoTheorems\<close>, \<open>TopoBuildOk\<close>, \<open>TopoRebuild\<close>): in every reachable state each counter is the sum of
      the live grants below it and no pool under the root is overcommitted; the builder's tree is a legal start; release
      undoes allocation; a rebuild charges what the cache says. \<open>TopoChoice\<close> adds which pool is chosen.
    \<^item> The cache (\<open>CacheOk\<close>) implements a map; refreshing it locks its own mutex twice and never returns.
    \<^item> The choice of a NUMA node (\<open>NumaAware\<close>); exclusive sibling pairs, confined cgroup paths and no lost event (\<open>PCoreAgent\<close>,
      \<open>PCorePaths\<close>, \<open>PCoreEvents\<close>).
    \<^item> The QoS controller: a reconciliation establishes the group, one node's finalizer is every node's
      (\<open>QosReconcile\<close>); the dynamic policy stays valid (\<open>QosDynamic\<close>); offline pods join the dynamic group (\<open>QosBinding\<close>).
    \<^item> Discovery (\<open>SysDiscovered\<close>): what is found is a topology, and the policy builder accepts it.
    \<^item> KAE: the manager follows the scans and tells the kubelet, until a stale stream stops a server (\<open>KaePluginOk\<close>); an
      allocation names its devices (\<open>KaeScanOk\<close>); the webhook is idempotent (\<open>KaeWebhookOk\<close>); shares follow the pod and
      its finalizer (\<open>KaeQosOk\<close>).
    \<^item> The monitor: selectors match exactly (\<open>DevkitSelector\<close>); a round is published, a report's table is a tree, the last
      good configuration stays, failures are logged, command lines read back (the other \<open>Devkit\<close> theories); collectors are made
      once (\<open>NodeCollector\<close>); a scrape has no duplicate sample (\<open>Monitor\<close>); \<^verbatim>\<open>schemata\<close> and pressure files are read as they
      were written (\<open>MpamSchemata\<close>, \<open>PsiOk\<close>); of groups of one name the last counts (\<open>PsiOk\<close>); nothing of the PMU
      library is leaked (\<open>PmuCollector\<close>).

  \<^bold>\<open>Bounds and fuel.\<close> Loops of the code are structural recursions or have a termination proof. Fuel is used
  where the code recurses over pointers or retries. The walks over the resource tree take the size of the heap, which
  on a well-formed heap always suffices (\<open>chain_fuel\<close>, and the filter's loops never answer \<open>None\<close>). A retry on
  conflict takes its number of attempts as an argument, which the theorems leave arbitrary. Event loops are transition
  functions, and the theorems are about all their finite runs. Regular expressions are matched by structural
  recursion with continuations. A \<open>float64\<close> is the rational it denotes, rounded after each operation to 53 bits.

  \<^bold>\<open>Arguments of the definitions.\<close> What the code calls and does not define is an argument: the container
  runtime and the Docker daemon (a function from a request to its reply), the files of sysfs and of cgroups (a snapshot, or a store
  with the outcomes of the writes), JSON and YAML decoding, \<^verbatim>\<open>cpuset.Parse\<close>, the Kubernetes clients, the name rules of
  Kubernetes, gopsutil, the kubelet's services, the DevKit tool, the clock. A theorem that needs something of
  them says so in a hypothesis, and its witness gives a concrete function.

  \<^bold>\<open>Not modelled.\<close> The main functions and the wiring of flags; the gRPC and HTTP servers and connections around the handlers
  (\<^verbatim>\<open>server/containerd/server.go\<close>, \<^verbatim>\<open>server/docker/server.go\<close>, \<^verbatim>\<open>policymanager/\<close>), which forward a call to a modelled one;
  the metrics and logging of kunpeng-tap (\<^verbatim>\<open>monitoring/\<close>, \<^verbatim>\<open>topology_metrics_manager.go\<close>), which only read the state; the tickers
  and timeouts of dynamic control (\<^verbatim>\<open>sync_scheduler.go\<close>), whose tasks are modelled; the cgo bindings of libkperf
  (\<^verbatim>\<open>libkperf/\<close>), which convert C structures; generated code under \<^verbatim>\<open>src/api\<close>; and the fakes and helpers of the
  tests under \<^verbatim>\<open>src/test\<close>. Goroutines are modelled where their interleaving matters (KAE, the event loop of the
  binding, the configuration watcher); elsewhere a mutex makes an operation one step.
\<close>

end
